(* ===== verification/Prelude.thy ===== *)
theory Prelude
  imports Main "HOL-Library.Word" "HOL-Library.Multiset" "HOL-Library.Char_ord"
    "HOL-Library.List_Lexorder"
begin

text \<open>
  The types every component shares, and the list, word and character lemmas their proofs use.

  A C string is a \<open>cstr\<close>: \<open>None\<close> is the null pointer and \<open>Some s\<close> the bytes before the
  terminating zero. A \<open>char\<close> is a byte, so \<open>length\<close> counts what \<open>strlen\<close> counts.
  An \<open>amem\<close> says which allocation requests succeed while an operation runs; every
  operation that allocates takes one, so that each out-of-memory branch of the code is a branch
  of the model.
\<close>

unbundle bit_operations_syntax

type_synonym u64 = "64 word"
type_synonym cstr = "char list option"
type_synonym amem = "nat \<Rightarrow> bool"

named_theorems kn_defs "definitions unfolded together by component proofs"

text \<open>The two targets the runtime's \<open>#if\<close> branches distinguish.\<close>

datatype platform = Windows | Posix

definition path_sep :: "platform \<Rightarrow> char" where
  "path_sep p = (case p of Windows \<Rightarrow> CHR 0x5C | Posix \<Rightarrow> CHR ''/'')"

text \<open>
  Whether an allocator serves a request of \<open>n\<close> bytes. A request of \<open>2 ^ 63\<close> bytes or more
  exceeds the largest object of the platform and is never served.
\<close>

definition alloc_ok :: "amem \<Rightarrow> nat \<Rightarrow> bool" where
  "alloc_ok m n \<longleftrightarrow> n < 2 ^ 63 \<and> m n"

abbreviation (input) big_mem :: amem where
  "big_mem \<equiv> \<lambda>_. True"

lemma alloc_ok_True [simp]: "alloc_ok (\<lambda>_. True) n \<longleftrightarrow> n < 2 ^ 63"
  by (simp add: alloc_ok_def)

lemma alloc_okD: "alloc_ok m n \<Longrightarrow> n < 2 ^ 63"
  by (simp add: alloc_ok_def)

text \<open>Memory that serves every request a platform can serve.\<close>

definition plenty :: "amem \<Rightarrow> bool" where
  "plenty m \<longleftrightarrow> (\<forall>n. n < 2 ^ 63 \<longrightarrow> m n)"

lemma plenty_True [simp]: "plenty (\<lambda>_. True)"
  by (simp add: plenty_def)

lemma plenty_ok [simp]: "plenty m \<Longrightarrow> alloc_ok m n \<longleftrightarrow> n < 2 ^ 63"
  by (auto simp: plenty_def alloc_ok_def)

definition byte_of :: "char \<Rightarrow> nat" where
  "byte_of c = of_char c"

lemma byte_of_inj [simp]: "byte_of a = byte_of b \<longleftrightarrow> a = b"
  by (simp add: byte_of_def)

lemma byte_of_less_iff: "byte_of a < byte_of b \<longleftrightarrow> a < b"
  by (simp add: byte_of_def less_char_def)

lemma option_eqI: "(\<And>e. a = Some e \<longleftrightarrow> b = Some e) \<Longrightarrow> a = b"
  by (cases a; cases b) auto

subsection \<open>Lists\<close>

lemma take_drop_upd_outside [simp]:
  "j < i \<Longrightarrow> xs[i := x] ! j = xs ! j"
  by simp

lemma list_update_at_length: "(xs @ y # ys)[length xs := z] = xs @ z # ys"
  by (simp add: list_update_append)

lemma take_Suc_nth: "i < length xs \<Longrightarrow> take (Suc i) xs = take i xs @ [xs ! i]"
  by (rule take_Suc_conv_app_nth)

lemma drop_nth_Cons: "i < length xs \<Longrightarrow> drop i xs = xs ! i # drop (Suc i) xs"
  by (simp add: Cons_nth_drop_Suc)

lemma filter_update_count:
  assumes "i < length xs"
  shows "length (filter P (xs[i := x])) + (if P (xs ! i) then 1 else 0)
       = length (filter P xs) + (if P x then 1 else 0)"
proof -
  have x: "xs = take i xs @ xs ! i # drop (Suc i) xs"
    using assms by (simp add: id_take_nth_drop)
  have u: "xs[i := x] = take i xs @ x # drop (Suc i) xs"
    using assms by (simp add: upd_conv_take_nth_drop)
  have "length (filter P xs) = length (filter P (take i xs @ xs ! i # drop (Suc i) xs))"
    using x by simp
  then show ?thesis unfolding u by simp
qed

subsection \<open>Masks\<close>

text \<open>Masking by \<open>2 ^ k - 1\<close> is the remainder, the reason tables keep power-of-two sizes.\<close>

lemma unat_and_mask:
  fixes x :: u64
  assumes "k < 64"
  shows "unat (x AND (of_nat (2 ^ k) - 1)) = unat x mod 2 ^ k"
proof -
  have "(of_nat (2 ^ k) - 1 :: u64) = mask k"
    by (simp add: mask_eq_exp_minus_1)
  then have "x AND (of_nat (2 ^ k) - 1) = take_bit k x"
    by (simp add: take_bit_eq_mask)
  then have "unat (x AND (of_nat (2 ^ k) - 1)) = take_bit k (unat x)"
    by (simp only: unsigned_take_bit_eq)
  then show ?thesis
    by (simp add: take_bit_eq_mod)
qed

lemma unat_add_mod_pow2:
  fixes x :: u64
  assumes "k \<le> 64"
  shows "unat (x + of_nat n) mod 2 ^ k = (unat x + n) mod 2 ^ k"
proof -
  have d: "(2::nat) ^ k dvd 2 ^ 64" by (rule le_imp_power_dvd [OF assms])
  have "unat (x + of_nat n) = (unat x + n) mod 2 ^ 64"
    by (simp add: unat_word_ariths unat_of_nat mod_add_right_eq)
  then show ?thesis using mod_mod_cancel [OF d] by simp
qed

end
