(* ===== verification/RtString.thy ===== *)
theory RtString
  imports Prelude
begin

text \<open>
  The byte-string helpers of \<open>libs/runtime/src/kn_runtime.c\<close>: \<open>rt_memcmp\<close>,
  \<open>rt_strlen\<close>, \<open>rt_streq\<close>, the copying helpers that allocate on the collected heap, the two
  substring searches, and the FNV-1a hash the tables index by. A pointer into a string is the
  suffix from there on. Lengths are \<open>nat\<close>; where the code adds two caller-supplied
  lengths the wrap-around at \<open>2 ^ 64\<close> is written out.
\<close>

subsection \<open>Comparison\<close>

fun rt_memcmp :: "char list \<Rightarrow> char list \<Rightarrow> nat \<Rightarrow> int" where
  "rt_memcmp xs ys 0 = 0"
| "rt_memcmp (x # xs) (y # ys) (Suc n) =
     (if x \<noteq> y then (if byte_of x < byte_of y then -1 else 1) else rt_memcmp xs ys n)"
| "rt_memcmp xs ys (Suc n) = 0"

fun rt_strlen :: "cstr \<Rightarrow> nat" where
  "rt_strlen None = 0"
| "rt_strlen (Some s) = length s"

fun streq_loop :: "char list \<Rightarrow> char list \<Rightarrow> bool" where
  "streq_loop (x # xs) (y # ys) = (if x \<noteq> y then False else streq_loop xs ys)"
| "streq_loop [] [] = True"
| "streq_loop [] (y # ys) = False"
| "streq_loop (x # xs) [] = False"

fun rt_streq :: "cstr \<Rightarrow> cstr \<Rightarrow> bool" where
  "rt_streq None None = True"
| "rt_streq (Some a) (Some b) = streq_loop a b"
| "rt_streq None (Some b) = False"
| "rt_streq (Some a) None = False"

text \<open>The bytes a C string denotes, the null pointer counting as empty (as \<open>rt_strlen\<close> does).\<close>

definition str :: "cstr \<Rightarrow> char list" where
  "str s = (case s of None \<Rightarrow> [] | Some t \<Rightarrow> t)"

lemma str_simps [simp]: "str None = []" "str (Some t) = t"
  by (simp_all add: str_def)

lemma rt_strlen_str: "rt_strlen s = length (str s)"
  by (cases s) simp_all

lemma streq_loop_iff [simp]: "streq_loop a b \<longleftrightarrow> a = b"
  by (induction a b rule: streq_loop.induct) auto

lemma rt_streq_iff [simp]: "rt_streq a b \<longleftrightarrow> a = b"
  by (cases a; cases b) simp_all

lemma rt_memcmp_eq_0:
  "n \<le> length xs \<Longrightarrow> n \<le> length ys \<Longrightarrow> rt_memcmp xs ys n = 0 \<longleftrightarrow> take n xs = take n ys"
  by (induction xs ys n rule: rt_memcmp.induct) auto

text \<open>On equally long prefixes the sign is the lexicographic order of the bytes.\<close>

lemma rt_memcmp_neg:
  "length xs = n \<Longrightarrow> length ys = n \<Longrightarrow> rt_memcmp xs ys n < 0 \<longleftrightarrow> xs < ys"
  by (induction xs ys n rule: rt_memcmp.induct) (auto simp: byte_of_less_iff)

subsection \<open>Copies on the collected heap\<close>

definition rt_strdup_gc :: "amem \<Rightarrow> cstr \<Rightarrow> cstr" where
  "rt_strdup_gc m s =
     (if alloc_ok m (rt_strlen s + 1) then Some (str s) else None)"

definition rt_slice_gc :: "amem \<Rightarrow> cstr \<Rightarrow> nat \<Rightarrow> nat \<Rightarrow> cstr" where
  "rt_slice_gc m s begin len =
     (case s of None \<Rightarrow> rt_strdup_gc m (Some [])
      | Some t \<Rightarrow>
          (let n = length t;
               begin = (if begin > n then n else begin);
               len = (if (begin + len) mod 2 ^ 64 > n then n - begin else len)
           in if alloc_ok m (len + 1) then Some (take len (drop begin t)) else None))"

definition rt_concat_gc :: "amem \<Rightarrow> cstr \<Rightarrow> cstr \<Rightarrow> cstr" where
  "rt_concat_gc m a b =
     (if alloc_ok m (rt_strlen a + rt_strlen b + 1) then Some (str a @ str b) else None)"

lemma rt_strdup_gc_ok: "alloc_ok m (length t + 1) \<Longrightarrow> rt_strdup_gc m (Some t) = Some t"
  by (simp add: rt_strdup_gc_def)

lemma rt_slice_gc_in_range:
  assumes "b + l \<le> length t" "alloc_ok m (l + 1)" "length t < 2 ^ 63"
  shows "rt_slice_gc m (Some t) b l = Some (take l (drop b t))"
proof -
  have "(b + l) mod 2 ^ 64 = b + l"
    using assms(1,3) by (intro mod_less) simp
  then show ?thesis using assms by (simp add: rt_slice_gc_def)
qed

text \<open>A slice never reaches past the end, whatever the two lengths, short of the wrap-around.\<close>

lemma rt_slice_gc_clamped:
  assumes "b < 2 ^ 63" "l < 2 ^ 63" "length t < 2 ^ 63" "rt_slice_gc m (Some t) b l = Some r"
  shows "r = take l (drop b t)"
proof -
  have "(b + l) mod 2 ^ 64 = b + l" "(length t + l) mod 2 ^ 64 = length t + l"
    using assms(1-3) by (auto intro!: mod_less)
  then show ?thesis using assms(4)
    by (auto simp: rt_slice_gc_def Let_def split: if_splits)
qed

subsection \<open>Substring search\<close>

definition occurs_at :: "char list \<Rightarrow> char list \<Rightarrow> nat \<Rightarrow> bool" where
  "occurs_at s p i \<longleftrightarrow> i + length p \<le> length s \<and> take (length p) (drop i s) = p"

function contains_loop :: "char list \<Rightarrow> char list \<Rightarrow> nat \<Rightarrow> bool" where
  "contains_loop s p i =
     (if i + length p \<le> length s
      then (if rt_memcmp (drop i s) p (length p) = 0 then True else contains_loop s p (i + 1))
      else False)"
  by pat_completeness auto
termination
  by (relation "measure (\<lambda>(s, p, i). Suc (length s) - i)") auto

definition rt_str_contains :: "cstr \<Rightarrow> cstr \<Rightarrow> bool" where
  "rt_str_contains s sub =
     (if rt_strlen sub = 0 then True
      else if rt_strlen s < rt_strlen sub then False
      else contains_loop (str s) (str sub) 0)"

function index_of_loop :: "char list \<Rightarrow> char list \<Rightarrow> nat \<Rightarrow> int" where
  "index_of_loop s p i =
     (if i + length p \<le> length s
      then (if rt_memcmp (drop i s) p (length p) = 0 then int i else index_of_loop s p (i + 1))
      else -1)"
  by pat_completeness auto
termination
  by (relation "measure (\<lambda>(s, p, i). Suc (length s) - i)") auto

definition rt_str_index_of :: "cstr \<Rightarrow> cstr \<Rightarrow> int" where
  "rt_str_index_of s sub =
     (if rt_strlen sub = 0 then 0
      else if rt_strlen s < rt_strlen sub then -1
      else index_of_loop (str s) (str sub) 0)"

declare contains_loop.simps [simp del] index_of_loop.simps [simp del]

lemma memcmp_occurs:
  "i + length p \<le> length s \<Longrightarrow> rt_memcmp (drop i s) p (length p) = 0 \<longleftrightarrow> occurs_at s p i"
  by (simp add: rt_memcmp_eq_0 occurs_at_def)

lemma occurs_atD: "occurs_at s p i \<Longrightarrow> i + length p \<le> length s"
  by (simp add: occurs_at_def)

lemma index_of_loop_spec:
  "index_of_loop s p i =
     (if \<exists>j\<ge>i. occurs_at s p j then int (LEAST j. i \<le> j \<and> occurs_at s p j) else -1)"
proof (induction s p i rule: index_of_loop.induct)
  case (1 s p i)
  show ?case
  proof (cases "occurs_at s p i")
    case True
    then have "(LEAST j. i \<le> j \<and> occurs_at s p j) = i"
      by (intro Least_equality) auto
    with True show ?thesis
      by (subst index_of_loop.simps) (auto simp: memcmp_occurs dest: occurs_atD)
  next
    case False
    then have later: "i \<le> j \<and> occurs_at s p j \<longleftrightarrow> Suc i \<le> j \<and> occurs_at s p j" for j
      by (metis Suc_leD le_antisym not_less_eq_eq)
    show ?thesis
    proof (cases "i + length p \<le> length s")
      case True
      with False have "index_of_loop s p i = index_of_loop s p (i + 1)"
        by (subst index_of_loop.simps) (simp add: memcmp_occurs)
      moreover have "rt_memcmp (drop i s) p (length p) \<noteq> 0"
        using True False by (simp add: memcmp_occurs)
      ultimately show ?thesis using "1.IH" [OF True] later by simp
    next
      case no: False
      then have "\<not> (\<exists>j\<ge>i. occurs_at s p j)" by (auto dest: occurs_atD)
      with no show ?thesis by (subst index_of_loop.simps) auto
    qed
  qed
qed

lemma contains_loop_spec: "contains_loop s p i \<longleftrightarrow> (\<exists>j\<ge>i. occurs_at s p j)"
proof (induction s p i rule: contains_loop.induct)
  case (1 s p i)
  show ?case
  proof (cases "i + length p \<le> length s")
    case True
    show ?thesis
    proof (cases "occurs_at s p i")
      case True
      then show ?thesis
        by (subst contains_loop.simps) (auto simp: memcmp_occurs dest: occurs_atD)
    next
      case no: False
      have "contains_loop s p i = contains_loop s p (i + 1)"
        using True no by (subst contains_loop.simps) (simp add: memcmp_occurs)
      also have "\<dots> \<longleftrightarrow> (\<exists>j\<ge>i + 1. occurs_at s p j)"
        using "1.IH" [OF True] True no by (simp add: memcmp_occurs)
      also have "\<dots> \<longleftrightarrow> (\<exists>j\<ge>i. occurs_at s p j)"
        using no by (metis Suc_eq_plus1 Suc_leD le_antisym not_less_eq_eq)
      finally show ?thesis .
    qed
  next
    case False
    then show ?thesis by (subst contains_loop.simps) (auto dest: occurs_atD)
  qed
qed

text \<open>The two searches agree: one answers whether, the other where.\<close>

lemma rt_str_contains_iff: "rt_str_contains s sub \<longleftrightarrow> (\<exists>i. occurs_at (str s) (str sub) i)"
  by (auto simp: rt_str_contains_def rt_strlen_str contains_loop_spec occurs_at_def)

subsection \<open>The table hash\<close>

fun rt_hash_loop :: "u64 \<Rightarrow> char list \<Rightarrow> u64" where
  "rt_hash_loop h [] = h"
| "rt_hash_loop h (c # cs) =
     rt_hash_loop ((h XOR of_nat (byte_of c)) * 1099511628211) cs"

definition rt_hash :: "cstr \<Rightarrow> u64" where
  "rt_hash s = (case s of None \<Rightarrow> 1469598103934665603
                        | Some t \<Rightarrow> rt_hash_loop 1469598103934665603 t)"

lemma rt_hash_loop_append: "rt_hash_loop h (xs @ ys) = rt_hash_loop (rt_hash_loop h xs) ys"
  by (induction xs arbitrary: h) simp_all

subsection \<open>What substring search finds\<close>

text \<open>
  \<open>rt_str_index_of\<close> returns the position of the first occurrence of the substring, and -1
  exactly when there is none; \<open>rt_str_contains\<close> says which of the two it is.
\<close>

theorem rt_str_index_of_first:
  "rt_str_index_of s sub =
     (if \<exists>i. occurs_at (str s) (str sub) i then int (LEAST i. occurs_at (str s) (str sub) i) else -1) \<and>
   rt_str_contains s sub = (0 \<le> rt_str_index_of s sub)"
proof -
  have "rt_str_index_of s sub =
     (if \<exists>i. occurs_at (str s) (str sub) i then int (LEAST i. occurs_at (str s) (str sub) i) else -1)"
  proof (cases "rt_strlen sub = 0")
    case True
    then have "occurs_at (str s) (str sub) 0" by (simp add: rt_strlen_str occurs_at_def)
    moreover from this have "(LEAST i. occurs_at (str s) (str sub) i) = 0" by (intro Least_equality) auto
    ultimately show ?thesis using True by (auto simp: rt_str_index_of_def)
  next
    case False
    then show ?thesis
      using index_of_loop_spec [of "str s" "str sub" 0]
      by (auto simp: rt_str_index_of_def rt_strlen_str occurs_at_def)
  qed
  then show ?thesis by (simp add: rt_str_contains_iff)
qed

end
