(* ===== verification/RtList.thy ===== *)
theory RtList
  imports RtString
begin

text \<open>
  The runtime's growable list (\<open>KnList\<close>, \<open>__kn_list_*\<close> in
  \<open>libs/runtime/src/kn_runtime.c\<close>): two parallel arrays of tags and payloads that double
  when full. A 64-bit payload is either raw bits or the address of a C string, kept here with
  the string it points to; the code reads it as a string exactly when the tag is
  \<open>KN_ANY_TAG_STRING\<close>. A null list pointer is \<open>None\<close>, a null array is the empty list.
\<close>

datatype payload = Bits u64 | StrP cstr

definition KN_ANY_TAG_NONE :: u64 where "KN_ANY_TAG_NONE = 0"
definition KN_ANY_TAG_I64 :: u64 where "KN_ANY_TAG_I64 = 1"
definition KN_ANY_TAG_STRING :: u64 where "KN_ANY_TAG_STRING = 5"
definition KN_ANY_TAG_PTR :: u64 where "KN_ANY_TAG_PTR = 6"

fun payload_str :: "payload \<Rightarrow> cstr" where
  "payload_str (StrP s) = s"
| "payload_str (Bits w) = None"

record kn_list =
  l_count :: nat
  l_cap :: nat
  l_tags :: "u64 list"
  l_payloads :: "payload list"

definition list_new :: "amem \<Rightarrow> kn_list option" where
  "list_new m =
     (if alloc_ok m 32
      then Some \<lparr>l_count = 0, l_cap = 0, l_tags = [], l_payloads = []\<rparr> else None)"

text \<open>\<open>while (cap < want) cap <<= 1\<close>; the caller passes a positive \<open>cap\<close>.\<close>

function grow_cap :: "nat \<Rightarrow> nat \<Rightarrow> nat" where
  "grow_cap cap want = (if cap < want \<and> 0 < cap then grow_cap (cap * 2) want else cap)"
  by pat_completeness auto
termination
  by (relation "measure (\<lambda>(cap, want). want - cap)") auto

declare grow_cap.simps [simp del]

definition list_reserve :: "amem \<Rightarrow> kn_list \<Rightarrow> nat \<Rightarrow> kn_list" where
  "list_reserve m l want =
     (if l_cap l \<ge> want then l
      else (let cap = grow_cap (if l_cap l \<noteq> 0 then l_cap l else 8) want
            in if alloc_ok m ((8 * cap) mod 2 ^ 64)
               then l\<lparr>l_tags := take (l_count l) (l_tags l) @ replicate (cap - l_count l) 0,
                      l_payloads := take (l_count l) (l_payloads l) @ replicate (cap - l_count l) (Bits 0),
                      l_cap := cap\<rparr>
               else l))"

definition list_full :: "kn_list \<Rightarrow> bool" where
  "list_full l \<longleftrightarrow> l_tags l = [] \<or> l_payloads l = [] \<or> l_cap l \<le> l_count l"

definition list_add :: "amem \<Rightarrow> kn_list option \<Rightarrow> u64 \<Rightarrow> payload \<Rightarrow> kn_list option" where
  "list_add m lp t p =
     (case lp of None \<Rightarrow> None
      | Some l0 \<Rightarrow>
          (let l = list_reserve m l0 (l_count l0 + 1)
           in if list_full l then Some l
              else Some (l\<lparr>l_tags := (l_tags l)[l_count l := t],
                           l_payloads := (l_payloads l)[l_count l := p],
                           l_count := l_count l + 1\<rparr>)))"

text \<open>\<open>for (i = count; i > idx; i--) a[i] = a[i - 1]\<close>\<close>

fun shift_up :: "'a list \<Rightarrow> nat \<Rightarrow> nat \<Rightarrow> 'a list" where
  "shift_up xs 0 idx = xs"
| "shift_up xs (Suc i) idx = (if Suc i > idx then shift_up (xs[Suc i := xs ! i]) i idx else xs)"

definition list_insert :: "amem \<Rightarrow> kn_list option \<Rightarrow> int \<Rightarrow> u64 \<Rightarrow> payload \<Rightarrow> kn_list option" where
  "list_insert m lp index t p =
     (case lp of None \<Rightarrow> None
      | Some l0 \<Rightarrow>
          (let idx0 = nat (if index < 0 then 0 else index);
               idx = (if idx0 > l_count l0 then l_count l0 else idx0);
               l = list_reserve m l0 (l_count l0 + 1)
           in if list_full l then Some l
              else Some (l\<lparr>l_tags := (shift_up (l_tags l) (l_count l) idx)[idx := t],
                           l_payloads := (shift_up (l_payloads l) (l_count l) idx)[idx := p],
                           l_count := l_count l + 1\<rparr>)))"

definition list_get :: "kn_list option \<Rightarrow> nat \<Rightarrow> u64 \<times> payload" where
  "list_get lp index =
     (case lp of None \<Rightarrow> (0, Bits 0)
      | Some l \<Rightarrow> if index \<ge> l_count l then (0, Bits 0)
                  else (l_tags l ! index, l_payloads l ! index))"

definition list_set :: "kn_list option \<Rightarrow> nat \<Rightarrow> u64 \<Rightarrow> payload \<Rightarrow> kn_list option" where
  "list_set lp index t p =
     (case lp of None \<Rightarrow> None
      | Some l \<Rightarrow> if index \<ge> l_count l then Some l
                  else Some (l\<lparr>l_tags := (l_tags l)[index := t],
                               l_payloads := (l_payloads l)[index := p]\<rparr>))"

definition list_count :: "kn_list option \<Rightarrow> nat" where
  "list_count lp = (case lp of None \<Rightarrow> 0 | Some l \<Rightarrow> l_count l)"

definition list_clear :: "kn_list option \<Rightarrow> kn_list option" where
  "list_clear lp = (case lp of None \<Rightarrow> None | Some l \<Rightarrow> Some (l\<lparr>l_count := 0\<rparr>))"

text \<open>\<open>for (i = index + 1; i < count; i++) a[i - 1] = a[i]\<close>\<close>

function shift_down :: "'a list \<Rightarrow> nat \<Rightarrow> nat \<Rightarrow> 'a list" where
  "shift_down xs i n = (if i < n then shift_down (xs[i - 1 := xs ! i]) (i + 1) n else xs)"
  by pat_completeness auto
termination
  by (relation "measure (\<lambda>(xs, i, n). n - i)") auto

declare shift_down.simps [simp del]

definition list_remove_at :: "kn_list option \<Rightarrow> nat \<Rightarrow> kn_list option \<times> u64 \<times> payload" where
  "list_remove_at lp index =
     (case lp of None \<Rightarrow> (None, 0, Bits 0)
      | Some l \<Rightarrow>
          if index \<ge> l_count l then (Some l, 0, Bits 0)
          else (Some (l\<lparr>l_tags := shift_down (l_tags l) (index + 1) (l_count l),
                        l_payloads := shift_down (l_payloads l) (index + 1) (l_count l),
                        l_count := l_count l - 1\<rparr>),
                l_tags l ! index, l_payloads l ! index))"

definition list_pop :: "kn_list option \<Rightarrow> kn_list option \<times> u64 \<times> payload" where
  "list_pop lp =
     (case lp of None \<Rightarrow> (None, 0, Bits 0)
      | Some l \<Rightarrow>
          if l_count l = 0 then (Some l, 0, Bits 0)
          else (let idx = l_count l - 1
                in (Some (l\<lparr>l_count := l_count l - 1\<rparr>), l_tags l ! idx, l_payloads l ! idx)))"

definition list_is_empty :: "kn_list option \<Rightarrow> bool" where
  "list_is_empty lp = (case lp of None \<Rightarrow> True | Some l \<Rightarrow> l_count l = 0)"

function list_index_loop :: "kn_list \<Rightarrow> u64 \<Rightarrow> payload \<Rightarrow> nat \<Rightarrow> int" where
  "list_index_loop l t p i =
     (if i < l_count l then
        (if l_tags l ! i \<noteq> t then list_index_loop l t p (i + 1)
         else if t = KN_ANY_TAG_STRING then
           (if rt_streq (payload_str (l_payloads l ! i)) (payload_str p) then int i
            else list_index_loop l t p (i + 1))
         else if l_payloads l ! i = p then int i
         else list_index_loop l t p (i + 1))
      else -1)"
  by pat_completeness auto
termination
  by (relation "measure (\<lambda>(l, t, p, i). l_count l - i)") auto

definition list_index_of :: "kn_list option \<Rightarrow> u64 \<Rightarrow> payload \<Rightarrow> int" where
  "list_index_of lp t p = (case lp of None \<Rightarrow> -1 | Some l \<Rightarrow> list_index_loop l t p 0)"

function list_contains_loop :: "kn_list \<Rightarrow> u64 \<Rightarrow> payload \<Rightarrow> nat \<Rightarrow> bool" where
  "list_contains_loop l t p i =
     (if i < l_count l then
        (if l_tags l ! i \<noteq> t then list_contains_loop l t p (i + 1)
         else if t = KN_ANY_TAG_STRING then
           (if rt_streq (payload_str (l_payloads l ! i)) (payload_str p) then True
            else list_contains_loop l t p (i + 1))
         else if l_payloads l ! i = p then True
         else list_contains_loop l t p (i + 1))
      else False)"
  by pat_completeness auto
termination
  by (relation "measure (\<lambda>(l, t, p, i). l_count l - i)") auto

definition list_contains :: "kn_list option \<Rightarrow> u64 \<Rightarrow> payload \<Rightarrow> bool" where
  "list_contains lp t p = (case lp of None \<Rightarrow> False | Some l \<Rightarrow> list_contains_loop l t p 0)"

declare list_index_loop.simps [simp del] list_contains_loop.simps [simp del]

subsection \<open>The list as a sequence of values\<close>

type_synonym any_value = "u64 \<times> payload"

definition list_abs :: "kn_list \<Rightarrow> any_value list" where
  "list_abs l = zip (take (l_count l) (l_tags l)) (take (l_count l) (l_payloads l))"

definition list_inv :: "kn_list \<Rightarrow> bool" where
  "list_inv l \<longleftrightarrow> l_count l \<le> l_cap l \<and> length (l_tags l) = l_cap l \<and>
     length (l_payloads l) = l_cap l \<and> l_cap l < 2 ^ 60"

definition any_eq :: "u64 \<Rightarrow> payload \<Rightarrow> any_value \<Rightarrow> bool" where
  "any_eq t p v \<longleftrightarrow> fst v = t \<and>
     (if t = KN_ANY_TAG_STRING then payload_str (snd v) = payload_str p else snd v = p)"

lemma list_abs_length [simp]: "list_inv l \<Longrightarrow> length (list_abs l) = l_count l"
  by (simp add: list_abs_def list_inv_def)

lemma list_abs_nth:
  "list_inv l \<Longrightarrow> i < l_count l \<Longrightarrow> list_abs l ! i = (l_tags l ! i, l_payloads l ! i)"
  by (simp add: list_abs_def list_inv_def)

lemma grow_cap_bounds:
  "0 < cap \<Longrightarrow> want \<le> grow_cap cap want \<and> cap \<le> grow_cap cap want \<and>
     grow_cap cap want < max (Suc cap) (2 * want)"
proof (induction cap want rule: grow_cap.induct)
  case (1 cap want)
  then show ?case by (subst (1 2 3) grow_cap.simps) auto
qed

lemma list_reserve_inv: "list_inv l \<Longrightarrow> want \<le> l_count l + 1 \<Longrightarrow> list_inv (list_reserve m l want)"
proof -
  assume inv: "list_inv l" and want: "want \<le> l_count l + 1"
  let ?start = "if l_cap l \<noteq> 0 then l_cap l else 8"
  let ?cap = "grow_cap ?start want"
  have pos: "0 < ?start" by simp
  note b = grow_cap_bounds [OF pos, of want, THEN conjunct1]
    grow_cap_bounds [OF pos, of want, THEN conjunct2, THEN conjunct1]
    grow_cap_bounds [OF pos, of want, THEN conjunct2, THEN conjunct2]
  have c: "l_count l \<le> l_cap l" "l_cap l < 2 ^ 60" using inv by (auto simp: list_inv_def)
  have "8 * ?cap < 2 ^ 64" using b(3) c want by (auto split: if_splits)
  then have md: "(8 * ?cap) mod 2 ^ 64 = 8 * ?cap" by (rule mod_less)
  have cc: "l_count l \<le> ?cap" using b(2) c by (auto split: if_splits)
  show ?thesis
  proof (cases "l_cap l \<ge> want \<or> \<not> alloc_ok m ((8 * ?cap) mod 2 ^ 64)")
    case True
    then show ?thesis using inv by (auto simp: list_reserve_def Let_def)
  next
    case False
    then have "?cap < 2 ^ 60" using md alloc_okD [of m "8 * ?cap"] by simp
    then show ?thesis using False inv cc
      by (simp add: list_reserve_def Let_def list_inv_def)
  qed
qed

lemma list_reserve_abs:
  assumes "list_inv l" "want \<le> l_count l + 1"
  shows "list_abs (list_reserve m l want) = list_abs l \<and> l_count (list_reserve m l want) = l_count l"
  using assms by (simp add: list_reserve_def Let_def list_abs_def list_inv_def)

text \<open>Either the list has room for one more value or the allocator refused the growth.\<close>

lemma list_reserve_room:
  assumes "list_inv l"
  shows "\<not> list_full (list_reserve m l (l_count l + 1)) \<or>
    \<not> alloc_ok m ((8 * grow_cap (if l_cap l \<noteq> 0 then l_cap l else 8) (l_count l + 1)) mod 2 ^ 64)"
proof -
  let ?start = "if l_cap l \<noteq> 0 then l_cap l else 8"
  have "l_count l + 1 \<le> grow_cap ?start (l_count l + 1)"
    using grow_cap_bounds [of ?start "l_count l + 1"] by auto
  then show ?thesis using assms
    by (auto simp: list_reserve_def Let_def list_full_def list_inv_def)
qed

lemma zip_snoc_upd:
  assumes "n < length xs" "n < length ys"
  shows "zip (take (Suc n) (xs[n := x])) (take (Suc n) (ys[n := y])) = zip (take n xs) (take n ys) @ [(x, y)]"
  using assms by (simp add: take_Suc_nth)

lemma list_add_cases:
  assumes inv: "list_inv l"
  obtains (added) l' where "list_add m (Some l) t p = Some l'" "list_inv l'"
      "list_abs l' = list_abs l @ [(t, p)]"
  | (refused) l' where "list_add m (Some l) t p = Some l'" "list_inv l'" "list_abs l' = list_abs l"
      "\<not> alloc_ok m ((8 * grow_cap (if l_cap l \<noteq> 0 then l_cap l else 8) (l_count l + 1)) mod 2 ^ 64)"
proof -
  let ?l = "list_reserve m l (l_count l + 1)"
  have i: "list_inv ?l" using list_reserve_inv [OF inv] by simp
  have a: "list_abs ?l = list_abs l" "l_count ?l = l_count l"
    using list_reserve_abs [OF inv] by auto
  show ?thesis
  proof (cases "list_full ?l")
    case True
    then have "list_add m (Some l) t p = Some ?l" by (simp add: list_add_def Let_def)
    with refused [OF this i a(1)] list_reserve_room [OF inv, of m] True show ?thesis by blast
  next
    case False
    let ?n = "?l\<lparr>l_tags := (l_tags ?l)[l_count ?l := t], l_payloads := (l_payloads ?l)[l_count ?l := p],
                  l_count := l_count ?l + 1\<rparr>"
    have room: "l_count ?l < l_cap ?l" using False by (simp add: list_full_def)
    have "list_add m (Some l) t p = Some ?n" using False by (simp add: list_add_def Let_def)
    moreover have "list_inv ?n" using i room by (simp add: list_inv_def)
    moreover have "list_abs ?n = list_abs ?l @ [(t, p)]"
      using i room zip_snoc_upd [of "l_count ?l" "l_tags ?l" "l_payloads ?l" t p]
      by (simp add: list_abs_def list_inv_def)
    ultimately show ?thesis using a(1) by (intro added) auto
  qed
qed

lemma list_new_props: "list_new m = Some l \<Longrightarrow> list_inv l \<and> list_abs l = []"
  by (auto simp: list_new_def list_inv_def list_abs_def split: if_splits)

text \<open>The remaining operations, on every branch.\<close>

lemma shift_up_length [simp]: "length (shift_up xs i idx) = length xs"
  by (induction xs i idx rule: shift_up.induct) auto

lemma shift_up_nth:
  "i < length xs \<Longrightarrow> j < length xs \<Longrightarrow>
     shift_up xs i idx ! j = (if idx < j \<and> j \<le> i then xs ! (j - 1) else xs ! j)"
proof (induction xs i idx rule: shift_up.induct)
  case (2 xs i idx)
  then show ?case by (cases "j = Suc i") (auto simp: nth_list_update)
qed auto

lemma shift_up_insert:
  assumes "n < length xs" "idx \<le> n"
  shows "take (Suc n) ((shift_up xs n idx)[idx := x]) = take idx xs @ x # drop idx (take n xs)"
proof (rule nth_equalityI)
  show len: "length (take (Suc n) ((shift_up xs n idx)[idx := x])) =
      length (take idx xs @ x # drop idx (take n xs))"
    using assms by simp
  fix j assume "j < length (take (Suc n) ((shift_up xs n idx)[idx := x]))"
  then have j: "j < Suc n" using assms by simp
  show "take (Suc n) ((shift_up xs n idx)[idx := x]) ! j =
      (take idx xs @ x # drop idx (take n xs)) ! j"
    using assms j by (auto simp: nth_append nth_list_update shift_up_nth nth_Cons')
qed

lemma shift_down_length [simp]: "length (shift_down xs i n) = length xs"
proof (induction xs i n rule: shift_down.induct)
  case (1 xs i n)
  then show ?case by (subst shift_down.simps) auto
qed

lemma shift_down_nth:
  "0 < i \<Longrightarrow> n \<le> length xs \<Longrightarrow> j < length xs \<Longrightarrow>
     shift_down xs i n ! j = (if i \<le> Suc j \<and> Suc j < n then xs ! Suc j else xs ! j)"
proof (induction xs i n arbitrary: j rule: shift_down.induct)
  case (1 xs i n)
  show ?case
  proof (cases "i < n")
    case True
    have "shift_down xs i n ! j = shift_down (xs[i - 1 := xs ! i]) (i + 1) n ! j"
      using True by (subst shift_down.simps) simp
    also have "\<dots> = (if i + 1 \<le> Suc j \<and> Suc j < n then xs[i - 1 := xs ! i] ! Suc j
                     else xs[i - 1 := xs ! i] ! j)"
      using "1.IH" [OF True, of j] "1.prems" by simp
    also have "\<dots> = (if i \<le> Suc j \<and> Suc j < n then xs ! Suc j else xs ! j)"
      using True "1.prems" by (auto simp: nth_list_update)
    finally show ?thesis .
  next
    case False
    then show ?thesis by (subst shift_down.simps) auto
  qed
qed

lemma shift_down_remove:
  assumes "idx < n" "n \<le> length xs"
  shows "take (n - 1) (shift_down xs (idx + 1) n) = take idx xs @ drop (Suc idx) (take n xs)"
proof (rule nth_equalityI)
  show "length (take (n - 1) (shift_down xs (idx + 1) n)) =
      length (take idx xs @ drop (Suc idx) (take n xs))"
    using assms by simp
  fix j assume "j < length (take (n - 1) (shift_down xs (idx + 1) n))"
  then have j: "j < n - 1" using assms by simp
  show "take (n - 1) (shift_down xs (idx + 1) n) ! j =
      (take idx xs @ drop (Suc idx) (take n xs)) ! j"
    using assms j by (auto simp: nth_append shift_down_nth)
qed

lemma zip_insert:
  assumes "length a = length b" "i \<le> length a"
  shows "zip (take i a @ x # drop i a) (take i b @ y # drop i b) =
     take i (zip a b) @ (x, y) # drop i (zip a b)"
  using assms by (simp add: zip_append take_zip drop_zip)

lemma zip_remove:
  assumes "length a = length b" "i < length a"
  shows "zip (take i a @ drop (Suc i) a) (take i b @ drop (Suc i) b) =
     take i (zip a b) @ drop (Suc i) (zip a b)"
  using assms by (simp add: zip_append take_zip drop_zip)

lemma list_insert_ok:
  assumes inv: "list_inv l"
    and room: "alloc_ok m ((8 * grow_cap (if l_cap l \<noteq> 0 then l_cap l else 8) (l_count l + 1)) mod 2 ^ 64)"
  shows "\<exists>l'. list_insert m (Some l) index t p = Some l' \<and> list_inv l' \<and>
     list_abs l' = (let i = min (nat index) (l_count l)
                    in take i (list_abs l) @ (t, p) # drop i (list_abs l))"
proof -
  let ?l = "list_reserve m l (l_count l + 1)"
  let ?i = "min (nat index) (l_count l)"
  have i: "list_inv ?l" using list_reserve_inv [OF inv] by simp
  have a: "list_abs ?l = list_abs l" "l_count ?l = l_count l" using list_reserve_abs [OF inv] by auto
  have nf: "\<not> list_full ?l" using list_reserve_room [OF inv, of m] room by simp
  let ?n = "?l\<lparr>l_tags := (shift_up (l_tags ?l) (l_count ?l) ?i)[?i := t],
               l_payloads := (shift_up (l_payloads ?l) (l_count ?l) ?i)[?i := p],
               l_count := l_count ?l + 1\<rparr>"
  have "(if nat (if index < 0 then 0 else index) > l_count l then l_count l
         else nat (if index < 0 then 0 else index)) = ?i" by auto
  then have "list_insert m (Some l) index t p = Some ?n"
    using nf by (simp add: list_insert_def Let_def)
  moreover have r: "l_count ?l < l_cap ?l" using nf by (simp add: list_full_def)
  then have "list_inv ?n" using i by (simp add: list_inv_def)
  moreover have "list_abs ?n = take ?i (list_abs ?l) @ (t, p) # drop ?i (list_abs ?l)"
  proof -
    let ?a = "take (l_count ?l) (l_tags ?l)" and ?b = "take (l_count ?l) (l_payloads ?l)"
    have lens: "l_count ?l < length (l_tags ?l)" "l_count ?l < length (l_payloads ?l)"
      using i r by (auto simp: list_inv_def)
    have ti: "take ?i ?a = take ?i (l_tags ?l)" "take ?i ?b = take ?i (l_payloads ?l)"
      using a(2) by (simp_all add: min_def)
    have "list_abs ?n = zip (take ?i ?a @ t # drop ?i ?a) (take ?i ?b @ p # drop ?i ?b)"
      using shift_up_insert [OF lens(1), of ?i t] shift_up_insert [OF lens(2), of ?i p] a(2) ti
      by (simp add: list_abs_def)
    also have "\<dots> = take ?i (zip ?a ?b) @ (t, p) # drop ?i (zip ?a ?b)"
      using lens a(2) by (intro zip_insert) auto
    finally show ?thesis by (simp add: list_abs_def)
  qed
  ultimately show ?thesis using a(1) by (auto simp: Let_def)
qed

lemma list_remove_at_spec:
  assumes inv: "list_inv l" and i: "i < l_count l"
  shows "\<exists>l'. list_remove_at (Some l) i = (Some l', list_abs l ! i) \<and> list_inv l' \<and>
     list_abs l' = take i (list_abs l) @ drop (Suc i) (list_abs l)"
proof -
  let ?n = "l\<lparr>l_tags := shift_down (l_tags l) (i + 1) (l_count l),
             l_payloads := shift_down (l_payloads l) (i + 1) (l_count l), l_count := l_count l - 1\<rparr>"
  let ?a = "take (l_count l) (l_tags l)" and ?b = "take (l_count l) (l_payloads l)"
  have lens: "l_count l \<le> length (l_tags l)" "l_count l \<le> length (l_payloads l)"
    using inv by (auto simp: list_inv_def)
  have "list_remove_at (Some l) i = (Some ?n, list_abs l ! i)"
    using i list_abs_nth [OF inv i] by (simp add: list_remove_at_def)
  moreover have "list_inv ?n" using inv by (auto simp: list_inv_def)
  moreover have "list_abs ?n = take i (list_abs l) @ drop (Suc i) (list_abs l)"
  proof -
    have ti: "take i ?a = take i (l_tags l)" "take i ?b = take i (l_payloads l)"
      using i by (simp_all add: min_def)
    have "list_abs ?n = zip (take i ?a @ drop (Suc i) ?a) (take i ?b @ drop (Suc i) ?b)"
      using shift_down_remove [OF i lens(1)] shift_down_remove [OF i lens(2)] ti
      by (simp add: list_abs_def)
    also have "\<dots> = take i (zip ?a ?b) @ drop (Suc i) (zip ?a ?b)"
      using lens i by (intro zip_remove) auto
    finally show ?thesis by (simp add: list_abs_def)
  qed
  ultimately show ?thesis by blast
qed

lemma list_pop_spec:
  assumes inv: "list_inv l" and n: "l_count l \<noteq> 0"
  shows "\<exists>l'. list_pop (Some l) = (Some l', last (list_abs l)) \<and> list_inv l' \<and>
     list_abs l' = butlast (list_abs l)"
proof -
  have ne: "list_abs l \<noteq> []" using inv n by (metis list.size(3) list_abs_length)
  have "last (list_abs l) = (l_tags l ! (l_count l - 1), l_payloads l ! (l_count l - 1))"
    using ne inv n by (simp add: last_conv_nth list_abs_nth)
  moreover have "list_abs (l\<lparr>l_count := l_count l - 1\<rparr>) = butlast (list_abs l)"
    using inv n list_abs_length [OF inv]
    by (simp add: butlast_conv_take) (simp add: list_abs_def take_zip min_def)
  moreover have "list_inv (l\<lparr>l_count := l_count l - 1\<rparr>)" using inv by (auto simp: list_inv_def)
  ultimately show ?thesis using n by (simp add: list_pop_def Let_def)
qed

lemma list_set_spec:
  assumes inv: "list_inv l"
  shows "\<exists>l'. list_set (Some l) i t p = Some l' \<and> list_inv l' \<and> list_abs l' = (list_abs l)[i := (t, p)]"
proof (cases "i < l_count l")
  case True
  then show ?thesis using inv
    by (auto simp: list_set_def list_inv_def list_abs_def zip_update take_update_swap)
next
  case False
  then have "(list_abs l)[i := (t, p)] = list_abs l"
    by (intro list_update_beyond) (simp add: list_abs_length [OF inv])
  then show ?thesis using inv False by (auto simp: list_set_def)
qed

lemma list_get_spec:
  "list_inv l \<Longrightarrow> list_get (Some l) i = (if i < length (list_abs l) then list_abs l ! i else (0, Bits 0))"
  by (simp add: list_get_def list_abs_nth)

lemma list_index_loop_spec:
  assumes inv: "list_inv l"
  shows "list_index_loop l t p i =
     (case List.find (\<lambda>j. any_eq t p (list_abs l ! j)) [i..<l_count l] of
        None \<Rightarrow> -1 | Some j \<Rightarrow> int j)"
  using inv
proof (induction l t p i rule: list_index_loop.induct)
  case (1 l t p i)
  show ?case
  proof (cases "i < l_count l")
    case True
    then have "[i..<l_count l] = i # [i + 1..<l_count l]" by (simp add: upt_conv_Cons)
    then show ?thesis using 1 True
      by (subst list_index_loop.simps) (auto simp: any_eq_def list_abs_nth)
  next
    case False
    then show ?thesis by (subst list_index_loop.simps) simp
  qed
qed

lemma list_contains_loop_spec:
  assumes inv: "list_inv l"
  shows "list_contains_loop l t p i \<longleftrightarrow> (\<exists>j\<in>{i..<l_count l}. any_eq t p (list_abs l ! j))"
  using inv
proof (induction l t p i rule: list_contains_loop.induct)
  case (1 l t p i)
  show ?case
  proof (cases "i < l_count l")
    case True
    then have "{i..<l_count l} = insert i {i + 1..<l_count l}" by auto
    then show ?thesis using 1 True
      by (subst list_contains_loop.simps) (auto simp: any_eq_def list_abs_nth)
  next
    case False
    then show ?thesis by (subst list_contains_loop.simps) simp
  qed
qed

subsection \<open>The list as a sink of values\<close>

text \<open>
  Several parts of the runtime fill a fresh list by appending (dictionary keys and values, set
  members, split text, metadata queries, directory listings). \<open>value_sink\<close> is what they
  rely on.
\<close>

locale value_sink =
  fixes add :: "amem \<Rightarrow> 'l option \<Rightarrow> u64 \<Rightarrow> payload \<Rightarrow> 'l option"
    and vals :: "'l \<Rightarrow> any_value list" and inv :: "'l \<Rightarrow> bool" and limit :: nat
  assumes add_law: "plenty m \<Longrightarrow> inv l \<Longrightarrow> length (vals l) < limit \<Longrightarrow>
    \<exists>l'. add m (Some l) t p = Some l' \<and> inv l' \<and> vals l' = vals l @ [(t, p)]"
begin

lemma add_all:
  assumes "plenty m"
  shows "inv l \<Longrightarrow> length (vals l) + length xs \<le> limit \<Longrightarrow>
    \<exists>l'. fold (\<lambda>v l. add m l (fst v) (snd v)) xs (Some l) = Some l' \<and> inv l' \<and> vals l' = vals l @ xs"
proof (induction xs arbitrary: l)
  case Nil
  then show ?case by simp
next
  case (Cons x xs)
  then obtain l1 where l1: "add m (Some l) (fst x) (snd x) = Some l1" "inv l1" "vals l1 = vals l @ [x]"
    using add_law [OF assms, of l "fst x" "snd x"] by auto
  show ?case using Cons.IH [of l1] Cons.prems l1 by simp
qed

end

text \<open>The number of values up to which a list cannot run out of address space.\<close>

definition list_limit :: nat where
  "list_limit = 2 ^ 50"

lemma list_add_plenty:
  assumes "plenty m" "list_inv l" "length (list_abs l) < list_limit"
  shows "\<exists>l'. list_add m (Some l) t p = Some l' \<and> list_inv l' \<and> list_abs l' = list_abs l @ [(t, p)]"
proof (cases "l_cap l \<ge> l_count l + 1")
  case True
  then have "\<not> list_full (list_reserve m l (l_count l + 1))"
    using assms(2) by (auto simp: list_reserve_def list_full_def list_inv_def)
  then have full: "list_reserve m l (l_count l + 1) = l" "\<not> list_full l"
    using True by (simp_all add: list_reserve_def)
  show ?thesis
    by (rule list_add_cases [OF assms(2), of m t p])
       (use True full zip_snoc_upd [of "l_count l" "l_tags l" "l_payloads l" t p] assms(2) in
         \<open>auto simp: list_add_def list_inv_def list_abs_def\<close>)
next
  case False
  let ?start = "if l_cap l \<noteq> 0 then l_cap l else 8"
  have pos: "0 < ?start" by simp
  have "grow_cap ?start (l_count l + 1) < max (Suc ?start) (2 * (l_count l + 1))"
    using grow_cap_bounds [OF pos, of "l_count l + 1"] by blast
  moreover have "l_count l < 2 ^ 50" using assms(2,3) by (simp add: list_limit_def)
  ultimately have "8 * grow_cap ?start (l_count l + 1) < 2 ^ 63"
    using False by (auto split: if_splits)
  then have "alloc_ok m ((8 * grow_cap ?start (l_count l + 1)) mod 2 ^ 64)"
    using assms(1) by simp
  then show ?thesis by (rule_tac list_add_cases [OF assms(2), of m t p]) auto
qed

interpretation ls: value_sink list_add list_abs list_inv list_limit
  by unfold_locales (rule list_add_plenty)

subsection \<open>Properties of the list\<close>

text \<open>
  Inserting clamps the index to the list's bounds and puts the value there, the later values
  moving up by one; the invariant is kept.
\<close>

theorem list_insert_clamps:
  assumes "plenty m" "list_inv l" "length (list_abs l) < list_limit"
  shows "\<exists>l'. list_insert m (Some l) index t p = Some l' \<and> list_inv l' \<and>
    (let i = min (nat index) (length (list_abs l))
     in list_abs l' = take i (list_abs l) @ (t, p) # drop i (list_abs l))"
proof -
  let ?g = "grow_cap (if l_cap l \<noteq> 0 then l_cap l else 8) (l_count l + 1)"
  have c: "l_count l < 2 ^ 50" using assms(2,3) by (simp add: list_limit_def)
  have "?g < max (Suc (if l_cap l \<noteq> 0 then l_cap l else 8)) (2 * (l_count l + 1))"
    using grow_cap_bounds [of "if l_cap l \<noteq> 0 then l_cap l else 8" "l_count l + 1"] by simp
  moreover have "l_cap l < 2 ^ 60" using assms(2) by (simp add: list_inv_def)
  ultimately have g: "?g < 2 ^ 60" using c by (auto split: if_splits)
  then have "(8 * ?g) mod 2 ^ 64 = 8 * ?g" by (intro mod_less) simp
  then have "alloc_ok m ((8 * ?g) mod 2 ^ 64)" using g assms(1) by simp
  from list_insert_ok [OF assms(2) this, of index t p] show ?thesis
    using assms(2) by (simp add: Let_def)
qed

theorem list_insert_clamps_witness:
  "\<exists>l l1 l2. list_new big_mem = Some l \<and> list_insert big_mem (Some l) (-5) 1 (Bits 7) = Some l1 \<and>
     list_insert big_mem (Some l1) 100 1 (Bits 8) = Some l2 \<and> list_abs l2 = [(1, Bits 7), (1, Bits 8)]"
proof -
  obtain l where l: "list_new big_mem = Some l" by (simp add: list_new_def)
  have e: "list_inv l" "list_abs l = []" using list_new_props [OF l] by auto
  have s: "length (list_abs l) < list_limit" by (simp add: e list_limit_def)
  obtain l1 where l1: "list_insert big_mem (Some l) (-5) 1 (Bits 7) = Some l1" "list_inv l1" "list_abs l1 = [(1, Bits 7)]"
    using list_insert_clamps [OF plenty_True e(1) s, of "-5" 1 "Bits 7"] e(2) by auto
  have s1: "length (list_abs l1) < list_limit" by (simp add: l1(3) list_limit_def)
  obtain l2 where l2: "list_insert big_mem (Some l1) 100 1 (Bits 8) = Some l2" "list_abs l2 = [(1, Bits 7), (1, Bits 8)]"
    using list_insert_clamps [OF plenty_True l1(2) s1, of 100 1 "Bits 8"] l1(3) by auto
  show ?thesis using l l1(1) l2 by blast
qed

text \<open>
  removing in range returns the value and closes the gap; out of range, and on an empty or
  null list, nothing changes and the neutral value comes back.
\<close>

theorem list_remove_at_closes_gap:
  assumes "list_inv l"
  shows "(if i < length (list_abs l)
      then \<exists>l'. list_remove_at (Some l) i = (Some l', list_abs l ! i) \<and> list_inv l' \<and>
             list_abs l' = take i (list_abs l) @ drop (Suc i) (list_abs l)
      else list_remove_at (Some l) i = (Some l, 0, Bits 0)) \<and>
    (if list_abs l \<noteq> []
      then \<exists>l'. list_pop (Some l) = (Some l', last (list_abs l)) \<and> list_inv l' \<and>
             list_abs l' = butlast (list_abs l)
      else list_pop (Some l) = (Some l, 0, Bits 0))"
proof -
  have n: "list_abs l = [] \<longleftrightarrow> l_count l = 0" using assms by (metis length_0_conv list_abs_length)
  show ?thesis
    using list_remove_at_spec [OF assms, of i] list_pop_spec [OF assms] assms n
    by (auto simp: list_remove_at_def list_pop_def)
qed

theorem list_remove_at_closes_gap_witness:
  "\<exists>l'. list_remove_at (Some \<lparr>l_count = 2, l_cap = 3, l_tags = [1, 1, 0], l_payloads = [Bits 5, Bits 6, Bits 0]\<rparr>) 0
      = (Some l', 1, Bits 5) \<and> list_abs l' = [(1, Bits 6)]"
proof -
  let ?l = "\<lparr>l_count = 2, l_cap = 3, l_tags = [1, 1, 0], l_payloads = [Bits 5, Bits 6, Bits 0]\<rparr>"
  have "list_inv ?l" by (simp add: list_inv_def)
  moreover have "list_abs ?l = [(1, Bits 5), (1, Bits 6)]" by (simp add: list_abs_def)
  ultimately show ?thesis using list_remove_at_closes_gap [of ?l 0] by auto
qed

text \<open>
  searching returns the first position whose value has the tag and the content looked for
  (strings compared by content), -1 when there is none, and agrees with the membership test.
\<close>

theorem list_index_of_first:
  assumes "list_inv l"
  shows "list_index_of (Some l) t p =
      (if \<exists>v\<in>set (list_abs l). any_eq t p v
       then int (LEAST j. j < length (list_abs l) \<and> any_eq t p (list_abs l ! j)) else -1) \<and>
    list_contains (Some l) t p = (0 \<le> list_index_of (Some l) t p)"
proof -
  let ?P = "\<lambda>j. any_eq t p (list_abs l ! j)"
  have len: "length (list_abs l) = l_count l" using assms by simp
  have ix: "list_index_of (Some l) t p = (case List.find ?P [0..<l_count l] of None \<Rightarrow> -1 | Some j \<Rightarrow> int j)"
    using list_index_loop_spec [OF assms, of t p 0] by (simp add: list_index_of_def)
  have ct: "list_contains (Some l) t p \<longleftrightarrow> (\<exists>j<l_count l. ?P j)"
    using list_contains_loop_spec [OF assms, of t p 0] by (auto simp: list_contains_def)
  have ex: "(\<exists>v\<in>set (list_abs l). any_eq t p v) \<longleftrightarrow> (\<exists>j<l_count l. ?P j)"
    unfolding len [symmetric] by (metis in_set_conv_nth)
  show ?thesis
  proof (cases "List.find ?P [0..<l_count l]")
    case None
    then have "\<not> (\<exists>j<l_count l. ?P j)" by (auto simp: find_None_iff)
    then show ?thesis using None ix ct ex by simp
  next
    case (Some j)
    then have j: "j < l_count l" "?P j" "\<And>i. i < j \<Longrightarrow> \<not> ?P i"
      by (auto simp: find_Some_iff)
    then have "(LEAST j. j < length (list_abs l) \<and> ?P j) = j"
      using len by (intro Least_equality) (auto simp: not_less [symmetric])
    then show ?thesis using Some ix ct ex j by auto
  qed
qed

theorem list_index_of_first_witness:
  "list_index_of (Some \<lparr>l_count = 2, l_cap = 2, l_tags = [1, 5], l_payloads = [Bits 5, StrP (Some ''x'')]\<rparr>)
     KN_ANY_TAG_STRING (StrP (Some ''x'')) = 1"
proof -
  let ?l = "\<lparr>l_count = 2, l_cap = 2, l_tags = [1, 5], l_payloads = [Bits 5, StrP (Some ''x'')]\<rparr>"
  have a: "list_abs ?l = [(1, Bits 5), (5, StrP (Some ''x''))]" by (simp add: list_abs_def)
  have "(LEAST j. j < length (list_abs ?l) \<and> any_eq KN_ANY_TAG_STRING (StrP (Some ''x'')) (list_abs ?l ! j)) = 1"
  proof (intro Least_equality)
    show "1 < length (list_abs ?l) \<and> any_eq KN_ANY_TAG_STRING (StrP (Some ''x'')) (list_abs ?l ! 1)"
      by (simp add: a any_eq_def KN_ANY_TAG_STRING_def)
    fix y assume "y < length (list_abs ?l) \<and> any_eq KN_ANY_TAG_STRING (StrP (Some ''x'')) (list_abs ?l ! y)"
    then show "1 \<le> y" by (cases y) (auto simp: a any_eq_def KN_ANY_TAG_STRING_def)
  qed
  moreover have "list_inv ?l" by (simp add: list_inv_def)
  moreover have "\<exists>v\<in>set (list_abs ?l). any_eq KN_ANY_TAG_STRING (StrP (Some ''x'')) v"
    by (simp add: a any_eq_def KN_ANY_TAG_STRING_def)
  ultimately show ?thesis using list_index_of_first [of ?l KN_ANY_TAG_STRING "StrP (Some ''x'')"] by simp
qed

end
