(* ===== verification/RtProbe.thy ===== *)
theory RtProbe
  imports RtString
begin

text \<open>
  Open addressing with linear probing, the discipline the runtime's dictionary and set share.
  The locale \<open>probe_table\<close> is the interface between a table's slot search and the
  operations built on it: the provider promises that its search follows the probe sequence; the
  locale proves, once, what inserting, overwriting and refilling do to the table seen as a map.
\<close>

definition probe_slot :: "nat \<Rightarrow> nat \<Rightarrow> nat \<Rightarrow> nat" where
  "probe_slot cap h n = (h + n) mod cap"

definition probe_spec ::
  "('e \<Rightarrow> bool) \<Rightarrow> ('e \<Rightarrow> cstr) \<Rightarrow> 'e list \<Rightarrow> cstr \<Rightarrow> nat \<Rightarrow> nat \<times> bool" where
  "probe_spec used ekey es k h =
     (case List.find (\<lambda>i. \<not> used (es ! i) \<or> ekey (es ! i) = k)
             (map (probe_slot (length es) h) [0..<length es]) of
        None \<Rightarrow> (0, False)
      | Some i \<Rightarrow> (i, used (es ! i)))"

definition pow_cap :: "nat \<Rightarrow> bool" where
  "pow_cap n \<longleftrightarrow> (\<exists>k<64. n = 2 ^ k)"

lemma pow_capI: "k < 64 \<Longrightarrow> pow_cap (2 ^ k)"
  by (auto simp: pow_cap_def)

lemma pow_cap_pos: "pow_cap n \<Longrightarrow> 0 < n"
  by (auto simp: pow_cap_def)

lemma probe_slot_less [simp]: "0 < cap \<Longrightarrow> probe_slot cap h n < cap"
  by (simp add: probe_slot_def)

lemma probe_slot_onto:
  assumes "j < cap"
  shows "\<exists>n<cap. probe_slot cap h n = j"
proof -
  let ?n = "(j + (cap - h mod cap)) mod cap"
  have "(h + ?n) mod cap = (h mod cap + (j + (cap - h mod cap))) mod cap"
    by (simp add: mod_add_left_eq mod_add_right_eq)
  also have "h mod cap + (j + (cap - h mod cap)) = j + cap"
    using assms mod_less_divisor [of cap h] by linarith
  also have "(j + cap) mod cap = j" using assms by simp
  finally have "probe_slot cap h ?n = j" by (simp add: probe_slot_def)
  moreover have "?n < cap" using assms by simp
  ultimately show ?thesis by blast
qed

text \<open>The first slot of the probe sequence that is free or holds the key.\<close>

definition stops_at ::
  "('e \<Rightarrow> bool) \<Rightarrow> ('e \<Rightarrow> cstr) \<Rightarrow> 'e list \<Rightarrow> cstr \<Rightarrow> nat \<Rightarrow> nat \<Rightarrow> bool" where
  "stops_at used ekey es k h i \<longleftrightarrow>
     (\<exists>n<length es. i = probe_slot (length es) h n \<and> (\<not> used (es ! i) \<or> ekey (es ! i) = k) \<and>
        (\<forall>n'<n. let j = probe_slot (length es) h n' in used (es ! j) \<and> ekey (es ! j) \<noteq> k))"

lemma find_map_upt:
  "List.find P (map f [0..<m]) = Some i \<longleftrightarrow>
     (\<exists>n<m. i = f n \<and> P i \<and> (\<forall>n'<n. \<not> P (f n')))"
proof
  assume "List.find P (map f [0..<m]) = Some i"
  then show "\<exists>n<m. i = f n \<and> P i \<and> (\<forall>n'<n. \<not> P (f n'))"
    by (auto simp: find_Some_iff)
next
  assume "\<exists>n<m. i = f n \<and> P i \<and> (\<forall>n'<n. \<not> P (f n'))"
  then obtain n where "n < m" "i = f n" "P i" "\<forall>n'<n. \<not> P (f n')" by blast
  then show "List.find P (map f [0..<m]) = Some i"
    unfolding find_Some_iff by (intro exI [of _ n]) auto
qed

lemma probe_spec_stops:
  assumes "stops_at used ekey es k h i"
  shows "probe_spec used ekey es k h = (i, used (es ! i))"
proof -
  have "List.find (\<lambda>i. \<not> used (es ! i) \<or> ekey (es ! i) = k)
          (map (probe_slot (length es) h) [0..<length es]) = Some i"
    using assms by (auto simp: find_map_upt stops_at_def Let_def)
  then show ?thesis by (simp add: probe_spec_def)
qed

lemma probe_spec_cases:
  obtains (stop) i where "stops_at used ekey es k h i"
      "probe_spec used ekey es k h = (i, used (es ! i))"
  | (full) "\<And>j. j < length es \<Longrightarrow> used (es ! j) \<and> ekey (es ! j) \<noteq> k"
      "probe_spec used ekey es k h = (0, False)"
proof (cases "List.find (\<lambda>i. \<not> used (es ! i) \<or> ekey (es ! i) = k)
                (map (probe_slot (length es) h) [0..<length es])")
  case None
  then have none: "n < length es \<Longrightarrow>
      used (es ! probe_slot (length es) h n) \<and> ekey (es ! probe_slot (length es) h n) \<noteq> k" for n
    by (auto simp: find_None_iff)
  have "used (es ! j) \<and> ekey (es ! j) \<noteq> k" if "j < length es" for j
    using none probe_slot_onto [OF that, of h] by auto
  moreover have "probe_spec used ekey es k h = (0, False)"
    using None by (simp add: probe_spec_def)
  ultimately show ?thesis by (rule full)
next
  case (Some i)
  then obtain n where n: "n < length es" "i = probe_slot (length es) h n"
      "\<not> used (es ! i) \<or> ekey (es ! i) = k"
    and before: "\<forall>n'<n. used (es ! probe_slot (length es) h n') \<and> ekey (es ! probe_slot (length es) h n') \<noteq> k"
    unfolding find_map_upt by auto
  then have "stops_at used ekey es k h i"
    unfolding stops_at_def Let_def by (intro exI [of _ n]) simp
  from stop [OF this probe_spec_stops [OF this]] show ?thesis .
qed

lemma stops_at_less: "stops_at used ekey es k h i \<Longrightarrow> i < length es"
  unfolding stops_at_def by (metis gr_zeroI less_nat_zero_code probe_slot_less)

text \<open>A change at a slot the search does not pass leaves its result alone.\<close>

lemma stops_at_update:
  assumes s: "stops_at used ekey es k h i" and other: "\<not> used (es ! j) \<or> used e \<and> ekey e = ekey (es ! j)"
    and ij: "i \<noteq> j" and j: "j < length es"
  shows "stops_at used ekey (es[j := e]) k h i"
proof -
  from s obtain n where n: "n < length es" "i = probe_slot (length es) h n"
      "\<not> used (es ! i) \<or> ekey (es ! i) = k"
    and before: "\<And>n'. n' < n \<Longrightarrow> used (es ! probe_slot (length es) h n') \<and>
        ekey (es ! probe_slot (length es) h n') \<noteq> k"
    by (auto simp: stops_at_def Let_def)
  have "used (es[j := e] ! p) \<and> ekey (es[j := e] ! p) \<noteq> k"
    if "n' < n" "p = probe_slot (length es) h n'" for n' p
    using before [OF that(1)] that(2) other j by (cases "p = j") auto
  moreover have "es[j := e] ! i = es ! i" using ij by simp
  ultimately show ?thesis using n by (auto simp: stops_at_def Let_def)
qed

locale probe_table =
  fixes used :: "'e \<Rightarrow> bool" and ekey :: "'e \<Rightarrow> cstr" and blank :: 'e
    and find :: "'e list \<Rightarrow> cstr \<Rightarrow> nat \<times> bool" and home :: "nat \<Rightarrow> cstr \<Rightarrow> nat"
  assumes blank_unused: "\<not> used blank"
    and find_probes: "pow_cap (length es) \<Longrightarrow>
      find es k = probe_spec used ekey es k (home (length es) k)"
begin

definition tbl_ok :: "'e list \<Rightarrow> bool" where
  "tbl_ok es \<longleftrightarrow> pow_cap (length es) \<and>
     (\<forall>j<length es. used (es ! j) \<longrightarrow> ekey (es ! j) \<noteq> None \<and> find es (ekey (es ! j)) = (j, True))"

definition lookup :: "'e list \<Rightarrow> cstr \<Rightarrow> 'e option" where
  "lookup es k = (case find es k of (i, f) \<Rightarrow> if f then Some (es ! i) else None)"

definition n_used :: "'e list \<Rightarrow> nat" where
  "n_used es = length (filter used es)"

lemma find_cases:
  assumes "pow_cap (length es)"
  obtains (hit) i where "find es k = (i, True)" "i < length es" "used (es ! i)" "ekey (es ! i) = k"
      "stops_at used ekey es k (home (length es) k) i"
  | (free) i where "find es k = (i, False)" "i < length es" "\<not> used (es ! i)"
      "stops_at used ekey es k (home (length es) k) i"
  | (full) "find es k = (0, False)" "\<And>j. j < length es \<Longrightarrow> used (es ! j) \<and> ekey (es ! j) \<noteq> k"
proof (cases rule: probe_spec_cases [of used ekey es k "home (length es) k"])
  case (stop i)
  then show ?thesis
    using find_probes [OF assms] hit free stops_at_less [OF stop(1)]
    by (cases "used (es ! i)") (auto simp: stops_at_def)
next
  case full
  then show ?thesis using find_probes [OF assms] that(3) by simp
qed

lemma tbl_ok_pow: "tbl_ok es \<Longrightarrow> pow_cap (length es)"
  by (simp add: tbl_ok_def)

lemma tbl_okD: "tbl_ok es \<Longrightarrow> j < length es \<Longrightarrow> used (es ! j) \<Longrightarrow> find es (ekey (es ! j)) = (j, True)"
  by (simp add: tbl_ok_def)

lemma tbl_ok_key: "tbl_ok es \<Longrightarrow> j < length es \<Longrightarrow> used (es ! j) \<Longrightarrow> ekey (es ! j) \<noteq> None"
  by (simp add: tbl_ok_def)

lemma find_hit_stops:
  assumes "pow_cap (length es)" "find es k = (i, True)"
  shows "stops_at used ekey es k (home (length es) k) i \<and> i < length es \<and> used (es ! i) \<and> ekey (es ! i) = k"
  using assms(1) by (cases rule: find_cases [where es = es and k = k]) (use assms(2) in auto)

lemma lookup_Some_iff:
  assumes "tbl_ok es"
  shows "lookup es k = Some e \<longleftrightarrow> (\<exists>j<length es. used (es ! j) \<and> ekey (es ! j) = k \<and> e = es ! j)"
proof
  assume "lookup es k = Some e"
  then obtain i where i: "find es k = (i, True)" "e = es ! i"
    by (cases "find es k") (auto simp: lookup_def split: if_splits)
  then show "\<exists>j<length es. used (es ! j) \<and> ekey (es ! j) = k \<and> e = es ! j"
    using find_hit_stops [OF tbl_ok_pow [OF assms] i(1)] by blast
next
  assume "\<exists>j<length es. used (es ! j) \<and> ekey (es ! j) = k \<and> e = es ! j"
  then obtain j where j: "j < length es" "used (es ! j)" "ekey (es ! j) = k" "e = es ! j" by blast
  then have "find es k = (j, True)" using tbl_okD [OF assms j(1,2)] by simp
  then show "lookup es k = Some e" using j by (simp add: lookup_def)
qed

lemma lookup_key: "tbl_ok es \<Longrightarrow> lookup es k = Some e \<Longrightarrow> ekey e = k \<and> used e \<and> e \<in> set es"
  by (auto simp: lookup_Some_iff)

lemma lookup_None_iff:
  assumes "tbl_ok es"
  shows "lookup es k = None \<longleftrightarrow> (\<forall>j<length es. used (es ! j) \<longrightarrow> ekey (es ! j) \<noteq> k)"
proof (cases "lookup es k")
  case None
  then have "lookup es k \<noteq> Some e" for e by simp
  then show ?thesis using None unfolding lookup_Some_iff [OF assms] by blast
next
  case (Some e)
  then show ?thesis using lookup_Some_iff [OF assms, of k e] by auto
qed

lemma used_keys_distinct:
  assumes "tbl_ok es" "i < length es" "j < length es" "used (es ! i)" "used (es ! j)"
    "ekey (es ! i) = ekey (es ! j)"
  shows "i = j"
proof -
  have "(i, True) = (j, True)"
    using tbl_okD [OF assms(1,2,4)] tbl_okD [OF assms(1,3,5)] unfolding assms(6) by (rule trans [OF sym])
  then show ?thesis by simp
qed

lemma tbl_ok_blank: "k < 64 \<Longrightarrow> tbl_ok (replicate (2 ^ k) blank)"
  by (auto simp: tbl_ok_def blank_unused intro: pow_capI)

lemma lookup_blank: "k < 64 \<Longrightarrow> lookup (replicate (2 ^ k) blank) x = None"
  by (subst lookup_None_iff) (auto simp: tbl_ok_blank blank_unused)

lemma free_slot:
  assumes "tbl_ok es" "n_used es < length es" "find es k = (i, False)"
  shows "i < length es \<and> \<not> used (es ! i) \<and> stops_at used ekey es k (home (length es) k) i"
  using tbl_ok_pow [OF assms(1)]
proof (cases rule: find_cases [where es = es and k = k])
  case (hit i')
  then show ?thesis using assms(3) by simp
next
  case (free i')
  then show ?thesis using assms(3) by simp
next
  case full
  then have "filter used es = es"
    by (intro filter_True) (auto simp: in_set_conv_nth)
  then show ?thesis using assms(2) by (simp add: n_used_def)
qed

lemma find_stops:
  assumes "pow_cap (length es)" "stops_at used ekey es k (home (length es) k) i"
  shows "find es k = (i, used (es ! i))"
  using find_probes [OF assms(1)] probe_spec_stops [OF assms(2)] by simp

text \<open>Writing an entry at the slot its key's search stops at.\<close>

lemma place_ok:
  assumes ok: "tbl_ok es"
    and stop: "stops_at used ekey es (ekey e) (home (length es) (ekey e)) i"
    and e: "used e" "ekey e \<noteq> None"
  shows "tbl_ok (es[i := e])"
  unfolding tbl_ok_def
proof (intro conjI allI impI)
  let ?es = "es[i := e]"
  have pow: "pow_cap (length ?es)" using ok by (simp add: tbl_ok_pow)
  have i: "i < length es" using stop by (rule stops_at_less)
  show "pow_cap (length ?es)" by (rule pow)
  fix j assume j: "j < length ?es" "used (?es ! j)"
  show "ekey (?es ! j) \<noteq> None" using j e ok by (cases "j = i") (auto dest: tbl_ok_key)
  show "find ?es (ekey (?es ! j)) = (j, True)"
  proof (cases "j = i")
    case True
    have "stops_at used ekey ?es (ekey e) (home (length ?es) (ekey e)) i"
      using stop i e unfolding stops_at_def Let_def
      by (clarsimp) (metis nth_list_update_neq nth_list_update_eq)
    then show ?thesis using find_stops [OF pow] True i e by simp
  next
    case False
    then have uj: "used (es ! j)" and jl: "j < length es" using j by auto
    have st: "stops_at used ekey es (ekey (es ! j)) (home (length es) (ekey (es ! j))) j"
      using find_hit_stops [OF tbl_ok_pow [OF ok] tbl_okD [OF ok jl uj]] by simp
    have "\<not> used (es ! i) \<or> used e \<and> ekey e = ekey (es ! i)"
      using stop e by (auto simp: stops_at_def)
    from stops_at_update [OF st this False i]
    show ?thesis using find_stops [OF pow] False uj by simp
  qed
qed

lemma place_lookup:
  assumes ok: "tbl_ok es"
    and stop: "stops_at used ekey es (ekey e) (home (length es) (ekey e)) i"
    and e: "used e" "ekey e \<noteq> None"
  shows "lookup (es[i := e]) = (lookup es)(ekey e \<mapsto> e)"
proof
  fix k
  have ok': "tbl_ok (es[i := e])" by (rule place_ok [OF assms])
  have i: "i < length es" using stop by (rule stops_at_less)
  show "lookup (es[i := e]) k = ((lookup es)(ekey e \<mapsto> e)) k"
  proof (cases "k = ekey e")
    case True
    then show ?thesis using i e by (auto simp: lookup_Some_iff [OF ok'])
  next
    case False
    have "\<not> used (es ! i) \<or> ekey (es ! i) = ekey e" using stop by (auto simp: stops_at_def)
    then have "lookup (es[i := e]) k = Some x \<longleftrightarrow> lookup es k = Some x" for x
      using False i unfolding lookup_Some_iff [OF ok] lookup_Some_iff [OF ok']
      by (auto simp: nth_list_update)
    then have "lookup (es[i := e]) k = lookup es k" by (metis option.exhaust)
    then show ?thesis using False by simp
  qed
qed

lemma place_n_used:
  assumes "i < length es" "used e"
  shows "n_used (es[i := e]) = n_used es + (if used (es ! i) then 0 else 1)"
  using filter_update_count [OF assms(1), of used e] assms(2) by (auto simp: n_used_def)

text \<open>Refilling a table from the used entries of another, the loop of a rehash.\<close>

definition refill :: "'e list \<Rightarrow> 'e list \<Rightarrow> 'e list" where
  "refill t old = fold (\<lambda>e t. if used e then t[fst (find t (ekey e)) := e] else t) old t"

lemma refill_simps [simp]:
  "refill t [] = t"
  "refill t (e # old) = refill (if used e then t[fst (find t (ekey e)) := e] else t) old"
  by (simp_all add: refill_def)

definition used_keys :: "'e list \<Rightarrow> cstr list" where
  "used_keys es = map ekey (filter used es)"

lemma refill_spec:
  assumes "tbl_ok t" "distinct (used_keys old)" "None \<notin> set (used_keys old)"
    "\<forall>k\<in>set (used_keys old). lookup t k = None" "n_used t + n_used old < length t"
  shows "tbl_ok (refill t old) \<and> length (refill t old) = length t \<and>
    n_used (refill t old) = n_used t + n_used old \<and>
    lookup (refill t old) = (\<lambda>k. case List.find (\<lambda>e. used e \<and> ekey e = k) old of
        None \<Rightarrow> lookup t k | Some e \<Rightarrow> Some e)"
  using assms
proof (induction old arbitrary: t)
  case Nil
  then show ?case by (simp add: n_used_def)
next
  case (Cons e old)
  show ?case
  proof (cases "used e")
    case False
    then show ?thesis using Cons.IH [of t] Cons.prems
      by (simp add: used_keys_def n_used_def)
  next
    case True
    let ?i = "fst (find t (ekey e))" and ?t = "t[fst (find t (ekey e)) := e]"
    from Cons.prems True have key: "ekey e \<noteq> None" and none: "lookup t (ekey e) = None"
      and dis: "distinct (used_keys old)" "None \<notin> set (used_keys old)" "ekey e \<notin> set (used_keys old)"
      and fresh: "\<forall>k\<in>set (used_keys old). lookup t k = None"
      and room: "n_used t < length t" "n_used t + Suc (n_used old) < length t"
      by (auto simp: used_keys_def n_used_def)
    obtain i where i: "find t (ekey e) = (i, False)"
      using none by (cases "find t (ekey e)") (auto simp: lookup_def split: if_splits)
    then have st: "i < length t" "\<not> used (t ! i)"
        "stops_at used ekey t (ekey e) (home (length t) (ekey e)) i"
      using free_slot [OF Cons.prems(1) room(1)] by auto
    have ok: "tbl_ok ?t" and lk: "lookup ?t = (lookup t)(ekey e \<mapsto> e)"
      using place_ok [OF Cons.prems(1) st(3) True key] place_lookup [OF Cons.prems(1) st(3) True key]
      by (simp_all add: i)
    have nu: "n_used ?t = Suc (n_used t)" using place_n_used [OF st(1) True] st(2) by (simp add: i)
    have "\<forall>k\<in>set (used_keys old). lookup ?t k = None" using lk fresh dis(3) by auto
    moreover have "n_used ?t + n_used old < length ?t" using nu room by simp
    ultimately have IH: "tbl_ok (refill ?t old) \<and> length (refill ?t old) = length ?t \<and>
        n_used (refill ?t old) = n_used ?t + n_used old \<and>
        lookup (refill ?t old) = (\<lambda>k. case List.find (\<lambda>e. used e \<and> ekey e = k) old of
          None \<Rightarrow> lookup ?t k | Some e \<Rightarrow> Some e)"
      using Cons.IH [OF ok dis(1,2)] by blast
    have "List.find (\<lambda>x. used x \<and> ekey x = ekey e) old = None"
      using dis(3) by (fastforce simp: find_None_iff used_keys_def image_iff)
    then have "lookup (refill ?t old) = (\<lambda>k. case List.find (\<lambda>e. used e \<and> ekey e = k) (e # old) of
          None \<Rightarrow> lookup t k | Some e \<Rightarrow> Some e)"
      using IH lk True by (auto simp: fun_eq_iff split: option.splits)
    then show ?thesis using IH nu True by (simp add: n_used_def)
  qed
qed

lemma used_keys_distinctI:
  assumes "\<And>i j. i < length es \<Longrightarrow> j < length es \<Longrightarrow> used (es ! i) \<Longrightarrow> used (es ! j) \<Longrightarrow>
    ekey (es ! i) = ekey (es ! j) \<Longrightarrow> i = j"
  shows "distinct (used_keys es)"
  using assms
proof (induction es)
  case Nil
  then show ?case by (simp add: used_keys_def)
next
  case (Cons e es)
  have "distinct (used_keys es)"
  proof (rule Cons.IH)
    fix i j assume "i < length es" "j < length es" "used (es ! i)" "used (es ! j)"
      "ekey (es ! i) = ekey (es ! j)"
    then show "i = j" using Cons.prems [of "Suc i" "Suc j"] by simp
  qed
  moreover have "ekey e \<notin> ekey ` {x \<in> set es. used x}" if "used e"
  proof
    assume "ekey e \<in> ekey ` {x \<in> set es. used x}"
    then obtain j where "j < length es" "used (es ! j)" "ekey (es ! j) = ekey e"
      by (auto simp: in_set_conv_nth)
    then show False using Cons.prems [of 0 "Suc j"] that by simp
  qed
  ultimately show ?case by (auto simp: used_keys_def)
qed

text \<open>
  Erasing a slot leaves a table whose searches may break off early, but its used entries still
  have distinct keys, which is all a refill needs.
\<close>

lemma find_used_iff:
  assumes "distinct (used_keys es)"
  shows "List.find (\<lambda>e. used e \<and> ekey e = x) es = Some e \<longleftrightarrow> e \<in> set es \<and> used e \<and> ekey e = x"
proof
  assume "List.find (\<lambda>e. used e \<and> ekey e = x) es = Some e"
  then show "e \<in> set es \<and> used e \<and> ekey e = x" unfolding find_Some_iff by auto
next
  assume e: "e \<in> set es \<and> used e \<and> ekey e = x"
  have "List.find (\<lambda>e. used e \<and> ekey e = x) es \<noteq> None"
    using e by (auto simp: find_None_iff)
  then obtain e' where e': "List.find (\<lambda>e. used e \<and> ekey e = x) es = Some e'" by blast
  then have "e' \<in> set es \<and> used e' \<and> ekey e' = x" unfolding find_Some_iff by auto
  then have "e' = e"
    using assms e unfolding used_keys_def distinct_map by (auto dest: inj_onD)
  then show "List.find (\<lambda>e. used e \<and> ekey e = x) es = Some e" using e' by simp
qed

lemma lookup_in_set:
  assumes "tbl_ok es"
  shows "lookup es x = Some e \<longleftrightarrow> e \<in> set es \<and> used e \<and> ekey e = x"
  unfolding lookup_Some_iff [OF assms] in_set_conv_nth by blast

lemma tbl_ok_keys:
  assumes "tbl_ok es"
  shows "distinct (used_keys es)" "None \<notin> set (used_keys es)"
    "(\<lambda>x. List.find (\<lambda>e. used e \<and> ekey e = x) es) = lookup es"
proof -
  show d: "distinct (used_keys es)"
    by (rule used_keys_distinctI) (rule used_keys_distinct [OF assms])
  show "None \<notin> set (used_keys es)"
    by (auto simp: used_keys_def in_set_conv_nth) (metis tbl_ok_key [OF assms])
  have "List.find (\<lambda>e. used e \<and> ekey e = x) es = Some e \<longleftrightarrow> lookup es x = Some e" for x e
    by (simp add: find_used_iff [OF d] lookup_in_set [OF assms])
  then show "(\<lambda>x. List.find (\<lambda>e. used e \<and> ekey e = x) es) = lookup es"
    by (intro ext option_eqI)
qed

lemma erase_spec:
  assumes ok: "tbl_ok es" and i: "i < length es" "used (es ! i)"
  shows "distinct (used_keys (es[i := blank]))" "None \<notin> set (used_keys (es[i := blank]))"
    "Suc (n_used (es[i := blank])) = n_used es"
    "(\<lambda>x. List.find (\<lambda>e. used e \<and> ekey e = x) (es[i := blank])) = (lookup es)(ekey (es ! i) := None)"
proof -
  let ?es = "es[i := blank]"
  have nth: "used (?es ! j) \<Longrightarrow> j < length es \<Longrightarrow> j \<noteq> i \<and> ?es ! j = es ! j" for j
    using blank_unused i by (cases "j = i") auto
  show d: "distinct (used_keys ?es)"
  proof (rule used_keys_distinctI)
    fix a b
    assume "a < length ?es" "b < length ?es" "used (?es ! a)" "used (?es ! b)" "ekey (?es ! a) = ekey (?es ! b)"
    then show "a = b" using nth [of a] nth [of b] used_keys_distinct [OF ok, of a b] by simp
  qed
  show "None \<notin> set (used_keys ?es)"
  proof
    assume "None \<in> set (used_keys ?es)"
    then obtain j where "j < length es" "used (?es ! j)" "ekey (?es ! j) = None"
      by (auto simp: used_keys_def in_set_conv_nth)
    then show False using nth [of j] tbl_ok_key [OF ok, of j] by simp
  qed
  show "Suc (n_used ?es) = n_used es"
    using filter_update_count [OF i(1), of used blank] i(2) blank_unused by (simp add: n_used_def)
  have "e \<in> set ?es \<and> used e \<and> ekey e = x \<longleftrightarrow>
      ((lookup es)(ekey (es ! i) := None)) x = Some e" for x e
  proof
    assume "e \<in> set ?es \<and> used e \<and> ekey e = x"
    then obtain j where j: "j < length es" "used (?es ! j)" "e = ?es ! j" "ekey e = x"
      by (auto simp: in_set_conv_nth)
    then have e: "j \<noteq> i" "e = es ! j" "used (es ! j)" using nth [of j] by simp_all
    have "ekey (es ! i) \<noteq> ekey (es ! j)"
      using used_keys_distinct [OF ok i(1) j(1) i(2) e(3)] e(1) by blast
    then have "x \<noteq> ekey (es ! i)" using e(2) j(4) by simp
    moreover have "lookup es x = Some e"
      using lookup_Some_iff [OF ok, of x e] e j(1,4) by blast
    ultimately show "((lookup es)(ekey (es ! i) := None)) x = Some e" by simp
  next
    assume "((lookup es)(ekey (es ! i) := None)) x = Some e"
    then have x: "x \<noteq> ekey (es ! i)" "lookup es x = Some e" by (auto split: if_splits)
    then obtain j where j: "j < length es" "used (es ! j)" "ekey (es ! j) = x" "e = es ! j"
      using lookup_Some_iff [OF ok] by blast
    then have "?es ! j = e" using x(1) by (cases "j = i") auto
    then have "e \<in> set ?es" using j(1) by (metis length_list_update nth_mem)
    then show "e \<in> set ?es \<and> used e \<and> ekey e = x" using j by simp
  qed
  then show "(\<lambda>x. List.find (\<lambda>e. used e \<and> ekey e = x) ?es) = (lookup es)(ekey (es ! i) := None)"
    by (intro ext option_eqI) (simp only: find_used_iff [OF d])
qed

end

end
