(* ===== verification/RtDict.thy ===== *)
theory RtDict
  imports RtList RtProbe
begin

text \<open>
  The runtime's dictionary (\<open>KnDict\<close>, \<open>__kn_dict_*\<close>, \<open>dict_find_slot\<close>,
  \<open>dict_rehash\<close> in \<open>libs/runtime/src/kn_runtime.c\<close>): an open-addressing table of
  power-of-two size with linear probing, rehashed on growth and, in place of tombstones, after
  every removal. A null dictionary pointer is \<open>None\<close>, a null entry array is the empty list.
\<close>

record dict_entry =
  de_key :: cstr
  de_tag :: u64
  de_payload :: payload
  de_used :: bool

definition blank_entry :: dict_entry where
  "blank_entry = \<lparr>de_key = None, de_tag = 0, de_payload = Bits 0, de_used = False\<rparr>"

record kn_dict =
  d_count :: nat
  d_cap :: nat
  d_entries :: "dict_entry list"

function dict_find_loop :: "dict_entry list \<Rightarrow> nat \<Rightarrow> cstr \<Rightarrow> u64 \<Rightarrow> nat \<Rightarrow> nat \<times> bool" where
  "dict_find_loop es cap key idx n =
     (if n < cap then
        (let i = unat ((idx + of_nat n) AND (of_nat cap - 1)); e = es ! i
         in if \<not> de_used e then (i, False)
            else if rt_streq (de_key e) key then (i, True)
            else dict_find_loop es cap key idx (n + 1))
      else (0, False))"
  by pat_completeness auto
termination
  by (relation "measure (\<lambda>(es, cap, key, idx, n). cap - n)") auto

definition dict_find_slot :: "dict_entry list \<Rightarrow> nat \<Rightarrow> cstr \<Rightarrow> nat \<times> bool" where
  "dict_find_slot es cap key = dict_find_loop es cap key (rt_hash key AND (of_nat cap - 1)) 0"

fun dict_refill :: "dict_entry list \<Rightarrow> nat \<Rightarrow> dict_entry list \<Rightarrow> dict_entry list" where
  "dict_refill t cap [] = t"
| "dict_refill t cap (old # rest) =
     (if \<not> de_used old then dict_refill t cap rest
      else (let i = fst (dict_find_slot t cap (de_key old))
            in dict_refill
                 (t[i := (t ! i)\<lparr>de_key := de_key old, de_tag := de_tag old,
                                  de_payload := de_payload old, de_used := True\<rparr>])
                 cap rest))"

text \<open>The capacity a rehash settles on: at least 8, rounded up to a power of two.\<close>

definition round_cap :: "nat \<Rightarrow> nat" where
  "round_cap new_cap =
     (let c = (if new_cap < 8 then 8 else new_cap)
      in if (of_nat c :: u64) AND (of_nat c - 1) \<noteq> 0 then grow_cap 8 c else c)"

definition dict_rehash :: "amem \<Rightarrow> kn_dict \<Rightarrow> nat \<Rightarrow> kn_dict" where
  "dict_rehash m d new_cap =
     (let cap = round_cap new_cap
      in if alloc_ok m ((32 * cap) mod 2 ^ 64)
         then d\<lparr>d_entries := (if d_entries d \<noteq> [] \<and> d_cap d \<noteq> 0
                              then dict_refill (replicate cap blank_entry) cap (d_entries d)
                              else replicate cap blank_entry),
                d_cap := cap\<rparr>
         else d)"

definition dict_new :: "amem \<Rightarrow> kn_dict option" where
  "dict_new m =
     (if alloc_ok m 24 then Some \<lparr>d_count = 0, d_cap = 0, d_entries = []\<rparr> else None)"

definition dict_put :: "kn_dict \<Rightarrow> cstr \<Rightarrow> u64 \<Rightarrow> payload \<Rightarrow> kn_dict" where
  "dict_put d key t p =
     (case dict_find_slot (d_entries d) (d_cap d) key of (i, found) \<Rightarrow>
        (let slot = d_entries d ! i;
             slot' = (if found then slot else slot\<lparr>de_key := key, de_used := True\<rparr>)
         in d\<lparr>d_entries := (d_entries d)[i := slot'\<lparr>de_tag := t, de_payload := p\<rparr>],
              d_count := (if found then d_count d else d_count d + 1)\<rparr>))"

definition dict_set :: "amem \<Rightarrow> kn_dict option \<Rightarrow> cstr \<Rightarrow> u64 \<Rightarrow> payload \<Rightarrow> kn_dict option" where
  "dict_set m dp key t p =
     (case dp of None \<Rightarrow> None
      | Some d0 \<Rightarrow>
          if key = None then Some d0
          else (let d = (if d_cap d0 = 0 then dict_rehash m d0 8
                         else if (d_count d0 + 1) * 10 \<ge> d_cap d0 * 7
                         then dict_rehash m d0 (d_cap d0 * 2) else d0)
                in if d_entries d = [] \<or> d_cap d = 0 then Some d else Some (dict_put d key t p)))"

definition dict_get :: "kn_dict option \<Rightarrow> cstr \<Rightarrow> u64 \<times> payload" where
  "dict_get dp key =
     (case dp of None \<Rightarrow> (0, Bits 0)
      | Some d \<Rightarrow>
          if key = None \<or> d_entries d = [] \<or> d_cap d = 0 then (0, Bits 0)
          else (case dict_find_slot (d_entries d) (d_cap d) key of (i, found) \<Rightarrow>
                  if \<not> found then (0, Bits 0)
                  else (de_tag (d_entries d ! i), de_payload (d_entries d ! i))))"

definition dict_contains :: "kn_dict option \<Rightarrow> cstr \<Rightarrow> bool" where
  "dict_contains dp key =
     (case dp of None \<Rightarrow> False
      | Some d \<Rightarrow>
          if key = None \<or> d_entries d = [] \<or> d_cap d = 0 then False
          else snd (dict_find_slot (d_entries d) (d_cap d) key))"

definition dict_count :: "kn_dict option \<Rightarrow> nat" where
  "dict_count dp = (case dp of None \<Rightarrow> 0 | Some d \<Rightarrow> d_count d)"

definition dict_remove :: "amem \<Rightarrow> kn_dict option \<Rightarrow> cstr \<Rightarrow> kn_dict option \<times> bool" where
  "dict_remove m dp key =
     (case dp of None \<Rightarrow> (None, False)
      | Some d \<Rightarrow>
          if key = None \<or> d_entries d = [] \<or> d_cap d = 0 then (Some d, False)
          else (case dict_find_slot (d_entries d) (d_cap d) key of (i, found) \<Rightarrow>
                  if \<not> found then (Some d, False)
                  else (let d1 = d\<lparr>d_entries := (d_entries d)[i := blank_entry],
                                   d_count := (if d_count d > 0 then d_count d - 1 else d_count d)\<rparr>
                        in (Some (dict_rehash m d1 (d_cap d1)), True))))"

definition dict_is_empty :: "kn_dict option \<Rightarrow> bool" where
  "dict_is_empty dp = (case dp of None \<Rightarrow> True | Some d \<Rightarrow> d_count d = 0)"

fun dict_keys_loop :: "amem \<Rightarrow> dict_entry list \<Rightarrow> kn_list option \<Rightarrow> kn_list option" where
  "dict_keys_loop m [] l = l"
| "dict_keys_loop m (e # es) l =
     (if \<not> de_used e \<or> de_key e = None then dict_keys_loop m es l
      else dict_keys_loop m es (list_add m l KN_ANY_TAG_STRING (StrP (de_key e))))"

definition dict_keys :: "amem \<Rightarrow> kn_dict option \<Rightarrow> kn_list option" where
  "dict_keys m dp =
     (case list_new m of None \<Rightarrow> None
      | Some l \<Rightarrow>
          (case dp of None \<Rightarrow> Some l
           | Some d \<Rightarrow> if d_entries d = [] \<or> d_cap d = 0 then Some l
                       else dict_keys_loop m (d_entries d) (Some l)))"

fun dict_values_loop :: "amem \<Rightarrow> dict_entry list \<Rightarrow> kn_list option \<Rightarrow> kn_list option" where
  "dict_values_loop m [] l = l"
| "dict_values_loop m (e # es) l =
     (if \<not> de_used e then dict_values_loop m es l
      else dict_values_loop m es (list_add m l (de_tag e) (de_payload e)))"

definition dict_values :: "amem \<Rightarrow> kn_dict option \<Rightarrow> kn_list option" where
  "dict_values m dp =
     (case list_new m of None \<Rightarrow> None
      | Some l \<Rightarrow>
          (case dp of None \<Rightarrow> Some l
           | Some d \<Rightarrow> if d_entries d = [] \<or> d_cap d = 0 then Some l
                       else dict_values_loop m (d_entries d) (Some l)))"

declare dict_find_loop.simps [simp del]

subsection \<open>The slot search follows the probe sequence\<close>

definition dict_home :: "nat \<Rightarrow> cstr \<Rightarrow> nat" where
  "dict_home cap key = unat (rt_hash key) mod cap"

lemma masked_index:
  assumes "k < 64"
  shows "unat (((h AND (of_nat (2 ^ k) - 1)) + of_nat n) AND (of_nat (2 ^ k) - 1 :: u64))
    = probe_slot (2 ^ k) (unat h mod 2 ^ k) n"
proof -
  let ?i = "h AND (of_nat (2 ^ k) - 1)"
  have "unat ((?i + of_nat n) AND (of_nat (2 ^ k) - 1)) = unat (?i + of_nat n) mod 2 ^ k"
    by (rule unat_and_mask [OF assms])
  also have "\<dots> = (unat ?i + n) mod 2 ^ k"
    by (rule unat_add_mod_pow2) (use assms in simp)
  also have "unat ?i = unat h mod 2 ^ k" by (rule unat_and_mask [OF assms])
  finally show ?thesis by (simp add: probe_slot_def)
qed

lemma dict_find_loop_probes:
  assumes "k < 64" "length es = 2 ^ k"
  shows "dict_find_loop es (2 ^ k) key (rt_hash key AND (of_nat (2 ^ k) - 1)) n =
     (case List.find (\<lambda>i. \<not> de_used (es ! i) \<or> de_key (es ! i) = key)
             (map (probe_slot (2 ^ k) (dict_home (2 ^ k) key)) [n..<2 ^ k]) of
        None \<Rightarrow> (0, False) | Some i \<Rightarrow> (i, de_used (es ! i)))"
proof (induction "2 ^ k - n" arbitrary: n)
  case 0
  then show ?case by (subst dict_find_loop.simps) simp
next
  case (Suc x)
  then have n: "n < 2 ^ k" "x = 2 ^ k - (n + 1)" by simp_all
  then have up: "[n..<2 ^ k] = n # [n + 1..<2 ^ k]" by (simp add: upt_conv_Cons)
  show ?case using Suc.hyps(1) [OF n(2)] n(1)
    by (subst dict_find_loop.simps)
       (simp only: up masked_index [OF assms(1)] dict_home_def [symmetric] Let_def, simp)
qed

lemma dict_find_probes:
  assumes "pow_cap (length es)"
  shows "dict_find_slot es (length es) key =
     probe_spec de_used de_key es key (dict_home (length es) key)"
proof -
  from assms obtain k where k: "k < 64" "length es = 2 ^ k" by (auto simp: pow_cap_def)
  show ?thesis
    using dict_find_loop_probes [OF k, of key 0] k(2)
    by (simp add: dict_find_slot_def probe_spec_def)
qed

interpretation dtab: probe_table de_used de_key blank_entry
  "\<lambda>es. dict_find_slot es (length es)" dict_home
  by unfold_locales (simp_all add: blank_entry_def dict_find_probes)

subsection \<open>The dictionary as a map\<close>

definition dict_abs :: "kn_dict \<Rightarrow> char list \<rightharpoonup> any_value" where
  "dict_abs d = (\<lambda>k. map_option (\<lambda>e. (de_tag e, de_payload e)) (dtab.lookup (d_entries d) (Some k)))"

text \<open>
  The invariant of every dictionary the operations build: no table yet, or a power-of-two table
  of at least 8 slots in which every used entry is where its key's search finds it, with the
  exact count of used entries. The bound on the capacity is what the allocator's limit gives.
\<close>

definition dict_inv :: "kn_dict \<Rightarrow> bool" where
  "dict_inv d \<longleftrightarrow>
     (if d_cap d = 0 then d_entries d = [] \<and> d_count d = 0
      else length (d_entries d) = d_cap d \<and> 8 \<le> d_cap d \<and> d_cap d < 2 ^ 58 \<and>
           dtab.tbl_ok (d_entries d) \<and> d_count d = dtab.n_used (d_entries d))"

lemma dict_inv_empty: "dict_inv \<lparr>d_count = 0, d_cap = 0, d_entries = []\<rparr>"
  by (simp add: dict_inv_def)

lemma n_used_le: "dtab.n_used es \<le> length es"
  by (simp add: dtab.n_used_def)

lemma pow_cap_bounds:
  assumes "pow_cap n" "8 \<le> n" "n < 2 ^ 58"
  obtains k where "3 \<le> k" "k < 58" "n = 2 ^ k"
proof -
  from assms(1) obtain k where k: "n = 2 ^ k" by (auto simp: pow_cap_def)
  have "(2::nat) ^ 3 \<le> 2 ^ k" "(2::nat) ^ k < 2 ^ 58" using assms(2,3) k by simp_all
  then have "3 \<le> k" "k < 58"
    using power_le_imp_le_exp [of "2::nat" 3 k] power_less_imp_less_exp [of "2::nat" k 58] by simp_all
  with k show ?thesis by (intro that)
qed

lemma round_cap_pow2:
  assumes "3 \<le> k" "k < 64"
  shows "round_cap (2 ^ k) = 2 ^ k"
proof -
  have "(8::nat) \<le> 2 ^ k" using power_increasing [OF assms(1), of "2::nat"] by simp
  moreover have "((of_nat (2 ^ k) :: u64) AND (of_nat (2 ^ k) - 1)) = 0"
  proof -
    have "unat ((of_nat (2 ^ k) :: u64) AND (of_nat (2 ^ k) - 1)) = unat (of_nat (2 ^ k) :: u64) mod 2 ^ k"
      by (rule unat_and_mask [OF assms(2)])
    also have "unat (of_nat (2 ^ k) :: u64) = 2 ^ k"
      using power_strict_increasing [OF assms(2), of "2::nat"] by (simp only: unat_of_nat) simp
    finally have "unat ((of_nat (2 ^ k) :: u64) AND (of_nat (2 ^ k) - 1)) = 0" by simp
    then show ?thesis by (simp only: unat_eq_0)
  qed
  ultimately show ?thesis by (simp add: round_cap_def Let_def)
qed

lemma dict_refill_eq:
  "pow_cap (length t) \<Longrightarrow> cap = length t \<Longrightarrow> dtab.refill t olds = dict_refill t cap olds"
proof (induction olds arbitrary: t)
  case Nil
  then show ?case by simp
next
  case (Cons old olds)
  show ?case
  proof (cases "de_used old")
    case True
    have upd: "x\<lparr>de_key := de_key old, de_tag := de_tag old, de_payload := de_payload old,
             de_used := True\<rparr> = old" for x
      using True by (cases x; cases old) simp
    show ?thesis using Cons.IH Cons.prems True by (simp add: Let_def upd)
  next
    case False
    then show ?thesis using Cons by simp
  qed
qed

lemma rehash_size: "k < 59 \<Longrightarrow> (32 * 2 ^ k) mod 2 ^ 64 = (32 * 2 ^ k :: nat)"
proof (rule mod_less)
  assume "k < 59"
  then have "(2::nat) ^ k < 2 ^ 59" by (rule power_strict_increasing) simp
  then show "32 * 2 ^ k < (2 ^ 64 :: nat)" by simp
qed

text \<open>A rehash that gets its memory keeps the map, whatever the new size.\<close>

lemma dict_rehash_table:
  assumes len: "length (d_entries d) = d_cap d" and cap: "d_cap d \<noteq> 0"
    and keys: "distinct (dtab.used_keys (d_entries d))" "None \<notin> set (dtab.used_keys (d_entries d))"
    and cnt: "d_count d = dtab.n_used (d_entries d)"
    and k: "3 \<le> k" "k < 59" and room: "dtab.n_used (d_entries d) < 2 ^ k"
    and mem: "alloc_ok m (32 * 2 ^ k)"
  shows "dict_inv (dict_rehash m d (2 ^ k)) \<and> d_cap (dict_rehash m d (2 ^ k)) = 2 ^ k \<and>
    d_count (dict_rehash m d (2 ^ k)) = d_count d \<and>
    dtab.lookup (d_entries (dict_rehash m d (2 ^ k))) =
      (\<lambda>x. List.find (\<lambda>e. de_used e \<and> de_key e = x) (d_entries d))"
proof -
  let ?b = "replicate (2 ^ k) blank_entry"
  let ?r = "dtab.refill ?b (d_entries d)"
  have k64: "k < 64" using k by simp
  have "dict_refill ?b (2 ^ k) (d_entries d) = ?r"
    by (rule dict_refill_eq [symmetric]) (simp_all add: pow_capI [OF k64])
  moreover have "d_entries d \<noteq> []" using len cap by auto
  ultimately have rh: "dict_rehash m d (2 ^ k) = d\<lparr>d_entries := ?r, d_cap := 2 ^ k\<rparr>"
    using mem cap round_cap_pow2 [OF k(1) k64] rehash_size [OF k(2)]
    by (simp add: dict_rehash_def Let_def)
  have nu: "dtab.n_used ?b = 0" by (simp add: dtab.n_used_def blank_entry_def)
  have spec: "dtab.tbl_ok ?r \<and> length ?r = length ?b \<and> dtab.n_used ?r = dtab.n_used ?b + dtab.n_used (d_entries d) \<and>
      dtab.lookup ?r = (\<lambda>x. case List.find (\<lambda>e. de_used e \<and> de_key e = x) (d_entries d) of
          None \<Rightarrow> dtab.lookup ?b x | Some e \<Rightarrow> Some e)"
    using keys room nu
    by (intro dtab.refill_spec) (simp_all add: dtab.tbl_ok_blank [OF k64] dtab.lookup_blank [OF k64])
  have "32 * (2::nat) ^ k < 2 ^ 63" using mem by (rule alloc_okD)
  then have b58: "(2::nat) ^ k < 2 ^ 58" by simp
  have b8: "(8::nat) \<le> 2 ^ k" using power_increasing [OF k(1), of "2::nat"] by simp
  have "dtab.lookup ?r = (\<lambda>x. List.find (\<lambda>e. de_used e \<and> de_key e = x) (d_entries d))"
    using spec dtab.lookup_blank [OF k64] by (auto simp: fun_eq_iff split: option.splits)
  then show ?thesis using spec nu b58 b8 cnt rh by (simp add: dict_inv_def)
qed

lemma dict_rehash_same:
  assumes inv: "dict_inv d" "d_cap d \<noteq> 0" and k: "3 \<le> k" "k < 59" "dtab.n_used (d_entries d) < 2 ^ k"
    and mem: "alloc_ok m (32 * 2 ^ k)"
  shows "dict_inv (dict_rehash m d (2 ^ k)) \<and> d_cap (dict_rehash m d (2 ^ k)) = 2 ^ k \<and>
    d_count (dict_rehash m d (2 ^ k)) = d_count d \<and>
    dict_abs (dict_rehash m d (2 ^ k)) = dict_abs d"
proof -
  have ok: "dtab.tbl_ok (d_entries d)" and l: "length (d_entries d) = d_cap d"
      "d_count d = dtab.n_used (d_entries d)"
    using inv by (auto simp: dict_inv_def)
  from dict_rehash_table [OF l(1) inv(2) dtab.tbl_ok_keys(1,2) [OF ok] l(2) k mem]
  show ?thesis by (simp add: dict_abs_def dtab.tbl_ok_keys(3) [OF ok])
qed

lemma dict_put_spec:
  assumes inv: "dict_inv d" "d_cap d \<noteq> 0"
    and room: "d_count d < d_cap d \<or> dict_abs d k \<noteq> None"
  shows "dict_inv (dict_put d (Some k) t p) \<and> dict_abs (dict_put d (Some k) t p) = (dict_abs d)(k \<mapsto> (t, p)) \<and>
    d_count (dict_put d (Some k) t p) = d_count d + (if dict_abs d k = None then 1 else 0)"
proof -
  let ?es = "d_entries d"
  have ok: "dtab.tbl_ok ?es" and len: "length ?es = d_cap d" and cnt: "d_count d = dtab.n_used ?es"
    using inv by (auto simp: dict_inv_def)
  obtain i f where f: "dict_find_slot ?es (length ?es) (Some k) = (i, f)" by fastforce
  have abs: "dict_abs d k \<noteq> None \<longleftrightarrow> f"
    using f by (simp add: dict_abs_def dtab.lookup_def)
  let ?e = "(if f then ?es ! i else (?es ! i)\<lparr>de_key := Some k, de_used := True\<rparr>)\<lparr>de_tag := t, de_payload := p\<rparr>"
  have st: "stops_at de_used de_key ?es (Some k) (dict_home (length ?es) (Some k)) i \<and> i < length ?es \<and>
      de_used (?es ! i) = f \<and> (f \<longrightarrow> de_key (?es ! i) = Some k)"
  proof (cases f)
    case True
    then have "dict_find_slot ?es (length ?es) (Some k) = (i, True)" using f by simp
    from dtab.find_hit_stops [OF dtab.tbl_ok_pow [OF ok] this] True show ?thesis by simp
  next
    case False
    then have "dtab.n_used ?es < length ?es" using room abs cnt len by simp
    moreover have "dict_find_slot ?es (length ?es) (Some k) = (i, False)" using f False by simp
    ultimately show ?thesis using dtab.free_slot [OF ok] False by simp
  qed
  then have key: "de_key ?e = Some k" "de_used ?e" by auto
  have put: "dict_put d (Some k) t p =
      d\<lparr>d_entries := ?es[i := ?e], d_count := (if f then d_count d else d_count d + 1)\<rparr>"
    using f len by (simp add: dict_put_def Let_def)
  have "dtab.tbl_ok (?es[i := ?e])" "dtab.lookup (?es[i := ?e]) = (dtab.lookup ?es)(Some k \<mapsto> ?e)"
    using dtab.place_ok [OF ok, of ?e i] dtab.place_lookup [OF ok, of ?e i] st key by simp_all
  moreover have "dtab.n_used (?es[i := ?e]) = dtab.n_used ?es + (if f then 0 else 1)"
    using dtab.place_n_used [of i ?es ?e] st key by simp
  ultimately show ?thesis
    using put abs inv len cnt by (auto simp: dict_inv_def dict_abs_def fun_eq_iff)
qed

text \<open>The memory a store may ask for: the first table, or one of twice the size.\<close>

definition dict_grow_bytes :: "kn_dict \<Rightarrow> nat" where
  "dict_grow_bytes d = 32 * (if d_cap d = 0 then 8 else d_cap d * 2)"

lemma dict_set_spec:
  assumes inv: "dict_inv d" and mem: "alloc_ok m (dict_grow_bytes d) \<or> d_count d < d_cap d"
  shows "\<exists>d'. dict_set m (Some d) (Some k) t p = Some d' \<and> dict_inv d' \<and>
     dict_abs d' = (dict_abs d)(k \<mapsto> (t, p)) \<and>
     d_count d' = d_count d + (if dict_abs d k = None then 1 else 0)"
proof -
  define g where "g = (if d_cap d = 0 then dict_rehash m d 8
                       else if (d_count d + 1) * 10 \<ge> d_cap d * 7
                       then dict_rehash m d (d_cap d * 2) else d)"
  have g: "dict_inv g \<and> d_cap g \<noteq> 0 \<and> d_count g < d_cap g \<and> d_count g = d_count d \<and> dict_abs g = dict_abs d"
  proof (cases "d_cap d = 0")
    case True
    then have e: "d_entries d = []" "d_count d = 0" using inv by (auto simp: dict_inv_def)
    have r8: "round_cap 8 = 8" using round_cap_pow2 [of 3] by simp
    have "g = d\<lparr>d_entries := replicate 8 blank_entry, d_cap := 8\<rparr>"
      using mem True e by (simp add: g_def dict_rehash_def r8 Let_def dict_grow_bytes_def)
    moreover have "dtab.tbl_ok (replicate 8 blank_entry)" "\<And>x. dtab.lookup (replicate 8 blank_entry) x = None"
      using dtab.tbl_ok_blank [of 3] dtab.lookup_blank [of 3] by simp_all
    moreover have "dtab.lookup [] x = None" for x
      by (simp add: dtab.lookup_def dict_find_slot_def dict_find_loop.simps)
    ultimately show ?thesis using e
      by (simp add: dict_inv_def dtab.n_used_def dict_abs_def blank_entry_def)
  next
    case False
    then have ok: "dtab.tbl_ok (d_entries d)" and l: "length (d_entries d) = d_cap d"
        "d_count d = dtab.n_used (d_entries d)" "8 \<le> d_cap d" "d_cap d < 2 ^ 58"
      using inv by (auto simp: dict_inv_def)
    have le: "d_count d \<le> d_cap d" using n_used_le [of "d_entries d"] l by simp
    obtain k where k: "3 \<le> k" "k < 58" "d_cap d = 2 ^ k"
      using pow_cap_bounds [OF dtab.tbl_ok_pow [OF ok]] l by metis
    show ?thesis
    proof (cases "(d_count d + 1) * 10 \<ge> d_cap d * 7")
      case True
      have gr: "g = dict_rehash m d (2 ^ Suc k)" using True False k by (simp add: g_def mult.commute)
      show ?thesis
      proof (cases "alloc_ok m (32 * 2 ^ Suc k)")
        case True
        moreover have "dtab.n_used (d_entries d) < 2 ^ Suc k" using le l k by simp
        ultimately show ?thesis
          using gr dict_rehash_same [OF inv False, of "Suc k" m] k le by simp
      next
        case refused: False
        moreover have "round_cap (2 ^ Suc k) = 2 ^ Suc k" using k by (intro round_cap_pow2) auto
        moreover have "(32 * 2 ^ Suc k) mod 2 ^ 64 = (32 * 2 ^ Suc k :: nat)"
          using k by (intro rehash_size) simp
        ultimately have "g = d" using gr by (simp only: dict_rehash_def Let_def if_False)
        then show ?thesis
          using mem refused inv False k by (simp add: dict_grow_bytes_def mult.commute)
      qed
    next
      case no: False
      then show ?thesis using inv False le by (auto simp: g_def)
    qed
  qed
  then have "d_entries g \<noteq> []" by (auto simp: dict_inv_def split: if_splits)
  then have "dict_set m (Some d) (Some k) t p = Some (dict_put g (Some k) t p)"
    using g by (simp add: dict_set_def g_def [symmetric] Let_def)
  then show ?thesis using dict_put_spec [of g k t p] g by simp
qed

lemma dict_get_spec:
  assumes "dict_inv d"
  shows "dict_get (Some d) (Some k) = (case dict_abs d k of None \<Rightarrow> (0, Bits 0) | Some v \<Rightarrow> v)"
    "dict_contains (Some d) (Some k) \<longleftrightarrow> k \<in> dom (dict_abs d)"
proof -
  have l: "length (d_entries d) = d_cap d" using assms by (auto simp: dict_inv_def split: if_splits)
  have e: "d_entries d = [] \<Longrightarrow> dict_abs d k = None"
    by (simp add: dict_abs_def dtab.lookup_def dict_find_slot_def dict_find_loop.simps)
  show "dict_get (Some d) (Some k) = (case dict_abs d k of None \<Rightarrow> (0, Bits 0) | Some v \<Rightarrow> v)"
    using l e by (cases "d_entries d = []")
      (auto simp: dict_get_def dict_abs_def dtab.lookup_def split: prod.splits if_splits)
  show "dict_contains (Some d) (Some k) \<longleftrightarrow> k \<in> dom (dict_abs d)"
    using l e by (cases "d_entries d = []")
      (auto simp: dict_contains_def dict_abs_def dtab.lookup_def split: prod.splits if_splits)
qed

lemma dict_abs_keys:
  assumes "dict_inv d"
  shows "Some ` dom (dict_abs d) = set (dtab.used_keys (d_entries d)) \<and>
    distinct (dtab.used_keys (d_entries d)) \<and> length (dtab.used_keys (d_entries d)) = d_count d"
proof (cases "d_cap d = 0")
  case True
  then have "d_entries d = []" "d_count d = 0" using assms by (auto simp: dict_inv_def)
  then show ?thesis
    by (simp add: dict_abs_def dtab.lookup_def dict_find_slot_def dict_find_loop.simps
        dtab.used_keys_def)
next
  case False
  then have ok: "dtab.tbl_ok (d_entries d)" and c: "d_count d = dtab.n_used (d_entries d)"
    using assms by (auto simp: dict_inv_def)
  have "k \<in> dom (dict_abs d) \<longleftrightarrow> Some k \<in> set (dtab.used_keys (d_entries d))" for k
    by (force simp add: dict_abs_def dom_def dtab.lookup_in_set [OF ok, of "Some k"] dtab.used_keys_def)
  moreover have "\<exists>k. x = Some k" if "x \<in> set (dtab.used_keys (d_entries d))" for x
    using dtab.tbl_ok_keys(2) [OF ok] that by (cases x) auto
  ultimately have "Some ` dom (dict_abs d) = set (dtab.used_keys (d_entries d))" by blast
  then show ?thesis
    using dtab.tbl_ok_keys(1) [OF ok] c by (simp add: dtab.used_keys_def dtab.n_used_def)
qed

lemma dict_count_card:
  assumes "dict_inv d"
  shows "dict_count (Some d) = card (dom (dict_abs d)) \<and> finite (dom (dict_abs d))"
proof -
  note k = dict_abs_keys [OF assms]
  have "card (Some ` dom (dict_abs d)) = d_count d" using k distinct_card by metis
  moreover have "finite (Some ` dom (dict_abs d))" using k by (metis List.finite_set)
  ultimately show ?thesis
    using finite_imageD [of Some "dom (dict_abs d)"] by (simp add: dict_count_def card_image)
qed

lemma dict_remove_absent:
  assumes "dict_inv d" "dict_abs d k = None"
  shows "dict_remove m (Some d) (Some k) = (Some d, False)"
proof -
  have l: "length (d_entries d) = d_cap d" using assms(1) by (auto simp: dict_inv_def split: if_splits)
  show ?thesis using assms(2) l
    by (auto simp: dict_remove_def dict_abs_def dtab.lookup_def split: prod.splits if_splits)
qed

lemma dict_remove_present:
  assumes inv: "dict_inv d" and k: "dict_abs d k \<noteq> None" and mem: "alloc_ok m (32 * d_cap d)"
  shows "\<exists>d'. dict_remove m (Some d) (Some k) = (Some d', True) \<and> dict_inv d' \<and>
     dict_abs d' = (dict_abs d)(k := None) \<and> d_count d = Suc (d_count d') \<and> d_cap d' = d_cap d"
proof -
  let ?es = "d_entries d"
  have cap: "d_cap d \<noteq> 0"
  proof
    assume "d_cap d = 0"
    then have "?es = []" using inv by (simp add: dict_inv_def)
    then show False using k
      by (simp add: dict_abs_def dtab.lookup_def dict_find_slot_def dict_find_loop.simps)
  qed
  then have ok: "dtab.tbl_ok ?es" and l: "length ?es = d_cap d" "d_count d = dtab.n_used ?es"
      "8 \<le> d_cap d" "d_cap d < 2 ^ 58"
    using inv by (auto simp: dict_inv_def)
  obtain j where j: "3 \<le> j" "j < 58" "d_cap d = 2 ^ j"
    using pow_cap_bounds [OF dtab.tbl_ok_pow [OF ok]] l by metis
  obtain i where i: "dict_find_slot ?es (length ?es) (Some k) = (i, True)"
    using k by (auto simp: dict_abs_def dtab.lookup_def split: prod.splits if_splits)
  have hit: "i < length ?es" "de_used (?es ! i)" "de_key (?es ! i) = Some k"
    using dtab.find_hit_stops [OF dtab.tbl_ok_pow [OF ok] i] by simp_all
  note er = dtab.erase_spec [OF ok hit(1,2)]
  let ?d1 = "d\<lparr>d_entries := ?es[i := blank_entry], d_count := (if d_count d > 0 then d_count d - 1 else d_count d)\<rparr>"
  have rm: "dict_remove m (Some d) (Some k) = (Some (dict_rehash m ?d1 (2 ^ j)), True)"
    using i l(1) cap j(3) by (auto simp: dict_remove_def Let_def)
  have cnt: "d_count ?d1 = dtab.n_used (d_entries ?d1)" "d_count d = Suc (d_count ?d1)"
    using er(3) l(2) by simp_all
  have "dtab.n_used (d_entries ?d1) < 2 ^ j"
    using cnt n_used_le [of ?es] l j(3) by simp
  moreover have "alloc_ok m (32 * 2 ^ j)" using mem j(3) by simp
  ultimately have sp: "dict_inv (dict_rehash m ?d1 (2 ^ j)) \<and> d_cap (dict_rehash m ?d1 (2 ^ j)) = 2 ^ j \<and>
      d_count (dict_rehash m ?d1 (2 ^ j)) = d_count ?d1 \<and>
      dtab.lookup (d_entries (dict_rehash m ?d1 (2 ^ j))) = (\<lambda>x. List.find (\<lambda>e. de_used e \<and> de_key e = x) (d_entries ?d1))"
    using er(1,2) l(1) cap cnt(1) j(1,2) by (intro dict_rehash_table) simp_all
  have "dict_abs (dict_rehash m ?d1 (2 ^ j)) = (dict_abs d)(k := None)"
    using sp er(4) hit(3) by (simp add: dict_abs_def fun_eq_iff)
  then show ?thesis using rm sp cnt(2) j(3) by (intro exI [of _ "dict_rehash m ?d1 (2 ^ j)"]) simp
qed

subsection \<open>The map interface\<close>

text \<open>
  What clients of a runtime dictionary rely on: a store updates the map, a read returns the last
  value stored.
\<close>

locale string_map =
  fixes put :: "amem \<Rightarrow> 'm option \<Rightarrow> cstr \<Rightarrow> u64 \<Rightarrow> payload \<Rightarrow> 'm option"
    and fetch :: "'m option \<Rightarrow> cstr \<Rightarrow> any_value"
    and amap :: "'m \<Rightarrow> char list \<rightharpoonup> any_value" and inv :: "'m \<Rightarrow> bool"
    and size_of :: "'m \<Rightarrow> nat" and limit :: nat
  assumes put_law: "plenty m \<Longrightarrow> inv d \<Longrightarrow> size_of d < limit \<Longrightarrow>
    \<exists>d'. put m (Some d) (Some k) t p = Some d' \<and> inv d' \<and> amap d' = (amap d)(k \<mapsto> (t, p)) \<and>
         size_of d' \<le> Suc (size_of d)"
    and fetch_law: "inv d \<Longrightarrow> fetch (Some d) (Some k) = (case amap d k of None \<Rightarrow> (0, Bits 0) | Some v \<Rightarrow> v)"
begin

definition put_seq :: "amem \<Rightarrow> (char list \<times> any_value) list \<Rightarrow> 'm option \<Rightarrow> 'm option" where
  "put_seq m kvs d = fold (\<lambda>(k, v) d. put m d (Some k) (fst v) (snd v)) kvs d"

lemma put_seq_simps [simp]:
  "put_seq m [] d = d"
  "put_seq m (kv # kvs) d = put_seq m kvs (put m d (Some (fst kv)) (fst (snd kv)) (snd (snd kv)))"
  by (simp_all add: put_seq_def split_beta)

lemma put_seq_spec:
  assumes "plenty m"
  shows "inv d \<Longrightarrow> size_of d + length kvs \<le> limit \<Longrightarrow>
    \<exists>d'. put_seq m kvs (Some d) = Some d' \<and> inv d' \<and> amap d' = amap d ++ map_of (rev kvs) \<and>
         size_of d' \<le> size_of d + length kvs"
proof (induction kvs arbitrary: d)
  case Nil
  then show ?case by simp
next
  case (Cons kv kvs)
  obtain k t p where kv: "kv = (k, t, p)" by (cases kv) auto
  obtain d1 where d1: "put m (Some d) (Some k) t p = Some d1" "inv d1" "amap d1 = (amap d)(k \<mapsto> (t, p))"
      "size_of d1 \<le> Suc (size_of d)"
    using put_law [OF assms, of d k t p] Cons.prems by auto
  have "size_of d1 + length kvs \<le> limit" using d1(4) Cons.prems(2) by simp
  from Cons.IH [OF d1(2) this] obtain d2 where "put_seq m kvs (Some d1) = Some d2" "inv d2"
      "amap d2 = amap d1 ++ map_of (rev kvs)" "size_of d2 \<le> size_of d1 + length kvs"
    by blast
  then show ?case using d1 kv by (intro exI [of _ d2]) (simp add: map_add_def fun_eq_iff split: option.split)
qed

text \<open>Reading a key back yields the value of its last store.\<close>

lemma fetch_put_seq:
  assumes "plenty m" "inv d" "size_of d + length kvs \<le> limit" "put_seq m kvs (Some d) = Some d'"
  shows "fetch (Some d') (Some k) =
    (case map_of (rev kvs) k of None \<Rightarrow> fetch (Some d) (Some k) | Some v \<Rightarrow> v)"
  using put_seq_spec [OF assms(1-3)] assms(2,4)
  by (auto simp: fetch_law map_add_def split: option.splits)

end

definition dict_limit :: nat where
  "dict_limit = 2 ^ 50"

lemma dict_set_plenty:
  assumes "plenty m" "dict_inv d" "d_count d < dict_limit"
  shows "\<exists>d'. dict_set m (Some d) (Some k) t p = Some d' \<and> dict_inv d' \<and>
     dict_abs d' = (dict_abs d)(k \<mapsto> (t, p)) \<and> d_count d' \<le> Suc (d_count d)"
proof -
  have "alloc_ok m (dict_grow_bytes d) \<or> d_count d < d_cap d"
  proof (cases "d_count d < d_cap d")
    case False
    then have "d_cap d \<le> 2 ^ 50" using assms(3) by (simp add: dict_limit_def)
    then show ?thesis using assms(1) by (auto simp: dict_grow_bytes_def)
  qed simp
  from dict_set_spec [OF assms(2) this, of k t p] show ?thesis by fastforce
qed

interpretation dm: string_map dict_set dict_get dict_abs dict_inv d_count dict_limit
  by unfold_locales (auto simp: dict_get_spec intro: dict_set_plenty)

subsection \<open>Listing keys and values\<close>

lemma dict_keys_loop_fold:
  "dict_keys_loop m es l =
     fold (\<lambda>v l. list_add m l (fst v) (snd v))
       (map (\<lambda>e. (KN_ANY_TAG_STRING, StrP (de_key e))) (filter (\<lambda>e. de_used e \<and> de_key e \<noteq> None) es)) l"
  by (induction es arbitrary: l) auto

lemma dict_values_loop_fold:
  "dict_values_loop m es l =
     fold (\<lambda>v l. list_add m l (fst v) (snd v)) (map (\<lambda>e. (de_tag e, de_payload e)) (filter de_used es)) l"
  by (induction es arbitrary: l) auto

lemma dict_keys_spec:
  assumes m: "plenty m" and inv: "dict_inv d" and small: "d_count d \<le> list_limit"
  shows "\<exists>l. dict_keys m (Some d) = Some l \<and> list_inv l \<and> distinct (list_abs l) \<and>
    length (list_abs l) = d_count d \<and>
    set (list_abs l) = (\<lambda>k. (KN_ANY_TAG_STRING, StrP (Some k))) ` dom (dict_abs d)"
proof -
  obtain l0 where l0: "list_new m = Some l0" using m by (auto simp: list_new_def)
  have p0: "list_inv l0" "list_abs l0 = []" using list_new_props [OF l0] by auto
  show ?thesis
  proof (cases "d_cap d = 0")
    case True
    then have "d_entries d = []" "d_count d = 0" using inv by (auto simp: dict_inv_def)
    moreover from this have "dict_abs d = Map.empty"
      by (auto simp: dict_abs_def dtab.lookup_def dict_find_slot_def dict_find_loop.simps fun_eq_iff)
    ultimately show ?thesis using l0 p0 by (simp add: dict_keys_def)
  next
    case False
    let ?es = "d_entries d"
    have ok: "dtab.tbl_ok ?es" and ne: "?es \<noteq> []" and cnt: "d_count d = dtab.n_used ?es"
      using inv False by (auto simp: dict_inv_def)
    have flt: "filter (\<lambda>e. de_used e \<and> de_key e \<noteq> None) ?es = filter de_used ?es"
      by (rule filter_cong) (use dtab.tbl_ok_keys(2) [OF ok] in \<open>force simp: dtab.used_keys_def\<close>)+
    let ?vs = "map (\<lambda>e. (KN_ANY_TAG_STRING, StrP (de_key e))) (filter de_used ?es)"
    have "length ?vs = d_count d" by (simp add: cnt dtab.n_used_def)
    then obtain l where l: "fold (\<lambda>v l. list_add m l (fst v) (snd v)) ?vs (Some l0) = Some l"
        "list_inv l" "list_abs l = ?vs"
      using ls.add_all [OF m p0(1), of ?vs] p0(2) small by auto
    have "distinct ?vs"
      using dtab.tbl_ok_keys(1) [OF ok] unfolding dtab.used_keys_def
      by (simp add: distinct_map inj_on_def)
    moreover have "set ?vs = (\<lambda>k. (KN_ANY_TAG_STRING, StrP (Some k))) ` dom (dict_abs d)"
    proof -
      have d: "k \<in> dom (dict_abs d) \<longleftrightarrow> (\<exists>e\<in>set ?es. de_used e \<and> de_key e = Some k)" for k
        by (simp add: dict_abs_def dom_def dtab.lookup_in_set [OF ok, of "Some k"] Bex_def)
      have s: "\<exists>k. de_key e = Some k" if "e \<in> set ?es" "de_used e" for e
        using dtab.tbl_ok_keys(2) [OF ok] that by (force simp: dtab.used_keys_def)
      show ?thesis
      proof (intro equalityI subsetI)
        fix v assume "v \<in> set ?vs"
        then obtain e where e: "e \<in> set ?es" "de_used e" "v = (KN_ANY_TAG_STRING, StrP (de_key e))"
          by auto
        with s obtain k where "de_key e = Some k" by blast
        with e d show "v \<in> (\<lambda>k. (KN_ANY_TAG_STRING, StrP (Some k))) ` dom (dict_abs d)" by blast
      next
        fix v assume "v \<in> (\<lambda>k. (KN_ANY_TAG_STRING, StrP (Some k))) ` dom (dict_abs d)"
        then obtain k where k: "k \<in> dom (dict_abs d)" "v = (KN_ANY_TAG_STRING, StrP (Some k))" by blast
        then obtain e where "e \<in> set ?es" "de_used e" "de_key e = Some k" using d by blast
        with k(2) show "v \<in> set ?vs" by force
      qed
    qed
    moreover have "dict_keys_loop m ?es (Some l0) = Some l"
      using l(1) unfolding dict_keys_loop_fold flt .
    then have "dict_keys m (Some d) = Some l"
      using l0 False ne by (simp add: dict_keys_def)
    ultimately show ?thesis
      using l(2,3) cnt by (intro exI [of _ l]) (simp add: dtab.n_used_def)
  qed
qed

subsection \<open>Properties of the dictionary\<close>

text \<open>
  C33: storing under a key keeps the table's invariant, makes the key read back the new value, leaves
  every other key as it was, and counts the key once; the only condition is memory for the growth
  the store may need.
\<close>

theorem dict_set_updates:
  assumes "dict_inv d" "alloc_ok m (dict_grow_bytes d) \<or> d_count d < d_cap d"
  shows "\<exists>d'. dict_set m (Some d) (Some k) t p = Some d' \<and> dict_inv d' \<and>
     (\<forall>k'. dict_get (Some d') (Some k') = (if k' = k then (t, p) else dict_get (Some d) (Some k')) \<and>
           dict_contains (Some d') (Some k') = (k' = k \<or> dict_contains (Some d) (Some k'))) \<and>
     dict_count (Some d') = dict_count (Some d) + (if dict_contains (Some d) (Some k) then 0 else 1)"
proof -
  obtain d' where d': "dict_set m (Some d) (Some k) t p = Some d'" "dict_inv d'"
      "dict_abs d' = (dict_abs d)(k \<mapsto> (t, p))"
      "d_count d' = d_count d + (if dict_abs d k = None then 1 else 0)"
    using dict_set_spec [OF assms] by blast
  then show ?thesis
    by (intro exI [of _ d'])
       (simp add: dict_get_spec [OF d'(2)] dict_get_spec [OF assms(1)] dict_count_def domIff)
qed

theorem dict_set_updates_witness:
  "\<exists>d'. dict_set big_mem (Some \<lparr>d_count = 0, d_cap = 0, d_entries = []\<rparr>) (Some ''key'') 1 (Bits 7) = Some d' \<and>
     dict_get (Some d') (Some ''key'') = (1, Bits 7) \<and> \<not> dict_contains (Some d') (Some ''other'')"
proof -
  let ?e = "\<lparr>d_count = 0, d_cap = 0, d_entries = []\<rparr>"
  have "alloc_ok big_mem (dict_grow_bytes ?e) \<or> d_count ?e < d_cap ?e" by (simp add: dict_grow_bytes_def)
  from dict_set_updates [OF dict_inv_empty this, of "''key''" 1 "Bits 7"]
  obtain d' where d': "dict_set big_mem (Some ?e) (Some ''key'') 1 (Bits 7) = Some d'"
    "\<forall>k'. dict_get (Some d') (Some k') = (if k' = ''key'' then (1, Bits 7) else dict_get (Some ?e) (Some k')) \<and>
           dict_contains (Some d') (Some k') = (k' = ''key'' \<or> dict_contains (Some ?e) (Some k'))" by blast
  have "\<not> dict_contains (Some ?e) (Some ''other'')" by (simp add: dict_contains_def)
  then show ?thesis using d'(1) spec [OF d'(2), of "''key''"] spec [OF d'(2), of "''other''"] by auto
qed

text \<open>
  C34: removing a key deletes exactly that key, keeps the invariant (the table is rebuilt in place
  of tombstones, so no probe sequence is cut) and reports whether the key was there.
\<close>

theorem dict_remove_deletes:
  assumes "dict_inv d" "alloc_ok m (32 * d_cap d)"
  shows "\<exists>d'. dict_remove m (Some d) (Some k) = (Some d', dict_contains (Some d) (Some k)) \<and> dict_inv d' \<and>
     (\<forall>k'. dict_get (Some d') (Some k') = (if k' = k then (0, Bits 0) else dict_get (Some d) (Some k')) \<and>
           dict_contains (Some d') (Some k') = (k' \<noteq> k \<and> dict_contains (Some d) (Some k')))"
proof (cases "dict_abs d k")
  case None
  then show ?thesis using dict_remove_absent [OF assms(1) None, of m] assms(1)
    by (intro exI [of _ d]) (auto simp: domIff dict_get_spec [OF assms(1)])
next
  case (Some v)
  then obtain d' where d': "dict_remove m (Some d) (Some k) = (Some d', True)" "dict_inv d'"
      "dict_abs d' = (dict_abs d)(k := None)"
    using dict_remove_present [OF assms(1) _ assms(2), of k] by auto
  then show ?thesis using Some
    by (intro exI [of _ d'])
       (auto simp: dict_get_spec [OF d'(2)] dict_get_spec [OF assms(1)] domIff)
qed

lemma one_key_dict:
  "\<exists>d. dict_inv d \<and> d_count d = 1 \<and> dict_contains (Some d) (Some ''a'') \<and>
     dict_set big_mem (Some \<lparr>d_count = 0, d_cap = 0, d_entries = []\<rparr>) (Some ''a'') 1 (Bits 7) = Some d"
  using dict_set_spec [OF dict_inv_empty, of big_mem "''a''" 1 "Bits 7"] dict_get_spec(2)
  by (auto simp: dict_grow_bytes_def dict_abs_def dtab.lookup_def dict_find_slot_def dict_find_loop.simps)

theorem dict_remove_deletes_witness:
  "\<exists>d d'. dict_contains (Some d) (Some ''a'') \<and>
     dict_remove big_mem (Some d) (Some ''a'') = (Some d', True) \<and> \<not> dict_contains (Some d') (Some ''a'')"
proof -
  obtain d where d: "dict_inv d" "dict_contains (Some d) (Some ''a'')" using one_key_dict by blast
  then have "alloc_ok big_mem (32 * d_cap d)" by (auto simp: dict_inv_def split: if_splits)
  from dict_remove_deletes [OF d(1) this, of "''a''"] d(2) show ?thesis by auto
qed

text \<open>
  the key list of a dictionary holds every key exactly once, as string values, and as many
  as the count.
\<close>

theorem dict_keys_exact:
  assumes "plenty m" "dict_inv d" "d_count d \<le> list_limit"
  shows "\<exists>l. dict_keys m (Some d) = Some l \<and> list_inv l \<and> distinct (list_abs l) \<and>
    length (list_abs l) = dict_count (Some d) \<and>
    set (list_abs l) = (\<lambda>k. (KN_ANY_TAG_STRING, StrP (Some k))) ` {k. dict_contains (Some d) (Some k)}"
  using dict_keys_spec [OF assms] dict_get_spec(2) [OF assms(2)] by (simp add: dict_count_def)

theorem dict_keys_exact_witness:
  "\<exists>d l. dict_contains (Some d) (Some ''a'') \<and> dict_keys big_mem (Some d) = Some l \<and> length (list_abs l) = 1"
proof -
  obtain d where d: "dict_inv d" "dict_contains (Some d) (Some ''a'')" "d_count d = 1"
    using one_key_dict by blast
  then have "d_count d \<le> list_limit" by (simp add: list_limit_def)
  from dict_keys_exact [OF plenty_True d(1) this] d show ?thesis by (auto simp: dict_count_def)
qed

text \<open>
  C35: a sequence of stores into an empty dictionary reads back, for each key, the value of its
  last store, and the default for a key never stored.
\<close>

theorem dict_last_store_wins:
  assumes "plenty m" "length kvs \<le> dict_limit"
  shows "\<exists>d. fold (\<lambda>(k, v) d. dict_set m d (Some k) (fst v) (snd v)) kvs (dict_new m) = Some d \<and> dict_inv d \<and>
    (\<forall>k. dict_get (Some d) (Some k) = (case map_of (rev kvs) k of None \<Rightarrow> (0, Bits 0) | Some v \<Rightarrow> v))"
proof -
  let ?d0 = "\<lparr>d_count = 0, d_cap = 0, d_entries = []\<rparr>"
  have e: "dict_get (Some ?d0) (Some k) = (0, Bits 0)" for k by (simp add: dict_get_def)
  have l: "d_count ?d0 + length kvs \<le> dict_limit" using assms(2) by simp
  obtain d where d: "dm.put_seq m kvs (Some ?d0) = Some d" "dict_inv d"
    using dm.put_seq_spec [OF assms(1) dict_inv_empty l] by blast
  have "dict_new m = Some ?d0" using assms(1) by (simp add: dict_new_def)
  then show ?thesis using d dm.fetch_put_seq [OF assms(1) dict_inv_empty l d(1), unfolded e]
    by (intro exI [of _ d]) (simp add: dm.put_seq_def)
qed

theorem dict_last_store_wins_witness:
  "\<exists>d. fold (\<lambda>(k, v) d. dict_set big_mem d (Some k) (fst v) (snd v))
         [(''a'', (1, Bits 1)), (''b'', (1, Bits 2)), (''a'', (1, Bits 3))] (dict_new big_mem) = Some d \<and>
       dict_get (Some d) (Some ''a'') = (1, Bits 3) \<and> dict_get (Some d) (Some ''c'') = (0, Bits 0)"
  using dict_last_store_wins [OF plenty_True, of "[(''a'', (1, Bits 1)), (''b'', (1, Bits 2)), (''a'', (1, Bits 3))]"]
  by (auto simp: dict_limit_def)

subsection \<open>When the growth is refused\<close>

text \<open>In a table without a free slot the search finds the slot of a key, wherever it starts.\<close>

definition all_used :: "dict_entry list \<Rightarrow> bool" where
  "all_used es \<longleftrightarrow> (\<forall>j < length es. de_used (es ! j)) \<and>
     (\<forall>i < length es. \<forall>j < length es. de_key (es ! i) = de_key (es ! j) \<longrightarrow> i = j)"

lemma find_all_used:
  assumes "pow_cap (length es)" "all_used es" "j < length es" "de_key (es ! j) = k"
  shows "dict_find_slot es (length es) k = (j, True)"
  using assms(1)
proof (cases rule: dtab.find_cases [where es = es and k = k])
  case (hit i)
  then show ?thesis using assms by (auto simp: all_used_def)
next
  case (free i)
  then show ?thesis using assms(2) by (simp add: all_used_def)
qed (use assms in auto)

lemma find_none_free:
  assumes "pow_cap (length es)" "all_used es" "\<forall>j < length es. de_key (es ! j) \<noteq> k"
  shows "dict_find_slot es (length es) k = (0, False)"
  using assms(1)
proof (cases rule: dtab.find_cases [where es = es and k = k])
  case (free i)
  then show ?thesis using assms(2) by (simp add: all_used_def)
qed (use assms(3) in auto)

lemma full_all_used:
  assumes "dict_inv d" "d_cap d \<noteq> 0" "d_count d = d_cap d"
  shows "all_used (d_entries d)"
proof -
  let ?es = "d_entries d"
  have ok: "dtab.tbl_ok ?es" and l: "length ?es = d_cap d" "d_count d = dtab.n_used ?es"
    using assms(1,2) by (auto simp: dict_inv_def)
  have "filter de_used ?es = ?es"
    using assms(3) l by (simp add: dtab.n_used_def) (metis filter_True length_filter_less less_irrefl)
  then have u: "de_used (?es ! j)" if "j < length ?es" for j
    using that by (metis filter_id_conv nth_mem)
  then show ?thesis using dtab.used_keys_distinct [OF ok] unfolding all_used_def by blast
qed

text \<open>The dictionary after the store: the first slot taken over.\<close>

definition first_slot_taken :: "kn_dict \<Rightarrow> char list \<Rightarrow> u64 \<Rightarrow> payload \<Rightarrow> kn_dict" where
  "first_slot_taken d k t p = d\<lparr>
     d_entries := (d_entries d)[0 := (d_entries d ! 0)\<lparr>de_key := Some k, de_used := True, de_tag := t, de_payload := p\<rparr>],
     d_count := d_count d + 1\<rparr>"

lemma refused_store:
  assumes inv: "dict_inv d" "d_cap d \<noteq> 0" and full: "d_count d = d_cap d"
    and mem: "\<not> alloc_ok m (dict_grow_bytes d)" and new: "\<forall>j < length (d_entries d). de_key (d_entries d ! j) \<noteq> Some k"
  shows "dict_set m (Some d) (Some k) t p = Some (first_slot_taken d k t p)"
proof -
  have ok: "dtab.tbl_ok (d_entries d)" and l: "length (d_entries d) = d_cap d" "8 \<le> d_cap d" "d_cap d < 2 ^ 58"
    using inv by (auto simp: dict_inv_def)
  have pc: "pow_cap (length (d_entries d))" by (rule dtab.tbl_ok_pow [OF ok])
  obtain j where j: "3 \<le> j" "j < 58" "d_cap d = 2 ^ j"
    using pow_cap_bounds [OF pc] l by metis
  have rc: "round_cap (d_cap d * 2) = d_cap d * 2" using round_cap_pow2 [of "Suc j"] j by (simp add: mult.commute)
  have "(32 * (d_cap d * 2)) mod 2 ^ 64 = 32 * (d_cap d * 2)" using l(3) by (intro mod_less) simp
  then have "dict_rehash m d (d_cap d * 2) = d"
    using mem inv(2) by (simp only: dict_rehash_def rc Let_def dict_grow_bytes_def if_False)
  then show ?thesis
    using inv(2) full l find_none_free [OF pc full_all_used [OF inv full] new]
    by (auto simp: dict_set_def dict_put_def Let_def first_slot_taken_def)
qed

text \<open>
  C36: When the table is full and the growth is refused, storing a new key takes over the first
  slot, whatever key is there: the entry becomes the new one and the count goes up, the new key is
  found with its value, the key that was in the slot is found no more, and every other key keeps
  its value.
\<close>

theorem dict_set_full_loses_key:
  assumes inv: "dict_inv d" "d_cap d \<noteq> 0" and full: "d_count d = d_cap d"
    and mem: "\<not> alloc_ok m (dict_grow_bytes d)" and new: "\<not> dict_contains (Some d) (Some k)"
  shows "\<exists>k0. de_key (d_entries d ! 0) = Some k0 \<and> dict_contains (Some d) (Some k0) \<and>
    dict_set m (Some d) (Some k) t p = Some (first_slot_taken d k t p) \<and>
    dict_get (Some (first_slot_taken d k t p)) (Some k) = (t, p) \<and>
    \<not> dict_contains (Some (first_slot_taken d k t p)) (Some k0) \<and>
    (\<forall>k1. k1 \<noteq> k \<and> k1 \<noteq> k0 \<longrightarrow>
       dict_get (Some (first_slot_taken d k t p)) (Some k1) = dict_get (Some d) (Some k1))"
proof -
  let ?es = "d_entries d" and ?d = "first_slot_taken d k t p"
  have ok: "dtab.tbl_ok ?es" and l: "length ?es = d_cap d" using inv by (auto simp: dict_inv_def)
  have pc: "pow_cap (length ?es)" by (rule dtab.tbl_ok_pow [OF ok])
  note used = full_all_used [OF inv full]
  have len0: "0 < length ?es" using l inv(2) by simp
  have hit: "dict_find_slot ?es (d_cap d) k1 = (j, True)" if "j < length ?es" "de_key (?es ! j) = k1" for j k1
    using find_all_used [OF pc used that] l by simp
  have absent: "\<forall>j < length ?es. de_key (?es ! j) \<noteq> Some k"
  proof (intro allI impI notI)
    fix j assume "j < length ?es" "de_key (?es ! j) = Some k"
    from hit [OF this] have "dict_contains (Some d) (Some k)" using len0 inv(2) by (auto simp: dict_contains_def)
    then show False using new by simp
  qed
  let ?fs = "d_entries ?d"
  have fs: "length ?fs = d_cap d" "d_cap ?d = d_cap d" using l by (simp_all add: first_slot_taken_def)
  have fj: "?fs ! j = ?es ! j" if "j \<noteq> 0" for j using that by (simp add: first_slot_taken_def)
  have f0: "?fs ! 0 = (?es ! 0)\<lparr>de_key := Some k, de_used := True, de_tag := t, de_payload := p\<rparr>"
    using len0 by (simp add: first_slot_taken_def)
  have fpc: "pow_cap (length ?fs)" using pc by (simp add: first_slot_taken_def)
  have fkey: "de_key (?fs ! i) = (if i = 0 then Some k else de_key (?es ! i))" for i
    using fj [of i] f0 by simp
  have fused: "all_used ?fs"
    using used absent f0 fj l len0 unfolding all_used_def fkey
    by (auto simp: first_slot_taken_def nth_list_update)
  have fhit: "dict_find_slot ?fs (d_cap d) k1 = (j, True)" if "j < d_cap d" "de_key (?fs ! j) = k1" for j k1
    using find_all_used [OF fpc fused, of j k1] that l by (simp add: first_slot_taken_def)
  have fmiss: "dict_find_slot ?fs (d_cap d) k1 = (0, False)" if "\<forall>j < d_cap d. de_key (?fs ! j) \<noteq> k1" for k1
    using find_none_free [OF fpc fused, of k1] that l by (simp add: first_slot_taken_def)
  obtain k0 where k0: "de_key (?es ! 0) = Some k0"
    using dtab.tbl_ok_key [OF ok len0] used len0 by (auto simp: all_used_def)
  have ne: "?fs \<noteq> []" "?es \<noteq> []" using len0 by (auto simp: first_slot_taken_def)
  have "dict_contains (Some d) (Some k0)"
    using hit [OF len0 k0] inv(2) ne by (simp add: dict_contains_def)
  moreover have "dict_get (Some ?d) (Some k) = (t, p)"
    using fhit [of 0 "Some k"] f0 ne inv(2) by (simp add: dict_get_def fs(2))
  moreover have "\<not> dict_contains (Some ?d) (Some k0)"
  proof -
    have "de_key (?fs ! j) \<noteq> Some k0" if "j < d_cap d" for j
      using used k0 absent that l len0 unfolding fkey all_used_def by (metis option.inject)
    then show ?thesis using fmiss [of "Some k0"] by (simp add: dict_contains_def fs(2))
  qed
  moreover have "dict_get (Some ?d) (Some k1) = dict_get (Some d) (Some k1)" if "k1 \<noteq> k" "k1 \<noteq> k0" for k1
  proof (cases "\<exists>j < d_cap d. de_key (?es ! j) = Some k1")
    case True
    then obtain j where j: "j < d_cap d" "de_key (?es ! j) = Some k1" by blast
    then have "j \<noteq> 0" using k0 that(2) by (metis option.inject)
    then show ?thesis using fhit [of j "Some k1"] hit [of j "Some k1"] j fkey [of j] fj [of j] ne inv(2) l
      by (simp add: dict_get_def first_slot_taken_def)
  next
    case False
    then have "\<forall>j < d_cap d. de_key (?fs ! j) \<noteq> Some k1" using that(1) unfolding fkey by auto
    then have "dict_find_slot ?fs (d_cap d) (Some k1) = (0, False)" by (rule fmiss)
    moreover have "dict_find_slot ?es (d_cap d) (Some k1) = (0, False)"
      using find_none_free [OF pc used, of "Some k1"] False l by auto
    ultimately show ?thesis using ne inv(2) by (simp add: dict_get_def fs(2))
  qed
  ultimately show ?thesis using refused_store [OF inv full mem absent, of t p] k0 by blast
qed

text \<open>An allocator that serves the first table and refuses the next: the table fills up.\<close>

definition tight_mem :: amem where
  "tight_mem n = (n \<le> 256)"

lemma fill_step:
  assumes "dict_inv d" "d_cap d = 8" "d_count d < 8" "k \<notin> dom (dict_abs d)"
  shows "\<exists>d'. dict_inv d' \<and> d_cap d' = 8 \<and> d_count d' = Suc (d_count d) \<and> dom (dict_abs d') = insert k (dom (dict_abs d))"
proof -
  have "d_count d < d_cap d" using assms(2,3) by simp
  with dict_set_spec [OF assms(1), of tight_mem k 0 "Bits 0"] obtain d' where
    d': "dict_set tight_mem (Some d) (Some k) 0 (Bits 0) = Some d'" "dict_inv d'"
      "dict_abs d' = (dict_abs d)(k \<mapsto> (0, Bits 0))"
      "d_count d' = d_count d + (if dict_abs d k = None then 1 else 0)" by blast
  have r16: "round_cap 16 = 16" using round_cap_pow2 [of 4] by simp
  have "dict_rehash tight_mem d 16 = d"
    by (simp add: dict_rehash_def r16 Let_def alloc_ok_def tight_mem_def)
  then have "d_cap d' = 8" using d'(1) assms(2)
    by (auto simp: dict_set_def dict_put_def Let_def split: if_splits prod.splits)
  then show ?thesis using d' assms(4) by (intro exI [of _ d']) (auto simp: domIff)
qed

lemma fill_all:
  "distinct ks \<Longrightarrow> dict_inv d \<Longrightarrow> d_cap d = 8 \<Longrightarrow> d_count d + length ks \<le> 8 \<Longrightarrow> set ks \<inter> dom (dict_abs d) = {} \<Longrightarrow>
    \<exists>d'. dict_inv d' \<and> d_cap d' = 8 \<and> d_count d' = d_count d + length ks \<and> dom (dict_abs d') = set ks \<union> dom (dict_abs d)"
proof (induction ks arbitrary: d)
  case (Cons k ks)
  from fill_step [of d k] Cons.prems obtain d1 where d1: "dict_inv d1" "d_cap d1 = 8"
      "d_count d1 = Suc (d_count d)" "dom (dict_abs d1) = insert k (dom (dict_abs d))" by auto
  have "set ks \<inter> dom (dict_abs d1) = {}" using Cons.prems(1,5) unfolding d1(4) by auto
  moreover have "d_count d1 + length ks \<le> 8" "distinct ks" using d1(3) Cons.prems(1,4) by simp_all
  ultimately obtain d2 where d2: "dict_inv d2" "d_cap d2 = 8"
      "d_count d2 = d_count d1 + length ks" "dom (dict_abs d2) = set ks \<union> dom (dict_abs d1)"
    using Cons.IH [of d1] d1(1,2) by blast
  have "dom (dict_abs d2) = set (k # ks) \<union> dom (dict_abs d)" unfolding d2(4) d1(4) by simp
  then show ?case using d1(3) d2(1-3) by (intro exI [of _ d2]) simp
next
  case Nil
  then show ?case by (intro exI [of _ d]) simp
qed

lemma full_dict: "\<exists>d. dict_inv d \<and> d_cap d = 8 \<and> d_count d = 8 \<and> ''z'' \<notin> dom (dict_abs d)"
proof -
  let ?d = "\<lparr>d_count = 0, d_cap = 8, d_entries = replicate 8 blank_entry\<rparr>"
  let ?ks = "[''a'', ''b'', ''c'', ''d'', ''e'', ''f'', ''g'', ''h'']"
  have z: "dtab.n_used (replicate 8 blank_entry) = 0" by (simp add: dtab.n_used_def blank_entry_def)
  have inv: "dict_inv ?d"
    using dtab.tbl_ok_blank [of 3] z by (simp add: dict_inv_def)
  have "dict_abs ?d k = None" for k
    using dtab.lookup_blank [of 3 "Some k"] by (simp add: dict_abs_def)
  then have e: "dom (dict_abs ?d) = {}" by (simp only: dom_def) simp
  have "distinct ?ks" "d_count ?d + length ?ks \<le> 8" "d_cap ?d = 8" by simp_all
  with fill_all [of ?ks ?d] inv e obtain d where d: "dict_inv d" "d_cap d = 8"
      "d_count d = d_count ?d + length ?ks" "dom (dict_abs d) = set ?ks \<union> dom (dict_abs ?d)" by blast
  have "''z'' \<notin> dom (dict_abs d)" unfolding d(4) e by simp
  then show ?thesis using d(1-3) by (intro exI [of _ d]) simp
qed

theorem dict_set_full_loses_key_witness:
  "\<exists>d k0. dict_count (Some d) = 8 \<and> dict_contains (Some d) (Some k0) \<and>
     dict_set tight_mem (Some d) (Some ''z'') 1 (Bits 7) = Some (first_slot_taken d ''z'' 1 (Bits 7)) \<and>
     dict_get (Some (first_slot_taken d ''z'' 1 (Bits 7))) (Some ''z'') = (1, Bits 7) \<and>
     \<not> dict_contains (Some (first_slot_taken d ''z'' 1 (Bits 7))) (Some k0)"
proof -
  obtain d where d: "dict_inv d" "d_cap d = 8" "d_count d = 8" "''z'' \<notin> dom (dict_abs d)"
    using full_dict by blast
  have "\<not> dict_contains (Some d) (Some ''z'')" using d(4) by (simp only: dict_get_spec(2) [OF d(1)] not_False_eq_True)
  moreover have "\<not> alloc_ok tight_mem (dict_grow_bytes d)"
    by (simp add: alloc_ok_def tight_mem_def dict_grow_bytes_def d(2))
  ultimately show ?thesis
    using dict_set_full_loses_key [of d tight_mem "''z''" 1 "Bits 7"] d(1-3)
    by (auto simp: dict_count_def)
qed

end
