(* ===== verification/RtSet.thy ===== *)
theory RtSet
  imports RtDict
begin

text \<open>
  The runtime's string set (\<open>KnSet\<close>, \<open>__kn_set_*\<close>, \<open>set_find_slot\<close>,
  \<open>set_rehash\<close> in \<open>libs/runtime/src/kn_runtime.c\<close>). The code repeats the dictionary's table
  with entries of half the size and no value. Each operation is translated as it stands; the
  lemmas then show that it simulates the dictionary's, an entry standing for one with a fixed
  value, and carry the dictionary's theorems over. \<open>__kn_set_clear\<close> has no counterpart there.
\<close>

record set_entry =
  se_key :: cstr
  se_used :: bool

definition blank_set_entry :: set_entry where
  "blank_set_entry = \<lparr>se_key = None, se_used = False\<rparr>"

record kn_set =
  s_count :: nat
  s_cap :: nat
  s_entries :: "set_entry list"

function set_find_loop :: "set_entry list \<Rightarrow> nat \<Rightarrow> cstr \<Rightarrow> u64 \<Rightarrow> nat \<Rightarrow> nat \<times> bool" where
  "set_find_loop es cap key idx n =
     (if n < cap then
        (let i = unat ((idx + of_nat n) AND (of_nat cap - 1)); e = es ! i
         in if \<not> se_used e then (i, False)
            else if rt_streq (se_key e) key then (i, True)
            else set_find_loop es cap key idx (n + 1))
      else (0, False))"
  by pat_completeness auto
termination
  by (relation "measure (\<lambda>(es, cap, key, idx, n). cap - n)") auto

definition set_find_slot :: "set_entry list \<Rightarrow> nat \<Rightarrow> cstr \<Rightarrow> nat \<times> bool" where
  "set_find_slot es cap key = set_find_loop es cap key (rt_hash key AND (of_nat cap - 1)) 0"

fun set_refill :: "set_entry list \<Rightarrow> nat \<Rightarrow> set_entry list \<Rightarrow> set_entry list" where
  "set_refill t cap [] = t"
| "set_refill t cap (old # rest) =
     (if \<not> se_used old then set_refill t cap rest
      else (let i = fst (set_find_slot t cap (se_key old))
            in set_refill (t[i := (t ! i)\<lparr>se_key := se_key old, se_used := True\<rparr>]) cap rest))"

definition set_rehash :: "amem \<Rightarrow> kn_set \<Rightarrow> nat \<Rightarrow> kn_set" where
  "set_rehash m s new_cap =
     (let cap = round_cap new_cap
      in if alloc_ok m ((16 * cap) mod 2 ^ 64)
         then s\<lparr>s_entries := (if s_entries s \<noteq> [] \<and> s_cap s \<noteq> 0
                              then set_refill (replicate cap blank_set_entry) cap (s_entries s)
                              else replicate cap blank_set_entry),
                s_cap := cap\<rparr>
         else s)"

definition set_new :: "amem \<Rightarrow> kn_set option" where
  "set_new m =
     (if alloc_ok m 24 then Some \<lparr>s_count = 0, s_cap = 0, s_entries = []\<rparr> else None)"

definition set_put :: "kn_set \<Rightarrow> cstr \<Rightarrow> kn_set" where
  "set_put s key =
     (case set_find_slot (s_entries s) (s_cap s) key of (i, found) \<Rightarrow>
        if \<not> found
        then s\<lparr>s_entries := (s_entries s)[i := (s_entries s ! i)\<lparr>se_key := key, se_used := True\<rparr>],
               s_count := s_count s + 1\<rparr>
        else s)"

definition set_add :: "amem \<Rightarrow> kn_set option \<Rightarrow> cstr \<Rightarrow> kn_set option" where
  "set_add m sp key =
     (case sp of None \<Rightarrow> None
      | Some s0 \<Rightarrow>
          if key = None then Some s0
          else (let s = (if s_cap s0 = 0 then set_rehash m s0 8
                         else if (s_count s0 + 1) * 10 \<ge> s_cap s0 * 7
                         then set_rehash m s0 (s_cap s0 * 2) else s0)
                in if s_entries s = [] \<or> s_cap s = 0 then Some s else Some (set_put s key)))"

definition set_contains :: "kn_set option \<Rightarrow> cstr \<Rightarrow> bool" where
  "set_contains sp key =
     (case sp of None \<Rightarrow> False
      | Some s \<Rightarrow>
          if key = None \<or> s_entries s = [] \<or> s_cap s = 0 then False
          else snd (set_find_slot (s_entries s) (s_cap s) key))"

definition set_count :: "kn_set option \<Rightarrow> nat" where
  "set_count sp = (case sp of None \<Rightarrow> 0 | Some s \<Rightarrow> s_count s)"

definition set_remove :: "amem \<Rightarrow> kn_set option \<Rightarrow> cstr \<Rightarrow> kn_set option \<times> bool" where
  "set_remove m sp key =
     (case sp of None \<Rightarrow> (None, False)
      | Some s \<Rightarrow>
          if key = None \<or> s_entries s = [] \<or> s_cap s = 0 then (Some s, False)
          else (case set_find_slot (s_entries s) (s_cap s) key of (i, found) \<Rightarrow>
                  if \<not> found then (Some s, False)
                  else (let s1 = s\<lparr>s_entries := (s_entries s)[i := \<lparr>se_key = None, se_used = False\<rparr>],
                                   s_count := (if s_count s > 0 then s_count s - 1 else s_count s)\<rparr>
                        in (Some (set_rehash m s1 (s_cap s1)), True))))"

definition set_clear :: "kn_set option \<Rightarrow> kn_set option" where
  "set_clear sp =
     (case sp of None \<Rightarrow> None
      | Some s \<Rightarrow>
          Some (s\<lparr>s_count := 0,
                  s_entries := (if s_entries s \<noteq> [] \<and> s_cap s \<noteq> 0
                                then replicate (s_cap s) blank_set_entry else s_entries s)\<rparr>))"

definition set_is_empty :: "kn_set option \<Rightarrow> bool" where
  "set_is_empty sp = (case sp of None \<Rightarrow> True | Some s \<Rightarrow> s_count s = 0)"

fun set_values_loop :: "amem \<Rightarrow> set_entry list \<Rightarrow> kn_list option \<Rightarrow> kn_list option" where
  "set_values_loop m [] l = l"
| "set_values_loop m (e # es) l =
     (if \<not> se_used e \<or> se_key e = None then set_values_loop m es l
      else set_values_loop m es (list_add m l KN_ANY_TAG_STRING (StrP (se_key e))))"

definition set_values :: "amem \<Rightarrow> kn_set option \<Rightarrow> kn_list option" where
  "set_values m sp =
     (case list_new m of None \<Rightarrow> None
      | Some l \<Rightarrow>
          (case sp of None \<Rightarrow> Some l
           | Some s \<Rightarrow> if s_entries s = [] \<or> s_cap s = 0 then Some l
                       else set_values_loop m (s_entries s) (Some l)))"

declare set_find_loop.simps [simp del]

subsection \<open>A set entry as a dictionary entry\<close>

definition entry_dict :: "set_entry \<Rightarrow> dict_entry" where
  "entry_dict e = \<lparr>de_key = se_key e, de_tag = 0, de_payload = Bits 0, de_used = se_used e\<rparr>"

definition as_dict :: "kn_set \<Rightarrow> kn_dict" where
  "as_dict s = \<lparr>d_count = s_count s, d_cap = s_cap s, d_entries = map entry_dict (s_entries s)\<rparr>"

text \<open>The dictionary's requests are twice as large.\<close>

definition half_mem :: "amem \<Rightarrow> amem" where
  "half_mem m n = m (n div 2)"

lemma entry_dict_simps [simp]:
  "de_key (entry_dict e) = se_key e" "de_used (entry_dict e) = se_used e"
  "de_tag (entry_dict e) = 0" "de_payload (entry_dict e) = Bits 0"
  "entry_dict blank_set_entry = blank_entry"
  by (simp_all add: entry_dict_def blank_set_entry_def blank_entry_def)

lemma as_dict_simps [simp]:
  "d_count (as_dict s) = s_count s" "d_cap (as_dict s) = s_cap s"
  "d_entries (as_dict s) = map entry_dict (s_entries s)"
  by (simp_all add: as_dict_def)

lemma plenty_half [simp]: "plenty m \<Longrightarrow> plenty (half_mem m)"
  by (auto simp: plenty_def half_mem_def)

lemma alloc_half:
  assumes "c < 2 ^ 58"
  shows "alloc_ok (half_mem m) ((32 * c) mod 2 ^ 64) \<longleftrightarrow> alloc_ok m ((16 * c) mod 2 ^ 64)"
  using assms by (simp add: alloc_ok_def half_mem_def)

lemma set_find_loop_dict:
  assumes "k < 64" "length es = 2 ^ k"
  shows "set_find_loop es (2 ^ k) key h n = dict_find_loop (map entry_dict es) (2 ^ k) key h n"
proof (induction "2 ^ k - n" arbitrary: n)
  case 0
  then show ?case by (simp add: set_find_loop.simps dict_find_loop.simps)
next
  case (Suc x)
  then have n: "n < 2 ^ k" "x = 2 ^ k - (n + 1)" by simp_all
  have "unat ((h + of_nat n) AND (of_nat (2 ^ k) - 1)) < 2 ^ k"
    by (simp only: unat_and_mask [OF assms(1)] mod_less_divisor zero_less_power zero_less_numeral)
  with assms(2) have i: "unat ((h + of_nat n) AND (of_nat (2 ^ k) - 1)) < length es" by (simp only:)
  show ?case using n(1) Suc.hyps(1) [OF n(2)] i
    by (subst set_find_loop.simps, subst dict_find_loop.simps) (simp add: Let_def)
qed

lemma set_find_slot_dict:
  assumes "pow_cap (length es)"
  shows "set_find_slot es (length es) key = dict_find_slot (map entry_dict es) (length es) key"
proof -
  from assms obtain k where k: "k < 64" "length es = 2 ^ k" by (auto simp: pow_cap_def)
  show ?thesis unfolding set_find_slot_def dict_find_slot_def k(2) by (rule set_find_loop_dict [OF k])
qed

interpretation stab: probe_table se_used se_key blank_set_entry
  "\<lambda>es k. set_find_slot es (length es) k" dict_home
proof unfold_locales
  show "\<not> se_used blank_set_entry" by (simp add: blank_set_entry_def)
  fix es :: "set_entry list" and k
  assume p: "pow_cap (length es)"
  then have "set_find_slot es (length es) k = probe_spec de_used de_key (map entry_dict es) k (dict_home (length es) k)"
    using set_find_slot_dict [OF p] dict_find_probes [of "map entry_dict es" k] by simp
  also have "\<dots> = probe_spec se_used se_key es k (dict_home (length es) k)"
  proof -
    let ?ix = "map (probe_slot (length es) (dict_home (length es) k)) [0..<length es]"
    have r: "\<forall>i\<in>set ?ix. i < length es" using pow_cap_pos [OF p] by auto
    have "List.find (\<lambda>i. \<not> de_used (map entry_dict es ! i) \<or> de_key (map entry_dict es ! i) = k) ?ix =
          List.find (\<lambda>i. \<not> se_used (es ! i) \<or> se_key (es ! i) = k) ?ix"
      by (rule find_cong) (use r in auto)
    moreover have "de_used (map entry_dict es ! i) = se_used (es ! i)"
      if "List.find (\<lambda>i. \<not> se_used (es ! i) \<or> se_key (es ! i) = k) ?ix = Some i" for i
      using that r by (auto simp: find_Some_iff)
    ultimately show ?thesis by (simp add: probe_spec_def split: option.split)
  qed
  finally show "set_find_slot es (length es) k = probe_spec se_used se_key es k (dict_home (length es) k)" .
qed

subsection \<open>Every operation simulates the dictionary's\<close>

definition set_inv :: "kn_set \<Rightarrow> bool" where
  "set_inv s \<longleftrightarrow> dict_inv (as_dict s)"

definition set_abs :: "kn_set \<Rightarrow> char list set" where
  "set_abs s = dom (dict_abs (as_dict s))"

lemma set_inv_table:
  assumes "set_inv s" "s_cap s \<noteq> 0"
  shows "pow_cap (length (s_entries s))" "length (s_entries s) = s_cap s" "s_cap s < 2 ^ 58"
    "8 \<le> s_cap s" "s_entries s \<noteq> []"
  using assms by (auto simp: set_inv_def dict_inv_def dtab.tbl_ok_def)

lemma set_refill_dict:
  "length t = cap \<Longrightarrow> pow_cap cap \<Longrightarrow>
     map entry_dict (set_refill t cap old) = dict_refill (map entry_dict t) cap (map entry_dict old)"
proof (induction t cap old rule: set_refill.induct)
  case (2 t cap old rest)
  have f: "set_find_slot t cap (se_key old) = dict_find_slot (map entry_dict t) cap (se_key old)"
    using set_find_slot_dict [of t "se_key old"] "2.prems" by simp
  let ?i = "fst (set_find_slot t cap (se_key old))"
  have "map entry_dict (t[?i := (t ! ?i)\<lparr>se_key := se_key old, se_used := True\<rparr>]) =
     (map entry_dict t)[?i := (map entry_dict t ! ?i)\<lparr>de_key := se_key old, de_tag := 0,
        de_payload := Bits 0, de_used := True\<rparr>]"
    by (cases "?i < length t") (simp_all add: map_update entry_dict_def not_less list_update_beyond)
  then show ?case using 2 f by (simp add: Let_def)
qed simp

lemma set_rehash_dict:
  assumes "round_cap c < 2 ^ 58" "pow_cap (round_cap c)"
  shows "as_dict (set_rehash m s c) = dict_rehash (half_mem m) (as_dict s) c"
  using alloc_half [OF assms(1), of m] set_refill_dict [OF _ assms(2)]
  by (simp add: set_rehash_def dict_rehash_def Let_def as_dict_def)

lemma set_put_dict:
  assumes "pow_cap (length (s_entries s))" "length (s_entries s) = s_cap s"
  shows "as_dict (set_put s key) = dict_put (as_dict s) key 0 (Bits 0)"
proof -
  obtain i f where f: "set_find_slot (s_entries s) (s_cap s) key = (i, f)" by fastforce
  then have g: "dict_find_slot (map entry_dict (s_entries s)) (s_cap s) key = (i, f)"
    using set_find_slot_dict [OF assms(1)] assms(2) by simp
  show ?thesis
  proof (cases "i < length (s_entries s)")
    case True
    then have "(map entry_dict (s_entries s))[i := entry_dict (s_entries s ! i)\<lparr>de_tag := 0, de_payload := Bits 0\<rparr>]
        = map entry_dict (s_entries s)"
      by (intro nth_equalityI) (auto simp: nth_list_update entry_dict_def)
    with True show ?thesis using f g
      by (simp add: set_put_def dict_put_def Let_def as_dict_def map_update entry_dict_def)
  next
    case False
    then show ?thesis using f g
      by (simp add: set_put_def dict_put_def Let_def as_dict_def not_less list_update_beyond)
  qed
qed

lemma round_cap_table:
  assumes "set_inv s" "s_cap s \<noteq> 0" "s_cap s < 2 ^ 57"
  shows "round_cap (s_cap s) = s_cap s" "round_cap (s_cap s * 2) = s_cap s * 2" "s_cap s * 2 < 2 ^ 58"
    "pow_cap (s_cap s * 2)" "pow_cap (s_cap s)"
proof -
  note t = set_inv_table [OF assms(1,2)]
  obtain k where k: "3 \<le> k" "k < 58" "s_cap s = 2 ^ k"
    using pow_cap_bounds [of "s_cap s"] t by metis
  show "round_cap (s_cap s) = s_cap s" using round_cap_pow2 [of k] k by simp
  show "round_cap (s_cap s * 2) = s_cap s * 2" using round_cap_pow2 [of "Suc k"] k by (simp add: mult.commute)
  show "s_cap s * 2 < 2 ^ 58" using assms(3) by simp
  show "pow_cap (s_cap s * 2)" using pow_capI [of "Suc k"] k by (simp add: mult.commute)
  show "pow_cap (s_cap s)" using t by simp
qed

lemma round_cap_8: "round_cap 8 = 8"
  using round_cap_pow2 [of 3] by simp

lemma as_dict_entries_Nil [simp]: "map entry_dict es = [] \<longleftrightarrow> es = []"
  by simp

lemma set_add_dict:
  assumes inv: "set_inv s" and small: "s_cap s < 2 ^ 57"
  shows "map_option as_dict (set_add m (Some s) k) = dict_set (half_mem m) (Some (as_dict s)) k 0 (Bits 0)"
proof (cases k)
  case None
  then show ?thesis by (simp add: set_add_def dict_set_def)
next
  case (Some key)
  define g where "g = (if s_cap s = 0 then set_rehash m s 8
                       else if (s_count s + 1) * 10 \<ge> s_cap s * 7
                       then set_rehash m s (s_cap s * 2) else s)"
  define d where "d = (if s_cap s = 0 then dict_rehash (half_mem m) (as_dict s) 8
                       else if (s_count s + 1) * 10 \<ge> s_cap s * 7
                       then dict_rehash (half_mem m) (as_dict s) (s_cap s * 2) else as_dict s)"
  have gd: "as_dict g = d"
  proof (cases "s_cap s = 0")
    case True
    then show ?thesis using pow_capI [of 3] by (simp add: g_def d_def set_rehash_dict round_cap_8)
  next
    case False
    note r = round_cap_table [OF inv False small]
    show ?thesis using False r by (simp add: g_def d_def set_rehash_dict)
  qed
  have tbl: "pow_cap (length (s_entries g)) \<and> length (s_entries g) = s_cap g"
    if "s_entries g \<noteq> []" "s_cap g \<noteq> 0"
  proof (cases "s_cap s = 0")
    case True
    then have "s_entries s = []" using inv by (simp add: set_inv_def dict_inv_def)
    then show ?thesis using that True pow_capI [of 3]
      by (auto simp: g_def set_rehash_def round_cap_8 Let_def split: if_splits)
  next
    case False
    note r = round_cap_table [OF inv False small] and t = set_inv_table [OF inv False]
    have "length (set_refill (replicate c blank_set_entry) c es) = c" for c es
    proof -
      have "length (set_refill t c es) = length t" for t
        by (induction t c es rule: set_refill.induct) (simp_all add: Let_def)
      then show ?thesis by simp
    qed
    then show ?thesis using that False r t by (simp add: g_def set_rehash_def Let_def)
  qed
  have "set_add m (Some s) (Some key) = (if s_entries g = [] \<or> s_cap g = 0 then Some g else Some (set_put g (Some key)))"
    by (simp add: set_add_def g_def Let_def)
  moreover have "dict_set (half_mem m) (Some (as_dict s)) (Some key) 0 (Bits 0) =
      (if d_entries d = [] \<or> d_cap d = 0 then Some d else Some (dict_put d (Some key) 0 (Bits 0)))"
    by (simp add: dict_set_def d_def Let_def)
  ultimately show ?thesis using Some tbl gd [symmetric] by (auto simp: set_put_dict)
qed

lemma set_contains_dict:
  assumes "set_inv s"
  shows "set_contains (Some s) k = dict_contains (Some (as_dict s)) k"
  using set_find_slot_dict [OF set_inv_table(1) [OF assms]] set_inv_table(2) [OF assms]
  by (auto simp: set_contains_def dict_contains_def)

lemma set_remove_dict:
  assumes inv: "set_inv s" and small: "s_cap s < 2 ^ 57"
  shows "map_prod (map_option as_dict) id (set_remove m (Some s) k) = dict_remove (half_mem m) (Some (as_dict s)) k"
proof (cases "k = None \<or> s_entries s = [] \<or> s_cap s = 0")
  case True
  then show ?thesis by (auto simp: set_remove_def dict_remove_def)
next
  case False
  note t = set_inv_table [OF inv] and r = round_cap_table [OF inv _ small]
  obtain i f where f: "set_find_slot (s_entries s) (s_cap s) k = (i, f)" by fastforce
  then have g: "dict_find_slot (map entry_dict (s_entries s)) (s_cap s) k = (i, f)"
    using set_find_slot_dict [OF t(1)] t(2) False by simp
  have e: "as_dict (s\<lparr>s_entries := (s_entries s)[i := \<lparr>se_key = None, se_used = False\<rparr>], s_count := c\<rparr>) =
      (as_dict s)\<lparr>d_entries := (map entry_dict (s_entries s))[i := blank_entry], d_count := c\<rparr>" for c
    by (simp add: as_dict_def map_update entry_dict_def blank_entry_def)
  have "round_cap (s_cap s) < 2 ^ 58" "pow_cap (round_cap (s_cap s))" using False small r(1,5) by simp_all
  note h = set_rehash_dict [OF this, of m, unfolded e]
  from f g False show ?thesis
    by (cases k; cases f) (simp_all add: set_remove_def dict_remove_def Let_def h e)
qed

lemma set_values_dict: "set_values m (Some s) = dict_keys m (Some (as_dict s))"
proof -
  have "set_values_loop m es l = dict_keys_loop m (map entry_dict es) l" for es l
    by (induction m es l rule: set_values_loop.induct) auto
  then show ?thesis by (simp add: set_values_def dict_keys_def split: option.split)
qed

subsection \<open>What the operations do to the set of members\<close>

lemma set_add_spec:
  assumes inv: "set_inv s" and small: "s_cap s < 2 ^ 57"
    and mem: "alloc_ok (half_mem m) (dict_grow_bytes (as_dict s)) \<or> s_count s < s_cap s"
  shows "\<exists>s'. set_add m (Some s) (Some k) = Some s' \<and> set_inv s' \<and> set_abs s' = insert k (set_abs s) \<and>
     s_count s' = s_count s + (if k \<in> set_abs s then 0 else 1)"
proof -
  from dict_set_spec [OF inv [unfolded set_inv_def], of "half_mem m" k 0 "Bits 0"] mem
  obtain d' where d': "dict_set (half_mem m) (Some (as_dict s)) (Some k) 0 (Bits 0) = Some d'" "dict_inv d'"
      "dict_abs d' = (dict_abs (as_dict s))(k \<mapsto> (0, Bits 0))"
      "d_count d' = d_count (as_dict s) + (if dict_abs (as_dict s) k = None then 1 else 0)" by auto
  then obtain s' where s': "set_add m (Some s) (Some k) = Some s'" "d' = as_dict s'"
    using set_add_dict [OF inv small, of m "Some k"] by (cases "set_add m (Some s) (Some k)") auto
  then show ?thesis using d' by (auto simp: set_inv_def set_abs_def domIff)
qed

lemma set_add_plenty:
  assumes "plenty m" "set_inv s" "s_cap s < 2 ^ 56"
  shows "\<exists>s'. set_add m (Some s) (Some k) = Some s' \<and> set_inv s' \<and> set_abs s' = insert k (set_abs s) \<and>
     s_count s' = s_count s + (if k \<in> set_abs s then 0 else 1)"
  using assms by (intro set_add_spec) (auto simp: dict_grow_bytes_def)

lemma set_remove_spec:
  assumes m: "plenty m" and inv: "set_inv s" and small: "s_cap s < 2 ^ 56"
  shows "\<exists>s'. set_remove m (Some s) (Some k) = (Some s', k \<in> set_abs s) \<and> set_inv s' \<and> set_abs s' = set_abs s - {k}"
proof -
  let ?d = "as_dict s"
  have di: "dict_inv ?d" using inv by (simp add: set_inv_def)
  have sm: "s_cap s < 2 ^ 57" using small by simp
  note sim = set_remove_dict [OF inv sm, of m "Some k"]
  have mem: "alloc_ok (half_mem m) (32 * d_cap ?d)" using m small by simp
  obtain d' where d': "dict_remove (half_mem m) (Some ?d) (Some k) = (Some d', k \<in> set_abs s)" "dict_inv d'"
      "dict_abs d' = (dict_abs ?d)(k := None)"
  proof (cases "dict_abs ?d k")
    case None
    then show ?thesis using dict_remove_absent [OF di None, of "half_mem m"] di that [of ?d]
      by (simp add: set_abs_def domIff fun_upd_idem)
  next
    case (Some v)
    then obtain d' where "dict_remove (half_mem m) (Some ?d) (Some k) = (Some d', True)" "dict_inv d'"
        "dict_abs d' = (dict_abs ?d)(k := None)"
      using dict_remove_present [OF di _ mem, of k] by auto
    then show ?thesis using Some that [of d'] by (simp add: set_abs_def domIff)
  qed
  obtain sp b where sb: "set_remove m (Some s) (Some k) = (sp, b)" by fastforce
  then have "map_option as_dict sp = Some d'" "b = (k \<in> set_abs s)" using sim d'(1) by simp_all
  then obtain s' where "sp = Some s'" "as_dict s' = d'" by (cases sp) auto
  then show ?thesis using sb d' \<open>b = _\<close> by (intro exI [of _ s']) (auto simp: set_inv_def set_abs_def)
qed

lemma set_clear_spec:
  assumes "set_inv s"
  shows "\<exists>s'. set_clear (Some s) = Some s' \<and> set_inv s' \<and> set_abs s' = {} \<and> s_count s' = 0"
proof (cases "s_cap s = 0")
  case True
  then have "s_entries s = []" using assms by (simp add: set_inv_def dict_inv_def)
  then show ?thesis using True
    by (simp add: set_clear_def set_inv_def dict_inv_def set_abs_def dict_abs_def dtab.lookup_def
        dict_find_slot_def dict_find_loop.simps)
next
  case False
  note t = set_inv_table [OF assms False]
  obtain k where k: "k < 64" "s_cap s = 2 ^ k" using t(1,2) by (auto simp: pow_cap_def)
  let ?b = "replicate (s_cap s) blank_entry"
  have "dtab.tbl_ok ?b" "\<And>x. dtab.lookup ?b x = None" "dtab.n_used ?b = 0"
    using dtab.tbl_ok_blank [OF k(1)] dtab.lookup_blank [OF k(1)] k(2)
    by (simp_all add: dtab.n_used_def blank_entry_def)
  then show ?thesis using False t
    by (simp add: set_clear_def set_inv_def dict_inv_def set_abs_def dict_abs_def)
qed

lemma set_contains_spec: "set_inv s \<Longrightarrow> set_contains (Some s) (Some k) \<longleftrightarrow> k \<in> set_abs s"
  by (simp add: set_contains_dict dict_get_spec(2) set_inv_def set_abs_def domIff)

lemma set_count_spec: "set_inv s \<Longrightarrow> set_count (Some s) = card (set_abs s) \<and> finite (set_abs s)"
  using dict_count_card [of "as_dict s"] by (simp add: set_count_def set_inv_def set_abs_def dict_count_def)

subsection \<open>Properties of the set\<close>

text \<open>
  Adding, removing and clearing do to the set of members what their names say, keep the
  invariant, and report membership and size exactly.
\<close>

theorem set_operations:
  assumes "plenty m" "set_inv s" "s_cap s < 2 ^ 56"
  shows "\<exists>s1 s2 s3. set_add m (Some s) (Some k) = Some s1 \<and> set_inv s1 \<and>
      set_remove m (Some s) (Some k) = (Some s2, set_contains (Some s) (Some k)) \<and> set_inv s2 \<and>
      set_clear (Some s) = Some s3 \<and> set_inv s3 \<and> set_count (Some s3) = 0 \<and>
      (\<forall>x. set_contains (Some s1) (Some x) = (x = k \<or> set_contains (Some s) (Some x)) \<and>
           set_contains (Some s2) (Some x) = (x \<noteq> k \<and> set_contains (Some s) (Some x)) \<and>
           \<not> set_contains (Some s3) (Some x))"
proof -
  obtain s1 where s1: "set_add m (Some s) (Some k) = Some s1" "set_inv s1" "set_abs s1 = insert k (set_abs s)"
    using set_add_plenty [OF assms] by blast
  obtain s2 where s2: "set_remove m (Some s) (Some k) = (Some s2, k \<in> set_abs s)" "set_inv s2"
      "set_abs s2 = set_abs s - {k}"
    using set_remove_spec [OF assms] by blast
  obtain s3 where s3: "set_clear (Some s) = Some s3" "set_inv s3" "set_abs s3 = {}" "s_count s3 = 0"
    using set_clear_spec [OF assms(2)] by blast
  show ?thesis
    by (intro exI [of _ s1] exI [of _ s2] exI [of _ s3])
       (auto simp: s1 s2 s3 set_contains_spec [OF s1(2)] set_contains_spec [OF s2(2)]
          set_contains_spec [OF s3(2)] set_contains_spec [OF assms(2)] set_count_def)
qed

theorem set_operations_witness:
  "\<exists>s1. set_add big_mem (Some \<lparr>s_count = 0, s_cap = 0, s_entries = []\<rparr>) (Some ''a'') = Some s1 \<and>
     set_contains (Some s1) (Some ''a'') \<and> \<not> set_contains (Some s1) (Some ''b'')"
proof -
  let ?e = "\<lparr>s_count = 0, s_cap = 0, s_entries = []\<rparr>"
  have inv: "set_inv ?e" by (simp add: set_inv_def dict_inv_def)
  have e: "\<not> set_contains (Some ?e) (Some ''b'')" by (simp add: set_contains_def)
  obtain s1 where s1: "set_add big_mem (Some ?e) (Some ''a'') = Some s1"
    "\<forall>x. set_contains (Some s1) (Some x) = (x = ''a'' \<or> set_contains (Some ?e) (Some x))"
    using set_operations [OF plenty_True inv, of "''a''"] by auto
  then show ?thesis using e by auto
qed

end
