(* ===== verification/RtText.thy ===== *)
theory RtText
  imports RtList
begin

text \<open>
  The text primitives of the runtime (\<open>__kn_text_*\<close>, \<open>__kn_string_to_chars\<close> in
  \<open>libs/runtime/src/kn_runtime.c\<close>). The loops keep the code's indices into the source string;
  the bytes written to an output buffer are the list of them in order. The specification of the
  splitting operations is \<open>cuts\<close>: the segments between the leftmost non-overlapping occurrences
  of the separator.
\<close>

subsection \<open>Queries\<close>

definition string_to_chars :: "amem \<Rightarrow> cstr \<Rightarrow> char list option \<times> nat" where
  "string_to_chars m s =
     (let len = rt_strlen s
      in if len = 0 then (None, len)
         else if alloc_ok m len then (Some (str s), len) else (None, len))"

definition text_contains :: "cstr \<Rightarrow> cstr \<Rightarrow> bool" where
  "text_contains s sub = rt_str_contains s sub"

definition text_starts_with :: "cstr \<Rightarrow> cstr \<Rightarrow> bool" where
  "text_starts_with s prefix =
     (let sn = rt_strlen s; pn = rt_strlen prefix
      in if pn > sn then False else rt_memcmp (str s) (str prefix) pn = 0)"

definition text_ends_with :: "cstr \<Rightarrow> cstr \<Rightarrow> bool" where
  "text_ends_with s suffix =
     (let sn = rt_strlen s; pn = rt_strlen suffix
      in if pn > sn then False else rt_memcmp (drop (sn - pn) (str s)) (str suffix) pn = 0)"

definition text_index_of :: "cstr \<Rightarrow> cstr \<Rightarrow> int" where
  "text_index_of s sub = rt_str_index_of s sub"

fun last_index_loop :: "char list \<Rightarrow> char list \<Rightarrow> nat \<Rightarrow> int" where
  "last_index_loop s p 0 = -1"
| "last_index_loop s p (Suc i) =
     (if rt_memcmp (drop i s) p (length p) = 0 then int i else last_index_loop s p i)"

definition text_last_index_of :: "cstr \<Rightarrow> cstr \<Rightarrow> int" where
  "text_last_index_of s sub =
     (let sn = rt_strlen s; pn = rt_strlen sub
      in if pn = 0 then int sn
         else if sn < pn then -1
         else last_index_loop (str s) (str sub) (sn - pn + 1))"

function count_loop :: "char list \<Rightarrow> char list \<Rightarrow> nat \<Rightarrow> int \<Rightarrow> int" where
  "count_loop s p i n =
     (if p \<noteq> [] \<and> i + length p \<le> length s then
        (if rt_memcmp (drop i s) p (length p) = 0 then count_loop s p (i + length p) (n + 1)
         else count_loop s p (i + 1) n)
      else n)"
  by pat_completeness auto
termination
  by (relation "measure (\<lambda>(s, p, i, n). Suc (length s) - i)") (auto simp: neq_Nil_conv)

definition text_count :: "cstr \<Rightarrow> cstr \<Rightarrow> int" where
  "text_count s sub =
     (let sn = rt_strlen s; pn = rt_strlen sub
      in if pn = 0 \<or> sn < pn then 0 else count_loop (str s) (str sub) 0 0)"

subsection \<open>Trimming, case and slices\<close>

definition trim_char :: "char \<Rightarrow> bool" where
  "trim_char c \<longleftrightarrow> c = CHR '' '' \<or> c = CHR 0x09 \<or> c = CHR 0x0D \<or> c = CHR 0x0A"

function trim_front :: "char list \<Rightarrow> nat \<Rightarrow> nat" where
  "trim_front s b = (if b < length s \<and> trim_char (s ! b) then trim_front s (b + 1) else b)"
  by pat_completeness auto
termination
  by (relation "measure (\<lambda>(s, b). length s - b)") auto

fun trim_back :: "char list \<Rightarrow> nat \<Rightarrow> nat \<Rightarrow> nat" where
  "trim_back s b 0 = 0"
| "trim_back s b (Suc e) = (if Suc e > b \<and> trim_char (s ! e) then trim_back s b e else Suc e)"

definition text_trim :: "amem \<Rightarrow> cstr \<Rightarrow> cstr" where
  "text_trim m s =
     (case s of None \<Rightarrow> Some []
      | Some t \<Rightarrow>
          (let n = length t; b = trim_front t 0; e = trim_back t b n
           in rt_slice_gc m s b (e - b)))"

definition upper_char :: "char \<Rightarrow> char" where
  "upper_char c = (if 97 \<le> byte_of c \<and> byte_of c \<le> 122 then char_of (byte_of c - 32) else c)"

definition lower_char :: "char \<Rightarrow> char" where
  "lower_char c = (if 65 \<le> byte_of c \<and> byte_of c \<le> 90 then char_of (byte_of c + 32) else c)"

definition text_to_upper :: "amem \<Rightarrow> cstr \<Rightarrow> cstr" where
  "text_to_upper m s =
     (case s of None \<Rightarrow> Some []
      | Some t \<Rightarrow> if alloc_ok m (length t + 1) then Some (map upper_char t) else Some [])"

definition text_to_lower :: "amem \<Rightarrow> cstr \<Rightarrow> cstr" where
  "text_to_lower m s =
     (case s of None \<Rightarrow> Some []
      | Some t \<Rightarrow> if alloc_ok m (length t + 1) then Some (map lower_char t) else Some [])"

definition text_slice :: "amem \<Rightarrow> cstr \<Rightarrow> int \<Rightarrow> int \<Rightarrow> cstr" where
  "text_slice m s start len =
     (if s = None then Some []
      else (let start = (if start < 0 then 0 else start); len = (if len < 0 then 0 else len)
            in rt_slice_gc m s (nat start) (nat len)))"

subsection \<open>Replacement: a counting pass, then a writing pass\<close>

function match_loop :: "char list \<Rightarrow> char list \<Rightarrow> nat \<Rightarrow> nat \<Rightarrow> nat" where
  "match_loop s p scan matches =
     (if p \<noteq> [] \<and> scan + length p \<le> length s then
        (if rt_memcmp (drop scan s) p (length p) = 0
         then match_loop s p (scan + length p) (matches + 1)
         else match_loop s p (scan + 1) matches)
      else matches)"
  by pat_completeness auto
termination
  by (relation "measure (\<lambda>(s, p, i, n). Suc (length s) - i)") (auto simp: neq_Nil_conv)

function write_loop :: "char list \<Rightarrow> char list \<Rightarrow> char list \<Rightarrow> nat \<Rightarrow> char list \<Rightarrow> char list" where
  "write_loop s p t scan out =
     (if scan < length s then
        (if p \<noteq> [] \<and> scan + length p \<le> length s \<and> rt_memcmp (drop scan s) p (length p) = 0
         then write_loop s p t (scan + length p) (out @ t)
         else write_loop s p t (scan + 1) (out @ [s ! scan]))
      else out)"
  by pat_completeness auto
termination
  by (relation "measure (\<lambda>(s, p, t, scan, out). length s - scan)") (auto simp: neq_Nil_conv)

definition replace_len :: "nat \<Rightarrow> nat \<Rightarrow> nat \<Rightarrow> nat \<Rightarrow> nat option" where
  "replace_len sn fn tn matches =
     (if tn \<ge> fn
      then (let growth = tn - fn
            in if growth \<noteq> 0 \<and> matches > ((2 ^ 64 - 1) - sn) div growth then None
               else Some (sn + matches * growth))
      else Some (sn - matches * (fn - tn)))"

definition text_replace :: "amem \<Rightarrow> cstr \<Rightarrow> cstr \<Rightarrow> cstr \<Rightarrow> cstr" where
  "text_replace m s from to =
     (case s of None \<Rightarrow> Some []
      | Some t \<Rightarrow>
          if rt_strlen from = 0 then rt_strdup_gc m s
          else (let matches = match_loop t (str from) 0 0
                in if matches = 0 then rt_strdup_gc m s
                   else (case replace_len (length t) (rt_strlen from) (rt_strlen to) matches of
                           None \<Rightarrow> Some []
                         | Some out_len \<Rightarrow>
                             if alloc_ok m ((out_len + 1) mod 2 ^ 64)
                             then Some (write_loop t (str from) (str to) 0 [])
                             else Some [])))"

subsection \<open>Splitting and joining\<close>

abbreviation add_str :: "amem \<Rightarrow> kn_list option \<Rightarrow> cstr \<Rightarrow> kn_list option" where
  "add_str m l s \<equiv> list_add m l KN_ANY_TAG_STRING (StrP s)"

function split_loop ::
  "amem \<Rightarrow> char list \<Rightarrow> char list \<Rightarrow> nat \<Rightarrow> nat \<Rightarrow> kn_list option \<Rightarrow> nat \<times> kn_list option" where
  "split_loop m src needle start i l =
     (if needle \<noteq> [] \<and> i + length needle \<le> length src then
        (if rt_memcmp (drop i src) needle (length needle) = 0
         then split_loop m src needle (i + length needle) (i + length needle)
                (add_str m l (rt_slice_gc m (Some src) start (i - start)))
         else split_loop m src needle start (i + 1) l)
      else (start, l))"
  by pat_completeness auto
termination
  by (relation "measure (\<lambda>(m, s, p, st, i, l). Suc (length s) - i)") (auto simp: neq_Nil_conv)

definition text_split :: "amem \<Rightarrow> cstr \<Rightarrow> cstr \<Rightarrow> kn_list option" where
  "text_split m s sep =
     (let src = str s; needle = str sep
      in case list_new m of None \<Rightarrow> None
         | Some l \<Rightarrow>
             if length needle = 0 then add_str m (Some l) (rt_strdup_gc m (Some src))
             else (case split_loop m src needle 0 0 (Some l) of (start, l') \<Rightarrow>
                     add_str m l' (rt_slice_gc m (Some src) start (length src - start))))"

definition line_len :: "char list \<Rightarrow> nat \<Rightarrow> nat \<Rightarrow> nat" where
  "line_len src start end =
     (let len = end - start
      in if len > 0 \<and> src ! (start + len - 1) = CHR 0x0D then len - 1 else len)"

function lines_loop ::
  "amem \<Rightarrow> char list \<Rightarrow> nat \<Rightarrow> nat \<Rightarrow> kn_list option \<Rightarrow> nat \<times> kn_list option" where
  "lines_loop m src start i l =
     (if i < length src then
        (if src ! i \<noteq> CHR 0x0A then lines_loop m src start (i + 1) l
         else lines_loop m src (i + 1) (i + 1)
                (add_str m l (rt_slice_gc m (Some src) start (line_len src start i))))
      else (start, l))"
  by pat_completeness auto
termination
  by (relation "measure (\<lambda>(m, s, st, i, l). length s - i)") auto

definition text_lines :: "amem \<Rightarrow> cstr \<Rightarrow> kn_list option" where
  "text_lines m s =
     (let src = str s
      in case list_new m of None \<Rightarrow> None
         | Some l \<Rightarrow>
             (case lines_loop m src 0 0 (Some l) of (start, l') \<Rightarrow>
                if start \<le> length src
                then add_str m l' (rt_slice_gc m (Some src) start (line_len src start (length src)))
                else l'))"

definition join_part :: "u64 \<Rightarrow> payload \<Rightarrow> char list" where
  "join_part t p = (if t = KN_ANY_TAG_STRING then str (payload_str p) else ''<any>'')"

function join_total :: "kn_list \<Rightarrow> nat \<Rightarrow> nat \<Rightarrow> nat \<Rightarrow> nat" where
  "join_total l glue_len i acc =
     (if i < l_count l
      then join_total l glue_len (i + 1)
             ((acc + length (join_part (l_tags l ! i) (l_payloads l ! i)) +
               (if i > 0 then glue_len else 0)) mod 2 ^ 64)
      else acc)"
  by pat_completeness auto
termination
  by (relation "measure (\<lambda>(l, g, i, t). l_count l - i)") auto

function join_write :: "kn_list \<Rightarrow> char list \<Rightarrow> nat \<Rightarrow> char list \<Rightarrow> char list" where
  "join_write l glue i out =
     (if i < l_count l
      then join_write l glue (i + 1)
             ((if i > 0 \<and> length glue \<noteq> 0 then out @ glue else out) @
              join_part (l_tags l ! i) (l_payloads l ! i))
      else out)"
  by pat_completeness auto
termination
  by (relation "measure (\<lambda>(l, g, i, t). l_count l - i)") auto

definition text_join :: "amem \<Rightarrow> kn_list option \<Rightarrow> cstr \<Rightarrow> cstr" where
  "text_join m lp sep =
     (case lp of None \<Rightarrow> Some []
      | Some l \<Rightarrow>
          if l_count l = 0 then Some []
          else (let glue = str sep; total = join_total l (length glue) 0 0
                in if alloc_ok m ((total + 1) mod 2 ^ 64) then Some (join_write l glue 0 []) else Some []))"

declare count_loop.simps [simp del] match_loop.simps [simp del] write_loop.simps [simp del]
  split_loop.simps [simp del] lines_loop.simps [simp del] join_total.simps [simp del]
  join_write.simps [simp del] trim_front.simps [simp del]

subsection \<open>Segments\<close>

function cuts :: "char list \<Rightarrow> char list \<Rightarrow> char list list" where
  "cuts p s =
     (if p = [] \<or> s = [] then [s]
      else if take (length p) s = p then [] # cuts p (drop (length p) s)
      else (case cuts p (tl s) of [] \<Rightarrow> [s] | x # xs \<Rightarrow> (hd s # x) # xs))"
  by pat_completeness auto
termination
  by (relation "measure (\<lambda>(p, s). length s)") (auto simp: neq_Nil_conv)

declare cuts.simps [simp del]

fun join_with :: "char list \<Rightarrow> char list list \<Rightarrow> char list" where
  "join_with g [] = []"
| "join_with g [x] = x"
| "join_with g (x # y # zs) = x @ g @ join_with g (y # zs)"

definition glued :: "char list \<Rightarrow> char list list \<Rightarrow> char list" where
  "glued g xs = concat (map (\<lambda>x. g @ x) xs)"

lemma glued_simps [simp]: "glued g [] = []" "glued g (x # xs) = g @ x @ glued g xs"
  by (simp_all add: glued_def)

lemma join_with_glued: "join_with g (x # xs) = x @ glued g xs"
  by (induction g "x # xs" arbitrary: x xs rule: join_with.induct) simp_all

lemma cuts_ne [simp]: "cuts p s \<noteq> []"
  by (subst cuts.simps) (simp split: list.split)

lemma cuts_Nil [simp]: "cuts p [] = [[]]"
  by (simp add: cuts.simps)

lemma cuts_obtain:
  obtains x xs where "cuts p s = x # xs"
  using cuts_ne [of p s] by (cases "cuts p s") blast+

lemma cuts_hit:
  assumes "p \<noteq> []" "i + length p \<le> length s" "rt_memcmp (drop i s) p (length p) = 0"
  shows "cuts p (drop i s) = [] # cuts p (drop (i + length p) s)"
proof -
  have "take (length p) (drop i s) = p" using assms by (simp add: memcmp_occurs occurs_at_def)
  moreover from this have "drop i s \<noteq> []" using assms(1) by auto
  ultimately show ?thesis using assms(1) by (subst cuts.simps) (simp add: add.commute)
qed

lemma cuts_miss:
  assumes "i < length s" "\<not> (i + length p \<le> length s \<and> rt_memcmp (drop i s) p (length p) = 0)"
    "cuts p (drop (i + 1) s) = x # xs" "p \<noteq> []"
  shows "cuts p (drop i s) = (s ! i # x) # xs"
proof -
  have "take (length p) (drop i s) \<noteq> p"
  proof
    assume t: "take (length p) (drop i s) = p"
    then have "length p \<le> length s - i" by (metis length_drop length_take min.cobounded1)
    then have "i + length p \<le> length s" using assms(1) by simp
    with t show False using assms(2) by (simp add: memcmp_occurs occurs_at_def)
  qed
  moreover have "tl (drop i s) = drop (i + 1) s" by (simp add: drop_Suc tl_drop)
  moreover have "hd (drop i s) = s ! i" using assms(1) by (rule hd_drop_conv_nth)
  ultimately show ?thesis using assms(1,3,4) by (subst cuts.simps) simp
qed

lemma cuts_short:
  "p \<noteq> [] \<Longrightarrow> length s < i + length p \<Longrightarrow> i \<le> length s \<Longrightarrow> cuts p (drop i s) = [drop i s]"
proof (induction "length s - i" arbitrary: i)
  case 0
  then show ?case by simp
next
  case (Suc n)
  then have "cuts p (drop (i + 1) s) = [drop (i + 1) s]" by simp
  from cuts_miss [OF _ _ this] show ?case using Suc.prems Suc.hyps(2)
    by (simp add: Cons_nth_drop_Suc)
qed

text \<open>The segments joined by the separator are the source, and none contains the separator.\<close>

lemma join_with_cuts: "p \<noteq> [] \<Longrightarrow> join_with p (cuts p s) = s"
proof (induction p s rule: cuts.induct)
  case (1 p s)
  show ?case
  proof (cases "s = []")
    case False
    show ?thesis
    proof (cases "take (length p) s = p")
      case True
      obtain x xs where c: "cuts p (drop (length p) s) = x # xs" by (rule cuts_obtain)
      have "join_with p (x # xs) = drop (length p) s" using 1 False True c by simp
      then have "x @ glued p xs = drop (length p) s" by (simp add: join_with_glued)
      moreover have "cuts p s = [] # x # xs" using 1 False True c by (subst cuts.simps) simp
      ultimately show ?thesis using True by (simp add: join_with_glued) (metis append_take_drop_id)
    next
      case miss: False
      obtain x xs where c: "cuts p (tl s) = x # xs" by (rule cuts_obtain)
      have "join_with p (x # xs) = tl s" using 1 False miss c by simp
      then have "x @ glued p xs = tl s" by (simp add: join_with_glued)
      moreover have "cuts p s = (hd s # x) # xs" using 1 False miss c by (subst cuts.simps) simp
      ultimately show ?thesis using False by (simp add: join_with_glued)
    qed
  qed simp
qed

lemma cuts_clean:
  "p \<noteq> [] \<Longrightarrow> x \<in> set (cuts p s) \<Longrightarrow> \<not> occurs_at x p i"
proof (induction p s arbitrary: x i rule: cuts.induct)
  case (1 p s)
  show ?case
  proof (cases "s = []")
    case True
    then show ?thesis using 1 by (auto simp: occurs_at_def)
  next
    case False
    show ?thesis
    proof (cases "take (length p) s = p")
      case True
      then have "cuts p s = [] # cuts p (drop (length p) s)" using 1 False by (subst cuts.simps) simp
      then show ?thesis using 1 False True by (auto simp: occurs_at_def)
    next
      case miss: False
      obtain y ys where c: "cuts p (tl s) = y # ys" by (rule cuts_obtain)
      have cs: "cuts p s = (hd s # y) # ys" using 1 False miss c by (subst cuts.simps) simp
      have IH: "z \<in> set (y # ys) \<Longrightarrow> \<not> occurs_at z p j" for z j
        using "1.IH"(2) [of z j] 1 False miss c by simp
      show ?thesis
      proof (cases "x = hd s # y")
        case False
        then show ?thesis using "1.prems"(2) cs IH by auto
      next
        case x: True
        show ?thesis
        proof (cases i)
          case 0
          have "y @ glued p ys = tl s"
            using join_with_cuts [OF "1.prems"(1), of "tl s"] c by (simp add: join_with_glued)
          then have "s = x @ glued p ys" using x False by (metis append_Cons list.collapse)
          then show ?thesis using miss 0 by (auto simp: occurs_at_def)
        next
          case (Suc j)
          then show ?thesis using IH [of y j] x by (simp add: occurs_at_def)
        qed
      qed
    qed
  qed
qed

subsection \<open>The loops compute the segments\<close>

lemma count_loop_cuts:
  "p \<noteq> [] \<Longrightarrow> i \<le> length s \<Longrightarrow> count_loop s p i n = n + int (length (tl (cuts p (drop i s))))"
proof (induction s p i n rule: count_loop.induct)
  case (1 s p i n)
  show ?case
  proof (cases "i + length p \<le> length s")
    case False
    then show ?thesis using 1 by (subst count_loop.simps) (simp add: cuts_short)
  next
    case fits: True
    show ?thesis
    proof (cases "rt_memcmp (drop i s) p (length p) = 0")
      case True
      then show ?thesis using 1 fits cuts_hit [of p i s]
        by (subst count_loop.simps) (cases "cuts p (drop (i + length p) s)", simp_all)
    next
      case False
      obtain x xs where c: "cuts p (drop (i + 1) s) = x # xs" by (rule cuts_obtain)
      have "i < length s" using fits "1.prems"(1) by (cases p) auto
      then show ?thesis using 1 fits False cuts_miss [OF _ _ c] c
        by (subst count_loop.simps) simp
    qed
  qed
qed

lemma match_loop_count: "int (match_loop s p i n) = count_loop s p i (int n)"
proof (induction s p i n rule: match_loop.induct)
  case (1 s p i n)
  then show ?case
    by (subst match_loop.simps, subst count_loop.simps) (simp add: algebra_simps)
qed

lemma match_loop_cuts:
  "p \<noteq> [] \<Longrightarrow> match_loop s p 0 0 = length (tl (cuts p s))"
  using match_loop_count [of s p 0 0] count_loop_cuts [of p 0 s 0] by simp

lemma write_loop_cuts:
  "p \<noteq> [] \<Longrightarrow> i \<le> length s \<Longrightarrow> write_loop s p t i out = out @ join_with t (cuts p (drop i s))"
proof (induction s p t i out rule: write_loop.induct)
  case (1 s p t i out)
  show ?case
  proof (cases "i < length s")
    case False
    then show ?thesis using 1 by (subst write_loop.simps) simp
  next
    case less: True
    show ?thesis
    proof (cases "i + length p \<le> length s \<and> rt_memcmp (drop i s) p (length p) = 0")
      case True
      obtain x xs where c: "cuts p (drop (i + length p) s) = x # xs" by (rule cuts_obtain)
      from True show ?thesis using 1 less cuts_hit [of p i s] c
        by (subst write_loop.simps) (simp add: join_with_glued)
    next
      case False
      obtain x xs where c: "cuts p (drop (i + 1) s) = x # xs" by (rule cuts_obtain)
      have ih: "write_loop s p t (i + 1) (out @ [s ! i]) = out @ [s ! i] @ join_with t (x # xs)"
        using 1(2) less False "1.prems" c by auto
      have cut: "cuts p (drop i s) = (s ! i # x) # xs"
        using cuts_miss [OF less False c] "1.prems" by simp
      have "write_loop s p t i out = write_loop s p t (i + 1) (out @ [s ! i])"
        using less False by (subst write_loop.simps) auto
      then show ?thesis unfolding ih cut by (simp add: join_with_glued)
    qed
  qed
qed

lemma length_glued: "length (glued g xs) = sum_list (map length xs) + length xs * length g"
  by (induction xs) (simp_all add: algebra_simps)

lemma length_join_with:
  "xs \<noteq> [] \<Longrightarrow> length (join_with g xs) = sum_list (map length xs) + length (tl xs) * length g"
  by (cases xs) (simp_all add: join_with_glued length_glued)

lemma replaced_length:
  assumes "p \<noteq> []"
  shows "length (join_with t (cuts p s)) + length (tl (cuts p s)) * length p =
    length s + length (tl (cuts p s)) * length t"
  using length_join_with [of "cuts p s" p] length_join_with [of "cuts p s" t]
    join_with_cuts [OF assms, of s] by simp

text \<open>The length the counting pass computes is the number of bytes the writing pass writes.\<close>

lemma replace_len_exact:
  assumes p: "p \<noteq> []" and fits: "length s < 2 ^ 63" "length (join_with t (cuts p s)) < 2 ^ 63"
  shows "replace_len (length s) (length p) (length t) (match_loop s p 0 0) =
     Some (length (join_with t (cuts p s)))"
proof -
  let ?k = "length (tl (cuts p s))" and ?out = "length (join_with t (cuts p s))"
  have k: "match_loop s p 0 0 = ?k" by (rule match_loop_cuts [OF p])
  note eq = replaced_length [OF p, of t s]
  show ?thesis
  proof (cases "length p \<le> length t")
    case True
    then have "?k * length t = ?k * length p + ?k * (length t - length p)"
      by (metis add_mult_distrib2 le_add_diff_inverse)
    then have out: "?out = length s + ?k * (length t - length p)" using eq by simp
    have "\<not> (length t - length p \<noteq> 0 \<and> ?k > ((2 ^ 64 - 1) - length s) div (length t - length p))"
    proof
      assume a: "length t - length p \<noteq> 0 \<and> ?k > ((2 ^ 64 - 1) - length s) div (length t - length p)"
      then have "0 < length t - length p" by simp
      from div_less_iff_less_mult [OF this] a
      have "?k * (length t - length p) > (2 ^ 64 - 1) - length s" by blast
      then show False using out fits by simp
    qed
    then show ?thesis using True out k by (auto simp: replace_len_def Let_def)
  next
    case False
    then have "?k * length p = ?k * length t + ?k * (length p - length t)"
      by (metis add_mult_distrib2 le_add_diff_inverse nle_le)
    then have "?out + ?k * (length p - length t) = length s" using eq by simp
    then show ?thesis using False k by (auto simp: replace_len_def Let_def)
  qed
qed

lemma text_replace_spec:
  assumes m: "plenty m" and p: "p \<noteq> []"
    and fits: "length s < 2 ^ 63 - 1" "length (join_with t (cuts p s)) < 2 ^ 63 - 1"
  shows "text_replace m (Some s) (Some p) (Some t) = Some (join_with t (cuts p s))"
proof (cases "match_loop s p 0 0 = 0")
  case True
  obtain x xs where c: "cuts p s = x # xs" by (rule cuts_obtain)
  with True match_loop_cuts [OF p] have "cuts p s = [x]" by simp
  moreover from this have "x = s" using join_with_cuts [OF p, of s] by simp
  ultimately show ?thesis using True p m fits
    by (simp add: text_replace_def rt_strdup_gc_def Let_def)
next
  case False
  have "(length (join_with t (cuts p s)) + 1) mod 2 ^ 64 = length (join_with t (cuts p s)) + 1"
    using fits by (intro mod_less) simp
  then show ?thesis
    using False p m fits replace_len_exact [OF p, of s t] write_loop_cuts [OF p, of 0 s t "[]"]
    by (simp add: text_replace_def Let_def)
qed

subsection \<open>Splitting fills a list with the segments\<close>

abbreviation str_value :: "char list \<Rightarrow> any_value" where
  "str_value x \<equiv> (KN_ANY_TAG_STRING, StrP (Some x))"

abbreviation add_strs :: "amem \<Rightarrow> char list list \<Rightarrow> kn_list option \<Rightarrow> kn_list option" where
  "add_strs m xs l \<equiv> fold (\<lambda>v l. list_add m l (fst v) (snd v)) (map str_value xs) l"

definition open_segments :: "char list \<Rightarrow> char list \<Rightarrow> nat \<Rightarrow> nat \<Rightarrow> char list list" where
  "open_segments p s start i =
     (case cuts p (drop i s) of [] \<Rightarrow> [] | x # xs \<Rightarrow> (take (i - start) (drop start s) @ x) # xs)"

text \<open>The segments from \<open>start\<close> on, when the scan has reached \<open>i\<close> without a match.\<close>

lemma open_segments_hit:
  assumes "p \<noteq> []" "i + length p \<le> length s" "rt_memcmp (drop i s) p (length p) = 0"
  shows "open_segments p s start i =
    take (i - start) (drop start s) # open_segments p s (i + length p) (i + length p)"
proof -
  obtain x xs where "cuts p (drop (i + length p) s) = x # xs" by (rule cuts_obtain)
  then show ?thesis using cuts_hit [OF assms] by (simp add: open_segments_def)
qed

lemma open_segments_miss:
  assumes "i < length s" "\<not> (i + length p \<le> length s \<and> rt_memcmp (drop i s) p (length p) = 0)"
    "p \<noteq> []" "start \<le> i"
  shows "open_segments p s start i = open_segments p s start (i + 1)"
proof -
  obtain x xs where c: "cuts p (drop (i + 1) s) = x # xs" by (rule cuts_obtain)
  have "take (Suc i - start) (drop start s) = take (i - start) (drop start s) @ [s ! i]"
    using assms(1,4) by (simp add: Suc_diff_le take_Suc_nth)
  then show ?thesis using cuts_miss [OF assms(1,2) c assms(3)] c by (simp add: open_segments_def)
qed

lemma open_segments_last:
  assumes "start \<le> i" "i \<le> length s" "cuts p (drop i s) = [drop i s]"
  shows "open_segments p s start i = [drop start s]"
proof -
  have "take (i - start) (drop start s) @ drop i s = drop start s"
    using append_take_drop_id [of "i - start" "drop start s"] assms(1,2) by simp
  then show ?thesis using assms(3) by (simp add: open_segments_def)
qed

lemma open_segments_ne [simp]: "open_segments p s start i \<noteq> []"
  by (rule cuts_obtain [of p "drop i s"]) (simp add: open_segments_def)

lemma slice_plenty:
  assumes "plenty m" "length s < 2 ^ 60" "b + l \<le> length s"
  shows "rt_slice_gc m (Some s) b l = Some (take l (drop b s))"
  using assms by (intro rt_slice_gc_in_range) simp_all

lemma split_loop_spec:
  assumes m: "plenty m" and small: "length s < 2 ^ 60" and p: "p \<noteq> []"
  shows "start \<le> i \<Longrightarrow> i \<le> length s \<Longrightarrow>
    split_loop m s p start i l = (st, l') \<Longrightarrow>
      st \<le> length s \<and> l' = add_strs m (butlast (open_segments p s start i)) l \<and>
      drop st s = last (open_segments p s start i)"
proof (induction "length s - i" arbitrary: start i l rule: less_induct)
  case less
  show ?case
  proof (cases "i + length p \<le> length s")
    case False
    then have c: "cuts p (drop i s) = [drop i s]" using p less.prems by (simp add: cuts_short)
    have "split_loop m s p start i l = (start, l)" using False by (subst split_loop.simps) simp
    with open_segments_last [OF less.prems(1,2) c] less.prems show ?thesis by simp
  next
    case fits: True
    then have i: "i < length s" using p by (cases p) auto
    show ?thesis
    proof (cases "rt_memcmp (drop i s) p (length p) = 0")
      case True
      have "rt_slice_gc m (Some s) start (i - start) = Some (take (i - start) (drop start s))"
        using less.prems i by (intro slice_plenty [OF m small]) simp
      then have step: "split_loop m s p start i l = split_loop m s p (i + length p) (i + length p)
          (add_str m l (Some (take (i - start) (drop start s))))"
        using fits True p by (subst split_loop.simps) simp
      have "length s - (i + length p) < length s - i" using fits p by (cases p) auto
      from less.hyps [OF this _ fits, of "i + length p"] less.prems(3)
      show ?thesis unfolding step open_segments_hit [OF p fits True] by simp
    next
      case False
      have step: "split_loop m s p start i l = split_loop m s p start (i + 1) l"
        using fits False p by (subst split_loop.simps) simp
      have "open_segments p s start i = open_segments p s start (i + 1)"
        using False by (intro open_segments_miss [OF i _ p less.prems(1)]) simp
      moreover have "length s - (i + 1) < length s - i" using i by simp
      ultimately show ?thesis using less.hyps [of "i + 1" start l] less.prems i step by simp
    qed
  qed
qed

lemma add_strs_last:
  "xs \<noteq> [] \<Longrightarrow> add_str m (add_strs m (butlast xs) l) (Some (last xs)) = add_strs m xs l"
  by (cases xs rule: rev_cases) simp_all

lemma length_cuts: "length (cuts p s) \<le> Suc (length s)"
proof (induction p s rule: cuts.induct)
  case (1 p s)
  show ?case
  proof (cases "p = [] \<or> s = []")
    case True
    then show ?thesis by (subst cuts.simps) simp
  next
    case False
    obtain x xs where c: "cuts p (tl s) = x # xs" by (rule cuts_obtain)
    then show ?thesis using 1 False
      by (subst cuts.simps) (auto simp: neq_Nil_conv)
  qed
qed

lemma open_segments_start: "open_segments p s 0 0 = cuts p s"
  by (rule cuts_obtain [of p s]) (simp add: open_segments_def)

lemma text_split_spec:
  assumes m: "plenty m" and small: "length s < list_limit" and p: "p \<noteq> []"
  shows "\<exists>l. text_split m (Some s) (Some p) = Some l \<and> list_inv l \<and> list_abs l = map str_value (cuts p s)"
proof -
  obtain l0 where l0: "list_new m = Some l0" using m by (auto simp: list_new_def)
  have p0: "list_inv l0" "list_abs l0 = []" using list_new_props [OF l0] by auto
  obtain st l1 where sp: "split_loop m s p 0 0 (Some l0) = (st, l1)" by fastforce
  have s60: "length s < 2 ^ 60" using small by (simp add: list_limit_def)
  from split_loop_spec [OF m s60 p _ _ sp]
  have st: "st \<le> length s" "l1 = add_strs m (butlast (cuts p s)) (Some l0)" "drop st s = last (cuts p s)"
    by (simp_all add: open_segments_start)
  have "rt_slice_gc m (Some s) st (length s - st) = Some (drop st s)"
    using st(1) slice_plenty [OF m s60, of st "length s - st"] by simp
  then have "text_split m (Some s) (Some p) = add_strs m (cuts p s) (Some l0)"
    using p l0 sp st add_strs_last [OF cuts_ne] by (simp add: text_split_def Let_def)
  moreover have "length (list_abs l0) + length (map str_value (cuts p s)) \<le> list_limit"
    using length_cuts [of p s] small p0 by simp
  ultimately show ?thesis using ls.add_all [OF m p0(1), of "map str_value (cuts p s)"] p0(2) by auto
qed

subsection \<open>Lines, joining, trimming\<close>

definition chop_cr :: "char list \<Rightarrow> char list" where
  "chop_cr x = (if x \<noteq> [] \<and> last x = CHR 0x0D then butlast x else x)"

lemma take_line_len:
  assumes "start \<le> e" "e \<le> length s"
  shows "start + line_len s start e \<le> length s" 
    "take (line_len s start e) (drop start s) = chop_cr (take (e - start) (drop start s))"
proof -
  let ?x = "take (e - start) (drop start s)"
  have len: "length ?x = e - start" using assms by simp
  show "start + line_len s start e \<le> length s" using assms by (auto simp: line_len_def Let_def)
  show "take (line_len s start e) (drop start s) = chop_cr ?x"
  proof (cases "e - start = 0")
    case True
    then show ?thesis by (simp add: line_len_def chop_cr_def)
  next
    case False
    then have ne: "?x \<noteq> []" using assms len by (metis length_0_conv)
    moreover have "last ?x = s ! (start + (e - start) - 1)"
    proof -
      have "last ?x = ?x ! (e - start - 1)" using last_conv_nth [OF ne] len by simp
      also have "\<dots> = drop start s ! (e - start - 1)" using False by (intro nth_take) simp
      also have "\<dots> = s ! (start + (e - start) - 1)" using assms False by (simp add: nth_drop)
      finally show ?thesis .
    qed
    moreover have "butlast ?x = take (e - start - 1) (drop start s)"
      using assms by (simp add: butlast_take)
    ultimately show ?thesis using False by (simp add: line_len_def chop_cr_def)
  qed
qed

lemma lines_loop_spec:
  assumes m: "plenty m" and small: "length s < 2 ^ 60"
  shows "start \<le> i \<Longrightarrow> i \<le> length s \<Longrightarrow> lines_loop m s start i l = (st, l') \<Longrightarrow>
    st \<le> length s \<and> l' = add_strs m (map chop_cr (butlast (open_segments [CHR 0x0A] s start i))) l \<and>
    drop st s = last (open_segments [CHR 0x0A] s start i)"
proof (induction "length s - i" arbitrary: start i l rule: less_induct)
  case less
  let ?n = "[CHR 0x0A]"
  show ?case
  proof (cases "i < length s")
    case False
    then have "cuts ?n (drop i s) = [drop i s]" by simp
    from open_segments_last [OF less.prems(1,2) this] show ?thesis
      using less.prems False by (simp add: lines_loop.simps)
  next
    case i: True
    have mem: "i + length ?n \<le> length s \<and> rt_memcmp (drop i s) ?n (length ?n) = 0 \<longleftrightarrow> s ! i = CHR 0x0A"
      using i by (simp add: Cons_nth_drop_Suc [OF i, symmetric])
    show ?thesis
    proof (cases "s ! i = CHR 0x0A")
      case True
      have h: "open_segments ?n s start i = take (i - start) (drop start s) # open_segments ?n s (i + 1) (i + 1)"
        using open_segments_hit [of ?n i s start] mem True by simp
      have "rt_slice_gc m (Some s) start (line_len s start i) = Some (chop_cr (take (i - start) (drop start s)))"
        using take_line_len [OF less.prems(1,2)] by (simp add: slice_plenty [OF m small])
      then have step: "lines_loop m s start i l = lines_loop m s (i + 1) (i + 1)
          (add_str m l (Some (chop_cr (take (i - start) (drop start s)))))"
        using i True by (subst lines_loop.simps) simp
      have "length s - (i + 1) < length s - i" using i by simp
      from less.hyps [OF this, of "i + 1"] less.prems(3) i show ?thesis unfolding step h by simp
    next
      case False
      have step: "lines_loop m s start i l = lines_loop m s start (i + 1) l"
        using i False by (subst lines_loop.simps) simp
      have "open_segments ?n s start i = open_segments ?n s start (i + 1)"
        using False mem less.prems(1) by (intro open_segments_miss [OF i]) simp_all
      moreover have "length s - (i + 1) < length s - i" using i by simp
      ultimately show ?thesis using less.hyps [of "i + 1" start l] less.prems i step by simp
    qed
  qed
qed

lemma text_lines_spec:
  assumes m: "plenty m" and small: "length s < list_limit"
  shows "\<exists>l. text_lines m (Some s) = Some l \<and> list_inv l \<and>
    list_abs l = map str_value (map chop_cr (cuts [CHR 0x0A] s))"
proof -
  let ?c = "cuts [CHR 0x0A] s"
  obtain l0 where l0: "list_new m = Some l0" using m by (auto simp: list_new_def)
  have p0: "list_inv l0" "list_abs l0 = []" using list_new_props [OF l0] by auto
  obtain st l1 where sp: "lines_loop m s 0 0 (Some l0) = (st, l1)" by fastforce
  have s60: "length s < 2 ^ 60" using small by (simp add: list_limit_def)
  from lines_loop_spec [OF m s60 _ _ sp]
  have st: "st \<le> length s" "l1 = add_strs m (map chop_cr (butlast ?c)) (Some l0)" "drop st s = last ?c"
    by (simp_all add: open_segments_start)
  have "rt_slice_gc m (Some s) st (line_len s st (length s)) = Some (chop_cr (last ?c))"
    using take_line_len [OF st(1) order_refl] by (simp add: slice_plenty [OF m s60] st(3) [symmetric])
  then have "text_lines m (Some s) =
      add_str m (add_strs m (butlast (map chop_cr ?c)) (Some l0)) (Some (last (map chop_cr ?c)))"
    using l0 sp st(1,2) by (simp add: text_lines_def map_butlast last_map)
  also have "\<dots> = add_strs m (map chop_cr ?c) (Some l0)" by (rule add_strs_last) simp
  finally have "text_lines m (Some s) = add_strs m (map chop_cr ?c) (Some l0)" .
  moreover have "length (list_abs l0) + length (map str_value (map chop_cr ?c)) \<le> list_limit"
    using length_cuts [of "[CHR 0x0A]" s] small p0 by simp
  ultimately show ?thesis using ls.add_all [OF m p0(1), of "map str_value (map chop_cr ?c)"] p0(2) by auto
qed

definition parts_from :: "char list \<Rightarrow> char list list \<Rightarrow> nat \<Rightarrow> char list" where
  "parts_from g ps i = (if i = 0 then join_with g ps else glued g (drop i ps))"

definition list_parts :: "kn_list \<Rightarrow> char list list" where
  "list_parts l = map (\<lambda>v. join_part (fst v) (snd v)) (list_abs l)"

lemma parts_from_step:
  assumes "i < length ps"
  shows "parts_from g ps i = (if i > 0 then g else []) @ ps ! i @ parts_from g ps (i + 1)"
  using assms by (cases ps; cases i) (auto simp: parts_from_def join_with_glued Cons_nth_drop_Suc [symmetric])

lemma parts_from_end: "i \<ge> length ps \<Longrightarrow> parts_from g ps i = []"
  by (auto simp: parts_from_def)

lemma list_parts_nth:
  "list_inv l \<Longrightarrow> i < l_count l \<Longrightarrow> list_parts l ! i = join_part (l_tags l ! i) (l_payloads l ! i)"
  by (simp add: list_parts_def list_abs_nth)

lemma join_write_parts:
  "list_inv l \<Longrightarrow> join_write l g i out = out @ parts_from g (list_parts l) i"
proof (induction l g i out rule: join_write.induct)
  case (1 l g i out)
  have len: "length (list_parts l) = l_count l" using 1 by (simp add: list_parts_def)
  show ?case
  proof (cases "i < l_count l")
    case True
    have "join_write l g i out = join_write l g (i + 1) ((if i > 0 \<and> length g \<noteq> 0 then out @ g else out) @
        join_part (l_tags l ! i) (l_payloads l ! i))"
      using True by (subst join_write.simps) simp
    also have "\<dots> = out @ parts_from g (list_parts l) i"
      using 1 True len parts_from_step [of i "list_parts l" g] by (simp add: list_parts_nth)
    finally show ?thesis .
  next
    case False
    then show ?thesis using len by (subst join_write.simps) (simp add: parts_from_end)
  qed
qed

lemma join_total_parts:
  "list_inv l \<Longrightarrow> acc < 2 ^ 64 \<Longrightarrow>
     join_total l (length g) i acc = (acc + length (parts_from g (list_parts l) i)) mod 2 ^ 64"
proof (induction l "length g" i acc rule: join_total.induct)
  case (1 l i acc)
  have len: "length (list_parts l) = l_count l" using 1 by (simp add: list_parts_def)
  show ?case
  proof (cases "i < l_count l")
    case True
    let ?d = "length (join_part (l_tags l ! i) (l_payloads l ! i)) + (if i > 0 then length g else 0)"
    have "join_total l (length g) i acc = join_total l (length g) (i + 1) ((acc + ?d) mod 2 ^ 64)"
      using True by (subst join_total.simps) (simp add: add.assoc)
    also have "\<dots> = ((acc + ?d) mod 2 ^ 64 + length (parts_from g (list_parts l) (i + 1))) mod 2 ^ 64"
      using 1(1) [OF True "1.prems"(1)] by (simp add: add.assoc)
    also have "\<dots> = (acc + ?d + length (parts_from g (list_parts l) (i + 1))) mod 2 ^ 64"
      by (rule mod_add_left_eq)
    finally show ?thesis
      using parts_from_step [of i "list_parts l" g] True len list_parts_nth [OF "1.prems"(1) True]
      by (simp add: add_ac)
  next
    case False
    then show ?thesis using len 1 by (subst join_total.simps) (simp add: parts_from_end)
  qed
qed

lemma text_join_spec:
  assumes m: "plenty m" and inv: "list_inv l" and fits: "length (join_with (str g) (list_parts l)) < 2 ^ 63 - 1"
  shows "text_join m (Some l) g = Some (join_with (str g) (list_parts l))"
proof (cases "l_count l = 0")
  case True
  then have "list_parts l = []" using inv by (simp add: list_parts_def flip: length_0_conv)
  then show ?thesis using True by (simp add: text_join_def)
next
  case False
  let ?j = "join_with (str g) (list_parts l)"
  have "join_total l (length (str g)) 0 0 = length ?j mod 2 ^ 64"
    using join_total_parts [OF inv, of 0 "str g" 0] by (simp add: parts_from_def)
  also have "\<dots> = length ?j" using fits by (intro mod_less) simp
  finally have t: "join_total l (length (str g)) 0 0 = length ?j" .
  have "(length ?j + 1) mod 2 ^ 64 = length ?j + 1" using fits by (intro mod_less) simp
  then show ?thesis using False m fits t join_write_parts [OF inv, of "str g" 0 "[]"]
    by (simp add: text_join_def Let_def parts_from_def)
qed

lemma trim_front_eq: "trim_front s b = b + length (takeWhile trim_char (drop b s))"
proof (induction s b rule: trim_front.induct)
  case (1 s b)
  show ?case
  proof (cases "b < length s")
    case True
    then have "drop b s = s ! b # drop (b + 1) s" by (simp add: Cons_nth_drop_Suc)
    then show ?thesis using 1 True by (subst trim_front.simps) simp
  next
    case False
    then show ?thesis by (subst trim_front.simps) simp
  qed
qed

lemma trim_back_eq:
  "b \<le> e \<Longrightarrow> e \<le> length s \<Longrightarrow>
     trim_back s b e = b + length (dropWhile trim_char (rev (drop b (take e s))))"
proof (induction s b e rule: trim_back.induct)
  case (2 s b e)
  show ?case
  proof (cases "b \<le> e")
    case True
    then have "drop b (take (Suc e) s) = drop b (take e s) @ [s ! e]"
      using "2.prems" by (simp add: take_Suc_nth)
    then show ?thesis using 2 True by (auto simp: min_def)
  qed (use 2 in simp)
qed simp

lemma text_trim_spec:
  assumes m: "plenty m" and small: "length s < 2 ^ 60"
  shows "text_trim m (Some s) = Some (rev (dropWhile trim_char (rev (dropWhile trim_char s))))"
proof -
  let ?b = "trim_front s 0"
  let ?w = "dropWhile trim_char s"
  have b: "?b = length (takeWhile trim_char s)" by (simp add: trim_front_eq)
  then have bl: "?b \<le> length s" by (simp add: length_takeWhile_le)
  have w: "drop ?b s = ?w" by (simp add: b dropWhile_eq_drop)
  let ?k = "length (dropWhile trim_char (rev ?w))"
  have e: "trim_back s ?b (length s) = ?b + ?k"
    using trim_back_eq [OF bl order_refl] w by simp
  have k: "?k \<le> length ?w" by (metis length_dropWhile_le length_rev)
  have "rev (dropWhile trim_char (rev ?w)) = take ?k ?w"
  proof -
    have "?w = rev (dropWhile trim_char (rev ?w)) @ rev (takeWhile trim_char (rev ?w))"
      by (metis rev_append rev_rev_ident takeWhile_dropWhile_id)
    then show ?thesis by (metis append_eq_conv_conj length_rev)
  qed
  moreover have "?b + ?k \<le> length s" using k w bl by (metis add_le_mono1 length_drop le_add_diff_inverse nat_add_left_cancel_le)
  ultimately show ?thesis using e w by (simp add: text_trim_def Let_def slice_plenty [OF m small])
qed

subsection \<open>Properties of the text primitives\<close>

text \<open>
  C39: splitting cuts the text at the leftmost non-overlapping occurrences of the separator: no
  piece contains the separator, and joining the pieces with it gives the text back.
\<close>

theorem text_split_join:
  assumes "plenty m" "length s < list_limit" "sep \<noteq> []"
  shows "\<exists>l xs. text_split m (Some s) (Some sep) = Some l \<and> list_inv l \<and>
    list_abs l = map (\<lambda>x. (KN_ANY_TAG_STRING, StrP (Some x))) xs \<and>
    \<not> (\<exists>x i. x \<in> set xs \<and> occurs_at x sep i) \<and> text_join m (Some l) (Some sep) = Some s"
proof -
  obtain l where l: "text_split m (Some s) (Some sep) = Some l" "list_inv l"
      "list_abs l = map str_value (cuts sep s)"
    using text_split_spec [OF assms] by blast
  have parts: "list_parts l = cuts sep s"
    by (simp add: list_parts_def l(3) join_part_def comp_def)
  have j: "join_with (str (Some sep)) (list_parts l) = s"
    unfolding parts using join_with_cuts [OF assms(3)] by simp
  have "text_join m (Some l) (Some sep) = Some s"
    using text_join_spec [OF assms(1) l(2), of "Some sep"] assms(2) unfolding j by (simp add: list_limit_def)
  then show ?thesis using l cuts_clean [OF assms(3)] by blast
qed

theorem text_split_join_witness:
  "\<exists>l. text_split big_mem (Some ''a,b,,c'') (Some '','') = Some l \<and> text_join big_mem (Some l) (Some '','') = Some ''a,b,,c''"
  using text_split_join [OF plenty_True, of "''a,b,,c''" "'',''"] by (auto simp: list_limit_def)

text \<open>
  C40: replacing is splitting and joining with the replacement, and the counting pass sizes the
  buffer to exactly the bytes the writing pass writes.
\<close>

theorem text_replace_is_split_join:
  assumes "plenty m" "length s < list_limit" "p \<noteq> []"
    "length (write_loop s p (str t) 0 []) < 2 ^ 63 - 1"
  shows "text_replace m (Some s) (Some p) t = text_join m (text_split m (Some s) (Some p)) t \<and>
    text_replace m (Some s) (Some p) t = Some (write_loop s p (str t) 0 []) \<and>
    replace_len (length s) (length p) (rt_strlen t) (match_loop s p 0 0) =
      Some (length (write_loop s p (str t) 0 []))"
proof -
  have w: "write_loop s p (str t) 0 [] = join_with (str t) (cuts p s)"
    using write_loop_cuts [OF assms(3), of 0 s "str t" "[]"] by simp
  have s63: "length s < 2 ^ 63 - 1" using assms(2) by (simp add: list_limit_def)
  obtain l where l: "text_split m (Some s) (Some p) = Some l" "list_inv l"
      "list_abs l = map str_value (cuts p s)"
    using text_split_spec [OF assms(1-3)] by blast
  have parts: "list_parts l = cuts p s" by (simp add: list_parts_def l(3) join_part_def comp_def)
  have "text_join m (Some l) t = Some (join_with (str t) (cuts p s))"
    using text_join_spec [OF assms(1) l(2), of t] assms(4) w parts by simp
  moreover have "text_replace m (Some s) (Some p) t = text_replace m (Some s) (Some p) (Some (str t))"
    by (simp add: text_replace_def rt_strlen_str Let_def split: option.split)
  moreover have "text_replace m (Some s) (Some p) (Some (str t)) = Some (join_with (str t) (cuts p s))"
    using assms(4) w by (intro text_replace_spec [OF assms(1,3) s63]) simp
  moreover have "replace_len (length s) (length p) (length (str t)) (match_loop s p 0 0) =
      Some (length (join_with (str t) (cuts p s)))"
    using assms(4) w s63 by (intro replace_len_exact [OF assms(3)]) simp_all
  ultimately show ?thesis using l(1) w by (simp add: rt_strlen_str)
qed

theorem text_replace_is_split_join_witness:
  "text_replace big_mem (Some ''aXbX'') (Some ''X'') (Some ''--'') = Some ''a--b--''"
proof -
  have w: "write_loop ''aXbX'' ''X'' ''--'' 0 [] = ''a--b--''"
    by (simp add: write_loop.simps)
  show ?thesis
    using text_replace_is_split_join [OF plenty_True, of "''aXbX''" "''X''" "Some ''--''",
        THEN conjunct2, THEN conjunct1] w
    by (simp add: list_limit_def)
qed

text \<open>
  the lines of a text are the pieces between its newlines, each without one trailing carriage
  return; there is one more line than newlines, so a final newline gives a last empty line.
\<close>

theorem text_lines_cut_at_newlines:
  assumes "plenty m" "length s < list_limit"
  shows "\<exists>l xs. text_lines m (Some s) = Some l \<and> list_inv l \<and>
    list_abs l = map (\<lambda>x. (KN_ANY_TAG_STRING, StrP (Some (chop_cr x)))) xs \<and>
    join_with [CHR 0x0A] xs = s \<and> CHR 0x0A \<notin> \<Union> (set ` set xs)"
proof -
  obtain l where l: "text_lines m (Some s) = Some l" "list_inv l"
      "list_abs l = map str_value (map chop_cr (cuts [CHR 0x0A] s))"
    using text_lines_spec [OF assms] by blast
  have clean: "CHR 0x0A \<notin> set x" if "x \<in> set (cuts [CHR 0x0A] s)" for x
  proof
    assume "CHR 0x0A \<in> set x"
    then obtain i where "i < length x" "x ! i = CHR 0x0A" by (auto simp: in_set_conv_nth)
    then have "occurs_at x [CHR 0x0A] i" by (simp add: occurs_at_def Cons_nth_drop_Suc [symmetric])
    then show False using cuts_clean [of "[CHR 0x0A]" x s i] that by simp
  qed
  have "join_with [CHR 0x0A] (cuts [CHR 0x0A] s) = s" by (rule join_with_cuts) simp
  then show ?thesis using l clean
    by (intro exI [of _ l] exI [of _ "cuts [CHR 0x0A] s"]) (auto simp: comp_def)
qed

theorem text_lines_cut_at_newlines_witness:
  "\<exists>l xs. text_lines big_mem (Some [CHR ''a'', CHR 0x0D, CHR 0x0A]) = Some l \<and>
     list_abs l = map (\<lambda>x. (KN_ANY_TAG_STRING, StrP (Some (chop_cr x)))) xs \<and> list_inv l"
  using text_lines_cut_at_newlines [OF plenty_True, of "[CHR ''a'', CHR 0x0D, CHR 0x0A]"]
  by (auto simp: list_limit_def)

end
