(* ===== verification/HeapSort.thy ===== *)
theory HeapSort
  imports Prelude
begin

text \<open>
  The runtime sorts two arrays in place with a binary heap: the collector's block index and the
  path list of a directory scan. This theory holds what both share: the swap of two slots, the
  larger child of a node, and the locale \<open>heap_sort\<close>, whose laws are the one-step equations of a
  sift-down and of the two sorting loops. The components define their own loops as the code
  writes them and interpret the locale with them.
\<close>

definition swap :: "'a list \<Rightarrow> nat \<Rightarrow> nat \<Rightarrow> 'a list" where
  "swap xs i j = xs[i := xs ! j, j := xs ! i]"

lemma length_swap [simp]: "length (swap xs i j) = length xs"
  by (simp add: swap_def)

lemma nth_swap:
  assumes "i < length xs" "j < length xs"
  shows "swap xs i j ! k = (if k = j then xs ! i else if k = i then xs ! j else xs ! k)"
  using assms by (auto simp: swap_def nth_list_update)

lemma mset_swap_slots: "i < length xs \<Longrightarrow> j < length xs \<Longrightarrow> mset (swap xs i j) = mset xs"
  by (simp add: swap_def mset_swap)

definition larger_child :: "('a \<Rightarrow> 'a \<Rightarrow> bool) \<Rightarrow> 'a list \<Rightarrow> nat \<Rightarrow> nat \<Rightarrow> nat" where
  "larger_child lt xs n r =
     (let c = 2 * r + 1 in if c + 1 < n \<and> lt (xs ! c) (xs ! (c + 1)) then c + 1 else c)"

definition child_of :: "nat \<Rightarrow> nat \<Rightarrow> bool" where
  "child_of p c \<longleftrightarrow> c = 2 * p + 1 \<or> c = 2 * p + 2"

lemma child_of_gt: "child_of p c \<Longrightarrow> p < c"
  by (auto simp: child_of_def)

lemma child_of_unique: "child_of p c \<Longrightarrow> child_of q c \<Longrightarrow> p = q"
  unfolding child_of_def by presburger

lemma parent_of: "0 < c \<Longrightarrow> \<exists>p. child_of p c"
  unfolding child_of_def by presburger

text \<open>The order both arrays are sorted by: a strict order whose complement is transitive.\<close>

locale strict_weak =
  fixes lt :: "'a \<Rightarrow> 'a \<Rightarrow> bool"
  assumes asym: "lt a b \<Longrightarrow> \<not> lt b a"
    and ntrans: "\<not> lt a b \<Longrightarrow> \<not> lt b c \<Longrightarrow> \<not> lt a c"
begin

lemma irrefl: "\<not> lt a a"
  using asym by blast

definition heap_from :: "'a list \<Rightarrow> nat \<Rightarrow> nat \<Rightarrow> bool" where
  "heap_from xs n lo \<longleftrightarrow>
     (\<forall>i c. lo \<le> i \<longrightarrow> c < n \<longrightarrow> child_of i c \<longrightarrow> \<not> lt (xs ! i) (xs ! c))"

text \<open>A heap with one node that may be smaller than its children.\<close>

definition heap_but :: "'a list \<Rightarrow> nat \<Rightarrow> nat \<Rightarrow> nat \<Rightarrow> bool" where
  "heap_but xs n lo r \<longleftrightarrow>
     (\<forall>i c. lo \<le> i \<longrightarrow> c < n \<longrightarrow> child_of i c \<longrightarrow> i \<noteq> r \<longrightarrow> \<not> lt (xs ! i) (xs ! c)) \<and>
     (\<forall>p c. lo \<le> p \<longrightarrow> child_of p r \<longrightarrow> c < n \<longrightarrow> child_of r c \<longrightarrow> \<not> lt (xs ! p) (xs ! c))"

lemma heap_fromD: "heap_from xs n lo \<Longrightarrow> lo \<le> i \<Longrightarrow> c < n \<Longrightarrow> child_of i c \<Longrightarrow> \<not> lt (xs ! i) (xs ! c)"
  by (simp add: heap_from_def)

lemma heap_butD:
  assumes "heap_but xs n lo r"
  shows "lo \<le> i \<Longrightarrow> c < n \<Longrightarrow> child_of i c \<Longrightarrow> i \<noteq> r \<Longrightarrow> \<not> lt (xs ! i) (xs ! c)"
    and "lo \<le> p \<Longrightarrow> child_of p r \<Longrightarrow> c < n \<Longrightarrow> child_of r c \<Longrightarrow> \<not> lt (xs ! p) (xs ! c)"
  using assms unfolding heap_but_def by blast+

lemma larger_child_of: "child_of r (larger_child lt xs n r)"
  by (simp add: larger_child_def child_of_def Let_def)

lemma larger_child_less: "2 * r + 1 < n \<Longrightarrow> larger_child lt xs n r < n"
  by (simp add: larger_child_def Let_def)

lemma larger_child_max:
  "c < n \<Longrightarrow> child_of r c \<Longrightarrow> \<not> lt (xs ! larger_child lt xs n r) (xs ! c)"
  using asym irrefl by (auto simp: larger_child_def Let_def child_of_def)

lemma heap_but_stop:
  assumes "heap_but xs n lo r" "2 * r + 1 < n \<Longrightarrow> \<not> lt (xs ! r) (xs ! larger_child lt xs n r)"
  shows "heap_from xs n lo"
  unfolding heap_from_def
proof (intro allI impI)
  fix i c assume i: "lo \<le> i" "c < n" "child_of i c"
  show "\<not> lt (xs ! i) (xs ! c)"
  proof (cases "i = r")
    case True
    then have "2 * r + 1 < n" using i by (auto simp: child_of_def)
    then show ?thesis using ntrans [OF assms(2) larger_child_max] i True by blast
  next
    case False
    then show ?thesis using heap_butD(1) [OF assms(1)] i by blast
  qed
qed

lemma heap_but_down:
  assumes b: "heap_but xs n lo r" and n: "n \<le> length xs" "lo \<le> r" "2 * r + 1 < n"
    and l: "lt (xs ! r) (xs ! larger_child lt xs n r)"
  shows "heap_but (swap xs r (larger_child lt xs n r)) n lo (larger_child lt xs n r)"
proof -
  define k where "k = larger_child lt xs n r"
  have k: "child_of r k" "k < n" "lt (xs ! r) (xs ! k)" "r < k" "k < length xs" "r < length xs"
  proof -
    show a: "child_of r k" "k < n" "lt (xs ! r) (xs ! k)"
      using larger_child_of larger_child_less [OF n(3)] l unfolding k_def by blast+
    show "r < k" by (rule child_of_gt [OF a(1)])
    then show "k < length xs" "r < length xs" using a n by linarith+
  qed
  have nth: "swap xs r k ! j = (if j = k then xs ! r else if j = r then xs ! k else xs ! j)" for j
    using k by (intro nth_swap)
  have one: "\<not> lt (swap xs r k ! i) (swap xs r k ! c)"
    if i: "lo \<le> i" "c < n" "child_of i c" "i \<noteq> k" for i c
  proof (cases "i = r")
    case True
    then have "\<not> lt (xs ! k) (xs ! c)" using larger_child_max i k_def by blast
    moreover have "\<not> lt (xs ! k) (xs ! r)" using asym k by blast
    ultimately show ?thesis using True i child_of_gt [OF i(3)] k unfolding nth by auto
  next
    case False
    have ck: "c \<noteq> k" using False k(1) child_of_unique i by blast
    show ?thesis
    proof (cases "c = r")
      case True
      then have "\<not> lt (xs ! i) (xs ! k)" using heap_butD(2) [OF b] i k by blast
      then show ?thesis using True False i(4) k(4) unfolding nth by simp
    next
      case False
      then show ?thesis using heap_butD(1) [OF b] i \<open>i \<noteq> r\<close> ck unfolding nth by simp
    qed
  qed
  have two: "\<not> lt (swap xs r k ! p) (swap xs r k ! c)"
    if p: "lo \<le> p" "child_of p k" "c < n" "child_of k c" for p c
  proof -
    have pr: "p = r" using p k child_of_unique by blast
    have "\<not> lt (xs ! k) (xs ! c)" using heap_butD(1) [OF b, of k c] p k n by auto
    then show ?thesis using pr k(4) child_of_gt [OF p(4)] unfolding nth by auto
  qed
  show ?thesis unfolding heap_but_def k_def [symmetric] using one two by blast
qed

lemma heap_top:
  assumes "heap_from xs n 0"
  shows "i < n \<Longrightarrow> \<not> lt (xs ! 0) (xs ! i)"
proof (induction i rule: less_induct)
  case (less i)
  show ?case
  proof (cases "i = 0")
    case False
    then obtain p where p: "child_of p i" using parent_of by blast
    then have "p < i" by (rule child_of_gt)
    then have "\<not> lt (xs ! 0) (xs ! p)" using less by auto
    moreover have "\<not> lt (xs ! p) (xs ! i)" using heap_fromD [OF assms] less p by blast
    ultimately show ?thesis by (rule ntrans)
  qed (simp add: irrefl)
qed

end

text \<open>The one-step equations of the in-place sort.\<close>

locale heap_sort = strict_weak lt
  for lt :: "'a \<Rightarrow> 'a \<Rightarrow> bool" +
  fixes sift :: "'a list \<Rightarrow> nat \<Rightarrow> nat \<Rightarrow> 'a list"
    and build :: "'a list \<Rightarrow> nat \<Rightarrow> nat \<Rightarrow> 'a list"
    and drain :: "'a list \<Rightarrow> nat \<Rightarrow> 'a list"
  assumes sift_stop:
      "n \<le> 2 * r + 1 \<or> \<not> lt (xs ! r) (xs ! larger_child lt xs n r) \<Longrightarrow> sift xs n r = xs"
    and sift_go: "2 * r + 1 < n \<Longrightarrow> lt (xs ! r) (xs ! larger_child lt xs n r) \<Longrightarrow>
      sift xs n r = sift (swap xs r (larger_child lt xs n r)) n (larger_child lt xs n r)"
    and build_0: "build xs n 0 = xs"
    and build_Suc: "build xs n (Suc i) = build (sift xs n i) n i"
    and drain_stop: "e \<le> 1 \<Longrightarrow> drain xs e = xs"
    and drain_go: "1 < e \<Longrightarrow>
      drain xs e = drain (sift (swap xs 0 (e - 1)) (e - 1) 0) (e - 1)"
begin

lemma sift_frame:
  assumes "n \<le> length xs"
  shows "length (sift xs n r) = length xs \<and> mset (sift xs n r) = mset xs \<and>
         drop n (sift xs n r) = drop n xs"
  using assms
proof (induction "n - r" arbitrary: xs r rule: less_induct)
  case less
  define k where "k = larger_child lt xs n r"
  show ?case
  proof (cases "2 * r + 1 < n \<and> lt (xs ! r) (xs ! k)")
    case True
    have k: "r < k" "k < n" using child_of_gt [OF larger_child_of] larger_child_less True k_def by auto
    have s: "sift xs n r = sift (swap xs r k) n k" using sift_go True k_def by blast
    have d: "drop n (swap xs r k) = drop n xs"
      using k by (simp add: swap_def)
    show ?thesis using less(1) [of k "swap xs r k"] less(2) k d mset_swap_slots [of r xs k]
      unfolding s by simp
  next
    case False
    then show ?thesis using sift_stop [of n r xs] k_def by auto
  qed
qed

lemma sift_heap:
  assumes "n \<le> length xs" "lo \<le> r" "heap_but xs n lo r"
  shows "heap_from (sift xs n r) n lo"
  using assms
proof (induction "n - r" arbitrary: xs r rule: less_induct)
  case less
  define k where "k = larger_child lt xs n r"
  show ?case
  proof (cases "2 * r + 1 < n \<and> lt (xs ! r) (xs ! k)")
    case True
    have k: "r < k" "k < n" using child_of_gt [OF larger_child_of] larger_child_less True k_def by auto
    have s: "sift xs n r = sift (swap xs r k) n k" using sift_go True k_def by blast
    have "heap_but (swap xs r k) n lo k" using heap_but_down less True k_def by blast
    then show ?thesis using less(1) [of k "swap xs r k"] less k unfolding s by simp
  next
    case False
    have "heap_from xs n lo" by (rule heap_but_stop [OF less(4)]) (use False k_def in auto)
    then show ?thesis using sift_stop [of n r xs] False k_def by (metis leI)
  qed
qed

lemma build_heap:
  assumes "n \<le> length xs" "heap_from xs n i"
  shows "heap_from (build xs n i) n 0 \<and> length (build xs n i) = length xs \<and>
         mset (build xs n i) = mset xs"
  using assms
proof (induction i arbitrary: xs)
  case (Suc i)
  have "heap_but xs n i i"
    unfolding heap_but_def using heap_fromD [OF Suc(3)] child_of_gt by fastforce
  then have "heap_from (sift xs n i) n i" using sift_heap Suc by blast
  then show ?case using Suc.IH [of "sift xs n i"] Suc.prems sift_frame [of n xs i]
    by (simp add: build_Suc)
qed (simp add: build_0)

definition tail_sorted :: "'a list \<Rightarrow> nat \<Rightarrow> bool" where
  "tail_sorted xs e \<longleftrightarrow> sorted_wrt (\<lambda>a b. \<not> lt b a) (drop e xs) \<and>
     (\<forall>a \<in> set (take e xs). \<forall>b \<in> set (drop e xs). \<not> lt b a)"

lemma drain_step:
  assumes e: "1 < e" "e \<le> length xs" and h: "heap_from xs e 0" and t: "tail_sorted xs e"
  defines "ys \<equiv> sift (swap xs 0 (e - 1)) (e - 1) 0"
  shows "heap_from ys (e - 1) 0" "tail_sorted ys (e - 1)" "length ys = length xs" "mset ys = mset xs"
proof -
  define zs where "zs = swap xs 0 (e - 1)"
  have nth: "zs ! j = (if j = e - 1 then xs ! 0 else if j = 0 then xs ! (e - 1) else xs ! j)" for j
    unfolding zs_def using e by (intro nth_swap) auto
  have lz: "length zs = length xs" "e - 1 \<le> length zs" using e by (auto simp: zs_def)
  have fr: "length ys = length zs" "mset ys = mset zs" "drop (e - 1) ys = drop (e - 1) zs"
    using sift_frame [OF lz(2), of 0] by (auto simp: ys_def zs_def)
  have mz: "mset zs = mset xs" unfolding zs_def using e by (intro mset_swap_slots) auto
  show "length ys = length xs" "mset ys = mset xs" using fr lz mz by simp_all
  have "heap_but zs (e - 1) 0 0"
    unfolding heap_but_def
  proof (intro conjI allI impI)
    fix i c assume i: "c < e - 1" "child_of i c" "i \<noteq> 0"
    then have "i < c" using child_of_gt by blast
    then show "\<not> lt (zs ! i) (zs ! c)" using heap_fromD [OF h] i unfolding nth by auto
  next
    fix p c assume "child_of p 0"
    then show "\<not> lt (zs ! p) (zs ! c)" by (simp add: child_of_def)
  qed
  then show "heap_from ys (e - 1) 0" using sift_heap [OF lz(2)] by (simp add: ys_def zs_def)
  have dz: "drop e zs = drop e xs" using e by (simp add: zs_def swap_def)
  have dd: "drop (e - 1) zs = xs ! 0 # drop e xs"
    using drop_nth_Cons [of "e - 1" zs] e lz dz by (simp add: nth)
  have "mset (take (e - 1) ys) + mset (drop (e - 1) ys) =
        mset (take (e - 1) zs) + mset (drop (e - 1) zs)"
    using fr(2) by (metis append_take_drop_id mset_append)
  then have tk: "set (take (e - 1) ys) = set (take (e - 1) zs)"
    using fr(3) by (metis add_right_imp_eq mset_eq_setD)
  have sub: "a \<in> set (take e xs)" if a: "a \<in> set (take (e - 1) zs)" for a
  proof -
    obtain j where j: "j < e - 1" "a = zs ! j" using a lz e by (auto simp: in_set_conv_nth)
    have "xs ! i \<in> set (take e xs)" if "i < e" for i
      using that e by (auto simp: in_set_conv_nth intro!: exI [of _ i])
    then show ?thesis using j e unfolding nth by auto
  qed
  have top: "\<not> lt (xs ! 0) a" if "a \<in> set (take e xs)" for a
    using that heap_top [OF h] e by (auto simp: in_set_conv_nth)
  have x0: "xs ! 0 \<in> set (take e xs)"
    using e by (auto simp: in_set_conv_nth intro!: exI [of _ 0])
  have t': "sorted_wrt (\<lambda>a b. \<not> lt b a) (drop e xs)"
    "\<And>a b. a \<in> set (take e xs) \<Longrightarrow> b \<in> set (drop e xs) \<Longrightarrow> \<not> lt b a"
    using t unfolding tail_sorted_def by blast+
  show "tail_sorted ys (e - 1)"
    unfolding tail_sorted_def fr(3) dd tk using t' top x0 sub by auto
qed

lemma drain_sorted:
  assumes "e \<le> length xs" "heap_from xs e 0" "tail_sorted xs e"
  shows "sorted_wrt (\<lambda>a b. \<not> lt b a) (drain xs e) \<and> mset (drain xs e) = mset xs \<and>
         length (drain xs e) = length xs"
  using assms
proof (induction e arbitrary: xs)
  case 0
  then show ?case by (simp add: drain_stop tail_sorted_def)
next
  case (Suc e)
  show ?case
  proof (cases e)
    case 0
    have "sorted_wrt (\<lambda>a b. \<not> lt b a) xs"
    proof (cases xs)
      case (Cons y ys)
      then show ?thesis using Suc(4) 0 by (simp add: tail_sorted_def)
    qed simp
    then show ?thesis using 0 by (simp add: drain_stop)
  next
    case (Suc k)
    note st = drain_step [of "Suc e" xs]
    let ?y = "sift (swap xs 0 e) e 0"
    have y: "heap_from ?y e 0" "tail_sorted ?y e" "length ?y = length xs" "mset ?y = mset xs"
      using st Suc Suc.prems by simp_all
    have "drain xs (Suc e) = drain ?y e" using drain_go [of "Suc e" xs] Suc by simp
    then show ?thesis using Suc.IH [of ?y] y Suc.prems by simp
  qed
qed

lemma sort_sorts:
  assumes "length xs = n"
  shows "sorted_wrt (\<lambda>a b. \<not> lt b a) (drain (build xs n (n div 2)) n)"
    and "mset (drain (build xs n (n div 2)) n) = mset xs"
    and "length (drain (build xs n (n div 2)) n) = n"
proof -
  have "heap_from xs n (n div 2)" unfolding heap_from_def child_of_def by auto
  then have b: "heap_from (build xs n (n div 2)) n 0" "length (build xs n (n div 2)) = n"
    "mset (build xs n (n div 2)) = mset xs" using build_heap [of n xs "n div 2"] assms by auto
  have "tail_sorted (build xs n (n div 2)) n" using b by (simp add: tail_sorted_def)
  then have "sorted_wrt (\<lambda>a b. \<not> lt b a) (drain (build xs n (n div 2)) n) \<and>
      mset (drain (build xs n (n div 2)) n) = mset (build xs n (n div 2)) \<and>
      length (drain (build xs n (n div 2)) n) = length (build xs n (n div 2))"
    using b by (intro drain_sorted) simp_all
  then show "sorted_wrt (\<lambda>a b. \<not> lt b a) (drain (build xs n (n div 2)) n)"
    "mset (drain (build xs n (n div 2)) n) = mset xs"
    "length (drain (build xs n (n div 2)) n) = n" using b by simp_all
qed

end

end
