(* ===== verification/RtGc.thy ===== *)
theory RtGc
  imports HeapSort
begin

text \<open>
  The mark-and-sweep collector of \<open>libs/runtime/src/kn_runtime.c\<close>. A block pointer of the code is
  a position in the block list, whose order is that of the \<open>next\<close> links; addresses are natural
  numbers (pointer arithmetic past the end of the address space is undefined in C) and memory
  maps an address to a byte. \<open>g_gc_bytes\<close> and the threshold wrap at \<open>2 ^ 64\<close>. The frame list is
  the chain of \<open>prev\<close> links, innermost first, and a frame pointer is the number of frames below.
  One thread runs at a time under \<open>g_gc_lock\<close>. The address of a local variable is a parameter.
\<close>

subsection \<open>State\<close>

record gc_block =
  gb_ptr :: nat
  gb_size :: nat
  gb_marked :: bool

record gc_root =
  gr_addr :: nat
  gr_size :: nat

record gc_frame =
  gf_cap :: nat
  gf_roots :: "gc_root list"

record gc_state =
  gc_blocks :: "gc_block list"
  gc_frames :: "gc_frame list"
  gc_stack_base :: nat
  gc_global_roots :: "gc_root list"
  gc_global_cap :: nat
  gc_bytes :: nat
  gc_threshold :: nat
  gc_collecting :: bool
  async_live_tasks :: nat
  exc_current :: nat
  exc_last :: nat
  gc_mem :: "nat \<Rightarrow> nat"

definition read_word :: "(nat \<Rightarrow> nat) \<Rightarrow> nat \<Rightarrow> nat" where
  "read_word mem a = foldr (\<lambda>i v. mem (a + i) + 256 * v) [0..<8] 0"

definition fill_zero :: "(nat \<Rightarrow> nat) \<Rightarrow> nat \<Rightarrow> nat \<Rightarrow> nat \<Rightarrow> nat" where
  "fill_zero mem a n = (\<lambda>x. if a \<le> x \<and> x < a + n then 0 else mem x)"

subsection \<open>The sorted index of blocks\<close>

definition blk_less :: "gc_block list \<Rightarrow> nat \<Rightarrow> nat \<Rightarrow> bool" where
  "blk_less bs i j \<longleftrightarrow> gb_ptr (bs ! i) < gb_ptr (bs ! j)"

function gc_index_sift_down :: "gc_block list \<Rightarrow> nat list \<Rightarrow> nat \<Rightarrow> nat \<Rightarrow> nat list" where
  "gc_index_sift_down bs items cnt root =
     (let child = root * 2 + 1
      in if child \<ge> cnt then items
         else (let child = (if child + 1 < cnt \<and> blk_less bs (items ! child) (items ! (child + 1))
                            then child + 1 else child)
               in if \<not> blk_less bs (items ! root) (items ! child) then items
                  else gc_index_sift_down bs (swap items root child) cnt child))"
  by pat_completeness auto
termination
  by (relation "measure (\<lambda>(bs, items, cnt, root). cnt - root)") auto

fun gc_index_build :: "gc_block list \<Rightarrow> nat list \<Rightarrow> nat \<Rightarrow> nat \<Rightarrow> nat list" where
  "gc_index_build bs items cnt 0 = items"
| "gc_index_build bs items cnt (Suc i) =
     gc_index_build bs (gc_index_sift_down bs items cnt i) cnt i"

fun gc_index_drain :: "gc_block list \<Rightarrow> nat list \<Rightarrow> nat \<Rightarrow> nat list" where
  "gc_index_drain bs items 0 = items"
| "gc_index_drain bs items (Suc e) =
     gc_index_drain bs (gc_index_sift_down bs (swap items 0 (Suc e)) (Suc e) 0) e"

definition gc_index_sort :: "gc_block list \<Rightarrow> nat list \<Rightarrow> nat \<Rightarrow> nat list" where
  "gc_index_sort bs items cnt =
     (if cnt < 2 then items
      else gc_index_drain bs (gc_index_build bs items cnt (cnt div 2)) (cnt - 1))"

declare gc_index_sift_down.simps [simp del]

interpretation gidx: heap_sort "blk_less bs" "gc_index_sift_down bs" "gc_index_build bs"
    "\<lambda>xs e. gc_index_drain bs xs (e - 1)" for bs
proof
  fix n r :: nat and xs :: "nat list"
  assume "n \<le> 2 * r + 1 \<or> \<not> blk_less bs (xs ! r) (xs ! larger_child (blk_less bs) xs n r)"
  then show "gc_index_sift_down bs xs n r = xs"
    by (subst gc_index_sift_down.simps) (auto simp: Let_def larger_child_def mult.commute)
next
  fix n r :: nat and xs :: "nat list"
  assume "2 * r + 1 < n" "blk_less bs (xs ! r) (xs ! larger_child (blk_less bs) xs n r)"
  then show "gc_index_sift_down bs xs n r =
      gc_index_sift_down bs (swap xs r (larger_child (blk_less bs) xs n r)) n
        (larger_child (blk_less bs) xs n r)"
    by (subst gc_index_sift_down.simps) (simp add: Let_def larger_child_def mult.commute)
next
  fix e :: nat and xs :: "nat list"
  assume "1 < e"
  then obtain k where "e = Suc (Suc k)" by (metis One_nat_def less_iff_Suc_add add_Suc)
  then show "gc_index_drain bs xs (e - 1) =
      gc_index_drain bs (gc_index_sift_down bs (swap xs 0 (e - 1)) (e - 1) 0) (e - 1 - 1)" by simp
qed (auto simp: blk_less_def)

subsection \<open>Looking a pointer up\<close>

function upper_bound :: "gc_block list \<Rightarrow> nat list \<Rightarrow> nat \<Rightarrow> nat \<Rightarrow> nat \<Rightarrow> nat" where
  "upper_bound bs index v low high =
     (if low < high
      then (let middle = low + (high - low) div 2
            in if gb_ptr (bs ! (index ! middle)) \<le> v then upper_bound bs index v (middle + 1) high
               else upper_bound bs index v low middle)
      else low)"
  by pat_completeness auto
termination
  by (relation "measure (\<lambda>(bs, index, v, low, high). high - low)") auto

definition gc_find_indexed_block :: "nat \<Rightarrow> gc_block list \<Rightarrow> nat list \<Rightarrow> nat \<Rightarrow> nat option" where
  "gc_find_indexed_block p bs index cnt =
     (if p = 0 \<or> cnt = 0 then None
      else (let low = upper_bound bs index p 0 cnt
            in if low = 0 then None
               else (let c = index ! (low - 1); start = gb_ptr (bs ! c)
                     in if start \<le> p \<and> p - start < gb_size (bs ! c) then Some c else None)))"

declare upper_bound.simps [simp del]

subsection \<open>Marking\<close>

type_synonym gc_marks = "gc_block list \<times> nat list"

definition gc_mark_ptr :: "nat list \<Rightarrow> nat \<Rightarrow> nat \<Rightarrow> nat \<Rightarrow> gc_marks \<Rightarrow> gc_marks" where
  "gc_mark_ptr index cnt cap p st =
     (case st of (bs, stk) \<Rightarrow>
        (case gc_find_indexed_block p bs index cnt of
           None \<Rightarrow> (bs, stk)
         | Some i \<Rightarrow>
             if gb_marked (bs ! i) then (bs, stk)
             else (bs[i := (bs ! i)\<lparr>gb_marked := True\<rparr>],
                   if length stk < cap then i # stk else stk)))"

function scan_words :: "(nat \<Rightarrow> nat) \<Rightarrow> nat list \<Rightarrow> nat \<Rightarrow> nat \<Rightarrow> nat \<Rightarrow> nat \<Rightarrow> gc_marks \<Rightarrow> gc_marks" where
  "scan_words mem index cnt cap cur stop st =
     (if cur < stop
      then scan_words mem index cnt cap (cur + 8) stop
             (gc_mark_ptr index cnt cap (read_word mem cur) st)
      else st)"
  by pat_completeness auto
termination
  by (relation "measure (\<lambda>(mem, index, cnt, cap, cur, stop, st). stop - cur)") auto

declare scan_words.simps [simp del]

definition gc_scan_region :: "(nat \<Rightarrow> nat) \<Rightarrow> nat list \<Rightarrow> nat \<Rightarrow> nat \<Rightarrow> nat \<Rightarrow> nat \<Rightarrow> gc_marks \<Rightarrow> gc_marks" where
  "gc_scan_region mem index cnt cap addr sz st =
     (if addr = 0 \<or> sz = 0 then st else scan_words mem index cnt cap addr (addr + sz) st)"

definition gc_scan_native_stack ::
    "(nat \<Rightarrow> nat) \<Rightarrow> nat list \<Rightarrow> nat \<Rightarrow> nat \<Rightarrow> nat \<Rightarrow> nat \<Rightarrow> gc_marks \<Rightarrow> gc_marks" where
  "gc_scan_native_stack mem index cnt cap base here st =
     (let low = (if here < base then here else base); high = (if here < base then base else here)
      in if base = 0 \<or> high < low \<or> high - low > 128 * 1024 * 1024 then st
         else scan_words mem index cnt cap low (high + 8) st)"

definition gc_scan_roots :: "(nat \<Rightarrow> nat) \<Rightarrow> nat list \<Rightarrow> nat \<Rightarrow> nat \<Rightarrow> gc_root list \<Rightarrow> gc_marks \<Rightarrow> gc_marks" where
  "gc_scan_roots mem index cnt cap rs st =
     foldl (\<lambda>st r. gc_scan_region mem index cnt cap (gr_addr r) (gr_size r) st) st rs"

text \<open>The traversal pops until the stack is empty; a run that would not end is \<open>None\<close>.\<close>

partial_function (option) gc_traverse ::
    "(nat \<Rightarrow> nat) \<Rightarrow> nat list \<Rightarrow> nat \<Rightarrow> nat \<Rightarrow> gc_marks \<Rightarrow> gc_block list option" where
  "gc_traverse mem index cnt cap st =
     (case st of (bs, stk) \<Rightarrow>
        (case stk of [] \<Rightarrow> Some bs
         | b # stk' \<Rightarrow>
             gc_traverse mem index cnt cap
               (gc_scan_region mem index cnt cap (gb_ptr (bs ! b)) (gb_size (bs ! b)) (bs, stk'))))"

subsection \<open>Sweeping and the collection\<close>

text \<open>The surviving blocks, their total size and the addresses freed.\<close>

fun gc_sweep :: "gc_block list \<Rightarrow> nat \<Rightarrow> gc_block list \<times> nat \<times> nat list" where
  "gc_sweep [] live_bytes = ([], live_bytes, [])"
| "gc_sweep (b # bs) live_bytes =
     (if \<not> gb_marked b
      then (case gc_sweep bs live_bytes of (kept, n, freed) \<Rightarrow> (kept, n, gb_ptr b # freed))
      else (case gc_sweep bs ((live_bytes + gb_size b) mod 2 ^ 64) of
              (kept, n, freed) \<Rightarrow> (b # kept, n, freed)))"

definition gc_mark_roots :: "nat list \<Rightarrow> nat \<Rightarrow> nat \<Rightarrow> gc_state \<Rightarrow> gc_marks" where
  "gc_mark_roots index n here s =
     (let mem = gc_mem s;
          st = (map (\<lambda>b. b\<lparr>gb_marked := False\<rparr>) (gc_blocks s), []);
          st = gc_scan_native_stack mem index n n (gc_stack_base s) here st;
          st = foldl (\<lambda>st f. gc_scan_roots mem index n n (gf_roots f) st) st (gc_frames s);
          st = gc_scan_roots mem index n n (gc_global_roots s) st;
          st = (if exc_current s \<noteq> 0 then gc_mark_ptr index n n (exc_current s) st else st);
          st = (if exc_last s \<noteq> 0 then gc_mark_ptr index n n (exc_last s) st else st)
      in st)"

definition gc_collect :: "amem \<Rightarrow> nat \<Rightarrow> gc_state \<Rightarrow> (gc_state \<times> nat list) option" where
  "gc_collect m here s =
     (if async_live_tasks s > 0 then Some (s, [])
      else if gc_collecting s \<or> async_live_tasks s > 0 then Some (s, [])
      else (let n = length (gc_blocks s)
            in if n = 0 then Some (s\<lparr>gc_collecting := False\<rparr>, [])
               else if \<not> alloc_ok m (8 * n) then Some (s\<lparr>gc_collecting := False\<rparr>, [])
               else (let index = gc_index_sort (gc_blocks s) [0..<n] n
                     in case gc_traverse (gc_mem s) index n n (gc_mark_roots index n here s) of
                          None \<Rightarrow> None
                        | Some bs \<Rightarrow>
                            (case gc_sweep bs 0 of (kept, live_bytes, freed) \<Rightarrow>
                               (let limit = (live_bytes * 2) mod 2 ^ 64;
                                    limit = (if limit < 8 * 1024 * 1024 then 8 * 1024 * 1024
                                             else limit)
                                in Some (s\<lparr>gc_blocks := kept, gc_bytes := live_bytes,
                                          gc_threshold := limit, gc_collecting := False\<rparr>,
                                         freed))))))"

subsection \<open>Frames, roots and allocation\<close>

definition gc_push_frame :: "amem \<Rightarrow> gc_state \<Rightarrow> nat option \<times> gc_state" where
  "gc_push_frame m s =
     (if alloc_ok m 24
      then (Some (length (gc_frames s)),
            s\<lparr>gc_frames := \<lparr>gf_cap = 0, gf_roots = []\<rparr> # gc_frames s\<rparr>)
      else (None, s))"

definition frame_add :: "amem \<Rightarrow> gc_root \<Rightarrow> gc_frame \<Rightarrow> gc_frame" where
  "frame_add m r f =
     (let n = length (gf_roots f)
      in if n + 1 > gf_cap f
         then (let new_cap = (if gf_cap f \<noteq> 0 then gf_cap f * 2 else 8)
               in if alloc_ok m (16 * new_cap)
                  then f\<lparr>gf_cap := new_cap, gf_roots := gf_roots f @ [r]\<rparr> else f)
         else f\<lparr>gf_roots := gf_roots f @ [r]\<rparr>)"

definition gc_add_root :: "amem \<Rightarrow> nat option \<Rightarrow> nat \<Rightarrow> nat \<Rightarrow> gc_state \<Rightarrow> gc_state" where
  "gc_add_root m f addr sz s =
     (case f of None \<Rightarrow> s
      | Some h \<Rightarrow>
          if addr = 0 \<or> sz = 0 then s
          else (let i = length (gc_frames s) - 1 - h
                in s\<lparr>gc_frames := (gc_frames s)
                       [i := frame_add m \<lparr>gr_addr = addr, gr_size = sz\<rparr> (gc_frames s ! i)]\<rparr>))"

definition gc_add_global_root :: "amem \<Rightarrow> nat \<Rightarrow> nat \<Rightarrow> gc_state \<Rightarrow> gc_state" where
  "gc_add_global_root m addr sz s =
     (if addr = 0 \<or> sz = 0 then s
      else (let n = length (gc_global_roots s); r = \<lparr>gr_addr = addr, gr_size = sz\<rparr>
            in if n + 1 > gc_global_cap s
               then (let new_cap = (if gc_global_cap s \<noteq> 0 then gc_global_cap s * 2 else 16)
                     in if alloc_ok m (16 * new_cap)
                        then s\<lparr>gc_global_cap := new_cap,
                               gc_global_roots := gc_global_roots s @ [r]\<rparr> else s)
               else s\<lparr>gc_global_roots := gc_global_roots s @ [r]\<rparr>))"

definition gc_pop_frame :: "nat option \<Rightarrow> gc_state \<Rightarrow> gc_state" where
  "gc_pop_frame f s =
     (case f of None \<Rightarrow> s
      | Some h \<Rightarrow> s\<lparr>gc_frames := drop (length (gc_frames s) - h) (gc_frames s)\<rparr>)"

text \<open>
  The platform allocator is the parameter \<open>alloc\<close>; \<open>meta\<close> says whether the request for the block
  header is served. The result is the address (\<open>None\<close> for null), the state and what was freed.
\<close>

definition gc_note_base :: "nat \<Rightarrow> gc_state \<Rightarrow> gc_state" where
  "gc_note_base here s = (if gc_stack_base s = 0 then s\<lparr>gc_stack_base := here\<rparr> else s)"

definition gc_alloc ::
    "amem \<Rightarrow> nat \<Rightarrow> (gc_state \<Rightarrow> nat \<Rightarrow> nat option) \<Rightarrow> bool \<Rightarrow> nat \<Rightarrow> gc_state \<Rightarrow>
     (nat option \<times> gc_state \<times> nat list) option" where
  "gc_alloc m here alloc meta request s =
     (let s = gc_note_base here s;
          sz = (if request = 0 then 1 else request)
      in case (if \<not> gc_collecting s \<and> async_live_tasks s = 0 \<and> gc_bytes s > gc_threshold s
               then gc_collect m here s else Some (s, [])) of
           None \<Rightarrow> None
         | Some (s, freed) \<Rightarrow>
             (case alloc s sz of
                None \<Rightarrow> Some (None, s, freed)
              | Some p \<Rightarrow>
                  (let s = s\<lparr>gc_mem := fill_zero (gc_mem s) p sz\<rparr>
                   in if \<not> meta then Some (Some p, s, freed)
                      else Some (Some p,
                             s\<lparr>gc_blocks := \<lparr>gb_ptr = p, gb_size = sz, gb_marked = False\<rparr>
                                 # gc_blocks s,
                               gc_bytes := (gc_bytes s + sz) mod 2 ^ 64\<rparr>, freed))))"

end
