(* ===== verification/RtGcProps.thy ===== *)
theory RtGcProps
  imports RtGc
begin

text \<open>
  The collector keeps exactly the blocks reachable from its roots: the index is sorted, the binary
  search finds the block an address points into, marking adds the targets of the words it scans
  and the stack never overflows, the traversal ends with a closed set, and the sweep unlinks the
  rest. An address anywhere inside a block counts as a pointer to it.
\<close>

definition extent :: "gc_block \<Rightarrow> nat \<times> nat" where
  "extent b = (gb_ptr b, gb_size b)"

definition covers :: "nat \<times> nat \<Rightarrow> nat \<Rightarrow> bool" where
  "covers e p \<longleftrightarrow> fst e \<le> p \<and> p < fst e + snd e"

definition apart :: "nat \<times> nat \<Rightarrow> nat \<times> nat \<Rightarrow> bool" where
  "apart a b \<longleftrightarrow> fst a + snd a \<le> fst b \<or> fst b + snd b \<le> fst a"

definition extents_ok :: "(nat \<times> nat) list \<Rightarrow> bool" where
  "extents_ok es \<longleftrightarrow> sorted_wrt apart es \<and> (\<forall>e \<in> set es. 0 < fst e \<and> 0 < snd e)"

lemma apart_sym: "apart a b \<longleftrightarrow> apart b a"
  by (auto simp: apart_def)

lemma apart_covers: "apart a b \<Longrightarrow> covers a p \<Longrightarrow> \<not> covers b p"
  by (auto simp: apart_def covers_def)

lemma extents_ok_nth:
  assumes "extents_ok es" "i < length es"
  shows "0 < fst (es ! i)" "0 < snd (es ! i)"
    and "j < length es \<Longrightarrow> i \<noteq> j \<Longrightarrow> apart (es ! i) (es ! j)"
proof -
  show "0 < fst (es ! i)" "0 < snd (es ! i)" using assms by (auto simp: extents_ok_def)
  assume "j < length es" "i \<noteq> j"
  then show "apart (es ! i) (es ! j)"
    using assms apart_sym by (metis extents_ok_def nat_neq_iff sorted_wrt_nth_less)
qed

lemma extents_ok_filter: "extents_ok (map extent bs) \<Longrightarrow> extents_ok (map extent (filter P bs))"
  unfolding extents_ok_def by (auto simp: sorted_wrt_map intro: sorted_wrt_filter)

subsection \<open>The index and the lookup\<close>

definition index_ok :: "(nat \<times> nat) list \<Rightarrow> nat list \<Rightarrow> bool" where
  "index_ok es index \<longleftrightarrow> mset index = mset [0..<length es] \<and>
     sorted_wrt (\<lambda>i j. fst (es ! i) \<le> fst (es ! j)) index"

lemma index_ok_length: "index_ok es index \<Longrightarrow> length index = length es"
  unfolding index_ok_def by (metis length_upt minus_nat.diff_0 size_mset)

lemma index_ok_set: "index_ok es index \<Longrightarrow> set index = {..<length es}"
  unfolding index_ok_def by (metis mset_eq_setD atLeast0LessThan set_upt)

lemma gc_index_sort_ok:
  "index_ok (map extent bs) (gc_index_sort bs [0..<length bs] (length bs))"
proof -
  define n where "n = length bs"
  define ix where "ix = gc_index_drain bs (gc_index_build bs [0..<n] n (n div 2)) (n - 1)"
  have s: "sorted_wrt (\<lambda>a b. \<not> blk_less bs b a) ix" "mset ix = mset [0..<n]"
    unfolding ix_def using gidx.sort_sorts [of "[0..<n]" n] by simp_all
  have m: "set ix = {..<n}" using s(2) by (metis mset_eq_setD atLeast0LessThan set_upt)
  have "sorted_wrt (\<lambda>i j. fst (map extent bs ! i) \<le> fst (map extent bs ! j)) ix"
    by (rule sorted_wrt_mono_rel [OF _ s(1)]) (auto simp: m n_def blk_less_def extent_def)
  moreover have "gc_index_sort bs [0..<n] n = ix \<or> n < 2 \<and> gc_index_sort bs [0..<n] n = [0..<n]"
    by (simp add: gc_index_sort_def ix_def)
  moreover have "n < 2 \<Longrightarrow> sorted_wrt R [0..<n]" for R
    by (cases n) (auto simp: less_Suc_eq)
  ultimately show ?thesis using s(2) unfolding index_ok_def n_def by auto
qed

lemma upper_bound_splits:
  assumes "low \<le> high" "high \<le> length index"
    and "\<forall>j < low. gb_ptr (bs ! (index ! j)) \<le> v"
    and "\<forall>j < length index. high \<le> j \<longrightarrow> v < gb_ptr (bs ! (index ! j))"
    and "sorted_wrt (\<lambda>i j. gb_ptr (bs ! i) \<le> gb_ptr (bs ! j)) index"
  shows "upper_bound bs index v low high \<le> length index \<and>
    (\<forall>j < length index. j < upper_bound bs index v low high \<longleftrightarrow> gb_ptr (bs ! (index ! j)) \<le> v)"
  using assms
proof (induction bs index v low high rule: upper_bound.induct)
  case (1 bs index v low high)
  show ?case
  proof (cases "low < high")
    case False
    then have "upper_bound bs index v low high = low" by (subst upper_bound.simps) simp
    then show ?thesis using 1(3-6) False by (auto simp: not_less)
  next
    case True
    define mid where "mid = low + (high - low) div 2"
    have mid: "low \<le> mid" "mid < high" using True by (auto simp: mid_def)
    have mono: "gb_ptr (bs ! (index ! i)) \<le> gb_ptr (bs ! (index ! j))"
      if "i \<le> j" "j < length index" for i j
    proof (cases "i = j")
      case False
      then show ?thesis using sorted_wrt_nth_less [OF 1(7), of i j] that by simp
    qed simp
    show ?thesis
    proof (cases "gb_ptr (bs ! (index ! mid)) \<le> v")
      case le: True
      have "upper_bound bs index v low high = upper_bound bs index v (mid + 1) high"
        using True le by (subst upper_bound.simps) (simp add: mid_def Let_def)
      moreover have "\<forall>j < mid + 1. gb_ptr (bs ! (index ! j)) \<le> v"
        using le mono mid 1(4) by (metis Suc_eq_plus1 less_Suc_eq_le less_le_trans order_trans)
      ultimately show ?thesis
        using 1(1) [OF True mid_def le] mid 1(4,6,7) by simp
    next
      case gt: False
      have e: "upper_bound bs index v low high = upper_bound bs index v low mid"
        using True gt by (subst upper_bound.simps) (simp add: mid_def Let_def)
      have "v < gb_ptr (bs ! (index ! j))" if "j < length index" "mid \<le> j" for j
        using gt mono [OF that(2,1)] by simp
      then show ?thesis unfolding e
        using 1(2) [OF True mid_def gt] mid 1(4,5,7) by simp
    qed
  qed
qed

lemma gc_find_iff:
  assumes es: "map extent bs = es" and ok: "extents_ok es" and ix: "index_ok es index"
  shows "gc_find_indexed_block p bs index (length es) = Some i \<longleftrightarrow> i < length es \<and> covers (es ! i) p"
proof -
  define n where "n = length es"
  have lb: "length bs = n" using es n_def by (metis length_map)
  have nth: "gb_ptr (bs ! i) = fst (es ! i)" "gb_size (bs ! i) = snd (es ! i)" if "i < n" for i
    using that lb es by (auto simp: extent_def)
  have li: "length index = n" and si: "set index = {..<n}"
    using index_ok_length [OF ix] index_ok_set [OF ix] by (simp_all add: n_def)
  have inx: "index ! j < n" if "j < n" for j using si li that nth_mem [of j index] by simp
  have "sorted_wrt (\<lambda>i j. gb_ptr (bs ! i) \<le> gb_ptr (bs ! j)) index"
    by (rule sorted_wrt_mono_rel [of _ "\<lambda>i j. fst (es ! i) \<le> fst (es ! j)"])
      (use ix si in \<open>auto simp: index_ok_def nth\<close>)
  then have u: "upper_bound bs index p 0 n \<le> n"
    "\<And>j. j < n \<Longrightarrow> j < upper_bound bs index p 0 n \<longleftrightarrow> gb_ptr (bs ! (index ! j)) \<le> p"
    using upper_bound_splits [of 0 n index bs p] li by auto
  define k where "k = upper_bound bs index p 0 n"
  define c where "c = index ! (k - 1)"
  have f: "gc_find_indexed_block p bs index n =
      (if p = 0 \<or> n = 0 \<or> k = 0 then None
       else if gb_ptr (bs ! c) \<le> p \<and> p - gb_ptr (bs ! c) < gb_size (bs ! c) then Some c else None)"
    by (simp add: gc_find_indexed_block_def k_def c_def Let_def)
  show ?thesis unfolding n_def [symmetric]
  proof
    assume s: "gc_find_indexed_block p bs index n = Some i"
    then have k: "k \<noteq> 0" and i: "i = c" "gb_ptr (bs ! c) \<le> p" "p - gb_ptr (bs ! c) < gb_size (bs ! c)"
      unfolding f by (auto split: if_splits)
    have c: "c < n" unfolding c_def using k u(1) k_def by (intro inx) simp
    show "i < n \<and> covers (es ! i) p"
      using i c nth [OF c] unfolding covers_def by auto
  next
    assume a: "i < n \<and> covers (es ! i) p"
    obtain j where j: "j < n" "index ! j = i" using a si li by (metis in_set_conv_nth lessThan_iff)
    have p0: "p \<noteq> 0" using a extents_ok_nth(1) [OF ok, of i] by (auto simp: covers_def n_def)
    have jk: "j < k" using u(2) [OF j(1)] j a nth by (auto simp: k_def covers_def)
    have kn: "k - 1 < n" using jk u(1) k_def by simp
    have c: "c < n" unfolding c_def by (rule inx [OF kn])
    have cp: "gb_ptr (bs ! c) \<le> p" using u(2) [OF kn] jk k_def c_def by simp
    have "fst (es ! i) \<le> fst (es ! c)"
    proof (cases "j = k - 1")
      case False
      then have "j < k - 1" using jk by simp
      then show ?thesis using ix j li kn unfolding index_ok_def c_def
        by (metis sorted_wrt_nth_less)
    qed (use j c_def in simp)
    then have "c = i"
      using extents_ok_nth(3) [OF ok, of c i] extents_ok_nth(2) [OF ok, of c] a c cp nth [OF c]
      by (cases "c = i") (auto simp: apart_def covers_def n_def)
    then show "gc_find_indexed_block p bs index n = Some i"
      unfolding f using p0 jk a nth [of i] by (auto simp: covers_def)
  qed
qed

subsection \<open>Marking\<close>

definition marked_set :: "gc_block list \<Rightarrow> nat set" where
  "marked_set bs = {i. i < length bs \<and> gb_marked (bs ! i)}"

definition targets :: "(nat \<times> nat) list \<Rightarrow> nat set \<Rightarrow> nat set" where
  "targets es W = {i. i < length es \<and> (\<exists>v \<in> W. covers (es ! i) v)}"

definition words :: "(nat \<Rightarrow> nat) \<Rightarrow> nat \<Rightarrow> nat \<Rightarrow> nat set" where
  "words mem a n = {read_word mem (a + 8 * k) |k. 8 * k < n}"

text \<open>
  What a scan of the words \<open>W\<close> does to the marks: the blocks they point into become marked, and
  a block leaves the unmarked ones only through the stack.
\<close>

definition marks_ok :: "(nat \<times> nat) list \<Rightarrow> gc_marks \<Rightarrow> bool" where
  "marks_ok es st \<longleftrightarrow> map extent (fst st) = es \<and> distinct (snd st) \<and> set (snd st) \<subseteq> marked_set (fst st)"

definition adds :: "(nat \<times> nat) list \<Rightarrow> nat set \<Rightarrow> gc_marks \<Rightarrow> gc_marks \<Rightarrow> bool" where
  "adds es W st st' \<longleftrightarrow> (marks_ok es st \<longrightarrow> marks_ok es st' \<and>
     marked_set (fst st') = marked_set (fst st) \<union> targets es W \<and>
     marked_set (fst st') - set (snd st') = marked_set (fst st) - set (snd st))"

lemma targets_Un: "targets es (V \<union> W) = targets es V \<union> targets es W"
  by (auto simp: targets_def)

lemma targets_empty [simp]: "targets es {} = {}"
  by (simp add: targets_def)

lemma adds_refl: "adds es {} st st"
  by (simp add: adds_def)

lemma adds_trans: "adds es V st st' \<Longrightarrow> adds es W st' st'' \<Longrightarrow> adds es (V \<union> W) st st''"
  unfolding adds_def targets_Un by auto

lemma adds_foldl:
  assumes "\<And>x st. x \<in> set xs \<Longrightarrow> adds es (W x) st (f st x)"
  shows "adds es (\<Union>x \<in> set xs. W x) st (foldl f st xs)"
  using assms
proof (induction xs arbitrary: st)
  case (Cons x xs)
  have "adds es (W x \<union> (\<Union>x \<in> set xs. W x)) st (foldl f (f st x) xs)"
    by (rule adds_trans [where st' = "f st x"]) (use Cons in \<open>simp_all\<close>)
  then show ?case by simp
qed (simp add: adds_refl)

lemma marked_set_bound:
  assumes "map extent bs = es"
  shows "marked_set bs \<subseteq> {..<length es}" "finite (marked_set bs)"
proof -
  show "marked_set bs \<subseteq> {..<length es}" using assms by (auto simp: marked_set_def)
  then show "finite (marked_set bs)" by (rule finite_subset) simp
qed

lemma marked_set_update:
  "i < length bs \<Longrightarrow> marked_set (bs[i := (bs ! i)\<lparr>gb_marked := True\<rparr>]) = insert i (marked_set bs)"
  by (auto simp: marked_set_def nth_list_update)

lemma extent_update:
  "map extent (bs[i := (bs ! i)\<lparr>gb_marked := b\<rparr>]) = map extent bs"
proof (cases "i < length bs")
  case True
  have "extent ((bs ! i)\<lparr>gb_marked := b\<rparr>) = map extent bs ! i" using True by (simp add: extent_def)
  then show ?thesis unfolding map_update by simp
qed (simp add: list_update_beyond)

lemma targets_single:
  assumes "extents_ok es" "i < length es" "covers (es ! i) p"
  shows "targets es {p} = {i}"
proof -
  have "j = i" if "j < length es" "covers (es ! j) p" for j
    using extents_ok_nth(3) [OF assms(1,2) that(1)] apart_covers [OF _ assms(3)] that(2) by blast
  then have "j < length es \<and> covers (es ! j) p \<longleftrightarrow> j = i" for j using assms(2,3) by blast
  then show ?thesis by (simp add: targets_def)
qed

text \<open>The stack has room: it holds distinct marked blocks, and the one to push is not marked yet.\<close>

lemma gc_mark_ptr_adds:
  assumes ok: "extents_ok es" and ix: "index_ok es index" and n: "n = length es"
  shows "adds es {p} st (gc_mark_ptr index n n p st)"
  unfolding adds_def
proof
  obtain bs stk where st: "st = (bs, stk)" by (cases st)
  assume "marks_ok es st"
  then have m: "map extent bs = es" "distinct stk" "set stk \<subseteq> marked_set bs"
    by (simp_all add: marks_ok_def st)
  have lb: "length bs = n" using m(1) n by (metis length_map)
  note find = gc_find_iff [OF m(1) ok ix, folded n, of p]
  let ?st = "gc_mark_ptr index n n p st"
  show "marks_ok es ?st \<and> marked_set (fst ?st) = marked_set (fst st) \<union> targets es {p} \<and>
     marked_set (fst ?st) - set (snd ?st) = marked_set (fst st) - set (snd st)"
  proof (cases "gc_find_indexed_block p bs index n")
    case None
    then have "targets es {p} = {}" using find n by (auto simp: targets_def)
    then show ?thesis using None m by (simp add: gc_mark_ptr_def st marks_ok_def)
  next
    case (Some i)
    then have i: "i < n" "covers (es ! i) p" using find by blast+
    have t: "targets es {p} = {i}" using targets_single [OF ok] i n by blast
    show ?thesis
    proof (cases "gb_marked (bs ! i)")
      case True
      then have "i \<in> marked_set bs" using i lb by (simp add: marked_set_def)
      then show ?thesis using True Some m t by (auto simp: gc_mark_ptr_def st marks_ok_def)
    next
      case False
      then have im: "i \<notin> marked_set bs" by (simp add: marked_set_def)
      have "card (set stk) < card {..<n}"
        using marked_set_bound(1) [OF m(1)] m(3) im i n by (intro psubset_card_mono) auto
      then have room: "length stk < n" using distinct_card [OF m(2)] by simp
      have e: "gc_mark_ptr index n n p (bs, stk) = (bs[i := (bs ! i)\<lparr>gb_marked := True\<rparr>], i # stk)"
        using False Some room by (simp add: gc_mark_ptr_def)
      show ?thesis
        using m im i lb t unfolding st e marks_ok_def
        by (auto simp: marked_set_update extent_update)
    qed
  qed
qed

lemma words_step:
  assumes "0 < n"
  shows "words mem a n = {read_word mem a} \<union> words mem (a + 8) (n - 8)"
proof -
  have w: "words mem a n = (\<lambda>k. read_word mem (a + 8 * k)) ` {k. 8 * k < n}" for a n
    by (auto simp: words_def)
  have "{k. 8 * k < n} = insert 0 (Suc ` {k. 8 * k < n - 8})"
  proof (intro equalityI subsetI)
    fix k assume "k \<in> {k. 8 * k < n}"
    then show "k \<in> insert 0 (Suc ` {k. 8 * k < n - 8})" by (cases k) auto
  qed (use assms in auto)
  then show ?thesis unfolding w by (simp add: image_image algebra_simps)
qed

lemma words_0 [simp]: "words mem a 0 = {}"
  by (simp add: words_def)

lemma scan_words_adds:
  assumes "extents_ok es" "index_ok es index" "n = length es"
  shows "adds es (words mem cur (stop - cur)) st (scan_words mem index n n cur stop st)"
proof (induction "stop - cur" arbitrary: cur st rule: less_induct)
  case less
  show ?case
  proof (cases "cur < stop")
    case True
    have "adds es ({read_word mem cur} \<union> words mem (cur + 8) (stop - (cur + 8))) st
        (scan_words mem index n n (cur + 8) stop (gc_mark_ptr index n n (read_word mem cur) st))"
      by (rule adds_trans [OF gc_mark_ptr_adds [OF assms]]) (use less True in auto)
    then show ?thesis
      using True words_step [of "stop - cur" mem cur]
      by (subst scan_words.simps) (simp add: diff_diff_left)
  next
    case False
    then show ?thesis by (subst scan_words.simps) (simp add: adds_refl)
  qed
qed

subsection \<open>The roots\<close>

definition region_words :: "(nat \<Rightarrow> nat) \<Rightarrow> nat \<Rightarrow> nat \<Rightarrow> nat set" where
  "region_words mem a n = (if a = 0 then {} else words mem a n)"

definition stack_words :: "(nat \<Rightarrow> nat) \<Rightarrow> nat \<Rightarrow> nat \<Rightarrow> nat set" where
  "stack_words mem base here =
     (if base = 0 \<or> max here base - min here base > 128 * 1024 * 1024 then {}
      else words mem (min here base) (max here base + 8 - min here base))"

definition roots_words :: "(nat \<Rightarrow> nat) \<Rightarrow> gc_root list \<Rightarrow> nat set" where
  "roots_words mem rs = (\<Union>r \<in> set rs. region_words mem (gr_addr r) (gr_size r))"

definition gc_root_words :: "nat \<Rightarrow> gc_state \<Rightarrow> nat set" where
  "gc_root_words here s =
     stack_words (gc_mem s) (gc_stack_base s) here \<union>
     (\<Union>f \<in> set (gc_frames s). roots_words (gc_mem s) (gf_roots f)) \<union>
     roots_words (gc_mem s) (gc_global_roots s) \<union> {exc_current s} \<union> {exc_last s}"

lemma gc_scan_region_adds:
  assumes "extents_ok es" "index_ok es index" "n = length es"
  shows "adds es (region_words mem a k) st (gc_scan_region mem index n n a k st)"
  using scan_words_adds [OF assms, of mem a "a + k" st]
  by (cases "k = 0") (auto simp: gc_scan_region_def region_words_def adds_refl)

lemma gc_scan_native_stack_adds:
  assumes "extents_ok es" "index_ok es index" "n = length es"
  shows "adds es (stack_words mem base here) st (gc_scan_native_stack mem index n n base here st)"
  using scan_words_adds [OF assms, of mem "min here base" "max here base + 8" st]
  by (auto simp: gc_scan_native_stack_def stack_words_def adds_refl max_def min_def)

lemma gc_scan_roots_adds:
  assumes "extents_ok es" "index_ok es index" "n = length es"
  shows "adds es (roots_words mem rs) st (gc_scan_roots mem index n n rs st)"
  unfolding gc_scan_roots_def roots_words_def
  by (rule adds_foldl) (rule gc_scan_region_adds [OF assms])

lemma gc_mark_ptr_guarded:
  assumes "extents_ok es" "index_ok es index" "n = length es"
  shows "adds es {p} st (if p \<noteq> 0 then gc_mark_ptr index n n p st else st)"
proof (cases "p = 0")
  case True
  have "targets es {0} = {}" using extents_ok_nth(1) [OF assms(1)] by (force simp: targets_def covers_def)
  then show ?thesis using True by (simp add: adds_def)
qed (use gc_mark_ptr_adds [OF assms] in simp)

lemma gc_mark_roots_adds:
  assumes "extents_ok es" "index_ok es index" "n = length es"
  shows "adds es (gc_root_words here s) (map (\<lambda>b. b\<lparr>gb_marked := False\<rparr>) (gc_blocks s), [])
           (gc_mark_roots index n here s)"
proof -
  define mem where "mem = gc_mem s"
  define st0 where "st0 = (map (\<lambda>b. b\<lparr>gb_marked := False\<rparr>) (gc_blocks s), [] :: nat list)"
  define st1 where "st1 = gc_scan_native_stack mem index n n (gc_stack_base s) here st0"
  define st2 where "st2 = foldl (\<lambda>st f. gc_scan_roots mem index n n (gf_roots f) st) st1 (gc_frames s)"
  define st3 where "st3 = gc_scan_roots mem index n n (gc_global_roots s) st2"
  define st4 where "st4 = (if exc_current s \<noteq> 0 then gc_mark_ptr index n n (exc_current s) st3 else st3)"
  define st5 where "st5 = (if exc_last s \<noteq> 0 then gc_mark_ptr index n n (exc_last s) st4 else st4)"
  have e: "gc_mark_roots index n here s = st5"
    by (simp only: gc_mark_roots_def Let_def st0_def st1_def st2_def st3_def st4_def st5_def mem_def)
  have "adds es (stack_words mem (gc_stack_base s) here) st0 st1"
    unfolding st1_def by (rule gc_scan_native_stack_adds [OF assms])
  moreover have "adds es (\<Union>f \<in> set (gc_frames s). roots_words mem (gf_roots f)) st1 st2"
    unfolding st2_def by (rule adds_foldl) (rule gc_scan_roots_adds [OF assms])
  moreover have "adds es (roots_words mem (gc_global_roots s)) st2 st3"
    unfolding st3_def by (rule gc_scan_roots_adds [OF assms])
  moreover have "adds es {exc_current s} st3 st4" "adds es {exc_last s} st4 st5"
    unfolding st4_def st5_def by (rule gc_mark_ptr_guarded [OF assms])+
  ultimately show ?thesis
    unfolding e st0_def [symmetric] gc_root_words_def mem_def [symmetric] by (meson adds_trans)
qed

subsection \<open>The traversal\<close>

definition out_words :: "(nat \<Rightarrow> nat) \<Rightarrow> nat \<times> nat \<Rightarrow> nat set" where
  "out_words mem e = words mem (fst e) (snd e)"

lemma out_words_region: "extents_ok es \<Longrightarrow> i < length es \<Longrightarrow>
    region_words mem (fst (es ! i)) (snd (es ! i)) = out_words mem (es ! i)"
  using extents_ok_nth(1) [of es i] by (simp add: region_words_def out_words_def)

text \<open>
  The blocks off the stack have had their words scanned. The traversal ends, its marks are closed
  under pointing, and every closed set that holds the first marks holds the last.
\<close>

lemma gc_traverse_closes:
  assumes ok: "extents_ok es" and ix: "index_ok es index" and n: "n = length es"
    and "marks_ok es st"
    and "\<forall>i \<in> marked_set (fst st) - set (snd st). targets es (out_words mem (es ! i)) \<subseteq> marked_set (fst st)"
  shows "\<exists>bs. gc_traverse mem index n n st = Some bs \<and> map extent bs = es \<and>
    marked_set (fst st) \<subseteq> marked_set bs \<and>
    (\<forall>i \<in> marked_set bs. targets es (out_words mem (es ! i)) \<subseteq> marked_set bs) \<and>
    (\<forall>R. marked_set (fst st) \<subseteq> R \<longrightarrow> (\<forall>i \<in> R. i < n \<longrightarrow> targets es (out_words mem (es ! i)) \<subseteq> R) \<longrightarrow>
       marked_set bs \<subseteq> R)"
  using assms(4,5)
proof (induction "n - card (marked_set (fst st) - set (snd st))" arbitrary: st rule: less_induct)
  case less
  obtain bs stk where st: "st = (bs, stk)" by (cases st)
  note m = less(2) [unfolded marks_ok_def st fst_conv snd_conv]
  note black = less(3) [unfolded st fst_conv snd_conv]
  show ?case
  proof (cases stk)
    case Nil
    then have "gc_traverse mem index n n st = Some bs" by (simp add: gc_traverse.simps st)
    then show ?thesis using m black Nil st by auto
  next
    case (Cons b stk')
    have b: "b \<in> marked_set bs" "b \<notin> set stk'" using m Cons by auto
    then have bn: "b < n" using marked_set_bound(1) m n by blast
    define st1 where "st1 = gc_scan_region mem index n n (gb_ptr (bs ! b)) (gb_size (bs ! b)) (bs, stk')"
    have e: "gb_ptr (bs ! b) = fst (es ! b)" "gb_size (bs ! b) = snd (es ! b)"
      using m b by (auto simp: extent_def marked_set_def)
    have run: "gc_traverse mem index n n st = gc_traverse mem index n n st1"
      by (subst gc_traverse.simps) (simp add: st Cons st1_def)
    have "adds es (out_words mem (es ! b)) (bs, stk') st1"
      using gc_scan_region_adds [OF ok ix n, of mem "fst (es ! b)" "snd (es ! b)" "(bs, stk')"]
        out_words_region [OF ok, of b] bn n by (simp add: st1_def e)
    moreover have "marks_ok es (bs, stk')" using m Cons by (simp add: marks_ok_def)
    ultimately have a: "marks_ok es st1"
      "marked_set (fst st1) = marked_set bs \<union> targets es (out_words mem (es ! b))"
      "marked_set (fst st1) - set (snd st1) = marked_set bs - set stk'"
      unfolding adds_def by auto
    have grow: "marked_set bs - set stk' = insert b (marked_set bs - set stk)"
      using b Cons by auto
    have fin: "finite (marked_set bs)" "marked_set bs \<subseteq> {..<n}"
      using marked_set_bound m n by blast+
    have "card (marked_set bs - set stk) < card (marked_set bs - set stk')"
      unfolding grow using fin Cons by (subst card_insert_disjoint) auto
    moreover have "card (marked_set bs - set stk') \<le> n"
      using card_mono [of "{..<n}" "marked_set bs - set stk'"] fin by auto
    ultimately have dec: "n - card (marked_set (fst st1) - set (snd st1)) < n - card (marked_set (fst st) - set (snd st))"
      unfolding a(3) st by simp
    have cl: "\<forall>i \<in> marked_set (fst st1) - set (snd st1). targets es (out_words mem (es ! i)) \<subseteq> marked_set (fst st1)"
      unfolding a(3) unfolding a(2) grow using black by blast
    obtain bs' where r: "gc_traverse mem index n n st1 = Some bs'" "map extent bs' = es"
      "marked_set (fst st1) \<subseteq> marked_set bs'"
      "\<forall>i \<in> marked_set bs'. targets es (out_words mem (es ! i)) \<subseteq> marked_set bs'"
      "\<And>R. marked_set (fst st1) \<subseteq> R \<Longrightarrow> (\<forall>i \<in> R. i < n \<longrightarrow> targets es (out_words mem (es ! i)) \<subseteq> R) \<Longrightarrow>
         marked_set bs' \<subseteq> R"
      using less(1) [OF dec a(1) cl] by blast
    have "marked_set bs' \<subseteq> R" if "marked_set bs \<subseteq> R"
      "\<forall>i \<in> R. i < n \<longrightarrow> targets es (out_words mem (es ! i)) \<subseteq> R" for R
      using r(5) [of R] that b(1) bn unfolding a(2) by blast
    moreover have "marked_set bs \<subseteq> marked_set bs'" using r(3) a(2) by blast
    ultimately show ?thesis using run r(1,2,4) st by auto
  qed
qed

subsection \<open>What a collection keeps\<close>

definition word_points :: "nat \<Rightarrow> gc_block \<Rightarrow> bool" where
  "word_points v b \<longleftrightarrow> covers (extent b) v"

text \<open>A block is live when a root word, or a word inside a live block, points into it.\<close>

inductive gc_live :: "(nat \<Rightarrow> nat) \<Rightarrow> nat set \<Rightarrow> gc_block list \<Rightarrow> gc_block \<Rightarrow> bool"
  for mem W bs where
  root: "b \<in> set bs \<Longrightarrow> v \<in> W \<Longrightarrow> word_points v b \<Longrightarrow> gc_live mem W bs b"
| edge: "gc_live mem W bs a \<Longrightarrow> b \<in> set bs \<Longrightarrow> v \<in> out_words mem (extent a) \<Longrightarrow>
    word_points v b \<Longrightarrow> gc_live mem W bs b"

inductive_cases gc_liveE: "gc_live mem W bs b"

lemma gc_live_member: "gc_live mem W bs b \<Longrightarrow> b \<in> set bs"
  by (auto elim: gc_liveE)

lemma targets_map:
  "targets (map extent bs) W = {i. i < length bs \<and> (\<exists>v \<in> W. word_points v (bs ! i))}"
  by (auto simp: targets_def word_points_def)

lemma closed_is_live:
  assumes i: "i < length bs" and sub: "targets (map extent bs) W \<subseteq> S"
    and cl: "\<forall>i \<in> S. targets (map extent bs) (out_words mem (map extent bs ! i)) \<subseteq> S"
    and least: "\<And>R. targets (map extent bs) W \<subseteq> R \<Longrightarrow>
      \<forall>i \<in> R. i < length bs \<longrightarrow> targets (map extent bs) (out_words mem (map extent bs ! i)) \<subseteq> R \<Longrightarrow> S \<subseteq> R"
  shows "i \<in> S \<longleftrightarrow> gc_live mem W bs (bs ! i)"
proof
  define R where "R = {i. i < length bs \<and> gc_live mem W bs (bs ! i)}"
  have "S \<subseteq> R"
  proof (rule least)
    show "targets (map extent bs) W \<subseteq> R"
      unfolding targets_map R_def by (auto intro: gc_live.root)
    show "\<forall>i \<in> R. i < length bs \<longrightarrow> targets (map extent bs) (out_words mem (map extent bs ! i)) \<subseteq> R"
    proof (intro ballI impI subsetI)
      fix i j assume ij: "i \<in> R" "i < length bs" "j \<in> targets (map extent bs) (out_words mem (map extent bs ! i))"
      then obtain v where "v \<in> out_words mem (extent (bs ! i))" "word_points v (bs ! j)" "j < length bs"
        by (auto simp: targets_map)
      then show "j \<in> R" using gc_live.edge [of mem W bs "bs ! i" "bs ! j" v] ij by (simp add: R_def)
    qed
  qed
  then show "i \<in> S \<Longrightarrow> gc_live mem W bs (bs ! i)" by (auto simp: R_def)
next
  have "gc_live mem W bs b \<Longrightarrow> \<forall>i < length bs. bs ! i = b \<longrightarrow> i \<in> S" for b
  proof (induction rule: gc_live.induct)
    case (root b v)
    then show ?case using sub by (auto simp: targets_map)
  next
    case (edge a b v)
    obtain j where j: "j < length bs" "bs ! j = a"
      using gc_live_member [OF edge(1)] by (auto simp: in_set_conv_nth)
    then have "targets (map extent bs) (out_words mem (extent a)) \<subseteq> S" using edge.IH cl by force
    then show ?case using edge(3,4) by (auto simp: targets_map)
  qed
  then show "gc_live mem W bs (bs ! i) \<Longrightarrow> i \<in> S" using i by blast
qed

lemma gc_sweep_filters:
  "t < 2 ^ 64 \<Longrightarrow> gc_sweep bs t =
     (filter gb_marked bs, (t + sum_list (map gb_size (filter gb_marked bs))) mod 2 ^ 64,
      map gb_ptr (filter (\<lambda>b. \<not> gb_marked b) bs))"
  by (induction bs arbitrary: t) (simp_all add: mod_add_left_eq add.assoc)

lemma filter_by_position:
  assumes "map extent bs' = map extent bs" "\<And>i. i < length bs \<Longrightarrow> gb_marked (bs' ! i) \<longleftrightarrow> P (bs ! i)"
  shows "map extent (filter gb_marked bs') = map extent (filter P bs)"
    "map extent (filter (\<lambda>b. \<not> gb_marked b) bs') = map extent (filter (\<lambda>b. \<not> P b) bs)"
proof -
  have l: "length bs' = length bs" using assms(1) by (metis length_map)
  have "list_all2 (\<lambda>b' b. extent b' = extent b \<and> (gb_marked b' \<longleftrightarrow> P b)) bs' bs"
    using assms l by (auto simp: list_all2_conv_all_nth) (metis nth_map)
  then show "map extent (filter gb_marked bs') = map extent (filter P bs)"
    "map extent (filter (\<lambda>b. \<not> gb_marked b) bs') = map extent (filter (\<lambda>b. \<not> P b) bs)"
    by (induction rule: list_all2_induct) auto
qed

lemma sizes_of_extents: "map extent bs = map extent cs \<Longrightarrow> map gb_size bs = map gb_size cs"
  "map extent bs = map extent cs \<Longrightarrow> map gb_ptr bs = map gb_ptr cs"
  by (auto simp: extent_def list_eq_iff_nth_eq)

definition keeps_rest :: "gc_state \<Rightarrow> gc_state \<Rightarrow> bool" where
  "keeps_rest s s' \<longleftrightarrow> s' = s\<lparr>gc_blocks := gc_blocks s', gc_bytes := gc_bytes s',
     gc_threshold := gc_threshold s', gc_collecting := False\<rparr>"

lemma gc_collect_run:
  assumes "extents_ok (map extent (gc_blocks s))" "async_live_tasks s = 0" "\<not> gc_collecting s"
    and "gc_blocks s \<noteq> []" "alloc_ok m (8 * length (gc_blocks s))"
  shows "\<exists>s' freed. gc_collect m here s = Some (s', freed) \<and>
    map extent (gc_blocks s') =
      map extent (filter (gc_live (gc_mem s) (gc_root_words here s) (gc_blocks s)) (gc_blocks s)) \<and>
    freed = map gb_ptr
      (filter (\<lambda>b. \<not> gc_live (gc_mem s) (gc_root_words here s) (gc_blocks s) b) (gc_blocks s)) \<and>
    gc_bytes s' = sum_list (map gb_size (gc_blocks s')) mod 2 ^ 64 \<and> keeps_rest s s'"
proof -
  define es where "es = map extent (gc_blocks s)"
  define n where "n = length (gc_blocks s)"
  define index where "index = gc_index_sort (gc_blocks s) [0..<n] n"
  define W where "W = gc_root_words here s"
  define live where "live = gc_live (gc_mem s) W (gc_blocks s)"
  define st where "st = gc_mark_roots index n here s"
  have n: "n = length es" "n \<noteq> 0" using assms(4) by (simp_all add: n_def es_def)
  have ix: "index_ok es index" unfolding index_def es_def n_def by (rule gc_index_sort_ok)
  have ok: "extents_ok es" using assms(1) es_def by simp
  let ?st0 = "(map (\<lambda>b. b\<lparr>gb_marked := False\<rparr>) (gc_blocks s), [])"
  have "marks_ok es ?st0" by (simp add: marks_ok_def es_def extent_def comp_def)
  moreover have "marked_set (fst ?st0) = {}" by (auto simp: marked_set_def)
  ultimately have mk: "marks_ok es st" "marked_set (fst st) = targets es W"
    "marked_set (fst st) - set (snd st) = {}"
    using gc_mark_roots_adds [OF ok ix n(1), of here s] unfolding adds_def st_def W_def by auto
  obtain bs where bs: "gc_traverse (gc_mem s) index n n st = Some bs" "map extent bs = es"
    "marked_set (fst st) \<subseteq> marked_set bs"
    "\<forall>i \<in> marked_set bs. targets es (out_words (gc_mem s) (es ! i)) \<subseteq> marked_set bs"
    "\<And>R. marked_set (fst st) \<subseteq> R \<Longrightarrow> (\<forall>i \<in> R. i < n \<longrightarrow> targets es (out_words (gc_mem s) (es ! i)) \<subseteq> R) \<Longrightarrow>
       marked_set bs \<subseteq> R"
    using gc_traverse_closes [OF ok ix n(1) mk(1), of "gc_mem s"] mk(3) by auto
  have lb: "length bs = n" using bs(2) n by (metis length_map)
  have "gb_marked (bs ! i) \<longleftrightarrow> live (gc_blocks s ! i)" if "i < n" for i
    using closed_is_live [of i "gc_blocks s" W "marked_set bs" "gc_mem s"] that bs(3-5) mk(2) lb
    unfolding live_def es_def n_def by (simp add: marked_set_def)
  then have fl: "map extent (filter gb_marked bs) = map extent (filter live (gc_blocks s))"
    "map extent (filter (\<lambda>b. \<not> gb_marked b) bs) = map extent (filter (\<lambda>b. \<not> live b) (gc_blocks s))"
    using filter_by_position [of bs "gc_blocks s" live] bs(2) by (simp_all add: es_def n_def)
  have run: "gc_collect m here s = (case gc_sweep bs 0 of (kept, live_bytes, freed) \<Rightarrow>
       (let limit = (live_bytes * 2) mod 2 ^ 64;
            limit = (if limit < 8 * 1024 * 1024 then 8 * 1024 * 1024 else limit)
        in Some (s\<lparr>gc_blocks := kept, gc_bytes := live_bytes, gc_threshold := limit,
                  gc_collecting := False\<rparr>, freed)))"
    using assms(2,3,5) n(2) bs(1)
    by (simp add: gc_collect_def n_def [symmetric] index_def [symmetric] st_def [symmetric] Let_def)
  show ?thesis
    unfolding run gc_sweep_filters [of 0 bs, simplified] live_def [symmetric] W_def [symmetric]
    using fl sizes_of_extents(2) [OF fl(2)] by (simp add: Let_def keeps_rest_def)
qed

text \<open>C27: A collection that runs keeps exactly the live blocks, in order and unmoved, frees the
  address of every other block once, leaves memory, frames and roots alone, and recounts the bytes
  in use; it always ends. It runs when no task is live, no collection is under way, there is a block
  and the index can be allocated.\<close>

theorem gc_collect_exact:
  assumes "extents_ok (map extent (gc_blocks s))" "async_live_tasks s = 0" "\<not> gc_collecting s"
    and "gc_blocks s \<noteq> []" "alloc_ok m (8 * length (gc_blocks s))"
  shows "\<exists>s' freed. gc_collect m here s = Some (s', freed) \<and>
    map extent (gc_blocks s') =
      map extent (filter (gc_live (gc_mem s) (gc_root_words here s) (gc_blocks s)) (gc_blocks s)) \<and>
    freed = map gb_ptr
      (filter (\<lambda>b. \<not> gc_live (gc_mem s) (gc_root_words here s) (gc_blocks s) b) (gc_blocks s)) \<and>
    gc_bytes s' = sum_list (map gb_size (gc_blocks s')) mod 2 ^ 64 \<and> keeps_rest s s'"
  using assms by (rule gc_collect_run)

text \<open>
  A heap of three blocks: a global root holds the address of the first, the first holds an address
  inside the second, and nothing points into the third.
\<close>

definition demo_heap :: gc_state where
  "demo_heap = \<lparr>gc_blocks = [\<lparr>gb_ptr = 100, gb_size = 8, gb_marked = True\<rparr>,
       \<lparr>gb_ptr = 200, gb_size = 16, gb_marked = False\<rparr>, \<lparr>gb_ptr = 64, gb_size = 5, gb_marked = True\<rparr>],
     gc_frames = [], gc_stack_base = 0, gc_global_roots = [\<lparr>gr_addr = 32, gr_size = 8\<rparr>],
     gc_global_cap = 16, gc_bytes = 29, gc_threshold = 8 * 1024 * 1024, gc_collecting = False,
     async_live_tasks = 0, exc_current = 0, exc_last = 0,
     gc_mem = (\<lambda>x. if x = 32 then 100 else if x = 100 then 204 else 0)\<rparr>"

lemma words_eight: "words mem a 8 = {read_word mem a}"
  by (auto simp: words_def)

lemma demo_live:
  "gc_live (gc_mem demo_heap) (gc_root_words 0 demo_heap) (gc_blocks demo_heap) b \<longleftrightarrow>
     b \<in> set (gc_blocks demo_heap) \<and> gb_ptr b \<noteq> 64"
  (is "?live b \<longleftrightarrow> _")
proof
  have w: "gc_root_words 0 demo_heap = {0, 100}"
    by (auto simp: gc_root_words_def stack_words_def roots_words_def region_words_def words_eight
        read_word_def demo_heap_def upt_rec)
  have o: "out_words (gc_mem demo_heap) (100, 8) = {204}"
    by (simp add: out_words_def words_eight read_word_def demo_heap_def upt_rec)
  have z: "read_word (gc_mem demo_heap) a = 0" if "a \<ge> 200" for a
    using that by (simp add: read_word_def demo_heap_def upt_rec)
  have "?live b \<Longrightarrow> b \<in> set (gc_blocks demo_heap) \<and> gb_ptr b \<noteq> 64"
  proof (induction rule: gc_live.induct)
    case (root b v)
    then show ?case unfolding w by (auto simp: demo_heap_def word_points_def covers_def extent_def)
  next
    case (edge a b v)
    have "a = \<lparr>gb_ptr = 100, gb_size = 8, gb_marked = True\<rparr> \<or>
        a = \<lparr>gb_ptr = 200, gb_size = 16, gb_marked = False\<rparr>"
      using edge.IH by (auto simp: demo_heap_def)
    then have "v = 204 \<or> v = 0"
      using edge(3) o z by (auto simp: extent_def out_words_def words_def)
    then show ?case using edge(2,4) by (auto simp: demo_heap_def word_points_def covers_def extent_def)
  qed
  then show "?live b \<Longrightarrow> b \<in> set (gc_blocks demo_heap) \<and> gb_ptr b \<noteq> 64" .
  let ?a = "\<lparr>gb_ptr = 100, gb_size = 8, gb_marked = True\<rparr>"
  have a: "?live ?a"
    by (rule gc_live.root [of _ _ 100]) (auto simp: w, auto simp: demo_heap_def word_points_def covers_def extent_def)
  have "?live \<lparr>gb_ptr = 200, gb_size = 16, gb_marked = False\<rparr>"
    by (rule gc_live.edge [OF a, of _ 204])
      (use o in \<open>auto simp: extent_def\<close>, auto simp: demo_heap_def word_points_def covers_def extent_def)
  with a show "b \<in> set (gc_blocks demo_heap) \<and> gb_ptr b \<noteq> 64 \<Longrightarrow> ?live b"
    by (auto simp: demo_heap_def)
qed

theorem gc_collect_exact_witness:
  "\<exists>s'. gc_collect big_mem 0 demo_heap = Some (s', [64]) \<and>
     map extent (gc_blocks s') = [(100, 8), (200, 16)] \<and> gc_bytes s' = 24"
proof -
  have h: "extents_ok (map extent (gc_blocks demo_heap))" "async_live_tasks demo_heap = 0"
    "\<not> gc_collecting demo_heap" "gc_blocks demo_heap \<noteq> []"
    "alloc_ok big_mem (8 * length (gc_blocks demo_heap))"
    by (simp_all add: demo_heap_def extents_ok_def extent_def apart_def)
  show ?thesis using gc_collect_exact [OF h, of 0]
    unfolding demo_live
    by (auto simp: demo_heap_def extent_def) 
qed

subsection \<open>Allocation\<close>

definition gc_inv :: "gc_state \<Rightarrow> bool" where
  "gc_inv s \<longleftrightarrow> extents_ok (map extent (gc_blocks s)) \<and>
     gc_bytes s = sum_list (map gb_size (gc_blocks s)) mod 2 ^ 64"

text \<open>The allocator returns no null address as success and no memory still in use.\<close>

definition alloc_fresh :: "(gc_state \<Rightarrow> nat \<Rightarrow> nat option) \<Rightarrow> bool" where
  "alloc_fresh alloc \<longleftrightarrow>
     (\<forall>s n p. alloc s n = Some p \<longrightarrow> 0 < p \<and> (\<forall>b \<in> set (gc_blocks s). apart (p, n) (extent b)))"

definition survives :: "gc_state \<Rightarrow> gc_state \<Rightarrow> gc_block \<Rightarrow> bool" where
  "survives s s' b \<longleftrightarrow> (\<exists>b' \<in> set (gc_blocks s'). extent b' = extent b) \<and>
     (\<forall>x. covers (extent b) x \<longrightarrow> gc_mem s' x = gc_mem s x)"

lemma gc_collect_keeps:
  assumes "gc_inv s"
  shows "\<exists>s' freed. gc_collect m here s = Some (s', freed) \<and> gc_inv s' \<and> gc_mem s' = gc_mem s \<and>
    (\<forall>b. gc_live (gc_mem s) (gc_root_words here s) (gc_blocks s) b \<longrightarrow>
      (\<exists>b' \<in> set (gc_blocks s'). extent b' = extent b))"
proof (cases "async_live_tasks s = 0 \<and> \<not> gc_collecting s \<and> gc_blocks s \<noteq> [] \<and>
    alloc_ok m (8 * length (gc_blocks s))")
  case True
  have ok: "extents_ok (map extent (gc_blocks s))" using assms by (simp add: gc_inv_def)
  obtain s' freed where r: "gc_collect m here s = Some (s', freed)"
    "map extent (gc_blocks s') =
       map extent (filter (gc_live (gc_mem s) (gc_root_words here s) (gc_blocks s)) (gc_blocks s))"
    "gc_bytes s' = sum_list (map gb_size (gc_blocks s')) mod 2 ^ 64" "keeps_rest s s'"
    using gc_collect_run [OF ok] True by blast
  have "gc_mem s' = gc_mem s" using arg_cong [OF r(4) [unfolded keeps_rest_def], of gc_mem] by simp
  moreover have "gc_inv s'" unfolding gc_inv_def using r(2,3) extents_ok_filter [OF ok] by simp
  moreover have "\<exists>b' \<in> set (gc_blocks s'). extent b' = extent b"
    if "gc_live (gc_mem s) (gc_root_words here s) (gc_blocks s) b" for b
  proof -
    have "extent b \<in> set (map extent (gc_blocks s'))"
      unfolding r(2) using that gc_live_member [OF that] by simp
    then show ?thesis by force
  qed
  ultimately show ?thesis using r(1) by blast
next
  case False
  then have "gc_collect m here s \<in> {Some (s, []), Some (s\<lparr>gc_collecting := False\<rparr>, [])}"
    by (auto simp: gc_collect_def Let_def)
  then obtain s' where s': "gc_collect m here s = Some (s', [])" "gc_blocks s' = gc_blocks s"
    "gc_bytes s' = gc_bytes s" "gc_mem s' = gc_mem s" by auto
  have "\<exists>b' \<in> set (gc_blocks s'). extent b' = extent b"
    if "gc_live (gc_mem s) (gc_root_words here s) (gc_blocks s) b" for b
    using gc_live_member [OF that] s'(2) by auto
  moreover have "gc_inv s'" using assms s'(2,3) by (simp add: gc_inv_def)
  ultimately show ?thesis using s'(1,4) by blast
qed

text \<open>C28: An allocation always returns, keeps the blocks disjoint and the byte count true, and even
  when it collects first, every block that was live still has its place and its contents. The
  memory handed out is zeroed, and recorded as a block when its header could be allocated.\<close>

theorem gc_alloc_safe:
  assumes inv: "gc_inv s" and fresh: "alloc_fresh alloc"
  shows "\<exists>r s' freed. gc_alloc m here alloc meta n s = Some (r, s', freed) \<and> gc_inv s' \<and>
    (\<forall>b. gc_live (gc_mem s) (gc_root_words here (gc_note_base here s)) (gc_blocks s) b \<longrightarrow> survives s s' b) \<and>
    (\<forall>p. r = Some p \<longrightarrow> (\<forall>x. p \<le> x \<and> x < p + max 1 n \<longrightarrow> gc_mem s' x = 0) \<and>
       (meta \<longrightarrow> (\<exists>b \<in> set (gc_blocks s'). extent b = (p, max 1 n))))"
proof -
  define s0 where "s0 = gc_note_base here s"
  define sz where "sz = (if n = 0 then 1 else n)"
  have sz: "sz = max 1 n" "0 < sz" by (auto simp: sz_def)
  have s0: "gc_inv s0" "gc_mem s0 = gc_mem s" "gc_blocks s0 = gc_blocks s"
    using inv by (simp_all add: s0_def gc_note_base_def gc_inv_def)
  let ?live = "gc_live (gc_mem s) (gc_root_words here s0) (gc_blocks s)"
  define c where "c = (if \<not> gc_collecting s0 \<and> async_live_tasks s0 = 0 \<and> gc_bytes s0 > gc_threshold s0
               then gc_collect m here s0 else Some (s0, []))"
  obtain s1 freed where c: "c = Some (s1, freed)" "gc_inv s1" "gc_mem s1 = gc_mem s"
    "\<And>b. ?live b \<Longrightarrow> \<exists>b' \<in> set (gc_blocks s1). extent b' = extent b"
    using gc_collect_keeps [OF s0(1), of m here] s0 gc_live_member [of "gc_mem s"]
    by (cases "\<not> gc_collecting s0 \<and> async_live_tasks s0 = 0 \<and> gc_bytes s0 > gc_threshold s0")
      (auto simp: c_def)
  have run: "gc_alloc m here alloc meta n s = (case alloc s1 sz of
       None \<Rightarrow> Some (None, s1, freed)
     | Some p \<Rightarrow>
         (let s = s1\<lparr>gc_mem := fill_zero (gc_mem s1) p sz\<rparr>
          in if \<not> meta then Some (Some p, s, freed)
             else Some (Some p,
                    s\<lparr>gc_blocks := \<lparr>gb_ptr = p, gb_size = sz, gb_marked = False\<rparr> # gc_blocks s,
                      gc_bytes := (gc_bytes s + sz) mod 2 ^ 64\<rparr>, freed)))"
    using c(1) by (simp add: gc_alloc_def Let_def s0_def [symmetric] sz_def [symmetric] c_def [symmetric])
  show ?thesis
  proof (cases "alloc s1 sz")
    case None
    then show ?thesis unfolding run s0_def [symmetric] using c by (auto simp: survives_def)
  next
    case (Some p)
    have p: "0 < p" "\<And>b. b \<in> set (gc_blocks s1) \<Longrightarrow> apart (p, sz) (extent b)"
      using fresh Some by (auto simp: alloc_fresh_def)
    have kept: "fill_zero (gc_mem s) p sz x = gc_mem s x" if b: "?live b" and x: "covers (extent b) x" for b x
    proof -
      obtain b' where "b' \<in> set (gc_blocks s1)" "extent b' = extent b" using c(4) [OF b] by blast
      then have "apart (p, sz) (extent b)" using p(2) by metis
      then show ?thesis using x by (auto simp: apart_def covers_def fill_zero_def)
    qed
    have inv': "gc_inv (s1\<lparr>gc_mem := mem\<rparr>)"
      "gc_inv (s1\<lparr>gc_mem := mem, gc_blocks := \<lparr>gb_ptr = p, gb_size = sz, gb_marked = False\<rparr> # gc_blocks s1,
                  gc_bytes := (gc_bytes s1 + sz) mod 2 ^ 64\<rparr>)" for mem
      using c(2) p sz(2) by (simp_all add: gc_inv_def extents_ok_def extent_def mod_simps ac_simps)
    show ?thesis
    proof (cases meta)
      case True
      show ?thesis unfolding run s0_def [symmetric] using Some True inv' c(3) kept c(4) sz(1)
        by (auto simp: survives_def fill_zero_def Let_def extent_def)
    next
      case False
      show ?thesis unfolding run s0_def [symmetric] using Some False inv' c(3) kept c(4) sz(1)
        by (auto simp: survives_def fill_zero_def Let_def)
    qed
  qed
qed

definition demo_alloc :: "gc_state \<Rightarrow> nat \<Rightarrow> nat option" where
  "demo_alloc s n = Some (1 + sum_list (map (\<lambda>b. gb_ptr b + gb_size b) (gc_blocks s)))"

lemma demo_alloc_fresh: "alloc_fresh demo_alloc"
proof -
  have "gb_ptr b + gb_size b \<le> sum_list (map (\<lambda>b. gb_ptr b + gb_size b) bs)" if "b \<in> set bs" for b bs
    using that by (induction bs) auto
  then show ?thesis by (force simp: alloc_fresh_def demo_alloc_def apart_def extent_def)
qed

theorem gc_alloc_safe_witness:
  "\<exists>r s' freed. gc_alloc big_mem 8 demo_alloc True 0 (demo_heap\<lparr>gc_threshold := 10\<rparr>) = Some (r, s', freed) \<and>
     gc_inv s' \<and> (\<forall>p. r = Some p \<longrightarrow> gc_mem s' p = 0 \<and> (p, 1) \<in> extent ` set (gc_blocks s'))"
proof -
  have "gc_inv (demo_heap\<lparr>gc_threshold := 10\<rparr>)"
    by (simp add: gc_inv_def demo_heap_def extents_ok_def extent_def apart_def)
  from gc_alloc_safe [OF this demo_alloc_fresh, of big_mem 8 True 0] show ?thesis
    by (force simp: image_iff)
qed

text \<open>
  The scan of a block whose size is no multiple of eight reads past its end: for the block of five
  bytes at 64, a change of the byte at 69 changes what is marked.
\<close>

lemma gc_scan_reads_past_block:
  fixes mem :: "nat \<Rightarrow> nat"
  defines "mem \<equiv> \<lambda>x. if x = 64 then 100 else 0"
  shows "map gb_marked (fst (gc_scan_region mem [0] 1 1 64 5 ([\<lparr>gb_ptr = 100, gb_size = 8, gb_marked = False\<rparr>], [])))
       \<noteq> map gb_marked (fst (gc_scan_region (mem(64 + 5 := 1)) [0] 1 1 64 5
            ([\<lparr>gb_ptr = 100, gb_size = 8, gb_marked = False\<rparr>], [])))"
  by (simp add: mem_def gc_scan_region_def scan_words.simps gc_mark_ptr_def gc_find_indexed_block_def
      upper_bound.simps read_word_def upt_rec Let_def)

end
