(* ===== verification/RtPath.thy ===== *)
theory RtPath
  imports RtText
begin

text \<open>
  The path operations of \<open>libs/runtime/src/kn_runtime.c\<close> (\<open>__kn_path_*\<close>, \<open>rt_path_root_len\<close>,
  \<open>rt_norm_path_alloc\<close>), for both targets. Both separators count on both; the one written is the
  target's. Normalisation keeps the output written so far and, newest first, the output position
  each segment starts at, as the code's two buffers do; its specification resolves the list of
  segments on a stack.
\<close>

subsection \<open>Joining and taking apart\<close>

definition is_path_sep :: "char \<Rightarrow> bool" where
  "is_path_sep c \<longleftrightarrow> c = CHR 0x5C \<or> c = CHR ''/''"

definition path_combine :: "platform \<Rightarrow> amem \<Rightarrow> cstr \<Rightarrow> cstr \<Rightarrow> cstr" where
  "path_combine pl m a b =
     (if a = None \<or> a = Some [] then rt_strdup_gc m (if b = None then Some [] else b)
      else if b = None \<or> b = Some [] then rt_strdup_gc m a
      else (let need_sep = \<not> is_path_sep (last (str a));
                n = rt_strlen a + rt_strlen b + (if need_sep then 2 else 1)
            in if alloc_ok m n
               then Some (str a @ (if need_sep then [path_sep pl] else []) @ str b)
               else Some []))"

definition path_join3 :: "platform \<Rightarrow> amem \<Rightarrow> cstr \<Rightarrow> cstr \<Rightarrow> cstr \<Rightarrow> cstr" where
  "path_join3 pl m a b c = path_combine pl m (path_combine pl m a b) c"

definition path_join4 :: "platform \<Rightarrow> amem \<Rightarrow> cstr \<Rightarrow> cstr \<Rightarrow> cstr \<Rightarrow> cstr \<Rightarrow> cstr" where
  "path_join4 pl m a b c d = path_combine pl m (path_join3 pl m a b c) d"

text \<open>The forward scans of the code: the index a loop over the bytes ends with.\<close>

definition after_last_sep :: "char list \<Rightarrow> nat" where
  "after_last_sep s = foldl (\<lambda>start i. if is_path_sep (s ! i) then i + 1 else start) 0 [0..<length s]"

definition last_sep :: "char list \<Rightarrow> int" where
  "last_sep s = foldl (\<lambda>cut i. if is_path_sep (s ! i) then int i else cut) (-1) [0..<length s]"

definition last_dot :: "char list \<Rightarrow> int" where
  "last_dot s = foldl (\<lambda>dot i. if is_path_sep (s ! i) then -1
     else if s ! i = CHR ''.'' then int i else dot) (-1) [0..<length s]"

definition name_dot :: "char list \<Rightarrow> int" where
  "name_dot s = foldl (\<lambda>dot i. if s ! i = CHR ''.'' then int i else dot) (-1) [0..<length s]"

definition path_file_name :: "amem \<Rightarrow> cstr \<Rightarrow> cstr" where
  "path_file_name m p =
     (case p of None \<Rightarrow> Some []
      | Some s \<Rightarrow> (let n = length s; start = after_last_sep s
                   in rt_slice_gc m p start (n - start)))"

definition path_extension :: "amem \<Rightarrow> cstr \<Rightarrow> cstr" where
  "path_extension m p =
     (case p of None \<Rightarrow> Some []
      | Some s \<Rightarrow> (let n = length s; dot = last_dot s
                   in if dot < 0 \<or> nat dot + 1 \<ge> n then Some []
                      else rt_slice_gc m p (nat dot + 1) (n - nat dot - 1)))"

definition path_directory :: "amem \<Rightarrow> cstr \<Rightarrow> cstr" where
  "path_directory m p =
     (case p of None \<Rightarrow> Some []
      | Some s \<Rightarrow> (let cut = last_sep s
                   in if cut < 0 then Some [] else rt_slice_gc m p 0 (nat cut)))"

definition path_change_extension :: "amem \<Rightarrow> cstr \<Rightarrow> cstr \<Rightarrow> cstr" where
  "path_change_extension m p ext =
     (case p of None \<Rightarrow> Some []
      | Some s \<Rightarrow>
          (let e = str ext; n = length s; dot = last_dot s;
               base = (if dot < 0 then n else nat dot);
               has_ext = e \<noteq> [];
               add_dot = has_ext \<and> hd e \<noteq> CHR ''.'';
               out_len = base + (if has_ext then (if add_dot then 1 else 0) + length e else 0)
           in if alloc_ok m (out_len + 1)
              then Some (take base s @
                     (if has_ext then (if add_dot then [CHR ''.''] else []) @ e else []))
              else Some []))"

definition path_base_name :: "amem \<Rightarrow> cstr \<Rightarrow> cstr" where
  "path_base_name m p =
     (let name = path_file_name m p; dot = name_dot (str name)
      in if dot \<le> 0 then rt_strdup_gc m name else rt_slice_gc m name 0 (nat dot))"

subsection \<open>Roots\<close>

definition drive_letter :: "char \<Rightarrow> bool" where
  "drive_letter c \<longleftrightarrow> 65 \<le> byte_of c \<and> byte_of c \<le> 90 \<or> 97 \<le> byte_of c \<and> byte_of c \<le> 122"

text \<open>The byte at an index, the terminator past the end.\<close>

definition byte_at :: "char list \<Rightarrow> nat \<Rightarrow> char" where
  "byte_at s i = (if i < length s then s ! i else CHR 0x00)"

definition path_is_absolute :: "platform \<Rightarrow> cstr \<Rightarrow> bool" where
  "path_is_absolute pl p =
     (case p of None \<Rightarrow> False
      | Some s \<Rightarrow>
          if s = [] then False
          else (case pl of
                  Posix \<Rightarrow> s ! 0 = CHR ''/''
                | Windows \<Rightarrow>
                    s ! 0 = CHR 0x5C \<and> byte_at s 1 = CHR 0x5C \<or>
                    s ! 0 = CHR ''/'' \<and> byte_at s 1 = CHR ''/'' \<or>
                    drive_letter (s ! 0) \<and> byte_at s 1 = CHR '':'' \<and> is_path_sep (byte_at s 2)))"

text \<open>The length of the first two components of a network path, from index 2.\<close>

fun unc_skip :: "nat \<Rightarrow> char list \<Rightarrow> nat \<Rightarrow> nat" where
  "unc_skip 0 rest i = i"
| "unc_skip (Suc parts) rest i =
     (if rest = [] then i
      else (let r = dropWhile is_path_sep rest; name = takeWhile (\<lambda>c. \<not> is_path_sep c) r
            in unc_skip parts (drop (length name) r) (i + (length rest - length r) + length name)))"

definition path_root_len :: "platform \<Rightarrow> cstr \<Rightarrow> nat" where
  "path_root_len pl p =
     (case p of None \<Rightarrow> 0
      | Some s \<Rightarrow>
          if s = [] then 0
          else (case pl of
                  Posix \<Rightarrow> if s ! 0 = CHR ''/'' then 1 else 0
                | Windows \<Rightarrow>
                    if drive_letter (s ! 0) \<and> byte_at s 1 = CHR '':'' \<and> is_path_sep (byte_at s 2)
                    then 3
                    else if is_path_sep (s ! 0) \<and> is_path_sep (byte_at s 1)
                    then unc_skip 2 (drop 2 s) 2
                    else if is_path_sep (s ! 0) then 1 else 0))"

subsection \<open>Normalisation\<close>

record norm_root =
  nr_out :: "char list"
  nr_rest :: "char list"
  nr_absolute :: bool
  nr_drive_relative :: bool
  nr_unc :: bool

definition norm_root_of :: "platform \<Rightarrow> char list \<Rightarrow> norm_root" where
  "norm_root_of pl p =
     (let sep = path_sep pl; n = length p
      in if pl = Windows \<and> n \<ge> 2 \<and> drive_letter (p ! 0) \<and> p ! 1 = CHR '':'' then
           (if 2 < n \<and> is_path_sep (p ! 2)
            then \<lparr>nr_out = [p ! 0, CHR '':'', sep], nr_rest = dropWhile is_path_sep (drop 2 p),
                  nr_absolute = True, nr_drive_relative = False, nr_unc = False\<rparr>
            else \<lparr>nr_out = [p ! 0, CHR '':''], nr_rest = drop 2 p,
                  nr_absolute = False, nr_drive_relative = True, nr_unc = False\<rparr>)
         else if pl = Windows \<and> n \<ge> 2 \<and> is_path_sep (p ! 0) \<and> is_path_sep (p ! 1) then
           \<lparr>nr_out = [sep, sep], nr_rest = dropWhile is_path_sep (drop 2 p),
            nr_absolute = True, nr_drive_relative = False, nr_unc = True\<rparr>
         else if n > 0 \<and> is_path_sep (p ! 0) then
           \<lparr>nr_out = [sep], nr_rest = dropWhile is_path_sep (drop 1 p),
            nr_absolute = True, nr_drive_relative = False, nr_unc = False\<rparr>
         else \<lparr>nr_out = [], nr_rest = p,
               nr_absolute = False, nr_drive_relative = False, nr_unc = False\<rparr>)"

record norm_state =
  ns_out :: "char list"
  ns_starts :: "nat list"
  ns_protected :: nat

definition norm_append :: "char \<Rightarrow> norm_root \<Rightarrow> char list \<Rightarrow> norm_state \<Rightarrow> norm_state" where
  "norm_append sep r seg st =
     (let out = ns_out st; w = length out;
          out' = (if w > 0 \<and> out ! (w - 1) \<noteq> sep \<and> \<not> (nr_drive_relative r \<and> w = 2)
                  then out @ [sep] else out)
      in \<lparr>ns_out = out' @ seg, ns_starts = w # ns_starts st,
          ns_protected = (if nr_unc r \<and> ns_protected st < 2 then ns_protected st + 1
                          else ns_protected st)\<rparr>)"

definition norm_segment :: "char \<Rightarrow> norm_root \<Rightarrow> char list \<Rightarrow> norm_state \<Rightarrow> norm_state" where
  "norm_segment sep r seg st =
     (if seg = ''.'' then st
      else if seg = ''..'' then
        (let out = ns_out st; w = length out;
             previous_start = hd (ns_starts st);
             text_start = (if previous_start < w \<and> out ! previous_start = sep
                           then previous_start + 1 else previous_start);
             previous_is_parent = (w - text_start = 2 \<and> out ! text_start = CHR ''.'' \<and>
                                   out ! (text_start + 1) = CHR ''.'')
         in if length (ns_starts st) > ns_protected st \<and> \<not> previous_is_parent
            then st\<lparr>ns_out := take previous_start out, ns_starts := tl (ns_starts st)\<rparr>
            else if nr_absolute r then st
            else norm_append sep r seg st)
      else norm_append sep r seg st)"

function norm_loop :: "char \<Rightarrow> norm_root \<Rightarrow> char list \<Rightarrow> norm_state \<Rightarrow> norm_state" where
  "norm_loop sep r rest st =
     (let p = dropWhile is_path_sep rest
      in if p = [] then st
         else norm_loop sep r (dropWhile (\<lambda>c. \<not> is_path_sep c) p)
                (norm_segment sep r (takeWhile (\<lambda>c. \<not> is_path_sep c) p) st))"
  by pat_completeness auto
termination
proof (relation "measure (\<lambda>(sep, r, rest, st). length rest)", goal_cases)
  case (2 sep r rest st p)
  then have "p \<noteq> []" "\<not> is_path_sep (hd p)" using hd_dropWhile [of is_path_sep rest] by auto
  then have "length (dropWhile (\<lambda>c. \<not> is_path_sep c) p) < length p"
    by (cases p) (auto simp: le_imp_less_Suc length_dropWhile_le)
  also have "length p \<le> length rest" using 2(1) by (simp add: length_dropWhile_le)
  finally show ?case by simp
qed simp

declare norm_loop.simps [simp del]

definition path_normalize :: "platform \<Rightarrow> amem \<Rightarrow> cstr \<Rightarrow> char list" where
  "path_normalize pl m p =
     (case p of None \<Rightarrow> []
      | Some s \<Rightarrow>
          if \<not> alloc_ok m (length s + 2) \<or> \<not> alloc_ok m (8 * (length s + 1)) then []
          else (let r = norm_root_of pl s;
                    st = norm_loop (path_sep pl) r (nr_rest r)
                           \<lparr>ns_out = nr_out r, ns_starts = [], ns_protected = 0\<rparr>
                in if ns_out st = [] \<and> s \<noteq> [] then ''.'' else ns_out st))"

definition path_cwd :: "platform \<Rightarrow> amem \<Rightarrow> cstr \<Rightarrow> char list" where
  "path_cwd pl m cwd = path_normalize pl m cwd"

definition path_ensure_trailing_separator :: "platform \<Rightarrow> amem \<Rightarrow> cstr \<Rightarrow> cstr" where
  "path_ensure_trailing_separator pl m p =
     (if p = None \<or> p = Some [] then (if alloc_ok m 2 then Some [path_sep pl] else Some [])
      else (let norm = path_normalize pl m p; n = length norm
            in if n > 0 \<and> is_path_sep (last norm) then rt_strdup_gc m (Some norm)
               else if alloc_ok m (n + 2) then Some (norm @ [path_sep pl]) else Some []))"

text \<open>The native copy of a normalised path, its trailing separators cut down to the root.\<close>

fun cut_seps :: "char list \<Rightarrow> nat \<Rightarrow> nat \<Rightarrow> nat" where
  "cut_seps buf root 0 = 0"
| "cut_seps buf root (Suc n) =
     (if Suc n > root \<and> is_path_sep (buf ! n) then cut_seps buf root n else Suc n)"

definition norm_path_alloc :: "platform \<Rightarrow> amem \<Rightarrow> cstr \<Rightarrow> cstr" where
  "norm_path_alloc pl m path =
     (let norm = path_normalize pl m (if path = None then Some [] else path); n = length norm
      in if alloc_ok m (n + 1)
         then Some (take (cut_seps norm (path_root_len pl (Some norm)) n) norm) else None)"

definition path_join_alloc :: "platform \<Rightarrow> amem \<Rightarrow> cstr \<Rightarrow> cstr \<Rightarrow> cstr" where
  "path_join_alloc pl m dir name =
     (let dn = rt_strlen dir; nn = rt_strlen name;
          needs_sep = dn > 0 \<and> \<not> is_path_sep (str dir ! (dn - 1))
      in if alloc_ok m (dn + nn + (if needs_sep then 2 else 1))
         then Some (str dir @ (if needs_sep then [path_sep pl] else []) @ str name) else None)"

end
