(* ===== verification/RtPathProps.thy ===== *)
theory RtPathProps
  imports RtPath
begin

text \<open>
  The specification of path normalisation, a stack of segments, and what follows from it: the
  result is no longer than the input, normalising twice changes nothing on a target with \<open>/\<close>, and
  the taking-apart operations fit together.
\<close>

subsection \<open>Segments resolved on a stack\<close>

definition seg_ok :: "char list \<Rightarrow> bool" where
  "seg_ok x \<longleftrightarrow> x \<noteq> [] \<and> (\<forall>c \<in> set x. \<not> is_path_sep c)"

function segments :: "char list \<Rightarrow> char list list" where
  "segments s =
     (let p = dropWhile is_path_sep s
      in if p = [] then []
         else takeWhile (\<lambda>c. \<not> is_path_sep c) p # segments (dropWhile (\<lambda>c. \<not> is_path_sep c) p))"
  by pat_completeness auto
termination
proof (relation "measure length", goal_cases)
  case (2 s p)
  then have "p \<noteq> []" "\<not> is_path_sep (hd p)" using hd_dropWhile [of is_path_sep s] by auto
  then have "length (dropWhile (\<lambda>c. \<not> is_path_sep c) p) < length p"
    by (cases p) (auto simp: le_imp_less_Suc length_dropWhile_le)
  also have "length p \<le> length s" using 2(1) by (simp add: length_dropWhile_le)
  finally show ?case by simp
qed simp

declare segments.simps [simp del]

text \<open>The stack holds the newest segment first; the first \<open>keep\<close> segments are never removed.\<close>

definition resolve :: "bool \<Rightarrow> nat \<Rightarrow> char list list \<Rightarrow> char list \<Rightarrow> char list list" where
  "resolve absolute keep stk seg =
     (if seg = ''.'' then stk
      else if seg = ''..'' then
        (if keep < length stk \<and> hd stk \<noteq> ''..'' then tl stk
         else if absolute then stk else seg # stk)
      else seg # stk)"

definition resolved :: "norm_root \<Rightarrow> char list list" where
  "resolved r = foldl (resolve (nr_absolute r) (if nr_unc r then 2 else 0)) [] (segments (nr_rest r))"

lemma segments_ok: "x \<in> set (segments s) \<Longrightarrow> seg_ok x"
proof (induction s rule: segments.induct)
  case (1 s)
  define p where "p = dropWhile is_path_sep s"
  show ?case
  proof (cases "p = []")
    case True
    then show ?thesis using 1(2) by (subst (asm) segments.simps) (simp add: p_def)
  next
    case False
    then have "\<not> is_path_sep (hd p)" using hd_dropWhile [of is_path_sep s] by (simp add: p_def)
    then have "seg_ok (takeWhile (\<lambda>c. \<not> is_path_sep c) p)"
      using False by (cases p) (auto simp: seg_ok_def dest: set_takeWhileD)
    then show ?thesis using 1(2) 1(1) [OF p_def False] False
      by (subst (asm) segments.simps) (auto simp: p_def [symmetric] Let_def)
  qed
qed

lemma set_resolve: "set (resolve a k stk x) \<subseteq> insert x (set stk)"
  unfolding resolve_def by (cases stk) auto

lemma set_foldl_resolve: "set (foldl (resolve a k) stk xs) \<subseteq> set stk \<union> set xs"
proof (induction xs arbitrary: stk)
  case (Cons x xs)
  show ?case using Cons.IH [of "resolve a k stk x"] set_resolve [of a k stk x] by auto
qed simp

subsection \<open>The buffers hold the stack\<close>

lemma segments_Nil [simp]: "segments [] = []"
  by (subst segments.simps) simp

lemma join_with_snoc: "join_with g (xs @ [x]) = join_with g xs @ (if xs = [] then [] else g) @ x"
  by (induction g xs rule: join_with.induct) auto

fun starts_of :: "char list \<Rightarrow> char \<Rightarrow> char list list \<Rightarrow> nat list" where
  "starts_of R sep [] = []"
| "starts_of R sep (x # xs) = length (R @ join_with [sep] (rev xs)) # starts_of R sep xs"

lemma length_starts_of [simp]: "length (starts_of R sep stk) = length stk"
  by (induction stk) simp_all

definition holds_stack :: "char \<Rightarrow> norm_root \<Rightarrow> char list list \<Rightarrow> norm_state \<Rightarrow> bool" where
  "holds_stack sep r stk st \<longleftrightarrow>
     ns_out st = nr_out r @ join_with [sep] (rev stk) \<and>
     ns_starts st = starts_of (nr_out r) sep stk \<and>
     ns_protected st = (if nr_unc r then min 2 (length stk) else 0) \<and>
     (\<forall>x \<in> set stk. seg_ok x)"

definition root_fits :: "char \<Rightarrow> norm_root \<Rightarrow> bool" where
  "root_fits sep r \<longleftrightarrow> is_path_sep sep \<and>
     (nr_out r = [] \<or> last (nr_out r) = sep \<or> nr_drive_relative r) \<and>
     (nr_drive_relative r \<longrightarrow> length (nr_out r) = 2)"

lemma norm_append_holds:
  assumes r: "root_fits sep r" and h: "holds_stack sep r stk st" and x: "seg_ok seg"
  shows "holds_stack sep r (seg # stk) (norm_append sep r seg st)"
proof -
  let ?out = "nr_out r @ join_with [sep] (rev stk)"
  have sep: "(length ?out > 0 \<and> ?out ! (length ?out - 1) \<noteq> sep \<and>
      \<not> (nr_drive_relative r \<and> length ?out = 2)) \<longleftrightarrow> stk \<noteq> []"
  proof (cases stk)
    case Nil
    then show ?thesis using r by (auto simp: root_fits_def last_conv_nth)
  next
    case (Cons y ys)
    then have y: "y \<noteq> []" "\<not> is_path_sep (last y)" using h by (auto simp: holds_stack_def seg_ok_def)
    then have "last ?out = last y" "last ?out \<noteq> sep" "length (nr_out r) < length ?out"
      using r Cons by (auto simp: join_with_snoc root_fits_def)
    then show ?thesis using r Cons last_conv_nth [of ?out] by (auto simp: root_fits_def)
  qed
  have out: "ns_out st = ?out" using h by (simp add: holds_stack_def)
  have "norm_append sep r seg st =
      \<lparr>ns_out = (if stk \<noteq> [] then ?out @ [sep] else ?out) @ seg, ns_starts = length ?out # ns_starts st,
       ns_protected = (if nr_unc r \<and> ns_protected st < 2 then ns_protected st + 1 else ns_protected st)\<rparr>"
    unfolding norm_append_def Let_def out by (simp only: sep)
  then show ?thesis using h x by (auto simp: holds_stack_def join_with_snoc)
qed

lemma norm_segment_holds:
  assumes r: "root_fits sep r" and h: "holds_stack sep r stk st" and x: "seg_ok seg"
  shows "holds_stack sep r (resolve (nr_absolute r) (if nr_unc r then 2 else 0) stk seg)
           (norm_segment sep r seg st)"
proof (cases "seg = ''..''")
  case False
  then show ?thesis
    using h norm_append_holds [OF r h x] by (auto simp: norm_segment_def resolve_def)
next
  case True
  have deep: "ns_protected st < length (ns_starts st) \<longleftrightarrow> (if nr_unc r then 2 else 0) < length stk"
    using h by (auto simp: holds_stack_def)
  show ?thesis
  proof (cases "(if nr_unc r then 2 else 0) < length stk")
    case False
    then show ?thesis using True h deep norm_append_holds [OF r h x]
      by (simp add: norm_segment_def resolve_def)
  next
    case d: True
    then obtain y ys where stk: "stk = y # ys" by (cases stk) auto
    define pre where "pre = nr_out r @ join_with [sep] (rev ys)"
    have y: "y \<noteq> []" "\<not> is_path_sep (hd y)" "is_path_sep sep"
      using h r stk by (auto simp: holds_stack_def seg_ok_def root_fits_def)
    have o: "ns_out st = pre @ (if ys = [] then [] else [sep]) @ y" "hd (ns_starts st) = length pre"
      using h stk by (simp_all add: holds_stack_def join_with_snoc pre_def)
    define ts where "ts = (if length pre < length (ns_out st) \<and> ns_out st ! length pre = sep
        then length pre + 1 else length pre)"
    have "(pre @ y) ! length pre = hd y" using y(1) by (simp add: nth_append hd_conv_nth)
    then have ts: "drop ts (ns_out st) = y"
      using y by (cases "ys = []") (auto simp: ts_def o)
    have "ts + length y = length (ns_out st)"
      using arg_cong [OF ts, of length] y(1) by (simp, cases "ts \<le> length (ns_out st)") auto
    then have parent: "(length (ns_out st) - ts = 2 \<and> ns_out st ! ts = CHR ''.'' \<and>
        ns_out st ! (ts + 1) = CHR ''.'') \<longleftrightarrow> y = ''..''"
      using ts by (auto simp: list_eq_iff_nth_eq less_Suc_eq numeral_2_eq_2)
        (metis Suc_eq_plus1 add.right_neutral add_leD1 le_add1 le_add2 nth_drop trans_le_add1)+
    show ?thesis
    proof (cases "y = ''..''")
      case yy: True
      then show ?thesis
        using True h deep d norm_append_holds [OF r h x] parent
        by (simp add: norm_segment_def resolve_def Let_def stk o(2) ts_def [symmetric])
    next
      case False
      have t: "take (length pre) (ns_out st) = pre" by (simp add: o(1))
      have "holds_stack sep r ys (st\<lparr>ns_out := take (length pre) (ns_out st), ns_starts := tl (ns_starts st)\<rparr>)"
        unfolding t using h stk d by (auto simp: holds_stack_def pre_def)
      then show ?thesis
        using True False deep d parent
        by (simp add: norm_segment_def resolve_def Let_def stk o(2) ts_def [symmetric])
    qed
  qed
qed

lemma norm_loop_holds:
  assumes r: "root_fits sep r" and h: "holds_stack sep r stk st"
  shows "holds_stack sep r (foldl (resolve (nr_absolute r) (if nr_unc r then 2 else 0)) stk (segments rest))
           (norm_loop sep r rest st)"
  using h
proof (induction rest arbitrary: stk st rule: segments.induct)
  case (1 rest)
  define p where "p = dropWhile is_path_sep rest"
  show ?case
  proof (cases "p = []")
    case True
    then show ?thesis using 1(2)
      by (subst norm_loop.simps, subst segments.simps) (simp add: p_def)
  next
    case False
    let ?x = "takeWhile (\<lambda>c. \<not> is_path_sep c) p" and ?r = "dropWhile (\<lambda>c. \<not> is_path_sep c) p"
    have s: "segments rest = ?x # segments ?r"
      using False by (subst segments.simps) (simp add: p_def Let_def)
    then have "seg_ok ?x" using segments_ok [of ?x rest] by simp
    then have "holds_stack sep r (resolve (nr_absolute r) (if nr_unc r then 2 else 0) stk ?x)
        (norm_segment sep r ?x st)" by (rule norm_segment_holds [OF r 1(2)])
    then show ?thesis using 1(1) [OF p_def False] False
      by (subst norm_loop.simps) (simp add: s p_def [symmetric] Let_def)
  qed
qed

lemma path_sep_is_sep [simp]: "is_path_sep (path_sep pl)"
  by (cases pl) (simp_all add: is_path_sep_def path_sep_def)

lemma norm_root_fits: "root_fits (path_sep pl) (norm_root_of pl s)"
  by (auto simp: root_fits_def norm_root_of_def Let_def)

definition path_text :: "char \<Rightarrow> norm_root \<Rightarrow> char list" where
  "path_text sep r = nr_out r @ join_with [sep] (rev (resolved r))"

definition path_mem :: "amem \<Rightarrow> char list \<Rightarrow> bool" where
  "path_mem m s \<longleftrightarrow> alloc_ok m (length s + 2) \<and> alloc_ok m (8 * (length s + 1))"

lemma path_normalize_text:
  assumes "path_mem m s"
  shows "path_normalize pl m (Some s) =
    (let out = path_text (path_sep pl) (norm_root_of pl s) in if out = [] \<and> s \<noteq> [] then ''.'' else out)"
proof -
  let ?r = "norm_root_of pl s"
  have "holds_stack (path_sep pl) ?r [] \<lparr>ns_out = nr_out ?r, ns_starts = [], ns_protected = 0\<rparr>"
    by (simp add: holds_stack_def)
  then have "ns_out (norm_loop (path_sep pl) ?r (nr_rest ?r)
      \<lparr>ns_out = nr_out ?r, ns_starts = [], ns_protected = 0\<rparr>) = path_text (path_sep pl) ?r"
    using norm_loop_holds [OF norm_root_fits, of pl s "[]"]
    by (simp add: holds_stack_def path_text_def resolved_def)
  then show ?thesis using assms by (simp add: path_normalize_def path_mem_def Let_def)
qed

subsection \<open>Length\<close>

abbreviation weight :: "char list list \<Rightarrow> nat" where
  "weight xs \<equiv> sum_list (map (\<lambda>x. length x + 1) xs)"

lemma segments_weight:
  "weight (segments s) \<le> (if dropWhile is_path_sep s = [] then 0 else length (dropWhile is_path_sep s) + 1)"
proof (induction s rule: segments.induct)
  case (1 s)
  define p where "p = dropWhile is_path_sep s"
  show ?case
  proof (cases "p = []")
    case False
    let ?x = "takeWhile (\<lambda>c. \<not> is_path_sep c) p" and ?r = "dropWhile (\<lambda>c. \<not> is_path_sep c) p"
    have s: "segments s = ?x # segments ?r"
      using False by (subst segments.simps) (simp add: p_def Let_def)
    have "weight (segments ?r) \<le> length ?r"
    proof (cases ?r)
      case (Cons c t)
      then have "is_path_sep c" using hd_dropWhile [of "\<lambda>c. \<not> is_path_sep c" p] by simp
      then have lt: "length (dropWhile is_path_sep ?r) < length ?r"
        unfolding Cons by (simp add: le_imp_less_Suc length_dropWhile_le)
      define d where "d = dropWhile is_path_sep ?r"
      have "weight (segments ?r) \<le> (if d = [] then 0 else length d + 1)"
        unfolding d_def by (rule 1 [OF p_def False])
      also have "\<dots> \<le> length ?r" using lt unfolding d_def [symmetric] by simp
      finally show ?thesis .
    next
      case Nil
      show ?thesis unfolding Nil by simp
    qed
    moreover have "length ?x + length ?r = length p" by (metis length_append takeWhile_dropWhile_id)
    ultimately show ?thesis using False unfolding s p_def [symmetric] by simp
  qed (subst segments.simps, simp add: p_def [symmetric])
qed

lemma length_join_with_1: "xs \<noteq> [] \<Longrightarrow> length (join_with [c] xs) + 1 = weight xs"
  by (induction "[c]" xs rule: join_with.induct) auto

lemma weight_resolve: "weight (foldl (resolve a k) stk xs) \<le> weight stk + weight xs"
proof (induction xs arbitrary: stk)
  case (Cons x xs)
  have "weight (resolve a k stk x) \<le> weight stk + weight [x]"
    by (cases stk) (auto simp: resolve_def)
  then show ?case using Cons.IH [of "resolve a k stk x"] by simp
qed simp

lemma norm_root_length: "length (nr_out (norm_root_of pl s)) + length (nr_rest (norm_root_of pl s)) \<le> length s"
proof (cases s rule: remdups_adj.cases)
  case (3 x y t)
  have "length (dropWhile is_path_sep (y # t)) \<le> Suc (length t)"
    using length_dropWhile_le [of is_path_sep "y # t"] by simp
  moreover have "is_path_sep (t ! 0) \<Longrightarrow> t \<noteq> [] \<Longrightarrow> length (dropWhile is_path_sep t) < length t"
    by (cases t) (simp_all add: le_imp_less_Suc length_dropWhile_le)
  moreover note length_dropWhile_le [of is_path_sep t]
  ultimately show ?thesis unfolding norm_root_of_def Let_def 3 by (simp add: Suc_le_eq)
qed (auto simp: norm_root_of_def Let_def)

lemma path_text_length: "length (path_text sep (norm_root_of pl s)) \<le> length s"
proof -
  let ?r = "norm_root_of pl s"
  let ?k = "if nr_unc ?r then 2 else (0::nat)"
  have w: "weight (resolved ?r) \<le> weight (segments (nr_rest ?r))"
    unfolding resolved_def using weight_resolve [of "nr_absolute ?r" ?k "[]" "segments (nr_rest ?r)"] by simp
  have "length (join_with [sep] (rev (resolved ?r))) \<le> length (nr_rest ?r)"
  proof (cases "resolved ?r = []")
    case False
    then have "length (join_with [sep] (rev (resolved ?r))) + 1 = weight (rev (resolved ?r))"
      by (intro length_join_with_1) simp
    also have "\<dots> = weight (resolved ?r)" by (simp add: rev_map [symmetric])
    finally show ?thesis
      using w segments_weight [of "nr_rest ?r"] length_dropWhile_le [of is_path_sep "nr_rest ?r"]
      by (auto split: if_splits)
  qed simp
  then show ?thesis using norm_root_length [of pl s] by (simp add: path_text_def)
qed

subsection \<open>Normal paths\<close>

text \<open>No \<open>.\<close>, and \<open>..\<close> only in front of a relative path.\<close>

fun normal_stack :: "bool \<Rightarrow> char list list \<Rightarrow> bool" where
  "normal_stack a [] = True"
| "normal_stack a (x # stk) \<longleftrightarrow> seg_ok x \<and> x \<noteq> ''.'' \<and>
     (x = ''..'' \<longrightarrow> \<not> a \<and> (stk = [] \<or> hd stk = ''..'')) \<and> normal_stack a stk"

lemma normal_stack_tl: "normal_stack a stk \<Longrightarrow> normal_stack a (tl stk)"
  by (cases stk) auto

lemma foldl_resolve_normal:
  assumes "\<forall>x \<in> set xs. seg_ok x" "normal_stack a stk"
  shows "normal_stack a (foldl (resolve a 0) stk xs)"
  using assms
proof (induction xs arbitrary: stk)
  case (Cons x xs)
  have "normal_stack a (resolve a 0 stk x)"
    using Cons.prems normal_stack_tl [of a stk] by (auto simp: resolve_def)
  then show ?case using Cons by simp
qed simp

lemma resolve_normal_id: "normal_stack a stk \<Longrightarrow> foldl (resolve a 0) [] (rev stk) = stk"
  by (induction stk) (auto simp: resolve_def)

lemma segments_sep: "is_path_sep c \<Longrightarrow> segments (c # s) = segments s"
  by (subst (1 2) segments.simps) simp

lemma segments_join:
  "is_path_sep c \<Longrightarrow> \<forall>x \<in> set xs. seg_ok x \<Longrightarrow> segments (join_with [c] xs) = xs"
proof (induction "[c]" xs rule: join_with.induct)
  case 1
  then show ?case by (subst segments.simps) simp
next
  case (2 x)
  then have x: "x \<noteq> []" "\<not> is_path_sep (hd x)" "\<forall>c \<in> set x. \<not> is_path_sep c" by (auto simp: seg_ok_def)
  then have "dropWhile is_path_sep x = x" by (cases x) auto
  moreover have "takeWhile (\<lambda>c. \<not> is_path_sep c) x = x" "dropWhile (\<lambda>c. \<not> is_path_sep c) x = []"
    using x(3) by (simp_all add: takeWhile_eq_all_conv dropWhile_eq_Nil_conv)
  ultimately show ?case using x(1)
    by (subst segments.simps) (simp add: Let_def del: dropWhile_eq_Nil_conv takeWhile_eq_all_conv)
next
  case (3 x y zs)
  then have x: "x \<noteq> []" "\<forall>c \<in> set x. \<not> is_path_sep c" by (auto simp: seg_ok_def)
  let ?t = "join_with [c] (y # zs)"
  have "dropWhile is_path_sep (x @ c # ?t) = x @ c # ?t" using x by (cases x) auto
  moreover have "takeWhile (\<lambda>c. \<not> is_path_sep c) (x @ c # ?t) = x" "dropWhile (\<lambda>c. \<not> is_path_sep c) (x @ c # ?t) = c # ?t"
    using x(2) 3(2) by (simp_all add: takeWhile_append2 dropWhile_append2)
  ultimately show ?case using 3 x segments_sep [OF 3(2), of ?t] by (subst segments.simps) (simp add: Let_def)
qed

subsection \<open>Properties of normalisation\<close>

lemma resolved_normal:
  assumes "\<not> nr_unc r"
  shows "normal_stack (nr_absolute r) (resolved r)"
  unfolding resolved_def using assms segments_ok
  by (simp add: foldl_resolve_normal)

lemma norm_root_posix:
  "norm_root_of Posix s =
     (if s \<noteq> [] \<and> is_path_sep (hd s)
      then \<lparr>nr_out = ''/'', nr_rest = dropWhile is_path_sep (tl s), nr_absolute = True,
            nr_drive_relative = False, nr_unc = False\<rparr>
      else \<lparr>nr_out = [], nr_rest = s, nr_absolute = False, nr_drive_relative = False, nr_unc = False\<rparr>)"
  by (cases s) (simp_all add: norm_root_of_def path_sep_def)

lemma segments_dropWhile: "segments (dropWhile is_path_sep s) = segments s"
  by (subst (1 2) segments.simps) simp

lemma resolve_join:
  assumes "normal_stack a stk"
  shows "foldl (resolve a 0) [] (segments (join_with ''/'' (rev stk))) = stk"
proof -
  have "\<forall>x \<in> set stk. seg_ok x" using assms by (induction stk) auto
  then have "segments (join_with ''/'' (rev stk)) = rev stk"
    by (intro segments_join) (simp_all add: is_path_sep_def)
  then show ?thesis using resolve_normal_id [OF assms] by simp
qed

lemma join_no_sep:
  assumes "normal_stack a stk" "stk \<noteq> []"
  shows "join_with g (rev stk) \<noteq> []" "\<not> is_path_sep (hd (join_with g (rev stk)))"
proof -
  have ok: "\<forall>x \<in> set stk. seg_ok x" using assms(1) by (induction stk) auto
  obtain x xs where r: "rev stk = x # xs" using assms(2) by (cases "rev stk") auto
  then have "x \<in> set stk" using set_rev [of stk] by simp
  then have "x \<noteq> []" "\<not> is_path_sep (hd x)" using ok by (auto simp: seg_ok_def)
  then show "join_with g (rev stk) \<noteq> []" "\<not> is_path_sep (hd (join_with g (rev stk)))"
    unfolding r by (cases xs; simp)+
qed

definition posix_norm :: "char list \<Rightarrow> char list" where
  "posix_norm s = (let out = path_text CHR ''/'' (norm_root_of Posix s)
                   in if out = [] \<and> s \<noteq> [] then ''.'' else out)"

lemma path_text_normal:
  assumes "normal_stack a stk"
  shows "path_text CHR ''/'' (norm_root_of Posix ((if a then ''/'' else []) @ join_with ''/'' (rev stk))) =
         (if a then ''/'' else []) @ join_with ''/'' (rev stk)"
proof (cases "stk = []")
  case True
  then show ?thesis by (cases a) (simp_all add: path_text_def norm_root_posix resolved_def is_path_sep_def)
next
  case False
  note ns = join_no_sep [OF assms False, of "''/''"]
  have "dropWhile is_path_sep (join_with ''/'' (rev stk)) = join_with ''/'' (rev stk)"
    using ns by (cases "join_with ''/'' (rev stk)") auto
  then show ?thesis using ns assms resolve_join [OF assms]
    by (cases a) (simp_all add: path_text_def norm_root_posix resolved_def is_path_sep_def)
qed

lemma posix_norm_idem: "posix_norm (posix_norm s) = posix_norm s"
proof -
  define r where "r = norm_root_of Posix s"
  have u: "\<not> nr_unc r" "nr_out r = (if nr_absolute r then ''/'' else [])"
    by (simp_all add: r_def norm_root_posix)
  let ?t = "path_text CHR ''/'' r"
  have t: "?t = (if nr_absolute r then ''/'' else []) @ join_with ''/'' (rev (resolved r))"
    by (simp add: path_text_def u)
  have "path_text CHR ''/'' (norm_root_of Posix ?t) = ?t"
    unfolding t by (rule path_text_normal [OF resolved_normal [OF u(1)]])
  moreover have "path_text CHR ''/'' (norm_root_of Posix ''.'') = []"
    by (subst norm_root_posix) (simp add: path_text_def resolved_def is_path_sep_def segments.simps resolve_def)
  ultimately show ?thesis by (auto simp: posix_norm_def Let_def r_def)
qed

lemma path_normalize_posix: "path_mem m s \<Longrightarrow> path_normalize Posix m (Some s) = posix_norm s"
  by (simp add: path_normalize_text posix_norm_def path_sep_def)

text \<open>C31: Normalisation resolves the segments of the path on a stack (a \<open>.\<close> is dropped, a \<open>..\<close>
  takes back the segment before it unless that is itself a \<open>..\<close> or part of a network root, and
  is dropped at an absolute root), writes the root and the segments with the target's separator,
  gives \<open>.\<close> for a path that cancels out, and never returns more bytes than it was given.\<close>

theorem path_normalize_resolves:
  assumes "path_mem m s"
  shows "path_normalize pl m (Some s) =
    (let r = norm_root_of pl s;
         stk = foldl (resolve (nr_absolute r) (if nr_unc r then 2 else 0)) [] (segments (nr_rest r));
         out = nr_out r @ join_with [path_sep pl] (rev stk)
     in if out = [] \<and> s \<noteq> [] then ''.'' else out) \<and>
    length (path_normalize pl m (Some s)) \<le> length s"
proof
  have "s \<noteq> [] \<Longrightarrow> Suc 0 \<le> length s" by (cases s) simp_all
  then show "length (path_normalize pl m (Some s)) \<le> length s"
    using path_text_length [of "path_sep pl" pl s] path_normalize_text [OF assms, of pl]
    by (auto simp: Let_def)
qed (use path_normalize_text [OF assms, of pl] in \<open>simp add: Let_def path_text_def resolved_def\<close>)

theorem path_normalize_resolves_witness:
  "path_normalize Posix big_mem (Some ''/a/./b//../c/'') = ''/a/c''"
  by (subst path_normalize_resolves [THEN conjunct1])
    (simp_all add: path_mem_def Let_def norm_root_posix path_sep_def is_path_sep_def segments.simps resolve_def)

text \<open>On a target whose separator is \<open>/\<close>, normalising a normalised path changes nothing.\<close>

theorem path_normalize_idempotent:
  assumes "path_mem m s" "path_mem m (path_normalize Posix m (Some s))"
  shows "path_normalize Posix m (Some (path_normalize Posix m (Some s))) = path_normalize Posix m (Some s)"
  using path_normalize_posix [OF assms(2)] path_normalize_posix [OF assms(1)] posix_norm_idem by simp

theorem path_normalize_idempotent_witness:
  "path_normalize Posix big_mem (Some (path_normalize Posix big_mem (Some ''../x/..''))) =
   path_normalize Posix big_mem (Some ''../x/..'')"
proof (rule path_normalize_idempotent)
  show m: "path_mem big_mem ''../x/..''" by (simp add: path_mem_def)
  show "path_mem big_mem (path_normalize Posix big_mem (Some ''../x/..''))"
    unfolding path_normalize_posix [OF m]
    by (simp add: posix_norm_def norm_root_posix path_text_def resolved_def path_mem_def Let_def
        is_path_sep_def segments.simps resolve_def)
qed

subsection \<open>Taking a path apart\<close>

lemma after_last_sep_upto:
  "let k = foldl (\<lambda>start i. if is_path_sep (s ! i) then i + 1 else start) 0 [0..<n]
   in k \<le> n \<and> (\<forall>j. k \<le> j \<and> j < n \<longrightarrow> \<not> is_path_sep (s ! j)) \<and> (0 < k \<longrightarrow> is_path_sep (s ! (k - 1)))"
  by (induction n) (auto simp: Let_def less_Suc_eq)

lemma last_sep_upto:
  "foldl (\<lambda>cut i. if is_path_sep (s ! i) then int i else cut) (-1) [0..<n] =
   int (foldl (\<lambda>start i. if is_path_sep (s ! i) then i + 1 else start) 0 [0..<n]) - 1"
  by (induction n) auto

lemma last_sep_after: "last_sep s = int (after_last_sep s) - 1"
  by (simp add: last_sep_def after_last_sep_def last_sep_upto)

lemma after_last_sep_splits:
  "after_last_sep s \<le> length s" "\<forall>c \<in> set (drop (after_last_sep s) s). \<not> is_path_sep c"
  "0 < after_last_sep s \<Longrightarrow> is_path_sep (s ! (after_last_sep s - 1))"
  using after_last_sep_upto [of s "length s"]
  by (auto simp: after_last_sep_def Let_def in_set_conv_nth)

definition str_mem :: "amem \<Rightarrow> char list \<Rightarrow> bool" where
  "str_mem m s \<longleftrightarrow> plenty m \<and> length s + 1 < 2 ^ 63"

lemma slice_in_mem:
  assumes "str_mem m s" "b + l \<le> length s"
  shows "rt_slice_gc m (Some s) b l = Some (take l (drop b s))"
  using assms unfolding str_mem_def by (intro rt_slice_gc_in_range) auto

lemma path_file_name_eq: "str_mem m s \<Longrightarrow> path_file_name m (Some s) = Some (drop (after_last_sep s) s)"
  using after_last_sep_splits(1) [of s] by (simp add: path_file_name_def slice_in_mem Let_def)

lemma path_directory_eq: "str_mem m s \<Longrightarrow> path_directory m (Some s) = Some (take (after_last_sep s - 1) s)"
  using after_last_sep_splits(1) [of s]
  by (cases "after_last_sep s") (simp_all add: path_directory_def slice_in_mem Let_def last_sep_after)

text \<open>The file name is what follows the last separator and holds none; the directory is what
  precedes it, so the two with that separator give the path back, and a path without a separator
  is all file name.\<close>

theorem path_split:
  assumes "str_mem m s"
  shows "\<exists>d f. path_directory m (Some s) = Some d \<and> path_file_name m (Some s) = Some f \<and>
    (\<forall>c \<in> set f. \<not> is_path_sep c) \<and>
    (if \<exists>c \<in> set s. is_path_sep c then \<exists>c. is_path_sep c \<and> s = d @ [c] @ f else d = [] \<and> f = s)"
proof -
  define k where "k = after_last_sep s"
  note k = after_last_sep_splits [of s, folded k_def]
  have eq: "path_directory m (Some s) = Some (take (k - 1) s)" "path_file_name m (Some s) = Some (drop k s)"
    using path_directory_eq path_file_name_eq assms by (simp_all add: k_def)
  show ?thesis
  proof (cases "k = 0")
    case True
    then show ?thesis using eq k(2) by auto
  next
    case False
    have j: "k - 1 < length s" "Suc (k - 1) = k" using False k(1) by auto
    have "s = take (k - 1) s @ [s ! (k - 1)] @ drop k s"
      using id_take_nth_drop [OF j(1)] j(2) by simp
    moreover have "is_path_sep (s ! (k - 1))" using k(3) False by simp
    moreover have "s ! (k - 1) \<in> set s" using j(1) by simp
    ultimately show ?thesis using eq k(2) by auto
  qed
qed

theorem path_split_witness:
  "\<exists>c. is_path_sep c \<and> ''usr/lib/x.kn'' = ''usr/lib'' @ [c] @ ''x.kn''"
proof -
  have m: "str_mem big_mem ''usr/lib/x.kn''" by (simp add: str_mem_def)
  have "after_last_sep ''usr/lib/x.kn'' = 8" by (simp add: after_last_sep_def upt_rec is_path_sep_def)
  then show ?thesis
    using path_split [OF m] path_directory_eq [OF m] path_file_name_eq [OF m]
    by (auto simp: is_path_sep_def)
qed

text \<open>A file right under the root loses the root: its directory is empty.\<close>

lemma path_directory_drops_root:
  "path_directory big_mem (Some ''/etc'') = Some [] \<and>
   path_combine Posix big_mem (path_directory big_mem (Some ''/etc'')) (path_file_name big_mem (Some ''/etc''))
     = Some ''etc''"
  by (simp add: path_directory_def path_file_name_def path_combine_def last_sep_def after_last_sep_def
      is_path_sep_def upt_rec rt_slice_gc_def rt_strdup_gc_def)

definition plain_ext :: "char list \<Rightarrow> bool" where
  "plain_ext e \<longleftrightarrow> e \<noteq> [] \<and> (\<forall>c \<in> set e. \<not> is_path_sep c \<and> c \<noteq> CHR ''.'')"

lemma foldl_unchanged: "(\<And>i. i \<in> set xs \<Longrightarrow> f z i = z) \<Longrightarrow> foldl f z xs = z"
  by (induction xs) auto

lemma last_dot_snoc:
  assumes "plain_ext b"
  shows "last_dot (a @ CHR ''.'' # b) = int (length a)"
proof -
  let ?s = "a @ CHR ''.'' # b"
  let ?f = "\<lambda>dot i. if is_path_sep (?s ! i) then -1 else if ?s ! i = CHR ''.'' then int i else dot"
  have "[0..<length ?s] = [0..<Suc (length a)] @ [Suc (length a)..<length ?s]"
    using upt_add_eq_append [of 0 "Suc (length a)" "length b"] by simp
  moreover have "foldl ?f (-1) [0..<Suc (length a)] = int (length a)" by (simp add: is_path_sep_def)
  moreover have "?f z i = z" if "i \<in> set [Suc (length a)..<length ?s]" for z i
  proof -
    have "?s ! i = b ! (i - Suc (length a))" "i - Suc (length a) < length b"
      using that by (auto simp: nth_append nth_Cons')
    then have "?s ! i \<in> set b" by simp
    then show ?thesis using assms by (auto simp: plain_ext_def)
  qed
  ultimately show ?thesis unfolding last_dot_def
    using foldl_unchanged [of "[Suc (length a)..<length ?s]" ?f "int (length a)"] by simp
qed

lemma path_change_extension_eq:
  assumes "str_mem m (s @ ''.'' @ e)" "plain_ext e"
  shows "\<exists>b. b \<le> length s \<and> path_change_extension m (Some s) (Some e) = Some (take b s @ ''.'' @ e) \<and>
    path_change_extension m (Some s) (Some (CHR ''.'' # e)) = Some (take b s @ ''.'' @ e)"
proof -
  define b where "b = (if last_dot s < 0 then length s else nat (last_dot s))"
  have upto: "foldl (\<lambda>dot i. if is_path_sep (s ! i) then -1 else if s ! i = CHR ''.'' then int i else dot)
      (-1) [0..<n] < int n" for n
    by (induction n) auto
  have "last_dot s < int (length s)" unfolding last_dot_def by (rule upto)
  then have b: "b \<le> length s" by (simp add: b_def nat_le_iff)
  have "e \<noteq> []" "hd e \<noteq> CHR ''.''" using assms(2) by (cases e; simp add: plain_ext_def)+
  moreover have "alloc_ok m (b + 1 + length e + 1)" using assms(1) b by (auto simp: str_mem_def)
  ultimately show ?thesis using b
    by (intro exI [of _ b]) (simp add: path_change_extension_def b_def [symmetric] Let_def)
qed

text \<open>Changing the extension and reading it back gives the new extension, written with or
  without its dot, for an extension that holds no dot and no separator.\<close>

theorem path_change_extension_roundtrip:
  assumes "str_mem m (s @ ''.'' @ e)" "plain_ext e"
  shows "path_extension m (path_change_extension m (Some s) (Some e)) = Some e \<and>
    path_extension m (path_change_extension m (Some s) (Some (CHR ''.'' # e))) = Some e"
proof -
  obtain b where b: "b \<le> length s" "path_change_extension m (Some s) (Some e) = Some (take b s @ ''.'' @ e)"
    "path_change_extension m (Some s) (Some (CHR ''.'' # e)) = Some (take b s @ ''.'' @ e)"
    using path_change_extension_eq [OF assms] by blast
  have m: "str_mem m (take b s @ ''.'' @ e)" using assms(1) b(1) by (simp add: str_mem_def)
  have "path_extension m (Some (take b s @ ''.'' @ e)) = Some e"
    using last_dot_snoc [OF assms(2), of "take b s"] assms(2) slice_in_mem [OF m, of "b + 1" "length e"] b(1)
    by (simp add: path_extension_def Let_def plain_ext_def)
  then show ?thesis using b by simp
qed

theorem path_change_extension_roundtrip_witness:
  "path_extension big_mem (path_change_extension big_mem (Some ''a.b/main.kn'') (Some ''knc'')) = Some ''knc''"
proof -
  have "str_mem big_mem (''a.b/main.kn'' @ ''.'' @ ''knc'')" "plain_ext ''knc''"
    by (simp_all add: str_mem_def plain_ext_def is_path_sep_def)
  then show ?thesis using path_change_extension_roundtrip by blast
qed

end
