(* ===== verification/RtDir.thy ===== *)
theory RtDir
  imports RtPathProps HeapSort
begin

text \<open>
  Directory listings of \<open>libs/runtime/src/kn_runtime.c\<close>: the growing list of native paths, its
  heap sort by \<open>rt_path_compare\<close>, the walk of a directory tree and \<open>__kn_dir_files\<close>. The file
  system is the parameter: the entries of a directory in the order the platform reports them.
\<close>

subsection \<open>Comparing paths\<close>

fun path_compare_loop :: "char list \<Rightarrow> char list \<Rightarrow> int" where
  "path_compare_loop (x # xs) (y # ys) =
     (if x \<noteq> y then (if byte_of x < byte_of y then -1 else 1) else path_compare_loop xs ys)"
| "path_compare_loop [] [] = 0"
| "path_compare_loop (x # xs) [] = 1"
| "path_compare_loop [] (y # ys) = -1"

fun rt_path_compare :: "cstr \<Rightarrow> cstr \<Rightarrow> int" where
  "rt_path_compare None None = 0"
| "rt_path_compare None (Some b) = -1"
| "rt_path_compare (Some a) None = 1"
| "rt_path_compare (Some a) (Some b) = path_compare_loop a b"

definition path_less :: "char list \<Rightarrow> char list \<Rightarrow> bool" where
  "path_less a b \<longleftrightarrow> rt_path_compare (Some a) (Some b) < 0"

lemma path_less_iff: "path_less a b \<longleftrightarrow> a < b"
  unfolding path_less_def rt_path_compare.simps
  by (induction a b rule: path_compare_loop.induct) (auto simp: byte_of_less_iff)

subsection \<open>The path list and its sort\<close>

record path_list =
  pl_items :: "char list list"
  pl_cap :: nat
  pl_cursor :: nat

definition empty_paths :: path_list where
  "empty_paths = \<lparr>pl_items = [], pl_cap = 0, pl_cursor = 0\<rparr>"

text \<open>The second component tells whether the path was stored.\<close>

definition path_list_push :: "amem \<Rightarrow> char list \<Rightarrow> path_list \<Rightarrow> path_list \<times> bool" where
  "path_list_push m path l =
     (if length (pl_items l) = pl_cap l
      then (let next_cap = (if pl_cap l \<noteq> 0 then (pl_cap l * 2) mod 2 ^ 64 else 32)
            in if next_cap < pl_cap l \<or> next_cap > (2 ^ 64 - 1) div 8 then (l, False)
               else if \<not> alloc_ok m (8 * next_cap) then (l, False)
               else (l\<lparr>pl_cap := next_cap, pl_items := pl_items l @ [path]\<rparr>, True))
      else (l\<lparr>pl_items := pl_items l @ [path]\<rparr>, True))"

function path_list_sift_down :: "char list list \<Rightarrow> nat \<Rightarrow> nat \<Rightarrow> char list list" where
  "path_list_sift_down items root cnt =
     (let child = root * 2 + 1
      in if child \<ge> cnt then items
         else (let largest = (if path_less (items ! root) (items ! child) then child else root);
                   largest = (if child + 1 < cnt \<and> path_less (items ! largest) (items ! (child + 1))
                              then child + 1 else largest)
               in if largest = root then items
                  else path_list_sift_down (swap items root largest) largest cnt))"
  by pat_completeness auto
termination
  by (relation "measure (\<lambda>(items, root, cnt). cnt - root)") (auto split: if_splits)

fun path_list_heapify :: "char list list \<Rightarrow> nat \<Rightarrow> nat \<Rightarrow> char list list" where
  "path_list_heapify items cnt 0 = items"
| "path_list_heapify items cnt (Suc start) =
     path_list_heapify (path_list_sift_down items start cnt) cnt start"

function path_list_drain :: "char list list \<Rightarrow> nat \<Rightarrow> char list list" where
  "path_list_drain items stop =
     (if stop > 1 then path_list_drain (path_list_sift_down (swap items 0 (stop - 1)) 0 (stop - 1)) (stop - 1)
      else items)"
  by pat_completeness auto
termination
  by (relation "measure snd") auto

declare path_list_sift_down.simps [simp del] path_list_drain.simps [simp del]

definition path_list_sort :: "path_list \<Rightarrow> path_list" where
  "path_list_sort l =
     (let n = length (pl_items l)
      in if n < 2 then l
         else l\<lparr>pl_items := path_list_drain (path_list_heapify (pl_items l) n (n div 2)) n\<rparr>)"

text \<open>The larger of the three slots is the larger child or the root itself.\<close>

lemma path_list_sift_step:
  "path_list_sift_down items root cnt =
     (let k = larger_child path_less items cnt root
      in if 2 * root + 1 < cnt \<and> path_less (items ! root) (items ! k)
         then path_list_sift_down (swap items root k) k cnt else items)"
proof -
  let ?l = "items ! (2 * root + 1)" and ?r = "items ! (2 * root + 2)"
  have "path_less (items ! root) ?l \<or> \<not> path_less (items ! root) ?r \<or> path_less ?l ?r"
    by (auto simp: path_less_iff)
  moreover have "path_less (items ! root) ?l \<Longrightarrow> path_less ?l ?r \<Longrightarrow> path_less (items ! root) ?r"
    by (auto simp: path_less_iff)
  ultimately show ?thesis
    by (subst path_list_sift_down.simps) (auto simp: larger_child_def Let_def mult.commute)
qed

interpretation psort: heap_sort path_less "\<lambda>xs n r. path_list_sift_down xs r n"
    path_list_heapify path_list_drain
proof
  fix n r :: nat and xs
  assume "n \<le> 2 * r + 1 \<or> \<not> path_less (xs ! r) (xs ! larger_child path_less xs n r)"
  then show "path_list_sift_down xs r n = xs"
    by (subst path_list_sift_step) (auto simp: Let_def)
next
  fix n r :: nat and xs
  assume "2 * r + 1 < n" "path_less (xs ! r) (xs ! larger_child path_less xs n r)"
  then show "path_list_sift_down xs r n =
      path_list_sift_down (swap xs r (larger_child path_less xs n r)) (larger_child path_less xs n r) n"
    by (subst path_list_sift_step) (simp add: Let_def)
next
  fix e :: nat and xs
  assume "1 < e"
  then show "path_list_drain xs e = path_list_drain (path_list_sift_down (swap xs 0 (e - 1)) 0 (e - 1)) (e - 1)"
    by (subst path_list_drain.simps) simp
next
  fix e :: nat and xs
  assume "e \<le> 1"
  then show "path_list_drain xs e = xs" by (subst path_list_drain.simps) simp
qed (auto simp: path_less_iff)

subsection \<open>The directory walk\<close>

datatype entry = Fs_file | Fs_dir bool "(char list \<times> entry) list" | Fs_other

fun collect_files :: "platform \<Rightarrow> amem \<Rightarrow> bool \<Rightarrow> char list \<Rightarrow> (char list \<times> entry) list \<Rightarrow>
    path_list \<Rightarrow> path_list" where
  "collect_files pl m recursive dir [] l = l"
| "collect_files pl m recursive dir ((name, e) # es) l =
     (if rt_streq (Some name) (Some ''.'') \<or> rt_streq (Some name) (Some ''..'')
      then collect_files pl m recursive dir es l
      else (case path_join_alloc pl m (Some dir) (Some name) of
              None \<Rightarrow> collect_files pl m recursive dir es l
            | Some full \<Rightarrow> collect_files pl m recursive dir es
                (case e of
                   Fs_dir reparse sub \<Rightarrow>
                     if recursive \<and> (pl = Posix \<or> \<not> reparse)
                     then collect_files pl m recursive full sub l else l
                 | Fs_file \<Rightarrow> fst (path_list_push m full l)
                 | Fs_other \<Rightarrow> if pl = Windows then fst (path_list_push m full l) else l)))"

text \<open>
  The file system gives the entries of the directory at a path, \<open>None\<close> when it cannot be opened.
\<close>

type_synonym fs = "char list \<Rightarrow> (char list \<times> entry) list option"

definition collect_from :: "platform \<Rightarrow> amem \<Rightarrow> fs \<Rightarrow> bool \<Rightarrow> char list \<Rightarrow> path_list \<Rightarrow> path_list" where
  "collect_from pl m fs recursive dir l =
     (case fs dir of None \<Rightarrow> l | Some es \<Rightarrow> collect_files pl m recursive dir es l)"

definition dir_files :: "platform \<Rightarrow> amem \<Rightarrow> fs \<Rightarrow> cstr \<Rightarrow> bool \<Rightarrow> kn_list option" where
  "dir_files pl m fs path recursive =
     (let root = norm_path_alloc pl m path
      in case list_new m of None \<Rightarrow> None
         | Some l \<Rightarrow>
             if root = None \<or> root = Some [] then Some l
             else (let paths = path_list_sort (collect_from pl m fs recursive (str root) empty_paths)
                   in fold (\<lambda>p l. case rt_strdup_gc m (Some p) of None \<Rightarrow> l
                                    | Some item \<Rightarrow> add_str m l (Some item)) (pl_items paths) (Some l)))"

definition directory_scan_open :: "platform \<Rightarrow> amem \<Rightarrow> fs \<Rightarrow> cstr \<Rightarrow> bool \<Rightarrow> path_list option" where
  "directory_scan_open pl m fs path recursive =
     (if \<not> alloc_ok m 32 then None
      else (let root = norm_path_alloc pl m path
            in Some (if root \<noteq> None \<and> root \<noteq> Some []
                     then collect_from pl m fs recursive (str root) empty_paths else empty_paths)))"

definition directory_scan_next :: "path_list option \<Rightarrow> cstr \<times> path_list option" where
  "directory_scan_next scan =
     (case scan of None \<Rightarrow> (None, None)
      | Some l \<Rightarrow>
          if pl_cursor l \<ge> length (pl_items l) then (None, Some l)
          else (Some (pl_items l ! pl_cursor l), Some (l\<lparr>pl_cursor := pl_cursor l + 1\<rparr>)))"

subsection \<open>What a listing holds\<close>

definition join_path :: "platform \<Rightarrow> char list \<Rightarrow> char list \<Rightarrow> char list" where
  "join_path pl dir name =
     dir @ (if dir \<noteq> [] \<and> \<not> is_path_sep (last dir) then [path_sep pl] else []) @ name"

fun tree_files :: "platform \<Rightarrow> bool \<Rightarrow> char list \<Rightarrow> (char list \<times> entry) list \<Rightarrow> char list list" where
  "tree_files pl recursive dir [] = []"
| "tree_files pl recursive dir ((name, e) # es) =
     (if name = ''.'' \<or> name = ''..'' then []
      else (case e of
              Fs_dir reparse sub \<Rightarrow>
                if recursive \<and> (pl = Posix \<or> \<not> reparse)
                then tree_files pl recursive (join_path pl dir name) sub else []
            | Fs_file \<Rightarrow> [join_path pl dir name]
            | Fs_other \<Rightarrow> if pl = Windows then [join_path pl dir name] else [])) @
     tree_files pl recursive dir es"

text \<open>Every path of the tree is short enough to be allocated.\<close>

fun tree_short :: "platform \<Rightarrow> char list \<Rightarrow> (char list \<times> entry) list \<Rightarrow> bool" where
  "tree_short pl dir [] \<longleftrightarrow> True"
| "tree_short pl dir ((name, e) # es) \<longleftrightarrow> length dir + length name + 2 < 2 ^ 63 \<and>
     (case e of Fs_dir reparse sub \<Rightarrow> tree_short pl (join_path pl dir name) sub | _ \<Rightarrow> True) \<and>
     tree_short pl dir es"

definition pl_ok :: "path_list \<Rightarrow> bool" where
  "pl_ok l \<longleftrightarrow> length (pl_items l) \<le> pl_cap l"

lemma path_list_push_stores:
  assumes "plenty m" "pl_ok l" "length (pl_items l) < 2 ^ 59"
  shows "snd (path_list_push m p l)" "pl_items (fst (path_list_push m p l)) = pl_items l @ [p]"
    "pl_ok (fst (path_list_push m p l))" "pl_cursor (fst (path_list_push m p l)) = pl_cursor l"
proof -
  have "(pl_cap l * 2) mod 2 ^ 64 = pl_cap l * 2" "8 * (pl_cap l * 2) < 2 ^ 63"
    if "length (pl_items l) = pl_cap l"
    using assms(3) that by (auto intro!: mod_less)
  then show "snd (path_list_push m p l)" "pl_items (fst (path_list_push m p l)) = pl_items l @ [p]"
    "pl_ok (fst (path_list_push m p l))" "pl_cursor (fst (path_list_push m p l)) = pl_cursor l"
    using assms by (auto simp: path_list_push_def Let_def pl_ok_def)
qed

lemma path_join_alloc_plenty:
  "plenty m \<Longrightarrow> length dir + length name + 2 < 2 ^ 63 \<Longrightarrow>
   path_join_alloc pl m (Some dir) (Some name) = Some (join_path pl dir name)"
  by (auto simp: path_join_alloc_def join_path_def Let_def last_conv_nth)

lemma collect_stores:
  "plenty m \<Longrightarrow> pl_ok l \<Longrightarrow> tree_short pl dir es \<Longrightarrow>
     length (pl_items l) + length (tree_files pl rec dir es) \<le> 2 ^ 59 \<Longrightarrow>
     pl_items (collect_files pl m rec dir es l) = pl_items l @ tree_files pl rec dir es \<and>
     pl_ok (collect_files pl m rec dir es l)"
proof (induction pl rec dir es arbitrary: l rule: tree_files.induct)
  case (2 pl rec dir name e es)
  show ?case
  proof (cases "name = ''.'' \<or> name = ''..''")
    case True
    then show ?thesis using 2(2) [of l] 2(3-6) by auto
  next
    case False
    define full where "full = join_path pl dir name"
    have j: "path_join_alloc pl m (Some dir) (Some name) = Some full"
      unfolding full_def using 2(3,5) by (intro path_join_alloc_plenty) simp_all
    define own where "own = (case e of
        Fs_dir reparse sub \<Rightarrow>
          if rec \<and> (pl = Posix \<or> \<not> reparse) then tree_files pl rec full sub else []
      | Fs_file \<Rightarrow> [full] | Fs_other \<Rightarrow> if pl = Windows then [full] else [])"
    define l1 where "l1 = (case e of
        Fs_dir reparse sub \<Rightarrow>
          if rec \<and> (pl = Posix \<or> \<not> reparse) then collect_files pl m rec full sub l else l
      | Fs_file \<Rightarrow> fst (path_list_push m full l)
      | Fs_other \<Rightarrow> if pl = Windows then fst (path_list_push m full l) else l)"
    have t: "tree_files pl rec dir ((name, e) # es) = own @ tree_files pl rec dir es"
      using False unfolding own_def full_def by simp
    have c: "collect_files pl m rec dir ((name, e) # es) l = collect_files pl m rec dir es l1"
      using False j by (simp add: l1_def)
    have room: "length (pl_items l) + length own + length (tree_files pl rec dir es) \<le> 2 ^ 59"
      using 2(6) unfolding t by simp
    have "pl_items l1 = pl_items l @ own \<and> pl_ok l1"
    proof (cases e)
      case (Fs_dir reparse sub)
      have "tree_short pl full sub" using 2(5) Fs_dir by (simp add: full_def)
      then show ?thesis using 2(1) [OF False Fs_dir, of l] 2(3,4) room Fs_dir
        by (auto simp: l1_def own_def full_def)
    next
      case Fs_file
      then have "length (pl_items l) < 2 ^ 59" using room by (simp add: own_def)
      then show ?thesis using path_list_push_stores [OF 2(3,4)] Fs_file by (simp add: l1_def own_def)
    next
      case Fs_other
      show ?thesis
      proof (cases "pl = Windows")
        case True
        then have "length (pl_items l) < 2 ^ 59" using room Fs_other by (simp add: own_def)
        then show ?thesis using path_list_push_stores [OF 2(3,4)] Fs_other True by (simp add: l1_def own_def)
      qed (use Fs_other 2(4) in \<open>simp add: l1_def own_def\<close>)
    qed
    then show ?thesis unfolding c t using 2(2) [of l1] 2(3,5) room by simp
  qed
qed simp

lemma path_list_sort_sorts: "pl_items (path_list_sort l) = sort (pl_items l)"
proof -
  define n where "n = length (pl_items l)"
  let ?t = "path_list_drain (path_list_heapify (pl_items l) n (n div 2)) n"
  have "sorted_wrt (\<lambda>a b. \<not> path_less b a) ?t" "mset ?t = mset (pl_items l)"
    using psort.sort_sorts [of "pl_items l" n] by (simp_all add: n_def)
  then have "?t = sort (pl_items l)"
    by (intro properties_for_sort [symmetric]) (simp_all add: path_less_iff not_less)
  moreover have "n < 2 \<Longrightarrow> sort (pl_items l) = pl_items l"
    unfolding n_def by (cases "pl_items l" rule: remdups_adj.cases) auto
  ultimately show ?thesis by (simp add: path_list_sort_def Let_def n_def)
qed

lemma tree_paths_short:
  "tree_short pl dir es \<Longrightarrow> p \<in> set (tree_files pl rec dir es) \<Longrightarrow> length p + 1 < 2 ^ 63"
proof (induction pl rec dir es rule: tree_files.induct)
  case (2 pl rec dir name e es)
  have "length (join_path pl dir name) + 1 < 2 ^ 63"
    using 2(3) by (simp add: join_path_def)
  moreover have "p \<in> set (tree_files pl rec dir es) \<or> p = join_path pl dir name \<or>
      (\<exists>r sub. \<not> (name = ''.'' \<or> name = ''..'') \<and> e = Fs_dir r sub \<and> rec \<and> (pl = Posix \<or> \<not> r) \<and>
        p \<in> set (tree_files pl rec (join_path pl dir name) sub))"
    using 2(4) by (auto split: if_splits entry.splits)
  moreover have "length p + 1 < 2 ^ 63" if "\<not> (name = ''.'' \<or> name = ''..'')" "e = Fs_dir r sub"
    "rec \<and> (pl = Posix \<or> \<not> r)" "p \<in> set (tree_files pl rec (join_path pl dir name) sub)" for r sub
    by (rule 2(1) [OF that(1,2,3) _ that(4)]) (use 2(3) that(2) in simp)
  ultimately show ?case using 2(2,3) by (metis tree_short.simps(2))
qed simp

lemma add_copies:
  assumes "plenty m" "\<forall>p \<in> set ps. length p + 1 < 2 ^ 63"
  shows "fold (\<lambda>p l. case rt_strdup_gc m (Some p) of None \<Rightarrow> l | Some item \<Rightarrow> add_str m l (Some item)) ps l =
    add_strs m ps l"
  using assms by (induction ps arbitrary: l) (simp_all add: rt_strdup_gc_def)

text \<open>C32: A listing of a directory that can be read holds every file the walk finds, directly
  below it or in the whole tree as asked, exactly as often as it is found, in ascending byte order
  of the paths; the list it returns is well formed.\<close>

theorem dir_files_sorted:
  assumes "plenty m" "norm_path_alloc pl m path = Some root" "root \<noteq> []" "fs root = Some es"
    and "tree_short pl root es" "length (tree_files pl recursive root es) \<le> list_limit"
  shows "\<exists>l. dir_files pl m fs path recursive = Some l \<and> list_inv l \<and>
    list_abs l = map (\<lambda>p. (KN_ANY_TAG_STRING, StrP (Some p))) (sort (tree_files pl recursive root es))"
proof -
  obtain l0 where l0: "list_new m = Some l0" using assms(1) by (auto simp: list_new_def)
  have p0: "list_inv l0" "list_abs l0 = []" using list_new_props [OF l0] by auto
  have "list_limit \<le> 2 ^ 59" by (simp add: list_limit_def)
  then have "pl_items (collect_files pl m recursive root es empty_paths) = tree_files pl recursive root es"
    using collect_stores [OF assms(1) _ assms(5), of empty_paths recursive] assms(6)
    by (simp add: empty_paths_def pl_ok_def)
  then have "dir_files pl m fs path recursive = add_strs m (sort (tree_files pl recursive root es)) (Some l0)"
    using assms(2-4) l0 add_copies [OF assms(1), of "sort (tree_files pl recursive root es)"]
      tree_paths_short [OF assms(5)]
    by (simp add: dir_files_def collect_from_def path_list_sort_sorts)
  then show ?thesis
    using ls.add_all [OF assms(1) p0(1), of "map str_value (sort (tree_files pl recursive root es))"]
      p0(2) assms(6) by auto
qed

definition demo_fs :: fs where
  "demo_fs p = (if p = ''d'' then Some [(''.'', Fs_dir False []), (''z'', Fs_file),
     (''s'', Fs_dir False [(''b'', Fs_file), (''a'', Fs_file)]), (''p'', Fs_other)] else None)"

theorem dir_files_sorted_witness:
  "\<exists>l. dir_files Posix big_mem demo_fs (Some ''d'') True = Some l \<and>
     map snd (list_abs l) = map (\<lambda>p. StrP (Some p)) [''d/s/a'', ''d/s/b'', ''d/z'']"
proof -
  have n: "norm_path_alloc Posix big_mem (Some ''d'') = Some ''d''"
    by (simp add: norm_path_alloc_def path_normalize_posix path_mem_def posix_norm_def norm_root_posix
        path_text_def resolved_def is_path_sep_def segments.simps resolve_def path_root_len_def Let_def)
  have f: "tree_files Posix True ''d'' (the (demo_fs ''d'')) = [''d/z'', ''d/s/b'', ''d/s/a'']"
    by (simp add: demo_fs_def join_path_def is_path_sep_def path_sep_def)
  have t: "tree_short Posix ''d'' (the (demo_fs ''d''))" "demo_fs ''d'' = Some (the (demo_fs ''d''))"
    by (simp_all add: demo_fs_def join_path_def is_path_sep_def path_sep_def)
  have s: "sort [''d/z'', ''d/s/b'', ''d/s/a''] = [''d/s/a'', ''d/s/b'', ''d/z'']" by code_simp
  show ?thesis
    using dir_files_sorted [where fs = demo_fs and recursive = True, OF plenty_True n _ t(2,1)] by (simp add: f s list_limit_def) auto
qed

end
