(* ===== verification/RtTask.thy ===== *)
theory RtTask
  imports RtList
begin

text \<open>
  Exceptions and asynchronous tasks of \<open>libs/runtime/src/kn_runtime.c\<close>. An exception object is an
  address, zero for none; a trace is the text in its buffer of 4096 bytes. A task is finished by
  whoever first moves its \<open>done\<close> flag from 0 to 2, writes the fields one by one and then publishes
  them by setting the flag to 1; any number of threads may try to finish a task while others wait
  for it, so the finishing calls are the steps of a relation.
\<close>

subsection \<open>Exceptions of a thread\<close>

definition trace_size :: nat where
  "trace_size = 4096"

record exc_state =
  g_exc_current :: nat
  g_exc_last :: nat
  g_exc_trace :: "char list"
  g_exc_last_trace :: "char list"

definition exc_fresh :: exc_state where
  "exc_fresh = \<lparr>g_exc_current = 0, g_exc_last = 0, g_exc_trace = [], g_exc_last_trace = []\<rparr>"

definition rt_exc_set_with_trace :: "nat \<Rightarrow> cstr \<Rightarrow> nat \<Rightarrow> exc_state \<Rightarrow> exc_state" where
  "rt_exc_set_with_trace err trace trace_len s =
     (let s = s\<lparr>g_exc_current := err\<rparr>
      in if trace = None \<or> trace_len = 0 then s\<lparr>g_exc_trace := []\<rparr>
         else (let n = (if trace_len \<ge> trace_size then trace_size - 1 else trace_len)
               in s\<lparr>g_exc_trace := take n (str trace)\<rparr>))"

definition exc_set :: "nat \<Rightarrow> exc_state \<Rightarrow> exc_state" where
  "exc_set err s = s\<lparr>g_exc_current := err, g_exc_trace := []\<rparr>"

definition exc_get :: "exc_state \<Rightarrow> nat" where
  "exc_get s = g_exc_current s"

definition exc_has :: "exc_state \<Rightarrow> bool" where
  "exc_has s = (g_exc_current s \<noteq> 0)"

definition exc_last :: "exc_state \<Rightarrow> nat" where
  "exc_last s = (if g_exc_current s \<noteq> 0 then g_exc_current s else g_exc_last s)"

definition exc_clear :: "exc_state \<Rightarrow> exc_state" where
  "exc_clear s =
     (let s = (if g_exc_current s \<noteq> 0
               then (let n = length (g_exc_trace s);
                         n = (if n \<ge> trace_size then trace_size - 1 else n)
                     in s\<lparr>g_exc_last := g_exc_current s, g_exc_last_trace := take n (g_exc_trace s)\<rparr>)
               else s)
      in s\<lparr>g_exc_current := 0, g_exc_trace := []\<rparr>)"

definition exc_push :: "cstr \<Rightarrow> exc_state \<Rightarrow> exc_state" where
  "exc_push fn s =
     (if fn = None \<or> fn = Some [] then s
      else if length (g_exc_trace s) + rt_strlen fn + 4 \<ge> trace_size then s
      else s\<lparr>g_exc_trace := g_exc_trace s @
               (if length (g_exc_trace s) > 0 then [CHR 0x0A] else []) @ ''at '' @ str fn\<rparr>)"

definition exc_trace :: "exc_state \<Rightarrow> char list" where
  "exc_trace s = (if g_exc_current s \<noteq> 0 then g_exc_trace s else g_exc_last_trace s)"

text \<open>The buffers hold their text and its terminator.\<close>

definition exc_inv :: "exc_state \<Rightarrow> bool" where
  "exc_inv s \<longleftrightarrow> length (g_exc_trace s) < trace_size \<and> length (g_exc_last_trace s) < trace_size"

lemma exc_inv_kept:
  assumes "exc_inv s"
  shows "exc_inv (exc_set e s)" "exc_inv (exc_clear s)" "exc_inv (exc_push fn s)"
    "exc_inv (rt_exc_set_with_trace e t n s)"
  using assms
  by (auto simp: exc_inv_def exc_set_def exc_clear_def exc_push_def rt_exc_set_with_trace_def
      trace_size_def Let_def rt_strlen_str)

text \<open>The frames pushed so far, outermost last: the trace is their \<open>at\<close> lines.\<close>

fun trace_text :: "char list list \<Rightarrow> char list" where
  "trace_text [] = []"
| "trace_text [f] = ''at '' @ f"
| "trace_text (f # g # fs) = ''at '' @ f @ [CHR 0x0A] @ trace_text (g # fs)"

lemma trace_text_snoc:
  "trace_text (fs @ [f]) = trace_text fs @ (if fs = [] then [] else [CHR 0x0A]) @ ''at '' @ f"
  by (induction fs rule: trace_text.induct) auto

lemma trace_text_Nil_iff: "trace_text fs = [] \<longleftrightarrow> fs = []"
  by (cases fs rule: trace_text.cases) auto

lemma exc_pushes:
  "\<forall>f \<in> set fs. f \<noteq> [] \<Longrightarrow> length (trace_text (gs @ fs)) < trace_size - 1 \<Longrightarrow> g_exc_trace s = trace_text gs \<Longrightarrow>
   fold (\<lambda>f. exc_push (Some f)) fs s = s\<lparr>g_exc_trace := trace_text (gs @ fs)\<rparr>"
proof (induction fs arbitrary: s gs)
  case (Cons f fs)
  have len: "length (trace_text xs) \<le> length (trace_text (xs @ ys))" for xs ys
    by (induction ys rule: rev_induct) (auto simp: trace_text_snoc append_assoc [symmetric] simp del: append_assoc)
  have "length (trace_text (gs @ [f])) < trace_size - 1"
    using len [of "gs @ [f]" fs] Cons.prems(2) by simp
  then have "length (trace_text gs) + length f + 4 < trace_size \<or> gs = []" "length f + 3 < trace_size - 1"
    by (auto simp: trace_text_snoc split: if_splits)
  moreover have "trace_text [] = []" by simp
  ultimately have "exc_push (Some f) s = s\<lparr>g_exc_trace := trace_text (gs @ [f])\<rparr>"
    using Cons.prems trace_text_Nil_iff [of gs]
    by (cases "gs = []") (auto simp: exc_push_def trace_text_snoc rt_strlen_str)
  then show ?case using Cons.IH [of "gs @ [f]" "s\<lparr>g_exc_trace := trace_text (gs @ [f])\<rparr>"] Cons.prems by simp
qed simp

text \<open>The trace of an exception lists the frames it passed through, innermost first, one per
  line, and the exception and its trace can still be read after it has been cleared, until the next
  one is.\<close>

theorem exc_trace_survives_clear:
  assumes "e \<noteq> 0" "\<forall>f \<in> set fs. f \<noteq> []" "length (trace_text fs) < trace_size - 1"
  shows "let s1 = fold (\<lambda>f. exc_push (Some f)) fs (exc_set e s); s2 = exc_clear s1
    in exc_has s1 \<and> exc_trace s1 = trace_text fs \<and> \<not> exc_has s2 \<and> exc_last s2 = e \<and>
       exc_trace s2 = trace_text fs"
proof -
  have "fold (\<lambda>f. exc_push (Some f)) fs (exc_set e s) = (exc_set e s)\<lparr>g_exc_trace := trace_text fs\<rparr>"
    using exc_pushes [of fs "[]" "exc_set e s"] assms by (simp add: exc_set_def)
  then show ?thesis using assms
    by (simp add: Let_def exc_set_def exc_clear_def exc_has_def exc_trace_def exc_last_def)
qed

theorem exc_trace_survives_clear_witness:
  "exc_trace (exc_clear (fold (\<lambda>f. exc_push (Some f)) [''parse'', ''main''] (exc_set 7 exc_fresh)))
     = ''at parse'' @ [CHR 0x0A] @ ''at main''"
  using exc_trace_survives_clear [of 7 "[''parse'', ''main'']" exc_fresh]
  by (simp add: trace_size_def Let_def)

subsection \<open>Tasks\<close>

record kn_task =
  t_done :: nat
  t_faulted :: bool
  t_error :: nat
  t_error_trace :: "char list"
  t_tag :: u64
  t_payload :: u64

datatype finish = Complete u64 u64 | Fail nat cstr

text \<open>The fields a new task starts with.\<close>

definition task_fresh :: kn_task where
  "task_fresh = \<lparr>t_done = 0, t_faulted = False, t_error = 0, t_error_trace = [],
     t_tag = KN_ANY_TAG_NONE, t_payload = 0\<rparr>"

definition task_begin_finish :: "kn_task \<Rightarrow> kn_task \<times> bool" where
  "task_begin_finish t = (if t_done t = 0 then (t\<lparr>t_done := 2\<rparr>, True) else (t, False))"

definition task_publish_finish :: "kn_task \<Rightarrow> kn_task" where
  "task_publish_finish t = t\<lparr>t_done := 1\<rparr>"

text \<open>The stores between the two, in program order.\<close>

fun finish_stores :: "finish \<Rightarrow> (kn_task \<Rightarrow> kn_task) list" where
  "finish_stores (Complete tag payload) =
     [\<lambda>t. t\<lparr>t_faulted := False\<rparr>, \<lambda>t. t\<lparr>t_error := 0\<rparr>, \<lambda>t. t\<lparr>t_error_trace := []\<rparr>,
      \<lambda>t. t\<lparr>t_tag := tag\<rparr>, \<lambda>t. t\<lparr>t_payload := payload\<rparr>]"
| "finish_stores (Fail err trace) =
     (let n = rt_strlen trace; n = (if n \<ge> trace_size then trace_size - 1 else n)
      in [\<lambda>t. t\<lparr>t_faulted := True\<rparr>, \<lambda>t. t\<lparr>t_error := err\<rparr>, \<lambda>t. t\<lparr>t_tag := KN_ANY_TAG_NONE\<rparr>,
          \<lambda>t. t\<lparr>t_payload := 0\<rparr>, \<lambda>t. t\<lparr>t_error_trace := take n (str trace)\<rparr>])"

definition task_finish :: "finish \<Rightarrow> kn_task \<Rightarrow> kn_task" where
  "task_finish r t =
     (case task_begin_finish t of (t', won) \<Rightarrow>
        if \<not> won then t' else task_publish_finish (fold (\<lambda>w. w) (finish_stores r) t'))"

definition async_task_complete :: "u64 \<Rightarrow> u64 \<Rightarrow> kn_task option \<Rightarrow> kn_task option" where
  "async_task_complete tag payload t = map_option (task_finish (Complete tag payload)) t"

definition async_task_fail :: "nat \<Rightarrow> cstr \<Rightarrow> kn_task option \<Rightarrow> kn_task option" where
  "async_task_fail err trace t = map_option (task_finish (Fail err trace)) t"

text \<open>What a thread does after its entry returned: a task the entry left open is finished for it.\<close>

definition async_task_thread_end :: "exc_state \<Rightarrow> kn_task \<Rightarrow> kn_task" where
  "async_task_thread_end e t =
     (if t_done t \<noteq> 1
      then (if exc_has e then task_finish (Fail (exc_get e) (Some (exc_trace e))) t
            else task_finish (Complete KN_ANY_TAG_NONE 0) t)
      else t)"

text \<open>
  Starting a task counts it as live; a task or thread that cannot be made takes the count back.
  The second argument says whether the thread was started.
\<close>

definition async_task_spawn :: "amem \<Rightarrow> bool \<Rightarrow> int \<Rightarrow> kn_task option \<times> int" where
  "async_task_spawn m started live =
     (let live = live + 1
      in if \<not> alloc_ok m 4168 then (None, live - 1)
         else if \<not> started then (None, live - 1)
         else (Some task_fresh, live))"

text \<open>The entry is what it makes of the thread's exceptions and of its task.\<close>

definition async_task_thread_main ::
    "(exc_state \<Rightarrow> kn_task \<Rightarrow> exc_state \<times> kn_task) option \<Rightarrow> kn_task option \<Rightarrow> int \<Rightarrow> kn_task option \<times> int" where
  "async_task_thread_main entry t live =
     (case t of None \<Rightarrow> (None, live)
      | Some t \<Rightarrow>
          (let (e, t) = (case entry of None \<Rightarrow> (exc_fresh, t) | Some f \<Rightarrow> f exc_fresh t)
           in (Some (async_task_thread_end e t), live - 1)))"

definition sleep_worker :: "kn_task \<Rightarrow> kn_task" where
  "sleep_worker t = task_finish (Complete KN_ANY_TAG_NONE 0) t"

definition yield_worker :: "kn_task \<Rightarrow> kn_task" where
  "yield_worker t = task_finish (Complete KN_ANY_TAG_NONE 0) t"

subsection \<open>Outcomes\<close>

datatype outcome = Result u64 u64 | Raised nat "char list"

text \<open>What \<open>__kn_async_task_run\<close> hands on once it has seen the flag at 1.\<close>

definition async_task_read :: "kn_task \<Rightarrow> outcome" where
  "async_task_read t =
     (if t_faulted t then Raised (t_error t) (t_error_trace t) else Result (t_tag t) (t_payload t))"

definition async_task_run :: "kn_task option \<Rightarrow> exc_state \<Rightarrow> (u64 \<times> u64 \<times> exc_state) option" where
  "async_task_run t e =
     (case t of None \<Rightarrow> Some (KN_ANY_TAG_NONE, 0, e)
      | Some t \<Rightarrow>
          if t_done t \<noteq> 1 then None
          else if t_faulted t
          then Some (KN_ANY_TAG_NONE, 0,
                     rt_exc_set_with_trace (t_error t) (Some (t_error_trace t)) (length (t_error_trace t)) e)
          else Some (t_tag t, t_payload t, e))"

fun finish_outcome :: "finish \<Rightarrow> outcome" where
  "finish_outcome (Complete tag payload) = Result tag payload"
| "finish_outcome (Fail err trace) = Raised err (take (trace_size - 1) (str trace))"

lemma finish_outcome_read: "async_task_read (fold (\<lambda>w. w) (finish_stores r) t) = finish_outcome r"
  by (cases r) (auto simp: async_task_read_def Let_def rt_strlen_str)

lemma read_published: "async_task_read (task_publish_finish t) = async_task_read t"
  by (simp add: async_task_read_def task_publish_finish_def)

lemma stores_keep_done: "w \<in> set (finish_stores r) \<Longrightarrow> t_done (w t) = t_done t"
  by (cases r) (auto simp: Let_def)

lemma fold_stores_keep_done: "set ws \<subseteq> set (finish_stores r) \<Longrightarrow> t_done (fold (\<lambda>w. w) ws t) = t_done t"
  by (induction ws arbitrary: t) (auto simp: stores_keep_done)

subsection \<open>Concurrent finishers and waiters\<close>

text \<open>
  A finisher calls, then writes its stores one by one, then has returned, \<open>True\<close> when it was the
  one to finish the task. A waiter polls the flag, passes once it reads 1, and reads the outcome
  some time later.
\<close>

datatype fin_pc = Calling finish | Writing finish nat | Finished bool

datatype run_pc = Polling | Passed | Got outcome

record async =
  a_task :: kn_task
  a_fin :: "nat \<Rightarrow> fin_pc"
  a_run :: "nat \<Rightarrow> run_pc"

definition async_init :: "(nat \<Rightarrow> finish) \<Rightarrow> async" where
  "async_init reqs = \<lparr>a_task = task_fresh, a_fin = (\<lambda>i. Calling (reqs i)), a_run = (\<lambda>j. Polling)\<rparr>"

inductive async_step :: "async \<Rightarrow> async \<Rightarrow> bool" where
  begin_won: "a_fin s i = Calling r \<Longrightarrow> task_begin_finish (a_task s) = (t, True) \<Longrightarrow>
    async_step s (s\<lparr>a_task := t, a_fin := (a_fin s)(i := Writing r 0)\<rparr>)"
| begin_lost: "a_fin s i = Calling r \<Longrightarrow> task_begin_finish (a_task s) = (t, False) \<Longrightarrow>
    async_step s (s\<lparr>a_fin := (a_fin s)(i := Finished False)\<rparr>)"
| store: "a_fin s i = Writing r k \<Longrightarrow> k < length (finish_stores r) \<Longrightarrow>
    async_step s (s\<lparr>a_task := (finish_stores r ! k) (a_task s), a_fin := (a_fin s)(i := Writing r (k + 1))\<rparr>)"
| publish: "a_fin s i = Writing r k \<Longrightarrow> k = length (finish_stores r) \<Longrightarrow>
    async_step s (s\<lparr>a_task := task_publish_finish (a_task s), a_fin := (a_fin s)(i := Finished True)\<rparr>)"
| pass: "a_run s j = Polling \<Longrightarrow> t_done (a_task s) = 1 \<Longrightarrow>
    async_step s (s\<lparr>a_run := (a_run s)(j := Passed)\<rparr>)"
| read: "a_run s j = Passed \<Longrightarrow>
    async_step s (s\<lparr>a_run := (a_run s)(j := Got (async_task_read (a_task s)))\<rparr>)"

inductive async_steps :: "async \<Rightarrow> async \<Rightarrow> bool" where
  refl: "async_steps s s"
| step: "async_steps s t \<Longrightarrow> async_step t u \<Longrightarrow> async_steps s u"

inductive_cases async_stepE: "async_step s t"

lemma async_steps_trans: "async_steps t u \<Longrightarrow> async_steps s t \<Longrightarrow> async_steps s u"
  by (induction rule: async_steps.induct) (auto intro: async_steps.intros)

definition losers :: "(nat \<Rightarrow> finish) \<Rightarrow> nat \<Rightarrow> async \<Rightarrow> bool" where
  "losers reqs w s \<longleftrightarrow> (\<forall>i. i \<noteq> w \<longrightarrow> a_fin s i = Calling (reqs i) \<or> a_fin s i = Finished False)"

definition stored :: "finish \<Rightarrow> nat \<Rightarrow> kn_task" where
  "stored r k = fold (\<lambda>w. w) (take k (finish_stores r)) (task_fresh\<lparr>t_done := 2\<rparr>)"

text \<open>
  Nobody has won; or one has, and the task holds its stores so far while everyone waits; or it has
  published, and nothing writes the task any more.
\<close>

definition open_inv :: "(nat \<Rightarrow> finish) \<Rightarrow> async \<Rightarrow> bool" where
  "open_inv reqs s \<longleftrightarrow> a_task s = task_fresh \<and> (\<forall>i. a_fin s i = Calling (reqs i)) \<and> (\<forall>j. a_run s j = Polling)"

definition writing_inv :: "(nat \<Rightarrow> finish) \<Rightarrow> nat \<Rightarrow> nat \<Rightarrow> async \<Rightarrow> bool" where
  "writing_inv reqs w k s \<longleftrightarrow> k \<le> length (finish_stores (reqs w)) \<and> a_fin s w = Writing (reqs w) k \<and>
     losers reqs w s \<and> a_task s = stored (reqs w) k \<and> (\<forall>j. a_run s j = Polling)"

definition done_inv :: "(nat \<Rightarrow> finish) \<Rightarrow> nat \<Rightarrow> async \<Rightarrow> bool" where
  "done_inv reqs w s \<longleftrightarrow> a_fin s w = Finished True \<and> losers reqs w s \<and> t_done (a_task s) = 1 \<and>
     async_task_read (a_task s) = finish_outcome (reqs w) \<and>
     (\<forall>j. a_run s j = Polling \<or> a_run s j = Passed \<or> a_run s j = Got (finish_outcome (reqs w)))"

definition async_inv :: "(nat \<Rightarrow> finish) \<Rightarrow> async \<Rightarrow> bool" where
  "async_inv reqs s \<longleftrightarrow> open_inv reqs s \<or> (\<exists>w k. writing_inv reqs w k s) \<or> (\<exists>w. done_inv reqs w s)"

lemma stored_done: "t_done (stored r k) = 2"
  unfolding stored_def by (subst fold_stores_keep_done [of _ r]) (auto dest: in_set_takeD)

lemma open_step:
  assumes "open_inv reqs s" "async_step s t"
  shows "\<exists>w. writing_inv reqs w 0 t"
  using assms(2,1)
proof cases
  case (begin_won i r u)
  then show ?thesis using assms(1)
    by (auto simp: open_inv_def writing_inv_def losers_def stored_def task_begin_finish_def task_fresh_def
        intro!: exI [of _ i])
qed (auto simp: open_inv_def task_begin_finish_def task_fresh_def)

lemma writing_unique:
  assumes "writing_inv reqs w k s" "a_fin s i = Writing r j"
  shows "i = w" "r = reqs w" "j = k"
proof -
  show "i = w" using assms unfolding writing_inv_def losers_def by (metis fin_pc.distinct(1,5))
  then show "r = reqs w" "j = k" using assms unfolding writing_inv_def by simp_all
qed

lemma writing_step:
  assumes w: "writing_inv reqs w k s" and st: "async_step s t"
  shows "writing_inv reqs w k t \<or> writing_inv reqs w (k + 1) t \<or> done_inv reqs w t"
  using st
proof cases
  case (begin_won i r u)
  then show ?thesis using w stored_done [of "reqs w" k] by (auto simp: writing_inv_def task_begin_finish_def)
next
  case (begin_lost i r u)
  then have "i \<noteq> w" using w by (auto simp: writing_inv_def)
  then show ?thesis using w begin_lost by (auto simp: writing_inv_def losers_def)
next
  case (store i r j)
  note iw = writing_unique [OF w, of i r j]
  have "stored (reqs w) (k + 1) = (finish_stores (reqs w) ! k) (stored (reqs w) k)"
    using store iw [OF store(2)] by (simp add: stored_def take_Suc_nth)
  then show ?thesis using w store iw [OF store(2)] by (auto simp: writing_inv_def losers_def)
next
  case (publish i r j)
  note iw = writing_unique [OF w, of i r j]
  have "async_task_read (task_publish_finish (stored (reqs w) k)) = finish_outcome (reqs w)"
    using publish iw [OF publish(2)] by (simp add: stored_def read_published finish_outcome_read)
  then show ?thesis using w publish iw [OF publish(2)]
    by (auto simp: writing_inv_def done_inv_def losers_def task_publish_finish_def)
qed (use w stored_done [of "reqs w" k] in \<open>auto simp: writing_inv_def\<close>)

lemma done_step:
  assumes d: "done_inv reqs w s" and st: "async_step s t"
  shows "done_inv reqs w t"
  using st
proof cases
  case (begin_won i r u)
  then show ?thesis using d by (auto simp: done_inv_def task_begin_finish_def)
next
  case (begin_lost i r u)
  then have "i \<noteq> w" using d by (auto simp: done_inv_def)
  then show ?thesis using d begin_lost by (auto simp: done_inv_def losers_def)
next
  case (store i r k)
  then have "i \<noteq> w" using d by (auto simp: done_inv_def)
  then show ?thesis using d store by (auto simp: done_inv_def losers_def)
next
  case (publish i r k)
  then have "i \<noteq> w" using d by (auto simp: done_inv_def)
  then show ?thesis using d publish by (auto simp: done_inv_def losers_def)
qed (use d in \<open>auto simp: done_inv_def losers_def\<close>)

lemma async_inv_reachable: "async_steps (async_init reqs) s \<Longrightarrow> async_inv reqs s"
proof (induction "async_init reqs" s rule: async_steps.induct)
  case refl
  then show ?case by (simp add: async_inv_def open_inv_def async_init_def)
next
  case (step t u)
  then show ?case unfolding async_inv_def
    using open_step writing_step done_step by blast
qed

text \<open>C29: However the finishing calls and the waiters interleave, at most one call finishes the
  task; every waiter that gets an outcome gets the whole outcome of that call, so all of them get
  the same one, and the flag has been 1 since.\<close>

theorem async_result_once:
  assumes "async_steps (async_init reqs) s" "a_run s j = Got out"
  shows "\<exists>w. a_fin s w = Finished True \<and> out = finish_outcome (reqs w) \<and> t_done (a_task s) = 1 \<and>
    (\<forall>i. a_fin s i = Finished True \<longrightarrow> i = w) \<and> (\<forall>k out'. a_run s k = Got out' \<longrightarrow> out' = out)"
proof -
  obtain w where w: "done_inv reqs w s"
    using async_inv_reachable [OF assms(1)] assms(2)
    by (auto simp: async_inv_def open_inv_def writing_inv_def)
  have "out' = finish_outcome (reqs w)" if "a_run s k = Got out'" for k out'
    using w that unfolding done_inv_def by (metis run_pc.distinct(3,5) run_pc.inject)
  moreover have "i = w" if "a_fin s i = Finished True" for i
    using w that unfolding done_inv_def losers_def by (metis fin_pc.distinct(3) fin_pc.inject(3))
  ultimately show ?thesis using w assms(2) unfolding done_inv_def by blast
qed

text \<open>Two finishers and a waiter: the second call loses although it starts first to be served.\<close>

definition demo_reqs :: "nat \<Rightarrow> finish" where
  "demo_reqs i = (if i = 0 then Complete 1 42 else Fail 9 (Some ''late''))"

lemma writing_runs_on:
  "writing_inv reqs w k s \<Longrightarrow> \<exists>t. async_steps s t \<and> done_inv reqs w t \<and> (\<forall>j. a_run t j = Polling)"
proof (induction "length (finish_stores (reqs w)) - k" arbitrary: k s rule: less_induct)
  case less
  note w = less(2)
  let ?n = "length (finish_stores (reqs w))"
  show ?case
  proof (cases "k < ?n")
    case True
    define t where "t = s\<lparr>a_task := (finish_stores (reqs w) ! k) (a_task s),
        a_fin := (a_fin s)(w := Writing (reqs w) (k + 1))\<rparr>"
    have st: "async_step s t" using w True unfolding t_def writing_inv_def by (intro async_step.store) auto
    have "stored (reqs w) (k + 1) = (finish_stores (reqs w) ! k) (stored (reqs w) k)"
      using True by (simp add: stored_def take_Suc_nth)
    then have "writing_inv reqs w (k + 1) t" using w True by (auto simp: t_def writing_inv_def losers_def)
    moreover have "?n - (k + 1) < ?n - k" using True by simp
    ultimately obtain u where "async_steps t u" "done_inv reqs w u" "\<forall>j. a_run u j = Polling"
      using less(1) by blast
    then show ?thesis using async_steps_trans [OF _ async_steps.step [OF async_steps.refl st]] by blast
  next
    case False
    then have k: "k = ?n" using w by (simp add: writing_inv_def)
    define t where "t = s\<lparr>a_task := task_publish_finish (a_task s), a_fin := (a_fin s)(w := Finished True)\<rparr>"
    have st: "async_step s t" using w k unfolding t_def writing_inv_def by (intro async_step.publish) auto
    have "done_inv reqs w t"
      using w k by (simp add: t_def writing_inv_def done_inv_def losers_def stored_def read_published
          finish_outcome_read) (simp add: task_publish_finish_def)
    moreover have "\<forall>j. a_run t j = Polling" using w by (simp add: t_def writing_inv_def)
    ultimately show ?thesis using async_steps.step [OF async_steps.refl st] by blast
  qed
qed

lemma done_waiter_gets:
  assumes d: "done_inv reqs w s"
  shows "\<exists>t. async_steps s t \<and> a_run t j = Got (finish_outcome (reqs w))"
proof -
  have read: "\<exists>t. async_steps s t \<and> a_run t j = Got (finish_outcome (reqs w))"
    if p: "a_run s j = Passed" "done_inv reqs w s" for s
    using async_steps.step [OF async_steps.refl async_step.read [OF p(1)]] p(2)
    by (intro exI [of _ "s\<lparr>a_run := (a_run s)(j := Got (async_task_read (a_task s)))\<rparr>"])
      (simp add: done_inv_def)
  consider "a_run s j = Polling" | "a_run s j = Passed" | "a_run s j = Got (finish_outcome (reqs w))"
    using d by (auto simp: done_inv_def)
  then show ?thesis
  proof cases
    case 1
    let ?t = "s\<lparr>a_run := (a_run s)(j := Passed)\<rparr>"
    have st: "async_step s ?t" using 1 d by (intro async_step.pass) (simp_all add: done_inv_def)
    obtain u where "async_steps ?t u" "a_run u j = Got (finish_outcome (reqs w))"
      using read [of ?t] done_step [OF d st] by auto
    then show ?thesis using async_steps_trans [OF _ async_steps.step [OF async_steps.refl st]] by blast
  qed (use read d async_steps.refl in blast)+
qed

text \<open>C30: No interleaving of finishing calls and waiters blocks a task for good: from every state
  they can reach, every waiter can still come to its outcome.\<close>

theorem async_waiter_can_finish:
  assumes "async_steps (async_init reqs) s"
  shows "\<exists>t out. async_steps s t \<and> a_run t j = Got out"
proof -
  have writing: "\<exists>t out. async_steps s t \<and> a_run t j = Got out" if wi: "writing_inv reqs w k s" for w k s
  proof -
    obtain t where t: "async_steps s t" "done_inv reqs w t" using writing_runs_on [OF wi] by blast
    then show ?thesis using done_waiter_gets [OF t(2), of j] async_steps_trans by blast
  qed
  consider "open_inv reqs s" | w k where "writing_inv reqs w k s" | w where "done_inv reqs w s"
    using async_inv_reachable [OF assms] unfolding async_inv_def by blast
  then show ?thesis
  proof cases
    case 1
    let ?t = "s\<lparr>a_task := task_fresh\<lparr>t_done := 2\<rparr>, a_fin := (a_fin s)(0 := Writing (reqs 0) 0)\<rparr>"
    have st: "async_step s ?t"
      using 1 by (intro async_step.begin_won) (auto simp: open_inv_def task_begin_finish_def task_fresh_def)
    obtain w where "writing_inv reqs w 0 ?t" using open_step [OF 1 st] by blast
    then obtain u out where "async_steps ?t u" "a_run u j = Got out" using writing by blast
    then show ?thesis using async_steps_trans [OF _ async_steps.step [OF async_steps.refl st]] by blast
  next
    case 2
    then show ?thesis using writing by blast
  next
    case 3
    then show ?thesis using done_waiter_gets by blast
  qed
qed

theorem async_waiter_can_finish_witness:
  "\<exists>t out. async_steps (async_init demo_reqs) t \<and> a_run t 5 = Got out"
  by (rule async_waiter_can_finish) (rule async_steps.refl)

theorem async_result_once_witness:
  "\<exists>s w out. async_steps (async_init demo_reqs) s \<and> a_run s 5 = Got out \<and> out = finish_outcome (demo_reqs w)"
proof -
  have "writing_inv demo_reqs 0 0 (async_init demo_reqs\<lparr>a_task := task_fresh\<lparr>t_done := 2\<rparr>,
      a_fin := (a_fin (async_init demo_reqs))(0 := Writing (demo_reqs 0) 0)\<rparr>)" (is "writing_inv _ _ _ ?t")
    by (simp add: writing_inv_def async_init_def losers_def stored_def)
  then obtain u where u: "async_steps ?t u" "done_inv demo_reqs 0 u" using writing_runs_on by blast
  obtain s where s: "async_steps u s" "a_run s 5 = Got (finish_outcome (demo_reqs 0))"
    using done_waiter_gets [OF u(2)] by blast
  have "async_step (async_init demo_reqs) ?t"
    by (rule async_step.begin_won [where i = 0])
      (simp_all add: async_init_def task_begin_finish_def task_fresh_def)
  then have "async_steps (async_init demo_reqs) s"
    using async_steps_trans [OF s(1)] async_steps_trans [OF u(1)] async_steps.intros by blast
  from async_result_once [OF this s(2)] this s(2) show ?thesis by blast
qed

end
