(* ===== verification/RtMeta.thy ===== *)
theory RtMeta
  imports RtDict RtText
begin

text \<open>
  The metadata registry of \<open>libs/runtime/src/kn_runtime.c\<close>: modules export the attributes attached
  to their declarations, and a program asks by attribute or by owner. The registry is the list
  \<open>g_meta_modules\<close>, newest first. A module is identified by its address; its tables are read-only.
\<close>

subsection \<open>Exported tables\<close>

record meta_arg =
  ma_name :: cstr
  ma_tag :: u64
  ma_payload :: payload

record meta_instance =
  mi_owner_name :: cstr
  mi_owner_kind :: u64
  mi_owner_param_count :: u64
  mi_owner_ptr :: u64
  mi_meta_qname :: cstr
  mi_meta_name :: cstr
  mi_args :: "meta_arg list option"
  mi_arg_count :: nat

record meta_module =
  mm_address :: nat
  mm_name :: cstr
  mm_instances :: "meta_instance list option"

record meta_reg =
  mr_handle :: nat
  mr_module :: "meta_module option"

subsection \<open>The registry\<close>

definition meta_unregister_handle :: "nat \<Rightarrow> meta_reg list \<Rightarrow> meta_reg list" where
  "meta_unregister_handle h regs = filter (\<lambda>r. mr_handle r \<noteq> h) regs"

text \<open>The scan of the list: \<open>None\<close> when no entry has the handle or the module.\<close>

fun register_scan :: "nat \<Rightarrow> meta_module \<Rightarrow> meta_reg list \<Rightarrow> meta_reg list option" where
  "register_scan h md [] = None"
| "register_scan h md (r # rs) =
     (if mr_handle r = h then Some (r\<lparr>mr_module := Some md\<rparr> # rs)
      else if map_option mm_address (mr_module r) = Some (mm_address md) then Some (r # rs)
      else map_option (\<lambda>rs. r # rs) (register_scan h md rs))"

definition meta_register_module ::
    "amem \<Rightarrow> nat \<Rightarrow> meta_module option \<Rightarrow> bool \<Rightarrow> meta_reg list \<Rightarrow> meta_reg list" where
  "meta_register_module m h mp replace regs =
     (case mp of None \<Rightarrow> regs
      | Some md \<Rightarrow>
          (case register_scan h md regs of
             Some regs' \<Rightarrow> regs'
           | None \<Rightarrow>
               (let regs = (if replace then meta_unregister_handle h regs else regs)
                in if alloc_ok m 24 then \<lparr>mr_handle = h, mr_module = Some md\<rparr> # regs else regs)))"

definition meta_register_main :: "amem \<Rightarrow> meta_module option \<Rightarrow> meta_reg list \<Rightarrow> meta_reg list" where
  "meta_register_main m mp regs = meta_register_module m 0 mp True regs"

definition meta_register_loaded :: "amem \<Rightarrow> nat \<Rightarrow> meta_module option \<Rightarrow> meta_reg list \<Rightarrow> meta_reg list" where
  "meta_register_loaded m h mp regs = (if h = 0 then regs else meta_register_module m h mp False regs)"

subsection \<open>Queries\<close>

definition meta_name_match :: "cstr \<Rightarrow> cstr \<Rightarrow> cstr \<Rightarrow> bool" where
  "meta_name_match want qname short_name =
     (if want = None \<or> want = Some [] then False
      else if qname \<noteq> None \<and> rt_streq want qname then True
      else if short_name \<noteq> None \<and> rt_streq want short_name then True
      else False)"

text \<open>The instances the nested loops visit, with the module each belongs to.\<close>

fun meta_visits :: "meta_reg list \<Rightarrow> (meta_module \<times> meta_instance) list" where
  "meta_visits [] = []"
| "meta_visits (r # rs) =
     (case mr_module r of None \<Rightarrow> []
      | Some md \<Rightarrow> (case mm_instances md of None \<Rightarrow> [] | Some is \<Rightarrow> map (\<lambda>i. (md, i)) is)) @
     meta_visits rs"

definition meta_list_add_string :: "amem \<Rightarrow> kn_list option \<Rightarrow> cstr \<Rightarrow> kn_list option" where
  "meta_list_add_string m l text = add_str m l (Some (str text))"

fun query_loop :: "amem \<Rightarrow> cstr \<Rightarrow> (meta_module \<times> meta_instance) list \<Rightarrow> kn_list option \<Rightarrow> kn_list option" where
  "query_loop m want [] l = l"
| "query_loop m want ((md, i) # vs) l =
     (if \<not> meta_name_match want (mi_meta_qname i) (mi_meta_name i) then query_loop m want vs l
      else query_loop m want vs (meta_list_add_string m l (mi_owner_name i)))"

definition meta_query :: "amem \<Rightarrow> meta_reg list \<Rightarrow> cstr \<Rightarrow> kn_list option" where
  "meta_query m regs want =
     (case list_new m of None \<Rightarrow> None
      | Some l \<Rightarrow> if want = None \<or> want = Some [] then Some l
                  else query_loop m want (meta_visits regs) (Some l))"

definition owner_is :: "cstr \<Rightarrow> meta_instance \<Rightarrow> bool" where
  "owner_is owner i \<longleftrightarrow> mi_owner_name i \<noteq> None \<and> rt_streq owner (mi_owner_name i)"

fun of_loop :: "amem \<Rightarrow> cstr \<Rightarrow> (meta_module \<times> meta_instance) list \<Rightarrow> kn_list option \<Rightarrow> kn_list option" where
  "of_loop m owner [] l = l"
| "of_loop m owner ((md, i) # vs) l =
     (if \<not> owner_is owner i then of_loop m owner vs l
      else of_loop m owner vs (meta_list_add_string m l (mi_meta_qname i)))"

definition meta_of :: "amem \<Rightarrow> meta_reg list \<Rightarrow> cstr \<Rightarrow> kn_list option" where
  "meta_of m regs owner =
     (case list_new m of None \<Rightarrow> None
      | Some l \<Rightarrow> if owner = None \<or> owner = Some [] then Some l
                  else of_loop m owner (meta_visits regs) (Some l))"

fun has_loop :: "cstr \<Rightarrow> cstr \<Rightarrow> (meta_module \<times> meta_instance) list \<Rightarrow> bool" where
  "has_loop owner want [] = False"
| "has_loop owner want ((md, i) # vs) =
     (if \<not> owner_is owner i then has_loop owner want vs
      else if meta_name_match want (mi_meta_qname i) (mi_meta_name i) then True
      else has_loop owner want vs)"

definition meta_has :: "meta_reg list \<Rightarrow> cstr \<Rightarrow> cstr \<Rightarrow> bool" where
  "meta_has regs owner want =
     (if owner = None \<or> owner = Some [] \<or> want = None \<or> want = Some [] then False
      else has_loop owner want (meta_visits regs))"

subsection \<open>An instance as a dictionary\<close>

definition meta_dict_set_string :: "amem \<Rightarrow> kn_dict option \<Rightarrow> char list \<Rightarrow> cstr \<Rightarrow> kn_dict option" where
  "meta_dict_set_string m d key v = dict_set m d (Some key) KN_ANY_TAG_STRING (StrP (Some (str v)))"

definition meta_dict_set_i64 :: "amem \<Rightarrow> kn_dict option \<Rightarrow> char list \<Rightarrow> u64 \<Rightarrow> kn_dict option" where
  "meta_dict_set_i64 m d key v = dict_set m d (Some key) KN_ANY_TAG_I64 (Bits v)"

definition meta_dict_set_ptr :: "amem \<Rightarrow> kn_dict option \<Rightarrow> char list \<Rightarrow> u64 \<Rightarrow> kn_dict option" where
  "meta_dict_set_ptr m d key v = dict_set m d (Some key) KN_ANY_TAG_PTR (Bits v)"

definition meta_arg_key :: "amem \<Rightarrow> cstr \<Rightarrow> cstr" where
  "meta_arg_key m name =
     (if alloc_ok m (length (str name) + 5) then Some (''arg.'' @ str name) else Some [])"

fun set_args :: "amem \<Rightarrow> meta_arg list \<Rightarrow> kn_dict option \<Rightarrow> kn_dict option" where
  "set_args m [] d = d"
| "set_args m (a # as) d =
     set_args m as (dict_set m d (meta_arg_key m (ma_name a)) (ma_tag a) (ma_payload a))"

definition meta_build_instance_dict :: "amem \<Rightarrow> meta_module \<Rightarrow> meta_instance option \<Rightarrow> kn_dict option" where
  "meta_build_instance_dict m md ip =
     (let item = dict_new m
      in case ip of None \<Rightarrow> item
         | Some i \<Rightarrow>
             if item = None then item
             else (let d = meta_dict_set_string m item ''owner'' (mi_owner_name i);
                       d = meta_dict_set_i64 m d ''owner_kind'' (mi_owner_kind i);
                       d = meta_dict_set_i64 m d ''owner_param_count'' (mi_owner_param_count i);
                       d = meta_dict_set_ptr m d ''owner_ptr'' (mi_owner_ptr i);
                       d = meta_dict_set_string m d ''module'' (mm_name md);
                       d = meta_dict_set_string m d ''meta'' (mi_meta_qname i);
                       d = meta_dict_set_string m d ''name'' (mi_meta_name i);
                       d = meta_dict_set_i64 m d ''arg_count'' (of_nat (mi_arg_count i))
                   in case mi_args i of None \<Rightarrow> d
                      | Some as \<Rightarrow> set_args m (take (mi_arg_count i) as) d))"

fun find_loop :: "amem \<Rightarrow> cstr \<Rightarrow> cstr \<Rightarrow> (meta_module \<times> meta_instance) list \<Rightarrow> kn_dict option" where
  "find_loop m owner want [] = None"
| "find_loop m owner want ((md, i) # vs) =
     (if \<not> owner_is owner i then find_loop m owner want vs
      else if meta_name_match want (mi_meta_qname i) (mi_meta_name i)
      then meta_build_instance_dict m md (Some i)
      else find_loop m owner want vs)"

definition meta_find :: "amem \<Rightarrow> meta_reg list \<Rightarrow> cstr \<Rightarrow> cstr \<Rightarrow> kn_dict option" where
  "meta_find m regs owner want =
     (if owner = None \<or> owner = Some [] \<or> want = None \<or> want = Some [] then None
      else find_loop m owner want (meta_visits regs))"

subsection \<open>What the queries answer\<close>

definition attached :: "cstr \<Rightarrow> cstr \<Rightarrow> meta_instance \<Rightarrow> bool" where
  "attached owner want i \<longleftrightarrow> owner_is owner i \<and> meta_name_match want (mi_meta_qname i) (mi_meta_name i)"

lemma has_loop_iff: "has_loop owner want vs \<longleftrightarrow> (\<exists>(md, i) \<in> set vs. attached owner want i)"
  by (induction vs) (auto simp: attached_def split: if_splits)

lemma find_loop_first:
  "\<forall>(md, i) \<in> set us. \<not> attached owner want i \<Longrightarrow> attached owner want i \<Longrightarrow>
   find_loop m owner want (us @ (md, i) # vs) = meta_build_instance_dict m md (Some i)"
  by (induction us) (auto simp: attached_def)

definition meta_fields :: "meta_module \<Rightarrow> meta_instance \<Rightarrow> (char list \<times> any_value) list" where
  "meta_fields md i =
     [(''owner'', KN_ANY_TAG_STRING, StrP (Some (str (mi_owner_name i)))),
      (''owner_kind'', KN_ANY_TAG_I64, Bits (mi_owner_kind i)),
      (''owner_param_count'', KN_ANY_TAG_I64, Bits (mi_owner_param_count i)),
      (''owner_ptr'', KN_ANY_TAG_PTR, Bits (mi_owner_ptr i)),
      (''module'', KN_ANY_TAG_STRING, StrP (Some (str (mm_name md)))),
      (''meta'', KN_ANY_TAG_STRING, StrP (Some (str (mi_meta_qname i)))),
      (''name'', KN_ANY_TAG_STRING, StrP (Some (str (mi_meta_name i)))),
      (''arg_count'', KN_ANY_TAG_I64, Bits (of_nat (mi_arg_count i)))]"

definition args_of :: "meta_instance \<Rightarrow> meta_arg list" where
  "args_of i = (case mi_args i of None \<Rightarrow> [] | Some as \<Rightarrow> take (mi_arg_count i) as)"

definition arg_fields :: "meta_arg list \<Rightarrow> (char list \<times> any_value) list" where
  "arg_fields as = map (\<lambda>a. (''arg.'' @ str (ma_name a), ma_tag a, ma_payload a)) as"

lemma set_args_put_seq:
  assumes "plenty m" "\<forall>a \<in> set as. length (str (ma_name a)) + 5 < 2 ^ 63"
  shows "set_args m as d = dm.put_seq m (arg_fields as) d"
  using assms(2)
  by (induction as arbitrary: d) (simp_all add: assms(1) meta_arg_key_def arg_fields_def)

lemma build_put_seq:
  assumes "plenty m" "\<forall>a \<in> set (args_of i). length (str (ma_name a)) + 5 < 2 ^ 63"
  shows "meta_build_instance_dict m md (Some i) =
    dm.put_seq m (meta_fields md i @ arg_fields (args_of i)) (dict_new m)"
proof -
  have "dict_new m \<noteq> None" using assms(1) by (simp add: dict_new_def)
  moreover have "dm.put_seq m (xs @ ys) d = dm.put_seq m ys (dm.put_seq m xs d)" for xs ys d
    by (simp add: dm.put_seq_def)
  ultimately show ?thesis
    using set_args_put_seq [OF assms(1), of "args_of i"] assms(2)
    by (auto simp: meta_build_instance_dict_def Let_def meta_fields_def meta_dict_set_string_def
        meta_dict_set_i64_def meta_dict_set_ptr_def args_of_def arg_fields_def split: option.split)
qed

lemma map_of_arg_fields:
  "map_of (rev (arg_fields as)) (''arg.'' @ n) =
   map_of (rev (map (\<lambda>a. (str (ma_name a), ma_tag a, ma_payload a)) as)) n"
  unfolding arg_fields_def by (induction as) (auto simp: map_add_def split: option.split)

lemma no_arg_field:
  assumes "take 4 k \<noteq> ''arg.''"
  shows "map_of (rev (arg_fields as)) k = None"
  using assms by (auto simp: map_of_eq_None_iff arg_fields_def)

text \<open>An instance names the owner and, by its full or its short name, the attribute.\<close>

definition exports :: "cstr \<Rightarrow> cstr \<Rightarrow> meta_instance \<Rightarrow> bool" where
  "exports owner want i \<longleftrightarrow> owner \<notin> {None, Some []} \<and> want \<notin> {None, Some []} \<and>
     mi_owner_name i = owner \<and> (mi_meta_qname i = want \<or> mi_meta_name i = want)"

lemma exports_attached:
  "exports owner want i \<longleftrightarrow> owner \<notin> {None, Some []} \<and> want \<notin> {None, Some []} \<and> attached owner want i"
  by (auto simp: exports_def attached_def owner_is_def meta_name_match_def rt_streq_iff)

text \<open>The dictionary of an instance.\<close>

definition describes :: "kn_dict \<Rightarrow> meta_module \<Rightarrow> meta_instance \<Rightarrow> bool" where
  "describes d md i \<longleftrightarrow> dict_inv d \<and>
     (\<forall>(k, v) \<in> set (meta_fields md i). dict_get (Some d) (Some k) = v) \<and>
     (\<forall>n. dict_get (Some d) (Some (''arg.'' @ n)) =
       (case map_of (rev (map (\<lambda>a. (str (ma_name a), ma_tag a, ma_payload a)) (args_of i))) n of
          None \<Rightarrow> (0, Bits 0) | Some v \<Rightarrow> v))"

lemma build_describes:
  assumes "plenty m" "\<forall>a \<in> set (args_of i). length (str (ma_name a)) + 5 < 2 ^ 63" "length (args_of i) + 8 \<le> dict_limit"
  shows "\<exists>d. meta_build_instance_dict m md (Some i) = Some d \<and> describes d md i"
proof -
  let ?d0 = "\<lparr>d_count = 0, d_cap = 0, d_entries = []\<rparr>"
  let ?kvs = "meta_fields md i @ arg_fields (args_of i)"
  have new: "dict_new m = Some ?d0" using assms(1) by (simp add: dict_new_def)
  have l: "d_count ?d0 + length ?kvs \<le> dict_limit" using assms(3) by (simp add: meta_fields_def arg_fields_def)
  obtain d where d: "dm.put_seq m ?kvs (Some ?d0) = Some d" "dict_inv d"
    using dm.put_seq_spec [OF assms(1) dict_inv_empty l] by blast
  have b: "meta_build_instance_dict m md (Some i) = Some d" using build_put_seq [OF assms(1,2)] d(1) new by simp
  note g = dm.fetch_put_seq [OF assms(1) dict_inv_empty l d(1)]
  have e: "dict_get (Some ?d0) k = (0, Bits 0)" for k by (simp add: dict_get_def)
  have args: "map_of (rev ?kvs) (''arg.'' @ n) = map_of (rev (arg_fields (args_of i))) (''arg.'' @ n)" for n
    by (simp add: meta_fields_def map_add_def split: option.split)
  have fixed: "map_of (rev ?kvs) k = Some v" if "(k, v) \<in> set (meta_fields md i)" for k v
  proof -
    have "take 4 k \<noteq> ''arg.''" "map_of (rev (meta_fields md i)) k = Some v"
      using that by (auto simp: meta_fields_def)
    then show ?thesis using no_arg_field [of k "args_of i"] by (simp add: map_add_def)
  qed
  have "\<forall>(k, v) \<in> set (meta_fields md i). dict_get (Some d) (Some k) = v"
    using g fixed by auto
  moreover have "dict_get (Some d) (Some (''arg.'' @ n)) =
      (case map_of (rev (map (\<lambda>a. (str (ma_name a), ma_tag a, ma_payload a)) (args_of i))) n of
         None \<Rightarrow> (0, Bits 0) | Some v \<Rightarrow> v)" for n
    unfolding g args map_of_arg_fields e by (rule refl)
  ultimately show ?thesis using b d(2) by (auto simp: describes_def)
qed

lemma find_loop_none: "\<forall>(md, i) \<in> set vs. \<not> attached owner want i \<Longrightarrow> find_loop m owner want vs = None"
  by (induction vs) (auto simp: attached_def)

text \<open>
  C37: A registry says that an owner has an attribute exactly when one of its modules exports it
  there, by its full or its short name. Then the lookup returns the dictionary of the first such
  export: its fixed fields, and under \<open>arg.\<close> and a parameter's name the value of the last argument
  of that name; otherwise it returns nothing. The dictionaries are built with memory to spare, for
  instances of at most \<open>2 ^ 50 - 8\<close> arguments whose names are shorter than \<open>2 ^ 63 - 5\<close> bytes.
\<close>

theorem meta_find_describes:
  assumes "plenty m"
    and "\<forall>(md, i) \<in> set (meta_visits regs). length (args_of i) + 8 \<le> dict_limit \<and>
      (\<forall>a \<in> set (args_of i). length (str (ma_name a)) + 5 < 2 ^ 63)"
  shows "(meta_has regs owner want \<longleftrightarrow> (\<exists>(md, i) \<in> set (meta_visits regs). exports owner want i)) \<and>
    (\<not> meta_has regs owner want \<longrightarrow> meta_find m regs owner want = None) \<and>
    (\<forall>us md i vs. meta_visits regs = us @ (md, i) # vs \<and> exports owner want i \<and>
       (\<forall>(md', i') \<in> set us. \<not> exports owner want i') \<longrightarrow>
       (\<exists>d. meta_find m regs owner want = Some d \<and> describes d md i))"
proof (cases "owner \<in> {None, Some []} \<or> want \<in> {None, Some []}")
  case True
  then show ?thesis by (auto simp: meta_has_def meta_find_def exports_def)
next
  case False
  then have ex: "exports owner want i \<longleftrightarrow> attached owner want i" for i by (simp add: exports_attached)
  have has: "meta_has regs owner want \<longleftrightarrow> (\<exists>(md, i) \<in> set (meta_visits regs). attached owner want i)"
    using False by (auto simp: meta_has_def has_loop_iff)
  have find: "meta_find m regs owner want = find_loop m owner want (meta_visits regs)"
    using False by (auto simp: meta_find_def)
  have first: "\<exists>d. meta_find m regs owner want = Some d \<and> describes d md i"
    if v: "meta_visits regs = us @ (md, i) # vs" and a: "attached owner want i"
      "\<forall>(md', i') \<in> set us. \<not> attached owner want i'" for us md i vs
    using build_describes [OF assms(1), of i md] find_loop_first [OF a(2,1)] assms(2) unfolding find v by simp
  have "meta_find m regs owner want = None" if "\<not> meta_has regs owner want"
    using that unfolding has find by (intro find_loop_none) (auto simp: case_prod_beta)
  then show ?thesis unfolding ex using has first by blast
qed

definition demo_instance :: meta_instance where
  "demo_instance = \<lparr>mi_owner_name = Some ''App.Main'', mi_owner_kind = 1, mi_owner_param_count = 0,
     mi_owner_ptr = 64, mi_meta_qname = Some ''App.Route'', mi_meta_name = Some ''Route'',
     mi_args = Some [\<lparr>ma_name = Some ''path'', ma_tag = 5, ma_payload = StrP (Some ''/'')\<rparr>], mi_arg_count = 1\<rparr>"

definition demo_module :: meta_module where
  "demo_module = \<lparr>mm_address = 4096, mm_name = Some ''App'', mm_instances = Some [demo_instance]\<rparr>"

theorem meta_find_describes_witness:
  "(\<exists>d. meta_find big_mem (meta_register_main big_mem (Some demo_module) []) (Some ''App.Main'') (Some ''Route'') = Some d \<and>
      dict_get (Some d) (Some ''arg.path'') = (5, StrP (Some ''/''))) \<and>
   meta_find big_mem (meta_register_main big_mem (Some demo_module) []) (Some ''App.Main'') (Some ''Rout'') = None"
proof -
  let ?r = "meta_register_main big_mem (Some demo_module) []"
  have v: "meta_visits ?r = [] @ (demo_module, demo_instance) # []"
    by (simp add: meta_register_main_def meta_register_module_def meta_unregister_handle_def demo_module_def)
  have s: "\<forall>(md, i) \<in> set (meta_visits ?r). length (args_of i) + 8 \<le> dict_limit \<and>
      (\<forall>a \<in> set (args_of i). length (str (ma_name a)) + 5 < 2 ^ 63)"
    unfolding v by (simp add: args_of_def demo_instance_def dict_limit_def)
  have e: "exports (Some ''App.Main'') (Some ''Route'') demo_instance"
    "\<not> exports (Some ''App.Main'') (Some ''Rout'') demo_instance"
    by (simp_all add: exports_def demo_instance_def)
  obtain d where d: "meta_find big_mem ?r (Some ''App.Main'') (Some ''Route'') = Some d"
    "describes d demo_module demo_instance"
    using conjunct2 [OF conjunct2 [OF meta_find_describes [OF plenty_True s]], rule_format,
        of "[]" demo_module demo_instance "[]" "Some ''App.Main''" "Some ''Route''"] v e(1) by auto
  have "dict_get (Some d) (Some (''arg.'' @ n)) =
      (case map_of (rev (map (\<lambda>a. (str (ma_name a), ma_tag a, ma_payload a)) (args_of demo_instance))) n of
         None \<Rightarrow> (0, Bits 0) | Some v \<Rightarrow> v)" for n
    using d(2) by (simp add: describes_def)
  from this [of "''path''"] have "dict_get (Some d) (Some ''arg.path'') = (5, StrP (Some ''/''))"
    by (simp add: args_of_def demo_instance_def)
  moreover have "meta_find big_mem ?r (Some ''App.Main'') (Some ''Rout'') = None"
    using meta_find_describes [OF plenty_True s, of "Some ''App.Main''" "Some ''Rout''"] e(2) unfolding v by simp
  ultimately show ?thesis using d(1) by blast
qed

end
