(* ===== verification/RtTime.thy ===== *)
theory RtTime
  imports RtString
begin

text \<open>
  Time formatting of \<open>libs/runtime/src/kn_runtime.c\<close>: \<open>__kn_time_format\<close> and its two appenders, which
  never write past the 128 bytes of the result. The calendar fields of a tick come from the platform
  (\<open>gmtime_r\<close>, \<open>FileTimeToSystemTime\<close>) and are the parameter \<open>parts\<close>.
\<close>

subsection \<open>Appending\<close>

text \<open>A buffer of \<open>cap\<close> bytes holds its text and a terminator.\<close>

definition fmt_append_char :: "nat \<Rightarrow> char \<Rightarrow> char list \<Rightarrow> char list" where
  "fmt_append_char cap c buf = (if length buf + 1 \<ge> cap then buf else buf @ [c])"

text \<open>The digits in \<open>tmp\<close>, lowest first; it has room for 16.\<close>

function uint_digits :: "nat \<Rightarrow> char list \<Rightarrow> char list" where
  "uint_digits x tmp =
     (if x \<noteq> 0 \<and> length tmp < 16 then uint_digits (x div 10) (tmp @ [char_of (48 + x mod 10)]) else tmp)"
  by pat_completeness auto
termination
  by (relation "measure (\<lambda>(x, tmp). 16 - length tmp)") auto

declare uint_digits.simps [simp del]

definition pad_zeros :: "nat \<Rightarrow> char list \<Rightarrow> char list" where
  "pad_zeros width tmp = tmp @ replicate (min width 16 - length tmp) CHR ''0''"

definition fmt_append_uint :: "nat \<Rightarrow> 32 word \<Rightarrow> nat \<Rightarrow> char list \<Rightarrow> char list" where
  "fmt_append_uint cap v width buf =
     (let neg = sint v < 0; x = unat (if neg then - v else v);
          tmp = (if x = 0 then [CHR ''0''] else uint_digits x []);
          tmp = pad_zeros width tmp;
          buf = (if neg then fmt_append_char cap CHR ''-'' buf else buf)
      in fold (fmt_append_char cap) (rev tmp) buf)"

subsection \<open>The pattern\<close>

record time_parts =
  tp_year :: "32 word"
  tp_month :: "32 word"
  tp_day :: "32 word"
  tp_hour :: "32 word"
  tp_minute :: "32 word"
  tp_second :: "32 word"
  tp_millis :: "32 word"

definition clamp_i32 :: "u64 \<Rightarrow> 32 word" where
  "clamp_i32 v = (if v > 0x7fffffff then 0x7fffffff else ucast v)"

fun format_loop :: "nat \<Rightarrow> time_parts \<Rightarrow> char list \<Rightarrow> char list \<Rightarrow> char list" where
  "format_loop cap p [] out = out"
| "format_loop cap p (c # cs) out =
     (if take 4 (c # cs) = ''yyyy'' then format_loop cap p (drop 3 cs) (fmt_append_uint cap (tp_year p) 4 out)
      else if take 2 (c # cs) = ''MM'' then format_loop cap p (drop 1 cs) (fmt_append_uint cap (tp_month p) 2 out)
      else if take 2 (c # cs) = ''dd'' then format_loop cap p (drop 1 cs) (fmt_append_uint cap (tp_day p) 2 out)
      else if take 2 (c # cs) = ''HH'' then format_loop cap p (drop 1 cs) (fmt_append_uint cap (tp_hour p) 2 out)
      else if take 2 (c # cs) = ''mm'' then format_loop cap p (drop 1 cs) (fmt_append_uint cap (tp_minute p) 2 out)
      else if take 2 (c # cs) = ''ss'' then format_loop cap p (drop 1 cs) (fmt_append_uint cap (tp_second p) 2 out)
      else if take 3 (c # cs) = ''fff'' then format_loop cap p (drop 2 cs) (fmt_append_uint cap (tp_millis p) 3 out)
      else format_loop cap p cs (fmt_append_char cap c out))"

definition time_format :: "amem \<Rightarrow> (u64 \<Rightarrow> time_parts) \<Rightarrow> u64 \<Rightarrow> cstr \<Rightarrow> char list" where
  "time_format m parts tick pattern =
     (let p = parts tick;
          fmt = (if pattern \<noteq> None \<and> pattern \<noteq> Some [] then str pattern else ''yyyy-MM-dd HH:mm:ss'')
      in if alloc_ok m 128 then format_loop 128 p fmt [] else [])"

subsection \<open>Bounds and digits\<close>

lemma fmt_append_char_fits: "length buf < cap \<Longrightarrow> length (fmt_append_char cap c buf) < cap"
  by (simp add: fmt_append_char_def)

lemma fold_append_fits: "length buf < cap \<Longrightarrow> length (fold (fmt_append_char cap) cs buf) < cap"
  by (induction cs arbitrary: buf) (simp_all add: fmt_append_char_fits)

text \<open>Appending keeps what fits before the terminator.\<close>

lemma fold_append_take:
  "length buf < cap \<Longrightarrow> fold (fmt_append_char cap) cs buf = take (cap - 1) (buf @ cs)"
proof (induction cs arbitrary: buf)
  case (Cons c cs)
  then have "fold (fmt_append_char cap) cs (fmt_append_char cap c buf) =
      take (cap - 1) (fmt_append_char cap c buf @ cs)"
    by (intro Cons.IH fmt_append_char_fits)
  then show ?case using Cons.prems by (cases "length buf + 1 \<ge> cap") (auto simp: fmt_append_char_def [of cap c buf])
qed auto

lemma take_take_append: "take n (take n xs @ ys) = take n (xs @ ys)"
  by (simp add: min_def)

lemma fmt_append_uint_fits: "length buf < cap \<Longrightarrow> length (fmt_append_uint cap v w buf) < cap"
  by (simp add: fmt_append_uint_def Let_def fold_append_fits fmt_append_char_fits)

lemma format_loop_fits: "length out < cap \<Longrightarrow> length (format_loop cap p cs out) < cap"
  by (induction cap p cs out rule: format_loop.induct)
    (auto simp: fmt_append_uint_fits fmt_append_char_fits)

text \<open>The value of digits, lowest first.\<close>

fun digits_value :: "char list \<Rightarrow> nat" where
  "digits_value [] = 0"
| "digits_value (c # cs) = (byte_of c - 48) + 10 * digits_value cs"

lemma digits_value_append: "digits_value (xs @ ys) = digits_value xs + 10 ^ length xs * digits_value ys"
  by (induction xs) (simp_all add: algebra_simps)

lemma digits_value_zeros: "digits_value (replicate n CHR ''0'') = 0"
  by (induction n) (simp_all add: byte_of_def)

lemma uint_digits_value:
  "x < 10 ^ (16 - length tmp) \<Longrightarrow> length tmp \<le> 16 \<Longrightarrow>
   digits_value (uint_digits x tmp) = digits_value tmp + 10 ^ length tmp * x \<and>
   length (uint_digits x tmp) \<le> 16"
proof (induction x tmp rule: uint_digits.induct)
  case (1 x tmp)
  show ?case
  proof (cases "x \<noteq> 0 \<and> length tmp < 16")
    case True
    have "16 - length tmp = Suc (16 - Suc (length tmp))" using True by arith
    then have "10 ^ (16 - length tmp) = 10 ^ (16 - Suc (length tmp)) * (10::nat)" by simp
    then have "x div 10 < 10 ^ (16 - Suc (length tmp))"
      using 1(2) less_mult_imp_div_less [of x "10 ^ (16 - Suc (length tmp))" 10] by simp
    moreover have "byte_of (char_of (48 + x mod 10) :: char) = 48 + x mod 10"
      by (simp add: byte_of_def of_char_of take_bit_eq_mod)
    moreover have "x mod 10 * 10 ^ length tmp + 10 * 10 ^ length tmp * (x div 10) = x * 10 ^ length tmp"
    proof -
      have "(x mod 10 + 10 * (x div 10)) * 10 ^ length tmp = x * 10 ^ length tmp" by simp
      then show ?thesis by (simp only: algebra_simps)
    qed
    ultimately show ?thesis
      using 1(1) True
      by (subst (1 2) uint_digits.simps) (simp add: digits_value_append algebra_simps)
  next
    case False
    then show ?thesis using 1(2,3) by (subst (1 2) uint_digits.simps) (auto simp: not_less)
  qed
qed

lemma uint_digits_length: "x < 10 ^ k \<Longrightarrow> length (uint_digits x tmp) \<le> length tmp + k"
proof (induction k arbitrary: x tmp)
  case 0
  then show ?case by (subst uint_digits.simps) simp
next
  case (Suc k)
  have "x div 10 < 10 ^ k" using Suc(2) less_mult_imp_div_less [of x "10 ^ k" 10] by simp
  then show ?case using Suc(1) [of "x div 10" "tmp @ [char_of (48 + x mod 10)]"]
    by (subst uint_digits.simps) simp
qed

text \<open>A field below \<open>10 ^ w\<close> is written as exactly \<open>w\<close> digits that denote it.\<close>

definition decimal :: "char \<Rightarrow> bool" where
  "decimal c \<longleftrightarrow> 48 \<le> byte_of c \<and> byte_of c \<le> 57"

lemma uint_digits_decimal: "list_all decimal tmp \<Longrightarrow> list_all decimal (uint_digits x tmp)"
proof (induction x tmp rule: uint_digits.induct)
  case (1 x tmp)
  have "decimal (char_of (48 + x mod 10))"
    by (simp add: decimal_def byte_of_def of_char_of take_bit_eq_mod)
  then show ?case using 1 by (subst uint_digits.simps) simp
qed

definition field_text :: "nat \<Rightarrow> 32 word \<Rightarrow> char list \<Rightarrow> bool" where
  "field_text w v t \<longleftrightarrow> length t = w \<and> list_all decimal t \<and> digits_value (rev t) = unat v"

lemma fmt_append_uint_field:
  assumes v: "0 \<le> sint v" "unat v < 10 ^ w" and w: "0 < w" "w \<le> 16"
  obtains t where "field_text w v t"
    "\<And>buf. length buf < cap \<Longrightarrow> fmt_append_uint cap v w buf = take (cap - 1) (buf @ t)"
proof -
  define d where "d = (if unat v = 0 then ''0'' else uint_digits (unat v) [])"
  have small: "unat v < 10 ^ 16"
    using v(2) power_increasing [OF w(2), of "10 :: nat"] by linarith
  have d: "length d \<le> w" "digits_value d = unat v"
    using uint_digits_length [OF v(2), of "[]"] uint_digits_value [of "unat v" "[]"] small w
    by (auto simp: d_def byte_of_def)
  have "length (pad_zeros w d) = w" "digits_value (pad_zeros w d) = unat v"
    using d w by (simp_all add: pad_zeros_def digits_value_append digits_value_zeros)
  moreover have "list_all decimal (pad_zeros w d)"
    using uint_digits_decimal [of "[]" "unat v"]
    by (auto simp: pad_zeros_def d_def decimal_def byte_of_def list_all_iff)
  ultimately have "field_text w v (rev (pad_zeros w d))" by (simp add: field_text_def list_all_rev)
  moreover have "fmt_append_uint cap v w buf = take (cap - 1) (buf @ rev (pad_zeros w d))"
    if "length buf < cap" for buf
    using v(1) fold_append_take [OF that] by (simp add: fmt_append_uint_def Let_def d_def)
  ultimately show ?thesis by (rule that)
qed

subsection \<open>What a pattern means\<close>

text \<open>The fields by name, with their values and widths.\<close>

definition time_fields :: "(string \<times> (time_parts \<Rightarrow> 32 word) \<times> nat) list" where
  "time_fields = [(''yyyy'', tp_year, 4), (''MM'', tp_month, 2), (''dd'', tp_day, 2), (''HH'', tp_hour, 2),
     (''mm'', tp_minute, 2), (''ss'', tp_second, 2), (''fff'', tp_millis, 3)]"

text \<open>
  The text of a pattern, read from the left: where the name of a field stands, the digits of the
  field; any other character is itself.
\<close>

inductive expands :: "time_parts \<Rightarrow> char list \<Rightarrow> char list \<Rightarrow> bool" for p where
  expands_end: "expands p [] []"
| expands_field: "(name, get, w) \<in> set time_fields \<Longrightarrow> field_text w (get p) t \<Longrightarrow> expands p pat out \<Longrightarrow>
    expands p (name @ pat) (t @ out)"
| expands_char: "\<forall>(name, _) \<in> set time_fields. take (length name) (c # pat) \<noteq> name \<Longrightarrow> expands p pat out \<Longrightarrow>
    expands p (c # pat) (c # out)"

text \<open>The fields of a valid time fit their widths.\<close>

definition parts_ok :: "time_parts \<Rightarrow> bool" where
  "parts_ok p \<longleftrightarrow> (\<forall>(_, get, w) \<in> set time_fields. 0 \<le> sint (get p) \<and> unat (get p) < 10 ^ w)"

text \<open>One field of the loop, with the rest of the pattern.\<close>

lemma field_step:
  assumes ok: "parts_ok p" and f: "(name, get, w) \<in> set time_fields" and out: "length out < cap"
    and rest: "\<And>buf. length buf < cap \<Longrightarrow> \<exists>t. expands p pat t \<and> format_loop cap p pat buf = take (cap - 1) (buf @ t)"
  shows "\<exists>t. expands p (name @ pat) t \<and>
    format_loop cap p pat (fmt_append_uint cap (get p) w out) = take (cap - 1) (out @ t)"
proof -
  have v: "0 \<le> sint (get p)" "unat (get p) < 10 ^ w" using ok f by (auto simp: parts_ok_def)
  have w: "0 < w" "w \<le> 16" using f by (auto simp: time_fields_def)
  obtain t where t: "field_text w (get p) t"
    "\<And>buf. length buf < cap \<Longrightarrow> fmt_append_uint cap (get p) w buf = take (cap - 1) (buf @ t)"
    using fmt_append_uint_field [OF v w] by blast
  obtain u where u: "expands p pat u"
    "format_loop cap p pat (fmt_append_uint cap (get p) w out) = take (cap - 1) (fmt_append_uint cap (get p) w out @ u)"
    using rest [OF fmt_append_uint_fits [OF out]] by blast
  have "expands p (name @ pat) (t @ u)" by (rule expands_field [OF f t(1) u(1)])
  then show ?thesis using u(2) t(2) [OF out] take_take_append [of "cap - 1" "out @ t" u] by auto
qed

lemma loop_field:
  "(name, get, w) \<in> set time_fields \<Longrightarrow>
   format_loop cap p (name @ rest) out = format_loop cap p rest (fmt_append_uint cap (get p) w out)"
  by (auto simp: time_fields_def)

lemma take_prefix: "take n xs = ys \<Longrightarrow> xs = ys @ drop n xs"
  by (metis append_take_drop_id)

lemma format_loop_expands:
  assumes "parts_ok p"
  shows "length out < cap \<Longrightarrow> \<exists>t. expands p cs t \<and> format_loop cap p cs out = take (cap - 1) (out @ t)"
proof (induction "length cs" arbitrary: cs out rule: less_induct)
  case less
  show ?case
  proof (cases cs)
    case Nil
    then show ?thesis using less.prems by (intro exI [of _ "[]"]) (simp add: expands_end)
  next
    case cs: (Cons c r)
    show ?thesis
    proof (cases "\<exists>name get w. (name, get, w) \<in> set time_fields \<and> take (length name) cs = name")
      case True
      then obtain name get w where f: "(name, get, w) \<in> set time_fields" "take (length name) cs = name" by blast
      let ?rest = "drop (length name) cs"
      have "format_loop cap p cs out = format_loop cap p ?rest (fmt_append_uint cap (get p) w out)"
        using loop_field [OF f(1), of cap p ?rest out] unfolding take_prefix [OF f(2), symmetric] .
      moreover have "name \<noteq> []" using f(1) by (auto simp: time_fields_def)
      then have "length ?rest < length cs" using cs by (cases name) auto
      then have "\<exists>t. expands p (name @ ?rest) t \<and>
          format_loop cap p ?rest (fmt_append_uint cap (get p) w out) = take (cap - 1) (out @ t)"
        by (intro field_step [OF assms f(1) less.prems] less.hyps)
      ultimately show ?thesis by (simp only: take_prefix [OF f(2), symmetric])
    next
      case False
      then have no: "\<forall>(name, _) \<in> set time_fields. take (length name) (c # r) \<noteq> name"
        unfolding cs by (intro ballI) (clarsimp, blast)
      then have step: "format_loop cap p cs out = format_loop cap p r (fmt_append_char cap c out)"
        unfolding cs by (auto simp: time_fields_def numeral_2_eq_2 numeral_3_eq_3)
      obtain t where t: "expands p r t"
        "format_loop cap p r (fmt_append_char cap c out) = take (cap - 1) (fmt_append_char cap c out @ t)"
        using less.hyps [of r "fmt_append_char cap c out"] fmt_append_char_fits [OF less.prems] cs by auto
      have "fmt_append_char cap c out = take (cap - 1) (out @ [c])"
        using fold_append_take [OF less.prems, of "[c]"] by simp
      then show ?thesis
        using expands_char [OF no t(1)] t(2) step take_take_append [of "cap - 1" "out @ [c]" t] unfolding cs by auto
    qed
  qed
qed

text \<open>
  C38: Whatever the pattern, a formatted time is the pattern with every field name, read from the
  left, replaced by the decimal digits of that field at its full width, years, months, days, hours,
  minutes, seconds and milliseconds, and every other character kept, cut at 127 characters so that
  it fits its buffer; a missing or empty pattern stands for the date and the time. The buffer of 128
  bytes is available, and no field is negative or has more digits than its width.
\<close>

theorem time_format_fields:
  assumes "alloc_ok m 128" "parts_ok (parts tick)"
  shows "\<exists>text. expands (parts tick)
      (if pattern = None \<or> pattern = Some [] then ''yyyy-MM-dd HH:mm:ss'' else the pattern) text \<and>
    time_format m parts tick pattern = take 127 text"
proof -
  let ?fmt = "if pattern = None \<or> pattern = Some [] then ''yyyy-MM-dd HH:mm:ss'' else the pattern"
  have "time_format m parts tick pattern = format_loop 128 (parts tick) ?fmt []"
    using assms(1) by (auto simp: time_format_def Let_def str_def split: option.splits)
  then show ?thesis using format_loop_expands [OF assms(2), of "[]" 128 ?fmt] by simp
qed

definition demo_parts :: "u64 \<Rightarrow> time_parts" where
  "demo_parts t = \<lparr>tp_year = 2024, tp_month = 2, tp_day = 29, tp_hour = 7, tp_minute = 5, tp_second = 0, tp_millis = 12\<rparr>"

theorem time_format_fields_witness:
  "expands (demo_parts 0) ''ss.fff'' ''00.012'' \<and>
   (\<exists>text. expands (demo_parts 0) ''ss.fff'' text \<and> time_format big_mem demo_parts 0 (Some ''ss.fff'') = take 127 text)"
proof -
  have ok: "alloc_ok big_mem 128" "parts_ok (demo_parts 0)"
    by (simp_all add: parts_ok_def time_fields_def demo_parts_def)
  have f: "field_text 2 (tp_second (demo_parts 0)) ''00''" "field_text 3 (tp_millis (demo_parts 0)) ''012''"
    by (simp_all add: field_text_def decimal_def demo_parts_def byte_of_def)
  have "expands (demo_parts 0) (''fff'' @ []) (''012'' @ [])"
    by (rule expands_field [where get = tp_millis and w = 3]) (simp_all add: time_fields_def f(2) expands_end)
  then have "expands (demo_parts 0) ''.fff'' ''.012''"
    by (intro expands_char) (simp_all add: time_fields_def)
  then have "expands (demo_parts 0) (''ss'' @ ''.fff'') (''00'' @ ''.012'')"
    by (intro expands_field [where get = tp_second and w = 2]) (simp_all add: time_fields_def f(1))
  then show ?thesis
    using time_format_fields [where parts = demo_parts and tick = 0 and pattern = "Some ''ss.fff''", OF ok] by auto
qed

end
