(* ===== verification/Util.thy ===== *)
theory Util
  imports Prelude "HOL-Library.Option_ord"
begin

text \<open>
  The compiler's own support code, \<open>apps/kinal/src/kn_util.c\<close>: string comparison, bounded
  appending, decimal output, the command line and the temporary arena. A C string is the list of
  its bytes before the terminating zero; \<open>c_string\<close> says that none of them is zero.
\<close>

definition NUL :: char where
  "NUL = CHR 0x00"

definition c_string :: "char list \<Rightarrow> bool" where
  "c_string s \<longleftrightarrow> NUL \<notin> set s"

text \<open>\<open>s[i]\<close>, the terminator included.\<close>

definition at :: "char list \<Rightarrow> nat \<Rightarrow> char" where
  "at s i = (if i < length s then s ! i else NUL)"

lemma at_simps [simp]: "at [] i = NUL" "at (x # xs) 0 = x" "at (x # xs) (Suc i) = at xs i"
  by (simp_all add: at_def)

lemma at_NUL_iff: "c_string s \<Longrightarrow> at s i = NUL \<longleftrightarrow> length s \<le> i"
  by (auto simp: at_def c_string_def dest: nth_mem)

subsection \<open>Comparison\<close>

fun kn_strlen :: "cstr \<Rightarrow> nat" where
  "kn_strlen None = 0"
| "kn_strlen (Some s) = length s"

fun strncmp_loop :: "char list \<Rightarrow> char list \<Rightarrow> nat \<Rightarrow> int" where
  "strncmp_loop a b 0 = 0"
| "strncmp_loop a b (Suc n) =
     (let ac = at a 0; bc = at b 0
      in if ac \<noteq> bc then (if byte_of ac < byte_of bc then -1 else 1)
         else if ac = NUL then 0
         else strncmp_loop (tl a) (tl b) n)"

definition kn_strncmp :: "cstr \<Rightarrow> cstr \<Rightarrow> nat \<Rightarrow> int" where
  "kn_strncmp a b n =
     (case a of None \<Rightarrow> (if b = None then 0 else -1)
      | Some s \<Rightarrow> (case b of None \<Rightarrow> 1 | Some t \<Rightarrow> strncmp_loop s t n))"

definition kn_strcmp :: "cstr \<Rightarrow> cstr \<Rightarrow> int" where
  "kn_strcmp a b =
     (let na = kn_strlen a; nb = kn_strlen b; n = (if na < nb then na else nb); c = kn_strncmp a b n
      in if c \<noteq> 0 then c else if na = nb then 0 else if na < nb then -1 else 1)"

lemma strncmp_loop_eq_0:
  "c_string a \<Longrightarrow> c_string b \<Longrightarrow> strncmp_loop a b n = 0 \<longleftrightarrow> take n a = take n b"
proof (induction a b n rule: strncmp_loop.induct)
  case (2 a b n)
  then show ?case by (cases a; cases b) (auto simp: Let_def c_string_def)
qed simp

lemma strncmp_loop_equal_length:
  "c_string a \<Longrightarrow> c_string b \<Longrightarrow> length a = n \<Longrightarrow> length b = n \<Longrightarrow> strncmp_loop a b n = 0 \<longleftrightarrow> a = b"
  by (simp add: strncmp_loop_eq_0)

lemma kn_strncmp_eq_0:
  "c_string a \<Longrightarrow> c_string b \<Longrightarrow> kn_strncmp (Some a) (Some b) n = 0 \<longleftrightarrow> take n a = take n b"
  by (simp add: kn_strncmp_def strncmp_loop_eq_0)

text \<open>Comparing the common length and then the lengths decides the lexicographic order.\<close>

lemma strncmp_lex:
  "c_string a \<Longrightarrow> c_string b \<Longrightarrow>
     (strncmp_loop a b (min (length a) (length b)) < 0 \<or>
      strncmp_loop a b (min (length a) (length b)) = 0 \<and> length a < length b) = (a < b)"
proof (induction a arbitrary: b)
  case Nil
  then show ?case by (cases b) auto
next
  case (Cons x a)
  show ?case
  proof (cases b)
    case Nil
    then show ?thesis by simp
  next
    case b: (Cons y b')
    have "c_string a" "c_string b'" "x \<noteq> NUL" using Cons.prems b by (auto simp: c_string_def)
    then show ?thesis using Cons.IH [of b'] b
      by (auto simp: Let_def byte_of_less_iff)
  qed
qed

text \<open>
  \<open>kn_strcmp\<close> is the lexicographic order of the bytes, the null pointer before every string:
  negative exactly when the first is smaller, zero exactly when they are equal.
\<close>

theorem kn_strcmp_order:
  assumes "\<forall>s. a = Some s \<longrightarrow> c_string s" "\<forall>s. b = Some s \<longrightarrow> c_string s"
  shows "(kn_strcmp a b < 0) = (a < b) \<and> (kn_strcmp a b = 0) = (a = b)"
proof (cases a)
  case None
  then show ?thesis by (cases b) (auto simp: kn_strcmp_def kn_strncmp_def)
next
  case a: (Some s)
  show ?thesis
  proof (cases b)
    case None
    then show ?thesis using a by (simp add: kn_strcmp_def kn_strncmp_def)
  next
    case b: (Some t)
    have cs: "c_string s" "c_string t" using assms a b by auto
    have lt: "(kn_strcmp a b < 0) = (s < t)"
      using strncmp_lex [OF cs] a b
      by (auto simp: kn_strcmp_def kn_strncmp_def Let_def min_def not_less le_less split: if_splits)
    have "(kn_strcmp a b = 0) = (s = t)"
      using strncmp_loop_equal_length [OF cs, of "length s"] a b
      by (auto simp: kn_strcmp_def kn_strncmp_def Let_def)
    with lt show ?thesis using a b by simp
  qed
qed

theorem kn_strcmp_order_witness:
  "kn_strcmp (Some ''ab'') (Some ''abc'') < 0 \<and> kn_strcmp (Some ''b'') (Some ''abc'') \<noteq> 0"
  using kn_strcmp_order [of "Some ''ab''" "Some ''abc''"] kn_strcmp_order [of "Some ''b''" "Some ''abc''"]
  by (simp add: c_string_def NUL_def)

subsection \<open>Appending to a bounded buffer\<close>

fun append_loop :: "char list \<Rightarrow> nat \<Rightarrow> nat \<Rightarrow> char list \<Rightarrow> char list \<times> nat" where
  "append_loop buf cap off [] = (buf, off)"
| "append_loop buf cap off (c # s) =
     (if off + 1 < cap then append_loop (buf[off := c]) cap (off + 1) s else (buf, off))"

definition kn_append :: "char list \<Rightarrow> nat \<Rightarrow> nat \<Rightarrow> cstr \<Rightarrow> char list \<times> nat" where
  "kn_append buf cap off s =
     (case s of None \<Rightarrow> (buf, off)
      | Some t \<Rightarrow> (case append_loop buf cap off t of (b, n) \<Rightarrow> (b[n := NUL], n)))"

lemma append_loop_spec:
  "length buf = cap \<Longrightarrow> off < cap \<Longrightarrow> append_loop buf cap off s = (b, n) \<Longrightarrow>
     length b = cap \<and> n = min (off + length s) (cap - 1) \<and>
     take n b = take off buf @ take (n - off) s"
proof (induction buf cap off s arbitrary: b n rule: append_loop.induct)
  case (2 buf cap off c s)
  show ?case
  proof (cases "off + 1 < cap")
    case True
    then have eq: "append_loop (buf[off := c]) cap (off + 1) s = (b, n)" using "2.prems" by simp
    have IH: "length b = cap \<and> n = min (off + 1 + length s) (cap - 1) \<and>
        take n b = take (off + 1) (buf[off := c]) @ take (n - (off + 1)) s"
      by (rule "2.IH" [OF True _ True eq]) (use "2.prems" in simp)
    have tk: "take (off + 1) (buf[off := c]) = take off buf @ [c]"
      using 2 True by (simp add: take_Suc_nth)
    have "n - off = Suc (n - (off + 1))" using IH True by auto
    then have t: "take (n - off) (c # s) = c # take (n - (off + 1)) s" by (simp only: take_Suc_Cons)
    have "n = min (off + length (c # s)) (cap - 1)" using IH by simp
    moreover have "take n b = take off buf @ take (n - off) (c # s)" 
      using IH [THEN conjunct2, THEN conjunct2] unfolding t tk by simp
    ultimately show ?thesis using IH by blast
  next
    case False
    then show ?thesis using 2 by auto
  qed
qed auto

text \<open>
  With an offset inside the buffer, appending writes what fits, in order, after the text
  already there, always leaves room for and writes the terminator, and never leaves the buffer.
\<close>

theorem kn_append_truncates:
  assumes "length buf = cap" "off < cap"
  shows "case kn_append buf cap off (Some s) of (b, n) \<Rightarrow>
    length b = cap \<and> n = min (off + length s) (cap - 1) \<and>
    take n b = take off buf @ take (cap - 1 - off) s \<and> b ! n = NUL"
proof -
  obtain b n where b: "append_loop buf cap off s = (b, n)" by fastforce
  from append_loop_spec [OF assms b] have l: "length b = cap" "n = min (off + length s) (cap - 1)"
    "take n b = take off buf @ take (n - off) s" by auto
  have "take (n - off) s = take (cap - 1 - off) s" using l(2) by (auto simp: min_def)
  then show ?thesis using l assms b by (simp add: kn_append_def)
qed

theorem kn_append_truncates_witness:
  "kn_append (replicate 4 NUL) 4 1 (Some ''hello'') = ([NUL, CHR ''h'', CHR ''e'', NUL], 3) \<and>
   snd (kn_append (replicate 4 NUL) 4 1 (Some ''hello'')) < 4"
  using kn_append_truncates [of "replicate 4 NUL" 4 1 "''hello''"]
  by (simp add: kn_append_def numeral_eq_Suc)

subsection \<open>Decimal output\<close>

function u32_digits :: "nat \<Rightarrow> nat \<Rightarrow> char list \<Rightarrow> char list" where
  "u32_digits v i buf =
     (if v \<noteq> 0 \<and> i < 15 then u32_digits (v div 10) (i + 1) (buf @ [char_of (48 + v mod 10)]) else buf)"
  by pat_completeness auto
termination
  by (relation "measure (\<lambda>(v, i, b). 15 - i)") auto

declare u32_digits.simps [simp del]

definition kn_write_u32 :: "32 word \<Rightarrow> char list" where
  "kn_write_u32 v = rev (if v = 0 then ''0'' else u32_digits (unat v) 0 [])"

fun dec_value :: "char list \<Rightarrow> nat" where
  "dec_value [] = 0"
| "dec_value (c # cs) = (byte_of c - 48) * 10 ^ length cs + dec_value cs"

lemma dec_value_append: "dec_value (xs @ ys) = dec_value xs * 10 ^ length ys + dec_value ys"
  by (induction xs) (simp_all add: power_add algebra_simps)

lemma digit_byte: "d < 10 \<Longrightarrow> byte_of (char_of (48 + d)) = 48 + d"
  by (simp add: byte_of_def of_char_of)

lemma u32_digits_value:
  "v < 10 ^ (15 - i) \<Longrightarrow>
     dec_value (rev (u32_digits v i buf)) = v * 10 ^ length buf + dec_value (rev buf)"
proof (induction v i buf rule: u32_digits.induct)
  case (1 v i buf)
  show ?case
  proof (cases "v \<noteq> 0 \<and> i < 15")
    case True
    then have e: "15 - i = Suc (15 - (i + 1))" by linarith
    have "v div 10 < 10 ^ (15 - (i + 1))"
      using "1.prems" unfolding e by (simp add: less_mult_imp_div_less)
    define q r where qr: "q = v div 10" "r = v mod 10"
    have v: "v = 10 * q + r" "r < 10" by (simp_all add: qr)
    from "1.IH" [OF True \<open>v div 10 < 10 ^ (15 - (i + 1))\<close>]
    have "dec_value (rev (u32_digits v i buf)) =
        q * 10 ^ length (buf @ [char_of (48 + r)]) + dec_value (rev (buf @ [char_of (48 + r)]))"
      using True unfolding qr by (subst u32_digits.simps) simp
    also have "dec_value (rev (buf @ [char_of (48 + r)])) = r * 10 ^ length buf + dec_value (rev buf)"
      by (simp only: rev_append rev.simps append_Nil append_Cons dec_value.simps digit_byte [OF v(2)] length_rev
          diff_add_inverse)
    also have "q * 10 ^ length (buf @ [char_of (48 + r)]) + (r * 10 ^ length buf + dec_value (rev buf)) =
        (10 * q + r) * 10 ^ length buf + dec_value (rev buf)"
      by (simp add: algebra_simps)
    finally show ?thesis unfolding v(1) [symmetric] .
  next
    case False
    then have "v = 0" using "1.prems" by (cases "v = 0") auto
    then show ?thesis by (subst u32_digits.simps) simp
  qed
qed

text \<open>
  The characters written for a 32-bit value are its decimal digits: read back as a decimal
  number they give the value, and the 16-byte buffer is always large enough.
\<close>

theorem kn_write_u32_value: "dec_value (kn_write_u32 v) = unat v \<and> length (kn_write_u32 v) \<le> 15"
proof -
  have len: "length (u32_digits x i b) \<le> length b + (15 - i)" for x i b
  proof (induction x i b rule: u32_digits.induct)
    case (1 x i b)
    then show ?case by (subst u32_digits.simps) auto
  qed
  have b: "unat v < 10 ^ (15 - 0)"
  proof -
    have "unat v < 2 ^ LENGTH(32)" by (rule unsigned_less)
    then show ?thesis by simp
  qed
  show ?thesis using u32_digits_value [OF b, of "[]"] len [of "unat v" 0 "[]"]
    by (auto simp: kn_write_u32_def byte_of_def of_char_def)
qed

subsection \<open>The command line\<close>

record kn_args =
  ka_argc :: nat
  ka_argv :: "cstr list"

text \<open>
  The vector grows by eight slots whenever it is full. \<open>None\<close> is a process that does not go on:
  \<open>kn_die\<close>, or a write through the null pointer when the vector cannot be allocated.
\<close>

definition args_push :: "amem \<Rightarrow> kn_args \<Rightarrow> char list \<Rightarrow> kn_args option" where
  "args_push m a s =
     (let argc = ka_argc a;
          argv = (if argc mod 8 = 0
                  then (if alloc_ok m (8 * (argc + 8))
                        then Some (take argc (ka_argv a) @ replicate 8 None) else None)
                  else Some (ka_argv a))
      in case argv of None \<Rightarrow> None
         | Some v \<Rightarrow> Some \<lparr>ka_argc = argc + 1, ka_argv = v[argc := Some s]\<rparr>)"

definition blank_char :: "char \<Rightarrow> bool" where
  "blank_char c \<longleftrightarrow> c = CHR '' '' \<or> c = CHR 0x09"

lemma parse_cmd_shrinks:
  assumes "dropWhile blank_char cmd = x # c"
  shows "length (dropWhile P c) < length cmd" "\<not> blank_char x"
proof -
  have "length (dropWhile P c) \<le> length c" by (rule length_dropWhile_le)
  moreover have "length (x # c) \<le> length cmd" unfolding assms [symmetric] by (rule length_dropWhile_le)
  ultimately show "length (dropWhile P c) < length cmd" by simp
  show "\<not> blank_char x" using hd_dropWhile [of blank_char cmd] assms by simp
qed

function parse_cmd :: "amem \<Rightarrow> char list \<Rightarrow> kn_args \<Rightarrow> kn_args option" where
  "parse_cmd m cmd args =
     (let c = dropWhile blank_char cmd
      in if c = [] then Some args
         else (let quoted = (hd c = CHR 0x22);
                   body = (if quoted then tl c else c);
                   stop = (if quoted then (\<lambda>x. x \<noteq> CHR 0x22) else (\<lambda>x. \<not> blank_char x));
                   s = takeWhile stop body; rest = dropWhile stop body
               in if alloc_ok m (length s + 1)
                  then (case args_push m args s of None \<Rightarrow> None
                        | Some args' \<Rightarrow>
                            parse_cmd m (if quoted \<and> rest \<noteq> [] then tl rest else rest) args')
                  else None))"
  by pat_completeness auto

termination
proof (relation "measure (\<lambda>(m, cmd, args). length cmd)", goal_cases)
  case (2 m cmd args c quoted body stop s rest args')
  then have "dropWhile blank_char cmd \<noteq> []" by simp
  then obtain x r where x: "dropWhile blank_char cmd = x # r" unfolding neq_Nil_conv by blast
  note sh = parse_cmd_shrinks [OF x]
  show ?case using 2 x sh(1) [of "\<lambda>x. x \<noteq> CHR 0x22"] sh(1) [of "\<lambda>x. \<not> blank_char x"] sh(2)
    by auto
qed simp

definition kn_parse_cmdline :: "amem \<Rightarrow> cstr \<Rightarrow> kn_args option" where
  "kn_parse_cmdline m cmd =
     (case cmd of None \<Rightarrow> Some \<lparr>ka_argc = 0, ka_argv = []\<rparr>
      | Some s \<Rightarrow> parse_cmd m s \<lparr>ka_argc = 0, ka_argv = []\<rparr>)"

declare parse_cmd.simps [simp del]

definition args_inv :: "kn_args \<Rightarrow> bool" where
  "args_inv a \<longleftrightarrow> length (ka_argv a) = (ka_argc a + 7) div 8 * 8"

definition args_list :: "kn_args \<Rightarrow> char list list" where
  "args_list a = map the (take (ka_argc a) (ka_argv a))"

lemma args_push_ok:
  assumes inv: "args_inv a" and m: "plenty m" and small: "ka_argc a < 2 ^ 50"
  shows "\<exists>a'. args_push m a s = Some a' \<and> args_inv a' \<and> args_list a' = args_list a @ [s] \<and>
    ka_argc a' = Suc (ka_argc a)"
proof (cases "ka_argc a mod 8 = 0")
  case True
  then obtain k where k: "ka_argc a = 8 * k" by (auto simp: mod_eq_0_iff_dvd)
  then have "length (ka_argv a) = 8 * k" using inv by (simp add: args_inv_def)
  moreover have "(Suc (8 * k) + 7) div 8 * 8 = 8 * k + 8" by simp
  ultimately show ?thesis using m small k
    by (simp add: args_push_def args_inv_def args_list_def take_Suc_nth nth_append Let_def)
next
  case False
  then have "ka_argc a < length (ka_argv a)" "length (ka_argv a) = (Suc (ka_argc a) + 7) div 8 * 8"
    using inv unfolding args_inv_def by presburger+
  then show ?thesis using False
    by (simp add: args_push_def args_inv_def args_list_def take_Suc_nth Let_def)
qed

definition quote_arg :: "char list \<Rightarrow> char list" where
  "quote_arg s = CHR 0x22 # s @ [CHR 0x22]"

fun command_line :: "char list list \<Rightarrow> char list" where
  "command_line [] = []"
| "command_line (s # ss) = quote_arg s @ CHR '' '' # command_line ss"

lemma parse_command_line:
  assumes m: "plenty m"
  shows "\<forall>s\<in>set ss. CHR 0x22 \<notin> set s \<and> length s < 2 ^ 50 \<Longrightarrow> args_inv a \<Longrightarrow>
    ka_argc a + length ss < 2 ^ 50 \<Longrightarrow>
    \<exists>a'. parse_cmd m (CHR '' '' # command_line ss) a = Some a' \<and> args_inv a' \<and> args_list a' = args_list a @ ss"
proof (induction ss arbitrary: a)
  case Nil
  then show ?case by (subst parse_cmd.simps) (simp add: blank_char_def)
next
  case (Cons s ss)
  obtain a1 where a1: "args_push m a s = Some a1" "args_inv a1" "args_list a1 = args_list a @ [s]"
      "ka_argc a1 = Suc (ka_argc a)"
    using args_push_ok [OF Cons.prems(2) m, of s] Cons.prems(3) by auto
  let ?P = "\<lambda>x. x \<noteq> CHR 0x22" and ?r = "CHR '' '' # command_line ss"
  have "takeWhile ?P (s @ CHR 0x22 # ?r) = s" "dropWhile ?P (s @ CHR 0x22 # ?r) = CHR 0x22 # ?r"
    using Cons.prems(1) by (auto simp: takeWhile_append2 dropWhile_append2 takeWhile_append dropWhile_append)
  moreover have "dropWhile blank_char (CHR '' '' # command_line (s # ss)) = CHR 0x22 # s @ CHR 0x22 # ?r"
    by (simp add: blank_char_def quote_arg_def)
  ultimately have "parse_cmd m (CHR '' '' # command_line (s # ss)) a = parse_cmd m ?r a1"
    using a1(1) m Cons.prems(1) by (subst parse_cmd.simps) simp
  moreover obtain a2 where "parse_cmd m ?r a1 = Some a2" "args_inv a2" "args_list a2 = args_list a1 @ ss"
    using Cons.IH [of a1] Cons.prems a1(2,4) by auto
  ultimately show ?case using a1(3) by simp
qed

text \<open>
  C26: arguments written in double quotes and separated by blanks are parsed back as they were, the
  vector growing as needed and holding every one of them.
\<close>

theorem command_line_roundtrip:
  assumes "plenty m" "length ss < 2 ^ 50" "\<forall>s\<in>set ss. CHR 0x22 \<notin> set s \<and> length s < 2 ^ 50"
  shows "\<exists>a. kn_parse_cmdline m (Some (CHR '' '' # command_line ss)) = Some a \<and> args_inv a \<and>
    args_list a = ss \<and> ka_argc a = length ss"
proof -
  have inv: "args_inv \<lparr>ka_argc = 0, ka_argv = []\<rparr>" by (simp add: args_inv_def)
  obtain a where a: "kn_parse_cmdline m (Some (CHR '' '' # command_line ss)) = Some a" "args_inv a" "args_list a = ss"
    using parse_command_line [OF assms(1,3) inv] assms(2) by (auto simp: kn_parse_cmdline_def args_list_def)
  have "ka_argc a \<le> length (ka_argv a)" using a(2) unfolding args_inv_def by presburger
  then have "length (args_list a) = ka_argc a" by (simp add: args_list_def)
  then show ?thesis using a by auto
qed

theorem command_line_roundtrip_witness:
  "\<exists>a. kn_parse_cmdline big_mem (Some (CHR '' '' # command_line [''build'', ''my file.kn'', []])) = Some a \<and>
     args_list a = [''build'', ''my file.kn'', []]"
  using command_line_roundtrip [OF plenty_True, of "[''build'', ''my file.kn'', []]"] by auto

subsection \<open>The temporary arena\<close>

record arena_block =
  ab_cap :: nat
  ab_off :: nat

record temp_arena =
  ta_active :: bool
  ta_blocks :: "arena_block list"
  ta_cur :: "nat option"

definition kn_align8 :: "nat \<Rightarrow> nat" where
  "kn_align8 n = ((n + 7) mod 2 ^ 64) div 8 * 8"

function find_block :: "arena_block list \<Rightarrow> nat \<Rightarrow> nat \<Rightarrow> nat option" where
  "find_block bs i need =
     (if i < length bs
      then (if (ab_off (bs ! i) + need) mod 2 ^ 64 > ab_cap (bs ! i) then find_block bs (i + 1) need
            else Some i)
      else None)"
  by pat_completeness auto
termination
  by (relation "measure (\<lambda>(bs, i, n). length bs - i)") auto

declare find_block.simps [simp del]

definition arena_take :: "temp_arena \<Rightarrow> arena_block list \<Rightarrow> nat \<Rightarrow> nat \<Rightarrow> temp_arena \<times> (nat \<times> nat) option" where
  "arena_take a bs i need =
     (a\<lparr>ta_blocks := bs[i := (bs ! i)\<lparr>ab_off := ab_off (bs ! i) + need\<rparr>], ta_cur := Some i\<rparr>,
      Some (i, ab_off (bs ! i) + 16))"

text \<open>The result is the block and the offset of the payload in it, after the 16-byte header.\<close>

definition temp_arena_alloc :: "amem \<Rightarrow> temp_arena \<Rightarrow> nat \<Rightarrow> temp_arena \<times> (nat \<times> nat) option" where
  "temp_arena_alloc m a n0 =
     (let n = (if n0 = 0 then 1 else n0);
          need = kn_align8 ((16 + n) mod 2 ^ 64);
          start = (case ta_cur a of Some i \<Rightarrow> i | None \<Rightarrow> 0)
      in case find_block (ta_blocks a) start need of
           Some i \<Rightarrow> arena_take a (ta_blocks a) i need
         | None \<Rightarrow>
             (let cap = (if need < 64 * 1024 then 64 * 1024 else need)
              in if alloc_ok m ((24 + cap) mod 2 ^ 64)
                 then arena_take a (ta_blocks a @ [\<lparr>ab_cap = cap, ab_off = 0\<rparr>]) (length (ta_blocks a)) need
                 else (a, None)))"

definition temp_arena_begin :: "temp_arena \<Rightarrow> temp_arena" where
  "temp_arena_begin a =
     a\<lparr>ta_active := True, ta_blocks := map (\<lambda>b. b\<lparr>ab_off := 0\<rparr>) (ta_blocks a),
       ta_cur := (if ta_blocks a = [] then None else Some 0)\<rparr>"

definition temp_arena_end :: "temp_arena \<Rightarrow> temp_arena" where
  "temp_arena_end a =
     a\<lparr>ta_active := False, ta_cur := (if ta_blocks a = [] then None else Some 0)\<rparr>"

definition arena_inv :: "temp_arena \<Rightarrow> bool" where
  "arena_inv a \<longleftrightarrow> (\<forall>b\<in>set (ta_blocks a). ab_off b \<le> ab_cap b \<and> ab_cap b < 2 ^ 63 \<and> 8 dvd ab_off b)"

fun arena_run :: "amem \<Rightarrow> temp_arena \<Rightarrow> nat list \<Rightarrow> temp_arena \<times> (nat \<times> nat \<times> nat) list" where
  "arena_run m a [] = (a, [])"
| "arena_run m a (n # ns) =
     (case temp_arena_alloc m a n of
        (a', None) \<Rightarrow> arena_run m a' ns
      | (a', Some (i, p)) \<Rightarrow> (case arena_run m a' ns of (a'', rs) \<Rightarrow> (a'', (i, p, n) # rs)))"

lemma kn_align8_bounds:
  assumes "n < 2 ^ 62"
  shows "n \<le> kn_align8 n" "kn_align8 n < n + 8" "8 dvd kn_align8 n"
proof -
  have "(n + 7) mod 2 ^ 64 = n + 7" using assms by (intro mod_less) simp
  then have e: "kn_align8 n = (n + 7) div 8 * 8" by (simp add: kn_align8_def)
  show "n \<le> kn_align8 n" "kn_align8 n < n + 8" "8 dvd kn_align8 n" unfolding e by presburger+
qed

lemma find_block_Some:
  "find_block bs i need = Some j \<Longrightarrow> j < length bs \<and> (ab_off (bs ! j) + need) mod 2 ^ 64 \<le> ab_cap (bs ! j)"
proof (induction bs i need rule: find_block.induct)
  case (1 bs i need)
  from "1.prems" show ?case
    by (subst (asm) find_block.simps) (use "1.IH" in \<open>auto split: if_splits\<close>)
qed

definition off_of :: "temp_arena \<Rightarrow> nat \<Rightarrow> nat" where
  "off_of a i = (if i < length (ta_blocks a) then ab_off (ta_blocks a ! i) else 0)"

lemma arena_alloc_cases:
  assumes inv: "arena_inv a" and n: "n < 2 ^ 61"
  obtains (refused) "temp_arena_alloc m a n = (a, None)"
  | (block) i a' where "temp_arena_alloc m a n = (a', Some (i, off_of a i + 16))" "arena_inv a'"
      "i < length (ta_blocks a')" "off_of a i + 16 + n \<le> off_of a' i" "off_of a' i \<le> ab_cap (ta_blocks a' ! i)"
      "\<And>j. j \<noteq> i \<Longrightarrow> off_of a' j = off_of a j" "off_of a i \<le> off_of a' i" "8 dvd off_of a i"
proof -
  define k where "k = (if n = 0 then 1 else n)"
  define need where "need = kn_align8 ((16 + k) mod 2 ^ 64)"
  have "(16 + k) mod 2 ^ 64 = 16 + k" using n by (intro mod_less) (simp add: k_def)
  moreover have "16 + k < 2 ^ 62" using n by (simp add: k_def)
  ultimately have nd: "16 + n \<le> need" "need < 2 ^ 62" "8 dvd need"
    using kn_align8_bounds [of "16 + k"] n by (auto simp: need_def k_def split: if_splits)
  let ?start = "case ta_cur a of Some i \<Rightarrow> i | None \<Rightarrow> 0"
  have bl: "ab_off (ta_blocks a ! i) \<le> ab_cap (ta_blocks a ! i) \<and> ab_cap (ta_blocks a ! i) < 2 ^ 63 \<and>
      8 dvd ab_off (ta_blocks a ! i)" if "i < length (ta_blocks a)" for i
    using inv that by (auto simp: arena_inv_def)
  show thesis
  proof (cases "find_block (ta_blocks a) ?start need")
    case (Some i)
    then have i: "i < length (ta_blocks a)" "(ab_off (ta_blocks a ! i) + need) mod 2 ^ 64 \<le> ab_cap (ta_blocks a ! i)"
      using find_block_Some by blast+
    have "(ab_off (ta_blocks a ! i) + need) mod 2 ^ 64 = ab_off (ta_blocks a ! i) + need"
      using bl [OF i(1)] nd(2) by (intro mod_less) simp
    then have fit: "ab_off (ta_blocks a ! i) + need \<le> ab_cap (ta_blocks a ! i)" using i(2) by simp
    let ?a = "a\<lparr>ta_blocks := (ta_blocks a)[i := (ta_blocks a ! i)\<lparr>ab_off := ab_off (ta_blocks a ! i) + need\<rparr>],
        ta_cur := Some i\<rparr>"
    have al: "temp_arena_alloc m a n = (?a, Some (i, off_of a i + 16))"
      using Some i(1) unfolding temp_arena_alloc_def Let_def k_def [symmetric] need_def [symmetric]
      by (simp add: arena_take_def off_of_def)
    have "arena_inv ?a" unfolding arena_inv_def
    proof
      fix b assume "b \<in> set (ta_blocks ?a)"
      then have "b = (ta_blocks a ! i)\<lparr>ab_off := ab_off (ta_blocks a ! i) + need\<rparr> \<or> b \<in> set (ta_blocks a)"
        using set_update_subset_insert by fastforce
      then show "ab_off b \<le> ab_cap b \<and> ab_cap b < 2 ^ 63 \<and> 8 dvd ab_off b"
        using inv fit bl [OF i(1)] nd(3) by (auto simp: arena_inv_def)
    qed
    then show thesis using al i(1) fit nd(1) bl [OF i(1)]
      by (intro block [of ?a i]) (auto simp: off_of_def)
  next
    case None
    define cap where "cap = (if need < 64 * 1024 then 64 * 1024 else need)"
    show thesis
    proof (cases "alloc_ok m ((24 + cap) mod 2 ^ 64)")
      case False
      then have "temp_arena_alloc m a n = (a, None)"
        using None unfolding temp_arena_alloc_def Let_def k_def [symmetric] need_def [symmetric]
          cap_def [symmetric] by simp
      then show thesis by (rule refused)
    next
      case True
      let ?i = "length (ta_blocks a)"
      let ?a = "a\<lparr>ta_blocks := ta_blocks a @ [\<lparr>ab_cap = cap, ab_off = need\<rparr>], ta_cur := Some ?i\<rparr>"
      have al: "temp_arena_alloc m a n = (?a, Some (?i, off_of a ?i + 16))"
        using None True unfolding temp_arena_alloc_def Let_def k_def [symmetric] need_def [symmetric]
          cap_def [symmetric] by (simp add: arena_take_def off_of_def)
      have c: "need \<le> cap" "cap < 2 ^ 63" using nd(2) by (auto simp: cap_def)
      then have "arena_inv ?a" using inv nd(3) by (auto simp: arena_inv_def)
      then show thesis using al c nd(1)
        by (intro block [of ?a ?i]) (auto simp: off_of_def nth_append)
    qed
  qed
qed

text \<open>Later allocations in a block start above what the block has handed out.\<close>

lemma arena_run_above:
  "arena_inv a \<Longrightarrow> \<forall>n\<in>set ns. n < 2 ^ 61 \<Longrightarrow> arena_run m a ns = (a', rs) \<Longrightarrow>
    arena_inv a' \<and> (\<forall>i. off_of a i \<le> off_of a' i) \<and>
    (\<forall>(i, p, n) \<in> set rs. off_of a i + 16 \<le> p \<and> 8 dvd p \<and> p + n \<le> off_of a' i \<and> i < length (ta_blocks a'))"
proof (induction ns arbitrary: a rs)
  case (Cons n ns)
  then have n: "n < 2 ^ 61" "\<forall>n\<in>set ns. n < 2 ^ 61" by simp_all
  from Cons.prems(1) n(1) show ?case
  proof (cases rule: arena_alloc_cases [where m = m])
    case refused
    then show ?thesis using Cons.IH [OF Cons.prems(1) n(2)] Cons.prems(3) by simp
  next
    case (block i a1)
    obtain rs1 where r: "arena_run m a1 ns = (a', rs1)" "rs = (i, off_of a i + 16, n) # rs1"
      using Cons.prems(3) block(1) by (auto split: prod.splits)
    note ih = Cons.IH [OF block(2) n(2) r(1)]
    have up: "off_of a j \<le> off_of a1 j" for j using block(6,7) by (cases "j = i") auto
    have up': "off_of a1 j \<le> off_of a' j" for j using ih by blast
    have lenm: "i < length (ta_blocks a')"
    proof -
      have "0 < off_of a1 i" using block(4) by simp
      then have "0 < off_of a' i" using up' [of i] by simp
      then show ?thesis by (simp add: off_of_def split: if_splits)
    qed
    have hd: "off_of a i + 16 + n \<le> off_of a' i" using block(4) up' [of i] by simp
    have tl: "off_of a j + 16 \<le> p \<and> 8 dvd p \<and> p + k \<le> off_of a' j \<and> j < length (ta_blocks a')"
      if "(j, p, k) \<in> set rs1" for j p k
      using ih that up [of j] by fastforce
    have "8 dvd off_of a i + 16" using block(8) by presburger
    then show ?thesis using ih up up' hd tl lenm unfolding r(2) by (auto intro: order_trans)
  qed
qed auto

lemma arena_run_order:
  "arena_inv a \<Longrightarrow> \<forall>n\<in>set ns. n < 2 ^ 61 \<Longrightarrow> arena_run m a ns = (a', rs) \<Longrightarrow>
    j < k \<Longrightarrow> k < length rs \<Longrightarrow> rs ! j = (b, p, n) \<Longrightarrow> rs ! k = (b, p', n') \<Longrightarrow> p + n \<le> p'"
proof (induction ns arbitrary: a rs j k)
  case (Cons x ns)
  then have x: "x < 2 ^ 61" "\<forall>n\<in>set ns. n < 2 ^ 61" by simp_all
  from Cons.prems(1) x(1) show ?case
  proof (cases rule: arena_alloc_cases [where m = m])
    case refused
    have run: "arena_run m a ns = (a', rs)" using Cons.prems(3) refused by simp
    show ?thesis by (rule Cons.IH [OF Cons.prems(1) x(2) run Cons.prems(4-7)])
  next
    case (block i a1)
    obtain rs1 where r: "arena_run m a1 ns = (a', rs1)" "rs = (i, off_of a i + 16, x) # rs1"
      using Cons.prems(3) block(1) by (auto split: prod.splits)
    show ?thesis
    proof (cases j)
      case 0
      then have f: "b = i" "p = off_of a i + 16" "n = x" using Cons.prems(6) r(2) by auto
      have "(b, p', n') \<in> set rs1"
        using Cons.prems(4,5,7) r(2) by (cases k) (auto dest: nth_mem)
      then have "off_of a1 b + 16 \<le> p'" using arena_run_above [OF block(2) x(2) r(1)] by fastforce
      then show ?thesis using f block(4) by simp
    next
      case (Suc j')
      then obtain k' where k': "k = Suc k'" using Cons.prems(4) by (cases k) auto
      show ?thesis
        by (rule Cons.IH [OF block(2) x(2) r(1), of j' k'])
           (use Cons.prems(4-7) r(2) Suc k' in auto)
    qed
  qed
qed auto

text \<open>
  C25: the payloads an arena hands out between two resets are 8-byte aligned, lie inside their blocks
  and do not overlap, for requests each smaller than \<open>2 ^ 61\<close> bytes (beyond that the rounding of
  the size to the alignment can wrap at 64 bits).
\<close>

theorem arena_payloads_disjoint:
  assumes "arena_inv a" "\<forall>n\<in>set ns. n < 2 ^ 61" "arena_run m a ns = (a', rs)"
    and "j < k" "k < length rs" "rs ! j = (b, p, n)" "rs ! k = (b', p', n')"
  shows "8 dvd p \<and> p + n \<le> ab_cap (ta_blocks a' ! b) \<and> b < length (ta_blocks a') \<and> (b = b' \<longrightarrow> p + n \<le> p')"
proof -
  have inb: "8 dvd p \<and> p + n \<le> ab_cap (ta_blocks a' ! b) \<and> b < length (ta_blocks a')"
  proof -
    note r = arena_run_above [OF assms(1-3)]
    have "(b, p, n) \<in> set rs" using assms(4-6) by (metis less_trans nth_mem)
    then have f: "8 dvd p" "p + n \<le> off_of a' b" "b < length (ta_blocks a')" using r by fastforce+
    have "ab_off (ta_blocks a' ! b) \<le> ab_cap (ta_blocks a' ! b)" using r f(3) by (simp add: arena_inv_def)
    then show ?thesis using f by (simp add: off_of_def)
  qed
  have "b = b' \<Longrightarrow> p + n \<le> p'"
    using arena_run_order [OF assms(1-6)] assms(7) by blast
  with inb show ?thesis by blast
qed

theorem arena_payloads_disjoint_witness:
  "let a = \<lparr>ta_active = True, ta_blocks = [\<lparr>ab_cap = 64, ab_off = 0\<rparr>], ta_cur = Some 0\<rparr>
   in arena_inv a \<and> arena_run big_mem a [5, 9] =
      (a\<lparr>ta_blocks := [\<lparr>ab_cap = 64, ab_off = 56\<rparr>]\<rparr>, [(0, 16, 5), (0, 40, 9)]) \<and> (16::nat) + 5 \<le> 40"
proof -
  let ?a = "\<lparr>ta_active = True, ta_blocks = [\<lparr>ab_cap = 64, ab_off = 0\<rparr>], ta_cur = Some 0\<rparr>"
  let ?a' = "?a\<lparr>ta_blocks := [\<lparr>ab_cap = 64, ab_off = 56\<rparr>]\<rparr>"
  have inv: "arena_inv ?a" by (simp add: arena_inv_def)
  have run: "arena_run big_mem ?a [5, 9] = (?a', [(0, 16, 5), (0, 40, 9)])"
    by (simp add: temp_arena_alloc_def arena_take_def find_block.simps kn_align8_def)
  have "0 = (0::nat) \<longrightarrow> (16::nat) + 5 \<le> 40"
    using arena_payloads_disjoint [OF inv _ run, of 0 1 0 16 5 0 40 9] by simp
  then show ?thesis using inv run by (simp add: Let_def)
qed

end
