(* ===== verification/Source.thy ===== *)
theory Source
  imports Util RtText
begin

text \<open>
  Source files as the diagnostics see them, \<open>apps/kinal/src/kn_source.c\<close>: the table of line
  offsets built when a file is loaded, and the lookup of one line. A line is specified by the
  segments between newlines of theory \<open>RtText\<close>.
\<close>

record kn_source =
  ks_path :: "char list"
  ks_text :: "char list"
  ks_len :: nat
  ks_line_offsets :: "nat list option"
  ks_line_count :: nat

fun newline_loop :: "char list \<Rightarrow> nat \<Rightarrow> nat" where
  "newline_loop [] cnt = cnt"
| "newline_loop (c # cs) cnt = newline_loop cs (if c = CHR 0x0A then cnt + 1 else cnt)"

fun offsets_loop :: "char list \<Rightarrow> nat \<Rightarrow> nat \<Rightarrow> nat list \<Rightarrow> nat list" where
  "offsets_loop [] i cnt offs = offs"
| "offsets_loop (c # cs) i cnt offs =
     offsets_loop cs (i + 1) cnt (if c = CHR 0x0A \<and> length offs < cnt then offs @ [i + 1] else offs)"

definition kn_source_init :: "amem \<Rightarrow> cstr \<Rightarrow> cstr \<Rightarrow> nat \<Rightarrow> kn_source" where
  "kn_source_init m path text len =
     (let bytes = take len (str text); cnt = newline_loop bytes 1;
          src = \<lparr>ks_path = str path, ks_text = str text, ks_len = len, ks_line_offsets = None, ks_line_count = 0\<rparr>
      in if alloc_ok m (8 * cnt)
         then src\<lparr>ks_line_offsets := Some (offsets_loop bytes 0 cnt [0]), ks_line_count := cnt\<rparr>
         else src)"

definition kn_source_free :: "kn_source \<Rightarrow> kn_source" where
  "kn_source_free src = src\<lparr>ks_line_offsets := None, ks_line_count := 0\<rparr>"

definition has_bom :: "char list \<Rightarrow> nat \<Rightarrow> bool" where
  "has_bom t i \<longleftrightarrow> t ! i = CHR 0xEF \<and> t ! (i + 1) = CHR 0xBB \<and> t ! (i + 2) = CHR 0xBF"

text \<open>The start and length of a line; \<open>None\<close> is the empty string of the error branch.\<close>

definition kn_source_get_line :: "kn_source option \<Rightarrow> int \<Rightarrow> (nat \<times> nat) option" where
  "kn_source_get_line sp line =
     (case sp of None \<Rightarrow> None
      | Some src \<Rightarrow>
          (case ks_line_offsets src of None \<Rightarrow> None
           | Some offs \<Rightarrow>
               if line \<le> 0 \<or> line > int (ks_line_count src) then None
               else (let text = ks_text src; k = nat line - 1;
                         start = offs ! k;
                         end = (if line < int (ks_line_count src) then offs ! (k + 1) else ks_len src);
                         start = (if line = 1 \<and> end \<ge> start + 3 \<and> has_bom text start then start + 3 else start);
                         end = (if end > start \<and> text ! (end - 1) = CHR 0x0A then end - 1 else end);
                         end = (if end > start \<and> text ! (end - 1) = CHR 0x0D then end - 1 else end)
                     in Some (start, end - start))))"

subsection \<open>The offsets are the starts of the segments\<close>

fun starts :: "nat \<Rightarrow> char list list \<Rightarrow> nat list" where
  "starts s [] = []"
| "starts s (x # xs) = s # starts (s + length x + 1) xs"

lemma length_starts [simp]: "length (starts s xs) = length xs"
  by (induction s xs rule: starts.induct) simp_all

abbreviation nl :: "char list" where
  "nl \<equiv> [CHR 0x0A]"

lemma cuts_nl [simp]:
  "cuts nl (c # s) = (if c = CHR 0x0A then [] # cuts nl s
     else (case cuts nl s of [] \<Rightarrow> [c # s] | x # xs \<Rightarrow> (c # x) # xs))"
  by (subst cuts.simps) (simp split: list.split)

lemma newline_loop_count: "newline_loop s n = n + length (tl (cuts nl s))"
proof (induction s arbitrary: n)
  case (Cons c s)
  obtain x xs where "cuts nl s = x # xs" by (rule cuts_obtain)
  then show ?case using Cons by simp
qed simp

lemma offsets_loop_starts:
  "length offs + length (tl (cuts nl s)) \<le> cnt \<Longrightarrow>
     offsets_loop s i cnt offs = offs @ tl (starts i (cuts nl s))"
proof (induction s arbitrary: i offs)
  case (Cons c s)
  obtain x xs where c: "cuts nl s = x # xs" by (rule cuts_obtain)
  show ?case
  proof (cases "c = CHR 0x0A")
    case True
    then have "length offs < cnt" "length (offs @ [i + 1]) + length (tl (cuts nl s)) \<le> cnt"
      using Cons.prems c by simp_all
    then show ?thesis using Cons.IH [of "offs @ [i + 1]" "i + 1"] True c by simp
  next
    case False
    then have "length offs + length (tl (cuts nl s)) \<le> cnt" using Cons.prems c by simp
    then show ?thesis using Cons.IH [of offs "i + 1"] False c by simp
  qed
qed simp

lemma segment_at:
  "k < length xs \<Longrightarrow> join_with nl xs = drop s t \<Longrightarrow> s \<le> length t \<Longrightarrow>
     take (length (xs ! k)) (drop (starts s xs ! k) t) = xs ! k \<and>
     (if k + 1 < length xs
      then starts s xs ! (k + 1) = starts s xs ! k + length (xs ! k) + 1 \<and>
           starts s xs ! (k + 1) \<le> length t \<and> t ! (starts s xs ! k + length (xs ! k)) = CHR 0x0A
      else starts s xs ! k + length (xs ! k) = length t)"
proof (induction k arbitrary: xs s)
  case 0
  then obtain x ys where xs: "xs = x # ys" by (cases xs) auto
  have j: "x @ glued nl ys = drop s t" using 0 xs by (simp add: join_with_glued)
  have tk: "take (length x) (drop s t) = x" by (simp flip: j)
  show ?case
  proof (cases ys)
    case Nil
    then have "length (drop s t) = length x" using j by (metis append_Nil2 glued_simps(1))
    then show ?thesis using xs Nil tk "0.prems"(3) by simp
  next
    case (Cons y zs)
    then have d: "drop s t = x @ CHR 0x0A # y @ glued nl zs" using j by simp
    then have "length x < length (drop s t)" by simp
    then have "s + length x < length t" by simp
    moreover have "t ! (s + length x) = CHR 0x0A"
      using d nth_drop [of s t "length x"] "0.prems"(3) by simp
    ultimately show ?thesis using xs Cons tk by simp
  qed
next
  case (Suc k)
  then obtain x ys where xs: "xs = x # ys" by (cases xs) auto
  then have "ys \<noteq> []" using Suc.prems(1) by auto
  then have "join_with nl xs = x @ CHR 0x0A # join_with nl ys" using xs by (cases ys) simp_all
  with Suc.prems have j: "x @ CHR 0x0A # join_with nl ys = drop s t" by simp
  then have "drop (length x + 1) (drop s t) = join_with nl ys"
    by (metis append.assoc append_Cons append_Nil append_eq_conv_conj length_append_singleton Suc_eq_plus1)
  then have "join_with nl ys = drop (s + length x + 1) t" by (simp add: add_ac)
  moreover have "s + length x + 1 \<le> length t"
  proof -
    have "length (x @ CHR 0x0A # join_with nl ys) = length t - s" unfolding j by simp
    then show ?thesis using Suc.prems(3) by simp
  qed
  moreover have "k < length ys" using Suc.prems(1) xs by simp
  ultimately show ?case using Suc.IH [of ys "s + length x + 1"] xs
    by (cases "Suc k < length ys") simp_all
qed

text \<open>
  Every line number a loaded source accepts gives the text between two newlines, without a
  trailing carriage return and, on the first line, without a byte-order mark; there are as many
  lines as segments.
\<close>

theorem kn_source_lines:
  assumes mem: "alloc_ok m (8 * (length t + 1))" and plen: "plenty m" and k: "k < length (cuts nl t)"
  shows "ks_line_count (kn_source_init m path (Some t) (length t)) = length (cuts nl t) \<and>
    (case kn_source_get_line (Some (kn_source_init m path (Some t) (length t))) (int k + 1) of
       None \<Rightarrow> False
     | Some (start, n) \<Rightarrow> take n (drop start t) =
         (let x = cuts nl t ! k
          in chop_cr (if k = 0 \<and> length x \<ge> 3 \<and> has_bom x 0 then drop 3 x else x)))"
proof -
  let ?xs = "cuts nl t" and ?src = "kn_source_init m path (Some t) (length t)"
  obtain x0 xr where x0: "?xs = x0 # xr" by (rule cuts_obtain)
  have cnt: "newline_loop t 1 = length ?xs" using newline_loop_count [of t 1] x0 by simp
  have "offsets_loop t 0 (length ?xs) [0] = [0] @ tl (starts 0 ?xs)"
    using x0 by (intro offsets_loop_starts) simp
  then have offs: "offsets_loop t 0 (length ?xs) [0] = starts 0 ?xs" using x0 by simp
  have "length ?xs \<le> length t + 1" using length_cuts [of nl t] by simp
  then have al: "alloc_ok m (8 * length ?xs)" using mem plen by (simp add: alloc_ok_def plenty_def)
  have src: "?src = \<lparr>ks_path = str path, ks_text = t, ks_len = length t,
      ks_line_offsets = Some (starts 0 ?xs), ks_line_count = length ?xs\<rparr>"
    using al cnt offs by (simp add: kn_source_init_def Let_def)
  let ?x = "?xs ! k" and ?s = "starts 0 ?xs ! k"
  have jw: "join_with nl ?xs = drop 0 t" using join_with_cuts [of nl t] by simp
  note seg = segment_at [OF k jw]
  have tk: "take (length ?x) (drop ?s t) = ?x" using seg by simp
  define e where "e = (if k + 1 < length ?xs then starts 0 ?xs ! (k + 1) else length t)"
  define e1 where "e1 = ?s + length ?x"
  have le: "?s + length ?x \<le> length t" using seg by (auto split: if_splits)
  have nth: "t ! (?s + i) = ?x ! i" if "i < length ?x" for i
  proof -
    have "?x ! i = take (length ?x) (drop ?s t) ! i" by (simp only: tk)
    then show ?thesis using that le by simp
  qed
  have ee: "e = (if k + 1 < length ?xs then e1 + 1 else e1)" "e1 \<le> e"
    using seg by (auto simp: e_def e1_def)
  have last_nl: "k + 1 < length ?xs \<Longrightarrow> t ! e1 = CHR 0x0A" using seg by (simp add: e1_def)
  have clean: "CHR 0x0A \<notin> set ?x"
  proof
    assume "CHR 0x0A \<in> set ?x"
    then obtain i where "i < length ?x" "?x ! i = CHR 0x0A" by (auto simp: in_set_conv_nth)
    then have "occurs_at ?x nl i" by (simp add: occurs_at_def Cons_nth_drop_Suc [symmetric])
    then show False using cuts_clean [of nl ?x t i] k by simp
  qed
  define b where "b = (k = 0 \<and> length ?x \<ge> 3 \<and> has_bom ?x 0)"
  have bom: "(int k + 1 = 1 \<and> e \<ge> ?s + 3 \<and> has_bom t ?s) = b"
  proof (cases "length ?x \<ge> 3")
    case True
    then have "0 < length ?x" "1 < length ?x" "2 < length ?x" by linarith+
    from this [THEN nth] have "t ! ?s = ?x ! 0" "t ! (?s + 1) = ?x ! 1" "t ! (?s + 2) = ?x ! 2"
      by simp_all
    moreover have "e \<ge> ?s + 3" using True ee(2) by (simp add: e1_def)
    ultimately have "has_bom t ?s = has_bom ?x 0" unfolding has_bom_def by (simp only: add_0)
    then show ?thesis using True \<open>e \<ge> ?s + 3\<close> by (auto simp: b_def)
  next
    case False
    have "\<not> (e \<ge> ?s + 3 \<and> has_bom t ?s)"
    proof
      assume a: "e \<ge> ?s + 3 \<and> has_bom t ?s"
      then have l2: "length ?x = 2" "k + 1 < length ?xs" using False ee by (auto simp: e1_def split: if_splits)
      then have "t ! (?s + 2) = CHR 0x0A" using last_nl by (simp add: e1_def)
      then show False using a by (simp add: has_bom_def)
    qed
    then show ?thesis using False by (simp add: b_def)
  qed
  define s' where "s' = (if b then ?s + 3 else ?s)"
  define y where "y = (if b then drop 3 ?x else ?x)"
  have s'e: "?s \<le> s'" "s' \<le> e1" by (auto simp: s'_def e1_def b_def)
  have yk: "take (e1 - s') (drop s' t) = y"
  proof (cases b)
    case True
    then have "take (length ?x - 3) (drop (?s + 3) t) = drop 3 (take (length ?x) (drop ?s t))"
      by (simp add: drop_take add.commute)
    then show ?thesis using True tk by (simp add: s'_def y_def e1_def)
  qed (simp add: s'_def y_def e1_def tk)
  have e1: "(if e > s' \<and> t ! (e - 1) = CHR 0x0A then e - 1 else e) = e1"
  proof (cases "k + 1 < length ?xs")
    case True
    then show ?thesis using ee s'e last_nl by simp
  next
    case False
    then have "e = e1" using ee by simp
    moreover have "\<not> (e1 > s' \<and> t ! (e1 - 1) = CHR 0x0A)"
    proof
      assume a: "e1 > s' \<and> t ! (e1 - 1) = CHR 0x0A"
      then have "s' < ?s + length ?x" by (simp only: e1_def)
      then have l: "0 < length ?x" using s'e(1) by linarith
      then have "e1 - 1 = ?s + (length ?x - 1)" unfolding e1_def by linarith
      then have "?x ! (length ?x - 1) = CHR 0x0A" using a nth [of "length ?x - 1"] l by simp
      then show False using clean l by (metis diff_less nth_mem zero_less_one)
    qed
    ultimately show ?thesis by auto
  qed
  have e2: "(if e1 > s' \<and> t ! (e1 - 1) = CHR 0x0D then e1 - 1 else e1) - s' = line_len t s' e1"
    using s'e(2) by (auto simp: line_len_def Let_def)
  have "e1 \<le> length t" using le by (simp add: e1_def)
  from take_line_len(2) [OF s'e(2) this] have fin: "take (line_len t s' e1) (drop s' t) = chop_cr y"
    by (simp add: yk)
  have "kn_source_get_line (Some ?src) (int k + 1) = Some (s', line_len t s' e1)"
  proof -
    have "(if int k + 1 < int (length ?xs) then starts 0 ?xs ! (k + 1) else length t) = e"
      by (simp add: e_def)
    moreover have "\<not> (int k + 1 \<le> 0 \<or> int k + 1 > int (length ?xs))" "nat (int k + 1) - 1 = k"
      using k by simp_all
    ultimately show ?thesis
      unfolding src kn_source_get_line_def
      by (simp only: option.case kn_source.simps Let_def if_False bom s'_def [symmetric] e1 e2)
  qed
  then show ?thesis using fin by (simp add: src Let_def y_def b_def)
qed

theorem kn_source_lines_witness:
  "case kn_source_get_line (Some (kn_source_init big_mem None (Some [CHR ''a'', CHR 0x0D, CHR 0x0A, CHR ''b'']) 4)) 1 of
     None \<Rightarrow> False | Some (start, n) \<Rightarrow> take n (drop start [CHR ''a'', CHR 0x0D, CHR 0x0A, CHR ''b'']) = ''a''"
proof -
  let ?t = "[CHR ''a'', CHR 0x0D, CHR 0x0A, CHR ''b'']"
  have c: "cuts nl ?t = [[CHR ''a'', CHR 0x0D], ''b'']" by simp
  have v: "(let x = cuts nl ?t ! 0
     in chop_cr (if 0 = (0::nat) \<and> length x \<ge> 3 \<and> has_bom x 0 then drop 3 x else x)) = ''a''"
    unfolding c by (simp add: chop_cr_def)
  have l: "length ?t = 4" "int 0 + 1 = 1" by simp_all
  have "alloc_ok big_mem (8 * (length ?t + 1))" "0 < length (cuts nl ?t)" by simp_all
  from kn_source_lines [OF this(1) plenty_True this(2), of None, THEN conjunct2, unfolded v, unfolded l]
  show ?thesis .
qed

end
