(* ===== verification/Lexer.thy ===== *)
theory Lexer
  imports Util
begin

text \<open>
  The compiler's lexer, \<open>apps/kinal/src/kn_lexer.c\<close> and \<open>include/kn/lexer.h\<close>. The enumeration of
  token types is split into the groups its source sets apart by blank lines (the keywords, which
  are one group there, in two halves), each a datatype of its own under a constructor of
  \<open>token_type\<close>. Every loop of the code is a recursive function on the lexer state whose
  termination is the number of bytes left. \<open>lex_to\<close> is what all of them preserve: the state has
  moved forward in the same source and its line and column are those of the bytes passed.
\<close>

subsection \<open>Tokens\<close>

datatype stmt_keyword =
   TOK_UNIT | TOK_GET | TOK_SET | TOK_ALIAS | TOK_BY | TOK_PROPERTY | TOK_FUNCTION
   | TOK_RETURN | TOK_IF | TOK_ELSE | TOK_ELSEIF | TOK_WHILE | TOK_FOR | TOK_FOREACH
   | TOK_SWITCH | TOK_CASE | TOK_BREAK | TOK_CONTINUE | TOK_TRY | TOK_CATCH | TOK_THROW
   | TOK_CONST | TOK_VAR | TOK_SAFE | TOK_TRUSTED | TOK_UNSAFE | TOK_ASYNC | TOK_AWAIT

datatype decl_keyword =
   TOK_EXTERN | TOK_CLASS | TOK_INTERFACE | TOK_STRUCT | TOK_ENUM | TOK_PUBLIC | TOK_PRIVATE
   | TOK_PROTECTED | TOK_INTERNAL | TOK_STATIC | TOK_VIRTUAL | TOK_OVERRIDE | TOK_ABSTRACT
   | TOK_SEALED | TOK_CONSTRUCTOR | TOK_NEW | TOK_THIS | TOK_BASE | TOK_BLOCK | TOK_RECORD
   | TOK_JUMP | TOK_DELEGATE | TOK_TRUE | TOK_FALSE | TOK_IS | TOK_IN | TOK_DEFAULT
   | TOK_NULL

datatype type_keyword =
   TOK_TYPE_VOID | TOK_TYPE_BOOL | TOK_TYPE_BYTE | TOK_TYPE_CHAR | TOK_TYPE_INT
   | TOK_TYPE_FLOAT | TOK_TYPE_F16 | TOK_TYPE_F32 | TOK_TYPE_F64 | TOK_TYPE_F128
   | TOK_TYPE_I8 | TOK_TYPE_I16 | TOK_TYPE_I32 | TOK_TYPE_I64 | TOK_TYPE_U8 | TOK_TYPE_U16
   | TOK_TYPE_U32 | TOK_TYPE_U64 | TOK_TYPE_ISIZE | TOK_TYPE_USIZE | TOK_TYPE_STRING
   | TOK_TYPE_ANY

datatype punct_token =
   TOK_LPAREN | TOK_RPAREN | TOK_LBRACE | TOK_RBRACE | TOK_LBRACKET | TOK_RBRACKET
   | TOK_COMMA | TOK_SEMI | TOK_DOT | TOK_COLON | TOK_QUESTION | TOK_AT

datatype op_token =
   TOK_PLUS | TOK_MINUS | TOK_STAR | TOK_SLASH | TOK_PERCENT | TOK_ASSIGN | TOK_PLUSPLUS
   | TOK_MINUSMINUS | TOK_PLUS_ASSIGN | TOK_MINUS_ASSIGN | TOK_STAR_ASSIGN
   | TOK_SLASH_ASSIGN | TOK_PERCENT_ASSIGN | TOK_EQ | TOK_NE | TOK_LT | TOK_LE | TOK_GT
   | TOK_GE | TOK_ANDAND | TOK_OROR | TOK_NOT | TOK_AMP | TOK_BITOR | TOK_XOR | TOK_SHL
   | TOK_SHR | TOK_TILDE

datatype token_type =
    TOK_EOF | TOK_ID | TOK_NUMBER | TOK_STRING | TOK_BAD_STRING | TOK_CHAR_LIT | TOK_BAD_CHAR
  | SK stmt_keyword | DK decl_keyword | TY type_keyword | PU punct_token | OP op_token

record token =
  tk_type :: token_type
  tk_start :: nat
  tk_length :: nat
  tk_line :: nat
  tk_col :: nat

record lexer =
  lx_src :: "char list"
  lx_len :: nat
  lx_pos :: nat
  lx_line :: nat
  lx_col :: nat
  lx_ch :: char

subsection \<open>The cursor\<close>

definition lex_init :: "cstr \<Rightarrow> lexer" where
  "lex_init src =
     (let s = (case src of None \<Rightarrow> [] | Some t \<Rightarrow> t); len = length s;
          pos = (if len \<ge> 3 \<and> s ! 0 = CHR 0xEF \<and> s ! 1 = CHR 0xBB \<and> s ! 2 = CHR 0xBF then 3 else 0)
      in \<lparr>lx_src = s, lx_len = len, lx_pos = pos, lx_line = 1, lx_col = 1,
          lx_ch = (if pos < len then s ! pos else NUL)\<rparr>)"

definition lex_advance :: "lexer \<Rightarrow> lexer" where
  "lex_advance l =
     (if lx_ch l = NUL then l
      else (let l1 = (if lx_ch l = CHR 0x0A then l\<lparr>lx_line := lx_line l + 1, lx_col := 1\<rparr>
                      else l\<lparr>lx_col := lx_col l + 1\<rparr>);
                pos = lx_pos l + 1
            in l1\<lparr>lx_pos := pos, lx_ch := (if pos < lx_len l then lx_src l ! pos else NUL)\<rparr>))"

definition lex_peek :: "lexer \<Rightarrow> char" where
  "lex_peek l = (if lx_pos l + 1 < lx_len l then lx_src l ! (lx_pos l + 1) else NUL)"

definition is_alpha :: "char \<Rightarrow> bool" where
  "is_alpha c \<longleftrightarrow> (let uc = byte_of c
     in (97 \<le> uc \<and> uc \<le> 122) \<or> (65 \<le> uc \<and> uc \<le> 90) \<or> uc = 95 \<or> uc \<ge> 0x80)"

definition is_digit :: "char \<Rightarrow> bool" where
  "is_digit c \<longleftrightarrow> 48 \<le> byte_of c \<and> byte_of c \<le> 57"

definition is_hex_digit :: "char \<Rightarrow> bool" where
  "is_hex_digit c \<longleftrightarrow> is_digit c \<or> (97 \<le> byte_of c \<and> byte_of c \<le> 102) \<or> (65 \<le> byte_of c \<and> byte_of c \<le> 70)"

text \<open>Bytes the cursor can still pass.\<close>

definition lex_left :: "lexer \<Rightarrow> nat" where
  "lex_left l = (if lx_ch l = NUL then 0 else Suc (lx_len l - lx_pos l))"

lemma lex_left_advance [simp]: "lx_ch l \<noteq> NUL \<Longrightarrow> lex_left (lex_advance l) < lex_left l"
  by (auto simp: lex_left_def lex_advance_def Let_def)

lemma lex_left_advance_le [simp]: "lex_left (lex_advance l) \<le> lex_left l"
  by (cases "lx_ch l = NUL") (simp_all add: less_imp_le, simp add: lex_advance_def)

lemma lex_left_advance2 [simp]: "lx_ch l \<noteq> NUL \<Longrightarrow> lex_left (lex_advance (lex_advance l)) < lex_left l"
  using lex_left_advance [of l] lex_left_advance_le [of "lex_advance l"] by linarith

lemma lex_left_advance2_le [simp]: "lex_left (lex_advance (lex_advance l)) \<le> lex_left l"
  using lex_left_advance_le [of l] lex_left_advance_le [of "lex_advance l"] by linarith

function lex_while :: "(char \<Rightarrow> bool) \<Rightarrow> lexer \<Rightarrow> lexer" where
  "lex_while P l = (if lx_ch l \<noteq> NUL \<and> P (lx_ch l) then lex_while P (lex_advance l) else l)"
  by pat_completeness auto
termination
  by (relation "measure (\<lambda>(P, l). lex_left l)") auto

function lex_block_comment :: "lexer \<Rightarrow> lexer" where
  "lex_block_comment l =
     (if lx_ch l = NUL then l
      else if lx_ch l = CHR ''*'' \<and> lex_peek l = CHR ''/'' then lex_advance (lex_advance l)
      else lex_block_comment (lex_advance l))"
  by pat_completeness auto
termination
  by (relation "measure lex_left") auto

declare lex_while.simps [simp del] lex_block_comment.simps [simp del]

lemma lex_left_while [simp]: "lex_left (lex_while P l) \<le> lex_left l"
proof (induction P l rule: lex_while.induct)
  case (1 P l)
  then show ?case by (subst lex_while.simps) (auto intro: order_trans)
qed

lemma lex_left_block [simp]: "lex_left (lex_block_comment l) \<le> lex_left l"
proof (induction l rule: lex_block_comment.induct)
  case (1 l)
  then show ?case by (subst lex_block_comment.simps) (auto intro: order_trans)
qed

definition lex_space :: "char \<Rightarrow> bool" where
  "lex_space c \<longleftrightarrow> c = CHR '' '' \<or> c = CHR 0x09 \<or> c = CHR 0x0D \<or> c = CHR 0x0A"

function lex_skip_ws :: "lexer \<Rightarrow> lexer" where
  "lex_skip_ws l0 =
     (let l = lex_while lex_space l0
      in if lx_ch l = CHR ''/'' \<and> lex_peek l = CHR ''/''
         then lex_skip_ws (lex_while (\<lambda>c. c \<noteq> CHR 0x0A) (lex_advance (lex_advance l)))
         else if lx_ch l = CHR ''/'' \<and> lex_peek l = CHR ''*''
         then lex_skip_ws (lex_block_comment (lex_advance (lex_advance l)))
         else l)"
  by pat_completeness auto
termination
proof (relation "measure lex_left")
  have lt: "lex_left (lex_advance (lex_advance (lex_while lex_space l))) < lex_left l"
    if "lx_ch (lex_while lex_space l) = CHR ''/''" for l
  proof -
    have "lx_ch (lex_while lex_space l) \<noteq> NUL" using that by (simp add: NUL_def)
    then show ?thesis
      using lex_left_advance2 [of "lex_while lex_space l"] lex_left_while [of lex_space l] by linarith
  qed
  fix l0 l
  show "l = lex_while lex_space l0 \<Longrightarrow> lx_ch l = CHR ''/'' \<and> lex_peek l = CHR ''/'' \<Longrightarrow>
      (lex_while (\<lambda>c. c \<noteq> CHR 0x0A) (lex_advance (lex_advance l)), l0) \<in> measure lex_left"
    using le_less_trans [OF lex_left_while lt [of l0]] by simp
  show "l = lex_while lex_space l0 \<Longrightarrow> lx_ch l = CHR ''/'' \<and> lex_peek l = CHR ''*'' \<Longrightarrow>
      (lex_block_comment (lex_advance (lex_advance l)), l0) \<in> measure lex_left"
    using le_less_trans [OF lex_left_block lt [of l0]] by simp
qed simp

declare lex_skip_ws.simps [simp del]

subsection \<open>Literals\<close>

function closing_loop :: "char list \<Rightarrow> nat \<Rightarrow> nat \<Rightarrow> bool \<Rightarrow> bool" where
  "closing_loop src len i escaped =
     (if i < len then
        (let c = src ! i
         in if c = CHR 0x0A \<or> c = CHR 0x0D then False
            else if \<not> escaped \<and> c = CHR 0x22 then True
            else closing_loop src len (i + 1) (\<not> escaped \<and> c = CHR 0x5C))
      else False)"
  by pat_completeness auto
termination
  by (relation "measure (\<lambda>(s, n, i, e). n - i)") auto

declare closing_loop.simps [simp del]

definition has_closing_quote_before_eol :: "lexer \<Rightarrow> bool" where
  "has_closing_quote_before_eol l =
     (if lx_ch l \<noteq> CHR 0x22 then False else closing_loop (lx_src l) (lx_len l) (lx_pos l + 1) False)"

definition is_char_escape :: "char \<Rightarrow> bool" where
  "is_char_escape c \<longleftrightarrow> c \<in> {CHR ''0'', CHR ''b'', CHR ''n'', CHR ''r'', CHR ''t'', CHR 0x5C, CHR 0x27, CHR 0x22}"

definition make_token :: "lexer \<Rightarrow> token_type \<Rightarrow> nat \<Rightarrow> nat \<Rightarrow> nat \<Rightarrow> nat \<Rightarrow> token" where
  "make_token l t start len line col =
     \<lparr>tk_type = t, tk_start = start, tk_length = len, tk_line = line, tk_col = col\<rparr>"

definition line_end :: "char \<Rightarrow> bool" where
  "line_end c \<longleftrightarrow> c = CHR 0x0A \<or> c = CHR 0x0D"

function lex_string_body :: "bool \<Rightarrow> lexer \<Rightarrow> lexer" where
  "lex_string_body terminated l =
     (if lx_ch l = NUL then l
      else if terminated \<and> lx_ch l = CHR 0x22 then lex_advance l
      else if \<not> terminated \<and> (line_end (lx_ch l) \<or> lx_ch l = CHR '')'' \<or> lx_ch l = CHR '';'' \<or> lx_ch l = CHR ''}'')
      then l
      else if lx_ch l = CHR 0x5C
      then (let l1 = lex_advance l
            in if lx_ch l1 \<noteq> NUL \<and> \<not> line_end (lx_ch l1) then lex_string_body terminated (lex_advance l1)
               else lex_string_body terminated l1)
      else if line_end (lx_ch l) then l
      else lex_string_body terminated (lex_advance l))"
  by pat_completeness auto
termination
proof (relation "measure (\<lambda>(t, l). lex_left l)")
  fix terminated l x
  assume "lx_ch l \<noteq> NUL" "x = lex_advance l"
  then show "((terminated, lex_advance x), terminated, l) \<in> measure (\<lambda>(t, l). lex_left l)"
    by simp
qed auto

function lex_char_body :: "lexer \<Rightarrow> nat \<Rightarrow> bool \<Rightarrow> lexer \<times> nat \<times> bool" where
  "lex_char_body l value_count valid =
     (if lx_ch l = NUL then (l, value_count, valid)
      else if line_end (lx_ch l) then (l, value_count, valid)
      else if lx_ch l = CHR 0x27 then (lex_advance l, value_count, valid)
      else if lx_ch l = CHR 0x5C
      then (let l1 = lex_advance l
            in if lx_ch l1 = NUL \<or> line_end (lx_ch l1) then (l1, value_count + 1, valid)
               else lex_char_body (lex_advance l1) (value_count + 1) (valid \<and> is_char_escape (lx_ch l1)))
      else lex_char_body (lex_advance l) (value_count + 1) valid)"
  by pat_completeness auto
termination
proof (relation "measure (\<lambda>(l, n, v). lex_left l)")
  fix l x and value_count :: nat and valid
  assume "lx_ch l \<noteq> NUL" "x = lex_advance l"
  then show "((lex_advance x, value_count + 1, valid \<and> is_char_escape (lx_ch x)), l, value_count, valid)
      \<in> measure (\<lambda>(l, n, v). lex_left l)"
    by simp
qed auto

declare lex_string_body.simps [simp del] lex_char_body.simps [simp del]

subsection \<open>Keywords and operators\<close>

definition g_keywords :: "(char list \<times> token_type) list" where
  "g_keywords =
    [(''Unit'', SK TOK_UNIT), (''Get'', SK TOK_GET), (''Set'', SK TOK_SET),
     (''Alias'', SK TOK_ALIAS), (''By'', SK TOK_BY), (''Property'', SK TOK_PROPERTY),
     (''Function'', SK TOK_FUNCTION), (''Extern'', DK TOK_EXTERN), (''Return'', SK TOK_RETURN),
     (''If'', SK TOK_IF), (''Else'', SK TOK_ELSE), (''ElseIf'', SK TOK_ELSEIF),
     (''While'', SK TOK_WHILE), (''For'', SK TOK_FOR), (''Foreach'', SK TOK_FOREACH),
     (''Switch'', SK TOK_SWITCH), (''Case'', SK TOK_CASE), (''Break'', SK TOK_BREAK),
     (''Continue'', SK TOK_CONTINUE), (''Try'', SK TOK_TRY), (''Catch'', SK TOK_CATCH),
     (''Throw'', SK TOK_THROW), (''Class'', DK TOK_CLASS), (''Interface'', DK TOK_INTERFACE),
     (''Struct'', DK TOK_STRUCT), (''Enum'', DK TOK_ENUM), (''Public'', DK TOK_PUBLIC),
     (''Private'', DK TOK_PRIVATE), (''Protected'', DK TOK_PROTECTED), (''Internal'', DK TOK_INTERNAL),
     (''Static'', DK TOK_STATIC), (''Virtual'', DK TOK_VIRTUAL), (''Override'', DK TOK_OVERRIDE),
     (''Abstract'', DK TOK_ABSTRACT), (''Sealed'', DK TOK_SEALED), (''Constructor'', DK TOK_CONSTRUCTOR),
     (''New'', DK TOK_NEW), (''This'', DK TOK_THIS), (''Base'', DK TOK_BASE),
     (''Block'', DK TOK_BLOCK), (''Record'', DK TOK_RECORD), (''Jump'', DK TOK_JUMP),
     (''Delegate'', DK TOK_DELEGATE), (''Const'', SK TOK_CONST), (''Var'', SK TOK_VAR),
     (''Safe'', SK TOK_SAFE), (''Trusted'', SK TOK_TRUSTED), (''Unsafe'', SK TOK_UNSAFE),
     (''Async'', SK TOK_ASYNC), (''Await'', SK TOK_AWAIT), (''true'', DK TOK_TRUE),
     (''false'', DK TOK_FALSE), (''Is'', DK TOK_IS), (''In'', DK TOK_IN),
     (''default'', DK TOK_DEFAULT), (''null'', DK TOK_NULL), (''void'', TY TOK_TYPE_VOID),
     (''bool'', TY TOK_TYPE_BOOL), (''byte'', TY TOK_TYPE_BYTE), (''char'', TY TOK_TYPE_CHAR),
     (''int'', TY TOK_TYPE_INT), (''float'', TY TOK_TYPE_FLOAT), (''f16'', TY TOK_TYPE_F16),
     (''f32'', TY TOK_TYPE_F32), (''f64'', TY TOK_TYPE_F64), (''f128'', TY TOK_TYPE_F128),
     (''i8'', TY TOK_TYPE_I8), (''i16'', TY TOK_TYPE_I16), (''i32'', TY TOK_TYPE_I32),
     (''i64'', TY TOK_TYPE_I64), (''u8'', TY TOK_TYPE_U8), (''u16'', TY TOK_TYPE_U16),
     (''u32'', TY TOK_TYPE_U32), (''u64'', TY TOK_TYPE_U64), (''isize'', TY TOK_TYPE_ISIZE),
     (''usize'', TY TOK_TYPE_USIZE), (''string'', TY TOK_TYPE_STRING), (''any'', TY TOK_TYPE_ANY)]"

fun kw_search :: "(char list \<times> token_type) list \<Rightarrow> char list \<Rightarrow> nat \<Rightarrow> token_type" where
  "kw_search [] s len = TOK_ID"
| "kw_search ((kw, t) # rest) s len =
     (if kn_strlen (Some kw) = len \<and> kn_strncmp (Some s) (Some kw) len = 0 then t else kw_search rest s len)"

definition kw_lookup :: "char list \<Rightarrow> nat \<Rightarrow> token_type" where
  "kw_lookup s len = kw_search g_keywords s len"

definition two_char_op :: "char \<Rightarrow> char \<Rightarrow> op_token option" where
  "two_char_op c n =
     (if c = CHR ''='' \<and> n = CHR ''='' then Some TOK_EQ
      else if c = CHR ''!'' \<and> n = CHR ''='' then Some TOK_NE
      else if c = CHR ''<'' \<and> n = CHR ''='' then Some TOK_LE
      else if c = CHR ''>'' \<and> n = CHR ''='' then Some TOK_GE
      else if c = CHR ''<'' \<and> n = CHR ''<'' then Some TOK_SHL
      else if c = CHR ''>'' \<and> n = CHR ''>'' then Some TOK_SHR
      else if c = CHR ''&'' \<and> n = CHR ''&'' then Some TOK_ANDAND
      else if c = CHR ''|'' \<and> n = CHR ''|'' then Some TOK_OROR
      else if c = CHR ''+'' \<and> n = CHR ''+'' then Some TOK_PLUSPLUS
      else if c = CHR ''-'' \<and> n = CHR ''-'' then Some TOK_MINUSMINUS
      else if c = CHR ''+'' \<and> n = CHR ''='' then Some TOK_PLUS_ASSIGN
      else if c = CHR ''-'' \<and> n = CHR ''='' then Some TOK_MINUS_ASSIGN
      else if c = CHR ''*'' \<and> n = CHR ''='' then Some TOK_STAR_ASSIGN
      else if c = CHR ''/'' \<and> n = CHR ''='' then Some TOK_SLASH_ASSIGN
      else if c = CHR ''%'' \<and> n = CHR ''='' then Some TOK_PERCENT_ASSIGN
      else None)"

definition one_char_op :: "char \<Rightarrow> token_type option" where
  "one_char_op c =
     (if c = CHR ''('' then Some (PU TOK_LPAREN)
      else if c = CHR '')'' then Some (PU TOK_RPAREN)
      else if c = CHR ''{'' then Some (PU TOK_LBRACE)
      else if c = CHR ''}'' then Some (PU TOK_RBRACE)
      else if c = CHR ''['' then Some (PU TOK_LBRACKET)
      else if c = CHR '']'' then Some (PU TOK_RBRACKET)
      else if c = CHR '','' then Some (PU TOK_COMMA)
      else if c = CHR '';'' then Some (PU TOK_SEMI)
      else if c = CHR ''.'' then Some (PU TOK_DOT)
      else if c = CHR '':'' then Some (PU TOK_COLON)
      else if c = CHR ''?'' then Some (PU TOK_QUESTION)
      else if c = CHR ''@'' then Some (PU TOK_AT)
      else if c = CHR ''+'' then Some (OP TOK_PLUS)
      else if c = CHR ''-'' then Some (OP TOK_MINUS)
      else if c = CHR ''*'' then Some (OP TOK_STAR)
      else if c = CHR ''/'' then Some (OP TOK_SLASH)
      else if c = CHR ''%'' then Some (OP TOK_PERCENT)
      else if c = CHR ''='' then Some (OP TOK_ASSIGN)
      else if c = CHR ''<'' then Some (OP TOK_LT)
      else if c = CHR ''>'' then Some (OP TOK_GT)
      else if c = CHR ''!'' then Some (OP TOK_NOT)
      else if c = CHR ''&'' then Some (OP TOK_AMP)
      else if c = CHR ''|'' then Some (OP TOK_BITOR)
      else if c = CHR ''^'' then Some (OP TOK_XOR)
      else if c = CHR ''~'' then Some (OP TOK_TILDE)
      else None)"

subsection \<open>The next token\<close>

definition word_char :: "char \<Rightarrow> bool" where
  "word_char c \<longleftrightarrow> is_alpha c \<or> is_digit c"

definition lex_word :: "lexer \<Rightarrow> token \<times> lexer" where
  "lex_word l =
     (let start = lx_pos l; l' = lex_while word_char l; len = lx_pos l' - start;
          t = kw_lookup (drop start (lx_src l)) len
      in (make_token l' t start len (lx_line l) (lx_col l), l'))"

definition lex_number :: "lexer \<Rightarrow> token \<times> lexer" where
  "lex_number l =
     (let l1 = (if lx_ch l = CHR ''0'' \<and> (lex_peek l = CHR ''x'' \<or> lex_peek l = CHR ''X'')
                then lex_while is_hex_digit (lex_advance (lex_advance l))
                else (let l1 = lex_while is_digit l
                      in if lx_ch l1 = CHR ''.'' \<and> is_digit (lex_peek l1)
                         then lex_while is_digit (lex_advance l1) else l1));
          l2 = (if lx_ch l1 = CHR ''f'' \<or> lx_ch l1 = CHR ''F'' then lex_advance l1 else l1)
      in (make_token l2 TOK_NUMBER (lx_pos l) (lx_pos l2 - lx_pos l) (lx_line l) (lx_col l), l2))"

definition lex_string :: "lexer \<Rightarrow> token \<times> lexer" where
  "lex_string l =
     (let terminated = has_closing_quote_before_eol l;
          l' = lex_string_body terminated (lex_advance l)
      in (make_token l' (if terminated then TOK_STRING else TOK_BAD_STRING) (lx_pos l)
            (lx_pos l' - lx_pos l) (lx_line l) (lx_col l), l'))"

definition lex_char :: "lexer \<Rightarrow> token \<times> lexer" where
  "lex_char l =
     (case lex_char_body (lex_advance l) 0 True of (l', value_count, valid) \<Rightarrow>
        (let start = lx_pos l;
             valid = (if lx_pos l' \<le> start + 1 \<or> lx_src l' ! (lx_pos l' - 1) \<noteq> CHR 0x27 then False else valid);
             valid = (if value_count \<noteq> 1 then False else valid)
         in (make_token l' (if valid then TOK_CHAR_LIT else TOK_BAD_CHAR) start
               (lx_pos l' - start) (lx_line l) (lx_col l), l')))"

definition lex_operator :: "lexer \<Rightarrow> token \<times> lexer" where
  "lex_operator l =
     (let start = lx_pos l; line = lx_line l; col = lx_col l
      in case two_char_op (lx_ch l) (lex_peek l) of
           Some t \<Rightarrow> (let l' = lex_advance (lex_advance l) in (make_token l' (OP t) start 2 line col, l'))
         | None \<Rightarrow>
             (let l' = lex_advance l
              in case one_char_op (lx_ch l) of
                   Some t \<Rightarrow> (make_token l' t start 1 line col, l')
                 | None \<Rightarrow> (make_token l' TOK_EOF start 1 line col, l')))"

definition lex_next :: "lexer \<Rightarrow> token \<times> lexer" where
  "lex_next l0 =
     (let l = lex_skip_ws l0
      in if lx_ch l = NUL then (make_token l TOK_EOF (lx_pos l) 0 (lx_line l) (lx_col l), l)
         else if is_alpha (lx_ch l) then lex_word l
         else if is_digit (lx_ch l) then lex_number l
         else if lx_ch l = CHR 0x22 then lex_string l
         else if lx_ch l = CHR 0x27 then lex_char l
         else lex_operator l)"

end
