(* ===== verification/LexerProps.thy ===== *)
theory LexerProps
  imports Lexer
begin

text \<open>
  What the lexer's states and tokens satisfy: every operation moves forward in the source
  (\<open>lex_to\<close>), a token starts where the blanks and comments before it end, ends where the next
  search begins, and carries the line and column of its first byte; words are keywords exactly when
  the table lists them.
\<close>

subsection \<open>States of one source\<close>

definition lex_ok :: "lexer \<Rightarrow> bool" where
  "lex_ok l \<longleftrightarrow> c_string (lx_src l) \<and> lx_len l = length (lx_src l) \<and> lx_pos l \<le> length (lx_src l) \<and>
     lx_ch l = at (lx_src l) (lx_pos l)"

fun adv_lc :: "nat \<times> nat \<Rightarrow> char \<Rightarrow> nat \<times> nat" where
  "adv_lc (line, col) c = (if c = CHR 0x0A then (line + 1, 1) else (line, col + 1))"

definition span :: "char list \<Rightarrow> nat \<Rightarrow> nat \<Rightarrow> char list" where
  "span s a b = take (b - a) (drop a s)"

text \<open>From \<open>l\<close> the lexer has moved to \<open>l'\<close>.\<close>

definition lex_to :: "lexer \<Rightarrow> lexer \<Rightarrow> bool" where
  "lex_to l l' \<longleftrightarrow> lex_ok l' \<and> lx_src l' = lx_src l \<and> lx_pos l \<le> lx_pos l' \<and>
     (lx_line l', lx_col l') = foldl adv_lc (lx_line l, lx_col l) (span (lx_src l) (lx_pos l) (lx_pos l'))"

lemma lex_ok_NUL: "lex_ok l \<Longrightarrow> lx_ch l = NUL \<longleftrightarrow> lx_pos l = length (lx_src l)"
  by (auto simp: lex_ok_def at_NUL_iff)

lemma lex_ok_ch: "lex_ok l \<Longrightarrow> lx_ch l \<noteq> NUL \<Longrightarrow> lx_pos l < length (lx_src l) \<and> lx_ch l = lx_src l ! lx_pos l"
  by (auto simp: lex_ok_def at_def split: if_splits)

lemma lex_ok_peek: "lex_ok l \<Longrightarrow> lex_peek l = at (lx_src l) (lx_pos l + 1)"
  by (simp add: lex_ok_def lex_peek_def at_def)

lemma span_Nil [simp]: "span s a a = []"
  by (simp add: span_def)

lemma span_append:
  assumes "a \<le> b" "b \<le> c"
  shows "span s a c = span s a b @ span s b c"
proof -
  have "take ((b - a) + (c - b)) (drop a s) = take (b - a) (drop a s) @ take (c - b) (drop (b - a) (drop a s))"
    by (rule take_add)
  then show ?thesis using assms by (simp add: span_def)
qed

lemma span_one: "a < length s \<Longrightarrow> span s a (Suc a) = [s ! a]"
  by (simp add: span_def take_Suc_nth)

lemma span_Cons: "a < b \<Longrightarrow> a < length s \<Longrightarrow> span s a b = s ! a # span s (Suc a) b"
  using span_append [of a "Suc a" b s] by (simp add: span_one)

lemma length_span: "b \<le> length s \<Longrightarrow> length (span s a b) = b - a"
  by (simp add: span_def)

lemma lex_to_refl: "lex_ok l \<Longrightarrow> lex_to l l"
  by (simp add: lex_to_def)

lemma lex_to_trans: "lex_to l l' \<Longrightarrow> lex_to l' l'' \<Longrightarrow> lex_to l l''"
proof -
  assume a: "lex_to l l'" and b: "lex_to l' l''"
  have sp: "span (lx_src l) (lx_pos l) (lx_pos l'') =
      span (lx_src l) (lx_pos l) (lx_pos l') @ span (lx_src l) (lx_pos l') (lx_pos l'')"
    using a b by (intro span_append) (auto simp: lex_to_def)
  show ?thesis using a b unfolding lex_to_def sp foldl_append by auto
qed

lemma lex_to_advance:
  assumes "lex_ok l"
  shows "lex_to l (lex_advance l)"
proof (cases "lx_ch l = NUL")
  case True
  then show ?thesis using assms by (simp add: lex_advance_def lex_to_refl)
next
  case False
  note ch = lex_ok_ch [OF assms False]
  have "lx_len l = length (lx_src l)" "c_string (lx_src l)" using assms by (simp_all add: lex_ok_def)
  then show ?thesis using ch False
    by (auto simp: lex_advance_def lex_to_def lex_ok_def Let_def at_def span_one)
qed

lemma lex_advance_pos: "lx_ch l \<noteq> NUL \<Longrightarrow> lx_pos (lex_advance l) = lx_pos l + 1"
  by (simp add: lex_advance_def Let_def)

lemma lex_toD:
  "lex_to l l' \<Longrightarrow> lex_ok l'" "lex_to l l' \<Longrightarrow> lx_src l' = lx_src l" "lex_to l l' \<Longrightarrow> lx_pos l \<le> lx_pos l'"
  by (auto simp: lex_to_def)

lemma lex_to_then_advance: "lex_to l l' \<Longrightarrow> lex_to l (lex_advance l')"
  using lex_to_trans lex_to_advance lex_toD(1) by blast

text \<open>
  A loop that consumes characters: it ends in a state reached, has passed only characters of the
  class, and stops at one outside it or at the end.
\<close>

lemma lex_to_while:
  "lex_ok l \<Longrightarrow> lex_to l (lex_while P l) \<and>
     (\<forall>c\<in>set (span (lx_src l) (lx_pos l) (lx_pos (lex_while P l))). P c) \<and>
     (lx_ch (lex_while P l) = NUL \<or> \<not> P (lx_ch (lex_while P l)))"
proof (induction P l rule: lex_while.induct)
  case (1 P l)
  show ?case
  proof (cases "lx_ch l \<noteq> NUL \<and> P (lx_ch l)")
    case True
    then have w: "lex_while P l = lex_while P (lex_advance l)" by (subst lex_while.simps) simp
    have a: "lex_to l (lex_advance l)" by (rule lex_to_advance [OF "1.prems"])
    from "1.IH" [OF True lex_toD(1) [OF a]]
    have ih: "lex_to (lex_advance l) (lex_while P l)"
      "\<forall>c\<in>set (span (lx_src l) (lx_pos l + 1) (lx_pos (lex_while P l))). P c"
      "lx_ch (lex_while P l) = NUL \<or> \<not> P (lx_ch (lex_while P l))"
      using True lex_toD(2) [OF a] by (simp_all add: w lex_advance_pos)
    have ch: "lx_pos l < length (lx_src l)" "lx_ch l = lx_src l ! lx_pos l"
      using lex_ok_ch [OF "1.prems"] True by auto
    have "lx_pos l + 1 \<le> lx_pos (lex_while P l)" using lex_toD(3) [OF ih(1)] True by (simp add: lex_advance_pos)
    then have "span (lx_src l) (lx_pos l) (lx_pos (lex_while P l)) =
        lx_ch l # span (lx_src l) (lx_pos l + 1) (lx_pos (lex_while P l))"
      using ch by (simp add: span_Cons)
    then show ?thesis using ih True lex_to_trans [OF a ih(1)] by simp
  next
    case False
    then have "lex_while P l = l" by (subst lex_while.simps) auto
    then show ?thesis using "1.prems" False by (auto simp: lex_to_refl)
  qed
qed

lemma lex_to_block: "lex_ok l \<Longrightarrow> lex_to l (lex_block_comment l)"
proof (induction l rule: lex_block_comment.induct)
  case (1 l)
  note a = lex_to_advance [OF "1.prems"]
  have "lex_to l (lex_advance (lex_advance l))" by (rule lex_to_then_advance [OF a])
  then show ?case using 1 a lex_to_trans [OF a] lex_toD(1) [OF a]
    by (subst lex_block_comment.simps) (auto simp: lex_to_refl)
qed

lemma lex_to_string: "lex_ok l \<Longrightarrow> lex_to l (lex_string_body t l)"
proof (induction t l rule: lex_string_body.induct)
  case (1 t l)
  note a = lex_to_advance [OF "1.prems"]
  have b: "lex_to l (lex_advance (lex_advance l))" by (rule lex_to_then_advance [OF a])
  show ?case
    using "1.IH" "1.prems" a b lex_to_trans [OF a] lex_to_trans [OF b] lex_toD(1) [OF a] lex_toD(1) [OF b]
    by (subst lex_string_body.simps) (auto simp: Let_def lex_to_refl)
qed

lemma lex_to_char: "lex_ok l \<Longrightarrow> lex_to l (fst (lex_char_body l n v))"
proof (induction l n v rule: lex_char_body.induct)
  case (1 l n v)
  note a = lex_to_advance [OF "1.prems"]
  have b: "lex_to l (lex_advance (lex_advance l))" by (rule lex_to_then_advance [OF a])
  show ?case
    using "1.IH" "1.prems" a b lex_to_trans [OF a] lex_to_trans [OF b] lex_toD(1) [OF a] lex_toD(1) [OF b]
    by (subst lex_char_body.simps) (auto simp: Let_def lex_to_refl)
qed

text \<open>
  Blanks and comments, as a grammar on the bytes between two positions: a line comment runs up to a
  newline or the end, a block comment up to the first closing pair or the end.
\<close>

fun close_free :: "char list \<Rightarrow> bool" where
  "close_free [] = True"
| "close_free (c # s) \<longleftrightarrow> \<not> (c = CHR ''*'' \<and> s \<noteq> [] \<and> hd s = CHR ''/'') \<and> close_free s"

inductive trivia :: "char list \<Rightarrow> bool" where
  trivia_nil: "trivia []"
| trivia_blank: "lex_space c \<Longrightarrow> trivia s \<Longrightarrow> trivia (c # s)"
| trivia_line: "CHR 0x0A \<notin> set s \<Longrightarrow> r = [] \<or> hd r = CHR 0x0A \<Longrightarrow> trivia r \<Longrightarrow>
    trivia (CHR ''/'' # CHR ''/'' # s @ r)"
| trivia_block: "close_free (s @ ''*'') \<Longrightarrow> trivia r \<Longrightarrow>
    trivia (CHR ''/'' # CHR ''*'' # s @ CHR ''*'' # CHR ''/'' # r)"
| trivia_open: "close_free s \<Longrightarrow> trivia (CHR ''/'' # CHR ''*'' # s)"

lemma trivia_blanks: "\<forall>c\<in>set s. lex_space c \<Longrightarrow> trivia r \<Longrightarrow> trivia (s @ r)"
  by (induction s) (auto intro: trivia.intros)

text \<open>A block comment ends right after the first closing pair, or at the end of the source.\<close>

lemma span_hd: "a < b \<Longrightarrow> b \<le> length s \<Longrightarrow> hd (span s a b) = at s a"
  by (simp add: span_Cons at_def)

lemma block_span:
  "lex_ok l \<Longrightarrow>
    (\<exists>s. span (lx_src l) (lx_pos l) (lx_pos (lex_block_comment l)) = s @ ''*/'' \<and> close_free (s @ ''*'')) \<or>
    lx_ch (lex_block_comment l) = NUL \<and> close_free (span (lx_src l) (lx_pos l) (lx_pos (lex_block_comment l)))"
proof (induction l rule: lex_block_comment.induct)
  case (1 l)
  show ?case
  proof (cases "lx_ch l = NUL")
    case True
    then have "lex_block_comment l = l" by (subst lex_block_comment.simps) simp
    then show ?thesis using True by simp
  next
    case nn: False
    note a = lex_to_advance [OF "1.prems"] and ch = lex_ok_ch [OF "1.prems" nn]
    show ?thesis
    proof (cases "lx_ch l = CHR ''*'' \<and> lex_peek l = CHR ''/''")
      case True
      then have b: "lex_block_comment l = lex_advance (lex_advance l)"
        using nn by (subst lex_block_comment.simps) simp
      have p: "at (lx_src l) (lx_pos l + 1) = CHR ''/''" using True lex_ok_peek [OF "1.prems"] by simp
      then have l2: "lx_pos l + 1 < length (lx_src l)" "lx_src l ! (lx_pos l + 1) = CHR ''/''"
        by (auto simp: at_def NUL_def split: if_splits)
      have "lx_ch (lex_advance l) = CHR ''/''"
        using lex_toD(1) [OF a] lex_toD(2) [OF a] p nn by (simp add: lex_ok_def lex_advance_pos)
      then have "lx_pos (lex_block_comment l) = Suc (Suc (lx_pos l))"
        using nn by (simp add: b lex_advance_pos NUL_def)
      then have "span (lx_src l) (lx_pos l) (lx_pos (lex_block_comment l)) = [] @ ''*/''"
        using ch l2 True by (simp add: span_Cons span_one)
      moreover have "close_free ([] @ ''*'')" by simp
      ultimately show ?thesis by blast
    next
      case False
      then have b: "lex_block_comment l = lex_block_comment (lex_advance l)"
        using nn by (subst lex_block_comment.simps) auto
      note to = lex_to_block [OF lex_toD(1) [OF a]]
      have le: "lx_pos l + 1 \<le> lx_pos (lex_block_comment l)" "lx_pos (lex_block_comment l) \<le> length (lx_src l)"
        using lex_toD(3) [OF to] lex_toD(1,2) [OF to] lex_toD(2) [OF a] nn
        by (simp_all add: b lex_advance_pos lex_ok_def)
      let ?r = "span (lx_src l) (lx_pos l + 1) (lx_pos (lex_block_comment l))"
      have sp: "span (lx_src l) (lx_pos l) (lx_pos (lex_block_comment l)) = lx_ch l # ?r"
        using ch le by (simp add: span_Cons)
      have hd: "hd ?r = lex_peek l" if "?r \<noteq> []"
      proof -
        have "lx_pos l + 1 < lx_pos (lex_block_comment l)" using that le by (cases "lx_pos l + 1 = lx_pos (lex_block_comment l)") auto
        then show ?thesis using span_hd [OF _ le(2)] lex_ok_peek [OF "1.prems"] by simp
      qed
      have ih: "(\<exists>s. ?r = s @ ''*/'' \<and> close_free (s @ ''*'')) \<or> lx_ch (lex_block_comment l) = NUL \<and> close_free ?r"
        using "1.IH" [OF nn False lex_toD(1) [OF a]] nn lex_toD(2) [OF a] unfolding b [symmetric]
        by (simp add: lex_advance_pos)
      then show ?thesis
      proof
        assume "\<exists>s. ?r = s @ ''*/'' \<and> close_free (s @ ''*'')"
        then obtain s where s: "?r = s @ ''*/''" "close_free (s @ ''*'')" by blast
        have "close_free ((lx_ch l # s) @ ''*'')"
          using s(2) hd False unfolding s(1) by (cases s) auto
        then show ?thesis unfolding sp s(1) by (metis append_Cons)
      next
        assume "lx_ch (lex_block_comment l) = NUL \<and> close_free ?r"
        then show ?thesis unfolding sp using hd False by auto
      qed
    qed
  qed
qed

subsection \<open>Skipping blanks and comments\<close>

lemma line_comment_trivia:
  assumes "\<forall>c\<in>set s. c \<noteq> CHR 0x0A" "trivia r" "r = [] \<or> hd r = CHR 0x0A"
  shows "trivia (''//'' @ s @ r)"
  using trivia_line [OF _ assms(3,2), of s] assms(1) by auto

lemma two_chars:
  assumes ok: "lex_ok l" and c: "lx_ch l = a" "lex_peek l = b" "a \<noteq> NUL" "b \<noteq> NUL"
  shows "lx_pos (lex_advance (lex_advance l)) = lx_pos l + 2"
    "span (lx_src l) (lx_pos l) (lx_pos l + 2) = [a, b]"
proof -
  have nn: "lx_ch l \<noteq> NUL" using c by simp
  note a = lex_to_advance [OF ok]
  have p: "at (lx_src l) (lx_pos l + 1) = b" using c lex_ok_peek [OF ok] by simp
  then have l2: "lx_pos l + 1 < length (lx_src l)" "lx_src l ! (lx_pos l + 1) = b"
    using c(4) by (auto simp: at_def split: if_splits)
  have "lx_ch (lex_advance l) = b"
    using lex_toD(1) [OF a] lex_toD(2) [OF a] p nn by (simp add: lex_ok_def lex_advance_pos)
  then show "lx_pos (lex_advance (lex_advance l)) = lx_pos l + 2"
    using nn c(4) by (simp add: lex_advance_pos)
  show "span (lx_src l) (lx_pos l) (lx_pos l + 2) = [a, b]"
    using lex_ok_ch [OF ok nn] l2 c by (simp add: span_Cons numeral_2_eq_2)
qed

text \<open>Where skipping ends: at the end, or at a byte that starts neither a blank nor a comment.\<close>

definition token_at :: "lexer \<Rightarrow> bool" where
  "token_at l \<longleftrightarrow> lx_ch l = NUL \<or> \<not> lex_space (lx_ch l) \<and>
     \<not> (lx_ch l = CHR ''/'' \<and> (lex_peek l = CHR ''/'' \<or> lex_peek l = CHR ''*''))"

lemma lex_skip_NUL:
  assumes "lex_ok l" "lx_ch l = NUL"
  shows "lex_skip_ws l = l"
proof -
  have "lex_while lex_space l = l" using assms(2) by (subst lex_while.simps) simp
  then show ?thesis using assms(2) by (subst lex_skip_ws.simps) (simp add: NUL_def)
qed

lemma lex_skip_spec:
  "lex_ok l \<Longrightarrow> lex_to l (lex_skip_ws l) \<and> token_at (lex_skip_ws l) \<and>
     trivia (span (lx_src l) (lx_pos l) (lx_pos (lex_skip_ws l)))"
proof (induction l rule: lex_skip_ws.induct)
  case (1 l0)
  define l where "l = lex_while lex_space l0"
  note w = lex_to_while [OF "1.prems", of lex_space, folded l_def]
  have to: "lex_to l0 l" and ok: "lex_ok l" and src: "lx_src l = lx_src l0"
    using w lex_toD by blast+
  have blanks: "\<forall>c\<in>set (span (lx_src l0) (lx_pos l0) (lx_pos l)). lex_space c" using w by blast
  have whole: "trivia (span (lx_src l0) (lx_pos l0) p)"
    if "lx_pos l \<le> p" "trivia (span (lx_src l0) (lx_pos l) p)" for p
    using trivia_blanks [OF blanks that(2)] span_append [OF lex_toD(3) [OF to] that(1), of "lx_src l0"] by simp
  have S: "CHR ''/'' \<noteq> NUL" "CHR ''*'' \<noteq> NUL" by (simp_all add: NUL_def)
  let ?l2 = "lex_advance (lex_advance l)"
  have to2: "lex_to l ?l2" by (rule lex_to_then_advance [OF lex_to_advance [OF ok]])
  note ok2 = lex_toD(1) [OF to2] and src2 = lex_toD(2) [OF to2]
  show ?case
  proof (cases "lx_ch l = CHR ''/'' \<and> lex_peek l = CHR ''/''")
    case True
    note tc = two_chars [OF ok _ _ S(1) S(1)]
    define l3 where "l3 = lex_while (\<lambda>c. c \<noteq> CHR 0x0A) ?l2"
    note w3 = lex_to_while [OF ok2, of "\<lambda>c. c \<noteq> CHR 0x0A", folded l3_def]
    have to3: "lex_to l l3" using lex_to_trans [OF to2] w3 by blast
    have sk: "lex_skip_ws l0 = lex_skip_ws l3"
      using True by (subst lex_skip_ws.simps) (simp add: Let_def l_def [symmetric] l3_def)
    from "1.IH"(1) [OF l_def True] lex_toD(1) [OF to3] sk lex_toD(2) [OF to3] src
    have ih: "lex_to l3 (lex_skip_ws l0)" "token_at (lex_skip_ws l0)"
        "trivia (span (lx_src l0) (lx_pos l3) (lx_pos (lex_skip_ws l0)))" by (simp_all add: l3_def)
    have p2: "lx_pos ?l2 = lx_pos l + 2" "span (lx_src l) (lx_pos l) (lx_pos l + 2) = ''//''"
      using tc True by auto
    have le: "lx_pos l + 2 \<le> lx_pos l3" "lx_pos l3 \<le> lx_pos (lex_skip_ws l0)"
      using w3 lex_toD(3) [OF ih(1)] lex_toD(3) [of ?l2 l3] p2 by auto
    have "span (lx_src l0) (lx_pos l) (lx_pos (lex_skip_ws l0)) =
       ''//'' @ span (lx_src l0) (lx_pos l + 2) (lx_pos l3) @ span (lx_src l0) (lx_pos l3) (lx_pos (lex_skip_ws l0))"
      using le p2 src span_append [of "lx_pos l" "lx_pos l + 2" "lx_pos (lex_skip_ws l0)" "lx_src l0"]
        span_append [of "lx_pos l + 2" "lx_pos l3" "lx_pos (lex_skip_ws l0)" "lx_src l0"] by simp
    moreover have "\<forall>c\<in>set (span (lx_src l0) (lx_pos l + 2) (lx_pos l3)). c \<noteq> CHR 0x0A"
      using w3 p2(1) src src2 by simp
    moreover have "span (lx_src l0) (lx_pos l3) (lx_pos (lex_skip_ws l0)) = [] \<or>
        hd (span (lx_src l0) (lx_pos l3) (lx_pos (lex_skip_ws l0))) = CHR 0x0A"
    proof (cases "lx_pos l3 = lx_pos (lex_skip_ws l0)")
      case False
      then have lt: "lx_pos l3 < lx_pos (lex_skip_ws l0)" using le by simp
      have l3: "lex_ok l3" "lx_src l3 = lx_src l0" using lex_toD [OF to3] src by simp_all
      have "lx_pos (lex_skip_ws l0) \<le> length (lx_src l0)"
        using lex_toD(1,2) [OF ih(1)] l3 by (simp add: lex_ok_def)
      moreover from this have "lx_ch l3 = CHR 0x0A" using w3 lex_ok_NUL [OF l3(1)] l3(2) lt by auto
      ultimately show ?thesis using span_hd [OF lt] l3 by (simp add: lex_ok_def)
    qed simp
    ultimately have "trivia (span (lx_src l0) (lx_pos l) (lx_pos (lex_skip_ws l0)))"
      using line_comment_trivia [OF _ ih(3)] by simp
    then show ?thesis using ih(2) whole le lex_to_trans [OF to lex_to_trans [OF to3 ih(1)]] by simp
  next
    case nl: False
    show ?thesis
    proof (cases "lx_ch l = CHR ''/'' \<and> lex_peek l = CHR ''*''")
      case True
      note tc = two_chars [OF ok _ _ S(1) S(2)]
      define l3 where "l3 = lex_block_comment ?l2"
      have to3': "lex_to ?l2 l3" unfolding l3_def by (rule lex_to_block [OF ok2])
      have to3: "lex_to l l3" by (rule lex_to_trans [OF to2 to3'])
      have sk: "lex_skip_ws l0 = lex_skip_ws l3"
        using True nl by (subst lex_skip_ws.simps) (simp add: Let_def l_def [symmetric] l3_def)
      from "1.IH"(2) [OF l_def nl True] lex_toD(1) [OF to3] sk lex_toD(2) [OF to3] src
      have ih: "lex_to l3 (lex_skip_ws l0)" "token_at (lex_skip_ws l0)"
          "trivia (span (lx_src l0) (lx_pos l3) (lx_pos (lex_skip_ws l0)))" by (simp_all add: l3_def)
      have p2: "lx_pos ?l2 = lx_pos l + 2" "span (lx_src l) (lx_pos l) (lx_pos l + 2) = ''/*''"
        using tc True by auto
      have le: "lx_pos l + 2 \<le> lx_pos l3" "lx_pos l3 \<le> lx_pos (lex_skip_ws l0)"
        using lex_toD(3) [OF ih(1)] lex_toD(3) [OF to3'] p2 by auto
      have sp: "span (lx_src l0) (lx_pos l) (lx_pos (lex_skip_ws l0)) =
         ''/*'' @ span (lx_src l0) (lx_pos l + 2) (lx_pos l3) @ span (lx_src l0) (lx_pos l3) (lx_pos (lex_skip_ws l0))"
        using le p2 src span_append [of "lx_pos l" "lx_pos l + 2" "lx_pos (lex_skip_ws l0)" "lx_src l0"]
          span_append [of "lx_pos l + 2" "lx_pos l3" "lx_pos (lex_skip_ws l0)" "lx_src l0"] by simp
      have "trivia (span (lx_src l0) (lx_pos l) (lx_pos (lex_skip_ws l0)))"
        using block_span [OF ok2, folded l3_def]
      proof
        assume "\<exists>s. span (lx_src ?l2) (lx_pos ?l2) (lx_pos l3) = s @ ''*/'' \<and> close_free (s @ ''*'')"
        then obtain s where s: "span (lx_src l0) (lx_pos l + 2) (lx_pos l3) = s @ ''*/''" "close_free (s @ ''*'')"
          using p2(1) src src2 by auto
        show ?thesis unfolding sp s(1) using trivia_block [OF s(2) ih(3)] by simp
      next
        assume n: "lx_ch l3 = NUL \<and> close_free (span (lx_src ?l2) (lx_pos ?l2) (lx_pos l3))"
        then have "lex_skip_ws l0 = l3" using sk lex_skip_NUL [OF lex_toD(1) [OF to3]] by simp
        then show ?thesis unfolding sp using trivia_open n p2(1) src src2 by simp
      qed
      then show ?thesis using ih(2) whole le lex_to_trans [OF to lex_to_trans [OF to3 ih(1)]] by simp
    next
      case False
      then have sk: "lex_skip_ws l0 = l"
        using nl by (subst lex_skip_ws.simps) (auto simp add: Let_def l_def [symmetric])
      then have "token_at (lex_skip_ws l0)" using w nl False by (auto simp: token_at_def)
      then show ?thesis using sk to whole [of "lx_pos l"] by (simp add: trivia_nil)
    qed
  qed
qed

subsection \<open>One token\<close>

text \<open>A token read from the state \<open>l\<close>, where \<open>l'\<close> is the state after it.\<close>

definition token_from :: "lexer \<Rightarrow> token \<Rightarrow> lexer \<Rightarrow> bool" where
  "token_from l tok l' \<longleftrightarrow> lex_to l l' \<and> tk_start tok = lx_pos l \<and> tk_line tok = lx_line l \<and> tk_col tok = lx_col l \<and>
     tk_start tok + tk_length tok = lx_pos l' \<and> 0 < tk_length tok"

lemma token_fromI:
  assumes "lex_to l l'" "lx_pos l < lx_pos l'" "n = lx_pos l' - lx_pos l"
  shows "token_from l (make_token l' t (lx_pos l) n (lx_line l) (lx_col l)) l'"
  using assms by (simp add: token_from_def make_token_def)

lemma lex_while_moves:
  assumes "lex_ok l" "lx_ch l \<noteq> NUL" "P (lx_ch l)"
  shows "lx_pos l < lx_pos (lex_while P l)"
proof -
  have "lex_while P l = lex_while P (lex_advance l)" using assms by (subst lex_while.simps) simp
  moreover have "lex_to (lex_advance l) (lex_while P (lex_advance l))"
    using lex_to_while [OF lex_toD(1) [OF lex_to_advance [OF assms(1)]]] by blast
  ultimately show ?thesis using lex_toD(3) assms(2) by (fastforce simp: lex_advance_pos)
qed

lemma moves_trans: "lx_pos l < lx_pos l1 \<Longrightarrow> lex_to l1 l2 \<Longrightarrow> lx_pos l < lx_pos l2"
  using lex_toD(3) by fastforce

lemma token_word:
  assumes "lex_ok l" "lx_ch l \<noteq> NUL" "is_alpha (lx_ch l)" "lex_word l = (tok, l')"
  shows "token_from l tok l'"
  using assms lex_to_while [OF assms(1), of word_char] lex_while_moves [OF assms(1,2), of word_char]
  by (auto simp: lex_word_def Let_def word_char_def [symmetric] intro!: token_fromI)
     (auto simp: word_char_def)

lemma token_number:
  assumes ok: "lex_ok l" and nn: "lx_ch l \<noteq> NUL" and d: "is_digit (lx_ch l)" and r: "lex_number l = (tok, l')"
  shows "token_from l tok l'"
proof -
  define l1 where "l1 = (if lx_ch l = CHR ''0'' \<and> (lex_peek l = CHR ''x'' \<or> lex_peek l = CHR ''X'')
                then lex_while is_hex_digit (lex_advance (lex_advance l))
                else (let l1 = lex_while is_digit l
                      in if lx_ch l1 = CHR ''.'' \<and> is_digit (lex_peek l1)
                         then lex_while is_digit (lex_advance l1) else l1))"
  have a: "lex_to l (lex_advance l)" by (rule lex_to_advance [OF ok])
  have m: "lx_pos l < lx_pos (lex_advance l)" using nn by (simp add: lex_advance_pos)
  have s1: "lex_to l l1 \<and> lx_pos l < lx_pos l1"
  proof (cases "lx_ch l = CHR ''0'' \<and> (lex_peek l = CHR ''x'' \<or> lex_peek l = CHR ''X'')")
    case True
    have b: "lex_to (lex_advance l) (lex_advance (lex_advance l))"
      by (rule lex_to_advance [OF lex_toD(1) [OF a]])
    have c: "lex_to (lex_advance (lex_advance l)) l1"
      using lex_to_while [OF lex_toD(1) [OF b]] True by (simp add: l1_def)
    show ?thesis using lex_to_trans [OF a lex_to_trans [OF b c]] moves_trans [OF m lex_to_trans [OF b c]] by blast
  next
    case False
    define k where "k = lex_while is_digit l"
    have k: "lex_to l k" "lx_pos l < lx_pos k"
      using lex_to_while [OF ok, of is_digit] lex_while_moves [OF ok nn, of is_digit] d by (simp_all add: k_def)
    have a2: "lex_to k (lex_advance k)" by (rule lex_to_advance [OF lex_toD(1) [OF k(1)]])
    have b2: "lex_to k (lex_while is_digit (lex_advance k))"
      using lex_to_trans [OF a2] lex_to_while [OF lex_toD(1) [OF a2]] by blast
    have "l1 = k \<or> l1 = lex_while is_digit (lex_advance k)"
      unfolding l1_def Let_def k_def [symmetric] using False by auto
    then show ?thesis
    proof
      assume "l1 = lex_while is_digit (lex_advance k)"
      then show ?thesis using lex_to_trans [OF k(1) b2] moves_trans [OF k(2) b2] by simp
    qed (use k in simp)
  qed
  define l2 where "l2 = (if lx_ch l1 = CHR ''f'' \<or> lx_ch l1 = CHR ''F'' then lex_advance l1 else l1)"
  have "lex_to l1 l2"
    using lex_to_advance [OF lex_toD(1)] lex_to_refl [OF lex_toD(1)] s1 by (auto simp: l2_def)
  then have "lex_to l l2" "lx_pos l < lx_pos l2" using s1 lex_to_trans moves_trans by blast+
  moreover have "tok = make_token l2 TOK_NUMBER (lx_pos l) (lx_pos l2 - lx_pos l) (lx_line l) (lx_col l)" "l' = l2"
    using r unfolding lex_number_def l1_def [symmetric] l2_def [symmetric] Let_def [of l1]
    by (auto simp: Let_def l1_def [symmetric] l2_def [symmetric])
  ultimately show ?thesis using token_fromI by simp
qed

lemma token_string:
  assumes "lex_ok l" "lx_ch l \<noteq> NUL" "lex_string l = (tok, l')"
  shows "token_from l tok l'"
proof -
  note a = lex_to_advance [OF assms(1)]
  have b: "lex_to (lex_advance l) l'"
    using lex_to_string [OF lex_toD(1) [OF a]] assms(3) by (auto simp: lex_string_def Let_def)
  have "lx_pos l < lx_pos (lex_advance l)" using assms(2) by (simp add: lex_advance_pos)
  then show ?thesis using lex_to_trans [OF a b] moves_trans [OF _ b] assms(3)
    by (auto simp: lex_string_def Let_def intro!: token_fromI)
qed

lemma token_char:
  assumes "lex_ok l" "lx_ch l \<noteq> NUL" "lex_char l = (tok, l')"
  shows "token_from l tok l'"
proof -
  note a = lex_to_advance [OF assms(1)]
  have b: "lex_to (lex_advance l) l'"
    using lex_to_char [OF lex_toD(1) [OF a], of 0 True] assms(3)
    by (auto simp: lex_char_def Let_def split: prod.splits)
  have "lx_pos l < lx_pos (lex_advance l)" using assms(2) by (simp add: lex_advance_pos)
  then show ?thesis using lex_to_trans [OF a b] moves_trans [OF _ b] assms(3)
    by (auto simp: lex_char_def Let_def split: prod.splits intro!: token_fromI)
qed

lemma two_char_op_peek: "two_char_op c n = Some t \<Longrightarrow> c \<noteq> NUL \<and> n \<noteq> NUL"
  by (simp add: two_char_op_def NUL_def split: if_splits)

lemma token_operator:
  assumes "lex_ok l" "lx_ch l \<noteq> NUL" "lex_operator l = (tok, l')"
  shows "token_from l tok l'"
proof (cases "two_char_op (lx_ch l) (lex_peek l)")
  case (Some t)
  note n = two_char_op_peek [OF Some]
  have "lex_to l (lex_advance (lex_advance l))"
    by (rule lex_to_then_advance [OF lex_to_advance [OF assms(1)]])
  moreover have "lx_pos (lex_advance (lex_advance l)) = lx_pos l + 2"
    using two_chars(1) [OF assms(1) refl refl] n by simp
  ultimately show ?thesis using Some assms(3)
    by (auto simp: lex_operator_def Let_def intro!: token_fromI)
next
  case None
  have "lx_pos (lex_advance l) = lx_pos l + 1" using assms(2) by (simp add: lex_advance_pos)
  then show ?thesis using None assms(3) lex_to_advance [OF assms(1)]
    by (auto simp: lex_operator_def Let_def intro!: token_fromI split: option.splits)
qed

lemma lex_next_token:
  assumes "lex_ok l" "lex_next l = (tok, l')"
  shows "if lx_ch (lex_skip_ws l) = NUL
    then l' = lex_skip_ws l \<and> tok = make_token l' TOK_EOF (lx_pos l') 0 (lx_line l') (lx_col l')
    else token_from (lex_skip_ws l) tok l'"
proof -
  have ok: "lex_ok (lex_skip_ws l)" using lex_skip_spec [OF assms(1)] lex_toD(1) by blast
  show ?thesis
    using assms(2) token_word [OF ok] token_number [OF ok] token_string [OF ok] token_char [OF ok]
      token_operator [OF ok]
    unfolding lex_next_def Let_def by (auto split: if_splits)
qed

lemma lex_next_tiles_facts:
  assumes "lex_ok l" "lex_next l = (tok, l')"
  shows "lex_ok l' \<and> lx_src l' = lx_src l \<and> lx_pos l \<le> tk_start tok \<and>
    trivia (span (lx_src l) (lx_pos l) (tk_start tok)) \<and>
    (tk_line tok, tk_col tok) =
      foldl adv_lc (lx_line l, lx_col l) (span (lx_src l) (lx_pos l) (tk_start tok)) \<and>
    tk_start tok + tk_length tok = lx_pos l' \<and> lx_pos l' \<le> length (lx_src l) \<and>
    (tk_length tok = 0) = (tk_start tok = length (lx_src l)) \<and> (tk_length tok = 0 \<longrightarrow> tk_type tok = TOK_EOF) \<and>
    (tk_start tok < length (lx_src l) \<longrightarrow> \<not> lex_space (lx_src l ! tk_start tok))"
proof -
  let ?k = "lex_skip_ws l"
  note sk = lex_skip_spec [OF assms(1)]
  have k: "lex_ok ?k" "lx_src ?k = lx_src l" "lx_pos l \<le> lx_pos ?k"
    "(lx_line ?k, lx_col ?k) = foldl adv_lc (lx_line l, lx_col l) (span (lx_src l) (lx_pos l) (lx_pos ?k))"
    using sk by (auto simp: lex_to_def)
  have pl: "lx_pos ?k \<le> length (lx_src l)" using k(1,2) by (simp add: lex_ok_def)
  show ?thesis
  proof (cases "lx_ch ?k = NUL")
    case True
    then have "l' = ?k" "tok = make_token ?k TOK_EOF (lx_pos ?k) 0 (lx_line ?k) (lx_col ?k)"
      using lex_next_token [OF assms] by simp_all
    then show ?thesis using k sk pl True lex_ok_NUL [OF k(1)] by (simp add: make_token_def)
  next
    case False
    then have t: "token_from ?k tok l'" using lex_next_token [OF assms] by simp
    have "lx_pos l' \<le> length (lx_src l)" "lex_ok l'" "lx_src l' = lx_src l"
      using t k(2) by (auto simp: token_from_def lex_to_def lex_ok_def)
    moreover have "lx_pos ?k \<noteq> length (lx_src l)" using False lex_ok_NUL [OF k(1)] k(2) by simp
    moreover have "\<not> lex_space (lx_src l ! lx_pos ?k)"
      using sk False lex_ok_ch [OF k(1) False] k(2) by (simp add: token_at_def)
    ultimately show ?thesis using t k sk by (simp add: token_from_def)
  qed
qed

text \<open>
  C23: one step of the lexer reads one token: what lies before it is blanks and comments, the token
  ends where the next step starts, its line and column are those of its first byte, and only the
  end of the source gives a token of no length.
\<close>

theorem lex_next_tiles:
  assumes "lex_ok l" "lex_next l = (tok, l')"
  shows "lex_ok l' \<and> lx_src l' = lx_src l \<and> lx_pos l \<le> tk_start tok \<and>
    trivia (span (lx_src l) (lx_pos l) (tk_start tok)) \<and>
    (tk_line tok, tk_col tok) =
      foldl adv_lc (lx_line l, lx_col l) (span (lx_src l) (lx_pos l) (tk_start tok)) \<and>
    tk_start tok + tk_length tok = lx_pos l' \<and> lx_pos l' \<le> length (lx_src l) \<and>
    (tk_length tok = 0) = (tk_start tok = length (lx_src l))"
  using lex_next_tiles_facts [OF assms] by blast

lemma lex_init_ok: "c_string s \<Longrightarrow> lex_ok (lex_init (Some s)) \<and> lx_src (lex_init (Some s)) = s"
  by (simp add: lex_init_def lex_ok_def Let_def at_def)

theorem lex_next_tiles_witness:
  "lex_next (lex_init (Some '' // hi'')) = (\<lparr>tk_type = TOK_EOF, tk_start = 6, tk_length = 0, tk_line = 1, tk_col = 7\<rparr>,
     \<lparr>lx_src = '' // hi'', lx_len = 6, lx_pos = 6, lx_line = 1, lx_col = 7, lx_ch = NUL\<rparr>) \<and> trivia '' // hi''"
proof -
  have e: "lex_next (lex_init (Some '' // hi'')) = (\<lparr>tk_type = TOK_EOF, tk_start = 6, tk_length = 0, tk_line = 1, tk_col = 7\<rparr>,
     \<lparr>lx_src = '' // hi'', lx_len = 6, lx_pos = 6, lx_line = 1, lx_col = 7, lx_ch = NUL\<rparr>)" by code_simp
  have "c_string '' // hi''" by (simp add: c_string_def NUL_def)
  then have ok: "lex_ok (lex_init (Some '' // hi''))" using lex_init_ok by blast
  have i: "lx_src (lex_init (Some '' // hi'')) = '' // hi''" "lx_pos (lex_init (Some '' // hi'')) = 0"
    by (simp_all add: lex_init_def Let_def)
  have "trivia (span '' // hi'' 0 6)"
    using lex_next_tiles [OF ok e] i by simp
  moreover have "span '' // hi'' 0 6 = '' // hi''" by (simp add: span_def)
  ultimately show ?thesis using e by simp
qed

subsection \<open>Words and keywords\<close>

lemma kw_search_map:
  "\<forall>(k, t)\<in>set tab. c_string k \<Longrightarrow> c_string s \<Longrightarrow> len \<le> length s \<Longrightarrow>
     kw_search tab s len = (case map_of tab (take len s) of None \<Rightarrow> TOK_ID | Some t \<Rightarrow> t)"
proof (induction tab)
  case (Cons e tab)
  obtain k t where e: "e = (k, t)" by fastforce
  then have "c_string k" using Cons.prems by simp
  then have "kn_strlen (Some k) = len \<and> kn_strncmp (Some s) (Some k) len = 0 \<longleftrightarrow> take len s = k"
    using Cons.prems(2,3) by (auto simp: kn_strncmp_eq_0)
  then show ?case using Cons e by simp
qed simp

lemma g_keywords_c: "\<forall>(k, t)\<in>set g_keywords. c_string k"
  by code_simp

lemma g_keywords_distinct: "distinct (map fst g_keywords)"
  by code_simp

lemma g_keywords_words: "\<forall>(k, t)\<in>set g_keywords. k \<noteq> [] \<and> is_alpha (hd k) \<and> list_all word_char k"
  by code_simp

lemma c_string_drop: "c_string s \<Longrightarrow> c_string (drop n s)"
  unfolding c_string_def by (meson in_set_dropD)

text \<open>
  A token that starts with a letter, an underscore or a byte of a multi-byte character is the
  longest run of word characters, and is the keyword the table gives for exactly that text or else an
  identifier.
\<close>

theorem lex_word_longest:
  assumes "lex_ok l" "token_at l" "is_alpha (lx_ch l)" "lx_ch l \<noteq> NUL"
  shows "case lex_next l of (tok, l') \<Rightarrow>
    let w = span (lx_src l) (tk_start tok) (tk_start tok + tk_length tok)
    in w \<noteq> [] \<and> list_all word_char w \<and> tk_start tok = lx_pos l \<and>
       \<not> word_char (at (lx_src l) (tk_start tok + tk_length tok)) \<and>
       tk_type tok = (case map_of g_keywords w of None \<Rightarrow> TOK_ID | Some t \<Rightarrow> t)"
proof -
  have ns: "lex_while lex_space l = l"
    using assms(2,4) by (subst lex_while.simps) (auto simp: token_at_def)
  have sk: "lex_skip_ws l = l"
    using assms(2,4) by (subst lex_skip_ws.simps) (auto simp: ns Let_def token_at_def)
  obtain tok l' where n: "lex_next l = (tok, l')" by fastforce
  then have w: "lex_word l = (tok, l')" using assms(3,4) sk by (simp add: lex_next_def)
  then have l': "l' = lex_while word_char l" by (simp add: lex_word_def Let_def)
  note lw = lex_to_while [OF assms(1), of word_char, folded l']
  have mv: "lx_pos l < lx_pos l'"
    using lex_while_moves [OF assms(1,4), of word_char] assms(3) by (simp add: l' word_char_def)
  have ok': "lex_ok l'" "lx_src l' = lx_src l" using lw lex_toD by blast+
  have len: "lx_pos l' \<le> length (lx_src l)" using ok' by (simp add: lex_ok_def)
  have tok: "tk_start tok = lx_pos l" "tk_start tok + tk_length tok = lx_pos l'"
    "tk_type tok = kw_lookup (drop (lx_pos l) (lx_src l)) (lx_pos l' - lx_pos l)"
    using w mv by (auto simp: lex_word_def Let_def make_token_def l')
  have cs: "c_string (drop (lx_pos l) (lx_src l))" using assms(1) by (simp add: lex_ok_def c_string_drop)
  have "lx_pos l' - lx_pos l \<le> length (drop (lx_pos l) (lx_src l))" using len by simp
  from kw_search_map [OF g_keywords_c cs this]
  have ty: "tk_type tok = (case map_of g_keywords (span (lx_src l) (lx_pos l) (lx_pos l')) of None \<Rightarrow> TOK_ID | Some t \<Rightarrow> t)"
    by (simp add: tok(3) kw_lookup_def span_def)
  have "\<not> word_char (lx_ch l')"
    using lw by (auto simp: word_char_def is_alpha_def is_digit_def NUL_def Let_def byte_of_def)
  then have "\<not> word_char (at (lx_src l) (lx_pos l'))" using ok' by (simp add: lex_ok_def)
  moreover have "length (span (lx_src l) (lx_pos l) (lx_pos l')) = lx_pos l' - lx_pos l"
    by (rule length_span [OF len])
  then have "span (lx_src l) (lx_pos l) (lx_pos l') \<noteq> []" using mv by auto
  ultimately show ?thesis using lw tok ty by (simp add: n list_all_iff)
qed

theorem lex_word_longest_witness:
  "tk_type (fst (lex_next (lex_init (Some ''Foreach (x'')))) = SK TOK_FOREACH \<and>
   tk_length (fst (lex_next (lex_init (Some ''Foreach (x'')))) = 7 \<and>
   \<not> word_char (at ''Foreach (x'' 7)"
proof -
  let ?l = "lex_init (Some ''Foreach (x'')"
  have c: "c_string ''Foreach (x''" by (simp add: c_string_def NUL_def)
  have e: "lex_next ?l = (\<lparr>tk_type = SK TOK_FOREACH, tk_start = 0, tk_length = 7, tk_line = 1, tk_col = 1\<rparr>,
     \<lparr>lx_src = ''Foreach (x'', lx_len = 10, lx_pos = 7, lx_line = 1, lx_col = 8, lx_ch = CHR '' ''\<rparr>)" by code_simp
  have h: "token_at ?l" "is_alpha (lx_ch ?l)" "lx_ch ?l \<noteq> NUL" by code_simp+
  show ?thesis using lex_word_longest [OF lex_init_ok [OF c, THEN conjunct1] h] lex_init_ok [OF c]
    by (simp add: e Let_def)
qed

text \<open>
  Every keyword of the table, followed by a byte that cannot continue a word, lexes as its own
  token; no two entries have the same text.
\<close>

theorem keywords_lex:
  assumes "(k, t) \<in> set g_keywords" "c_string r" "r = [] \<or> \<not> word_char (hd r)"
  shows "tk_type (fst (lex_next (lex_init (Some (k @ r))))) = t \<and>
    tk_length (fst (lex_next (lex_init (Some (k @ r))))) = length k \<and> map_of g_keywords k = Some t"
proof -
  let ?s = "k @ r"
  have k: "k \<noteq> []" "is_alpha (hd k)" "list_all word_char k" "c_string k"
    using g_keywords_words g_keywords_c assms(1) by fastforce+
  have cs: "c_string ?s" using k(4) assms(2) by (simp add: c_string_def)
  have nb: "hd k \<noteq> CHR 0xEF" "hd k \<noteq> NUL" "\<not> lex_space (hd k)" "hd k \<noteq> CHR ''/''"
  proof -
    have "\<forall>(k, t)\<in>set g_keywords. hd k \<noteq> CHR 0xEF \<and> hd k \<noteq> NUL \<and> \<not> lex_space (hd k) \<and> hd k \<noteq> CHR ''/''"
      by code_simp
    then show "hd k \<noteq> CHR 0xEF" "hd k \<noteq> NUL" "\<not> lex_space (hd k)" "hd k \<noteq> CHR ''/''" using assms(1) by fastforce+
  qed
  let ?l = "lex_init (Some ?s)"
  have l: "lx_pos ?l = 0" "lx_src ?l = ?s" "lx_ch ?l = hd k"
    using k(1) nb(1) by (auto simp: lex_init_def Let_def hd_conv_nth nth_append)
  have ok: "lex_ok ?l" using lex_init_ok [OF cs] by simp
  have at: "token_at ?l" using nb l by (simp add: token_at_def)
  obtain tok l' where n: "lex_next ?l = (tok, l')" by fastforce
  have h2: "is_alpha (lx_ch ?l)" "lx_ch ?l \<noteq> NUL" using l k nb by simp_all
  define w where "w = span ?s 0 (tk_length tok)"
  have p: "w \<noteq> [] \<and> list_all word_char w \<and> tk_start tok = 0 \<and>
       \<not> word_char (at ?s (tk_length tok)) \<and>
       tk_type tok = (case map_of g_keywords w of None \<Rightarrow> TOK_ID | Some t \<Rightarrow> t)"
    using lex_word_longest [OF ok at h2] l n by (auto simp: Let_def w_def)
  have "tk_length tok \<le> length ?s" using lex_next_tiles [OF ok n] l by simp
  then have lenw: "length w = tk_length tok" by (simp add: w_def length_span)
  have wt: "w = take (tk_length tok) ?s" by (simp add: w_def span_def)
  have "tk_length tok = length k"
  proof (rule antisym)
    show "tk_length tok \<le> length k"
    proof (rule ccontr)
      assume "\<not> tk_length tok \<le> length k"
      then have gt: "length k < length w" by (simp add: lenw)
      then have rn: "r \<noteq> []"
        using lenw \<open>tk_length tok \<le> length ?s\<close> by auto
      then have "w ! length k = hd r"
        using wt gt lenw by (simp add: nth_append hd_conv_nth)
      have "word_char (w ! length k)" using p gt by (simp add: list_all_length)
      then show False using rn assms(3) \<open>w ! length k = hd r\<close> by simp
    qed
    show "length k \<le> tk_length tok"
    proof (rule ccontr)
      assume "\<not> length k \<le> tk_length tok"
      then have "at ?s (tk_length tok) = k ! tk_length tok" by (simp add: at_def nth_append)
      moreover have "word_char (k ! tk_length tok)"
        using k(3) \<open>\<not> length k \<le> tk_length tok\<close> by (simp add: list_all_length)
      ultimately show False using p by simp
    qed
  qed
  moreover from this have "w = k" using wt by simp
  moreover have "map_of g_keywords k = Some t" using g_keywords_distinct assms(1) by simp
  ultimately show ?thesis using p n by simp
qed

theorem keywords_lex_witness:
  "tk_type (fst (lex_next (lex_init (Some ''isize;'')))) = TY TOK_TYPE_ISIZE"
proof -
  have "(''isize'', TY TOK_TYPE_ISIZE) \<in> set g_keywords" by code_simp
  moreover have "c_string '';''" "\<not> word_char (hd '';'')" by code_simp+
  ultimately show ?thesis using keywords_lex [of "''isize''" "TY TOK_TYPE_ISIZE" "'';''"] by simp
qed

subsection \<open>String and character literals\<close>

lemma lex_advance_at:
  assumes "lex_ok l" "lx_ch l \<noteq> NUL"
  shows "lx_ch (lex_advance l) = at (lx_src l) (lx_pos l + 1)"
proof -
  note a = lex_to_advance [OF assms(1)]
  show ?thesis using lex_toD(1) [OF a] lex_toD(2) [OF a] assms(2) by (simp add: lex_ok_def lex_advance_pos)
qed

lemma closing_step:
  assumes "lex_ok l" "closing_loop (lx_src l) (lx_len l) (lx_pos l) e"
  shows "lx_ch l \<noteq> NUL \<and> \<not> line_end (lx_ch l) \<and>
    (\<not> e \<and> lx_ch l = CHR 0x22 \<or>
     closing_loop (lx_src l) (lx_len l) (lx_pos l + 1) (\<not> e \<and> lx_ch l = CHR 0x5C))"
proof -
  have i: "lx_pos l < lx_len l" using assms(2) by (subst (asm) closing_loop.simps) (simp split: if_splits)
  then have "lx_ch l = lx_src l ! lx_pos l" "lx_ch l \<noteq> NUL"
    using assms(1) at_NUL_iff [of "lx_src l" "lx_pos l"] by (auto simp: lex_ok_def at_def)
  then show ?thesis using assms(2) i
    by (subst (asm) closing_loop.simps) (auto simp: line_end_def Let_def split: if_splits)
qed

text \<open>When a closing quote was found on the line, the body stops right behind one.\<close>

lemma lex_string_closed:
  "lex_ok l \<Longrightarrow> terminated \<Longrightarrow> closing_loop (lx_src l) (lx_len l) (lx_pos l) False \<Longrightarrow>
    \<exists>s. span (lx_src l) (lx_pos l) (lx_pos (lex_string_body terminated l)) = s @ [CHR 0x22] \<and>
      (\<forall>c\<in>set s. \<not> line_end c)"
proof (induction terminated l rule: lex_string_body.induct)
  case (1 terminated l)
  note cl = closing_step [OF "1.prems"(1,3)]
  have nn: "lx_ch l \<noteq> NUL" "\<not> line_end (lx_ch l)" using cl by auto
  note ch = lex_ok_ch [OF "1.prems"(1) nn(1)]
  note a = lex_to_advance [OF "1.prems"(1)]
  have a1: "lx_pos (lex_advance l) = lx_pos l + 1" "lx_src (lex_advance l) = lx_src l"
      "lx_len (lex_advance l) = lx_len l" "lex_ok (lex_advance l)"
    using nn lex_toD(1,2) [OF a] "1.prems"(1) by (auto simp: lex_advance_pos lex_ok_def)
  have q: "CHR 0x22 \<noteq> (CHR 0x5C :: char)" by simp
  show ?case
  proof (cases "lx_ch l = CHR 0x22")
    case True
    then have "lex_string_body terminated l = lex_advance l"
      using nn "1.prems"(2) by (subst lex_string_body.simps) simp
    then have "span (lx_src l) (lx_pos l) (lx_pos (lex_string_body terminated l)) = [] @ [CHR 0x22]"
      using ch True a1 by (simp add: span_one)
    then show ?thesis by (intro exI [of _ "[]"]) simp
  next
    case nq: False
    show ?thesis
    proof (cases "lx_ch l = CHR 0x5C")
      case bs: True
      let ?l1 = "lex_advance l" and ?l2 = "lex_advance (lex_advance l)"
      have "closing_loop (lx_src ?l1) (lx_len ?l1) (lx_pos ?l1) True" using cl bs a1 nq by simp
      from closing_step [OF a1(4) this] a1
      have c1: "lx_ch ?l1 \<noteq> NUL" "\<not> line_end (lx_ch ?l1)"
        "closing_loop (lx_src l) (lx_len l) (lx_pos ?l1 + 1) False" by auto
      note b = lex_to_advance [OF a1(4)]
      have a2: "lx_pos ?l2 = lx_pos l + 2" "lx_src ?l2 = lx_src l" "lx_len ?l2 = lx_len l" "lex_ok ?l2"
        using c1(1) lex_toD(1,2) [OF b] a1 by (auto simp: lex_advance_pos lex_ok_def)
      have sb: "lex_string_body terminated l = lex_string_body terminated ?l2"
        using nn nq bs c1 "1.prems"(2) by (subst lex_string_body.simps) (simp add: Let_def)
      have "closing_loop (lx_src ?l2) (lx_len ?l2) (lx_pos ?l2) False"
        unfolding a2 using c1(3) a1(1) by simp
      with "1.IH"(1) [OF nn(1) _ _ bs refl _ a2(4) "1.prems"(2)] nq "1.prems"(2) c1(1,2)
      obtain s where s: "span (lx_src l) (lx_pos l + 2) (lx_pos (lex_string_body terminated l)) = s @ [CHR 0x22]"
          "\<forall>c\<in>set s. \<not> line_end c"
        unfolding sb a2 by auto
      have ch1: "lx_pos l + 1 < length (lx_src l)" "lx_ch ?l1 = lx_src l ! (lx_pos l + 1)"
        using lex_ok_ch [OF a1(4) c1(1)] a1 by auto
      have "lx_pos l + 2 \<le> lx_pos (lex_string_body terminated l)"
        using lex_toD(3) [OF lex_to_string [OF a2(4), of terminated]] a2(1) sb by simp
      then have "span (lx_src l) (lx_pos l) (lx_pos (lex_string_body terminated l)) =
          lx_ch l # lx_ch ?l1 # span (lx_src l) (lx_pos l + 2) (lx_pos (lex_string_body terminated l))"
        using ch ch1 by (simp add: span_Cons)
      then have "span (lx_src l) (lx_pos l) (lx_pos (lex_string_body terminated l)) =
          (lx_ch l # lx_ch ?l1 # s) @ [CHR 0x22]" using s(1) by simp
      then show ?thesis using s(2) nn(2) c1(2) by (intro exI [of _ "lx_ch l # lx_ch ?l1 # s"]) simp
    next
      case nb: False
      have sb: "lex_string_body terminated l = lex_string_body terminated (lex_advance l)"
        using nn nq nb "1.prems"(2) by (subst lex_string_body.simps) simp
      have "closing_loop (lx_src (lex_advance l)) (lx_len (lex_advance l)) (lx_pos (lex_advance l)) False"
        using cl nq nb a1 by simp
      with "1.IH"(3) [OF nn(1) _ _ nb nn(2) a1(4) "1.prems"(2)] nq "1.prems"(2)
      obtain s where s: "span (lx_src l) (lx_pos l + 1) (lx_pos (lex_string_body terminated l)) = s @ [CHR 0x22]"
          "\<forall>c\<in>set s. \<not> line_end c"
        unfolding sb a1 by auto
      have "lx_pos l + 1 \<le> lx_pos (lex_string_body terminated l)"
        using lex_toD(3) [OF lex_to_string [OF a1(4), of terminated]] a1(1) sb by simp
      then have "span (lx_src l) (lx_pos l) (lx_pos (lex_string_body terminated l)) = (lx_ch l # s) @ [CHR 0x22]"
        using s(1) ch by (simp add: span_Cons)
      then show ?thesis using s(2) nn(2) by (intro exI [of _ "lx_ch l # s"]) simp
    qed
  qed
qed

text \<open>
  A string literal is reported as complete exactly when its closing quote is on the same line,
  and then its text is a quote, a body without line ends, and a quote.
\<close>

theorem lex_string_complete:
  assumes "lex_ok l" "lx_ch l = CHR 0x22" "lex_string l = (tok, l')"
  shows "(tk_type tok = TOK_STRING) = has_closing_quote_before_eol l \<and>
    (tk_type tok = TOK_STRING \<longrightarrow>
      (\<exists>s. span (lx_src l) (lx_pos l) (lx_pos l') = CHR 0x22 # s @ [CHR 0x22] \<and> (\<forall>c\<in>set s. \<not> line_end c)))"
proof -
  have nn: "lx_ch l \<noteq> NUL" using assms(2) by (simp add: NUL_def)
  note a = lex_to_advance [OF assms(1)] and ch = lex_ok_ch [OF assms(1) nn]
  have a1: "lx_pos (lex_advance l) = lx_pos l + 1" "lx_src (lex_advance l) = lx_src l"
      "lx_len (lex_advance l) = lx_len l" "lex_ok (lex_advance l)"
    using nn lex_toD(1,2) [OF a] assms(1) by (auto simp: lex_advance_pos lex_ok_def)
  have ty: "(tk_type tok = TOK_STRING) = has_closing_quote_before_eol l"
    and l': "l' = lex_string_body (has_closing_quote_before_eol l) (lex_advance l)"
    using assms(3) by (auto simp: lex_string_def Let_def make_token_def split: if_splits)
  have "\<exists>s. span (lx_src l) (lx_pos l) (lx_pos l') = CHR 0x22 # s @ [CHR 0x22] \<and> (\<forall>c\<in>set s. \<not> line_end c)"
    if t: "has_closing_quote_before_eol l"
  proof -
    have "closing_loop (lx_src (lex_advance l)) (lx_len (lex_advance l)) (lx_pos (lex_advance l)) False"
      using t assms(2) a1 by (simp add: has_closing_quote_before_eol_def)
    from lex_string_closed [OF a1(4) t this] a1 l'
    obtain s where s: "span (lx_src l) (lx_pos l + 1) (lx_pos l') = s @ [CHR 0x22]" "\<forall>c\<in>set s. \<not> line_end c"
      by auto
    have "lx_pos l + 1 \<le> lx_pos l'" using lex_toD(3) [OF lex_to_string [OF a1(4)]] a1(1) l' by simp
    then show ?thesis using s ch assms(2) by (intro exI [of _ s]) (simp add: span_Cons)
  qed
  with ty show ?thesis by blast
qed

theorem lex_string_complete_witness:
  "tk_type (fst (lex_string (lex_init (Some [CHR 0x22, CHR ''a'', CHR 0x22])))) = TOK_STRING \<and>
   tk_type (fst (lex_string (lex_init (Some [CHR 0x22, CHR ''a''])))) = TOK_BAD_STRING \<and>
   has_closing_quote_before_eol (lex_init (Some [CHR 0x22, CHR ''a'', CHR 0x22]))"
proof -
  let ?s = "[CHR 0x22, CHR ''a'', CHR 0x22]"
  have ok: "lex_ok (lex_init (Some ?s))" using lex_init_ok [of ?s] by (simp add: c_string_def NUL_def)
  have c: "lx_ch (lex_init (Some ?s)) = CHR 0x22" by code_simp
  have e: "tk_type (fst (lex_string (lex_init (Some ?s)))) = TOK_STRING"
    "tk_type (fst (lex_string (lex_init (Some [CHR 0x22, CHR ''a''])))) = TOK_BAD_STRING" by code_simp+
  show ?thesis using lex_string_complete [OF ok c prod.collapse [symmetric]] e by simp
qed

lemma lex_char_count: "n \<le> fst (snd (lex_char_body l n v))"
proof (induction l n v rule: lex_char_body.induct)
  case (1 l n v)
  show ?case
    by (subst lex_char_body.simps)
       (use "1.IH" in \<open>auto simp: Let_def intro: order_trans [of n "Suc n"]\<close>)
qed

lemma lex_char_stop:
  assumes "lex_char_body l (Suc 0) v = (l', Suc 0, v')"
  shows "v' = v \<and> ((lx_ch l = NUL \<or> line_end (lx_ch l)) \<and> l' = l \<or> lx_ch l = CHR 0x27 \<and> l' = lex_advance l)"
proof -
  have more: "lex_char_body k (Suc (Suc 0)) w \<noteq> (l', Suc 0, v')" for k w
    using lex_char_count [of "Suc (Suc 0)" k w] by auto
  show ?thesis using assms more
    by (subst (asm) lex_char_body.simps) (auto simp: Let_def split: if_splits)
qed

text \<open>
  A token reported as a character literal is a quote, one byte or one known escape, and a quote,
  or else the three bytes quote, backslash, quote at the end of the line or of the source, where the
  literal is in fact not closed.
\<close>

theorem lex_char_literal_shapes:
  assumes "lex_ok l" "lx_ch l = CHR 0x27" "lex_char l = (tok, l')" "tk_type tok = TOK_CHAR_LIT"
  shows "(\<exists>c. c \<noteq> CHR 0x27 \<and> c \<noteq> CHR 0x5C \<and> \<not> line_end c \<and>
        span (lx_src l) (lx_pos l) (lx_pos l') = [CHR 0x27, c, CHR 0x27]) \<or>
    (\<exists>e. is_char_escape e \<and> span (lx_src l) (lx_pos l) (lx_pos l') = [CHR 0x27, CHR 0x5C, e, CHR 0x27]) \<or>
    span (lx_src l) (lx_pos l) (lx_pos l') = [CHR 0x27, CHR 0x5C, CHR 0x27] \<and>
      (lx_ch l' = NUL \<or> line_end (lx_ch l'))"
proof -
  let ?q = "CHR 0x27 :: char" and ?b = "CHR 0x5C :: char"
  have qn: "?q \<noteq> NUL" "?b \<noteq> NUL" "\<not> line_end ?q" "\<not> line_end ?b" by (simp_all add: NUL_def line_end_def)
  have nn: "lx_ch l \<noteq> NUL" using assms(2) qn by simp
  define l1 where "l1 = lex_advance l"
  define l2 where "l2 = lex_advance l1"
  define l3 where "l3 = lex_advance l2"
  define l4 where "l4 = lex_advance l3"
  have to: "lex_to l l1" "lex_to l1 l2" "lex_to l2 l3" "lex_to l3 l4"
    unfolding l1_def l2_def l3_def l4_def using lex_to_advance assms(1) lex_toD(1) by blast+
  have ok: "lex_ok l1" "lex_ok l2" "lex_ok l3" "lex_ok l4" using to lex_toD(1) by blast+
  have src: "lx_src l1 = lx_src l" "lx_src l2 = lx_src l" "lx_src l3 = lx_src l" "lx_src l4 = lx_src l"
    using lex_toD(2) [OF to(1)] lex_toD(2) [OF to(2)] lex_toD(2) [OF to(3)] lex_toD(2) [OF to(4)] by simp_all
  have p1: "lx_pos l1 = lx_pos l + 1" using nn by (simp add: l1_def lex_advance_pos)
  note ch0 = lex_ok_ch [OF assms(1) nn]
  obtain n v where body: "lex_char_body l1 0 True = (l', n, v)"
    and n1: "n = 1" and vt: "v" and last: "lx_src l' ! (lx_pos l' - 1) = ?q" "lx_pos l + 1 < lx_pos l'"
    using assms(3,4) unfolding l1_def
    by (auto simp: lex_char_def make_token_def Let_def split: prod.splits if_splits)
  have nq: "lx_ch l1 \<noteq> NUL" "\<not> line_end (lx_ch l1)" "lx_ch l1 \<noteq> ?q"
    using body n1 by (subst (asm) lex_char_body.simps, auto split: if_splits)+
  note ch1 = lex_ok_ch [OF ok(1) nq(1), unfolded src p1]
  have p2: "lx_pos l2 = lx_pos l + 2" using nq p1 by (simp add: l2_def lex_advance_pos)
  show ?thesis
  proof (cases "lx_ch l1 = ?b")
    case False
    have "lex_char_body l2 (Suc 0) True = (l', Suc 0, v)"
      using body nq False n1 by (subst (asm) lex_char_body.simps) (simp add: l2_def)
    from lex_char_stop [OF this] have "(lx_ch l2 = NUL \<or> line_end (lx_ch l2)) \<and> l' = l2 \<or> lx_ch l2 = ?q \<and> l' = l3"
      by (simp add: l3_def)
    then show ?thesis
    proof
      assume "(lx_ch l2 = NUL \<or> line_end (lx_ch l2)) \<and> l' = l2"
      then have "lx_ch l1 = ?q" using last p2 src ch1 by simp
      then show ?thesis using nq by simp
    next
      assume a: "lx_ch l2 = ?q \<and> l' = l3"
      then have c2: "lx_pos l2 < length (lx_src l) \<and> lx_src l ! lx_pos l2 = ?q"
        using lex_ok_ch [OF ok(2)] qn src by metis
      have "lx_pos l3 = lx_pos l + 3" using a qn p2 by (simp add: l3_def lex_advance_pos)
      then have "span (lx_src l) (lx_pos l) (lx_pos l') = [?q, lx_ch l1, ?q]"
        using a c2 ch0 ch1 p2 assms(2) by (simp add: span_Cons numeral_3_eq_3 numeral_2_eq_2)
      then show ?thesis using nq False by blast
    qed
  next
    case bs: True
    have n2: "lx_ch l2 \<noteq> NUL" "\<not> line_end (lx_ch l2)"
    proof -
      have "\<not> (lx_ch l2 = NUL \<or> line_end (lx_ch l2))"
      proof
        assume e: "lx_ch l2 = NUL \<or> line_end (lx_ch l2)"
        have "l' = l2"
          using body bs e qn by (subst (asm) lex_char_body.simps) (simp add: l2_def Let_def)
        then show False using last p2 src ch1 bs by simp
      qed
      then show "lx_ch l2 \<noteq> NUL" "\<not> line_end (lx_ch l2)" by auto
    qed
    note ch2 = lex_ok_ch [OF ok(2) n2(1), unfolded src p2]
    have p3: "lx_pos l3 = lx_pos l + 3" using n2 p2 by (simp add: l3_def lex_advance_pos)
    have "lex_char_body l3 (Suc 0) (is_char_escape (lx_ch l2)) = (l', Suc 0, v)"
      using body bs qn n2 n1 by (subst (asm) lex_char_body.simps) (simp add: l2_def l3_def Let_def)
    from lex_char_stop [OF this] vt
    have esc: "is_char_escape (lx_ch l2)"
      and st: "(lx_ch l3 = NUL \<or> line_end (lx_ch l3)) \<and> l' = l3 \<or> lx_ch l3 = ?q \<and> l' = l4"
      by (auto simp: l4_def)
    have three: "span (lx_src l) (lx_pos l) (lx_pos l3) = [?q, ?b, lx_ch l2]"
      using ch0 ch1 ch2 p3 assms(2) bs by (simp add: span_Cons numeral_3_eq_3 numeral_2_eq_2)
    from st show ?thesis
    proof
      assume a: "(lx_ch l3 = NUL \<or> line_end (lx_ch l3)) \<and> l' = l3"
      then have "lx_ch l2 = ?q" using last p3 src ch2 by simp
      then show ?thesis using a three by simp
    next
      assume a: "lx_ch l3 = ?q \<and> l' = l4"
      then have c3: "lx_pos l3 < length (lx_src l) \<and> lx_src l ! lx_pos l3 = ?q"
        using lex_ok_ch [OF ok(3)] qn src by metis
      have p4: "lx_pos l4 = Suc (lx_pos l3)" using a qn by (simp add: l4_def lex_advance_pos)
      have "span (lx_src l) (lx_pos l) (lx_pos l4) =
          span (lx_src l) (lx_pos l) (lx_pos l3) @ span (lx_src l) (lx_pos l3) (lx_pos l4)"
        using p3 p4 by (intro span_append) simp_all
      then have "span (lx_src l) (lx_pos l) (lx_pos l') = [?q, ?b, lx_ch l2, ?q]"
        using a three c3 p4 by (simp add: span_one)
      then show ?thesis using esc by blast
    qed
  qed
qed

theorem lex_char_literal_shapes_witness:
  "lex_char (lex_init (Some [CHR 0x27, CHR 0x5C, CHR 0x27])) =
     (\<lparr>tk_type = TOK_CHAR_LIT, tk_start = 0, tk_length = 3, tk_line = 1, tk_col = 1\<rparr>,
      \<lparr>lx_src = [CHR 0x27, CHR 0x5C, CHR 0x27], lx_len = 3, lx_pos = 3, lx_line = 1, lx_col = 4, lx_ch = NUL\<rparr>) \<and>
   \<not> (\<exists>e. is_char_escape e \<and> [CHR 0x27, CHR 0x5C, CHR 0x27] = [CHR 0x27, CHR 0x5C, e, CHR 0x27])"
proof -
  let ?s = "[CHR 0x27, CHR 0x5C, CHR 0x27] :: char list"
  have ok: "lex_ok (lex_init (Some ?s))" using lex_init_ok [of ?s] by (simp add: c_string_def NUL_def)
  have c: "lx_ch (lex_init (Some ?s)) = CHR 0x27" by code_simp
  have e: "lex_char (lex_init (Some ?s)) =
     (\<lparr>tk_type = TOK_CHAR_LIT, tk_start = 0, tk_length = 3, tk_line = 1, tk_col = 1\<rparr>,
      \<lparr>lx_src = ?s, lx_len = 3, lx_pos = 3, lx_line = 1, lx_col = 4, lx_ch = NUL\<rparr>)" by code_simp
  show ?thesis using lex_char_literal_shapes [OF ok c e] e by simp
qed

subsection \<open>The stream of tokens\<close>

text \<open>
  The parser and the formatter read a source token by token until a token of type \<open>TOK_EOF\<close>.
  \<open>tiles s p ts\<close> says that the tokens, in order and with blanks and comments before each, cover
  the bytes of \<open>s\<close> from \<open>p\<close> on, as far as the last one.
\<close>

fun tiles :: "char list \<Rightarrow> nat \<Rightarrow> token list \<Rightarrow> bool" where
  "tiles s p [] = True"
| "tiles s p (t # ts) \<longleftrightarrow>
     p \<le> tk_start t \<and> trivia (span s p (tk_start t)) \<and> tk_start t + tk_length t \<le> length s \<and>
     (tk_start t < length s \<longrightarrow> \<not> lex_space (s ! tk_start t)) \<and>
     tiles s (tk_start t + tk_length t) ts"

text \<open>What a reader of tokens relies on.\<close>

locale token_stream =
  fixes next_token :: "'l \<Rightarrow> token \<times> 'l" and good :: "'l \<Rightarrow> bool" and source_text :: "'l \<Rightarrow> char list"
    and position :: "'l \<Rightarrow> nat"
  assumes stream_law: "good l \<Longrightarrow> next_token l = (t, l') \<Longrightarrow>
      good l' \<and> source_text l' = source_text l \<and> tiles (source_text l) (position l) [t] \<and>
      position l' = tk_start t + tk_length t"
    and progress_law: "good l \<Longrightarrow> next_token l = (t, l') \<Longrightarrow> tk_type t \<noteq> TOK_EOF \<Longrightarrow> 0 < tk_length t"
begin

fun collect :: "nat \<Rightarrow> 'l \<Rightarrow> token list" where
  "collect 0 l = []"
| "collect (Suc n) l = (case next_token l of (t, l') \<Rightarrow>
     if tk_type t = TOK_EOF then [t] else t # collect n l')"

text \<open>As many steps as bytes are left, and one more, reach the end, with exactly one end token, last.\<close>

lemma collect_spec:
  "good l \<Longrightarrow> length (source_text l) - position l < n \<Longrightarrow>
     collect n l \<noteq> [] \<and> tk_type (last (collect n l)) = TOK_EOF \<and>
     (\<forall>t\<in>set (butlast (collect n l)). tk_type t \<noteq> TOK_EOF \<and> 0 < tk_length t) \<and>
     tiles (source_text l) (position l) (collect n l)"
proof (induction n arbitrary: l)
  case (Suc n)
  obtain t l' where t: "next_token l = (t, l')" by fastforce
  note st = stream_law [OF Suc.prems(1) t]
  show ?case
  proof (cases "tk_type t = TOK_EOF")
    case True
    then show ?thesis using st t by simp
  next
    case False
    have "0 < tk_length t" by (rule progress_law [OF Suc.prems(1) t False])
    moreover have "position l \<le> tk_start t" "tk_start t + tk_length t \<le> length (source_text l)" using st by simp_all
    ultimately have "length (source_text l') - position l' < n" using st Suc.prems(2) by simp
    from Suc.IH [OF _ this] st
    have ih: "collect n l' \<noteq> []" "tk_type (last (collect n l')) = TOK_EOF"
      "\<forall>t\<in>set (butlast (collect n l')). tk_type t \<noteq> TOK_EOF \<and> 0 < tk_length t"
      "tiles (source_text l) (tk_start t + tk_length t) (collect n l')" by simp_all
    then show ?thesis using False t st \<open>0 < tk_length t\<close> by simp
  qed
qed simp

lemma collect_more:
  "good l \<Longrightarrow> length (source_text l) - position l < n \<Longrightarrow> n \<le> k \<Longrightarrow> collect k l = collect n l"
proof (induction n arbitrary: l k)
  case (Suc n)
  obtain t l' where t: "next_token l = (t, l')" by fastforce
  obtain k' where k: "k = Suc k'" using Suc.prems(3) by (cases k) auto
  note st = stream_law [OF Suc.prems(1) t]
  show ?case
  proof (cases "tk_type t = TOK_EOF")
    case False
    have "0 < tk_length t" by (rule progress_law [OF Suc.prems(1) t False])
    moreover have "position l \<le> tk_start t" "tk_start t + tk_length t \<le> length (source_text l)" using st by simp_all
    ultimately have "length (source_text l') - position l' < n" using st Suc.prems(2) by simp
    moreover have "good l'" "n \<le> k'" using st k Suc.prems(3) by simp_all
    ultimately have "collect k' l' = collect n l'" using Suc.IH by blast
    then show ?thesis unfolding k by (simp add: t False)
  qed (simp add: t k)
qed simp

end

lemma lex_stream_law:
  assumes "lex_ok l" "lex_next l = (t, l')"
  shows "lex_ok l' \<and> lx_src l' = lx_src l \<and> tiles (lx_src l) (lx_pos l) [t] \<and> lx_pos l' = tk_start t + tk_length t"
proof -
  note f = lex_next_tiles_facts [OF assms]
  have p: "tk_start t + tk_length t = lx_pos l'" using f by blast
  have "tk_start t + tk_length t \<le> length (lx_src l)" unfolding p using f by blast
  then show ?thesis unfolding tiles.simps p using f by blast
qed

lemma lex_progress_law:
  assumes "lex_ok l" "lex_next l = (t, l')" "tk_type t \<noteq> TOK_EOF"
  shows "0 < tk_length t"
  using lex_next_tiles_facts [OF assms(1,2)] assms(3) by blast

interpretation lexs: token_stream lex_next lex_ok lx_src lx_pos
  by unfold_locales (rule lex_stream_law, assumption+, rule lex_progress_law)

text \<open>The loop of the readers; each token but the last uses up bytes, so it ends.\<close>

lemma lex_left_while_lt: "lx_ch l \<noteq> NUL \<Longrightarrow> P (lx_ch l) \<Longrightarrow> lex_left (lex_while P l) < lex_left l"
  using le_less_trans [OF lex_left_while [of P "lex_advance l"] lex_left_advance [of l]]
  by (subst lex_while.simps) simp

lemma lex_left_string: "lex_left (lex_string_body t l) \<le> lex_left l"
proof (induction t l rule: lex_string_body.induct)
  case (1 t l)
  show ?case
    by (subst lex_string_body.simps)
       (use "1.IH" in \<open>auto simp: Let_def intro: order_trans [OF _ lex_left_advance_le] order_trans [OF _ lex_left_advance2_le]\<close>)
qed

lemma lex_left_char: "lex_left (fst (lex_char_body l n v)) \<le> lex_left l"
proof (induction l n v rule: lex_char_body.induct)
  case (1 l n v)
  show ?case
    by (subst lex_char_body.simps)
       (use "1.IH" in \<open>auto simp: Let_def intro: order_trans [OF _ lex_left_advance_le] order_trans [OF _ lex_left_advance2_le]\<close>)
qed

lemma lex_left_skip: "lex_left (lex_skip_ws l) \<le> lex_left l"
proof (induction l rule: lex_skip_ws.induct)
  case (1 l0)
  let ?l = "lex_while lex_space l0"
  have w: "lex_left ?l \<le> lex_left l0" by simp
  have a: "lex_left (lex_while (\<lambda>c. c \<noteq> CHR 0x0A) (lex_advance (lex_advance ?l))) \<le> lex_left l0"
    "lex_left (lex_block_comment (lex_advance (lex_advance ?l))) \<le> lex_left l0"
    using w lex_left_while [of "\<lambda>c. c \<noteq> CHR 0x0A" "lex_advance (lex_advance ?l)"]
      lex_left_block [of "lex_advance (lex_advance ?l)"] lex_left_advance2_le [of ?l] by linarith+
  show ?case
    by (subst lex_skip_ws.simps) (use "1.IH" a w in \<open>auto simp: Let_def intro: order_trans\<close>)
qed

lemma lex_left_number:
  assumes "lx_ch l \<noteq> NUL" "is_digit (lx_ch l)"
  shows "lex_left (snd (lex_number l)) < lex_left l"
proof -
  have f: "lex_left (if lx_ch k = CHR ''f'' \<or> lx_ch k = CHR ''F'' then lex_advance k else k) \<le> lex_left k" for k
    by simp
  let ?h = "lex_while is_hex_digit (lex_advance (lex_advance l))" and ?d = "lex_while is_digit l"
  have "lex_left ?h < lex_left l"
    using lex_left_while [of is_hex_digit "lex_advance (lex_advance l)"] lex_left_advance2 [OF assms(1)] by linarith
  moreover have d: "lex_left ?d < lex_left l" using lex_left_while_lt [of l is_digit] assms by simp
  moreover have "lex_left (lex_while is_digit (lex_advance ?d)) < lex_left l"
    using lex_left_while [of is_digit "lex_advance ?d"] lex_left_advance_le [of ?d] d by linarith
  ultimately have k: "lex_left (if lx_ch l = CHR ''0'' \<and> (lex_peek l = CHR ''x'' \<or> lex_peek l = CHR ''X'') then ?h
      else if lx_ch ?d = CHR ''.'' \<and> is_digit (lex_peek ?d) then lex_while is_digit (lex_advance ?d) else ?d)
      < lex_left l" by simp
  show ?thesis unfolding lex_number_def Let_def snd_conv by (rule le_less_trans [OF f k])
qed

lemma lex_left_next:
  assumes "lex_next l = (t, l')" "tk_type t \<noteq> TOK_EOF"
  shows "lex_left l' < lex_left l"
proof -
  let ?k = "lex_skip_ws l"
  have nn: "lx_ch ?k \<noteq> NUL" using assms by (auto simp: lex_next_def Let_def make_token_def)
  have a: "lex_left (lex_advance ?k) < lex_left ?k" by (rule lex_left_advance [OF nn])
  have "lex_left l' < lex_left ?k"
  proof -
    have w: "lex_left (snd (lex_word ?k)) < lex_left ?k" if "is_alpha (lx_ch ?k)"
      using lex_left_while_lt [OF nn, of word_char] that by (simp add: lex_word_def Let_def word_char_def)
    have s: "lex_left (snd (lex_string ?k)) < lex_left ?k"
      using le_less_trans [OF lex_left_string a] by (simp add: lex_string_def Let_def)
    have c: "lex_left (snd (lex_char ?k)) < lex_left ?k"
      using le_less_trans [OF lex_left_char a] by (simp add: lex_char_def Let_def split: prod.splits) (metis fst_conv)
    have o: "lex_left (snd (lex_operator ?k)) < lex_left ?k"
      using a lex_left_advance2 [OF nn] by (simp add: lex_operator_def Let_def split: option.splits)
    show ?thesis using assms(1) nn w s c o lex_left_number [OF nn]
      unfolding lex_next_def Let_def by (metis snd_conv)
  qed
  then show ?thesis using lex_left_skip [of l] by linarith
qed

function lex_tokens :: "lexer \<Rightarrow> token list" where
  "lex_tokens l = (case lex_next l of (t, l') \<Rightarrow> if tk_type t = TOK_EOF then [t] else t # lex_tokens l')"
  by pat_completeness auto
termination
  by (relation "measure lex_left") (use lex_left_next in \<open>auto simp: eq_commute\<close>)

declare lex_tokens.simps [simp del]

lemma lex_tokens_collect:
  "length (lx_src l) - lx_pos l < n \<Longrightarrow> lex_ok l \<Longrightarrow> lexs.collect n l = lex_tokens l"
proof (induction n arbitrary: l)
  case (Suc n)
  obtain t l' where t: "lex_next l = (t, l')" by fastforce
  note st = lex_stream_law [OF Suc.prems(2) t]
  show ?case
  proof (cases "tk_type t = TOK_EOF")
    case False
    have "0 < tk_length t" by (rule lex_progress_law [OF Suc.prems(2) t False])
    moreover have "lx_pos l \<le> tk_start t" "tk_start t + tk_length t \<le> length (lx_src l)" using st by simp_all
    ultimately have "length (lx_src l') - lx_pos l' < n" using st Suc.prems(1) by simp
    with Suc.IH [OF this] st have "lexs.collect n l' = lex_tokens l'" by blast
    then show ?thesis using t False by (subst lex_tokens.simps) simp
  qed (use t in \<open>subst lex_tokens.simps, simp\<close>)
qed simp

lemma lex_tokens_spec:
  assumes "lex_ok l"
  shows "lex_tokens l \<noteq> [] \<and> tk_type (last (lex_tokens l)) = TOK_EOF \<and>
     (\<forall>t\<in>set (butlast (lex_tokens l)). tk_type t \<noteq> TOK_EOF \<and> 0 < tk_length t) \<and>
     tiles (lx_src l) (lx_pos l) (lex_tokens l)"
proof -
  have n: "length (lx_src l) - lx_pos l < Suc (length (lx_src l))" by simp
  show ?thesis using lexs.collect_spec [OF assms n] unfolding lex_tokens_collect [OF n assms] .
qed

text \<open>The bytes a token starts with: letters, digits, the two quotes and the punctuation.\<close>

definition token_starts :: "char \<Rightarrow> bool" where
  "token_starts c \<longleftrightarrow> is_alpha c \<or> is_digit c \<or> c \<in> {CHR 0x22, CHR 0x27} \<or>
     c \<in> set ''(){}[],;.:?@+-*/%=<>!&|^~''"

lemma one_char_op_starts: "one_char_op c \<noteq> None \<longleftrightarrow> c \<in> set ''(){}[],;.:?@+-*/%=<>!&|^~''"
  by (simp add: one_char_op_def)

lemma one_char_op_eof: "one_char_op c \<noteq> Some TOK_EOF"
  by (simp add: one_char_op_def)

lemma two_char_op_starts: "two_char_op c n \<noteq> None \<Longrightarrow> one_char_op c \<noteq> None"
  by (auto simp: two_char_op_def one_char_op_def split: if_splits)

lemma kw_search_eof: "list_all (\<lambda>(k, t). t \<noteq> TOK_EOF) kws \<Longrightarrow> kw_search kws s n \<noteq> TOK_EOF"
  by (induction kws s n rule: kw_search.induct) auto

lemma g_keywords_eof: "list_all (\<lambda>(k, t). t \<noteq> TOK_EOF) g_keywords"
  by (simp add: g_keywords_def)

lemma lex_operator_eof: "tk_type (fst (lex_operator l)) = TOK_EOF \<longleftrightarrow> one_char_op (lx_ch l) = None"
  using two_char_op_starts [of "lx_ch l" "lex_peek l"] one_char_op_eof [of "lx_ch l"]
  by (auto simp: lex_operator_def Let_def make_token_def split: option.splits)

lemma lex_word_eof: "tk_type (fst (lex_word l)) \<noteq> TOK_EOF"
  using kw_search_eof [OF g_keywords_eof] by (simp add: lex_word_def Let_def make_token_def kw_lookup_def)

lemma lex_number_eof: "tk_type (fst (lex_number l)) \<noteq> TOK_EOF"
  by (simp add: lex_number_def Let_def make_token_def)

lemma lex_string_eof: "tk_type (fst (lex_string l)) \<noteq> TOK_EOF"
  by (simp add: lex_string_def Let_def make_token_def)

lemma lex_char_eof: "tk_type (fst (lex_char l)) \<noteq> TOK_EOF"
  by (simp add: lex_char_def Let_def make_token_def split: prod.splits)

lemma lex_next_eof:
  assumes "lex_ok l" "lex_next l = (t, l')"
  shows "tk_type t = TOK_EOF \<longleftrightarrow> tk_start t = length (lx_src l) \<or> \<not> token_starts (lx_src l ! tk_start t)"
proof -
  let ?k = "lex_skip_ws l"
  have k: "lex_ok ?k" "lx_src ?k = lx_src l" using lex_skip_spec [OF assms(1)] by (auto simp: lex_to_def)
  show ?thesis
  proof (cases "lx_ch ?k = NUL")
    case True
    then have "tk_type t = TOK_EOF" "tk_start t = lx_pos ?k"
      using assms(2) by (auto simp: lex_next_def Let_def make_token_def)
    then show ?thesis using True lex_ok_NUL [OF k(1)] k(2) by simp
  next
    case False
    then have s: "tk_start t = lx_pos ?k" using lex_next_token [OF assms] by (simp add: token_from_def)
    have p: "lx_pos ?k < length (lx_src l)" "lx_ch ?k = lx_src l ! lx_pos ?k"
      using lex_ok_ch [OF k(1) False] k(2) by simp_all
    have t: "t = fst (lex_next l)" using assms(2) by simp
    have "tk_type t = TOK_EOF \<longleftrightarrow> \<not> is_alpha (lx_ch ?k) \<and> \<not> is_digit (lx_ch ?k) \<and>
        lx_ch ?k \<noteq> CHR 0x22 \<and> lx_ch ?k \<noteq> CHR 0x27 \<and> one_char_op (lx_ch ?k) = None"
      unfolding t lex_next_def Let_def
      using False lex_word_eof [of ?k] lex_number_eof [of ?k] lex_string_eof [of ?k] lex_char_eof [of ?k]
        lex_operator_eof [of ?k] by presburger
    also have "\<dots> \<longleftrightarrow> \<not> token_starts (lx_ch ?k)"
      unfolding token_starts_def one_char_op_starts [symmetric] by simp
    finally show ?thesis using s p by simp
  qed
qed

lemma lex_tokens_eof:
  "lex_ok l \<Longrightarrow> t \<in> set (lex_tokens l) \<Longrightarrow>
     tk_type t = TOK_EOF \<longleftrightarrow> tk_start t = length (lx_src l) \<or> \<not> token_starts (lx_src l ! tk_start t)"
proof (induction l rule: lex_tokens.induct)
  case (1 l)
  obtain k l' where k: "lex_next l = (k, l')" by fastforce
  note st = lex_stream_law [OF "1.prems"(1) k]
  show ?case
  proof (cases "t = k")
    case True
    then show ?thesis using lex_next_eof [OF "1.prems"(1) k] by simp
  next
    case False
    then have "tk_type k \<noteq> TOK_EOF" "t \<in> set (lex_tokens l')"
      using "1.prems"(2) k by (subst (asm) lex_tokens.simps, simp split: if_splits)+
    then show ?thesis using "1.IH" [of k l'] k st by simp
  qed
qed

text \<open>
  C22: reading a source token by token ends, with exactly one end token, last; the tokens are in
  order and cover the source up to it, nothing but blanks and comments lying between them. The end
  token is not early: a token is an end token exactly when it stands at the end of the source or at
  a byte no token starts with.
\<close>

theorem lex_tokens_cover:
  assumes "c_string s"
  shows "let ts = lex_tokens (lex_init (Some s)) in
    ts \<noteq> [] \<and> tk_type (last ts) = TOK_EOF \<and> list_all (\<lambda>t. tk_type t \<noteq> TOK_EOF \<and> 0 < tk_length t) (butlast ts) \<and>
    tiles s (lx_pos (lex_init (Some s))) ts \<and>
    list_all (\<lambda>t. (tk_type t = TOK_EOF) = (tk_start t = length s \<or> \<not> token_starts (s ! tk_start t))) ts"
  using lex_tokens_spec [OF lex_init_ok [OF assms, THEN conjunct1]] lex_init_ok [OF assms]
    lex_tokens_eof [OF lex_init_ok [OF assms, THEN conjunct1]]
  by (simp add: Let_def list_all_iff)

theorem lex_tokens_cover_witness:
  "map tk_type (lex_tokens (lex_init (Some ''x += 1; // done''))) = [TOK_ID, OP TOK_PLUS_ASSIGN, TOK_NUMBER, PU TOK_SEMI, TOK_EOF] \<and>
   tiles ''x += 1; // done'' 0 (lex_tokens (lex_init (Some ''x += 1; // done'')))"
proof -
  have "c_string ''x += 1; // done''" by (simp add: c_string_def NUL_def)
  moreover have "lx_pos (lex_init (Some ''x += 1; // done'')) = 0" by code_simp
  moreover have "map tk_type (lex_tokens (lex_init (Some ''x += 1; // done''))) =
     [TOK_ID, OP TOK_PLUS_ASSIGN, TOK_NUMBER, PU TOK_SEMI, TOK_EOF]" by code_simp
  ultimately show ?thesis using lex_tokens_cover [of "''x += 1; // done''"] by (simp add: Let_def)
qed

end
