(* ===== verification/Format.thy ===== *)
theory Format
  imports LexerProps
begin

text \<open>
  The source formatter, \<open>apps/kinal/src/kn_format.c\<close>: the classification of tokens, the output
  state, the comments kept from the gaps between tokens, the spacing of one token, and
  \<open>fmt_format_source\<close>. The output buffer is the list of its bytes (running out of memory ends
  the process). \<open>fmt_process_gap\<close> walks a gap by index; here it walks the bytes of the gap.
\<close>

subsection \<open>Classes of tokens\<close>

fun fmt_token_is_word :: "token_type \<Rightarrow> bool" where
  "fmt_token_is_word (TY t) = True"
| "fmt_token_is_word t = (t \<in>
     {TOK_ID, TOK_NUMBER, TOK_STRING, TOK_BAD_STRING, TOK_CHAR_LIT, TOK_BAD_CHAR, SK TOK_UNIT
      , SK TOK_GET, SK TOK_SET, SK TOK_BY, SK TOK_PROPERTY, SK TOK_FUNCTION, SK TOK_ASYNC
      , SK TOK_AWAIT, SK TOK_RETURN, SK TOK_IF, SK TOK_ELSE, SK TOK_ELSEIF, SK TOK_WHILE
      , SK TOK_FOR, SK TOK_SWITCH, SK TOK_CASE, SK TOK_BREAK, SK TOK_CONTINUE, SK TOK_TRY
      , SK TOK_CATCH, SK TOK_THROW, SK TOK_CONST, SK TOK_VAR, SK TOK_SAFE, SK TOK_TRUSTED
      , SK TOK_UNSAFE, DK TOK_EXTERN, DK TOK_CLASS, DK TOK_INTERFACE, DK TOK_STRUCT
      , DK TOK_ENUM, DK TOK_PUBLIC, DK TOK_PRIVATE, DK TOK_PROTECTED, DK TOK_INTERNAL
      , DK TOK_STATIC, DK TOK_VIRTUAL, DK TOK_OVERRIDE, DK TOK_ABSTRACT, DK TOK_SEALED
      , DK TOK_CONSTRUCTOR, DK TOK_NEW, DK TOK_THIS, DK TOK_BASE, DK TOK_BLOCK, DK TOK_RECORD
      , DK TOK_JUMP, DK TOK_DELEGATE, DK TOK_TRUE, DK TOK_FALSE, DK TOK_IS, DK TOK_DEFAULT
      , DK TOK_NULL})"

definition fmt_token_is_control_with_paren :: "token_type \<Rightarrow> bool" where
  "fmt_token_is_control_with_paren t \<longleftrightarrow> t \<in>
     {SK TOK_IF, SK TOK_ELSEIF, SK TOK_FOR, SK TOK_WHILE, SK TOK_SWITCH, SK TOK_CATCH}"

definition fmt_token_can_end_expr :: "token_type \<Rightarrow> bool" where
  "fmt_token_can_end_expr t \<longleftrightarrow> t \<in>
     {TOK_ID, TOK_NUMBER, TOK_STRING, TOK_BAD_STRING, TOK_CHAR_LIT, TOK_BAD_CHAR, DK TOK_TRUE
      , DK TOK_FALSE, DK TOK_NULL, DK TOK_THIS, DK TOK_BASE, PU TOK_RPAREN, PU TOK_RBRACKET
      , OP TOK_PLUSPLUS, OP TOK_MINUSMINUS}"

definition fmt_token_is_ambiguous_operator :: "token_type \<Rightarrow> bool" where
  "fmt_token_is_ambiguous_operator t \<longleftrightarrow> t \<in>
     {OP TOK_PLUS, OP TOK_MINUS, OP TOK_STAR, OP TOK_AMP, OP TOK_PLUSPLUS, OP TOK_MINUSMINUS}"

definition fmt_token_is_initializer_context :: "token_type \<Rightarrow> bool" where
  "fmt_token_is_initializer_context t \<longleftrightarrow> t \<in>
     {OP TOK_ASSIGN, PU TOK_COMMA, PU TOK_LPAREN, PU TOK_LBRACKET, PU TOK_COLON
      , PU TOK_QUESTION, SK TOK_RETURN, SK TOK_THROW, OP TOK_PLUS, OP TOK_MINUS, OP TOK_STAR
      , OP TOK_SLASH, OP TOK_PERCENT, OP TOK_PLUS_ASSIGN, OP TOK_MINUS_ASSIGN
      , OP TOK_STAR_ASSIGN, OP TOK_SLASH_ASSIGN, OP TOK_PERCENT_ASSIGN, OP TOK_EQ, OP TOK_NE
      , OP TOK_LT, OP TOK_LE, OP TOK_GT, OP TOK_GE, OP TOK_ANDAND, OP TOK_OROR, OP TOK_NOT
      , OP TOK_AMP, OP TOK_BITOR, OP TOK_XOR, OP TOK_SHL, OP TOK_SHR, OP TOK_TILDE, SK TOK_BY}"

definition fmt_token_is_binary_operator :: "token_type \<Rightarrow> bool \<Rightarrow> token_type \<Rightarrow> bool" where
  "fmt_token_is_binary_operator t has_prev prev =
     (if t \<in>
     {OP TOK_ASSIGN, OP TOK_PLUS_ASSIGN, OP TOK_MINUS_ASSIGN, OP TOK_STAR_ASSIGN
      , OP TOK_SLASH_ASSIGN, OP TOK_PERCENT_ASSIGN, OP TOK_EQ, OP TOK_NE, OP TOK_LT, OP TOK_LE
      , OP TOK_GT, OP TOK_GE, OP TOK_ANDAND, OP TOK_OROR, OP TOK_BITOR, OP TOK_XOR, OP TOK_SHL
      , OP TOK_SHR, OP TOK_SLASH, OP TOK_PERCENT, DK TOK_IS}
      then True
      else if t \<in> {OP TOK_PLUS, OP TOK_MINUS, OP TOK_STAR, OP TOK_AMP}
      then has_prev \<and> fmt_token_can_end_expr prev
      else False)"

subsection \<open>The state\<close>

record fmt_state =
  fs_out :: "char list"
  fs_src :: "char list"
  fs_src_len :: nat
  fs_newline :: "char list"
  fs_indent :: nat
  fs_paren_depth :: nat
  fs_bracket_depth :: nat
  fs_line_start :: bool
  fs_pending_blank_line :: bool
  fs_force_space_before_next :: bool
  fs_has_prev :: bool
  fs_prev_was_case_label :: bool
  fs_prev :: token

text \<open>The line-end style: that of the first line; a source without a line end counts as CRLF.\<close>

fun fmt_is_crlf :: "char list \<Rightarrow> bool" where
  "fmt_is_crlf [] = True"
| "fmt_is_crlf (c # cs) =
     (if c = CHR 0x0D then cs \<noteq> [] \<and> hd cs = CHR 0x0A
      else if c = CHR 0x0A then False
      else fmt_is_crlf cs)"

definition fmt_token_is_block_brace :: "fmt_state \<Rightarrow> token \<Rightarrow> bool" where
  "fmt_token_is_block_brace st current =
     (if tk_type current \<noteq> PU TOK_LBRACE \<or> \<not> fs_has_prev st then False
      else \<not> fmt_token_is_initializer_context (tk_type (fs_prev st)))"

definition fmt_buf_last_is_space :: "char list \<Rightarrow> bool" where
  "fmt_buf_last_is_space b \<longleftrightarrow> b \<noteq> [] \<and> last b = CHR '' ''"

definition fmt_buf_last_is_newline :: "char list \<Rightarrow> bool" where
  "fmt_buf_last_is_newline b \<longleftrightarrow> b \<noteq> [] \<and> last b = CHR 0x0A"

definition fmt_trim_trailing_spaces :: "char list \<Rightarrow> char list" where
  "fmt_trim_trailing_spaces b = rev (dropWhile (\<lambda>c. c = CHR '' '' \<or> c = CHR 0x09) (rev b))"

definition fmt_append :: "fmt_state \<Rightarrow> char list \<Rightarrow> fmt_state" where
  "fmt_append st s = st\<lparr>fs_out := fs_out st @ s\<rparr>"

definition fmt_emit_indent :: "fmt_state \<Rightarrow> fmt_state" where
  "fmt_emit_indent st =
     (if \<not> fs_line_start st then st
      else (fmt_append st (concat (replicate (fs_indent st) ''    '')))\<lparr>fs_line_start := False\<rparr>)"

definition fmt_emit_newline :: "fmt_state \<Rightarrow> fmt_state" where
  "fmt_emit_newline st =
     st\<lparr>fs_out := fmt_trim_trailing_spaces (fs_out st) @ fs_newline st, fs_line_start := True,
        fs_force_space_before_next := False\<rparr>"

definition fmt_emit_blank_line_if_needed :: "fmt_state \<Rightarrow> fmt_state" where
  "fmt_emit_blank_line_if_needed st =
     (if \<not> fs_pending_blank_line st then st
      else (let st = (if \<not> fs_line_start st then fmt_emit_newline st else st);
                st = (if fs_out st \<noteq> [] then fmt_emit_newline st else st)
            in st\<lparr>fs_pending_blank_line := False\<rparr>))"

definition fmt_emit_space_if_needed :: "fmt_state \<Rightarrow> fmt_state" where
  "fmt_emit_space_if_needed st =
     (if fs_line_start st then st
      else if fmt_buf_last_is_space (fs_out st) then st
      else fmt_append st '' '')"

subsection \<open>Gaps between tokens\<close>

definition emit_comment :: "fmt_state \<Rightarrow> nat \<Rightarrow> char list \<Rightarrow> fmt_state" where
  "emit_comment st newline_count text =
     (let st = (if newline_count \<ge> 2 then st\<lparr>fs_pending_blank_line := True\<rparr> else st);
          st = fmt_emit_blank_line_if_needed st;
          st = (if \<not> fs_line_start st then fmt_emit_space_if_needed st else st);
          st = fmt_emit_indent st
      in fmt_append st text)"

text \<open>The rest of a block comment after its opening: its text, what follows, whether it has a line end.\<close>

fun block_scan :: "char list \<Rightarrow> char list \<times> char list \<times> bool" where
  "block_scan [] = ([], [], False)"
| "block_scan (c # cs) =
     (if c = CHR ''*'' \<and> cs \<noteq> [] \<and> hd cs = CHR ''/'' then ([c, hd cs], tl cs, False)
      else (case block_scan cs of (t, r, h) \<Rightarrow> (c # t, r, line_end c \<or> h)))"

lemma block_scan_rest: "length (fst (snd (block_scan s))) \<le> length s"
  by (induction s rule: block_scan.induct) (auto split: prod.splits)

fun skip_line_end :: "char list \<Rightarrow> char list" where
  "skip_line_end [] = []"
| "skip_line_end (c # cs) =
     (if c = CHR 0x0D \<and> cs \<noteq> [] \<and> hd cs = CHR 0x0A then tl cs
      else if c = CHR 0x0D \<or> c = CHR 0x0A then cs else c # cs)"

lemma skip_line_end_rest: "length (skip_line_end s) \<le> length s"
  by (cases s) auto

function gap_loop :: "fmt_state \<Rightarrow> char list \<Rightarrow> nat \<Rightarrow> fmt_state \<times> nat" where
  "gap_loop st [] newline_count = (st, newline_count)"
| "gap_loop st (c # cs) newline_count =
     (if c = CHR ''/'' \<and> cs \<noteq> [] \<and> hd cs = CHR ''/''
      then (let body = takeWhile (\<lambda>x. \<not> line_end x) (tl cs); rest = dropWhile (\<lambda>x. \<not> line_end x) (tl cs);
                st = fmt_emit_newline (emit_comment st newline_count (''//'' @ body))
            in gap_loop st (skip_line_end rest) 0)
      else if c = CHR ''/'' \<and> cs \<noteq> [] \<and> hd cs = CHR ''*''
      then (case block_scan (tl cs) of (body, rest, has_newline) \<Rightarrow>
              (let st = emit_comment st newline_count (''/*'' @ body);
                   st = (if has_newline then fmt_emit_newline st else st)
               in gap_loop st rest 0))
      else if c = CHR 0x0D
      then gap_loop st (if cs \<noteq> [] \<and> hd cs = CHR 0x0A then tl cs else cs) (newline_count + 1)
      else if c = CHR 0x0A then gap_loop st cs (newline_count + 1)
      else gap_loop st cs newline_count)"
  by pat_completeness auto
termination
proof (relation "measure (\<lambda>(st, g, n). length g)", goal_cases)
  case (2 st c cs newline_count body rest st')
  have "length (skip_line_end rest) \<le> length rest" by (rule skip_line_end_rest)
  also have "\<dots> \<le> length (tl cs)" unfolding 2(3) by (rule length_dropWhile_le)
  also have "\<dots> \<le> length cs" by simp
  finally show ?case by simp
next
  case (3 st c cs)
  have "length (fst (snd (block_scan (tl cs)))) \<le> length (tl cs)" by (rule block_scan_rest)
  moreover have "length (tl cs) \<le> length cs" by simp
  ultimately show ?case using 3(2-4) by (auto simp: eq_commute [of "(_, _)"])
qed auto

definition fmt_process_gap :: "fmt_state \<Rightarrow> nat \<Rightarrow> nat \<Rightarrow> fmt_state" where
  "fmt_process_gap st begin end =
     (case gap_loop st (span (fs_src st) begin end) 0 of (st, newline_count) \<Rightarrow>
        if newline_count \<ge> 2 then st\<lparr>fs_pending_blank_line := True\<rparr> else st)"

subsection \<open>One token\<close>

definition fmt_need_space_before :: "fmt_state \<Rightarrow> token \<Rightarrow> bool" where
  "fmt_need_space_before st current =
     (let prev = tk_type (fs_prev st); curr = tk_type current
      in if \<not> fs_has_prev st \<or> fs_line_start st then False
         else if curr \<in> {PU TOK_RPAREN, PU TOK_RBRACKET, PU TOK_COMMA, PU TOK_SEMI, PU TOK_DOT, PU TOK_COLON} then False
         else if prev \<in> {PU TOK_LPAREN, PU TOK_LBRACKET, PU TOK_DOT, PU TOK_AT} then False
         else if fs_force_space_before_next st then True
         else if curr = PU TOK_LBRACKET then fmt_token_is_word prev \<and> \<not> fmt_token_can_end_expr prev
         else if curr = PU TOK_LPAREN then fmt_token_is_control_with_paren prev
         else if prev = PU TOK_RBRACKET \<and> curr \<in> {PU TOK_LPAREN, TOK_STRING, TOK_BAD_STRING, TOK_CHAR_LIT, TOK_BAD_CHAR} then False
         else if fmt_token_is_word prev \<and> fmt_token_is_word curr then True
         else if fmt_token_is_word curr \<and> (prev = PU TOK_RPAREN \<or> prev = PU TOK_RBRACKET) then True
         else if fmt_token_can_end_expr prev \<and> fmt_token_is_binary_operator curr (fs_has_prev st) prev then True
         else if curr = PU TOK_LBRACE then \<not> fmt_token_is_block_brace st current
         else False)"

definition emit_token_text :: "fmt_state \<Rightarrow> token \<Rightarrow> fmt_state" where
  "emit_token_text st0 current =
     (let t = tk_type current; block_brace = fmt_token_is_block_brace st0 current;
          st = (if t = PU TOK_RBRACE
                then (let st = (if fs_indent st0 > 0 then st0\<lparr>fs_indent := fs_indent st0 - 1\<rparr> else st0)
                      in if \<not> fs_line_start st then fmt_emit_newline st else st)
                else st0);
          st = (if t \<in> {SK TOK_CASE, DK TOK_DEFAULT, SK TOK_CATCH} \<and> \<not> fs_line_start st then fmt_emit_newline st else st);
          st = (if block_brace \<and> \<not> fs_line_start st then fmt_emit_newline st else st);
          st = fmt_emit_blank_line_if_needed st;
          st = (if fmt_need_space_before st current then fmt_emit_space_if_needed st else st);
          st = fmt_emit_indent st;
          st = fmt_append st (take (tk_length current) (drop (tk_start current) (fs_src st)))
      in st\<lparr>fs_line_start := False, fs_force_space_before_next := False\<rparr>)"

definition count_brackets :: "fmt_state \<Rightarrow> token_type \<Rightarrow> fmt_state" where
  "count_brackets st t =
     (if t = PU TOK_LPAREN then st\<lparr>fs_paren_depth := fs_paren_depth st + 1\<rparr>
      else if t = PU TOK_RPAREN \<and> fs_paren_depth st > 0 then st\<lparr>fs_paren_depth := fs_paren_depth st - 1\<rparr>
      else if t = PU TOK_LBRACKET then st\<lparr>fs_bracket_depth := fs_bracket_depth st + 1\<rparr>
      else if t = PU TOK_RBRACKET \<and> fs_bracket_depth st > 0 then st\<lparr>fs_bracket_depth := fs_bracket_depth st - 1\<rparr>
      else st)"

definition after_token :: "fmt_state \<Rightarrow> token_type \<Rightarrow> token_type \<Rightarrow> fmt_state" where
  "after_token st t next_type =
     (if t = PU TOK_LBRACE then fmt_emit_newline (st\<lparr>fs_indent := fs_indent st + 1\<rparr>)
      else if t = PU TOK_RBRACE
      then (if next_type \<noteq> PU TOK_SEMI \<and> next_type \<noteq> PU TOK_COMMA \<and> next_type \<noteq> TOK_EOF
            then fmt_emit_newline st else st)
      else if t = PU TOK_SEMI
      then (if fs_paren_depth st = 0 \<and> fs_bracket_depth st = 0 then fmt_emit_newline st
            else st\<lparr>fs_force_space_before_next := True\<rparr>)
      else if t = PU TOK_COMMA then st\<lparr>fs_force_space_before_next := True\<rparr>
      else if t = PU TOK_COLON
      then (if fs_prev_was_case_label st then fmt_emit_newline st else st\<lparr>fs_force_space_before_next := True\<rparr>)
      else if fmt_token_is_binary_operator t (fs_has_prev st) (tk_type (fs_prev st))
      then st\<lparr>fs_force_space_before_next := True\<rparr>
      else if fmt_token_is_ambiguous_operator t \<and>
              fmt_token_is_binary_operator t (fs_has_prev st) (tk_type (fs_prev st))
      then st\<lparr>fs_force_space_before_next := True\<rparr>
      else st)"

definition fmt_emit_token :: "fmt_state \<Rightarrow> token \<Rightarrow> token \<Rightarrow> fmt_state" where
  "fmt_emit_token st current next_tok =
     (let t = tk_type current;
          st = emit_token_text st current;
          st = count_brackets st t;
          st = after_token st t (tk_type next_tok)
      in st\<lparr>fs_prev_was_case_label := (t = SK TOK_CASE \<or> t = DK TOK_DEFAULT), fs_prev := current, fs_has_prev := True\<rparr>)"

subsection \<open>A source\<close>

fun fmt_loop :: "fmt_state \<Rightarrow> nat \<Rightarrow> token list \<Rightarrow> fmt_state \<times> nat" where
  "fmt_loop st cursor [] = (st, cursor)"
| "fmt_loop st cursor (tok # rest) =
     (let next_tok = (case rest of [] \<Rightarrow> tok | n # _ \<Rightarrow> n); start = tk_start tok;
          st = (if start > cursor then fmt_process_gap st cursor start else st)
      in if tk_type tok = TOK_EOF then (st, start)
         else fmt_loop (fmt_emit_token st tok next_tok) (start + tk_length tok) rest)"

definition fmt_init :: "char list \<Rightarrow> fmt_state" where
  "fmt_init src =
     \<lparr>fs_out = [], fs_src = src, fs_src_len = length src,
      fs_newline = (if fmt_is_crlf src then [CHR 0x0D, CHR 0x0A] else [CHR 0x0A]),
      fs_indent = 0, fs_paren_depth = 0, fs_bracket_depth = 0, fs_line_start = True,
      fs_pending_blank_line = False, fs_force_space_before_next = False, fs_has_prev = False,
      fs_prev_was_case_label = False,
      fs_prev = \<lparr>tk_type = TOK_EOF, tk_start = 0, tk_length = 0, tk_line = 0, tk_col = 0\<rparr>\<rparr>"

definition fmt_finish :: "fmt_state \<Rightarrow> fmt_state" where
  "fmt_finish st =
     (let st = st\<lparr>fs_out := fmt_trim_trailing_spaces (fs_out st)\<rparr>;
          st = (if \<not> fmt_buf_last_is_newline (fs_out st) then fmt_emit_newline st else st);
          st = st\<lparr>fs_out := fmt_trim_trailing_spaces (fs_out st)\<rparr>
      in if \<not> fmt_buf_last_is_newline (fs_out st) then fmt_append st (fs_newline st) else st)"

text \<open>
  The bytes of the source are given with their number, so a zero byte may be among them; the lexer
  sees the C string that ends there.
\<close>

definition fmt_format_source :: "char list \<Rightarrow> char list" where
  "fmt_format_source src =
     (let st = fmt_init src;
          bom = length src \<ge> 3 \<and> src ! 0 = CHR 0xEF \<and> src ! 1 = CHR 0xBB \<and> src ! 2 = CHR 0xBF;
          st = (if bom then fmt_append st (take 3 src) else st);
          cursor = (if bom then 3 else 0);
          tokens = lex_tokens (lex_init (Some (takeWhile (\<lambda>c. c \<noteq> NUL) src)))
      in case fmt_loop st cursor tokens of (st, cursor) \<Rightarrow>
           fs_out (fmt_finish (if cursor < fs_src_len st then fmt_process_gap st cursor (fs_src_len st) else st)))"

end
