(* ===== verification/FormatProps.thy ===== *)
theory FormatProps
  imports Format
begin

text \<open>
  What the formatter keeps. \<open>solid\<close> removes the blanks from a text: formatting changes nothing
  else, as long as the tokens reach the end of the source and no carriage return stands alone. The
  last section says for every source what is kept and what is dropped, and shows where the spacing
  rules join two tokens into one.
\<close>

definition solid :: "char list \<Rightarrow> char list" where
  "solid s = filter (\<lambda>c. \<not> lex_space c) s"

lemma solid_simps [simp]:
  "solid [] = []" "solid (s @ t) = solid s @ solid t"
  "solid (c # s) = (if lex_space c then solid s else c # solid s)"
  by (simp_all add: solid_def)

lemma solid_blank: "\<forall>c\<in>set s. lex_space c \<Longrightarrow> solid s = []"
  by (simp add: solid_def)

lemma solid_trim [simp]: "solid (fmt_trim_trailing_spaces s) = solid s"
proof -
  let ?P = "\<lambda>c. c = CHR '' '' \<or> c = CHR 0x09"
  have "s = fmt_trim_trailing_spaces s @ rev (takeWhile ?P (rev s))"
    unfolding fmt_trim_trailing_spaces_def by (metis rev_append rev_rev_ident takeWhile_dropWhile_id)
  moreover have "solid (rev (takeWhile ?P (rev s))) = []"
    by (rule solid_blank) (auto simp: lex_space_def dest: set_takeWhileD)
  ultimately show ?thesis by (metis append_Nil2 solid_simps(2))
qed

subsection \<open>Each output step\<close>

text \<open>The fields of the state that the gaps and tokens do not change.\<close>

definition same_source :: "fmt_state \<Rightarrow> fmt_state \<Rightarrow> bool" where
  "same_source st st' \<longleftrightarrow> fs_src st' = fs_src st \<and> fs_src_len st' = fs_src_len st \<and> fs_newline st' = fs_newline st"

definition good_newline :: "fmt_state \<Rightarrow> bool" where
  "good_newline st \<longleftrightarrow> fs_newline st = [CHR 0x0A] \<or> fs_newline st = [CHR 0x0D, CHR 0x0A]"

text \<open>\<open>st'\<close> has printed the text \<open>t\<close> after \<open>st\<close>, up to blanks.\<close>

definition prints :: "fmt_state \<Rightarrow> char list \<Rightarrow> fmt_state \<Rightarrow> bool" where
  "prints st t st' \<longleftrightarrow> same_source st st' \<and> solid (fs_out st') = solid (fs_out st) @ solid t"

lemma prints_refl: "prints st [] st"
  by (simp add: prints_def same_source_def)

lemma prints_trans: "prints st t st' \<Longrightarrow> prints st' u st'' \<Longrightarrow> prints st (t @ u) st''"
  by (simp add: prints_def same_source_def)

lemma prints_good: "prints st t st' \<Longrightarrow> good_newline st \<Longrightarrow> good_newline st'"
  by (simp add: prints_def same_source_def good_newline_def)

lemma prints_nl:
  assumes "good_newline st"
  shows "prints st [] (fmt_emit_newline st)"
  using assms by (auto simp: prints_def same_source_def fmt_emit_newline_def good_newline_def lex_space_def)

lemma prints_append: "prints st t (fmt_append st t)"
  by (simp add: prints_def same_source_def fmt_append_def)

lemma prints_indent: "prints st [] (fmt_emit_indent st)"
proof -
  have "solid (concat (replicate n ''    '')) = []" for n
    by (rule solid_blank) (auto simp: lex_space_def)
  then show ?thesis by (simp add: prints_def same_source_def fmt_emit_indent_def fmt_append_def)
qed

lemma prints_space: "prints st [] (fmt_emit_space_if_needed st)"
  by (simp add: prints_def same_source_def fmt_emit_space_if_needed_def fmt_append_def lex_space_def)

lemma prints_fields [simp]:
  "prints st t (st'\<lparr>fs_pending_blank_line := a\<rparr>) = prints st t st'"
  "prints st t (st'\<lparr>fs_line_start := a\<rparr>) = prints st t st'"
  "prints st t (st'\<lparr>fs_force_space_before_next := a\<rparr>) = prints st t st'"
  "prints st t (st'\<lparr>fs_indent := n\<rparr>) = prints st t st'"
  "prints st t (st'\<lparr>fs_paren_depth := n\<rparr>) = prints st t st'"
  "prints st t (st'\<lparr>fs_bracket_depth := n\<rparr>) = prints st t st'"
  "prints st t (st'\<lparr>fs_prev_was_case_label := a\<rparr>) = prints st t st'"
  "prints st t (st'\<lparr>fs_prev := k\<rparr>) = prints st t st'"
  "prints st t (st'\<lparr>fs_has_prev := a\<rparr>) = prints st t st'"
  by (simp_all add: prints_def same_source_def)

lemma prints_trans_Nil: "prints st t st' \<Longrightarrow> prints st' [] st'' \<Longrightarrow> prints st t st''"
  using prints_trans by fastforce

lemma prints_nl_after: "prints st t st' \<Longrightarrow> good_newline st \<Longrightarrow> prints st t (fmt_emit_newline st')"
  using prints_trans_Nil prints_nl prints_good by blast

lemma prints_blank_line_after:
  assumes "prints st t st'" "good_newline st"
  shows "prints st t (fmt_emit_blank_line_if_needed st')"
proof -
  have a: "prints st t (if \<not> fs_line_start st' then fmt_emit_newline st' else st')"
    using assms prints_nl_after by simp
  have "prints st t (if fs_out k \<noteq> [] then fmt_emit_newline k else k)" if "prints st t k" for k
    using that assms(2) prints_nl_after by simp
  from this [OF a] show ?thesis using assms(1) by (simp add: fmt_emit_blank_line_if_needed_def Let_def)
qed

lemma prints_space_after: "prints st t st' \<Longrightarrow> prints st t (fmt_emit_space_if_needed st')"
  using prints_trans_Nil prints_space by blast

lemma prints_indent_after: "prints st t st' \<Longrightarrow> prints st t (fmt_emit_indent st')"
  using prints_trans_Nil prints_indent by blast

lemma prints_append_after: "prints st t st' \<Longrightarrow> prints st (t @ u) (fmt_append st' u)"
  using prints_trans prints_append by blast

lemmas prints_after = prints_nl_after prints_blank_line_after prints_space_after prints_indent_after

lemma prints_comment:
  assumes "prints st t st'" "good_newline st"
  shows "prints st (t @ u) (emit_comment st' n u)"
proof -
  have a: "prints st t (if n \<ge> 2 then st'\<lparr>fs_pending_blank_line := True\<rparr> else st')" using assms(1) by simp
  note b = prints_blank_line_after [OF a assms(2)]
  have c: "prints st t (if \<not> fs_line_start k then fmt_emit_space_if_needed k else k)" if "prints st t k" for k
    using that prints_space_after by simp
  show ?thesis unfolding emit_comment_def Let_def
    by (rule prints_append_after [OF prints_indent_after [OF c [OF b]]])
qed

subsection \<open>Gaps\<close>

text \<open>Every carriage return belongs to a CRLF pair.\<close>

fun crlf_ok :: "char list \<Rightarrow> bool" where
  "crlf_ok [] = True"
| "crlf_ok (c # s) \<longleftrightarrow> (c = CHR 0x0D \<longrightarrow> s \<noteq> [] \<and> hd s = CHR 0x0A) \<and> crlf_ok s"

lemma crlf_ok_suffix: "crlf_ok (s @ t) \<Longrightarrow> crlf_ok t"
  by (induction s) auto

lemma crlf_ok_prefix: "crlf_ok (s @ t) \<Longrightarrow> t = [] \<or> hd t \<noteq> CHR 0x0A \<Longrightarrow> crlf_ok s"
  by (induction s) (auto simp: hd_append split: if_splits)

lemma crlf_ok_comment:
  "crlf_ok (s @ r) \<Longrightarrow> CHR 0x0A \<notin> set s \<Longrightarrow> r = [] \<or> hd r = CHR 0x0A \<Longrightarrow>
    (CHR 0x0D \<notin> set s) \<or> (\<exists>s'. s = s' @ [CHR 0x0D] \<and> CHR 0x0D \<notin> set s' \<and> r \<noteq> [])"
proof (induction s)
  case (Cons c s)
  show ?case
  proof (cases "c = CHR 0x0D")
    case True
    then have "s @ r \<noteq> []" "hd (s @ r) = CHR 0x0A" using Cons.prems(1) by auto
    then have "s = []" using Cons.prems(2) by (cases s) auto
    then show ?thesis using True \<open>s @ r \<noteq> []\<close> by auto
  next
    case False
    have "CHR 0x0D \<notin> set s \<or> (\<exists>s'. s = s' @ [CHR 0x0D] \<and> CHR 0x0D \<notin> set s' \<and> r \<noteq> [])"
      using Cons.IH Cons.prems by auto
    then show ?thesis
    proof
      assume "\<exists>s'. s = s' @ [CHR 0x0D] \<and> CHR 0x0D \<notin> set s' \<and> r \<noteq> []"
      then obtain s' where "s = s' @ [CHR 0x0D]" "CHR 0x0D \<notin> set s'" "r \<noteq> []" by blast
      then show ?thesis using False by (intro disjI2 exI [of _ "c # s'"]) simp
    qed (use False in simp)
  qed
qed simp

lemma block_scan_closed:
  "close_free (s @ ''*'') \<Longrightarrow> \<exists>h. block_scan (s @ CHR ''*'' # CHR ''/'' # r) = (s @ ''*/'', r, h)"
proof (induction s)
  case (Cons c s)
  then obtain h where h: "block_scan (s @ CHR ''*'' # CHR ''/'' # r) = (s @ ''*/'', r, h)" by auto
  have "\<not> (c = CHR ''*'' \<and> hd (s @ CHR ''*'' # CHR ''/'' # r) = CHR ''/'')"
    using Cons.prems by (cases s) auto
  then show ?case using h by auto
next
  case Nil
  show ?case by (intro exI [of _ False]) simp
qed

lemma block_scan_open: "close_free s \<Longrightarrow> \<exists>h. block_scan s = (s, [], h)"
  by (induction s) auto

lemma gap_loop_newline: "gap_loop st (CHR 0x0A # r) n = gap_loop st r (n + 1)"
  by simp

definition gap_kept :: "char list \<Rightarrow> bool" where
  "gap_kept g \<longleftrightarrow> (\<forall>st0 t st n. crlf_ok g \<longrightarrow> good_newline st0 \<longrightarrow> prints st0 t st \<longrightarrow>
     prints st0 (t @ g) (fst (gap_loop st g n)))"

lemma gap_keptD:
  "gap_kept g \<Longrightarrow> crlf_ok g \<Longrightarrow> good_newline st0 \<Longrightarrow> prints st0 t st \<Longrightarrow> prints st0 (t @ g) (fst (gap_loop st g n))"
  unfolding gap_kept_def by blast

lemma gap_kept_blank:
  assumes "lex_space c" "gap_kept s" "s \<noteq> [] \<and> hd s = CHR 0x0A \<longrightarrow> gap_kept (tl s)"
  shows "gap_kept (c # s)"
  unfolding gap_kept_def
proof (intro allI impI)
  fix st0 t st n
  assume a: "crlf_ok (c # s)" "good_newline st0" "prints st0 t st"
  have ih: "prints st0 (t @ s) (fst (gap_loop st s k))" for k
    using gap_keptD [OF assms(2) _ a(2,3)] a(1) by simp
  have eq: "prints st0 (t @ c # s) k = prints st0 (t @ s) k" for k
    using assms(1) by (simp add: prints_def)
  have step: "gap_loop st (c # s) n = gap_loop st s n \<or> gap_loop st (c # s) n = gap_loop st s (n + 1) \<or>
      s \<noteq> [] \<and> hd s = CHR 0x0A \<and> gap_loop st (c # s) n = gap_loop st (tl s) (n + 1)"
    using assms(1) by (auto simp: lex_space_def)
  then show "prints st0 (t @ c # s) (fst (gap_loop st (c # s) n))"
  proof (elim disjE conjE)
    assume s: "s \<noteq> []" "hd s = CHR 0x0A" and g: "gap_loop st (c # s) n = gap_loop st (tl s) (n + 1)"
    then have "gap_loop st s n = gap_loop st (tl s) (n + 1)" using gap_loop_newline [of st "tl s" n] by (cases s) auto
    then show ?thesis using ih [of n] g eq by simp
  qed (use ih eq in simp_all)
qed

lemma gap_kept_line:
  assumes s: "CHR 0x0A \<notin> set s" and r: "r = [] \<or> hd r = CHR 0x0A" "gap_kept r" "r \<noteq> [] \<and> hd r = CHR 0x0A \<longrightarrow> gap_kept (tl r)"
  shows "gap_kept (CHR ''/'' # CHR ''/'' # s @ r)"
  unfolding gap_kept_def
proof (intro allI impI)
  fix st0 t st n
  assume a: "crlf_ok (CHR ''/'' # CHR ''/'' # s @ r)" "good_newline st0" "prints st0 t st"
  have cr: "crlf_ok (s @ r)" using a(1) by simp
  have crr: "crlf_ok r" by (rule crlf_ok_suffix [OF cr])
  then have crt: "crlf_ok (tl r)" by (cases r) auto
  let ?body = "takeWhile (\<lambda>x. \<not> line_end x) (s @ r)" and ?rest = "dropWhile (\<lambda>x. \<not> line_end x) (s @ r)"
  let ?st = "fmt_emit_newline (emit_comment st n (''//'' @ ?body))"
  have g: "gap_loop st (CHR ''/'' # CHR ''/'' # s @ r) n = gap_loop ?st (skip_line_end ?rest) 0"
    by (simp add: Let_def)
  have nlr: "r = [] \<or> line_end (hd r)" using r(1) by (auto simp: line_end_def)
  have cut: "solid ?body = solid s \<and> skip_line_end ?rest = tl r"
    using crlf_ok_comment [OF cr s r(1)]
  proof
    assume "CHR 0x0D \<notin> set s"
    then have ns: "\<forall>x\<in>set s. \<not> line_end x" using s by (auto simp: line_end_def)
    have "?body = s" "?rest = r"
      using ns nlr by (cases r; simp add: takeWhile_append dropWhile_append)+
    moreover have "skip_line_end r = tl r" using r(1) by (cases r) auto
    ultimately show ?thesis by (simp only: simp_thms)
  next
    assume "\<exists>s'. s = s' @ [CHR 0x0D] \<and> CHR 0x0D \<notin> set s' \<and> r \<noteq> []"
    then obtain s' where s': "s = s' @ [CHR 0x0D]" "CHR 0x0D \<notin> set s'" "r \<noteq> []" by blast
    then have ns: "\<forall>x\<in>set s'. \<not> line_end x" using s by (auto simp: line_end_def)
    have "?body = s'" "?rest = CHR 0x0D # r"
      using ns s'(1) by (simp_all add: takeWhile_append dropWhile_append line_end_def)
    moreover have "skip_line_end (CHR 0x0D # r) = tl r" using s'(3) r(1) by simp
    moreover have "solid s = solid s'" using s'(1) by (simp add: lex_space_def)
    ultimately show ?thesis by (simp only: simp_thms)
  qed
  have "prints st0 (t @ ''//'' @ ?body) ?st"
    by (rule prints_nl_after [OF prints_comment [OF a(3,2)] a(2)])
  then have p: "prints st0 (t @ CHR ''/'' # CHR ''/'' # s) ?st" using cut by (simp add: prints_def)
  show "prints st0 (t @ CHR ''/'' # CHR ''/'' # s @ r) (fst (gap_loop st (CHR ''/'' # CHR ''/'' # s @ r) n))"
  proof (cases "r = []")
    case True
    then show ?thesis using p unfolding g cut [THEN conjunct2] by simp
  next
    case False
    then have k: "gap_kept (tl r)" "r = CHR 0x0A # tl r" using r(1,3) by (auto, cases r, auto)
    have "prints st0 ((t @ CHR ''/'' # CHR ''/'' # s) @ tl r) (fst (gap_loop ?st (tl r) 0))"
      by (rule gap_keptD [OF k(1) crt a(2) p])
    moreover have "solid r = solid (tl r)" by (subst k(2)) (simp add: lex_space_def)
    ultimately show ?thesis unfolding g cut [THEN conjunct2] by (simp add: prints_def)
  qed
qed

lemma gap_kept_block:
  assumes scan: "block_scan u = (b, r, h)" "u = b @ r" and r: "gap_kept r"
  shows "gap_kept (CHR ''/'' # CHR ''*'' # u)"
  unfolding gap_kept_def
proof (intro allI impI)
  fix st0 t st n
  assume a: "crlf_ok (CHR ''/'' # CHR ''*'' # u)" "good_newline st0" "prints st0 t st"
  have crr: "crlf_ok r" using crlf_ok_suffix [of b r] a(1) scan(2) by simp
  let ?c = "emit_comment st n (''/*'' @ b)"
  let ?st = "if h then fmt_emit_newline ?c else ?c"
  have g: "gap_loop st (CHR ''/'' # CHR ''*'' # u) n = gap_loop ?st r 0"
    by (simp add: scan(1) Let_def)
  have c: "prints st0 (t @ ''/*'' @ b) ?c" by (rule prints_comment [OF a(3,2)])
  then have "prints st0 (t @ ''/*'' @ b) ?st" using prints_nl_after [OF c a(2)] by simp
  from gap_keptD [OF r crr a(2) this, of 0]
  show "prints st0 (t @ CHR ''/'' # CHR ''*'' # u) (fst (gap_loop st (CHR ''/'' # CHR ''*'' # u) n))"
    unfolding g unfolding scan(2) by simp
qed

lemma gap_kept_Nil: "gap_kept []"
  by (simp add: gap_kept_def)

lemma trivia_kept: "trivia g \<Longrightarrow> gap_kept g \<and> (g \<noteq> [] \<and> hd g = CHR 0x0A \<longrightarrow> gap_kept (tl g))"
proof (induction g rule: trivia.induct)
  case trivia_nil
  then show ?case by (simp add: gap_kept_Nil)
next
  case (trivia_blank c s)
  then show ?case using gap_kept_blank [of c s] by simp
next
  case (trivia_line s r)
  then show ?case using gap_kept_line [of s r] by simp
next
  case (trivia_block s r)
  obtain h where "block_scan (s @ CHR ''*'' # CHR ''/'' # r) = (s @ ''*/'', r, h)"
    using block_scan_closed [OF trivia_block.hyps(1)] by blast
  from gap_kept_block [OF this] trivia_block.IH show ?case by simp
next
  case (trivia_open s)
  obtain h where "block_scan s = (s, [], h)" using block_scan_open [OF trivia_open.hyps(1)] by blast
  from gap_kept_block [OF this _ gap_kept_Nil] show ?case by simp
qed

lemma process_gap_prints:
  assumes "trivia (span (fs_src st) a b)" "crlf_ok (span (fs_src st) a b)" "good_newline st0" "prints st0 t st"
  shows "prints st0 (t @ span (fs_src st) a b) (fmt_process_gap st a b)"
proof -
  obtain st' n where g: "gap_loop st (span (fs_src st) a b) 0 = (st', n)" by fastforce
  have "prints st0 (t @ span (fs_src st) a b) st'"
    using gap_keptD [OF trivia_kept [OF assms(1), THEN conjunct1] assms(2-4), of 0] g by simp
  then show ?thesis by (simp add: fmt_process_gap_def g)
qed

subsection \<open>A gap with other text\<close>

text \<open>The comments of a text, a line comment ending at the first carriage return or line feed.\<close>

function comments :: "char list \<Rightarrow> char list" where
  "comments [] = []"
| "comments (c # cs) =
     (if c = CHR ''/'' \<and> cs \<noteq> [] \<and> hd cs = CHR ''/''
      then ''//'' @ takeWhile (\<lambda>x. \<not> line_end x) (tl cs) @ comments (dropWhile (\<lambda>x. \<not> line_end x) (tl cs))
      else if c = CHR ''/'' \<and> cs \<noteq> [] \<and> hd cs = CHR ''*''
      then ''/*'' @ fst (block_scan (tl cs)) @ comments (fst (snd (block_scan (tl cs))))
      else comments cs)"
  by pat_completeness auto
termination
proof (relation "measure length", goal_cases)
  case (2 c cs)
  have "length (dropWhile (\<lambda>x. \<not> line_end x) (tl cs)) \<le> length (tl cs)" by (rule length_dropWhile_le)
  also have "\<dots> \<le> length cs" by simp
  finally show ?case by simp
next
  case (3 c cs)
  have "length (fst (snd (block_scan (tl cs)))) \<le> length (tl cs)" by (rule block_scan_rest)
  also have "\<dots> \<le> length cs" by simp
  finally show ?case by simp
qed auto

lemma comments_line_end: "line_end c \<Longrightarrow> comments (c # s) = comments s"
  by (auto simp: line_end_def)

lemma comments_skip_line_end:
  "s = [] \<or> line_end (hd s) \<Longrightarrow> comments (skip_line_end s) = comments s"
proof (cases s)
  case (Cons c r)
  assume "s = [] \<or> line_end (hd s)"
  then have c: "line_end c" using Cons by simp
  show ?thesis
  proof (cases "c = CHR 0x0D \<and> r \<noteq> [] \<and> hd r = CHR 0x0A")
    case True
    then have "comments r = comments (tl r)" by (cases r) (auto simp: line_end_def)
    then show ?thesis using True Cons comments_line_end [OF c] by simp
  next
    case False
    have "skip_line_end (c # r) = r"
      using c False by (auto simp: line_end_def)
    then show ?thesis unfolding Cons using comments_line_end [OF c] by simp
  qed
qed simp

lemma gap_loop_comments:
  "good_newline st0 \<Longrightarrow> prints st0 t st \<Longrightarrow> prints st0 (t @ comments g) (fst (gap_loop st g n))"
proof (induction st g n arbitrary: t rule: gap_loop.induct)
  case (2 st c cs n)
  note good = "2.prems"(1)
  show ?case
  proof (cases "c = CHR ''/'' \<and> cs \<noteq> [] \<and> hd cs = CHR ''/''")
    case True
    let ?b = "takeWhile (\<lambda>x. \<not> line_end x) (tl cs)" and ?r = "dropWhile (\<lambda>x. \<not> line_end x) (tl cs)"
    have p: "prints st0 (t @ ''//'' @ ?b) (fmt_emit_newline (emit_comment st n (''//'' @ ?b)))"
      by (rule prints_nl_after [OF prints_comment [OF "2.prems"(2) good] good])
    have "?r = [] \<or> line_end (hd ?r)" using hd_dropWhile [of "\<lambda>x. \<not> line_end x" "tl cs"] by blast
    then have "comments (c # cs) = ''//'' @ ?b @ comments (skip_line_end ?r)"
      using True comments_skip_line_end by simp
    then show ?thesis using "2.IH"(1) [OF True refl refl refl good p] True by (simp add: Let_def)
  next
    case F: False
    show ?thesis
    proof (cases "c = CHR ''/'' \<and> cs \<noteq> [] \<and> hd cs = CHR ''*''")
      case True
      obtain b r h where s: "block_scan (tl cs) = (b, r, h)" by (cases "block_scan (tl cs)") auto
      let ?st = "if h then fmt_emit_newline (emit_comment st n (''/*'' @ b)) else emit_comment st n (''/*'' @ b)"
      note c = prints_comment [OF "2.prems"(2) good, of "''/*'' @ b" n]
      have p: "prints st0 (t @ ''/*'' @ b) ?st" using c prints_nl_after [OF c good] by simp
      have k: "comments (c # cs) = ''/*'' @ b @ comments r" using True s by simp
      have g: "gap_loop st (c # cs) n = gap_loop ?st r 0" using True s by (simp add: Let_def)
      show ?thesis unfolding k g
        using "2.IH"(2) [OF F True s [symmetric] refl refl refl good p] by simp
    next
      case G: False
      have k: "comments (c # cs) = comments cs" unfolding comments.simps(2) if_not_P [OF F] if_not_P [OF G] ..
      have tl: "comments (tl cs) = comments cs" if "cs \<noteq> []" "hd cs = CHR 0x0A"
        using that by (cases cs) auto
      have g: "gap_loop st (c # cs) n =
          (if c = CHR 0x0D then gap_loop st (if cs \<noteq> [] \<and> hd cs = CHR 0x0A then tl cs else cs) (n + 1)
           else if c = CHR 0x0A then gap_loop st cs (n + 1) else gap_loop st cs n)"
        unfolding gap_loop.simps(2) if_not_P [OF F] if_not_P [OF G] ..
      have r: "comments (if cs \<noteq> [] \<and> hd cs = CHR 0x0A then tl cs else cs) = comments cs" using tl by simp
      show ?thesis unfolding k g
        using "2.IH"(3) [OF F G _ good "2.prems"(2)] "2.IH"(4) [OF F G _ _ good "2.prems"(2)]
          "2.IH"(5) [OF F G _ _ good "2.prems"(2)] unfolding r by (cases "c = CHR 0x0D"; cases "c = CHR 0x0A"; simp only: if_True if_False simp_thms)
    qed
  qed
qed simp

lemma process_gap_comments:
  assumes "good_newline st0" "prints st0 t st"
  shows "prints st0 (t @ comments (span (fs_src st) a b)) (fmt_process_gap st a b)"
proof -
  obtain st' n where g: "gap_loop st (span (fs_src st) a b) 0 = (st', n)" by fastforce
  have "prints st0 (t @ comments (span (fs_src st) a b)) st'"
    using gap_loop_comments [OF assms, of "span (fs_src st) a b" 0] g by simp
  then show ?thesis by (simp add: fmt_process_gap_def g)
qed

subsection \<open>Tokens\<close>

lemma emit_token_text_prints:
  assumes "prints st0 t st" "good_newline st0"
  shows "prints st0 (t @ take (tk_length k) (drop (tk_start k) (fs_src st))) (emit_token_text st k)"
proof -
  have nl: "prints st0 t (if b then fmt_emit_newline x else x)" if "prints st0 t x" for x b
    using prints_nl_after [OF that assms(2)] that by simp
  have ind: "prints st0 t (if b then x\<lparr>fs_indent := n\<rparr> else x)" if "prints st0 t x" for x b n
    using that by simp
  have first: "prints st0 t (if c then (let y = (if b then st\<lparr>fs_indent := n\<rparr> else st)
      in if d y then fmt_emit_newline y else y) else st)" for b c n d
    using nl [OF ind [OF assms(1)]] assms(1) by (simp add: Let_def)
  have sp: "prints st0 t (if b then fmt_emit_space_if_needed x else x)" if "prints st0 t x" for x b
    using prints_space_after [OF that] that by simp
  have src: "fs_src x = fs_src st" if "prints st0 t x" for x
    using that assms(1) by (simp add: prints_def same_source_def)
  have fin: "prints st0 (t @ take (tk_length k) (drop (tk_start k) (fs_src st)))
      ((fmt_append x (take (tk_length k) (drop (tk_start k) (fs_src x))))
        \<lparr>fs_line_start := False, fs_force_space_before_next := False\<rparr>)" if "prints st0 t x" for x
    using prints_append_after [OF that] src [OF that] by simp
  show ?thesis unfolding emit_token_text_def Let_def [of "tk_type k"] Let_def [of "fmt_token_is_block_brace st k"]
    unfolding Let_def
    by (rule fin, rule prints_indent_after, rule sp, rule prints_blank_line_after [OF _ assms(2)],
        rule nl, rule nl, rule first [unfolded Let_def])
qed

lemma count_brackets_prints: "prints st0 t st \<Longrightarrow> prints st0 t (count_brackets st k)"
  by (simp add: count_brackets_def)

lemma after_token_prints: "prints st0 t st \<Longrightarrow> good_newline st0 \<Longrightarrow> prints st0 t (after_token st k n)"
  by (simp add: after_token_def prints_nl_after)

lemma emit_token_prints:
  assumes "prints st0 t st" "good_newline st0"
  shows "prints st0 (t @ take (tk_length k) (drop (tk_start k) (fs_src st))) (fmt_emit_token st k n)"
  unfolding fmt_emit_token_def Let_def
  using after_token_prints [OF count_brackets_prints [OF emit_token_text_prints [OF assms]] assms(2)] by simp

lemma fmt_loop_prints:
  assumes good: "good_newline st0" and cr: "crlf_ok src"
  shows "tiles src p ts \<Longrightarrow> ts \<noteq> [] \<Longrightarrow> tk_type (last ts) = TOK_EOF \<Longrightarrow>
    \<forall>t\<in>set (butlast ts). tk_type t \<noteq> TOK_EOF \<Longrightarrow> p \<le> length src \<Longrightarrow>
    prints st0 (take p src) st \<Longrightarrow> fs_src st = src \<Longrightarrow>
    prints st0 (take (tk_start (last ts)) src) (fst (fmt_loop st p ts)) \<and> snd (fmt_loop st p ts) = tk_start (last ts)"
proof (induction ts arbitrary: p st)
  case (Cons k ts)
  let ?s = "tk_start k"
  have k: "p \<le> ?s" "trivia (span src p ?s)" "?s + tk_length k \<le> length src"
      "?s < length src \<longrightarrow> \<not> lex_space (src ! ?s)" "tiles src (?s + tk_length k) ts"
    using Cons.prems(1) by simp_all
  have gap: "crlf_ok (span src p ?s)"
  proof -
    have "src = take p src @ span src p ?s @ drop ?s src"
      using k(1) append_take_drop_id [of "?s - p" "drop p src"] by (simp add: span_def)
    with cr have "crlf_ok (span src p ?s @ drop ?s src)" by (metis crlf_ok_suffix)
    moreover have "drop ?s src = [] \<or> hd (drop ?s src) \<noteq> CHR 0x0A"
      using k(3,4) by (cases "?s < length src") (auto simp: hd_drop_conv_nth lex_space_def)
    ultimately show ?thesis by (rule crlf_ok_prefix)
  qed
  have joined: "take p src @ span src p ?s = take ?s src"
    using k(1) take_add [of p "?s - p" src] by (simp add: span_def)
  let ?st = "if ?s > p then fmt_process_gap st p ?s else st"
  have st: "prints st0 (take ?s src) ?st" "fs_src ?st = src"
  proof -
    show st1: "prints st0 (take ?s src) ?st"
    proof (cases "?s > p")
      case True
      then show ?thesis
        using process_gap_prints [of st p ?s st0 "take p src"] k(2) gap good Cons.prems(6,7) joined by simp
    next
      case False
      then show ?thesis using k(1) Cons.prems(6) by simp
    qed
    show "fs_src ?st = src" using st1 Cons.prems(6,7) by (simp only: prints_def same_source_def)
  qed
  show ?case
  proof (cases ts)
    case Nil
    then have "tk_type k = TOK_EOF" using Cons.prems(3) by simp
    then show ?thesis using st Nil by (auto simp: Let_def split: if_splits)
  next
    case (Cons n r)
    then have ne: "ts \<noteq> []" "tk_type k \<noteq> TOK_EOF" using Cons.prems(4) by simp_all
    let ?e = "fmt_emit_token ?st k (case ts of [] \<Rightarrow> k | n # _ \<Rightarrow> n)"
    have "prints st0 (take ?s src @ take (tk_length k) (drop ?s src)) ?e"
      using emit_token_prints [OF st(1) good, of k] st(2) by simp
    then have e: "prints st0 (take (?s + tk_length k) src) ?e" by (simp add: take_add)
    have es: "fs_src ?e = src" using e st by (simp only: prints_def same_source_def)
    have fl: "fmt_loop st p (k # ts) = fmt_loop ?e (?s + tk_length k) ts" using ne(2) by (simp add: Let_def)
    show ?thesis unfolding fl
      using Cons.IH [OF k(5) ne(1) _ _ k(3) e es] Cons.prems(3,4) ne by auto
  qed
qed simp

lemma finish_prints:
  assumes "good_newline st"
  shows "solid (fs_out (fmt_finish st)) = solid (fs_out st) \<and> last (fs_out (fmt_finish st)) = CHR 0x0A \<and>
    fs_out (fmt_finish st) \<noteq> []"
proof -
  let ?s1 = "st\<lparr>fs_out := fmt_trim_trailing_spaces (fs_out st)\<rparr>"
  define s2 where "s2 = (if \<not> fmt_buf_last_is_newline (fs_out ?s1) then fmt_emit_newline ?s1 else ?s1)"
  have s2: "solid (fs_out s2) = solid (fs_out st)" "fmt_buf_last_is_newline (fs_out s2)"
    using assms by (auto simp: s2_def fmt_emit_newline_def fmt_buf_last_is_newline_def good_newline_def lex_space_def)
  then obtain x where x: "fs_out s2 = x @ [CHR 0x0A]"
    unfolding fmt_buf_last_is_newline_def by (metis append_butlast_last_id)
  then have "fmt_trim_trailing_spaces (fs_out s2) = fs_out s2" by (simp add: fmt_trim_trailing_spaces_def)
  then have "fs_out (fmt_finish st) = fs_out s2"
    using s2(2) unfolding fmt_finish_def Let_def s2_def [symmetric] by simp
  then show ?thesis using s2 x by simp
qed

text \<open>The cursor after the tokens, and the text they leave: the comments of the gaps and the tokens.\<close>

lemma fmt_loop_cursor:
  "ts \<noteq> [] \<Longrightarrow> tk_type (last ts) = TOK_EOF \<Longrightarrow> \<forall>t\<in>set (butlast ts). tk_type t \<noteq> TOK_EOF \<Longrightarrow>
    snd (fmt_loop st p ts) = tk_start (last ts)"
proof (induction st p ts rule: fmt_loop.induct)
  case (2 st p k ts)
  show ?case
  proof (cases ts)
    case Nil
    then show ?thesis using 2 by (simp add: Let_def)
  next
    case (Cons n r)
    then have "tk_type k \<noteq> TOK_EOF" "ts \<noteq> []" using 2 by simp_all
    then show ?thesis using "2.IH" [OF refl refl refl] "2.prems"(2,3) by (simp add: Let_def)
  qed
qed simp

fun printed :: "char list \<Rightarrow> nat \<Rightarrow> token list \<Rightarrow> char list" where
  "printed src p [] = []"
| "printed src p (t # ts) = comments (span src p (tk_start t)) @
     (if tk_type t = TOK_EOF then []
      else take (tk_length t) (drop (tk_start t) src) @ printed src (tk_start t + tk_length t) ts)"

lemma fmt_loop_kept:
  assumes good: "good_newline st0"
  shows "prints st0 t st \<Longrightarrow> fs_src st = src \<Longrightarrow> prints st0 (t @ printed src p ts) (fst (fmt_loop st p ts))"
proof (induction ts arbitrary: p st t)
  case (Cons k ts)
  let ?s = "tk_start k"
  let ?st = "if ?s > p then fmt_process_gap st p ?s else st"
  let ?n = "case ts of [] \<Rightarrow> k | n # _ \<Rightarrow> n"
  have st: "prints st0 (t @ comments (span src p ?s)) ?st"
    using process_gap_comments [OF good Cons.prems(1), of p ?s] Cons.prems by (simp add: span_def)
  have src: "fs_src x = src" if "prints st0 u x" for u x
    using that Cons.prems by (simp add: prints_def same_source_def)
  show ?case
  proof (cases "tk_type k = TOK_EOF")
    case True
    then show ?thesis using st by (simp add: Let_def split: if_splits)
  next
    case False
    have "prints st0 ((t @ comments (span src p ?s)) @ take (tk_length k) (drop ?s src)) (fmt_emit_token ?st k ?n)"
      using emit_token_prints [OF st good, of k ?n] unfolding src [OF st] .
    from Cons.IH [OF this src [OF this], of "?s + tk_length k"]
    show ?thesis using False by (simp add: Let_def del: fmt_process_gap_def)
  qed
qed simp

text \<open>The length of a byte order mark.\<close>

definition bom_length :: "char list \<Rightarrow> nat" where
  "bom_length src =
     (if length src \<ge> 3 \<and> src ! 0 = CHR 0xEF \<and> src ! 1 = CHR 0xBB \<and> src ! 2 = CHR 0xBF then 3 else 0)"

lemma format_run:
  assumes c: "c_string src" and ts: "ts = lex_tokens (lex_init (Some src))"
    and loop: "\<And>st. prints (fmt_init src) (take (bom_length src) src) st \<Longrightarrow> fs_src st = src \<Longrightarrow>
      prints (fmt_init src) t (fst (fmt_loop st (bom_length src) ts))"
  shows "solid (fmt_format_source src) = solid t @ solid (comments (drop (tk_start (last ts)) src)) \<and>
    fmt_format_source src \<noteq> [] \<and> last (fmt_format_source src) = CHR 0x0A"
proof -
  let ?bom = "length src \<ge> 3 \<and> src ! 0 = CHR 0xEF \<and> src ! 1 = CHR 0xBB \<and> src ! 2 = CHR 0xBF"
  let ?st = "if ?bom then fmt_append (fmt_init src) (take 3 src) else fmt_init src"
  let ?p = "tk_start (last ts)"
  have nz: "takeWhile (\<lambda>c. c \<noteq> NUL) src = src" using c by (auto simp: c_string_def)
  have ok: "lex_ok (lex_init (Some src))" using lex_init_ok [OF c] by blast
  note spec = lex_tokens_spec [OF ok, folded ts]
  have good: "good_newline (fmt_init src)" by (simp add: good_newline_def fmt_init_def)
  have st: "prints (fmt_init src) (take (bom_length src) src) ?st" "fs_src ?st = src"
    using prints_append [of "fmt_init src" "take 3 src"] prints_refl [of "fmt_init src"]
    by (auto simp: fmt_append_def fmt_init_def bom_length_def)
  obtain e q where ec: "fmt_loop ?st (bom_length src) ts = (e, q)" by fastforce
  have e: "prints (fmt_init src) t e" using loop [OF st] ec by simp
  have q: "q = ?p" using fmt_loop_cursor [of ts ?st "bom_length src"] spec ec by simp
  have src: "fs_src e = src" "fs_src_len e = length src"
    using e by (simp_all add: prints_def same_source_def fmt_init_def)
  let ?e = "if q < fs_src_len e then fmt_process_gap e q (fs_src_len e) else e"
  have "span src q (length src) = drop q src" by (simp add: span_def)
  then have pe: "prints (fmt_init src) (t @ comments (drop q src)) ?e"
    using process_gap_comments [OF good e, of q "length src"] e src by simp
  have "fmt_format_source src = fs_out (fmt_finish ?e)"
    unfolding fmt_format_source_def Let_def nz ts [symmetric] bom_length_def [symmetric] ec by simp
  moreover have "solid (fs_out ?e) = solid t @ solid (comments (drop q src))"
    using pe by (simp add: prints_def fmt_init_def)
  ultimately show ?thesis using finish_prints [OF prints_good [OF pe good]] q by simp
qed

lemma format_prefix:
  assumes c: "c_string src" "crlf_ok src" and ts: "ts = lex_tokens (lex_init (Some src))"
  shows "solid (fmt_format_source src) =
      solid (take (tk_start (last ts)) src) @ solid (comments (drop (tk_start (last ts)) src)) \<and>
    fmt_format_source src \<noteq> [] \<and> last (fmt_format_source src) = CHR 0x0A"
proof (rule format_run [OF c(1) ts])
  fix st
  assume st: "prints (fmt_init src) (take (bom_length src) src) st" "fs_src st = src"
  have ok: "lex_ok (lex_init (Some src))" "lx_src (lex_init (Some src)) = src"
    "lx_pos (lex_init (Some src)) = bom_length src"
    using lex_init_ok [OF c(1)] by (auto simp: lex_init_def Let_def bom_length_def)
  note spec = lex_tokens_spec [OF ok(1), folded ts, unfolded ok(2,3)]
  have good: "good_newline (fmt_init src)" by (simp add: good_newline_def fmt_init_def)
  have "bom_length src \<le> length src" by (simp add: bom_length_def)
  from fmt_loop_prints [OF good c(2) _ _ _ _ this st] spec
  show "prints (fmt_init src) (take (tk_start (last ts)) src) (fst (fmt_loop st (bom_length src) ts))" by blast
qed

text \<open>
  C21: formatting changes only blanks. When the source is a C string, the tokens reach its end and
  every carriage return of it is part of a CRLF line end, the output without its blanks is the
  source without its blanks, and it ends in a line feed.
\<close>

theorem format_keeps_text:
  assumes "c_string src" "crlf_ok src" "tk_start (last (lex_tokens (lex_init (Some src)))) = length src"
  shows "solid (fmt_format_source src) = solid src \<and> fmt_format_source src \<noteq> [] \<and>
    last (fmt_format_source src) = CHR 0x0A"
  using format_prefix [OF assms(1,2) refl] unfolding assms(3) by simp

lemma small_source: "c_string (''int  a ;// n'' @ [CHR 0x0A]) \<and> crlf_ok (''int  a ;// n'' @ [CHR 0x0A])"
  by code_simp

theorem format_keeps_text_witness:
  "solid (fmt_format_source (''int  a ;// n'' @ [CHR 0x0A])) = ''inta;//n'' \<and>
   fmt_format_source (''int  a ;// n'' @ [CHR 0x0A]) = ''int a;'' @ [CHR 0x0A] @ ''// n'' @ [CHR 0x0A]"
proof -
  let ?s = "''int  a ;// n'' @ [CHR 0x0A]"
  have e: "tk_start (last (lex_tokens (lex_init (Some ?s)))) = length ?s" by code_simp
  have o: "fmt_format_source ?s = ''int a;'' @ [CHR 0x0A] @ ''// n'' @ [CHR 0x0A]" by code_simp
  have "solid ?s = ''inta;//n''" by code_simp
  then show ?thesis
    using format_keeps_text [OF small_source [THEN conjunct1] small_source [THEN conjunct2] e] o by simp
qed

subsection \<open>Where formatting changes the program\<close>

text \<open>
  The spacing rules join tokens. \<open>In\<close> and \<open>Alias\<close> are not in the list of words, so the
  blanks around them go, and two prefix operators in a row lose theirs: the output reads as other
  tokens than the source.
\<close>

theorem format_joins_tokens:
  "fmt_format_source (''Foreach (x In xs) { }'' @ [CHR 0x0A]) =
     ''Foreach(xInxs)'' @ [CHR 0x0A] @ ''{'' @ [CHR 0x0A] @ ''}'' @ [CHR 0x0A] \<and>
   fmt_format_source (''Alias X;'' @ [CHR 0x0A]) = ''AliasX;'' @ [CHR 0x0A] \<and>
   fmt_format_source (''Return - -x;'' @ [CHR 0x0A]) = ''Return--x;'' @ [CHR 0x0A] \<and>
   map tk_type (lex_tokens (lex_init (Some ''(x In xs)''))) =
     [PU TOK_LPAREN, TOK_ID, DK TOK_IN, TOK_ID, PU TOK_RPAREN, TOK_EOF] \<and>
   map tk_type (lex_tokens (lex_init (Some ''(xInxs)''))) = [PU TOK_LPAREN, TOK_ID, PU TOK_RPAREN, TOK_EOF]"
  by (intro conjI) code_simp+

lemma format_stops_at_unknown_byte:
  "fmt_format_source (''int a; # int b; // c'' @ [CHR 0x0A]) = ''int a;'' @ [CHR 0x0A] @ ''// c'' @ [CHR 0x0A]"
  "map tk_type (lex_tokens (lex_init (Some (''int a; # int b; // c'' @ [CHR 0x0A])))) =
     [TY TOK_TYPE_INT, TOK_ID, PU TOK_SEMI, TOK_EOF]"
  "tk_start (last (lex_tokens (lex_init (Some (''int a; # int b; // c'' @ [CHR 0x0A]))))) = 7"
  by code_simp+

lemma format_cuts_comment:
  "fmt_format_source (''// a'' @ [CHR 0x0D] @ ''b'' @ [CHR 0x0A]) = ''// a'' @ [CHR 0x0A]"
  by code_simp

text \<open>
  C24: what the formatter drops, for every source that is a C string. Without blanks, the output is
  the byte order mark, the tokens and the comments between them, and the comments of the text from
  the end token on: all other text is dropped. Comments are read as the formatter reads them, a line
  comment ending at the first carriage return or line feed. When every carriage return is part of a
  CRLF pair this is the source up to the end token, followed by the comments of the rest; so what
  stands at and after a byte no token starts with is dropped unless it is in a comment.
\<close>

theorem format_drops_text:
  assumes "c_string src" "ts = lex_tokens (lex_init (Some src))" "p = tk_start (last ts)"
  shows "solid (fmt_format_source src) = solid (take (bom_length src) src) @
      solid (printed src (bom_length src) ts) @ solid (comments (drop p src)) \<and>
    (crlf_ok src \<longrightarrow> solid (fmt_format_source src) = solid (take p src) @ solid (comments (drop p src)))"
proof -
  have good: "good_newline (fmt_init src)" by (simp add: good_newline_def fmt_init_def)
  have "solid (fmt_format_source src) = solid (take (bom_length src) src @ printed src (bom_length src) ts) @
      solid (comments (drop p src))"
    using format_run [OF assms(1,2) fmt_loop_kept [OF good]] assms(3) by blast
  then show ?thesis using format_prefix [OF assms(1) _ assms(2)] assms(3) by simp
qed

theorem format_drops_text_witness:
  "solid (fmt_format_source (''int a; # int b; // c'' @ [CHR 0x0A])) = ''inta;'' @ ''//c'' \<and>
   solid (fmt_format_source (''// a'' @ [CHR 0x0D] @ ''b'' @ [CHR 0x0A])) = ''//a''"
proof -
  let ?s = "''int a; # int b; // c'' @ [CHR 0x0A]" and ?r = "''// a'' @ [CHR 0x0D] @ ''b'' @ [CHR 0x0A]"
  have s: "c_string ?s" "crlf_ok ?s" by code_simp+
  have r: "c_string ?r" by code_simp
  have "solid (take 7 ?s) = ''inta;''" "solid (comments (drop 7 ?s)) = ''//c''" by code_simp+
  then have one: "solid (fmt_format_source ?s) = ''inta;'' @ ''//c''"
    using format_drops_text [OF s(1) refl refl, THEN conjunct2, THEN mp, OF s(2)]
    unfolding format_stops_at_unknown_byte(3) by (simp only:)
  have "solid (take (bom_length ?r) ?r) @ solid (printed ?r (bom_length ?r) (lex_tokens (lex_init (Some ?r)))) @
      solid (comments (drop (tk_start (last (lex_tokens (lex_init (Some ?r))))) ?r)) = ''//a''" by code_simp
  then have "solid (fmt_format_source ?r) = ''//a''" using format_drops_text [OF r refl refl, THEN conjunct1] by (simp only:)
  with one show ?thesis by simp
qed

text \<open>
  a line end after a case label is printed only when the colon directly follows the keyword,
  which a label with a value never does.
\<close>

theorem format_case_labels:
  "fmt_format_source (''Case 1: f();'' @ [CHR 0x0A]) = ''Case 1: f();'' @ [CHR 0x0A] \<and>
   fmt_format_source (''default: f();'' @ [CHR 0x0A]) = ''default:'' @ [CHR 0x0A] @ ''f();'' @ [CHR 0x0A]"
  by (intro conjI) code_simp+

end
