(* ===== verification/Ast.thy ===== *)
theory Ast
  imports Lexer
begin

text \<open>
  The compiler's syntax tree, \<open>apps/kinal/include/kn/ast.h\<close>: types, expressions and statements,
  the resolution records that semantic analysis leaves in them, and the declarations.

  A pointer to a node is an \<open>option\<close>. A list structure (\<open>items\<close>, \<open>count\<close>, \<open>cap\<close>) is the list of
  its items. Statements and parameters carry the
  address under which the bytecode emitter's capture plan identifies them; the pointers to the
  source text, which only diagnostics read, and the unresolved length expression of an array
  type, which only the parser and the validator read, are left out.
\<close>

subsection \<open>Types\<close>

datatype type_kind =
    TY_VOID | TY_BOOL | TY_BYTE | TY_CHAR | TY_INT | TY_FLOAT | TY_F16 | TY_F32 | TY_F64 | TY_F128
  | TY_I8 | TY_I16 | TY_I32 | TY_I64 | TY_U8 | TY_U16 | TY_U32 | TY_U64 | TY_ISIZE | TY_USIZE
  | TY_STRING | TY_ANY | TY_NULL | TY_PTR | TY_ARRAY | TY_PACKAGE | TY_CLASS | TY_STRUCT | TY_ENUM
  | TY_UNKNOWN

text \<open>\<open>type_package_elems\<close> holds \<open>package_count\<close> elements.\<close>

datatype ty = Ty (ty_kind: type_kind) (ty_elem: type_kind) (ty_array_len: int)
  (ty_ptr_depth: int) (ty_name: cstr) (ty_sub: "ty option") (ty_package: "ty list")

definition type_kind_has_name :: "type_kind \<Rightarrow> bool" where
  "type_kind_has_name k \<longleftrightarrow> k = TY_CLASS \<or> k = TY_STRUCT \<or> k = TY_ENUM"

definition type_make :: "type_kind \<Rightarrow> ty" where
  "type_make k = Ty k TY_UNKNOWN 0 0 None None []"

definition type_ptr :: "type_kind \<Rightarrow> ty" where
  "type_ptr elem = Ty TY_PTR elem 0 1 None None []"

definition type_array :: "type_kind \<Rightarrow> int \<Rightarrow> ty" where
  "type_array elem len = Ty TY_ARRAY elem len 0 None None []"

text \<open>
  The copy of a type is deep; a part whose memory is not served is missing in the copy.
\<close>

fun type_clone :: "amem \<Rightarrow> ty \<Rightarrow> ty" where
  "type_clone m (Ty k e al pd nm sub pack) =
     Ty k e al pd nm
       (case sub of None \<Rightarrow> None | Some s \<Rightarrow> (if m 64 then Some (type_clone m s) else None))
       (if pack \<noteq> [] \<and> m (64 * length pack) then map (type_clone m) pack else [])"

definition type_package_of :: "amem \<Rightarrow> ty list \<Rightarrow> ty" where
  "type_package_of m items =
     (if items = [] \<or> \<not> m (64 * length items) then type_make TY_PACKAGE
      else Ty TY_PACKAGE TY_UNKNOWN 0 0 None None (map (type_clone m) items))"

definition type_is_package_placeholder :: "ty \<Rightarrow> bool" where
  "type_is_package_placeholder t \<longleftrightarrow> ty_kind t = TY_PACKAGE \<and> ty_package t = []"

definition type_set_array_elem :: "amem \<Rightarrow> ty \<Rightarrow> ty \<Rightarrow> ty" where
  "type_set_array_elem m t elem =
     (if ty_kind t \<noteq> TY_ARRAY then t
      else Ty TY_ARRAY (ty_kind elem) (ty_array_len t) (ty_ptr_depth t) (ty_name elem)
             (if m 64 then Some (type_clone m elem) else None) (ty_package t))"

definition type_array_of :: "amem \<Rightarrow> ty \<Rightarrow> int \<Rightarrow> ty" where
  "type_array_of m elem len =
     type_set_array_elem m (Ty TY_ARRAY (ty_kind elem) len 0 (ty_name elem) None []) elem"

definition type_immediate_elem :: "amem \<Rightarrow> ty \<Rightarrow> ty" where
  "type_immediate_elem m t =
     (if ty_kind t = TY_PTR \<and> ty_ptr_depth t > 1
      then Ty TY_PTR (ty_elem t) 0 (ty_ptr_depth t - 1) (ty_name t) None []
      else case (ty_kind t, ty_sub t) of
        (TY_ARRAY, Some s) \<Rightarrow> type_clone m s
      | _ \<Rightarrow> Ty (ty_elem t) TY_UNKNOWN 0 0 (ty_name t) None [])"

definition type_class_of :: "cstr \<Rightarrow> ty" where
  "type_class_of name = Ty TY_CLASS TY_UNKNOWN 0 0 name None []"

definition type_struct :: "cstr \<Rightarrow> ty" where
  "type_struct name = Ty TY_STRUCT TY_UNKNOWN 0 0 name None []"

definition type_enum :: "cstr \<Rightarrow> ty" where
  "type_enum name = Ty TY_ENUM TY_UNKNOWN 0 0 name None []"

text \<open>With memory to spare a copy is the type itself.\<close>

lemma type_clone_id [simp]: "type_clone (\<lambda>_. True) t = t"
proof (induction t)
  case (Ty k e al pd nm sub pack)
  have "map (type_clone (\<lambda>_. True)) pack = pack"
    using Ty.IH(2) by (simp add: map_idI)
  then show ?case using Ty.IH(1) by (cases sub) auto
qed

subsection \<open>Resolution records\<close>

datatype access = ACC_PUBLIC | ACC_PRIVATE | ACC_PROTECTED | ACC_INTERNAL

datatype safety = SAFETY_SAFE | SAFETY_TRUSTED | SAFETY_UNSAFE

datatype call_target =
    CALL_UNRESOLVED | CALL_BUILTIN | CALL_FUNCTION | CALL_DELEGATE_KINAL | CALL_DELEGATE_C
  | CALL_STATIC_METHOD | CALL_DIRECT_METHOD | CALL_VIRTUAL_METHOD | CALL_INTERFACE_METHOD

record resolved_call =
  rc_kind :: call_target
  rc_builtin :: int
  rc_symbol :: cstr
  rc_owner :: cstr
  rc_method :: int
  rc_has_receiver :: bool

datatype binary_lowering =
    BIN_UNRESOLVED | BIN_NUMERIC_ARITHMETIC | BIN_STRING_CONCAT | BIN_POINTER_ARITHMETIC
  | BIN_BITWISE | BIN_STRING_EQUALITY | BIN_REFERENCE_EQUALITY | BIN_SCALAR_EQUALITY
  | BIN_NUMERIC_COMPARISON | BIN_LOGICAL_SHORT_CIRCUIT

datatype pointer_side = PTR_NONE | PTR_LHS | PTR_RHS

record resolved_binary =
  rb_kind :: binary_lowering
  rb_lhs :: ty
  rb_rhs :: ty
  rb_side :: pointer_side
  rb_unsigned :: bool
  rb_bits :: int

text \<open>The fields every expression has.\<close>

record expr_info =
  ei_addr :: nat
  ei_line :: int
  ei_col :: int
  ei_type :: ty
  ei_async :: ty
  ei_call :: resolved_call
  ei_binary :: resolved_binary

definition unresolved_binary :: resolved_binary where
  "unresolved_binary = \<lparr> rb_kind = BIN_UNRESOLVED, rb_lhs = type_make TY_UNKNOWN,
     rb_rhs = type_make TY_UNKNOWN, rb_side = PTR_NONE, rb_unsigned = False, rb_bits = 0 \<rparr>"

definition new_expr :: "nat \<Rightarrow> int \<Rightarrow> int \<Rightarrow> expr_info" where
  "new_expr addr line col =
     \<lparr> ei_addr = addr, ei_line = line, ei_col = col, ei_type = type_make TY_UNKNOWN, ei_async = type_make TY_UNKNOWN,
       ei_call = \<lparr> rc_kind = CALL_UNRESOLVED, rc_builtin = -1, rc_symbol = None, rc_owner = None,
                  rc_method = -1, rc_has_receiver = False \<rparr>,
       ei_binary = unresolved_binary \<rparr>"

subsection \<open>Expressions and statements\<close>

record block_record =
  br_name :: cstr
  br_ip :: int
  br_nested_depth :: int

text \<open>
  One constructor per kind, with the fields of the kind's member of the union. The cases of a
  switch are (match, body, is-default) triples.
\<close>

datatype expr =
    EInt (e_info: expr_info) int
  | EFloat (e_info: expr_info) u64
  | EBool (e_info: expr_info) int
  | EChar (e_info: expr_info) int
  | EDefault (e_info: expr_info)
  | ENull (e_info: expr_info)
  | EString (e_info: expr_info) cstr
  | EVar (e_info: expr_info) cstr
  | ECall (e_info: expr_info) (call_name: cstr) "expr option list" (call_arg_names: "cstr list")
      (call_builtin: int) (call_type_args: "ty list")
  | EMemberCall (e_info: expr_info) (mc_recv: "expr option") (mc_name: cstr) "expr option list"
      (mc_arg_names: "cstr list") (mc_builtin: int) (mc_type_args: "ty list") (mc_is_static: bool)
      (mc_static_type: cstr) (mc_method_index: int) (mc_method_owner: cstr) (mc_is_qual: bool)
      (mc_qual_name: cstr)
  | EBinary (e_info: expr_info) token_type "expr option" "expr option"
  | EUnary (e_info: expr_info) token_type "expr option" bool
  | EArray (e_info: expr_info) "expr option list"
  | EPackage (e_info: expr_info) "expr option list"
  | EDict (e_info: expr_info) "expr option list" "expr option list"
  | EAssign (e_info: expr_info) "expr option" "expr option" bool
  | EMember (e_info: expr_info) (em_recv: "expr option") (em_name: cstr) (em_is_static: bool)
      (em_static_type: cstr) (em_field_index: int) (em_field_owner: cstr) (em_is_enum_const: bool)
      (em_enum_value: int) (em_enum_type: cstr)
  | EIndex (e_info: expr_info) "expr option" "expr option" int
  | EIf (e_info: expr_info) "expr option" "expr option" "expr option"
  | ESwitch (e_info: expr_info) "expr option" "(expr option \<times> expr option \<times> bool) list"
  | EIs (e_info: expr_info) "expr option" ty
  | EThis (e_info: expr_info)
  | EBase (e_info: expr_info)
  | ENew (e_info: expr_info) cstr "expr option list" "cstr list" int
  | ECast (e_info: expr_info) ty "expr option" int cstr
  | EFuncRef (e_info: expr_info) cstr int "ty list"
  | EInvoke (e_info: expr_info) "expr option" "expr option list" "cstr list"
  | EAnonFunc (e_info: expr_info) ty "param list" "stmt option" safety cstr cstr int
  | EBlockLit (e_info: expr_info) safety "stmt option" "block_record list" cstr int
  | EAwait (e_info: expr_info) "expr option"
and stmt =
    SBlock (s_addr: nat) "stmt option list"
  | SVar (s_addr: nat) ty cstr "cstr list" "expr option" bool cstr
  | SAssign (s_addr: nat) cstr "expr option"
  | SExpr (s_addr: nat) "expr option"
  | SIf (s_addr: nat) "expr option" "stmt option" "stmt option" cstr bool bool
  | SSwitch (s_addr: nat) "expr option" "(expr option \<times> stmt option \<times> bool) list"
  | SWhile (s_addr: nat) "expr option" "stmt option"
  | SFor (s_addr: nat) "stmt option" "expr option" "expr option" "stmt option"
  | SReturn (s_addr: nat) "expr option"
  | SBreak (s_addr: nat)
  | SContinue (s_addr: nat)
  | STry (s_addr: nat) "stmt option" "stmt option" ty cstr bool
  | SThrow (s_addr: nat) "expr option"
  | SBlockRecord (s_addr: nat) cstr int int
  | SBlockJump (s_addr: nat) "expr option"
and param = Param (p_addr: nat) (p_name: cstr) (p_type: ty) (p_default: "expr option")
  (p_materialized: bool)

text \<open>The sizes by which the walks over the tree end.\<close>

abbreviation expr_measure :: "expr option \<Rightarrow> nat" where
  "expr_measure \<equiv> size_option size"

abbreviation exprs_measure :: "expr option list \<Rightarrow> nat" where
  "exprs_measure \<equiv> size_list (size_option size)"

abbreviation expr_cases_measure :: "(expr option \<times> expr option \<times> bool) list \<Rightarrow> nat" where
  "expr_cases_measure \<equiv> size_list (size_prod (size_option size) (size_prod (size_option size) (\<lambda>_. 0)))"

abbreviation stmt_measure :: "stmt option \<Rightarrow> nat" where
  "stmt_measure \<equiv> size_option size"

abbreviation stmts_measure :: "stmt option list \<Rightarrow> nat" where
  "stmts_measure \<equiv> size_list (size_option size)"

abbreviation stmt_cases_measure :: "(expr option \<times> stmt option \<times> bool) list \<Rightarrow> nat" where
  "stmt_cases_measure \<equiv> size_list (size_prod (size_option size) (size_prod (size_option size) (\<lambda>_. 0)))"

abbreviation params_measure :: "param list \<Rightarrow> nat" where
  "params_measure \<equiv> size_list size"

subsection \<open>Declarations\<close>

record attribute =
  at_name :: cstr
  at_resolved :: cstr
  at_args :: "expr option list"

record func =
  fn_name :: cstr
  fn_qname :: cstr
  fn_ret_type :: ty
  fn_params :: "param list"
  fn_type_params :: "cstr list"
  fn_body :: "stmt option"
  fn_attrs :: "attribute list"
  fn_is_extern :: bool
  fn_is_delegate :: bool
  fn_delegate_abi_c :: bool
  fn_is_static :: bool
  fn_unit :: cstr

record field_decl =
  fd_name :: cstr
  fd_type :: ty
  fd_init :: "expr option"
  fd_is_static :: bool

record method_decl =
  md_name :: cstr
  md_ret_type :: ty
  md_params :: "param list"
  md_body :: "stmt option"
  md_is_static :: bool
  md_is_virtual :: bool
  md_is_override :: bool
  md_is_abstract :: bool
  md_is_constructor :: bool

record class_decl =
  cd_name :: cstr
  cd_qname :: cstr
  cd_base :: cstr
  cd_interfaces :: "cstr list"
  cd_fields :: "field_decl list"
  cd_methods :: "method_decl list"
  cd_unit :: cstr

record interface_decl =
  id_name :: cstr
  id_qname :: cstr
  id_methods :: "method_decl list"
  id_unit :: cstr

record struct_decl =
  sd_name :: cstr
  sd_qname :: cstr
  sd_fields :: "field_decl list"
  sd_unit :: cstr

record enum_decl =
  ed_name :: cstr
  ed_qname :: cstr
  ed_underlying :: ty
  ed_unit :: cstr

end
