(* ===== verification/KncCapture.thy ===== *)
theory KncCapture
  imports Ast
begin

text \<open>
  The capture plan of the bytecode emitter, \<open>apps/kinal/src/kn_knc_capture.c\<close>: which parameters
  and variables of a function body some function or block literal can see, and must therefore
  live in heap cells instead of registers.

  The bindings are numbered in the order they are declared; the C list of all bindings runs from
  the last to the first. The chain of \<open>outer\<close> pointers from a scope is the list of the numbers on
  it, innermost first. A declaration is identified by the address of its statement or parameter,
  \<open>None\<close> for the receiver.
\<close>

record capture_binding =
  cb_declaration :: "nat option"
  cb_name :: cstr
  cb_captured :: bool

record capture_plan =
  cp_bindings :: "capture_binding list"
  cp_scope :: "nat list"

definition declare_binding :: "capture_plan \<Rightarrow> nat option \<Rightarrow> cstr \<Rightarrow> capture_plan" where
  "declare_binding plan declaration name =
     plan\<lparr> cp_bindings := cp_bindings plan @
             [\<lparr> cb_declaration = declaration, cb_name = name, cb_captured = False \<rparr>],
           cp_scope := length (cp_bindings plan) # cp_scope plan \<rparr>"

text \<open>\<open>inner\<close> holds the bindings between the scope and the one looked at.\<close>

fun capture_loop :: "capture_binding list \<Rightarrow> nat list \<Rightarrow> nat list \<Rightarrow> capture_binding list" where
  "capture_loop bs inner [] = bs"
| "capture_loop bs inner (i # outer) =
     (let shadowed = list_ex (\<lambda>j. kn_strcmp (cb_name (bs ! j)) (cb_name (bs ! i)) = 0) inner
      in capture_loop (if shadowed then bs else bs[i := (bs ! i)\<lparr>cb_captured := True\<rparr>])
           (inner @ [i]) outer)"

definition capture_visible_bindings :: "capture_plan \<Rightarrow> capture_plan" where
  "capture_visible_bindings plan =
     plan\<lparr> cp_bindings := capture_loop (cp_bindings plan) [] (cp_scope plan) \<rparr>"

function scan_expression :: "capture_plan \<Rightarrow> expr option \<Rightarrow> capture_plan"
  and scan_expressions :: "capture_plan \<Rightarrow> expr option list \<Rightarrow> capture_plan"
  and scan_expr_cases ::
    "capture_plan \<Rightarrow> (expr option \<times> expr option \<times> bool) list \<Rightarrow> capture_plan" where
  "scan_expression plan None = plan"
| "scan_expression plan (Some (EAnonFunc _ _ _ _ _ _ _ _)) = capture_visible_bindings plan"
| "scan_expression plan (Some (EBlockLit _ _ _ _ _ _)) = capture_visible_bindings plan"
| "scan_expression plan (Some (ECall _ _ args _ _ _)) = scan_expressions plan args"
| "scan_expression plan (Some (EMemberCall _ recv _ args _ _ _ _ _ _ _ _ _)) =
     scan_expressions (scan_expression plan recv) args"
| "scan_expression plan (Some (EInvoke _ callee args _)) =
     scan_expressions (scan_expression plan callee) args"
| "scan_expression plan (Some (EBinary _ _ left right)) =
     scan_expression (scan_expression plan left) right"
| "scan_expression plan (Some (EUnary _ _ e _)) = scan_expression plan e"
| "scan_expression plan (Some (EArray _ items)) = scan_expressions plan items"
| "scan_expression plan (Some (EPackage _ items)) = scan_expressions plan items"
| "scan_expression plan (Some (EDict _ keys values)) =
     scan_expressions (scan_expressions plan keys) values"
| "scan_expression plan (Some (EAssign _ target value _)) =
     scan_expression (scan_expression plan target) value"
| "scan_expression plan (Some (EMember _ recv _ _ _ _ _ _ _ _)) = scan_expression plan recv"
| "scan_expression plan (Some (EIndex _ recv index _)) =
     scan_expression (scan_expression plan recv) index"
| "scan_expression plan (Some (EIf _ cond then_e else_e)) =
     scan_expression (scan_expression (scan_expression plan cond) then_e) else_e"
| "scan_expression plan (Some (ESwitch _ value cases)) =
     scan_expr_cases (scan_expression plan value) cases"
| "scan_expression plan (Some (EIs _ e _)) = scan_expression plan e"
| "scan_expression plan (Some (ENew _ _ args _ _)) = scan_expressions plan args"
| "scan_expression plan (Some (ECast _ _ e _ _)) = scan_expression plan e"
| "scan_expression plan (Some (EAwait _ e)) = scan_expression plan e"
| "scan_expression plan (Some (EInt _ _)) = plan"
| "scan_expression plan (Some (EFloat _ _)) = plan"
| "scan_expression plan (Some (EBool _ _)) = plan"
| "scan_expression plan (Some (EChar _ _)) = plan"
| "scan_expression plan (Some (EDefault _)) = plan"
| "scan_expression plan (Some (ENull _)) = plan"
| "scan_expression plan (Some (EString _ _)) = plan"
| "scan_expression plan (Some (EVar _ _)) = plan"
| "scan_expression plan (Some (EThis _)) = plan"
| "scan_expression plan (Some (EBase _)) = plan"
| "scan_expression plan (Some (EFuncRef _ _ _ _)) = plan"
| "scan_expressions plan [] = plan"
| "scan_expressions plan (e # es) = scan_expressions (scan_expression plan e) es"
| "scan_expr_cases plan [] = plan"
| "scan_expr_cases plan ((match, body, d) # cases) =
     scan_expr_cases (scan_expression (scan_expression plan match) body) cases"
  by pat_completeness auto

termination
  by (relation "measure (case_sum (\<lambda>(_, e). expr_measure e)
        (case_sum (\<lambda>(_, es). exprs_measure es) (\<lambda>(_, cs). expr_cases_measure cs)))") auto

text \<open>\<open>restore plan saved\<close> is \<open>plan->scope = saved\<close>.\<close>

definition restore :: "capture_plan \<Rightarrow> nat list \<Rightarrow> capture_plan" where
  "restore plan saved = plan\<lparr> cp_scope := saved \<rparr>"

function scan_statement :: "capture_plan \<Rightarrow> stmt option \<Rightarrow> capture_plan"
  and scan_statements :: "capture_plan \<Rightarrow> stmt option list \<Rightarrow> capture_plan"
  and scan_stmt_cases :: "capture_plan \<Rightarrow> nat list \<Rightarrow>
    (expr option \<times> stmt option \<times> bool) list \<Rightarrow> capture_plan" where
  "scan_statement plan None = plan"
| "scan_statement plan (Some (SBlock _ stmts)) = restore (scan_statements plan stmts) (cp_scope plan)"
| "scan_statement plan (Some (SVar a _ name _ init _ _)) =
     declare_binding (scan_expression plan init) (Some a) name"
| "scan_statement plan (Some (SAssign _ _ value)) = scan_expression plan value"
| "scan_statement plan (Some (SExpr _ e)) = scan_expression plan e"
| "scan_statement plan (Some (SReturn _ e)) = scan_expression plan e"
| "scan_statement plan (Some (SThrow _ e)) = scan_expression plan e"
| "scan_statement plan (Some (SIf a cond then_s else_s pattern is_const const_value)) =
     (if is_const
      then restore (scan_statement plan (if const_value then then_s else else_s)) (cp_scope plan)
      else
        let p = scan_expression plan cond;
            p = (if pattern \<noteq> None then declare_binding p (Some a) pattern else p);
            p = restore (scan_statement p then_s) (cp_scope plan)
        in restore (scan_statement p else_s) (cp_scope plan))"
| "scan_statement plan (Some (SSwitch _ value cases)) =
     scan_stmt_cases (scan_expression plan value) (cp_scope plan) cases"
| "scan_statement plan (Some (SWhile _ cond body)) =
     restore (scan_statement (scan_expression plan cond) body) (cp_scope plan)"
| "scan_statement plan (Some (SFor _ init cond post body)) =
     restore
       (scan_expression (scan_statement (scan_expression (scan_statement plan init) cond) body) post)
       (cp_scope plan)"
| "scan_statement plan (Some (STry a try_block catch_block _ name has_param)) =
     (let p = restore (scan_statement plan try_block) (cp_scope plan);
          p = (if has_param then declare_binding p (Some a) name else p)
      in restore (scan_statement p catch_block) (cp_scope plan))"
| "scan_statement plan (Some (SBlockJump _ target)) = scan_expression plan target"
| "scan_statement plan (Some (SBreak _)) = plan"
| "scan_statement plan (Some (SContinue _)) = plan"
| "scan_statement plan (Some (SBlockRecord _ _ _ _)) = plan"
| "scan_statements plan [] = plan"
| "scan_statements plan (s # ss) = scan_statements (scan_statement plan s) ss"
| "scan_stmt_cases plan saved [] = plan"
| "scan_stmt_cases plan saved ((match, body, d) # cases) =
     scan_stmt_cases (restore (scan_statement (scan_expression plan match) body) saved) saved cases"
  by pat_completeness auto

termination
  by (relation "measure (case_sum (\<lambda>(_, s). stmt_measure s)
        (case_sum (\<lambda>(_, ss). stmts_measure ss) (\<lambda>(_, _, cs). stmt_cases_measure cs)))") auto

fun declare_params :: "capture_plan \<Rightarrow> param list \<Rightarrow> capture_plan" where
  "declare_params plan [] = plan"
| "declare_params plan (p # ps) =
     declare_params (declare_binding plan (Some (p_addr p)) (p_name p)) ps"

definition knc_capture_plan_create :: "stmt option \<Rightarrow> param list \<Rightarrow> bool \<Rightarrow> capture_plan" where
  "knc_capture_plan_create body params has_receiver =
     (let plan = \<lparr> cp_bindings = [], cp_scope = [] \<rparr>;
          plan = (if has_receiver then declare_binding plan None (Some ''This'') else plan)
      in scan_statement (declare_params plan params) body)"

text \<open>The list of bindings is searched from the last declared.\<close>

fun contains_loop_from :: "capture_binding list \<Rightarrow> nat option \<Rightarrow> bool" where
  "contains_loop_from [] declaration = False"
| "contains_loop_from (b # bs) declaration =
     (if cb_declaration b = declaration then cb_captured b else contains_loop_from bs declaration)"

definition knc_capture_plan_contains :: "capture_plan option \<Rightarrow> nat option \<Rightarrow> bool" where
  "knc_capture_plan_contains plan declaration =
     (case plan of None \<Rightarrow> False
      | Some p \<Rightarrow> contains_loop_from (rev (cp_bindings p)) declaration)"

subsection \<open>Lexical scopes\<close>

text \<open>
  What the plan is to compute: the expressions that hold a literal outside any literal's own
  body, the scopes in which a body has such expressions, and the declarations a scope shows.
\<close>

fun expr_children :: "expr \<Rightarrow> expr option list" where
  "expr_children (ECall _ _ args _ _ _) = args"
| "expr_children (EMemberCall _ recv _ args _ _ _ _ _ _ _ _ _) = recv # args"
| "expr_children (EInvoke _ callee args _) = callee # args"
| "expr_children (EBinary _ _ left right) = [left, right]"
| "expr_children (EUnary _ _ e _) = [e]"
| "expr_children (EArray _ items) = items"
| "expr_children (EPackage _ items) = items"
| "expr_children (EDict _ keys values) = keys @ values"
| "expr_children (EAssign _ target value _) = [target, value]"
| "expr_children (EMember _ recv _ _ _ _ _ _ _ _) = [recv]"
| "expr_children (EIndex _ recv index _) = [recv, index]"
| "expr_children (EIf _ cond then_e else_e) = [cond, then_e, else_e]"
| "expr_children (ESwitch _ value cases) = value # concat (map (\<lambda>(m, b, _). [m, b]) cases)"
| "expr_children (EIs _ e _) = [e]"
| "expr_children (ENew _ _ args _ _) = args"
| "expr_children (ECast _ _ e _ _) = [e]"
| "expr_children (EAwait _ e) = [e]"
| "expr_children _ = []"

inductive closure_in :: "expr \<Rightarrow> bool" where
  closure_func: "closure_in (EAnonFunc i t ps b s dn qn n)"
| closure_block: "closure_in (EBlockLit i s b rs dn n)"
| closure_child: "Some c \<in> set (expr_children e) \<Longrightarrow> closure_in c \<Longrightarrow> closure_in e"

inductive_simps closure_in_simps:
  "closure_in (EAnonFunc i t ps b s dn qn n)" "closure_in (EBlockLit i s b rs dn n)"
  "closure_in (ECall i n as an b t)" "closure_in (EMemberCall i r n as an b t st sty mi mo q qn)"
  "closure_in (EInvoke i c as an)" "closure_in (EBinary i oper l r)" "closure_in (EUnary i oper x pf)"
  "closure_in (EArray i es)" "closure_in (EPackage i es)" "closure_in (EDict i es es2)"
  "closure_in (EAssign i l r c)" "closure_in (EMember i r n st ty fi fo ec ev et)" "closure_in (EIndex i r x n)"
  "closure_in (EIf i c x y)" "closure_in (ESwitch i v cs)" "closure_in (EIs i x t)"
  "closure_in (ENew i n as an c)" "closure_in (ECast i t x mi mo)" "closure_in (EAwait i x)"
  "closure_in (EInt i v)" "closure_in (EFloat i d)" "closure_in (EBool i v)" "closure_in (EChar i v)"
  "closure_in (EDefault i)" "closure_in (ENull i)" "closure_in (EString i n)" "closure_in (EVar i n)"
  "closure_in (EThis i)" "closure_in (EBase i)" "closure_in (EFuncRef i n v t)"

definition has_closure :: "expr option \<Rightarrow> bool" where
  "has_closure e \<longleftrightarrow> (\<exists>x. e = Some x \<and> closure_in x)"

lemma has_closure_simps [simp]:
  "\<not> has_closure None" "has_closure (Some x) \<longleftrightarrow> closure_in x"
  by (simp_all add: has_closure_def)

type_synonym scope_env = "(nat option \<times> cstr) list"

text \<open>The declarations a scope shows: of each name the innermost.\<close>

definition visible :: "scope_env \<Rightarrow> nat option set" where
  "visible env = {fst (env ! k) | k. k < length env \<and>
     (\<forall>j < k. kn_strcmp (snd (env ! j)) (snd (env ! k)) \<noteq> 0)}"

definition scope_at :: "scope_env \<Rightarrow> expr option \<Rightarrow> scope_env list" where
  "scope_at env e = (if has_closure e then [env] else [])"

text \<open>The scopes around the literals of a statement, and the scope after it.\<close>

function closure_scopes :: "scope_env \<Rightarrow> stmt option \<Rightarrow> scope_env list \<times> scope_env"
  and closure_scopes_list :: "scope_env \<Rightarrow> stmt option list \<Rightarrow> scope_env list"
  and closure_scopes_cases ::
    "scope_env \<Rightarrow> (expr option \<times> stmt option \<times> bool) list \<Rightarrow> scope_env list" where
  "closure_scopes env None = ([], env)"
| "closure_scopes env (Some (SBlock _ stmts)) = (closure_scopes_list env stmts, env)"
| "closure_scopes env (Some (SVar a _ name _ init _ _)) = (scope_at env init, (Some a, name) # env)"
| "closure_scopes env (Some (SAssign _ _ value)) = (scope_at env value, env)"
| "closure_scopes env (Some (SExpr _ e)) = (scope_at env e, env)"
| "closure_scopes env (Some (SReturn _ e)) = (scope_at env e, env)"
| "closure_scopes env (Some (SThrow _ e)) = (scope_at env e, env)"
| "closure_scopes env (Some (SIf a cond then_s else_s pattern is_const const_value)) =
     (if is_const then (fst (closure_scopes env (if const_value then then_s else else_s)), env)
      else (scope_at env cond @
            fst (closure_scopes (if pattern \<noteq> None then (Some a, pattern) # env else env) then_s) @
            fst (closure_scopes env else_s), env))"
| "closure_scopes env (Some (SSwitch _ value cases)) =
     (scope_at env value @ closure_scopes_cases env cases, env)"
| "closure_scopes env (Some (SWhile _ cond body)) =
     (scope_at env cond @ fst (closure_scopes env body), env)"
| "closure_scopes env (Some (SFor _ init cond post body)) =
     (let (scopes, inner) = closure_scopes env init; (scopes2, inner2) = closure_scopes inner body
      in (scopes @ scope_at inner cond @ scopes2 @ scope_at inner2 post, env))"
| "closure_scopes env (Some (STry a try_block catch_block _ name has_param)) =
     (fst (closure_scopes env try_block) @
      fst (closure_scopes (if has_param then (Some a, name) # env else env) catch_block), env)"
| "closure_scopes env (Some (SBlockJump _ target)) = (scope_at env target, env)"
| "closure_scopes env (Some (SBreak _)) = ([], env)"
| "closure_scopes env (Some (SContinue _)) = ([], env)"
| "closure_scopes env (Some (SBlockRecord _ _ _ _)) = ([], env)"
| "closure_scopes_list env [] = []"
| "closure_scopes_list env (s # ss) =
     (let (scopes, inner) = closure_scopes env s in scopes @ closure_scopes_list inner ss)"
| "closure_scopes_cases env [] = []"
| "closure_scopes_cases env ((match, body, d) # cases) =
     scope_at env match @ fst (closure_scopes env body) @ closure_scopes_cases env cases"
  by pat_completeness auto

termination
  by (relation "measure (case_sum (\<lambda>(_, s). stmt_measure s)
        (case_sum (\<lambda>(_, ss). stmts_measure ss) (\<lambda>(_, cs). stmt_cases_measure cs)))") auto

definition initial_scope :: "param list \<Rightarrow> bool \<Rightarrow> scope_env" where
  "initial_scope params has_receiver =
     rev (map (\<lambda>p. (Some (p_addr p), p_name p)) params) @
     (if has_receiver then [(None, Some ''This'')] else [])"

end
