(* ===== verification/KncCaptureProps.thy ===== *)
theory KncCaptureProps
  imports KncCapture
begin

text \<open>
  The capture plan is exact: a declaration is planned as captured exactly when it is visible, as
  the innermost of its name, at some literal of the body.
\<close>

subsection \<open>Marking the visible bindings\<close>

definition key_of :: "capture_binding \<Rightarrow> nat option \<times> cstr" where
  "key_of b = (cb_declaration b, cb_name b)"

definition plan_env :: "capture_plan \<Rightarrow> scope_env" where
  "plan_env p = map (\<lambda>i. key_of (cp_bindings p ! i)) (cp_scope p)"

definition plan_ok :: "capture_plan \<Rightarrow> bool" where
  "plan_ok p \<longleftrightarrow> (\<forall>i \<in> set (cp_scope p). i < length (cp_bindings p))"

definition captured_keys :: "capture_plan \<Rightarrow> nat option set" where
  "captured_keys p = cb_declaration ` {b \<in> set (cp_bindings p). cb_captured b}"

lemma key_of_captured [simp]: "key_of (b\<lparr>cb_captured := c\<rparr>) = key_of b"
  by (simp add: key_of_def)

lemma map_key_update [simp]:
  "i < length bs \<Longrightarrow> map key_of (bs[i := (bs ! i)\<lparr>cb_captured := c\<rparr>]) = map key_of bs"
  by (simp add: map_update list_update_same_conv)

lemma capture_loop_keys:
  "\<forall>i \<in> set rest. i < length bs \<Longrightarrow> map key_of (capture_loop bs inner rest) = map key_of bs"
  by (induction bs inner rest rule: capture_loop.induct) (auto simp: Let_def)

lemma capture_loop_length:
  "\<forall>i \<in> set rest. i < length bs \<Longrightarrow> length (capture_loop bs inner rest) = length bs"
  using capture_loop_keys by (metis length_map)

lemma name_update [simp]:
  "cb_name (bs[i := (bs ! i)\<lparr>cb_captured := c\<rparr>] ! j) = cb_name (bs ! j)"
proof (cases "i = j")
  case True
  then show ?thesis by (cases "i < length bs") (simp_all add: list_update_beyond)
qed simp

lemma capture_loop_captured:
  assumes "\<forall>i \<in> set rest. i < length bs" "i < length bs"
  shows "cb_captured (capture_loop bs inner rest ! i) \<longleftrightarrow> cb_captured (bs ! i) \<or>
    (\<exists>k < length rest. rest ! k = i \<and>
       \<not> (\<exists>j \<in> set (inner @ take k rest). kn_strcmp (cb_name (bs ! j)) (cb_name (bs ! i)) = 0))"
  using assms
proof (induction bs inner rest arbitrary: i rule: capture_loop.induct)
  case (2 bs inner x outer)
  define shadowed where
    "shadowed = list_ex (\<lambda>j. kn_strcmp (cb_name (bs ! j)) (cb_name (bs ! x)) = 0) inner"
  define bs' where "bs' = (if shadowed then bs else bs[x := (bs ! x)\<lparr>cb_captured := True\<rparr>])"
  have len: "length bs' = length bs" by (simp add: bs'_def)
  have nm: "cb_name (bs' ! j) = cb_name (bs ! j)" for j by (simp add: bs'_def)
  have cap: "cb_captured (bs' ! i) \<longleftrightarrow> cb_captured (bs ! i) \<or> (x = i \<and> \<not> shadowed)"
    using "2.prems" by (auto simp: bs'_def nth_list_update)
  have step: "capture_loop bs inner (x # outer) = capture_loop bs' (inner @ [x]) outer"
    by (simp add: bs'_def shadowed_def Let_def)
  have "cb_captured (capture_loop bs' (inner @ [x]) outer ! i) \<longleftrightarrow> cb_captured (bs' ! i) \<or>
    (\<exists>k < length outer. outer ! k = i \<and> \<not> (\<exists>j \<in> set ((inner @ [x]) @ take k outer).
       kn_strcmp (cb_name (bs' ! j)) (cb_name (bs' ! i)) = 0))"
    unfolding bs'_def shadowed_def using "2.prems"
    by (intro "2.IH") auto
  then show ?case
    unfolding step nm cap
    by (simp add: Ex_less_Suc2 shadowed_def list_ex_iff) blast
qed simp

lemma visible_plan:
  "d \<in> visible (plan_env p) \<longleftrightarrow> (\<exists>k < length (cp_scope p).
     d = cb_declaration (cp_bindings p ! (cp_scope p ! k)) \<and>
     \<not> (\<exists>j \<in> set (take k (cp_scope p)). kn_strcmp (cb_name (cp_bindings p ! j))
          (cb_name (cp_bindings p ! (cp_scope p ! k))) = 0))"
proof -
  let ?n = "\<lambda>i. cb_name (cp_bindings p ! i)"
  have env: "plan_env p ! k = key_of (cp_bindings p ! (cp_scope p ! k))" if "k < length (cp_scope p)" for k
    using that by (simp add: plan_env_def)
  have pre: "(\<forall>j < k. P (snd (plan_env p ! j))) \<longleftrightarrow> (\<forall>j \<in> set (take k (cp_scope p)). P (?n j))"
    if "k < length (cp_scope p)" for k P
  proof -
    have "set (take k (cp_scope p)) = (\<lambda>j. cp_scope p ! j) ` {..<k}"
      using that nth_image [of k "cp_scope p"] by (simp add: atLeast0LessThan)
    then show ?thesis using that by (auto simp: env key_of_def)
  qed
  have len: "length (plan_env p) = length (cp_scope p)" by (simp add: plan_env_def)
  have each: "d = fst (plan_env p ! k) \<and> k < length (plan_env p) \<and>
      (\<forall>j < k. kn_strcmp (snd (plan_env p ! j)) (snd (plan_env p ! k)) \<noteq> 0) \<longleftrightarrow>
    k < length (cp_scope p) \<and> d = cb_declaration (cp_bindings p ! (cp_scope p ! k)) \<and>
      \<not> (\<exists>j \<in> set (take k (cp_scope p)). kn_strcmp (?n j) (?n (cp_scope p ! k)) = 0)" for k
  proof (cases "k < length (cp_scope p)")
    case True
    show ?thesis
      using pre [OF True, of "\<lambda>n. kn_strcmp n (?n (cp_scope p ! k)) \<noteq> 0"] True
      by (simp add: len env key_of_def)
  qed (simp add: len)
  show ?thesis
    unfolding visible_def mem_Collect_eq each ..
qed

lemma capture_visible_simps [simp]:
  "cp_scope (capture_visible_bindings p) = cp_scope p"
  "plan_ok p \<Longrightarrow> length (cp_bindings (capture_visible_bindings p)) = length (cp_bindings p)"
  "plan_ok p \<Longrightarrow> plan_ok (capture_visible_bindings p)"
  "plan_ok p \<Longrightarrow> map key_of (cp_bindings (capture_visible_bindings p)) = map key_of (cp_bindings p)"
  by (simp_all add: capture_visible_bindings_def plan_ok_def capture_loop_length capture_loop_keys)

lemma key_nth:
  "map key_of bs = map key_of bs' \<Longrightarrow> i < length bs \<Longrightarrow> key_of (bs ! i) = key_of (bs' ! i)"
  by (metis length_map nth_map)

lemma plan_env_keys:
  assumes "map key_of (cp_bindings p) = map key_of (cp_bindings q)" "cp_scope p = cp_scope q" "plan_ok p"
  shows "plan_env p = plan_env q"
  using key_nth [OF assms(1)] assms(2,3) by (auto simp: plan_env_def plan_ok_def)

lemma capture_visible_env [simp]:
  assumes "plan_ok p"
  shows "plan_env (capture_visible_bindings p) = plan_env p"
  using assms by (intro plan_env_keys) auto

lemma capture_visible_captured:
  assumes "plan_ok p" "i < length (cp_bindings p)"
  shows "cb_captured (cp_bindings (capture_visible_bindings p) ! i) \<longleftrightarrow> cb_captured (cp_bindings p ! i) \<or>
    (\<exists>k < length (cp_scope p). cp_scope p ! k = i \<and> \<not> (\<exists>j \<in> set (take k (cp_scope p)).
       kn_strcmp (cb_name (cp_bindings p ! j)) (cb_name (cp_bindings p ! i)) = 0))"
  using capture_loop_captured [of "cp_scope p" "cp_bindings p" i "[]"] assms
  by (simp add: capture_visible_bindings_def plan_ok_def)

lemma binding_eqI:
  "key_of a = key_of b \<Longrightarrow> cb_captured a = cb_captured b \<Longrightarrow> a = (b :: capture_binding)"
  by (cases a; cases b) (simp add: key_of_def)

lemma capture_visible_idem [simp]:
  assumes "plan_ok p"
  shows "capture_visible_bindings (capture_visible_bindings p) = capture_visible_bindings p"
proof -
  let ?q = "capture_visible_bindings p"
  have ok: "plan_ok ?q" using assms by simp
  have nm: "cb_name (cp_bindings ?q ! i) = cb_name (cp_bindings p ! i)"
    if "i < length (cp_bindings p)" for i
    using key_nth [of "cp_bindings ?q" "cp_bindings p" i] assms that by (simp add: key_of_def)
  have "cp_bindings (capture_visible_bindings ?q) = cp_bindings ?q"
  proof (rule nth_equalityI)
    fix i assume "i < length (cp_bindings (capture_visible_bindings ?q))"
    then have i: "i < length (cp_bindings ?q)" "i < length (cp_bindings p)" using assms ok by simp_all
    have "cb_captured (cp_bindings (capture_visible_bindings ?q) ! i) = cb_captured (cp_bindings ?q ! i)"
    proof -
      have sc: "j < length (cp_bindings p)" if "j \<in> set (take k (cp_scope p))" for j k
        using that assms in_set_takeD unfolding plan_ok_def by fastforce
      show ?thesis
        unfolding capture_visible_captured [OF ok i(1)] capture_visible_captured [OF assms i(2)]
        by (simp add: nm [OF i(2)]) (metis nm sc)
    qed
    moreover have "key_of (cp_bindings (capture_visible_bindings ?q) ! i) = key_of (cp_bindings ?q ! i)"
      using key_nth [of "cp_bindings (capture_visible_bindings ?q)" "cp_bindings ?q" i] ok i by simp
    ultimately show "cp_bindings (capture_visible_bindings ?q) ! i = cp_bindings ?q ! i"
      by (intro binding_eqI)
  qed (use assms ok in simp)
  then show ?thesis by (simp add: capture_visible_bindings_def)
qed

lemma captured_keys_visible:
  assumes "plan_ok p"
  shows "captured_keys (capture_visible_bindings p) = captured_keys p \<union> visible (plan_env p)"
proof -
  let ?q = "capture_visible_bindings p"
  have keys: "x \<in> captured_keys r \<longleftrightarrow> (\<exists>i < length (cp_bindings r). cb_captured (cp_bindings r ! i) \<and>
      cb_declaration (cp_bindings r ! i) = x)" for x r
    by (force simp: captured_keys_def in_set_conv_nth)
  have decl: "cb_declaration (cp_bindings ?q ! i) = cb_declaration (cp_bindings p ! i)"
    if "i < length (cp_bindings p)" for i
    using key_nth [of "cp_bindings ?q" "cp_bindings p" i] assms that by (simp add: key_of_def)
  have sc: "cp_scope p ! k < length (cp_bindings p)" if "k < length (cp_scope p)" for k
    using assms that by (simp add: plan_ok_def)
  show ?thesis
  proof (rule set_eqI)
    fix x
    have "x \<in> captured_keys ?q \<longleftrightarrow> (\<exists>i < length (cp_bindings p).
        cb_captured (cp_bindings ?q ! i) \<and> cb_declaration (cp_bindings p ! i) = x)"
      unfolding keys using decl assms by auto
    also have "\<dots> \<longleftrightarrow> x \<in> captured_keys p \<or> x \<in> visible (plan_env p)"
      unfolding keys visible_plan using capture_visible_captured [OF assms] sc by blast
    finally show "x \<in> captured_keys ?q \<longleftrightarrow> x \<in> captured_keys p \<union> visible (plan_env p)" by blast
  qed
qed

subsection \<open>Expressions\<close>

definition mark_if :: "bool \<Rightarrow> capture_plan \<Rightarrow> capture_plan" where
  "mark_if c p = (if c then capture_visible_bindings p else p)"

lemma mark_if_simps [simp]:
  "mark_if False p = p" "mark_if True p = capture_visible_bindings p"
  "plan_ok p \<Longrightarrow> mark_if a (mark_if b p) = mark_if (a \<or> b) p"
  "plan_ok p \<Longrightarrow> plan_ok (mark_if c p)"
  by (simp_all add: mark_if_def)

lemma closure_in_not_literal:
  "(\<And>i t ps b s dn qn n. e \<noteq> EAnonFunc i t ps b s dn qn n) \<Longrightarrow> (\<And>i s b rs dn n. e \<noteq> EBlockLit i s b rs dn n) \<Longrightarrow>
   closure_in e \<longleftrightarrow> (\<exists>c \<in> set (expr_children e). has_closure c)"
  by (subst closure_in.simps) (auto simp: has_closure_def)

definition cases_closure :: "(expr option \<times> expr option \<times> bool) list \<Rightarrow> bool" where
  "cases_closure cs \<longleftrightarrow> (\<exists>(m, b, d) \<in> set cs. has_closure m \<or> has_closure b)"

lemma scan_expression_marks:
  "plan_ok p \<Longrightarrow> scan_expression p e = mark_if (has_closure e) p"
  "plan_ok p \<Longrightarrow> scan_expressions p es = mark_if (\<exists>e \<in> set es. has_closure e) p"
  "plan_ok p \<Longrightarrow> scan_expr_cases p cs = mark_if (cases_closure cs) p"
  by (induction p e and p es and p cs rule: scan_expression_scan_expressions_scan_expr_cases.induct)
     (simp_all add: closure_in_not_literal closure_func closure_block cases_closure_def ac_simps
       split_beta ex_disj_distrib bex_Un)

subsection \<open>Statements\<close>

lemma captured_keys_mark [simp]:
  assumes "plan_ok p"
  shows "captured_keys (mark_if (has_closure e) p) =
    captured_keys p \<union> \<Union> (visible ` set (scope_at (plan_env p) e))"
  using captured_keys_visible [OF assms] by (simp add: mark_if_def scope_at_def)

lemma mark_keeps [simp]:
  "cp_scope (mark_if c p) = cp_scope p"
  "plan_ok p \<Longrightarrow> map key_of (cp_bindings (mark_if c p)) = map key_of (cp_bindings p)"
  "plan_ok p \<Longrightarrow> plan_env (mark_if c p) = plan_env p"
  by (simp_all add: mark_if_def)

lemma declare_simps [simp]:
  "plan_ok p \<Longrightarrow> plan_ok (declare_binding p d n)"
  "plan_ok p \<Longrightarrow> plan_env (declare_binding p d n) = (d, n) # plan_env p"
  "captured_keys (declare_binding p d n) = captured_keys p"
  by (auto simp: declare_binding_def plan_ok_def plan_env_def captured_keys_def key_of_def nth_append)

text \<open>
  A plan \<open>q\<close> grown out of \<open>p\<close>: bindings are only added and marked, so a scope of \<open>p\<close> means the
  same in \<open>q\<close>.
\<close>

definition grows :: "capture_plan \<Rightarrow> capture_plan \<Rightarrow> bool" where
  "grows p q \<longleftrightarrow> (\<exists>more. map key_of (cp_bindings q) = map key_of (cp_bindings p) @ more)"

lemma grows_refl [simp]: "grows p p"
  by (simp add: grows_def)

lemma grows_trans [trans]: "grows p q \<Longrightarrow> grows q r \<Longrightarrow> grows p r"
  by (auto simp: grows_def)

lemma grows_steps [simp]:
  "plan_ok p \<Longrightarrow> grows p (mark_if c p)"
  "grows p (declare_binding p d n)"
  "grows p (restore q s) = grows p q"
  by (simp_all add: grows_def declare_binding_def restore_def)

lemma restore_simps [simp]:
  "captured_keys (restore q s) = captured_keys q"
  "cp_scope (restore q s) = s"
  by (simp_all add: captured_keys_def restore_def)

lemma grows_length: "grows p q \<Longrightarrow> length (cp_bindings p) \<le> length (cp_bindings q)"
  unfolding grows_def by (metis length_append length_map le_add1)

lemma grows_restore:
  assumes "plan_ok p" "grows p q"
  shows "plan_ok (restore q (cp_scope p))" "plan_env (restore q (cp_scope p)) = plan_env p"
proof -
  have lt: "i < length (cp_bindings p)" if "i \<in> set (cp_scope p)" for i
    using assms(1) that by (simp add: plan_ok_def)
  show "plan_ok (restore q (cp_scope p))"
    using lt grows_length [OF assms(2)] by (force simp: plan_ok_def restore_def)
  obtain more where m: "map key_of (cp_bindings q) = map key_of (cp_bindings p) @ more"
    using assms(2) by (auto simp: grows_def)
  have "key_of (cp_bindings q ! i) = key_of (cp_bindings p ! i)" if "i \<in> set (cp_scope p)" for i
  proof -
    have "key_of (cp_bindings q ! i) = map key_of (cp_bindings q) ! i"
      using lt [OF that] grows_length [OF assms(2)] by simp
    also have "\<dots> = key_of (cp_bindings p ! i)"
      using lt [OF that] by (simp add: m nth_append)
    finally show ?thesis .
  qed
  then show "plan_env (restore q (cp_scope p)) = plan_env p"
    by (simp add: plan_env_def restore_def)
qed

text \<open>The effect of a scan: \<open>q\<close> comes from \<open>p\<close>, marking what the scopes in \<open>L\<close> show.\<close>

definition scanned :: "capture_plan \<Rightarrow> scope_env list \<Rightarrow> capture_plan \<Rightarrow> bool" where
  "scanned p L q \<longleftrightarrow> plan_ok q \<and> grows p q \<and>
     captured_keys q = captured_keys p \<union> \<Union> (visible ` set L)"

lemma scanned_refl: "plan_ok p \<Longrightarrow> scanned p [] p"
  by (simp add: scanned_def)

lemma scanned_trans: "scanned p L q \<Longrightarrow> scanned q M r \<Longrightarrow> scanned p (L @ M) r"
  by (auto simp: scanned_def intro: grows_trans)

lemma scanned_expr: "plan_ok p \<Longrightarrow> scanned p (scope_at (plan_env p) e) (scan_expression p e)"
  by (simp add: scanned_def scan_expression_marks)

lemma scan_expr_env:
  "plan_ok p \<Longrightarrow> plan_ok (scan_expression p e)"
  "plan_ok p \<Longrightarrow> plan_env (scan_expression p e) = plan_env p"
  "plan_ok p \<Longrightarrow> cp_scope (scan_expression p e) = cp_scope p"
  by (simp_all add: scan_expression_marks)

lemma scanned_declare: "scanned p L q \<Longrightarrow> scanned p L (declare_binding q d n)"
  by (auto simp: scanned_def intro: grows_trans)

lemma scanned_restore:
  "scanned p L q \<Longrightarrow> plan_ok p \<Longrightarrow> scanned p L (restore q (cp_scope p))"
  by (simp add: scanned_def grows_restore)

lemma scanned_restore_env:
  "scanned p L q \<Longrightarrow> plan_ok p \<Longrightarrow> plan_env (restore q (cp_scope p)) = plan_env p"
  by (simp add: scanned_def grows_restore)

lemma scanned_ok: "scanned p L q \<Longrightarrow> plan_ok q"
  by (simp add: scanned_def)

lemma scanned_restore_ok:
  "scanned p L q \<Longrightarrow> plan_ok p \<Longrightarrow> plan_ok (restore q (cp_scope p))"
  by (simp add: scanned_def grows_restore)

lemmas scan_facts = scanned_refl scanned_expr scanned_ok scan_expr_env scanned_restore
  scanned_restore_env scanned_restore_ok grows_restore

lemma scan_statement_scanned:
  "plan_ok p \<Longrightarrow> scanned p (fst (closure_scopes (plan_env p) s)) (scan_statement p s) \<and>
     plan_env (scan_statement p s) = snd (closure_scopes (plan_env p) s)"
  "plan_ok p \<Longrightarrow> scanned p (closure_scopes_list (plan_env p) ss) (scan_statements p ss)"
  "plan_ok p \<Longrightarrow> saved = cp_scope p \<Longrightarrow>
     scanned p (closure_scopes_cases (plan_env p) cs) (scan_stmt_cases p saved cs) \<and>
     plan_env (scan_stmt_cases p saved cs) = plan_env p"
proof (induction p s and p ss and p saved cs
    rule: scan_statement_scan_statements_scan_stmt_cases.induct)
  case (2 plan a stmts)
  then show ?case by (simp add: scan_facts)
next
  case (3 plan a t name pf init c u)
  then show ?case by (simp add: scan_facts scanned_declare)
next
  case (8 plan a cond then_s else_s pattern is_const const_value)
  show ?case
  proof (cases is_const)
    case True
    then show ?thesis using 8 by (auto simp: scan_facts)
  next
    case False
    let ?p1 = "scan_expression plan cond"
    let ?p2 = "if pattern \<noteq> None then declare_binding ?p1 (Some a) pattern else ?p1"
    let ?env = "if pattern \<noteq> None then (Some a, pattern) # plan_env plan else plan_env plan"
    let ?p3 = "restore (scan_statement ?p2 then_s) (cp_scope plan)"
    have s2: "scanned plan (scope_at (plan_env plan) cond) ?p2"
      using "8.prems" by (simp add: scan_facts scanned_declare)
    have e2: "plan_env ?p2 = ?env" "plan_ok ?p2"
      using "8.prems" by (simp_all add: scan_facts)
    have "scanned ?p2 (fst (closure_scopes ?env then_s)) (scan_statement ?p2 then_s)"
      using "8.IH"(2) [OF False refl refl] e2 by simp
    from scanned_trans [OF s2 this]
    have s3: "scanned plan (scope_at (plan_env plan) cond @ fst (closure_scopes ?env then_s)) ?p3"
      and e3: "plan_env ?p3 = plan_env plan" "plan_ok ?p3"
      using "8.prems" by (auto intro: scanned_restore scanned_restore_env scanned_restore_ok scanned_ok)
    have "scanned ?p3 (fst (closure_scopes (plan_env plan) else_s)) (scan_statement ?p3 else_s)"
      using "8.IH"(3) [OF False refl refl refl] e3 by simp
    from scanned_trans [OF s3 this] show ?thesis
      using False "8.prems" by (simp add: Let_def scanned_restore scanned_restore_env)
  qed
next
  case (9 plan a v cases)
  let ?p1 = "scan_expression plan v"
  have "scanned ?p1 (closure_scopes_cases (plan_env plan) cases) (scan_stmt_cases ?p1 (cp_scope plan) cases)
      \<and> plan_env (scan_stmt_cases ?p1 (cp_scope plan) cases) = plan_env plan"
    using 9 by (simp add: scan_facts)
  then show ?case using scanned_trans [OF scanned_expr [OF "9.prems", of v]] by simp
next
  case (10 plan a cond body)
  let ?p1 = "scan_expression plan cond"
  have "scanned ?p1 (fst (closure_scopes (plan_env plan) body)) (scan_statement ?p1 body)"
    using 10 by (simp add: scan_facts)
  from scanned_trans [OF scanned_expr [OF "10.prems", of cond] this]
  show ?case using "10.prems" by (simp add: scan_facts)
next
  case (11 plan a init cond post body)
  let ?p1 = "scan_statement plan init"
  let ?p2 = "scan_expression ?p1 cond"
  let ?p3 = "scan_statement ?p2 body"
  obtain L1 inner where c1: "closure_scopes (plan_env plan) init = (L1, inner)" by fastforce
  obtain L2 inner2 where c2: "closure_scopes inner body = (L2, inner2)" by fastforce
  have 1: "scanned plan L1 ?p1" "plan_env ?p1 = inner" "plan_ok ?p1"
    using "11.IH"(1) "11.prems" c1 by (auto intro: scanned_ok)
  have 2: "scanned ?p1 (scope_at inner cond) ?p2" "plan_env ?p2 = inner" "plan_ok ?p2"
    using 1 scanned_expr [OF 1(3)] by (simp_all add: scan_facts)
  have 3: "scanned ?p2 L2 ?p3" "plan_env ?p3 = inner2" "plan_ok ?p3"
    using "11.IH"(2) 2 c2 by (auto intro: scanned_ok)
  have 4: "scanned ?p3 (scope_at inner2 post) (scan_expression ?p3 post)"
    using scanned_expr [OF 3(3)] 3(2) by simp
  from scanned_trans [OF 1(1) scanned_trans [OF 2(1) scanned_trans [OF 3(1) 4]]]
  show ?case using "11.prems" c1 c2 by (simp add: scan_facts)
next
  case (12 plan a try_block catch_block t name has_param)
  let ?p1 = "restore (scan_statement plan try_block) (cp_scope plan)"
  let ?p2 = "if has_param then declare_binding ?p1 (Some a) name else ?p1"
  let ?env = "if has_param then (Some a, name) # plan_env plan else plan_env plan"
  have s1: "scanned plan (fst (closure_scopes (plan_env plan) try_block)) ?p1"
    "plan_env ?p1 = plan_env plan" "plan_ok ?p1"
    using 12 by (auto intro: scanned_restore scanned_restore_env scanned_restore_ok scanned_ok)
  have s2: "scanned plan (fst (closure_scopes (plan_env plan) try_block)) ?p2"
    "plan_env ?p2 = ?env" "plan_ok ?p2"
    using s1 by (simp_all add: scanned_declare)
  have "scanned ?p2 (fst (closure_scopes ?env catch_block)) (scan_statement ?p2 catch_block)"
    using "12.IH"(2) [OF refl refl] s2 by simp
  from scanned_trans [OF s2(1) this] show ?case
    using "12.prems" by (simp add: Let_def scan_facts)
next
  case (18 plan s ss)
  obtain L inner where c: "closure_scopes (plan_env plan) s = (L, inner)" by fastforce
  have 1: "scanned plan L (scan_statement plan s)" "plan_env (scan_statement plan s) = inner"
    using 18 c by simp_all
  then have "scanned (scan_statement plan s) (closure_scopes_list inner ss) (scan_statements plan (s # ss))"
    using "18.IH"(2) scanned_ok by fastforce
  with 1 c show ?case by (simp add: scanned_trans del: scan_statements.simps)
next
  case (20 plan saved match body d cases)
  let ?p1 = "scan_expression plan match"
  let ?p2 = "restore (scan_statement ?p1 body) saved"
  have 1: "scanned plan (scope_at (plan_env plan) match) ?p1" "plan_env ?p1 = plan_env plan" "plan_ok ?p1"
    "cp_scope ?p1 = cp_scope plan"
    using "20.prems" by (simp_all add: scan_facts)
  have "scanned ?p1 (fst (closure_scopes (plan_env plan) body)) (scan_statement ?p1 body)"
    using "20.IH"(1) 1 by simp
  from scanned_trans [OF 1(1) this]
  have 2: "scanned plan (scope_at (plan_env plan) match @ fst (closure_scopes (plan_env plan) body)) ?p2"
    "plan_env ?p2 = plan_env plan" "plan_ok ?p2" "cp_scope ?p2 = saved"
    using "20.prems" by (auto intro: scanned_restore scanned_restore_env scanned_restore_ok scanned_ok)
  have "scanned ?p2 (closure_scopes_cases (plan_env plan) cases) (scan_stmt_cases ?p2 saved cases)
      \<and> plan_env (scan_stmt_cases ?p2 saved cases) = plan_env plan"
    using "20.IH"(2) 2 by simp
  then show ?case using scanned_trans [OF 2(1)] by fastforce
qed (simp_all add: scan_facts)

subsection \<open>The plan of a function\<close>

lemma contains_loop_from_iff:
  "distinct (map cb_declaration bs) \<Longrightarrow>
   contains_loop_from bs d \<longleftrightarrow> d \<in> cb_declaration ` {b \<in> set bs. cb_captured b}"
  by (induction bs) auto

lemma declare_params_env:
  "plan_ok p \<Longrightarrow> plan_ok (declare_params p ps) \<and>
   plan_env (declare_params p ps) = rev (map (\<lambda>q. (Some (p_addr q), p_name q)) ps) @ plan_env p \<and>
   captured_keys (declare_params p ps) = captured_keys p"
  by (induction p ps rule: declare_params.induct) auto

lemma plan_create_scanned:
  "captured_keys (knc_capture_plan_create body params has_receiver) =
     \<Union> (visible ` set (fst (closure_scopes (initial_scope params has_receiver) body)))"
proof -
  define p0 where "p0 = (let plan = \<lparr> cp_bindings = [], cp_scope = [] \<rparr>
    in if has_receiver then declare_binding plan None (Some ''This'') else plan)"
  have p0: "plan_ok p0" "plan_env p0 = (if has_receiver then [(None, Some ''This'')] else [])"
    "captured_keys p0 = {}"
    by (cases has_receiver; auto simp: p0_def plan_ok_def plan_env_def captured_keys_def
        declare_binding_def key_of_def Let_def)+
  let ?p = "declare_params p0 params"
  have p: "plan_ok ?p" "plan_env ?p = initial_scope params has_receiver" "captured_keys ?p = {}"
    using declare_params_env [OF p0(1), of params] p0 by (simp_all add: initial_scope_def)
  have "knc_capture_plan_create body params has_receiver = scan_statement ?p body"
    by (simp add: knc_capture_plan_create_def p0_def Let_def)
  with scan_statement_scanned(1) [OF p(1), of body] p show ?thesis by (simp add: scanned_def)
qed

text \<open>
  C3: The capture plan of a function marks a declaration exactly when some function or block
  literal of the body stands in its scope and no inner declaration of the same name hides it
  there. The declarations of a function have different addresses.
\<close>

theorem capture_plan_exact:
  assumes "distinct (map cb_declaration (cp_bindings (knc_capture_plan_create body params has_receiver)))"
  shows "knc_capture_plan_contains (Some (knc_capture_plan_create body params has_receiver)) d \<longleftrightarrow>
    (\<exists>scope \<in> set (fst (closure_scopes (initial_scope params has_receiver) body)). d \<in> visible scope)"
  using contains_loop_from_iff [of "rev (cp_bindings (knc_capture_plan_create body params has_receiver))" d]
    plan_create_scanned [of body params has_receiver] assms
  by (auto simp: knc_capture_plan_contains_def captured_keys_def rev_map [symmetric])

text \<open>
  A parameter \<open>x\<close> hidden by a variable \<open>x\<close> of an inner block, in which a function literal
  stands: the variable is captured, the parameter is not.
\<close>

definition capture_example :: "stmt option" where
  "capture_example = (let i = new_expr 13 1 1; t = type_make TY_INT in
     Some (SBlock 10 [Some (SVar 11 t (Some ''x'') [] (Some (EInt i 1)) False None),
       Some (SReturn 12 (Some (EAnonFunc i t [] None SAFETY_SAFE None None 0)))]))"

theorem capture_plan_exact_witness:
  "knc_capture_plan_contains (Some (knc_capture_plan_create capture_example
       [Param 5 (Some ''x'') (type_make TY_INT) None False] True)) (Some 11) \<and>
   \<not> knc_capture_plan_contains (Some (knc_capture_plan_create capture_example
       [Param 5 (Some ''x'') (type_make TY_INT) None False] True)) (Some 5)"
proof -
  let ?ps = "[Param 5 (Some ''x'') (type_make TY_INT) None False]"
  have d: "distinct (map cb_declaration (cp_bindings (knc_capture_plan_create capture_example ?ps True)))"
    by code_simp
  have scopes: "fst (closure_scopes (initial_scope ?ps True) capture_example) =
      [[(Some 11, Some ''x''), (Some 5, Some ''x''), (None, Some ''This'')]]"
    by (simp add: capture_example_def initial_scope_def scope_at_def closure_in_simps Let_def)
  have vis: "Some 11 \<in> visible [(Some 11, Some ''x''), (Some 5, Some ''x''), (None, Some ''This'')]"
    "Some 5 \<notin> visible [(Some (11::nat), Some ''x''), (Some 5, Some ''x''), (None, Some ''This'')]"
    by (auto simp: visible_def less_Suc_eq kn_strcmp_def kn_strncmp_def nth_Cons' Let_def NUL_def)
  show ?thesis
    unfolding capture_plan_exact [OF d] scopes using vis by simp
qed

end
