(* ===== verification/Hir.thy ===== *)
theory Hir
  imports Ast
begin

text \<open>
  The call resolution pass and its statistics, \<open>apps/kinal/src/kn_hir.c\<close>: after semantic
  analysis every call of the tree gets the record the backends dispatch on. The C code updates
  the tree in place; here a walk returns the updated tree. The names and flags it reads from the
  declarations are not changed by the walk. The counters are \<open>unsigned\<close>, 32-bit words.
\<close>

record hir_context =
  hc_funcs :: "func list"
  hc_classes :: "class_decl list"
  hc_interfaces :: "interface_decl list"

abbreviation KN_BUILTIN_NONE :: int where
  "KN_BUILTIN_NONE \<equiv> -1"

definition hir_func_name :: "func \<Rightarrow> cstr" where
  "hir_func_name f = (if fn_qname f \<noteq> None then fn_qname f else fn_name f)"

definition hir_class_name :: "class_decl \<Rightarrow> cstr" where
  "hir_class_name d = (if cd_qname d \<noteq> None then cd_qname d else cd_name d)"

definition hir_interface_name :: "interface_decl \<Rightarrow> cstr" where
  "hir_interface_name d = (if id_qname d \<noteq> None then id_qname d else id_name d)"

text \<open>Whether a candidate's name is the one looked for; a declaration without a name never is.\<close>

definition hir_named :: "cstr \<Rightarrow> cstr \<Rightarrow> bool" where
  "hir_named candidate name \<longleftrightarrow> candidate \<noteq> None \<and> kn_strcmp candidate name = 0"

definition hir_find_func :: "hir_context \<Rightarrow> cstr \<Rightarrow> func option" where
  "hir_find_func ctx name =
     (if name = None then None else find (\<lambda>f. hir_named (hir_func_name f) name) (hc_funcs ctx))"

definition hir_find_class :: "hir_context \<Rightarrow> cstr \<Rightarrow> class_decl option" where
  "hir_find_class ctx name =
     (if name = None then None else find (\<lambda>d. hir_named (hir_class_name d) name) (hc_classes ctx))"

definition hir_find_interface :: "hir_context \<Rightarrow> cstr \<Rightarrow> interface_decl option" where
  "hir_find_interface ctx name =
     (if name = None then None
      else find (\<lambda>d. hir_named (hir_interface_name d) name) (hc_interfaces ctx))"

definition hir_method_is_virtual :: "method_decl \<Rightarrow> bool" where
  "hir_method_is_virtual m \<longleftrightarrow> md_is_virtual m \<or> md_is_override m \<or> md_is_abstract m"

definition hir_reset_call :: resolved_call where
  "hir_reset_call = \<lparr> rc_kind = CALL_UNRESOLVED, rc_builtin = KN_BUILTIN_NONE, rc_symbol = None,
     rc_owner = None, rc_method = -1, rc_has_receiver = False \<rparr>"

definition hir_resolve_direct_call :: "hir_context \<Rightarrow> int \<Rightarrow> cstr \<Rightarrow> resolved_call" where
  "hir_resolve_direct_call ctx builtin name =
     (if builtin \<noteq> KN_BUILTIN_NONE
      then hir_reset_call\<lparr> rc_kind := CALL_BUILTIN, rc_builtin := builtin \<rparr>
      else case hir_find_func ctx name of None \<Rightarrow> hir_reset_call
      | Some f \<Rightarrow> hir_reset_call\<lparr> rc_symbol := hir_func_name f,
          rc_kind := (if \<not> fn_is_delegate f then CALL_FUNCTION
                      else if fn_delegate_abi_c f then CALL_DELEGATE_C else CALL_DELEGATE_KINAL) \<rparr>)"

text \<open>\<open>recv->kind != EXPR_BASE\<close> for a receiver that is there.\<close>

definition hir_recv_not_base :: "expr option \<Rightarrow> bool" where
  "hir_recv_not_base recv \<longleftrightarrow> (case recv of None \<Rightarrow> False | Some (EBase _) \<Rightarrow> False | _ \<Rightarrow> True)"

definition hir_resolve_member_call :: "hir_context \<Rightarrow> expr option \<Rightarrow> int \<Rightarrow> bool \<Rightarrow> int \<Rightarrow> cstr \<Rightarrow>
    bool \<Rightarrow> cstr \<Rightarrow> resolved_call" where
  "hir_resolve_member_call ctx recv builtin is_static method_index method_owner is_qual qual_name =
     (if builtin \<noteq> KN_BUILTIN_NONE
      then hir_reset_call\<lparr> rc_kind := CALL_BUILTIN, rc_builtin := builtin,
             rc_has_receiver := \<not> is_static \<rparr>
      else if is_qual \<and> qual_name \<noteq> None
      then (let f = hir_find_func ctx qual_name
            in hir_reset_call\<lparr>
                 rc_symbol := (case f of Some g \<Rightarrow> hir_func_name g | None \<Rightarrow> qual_name),
                 rc_kind := (case f of
                     Some g \<Rightarrow> if fn_is_delegate g
                       then (if fn_delegate_abi_c g then CALL_DELEGATE_C else CALL_DELEGATE_KINAL)
                       else CALL_FUNCTION
                   | None \<Rightarrow> CALL_FUNCTION) \<rparr>)
      else if method_owner = None \<or> method_index < 0 then hir_reset_call
      else
        let target = hir_reset_call\<lparr> rc_owner := method_owner, rc_method := method_index,
                       rc_has_receiver := \<not> is_static \<rparr>
        in case hir_find_class ctx method_owner of
          Some owner \<Rightarrow>
            (if method_index \<ge> int (length (cd_methods owner)) then target
             else
               let m = cd_methods owner ! nat method_index
               in target\<lparr> rc_kind := (if md_is_static m then CALL_STATIC_METHOD
                    else if hir_recv_not_base recv \<and> hir_method_is_virtual m then CALL_VIRTUAL_METHOD
                    else CALL_DIRECT_METHOD) \<rparr>)
        | None \<Rightarrow> (case hir_find_interface ctx method_owner of
            Some d \<Rightarrow> (if method_index < int (length (id_methods d))
                       then target\<lparr> rc_kind := CALL_INTERFACE_METHOD \<rparr> else target)
          | None \<Rightarrow> target))"

subsection \<open>The walk\<close>

function hir_lower_stmt :: "hir_context \<Rightarrow> stmt option \<Rightarrow> stmt option"
  and hir_lower_stmt_list :: "hir_context \<Rightarrow> stmt option list \<Rightarrow> stmt option list"
  and hir_lower_stmt_cases :: "hir_context \<Rightarrow> (expr option \<times> stmt option \<times> bool) list \<Rightarrow>
    (expr option \<times> stmt option \<times> bool) list"
  and hir_lower_expr :: "hir_context \<Rightarrow> expr option \<Rightarrow> expr option"
  and hir_lower_expr_list :: "hir_context \<Rightarrow> expr option list \<Rightarrow> expr option list"
  and hir_lower_expr_cases :: "hir_context \<Rightarrow> (expr option \<times> expr option \<times> bool) list \<Rightarrow>
    (expr option \<times> expr option \<times> bool) list"
  and hir_lower_param_list :: "hir_context \<Rightarrow> param list \<Rightarrow> param list" where
  "hir_lower_stmt ctx None = None"
| "hir_lower_stmt ctx (Some (SBlock a stmts)) =
     Some (SBlock a (hir_lower_stmt_list ctx stmts))"
| "hir_lower_stmt ctx (Some (SVar a t n pf init c u)) =
     Some (SVar a t n pf (hir_lower_expr ctx init) c u)"
| "hir_lower_stmt ctx (Some (SAssign a n value)) =
     Some (SAssign a n (hir_lower_expr ctx value))"
| "hir_lower_stmt ctx (Some (SExpr a e)) =
     Some (SExpr a (hir_lower_expr ctx e))"
| "hir_lower_stmt ctx (Some (SIf a cond then_s else_s pat ic cv)) =
     Some (SIf a (hir_lower_expr ctx cond) (hir_lower_stmt ctx then_s) (hir_lower_stmt ctx else_s) pat ic cv)"
| "hir_lower_stmt ctx (Some (SSwitch a value cases)) =
     Some (SSwitch a (hir_lower_expr ctx value) (hir_lower_stmt_cases ctx cases))"
| "hir_lower_stmt ctx (Some (SWhile a cond body)) =
     Some (SWhile a (hir_lower_expr ctx cond) (hir_lower_stmt ctx body))"
| "hir_lower_stmt ctx (Some (SFor a init cond post body)) =
     Some (SFor a (hir_lower_stmt ctx init) (hir_lower_expr ctx cond) (hir_lower_expr ctx post) (hir_lower_stmt ctx body))"
| "hir_lower_stmt ctx (Some (SReturn a e)) =
     Some (SReturn a (hir_lower_expr ctx e))"
| "hir_lower_stmt ctx (Some (STry a try_block catch_block t n hp)) =
     Some (STry a (hir_lower_stmt ctx try_block) (hir_lower_stmt ctx catch_block) t n hp)"
| "hir_lower_stmt ctx (Some (SThrow a e)) =
     Some (SThrow a (hir_lower_expr ctx e))"
| "hir_lower_stmt ctx (Some (SBlockJump a target)) =
     Some (SBlockJump a (hir_lower_expr ctx target))"
| "hir_lower_stmt ctx (Some (SBreak a)) = Some (SBreak a)"
| "hir_lower_stmt ctx (Some (SContinue a)) = Some (SContinue a)"
| "hir_lower_stmt ctx (Some (SBlockRecord a n ip d)) = Some (SBlockRecord a n ip d)"
| "hir_lower_stmt_list ctx [] = []"
| "hir_lower_stmt_list ctx (s # ss) = hir_lower_stmt ctx s # hir_lower_stmt_list ctx ss"
| "hir_lower_stmt_cases ctx [] = []"
| "hir_lower_stmt_cases ctx ((match, body, d) # cases) =
     (hir_lower_expr ctx match, hir_lower_stmt ctx body, d) # hir_lower_stmt_cases ctx cases"
| "hir_lower_expr ctx None = None"
| "hir_lower_expr ctx (Some (ECall i name args an builtin ta)) =
     Some (ECall (i\<lparr> ei_call := hir_resolve_direct_call ctx builtin name \<rparr>) name
       (hir_lower_expr_list ctx args) an builtin ta)"
| "hir_lower_expr ctx (Some (EMemberCall i recv n args an builtin ta st sty mi mo q qn)) =
     Some (EMemberCall (i\<lparr> ei_call := hir_resolve_member_call ctx (hir_lower_expr ctx recv) builtin st mi mo q qn \<rparr>)
       (hir_lower_expr ctx recv) n (hir_lower_expr_list ctx args) an builtin ta st sty mi mo q qn)"
| "hir_lower_expr ctx (Some (EInvoke i callee args an)) =
     Some (EInvoke i (hir_lower_expr ctx callee) (hir_lower_expr_list ctx args) an)"
| "hir_lower_expr ctx (Some (EBinary i oper left right)) =
     Some (EBinary i oper (hir_lower_expr ctx left) (hir_lower_expr ctx right))"
| "hir_lower_expr ctx (Some (EUnary i oper e pf)) =
     Some (EUnary i oper (hir_lower_expr ctx e) pf)"
| "hir_lower_expr ctx (Some (EArray i items)) =
     Some (EArray i (hir_lower_expr_list ctx items))"
| "hir_lower_expr ctx (Some (EPackage i items)) =
     Some (EPackage i (hir_lower_expr_list ctx items))"
| "hir_lower_expr ctx (Some (EDict i keys values)) =
     Some (EDict i (hir_lower_expr_list ctx keys) (hir_lower_expr_list ctx values))"
| "hir_lower_expr ctx (Some (EAssign i target value c)) =
     Some (EAssign i (hir_lower_expr ctx target) (hir_lower_expr ctx value) c)"
| "hir_lower_expr ctx (Some (EMember i recv n st ty fi fo ec ev et)) =
     Some (EMember i (hir_lower_expr ctx recv) n st ty fi fo ec ev et)"
| "hir_lower_expr ctx (Some (EIndex i recv index n)) =
     Some (EIndex i (hir_lower_expr ctx recv) (hir_lower_expr ctx index) n)"
| "hir_lower_expr ctx (Some (EIf i cond then_e else_e)) =
     Some (EIf i (hir_lower_expr ctx cond) (hir_lower_expr ctx then_e) (hir_lower_expr ctx else_e))"
| "hir_lower_expr ctx (Some (ESwitch i value cases)) =
     Some (ESwitch i (hir_lower_expr ctx value) (hir_lower_expr_cases ctx cases))"
| "hir_lower_expr ctx (Some (EIs i e t)) =
     Some (EIs i (hir_lower_expr ctx e) t)"
| "hir_lower_expr ctx (Some (ENew i n args an ctor)) =
     Some (ENew i n (hir_lower_expr_list ctx args) an ctor)"
| "hir_lower_expr ctx (Some (ECast i t e mi mo)) =
     Some (ECast i t (hir_lower_expr ctx e) mi mo)"
| "hir_lower_expr ctx (Some (EAnonFunc i t params body s dn qn n)) =
     Some (EAnonFunc i t (hir_lower_param_list ctx params) (hir_lower_stmt ctx body) s dn qn n)"
| "hir_lower_expr ctx (Some (EBlockLit i s body records dn n)) =
     Some (EBlockLit i s (hir_lower_stmt ctx body) records dn n)"
| "hir_lower_expr ctx (Some (EAwait i e)) =
     Some (EAwait i (hir_lower_expr ctx e))"
| "hir_lower_expr ctx (Some (EInt i v)) = Some (EInt i v)"
| "hir_lower_expr ctx (Some (EFloat i d)) = Some (EFloat i d)"
| "hir_lower_expr ctx (Some (EBool i v)) = Some (EBool i v)"
| "hir_lower_expr ctx (Some (EChar i v)) = Some (EChar i v)"
| "hir_lower_expr ctx (Some (EDefault i)) = Some (EDefault i)"
| "hir_lower_expr ctx (Some (ENull i)) = Some (ENull i)"
| "hir_lower_expr ctx (Some (EString i s)) = Some (EString i s)"
| "hir_lower_expr ctx (Some (EVar i n)) = Some (EVar i n)"
| "hir_lower_expr ctx (Some (EThis i)) = Some (EThis i)"
| "hir_lower_expr ctx (Some (EBase i)) = Some (EBase i)"
| "hir_lower_expr ctx (Some (EFuncRef i n b ta)) = Some (EFuncRef i n b ta)"
| "hir_lower_expr_list ctx [] = []"
| "hir_lower_expr_list ctx (e # es) = hir_lower_expr ctx e # hir_lower_expr_list ctx es"
| "hir_lower_expr_cases ctx [] = []"
| "hir_lower_expr_cases ctx ((match, body, d) # cases) =
     (hir_lower_expr ctx match, hir_lower_expr ctx body, d) # hir_lower_expr_cases ctx cases"
| "hir_lower_param_list ctx [] = []"
| "hir_lower_param_list ctx (Param a n t dv md # ps) =
     Param a n t (hir_lower_expr ctx dv) md # hir_lower_param_list ctx ps"
  by pat_completeness auto

termination
  by (relation "measure (case_sum
      (case_sum (\<lambda>(_, s). stmt_measure s) (case_sum (\<lambda>(_, s). stmts_measure s) (\<lambda>(_, s). stmt_cases_measure s)))
      (case_sum (case_sum (\<lambda>(_, s). expr_measure s) (\<lambda>(_, s). exprs_measure s)) (case_sum (\<lambda>(_, s). expr_cases_measure s) (\<lambda>(_, s). params_measure s))))") auto

definition hir_lower_params :: "hir_context \<Rightarrow> param list \<Rightarrow> param list" where
  "hir_lower_params ctx params = hir_lower_param_list ctx params"

definition hir_lower_method :: "hir_context \<Rightarrow> method_decl \<Rightarrow> method_decl" where
  "hir_lower_method ctx m = m\<lparr> md_params := hir_lower_params ctx (md_params m),
     md_body := hir_lower_stmt ctx (md_body m) \<rparr>"

text \<open>The declarations of a compilation and its global statements.\<close>

record hir_program =
  hp_funcs :: "func list"
  hp_classes :: "class_decl list"
  hp_interfaces :: "interface_decl list"
  hp_globals :: "stmt option list"

definition kn_hir_lower_calls :: "hir_program \<Rightarrow> hir_program" where
  "kn_hir_lower_calls prog =
     (let ctx = \<lparr> hc_funcs = hp_funcs prog, hc_classes = hp_classes prog,
                  hc_interfaces = hp_interfaces prog \<rparr>
      in \<lparr> hp_funcs = map (\<lambda>f. f\<lparr> fn_params := hir_lower_params ctx (fn_params f),
                                  fn_body := hir_lower_stmt ctx (fn_body f) \<rparr>) (hp_funcs prog),
           hp_classes = map (\<lambda>d. d\<lparr>
               cd_fields := map (\<lambda>f. f\<lparr> fd_init := hir_lower_expr ctx (fd_init f) \<rparr>) (cd_fields d),
               cd_methods := map (hir_lower_method ctx) (cd_methods d) \<rparr>) (hp_classes prog),
           hp_interfaces = map (\<lambda>d. d\<lparr> id_methods := map (hir_lower_method ctx) (id_methods d) \<rparr>)
               (hp_interfaces prog),
           hp_globals = map (hir_lower_stmt ctx) (hp_globals prog) \<rparr>)"

subsection \<open>Statistics\<close>

type_synonym u32 = "32 word"

record hir_stats =
  hs_expressions :: u32
  hs_typed :: u32
  hs_calls :: u32
  hs_unresolved_calls :: u32
  hs_builtin_calls :: u32
  hs_function_calls :: u32
  hs_delegate_calls :: u32
  hs_static_method_calls :: u32
  hs_direct_method_calls :: u32
  hs_virtual_method_calls :: u32
  hs_interface_method_calls :: u32
  hs_binaries :: u32
  hs_unresolved_binaries :: u32
  hs_binary_numeric_arithmetic :: u32
  hs_binary_string_concat :: u32
  hs_binary_pointer_arithmetic :: u32
  hs_binary_bitwise :: u32
  hs_binary_string_equality :: u32
  hs_binary_reference_equality :: u32
  hs_binary_scalar_equality :: u32
  hs_binary_numeric_comparison :: u32
  hs_binary_logical :: u32

definition hir_stats_call :: "expr_info \<Rightarrow> hir_stats \<Rightarrow> hir_stats" where
  "hir_stats_call i s0 =
     (let s = s0\<lparr> hs_calls := hs_calls s0 + 1 \<rparr>
      in case rc_kind (ei_call i) of
        CALL_BUILTIN \<Rightarrow> s\<lparr> hs_builtin_calls := hs_builtin_calls s + 1 \<rparr>
      | CALL_FUNCTION \<Rightarrow> s\<lparr> hs_function_calls := hs_function_calls s + 1 \<rparr>
      | CALL_DELEGATE_KINAL \<Rightarrow> s\<lparr> hs_delegate_calls := hs_delegate_calls s + 1 \<rparr>
      | CALL_DELEGATE_C \<Rightarrow> s\<lparr> hs_delegate_calls := hs_delegate_calls s + 1 \<rparr>
      | CALL_STATIC_METHOD \<Rightarrow> s\<lparr> hs_static_method_calls := hs_static_method_calls s + 1 \<rparr>
      | CALL_DIRECT_METHOD \<Rightarrow> s\<lparr> hs_direct_method_calls := hs_direct_method_calls s + 1 \<rparr>
      | CALL_VIRTUAL_METHOD \<Rightarrow> s\<lparr> hs_virtual_method_calls := hs_virtual_method_calls s + 1 \<rparr>
      | CALL_INTERFACE_METHOD \<Rightarrow> s\<lparr> hs_interface_method_calls := hs_interface_method_calls s + 1 \<rparr>
      | CALL_UNRESOLVED \<Rightarrow> s\<lparr> hs_unresolved_calls := hs_unresolved_calls s + 1 \<rparr>)"

definition hir_stats_binary :: "expr_info \<Rightarrow> hir_stats \<Rightarrow> hir_stats" where
  "hir_stats_binary i s0 =
     (let s = s0\<lparr> hs_binaries := hs_binaries s0 + 1 \<rparr>
      in case rb_kind (ei_binary i) of
        BIN_NUMERIC_ARITHMETIC \<Rightarrow> s\<lparr> hs_binary_numeric_arithmetic := hs_binary_numeric_arithmetic s + 1 \<rparr>
      | BIN_STRING_CONCAT \<Rightarrow> s\<lparr> hs_binary_string_concat := hs_binary_string_concat s + 1 \<rparr>
      | BIN_POINTER_ARITHMETIC \<Rightarrow> s\<lparr> hs_binary_pointer_arithmetic := hs_binary_pointer_arithmetic s + 1 \<rparr>
      | BIN_BITWISE \<Rightarrow> s\<lparr> hs_binary_bitwise := hs_binary_bitwise s + 1 \<rparr>
      | BIN_STRING_EQUALITY \<Rightarrow> s\<lparr> hs_binary_string_equality := hs_binary_string_equality s + 1 \<rparr>
      | BIN_REFERENCE_EQUALITY \<Rightarrow> s\<lparr> hs_binary_reference_equality := hs_binary_reference_equality s + 1 \<rparr>
      | BIN_SCALAR_EQUALITY \<Rightarrow> s\<lparr> hs_binary_scalar_equality := hs_binary_scalar_equality s + 1 \<rparr>
      | BIN_NUMERIC_COMPARISON \<Rightarrow> s\<lparr> hs_binary_numeric_comparison := hs_binary_numeric_comparison s + 1 \<rparr>
      | BIN_LOGICAL_SHORT_CIRCUIT \<Rightarrow> s\<lparr> hs_binary_logical := hs_binary_logical s + 1 \<rparr>
      | BIN_UNRESOLVED \<Rightarrow> s\<lparr> hs_unresolved_binaries := hs_unresolved_binaries s + 1 \<rparr>)"

definition count_expr :: "expr_info \<Rightarrow> hir_stats \<Rightarrow> hir_stats" where
  "count_expr i s = s\<lparr> hs_expressions := hs_expressions s + 1,
     hs_typed := (if ty_kind (ei_type i) \<noteq> TY_UNKNOWN then hs_typed s + 1 else hs_typed s) \<rparr>"

function hir_stats_stmt :: "stmt option \<Rightarrow> hir_stats \<Rightarrow> hir_stats"
  and hir_stats_stmt_list :: "stmt option list \<Rightarrow> hir_stats \<Rightarrow> hir_stats"
  and hir_stats_stmt_cases :: "(expr option \<times> stmt option \<times> bool) list \<Rightarrow> hir_stats \<Rightarrow> hir_stats"
  and hir_stats_expr :: "expr option \<Rightarrow> hir_stats \<Rightarrow> hir_stats"
  and hir_stats_expr_list :: "expr option list \<Rightarrow> hir_stats \<Rightarrow> hir_stats"
  and hir_stats_expr_cases :: "(expr option \<times> expr option \<times> bool) list \<Rightarrow> hir_stats \<Rightarrow> hir_stats"
  and hir_stats_param_list :: "param list \<Rightarrow> hir_stats \<Rightarrow> hir_stats" where
  "hir_stats_stmt None stats = stats"
| "hir_stats_stmt (Some (SBlock a stmts)) stats =
     hir_stats_stmt_list stmts stats"
| "hir_stats_stmt (Some (SVar a t n pf init c u)) stats =
     hir_stats_expr init stats"
| "hir_stats_stmt (Some (SAssign a n value)) stats =
     hir_stats_expr value stats"
| "hir_stats_stmt (Some (SExpr a e)) stats =
     hir_stats_expr e stats"
| "hir_stats_stmt (Some (SIf a cond then_s else_s pat ic cv)) stats =
     hir_stats_stmt else_s (hir_stats_stmt then_s (hir_stats_expr cond stats))"
| "hir_stats_stmt (Some (SSwitch a value cases)) stats =
     hir_stats_stmt_cases cases (hir_stats_expr value stats)"
| "hir_stats_stmt (Some (SWhile a cond body)) stats =
     hir_stats_stmt body (hir_stats_expr cond stats)"
| "hir_stats_stmt (Some (SFor a init cond post body)) stats =
     hir_stats_stmt body (hir_stats_expr post (hir_stats_expr cond (hir_stats_stmt init stats)))"
| "hir_stats_stmt (Some (SReturn a e)) stats =
     hir_stats_expr e stats"
| "hir_stats_stmt (Some (STry a try_block catch_block t n hp)) stats =
     hir_stats_stmt catch_block (hir_stats_stmt try_block stats)"
| "hir_stats_stmt (Some (SThrow a e)) stats =
     hir_stats_expr e stats"
| "hir_stats_stmt (Some (SBlockJump a target)) stats =
     hir_stats_expr target stats"
| "hir_stats_stmt (Some (SBreak a)) stats = stats"
| "hir_stats_stmt (Some (SContinue a)) stats = stats"
| "hir_stats_stmt (Some (SBlockRecord a n ip d)) stats = stats"
| "hir_stats_stmt_list [] stats = stats"
| "hir_stats_stmt_list (s # ss) stats = hir_stats_stmt_list ss (hir_stats_stmt s stats)"
| "hir_stats_stmt_cases [] stats = stats"
| "hir_stats_stmt_cases ((match, body, d) # cases) stats =
     hir_stats_stmt_cases cases (hir_stats_stmt body (hir_stats_expr match stats))"
| "hir_stats_expr None stats = stats"
| "hir_stats_expr (Some (ECall i name args an builtin ta)) stats =
     hir_stats_expr_list args (hir_stats_call i (count_expr i stats))"
| "hir_stats_expr (Some (EMemberCall i recv n args an builtin ta st sty mi mo q qn)) stats =
     hir_stats_expr_list args (hir_stats_expr recv (hir_stats_call i (count_expr i stats)))"
| "hir_stats_expr (Some (EInvoke i callee args an)) stats =
     hir_stats_expr_list args (hir_stats_expr callee (count_expr i stats))"
| "hir_stats_expr (Some (EBinary i oper left right)) stats =
     hir_stats_expr right (hir_stats_expr left (hir_stats_binary i (count_expr i stats)))"
| "hir_stats_expr (Some (EUnary i oper e pf)) stats =
     hir_stats_expr e (count_expr i stats)"
| "hir_stats_expr (Some (EArray i items)) stats =
     hir_stats_expr_list items (count_expr i stats)"
| "hir_stats_expr (Some (EPackage i items)) stats =
     hir_stats_expr_list items (count_expr i stats)"
| "hir_stats_expr (Some (EDict i keys values)) stats =
     hir_stats_expr_list values (hir_stats_expr_list keys (count_expr i stats))"
| "hir_stats_expr (Some (EAssign i target value c)) stats =
     hir_stats_expr value (hir_stats_expr target (count_expr i stats))"
| "hir_stats_expr (Some (EMember i recv n st ty fi fo ec ev et)) stats =
     hir_stats_expr recv (count_expr i stats)"
| "hir_stats_expr (Some (EIndex i recv index n)) stats =
     hir_stats_expr index (hir_stats_expr recv (count_expr i stats))"
| "hir_stats_expr (Some (EIf i cond then_e else_e)) stats =
     hir_stats_expr else_e (hir_stats_expr then_e (hir_stats_expr cond (count_expr i stats)))"
| "hir_stats_expr (Some (ESwitch i value cases)) stats =
     hir_stats_expr_cases cases (hir_stats_expr value (count_expr i stats))"
| "hir_stats_expr (Some (EIs i e t)) stats =
     hir_stats_expr e (count_expr i stats)"
| "hir_stats_expr (Some (ENew i n args an ctor)) stats =
     hir_stats_expr_list args (count_expr i stats)"
| "hir_stats_expr (Some (ECast i t e mi mo)) stats =
     hir_stats_expr e (count_expr i stats)"
| "hir_stats_expr (Some (EAnonFunc i t params body s dn qn n)) stats =
     hir_stats_stmt body (hir_stats_param_list params (count_expr i stats))"
| "hir_stats_expr (Some (EBlockLit i s body records dn n)) stats =
     hir_stats_stmt body (count_expr i stats)"
| "hir_stats_expr (Some (EAwait i e)) stats =
     hir_stats_expr e (count_expr i stats)"
| "hir_stats_expr (Some (EInt i v)) stats = count_expr i stats"
| "hir_stats_expr (Some (EFloat i d)) stats = count_expr i stats"
| "hir_stats_expr (Some (EBool i v)) stats = count_expr i stats"
| "hir_stats_expr (Some (EChar i v)) stats = count_expr i stats"
| "hir_stats_expr (Some (EDefault i)) stats = count_expr i stats"
| "hir_stats_expr (Some (ENull i)) stats = count_expr i stats"
| "hir_stats_expr (Some (EString i s)) stats = count_expr i stats"
| "hir_stats_expr (Some (EVar i n)) stats = count_expr i stats"
| "hir_stats_expr (Some (EThis i)) stats = count_expr i stats"
| "hir_stats_expr (Some (EBase i)) stats = count_expr i stats"
| "hir_stats_expr (Some (EFuncRef i n b ta)) stats = count_expr i stats"
| "hir_stats_expr_list [] stats = stats"
| "hir_stats_expr_list (e # es) stats = hir_stats_expr_list es (hir_stats_expr e stats)"
| "hir_stats_expr_cases [] stats = stats"
| "hir_stats_expr_cases ((match, body, d) # cases) stats =
     hir_stats_expr_cases cases (hir_stats_expr body (hir_stats_expr match stats))"
| "hir_stats_param_list [] stats = stats"
| "hir_stats_param_list (Param a n t dv md # ps) stats =
     hir_stats_param_list ps (hir_stats_expr dv stats)"
  by pat_completeness auto

termination
  by (relation "measure (case_sum
      (case_sum (\<lambda>(s, _). stmt_measure s) (case_sum (\<lambda>(s, _). stmts_measure s) (\<lambda>(s, _). stmt_cases_measure s)))
      (case_sum (case_sum (\<lambda>(s, _). expr_measure s) (\<lambda>(s, _). exprs_measure s)) (case_sum (\<lambda>(s, _). expr_cases_measure s) (\<lambda>(s, _). params_measure s))))") auto

definition hir_stats_params :: "param list \<Rightarrow> hir_stats \<Rightarrow> hir_stats" where
  "hir_stats_params params stats = hir_stats_param_list params stats"

definition hir_no_stats :: hir_stats where
  "hir_no_stats = \<lparr> hs_expressions = 0, hs_typed = 0, hs_calls = 0, hs_unresolved_calls = 0,
     hs_builtin_calls = 0, hs_function_calls = 0, hs_delegate_calls = 0, hs_static_method_calls = 0,
     hs_direct_method_calls = 0, hs_virtual_method_calls = 0, hs_interface_method_calls = 0,
     hs_binaries = 0, hs_unresolved_binaries = 0, hs_binary_numeric_arithmetic = 0,
     hs_binary_string_concat = 0, hs_binary_pointer_arithmetic = 0, hs_binary_bitwise = 0,
     hs_binary_string_equality = 0, hs_binary_reference_equality = 0, hs_binary_scalar_equality = 0,
     hs_binary_numeric_comparison = 0, hs_binary_logical = 0 \<rparr>"

definition hir_stats_method :: "method_decl \<Rightarrow> hir_stats \<Rightarrow> hir_stats" where
  "hir_stats_method m s = hir_stats_stmt (md_body m) (hir_stats_params (md_params m) s)"

definition kn_hir_collect_stats :: "hir_program \<Rightarrow> hir_stats" where
  "kn_hir_collect_stats prog =
     (let s = fold hir_stats_stmt (hp_globals prog) hir_no_stats;
          s = fold (\<lambda>f s. hir_stats_stmt (fn_body f) (hir_stats_params (fn_params f) s)) (hp_funcs prog) s;
          s = fold (\<lambda>d s. fold hir_stats_method (cd_methods d)
                            (fold (\<lambda>f. hir_stats_expr (fd_init f)) (cd_fields d) s)) (hp_classes prog) s
      in fold (\<lambda>d. fold hir_stats_method (id_methods d)) (hp_interfaces prog) s)"

subsection \<open>Names\<close>

definition kn_hir_call_target_name :: "call_target \<Rightarrow> string" where
  "kn_hir_call_target_name k = (case k of
     CALL_BUILTIN \<Rightarrow> ''builtin'' | CALL_FUNCTION \<Rightarrow> ''function''
   | CALL_DELEGATE_KINAL \<Rightarrow> ''delegate-kinal'' | CALL_DELEGATE_C \<Rightarrow> ''delegate-c''
   | CALL_STATIC_METHOD \<Rightarrow> ''static-method'' | CALL_DIRECT_METHOD \<Rightarrow> ''direct-method''
   | CALL_VIRTUAL_METHOD \<Rightarrow> ''virtual-method'' | CALL_INTERFACE_METHOD \<Rightarrow> ''interface-method''
   | CALL_UNRESOLVED \<Rightarrow> ''unresolved'')"

definition kn_hir_binary_lowering_name :: "binary_lowering \<Rightarrow> string" where
  "kn_hir_binary_lowering_name k = (case k of
     BIN_NUMERIC_ARITHMETIC \<Rightarrow> ''numeric-arithmetic'' | BIN_STRING_CONCAT \<Rightarrow> ''string-concat''
   | BIN_POINTER_ARITHMETIC \<Rightarrow> ''pointer-arithmetic'' | BIN_BITWISE \<Rightarrow> ''bitwise''
   | BIN_STRING_EQUALITY \<Rightarrow> ''string-equality'' | BIN_REFERENCE_EQUALITY \<Rightarrow> ''reference-equality''
   | BIN_SCALAR_EQUALITY \<Rightarrow> ''scalar-equality'' | BIN_NUMERIC_COMPARISON \<Rightarrow> ''numeric-comparison''
   | BIN_LOGICAL_SHORT_CIRCUIT \<Rightarrow> ''logical-short-circuit'' | BIN_UNRESOLVED \<Rightarrow> ''unresolved'')"

end
