(* ===== verification/HirProps.thy ===== *)
theory HirProps
  imports Hir
begin

text \<open>
  The call resolution pass writes every call record of the program from its declarations, the record
  the stated conditions call for, and nothing else; a second run changes nothing. The statistics
  classify every call and every binary operation once.
\<close>

subsection \<open>Lowering again\<close>

lemma find_map_same:
  assumes "\<And>x. P (g x) = P x"
  shows "find P (map g xs) = map_option g (find P xs)"
  using assms by (induction xs) auto

lemma not_base_lower [simp]: "hir_recv_not_base (hir_lower_expr ctx e) = hir_recv_not_base e"
proof (cases e)
  case (Some x)
  then show ?thesis by (cases x) (simp_all add: hir_recv_not_base_def)
qed (simp add: hir_recv_not_base_def)

lemma resolve_member_lower [simp]:
  "hir_resolve_member_call ctx (hir_lower_expr c r) b st mi mo q qn =
   hir_resolve_member_call ctx r b st mi mo q qn"
  unfolding hir_resolve_member_call_def not_base_lower by (rule refl)

text \<open>Two contexts that resolve every call alike.\<close>

definition same_targets :: "hir_context \<Rightarrow> hir_context \<Rightarrow> bool" where
  "same_targets c d \<longleftrightarrow> (\<forall>b n. hir_resolve_direct_call c b n = hir_resolve_direct_call d b n) \<and>
     (\<forall>r b st mi mo q qn. hir_resolve_member_call c r b st mi mo q qn =
        hir_resolve_member_call d r b st mi mo q qn)"

lemma lower_after_lower:
  "hir_lower_stmt d (hir_lower_stmt c s) = hir_lower_stmt d s"
  "hir_lower_stmt_list d (hir_lower_stmt_list c ss) = hir_lower_stmt_list d ss"
  "hir_lower_stmt_cases d (hir_lower_stmt_cases c cs) = hir_lower_stmt_cases d cs"
  "hir_lower_expr d (hir_lower_expr c e) = hir_lower_expr d e"
  "hir_lower_expr_list d (hir_lower_expr_list c es) = hir_lower_expr_list d es"
  "hir_lower_expr_cases d (hir_lower_expr_cases c ds) = hir_lower_expr_cases d ds"
  "hir_lower_param_list d (hir_lower_param_list c ps) = hir_lower_param_list d ps"
  by (induction c s and c ss and c cs and c e and c es and c ds and c ps
      rule: hir_lower_stmt_hir_lower_stmt_list_hir_lower_stmt_cases_hir_lower_expr_hir_lower_expr_list_hir_lower_expr_cases_hir_lower_param_list.induct)
     simp_all

lemma lower_same_targets:
  "same_targets c d \<Longrightarrow> hir_lower_stmt c s = hir_lower_stmt d s"
  "same_targets c d \<Longrightarrow> hir_lower_stmt_list c ss = hir_lower_stmt_list d ss"
  "same_targets c d \<Longrightarrow> hir_lower_stmt_cases c cs = hir_lower_stmt_cases d cs"
  "same_targets c d \<Longrightarrow> hir_lower_expr c e = hir_lower_expr d e"
  "same_targets c d \<Longrightarrow> hir_lower_expr_list c es = hir_lower_expr_list d es"
  "same_targets c d \<Longrightarrow> hir_lower_expr_cases c ds = hir_lower_expr_cases d ds"
  "same_targets c d \<Longrightarrow> hir_lower_param_list c ps = hir_lower_param_list d ps"
  by (induction c s and c ss and c cs and c e and c es and c ds and c ps
      rule: hir_lower_stmt_hir_lower_stmt_list_hir_lower_stmt_cases_hir_lower_expr_hir_lower_expr_list_hir_lower_expr_cases_hir_lower_param_list.induct)
     (simp_all add: same_targets_def)

text \<open>The context of a program, and of the program after the pass.\<close>

definition hir_context_of :: "hir_program \<Rightarrow> hir_context" where
  "hir_context_of p = \<lparr> hc_funcs = hp_funcs p, hc_classes = hp_classes p,
     hc_interfaces = hp_interfaces p \<rparr>"

lemma find_func_lowered:
  "hir_find_func (hir_context_of (kn_hir_lower_calls p)) n =
   map_option (\<lambda>f. f\<lparr> fn_params := hir_lower_params (hir_context_of p) (fn_params f),
     fn_body := hir_lower_stmt (hir_context_of p) (fn_body f) \<rparr>) (hir_find_func (hir_context_of p) n)"
  by (simp add: hir_find_func_def hir_context_of_def kn_hir_lower_calls_def Let_def find_map_same
      hir_func_name_def)

lemma find_class_lowered:
  "hir_find_class (hir_context_of (kn_hir_lower_calls p)) n =
   map_option (\<lambda>d. d\<lparr>
       cd_fields := map (\<lambda>f. f\<lparr> fd_init := hir_lower_expr (hir_context_of p) (fd_init f) \<rparr>) (cd_fields d),
       cd_methods := map (hir_lower_method (hir_context_of p)) (cd_methods d) \<rparr>)
     (hir_find_class (hir_context_of p) n)"
  by (simp add: hir_find_class_def hir_context_of_def kn_hir_lower_calls_def Let_def find_map_same
      hir_class_name_def)

lemma find_interface_lowered:
  "hir_find_interface (hir_context_of (kn_hir_lower_calls p)) n =
   map_option (\<lambda>d. d\<lparr> id_methods := map (hir_lower_method (hir_context_of p)) (id_methods d) \<rparr>)
     (hir_find_interface (hir_context_of p) n)"
  by (simp add: hir_find_interface_def hir_context_of_def kn_hir_lower_calls_def Let_def find_map_same
      hir_interface_name_def)

lemma resolve_direct_lowered:
  "hir_resolve_direct_call (hir_context_of (kn_hir_lower_calls p)) b n =
   hir_resolve_direct_call (hir_context_of p) b n"
  unfolding hir_resolve_direct_call_def find_func_lowered
  by (cases "hir_find_func (hir_context_of p) n") (simp_all add: hir_func_name_def)

lemma resolve_member_lowered:
  "hir_resolve_member_call (hir_context_of (kn_hir_lower_calls p)) r b st mi mo q qn =
   hir_resolve_member_call (hir_context_of p) r b st mi mo q qn"
proof -
  have m: "md_is_static (hir_lower_method c m) = md_is_static m"
    "hir_method_is_virtual (hir_lower_method c m) = hir_method_is_virtual m" for c m
    by (simp_all add: hir_lower_method_def hir_method_is_virtual_def)
  have n: "map (hir_lower_method c) ms ! nat mi = hir_lower_method c (ms ! nat mi)"
    if "\<not> mi < 0" "\<not> mi \<ge> int (length ms)" for c ms
    using that by simp
  define ff where "ff = hir_find_func (hir_context_of p) qn"
  define fc where "fc = hir_find_class (hir_context_of p) mo"
  define fi where "fi = hir_find_interface (hir_context_of p) mo"
  show ?thesis
    unfolding hir_resolve_member_call_def find_func_lowered find_class_lowered find_interface_lowered
      ff_def [symmetric] fc_def [symmetric] fi_def [symmetric]
    by (cases ff; cases fc; cases fi) (auto simp: hir_func_name_def Let_def m n)
qed

lemma same_targets_lowered: "same_targets (hir_context_of (kn_hir_lower_calls p)) (hir_context_of p)"
  unfolding same_targets_def by (simp add: resolve_direct_lowered resolve_member_lowered)

lemma lower_lowered:
  "hir_lower_stmt (hir_context_of (kn_hir_lower_calls p)) (hir_lower_stmt (hir_context_of p) s) =
     hir_lower_stmt (hir_context_of p) s"
  "hir_lower_expr (hir_context_of (kn_hir_lower_calls p)) (hir_lower_expr (hir_context_of p) e) =
     hir_lower_expr (hir_context_of p) e"
  "hir_lower_params (hir_context_of (kn_hir_lower_calls p)) (hir_lower_params (hir_context_of p) ps) =
     hir_lower_params (hir_context_of p) ps"
  by (simp_all add: lower_after_lower lower_same_targets [OF same_targets_lowered] hir_lower_params_def)

definition lower_with :: "hir_context \<Rightarrow> hir_program \<Rightarrow> hir_program" where
  "lower_with c p = \<lparr>
     hp_funcs = map (\<lambda>f. f\<lparr> fn_params := hir_lower_params c (fn_params f),
       fn_body := hir_lower_stmt c (fn_body f) \<rparr>) (hp_funcs p),
     hp_classes = map (\<lambda>d. d\<lparr>
       cd_fields := map (\<lambda>f. f\<lparr> fd_init := hir_lower_expr c (fd_init f) \<rparr>) (cd_fields d),
       cd_methods := map (hir_lower_method c) (cd_methods d) \<rparr>) (hp_classes p),
     hp_interfaces = map (\<lambda>d. d\<lparr> id_methods := map (hir_lower_method c) (id_methods d) \<rparr>)
       (hp_interfaces p),
     hp_globals = map (hir_lower_stmt c) (hp_globals p) \<rparr>"

lemma kn_hir_lower_calls_with: "kn_hir_lower_calls p = lower_with (hir_context_of p) p"
  by (simp add: kn_hir_lower_calls_def hir_context_of_def lower_with_def Let_def)

lemma lower_with_again:
  assumes "same_targets d c"
  shows "lower_with d (lower_with c p) = lower_with c p"
proof -
  have l: "hir_lower_stmt d (hir_lower_stmt c s) = hir_lower_stmt c s"
    "hir_lower_expr d (hir_lower_expr c e) = hir_lower_expr c e"
    "hir_lower_params d (hir_lower_params c ps) = hir_lower_params c ps" for s e ps
    by (simp_all add: lower_after_lower lower_same_targets [OF assms] hir_lower_params_def)
  have m: "hir_lower_method d (hir_lower_method c m) = hir_lower_method c m" for m
    by (simp add: hir_lower_method_def l)
  show ?thesis by (simp add: lower_with_def l m)
qed

text \<open>
  Resolving the calls of a program a second time changes nothing, whatever call records the tree
  held before: the pass rewrites every record from the declarations alone.
\<close>

lemma hir_lower_idempotent: "kn_hir_lower_calls (kn_hir_lower_calls p) = kn_hir_lower_calls p"
  using lower_with_again [OF same_targets_lowered, of p p] kn_hir_lower_calls_with by metis

subsection \<open>What every call is resolved to\<close>

text \<open>
  The expressions and statements directly inside an expression or a statement, the default values of
  the parameters of a function expression among them.
\<close>

datatype node = Node_E expr | Node_S stmt

abbreviation opt_e :: "expr option \<Rightarrow> node list" where
  "opt_e e \<equiv> map Node_E (case e of None \<Rightarrow> [] | Some x \<Rightarrow> [x])"

abbreviation opt_s :: "stmt option \<Rightarrow> node list" where
  "opt_s s \<equiv> map Node_S (case s of None \<Rightarrow> [] | Some x \<Rightarrow> [x])"

abbreviation all_e :: "expr option list \<Rightarrow> node list" where
  "all_e es \<equiv> concat (map opt_e es)"

definition param_nodes :: "param list \<Rightarrow> node list" where
  "param_nodes ps = all_e (map p_default ps)"

fun expr_parts :: "expr \<Rightarrow> node list" where
  "expr_parts (ECall _ _ args _ _ _) = all_e args"
| "expr_parts (EMemberCall _ recv _ args _ _ _ _ _ _ _ _ _) = opt_e recv @ all_e args"
| "expr_parts (EInvoke _ callee args _) = opt_e callee @ all_e args"
| "expr_parts (EBinary _ _ a b) = opt_e a @ opt_e b"
| "expr_parts (EUnary _ _ a _) = opt_e a"
| "expr_parts (EArray _ items) = all_e items"
| "expr_parts (EPackage _ items) = all_e items"
| "expr_parts (EDict _ keys vals) = all_e keys @ all_e vals"
| "expr_parts (EAssign _ target v _) = opt_e target @ opt_e v"
| "expr_parts (EMember _ recv _ _ _ _ _ _ _ _) = opt_e recv"
| "expr_parts (EIndex _ recv index _) = opt_e recv @ opt_e index"
| "expr_parts (EIf _ c a b) = opt_e c @ opt_e a @ opt_e b"
| "expr_parts (ESwitch _ v cases) = opt_e v @ concat (map (\<lambda>(m, b, _). opt_e m @ opt_e b) cases)"
| "expr_parts (EIs _ a _) = opt_e a"
| "expr_parts (ENew _ _ args _ _) = all_e args"
| "expr_parts (ECast _ _ a _ _) = opt_e a"
| "expr_parts (EAnonFunc _ _ ps body _ _ _ _) = param_nodes ps @ opt_s body"
| "expr_parts (EBlockLit _ _ body _ _ _) = opt_s body"
| "expr_parts (EAwait _ a) = opt_e a"
| "expr_parts _ = []"

fun stmt_parts :: "stmt \<Rightarrow> node list" where
  "stmt_parts (SBlock _ ss) = concat (map opt_s ss)"
| "stmt_parts (SVar _ _ _ _ init _ _) = opt_e init"
| "stmt_parts (SAssign _ _ v) = opt_e v"
| "stmt_parts (SExpr _ e) = opt_e e"
| "stmt_parts (SIf _ c a b _ _ _) = opt_e c @ opt_s a @ opt_s b"
| "stmt_parts (SSwitch _ v cases) = opt_e v @ concat (map (\<lambda>(m, b, _). opt_e m @ opt_s b) cases)"
| "stmt_parts (SWhile _ c body) = opt_e c @ opt_s body"
| "stmt_parts (SFor _ init c post body) = opt_s init @ opt_e c @ opt_e post @ opt_s body"
| "stmt_parts (SReturn _ e) = opt_e e"
| "stmt_parts (STry _ b h _ _ _) = opt_s b @ opt_s h"
| "stmt_parts (SThrow _ e) = opt_e e"
| "stmt_parts (SBlockJump _ e) = opt_e e"
| "stmt_parts _ = []"

fun node_parts :: "node \<Rightarrow> node list" where
  "node_parts (Node_E e) = expr_parts e"
| "node_parts (Node_S s) = stmt_parts s"

text \<open>A node and what is inside it, at any depth.\<close>

inductive occurs :: "node \<Rightarrow> node \<Rightarrow> bool" where
  occurs_self: "occurs n n"
| occurs_part: "m \<in> set (node_parts n) \<Longrightarrow> occurs k m \<Longrightarrow> occurs k n"

text \<open>The parts of a program: its global statements, the parameters and bodies of its functions and methods, the initial values of its fields.\<close>

definition method_nodes :: "method_decl \<Rightarrow> node list" where
  "method_nodes m = param_nodes (md_params m) @ opt_s (md_body m)"

definition program_nodes :: "hir_program \<Rightarrow> node list" where
  "program_nodes p = concat (map opt_s (hp_globals p)) @
     concat (map (\<lambda>f. param_nodes (fn_params f) @ opt_s (fn_body f)) (hp_funcs p)) @
     concat (map (\<lambda>d. all_e (map fd_init (cd_fields d)) @ concat (map method_nodes (cd_methods d))) (hp_classes p)) @
     concat (map (\<lambda>d. concat (map method_nodes (id_methods d))) (hp_interfaces p))"

definition in_program :: "expr \<Rightarrow> hir_program \<Rightarrow> bool" where
  "in_program e p \<longleftrightarrow> (\<exists>n \<in> set (program_nodes p). occurs (Node_E e) n)"

text \<open>The first declaration of a name.\<close>

definition first_named :: "('d \<Rightarrow> cstr) \<Rightarrow> 'd list \<Rightarrow> cstr \<Rightarrow> 'd \<Rightarrow> bool" where
  "first_named name_of ds n d \<longleftrightarrow> n \<noteq> None \<and> (\<exists>i < length ds. ds ! i = d \<and> hir_named (name_of d) n \<and>
     (\<forall>j < i. \<not> hir_named (name_of (ds ! j)) n))"

definition none_named :: "('d \<Rightarrow> cstr) \<Rightarrow> 'd list \<Rightarrow> cstr \<Rightarrow> bool" where
  "none_named name_of ds n \<longleftrightarrow> n = None \<or> (\<forall>d \<in> set ds. \<not> hir_named (name_of d) n)"

abbreviation func_named :: "hir_context \<Rightarrow> cstr \<Rightarrow> func \<Rightarrow> bool" where
  "func_named c \<equiv> first_named hir_func_name (hc_funcs c)"

text \<open>The method of the given index in the first class of a name.\<close>

definition class_method :: "hir_context \<Rightarrow> cstr \<Rightarrow> int \<Rightarrow> method_decl \<Rightarrow> bool" where
  "class_method c owner i m \<longleftrightarrow> (\<exists>d. first_named hir_class_name (hc_classes c) owner d \<and>
     nat i < length (cd_methods d) \<and> cd_methods d ! nat i = m)"

definition interface_method :: "hir_context \<Rightarrow> cstr \<Rightarrow> int \<Rightarrow> bool" where
  "interface_method c owner i \<longleftrightarrow> none_named hir_class_name (hc_classes c) owner \<and>
     (\<exists>d. first_named hir_interface_name (hc_interfaces c) owner d \<and> nat i < length (id_methods d))"

text \<open>A call by name: the kinds it can have, and the fields of its record.\<close>

definition direct_resolved :: "hir_context \<Rightarrow> int \<Rightarrow> cstr \<Rightarrow> resolved_call \<Rightarrow> bool" where
  "direct_resolved c builtin name r \<longleftrightarrow>
     (let plain = builtin = KN_BUILTIN_NONE; k = rc_kind r in
      (k = CALL_BUILTIN \<longleftrightarrow> \<not> plain) \<and>
      (k = CALL_FUNCTION \<longleftrightarrow> plain \<and> (\<exists>f. func_named c name f \<and> \<not> fn_is_delegate f)) \<and>
      (k = CALL_DELEGATE_C \<longleftrightarrow> plain \<and> (\<exists>f. func_named c name f \<and> fn_is_delegate f \<and> fn_delegate_abi_c f)) \<and>
      (k = CALL_DELEGATE_KINAL \<longleftrightarrow>
         plain \<and> (\<exists>f. func_named c name f \<and> fn_is_delegate f \<and> \<not> fn_delegate_abi_c f)) \<and>
      (k = CALL_UNRESOLVED \<longleftrightarrow> plain \<and> none_named hir_func_name (hc_funcs c) name) \<and>
      rc_builtin r = builtin \<and>
      (\<forall>f. plain \<and> func_named c name f \<longrightarrow> rc_symbol r = hir_func_name f) \<and>
      (k \<in> {CALL_BUILTIN, CALL_UNRESOLVED} \<longrightarrow> rc_symbol r = None) \<and>
      rc_owner r = None \<and> rc_method r = -1 \<and> \<not> rc_has_receiver r)"

text \<open>A call on a receiver, by the qualified name of a function or by an owner and the index of a method.\<close>

definition member_resolved :: "hir_context \<Rightarrow> expr option \<Rightarrow> int \<Rightarrow> bool \<Rightarrow> int \<Rightarrow> cstr \<Rightarrow> bool \<Rightarrow> cstr \<Rightarrow>
    resolved_call \<Rightarrow> bool" where
  "member_resolved c recv builtin static i owner qual qname r \<longleftrightarrow>
     (let plain = builtin = KN_BUILTIN_NONE; k = rc_kind r;
          by_name = plain \<and> qual \<and> qname \<noteq> None;
          by_method = plain \<and> \<not> by_name \<and> owner \<noteq> None \<and> i \<ge> 0;
          dispatched = (\<lambda>m. (md_is_virtual m \<or> md_is_override m \<or> md_is_abstract m) \<and>
            recv \<noteq> None \<and> (\<forall>x. recv \<noteq> Some (EBase x)))
      in
      (k = CALL_BUILTIN \<longleftrightarrow> \<not> plain) \<and>
      (k = CALL_FUNCTION \<longleftrightarrow> by_name \<and> (none_named hir_func_name (hc_funcs c) qname \<or>
         (\<exists>f. func_named c qname f \<and> \<not> fn_is_delegate f))) \<and>
      (k = CALL_DELEGATE_C \<longleftrightarrow> by_name \<and> (\<exists>f. func_named c qname f \<and> fn_is_delegate f \<and> fn_delegate_abi_c f)) \<and>
      (k = CALL_DELEGATE_KINAL \<longleftrightarrow>
         by_name \<and> (\<exists>f. func_named c qname f \<and> fn_is_delegate f \<and> \<not> fn_delegate_abi_c f)) \<and>
      (k = CALL_STATIC_METHOD \<longleftrightarrow> by_method \<and> (\<exists>m. class_method c owner i m \<and> md_is_static m)) \<and>
      (k = CALL_VIRTUAL_METHOD \<longleftrightarrow>
         by_method \<and> (\<exists>m. class_method c owner i m \<and> \<not> md_is_static m \<and> dispatched m)) \<and>
      (k = CALL_DIRECT_METHOD \<longleftrightarrow>
         by_method \<and> (\<exists>m. class_method c owner i m \<and> \<not> md_is_static m \<and> \<not> dispatched m)) \<and>
      (k = CALL_INTERFACE_METHOD \<longleftrightarrow> by_method \<and> interface_method c owner i) \<and>
      rc_builtin r = builtin \<and>
      (\<forall>f. by_name \<and> func_named c qname f \<longrightarrow> rc_symbol r = hir_func_name f) \<and>
      (by_name \<and> none_named hir_func_name (hc_funcs c) qname \<longrightarrow> rc_symbol r = qname) \<and>
      (\<not> by_name \<longrightarrow> rc_symbol r = None) \<and>
      rc_owner r = (if by_method then owner else None) \<and> rc_method r = (if by_method then i else -1) \<and>
      rc_has_receiver r = ((\<not> plain \<or> by_method) \<and> \<not> static))"

fun call_resolved :: "hir_context \<Rightarrow> expr \<Rightarrow> bool" where
  "call_resolved c (ECall x name _ _ builtin _) = direct_resolved c builtin name (ei_call x)"
| "call_resolved c (EMemberCall x recv _ _ _ builtin _ static _ i owner qual qname) =
     member_resolved c recv builtin static i owner qual qname (ei_call x)"
| "call_resolved c _ = True"

text \<open>The searches of the pass find the first declaration of a name.\<close>

lemma find_first_named:
  assumes "n \<noteq> None"
  shows "find (\<lambda>d. hir_named (name_of d) n) ds = Some d \<longleftrightarrow> first_named name_of ds n d"
    "find (\<lambda>d. hir_named (name_of d) n) ds = None \<longleftrightarrow> none_named name_of ds n"
  using assms by (auto simp: find_Some_iff find_None_iff first_named_def none_named_def)

lemma hir_find_first:
  "hir_find_func c n = Some f \<longleftrightarrow> func_named c n f"
  "hir_find_func c n = None \<longleftrightarrow> none_named hir_func_name (hc_funcs c) n"
  "hir_find_class c n = Some d \<longleftrightarrow> first_named hir_class_name (hc_classes c) n d"
  "hir_find_class c n = None \<longleftrightarrow> none_named hir_class_name (hc_classes c) n"
  "hir_find_interface c n = Some t \<longleftrightarrow> first_named hir_interface_name (hc_interfaces c) n t"
  "hir_find_interface c n = None \<longleftrightarrow> none_named hir_interface_name (hc_interfaces c) n"
  by (cases "n = None"; simp add: hir_find_func_def hir_find_class_def hir_find_interface_def find_first_named;
      simp add: first_named_def none_named_def)+

lemma direct_spec: "direct_resolved c b n (hir_resolve_direct_call c b n)"
  unfolding direct_resolved_def Let_def hir_find_first [symmetric]
  by (cases "hir_find_func c n") (auto simp: hir_resolve_direct_call_def hir_reset_call_def)

lemma recv_not_base_iff: "hir_recv_not_base recv \<longleftrightarrow> recv \<noteq> None \<and> (\<forall>x. recv \<noteq> Some (EBase x))"
  by (auto simp: hir_recv_not_base_def split: option.splits expr.splits)

lemma class_method_iff:
  "class_method c owner i m \<longleftrightarrow> (case hir_find_class c owner of None \<Rightarrow> False
     | Some d \<Rightarrow> nat i < length (cd_methods d) \<and> cd_methods d ! nat i = m)"
  by (auto simp: class_method_def hir_find_first [symmetric] split: option.splits)

lemma interface_method_iff:
  "interface_method c owner i \<longleftrightarrow> hir_find_class c owner = None \<and> (case hir_find_interface c owner of
     None \<Rightarrow> False | Some d \<Rightarrow> nat i < length (id_methods d))"
  by (auto simp: interface_method_def hir_find_first [symmetric] split: option.splits)

lemma member_spec:
  "member_resolved c recv b st i mo q qn (hir_resolve_member_call c recv b st i mo q qn)"
proof -
  define ff where "ff = hir_find_func c qn"
  define fc where "fc = hir_find_class c mo"
  define fi where "fi = hir_find_interface c mo"
  have i: "i \<ge> 0 \<Longrightarrow> i \<ge> int n \<longleftrightarrow> \<not> nat i < n" "i \<ge> 0 \<Longrightarrow> i < int n \<longleftrightarrow> nat i < n" for n by linarith+
  consider "b \<noteq> -1" | "b = -1" "q \<and> qn \<noteq> None" | "b = -1" "\<not> (q \<and> qn \<noteq> None)" "mo = None \<or> i < 0"
    | "b = -1" "\<not> (q \<and> qn \<noteq> None)" "mo \<noteq> None" "i \<ge> 0" by fastforce
  then show ?thesis
  proof cases
    case 1
    then show ?thesis by (simp add: member_resolved_def hir_resolve_member_call_def hir_reset_call_def Let_def)
  next
    case 2
    then show ?thesis
      unfolding member_resolved_def hir_resolve_member_call_def hir_find_first [symmetric] ff_def [symmetric]
      by (cases ff) (auto simp: hir_reset_call_def Let_def)
  next
    case 3
    then show ?thesis by (auto simp: member_resolved_def hir_resolve_member_call_def hir_reset_call_def Let_def)
  next
    case 4
    have r: "hir_resolve_member_call c recv b st i mo q qn =
       \<lparr> rc_kind = (case fc of
            Some d \<Rightarrow> if \<not> nat i < length (cd_methods d) then CALL_UNRESOLVED
              else if md_is_static (cd_methods d ! nat i) then CALL_STATIC_METHOD
              else if hir_recv_not_base recv \<and> hir_method_is_virtual (cd_methods d ! nat i) then CALL_VIRTUAL_METHOD
              else CALL_DIRECT_METHOD
          | None \<Rightarrow> (case fi of Some d \<Rightarrow> if nat i < length (id_methods d) then CALL_INTERFACE_METHOD
              else CALL_UNRESOLVED | None \<Rightarrow> CALL_UNRESOLVED)),
         rc_builtin = -1, rc_symbol = None, rc_owner = mo, rc_method = i, rc_has_receiver = \<not> st \<rparr>"
      unfolding hir_resolve_member_call_def fc_def [symmetric] fi_def [symmetric]
      using 4 by (auto simp: hir_reset_call_def Let_def i split: option.splits)
    have v: "((md_is_virtual m \<or> md_is_override m \<or> md_is_abstract m) \<and> recv \<noteq> None \<and> (\<forall>x. recv \<noteq> Some (EBase x))) =
        (hir_recv_not_base recv \<and> hir_method_is_virtual m)" for m
      by (auto simp: recv_not_base_iff hir_method_is_virtual_def)
    show ?thesis
      unfolding member_resolved_def Let_def r class_method_iff interface_method_iff v
        fc_def [symmetric] fi_def [symmetric]
      using 4 by (cases fc; cases fi) auto
  qed
qed

text \<open>The pass on one node, and the nodes of a tree after the pass.\<close>

fun lower_node :: "hir_context \<Rightarrow> node \<Rightarrow> node" where
  "lower_node c (Node_E e) = Node_E (the (hir_lower_expr c (Some e)))"
| "lower_node c (Node_S s) = Node_S (the (hir_lower_stmt c (Some s)))"

lemma lower_lists:
  "hir_lower_stmt_list c ss = map (hir_lower_stmt c) ss"
  "hir_lower_expr_list c es = map (hir_lower_expr c) es"
  "hir_lower_stmt_cases c cs = map (\<lambda>(m, b, d). (hir_lower_expr c m, hir_lower_stmt c b, d)) cs"
  "hir_lower_expr_cases c ds = map (\<lambda>(m, b, d). (hir_lower_expr c m, hir_lower_expr c b, d)) ds"
  "map p_default (hir_lower_param_list c ps) = map (hir_lower_expr c) (map p_default ps)"
proof -
  show "map p_default (hir_lower_param_list c ps) = map (hir_lower_expr c) (map p_default ps)"
  proof (induction ps)
    case (Cons p ps)
    then show ?case by (cases p) simp
  qed simp
qed (induction ss, simp_all, induction es, simp_all, induction cs, auto, induction ds, auto)

lemma lower_expr_Some: "\<exists>e'. hir_lower_expr c (Some e) = Some e'"
  by (cases e) simp_all

lemma lower_stmt_Some: "\<exists>s'. hir_lower_stmt c (Some s) = Some s'"
  by (cases s) simp_all

lemma opt_e_lower [simp]: "opt_e (hir_lower_expr c e) = map (lower_node c) (opt_e e)"
proof (cases e)
  case (Some x)
  then show ?thesis using lower_expr_Some [of c x] by auto
qed simp

lemma opt_s_lower [simp]: "opt_s (hir_lower_stmt c s) = map (lower_node c) (opt_s s)"
proof (cases s)
  case (Some x)
  then show ?thesis using lower_stmt_Some [of c x] by auto
qed simp

lemma all_e_lower: "all_e (map (hir_lower_expr c) es) = map (lower_node c) (all_e es)"
  by (induction es) (simp_all del: map_map)

lemma all_s_lower: "concat (map opt_s (map (hir_lower_stmt c) ss)) = map (lower_node c) (concat (map opt_s ss))"
  by (induction ss) simp_all

lemma cases_lower:
  "concat (map (\<lambda>(m, b, _). opt_e m @ opt_s b) (map (\<lambda>(m, b, d). (hir_lower_expr c m, hir_lower_stmt c b, d)) cs)) =
     map (lower_node c) (concat (map (\<lambda>(m, b, _). opt_e m @ opt_s b) cs))"
  "concat (map (\<lambda>(m, b, _). opt_e m @ opt_e b) (map (\<lambda>(m, b, d). (hir_lower_expr c m, hir_lower_expr c b, d)) ds)) =
     map (lower_node c) (concat (map (\<lambda>(m, b, _). opt_e m @ opt_e b) ds))"
  by (induction cs, auto, induction ds, auto)

lemma param_nodes_lower: "param_nodes (hir_lower_param_list c ps) = map (lower_node c) (param_nodes ps)"
  unfolding param_nodes_def lower_lists(5) all_e_lower ..

lemmas lower_parts = param_nodes_lower lower_lists(1-4) all_e_lower all_s_lower cases_lower

lemma node_parts_lower: "node_parts (lower_node c n) = map (lower_node c) (node_parts n)"
proof (cases n)
  case (Node_E e)
  then show ?thesis by (cases e) (simp_all only: lower_node.simps hir_lower_expr.simps option.sel node_parts.simps expr_parts.simps lower_parts opt_e_lower opt_s_lower map_append list.map)
next
  case (Node_S s)
  then show ?thesis by (cases s) (simp_all only: lower_node.simps hir_lower_stmt.simps option.sel node_parts.simps stmt_parts.simps lower_parts opt_e_lower opt_s_lower map_append list.map)
qed

lemma occurs_lower: "occurs k m \<Longrightarrow> m = lower_node c n \<Longrightarrow> \<exists>j. k = lower_node c j"
proof (induction arbitrary: n rule: occurs.induct)
  case (occurs_part m n' k)
  then show ?case using node_parts_lower [of c n] by auto
qed blast

lemma lowered_call:
  assumes "same_targets c d" "Node_E e = lower_node c j"
  shows "call_resolved d e"
proof -
  obtain x where x: "j = Node_E x" using assms(2) by (cases j) auto
  have "direct_resolved d b n (hir_resolve_direct_call c b n)" for b n
    using direct_spec [of d b n] assms(1) by (simp add: same_targets_def)
  moreover have "member_resolved d (hir_lower_expr c r) b st i mo q qn
      (hir_resolve_member_call c (hir_lower_expr c r) b st i mo q qn)" for r b st i mo q qn
    using member_spec [of d "hir_lower_expr c r" b st i mo q qn] assms(1) unfolding same_targets_def by metis
  ultimately show ?thesis using assms(2) x by (cases x) (simp_all del: resolve_member_lower)
qed

lemma program_nodes_lower: "program_nodes (lower_with c p) = map (lower_node c) (program_nodes p)"
proof -
  have ps: "param_nodes (hir_lower_params c ps) = map (lower_node c) (param_nodes ps)" for ps
    unfolding hir_lower_params_def param_nodes_lower ..
  have m: "method_nodes (hir_lower_method c m) = map (lower_node c) (method_nodes m)" for m
    unfolding method_nodes_def hir_lower_method_def by (simp add: ps del: map_map map_concat)
  have ms: "concat (map method_nodes (map (hir_lower_method c) ms)) = map (lower_node c) (concat (map method_nodes ms))" for ms
    by (induction ms) (simp_all add: m)
  have fs: "map fd_init (map (\<lambda>f. f\<lparr> fd_init := hir_lower_expr c (fd_init f) \<rparr>) xs) = map (hir_lower_expr c) (map fd_init xs)" for xs
    by simp
  have fns: "concat (map (\<lambda>f. param_nodes (fn_params f) @ opt_s (fn_body f))
      (map (\<lambda>f. f\<lparr> fn_params := hir_lower_params c (fn_params f), fn_body := hir_lower_stmt c (fn_body f) \<rparr>) xs)) =
      map (lower_node c) (concat (map (\<lambda>f. param_nodes (fn_params f) @ opt_s (fn_body f)) xs))" for xs
    by (induction xs) (simp_all add: ps)
  have cls: "concat (map (\<lambda>d. all_e (map fd_init (cd_fields d)) @ concat (map method_nodes (cd_methods d)))
      (map (\<lambda>d. d\<lparr> cd_fields := map (\<lambda>f. f\<lparr> fd_init := hir_lower_expr c (fd_init f) \<rparr>) (cd_fields d),
         cd_methods := map (hir_lower_method c) (cd_methods d) \<rparr>) xs)) =
      map (lower_node c) (concat (map (\<lambda>d. all_e (map fd_init (cd_fields d)) @ concat (map method_nodes (cd_methods d))) xs))" for xs
  proof (induction xs)
    case (Cons x xs)
    have "all_e (map fd_init (map (\<lambda>f. f\<lparr> fd_init := hir_lower_expr c (fd_init f) \<rparr>) (cd_fields x))) =
        map (lower_node c) (all_e (map fd_init (cd_fields x)))" unfolding fs all_e_lower ..
    then show ?case using Cons ms [of "cd_methods x"] by (simp add: o_assoc)
  qed simp
  have ifs: "concat (map (\<lambda>d. concat (map method_nodes (id_methods d)))
      (map (\<lambda>d. d\<lparr> id_methods := map (hir_lower_method c) (id_methods d) \<rparr>) xs)) =
      map (lower_node c) (concat (map (\<lambda>d. concat (map method_nodes (id_methods d))) xs))" for xs
  proof (induction xs)
    case (Cons x xs)
    then show ?case using ms [of "id_methods x"] by simp
  qed simp
  show ?thesis
    unfolding program_nodes_def lower_with_def hir_program.simps fns cls ifs all_s_lower map_append ..
qed

text \<open>A program without what the pass writes: the record of every call reset.\<close>

function forget_stmt :: "stmt option \<Rightarrow> stmt option"
  and forget_stmt_list :: "stmt option list \<Rightarrow> stmt option list"
  and forget_stmt_cases :: "(expr option \<times> stmt option \<times> bool) list \<Rightarrow>
    (expr option \<times> stmt option \<times> bool) list"
  and forget_expr :: "expr option \<Rightarrow> expr option"
  and forget_expr_list :: "expr option list \<Rightarrow> expr option list"
  and forget_expr_cases :: "(expr option \<times> expr option \<times> bool) list \<Rightarrow>
    (expr option \<times> expr option \<times> bool) list"
  and forget_param_list :: "param list \<Rightarrow> param list" where
  "forget_stmt None = None"
| "forget_stmt (Some (SBlock a stmts)) =
     Some (SBlock a (forget_stmt_list stmts))"
| "forget_stmt (Some (SVar a t n pf init c u)) =
     Some (SVar a t n pf (forget_expr init) c u)"
| "forget_stmt (Some (SAssign a n value)) =
     Some (SAssign a n (forget_expr value))"
| "forget_stmt (Some (SExpr a e)) =
     Some (SExpr a (forget_expr e))"
| "forget_stmt (Some (SIf a cond then_s else_s pat ic cv)) =
     Some (SIf a (forget_expr cond) (forget_stmt then_s) (forget_stmt else_s) pat ic cv)"
| "forget_stmt (Some (SSwitch a value cases)) =
     Some (SSwitch a (forget_expr value) (forget_stmt_cases cases))"
| "forget_stmt (Some (SWhile a cond body)) =
     Some (SWhile a (forget_expr cond) (forget_stmt body))"
| "forget_stmt (Some (SFor a init cond post body)) =
     Some (SFor a (forget_stmt init) (forget_expr cond) (forget_expr post) (forget_stmt body))"
| "forget_stmt (Some (SReturn a e)) =
     Some (SReturn a (forget_expr e))"
| "forget_stmt (Some (STry a try_block catch_block t n hp)) =
     Some (STry a (forget_stmt try_block) (forget_stmt catch_block) t n hp)"
| "forget_stmt (Some (SThrow a e)) =
     Some (SThrow a (forget_expr e))"
| "forget_stmt (Some (SBlockJump a target)) =
     Some (SBlockJump a (forget_expr target))"
| "forget_stmt (Some (SBreak a)) = Some (SBreak a)"
| "forget_stmt (Some (SContinue a)) = Some (SContinue a)"
| "forget_stmt (Some (SBlockRecord a n ip d)) = Some (SBlockRecord a n ip d)"
| "forget_stmt_list [] = []"
| "forget_stmt_list (s # ss) = forget_stmt s # forget_stmt_list ss"
| "forget_stmt_cases [] = []"
| "forget_stmt_cases ((match, body, d) # cases) =
     (forget_expr match, forget_stmt body, d) # forget_stmt_cases cases"
| "forget_expr None = None"
| "forget_expr (Some (ECall i name args an builtin ta)) =
     Some (ECall (i\<lparr> ei_call := hir_reset_call \<rparr>) name
       (forget_expr_list args) an builtin ta)"
| "forget_expr (Some (EMemberCall i recv n args an builtin ta st sty mi mo q qn)) =
     Some (EMemberCall (i\<lparr> ei_call := hir_reset_call \<rparr>)
       (forget_expr recv) n (forget_expr_list args) an builtin ta st sty mi mo q qn)"
| "forget_expr (Some (EInvoke i callee args an)) =
     Some (EInvoke i (forget_expr callee) (forget_expr_list args) an)"
| "forget_expr (Some (EBinary i oper left right)) =
     Some (EBinary i oper (forget_expr left) (forget_expr right))"
| "forget_expr (Some (EUnary i oper e pf)) =
     Some (EUnary i oper (forget_expr e) pf)"
| "forget_expr (Some (EArray i items)) =
     Some (EArray i (forget_expr_list items))"
| "forget_expr (Some (EPackage i items)) =
     Some (EPackage i (forget_expr_list items))"
| "forget_expr (Some (EDict i keys values)) =
     Some (EDict i (forget_expr_list keys) (forget_expr_list values))"
| "forget_expr (Some (EAssign i target value c)) =
     Some (EAssign i (forget_expr target) (forget_expr value) c)"
| "forget_expr (Some (EMember i recv n st ty fi fo ec ev et)) =
     Some (EMember i (forget_expr recv) n st ty fi fo ec ev et)"
| "forget_expr (Some (EIndex i recv index n)) =
     Some (EIndex i (forget_expr recv) (forget_expr index) n)"
| "forget_expr (Some (EIf i cond then_e else_e)) =
     Some (EIf i (forget_expr cond) (forget_expr then_e) (forget_expr else_e))"
| "forget_expr (Some (ESwitch i value cases)) =
     Some (ESwitch i (forget_expr value) (forget_expr_cases cases))"
| "forget_expr (Some (EIs i e t)) =
     Some (EIs i (forget_expr e) t)"
| "forget_expr (Some (ENew i n args an ctor)) =
     Some (ENew i n (forget_expr_list args) an ctor)"
| "forget_expr (Some (ECast i t e mi mo)) =
     Some (ECast i t (forget_expr e) mi mo)"
| "forget_expr (Some (EAnonFunc i t params body s dn qn n)) =
     Some (EAnonFunc i t (forget_param_list params) (forget_stmt body) s dn qn n)"
| "forget_expr (Some (EBlockLit i s body records dn n)) =
     Some (EBlockLit i s (forget_stmt body) records dn n)"
| "forget_expr (Some (EAwait i e)) =
     Some (EAwait i (forget_expr e))"
| "forget_expr (Some (EInt i v)) = Some (EInt i v)"
| "forget_expr (Some (EFloat i d)) = Some (EFloat i d)"
| "forget_expr (Some (EBool i v)) = Some (EBool i v)"
| "forget_expr (Some (EChar i v)) = Some (EChar i v)"
| "forget_expr (Some (EDefault i)) = Some (EDefault i)"
| "forget_expr (Some (ENull i)) = Some (ENull i)"
| "forget_expr (Some (EString i s)) = Some (EString i s)"
| "forget_expr (Some (EVar i n)) = Some (EVar i n)"
| "forget_expr (Some (EThis i)) = Some (EThis i)"
| "forget_expr (Some (EBase i)) = Some (EBase i)"
| "forget_expr (Some (EFuncRef i n b ta)) = Some (EFuncRef i n b ta)"
| "forget_expr_list [] = []"
| "forget_expr_list (e # es) = forget_expr e # forget_expr_list es"
| "forget_expr_cases [] = []"
| "forget_expr_cases ((match, body, d) # cases) =
     (forget_expr match, forget_expr body, d) # forget_expr_cases cases"
| "forget_param_list [] = []"
| "forget_param_list (Param a n t dv md # ps) =
     Param a n t (forget_expr dv) md # forget_param_list ps"
  by pat_completeness auto

termination
  by (relation "measure (case_sum
      (case_sum stmt_measure (case_sum stmts_measure stmt_cases_measure))
      (case_sum (case_sum expr_measure exprs_measure) (case_sum expr_cases_measure params_measure)))") auto

definition forget_method :: "method_decl \<Rightarrow> method_decl" where
  "forget_method m = m\<lparr> md_params := forget_param_list (md_params m), md_body := forget_stmt (md_body m) \<rparr>"

definition forget_calls :: "hir_program \<Rightarrow> hir_program" where
  "forget_calls p = \<lparr>
     hp_funcs = map (\<lambda>f. f\<lparr> fn_params := forget_param_list (fn_params f), fn_body := forget_stmt (fn_body f) \<rparr>) (hp_funcs p),
     hp_classes = map (\<lambda>d. d\<lparr>
       cd_fields := map (\<lambda>f. f\<lparr> fd_init := forget_expr (fd_init f) \<rparr>) (cd_fields d),
       cd_methods := map forget_method (cd_methods d) \<rparr>) (hp_classes p),
     hp_interfaces = map (\<lambda>d. d\<lparr> id_methods := map forget_method (id_methods d) \<rparr>) (hp_interfaces p),
     hp_globals = map forget_stmt (hp_globals p) \<rparr>"

lemma forget_lowered:
  "forget_stmt (hir_lower_stmt c s) = forget_stmt s"
  "forget_stmt_list (hir_lower_stmt_list c ss) = forget_stmt_list ss"
  "forget_stmt_cases (hir_lower_stmt_cases c cs) = forget_stmt_cases cs"
  "forget_expr (hir_lower_expr c e) = forget_expr e"
  "forget_expr_list (hir_lower_expr_list c es) = forget_expr_list es"
  "forget_expr_cases (hir_lower_expr_cases c ds) = forget_expr_cases ds"
  "forget_param_list (hir_lower_param_list c ps) = forget_param_list ps"
  by (induction c s and c ss and c cs and c e and c es and c ds and c ps
      rule: hir_lower_stmt_hir_lower_stmt_list_hir_lower_stmt_cases_hir_lower_expr_hir_lower_expr_list_hir_lower_expr_cases_hir_lower_param_list.induct)
     simp_all

lemma forget_lower_with: "forget_calls (lower_with c p) = forget_calls p"
proof -
  have "forget_method (hir_lower_method c m) = forget_method m" for m
    by (simp add: forget_method_def hir_lower_method_def hir_lower_params_def forget_lowered)
  then show ?thesis by (simp add: forget_calls_def lower_with_def hir_lower_params_def forget_lowered)
qed

text \<open>
  C17: the pass resolves every call of the program. After it, every call anywhere in the program
  carries the record its declarations call for: built-in, function, delegate of either kind, static,
  virtual, direct or interface method, exactly under the stated condition on the first declaration
  of the name, the index of the method and the receiver (a method of a class is dispatched virtually
  when it is virtual, an override or abstract, not static, and the receiver is not \<open>base\<close>), with
  the symbol, owner, index and receiver flag that go with it. Apart from the records of the calls
  the program is what it was.
\<close>

theorem hir_calls_resolved:
  assumes "q = kn_hir_lower_calls p"
  shows "(\<forall>e. in_program e q \<longrightarrow> call_resolved (hir_context_of q) e) \<and> forget_calls q = forget_calls p"
proof -
  have q: "q = lower_with (hir_context_of p) p" unfolding assms by (rule kn_hir_lower_calls_with)
  have t: "same_targets (hir_context_of p) (hir_context_of q)"
    using same_targets_lowered [of p] by (simp add: assms same_targets_def)
  have "call_resolved (hir_context_of q) e" if e: "in_program e q" for e
  proof -
    obtain m where m: "m \<in> set (program_nodes q)" "occurs (Node_E e) m" using e unfolding in_program_def by blast
    then obtain n where "m = lower_node (hir_context_of p) n" unfolding q program_nodes_lower by auto
    then show ?thesis using occurs_lower [OF m(2)] lowered_call [OF t] by blast
  qed
  then show ?thesis using forget_lower_with q by simp
qed

text \<open>A call on a variable, in a loop, of a virtual method.\<close>

definition shape_recv :: "expr option" where
  "shape_recv = Some (EVar (new_expr 1 1 1) (Some ''s''))"

definition shape_call :: "resolved_call \<Rightarrow> expr" where
  "shape_call r = EMemberCall ((new_expr 2 1 2)\<lparr> ei_call := r \<rparr>) shape_recv (Some ''Show'') [] [] (-1) [] False None 0
     (Some ''App.Shape'') False None"

definition shape_program :: "resolved_call \<Rightarrow> hir_program" where
  "shape_program r = \<lparr> hp_funcs = [],
     hp_classes = [\<lparr> cd_name = Some ''Shape'', cd_qname = Some ''App.Shape'', cd_base = None, cd_interfaces = [],
       cd_fields = [], cd_methods = [\<lparr> md_name = Some ''Show'', md_ret_type = type_make TY_VOID, md_params = [],
         md_body = None, md_is_static = False, md_is_virtual = True, md_is_override = False,
         md_is_abstract = False, md_is_constructor = False \<rparr>], cd_unit = Some ''App'' \<rparr>],
     hp_interfaces = [],
     hp_globals = [Some (SWhile 3 None (Some (SExpr 4 (Some (shape_call r)))))] \<rparr>"

definition shape_virtual :: resolved_call where
  "shape_virtual = \<lparr> rc_kind = CALL_VIRTUAL_METHOD, rc_builtin = -1, rc_symbol = None,
     rc_owner = Some ''App.Shape'', rc_method = 0, rc_has_receiver = True \<rparr>"

theorem hir_calls_resolved_witness:
  "kn_hir_lower_calls (shape_program hir_reset_call) = shape_program shape_virtual \<and>
   in_program (shape_call shape_virtual) (shape_program shape_virtual) \<and>
   member_resolved (hir_context_of (shape_program shape_virtual)) shape_recv (-1) False 0 (Some ''App.Shape'')
     False None shape_virtual \<and>
   forget_calls (shape_program shape_virtual) = forget_calls (shape_program hir_reset_call)"
proof -
  have q: "kn_hir_lower_calls (shape_program hir_reset_call) = shape_program shape_virtual" by code_simp
  have o: "occurs (Node_E (shape_call r)) (Node_S (SExpr 4 (Some (shape_call r))))" for r
    by (rule occurs_part [OF _ occurs_self]) simp
  have "occurs (Node_E (shape_call r)) (Node_S (SWhile 3 None (Some (SExpr 4 (Some (shape_call r))))))" for r
    by (rule occurs_part [OF _ o]) simp
  then have i: "in_program (shape_call r) (shape_program r)" for r
    by (simp add: in_program_def program_nodes_def shape_program_def)
  have "call_resolved (hir_context_of (shape_program shape_virtual)) (shape_call shape_virtual)"
    using hir_calls_resolved [OF q [symmetric]] i by blast
  then have "member_resolved (hir_context_of (shape_program shape_virtual)) shape_recv (-1) False 0 (Some ''App.Shape'')
     False None shape_virtual" by (simp add: shape_call_def)
  then show ?thesis using hir_calls_resolved [OF q [symmetric]] q i by blast
qed

subsection \<open>Statistics\<close>

text \<open>Each call and each binary operation is counted once in its class.\<close>

definition hir_balanced :: "hir_stats \<Rightarrow> bool" where
  "hir_balanced s \<longleftrightarrow>
     hs_calls s = hs_builtin_calls s + hs_function_calls s + hs_delegate_calls s +
       hs_static_method_calls s + hs_direct_method_calls s + hs_virtual_method_calls s +
       hs_interface_method_calls s + hs_unresolved_calls s \<and>
     hs_binaries s = hs_binary_numeric_arithmetic s + hs_binary_string_concat s +
       hs_binary_pointer_arithmetic s + hs_binary_bitwise s + hs_binary_string_equality s +
       hs_binary_reference_equality s + hs_binary_scalar_equality s + hs_binary_numeric_comparison s +
       hs_binary_logical s + hs_unresolved_binaries s"

lemma balanced_steps [simp]:
  "hir_balanced s \<Longrightarrow> hir_balanced (count_expr i s)"
  "hir_balanced s \<Longrightarrow> hir_balanced (hir_stats_call i s)"
  "hir_balanced s \<Longrightarrow> hir_balanced (hir_stats_binary i s)"
  by (simp_all add: hir_balanced_def count_expr_def hir_stats_call_def hir_stats_binary_def Let_def
      split: call_target.split binary_lowering.split)

lemmas hir_stats_induct =
  hir_stats_stmt_hir_stats_stmt_list_hir_stats_stmt_cases_hir_stats_expr_hir_stats_expr_list_hir_stats_expr_cases_hir_stats_param_list.induct

lemma balanced_walk:
  "hir_balanced t \<Longrightarrow> hir_balanced (hir_stats_stmt s t)"
  "hir_balanced t \<Longrightarrow> hir_balanced (hir_stats_stmt_list ss t)"
  "hir_balanced t \<Longrightarrow> hir_balanced (hir_stats_stmt_cases cs t)"
  "hir_balanced t \<Longrightarrow> hir_balanced (hir_stats_expr e t)"
  "hir_balanced t \<Longrightarrow> hir_balanced (hir_stats_expr_list es t)"
  "hir_balanced t \<Longrightarrow> hir_balanced (hir_stats_expr_cases ds t)"
  "hir_balanced t \<Longrightarrow> hir_balanced (hir_stats_param_list ps t)"
  by (induction s t and ss t and cs t and e t and es t and ds t and ps t rule: hir_stats_induct)
     simp_all

text \<open>Statistics that agree in all but the classes of the calls.\<close>

definition same_counts :: "hir_stats \<Rightarrow> hir_stats \<Rightarrow> bool" where
  "same_counts s t \<longleftrightarrow> hs_expressions s = hs_expressions t \<and> hs_typed s = hs_typed t \<and>
     hs_calls s = hs_calls t \<and> hs_binaries s = hs_binaries t \<and>
     hs_unresolved_binaries s = hs_unresolved_binaries t \<and>
     hs_binary_numeric_arithmetic s = hs_binary_numeric_arithmetic t \<and>
     hs_binary_string_concat s = hs_binary_string_concat t \<and>
     hs_binary_pointer_arithmetic s = hs_binary_pointer_arithmetic t \<and>
     hs_binary_bitwise s = hs_binary_bitwise t \<and>
     hs_binary_string_equality s = hs_binary_string_equality t \<and>
     hs_binary_reference_equality s = hs_binary_reference_equality t \<and>
     hs_binary_scalar_equality s = hs_binary_scalar_equality t \<and>
     hs_binary_numeric_comparison s = hs_binary_numeric_comparison t \<and>
     hs_binary_logical s = hs_binary_logical t"

lemma same_counts_refl [simp]: "same_counts s s"
  by (simp add: same_counts_def)

lemma same_counts_steps [simp]:
  "same_counts s t \<Longrightarrow> same_counts (count_expr (i\<lparr> ei_call := r \<rparr>) s) (count_expr i t)"
  "same_counts s t \<Longrightarrow> same_counts (count_expr i s) (count_expr i t)"
  "same_counts s t \<Longrightarrow> same_counts (hir_stats_call i s) (hir_stats_call j t)"
  "same_counts s t \<Longrightarrow> same_counts (hir_stats_binary i s) (hir_stats_binary i t)"
  by (simp_all add: same_counts_def count_expr_def hir_stats_call_def hir_stats_binary_def Let_def
      split: call_target.split binary_lowering.split)

lemma same_counts_walk:
  "same_counts u t \<Longrightarrow> same_counts (hir_stats_stmt (hir_lower_stmt c s) u) (hir_stats_stmt s t)"
  "same_counts u t \<Longrightarrow> same_counts (hir_stats_stmt_list (hir_lower_stmt_list c ss) u) (hir_stats_stmt_list ss t)"
  "same_counts u t \<Longrightarrow> same_counts (hir_stats_stmt_cases (hir_lower_stmt_cases c cs) u) (hir_stats_stmt_cases cs t)"
  "same_counts u t \<Longrightarrow> same_counts (hir_stats_expr (hir_lower_expr c e) u) (hir_stats_expr e t)"
  "same_counts u t \<Longrightarrow> same_counts (hir_stats_expr_list (hir_lower_expr_list c es) u) (hir_stats_expr_list es t)"
  "same_counts u t \<Longrightarrow> same_counts (hir_stats_expr_cases (hir_lower_expr_cases c ds) u) (hir_stats_expr_cases ds t)"
  "same_counts u t \<Longrightarrow> same_counts (hir_stats_param_list (hir_lower_param_list c ps) u) (hir_stats_param_list ps t)"
  by (induction s t and ss t and cs t and e t and es t and ds t and ps t
      arbitrary: u and u and u and u and u and u and u rule: hir_stats_induct)
     simp_all

lemma fold_rel:
  assumes "\<And>x s t. R s t \<Longrightarrow> R (f (g x) s) (f x t)" "R s t"
  shows "R (fold f (map g xs) s) (fold f xs t)"
  using assms(2) by (induction xs arbitrary: s t) (auto intro: assms(1))

lemma fold_keeps:
  assumes "\<And>x s. P s \<Longrightarrow> P (f x s)" "P s"
  shows "P (fold f xs s)"
  using assms(2) by (induction xs arbitrary: s) (auto intro: assms(1))

lemma stats_method_walk:
  "hir_balanced t \<Longrightarrow> hir_balanced (hir_stats_method m t)"
  "same_counts u t \<Longrightarrow> same_counts (hir_stats_method (hir_lower_method c m) u) (hir_stats_method m t)"
  by (simp_all add: hir_stats_method_def hir_lower_method_def hir_stats_params_def hir_lower_params_def
      balanced_walk same_counts_walk)

lemma balanced_parts:
  "hir_balanced t \<Longrightarrow> hir_balanced (hir_stats_stmt (fn_body f) (hir_stats_params (fn_params f) t))"
  "hir_balanced t \<Longrightarrow> hir_balanced (fold hir_stats_method ms t)"
  "hir_balanced t \<Longrightarrow> hir_balanced (fold (\<lambda>f. hir_stats_expr (fd_init f)) fs t)"
  unfolding hir_stats_params_def
  by (blast intro: balanced_walk)
     (rule fold_keeps [where P = hir_balanced], erule stats_method_walk(1), assumption,
      rule fold_keeps [where P = hir_balanced], erule balanced_walk(4), assumption)

lemma collect_balanced: "hir_balanced (kn_hir_collect_stats p)"
proof -
  have 0: "hir_balanced hir_no_stats" by (simp add: hir_balanced_def hir_no_stats_def)
  show ?thesis
    unfolding kn_hir_collect_stats_def Let_def
    by (rule fold_keeps [where P = hir_balanced], erule balanced_parts(2),
        rule fold_keeps [where P = hir_balanced], erule balanced_parts(2) [OF balanced_parts(3)],
        rule fold_keeps [where P = hir_balanced], erule balanced_parts(1),
        rule fold_keeps [where P = hir_balanced], erule balanced_walk(1), rule 0)
qed

lemma same_parts:
  "same_counts u t \<Longrightarrow> same_counts (hir_stats_stmt (hir_lower_stmt c b) (hir_stats_params (hir_lower_params c ps) u))
     (hir_stats_stmt b (hir_stats_params ps t))"
  "same_counts u t \<Longrightarrow> same_counts (fold hir_stats_method (map (hir_lower_method c) ms) u) (fold hir_stats_method ms t)"
  "same_counts u t \<Longrightarrow> same_counts (fold (\<lambda>f. hir_stats_expr (fd_init f))
       (map (\<lambda>f. f\<lparr> fd_init := hir_lower_expr c (fd_init f) \<rparr>) fs) u) (fold (\<lambda>f. hir_stats_expr (fd_init f)) fs t)"
proof -
  show "same_counts u t \<Longrightarrow> same_counts (hir_stats_stmt (hir_lower_stmt c b) (hir_stats_params (hir_lower_params c ps) u))
     (hir_stats_stmt b (hir_stats_params ps t))"
    unfolding hir_stats_params_def hir_lower_params_def by (intro same_counts_walk)
  show "same_counts u t \<Longrightarrow> same_counts (fold hir_stats_method (map (hir_lower_method c) ms) u) (fold hir_stats_method ms t)"
    by (rule fold_rel [where R = same_counts], erule stats_method_walk(2), assumption)
  show "same_counts u t \<Longrightarrow> same_counts (fold (\<lambda>f. hir_stats_expr (fd_init f))
       (map (\<lambda>f. f\<lparr> fd_init := hir_lower_expr c (fd_init f) \<rparr>) fs) u) (fold (\<lambda>f. hir_stats_expr (fd_init f)) fs t)"
    by (rule fold_rel [where R = same_counts]) (simp_all add: same_counts_walk)
qed

lemma collect_lowered: "same_counts (kn_hir_collect_stats (lower_with c p)) (kn_hir_collect_stats p)"
  unfolding kn_hir_collect_stats_def Let_def lower_with_def hir_program.simps
proof (intro fold_rel [where R = same_counts])
qed (simp_all add: same_parts same_counts_walk)

text \<open>
  C18: The statistics of a program classify every call and every binary operation exactly once,
  and resolving the calls moves calls between their classes only: the numbers of expressions,
  typed expressions, calls and binary operations of every kind stay.
\<close>

theorem hir_stats_partition:
  "hir_balanced (kn_hir_collect_stats p) \<and>
   same_counts (kn_hir_collect_stats (kn_hir_lower_calls p)) (kn_hir_collect_stats p)"
  using collect_balanced collect_lowered by (simp add: kn_hir_lower_calls_with)

end
