(* ===== verification/KncTables.thy ===== *)
theory KncTables
  imports Ast
begin

text \<open>
  The tables of the bytecode emitter, \<open>apps/kinal/src/kn_knc.c\<close>: growable buffers, the types the
  virtual machine knows, the constant pools, the types, globals and static fields of a program,
  and the layout of the fields of a class.

  A buffer that cannot grow ends the compiler (\<open>kn_die\<close>), which is the result \<open>None\<close> of a push;
  the tables below are the contents of their buffers, for runs in which memory is served.
\<close>

subsection \<open>Buffers\<close>

text \<open>The first \<open>count\<close> items and the capacity.\<close>

record 'a knc_buf =
  bf_items :: "'a list"
  bf_cap :: nat

definition buf_push :: "amem \<Rightarrow> nat \<Rightarrow> nat \<Rightarrow> 'a knc_buf \<Rightarrow> 'a \<Rightarrow> 'a knc_buf option" where
  "buf_push m item_size first_cap buf value =
     (if length (bf_items buf) + 1 > bf_cap buf
      then (let new_cap = (if bf_cap buf \<noteq> 0 then bf_cap buf * 2 else first_cap)
            in if alloc_ok m (item_size * new_cap)
               then Some \<lparr> bf_items = bf_items buf @ [value], bf_cap = new_cap \<rparr> else None)
      else Some (buf\<lparr> bf_items := bf_items buf @ [value] \<rparr>))"

definition intbuf_push :: "amem \<Rightarrow> int knc_buf \<Rightarrow> int \<Rightarrow> int knc_buf option" where
  "intbuf_push m = buf_push m 4 8"

definition strbuf_push :: "amem \<Rightarrow> cstr knc_buf \<Rightarrow> cstr \<Rightarrow> cstr knc_buf option" where
  "strbuf_push m = buf_push m 8 8"

definition floatbuf_push :: "amem \<Rightarrow> u64 knc_buf \<Rightarrow> u64 \<Rightarrow> u64 knc_buf option" where
  "floatbuf_push m = buf_push m 8 8"

definition bytebuf_push :: "amem \<Rightarrow> 8 word knc_buf \<Rightarrow> 8 word \<Rightarrow> 8 word knc_buf option" where
  "bytebuf_push m = buf_push m 1 64"

definition patchbuf_push :: "amem \<Rightarrow> int knc_buf \<Rightarrow> int \<Rightarrow> int knc_buf option" where
  "patchbuf_push m = buf_push m 4 8"

text \<open>\<open>int_array_ensure\<close>: the capacity is doubled until it is enough.\<close>

function ensured_cap :: "nat \<Rightarrow> nat \<Rightarrow> nat" where
  "ensured_cap new_cap needed =
     (if new_cap < needed \<and> new_cap > 0 then ensured_cap (new_cap * 2) needed else new_cap)"
  by pat_completeness auto

termination
  by (relation "measure (\<lambda>(c, n). n - c)") auto

declare ensured_cap.simps [simp del]

definition int_array_ensure :: "amem \<Rightarrow> int knc_buf \<Rightarrow> nat \<Rightarrow> int knc_buf option" where
  "int_array_ensure m buf needed =
     (if needed \<le> bf_cap buf then Some buf
      else
        let new_cap = ensured_cap (if bf_cap buf \<noteq> 0 then bf_cap buf else 8) needed
        in if alloc_ok m (4 * new_cap) then Some (buf\<lparr> bf_cap := new_cap \<rparr>) else None)"

definition int_array_push_unique :: "amem \<Rightarrow> int knc_buf \<Rightarrow> int \<Rightarrow> int knc_buf option" where
  "int_array_push_unique m buf value =
     (if value \<in> set (bf_items buf) then Some buf
      else map_option (\<lambda>b. b\<lparr> bf_items := bf_items b @ [value] \<rparr>)
             (int_array_ensure m buf (length (bf_items buf) + 1)))"

subsection \<open>Types\<close>

definition type_is_integerish :: "ty \<Rightarrow> bool" where
  "type_is_integerish t \<longleftrightarrow> ty_kind t \<in> {TY_BYTE, TY_CHAR, TY_INT, TY_I8, TY_I16, TY_I32, TY_I64,
     TY_U8, TY_U16, TY_U32, TY_U64, TY_ISIZE, TY_USIZE, TY_ENUM}"

definition type_is_floatish :: "ty \<Rightarrow> bool" where
  "type_is_floatish t \<longleftrightarrow> ty_kind t \<in> {TY_FLOAT, TY_F16, TY_F32, TY_F64, TY_F128}"

definition type_is_vm_value :: "ty \<Rightarrow> bool" where
  "type_is_vm_value t \<longleftrightarrow>
     (if type_is_integerish t then True else if type_is_floatish t then True
      else ty_kind t \<in> {TY_BOOL, TY_STRING, TY_ARRAY, TY_PTR, TY_CLASS, TY_STRUCT, TY_PACKAGE,
        TY_ANY, TY_NULL, TY_VOID})"

datatype value_kind = KNC_VALUE_NULL | KNC_VALUE_INT | KNC_VALUE_FLOAT | KNC_VALUE_BOOL
  | KNC_VALUE_STRING | KNC_VALUE_CHAR | KNC_VALUE_ARRAY | KNC_VALUE_OBJECT | KNC_VALUE_POINTER

definition value_kind_code :: "value_kind \<Rightarrow> int" where
  "value_kind_code k = (case k of KNC_VALUE_NULL \<Rightarrow> 0 | KNC_VALUE_INT \<Rightarrow> 1 | KNC_VALUE_FLOAT \<Rightarrow> 2
     | KNC_VALUE_BOOL \<Rightarrow> 3 | KNC_VALUE_STRING \<Rightarrow> 4 | KNC_VALUE_CHAR \<Rightarrow> 5 | KNC_VALUE_ARRAY \<Rightarrow> 6
     | KNC_VALUE_OBJECT \<Rightarrow> 7 | KNC_VALUE_POINTER \<Rightarrow> 8)"

definition value_kind_from_type :: "ty \<Rightarrow> value_kind" where
  "value_kind_from_type t =
     (if ty_kind t = TY_CHAR then KNC_VALUE_CHAR
      else if type_is_integerish t then KNC_VALUE_INT
      else if type_is_floatish t then KNC_VALUE_FLOAT
      else case ty_kind t of
        TY_BOOL \<Rightarrow> KNC_VALUE_BOOL
      | TY_STRING \<Rightarrow> KNC_VALUE_STRING
      | TY_ARRAY \<Rightarrow> KNC_VALUE_ARRAY
      | TY_PACKAGE \<Rightarrow> KNC_VALUE_ARRAY
      | TY_PTR \<Rightarrow> KNC_VALUE_POINTER
      | TY_CLASS \<Rightarrow> KNC_VALUE_OBJECT
      | TY_STRUCT \<Rightarrow> KNC_VALUE_OBJECT
      | _ \<Rightarrow> KNC_VALUE_NULL)"

definition knc_binary_has_signed_int_comparison_plan :: "expr option \<Rightarrow> bool" where
  "knc_binary_has_signed_int_comparison_plan e =
     (case e of Some (EBinary i _ _ _) \<Rightarrow>
        rb_kind (ei_binary i) = BIN_NUMERIC_COMPARISON \<and> \<not> rb_unsigned (ei_binary i) \<and>
        value_kind_from_type (rb_lhs (ei_binary i)) = KNC_VALUE_INT \<and>
        value_kind_from_type (rb_rhs (ei_binary i)) = KNC_VALUE_INT
      | _ \<Rightarrow> False)"

definition knc_base_type_name :: "type_kind \<Rightarrow> string" where
  "knc_base_type_name k = (case k of
     TY_VOID \<Rightarrow> ''void'' | TY_BOOL \<Rightarrow> ''bool'' | TY_BYTE \<Rightarrow> ''byte'' | TY_CHAR \<Rightarrow> ''char''
   | TY_INT \<Rightarrow> ''int'' | TY_FLOAT \<Rightarrow> ''float'' | TY_F16 \<Rightarrow> ''f16'' | TY_F32 \<Rightarrow> ''f32''
   | TY_F64 \<Rightarrow> ''f64'' | TY_F128 \<Rightarrow> ''f128'' | TY_I8 \<Rightarrow> ''i8'' | TY_I16 \<Rightarrow> ''i16''
   | TY_I32 \<Rightarrow> ''i32'' | TY_I64 \<Rightarrow> ''i64'' | TY_U8 \<Rightarrow> ''u8'' | TY_U16 \<Rightarrow> ''u16''
   | TY_U32 \<Rightarrow> ''u32'' | TY_U64 \<Rightarrow> ''u64'' | TY_ISIZE \<Rightarrow> ''isize'' | TY_USIZE \<Rightarrow> ''usize''
   | TY_STRING \<Rightarrow> ''string'' | TY_ANY \<Rightarrow> ''any'' | TY_NULL \<Rightarrow> ''null'' | TY_PACKAGE \<Rightarrow> ''Package''
   | _ \<Rightarrow> ''unknown'')"

text \<open>
  The text of a type and the equality of types walk into element types. An element type without
  a \<open>sub\<close> record is made from its kind alone, so the walk ends after at most two such steps.
\<close>

definition elem_of :: "ty \<Rightarrow> ty" where
  "elem_of t = type_immediate_elem (\<lambda>_. True) t"

definition pointee_of :: "ty \<Rightarrow> ty" where
  "pointee_of t = Ty (ty_elem t) TY_UNKNOWN 0 0 (ty_name t) None []"

fun ty_steps :: "ty \<Rightarrow> nat" where
  "ty_steps (Ty k e al pd nm sub pack) =
     (if k = TY_ARRAY \<or> k = TY_PTR then (if e = TY_ARRAY \<or> e = TY_PTR then 2 else 1) else 0) +
     (case sub of None \<Rightarrow> 0 | Some s \<Rightarrow> Suc (ty_steps s)) + sum_list (map (\<lambda>t. Suc (ty_steps t)) pack)"

lemma ty_steps_elem: "ty_kind t = TY_ARRAY \<Longrightarrow> ty_steps (elem_of t) < ty_steps t"
  by (cases t) (auto simp: elem_of_def type_immediate_elem_def split: option.splits)

lemma ty_steps_pointee: "ty_kind t = TY_PTR \<Longrightarrow> ty_steps (pointee_of t) < ty_steps t"
  by (cases t) (auto simp: pointee_of_def)

lemma ty_steps_package: "x \<in> set (ty_package t) \<Longrightarrow> ty_steps x < ty_steps t"
proof (cases t)
  case (Ty k e al pd nm sub pack)
  moreover assume "x \<in> set (ty_package t)"
  ultimately have "Suc (ty_steps x) \<le> sum_list (map (\<lambda>t. Suc (ty_steps t)) pack)"
    using member_le_sum_list [of "Suc (ty_steps x)" "map (\<lambda>t. Suc (ty_steps t)) pack"] by simp
  then show ?thesis using Ty by simp
qed

type_synonym text_buf = "char list \<times> nat"

definition append_text :: "nat \<Rightarrow> text_buf \<Rightarrow> string \<Rightarrow> text_buf" where
  "append_text cap b s = kn_append (fst b) cap (snd b) (Some s)"

definition has_type_name :: "ty \<Rightarrow> bool" where
  "has_type_name t \<longleftrightarrow> (ty_kind t = TY_CLASS \<or> ty_kind t = TY_STRUCT \<or> ty_kind t = TY_ENUM) \<and>
     ty_name t \<noteq> None"

function knc_append_type_text :: "nat \<Rightarrow> text_buf \<Rightarrow> ty \<Rightarrow> text_buf"
  and append_package_text :: "nat \<Rightarrow> text_buf \<Rightarrow> bool \<Rightarrow> ty list \<Rightarrow> text_buf" where
  "knc_append_type_text cap b t =
     (if ty_kind t = TY_ARRAY
      then append_text cap (knc_append_type_text cap b (elem_of t)) ''[]''
      else if ty_kind t = TY_PACKAGE
      then append_text cap (append_package_text cap (append_text cap b ''<'') True (ty_package t)) ''>''
      else if ty_kind t = TY_PTR
      then ((\<lambda>b. append_text cap b ''*'') ^^ nat (ty_ptr_depth t))
             (knc_append_type_text cap b (pointee_of t))
      else if has_type_name t then append_text cap b (the (ty_name t))
      else append_text cap b (knc_base_type_name (ty_kind t)))"
| "append_package_text cap b first [] = b"
| "append_package_text cap b first (t # ts) =
     append_package_text cap
       (knc_append_type_text cap (if first then b else append_text cap b '','') t) False ts"
  by pat_completeness auto

termination
proof (relation "measure (case_sum (\<lambda>(_, _, t). 2 * ty_steps t + 1)
    (\<lambda>(_, _, _, ts). 2 * sum_list (map (\<lambda>t. Suc (ty_steps t)) ts)))")
  fix cap b t
  assume "ty_kind t \<noteq> TY_ARRAY" "ty_kind t = TY_PACKAGE"
  then show "(Inr (cap, append_text cap b ''<'', True, ty_package t), Inl (cap, b, t))
      \<in> measure (case_sum (\<lambda>(_, _, t). 2 * ty_steps t + 1)
          (\<lambda>(_, _, _, ts). 2 * sum_list (map (\<lambda>t. Suc (ty_steps t)) ts)))"
    by (cases t) simp
qed (auto dest: ty_steps_elem ty_steps_pointee)

definition knc_type_text :: "ty \<Rightarrow> char list" where
  "knc_type_text t =
     (let (buf, n) = knc_append_type_text 256 (replicate 256 NUL, 0) t in take n buf)"

definition names_equal :: "ty \<Rightarrow> ty \<Rightarrow> bool" where
  "names_equal a b \<longleftrightarrow> ty_name a \<noteq> None \<and> ty_name b \<noteq> None \<and> kn_strcmp (ty_name a) (ty_name b) = 0"

function knc_type_equal :: "ty \<Rightarrow> ty \<Rightarrow> bool"
  and knc_types_equal :: "ty list \<Rightarrow> ty list \<Rightarrow> bool" where
  "knc_type_equal a b =
     (if ty_kind a \<noteq> ty_kind b then False
      else if ty_kind a = TY_ARRAY
      then (if ty_array_len a \<noteq> ty_array_len b then False else knc_type_equal (elem_of a) (elem_of b))
      else if ty_kind a = TY_PACKAGE
      then (if length (ty_package a) \<noteq> length (ty_package b) then False
            else knc_types_equal (ty_package a) (ty_package b))
      else if ty_kind a = TY_PTR
      then (if ty_elem a \<noteq> ty_elem b then False
            else if ty_ptr_depth a \<noteq> ty_ptr_depth b then False
            else if type_kind_has_name (ty_elem a) \<and> ty_name a \<noteq> None \<and> ty_name b \<noteq> None
            then kn_strcmp (ty_name a) (ty_name b) = 0
            else True)
      else if type_kind_has_name (ty_kind a) then names_equal a b
      else True)"
| "knc_types_equal [] bs = True"
| "knc_types_equal (a # as) bs =
     (case bs of [] \<Rightarrow> True
      | b # bs \<Rightarrow> (if \<not> knc_type_equal a b then False else knc_types_equal as bs))"
  by pat_completeness auto

termination
proof (relation "measure (case_sum (\<lambda>(a, _). 2 * ty_steps a + 1)
    (\<lambda>(as, _). 2 * sum_list (map (\<lambda>t. Suc (ty_steps t)) as)))")
  fix a b :: ty
  assume "\<not> ty_kind a \<noteq> ty_kind b" "ty_kind a \<noteq> TY_ARRAY" "ty_kind a = TY_PACKAGE"
  then show "(Inr (ty_package a, ty_package b), Inl (a, b))
      \<in> measure (case_sum (\<lambda>(a, _). 2 * ty_steps a + 1)
          (\<lambda>(as, _). 2 * sum_list (map (\<lambda>t. Suc (ty_steps t)) as)))"
    by (cases a) simp
qed (auto dest: ty_steps_elem)

subsection \<open>Programs\<close>

datatype local_storage = KNC_LOCAL_VALUE | KNC_LOCAL_CELL | KNC_LOCAL_CAPTURE

record knc_local =
  kl_name :: cstr
  kl_reg :: int
  kl_type :: ty
  kl_storage :: local_storage
  kl_capture_slot :: int

datatype knc_type_kind = KNC_TYPE_CLASS | KNC_TYPE_STRUCT | KNC_TYPE_INTERFACE

definition knc_type_kind_code :: "knc_type_kind \<Rightarrow> int" where
  "knc_type_kind_code k =
     (case k of KNC_TYPE_CLASS \<Rightarrow> 1 | KNC_TYPE_STRUCT \<Rightarrow> 2 | KNC_TYPE_INTERFACE \<Rightarrow> 3)"

record knc_type_record =
  kt_qname :: cstr
  kt_kind :: knc_type_kind
  kt_field_count :: int
  kt_base_type :: int
  kt_vtable :: "int list"
  kt_interfaces :: "int list"
  kt_direct_methods :: "int list"

record knc_global =
  kg_name :: cstr
  kg_type :: ty
  kg_slot :: int

record knc_static_field =
  ks_owner :: cstr
  ks_field :: int
  ks_type :: ty
  ks_slot :: int

record knc_capture =
  kc_name :: cstr
  kc_type :: ty
  kc_slot :: int

text \<open>What a function record is made from: a function, a method of a class, or a literal.\<close>

datatype callable_kind = KNC_CALLABLE_FUNC | KNC_CALLABLE_METHOD

record knc_func_record =
  kf_kind :: callable_kind
  kf_func :: "func option"
  kf_method :: "method_decl option"
  kf_owner_class :: "class_decl option"
  kf_method_index :: int
  kf_is_instance :: bool
  kf_debug_name :: cstr
  kf_index :: int
  kf_reachable :: bool
  kf_built :: bool
  kf_param_count :: int
  kf_reg_count :: int
  kf_return_kind :: int
  kf_synthetic :: "(param list \<times> stmt option \<times> ty) option"
  kf_synthetic_expr :: "nat option"
  kf_is_block :: bool
  kf_block_records :: "block_record list option"
  kf_captures :: "knc_capture list"
  kf_register_names :: "cstr list"
  kf_code :: "8 word list"

record knc_program =
  kp_funcs :: "knc_func_record list"
  kp_ints :: "int list"
  kp_floats :: "u64 list"
  kp_strings :: "cstr list"
  kp_types :: "knc_type_record list"
  kp_globals :: "knc_global list"
  kp_static_fields :: "knc_static_field list"
  kp_entry :: int
  kp_main_entry :: int
  kp_superloop :: bool
  kp_classes :: "class_decl list"
  kp_interfaces :: "interface_decl list"
  kp_structs :: "struct_decl list"
  kp_enums :: "enum_decl list"

subsection \<open>Constant pools\<close>

text \<open>The first index from \<open>i\<close> on whose item satisfies the test, or -1.\<close>

fun index_from :: "('a \<Rightarrow> bool) \<Rightarrow> nat \<Rightarrow> 'a list \<Rightarrow> int" where
  "index_from P i [] = -1"
| "index_from P i (x # xs) = (if P x then int i else index_from P (i + 1) xs)"

definition program_add_int :: "knc_program \<Rightarrow> int \<Rightarrow> int \<times> knc_program" where
  "program_add_int p value =
     (let i = index_from (\<lambda>x. x = value) 0 (kp_ints p)
      in if i \<ge> 0 then (i, p)
         else (int (length (kp_ints p)), p\<lparr> kp_ints := kp_ints p @ [value] \<rparr>))"

text \<open>The \<open>==\<close> of doubles, on their bits: not a number equals nothing, the two zeros are equal.\<close>

definition f64_is_nan :: "u64 \<Rightarrow> bool" where
  "f64_is_nan w \<longleftrightarrow> (drop_bit 52 w AND 0x7FF) = 0x7FF \<and> (w AND 0xFFFFFFFFFFFFF) \<noteq> 0"

definition f64_is_zero :: "u64 \<Rightarrow> bool" where
  "f64_is_zero w \<longleftrightarrow> (w AND 0x7FFFFFFFFFFFFFFF) = 0"

definition f64_eq :: "u64 \<Rightarrow> u64 \<Rightarrow> bool" where
  "f64_eq a b \<longleftrightarrow> \<not> f64_is_nan a \<and> \<not> f64_is_nan b \<and> (a = b \<or> f64_is_zero a \<and> f64_is_zero b)"

definition program_add_float :: "knc_program \<Rightarrow> u64 \<Rightarrow> int \<times> knc_program" where
  "program_add_float p value =
     (let i = index_from (\<lambda>x. f64_eq x value) 0 (kp_floats p)
      in if i \<ge> 0 then (i, p)
         else (int (length (kp_floats p)), p\<lparr> kp_floats := kp_floats p @ [value] \<rparr>))"

definition program_add_string :: "knc_program \<Rightarrow> cstr \<Rightarrow> int \<times> knc_program" where
  "program_add_string p value =
     (let i = index_from (\<lambda>x. kn_strcmp x value = 0) 0 (kp_strings p)
      in if i \<ge> 0 then (i, p)
         else (int (length (kp_strings p)), p\<lparr> kp_strings := kp_strings p @ [value] \<rparr>))"

text \<open>\<open>(int)e->v.int_val\<close> keeps the low 32 bits as a signed number.\<close>

definition to_c_int :: "int \<Rightarrow> int" where
  "to_c_int v = sint (word_of_int v :: 32 word)"

definition expr_int_immediate_index :: "knc_program \<Rightarrow> expr option \<Rightarrow> (int \<times> knc_program) option" where
  "expr_int_immediate_index p e =
     (case e of
        Some (EInt _ v) \<Rightarrow> Some (program_add_int p (to_c_int v))
      | Some (EChar _ v) \<Rightarrow> Some (program_add_int p (to_c_int v))
      | _ \<Rightarrow> None)"

subsection \<open>Declarations\<close>

definition class_qname_or_name :: "class_decl \<Rightarrow> cstr" where
  "class_qname_or_name c = (if cd_qname c \<noteq> None then cd_qname c else cd_name c)"

text \<open>\<open>owner.method\<close>; with no memory for it, or without an owner, the method's own name.\<close>

definition build_method_debug_name :: "amem \<Rightarrow> class_decl \<Rightarrow> cstr \<Rightarrow> cstr" where
  "build_method_debug_name m c method_name =
     (case (class_qname_or_name c, method_name) of
        (Some owner, Some mname) \<Rightarrow>
          (if m (length owner + 1 + length mname + 1) then Some (owner @ ''.'' @ mname) else Some mname)
      | (owner, Some mname) \<Rightarrow> Some mname
      | (owner, None) \<Rightarrow> owner)"

definition struct_qname_or_name :: "struct_decl \<Rightarrow> cstr" where
  "struct_qname_or_name s = (if sd_qname s \<noteq> None then sd_qname s else sd_name s)"

definition interface_qname_or_name :: "interface_decl \<Rightarrow> cstr" where
  "interface_qname_or_name i = (if id_qname i \<noteq> None then id_qname i else id_name i)"

definition name_is :: "cstr \<Rightarrow> cstr \<Rightarrow> bool" where
  "name_is name qname \<longleftrightarrow> name \<noteq> None \<and> kn_strcmp name qname = 0"

definition program_find_class :: "knc_program \<Rightarrow> cstr \<Rightarrow> class_decl option" where
  "program_find_class p qname =
     (if qname = None then None else find (\<lambda>c. name_is (class_qname_or_name c) qname) (kp_classes p))"

definition program_find_struct :: "knc_program \<Rightarrow> cstr \<Rightarrow> struct_decl option" where
  "program_find_struct p qname =
     (if qname = None then None else find (\<lambda>s. name_is (struct_qname_or_name s) qname) (kp_structs p))"

definition program_find_interface :: "knc_program \<Rightarrow> cstr \<Rightarrow> interface_decl option" where
  "program_find_interface p qname =
     (if qname = None then None
      else find (\<lambda>i. name_is (interface_qname_or_name i) qname) (kp_interfaces p))"

definition program_find_type :: "knc_program \<Rightarrow> cstr \<Rightarrow> int" where
  "program_find_type p qname =
     (if qname = None then -1 else index_from (\<lambda>t. name_is (kt_qname t) qname) 0 (kp_types p))"

definition program_find_global_slot :: "knc_program \<Rightarrow> cstr \<Rightarrow> int" where
  "program_find_global_slot p name =
     (if name = None then -1
      else case find (\<lambda>g. name_is (kg_name g) name) (kp_globals p) of
        Some g \<Rightarrow> kg_slot g | None \<Rightarrow> -1)"

definition program_find_global_type :: "knc_program \<Rightarrow> cstr \<Rightarrow> ty" where
  "program_find_global_type p name =
     (if name = None then type_make TY_UNKNOWN
      else case find (\<lambda>g. name_is (kg_name g) name) (kp_globals p) of
        Some g \<Rightarrow> kg_type g | None \<Rightarrow> type_make TY_UNKNOWN)"

definition program_add_global :: "knc_program \<Rightarrow> cstr \<Rightarrow> ty \<Rightarrow> int \<times> knc_program" where
  "program_add_global p name type =
     (let existing = program_find_global_slot p name
      in if existing \<ge> 0 then (existing, p)
         else let slot = int (length (kp_globals p))
              in (slot, p\<lparr> kp_globals := kp_globals p @
                   [\<lparr> kg_name = name, kg_type = type, kg_slot = slot \<rparr>] \<rparr>))"

definition program_find_static_field_slot :: "knc_program \<Rightarrow> cstr \<Rightarrow> int \<Rightarrow> int" where
  "program_find_static_field_slot p owner field_index =
     (if owner = None \<or> field_index < 0 then -1
      else case find (\<lambda>r. ks_field r = field_index \<and> name_is (ks_owner r) owner) (kp_static_fields p) of
        Some r \<Rightarrow> ks_slot r | None \<Rightarrow> -1)"

text \<open>A static field takes the next slot of the globals, under the name of its class.\<close>

definition program_add_static_field :: "knc_program \<Rightarrow> cstr \<Rightarrow> int \<Rightarrow> ty \<Rightarrow> int \<times> knc_program" where
  "program_add_static_field p owner field_index type =
     (let existing = program_find_static_field_slot p owner field_index
      in if existing \<ge> 0 then (existing, p)
         else let slot = int (length (kp_globals p))
              in (slot, p\<lparr>
                   kp_globals := kp_globals p @ [\<lparr> kg_name = owner, kg_type = type, kg_slot = slot \<rparr>],
                   kp_static_fields := kp_static_fields p @
                     [\<lparr> ks_owner = owner, ks_field = field_index, ks_type = type, ks_slot = slot \<rparr>] \<rparr>))"

subsection \<open>Field layout\<close>

text \<open>
  The fields of a base class come first. The recursion follows the bases; on a class that is its
  own ancestor it does not return.
\<close>

partial_function (option) class_total_field_count :: "knc_program \<Rightarrow> class_decl option \<Rightarrow> int option" where
  "class_total_field_count p c =
     (case c of None \<Rightarrow> Some 0
      | Some c \<Rightarrow>
        (if cd_base c \<noteq> None
         then Option.bind (class_total_field_count p (program_find_class p (cd_base c)))
                (\<lambda>n. Some (n + int (length (cd_fields c))))
         else Some (int (length (cd_fields c)))))"

definition struct_total_field_count :: "struct_decl option \<Rightarrow> int" where
  "struct_total_field_count s = (case s of Some s \<Rightarrow> int (length (sd_fields s)) | None \<Rightarrow> 0)"

text \<open>The index and, when there is one, the type stored for the caller.\<close>

definition own_field_index :: "field_decl list \<Rightarrow> int \<Rightarrow> cstr \<Rightarrow> int \<times> ty option" where
  "own_field_index fs base_fields name =
     (let i = index_from (\<lambda>f. kn_strcmp (fd_name f) name = 0) 0 fs
      in if i \<ge> 0 then (base_fields + i, Some (fd_type (fs ! nat i))) else (-1, None))"

partial_function (option) class_find_field_index ::
  "knc_program \<Rightarrow> class_decl option \<Rightarrow> cstr \<Rightarrow> (int \<times> ty option) option" where
  "class_find_field_index p c name =
     (case c of None \<Rightarrow> Some (-1, None)
      | Some c \<Rightarrow>
        (if name = None then Some (-1, None)
         else if cd_base c \<noteq> None
         then (let base = program_find_class p (cd_base c)
               in Option.bind (class_find_field_index p base name)
                    (\<lambda>r. if fst r \<ge> 0 then Some r
                         else Option.bind (class_total_field_count p base)
                                (\<lambda>n. Some (own_field_index (cd_fields c) n name))))
         else Some (own_field_index (cd_fields c) 0 name)))"

definition struct_find_field_index :: "struct_decl option \<Rightarrow> cstr \<Rightarrow> int \<times> ty option" where
  "struct_find_field_index s name =
     (case s of None \<Rightarrow> (-1, None)
      | Some s \<Rightarrow> (if name = None then (-1, None) else own_field_index (sd_fields s) 0 name))"

end
