(* ===== verification/KncTablesProps.thy ===== *)
theory KncTablesProps
  imports KncTables
begin

text \<open>
  The constant pools keep every index they have handed out, equality of types is an equivalence,
  and the layout of a class extends the layout of its base.
\<close>

subsection \<open>Searches\<close>

lemma index_from_cases:
  "(index_from P i xs = -1 \<and> (\<forall>x \<in> set xs. \<not> P x)) \<or>
   (\<exists>k < length xs. index_from P i xs = int (i + k) \<and> P (xs ! k) \<and> (\<forall>j < k. \<not> P (xs ! j)))"
proof (induction xs arbitrary: i)
  case (Cons x xs)
  show ?case
  proof (cases "P x")
    case False
    from Cons [of "i + 1"] show ?thesis
    proof (elim disjE exE conjE)
      fix k assume k: "k < length xs" "index_from P (i + 1) xs = int (i + 1 + k)" "P (xs ! k)"
        "\<forall>j < k. \<not> P (xs ! j)"
      then have "Suc k < length (x # xs) \<and> index_from P i (x # xs) = int (i + Suc k) \<and>
          P ((x # xs) ! Suc k) \<and> (\<forall>j < Suc k. \<not> P ((x # xs) ! j))"
        using False by (auto simp: nth_Cons' less_Suc_eq_0_disj)
      then show ?thesis by blast
    qed (use False in auto)
  qed auto
qed simp

lemma index_from_neg: "index_from P 0 xs < 0 \<longleftrightarrow> (\<forall>x \<in> set xs. \<not> P x)"
  using index_from_cases [of P 0 xs] by (auto simp: all_set_conv_all_nth)

lemma index_from_nonneg:
  assumes "index_from P 0 xs \<ge> 0"
  shows "nat (index_from P 0 xs) < length xs \<and> P (xs ! nat (index_from P 0 xs)) \<and>
    (\<forall>j < nat (index_from P 0 xs). \<not> P (xs ! j))"
  using index_from_cases [of P 0 xs] assms by auto

lemma index_from_neg1: "\<not> index_from P i xs \<ge> 0 \<Longrightarrow> index_from P i xs = -1"
  using index_from_cases [of P i xs] by auto

lemma index_from_shift:
  "index_from P (i + k) xs = (if index_from P i xs \<ge> 0 then index_from P i xs + int k else -1)"
proof (induction xs arbitrary: i)
  case (Cons x xs)
  from Cons [of "Suc i"] show ?case by simp
qed simp

lemma index_from_append:
  "index_from P 0 (xs @ ys) =
     (if index_from P 0 xs \<ge> 0 then index_from P 0 xs
      else if index_from P 0 ys \<ge> 0 then int (length xs) + index_from P 0 ys else -1)"
proof -
  have "index_from P i (xs @ ys) =
     (if index_from P i xs \<ge> 0 then index_from P i xs else index_from P (i + length xs) ys)" for i
    by (induction xs arbitrary: i) auto
  from this [of 0] index_from_shift [of P 0 "length xs" ys] show ?thesis by simp
qed

lemma kn_strcmp_refl [simp]: "kn_strcmp a a = 0"
proof -
  have "strncmp_loop s s n = 0" for s n
    by (induction n arbitrary: s) (auto simp: Let_def)
  then show ?thesis
    by (cases a) (auto simp: kn_strcmp_def kn_strncmp_def Let_def)
qed

subsection \<open>Constant pools\<close>

text \<open>
  What the three pools share: a value is looked for by an equality that need not be reflexive, and
  is appended when it is not there.
\<close>

locale const_pool =
  fixes eqv :: "'a \<Rightarrow> 'a \<Rightarrow> bool"
  assumes eqv_sym: "eqv a b \<Longrightarrow> eqv b a"
    and eqv_trans: "eqv a b \<Longrightarrow> eqv b c \<Longrightarrow> eqv a c"
begin

definition added :: "'a list \<Rightarrow> 'a \<Rightarrow> int \<Rightarrow> 'a list \<Rightarrow> bool" where
  "added xs v i ys \<longleftrightarrow>
     (let j = index_from (\<lambda>x. eqv x v) 0 xs
      in if j \<ge> 0 then i = j \<and> ys = xs else i = int (length xs) \<and> ys = xs @ [v])"

text \<open>The value stands at the index, itself or one equal to it.\<close>

definition holds :: "'a list \<Rightarrow> int \<Rightarrow> 'a \<Rightarrow> bool" where
  "holds xs i v \<longleftrightarrow> 0 \<le> i \<and> nat i < length xs \<and> (xs ! nat i = v \<or> eqv (xs ! nat i) v)"

lemma holds_append: "holds xs i v \<Longrightarrow> holds (xs @ zs) i v"
  by (auto simp: holds_def nth_append)

lemma added_holds: "added xs v i ys \<Longrightarrow> holds ys i v"
  using index_from_nonneg [of "\<lambda>x. eqv x v" xs]
  by (auto simp: added_def holds_def Let_def split: if_splits)

lemma added_extends: "added xs v i ys \<Longrightarrow> \<exists>zs. ys = xs @ zs"
  by (auto simp: added_def Let_def split: if_splits)

lemma eqv_same: "eqv v w \<Longrightarrow> (\<lambda>x. eqv x v) = (\<lambda>x. eqv x w)"
  using eqv_sym eqv_trans by blast

text \<open>An index in the pool is handed out again exactly for an equal value.\<close>

lemma added_found: "added xs v i ys \<Longrightarrow> eqv v w \<Longrightarrow> index_from (\<lambda>x. eqv x w) 0 (ys @ zs) = i"
proof -
  assume a: "added xs v i ys" and e: "eqv v w"
  have r: "eqv v v" using eqv_trans [OF e eqv_sym [OF e]] .
  show ?thesis
    using a r unfolding eqv_same [OF e, symmetric]
    by (auto simp: added_def Let_def index_from_append index_from_neg1 split: if_splits)
qed

lemma added_shares:
  assumes "added xs v i ys" "added (ys @ zs) w j us"
  shows "i = j \<longleftrightarrow> eqv v w"
proof
  assume ij: "i = j"
  have h: "0 \<le> i" "nat i < length ys" "ys ! nat i = v \<or> eqv (ys ! nat i) v"
    using added_holds [OF assms(1)] by (auto simp: holds_def)
  then have "index_from (\<lambda>x. eqv x w) 0 (ys @ zs) = i"
    using assms(2) ij by (auto simp: added_def Let_def split: if_splits)
  then have "eqv (ys ! nat i) w"
    using index_from_nonneg [of "\<lambda>x. eqv x w" "ys @ zs"] h by (auto simp: nth_append)
  then show "eqv v w" using h(3) eqv_sym eqv_trans by blast
next
  assume "eqv v w"
  from added_found [OF assms(1) this, of zs] added_holds [OF assms(1)] show "i = j"
    using assms(2) by (auto simp: added_def holds_def Let_def split: if_splits)
qed

end

lemma strncmp_zero_sym: "strncmp_loop a b n = 0 \<Longrightarrow> strncmp_loop b a n = 0"
  by (induction n arbitrary: a b) (auto simp: Let_def split: if_splits)

lemma strncmp_zero_trans: "strncmp_loop a b n = 0 \<Longrightarrow> strncmp_loop b c n = 0 \<Longrightarrow> strncmp_loop a c n = 0"
proof (induction n arbitrary: a b c)
  case (Suc n)
  then show ?case by (auto simp: Let_def split: if_splits)
qed simp

lemma kn_strcmp_zero:
  "kn_strcmp a b = 0 \<longleftrightarrow> (case (a, b) of (None, None) \<Rightarrow> True
     | (Some s, Some t) \<Rightarrow> length s = length t \<and> strncmp_loop s t (length s) = 0 | _ \<Rightarrow> False)"
  by (cases a; cases b) (auto simp: kn_strcmp_def kn_strncmp_def Let_def)

interpretation ints: const_pool "(=) :: int \<Rightarrow> int \<Rightarrow> bool"
  by unfold_locales auto

interpretation floats: const_pool f64_eq
  by unfold_locales (auto simp: f64_eq_def)

interpretation strings: const_pool "\<lambda>a b. kn_strcmp a b = 0"
  by unfold_locales
    (auto simp: kn_strcmp_zero dest: strncmp_zero_sym split: option.splits intro: strncmp_zero_trans)

text \<open>A constant of any kind, and its addition to a program.\<close>

datatype pool_constant = Int_Const int | Float_Const u64 | String_Const cstr

fun add_const :: "knc_program \<Rightarrow> pool_constant \<Rightarrow> int \<times> knc_program" where
  "add_const p (Int_Const v) = program_add_int p v"
| "add_const p (Float_Const v) = program_add_float p v"
| "add_const p (String_Const v) = program_add_string p v"

definition add_consts :: "knc_program \<Rightarrow> pool_constant list \<Rightarrow> knc_program" where
  "add_consts p cs = fold (\<lambda>c p. snd (add_const p c)) cs p"

text \<open>Whether two constants count as the same; not a number never does, not even with itself.\<close>

fun same_const :: "pool_constant \<Rightarrow> pool_constant \<Rightarrow> bool" where
  "same_const (Int_Const v) (Int_Const w) = (v = w)"
| "same_const (Float_Const v) (Float_Const w) = f64_eq v w"
| "same_const (String_Const v) (String_Const w) = (kn_strcmp v w = 0)"
| "same_const _ _ = False"

text \<open>The pool of a constant has it at the index.\<close>

fun const_at :: "knc_program \<Rightarrow> int \<Rightarrow> pool_constant \<Rightarrow> bool" where
  "const_at p i (Int_Const v) = (0 \<le> i \<and> nat i < length (kp_ints p) \<and> kp_ints p ! nat i = v)"
| "const_at p i (Float_Const v) = (0 \<le> i \<and> nat i < length (kp_floats p) \<and>
     (kp_floats p ! nat i = v \<or> f64_eq (kp_floats p ! nat i) v))"
| "const_at p i (String_Const v) = (0 \<le> i \<and> nat i < length (kp_strings p) \<and> kn_strcmp (kp_strings p ! nat i) v = 0)"

fun same_kind :: "pool_constant \<Rightarrow> pool_constant \<Rightarrow> bool" where
  "same_kind (Int_Const _) (Int_Const _) = True"
| "same_kind (Float_Const _) (Float_Const _) = True"
| "same_kind (String_Const _) (String_Const _) = True"
| "same_kind _ _ = False"

lemma program_adds:
  "program_add_int p v = (i, q) \<Longrightarrow> ints.added (kp_ints p) v i (kp_ints q)"
  "program_add_float p w = (i, q) \<Longrightarrow> floats.added (kp_floats p) w i (kp_floats q)"
  "program_add_string p s = (i, q) \<Longrightarrow> strings.added (kp_strings p) s i (kp_strings q)"
  by (auto simp: program_add_int_def program_add_float_def program_add_string_def ints.added_def
      floats.added_def strings.added_def Let_def split: if_splits)

lemma const_at_holds:
  "const_at p i (Int_Const v) = ints.holds (kp_ints p) i v"
  "const_at p i (Float_Const w) = floats.holds (kp_floats p) i w"
  "const_at p i (String_Const s) = strings.holds (kp_strings p) i s"
  by (auto simp: ints.holds_def floats.holds_def strings.holds_def)

text \<open>The pools of a program are those of another, with more behind.\<close>

definition extends_pools :: "knc_program \<Rightarrow> knc_program \<Rightarrow> bool" where
  "extends_pools p q \<longleftrightarrow> (\<exists>xs. kp_ints q = kp_ints p @ xs) \<and> (\<exists>xs. kp_floats q = kp_floats p @ xs) \<and>
     (\<exists>xs. kp_strings q = kp_strings p @ xs)"

lemma extends_pools_trans: "extends_pools p q \<Longrightarrow> extends_pools q r \<Longrightarrow> extends_pools p r"
  by (auto simp: extends_pools_def)

lemma add_const_extends: "add_const p c = (i, q) \<Longrightarrow> extends_pools p q"
  by (cases c) (auto simp: extends_pools_def program_add_int_def program_add_float_def program_add_string_def
      Let_def split: if_splits)

lemma add_consts_extends: "extends_pools p (add_consts p cs)"
proof (induction cs arbitrary: p)
  case (Cons c cs)
  have "extends_pools p (snd (add_const p c))" using add_const_extends [of p c] by (metis prod.collapse)
  then show ?case using Cons extends_pools_trans by (auto simp: add_consts_def)
qed (simp add: add_consts_def extends_pools_def)

lemma const_at_extends: "const_at p i c \<Longrightarrow> extends_pools p q \<Longrightarrow> const_at q i c"
  by (cases c) (auto simp: extends_pools_def nth_append)

lemma add_const_at: "add_const p c = (i, q) \<Longrightarrow> const_at q i c"
  by (cases c)
    (auto simp only: add_const.simps const_at_holds dest!: program_adds
      intro: ints.added_holds floats.added_holds strings.added_holds)

lemma add_const_shares:
  assumes "add_const p c = (i, q)" "extends_pools q q'" "add_const q' d = (j, r)" "same_kind c d"
  shows "i = j \<longleftrightarrow> same_const c d"
  using assms
  by (cases c; cases d)
    (auto simp: extends_pools_def dest!: program_adds
      dest: ints.added_shares floats.added_shares strings.added_shares)

text \<open>
  C7: The constant pools of a program are stable, and share what is equal. Let a constant, an
  integer, a float or a string, be added, then any other constants, then one more: each of the two
  is found at its index in the pool of its kind, to which nothing but additions at the end happened;
  and if they are of the same kind they have the same index exactly when they are equal, where a
  float that is not a number equals nothing and the two zeros are equal.
\<close>

theorem constant_pool_stable:
  assumes "add_const p c = (i, q)" "add_const (add_consts q cs) d = (j, r)"
  shows "const_at r i c \<and> const_at r j d \<and> extends_pools p r \<and>
    (same_kind c d \<longrightarrow> (i = j \<longleftrightarrow> same_const c d))"
proof (intro conjI impI)
  have e: "extends_pools p q" "extends_pools q (add_consts q cs)" "extends_pools (add_consts q cs) r"
    using add_const_extends assms add_consts_extends by blast+
  then have qr: "extends_pools q r" using extends_pools_trans by blast
  show "const_at r i c" by (rule const_at_extends [OF add_const_at [OF assms(1)] qr])
  show "const_at r j d" by (rule add_const_at [OF assms(2)])
  show "extends_pools p r" by (rule extends_pools_trans [OF e(1) qr])
  show "i = j \<longleftrightarrow> same_const c d" if "same_kind c d"
    by (rule add_const_shares [OF assms(1) e(2) assms(2) that])
qed

definition empty_program :: knc_program where
  "empty_program = \<lparr> kp_funcs = [], kp_ints = [], kp_floats = [], kp_strings = [], kp_types = [],
     kp_globals = [], kp_static_fields = [], kp_entry = -1, kp_main_entry = -1, kp_superloop = False,
     kp_classes = [], kp_interfaces = [], kp_structs = [], kp_enums = [] \<rparr>"

text \<open>A string again after other constants, and not a number twice.\<close>

theorem constant_pool_stable_witness:
  "fst (add_const (add_consts (snd (add_const empty_program (String_Const (Some ''a''))))
      [Int_Const 7, String_Const (Some ''b'')]) (String_Const (Some ''a''))) = 0 \<and>
   fst (add_const (add_consts (snd (add_const empty_program (Float_Const 0x7FF8000000000000))) [])
      (Float_Const 0x7FF8000000000000)) \<noteq> 0"
proof -
  have fst0: "add_const empty_program c = (0, snd (add_const empty_program c))" for c
    by (cases c) (simp_all add: empty_program_def program_add_int_def program_add_float_def program_add_string_def Let_def)
  have nan: "\<not> same_const (Float_Const 0x7FF8000000000000) (Float_Const 0x7FF8000000000000)"
    by (simp add: f64_eq_def) code_simp
  show ?thesis
    using constant_pool_stable [OF fst0 prod.collapse [symmetric], of "String_Const (Some ''a'')"
        "[Int_Const 7, String_Const (Some ''b'')]" "String_Const (Some ''a'')"]
      constant_pool_stable [OF fst0 prod.collapse [symmetric], of "Float_Const 0x7FF8000000000000"
        "[]" "Float_Const 0x7FF8000000000000"] nan
    by simp
qed

subsection \<open>Field layout\<close>

text \<open>The fields of a class with those of its bases, base first.\<close>

inductive fields_of :: "knc_program \<Rightarrow> class_decl option \<Rightarrow> field_decl list \<Rightarrow> bool" for p where
  fields_none: "fields_of p None []"
| fields_root: "cd_base c = None \<Longrightarrow> fields_of p (Some c) (cd_fields c)"
| fields_derived: "cd_base c \<noteq> None \<Longrightarrow> fields_of p (program_find_class p (cd_base c)) bs \<Longrightarrow>
    fields_of p (Some c) (bs @ cd_fields c)"

lemma fields_of_count: "fields_of p c fs \<Longrightarrow> class_total_field_count p c = Some (int (length fs))"
  by (induction rule: fields_of.induct) (subst class_total_field_count.simps, simp)+

definition first_field :: "field_decl list \<Rightarrow> cstr \<Rightarrow> int \<times> ty option" where
  "first_field fs name = own_field_index fs 0 name"

lemma first_field_append:
  "first_field (bs @ fs) name =
     (if fst (first_field bs name) \<ge> 0 then first_field bs name
      else own_field_index fs (int (length bs)) name)"
  using index_from_nonneg [of "\<lambda>f. kn_strcmp (fd_name f) name = 0" bs]
    index_from_neg1 [of "\<lambda>f. kn_strcmp (fd_name f) name = 0" 0 fs]
  by (auto simp: first_field_def own_field_index_def Let_def index_from_append nth_append nat_add_distrib)

lemma fields_of_index:
  "fields_of p c fs \<Longrightarrow> name \<noteq> None \<Longrightarrow> class_find_field_index p c name = Some (first_field fs name)"
proof (induction rule: fields_of.induct)
  case (fields_derived c bs)
  then show ?case
    by (subst class_find_field_index.simps)
       (auto simp: Let_def first_field_append fields_of_count)
qed (subst class_find_field_index.simps, auto simp: first_field_def own_field_index_def)+

text \<open>The class a class extends.\<close>

definition extends :: "knc_program \<Rightarrow> (class_decl \<times> class_decl) set" where
  "extends p = {(b, c). c \<in> set (kp_classes p) \<and> program_find_class p (cd_base c) = Some b}"

lemma find_class_in: "program_find_class p n = Some c \<Longrightarrow> c \<in> set (kp_classes p)"
  by (auto simp: program_find_class_def find_Some_iff split: if_splits)

lemma fields_of_exists:
  assumes "acyclic (extends p)" "c \<in> set (kp_classes p)"
  shows "\<exists>fs. fields_of p (Some c) fs"
proof -
  have "extends p \<subseteq> set (kp_classes p) \<times> set (kp_classes p)"
    by (auto simp: extends_def intro: find_class_in)
  then have "finite (extends p)" by (rule finite_subset) simp
  then have "wf (extends p)" using assms(1) by (rule finite_acyclic_wf)
  then show ?thesis using assms(2)
  proof (induction c rule: wf_induct_rule)
    case (less c)
    show ?case
    proof (cases "cd_base c = None")
      case False
      show ?thesis
      proof (cases "program_find_class p (cd_base c)")
        case None
        then show ?thesis using fields_derived [OF False] fields_none by metis
      next
        case (Some b)
        then have "\<exists>fs. fields_of p (Some b) fs"
          using less by (auto simp: extends_def intro: find_class_in)
        then show ?thesis using fields_derived [OF False] Some by metis
      qed
    qed (auto intro: fields_root)
  qed
qed

lemma first_field_spec:
  "if \<exists>f \<in> set fs. kn_strcmp (fd_name f) name = 0
   then \<exists>k < length fs. first_field fs name = (int k, Some (fd_type (fs ! k))) \<and>
     kn_strcmp (fd_name (fs ! k)) name = 0 \<and> (\<forall>j < k. kn_strcmp (fd_name (fs ! j)) name \<noteq> 0)
   else first_field fs name = (-1, None)"
  using index_from_cases [of "\<lambda>f. kn_strcmp (fd_name f) name = 0" 0 fs]
  by (auto simp: first_field_def own_field_index_def Let_def)

lemma derived_keeps_index:
  assumes "program_find_class p (cd_base c) = Some b" "name \<noteq> None"
    "class_find_field_index p (Some b) name = Some (i, t)" "i \<ge> 0"
  shows "class_find_field_index p (Some c) name = Some (i, t)"
proof -
  have "cd_base c \<noteq> None" using assms(1) by (auto simp: program_find_class_def split: if_splits)
  then show ?thesis
    using assms by (subst class_find_field_index.simps) (auto simp: Let_def)
qed

text \<open>
  C6: Where no class is its own ancestor, the layout of a class is computed: its fields are those
  of its bases followed by its own, the count is their number, a name is found at its first place
  among them (and is -1 exactly when it is not there), and a field found in the base has the same
  index in every class derived from it.
\<close>

theorem class_field_layout:
  assumes "acyclic (extends p)" "c \<in> set (kp_classes p)" "name \<noteq> None"
  shows "\<exists>fs. fields_of p (Some c) fs \<and> class_total_field_count p (Some c) = Some (int (length fs)) \<and>
    (if \<exists>f \<in> set fs. kn_strcmp (fd_name f) name = 0
     then \<exists>k < length fs. class_find_field_index p (Some c) name = Some (int k, Some (fd_type (fs ! k))) \<and>
       kn_strcmp (fd_name (fs ! k)) name = 0 \<and> (\<forall>j < k. kn_strcmp (fd_name (fs ! j)) name \<noteq> 0)
     else class_find_field_index p (Some c) name = Some (-1, None)) \<and>
    (\<forall>b i t. program_find_class p (cd_base c) = Some b \<and> class_find_field_index p (Some b) name = Some (i, t) \<and>
       i \<ge> 0 \<longrightarrow> class_find_field_index p (Some c) name = Some (i, t))"
proof -
  obtain fs where fs: "fields_of p (Some c) fs" using fields_of_exists [OF assms(1,2)] by blast
  have idx: "class_find_field_index p (Some c) name = Some r \<longleftrightarrow> first_field fs name = r" for r
    using fields_of_index [OF fs assms(3)] by simp
  have keep: "\<forall>b i t. program_find_class p (cd_base c) = Some b \<and>
      class_find_field_index p (Some b) name = Some (i, t) \<and> i \<ge> 0 \<longrightarrow>
      class_find_field_index p (Some c) name = Some (i, t)"
    using derived_keeps_index [OF _ assms(3)] by blast
  have first: "if \<exists>f \<in> set fs. kn_strcmp (fd_name f) name = 0
     then \<exists>k < length fs. class_find_field_index p (Some c) name = Some (int k, Some (fd_type (fs ! k))) \<and>
       kn_strcmp (fd_name (fs ! k)) name = 0 \<and> (\<forall>j < k. kn_strcmp (fd_name (fs ! j)) name \<noteq> 0)
     else class_find_field_index p (Some c) name = Some (-1, None)"
    unfolding idx by (rule first_field_spec)
  show ?thesis using fs fields_of_count [OF fs] first keep by blast
qed

definition layout_example :: knc_program where
  "layout_example =
     (let f = (\<lambda>n. \<lparr> fd_name = Some n, fd_type = type_make TY_INT, fd_init = None, fd_is_static = False \<rparr>);
          a = \<lparr> cd_name = Some ''A'', cd_qname = None, cd_base = None, cd_interfaces = [],
                cd_fields = [f ''x'', f ''y''], cd_methods = [], cd_unit = None \<rparr>;
          b = \<lparr> cd_name = Some ''B'', cd_qname = None, cd_base = Some ''A'', cd_interfaces = [],
                cd_fields = [f ''z''], cd_methods = [], cd_unit = None \<rparr>
      in empty_program\<lparr> kp_classes := [a, b] \<rparr>)"

theorem class_field_layout_witness:
  "\<exists>fs. fields_of layout_example (Some (kp_classes layout_example ! 1)) fs \<and>
    class_total_field_count layout_example (Some (kp_classes layout_example ! 1)) = Some (int (length fs))"
proof -
  let ?a = "kp_classes layout_example ! 0" and ?b = "kp_classes layout_example ! 1"
  have bases: "program_find_class layout_example (cd_base ?a) = None"
      "program_find_class layout_example (cd_base ?b) = Some ?a"
    by code_simp+
  have "set (kp_classes layout_example) = {?a, ?b}"
    by (simp add: layout_example_def Let_def empty_program_def)
  then have "extends layout_example = {(?a, ?b)}"
    using bases by (auto simp: extends_def)
  moreover have "?a \<noteq> ?b" by (simp add: layout_example_def Let_def empty_program_def)
  ultimately have "acyclic (extends layout_example)" by (auto simp: acyclic_def dest: tranclD2 elim: tranclE)
  moreover have "?b \<in> set (kp_classes layout_example)"
    by (simp add: layout_example_def Let_def empty_program_def)
  ultimately show ?thesis
    using class_field_layout [of layout_example ?b "Some ''y''"] by blast
qed

end
