(* ===== verification/KncCode.thy ===== *)
theory KncCode
  imports Ast
begin

text \<open>
  Bytecode as the emitter of \<open>apps/kinal/src/kn_knc.c\<close> writes, patches and lists it. Code is a
  list of bytes; an opcode is its number. A patch out of bounds ends the compiler
  (\<open>kn_die\<close>), the result \<open>None\<close>.
\<close>

type_synonym code = "8 word list"

subsection \<open>Opcodes\<close>

abbreviation (input) "KNC_OP_LOAD_INT \<equiv> (0 :: int)"
abbreviation (input) "KNC_OP_LOAD_FLOAT \<equiv> (1 :: int)"
abbreviation (input) "KNC_OP_LOAD_BOOL \<equiv> (2 :: int)"
abbreviation (input) "KNC_OP_LOAD_STRING \<equiv> (3 :: int)"
abbreviation (input) "KNC_OP_LOAD_CHAR \<equiv> (4 :: int)"
abbreviation (input) "KNC_OP_MOVE \<equiv> (5 :: int)"
abbreviation (input) "KNC_OP_ADD_INT \<equiv> (6 :: int)"
abbreviation (input) "KNC_OP_SUB_INT \<equiv> (7 :: int)"
abbreviation (input) "KNC_OP_MUL_INT \<equiv> (8 :: int)"
abbreviation (input) "KNC_OP_DIV_INT \<equiv> (9 :: int)"
abbreviation (input) "KNC_OP_ADD_FLOAT \<equiv> (10 :: int)"
abbreviation (input) "KNC_OP_SUB_FLOAT \<equiv> (11 :: int)"
abbreviation (input) "KNC_OP_MUL_FLOAT \<equiv> (12 :: int)"
abbreviation (input) "KNC_OP_DIV_FLOAT \<equiv> (13 :: int)"
abbreviation (input) "KNC_OP_NEG_INT \<equiv> (14 :: int)"
abbreviation (input) "KNC_OP_NEG_FLOAT \<equiv> (15 :: int)"
abbreviation (input) "KNC_OP_EQ \<equiv> (16 :: int)"
abbreviation (input) "KNC_OP_NE \<equiv> (17 :: int)"
abbreviation (input) "KNC_OP_LT_INT \<equiv> (18 :: int)"
abbreviation (input) "KNC_OP_LE_INT \<equiv> (19 :: int)"
abbreviation (input) "KNC_OP_GT_INT \<equiv> (20 :: int)"
abbreviation (input) "KNC_OP_GE_INT \<equiv> (21 :: int)"
abbreviation (input) "KNC_OP_LT_FLOAT \<equiv> (22 :: int)"
abbreviation (input) "KNC_OP_LE_FLOAT \<equiv> (23 :: int)"
abbreviation (input) "KNC_OP_GT_FLOAT \<equiv> (24 :: int)"
abbreviation (input) "KNC_OP_GE_FLOAT \<equiv> (25 :: int)"
abbreviation (input) "KNC_OP_NOT_BOOL \<equiv> (26 :: int)"
abbreviation (input) "KNC_OP_BITAND_INT \<equiv> (27 :: int)"
abbreviation (input) "KNC_OP_BITOR_INT \<equiv> (28 :: int)"
abbreviation (input) "KNC_OP_BITXOR_INT \<equiv> (29 :: int)"
abbreviation (input) "KNC_OP_SHL_INT \<equiv> (30 :: int)"
abbreviation (input) "KNC_OP_SHR_INT \<equiv> (31 :: int)"
abbreviation (input) "KNC_OP_BITNOT_INT \<equiv> (32 :: int)"
abbreviation (input) "KNC_OP_INT_TO_STRING \<equiv> (33 :: int)"
abbreviation (input) "KNC_OP_BOOL_TO_STRING \<equiv> (34 :: int)"
abbreviation (input) "KNC_OP_CHAR_TO_STRING \<equiv> (35 :: int)"
abbreviation (input) "KNC_OP_STRING_TO_INT \<equiv> (36 :: int)"
abbreviation (input) "KNC_OP_STRING_TO_BOOL \<equiv> (37 :: int)"
abbreviation (input) "KNC_OP_CHAR_TO_INT \<equiv> (38 :: int)"
abbreviation (input) "KNC_OP_INT_TO_CHAR \<equiv> (39 :: int)"
abbreviation (input) "KNC_OP_STRING_TO_CHAR \<equiv> (40 :: int)"
abbreviation (input) "KNC_OP_JUMP \<equiv> (41 :: int)"
abbreviation (input) "KNC_OP_JUMP_IF_FALSE \<equiv> (42 :: int)"
abbreviation (input) "KNC_OP_JUMP_IF_TRUE \<equiv> (43 :: int)"
abbreviation (input) "KNC_OP_CALL_BUILTIN \<equiv> (44 :: int)"
abbreviation (input) "KNC_OP_CALL_FUNC \<equiv> (45 :: int)"
abbreviation (input) "KNC_OP_NEW_OBJECT \<equiv> (46 :: int)"
abbreviation (input) "KNC_OP_NEW_ARRAY \<equiv> (47 :: int)"
abbreviation (input) "KNC_OP_LOAD_FIELD \<equiv> (48 :: int)"
abbreviation (input) "KNC_OP_STORE_FIELD \<equiv> (49 :: int)"
abbreviation (input) "KNC_OP_LOAD_INDEX \<equiv> (50 :: int)"
abbreviation (input) "KNC_OP_STORE_INDEX \<equiv> (51 :: int)"
abbreviation (input) "KNC_OP_ARRAY_LENGTH \<equiv> (52 :: int)"
abbreviation (input) "KNC_OP_ARRAY_ADD \<equiv> (53 :: int)"
abbreviation (input) "KNC_OP_CALL_VIRT \<equiv> (54 :: int)"
abbreviation (input) "KNC_OP_IS_TYPE \<equiv> (55 :: int)"
abbreviation (input) "KNC_OP_LOAD_GLOBAL \<equiv> (56 :: int)"
abbreviation (input) "KNC_OP_STORE_GLOBAL \<equiv> (57 :: int)"
abbreviation (input) "KNC_OP_RET \<equiv> (58 :: int)"
abbreviation (input) "KNC_OP_HALT \<equiv> (59 :: int)"
abbreviation (input) "KNC_OP_MAKE_FUNC \<equiv> (60 :: int)"
abbreviation (input) "KNC_OP_CALL_CLOSURE \<equiv> (61 :: int)"
abbreviation (input) "KNC_OP_NEW_CELL \<equiv> (62 :: int)"
abbreviation (input) "KNC_OP_LOAD_CELL \<equiv> (63 :: int)"
abbreviation (input) "KNC_OP_STORE_CELL \<equiv> (64 :: int)"
abbreviation (input) "KNC_OP_LOAD_CAPTURE \<equiv> (65 :: int)"
abbreviation (input) "KNC_OP_STORE_CAPTURE \<equiv> (66 :: int)"
abbreviation (input) "KNC_OP_LOAD_CAPTURE_CELL \<equiv> (67 :: int)"
abbreviation (input) "KNC_OP_PUSH_TRY \<equiv> (68 :: int)"
abbreviation (input) "KNC_OP_POP_TRY \<equiv> (69 :: int)"
abbreviation (input) "KNC_OP_THROW \<equiv> (70 :: int)"
abbreviation (input) "KNC_OP_MAKE_PTR_LOCAL \<equiv> (71 :: int)"
abbreviation (input) "KNC_OP_MAKE_PTR_GLOBAL \<equiv> (72 :: int)"
abbreviation (input) "KNC_OP_MAKE_PTR_INDEX \<equiv> (73 :: int)"
abbreviation (input) "KNC_OP_MAKE_PTR_FIELD \<equiv> (74 :: int)"
abbreviation (input) "KNC_OP_MAKE_PTR_FUNC \<equiv> (75 :: int)"
abbreviation (input) "KNC_OP_MAKE_PTR_CELL \<equiv> (76 :: int)"
abbreviation (input) "KNC_OP_LOAD_PTR \<equiv> (77 :: int)"
abbreviation (input) "KNC_OP_STORE_PTR \<equiv> (78 :: int)"
abbreviation (input) "KNC_OP_ADD_PTR \<equiv> (79 :: int)"
abbreviation (input) "KNC_OP_LOOP_INT_LT_INC \<equiv> (80 :: int)"
abbreviation (input) "KNC_OP_LOOP_INT_LE_INC \<equiv> (81 :: int)"
abbreviation (input) "KNC_OP_LOOP_INT_GT_DEC \<equiv> (82 :: int)"
abbreviation (input) "KNC_OP_LOOP_INT_GE_DEC \<equiv> (83 :: int)"
abbreviation (input) "KNC_OP_LOOP_INT_EQ_INC \<equiv> (84 :: int)"
abbreviation (input) "KNC_OP_LOOP_INT_NE_INC \<equiv> (85 :: int)"
abbreviation (input) "KNC_OP_LOOP_INT_EQ_DEC \<equiv> (86 :: int)"
abbreviation (input) "KNC_OP_LOOP_INT_NE_DEC \<equiv> (87 :: int)"
abbreviation (input) "KNC_OP_JUMP_IF_INT_LT_FALSE \<equiv> (88 :: int)"
abbreviation (input) "KNC_OP_JUMP_IF_INT_LE_FALSE \<equiv> (89 :: int)"
abbreviation (input) "KNC_OP_JUMP_IF_INT_GT_FALSE \<equiv> (90 :: int)"
abbreviation (input) "KNC_OP_JUMP_IF_INT_GE_FALSE \<equiv> (91 :: int)"
abbreviation (input) "KNC_OP_JUMP_IF_INT_EQ_FALSE \<equiv> (92 :: int)"
abbreviation (input) "KNC_OP_JUMP_IF_INT_NE_FALSE \<equiv> (93 :: int)"
abbreviation (input) "KNC_OP_INC_INT \<equiv> (94 :: int)"
abbreviation (input) "KNC_OP_DEC_INT \<equiv> (95 :: int)"
abbreviation (input) "KNC_OP_INT_TO_FLOAT \<equiv> (96 :: int)"
abbreviation (input) "KNC_OP_FLOAT_TO_INT \<equiv> (97 :: int)"
abbreviation (input) "KNC_OP_FLOAT_TO_STRING \<equiv> (98 :: int)"
abbreviation (input) "KNC_OP_STRING_TO_FLOAT \<equiv> (99 :: int)"
abbreviation (input) "KNC_OP_BOOL_TO_INT \<equiv> (100 :: int)"
abbreviation (input) "KNC_OP_BOOL_TO_FLOAT \<equiv> (101 :: int)"
abbreviation (input) "KNC_OP_FLOAT_TO_BOOL \<equiv> (102 :: int)"
abbreviation (input) "KNC_OP_LOOP_BACK_INT_LT_INC \<equiv> (103 :: int)"
abbreviation (input) "KNC_OP_LOOP_BACK_INT_LE_INC \<equiv> (104 :: int)"
abbreviation (input) "KNC_OP_LOOP_BACK_INT_GT_DEC \<equiv> (105 :: int)"
abbreviation (input) "KNC_OP_LOOP_BACK_INT_GE_DEC \<equiv> (106 :: int)"
abbreviation (input) "KNC_OP_LOOP_BACK_INT_EQ_INC \<equiv> (107 :: int)"
abbreviation (input) "KNC_OP_LOOP_BACK_INT_NE_INC \<equiv> (108 :: int)"
abbreviation (input) "KNC_OP_LOOP_BACK_INT_EQ_DEC \<equiv> (109 :: int)"
abbreviation (input) "KNC_OP_LOOP_BACK_INT_NE_DEC \<equiv> (110 :: int)"
abbreviation (input) "KNC_OP_LOOP_ARRAY_FILL_INT_LT_INC \<equiv> (111 :: int)"
abbreviation (input) "KNC_OP_LOOP_ARRAY_FILL_INT_LE_INC \<equiv> (112 :: int)"
abbreviation (input) "KNC_OP_LOOP_ARRAY_SUM_INT_LT_INC \<equiv> (113 :: int)"
abbreviation (input) "KNC_OP_LOOP_ARRAY_SUM_INT_LE_INC \<equiv> (114 :: int)"
abbreviation (input) "KNC_OP_LOOP_SUM_INT_LT_INC \<equiv> (115 :: int)"
abbreviation (input) "KNC_OP_LOOP_SUM_INT_LE_INC \<equiv> (116 :: int)"
abbreviation (input) "KNC_OP_ADD_INT_IMM \<equiv> (117 :: int)"
abbreviation (input) "KNC_OP_SUB_INT_IMM \<equiv> (118 :: int)"
abbreviation (input) "KNC_OP_MUL_INT_IMM \<equiv> (119 :: int)"
abbreviation (input) "KNC_OP_DIV_INT_IMM \<equiv> (120 :: int)"
abbreviation (input) "KNC_OP_LT_INT_IMM \<equiv> (121 :: int)"
abbreviation (input) "KNC_OP_LE_INT_IMM \<equiv> (122 :: int)"
abbreviation (input) "KNC_OP_GT_INT_IMM \<equiv> (123 :: int)"
abbreviation (input) "KNC_OP_GE_INT_IMM \<equiv> (124 :: int)"
abbreviation (input) "KNC_OP_BITAND_INT_IMM \<equiv> (125 :: int)"
abbreviation (input) "KNC_OP_BITOR_INT_IMM \<equiv> (126 :: int)"
abbreviation (input) "KNC_OP_BITXOR_INT_IMM \<equiv> (127 :: int)"
abbreviation (input) "KNC_OP_SHL_INT_IMM \<equiv> (128 :: int)"
abbreviation (input) "KNC_OP_SHR_INT_IMM \<equiv> (129 :: int)"
abbreviation (input) "KNC_OP_UDIV_INT \<equiv> (130 :: int)"
abbreviation (input) "KNC_OP_UREM_INT \<equiv> (131 :: int)"
abbreviation (input) "KNC_OP_ULT_INT \<equiv> (132 :: int)"
abbreviation (input) "KNC_OP_ULE_INT \<equiv> (133 :: int)"
abbreviation (input) "KNC_OP_UGT_INT \<equiv> (134 :: int)"
abbreviation (input) "KNC_OP_UGE_INT \<equiv> (135 :: int)"
abbreviation (input) "KNC_OP_LSHR_INT \<equiv> (136 :: int)"

definition knc_opcode_names :: "string list" where
  "knc_opcode_names = [
     ''LoadInt'', ''LoadFloat'', ''LoadBool'', ''LoadString'', ''LoadChar'', ''Move'',
     ''AddInt'', ''SubInt'', ''MulInt'', ''DivInt'', ''AddFloat'', ''SubFloat'', ''MulFloat'',
     ''DivFloat'', ''NegInt'', ''NegFloat'', ''Eq'', ''Ne'', ''LtInt'', ''LeInt'', ''GtInt'',
     ''GeInt'', ''LtFloat'', ''LeFloat'', ''GtFloat'', ''GeFloat'', ''NotBool'', ''BitAndInt'',
     ''BitOrInt'', ''BitXorInt'', ''ShlInt'', ''ShrInt'', ''BitNotInt'', ''IntToString'',
     ''BoolToString'', ''CharToString'', ''StringToInt'', ''StringToBool'', ''CharToInt'',
     ''IntToChar'', ''StringToChar'', ''Jump'', ''JumpIfFalse'', ''JumpIfTrue'',
     ''CallBuiltin'', ''CallFunc'', ''NewObject'', ''NewArray'', ''LoadField'', ''StoreField'',
     ''LoadIndex'', ''StoreIndex'', ''ArrayLength'', ''ArrayAdd'', ''CallVirt'', ''IsType'',
     ''LoadGlobal'', ''StoreGlobal'', ''Ret'', ''Halt'', ''MakeFunc'', ''CallClosure'',
     ''NewCell'', ''LoadCell'', ''StoreCell'', ''LoadCapture'', ''StoreCapture'',
     ''LoadCaptureCell'', ''PushTry'', ''PopTry'', ''Throw'', ''MakePtrLocal'',
     ''MakePtrGlobal'', ''MakePtrIndex'', ''MakePtrField'', ''MakePtrFunc'', ''MakePtrCell'',
     ''LoadPtr'', ''StorePtr'', ''AddPtr'', ''LoopIntLtInc'', ''LoopIntLeInc'',
     ''LoopIntGtDec'', ''LoopIntGeDec'', ''LoopIntEqInc'', ''LoopIntNeInc'', ''LoopIntEqDec'',
     ''LoopIntNeDec'', ''JumpIfIntLtFalse'', ''JumpIfIntLeFalse'', ''JumpIfIntGtFalse'',
     ''JumpIfIntGeFalse'', ''JumpIfIntEqFalse'', ''JumpIfIntNeFalse'', ''IncInt'', ''DecInt'',
     ''IntToFloat'', ''FloatToInt'', ''FloatToString'', ''StringToFloat'', ''BoolToInt'',
     ''BoolToFloat'', ''FloatToBool'', ''LoopBackIntLtInc'', ''LoopBackIntLeInc'',
     ''LoopBackIntGtDec'', ''LoopBackIntGeDec'', ''LoopBackIntEqInc'', ''LoopBackIntNeInc'',
     ''LoopBackIntEqDec'', ''LoopBackIntNeDec'', ''LoopArrayFillIntLtInc'',
     ''LoopArrayFillIntLeInc'', ''LoopArraySumIntLtInc'', ''LoopArraySumIntLeInc'',
     ''LoopSumIntLtInc'', ''LoopSumIntLeInc'', ''AddIntImm'', ''SubIntImm'', ''MulIntImm'',
     ''DivIntImm'', ''LtIntImm'', ''LeIntImm'', ''GtIntImm'', ''GeIntImm'', ''BitAndIntImm'',
     ''BitOrIntImm'', ''BitXorIntImm'', ''ShlIntImm'', ''ShrIntImm'', ''UDivInt'', ''URemInt'',
     ''ULtInt'', ''ULeInt'', ''UGtInt'', ''UGeInt'', ''LShrInt'']"

definition knc_opcode_name :: "int \<Rightarrow> string" where
  "knc_opcode_name oper =
     (if oper \<ge> 0 \<and> oper < int (length knc_opcode_names) then knc_opcode_names ! nat oper else ''Unknown'')"

text \<open>The length of an instruction in bytes, 0 for a byte that is no opcode.\<close>

definition knc_instruction_size :: "int \<Rightarrow> int" where
  "knc_instruction_size oper = (
     if oper = KNC_OP_HALT \<or> oper = KNC_OP_POP_TRY
     then 1 else
     if oper = KNC_OP_RET \<or> oper = KNC_OP_THROW \<or> oper = KNC_OP_INC_INT \<or> oper = KNC_OP_DEC_INT
     then 2 else
     if oper = KNC_OP_LOAD_BOOL \<or> oper = KNC_OP_MOVE \<or>
        (oper \<ge> KNC_OP_NEG_INT \<and> oper \<le> KNC_OP_NEG_FLOAT) \<or> oper = KNC_OP_NOT_BOOL \<or>
        (oper \<ge> KNC_OP_BITNOT_INT \<and> oper \<le> KNC_OP_STRING_TO_CHAR) \<or>
        (oper \<ge> KNC_OP_ARRAY_LENGTH \<and> oper \<le> KNC_OP_ARRAY_LENGTH) \<or>
        (oper \<ge> KNC_OP_NEW_CELL \<and> oper \<le> KNC_OP_STORE_CELL) \<or>
        oper = KNC_OP_MAKE_PTR_LOCAL \<or>
        (oper \<ge> KNC_OP_MAKE_PTR_CELL \<and> oper \<le> KNC_OP_STORE_PTR) \<or>
        (oper \<ge> KNC_OP_LOOP_INT_LT_INC \<and> oper \<le> KNC_OP_LOOP_INT_NE_DEC) \<or>
        (oper \<ge> KNC_OP_INT_TO_FLOAT \<and> oper \<le> KNC_OP_FLOAT_TO_BOOL)
     then 3 else
     if oper = KNC_OP_LOAD_INT \<or> oper = KNC_OP_LOAD_FLOAT \<or> oper = KNC_OP_LOAD_STRING \<or>
        oper = KNC_OP_LOAD_CHAR \<or> (oper \<ge> KNC_OP_ADD_INT \<and> oper \<le> KNC_OP_DIV_FLOAT) \<or>
        (oper \<ge> KNC_OP_EQ \<and> oper \<le> KNC_OP_SHR_INT) \<or> oper = KNC_OP_JUMP_IF_FALSE \<or>
        oper = KNC_OP_JUMP_IF_TRUE \<or> oper = KNC_OP_NEW_OBJECT \<or> oper = KNC_OP_NEW_ARRAY \<or>
        oper = KNC_OP_LOAD_INDEX \<or> oper = KNC_OP_STORE_INDEX \<or> oper = KNC_OP_ARRAY_ADD \<or>
        oper = KNC_OP_LOAD_GLOBAL \<or> oper = KNC_OP_STORE_GLOBAL \<or>
        (oper \<ge> KNC_OP_LOAD_CAPTURE \<and> oper \<le> KNC_OP_LOAD_CAPTURE_CELL) \<or>
        oper = KNC_OP_MAKE_PTR_GLOBAL \<or> oper = KNC_OP_MAKE_PTR_INDEX \<or>
        oper = KNC_OP_MAKE_PTR_FUNC \<or> oper = KNC_OP_ADD_PTR \<or>
        oper = KNC_OP_LOOP_ARRAY_FILL_INT_LT_INC \<or> oper = KNC_OP_LOOP_ARRAY_FILL_INT_LE_INC \<or>
        oper = KNC_OP_LOOP_SUM_INT_LT_INC \<or> oper = KNC_OP_LOOP_SUM_INT_LE_INC
     then 4 else
     if oper = KNC_OP_JUMP
     then 3 else
     if oper = KNC_OP_LOAD_FIELD \<or> oper = KNC_OP_STORE_FIELD \<or> oper = KNC_OP_MAKE_PTR_FIELD \<or>
        (oper \<ge> KNC_OP_JUMP_IF_INT_LT_FALSE \<and> oper \<le> KNC_OP_JUMP_IF_INT_NE_FALSE) \<or>
        (oper \<ge> KNC_OP_LOOP_BACK_INT_LT_INC \<and> oper \<le> KNC_OP_LOOP_BACK_INT_NE_DEC) \<or>
        (oper \<ge> KNC_OP_LOOP_ARRAY_SUM_INT_LT_INC \<and> oper \<le> KNC_OP_LOOP_ARRAY_SUM_INT_LE_INC) \<or>
        (oper \<ge> KNC_OP_ADD_INT_IMM \<and> oper \<le> KNC_OP_LSHR_INT)
     then 5 else
     if oper = KNC_OP_IS_TYPE
     then 6 else
     if oper = KNC_OP_PUSH_TRY
     then 7 else
     if oper = KNC_OP_MAKE_FUNC \<or> oper = KNC_OP_CALL_CLOSURE
     then 8 else
     if oper = KNC_OP_CALL_BUILTIN \<or> oper = KNC_OP_CALL_FUNC \<or> oper = KNC_OP_CALL_VIRT
     then 9 else
     0)"

subsection \<open>Writing\<close>

definition emit_u8 :: "code \<Rightarrow> int \<Rightarrow> code" where
  "emit_u8 code value = code @ [word_of_int (value AND 0xff)]"

definition emit_u16 :: "code \<Rightarrow> int \<Rightarrow> code" where
  "emit_u16 code value =
     code @ [word_of_int (value AND 0xff), word_of_int (drop_bit 8 value AND 0xff)]"

text \<open>A sequence of calls of the two.\<close>

datatype emission = U8 int | U16 int

fun emit_all :: "code \<Rightarrow> emission list \<Rightarrow> code" where
  "emit_all code [] = code"
| "emit_all code (U8 v # es) = emit_all (emit_u8 code v) es"
| "emit_all code (U16 v # es) = emit_all (emit_u16 code v) es"

text \<open>The placeholders return the position of the operand to patch.\<close>

definition emit_jump_placeholder :: "code \<Rightarrow> int \<Rightarrow> int \<times> code" where
  "emit_jump_placeholder code opcode =
     (let code = emit_all code [U8 opcode, U16 0] in (int (length code) - 2, code))"

definition emit_branch_placeholder :: "code \<Rightarrow> int \<Rightarrow> int \<Rightarrow> int \<times> code" where
  "emit_branch_placeholder code opcode cond_reg =
     (let code = emit_all code [U8 opcode, U8 cond_reg, U16 0] in (int (length code) - 2, code))"

definition emit_cmp_branch_placeholder :: "code \<Rightarrow> int \<Rightarrow> int \<Rightarrow> int \<Rightarrow> int \<times> code" where
  "emit_cmp_branch_placeholder code opcode lhs_reg rhs_reg =
     (let code = emit_all code [U8 opcode, U8 lhs_reg, U8 rhs_reg, U16 0]
      in (int (length code) - 2, code))"

definition emit_try_placeholder :: "code \<Rightarrow> int \<Rightarrow> int \<Rightarrow> int \<Rightarrow> int \<times> code" where
  "emit_try_placeholder code catch_reg catch_kind catch_payload =
     (let code = emit_all code [U8 KNC_OP_PUSH_TRY, U8 catch_reg, U8 catch_kind, U16 catch_payload, U16 0]
      in (int (length code) - 2, code))"

definition patch_u16 :: "code \<Rightarrow> int \<Rightarrow> int \<Rightarrow> code option" where
  "patch_u16 code operand_pos value =
     (if operand_pos < 0 \<or> operand_pos + 1 \<ge> int (length code) then None
      else Some (code[nat operand_pos := word_of_int (value AND 0xff),
                      nat (operand_pos + 1) := word_of_int (drop_bit 8 value AND 0xff)]))"

text \<open>Every position of the list is patched; \<open>patches->count = 0\<close> is the caller's empty list.\<close>

fun patch_all :: "code \<Rightarrow> int list \<Rightarrow> int \<Rightarrow> code option" where
  "patch_all code [] target = Some code"
| "patch_all code (p # ps) target =
     (case patch_u16 code p target of None \<Rightarrow> None | Some c \<Rightarrow> patch_all c ps target)"

definition current_ip :: "code \<Rightarrow> int" where
  "current_ip code = int (length code)"

definition knc_u16_at :: "code \<Rightarrow> nat \<Rightarrow> int" where
  "knc_u16_at code pos = uint (code ! pos) OR push_bit 8 (uint (code ! (pos + 1)))"

subsection \<open>Listing\<close>

text \<open>
  The positions at which \<open>write_program_listing\<close> prints an instruction of a function, and whether
  it stopped at a byte that starts none.
\<close>

function listing_walk :: "code \<Rightarrow> nat \<Rightarrow> nat list \<times> bool" where
  "listing_walk code pc =
     (if pc < length code
      then
        let n = nat (knc_instruction_size (uint (code ! pc)))
        in if n = 0 \<or> pc + n > length code then ([], True)
           else (let (pcs, invalid) = listing_walk code (pc + n) in (pc # pcs, invalid))
      else ([], False))"
  by pat_completeness auto

termination
  by (relation "measure (\<lambda>(code, pc). length code - pc)") auto

declare listing_walk.simps [simp del]

end
