(* ===== verification/KncCodeProps.thy ===== *)
theory KncCodeProps
  imports KncCode
begin

text \<open>
  Finished code is a sequence of whole instructions, which the listing walks through to the end;
  patching an operand changes two bytes, and the operand reads back modulo 65536.
\<close>

subsection \<open>Whole instructions\<close>

definition is_instruction :: "code \<Rightarrow> bool" where
  "is_instruction i \<longleftrightarrow> i \<noteq> [] \<and> knc_instruction_size (uint (hd i)) = int (length i)"

definition code_ok :: "code \<Rightarrow> bool" where
  "code_ok code \<longleftrightarrow> (\<exists>instrs. code = concat instrs \<and> (\<forall>i \<in> set instrs. is_instruction i))"

lemma code_ok_Nil [simp]: "code_ok []"
  unfolding code_ok_def by (rule exI [of _ "[]"]) simp

lemma code_ok_append: "code_ok a \<Longrightarrow> code_ok b \<Longrightarrow> code_ok (a @ b)"
  unfolding code_ok_def
proof (elim exE conjE)
  fix as bs
  assume "a = concat as" "\<forall>i \<in> set as. is_instruction i" "b = concat bs" "\<forall>i \<in> set bs. is_instruction i"
  then show "\<exists>instrs. a @ b = concat instrs \<and> (\<forall>i \<in> set instrs. is_instruction i)"
    by (intro exI [of _ "as @ bs"]) auto
qed

lemma code_ok_instruction: "is_instruction i \<Longrightarrow> code_ok i"
  unfolding code_ok_def by (rule exI [of _ "[i]"]) simp

fun starts :: "nat \<Rightarrow> code list \<Rightarrow> nat list" where
  "starts n [] = []"
| "starts n (i # is) = n # starts (n + length i) is"

lemma listing_walk_from:
  "\<forall>i \<in> set instrs. is_instruction i \<Longrightarrow>
   listing_walk (pre @ concat instrs) (length pre) = (starts (length pre) instrs, False)"
proof (induction instrs arbitrary: pre)
  case (Cons i "is")
  then have i: "i \<noteq> []" "knc_instruction_size (uint (hd i)) = int (length i)"
    by (auto simp: is_instruction_def)
  then obtain b bs where b: "i = b # bs" by (cases i) auto
  have "listing_walk ((pre @ i) @ concat is) (length (pre @ i)) = (starts (length (pre @ i)) is, False)"
    using Cons by (intro Cons.IH) auto
  moreover have "nat (1 + int (length bs)) = Suc (length bs)" by simp
  ultimately show ?case
    using i(2) unfolding b by (subst listing_walk.simps) (simp add: nth_append Let_def)
qed (subst listing_walk.simps, simp)

lemma starts_bounds:
  "\<forall>i \<in> set instrs. is_instruction i \<Longrightarrow>
   sorted_wrt (<) (starts n instrs) \<and> (\<forall>s \<in> set (starts n instrs). n \<le> s \<and> s < n + length (concat instrs))"
proof (induction instrs arbitrary: n)
  case (Cons i "is")
  obtain k where "length i = Suc k" using Cons.prems by (cases i) (auto simp: is_instruction_def)
  moreover have "sorted_wrt (<) (starts (n + length i) is)"
    "\<forall>s \<in> set (starts (n + length i) is). n + length i \<le> s \<and> s < n + length i + length (concat is)"
    using Cons.IH [of "n + length i"] Cons.prems by simp_all
  ultimately show ?case by force
qed simp

lemma starts_decompose:
  "s \<in> set (starts n instrs) \<Longrightarrow> \<forall>i \<in> set instrs. is_instruction i \<Longrightarrow>
   \<exists>as i bs. instrs = as @ i # bs \<and> s = n + length (concat as)"
proof (induction instrs arbitrary: n)
  case (Cons i "is")
  show ?case
  proof (cases "s = n")
    case True
    then show ?thesis by (intro exI [of _ "[]"] exI [of _ i] exI [of _ "is"]) auto
  next
    case False
    then have "s \<in> set (starts (n + length i) is)" using Cons.prems by simp
    then obtain as j bs where "is = as @ j # bs" "s = n + length i + length (concat as)"
      using Cons by (metis list.set_intros(2))
    then show ?thesis by (intro exI [of _ "i # as"]) auto
  qed
qed simp

subsection \<open>Operands\<close>

lemma uint_byte: "uint (word_of_int (v AND 0xff) :: 8 word) = take_bit 8 v"
proof -
  have "v AND 0xff = take_bit 8 v" by (simp add: take_bit_eq_mask mask_eq_exp_minus_1)
  then show ?thesis by (simp add: unsigned_of_int)
qed

lemma two_bytes: "take_bit 8 v OR push_bit 8 (take_bit 8 (drop_bit 8 v)) = (v mod 65536 :: int)"
proof -
  have "take_bit 8 v OR push_bit 8 (take_bit 8 (drop_bit 8 v)) = take_bit 16 v"
    by (rule bit_eqI) (auto simp: bit_simps)
  then show ?thesis by (simp add: take_bit_eq_mod)
qed

text \<open>
  C20: A patch inside the code writes the two bytes of its operand and no others, and the operand
  reads back as the target modulo 65536. A target of 65536 or more, which no caller excludes, is
  another address.
\<close>

theorem knc_patch_reads_back:
  assumes "0 \<le> pos" "pos + 1 < int (length code)"
  shows "\<exists>c. patch_u16 code pos v = Some c \<and> length c = length code \<and>
    knc_u16_at c (nat pos) = v mod 65536 \<and> (0 \<le> v \<and> v < 65536 \<longrightarrow> knc_u16_at c (nat pos) = v) \<and>
    (\<forall>j. j \<noteq> nat pos \<and> j \<noteq> nat pos + 1 \<longrightarrow> c ! j = code ! j)"
proof -
  define c where "c = code[nat pos := word_of_int (v AND 0xff),
      nat (pos + 1) := word_of_int (drop_bit 8 v AND 0xff)]"
  have n: "nat (pos + 1) = nat pos + 1" "nat pos + 1 < length code" using assms by linarith+
  have p: "patch_u16 code pos v = Some c" using assms by (simp add: patch_u16_def c_def)
  have "knc_u16_at c (nat pos) = v mod 65536"
    using n uint_byte [of v] uint_byte [of "drop_bit 8 v"] two_bytes [of v]
    by (simp add: knc_u16_at_def c_def)
  then show ?thesis using p n by (intro exI [of _ c]) (auto simp: c_def)
qed

theorem knc_patch_reads_back_witness:
  "\<exists>c. patch_u16 [41, 0, 0] 1 65538 = Some c \<and> knc_u16_at c 1 = 2"
  using knc_patch_reads_back [of 1 "[41, 0, 0]" 65538] by auto

text \<open>A position whose two bytes are operands of one instruction.\<close>

definition operand_of :: "code \<Rightarrow> int \<Rightarrow> bool" where
  "operand_of code pos \<longleftrightarrow> (\<exists>a i b. code = a @ i @ b \<and> code_ok a \<and> is_instruction i \<and> code_ok b \<and>
     int (length a) < pos \<and> pos + 1 < int (length a + length i))"

lemma operand_of_append: "operand_of code pos \<Longrightarrow> code_ok b \<Longrightarrow> operand_of (code @ b) pos"
  unfolding operand_of_def by (metis append.assoc code_ok_append)

lemma operand_in_code: "operand_of code pos \<Longrightarrow> 0 \<le> pos \<and> pos + 1 < int (length code)"
  unfolding operand_of_def by auto

lemma patch_splits:
  assumes "code = a @ i @ b" "int (length a) < pos" "pos + 1 < int (length a + length i)"
    "patch_u16 code pos v = Some c"
  shows "\<exists>i'. c = a @ i' @ b \<and> length i' = length i \<and> hd i' = hd i"
proof -
  define k where "k = nat pos - length a"
  have k: "nat pos = length a + k" "nat (pos + 1) = length a + Suc k" "0 < k" "Suc k < length i"
    using assms(2,3) by (auto simp: k_def)
  define i' where "i' = i[k := word_of_int (v AND 0xff), Suc k := word_of_int (drop_bit 8 v AND 0xff)]"
  have "c = a @ i' @ b"
    using assms(1,4) k by (auto simp: patch_u16_def i'_def list_update_append split: if_splits)
  moreover have "hd i' = hd i" using k by (cases i) (auto simp: i'_def split: nat.split)
  ultimately show ?thesis by (intro exI [of _ i']) (simp add: i'_def)
qed

lemma patch_code_ok:
  assumes "operand_of code pos" "patch_u16 code pos v = Some c"
  shows "code_ok c"
proof -
  obtain a i b where d: "code = a @ i @ b" "code_ok a" "is_instruction i" "code_ok b"
    "int (length a) < pos" "pos + 1 < int (length a + length i)"
    using assms(1) by (auto simp: operand_of_def)
  obtain i' where "c = a @ i' @ b" "length i' = length i" "hd i' = hd i"
    using patch_splits [OF d(1,5,6) assms(2)] by blast
  moreover have "is_instruction i'" using calculation d(3) by (cases i; cases i') (auto simp: is_instruction_def)
  ultimately show ?thesis using d by (auto intro: code_ok_append code_ok_instruction)
qed

text \<open>
  The listing of a function made of whole instructions prints every instruction once, in
  order, each at the position where it starts, and reaches the end of the code without meeting an
  invalid byte.
\<close>

theorem knc_listing_complete:
  assumes "code_ok code"
  shows "\<exists>instrs. code = concat instrs \<and> (\<forall>i \<in> set instrs. is_instruction i) \<and>
    listing_walk code 0 = (starts 0 instrs, False) \<and> length (fst (listing_walk code 0)) = length instrs \<and>
    sorted_wrt (<) (fst (listing_walk code 0))"
proof -
  obtain instrs where i: "code = concat instrs" "\<forall>i \<in> set instrs. is_instruction i"
    using assms by (auto simp: code_ok_def)
  have "listing_walk code 0 = (starts 0 instrs, False)"
    using listing_walk_from [OF i(2), of "[]"] i(1) by simp
  moreover have "length (starts n is) = length is" for n "is" by (induction "is" arbitrary: n) auto
  ultimately show ?thesis using i starts_bounds [OF i(2), of 0] by (intro exI [of _ instrs]) simp
qed

theorem knc_listing_complete_witness:
  "fst (listing_walk [5, 1, 2, 41, 0, 0, 58, 255] 0) = [0, 3, 6]"
proof -
  have w: "listing_walk [5, 1, 2, 41, 0, 0, 58, 255] 0 = ([0, 3, 6], False)" by code_simp
  have "code_ok ([5, 1, 2] @ [41, 0, 0] @ [58, 255])"
    by (intro code_ok_append code_ok_instruction) (simp_all add: is_instruction_def knc_instruction_size_def)
  from knc_listing_complete [OF this] show ?thesis using w by auto
qed

end
