(* ===== verification/StdTable.thy ===== *)
theory StdTable
  imports Ast
begin

text \<open>
  The table of built-in functions, \<open>apps/kinal/src/kn_std.c\<close> and \<open>include/kn/std.h\<close>: the modules
  the compiler provides, the profiles in which each built-in may be used, the groups by which the
  backends lower them, and their numbers in the bytecode.

  A built-in kind is its number in the C enumeration.
\<close>

subsection \<open>Kinds\<close>

abbreviation (input) "KN_BUILTIN_IO_CONSOLE_PRINTLINE \<equiv> (0 :: int)"
abbreviation (input) "KN_BUILTIN_IO_CONSOLE_PRINT \<equiv> (1 :: int)"
abbreviation (input) "KN_BUILTIN_IO_CONSOLE_READLINE \<equiv> (2 :: int)"
abbreviation (input) "KN_BUILTIN_IO_CONSOLE_WRITE \<equiv> (3 :: int)"
abbreviation (input) "KN_BUILTIN_IO_CONSOLE_WRITELINE \<equiv> (4 :: int)"
abbreviation (input) "KN_BUILTIN_IO_CONSOLE_PRINTINT \<equiv> (5 :: int)"
abbreviation (input) "KN_BUILTIN_IO_CONSOLE_PRINTBOOL \<equiv> (6 :: int)"
abbreviation (input) "KN_BUILTIN_IO_CONSOLE_PRINTCHAR \<equiv> (7 :: int)"
abbreviation (input) "KN_BUILTIN_IO_CONSOLE_PRINTLINEINT \<equiv> (8 :: int)"
abbreviation (input) "KN_BUILTIN_IO_CONSOLE_PRINTLINEBOOL \<equiv> (9 :: int)"
abbreviation (input) "KN_BUILTIN_IO_CONSOLE_PRINTLINECHAR \<equiv> (10 :: int)"
abbreviation (input) "KN_BUILTIN_IO_CONSOLE_WRITEINT \<equiv> (11 :: int)"
abbreviation (input) "KN_BUILTIN_IO_CONSOLE_WRITEBOOL \<equiv> (12 :: int)"
abbreviation (input) "KN_BUILTIN_IO_CONSOLE_WRITECHAR \<equiv> (13 :: int)"
abbreviation (input) "KN_BUILTIN_IO_TIME_NOW \<equiv> (14 :: int)"
abbreviation (input) "KN_BUILTIN_IO_TIME_GETTICK \<equiv> (15 :: int)"
abbreviation (input) "KN_BUILTIN_IO_TIME_SLEEP \<equiv> (16 :: int)"
abbreviation (input) "KN_BUILTIN_IO_TIME_NANOTICK \<equiv> (17 :: int)"
abbreviation (input) "KN_BUILTIN_IO_TIME_FORMAT \<equiv> (18 :: int)"
abbreviation (input) "KN_BUILTIN_IO_STRING_LENGTH \<equiv> (19 :: int)"
abbreviation (input) "KN_BUILTIN_IO_STRING_CONCAT \<equiv> (20 :: int)"
abbreviation (input) "KN_BUILTIN_IO_STRING_EQUALS \<equiv> (21 :: int)"
abbreviation (input) "KN_BUILTIN_IO_STRING_TOCHARS \<equiv> (22 :: int)"
abbreviation (input) "KN_BUILTIN_IO_DICT_NEW \<equiv> (23 :: int)"
abbreviation (input) "KN_BUILTIN_IO_DICT_SET \<equiv> (24 :: int)"
abbreviation (input) "KN_BUILTIN_IO_DICT_GET \<equiv> (25 :: int)"
abbreviation (input) "KN_BUILTIN_IO_DICT_TRY_FETCH \<equiv> (26 :: int)"
abbreviation (input) "KN_BUILTIN_IO_DICT_CONTAINS \<equiv> (27 :: int)"
abbreviation (input) "KN_BUILTIN_IO_DICT_COUNT \<equiv> (28 :: int)"
abbreviation (input) "KN_BUILTIN_IO_DICT_REMOVE \<equiv> (29 :: int)"
abbreviation (input) "KN_BUILTIN_IO_DICT_IS_EMPTY \<equiv> (30 :: int)"
abbreviation (input) "KN_BUILTIN_IO_DICT_KEYS \<equiv> (31 :: int)"
abbreviation (input) "KN_BUILTIN_IO_DICT_VALUES \<equiv> (32 :: int)"
abbreviation (input) "KN_BUILTIN_IO_LIST_NEW \<equiv> (33 :: int)"
abbreviation (input) "KN_BUILTIN_IO_LIST_ADD \<equiv> (34 :: int)"
abbreviation (input) "KN_BUILTIN_IO_LIST_GET \<equiv> (35 :: int)"
abbreviation (input) "KN_BUILTIN_IO_LIST_SET \<equiv> (36 :: int)"
abbreviation (input) "KN_BUILTIN_IO_LIST_INSERT \<equiv> (37 :: int)"
abbreviation (input) "KN_BUILTIN_IO_LIST_TRY_FETCH \<equiv> (38 :: int)"
abbreviation (input) "KN_BUILTIN_IO_LIST_COUNT \<equiv> (39 :: int)"
abbreviation (input) "KN_BUILTIN_IO_LIST_CLEAR \<equiv> (40 :: int)"
abbreviation (input) "KN_BUILTIN_IO_LIST_REMOVE_AT \<equiv> (41 :: int)"
abbreviation (input) "KN_BUILTIN_IO_LIST_CONTAINS \<equiv> (42 :: int)"
abbreviation (input) "KN_BUILTIN_IO_LIST_POP \<equiv> (43 :: int)"
abbreviation (input) "KN_BUILTIN_IO_LIST_PEEK \<equiv> (44 :: int)"
abbreviation (input) "KN_BUILTIN_IO_LIST_INDEX_OF \<equiv> (45 :: int)"
abbreviation (input) "KN_BUILTIN_IO_LIST_IS_EMPTY \<equiv> (46 :: int)"
abbreviation (input) "KN_BUILTIN_IO_SET_NEW \<equiv> (47 :: int)"
abbreviation (input) "KN_BUILTIN_IO_SET_ADD \<equiv> (48 :: int)"
abbreviation (input) "KN_BUILTIN_IO_SET_CONTAINS \<equiv> (49 :: int)"
abbreviation (input) "KN_BUILTIN_IO_SET_COUNT \<equiv> (50 :: int)"
abbreviation (input) "KN_BUILTIN_IO_SET_REMOVE \<equiv> (51 :: int)"
abbreviation (input) "KN_BUILTIN_IO_SET_CLEAR \<equiv> (52 :: int)"
abbreviation (input) "KN_BUILTIN_IO_SET_IS_EMPTY \<equiv> (53 :: int)"
abbreviation (input) "KN_BUILTIN_IO_SET_VALUES \<equiv> (54 :: int)"
abbreviation (input) "KN_BUILTIN_IO_MATH_ABS \<equiv> (55 :: int)"
abbreviation (input) "KN_BUILTIN_IO_MATH_MIN \<equiv> (56 :: int)"
abbreviation (input) "KN_BUILTIN_IO_MATH_MAX \<equiv> (57 :: int)"
abbreviation (input) "KN_BUILTIN_IO_MATH_CLAMP \<equiv> (58 :: int)"
abbreviation (input) "KN_BUILTIN_IO_PATH_COMBINE \<equiv> (59 :: int)"
abbreviation (input) "KN_BUILTIN_IO_PATH_FILE_NAME \<equiv> (60 :: int)"
abbreviation (input) "KN_BUILTIN_IO_PATH_EXTENSION \<equiv> (61 :: int)"
abbreviation (input) "KN_BUILTIN_IO_PATH_DIRECTORY \<equiv> (62 :: int)"
abbreviation (input) "KN_BUILTIN_IO_PATH_NORMALIZE \<equiv> (63 :: int)"
abbreviation (input) "KN_BUILTIN_IO_PATH_CWD \<equiv> (64 :: int)"
abbreviation (input) "KN_BUILTIN_IO_PATH_CHANGE_EXTENSION \<equiv> (65 :: int)"
abbreviation (input) "KN_BUILTIN_IO_PATH_HAS_EXTENSION \<equiv> (66 :: int)"
abbreviation (input) "KN_BUILTIN_IO_PATH_IS_ABSOLUTE \<equiv> (67 :: int)"
abbreviation (input) "KN_BUILTIN_IO_PATH_IS_RELATIVE \<equiv> (68 :: int)"
abbreviation (input) "KN_BUILTIN_IO_PATH_BASE_NAME \<equiv> (69 :: int)"
abbreviation (input) "KN_BUILTIN_IO_PATH_JOIN3 \<equiv> (70 :: int)"
abbreviation (input) "KN_BUILTIN_IO_PATH_JOIN4 \<equiv> (71 :: int)"
abbreviation (input) "KN_BUILTIN_IO_PATH_ENSURE_TRAILING_SEPARATOR \<equiv> (72 :: int)"
abbreviation (input) "KN_BUILTIN_IO_TEXT_LENGTH \<equiv> (73 :: int)"
abbreviation (input) "KN_BUILTIN_IO_TEXT_IS_EMPTY \<equiv> (74 :: int)"
abbreviation (input) "KN_BUILTIN_IO_TEXT_COUNT \<equiv> (75 :: int)"
abbreviation (input) "KN_BUILTIN_IO_TEXT_CONTAINS \<equiv> (76 :: int)"
abbreviation (input) "KN_BUILTIN_IO_TEXT_STARTS_WITH \<equiv> (77 :: int)"
abbreviation (input) "KN_BUILTIN_IO_TEXT_ENDS_WITH \<equiv> (78 :: int)"
abbreviation (input) "KN_BUILTIN_IO_TEXT_INDEX_OF \<equiv> (79 :: int)"
abbreviation (input) "KN_BUILTIN_IO_TEXT_LAST_INDEX_OF \<equiv> (80 :: int)"
abbreviation (input) "KN_BUILTIN_IO_TEXT_TRIM \<equiv> (81 :: int)"
abbreviation (input) "KN_BUILTIN_IO_TEXT_REPLACE \<equiv> (82 :: int)"
abbreviation (input) "KN_BUILTIN_IO_TEXT_TO_UPPER \<equiv> (83 :: int)"
abbreviation (input) "KN_BUILTIN_IO_TEXT_TO_LOWER \<equiv> (84 :: int)"
abbreviation (input) "KN_BUILTIN_IO_TEXT_SLICE \<equiv> (85 :: int)"
abbreviation (input) "KN_BUILTIN_IO_TEXT_SPLIT \<equiv> (86 :: int)"
abbreviation (input) "KN_BUILTIN_IO_TEXT_JOIN \<equiv> (87 :: int)"
abbreviation (input) "KN_BUILTIN_IO_TEXT_LINES \<equiv> (88 :: int)"
abbreviation (input) "KN_BUILTIN_IO_FILE_CREATE \<equiv> (89 :: int)"
abbreviation (input) "KN_BUILTIN_IO_FILE_TOUCH \<equiv> (90 :: int)"
abbreviation (input) "KN_BUILTIN_IO_FILE_READ_ALL_TEXT \<equiv> (91 :: int)"
abbreviation (input) "KN_BUILTIN_IO_FILE_READ_FIRST_LINE \<equiv> (92 :: int)"
abbreviation (input) "KN_BUILTIN_IO_FILE_WRITE_ALL_TEXT \<equiv> (93 :: int)"
abbreviation (input) "KN_BUILTIN_IO_FILE_APPEND_ALL_TEXT \<equiv> (94 :: int)"
abbreviation (input) "KN_BUILTIN_IO_FILE_APPEND_LINE \<equiv> (95 :: int)"
abbreviation (input) "KN_BUILTIN_IO_FILE_DELETE \<equiv> (96 :: int)"
abbreviation (input) "KN_BUILTIN_IO_FILE_DELETE_IF_EXISTS \<equiv> (97 :: int)"
abbreviation (input) "KN_BUILTIN_IO_FILE_SIZE \<equiv> (98 :: int)"
abbreviation (input) "KN_BUILTIN_IO_FILE_IS_EMPTY \<equiv> (99 :: int)"
abbreviation (input) "KN_BUILTIN_IO_FILE_COPY \<equiv> (100 :: int)"
abbreviation (input) "KN_BUILTIN_IO_FILE_MOVE \<equiv> (101 :: int)"
abbreviation (input) "KN_BUILTIN_IO_FILE_READ_OR_DEFAULT \<equiv> (102 :: int)"
abbreviation (input) "KN_BUILTIN_IO_FILE_READ_IF_EXISTS \<equiv> (103 :: int)"
abbreviation (input) "KN_BUILTIN_IO_FILE_READ_OR \<equiv> (104 :: int)"
abbreviation (input) "KN_BUILTIN_IO_FILE_READ_LINES \<equiv> (105 :: int)"
abbreviation (input) "KN_BUILTIN_IO_FILE_WRITE_LINES \<equiv> (106 :: int)"
abbreviation (input) "KN_BUILTIN_IO_FILE_REPLACE_TEXT \<equiv> (107 :: int)"
abbreviation (input) "KN_BUILTIN_IO_DIRECTORY_EXISTS \<equiv> (108 :: int)"
abbreviation (input) "KN_BUILTIN_IO_DIRECTORY_CREATE \<equiv> (109 :: int)"
abbreviation (input) "KN_BUILTIN_IO_DIRECTORY_ENSURE \<equiv> (110 :: int)"
abbreviation (input) "KN_BUILTIN_IO_DIRECTORY_DELETE \<equiv> (111 :: int)"
abbreviation (input) "KN_BUILTIN_IO_DIRECTORY_DELETE_IF_EXISTS \<equiv> (112 :: int)"
abbreviation (input) "KN_BUILTIN_IO_DIRECTORY_FILES \<equiv> (113 :: int)"
abbreviation (input) "KN_BUILTIN_IO_TYPE_BOOL \<equiv> (114 :: int)"
abbreviation (input) "KN_BUILTIN_IO_TYPE_BYTE \<equiv> (115 :: int)"
abbreviation (input) "KN_BUILTIN_IO_TYPE_CHAR \<equiv> (116 :: int)"
abbreviation (input) "KN_BUILTIN_IO_TYPE_INT \<equiv> (117 :: int)"
abbreviation (input) "KN_BUILTIN_IO_TYPE_FLOAT \<equiv> (118 :: int)"
abbreviation (input) "KN_BUILTIN_IO_TYPE_F16 \<equiv> (119 :: int)"
abbreviation (input) "KN_BUILTIN_IO_TYPE_F32 \<equiv> (120 :: int)"
abbreviation (input) "KN_BUILTIN_IO_TYPE_F64 \<equiv> (121 :: int)"
abbreviation (input) "KN_BUILTIN_IO_TYPE_F128 \<equiv> (122 :: int)"
abbreviation (input) "KN_BUILTIN_IO_TYPE_I8 \<equiv> (123 :: int)"
abbreviation (input) "KN_BUILTIN_IO_TYPE_I16 \<equiv> (124 :: int)"
abbreviation (input) "KN_BUILTIN_IO_TYPE_I32 \<equiv> (125 :: int)"
abbreviation (input) "KN_BUILTIN_IO_TYPE_I64 \<equiv> (126 :: int)"
abbreviation (input) "KN_BUILTIN_IO_TYPE_U8 \<equiv> (127 :: int)"
abbreviation (input) "KN_BUILTIN_IO_TYPE_U16 \<equiv> (128 :: int)"
abbreviation (input) "KN_BUILTIN_IO_TYPE_U32 \<equiv> (129 :: int)"
abbreviation (input) "KN_BUILTIN_IO_TYPE_U64 \<equiv> (130 :: int)"
abbreviation (input) "KN_BUILTIN_IO_TYPE_ISIZE \<equiv> (131 :: int)"
abbreviation (input) "KN_BUILTIN_IO_TYPE_USIZE \<equiv> (132 :: int)"
abbreviation (input) "KN_BUILTIN_IO_TYPE_STRING \<equiv> (133 :: int)"
abbreviation (input) "KN_BUILTIN_IO_TYPE_ANY \<equiv> (134 :: int)"
abbreviation (input) "KN_BUILTIN_IO_TYPE_DICT \<equiv> (135 :: int)"
abbreviation (input) "KN_BUILTIN_IO_TYPE_LIST \<equiv> (136 :: int)"
abbreviation (input) "KN_BUILTIN_IO_ANY_ISNULL \<equiv> (137 :: int)"
abbreviation (input) "KN_BUILTIN_IO_ANY_TOSTRING \<equiv> (138 :: int)"
abbreviation (input) "KN_BUILTIN_IO_ANY_EQUALS \<equiv> (139 :: int)"
abbreviation (input) "KN_BUILTIN_IO_ANY_TAG \<equiv> (140 :: int)"
abbreviation (input) "KN_BUILTIN_IO_ANY_TYPENAME \<equiv> (141 :: int)"
abbreviation (input) "KN_BUILTIN_IO_ANY_ISNUMBER \<equiv> (142 :: int)"
abbreviation (input) "KN_BUILTIN_IO_ANY_ISPOINTER \<equiv> (143 :: int)"
abbreviation (input) "KN_BUILTIN_IO_ANY_ISINT \<equiv> (144 :: int)"
abbreviation (input) "KN_BUILTIN_IO_ANY_ISFLOAT \<equiv> (145 :: int)"
abbreviation (input) "KN_BUILTIN_IO_ANY_ISSTRING \<equiv> (146 :: int)"
abbreviation (input) "KN_BUILTIN_IO_ANY_ISBOOL \<equiv> (147 :: int)"
abbreviation (input) "KN_BUILTIN_IO_ANY_ISCHAR \<equiv> (148 :: int)"
abbreviation (input) "KN_BUILTIN_IO_ANY_ISOBJECT \<equiv> (149 :: int)"
abbreviation (input) "KN_BUILTIN_IO_SYSTEM_EXIT \<equiv> (150 :: int)"
abbreviation (input) "KN_BUILTIN_IO_SYSTEM_COMMANDLINE \<equiv> (151 :: int)"
abbreviation (input) "KN_BUILTIN_IO_SYSTEM_FILE_EXISTS \<equiv> (152 :: int)"
abbreviation (input) "KN_BUILTIN_IO_SYSTEM_EXEC \<equiv> (153 :: int)"
abbreviation (input) "KN_BUILTIN_IO_SYSTEM_LOAD_LIBRARY \<equiv> (154 :: int)"
abbreviation (input) "KN_BUILTIN_IO_SYSTEM_GET_SYMBOL \<equiv> (155 :: int)"
abbreviation (input) "KN_BUILTIN_IO_SYSTEM_CLOSE_LIBRARY \<equiv> (156 :: int)"
abbreviation (input) "KN_BUILTIN_IO_SYSTEM_LAST_ERROR \<equiv> (157 :: int)"
abbreviation (input) "KN_BUILTIN_IO_ASYNC_SPAWN \<equiv> (158 :: int)"
abbreviation (input) "KN_BUILTIN_IO_ASYNC_IS_COMPLETED \<equiv> (159 :: int)"
abbreviation (input) "KN_BUILTIN_IO_ASYNC_WAIT \<equiv> (160 :: int)"
abbreviation (input) "KN_BUILTIN_IO_ASYNC_EXIT_CODE \<equiv> (161 :: int)"
abbreviation (input) "KN_BUILTIN_IO_ASYNC_CLOSE \<equiv> (162 :: int)"
abbreviation (input) "KN_BUILTIN_IO_ASYNC_RUN \<equiv> (163 :: int)"
abbreviation (input) "KN_BUILTIN_IO_ASYNC_SLEEP \<equiv> (164 :: int)"
abbreviation (input) "KN_BUILTIN_IO_ASYNC_YIELD \<equiv> (165 :: int)"
abbreviation (input) "KN_BUILTIN_IO_META_QUERY \<equiv> (166 :: int)"
abbreviation (input) "KN_BUILTIN_IO_META_OF \<equiv> (167 :: int)"
abbreviation (input) "KN_BUILTIN_IO_META_HAS \<equiv> (168 :: int)"
abbreviation (input) "KN_BUILTIN_IO_META_FIND \<equiv> (169 :: int)"
abbreviation (input) "KN_BUILTIN_IO_ERROR_LASTTRACE \<equiv> (170 :: int)"
abbreviation (input) "KN_BUILTIN_IO_ERROR_HAS \<equiv> (171 :: int)"
abbreviation (input) "KN_BUILTIN_IO_ERROR_CLEAR \<equiv> (172 :: int)"
abbreviation (input) "KN_BUILTIN_IO_ERROR_CURRENT \<equiv> (173 :: int)"
abbreviation (input) "KN_BUILTIN_IO_GC_COLLECT \<equiv> (174 :: int)"
abbreviation (input) "KN_BUILTIN_ARRAY_LENGTH \<equiv> (175 :: int)"
abbreviation (input) "KN_BUILTIN_ARRAY_INDEX \<equiv> (176 :: int)"
abbreviation (input) "KN_BUILTIN_ARRAY_ADD \<equiv> (177 :: int)"
abbreviation (input) "KN_BUILTIN_STRING_INDEX \<equiv> (178 :: int)"
abbreviation (input) "KN_BUILTIN_TYPEOF \<equiv> (179 :: int)"
abbreviation (input) "KN_BUILTIN_BLOCK_RUN \<equiv> (180 :: int)"
abbreviation (input) "KN_BUILTIN_BLOCK_JUMP \<equiv> (181 :: int)"
abbreviation (input) "KN_BUILTIN_BLOCK_RUN_UNTIL \<equiv> (182 :: int)"
abbreviation (input) "KN_BUILTIN_BLOCK_JUMP_AND_RUN_UNTIL \<equiv> (183 :: int)"
abbreviation (input) "KN_BUILTIN_IO_MEMORY_COPY \<equiv> (184 :: int)"
abbreviation (input) "KN_BUILTIN_IO_MEMORY_SET \<equiv> (185 :: int)"
abbreviation (input) "KN_BUILTIN_IO_MEMORY_ZERO \<equiv> (186 :: int)"
abbreviation (input) "KN_BUILTIN_IO_MEMORY_COMPARE \<equiv> (187 :: int)"
abbreviation (input) "KN_BUILTIN_IO_VOLATILE_READ8 \<equiv> (188 :: int)"
abbreviation (input) "KN_BUILTIN_IO_VOLATILE_READ16 \<equiv> (189 :: int)"
abbreviation (input) "KN_BUILTIN_IO_VOLATILE_READ32 \<equiv> (190 :: int)"
abbreviation (input) "KN_BUILTIN_IO_VOLATILE_READ64 \<equiv> (191 :: int)"
abbreviation (input) "KN_BUILTIN_IO_VOLATILE_WRITE8 \<equiv> (192 :: int)"
abbreviation (input) "KN_BUILTIN_IO_VOLATILE_WRITE16 \<equiv> (193 :: int)"
abbreviation (input) "KN_BUILTIN_IO_VOLATILE_WRITE32 \<equiv> (194 :: int)"
abbreviation (input) "KN_BUILTIN_IO_VOLATILE_WRITE64 \<equiv> (195 :: int)"
abbreviation (input) "KN_BUILTIN_IO_PANIC_ABORT \<equiv> (196 :: int)"
abbreviation (input) "KN_BUILTIN_IO_PANIC_HALT \<equiv> (197 :: int)"
abbreviation (input) "KN_BUILTIN_COUNT \<equiv> (198 :: int)"

datatype lowering_group = KN_BUILTIN_LOWERING_NONE | KN_BUILTIN_LOWERING_PLATFORM
  | KN_BUILTIN_LOWERING_COLLECTIONS | KN_BUILTIN_LOWERING_SYSTEM | KN_BUILTIN_LOWERING_TEXT
  | KN_BUILTIN_LOWERING_FILESYSTEM | KN_BUILTIN_LOWERING_DYNAMIC

subsection \<open>Functions and modules\<close>

record std_func =
  sf_module :: string
  sf_name :: string
  sf_kind :: int
  sf_ret :: ty
  sf_params :: "ty list"
  sf_safety :: safety

record std_module =
  sm_name :: string
  sm_funcs :: "std_func list"

definition g_string_funcs :: "std_func list" where
  "g_string_funcs = [
     \<lparr> sf_module = ''IO.Type.string'', sf_name = ''Length'', sf_kind = KN_BUILTIN_IO_STRING_LENGTH,
       sf_ret = (Ty TY_INT TY_UNKNOWN 0 0 None None []),
       sf_params = [(Ty TY_STRING TY_UNKNOWN 0 0 None None [])], sf_safety = SAFETY_SAFE \<rparr>,
     \<lparr> sf_module = ''IO.Type.string'', sf_name = ''Concat'', sf_kind = KN_BUILTIN_IO_STRING_CONCAT,
       sf_ret = (Ty TY_STRING TY_UNKNOWN 0 0 None None []),
       sf_params = [(Ty TY_STRING TY_UNKNOWN 0 0 None None []), (Ty TY_STRING TY_UNKNOWN 0 0 None None [])], sf_safety = SAFETY_SAFE \<rparr>,
     \<lparr> sf_module = ''IO.Type.string'', sf_name = ''Equals'', sf_kind = KN_BUILTIN_IO_STRING_EQUALS,
       sf_ret = (Ty TY_BOOL TY_UNKNOWN 0 0 None None []),
       sf_params = [(Ty TY_STRING TY_UNKNOWN 0 0 None None []), (Ty TY_STRING TY_UNKNOWN 0 0 None None [])], sf_safety = SAFETY_SAFE \<rparr>,
     \<lparr> sf_module = ''IO.Type.string'', sf_name = ''ToChars'', sf_kind = KN_BUILTIN_IO_STRING_TOCHARS,
       sf_ret = (Ty TY_ARRAY TY_CHAR (-1) 0 None None []),
       sf_params = [(Ty TY_STRING TY_UNKNOWN 0 0 None None [])], sf_safety = SAFETY_SAFE \<rparr>]"

definition g_dict_funcs :: "std_func list" where
  "g_dict_funcs = [
     \<lparr> sf_module = ''IO.Collection.dict'', sf_name = ''Create'', sf_kind = KN_BUILTIN_IO_DICT_NEW,
       sf_ret = (Ty TY_CLASS TY_UNKNOWN 0 0 (Some ''IO.Collection.dict'') None []),
       sf_params = [], sf_safety = SAFETY_SAFE \<rparr>,
     \<lparr> sf_module = ''IO.Collection.dict'', sf_name = ''Set'', sf_kind = KN_BUILTIN_IO_DICT_SET,
       sf_ret = (Ty TY_VOID TY_UNKNOWN 0 0 None None []),
       sf_params = [(Ty TY_CLASS TY_UNKNOWN 0 0 (Some ''IO.Collection.dict'') None []), (Ty TY_STRING TY_UNKNOWN 0 0 None None []), (Ty TY_ANY TY_UNKNOWN 0 0 None None [])], sf_safety = SAFETY_SAFE \<rparr>,
     \<lparr> sf_module = ''IO.Collection.dict'', sf_name = ''Fetch'', sf_kind = KN_BUILTIN_IO_DICT_GET,
       sf_ret = (Ty TY_ANY TY_UNKNOWN 0 0 None None []),
       sf_params = [(Ty TY_CLASS TY_UNKNOWN 0 0 (Some ''IO.Collection.dict'') None []), (Ty TY_STRING TY_UNKNOWN 0 0 None None [])], sf_safety = SAFETY_SAFE \<rparr>,
     \<lparr> sf_module = ''IO.Collection.dict'', sf_name = ''TryFetch'', sf_kind = KN_BUILTIN_IO_DICT_TRY_FETCH,
       sf_ret = (Ty TY_ANY TY_UNKNOWN 0 0 None None []),
       sf_params = [(Ty TY_CLASS TY_UNKNOWN 0 0 (Some ''IO.Collection.dict'') None []), (Ty TY_STRING TY_UNKNOWN 0 0 None None []), (Ty TY_ANY TY_UNKNOWN 0 0 None None [])], sf_safety = SAFETY_SAFE \<rparr>,
     \<lparr> sf_module = ''IO.Collection.dict'', sf_name = ''Contains'', sf_kind = KN_BUILTIN_IO_DICT_CONTAINS,
       sf_ret = (Ty TY_BOOL TY_UNKNOWN 0 0 None None []),
       sf_params = [(Ty TY_CLASS TY_UNKNOWN 0 0 (Some ''IO.Collection.dict'') None []), (Ty TY_STRING TY_UNKNOWN 0 0 None None [])], sf_safety = SAFETY_SAFE \<rparr>,
     \<lparr> sf_module = ''IO.Collection.dict'', sf_name = ''Count'', sf_kind = KN_BUILTIN_IO_DICT_COUNT,
       sf_ret = (Ty TY_INT TY_UNKNOWN 0 0 None None []),
       sf_params = [(Ty TY_CLASS TY_UNKNOWN 0 0 (Some ''IO.Collection.dict'') None [])], sf_safety = SAFETY_SAFE \<rparr>,
     \<lparr> sf_module = ''IO.Collection.dict'', sf_name = ''Remove'', sf_kind = KN_BUILTIN_IO_DICT_REMOVE,
       sf_ret = (Ty TY_BOOL TY_UNKNOWN 0 0 None None []),
       sf_params = [(Ty TY_CLASS TY_UNKNOWN 0 0 (Some ''IO.Collection.dict'') None []), (Ty TY_STRING TY_UNKNOWN 0 0 None None [])], sf_safety = SAFETY_SAFE \<rparr>,
     \<lparr> sf_module = ''IO.Collection.dict'', sf_name = ''IsEmpty'', sf_kind = KN_BUILTIN_IO_DICT_IS_EMPTY,
       sf_ret = (Ty TY_BOOL TY_UNKNOWN 0 0 None None []),
       sf_params = [(Ty TY_CLASS TY_UNKNOWN 0 0 (Some ''IO.Collection.dict'') None [])], sf_safety = SAFETY_SAFE \<rparr>,
     \<lparr> sf_module = ''IO.Collection.dict'', sf_name = ''Keys'', sf_kind = KN_BUILTIN_IO_DICT_KEYS,
       sf_ret = (Ty TY_CLASS TY_UNKNOWN 0 0 (Some ''IO.Collection.list'') None []),
       sf_params = [(Ty TY_CLASS TY_UNKNOWN 0 0 (Some ''IO.Collection.dict'') None [])], sf_safety = SAFETY_SAFE \<rparr>,
     \<lparr> sf_module = ''IO.Collection.dict'', sf_name = ''Values'', sf_kind = KN_BUILTIN_IO_DICT_VALUES,
       sf_ret = (Ty TY_CLASS TY_UNKNOWN 0 0 (Some ''IO.Collection.list'') None []),
       sf_params = [(Ty TY_CLASS TY_UNKNOWN 0 0 (Some ''IO.Collection.dict'') None [])], sf_safety = SAFETY_SAFE \<rparr>]"

definition g_list_funcs :: "std_func list" where
  "g_list_funcs = [
     \<lparr> sf_module = ''IO.Collection.list'', sf_name = ''Create'', sf_kind = KN_BUILTIN_IO_LIST_NEW,
       sf_ret = (Ty TY_CLASS TY_UNKNOWN 0 0 (Some ''IO.Collection.list'') None []),
       sf_params = [], sf_safety = SAFETY_SAFE \<rparr>,
     \<lparr> sf_module = ''IO.Collection.list'', sf_name = ''Add'', sf_kind = KN_BUILTIN_IO_LIST_ADD,
       sf_ret = (Ty TY_VOID TY_UNKNOWN 0 0 None None []),
       sf_params = [(Ty TY_CLASS TY_UNKNOWN 0 0 (Some ''IO.Collection.list'') None []), (Ty TY_ANY TY_UNKNOWN 0 0 None None [])], sf_safety = SAFETY_SAFE \<rparr>,
     \<lparr> sf_module = ''IO.Collection.list'', sf_name = ''Fetch'', sf_kind = KN_BUILTIN_IO_LIST_GET,
       sf_ret = (Ty TY_ANY TY_UNKNOWN 0 0 None None []),
       sf_params = [(Ty TY_CLASS TY_UNKNOWN 0 0 (Some ''IO.Collection.list'') None []), (Ty TY_INT TY_UNKNOWN 0 0 None None [])], sf_safety = SAFETY_SAFE \<rparr>,
     \<lparr> sf_module = ''IO.Collection.list'', sf_name = ''Set'', sf_kind = KN_BUILTIN_IO_LIST_SET,
       sf_ret = (Ty TY_VOID TY_UNKNOWN 0 0 None None []),
       sf_params = [(Ty TY_CLASS TY_UNKNOWN 0 0 (Some ''IO.Collection.list'') None []), (Ty TY_INT TY_UNKNOWN 0 0 None None []), (Ty TY_ANY TY_UNKNOWN 0 0 None None [])], sf_safety = SAFETY_SAFE \<rparr>,
     \<lparr> sf_module = ''IO.Collection.list'', sf_name = ''Insert'', sf_kind = KN_BUILTIN_IO_LIST_INSERT,
       sf_ret = (Ty TY_VOID TY_UNKNOWN 0 0 None None []),
       sf_params = [(Ty TY_CLASS TY_UNKNOWN 0 0 (Some ''IO.Collection.list'') None []), (Ty TY_INT TY_UNKNOWN 0 0 None None []), (Ty TY_ANY TY_UNKNOWN 0 0 None None [])], sf_safety = SAFETY_SAFE \<rparr>,
     \<lparr> sf_module = ''IO.Collection.list'', sf_name = ''TryFetch'', sf_kind = KN_BUILTIN_IO_LIST_TRY_FETCH,
       sf_ret = (Ty TY_ANY TY_UNKNOWN 0 0 None None []),
       sf_params = [(Ty TY_CLASS TY_UNKNOWN 0 0 (Some ''IO.Collection.list'') None []), (Ty TY_INT TY_UNKNOWN 0 0 None None []), (Ty TY_ANY TY_UNKNOWN 0 0 None None [])], sf_safety = SAFETY_SAFE \<rparr>,
     \<lparr> sf_module = ''IO.Collection.list'', sf_name = ''Count'', sf_kind = KN_BUILTIN_IO_LIST_COUNT,
       sf_ret = (Ty TY_INT TY_UNKNOWN 0 0 None None []),
       sf_params = [(Ty TY_CLASS TY_UNKNOWN 0 0 (Some ''IO.Collection.list'') None [])], sf_safety = SAFETY_SAFE \<rparr>,
     \<lparr> sf_module = ''IO.Collection.list'', sf_name = ''Clear'', sf_kind = KN_BUILTIN_IO_LIST_CLEAR,
       sf_ret = (Ty TY_VOID TY_UNKNOWN 0 0 None None []),
       sf_params = [(Ty TY_CLASS TY_UNKNOWN 0 0 (Some ''IO.Collection.list'') None [])], sf_safety = SAFETY_SAFE \<rparr>,
     \<lparr> sf_module = ''IO.Collection.list'', sf_name = ''RemoveAt'', sf_kind = KN_BUILTIN_IO_LIST_REMOVE_AT,
       sf_ret = (Ty TY_ANY TY_UNKNOWN 0 0 None None []),
       sf_params = [(Ty TY_CLASS TY_UNKNOWN 0 0 (Some ''IO.Collection.list'') None []), (Ty TY_INT TY_UNKNOWN 0 0 None None [])], sf_safety = SAFETY_SAFE \<rparr>,
     \<lparr> sf_module = ''IO.Collection.list'', sf_name = ''Contains'', sf_kind = KN_BUILTIN_IO_LIST_CONTAINS,
       sf_ret = (Ty TY_BOOL TY_UNKNOWN 0 0 None None []),
       sf_params = [(Ty TY_CLASS TY_UNKNOWN 0 0 (Some ''IO.Collection.list'') None []), (Ty TY_ANY TY_UNKNOWN 0 0 None None [])], sf_safety = SAFETY_SAFE \<rparr>,
     \<lparr> sf_module = ''IO.Collection.list'', sf_name = ''Pop'', sf_kind = KN_BUILTIN_IO_LIST_POP,
       sf_ret = (Ty TY_ANY TY_UNKNOWN 0 0 None None []),
       sf_params = [(Ty TY_CLASS TY_UNKNOWN 0 0 (Some ''IO.Collection.list'') None [])], sf_safety = SAFETY_SAFE \<rparr>,
     \<lparr> sf_module = ''IO.Collection.list'', sf_name = ''Peek'', sf_kind = KN_BUILTIN_IO_LIST_PEEK,
       sf_ret = (Ty TY_ANY TY_UNKNOWN 0 0 None None []),
       sf_params = [(Ty TY_CLASS TY_UNKNOWN 0 0 (Some ''IO.Collection.list'') None [])], sf_safety = SAFETY_SAFE \<rparr>,
     \<lparr> sf_module = ''IO.Collection.list'', sf_name = ''IndexOf'', sf_kind = KN_BUILTIN_IO_LIST_INDEX_OF,
       sf_ret = (Ty TY_INT TY_UNKNOWN 0 0 None None []),
       sf_params = [(Ty TY_CLASS TY_UNKNOWN 0 0 (Some ''IO.Collection.list'') None []), (Ty TY_ANY TY_UNKNOWN 0 0 None None [])], sf_safety = SAFETY_SAFE \<rparr>,
     \<lparr> sf_module = ''IO.Collection.list'', sf_name = ''IsEmpty'', sf_kind = KN_BUILTIN_IO_LIST_IS_EMPTY,
       sf_ret = (Ty TY_BOOL TY_UNKNOWN 0 0 None None []),
       sf_params = [(Ty TY_CLASS TY_UNKNOWN 0 0 (Some ''IO.Collection.list'') None [])], sf_safety = SAFETY_SAFE \<rparr>]"

definition g_set_funcs :: "std_func list" where
  "g_set_funcs = [
     \<lparr> sf_module = ''IO.Collection.set'', sf_name = ''Create'', sf_kind = KN_BUILTIN_IO_SET_NEW,
       sf_ret = (Ty TY_CLASS TY_UNKNOWN 0 0 (Some ''IO.Collection.set'') None []),
       sf_params = [], sf_safety = SAFETY_SAFE \<rparr>,
     \<lparr> sf_module = ''IO.Collection.set'', sf_name = ''Add'', sf_kind = KN_BUILTIN_IO_SET_ADD,
       sf_ret = (Ty TY_VOID TY_UNKNOWN 0 0 None None []),
       sf_params = [(Ty TY_CLASS TY_UNKNOWN 0 0 (Some ''IO.Collection.set'') None []), (Ty TY_STRING TY_UNKNOWN 0 0 None None [])], sf_safety = SAFETY_SAFE \<rparr>,
     \<lparr> sf_module = ''IO.Collection.set'', sf_name = ''Contains'', sf_kind = KN_BUILTIN_IO_SET_CONTAINS,
       sf_ret = (Ty TY_BOOL TY_UNKNOWN 0 0 None None []),
       sf_params = [(Ty TY_CLASS TY_UNKNOWN 0 0 (Some ''IO.Collection.set'') None []), (Ty TY_STRING TY_UNKNOWN 0 0 None None [])], sf_safety = SAFETY_SAFE \<rparr>,
     \<lparr> sf_module = ''IO.Collection.set'', sf_name = ''Count'', sf_kind = KN_BUILTIN_IO_SET_COUNT,
       sf_ret = (Ty TY_INT TY_UNKNOWN 0 0 None None []),
       sf_params = [(Ty TY_CLASS TY_UNKNOWN 0 0 (Some ''IO.Collection.set'') None [])], sf_safety = SAFETY_SAFE \<rparr>,
     \<lparr> sf_module = ''IO.Collection.set'', sf_name = ''Remove'', sf_kind = KN_BUILTIN_IO_SET_REMOVE,
       sf_ret = (Ty TY_BOOL TY_UNKNOWN 0 0 None None []),
       sf_params = [(Ty TY_CLASS TY_UNKNOWN 0 0 (Some ''IO.Collection.set'') None []), (Ty TY_STRING TY_UNKNOWN 0 0 None None [])], sf_safety = SAFETY_SAFE \<rparr>,
     \<lparr> sf_module = ''IO.Collection.set'', sf_name = ''Clear'', sf_kind = KN_BUILTIN_IO_SET_CLEAR,
       sf_ret = (Ty TY_VOID TY_UNKNOWN 0 0 None None []),
       sf_params = [(Ty TY_CLASS TY_UNKNOWN 0 0 (Some ''IO.Collection.set'') None [])], sf_safety = SAFETY_SAFE \<rparr>,
     \<lparr> sf_module = ''IO.Collection.set'', sf_name = ''IsEmpty'', sf_kind = KN_BUILTIN_IO_SET_IS_EMPTY,
       sf_ret = (Ty TY_BOOL TY_UNKNOWN 0 0 None None []),
       sf_params = [(Ty TY_CLASS TY_UNKNOWN 0 0 (Some ''IO.Collection.set'') None [])], sf_safety = SAFETY_SAFE \<rparr>,
     \<lparr> sf_module = ''IO.Collection.set'', sf_name = ''Values'', sf_kind = KN_BUILTIN_IO_SET_VALUES,
       sf_ret = (Ty TY_CLASS TY_UNKNOWN 0 0 (Some ''IO.Collection.list'') None []),
       sf_params = [(Ty TY_CLASS TY_UNKNOWN 0 0 (Some ''IO.Collection.set'') None [])], sf_safety = SAFETY_SAFE \<rparr>]"

definition g_type_funcs :: "std_func list" where
  "g_type_funcs = [
     \<lparr> sf_module = ''IO.Type'', sf_name = ''bool'', sf_kind = KN_BUILTIN_IO_TYPE_BOOL,
       sf_ret = (Ty TY_BOOL TY_UNKNOWN 0 0 None None []),
       sf_params = [(Ty TY_ANY TY_UNKNOWN 0 0 None None [])], sf_safety = SAFETY_SAFE \<rparr>,
     \<lparr> sf_module = ''IO.Type'', sf_name = ''byte'', sf_kind = KN_BUILTIN_IO_TYPE_BYTE,
       sf_ret = (Ty TY_BYTE TY_UNKNOWN 0 0 None None []),
       sf_params = [(Ty TY_ANY TY_UNKNOWN 0 0 None None [])], sf_safety = SAFETY_SAFE \<rparr>,
     \<lparr> sf_module = ''IO.Type'', sf_name = ''char'', sf_kind = KN_BUILTIN_IO_TYPE_CHAR,
       sf_ret = (Ty TY_CHAR TY_UNKNOWN 0 0 None None []),
       sf_params = [(Ty TY_ANY TY_UNKNOWN 0 0 None None [])], sf_safety = SAFETY_SAFE \<rparr>,
     \<lparr> sf_module = ''IO.Type'', sf_name = ''int'', sf_kind = KN_BUILTIN_IO_TYPE_INT,
       sf_ret = (Ty TY_INT TY_UNKNOWN 0 0 None None []),
       sf_params = [(Ty TY_ANY TY_UNKNOWN 0 0 None None [])], sf_safety = SAFETY_SAFE \<rparr>,
     \<lparr> sf_module = ''IO.Type'', sf_name = ''float'', sf_kind = KN_BUILTIN_IO_TYPE_FLOAT,
       sf_ret = (Ty TY_FLOAT TY_UNKNOWN 0 0 None None []),
       sf_params = [(Ty TY_ANY TY_UNKNOWN 0 0 None None [])], sf_safety = SAFETY_SAFE \<rparr>,
     \<lparr> sf_module = ''IO.Type'', sf_name = ''f16'', sf_kind = KN_BUILTIN_IO_TYPE_F16,
       sf_ret = (Ty TY_F16 TY_UNKNOWN 0 0 None None []),
       sf_params = [(Ty TY_ANY TY_UNKNOWN 0 0 None None [])], sf_safety = SAFETY_SAFE \<rparr>,
     \<lparr> sf_module = ''IO.Type'', sf_name = ''f32'', sf_kind = KN_BUILTIN_IO_TYPE_F32,
       sf_ret = (Ty TY_F32 TY_UNKNOWN 0 0 None None []),
       sf_params = [(Ty TY_ANY TY_UNKNOWN 0 0 None None [])], sf_safety = SAFETY_SAFE \<rparr>,
     \<lparr> sf_module = ''IO.Type'', sf_name = ''f64'', sf_kind = KN_BUILTIN_IO_TYPE_F64,
       sf_ret = (Ty TY_F64 TY_UNKNOWN 0 0 None None []),
       sf_params = [(Ty TY_ANY TY_UNKNOWN 0 0 None None [])], sf_safety = SAFETY_SAFE \<rparr>,
     \<lparr> sf_module = ''IO.Type'', sf_name = ''f128'', sf_kind = KN_BUILTIN_IO_TYPE_F128,
       sf_ret = (Ty TY_F128 TY_UNKNOWN 0 0 None None []),
       sf_params = [(Ty TY_ANY TY_UNKNOWN 0 0 None None [])], sf_safety = SAFETY_SAFE \<rparr>,
     \<lparr> sf_module = ''IO.Type'', sf_name = ''i8'', sf_kind = KN_BUILTIN_IO_TYPE_I8,
       sf_ret = (Ty TY_I8 TY_UNKNOWN 0 0 None None []),
       sf_params = [(Ty TY_ANY TY_UNKNOWN 0 0 None None [])], sf_safety = SAFETY_SAFE \<rparr>,
     \<lparr> sf_module = ''IO.Type'', sf_name = ''i16'', sf_kind = KN_BUILTIN_IO_TYPE_I16,
       sf_ret = (Ty TY_I16 TY_UNKNOWN 0 0 None None []),
       sf_params = [(Ty TY_ANY TY_UNKNOWN 0 0 None None [])], sf_safety = SAFETY_SAFE \<rparr>,
     \<lparr> sf_module = ''IO.Type'', sf_name = ''i32'', sf_kind = KN_BUILTIN_IO_TYPE_I32,
       sf_ret = (Ty TY_I32 TY_UNKNOWN 0 0 None None []),
       sf_params = [(Ty TY_ANY TY_UNKNOWN 0 0 None None [])], sf_safety = SAFETY_SAFE \<rparr>,
     \<lparr> sf_module = ''IO.Type'', sf_name = ''i64'', sf_kind = KN_BUILTIN_IO_TYPE_I64,
       sf_ret = (Ty TY_I64 TY_UNKNOWN 0 0 None None []),
       sf_params = [(Ty TY_ANY TY_UNKNOWN 0 0 None None [])], sf_safety = SAFETY_SAFE \<rparr>,
     \<lparr> sf_module = ''IO.Type'', sf_name = ''u8'', sf_kind = KN_BUILTIN_IO_TYPE_U8,
       sf_ret = (Ty TY_U8 TY_UNKNOWN 0 0 None None []),
       sf_params = [(Ty TY_ANY TY_UNKNOWN 0 0 None None [])], sf_safety = SAFETY_SAFE \<rparr>,
     \<lparr> sf_module = ''IO.Type'', sf_name = ''u16'', sf_kind = KN_BUILTIN_IO_TYPE_U16,
       sf_ret = (Ty TY_U16 TY_UNKNOWN 0 0 None None []),
       sf_params = [(Ty TY_ANY TY_UNKNOWN 0 0 None None [])], sf_safety = SAFETY_SAFE \<rparr>,
     \<lparr> sf_module = ''IO.Type'', sf_name = ''u32'', sf_kind = KN_BUILTIN_IO_TYPE_U32,
       sf_ret = (Ty TY_U32 TY_UNKNOWN 0 0 None None []),
       sf_params = [(Ty TY_ANY TY_UNKNOWN 0 0 None None [])], sf_safety = SAFETY_SAFE \<rparr>,
     \<lparr> sf_module = ''IO.Type'', sf_name = ''u64'', sf_kind = KN_BUILTIN_IO_TYPE_U64,
       sf_ret = (Ty TY_U64 TY_UNKNOWN 0 0 None None []),
       sf_params = [(Ty TY_ANY TY_UNKNOWN 0 0 None None [])], sf_safety = SAFETY_SAFE \<rparr>,
     \<lparr> sf_module = ''IO.Type'', sf_name = ''isize'', sf_kind = KN_BUILTIN_IO_TYPE_ISIZE,
       sf_ret = (Ty TY_ISIZE TY_UNKNOWN 0 0 None None []),
       sf_params = [(Ty TY_ANY TY_UNKNOWN 0 0 None None [])], sf_safety = SAFETY_SAFE \<rparr>,
     \<lparr> sf_module = ''IO.Type'', sf_name = ''usize'', sf_kind = KN_BUILTIN_IO_TYPE_USIZE,
       sf_ret = (Ty TY_USIZE TY_UNKNOWN 0 0 None None []),
       sf_params = [(Ty TY_ANY TY_UNKNOWN 0 0 None None [])], sf_safety = SAFETY_SAFE \<rparr>,
     \<lparr> sf_module = ''IO.Type'', sf_name = ''string'', sf_kind = KN_BUILTIN_IO_TYPE_STRING,
       sf_ret = (Ty TY_STRING TY_UNKNOWN 0 0 None None []),
       sf_params = [(Ty TY_ANY TY_UNKNOWN 0 0 None None [])], sf_safety = SAFETY_SAFE \<rparr>,
     \<lparr> sf_module = ''IO.Type'', sf_name = ''any'', sf_kind = KN_BUILTIN_IO_TYPE_ANY,
       sf_ret = (Ty TY_ANY TY_UNKNOWN 0 0 None None []),
       sf_params = [(Ty TY_ANY TY_UNKNOWN 0 0 None None [])], sf_safety = SAFETY_SAFE \<rparr>,
     \<lparr> sf_module = ''IO.Type'', sf_name = ''dict'', sf_kind = KN_BUILTIN_IO_TYPE_DICT,
       sf_ret = (Ty TY_CLASS TY_UNKNOWN 0 0 (Some ''IO.Collection.dict'') None []),
       sf_params = [(Ty TY_ANY TY_UNKNOWN 0 0 None None [])], sf_safety = SAFETY_SAFE \<rparr>,
     \<lparr> sf_module = ''IO.Type'', sf_name = ''list'', sf_kind = KN_BUILTIN_IO_TYPE_LIST,
       sf_ret = (Ty TY_CLASS TY_UNKNOWN 0 0 (Some ''IO.Collection.list'') None []),
       sf_params = [(Ty TY_ANY TY_UNKNOWN 0 0 None None [])], sf_safety = SAFETY_SAFE \<rparr>]"

definition g_any_funcs :: "std_func list" where
  "g_any_funcs = [
     \<lparr> sf_module = ''IO.Type.any'', sf_name = ''IsNull'', sf_kind = KN_BUILTIN_IO_ANY_ISNULL,
       sf_ret = (Ty TY_BOOL TY_UNKNOWN 0 0 None None []),
       sf_params = [(Ty TY_ANY TY_UNKNOWN 0 0 None None [])], sf_safety = SAFETY_SAFE \<rparr>,
     \<lparr> sf_module = ''IO.Type.any'', sf_name = ''ToString'', sf_kind = KN_BUILTIN_IO_ANY_TOSTRING,
       sf_ret = (Ty TY_STRING TY_UNKNOWN 0 0 None None []),
       sf_params = [(Ty TY_ANY TY_UNKNOWN 0 0 None None [])], sf_safety = SAFETY_SAFE \<rparr>,
     \<lparr> sf_module = ''IO.Type.any'', sf_name = ''Equals'', sf_kind = KN_BUILTIN_IO_ANY_EQUALS,
       sf_ret = (Ty TY_BOOL TY_UNKNOWN 0 0 None None []),
       sf_params = [(Ty TY_ANY TY_UNKNOWN 0 0 None None []), (Ty TY_ANY TY_UNKNOWN 0 0 None None [])], sf_safety = SAFETY_SAFE \<rparr>,
     \<lparr> sf_module = ''IO.Type.any'', sf_name = ''Tag'', sf_kind = KN_BUILTIN_IO_ANY_TAG,
       sf_ret = (Ty TY_INT TY_UNKNOWN 0 0 None None []),
       sf_params = [(Ty TY_ANY TY_UNKNOWN 0 0 None None [])], sf_safety = SAFETY_SAFE \<rparr>,
     \<lparr> sf_module = ''IO.Type.any'', sf_name = ''TypeName'', sf_kind = KN_BUILTIN_IO_ANY_TYPENAME,
       sf_ret = (Ty TY_STRING TY_UNKNOWN 0 0 None None []),
       sf_params = [(Ty TY_ANY TY_UNKNOWN 0 0 None None [])], sf_safety = SAFETY_SAFE \<rparr>,
     \<lparr> sf_module = ''IO.Type.any'', sf_name = ''IsNumber'', sf_kind = KN_BUILTIN_IO_ANY_ISNUMBER,
       sf_ret = (Ty TY_BOOL TY_UNKNOWN 0 0 None None []),
       sf_params = [(Ty TY_ANY TY_UNKNOWN 0 0 None None [])], sf_safety = SAFETY_SAFE \<rparr>,
     \<lparr> sf_module = ''IO.Type.any'', sf_name = ''IsPointer'', sf_kind = KN_BUILTIN_IO_ANY_ISPOINTER,
       sf_ret = (Ty TY_BOOL TY_UNKNOWN 0 0 None None []),
       sf_params = [(Ty TY_ANY TY_UNKNOWN 0 0 None None [])], sf_safety = SAFETY_SAFE \<rparr>,
     \<lparr> sf_module = ''IO.Type.any'', sf_name = ''IsInt'', sf_kind = KN_BUILTIN_IO_ANY_ISINT,
       sf_ret = (Ty TY_BOOL TY_UNKNOWN 0 0 None None []),
       sf_params = [(Ty TY_ANY TY_UNKNOWN 0 0 None None [])], sf_safety = SAFETY_SAFE \<rparr>,
     \<lparr> sf_module = ''IO.Type.any'', sf_name = ''IsFloat'', sf_kind = KN_BUILTIN_IO_ANY_ISFLOAT,
       sf_ret = (Ty TY_BOOL TY_UNKNOWN 0 0 None None []),
       sf_params = [(Ty TY_ANY TY_UNKNOWN 0 0 None None [])], sf_safety = SAFETY_SAFE \<rparr>,
     \<lparr> sf_module = ''IO.Type.any'', sf_name = ''IsString'', sf_kind = KN_BUILTIN_IO_ANY_ISSTRING,
       sf_ret = (Ty TY_BOOL TY_UNKNOWN 0 0 None None []),
       sf_params = [(Ty TY_ANY TY_UNKNOWN 0 0 None None [])], sf_safety = SAFETY_SAFE \<rparr>,
     \<lparr> sf_module = ''IO.Type.any'', sf_name = ''IsBool'', sf_kind = KN_BUILTIN_IO_ANY_ISBOOL,
       sf_ret = (Ty TY_BOOL TY_UNKNOWN 0 0 None None []),
       sf_params = [(Ty TY_ANY TY_UNKNOWN 0 0 None None [])], sf_safety = SAFETY_SAFE \<rparr>,
     \<lparr> sf_module = ''IO.Type.any'', sf_name = ''IsChar'', sf_kind = KN_BUILTIN_IO_ANY_ISCHAR,
       sf_ret = (Ty TY_BOOL TY_UNKNOWN 0 0 None None []),
       sf_params = [(Ty TY_ANY TY_UNKNOWN 0 0 None None [])], sf_safety = SAFETY_SAFE \<rparr>,
     \<lparr> sf_module = ''IO.Type.any'', sf_name = ''IsObject'', sf_kind = KN_BUILTIN_IO_ANY_ISOBJECT,
       sf_ret = (Ty TY_BOOL TY_UNKNOWN 0 0 None None []),
       sf_params = [(Ty TY_ANY TY_UNKNOWN 0 0 None None [])], sf_safety = SAFETY_SAFE \<rparr>]"

definition g_system_funcs :: "std_func list" where
  "g_system_funcs = [
     \<lparr> sf_module = ''IO.System'', sf_name = ''Exit'', sf_kind = KN_BUILTIN_IO_SYSTEM_EXIT,
       sf_ret = (Ty TY_VOID TY_UNKNOWN 0 0 None None []),
       sf_params = [(Ty TY_INT TY_UNKNOWN 0 0 None None [])], sf_safety = SAFETY_SAFE \<rparr>,
     \<lparr> sf_module = ''IO.System'', sf_name = ''CommandLine'', sf_kind = KN_BUILTIN_IO_SYSTEM_COMMANDLINE,
       sf_ret = (Ty TY_STRING TY_UNKNOWN 0 0 None None []),
       sf_params = [], sf_safety = SAFETY_SAFE \<rparr>,
     \<lparr> sf_module = ''IO.System'', sf_name = ''FileExists'', sf_kind = KN_BUILTIN_IO_SYSTEM_FILE_EXISTS,
       sf_ret = (Ty TY_BOOL TY_UNKNOWN 0 0 None None []),
       sf_params = [(Ty TY_STRING TY_UNKNOWN 0 0 None None [])], sf_safety = SAFETY_SAFE \<rparr>,
     \<lparr> sf_module = ''IO.System'', sf_name = ''Exec'', sf_kind = KN_BUILTIN_IO_SYSTEM_EXEC,
       sf_ret = (Ty TY_INT TY_UNKNOWN 0 0 None None []),
       sf_params = [(Ty TY_STRING TY_UNKNOWN 0 0 None None [])], sf_safety = SAFETY_TRUSTED \<rparr>,
     \<lparr> sf_module = ''IO.System'', sf_name = ''LoadLibrary'', sf_kind = KN_BUILTIN_IO_SYSTEM_LOAD_LIBRARY,
       sf_ret = (Ty TY_PTR TY_BYTE 0 1 None None []),
       sf_params = [(Ty TY_STRING TY_UNKNOWN 0 0 None None [])], sf_safety = SAFETY_TRUSTED \<rparr>,
     \<lparr> sf_module = ''IO.System'', sf_name = ''GetSymbol'', sf_kind = KN_BUILTIN_IO_SYSTEM_GET_SYMBOL,
       sf_ret = (Ty TY_PTR TY_BYTE 0 1 None None []),
       sf_params = [(Ty TY_PTR TY_BYTE 0 1 None None []), (Ty TY_STRING TY_UNKNOWN 0 0 None None [])], sf_safety = SAFETY_TRUSTED \<rparr>,
     \<lparr> sf_module = ''IO.System'', sf_name = ''CloseLibrary'', sf_kind = KN_BUILTIN_IO_SYSTEM_CLOSE_LIBRARY,
       sf_ret = (Ty TY_BOOL TY_UNKNOWN 0 0 None None []),
       sf_params = [(Ty TY_PTR TY_BYTE 0 1 None None [])], sf_safety = SAFETY_TRUSTED \<rparr>,
     \<lparr> sf_module = ''IO.System'', sf_name = ''LastError'', sf_kind = KN_BUILTIN_IO_SYSTEM_LAST_ERROR,
       sf_ret = (Ty TY_STRING TY_UNKNOWN 0 0 None None []),
       sf_params = [], sf_safety = SAFETY_SAFE \<rparr>]"

definition g_async_funcs :: "std_func list" where
  "g_async_funcs = [
     \<lparr> sf_module = ''IO.Async'', sf_name = ''Spawn'', sf_kind = KN_BUILTIN_IO_ASYNC_SPAWN,
       sf_ret = (Ty TY_PTR TY_BYTE 0 1 None None []),
       sf_params = [(Ty TY_STRING TY_UNKNOWN 0 0 None None [])], sf_safety = SAFETY_TRUSTED \<rparr>,
     \<lparr> sf_module = ''IO.Async'', sf_name = ''IsCompleted'', sf_kind = KN_BUILTIN_IO_ASYNC_IS_COMPLETED,
       sf_ret = (Ty TY_BOOL TY_UNKNOWN 0 0 None None []),
       sf_params = [(Ty TY_PTR TY_BYTE 0 1 None None [])], sf_safety = SAFETY_TRUSTED \<rparr>,
     \<lparr> sf_module = ''IO.Async'', sf_name = ''Wait'', sf_kind = KN_BUILTIN_IO_ASYNC_WAIT,
       sf_ret = (Ty TY_BOOL TY_UNKNOWN 0 0 None None []),
       sf_params = [(Ty TY_PTR TY_BYTE 0 1 None None []), (Ty TY_INT TY_UNKNOWN 0 0 None None [])], sf_safety = SAFETY_TRUSTED \<rparr>,
     \<lparr> sf_module = ''IO.Async'', sf_name = ''ExitCode'', sf_kind = KN_BUILTIN_IO_ASYNC_EXIT_CODE,
       sf_ret = (Ty TY_INT TY_UNKNOWN 0 0 None None []),
       sf_params = [(Ty TY_PTR TY_BYTE 0 1 None None [])], sf_safety = SAFETY_TRUSTED \<rparr>,
     \<lparr> sf_module = ''IO.Async'', sf_name = ''Close'', sf_kind = KN_BUILTIN_IO_ASYNC_CLOSE,
       sf_ret = (Ty TY_BOOL TY_UNKNOWN 0 0 None None []),
       sf_params = [(Ty TY_PTR TY_BYTE 0 1 None None [])], sf_safety = SAFETY_TRUSTED \<rparr>,
     \<lparr> sf_module = ''IO.Async'', sf_name = ''Run'', sf_kind = KN_BUILTIN_IO_ASYNC_RUN,
       sf_ret = (Ty TY_ANY TY_UNKNOWN 0 0 None None []),
       sf_params = [(Ty TY_CLASS TY_UNKNOWN 0 0 (Some ''IO.Async.Task'') None [])], sf_safety = SAFETY_SAFE \<rparr>,
     \<lparr> sf_module = ''IO.Async'', sf_name = ''Sleep'', sf_kind = KN_BUILTIN_IO_ASYNC_SLEEP,
       sf_ret = (Ty TY_CLASS TY_UNKNOWN 0 0 (Some ''IO.Async.Task'') None []),
       sf_params = [(Ty TY_INT TY_UNKNOWN 0 0 None None [])], sf_safety = SAFETY_SAFE \<rparr>,
     \<lparr> sf_module = ''IO.Async'', sf_name = ''Yield'', sf_kind = KN_BUILTIN_IO_ASYNC_YIELD,
       sf_ret = (Ty TY_CLASS TY_UNKNOWN 0 0 (Some ''IO.Async.Task'') None []),
       sf_params = [], sf_safety = SAFETY_SAFE \<rparr>]"

definition g_meta_funcs :: "std_func list" where
  "g_meta_funcs = [
     \<lparr> sf_module = ''IO.Meta'', sf_name = ''Query'', sf_kind = KN_BUILTIN_IO_META_QUERY,
       sf_ret = (Ty TY_CLASS TY_UNKNOWN 0 0 (Some ''IO.Collection.list'') None []),
       sf_params = [(Ty TY_STRING TY_UNKNOWN 0 0 None None [])], sf_safety = SAFETY_SAFE \<rparr>,
     \<lparr> sf_module = ''IO.Meta'', sf_name = ''Of'', sf_kind = KN_BUILTIN_IO_META_OF,
       sf_ret = (Ty TY_CLASS TY_UNKNOWN 0 0 (Some ''IO.Collection.list'') None []),
       sf_params = [(Ty TY_STRING TY_UNKNOWN 0 0 None None [])], sf_safety = SAFETY_SAFE \<rparr>,
     \<lparr> sf_module = ''IO.Meta'', sf_name = ''Has'', sf_kind = KN_BUILTIN_IO_META_HAS,
       sf_ret = (Ty TY_BOOL TY_UNKNOWN 0 0 None None []),
       sf_params = [(Ty TY_STRING TY_UNKNOWN 0 0 None None []), (Ty TY_STRING TY_UNKNOWN 0 0 None None [])], sf_safety = SAFETY_SAFE \<rparr>,
     \<lparr> sf_module = ''IO.Meta'', sf_name = ''Find'', sf_kind = KN_BUILTIN_IO_META_FIND,
       sf_ret = (Ty TY_CLASS TY_UNKNOWN 0 0 (Some ''IO.Collection.dict'') None []),
       sf_params = [(Ty TY_STRING TY_UNKNOWN 0 0 None None []), (Ty TY_STRING TY_UNKNOWN 0 0 None None [])], sf_safety = SAFETY_SAFE \<rparr>]"

definition g_error_funcs :: "std_func list" where
  "g_error_funcs = [
     \<lparr> sf_module = ''IO.Error'', sf_name = ''LastTrace'', sf_kind = KN_BUILTIN_IO_ERROR_LASTTRACE,
       sf_ret = (Ty TY_STRING TY_UNKNOWN 0 0 None None []),
       sf_params = [], sf_safety = SAFETY_SAFE \<rparr>,
     \<lparr> sf_module = ''IO.Error'', sf_name = ''HasException'', sf_kind = KN_BUILTIN_IO_ERROR_HAS,
       sf_ret = (Ty TY_BOOL TY_UNKNOWN 0 0 None None []),
       sf_params = [], sf_safety = SAFETY_SAFE \<rparr>,
     \<lparr> sf_module = ''IO.Error'', sf_name = ''Clear'', sf_kind = KN_BUILTIN_IO_ERROR_CLEAR,
       sf_ret = (Ty TY_VOID TY_UNKNOWN 0 0 None None []),
       sf_params = [], sf_safety = SAFETY_SAFE \<rparr>,
     \<lparr> sf_module = ''IO.Error'', sf_name = ''Current'', sf_kind = KN_BUILTIN_IO_ERROR_CURRENT,
       sf_ret = (Ty TY_CLASS TY_UNKNOWN 0 0 (Some ''IO.Error'') None []),
       sf_params = [], sf_safety = SAFETY_SAFE \<rparr>]"

definition g_gc_funcs :: "std_func list" where
  "g_gc_funcs = [
     \<lparr> sf_module = ''IO.GC'', sf_name = ''Collect'', sf_kind = KN_BUILTIN_IO_GC_COLLECT,
       sf_ret = (Ty TY_VOID TY_UNKNOWN 0 0 None None []),
       sf_params = [], sf_safety = SAFETY_SAFE \<rparr>]"

definition g_volatile_funcs :: "std_func list" where
  "g_volatile_funcs = [
     \<lparr> sf_module = ''IO.Volatile'', sf_name = ''Read8'', sf_kind = KN_BUILTIN_IO_VOLATILE_READ8,
       sf_ret = (Ty TY_U8 TY_UNKNOWN 0 0 None None []),
       sf_params = [(Ty TY_PTR TY_U8 0 1 None None [])], sf_safety = SAFETY_TRUSTED \<rparr>,
     \<lparr> sf_module = ''IO.Volatile'', sf_name = ''Read16'', sf_kind = KN_BUILTIN_IO_VOLATILE_READ16,
       sf_ret = (Ty TY_U16 TY_UNKNOWN 0 0 None None []),
       sf_params = [(Ty TY_PTR TY_U16 0 1 None None [])], sf_safety = SAFETY_TRUSTED \<rparr>,
     \<lparr> sf_module = ''IO.Volatile'', sf_name = ''Read32'', sf_kind = KN_BUILTIN_IO_VOLATILE_READ32,
       sf_ret = (Ty TY_U32 TY_UNKNOWN 0 0 None None []),
       sf_params = [(Ty TY_PTR TY_U32 0 1 None None [])], sf_safety = SAFETY_TRUSTED \<rparr>,
     \<lparr> sf_module = ''IO.Volatile'', sf_name = ''Read64'', sf_kind = KN_BUILTIN_IO_VOLATILE_READ64,
       sf_ret = (Ty TY_U64 TY_UNKNOWN 0 0 None None []),
       sf_params = [(Ty TY_PTR TY_U64 0 1 None None [])], sf_safety = SAFETY_TRUSTED \<rparr>,
     \<lparr> sf_module = ''IO.Volatile'', sf_name = ''Write8'', sf_kind = KN_BUILTIN_IO_VOLATILE_WRITE8,
       sf_ret = (Ty TY_VOID TY_UNKNOWN 0 0 None None []),
       sf_params = [(Ty TY_PTR TY_U8 0 1 None None []), (Ty TY_U8 TY_UNKNOWN 0 0 None None [])], sf_safety = SAFETY_TRUSTED \<rparr>,
     \<lparr> sf_module = ''IO.Volatile'', sf_name = ''Write16'', sf_kind = KN_BUILTIN_IO_VOLATILE_WRITE16,
       sf_ret = (Ty TY_VOID TY_UNKNOWN 0 0 None None []),
       sf_params = [(Ty TY_PTR TY_U16 0 1 None None []), (Ty TY_U16 TY_UNKNOWN 0 0 None None [])], sf_safety = SAFETY_TRUSTED \<rparr>,
     \<lparr> sf_module = ''IO.Volatile'', sf_name = ''Write32'', sf_kind = KN_BUILTIN_IO_VOLATILE_WRITE32,
       sf_ret = (Ty TY_VOID TY_UNKNOWN 0 0 None None []),
       sf_params = [(Ty TY_PTR TY_U32 0 1 None None []), (Ty TY_U32 TY_UNKNOWN 0 0 None None [])], sf_safety = SAFETY_TRUSTED \<rparr>,
     \<lparr> sf_module = ''IO.Volatile'', sf_name = ''Write64'', sf_kind = KN_BUILTIN_IO_VOLATILE_WRITE64,
       sf_ret = (Ty TY_VOID TY_UNKNOWN 0 0 None None []),
       sf_params = [(Ty TY_PTR TY_U64 0 1 None None []), (Ty TY_U64 TY_UNKNOWN 0 0 None None [])], sf_safety = SAFETY_TRUSTED \<rparr>]"

definition g_panic_funcs :: "std_func list" where
  "g_panic_funcs = [
     \<lparr> sf_module = ''IO.Panic'', sf_name = ''Abort'', sf_kind = KN_BUILTIN_IO_PANIC_ABORT,
       sf_ret = (Ty TY_VOID TY_UNKNOWN 0 0 None None []),
       sf_params = [], sf_safety = SAFETY_TRUSTED \<rparr>,
     \<lparr> sf_module = ''IO.Panic'', sf_name = ''Halt'', sf_kind = KN_BUILTIN_IO_PANIC_HALT,
       sf_ret = (Ty TY_VOID TY_UNKNOWN 0 0 None None []),
       sf_params = [], sf_safety = SAFETY_TRUSTED \<rparr>]"

definition g_modules :: "std_module list" where
  "g_modules = [
     \<lparr> sm_name = ''IO.Type.string'', sm_funcs = g_string_funcs \<rparr>,
     \<lparr> sm_name = ''IO.Collection.dict'', sm_funcs = g_dict_funcs \<rparr>,
     \<lparr> sm_name = ''IO.Collection.list'', sm_funcs = g_list_funcs \<rparr>,
     \<lparr> sm_name = ''IO.Collection.set'', sm_funcs = g_set_funcs \<rparr>,
     \<lparr> sm_name = ''IO.Type'', sm_funcs = g_type_funcs \<rparr>,
     \<lparr> sm_name = ''IO.Type.any'', sm_funcs = g_any_funcs \<rparr>,
     \<lparr> sm_name = ''IO.System'', sm_funcs = g_system_funcs \<rparr>,
     \<lparr> sm_name = ''IO.Async'', sm_funcs = g_async_funcs \<rparr>,
     \<lparr> sm_name = ''IO.Meta'', sm_funcs = g_meta_funcs \<rparr>,
     \<lparr> sm_name = ''IO.Error'', sm_funcs = g_error_funcs \<rparr>,
     \<lparr> sm_name = ''IO.GC'', sm_funcs = g_gc_funcs \<rparr>,
     \<lparr> sm_name = ''IO.Volatile'', sm_funcs = g_volatile_funcs \<rparr>,
     \<lparr> sm_name = ''IO.Panic'', sm_funcs = g_panic_funcs \<rparr>,
     \<lparr> sm_name = ''IO.Target'', sm_funcs = [] \<rparr>,
     \<lparr> sm_name = ''IO.Target.OS'', sm_funcs = [] \<rparr>,
     \<lparr> sm_name = ''IO.Target.Arch'', sm_funcs = [] \<rparr>,
     \<lparr> sm_name = ''IO.Target.Env'', sm_funcs = [] \<rparr>,
     \<lparr> sm_name = ''IO.Host'', sm_funcs = [] \<rparr>,
     \<lparr> sm_name = ''IO.Host.OS'', sm_funcs = [] \<rparr>,
     \<lparr> sm_name = ''IO.Host.Arch'', sm_funcs = [] \<rparr>,
     \<lparr> sm_name = ''IO.Host.Env'', sm_funcs = [] \<rparr>,
     \<lparr> sm_name = ''IO.Runtime'', sm_funcs = [] \<rparr>,
     \<lparr> sm_name = ''IO.Runtime.Kind'', sm_funcs = [] \<rparr>,
     \<lparr> sm_name = ''IO.Version'', sm_funcs = [] \<rparr>,
     \<lparr> sm_name = ''IO.Version.VM'', sm_funcs = [] \<rparr>]"

subsection \<open>Profiles\<close>

abbreviation (input) "KN_STD_PROFILE_HOSTED \<equiv> (0 :: int)"
abbreviation (input) "KN_STD_PROFILE_FREESTANDING_CORE \<equiv> (1 :: int)"
abbreviation (input) "KN_STD_PROFILE_FREESTANDING_ALLOC \<equiv> (2 :: int)"
abbreviation (input) "KN_STD_PROFILE_FREESTANDING_GC \<equiv> (3 :: int)"
abbreviation (input) "KN_STD_MASK_HOSTED \<equiv> (1 :: 32 word)"
abbreviation (input) "KN_STD_MASK_FREESTANDING_CORE \<equiv> (2 :: 32 word)"
abbreviation (input) "KN_STD_MASK_FREESTANDING_ALLOC \<equiv> (4 :: 32 word)"
abbreviation (input) "KN_STD_MASK_FREESTANDING_GC \<equiv> (8 :: 32 word)"

definition builtin_profile_mask :: "int \<Rightarrow> 32 word" where
  "builtin_profile_mask kind =
     (if kind \<in> {
         KN_BUILTIN_IO_TYPE_BOOL, KN_BUILTIN_IO_TYPE_BYTE, KN_BUILTIN_IO_TYPE_CHAR,
         KN_BUILTIN_IO_TYPE_INT, KN_BUILTIN_IO_TYPE_FLOAT, KN_BUILTIN_IO_TYPE_F16,
         KN_BUILTIN_IO_TYPE_F32, KN_BUILTIN_IO_TYPE_F64, KN_BUILTIN_IO_TYPE_F128,
         KN_BUILTIN_IO_TYPE_I8, KN_BUILTIN_IO_TYPE_I16, KN_BUILTIN_IO_TYPE_I32,
         KN_BUILTIN_IO_TYPE_I64, KN_BUILTIN_IO_TYPE_U8, KN_BUILTIN_IO_TYPE_U16,
         KN_BUILTIN_IO_TYPE_U32, KN_BUILTIN_IO_TYPE_U64, KN_BUILTIN_IO_TYPE_ISIZE,
         KN_BUILTIN_IO_TYPE_USIZE, KN_BUILTIN_IO_TYPE_STRING, KN_BUILTIN_IO_TYPE_ANY,
         KN_BUILTIN_IO_TYPE_DICT, KN_BUILTIN_IO_TYPE_LIST, KN_BUILTIN_IO_ANY_ISNULL,
         KN_BUILTIN_IO_ANY_EQUALS, KN_BUILTIN_IO_ANY_TAG, KN_BUILTIN_IO_ANY_TYPENAME,
         KN_BUILTIN_IO_ANY_ISNUMBER, KN_BUILTIN_IO_ANY_ISPOINTER, KN_BUILTIN_IO_ANY_ISINT,
         KN_BUILTIN_IO_ANY_ISFLOAT, KN_BUILTIN_IO_ANY_ISSTRING, KN_BUILTIN_IO_ANY_ISBOOL,
         KN_BUILTIN_IO_ANY_ISCHAR, KN_BUILTIN_IO_ANY_ISOBJECT, KN_BUILTIN_IO_STRING_LENGTH,
         KN_BUILTIN_IO_STRING_EQUALS, KN_BUILTIN_IO_MATH_ABS, KN_BUILTIN_IO_MATH_MIN,
         KN_BUILTIN_IO_MATH_MAX, KN_BUILTIN_IO_MATH_CLAMP, KN_BUILTIN_ARRAY_LENGTH,
         KN_BUILTIN_ARRAY_INDEX, KN_BUILTIN_STRING_INDEX, KN_BUILTIN_TYPEOF,
         KN_BUILTIN_IO_MEMORY_COPY, KN_BUILTIN_IO_MEMORY_SET, KN_BUILTIN_IO_MEMORY_ZERO,
         KN_BUILTIN_IO_MEMORY_COMPARE, KN_BUILTIN_IO_VOLATILE_READ8,
         KN_BUILTIN_IO_VOLATILE_READ16, KN_BUILTIN_IO_VOLATILE_READ32,
         KN_BUILTIN_IO_VOLATILE_READ64, KN_BUILTIN_IO_VOLATILE_WRITE8,
         KN_BUILTIN_IO_VOLATILE_WRITE16, KN_BUILTIN_IO_VOLATILE_WRITE32,
         KN_BUILTIN_IO_VOLATILE_WRITE64, KN_BUILTIN_IO_PANIC_ABORT, KN_BUILTIN_IO_PANIC_HALT,
         KN_BUILTIN_IO_ASYNC_RUN, KN_BUILTIN_IO_ASYNC_SLEEP, KN_BUILTIN_IO_ASYNC_YIELD}
      then KN_STD_MASK_HOSTED OR KN_STD_MASK_FREESTANDING_CORE OR KN_STD_MASK_FREESTANDING_ALLOC OR KN_STD_MASK_FREESTANDING_GC else
     (if kind \<in> {
         KN_BUILTIN_IO_STRING_CONCAT}
      then KN_STD_MASK_HOSTED OR KN_STD_MASK_FREESTANDING_ALLOC OR KN_STD_MASK_FREESTANDING_GC else
     (if kind \<in> {
         KN_BUILTIN_IO_ANY_TOSTRING, KN_BUILTIN_IO_STRING_TOCHARS, KN_BUILTIN_IO_TEXT_LENGTH,
         KN_BUILTIN_IO_TEXT_IS_EMPTY, KN_BUILTIN_IO_TEXT_COUNT, KN_BUILTIN_IO_TEXT_CONTAINS,
         KN_BUILTIN_IO_TEXT_STARTS_WITH, KN_BUILTIN_IO_TEXT_ENDS_WITH,
         KN_BUILTIN_IO_TEXT_INDEX_OF, KN_BUILTIN_IO_TEXT_LAST_INDEX_OF,
         KN_BUILTIN_IO_TEXT_TRIM, KN_BUILTIN_IO_TEXT_REPLACE, KN_BUILTIN_IO_TEXT_TO_UPPER,
         KN_BUILTIN_IO_TEXT_TO_LOWER, KN_BUILTIN_IO_TEXT_SLICE}
      then KN_STD_MASK_HOSTED OR KN_STD_MASK_FREESTANDING_ALLOC OR KN_STD_MASK_FREESTANDING_GC else
     (if kind \<in> {
         KN_BUILTIN_IO_DICT_NEW, KN_BUILTIN_IO_DICT_SET, KN_BUILTIN_IO_DICT_GET,
         KN_BUILTIN_IO_DICT_TRY_FETCH, KN_BUILTIN_IO_DICT_CONTAINS, KN_BUILTIN_IO_DICT_COUNT,
         KN_BUILTIN_IO_DICT_REMOVE, KN_BUILTIN_IO_DICT_IS_EMPTY, KN_BUILTIN_IO_DICT_KEYS,
         KN_BUILTIN_IO_DICT_VALUES, KN_BUILTIN_IO_LIST_NEW, KN_BUILTIN_IO_LIST_ADD,
         KN_BUILTIN_IO_LIST_GET, KN_BUILTIN_IO_LIST_SET, KN_BUILTIN_IO_LIST_INSERT,
         KN_BUILTIN_IO_LIST_TRY_FETCH, KN_BUILTIN_IO_LIST_COUNT, KN_BUILTIN_IO_LIST_CLEAR,
         KN_BUILTIN_IO_LIST_REMOVE_AT, KN_BUILTIN_IO_LIST_CONTAINS, KN_BUILTIN_IO_LIST_POP,
         KN_BUILTIN_IO_LIST_PEEK, KN_BUILTIN_IO_LIST_INDEX_OF, KN_BUILTIN_IO_LIST_IS_EMPTY,
         KN_BUILTIN_IO_SET_NEW, KN_BUILTIN_IO_SET_ADD, KN_BUILTIN_IO_SET_CONTAINS,
         KN_BUILTIN_IO_SET_COUNT, KN_BUILTIN_IO_SET_REMOVE, KN_BUILTIN_IO_SET_CLEAR,
         KN_BUILTIN_IO_SET_IS_EMPTY, KN_BUILTIN_IO_SET_VALUES, KN_BUILTIN_ARRAY_ADD,
         KN_BUILTIN_IO_TEXT_SPLIT, KN_BUILTIN_IO_TEXT_JOIN, KN_BUILTIN_IO_TEXT_LINES,
         KN_BUILTIN_BLOCK_RUN, KN_BUILTIN_BLOCK_JUMP, KN_BUILTIN_BLOCK_RUN_UNTIL,
         KN_BUILTIN_BLOCK_JUMP_AND_RUN_UNTIL, KN_BUILTIN_IO_ERROR_LASTTRACE,
         KN_BUILTIN_IO_ERROR_HAS, KN_BUILTIN_IO_ERROR_CLEAR, KN_BUILTIN_IO_ERROR_CURRENT,
         KN_BUILTIN_IO_GC_COLLECT, KN_BUILTIN_IO_META_QUERY, KN_BUILTIN_IO_META_OF,
         KN_BUILTIN_IO_META_HAS, KN_BUILTIN_IO_META_FIND}
      then KN_STD_MASK_HOSTED OR KN_STD_MASK_FREESTANDING_GC else
     (if kind \<in> {
         KN_BUILTIN_IO_CONSOLE_PRINTLINE, KN_BUILTIN_IO_CONSOLE_PRINT,
         KN_BUILTIN_IO_CONSOLE_READLINE, KN_BUILTIN_IO_CONSOLE_WRITE,
         KN_BUILTIN_IO_CONSOLE_WRITELINE, KN_BUILTIN_IO_CONSOLE_PRINTINT,
         KN_BUILTIN_IO_CONSOLE_PRINTBOOL, KN_BUILTIN_IO_CONSOLE_PRINTCHAR,
         KN_BUILTIN_IO_CONSOLE_PRINTLINEINT, KN_BUILTIN_IO_CONSOLE_PRINTLINEBOOL,
         KN_BUILTIN_IO_CONSOLE_PRINTLINECHAR, KN_BUILTIN_IO_CONSOLE_WRITEINT,
         KN_BUILTIN_IO_CONSOLE_WRITEBOOL, KN_BUILTIN_IO_CONSOLE_WRITECHAR,
         KN_BUILTIN_IO_TIME_NOW, KN_BUILTIN_IO_TIME_GETTICK, KN_BUILTIN_IO_TIME_SLEEP,
         KN_BUILTIN_IO_TIME_NANOTICK, KN_BUILTIN_IO_TIME_FORMAT, KN_BUILTIN_IO_SYSTEM_EXIT,
         KN_BUILTIN_IO_SYSTEM_COMMANDLINE, KN_BUILTIN_IO_SYSTEM_FILE_EXISTS,
         KN_BUILTIN_IO_SYSTEM_EXEC, KN_BUILTIN_IO_SYSTEM_LOAD_LIBRARY,
         KN_BUILTIN_IO_SYSTEM_GET_SYMBOL, KN_BUILTIN_IO_SYSTEM_CLOSE_LIBRARY,
         KN_BUILTIN_IO_SYSTEM_LAST_ERROR, KN_BUILTIN_IO_ASYNC_SPAWN,
         KN_BUILTIN_IO_ASYNC_IS_COMPLETED, KN_BUILTIN_IO_ASYNC_WAIT,
         KN_BUILTIN_IO_ASYNC_EXIT_CODE, KN_BUILTIN_IO_ASYNC_CLOSE, KN_BUILTIN_IO_PATH_COMBINE,
         KN_BUILTIN_IO_PATH_JOIN3, KN_BUILTIN_IO_PATH_JOIN4, KN_BUILTIN_IO_PATH_FILE_NAME,
         KN_BUILTIN_IO_PATH_EXTENSION, KN_BUILTIN_IO_PATH_DIRECTORY,
         KN_BUILTIN_IO_PATH_NORMALIZE, KN_BUILTIN_IO_PATH_CWD,
         KN_BUILTIN_IO_PATH_CHANGE_EXTENSION, KN_BUILTIN_IO_PATH_HAS_EXTENSION,
         KN_BUILTIN_IO_PATH_IS_ABSOLUTE, KN_BUILTIN_IO_PATH_IS_RELATIVE,
         KN_BUILTIN_IO_PATH_BASE_NAME, KN_BUILTIN_IO_PATH_ENSURE_TRAILING_SEPARATOR,
         KN_BUILTIN_IO_FILE_CREATE, KN_BUILTIN_IO_FILE_TOUCH, KN_BUILTIN_IO_FILE_READ_ALL_TEXT,
         KN_BUILTIN_IO_FILE_READ_FIRST_LINE, KN_BUILTIN_IO_FILE_WRITE_ALL_TEXT,
         KN_BUILTIN_IO_FILE_APPEND_ALL_TEXT, KN_BUILTIN_IO_FILE_APPEND_LINE,
         KN_BUILTIN_IO_FILE_DELETE, KN_BUILTIN_IO_FILE_DELETE_IF_EXISTS,
         KN_BUILTIN_IO_FILE_SIZE, KN_BUILTIN_IO_FILE_IS_EMPTY, KN_BUILTIN_IO_FILE_COPY,
         KN_BUILTIN_IO_FILE_MOVE, KN_BUILTIN_IO_FILE_READ_OR_DEFAULT,
         KN_BUILTIN_IO_FILE_READ_IF_EXISTS, KN_BUILTIN_IO_FILE_READ_OR,
         KN_BUILTIN_IO_FILE_READ_LINES, KN_BUILTIN_IO_FILE_WRITE_LINES,
         KN_BUILTIN_IO_FILE_REPLACE_TEXT, KN_BUILTIN_IO_DIRECTORY_EXISTS,
         KN_BUILTIN_IO_DIRECTORY_CREATE, KN_BUILTIN_IO_DIRECTORY_ENSURE,
         KN_BUILTIN_IO_DIRECTORY_DELETE, KN_BUILTIN_IO_DIRECTORY_DELETE_IF_EXISTS,
         KN_BUILTIN_IO_DIRECTORY_FILES}
      then KN_STD_MASK_HOSTED else
      KN_STD_MASK_HOSTED)))))"

text \<open>The profile is a variable of the thread.\<close>

definition kn_std_set_profile :: "int \<Rightarrow> int" where
  "kn_std_set_profile profile =
     (if profile < KN_STD_PROFILE_HOSTED \<or> profile > KN_STD_PROFILE_FREESTANDING_GC
      then KN_STD_PROFILE_HOSTED else profile)"

definition kn_std_builtin_allowed :: "int \<Rightarrow> int \<Rightarrow> bool" where
  "kn_std_builtin_allowed g_std_profile kind =
     (let mask = builtin_profile_mask kind
      in if g_std_profile < KN_STD_PROFILE_HOSTED \<or> g_std_profile > KN_STD_PROFILE_FREESTANDING_GC
         then (mask AND KN_STD_MASK_HOSTED) \<noteq> 0
         else (mask AND push_bit (nat g_std_profile) 1) \<noteq> 0)"

definition module_has_visible_func :: "int \<Rightarrow> std_module \<Rightarrow> bool" where
  "module_has_visible_func profile m \<longleftrightarrow>
     (if sm_funcs m = [] then True
      else list_ex (\<lambda>f. kn_std_builtin_allowed profile (sf_kind f)) (sm_funcs m))"

subsection \<open>Lookup\<close>

fun module_count_loop :: "int \<Rightarrow> std_module list \<Rightarrow> int" where
  "module_count_loop profile [] = 0"
| "module_count_loop profile (m # ms) =
     (if module_has_visible_func profile m then 1 else 0) + module_count_loop profile ms"

definition kn_std_module_count :: "int \<Rightarrow> int" where
  "kn_std_module_count profile = module_count_loop profile g_modules"

fun module_at_loop :: "int \<Rightarrow> int \<Rightarrow> int \<Rightarrow> std_module list \<Rightarrow> std_module option" where
  "module_at_loop profile index seen [] = None"
| "module_at_loop profile index seen (m # ms) =
     (if \<not> module_has_visible_func profile m then module_at_loop profile index seen ms
      else if seen = index then Some m
      else module_at_loop profile index (seen + 1) ms)"

definition kn_std_module_at :: "int \<Rightarrow> int \<Rightarrow> std_module option" where
  "kn_std_module_at profile index =
     (if index < 0 then None else module_at_loop profile index 0 g_modules)"

fun std_find_loop :: "int \<Rightarrow> cstr \<Rightarrow> cstr \<Rightarrow> std_module list \<Rightarrow> std_func option" where
  "std_find_loop profile modul name [] = None"
| "std_find_loop profile modul name (m # ms) =
     (if kn_strcmp (Some (sm_name m)) modul \<noteq> 0 then std_find_loop profile modul name ms
      else case find (\<lambda>f. kn_strcmp (Some (sf_name f)) name = 0 \<and> kn_std_builtin_allowed profile (sf_kind f))
                  (sm_funcs m) of
        Some f \<Rightarrow> Some f
      | None \<Rightarrow> std_find_loop profile modul name ms)"

definition kn_std_find :: "int \<Rightarrow> cstr \<Rightarrow> cstr \<Rightarrow> std_func option" where
  "kn_std_find profile modul name =
     (if modul = None \<or> name = None then None else std_find_loop profile modul name g_modules)"

definition kn_std_find_by_kind :: "int \<Rightarrow> int \<Rightarrow> std_func option" where
  "kn_std_find_by_kind profile kind =
     find (\<lambda>f. sf_kind f = kind \<and> kn_std_builtin_allowed profile (sf_kind f))
       (concat (map sm_funcs g_modules))"

definition kn_std_module_has :: "int \<Rightarrow> cstr \<Rightarrow> bool" where
  "kn_std_module_has profile modul \<longleftrightarrow> modul \<noteq> None \<and>
     list_ex (\<lambda>m. kn_strcmp (Some (sm_name m)) modul = 0 \<and> module_has_visible_func profile m) g_modules"

subsection \<open>Lowering groups and bytecode numbers\<close>

definition g_builtin_lowering_ranges :: "(int \<times> int \<times> lowering_group) list" where
  "g_builtin_lowering_ranges = [
     (KN_BUILTIN_IO_CONSOLE_PRINTLINE, KN_BUILTIN_IO_TIME_FORMAT, KN_BUILTIN_LOWERING_PLATFORM),
     (KN_BUILTIN_IO_STRING_LENGTH, KN_BUILTIN_IO_MATH_CLAMP, KN_BUILTIN_LOWERING_COLLECTIONS),
     (KN_BUILTIN_IO_PATH_COMBINE, KN_BUILTIN_IO_TEXT_LINES, KN_BUILTIN_LOWERING_TEXT),
     (KN_BUILTIN_IO_FILE_CREATE, KN_BUILTIN_IO_DIRECTORY_FILES, KN_BUILTIN_LOWERING_FILESYSTEM),
     (KN_BUILTIN_IO_TYPE_BOOL, KN_BUILTIN_IO_TYPE_LIST, KN_BUILTIN_LOWERING_COLLECTIONS),
     (KN_BUILTIN_IO_ANY_ISNULL, KN_BUILTIN_IO_ANY_ISOBJECT, KN_BUILTIN_LOWERING_DYNAMIC),
     (KN_BUILTIN_IO_SYSTEM_EXIT, KN_BUILTIN_IO_META_FIND, KN_BUILTIN_LOWERING_SYSTEM),
     (KN_BUILTIN_IO_ERROR_LASTTRACE, KN_BUILTIN_ARRAY_ADD, KN_BUILTIN_LOWERING_DYNAMIC),
     (KN_BUILTIN_STRING_INDEX, KN_BUILTIN_STRING_INDEX, KN_BUILTIN_LOWERING_COLLECTIONS),
     (KN_BUILTIN_TYPEOF, KN_BUILTIN_BLOCK_JUMP_AND_RUN_UNTIL, KN_BUILTIN_LOWERING_DYNAMIC),
     (KN_BUILTIN_IO_MEMORY_COPY, KN_BUILTIN_IO_PANIC_HALT, KN_BUILTIN_LOWERING_PLATFORM)]"

definition kn_builtin_lowering_group :: "int \<Rightarrow> lowering_group" where
  "kn_builtin_lowering_group kind =
     (case find (\<lambda>(first, last, _). kind \<ge> first \<and> kind \<le> last) g_builtin_lowering_ranges of
        Some (_, _, grp) \<Rightarrow> grp | None \<Rightarrow> KN_BUILTIN_LOWERING_NONE)"

definition g_builtin_vm_mappings :: "(int \<times> int) list" where
  "g_builtin_vm_mappings = [
     (KN_BUILTIN_IO_CONSOLE_PRINTLINE, 0), (KN_BUILTIN_IO_CONSOLE_PRINT, 1),
     (KN_BUILTIN_IO_CONSOLE_READLINE, 2), (KN_BUILTIN_IO_CONSOLE_WRITE, 3),
     (KN_BUILTIN_IO_CONSOLE_WRITELINE, 4), (KN_BUILTIN_IO_CONSOLE_PRINTINT, 5),
     (KN_BUILTIN_IO_CONSOLE_PRINTBOOL, 6), (KN_BUILTIN_IO_CONSOLE_PRINTCHAR, 7),
     (KN_BUILTIN_IO_CONSOLE_PRINTLINEINT, 8), (KN_BUILTIN_IO_CONSOLE_PRINTLINEBOOL, 9),
     (KN_BUILTIN_IO_CONSOLE_PRINTLINECHAR, 10), (KN_BUILTIN_IO_CONSOLE_WRITEINT, 11),
     (KN_BUILTIN_IO_CONSOLE_WRITEBOOL, 12), (KN_BUILTIN_IO_CONSOLE_WRITECHAR, 13),
     (KN_BUILTIN_IO_TIME_GETTICK, 15), (KN_BUILTIN_IO_TIME_SLEEP, 16),
     (KN_BUILTIN_IO_TIME_NANOTICK, 17), (KN_BUILTIN_IO_STRING_LENGTH, 19),
     (KN_BUILTIN_IO_STRING_CONCAT, 20), (KN_BUILTIN_IO_STRING_EQUALS, 21),
     (KN_BUILTIN_IO_STRING_TOCHARS, 22), (KN_BUILTIN_IO_FILE_CREATE, 85),
     (KN_BUILTIN_IO_FILE_TOUCH, 86), (KN_BUILTIN_IO_FILE_READ_ALL_TEXT, 87),
     (KN_BUILTIN_IO_FILE_READ_FIRST_LINE, 88), (KN_BUILTIN_IO_FILE_WRITE_ALL_TEXT, 89),
     (KN_BUILTIN_IO_FILE_APPEND_ALL_TEXT, 90), (KN_BUILTIN_IO_FILE_APPEND_LINE, 91),
     (KN_BUILTIN_IO_FILE_DELETE, 92), (KN_BUILTIN_IO_FILE_DELETE_IF_EXISTS, 93),
     (KN_BUILTIN_IO_FILE_SIZE, 94), (KN_BUILTIN_IO_FILE_IS_EMPTY, 95),
     (KN_BUILTIN_IO_FILE_COPY, 96), (KN_BUILTIN_IO_FILE_MOVE, 97),
     (KN_BUILTIN_IO_FILE_READ_OR_DEFAULT, 98), (KN_BUILTIN_IO_FILE_READ_IF_EXISTS, 99),
     (KN_BUILTIN_IO_FILE_READ_OR, 100), (KN_BUILTIN_IO_FILE_REPLACE_TEXT, 103),
     (KN_BUILTIN_IO_ANY_ISNULL, 130), (KN_BUILTIN_IO_ANY_TOSTRING, 131),
     (KN_BUILTIN_IO_ANY_EQUALS, 132), (KN_BUILTIN_IO_ANY_TYPENAME, 134),
     (KN_BUILTIN_IO_ANY_ISNUMBER, 135), (KN_BUILTIN_IO_ANY_ISPOINTER, 136),
     (KN_BUILTIN_IO_ANY_ISINT, 137), (KN_BUILTIN_IO_ANY_ISFLOAT, 138),
     (KN_BUILTIN_IO_ANY_ISSTRING, 139), (KN_BUILTIN_IO_ANY_ISBOOL, 140),
     (KN_BUILTIN_IO_ANY_ISCHAR, 141), (KN_BUILTIN_IO_ANY_ISOBJECT, 142),
     (KN_BUILTIN_IO_SYSTEM_FILE_EXISTS, 145), (KN_BUILTIN_IO_TEXT_CONTAINS, 146),
     (KN_BUILTIN_IO_ERROR_LASTTRACE, 147), (KN_BUILTIN_IO_ERROR_HAS, 148),
     (KN_BUILTIN_IO_ERROR_CLEAR, 149), (KN_BUILTIN_IO_ERROR_CURRENT, 150),
     (KN_BUILTIN_IO_GC_COLLECT, 151)]"

definition kn_builtin_vm_id :: "int \<Rightarrow> int" where
  "kn_builtin_vm_id kind =
     (case find (\<lambda>(k, _). k = kind) g_builtin_vm_mappings of Some (_, vm_id) \<Rightarrow> vm_id | None \<Rightarrow> -1)"

subsection \<open>The table is unambiguous\<close>

lemma c_strcmp_eq: "c_string a \<Longrightarrow> c_string b \<Longrightarrow> kn_strcmp (Some a) (Some b) = 0 \<longleftrightarrow> a = b"
proof -
  assume c: "c_string a" "c_string b"
  then show ?thesis
    using strncmp_loop_equal_length [OF c refl]
    by (auto simp: kn_strcmp_def kn_strncmp_def Let_def intro: strncmp_loop_equal_length [THEN iffD2] split: if_splits)
qed

definition table_ok :: "std_module list \<Rightarrow> bool" where
  "table_ok ms \<longleftrightarrow> distinct (map sm_name ms) \<and> distinct (map sf_kind (concat (map sm_funcs ms))) \<and>
     list_all (\<lambda>m. c_string (sm_name m) \<and> distinct (map sf_name (sm_funcs m)) \<and>
       list_all (\<lambda>f. c_string (sf_name f) \<and> sf_module f = sm_name m) (sm_funcs m)) ms"

lemma g_modules_ok: "table_ok g_modules"
  by code_simp

lemma find_distinct:
  assumes "distinct (map g xs)" "x \<in> set xs" "\<And>y. y \<in> set xs \<Longrightarrow> P y \<longleftrightarrow> g y = g x \<and> Q y"
  shows "find P xs = (if Q x then Some x else None)"
  using assms
proof (induction xs)
  case (Cons y ys)
  show ?case
  proof (cases "x = y")
    case True
    show ?thesis
    proof (cases "Q x")
      case False
      have "\<not> P z" if "z \<in> set (y # ys)" for z
      proof
        assume "P z"
        then have z: "g z = g x" "Q z" using Cons.prems(3) [OF that] by auto
        with False True have "z \<in> set ys" using that by auto
        then show False using z(1) True Cons.prems(1) by (auto simp: image_iff)
      qed
      then show ?thesis using False by (auto simp: find_None_iff)
    qed (use True Cons.prems in auto)
  next
    case False
    then have "x \<in> set ys" using Cons.prems by auto
    moreover have "\<not> P y" using Cons.prems False calculation by (auto simp: image_iff)
    ultimately show ?thesis using Cons by auto
  qed
qed simp

lemma std_find_loop_found:
  assumes "table_ok ms" "m \<in> set ms" "f \<in> set (sm_funcs m)"
  shows "std_find_loop pr (Some (sm_name m)) (Some (sf_name f)) ms =
    (if kn_std_builtin_allowed pr (sf_kind f) then Some f else None)"
  using assms
proof (induction ms)
  case (Cons x ms)
  have cs: "c_string (sm_name m)" "c_string (sm_name x)" "c_string (sf_name f)"
    using Cons.prems by (auto simp: table_ok_def list_all_iff)
  have tail: "table_ok ms" using Cons.prems by (auto simp: table_ok_def)
  show ?case
  proof (cases "x = m")
    case True
    have fm: "find (\<lambda>g. kn_strcmp (Some (sf_name g)) (Some (sf_name f)) = 0 \<and>
        kn_std_builtin_allowed pr (sf_kind g)) (sm_funcs m) =
      (if kn_std_builtin_allowed pr (sf_kind f) then Some f else None)"
      using Cons.prems True
      by (intro find_distinct [where g = sf_name]) (auto simp: table_ok_def list_all_iff c_strcmp_eq)
    have rest: "std_find_loop pr (Some (sm_name m)) n ms = None" for n
    proof -
      have "\<forall>y \<in> set ms. sm_name y \<noteq> sm_name m"
        using Cons.prems True by (auto simp: table_ok_def) (metis imageI)
      moreover have "\<forall>y \<in> set ms. c_string (sm_name y)"
        using tail by (auto simp: table_ok_def list_all_iff)
      ultimately show ?thesis using cs(1) by (induction ms) (auto simp: c_strcmp_eq)
    qed
    show ?thesis using cs(1) by (simp add: True fm rest c_strcmp_eq)
  next
    case False
    then have "m \<in> set ms" using Cons.prems by auto
    then have "sm_name x \<noteq> sm_name m" using Cons.prems False by (auto simp: table_ok_def)
    then show ?thesis
      using Cons.IH [OF tail \<open>m \<in> set ms\<close> Cons.prems(3)] cs by (simp add: c_strcmp_eq)
  qed
qed simp

lemma mask_values: "builtin_profile_mask k \<in> {15, 13, 9, 1}"
  by (simp add: builtin_profile_mask_def)

lemma allowed_mono:
  assumes "kn_std_builtin_allowed p k" "p \<in> {KN_STD_PROFILE_FREESTANDING_CORE, KN_STD_PROFILE_FREESTANDING_ALLOC}"
  shows "kn_std_builtin_allowed (p + 1) k"
  using assms mask_values [of k] by (auto simp: kn_std_builtin_allowed_def Let_def)

lemma allowed_hosted: "kn_std_builtin_allowed KN_STD_PROFILE_HOSTED k"
  using mask_values [of k] by (auto simp: kn_std_builtin_allowed_def Let_def)

lemma vm_mappings_distinct: "distinct (map fst g_builtin_vm_mappings)" "distinct (map snd g_builtin_vm_mappings)"
  by code_simp+

lemma vm_id_mapping: "kn_builtin_vm_id k \<noteq> -1 \<Longrightarrow> (k, kn_builtin_vm_id k) \<in> set g_builtin_vm_mappings"
proof (cases "find (\<lambda>(k', _). k' = k) g_builtin_vm_mappings")
  case (Some e)
  then have "e \<in> set g_builtin_vm_mappings" "fst e = k"
    by (auto simp: find_Some_iff dest!: nth_mem)
  moreover have "kn_builtin_vm_id k = snd e"
    unfolding kn_builtin_vm_id_def Some by (simp add: split_beta)
  ultimately show ?thesis by (metis prod.collapse)
qed (simp add: kn_builtin_vm_id_def)

lemma vm_id_injective:
  assumes "kn_builtin_vm_id j = kn_builtin_vm_id k" "kn_builtin_vm_id j \<noteq> -1"
  shows "j = k"
proof -
  have "(j, kn_builtin_vm_id j) \<in> set g_builtin_vm_mappings" "(k, kn_builtin_vm_id j) \<in> set g_builtin_vm_mappings"
    using vm_id_mapping [of j] vm_id_mapping [of k] assms by simp_all
  then show ?thesis using vm_mappings_distinct(2) by (metis distinct_map fst_conv inj_on_eq_iff snd_conv)
qed

text \<open>
  C19: Every built-in function is found by its module and name, and by its kind, exactly in the
  profiles that allow it; a profile with more support allows all that a smaller one does, and
  the hosted profile allows everything; no two built-ins share a bytecode number.
\<close>

theorem std_table_unambiguous:
  "(\<forall>m f. m \<in> set g_modules \<and> f \<in> set (sm_funcs m) \<longrightarrow>
      kn_std_find p (Some (sm_name m)) (Some (sf_name f)) =
        (if kn_std_builtin_allowed p (sf_kind f) then Some f else None) \<and>
      kn_std_find_by_kind p (sf_kind f) =
        (if kn_std_builtin_allowed p (sf_kind f) then Some f else None)) \<and>
   (kn_std_builtin_allowed p k \<and>
      p \<in> {KN_STD_PROFILE_FREESTANDING_CORE, KN_STD_PROFILE_FREESTANDING_ALLOC} \<longrightarrow>
      kn_std_builtin_allowed (p + 1) k) \<and>
   kn_std_builtin_allowed KN_STD_PROFILE_HOSTED k \<and>
   (kn_builtin_vm_id j = kn_builtin_vm_id k \<and> kn_builtin_vm_id j \<noteq> -1 \<longrightarrow> j = k)"
proof -
  have by_kind: "kn_std_find_by_kind p (sf_kind f) = (if kn_std_builtin_allowed p (sf_kind f) then Some f else None)"
    if "m \<in> set g_modules" "f \<in> set (sm_funcs m)" for m f
    unfolding kn_std_find_by_kind_def
    using g_modules_ok that by (intro find_distinct [where g = sf_kind]) (auto simp: table_ok_def)
  have by_name: "kn_std_find p (Some (sm_name m)) (Some (sf_name f)) =
      (if kn_std_builtin_allowed p (sf_kind f) then Some f else None)"
    if "m \<in> set g_modules" "f \<in> set (sm_funcs m)" for m f
    using std_find_loop_found [OF g_modules_ok that] by (simp add: kn_std_find_def)
  show ?thesis
    by (intro conjI allI impI)
       (use by_name by_kind allowed_mono [of p k] allowed_hosted [of k] vm_id_injective [of j k] in blast)+
qed

theorem std_table_unambiguous_witness:
  "kn_std_find 2 (Some ''IO.Type.string'') (Some ''Concat'') \<noteq> None \<and>
   kn_std_find 1 (Some ''IO.Type.string'') (Some ''Concat'') = None \<and>
   kn_std_builtin_allowed 2 KN_BUILTIN_IO_STRING_LENGTH"
proof -
  let ?f = "g_string_funcs ! 1"
  let ?m = "\<lparr> sm_name = ''IO.Type.string'', sm_funcs = g_string_funcs \<rparr>"
  have in_table: "?m \<in> set g_modules" "?f \<in> set (sm_funcs ?m)" "sf_name ?f = ''Concat''"
    by (simp_all add: g_modules_def g_string_funcs_def)
  have al: "kn_std_builtin_allowed 2 (sf_kind ?f)" "\<not> kn_std_builtin_allowed 1 (sf_kind ?f)"
    "kn_std_builtin_allowed 1 KN_BUILTIN_IO_STRING_LENGTH"
    by code_simp+
  show ?thesis
    using std_table_unambiguous [of 2 0 0] std_table_unambiguous [of 1 KN_BUILTIN_IO_STRING_LENGTH 0] in_table al
    by fastforce
qed

end
