(* ===== verification/KncEmit.thy ===== *)
theory KncEmit
  imports KncTables KncCode KncCapture StdTable "HOL-Library.Monad_Syntax"
begin

text \<open>
  The state in which the bytecode emitter, \<open>apps/kinal/src/kn_knc.c\<close>, compiles one function, and
  the emission routines that do not call the expression compiler: registers, locals and their
  cells, constants, default values, type checks and checked casts, numeric coercions, capture
  environments and the dispatch of runtime blocks.

  \<open>None\<close> is the end of the compiler (\<open>kn_die\<close>). \<open>knc_diag\<close> counts an error and the emission goes on;
  \<open>kn_diag_error_count\<close> reads the count. \<open>fs_block_nodes\<close> tells where the allocator puts the two
  parameter nodes made for the block literal at an address.
\<close>

text \<open>The positions to patch of a loop; \<open>ls_continue_ip\<close> is -1 while its target is not known.\<close>

record loop_state =
  ls_break_patches :: "int list"
  ls_continue_patches :: "int list"
  ls_continue_ip :: int

record knc_func_state =
  fs_program :: knc_program
  fs_func_index :: int
  fs_code :: code
  fs_locals :: "knc_local list"
  fs_plan :: "capture_plan option"
  fs_loops :: "loop_state list"
  fs_self_type :: ty
  fs_has_this :: bool
  fs_next_reg :: int
  fs_max_reg :: int
  fs_in_block :: bool
  fs_start_reg :: int
  fs_until_reg :: int
  fs_body_ip :: int
  fs_block_records :: "block_record list option"
  fs_start_patches :: "int list"
  fs_record_patches :: "int list list"
  fs_record_addrs :: "int list"
  fs_errors :: nat
  fs_block_nodes :: "nat \<Rightarrow> nat \<times> nat"

record knc_value =
  kv_reg :: int
  kv_type :: ty

definition emit :: "emission list \<Rightarrow> knc_func_state \<Rightarrow> knc_func_state" where
  "emit es st = st\<lparr> fs_code := emit_all (fs_code st) es \<rparr>"

definition knc_diag :: "knc_func_state \<Rightarrow> knc_func_state" where
  "knc_diag st = st\<lparr> fs_errors := fs_errors st + 1 \<rparr>"

text \<open>The additions to the constant pools, on the program of the state.\<close>

definition st_add_int :: "int \<Rightarrow> knc_func_state \<Rightarrow> int \<times> knc_func_state" where
  "st_add_int v st = (let (i, p) = program_add_int (fs_program st) v in (i, st\<lparr> fs_program := p \<rparr>))"

definition st_add_float :: "u64 \<Rightarrow> knc_func_state \<Rightarrow> int \<times> knc_func_state" where
  "st_add_float v st = (let (i, p) = program_add_float (fs_program st) v in (i, st\<lparr> fs_program := p \<rparr>))"

definition st_add_string :: "cstr \<Rightarrow> knc_func_state \<Rightarrow> int \<times> knc_func_state" where
  "st_add_string v st = (let (i, p) = program_add_string (fs_program st) v in (i, st\<lparr> fs_program := p \<rparr>))"

subsection \<open>Registers and locals\<close>

definition alloc_reg :: "knc_func_state \<Rightarrow> (int \<times> knc_func_state) option" where
  "alloc_reg st =
     (let reg = fs_next_reg st;
          st = st\<lparr> fs_next_reg := reg + 1 \<rparr>;
          st = (if fs_next_reg st > fs_max_reg st then st\<lparr> fs_max_reg := fs_next_reg st \<rparr> else st)
      in if reg > 254 then None else Some (reg, st))"

text \<open>The name of a register, for the listing: the list is filled up with nulls first.\<close>

definition name_register :: "cstr list \<Rightarrow> int \<Rightarrow> cstr \<Rightarrow> cstr list" where
  "name_register names reg name =
     (let names = names @ replicate (nat reg + 1 - length names) None in names[nat reg := name])"

definition add_local :: "cstr \<Rightarrow> ty \<Rightarrow> int \<Rightarrow> nat option \<Rightarrow> knc_func_state \<Rightarrow> knc_func_state" where
  "add_local name type reg declaration st =
     (let storage = (if knc_capture_plan_contains (fs_plan st) declaration
                     then KNC_LOCAL_CELL else KNC_LOCAL_VALUE);
          st = st\<lparr> fs_locals := fs_locals st @ [\<lparr> kl_name = name, kl_reg = reg, kl_type = type,
                 kl_storage = storage, kl_capture_slot = -1 \<rparr>] \<rparr>;
          st = (if storage = KNC_LOCAL_CELL then emit [U8 KNC_OP_NEW_CELL, U8 reg, U8 reg] st else st);
          p = fs_program st; k = nat (fs_func_index st)
      in if fs_func_index st \<ge> 0 \<and> fs_func_index st < int (length (kp_funcs p)) \<and> reg \<ge> 0
         then st\<lparr> fs_program := p\<lparr> kp_funcs := (kp_funcs p)[k := (kp_funcs p ! k)\<lparr>
                kf_register_names := name_register (kf_register_names (kp_funcs p ! k)) reg name \<rparr>] \<rparr> \<rparr>
         else st)"

text \<open>The last declared local of the name.\<close>

definition find_local :: "knc_func_state \<Rightarrow> cstr \<Rightarrow> knc_local option" where
  "find_local st name = find (\<lambda>l. kn_strcmp (kl_name l) name = 0) (rev (fs_locals st))"

definition add_capture_local :: "cstr \<Rightarrow> ty \<Rightarrow> int \<Rightarrow> knc_func_state \<Rightarrow> knc_func_state" where
  "add_capture_local name type slot st =
     st\<lparr> fs_locals := fs_locals st @ [\<lparr> kl_name = name, kl_reg = -1, kl_type = type,
       kl_storage = KNC_LOCAL_CAPTURE, kl_capture_slot = slot \<rparr>] \<rparr>"

definition load_local_value :: "knc_local \<Rightarrow> knc_func_state \<Rightarrow> (int \<times> knc_func_state) option" where
  "load_local_value loc st =
     (if kl_storage loc = KNC_LOCAL_VALUE then Some (kl_reg loc, st)
      else do {
        (value, st) \<leftarrow> alloc_reg st;
        Some (value,
          if kl_storage loc = KNC_LOCAL_CAPTURE
          then emit [U8 KNC_OP_LOAD_CAPTURE, U8 value, U16 (kl_capture_slot loc)] st
          else emit [U8 KNC_OP_LOAD_CELL, U8 value, U8 (kl_reg loc)] st)
      })"

definition store_local_value :: "knc_local \<Rightarrow> int \<Rightarrow> knc_func_state \<Rightarrow> knc_func_state" where
  "store_local_value loc value st =
     (case kl_storage loc of
        KNC_LOCAL_CAPTURE \<Rightarrow> emit [U8 KNC_OP_STORE_CAPTURE, U8 value, U16 (kl_capture_slot loc)] st
      | KNC_LOCAL_CELL \<Rightarrow> emit [U8 KNC_OP_STORE_CELL, U8 (kl_reg loc), U8 value] st
      | KNC_LOCAL_VALUE \<Rightarrow>
          (if value \<noteq> kl_reg loc then emit [U8 KNC_OP_MOVE, U8 (kl_reg loc), U8 value] st else st))"

subsection \<open>Function records\<close>

definition record_return_type :: "knc_func_record option \<Rightarrow> ty" where
  "record_return_type rec = (case rec of None \<Rightarrow> type_make TY_UNKNOWN
    | Some r \<Rightarrow> (case kf_synthetic r of
        Some (_, Some _, t) \<Rightarrow> t
      | _ \<Rightarrow> (if kf_kind r = KNC_CALLABLE_METHOD
              then (case kf_method r of Some m \<Rightarrow> md_ret_type m | None \<Rightarrow> type_make TY_UNKNOWN)
              else (case kf_func r of Some f \<Rightarrow> fn_ret_type f | None \<Rightarrow> type_make TY_UNKNOWN))))"

definition record_params :: "knc_func_record option \<Rightarrow> param list option" where
  "record_params rec = (case rec of None \<Rightarrow> None
    | Some r \<Rightarrow> (case kf_synthetic r of
        Some (ps, Some _, _) \<Rightarrow> Some ps
      | _ \<Rightarrow> (if kf_kind r = KNC_CALLABLE_METHOD then map_option md_params (kf_method r)
              else map_option fn_params (kf_func r))))"

definition record_body :: "knc_func_record option \<Rightarrow> stmt option" where
  "record_body rec = (case rec of None \<Rightarrow> None
    | Some r \<Rightarrow> (case kf_synthetic r of
        Some (_, Some b, _) \<Rightarrow> Some b
      | _ \<Rightarrow> (if kf_kind r = KNC_CALLABLE_METHOD
              then (case kf_method r of Some m \<Rightarrow> md_body m | None \<Rightarrow> None)
              else (case kf_func r of Some f \<Rightarrow> fn_body f | None \<Rightarrow> None))))"

definition record_is_static :: "knc_func_record option \<Rightarrow> bool" where
  "record_is_static rec = (case rec of None \<Rightarrow> False
    | Some r \<Rightarrow> (if kf_kind r = KNC_CALLABLE_METHOD
        then (case kf_method r of Some m \<Rightarrow> md_is_static m | None \<Rightarrow> False)
        else (case kf_func r of Some f \<Rightarrow> fn_is_static f | None \<Rightarrow> True)))"

text \<open>The first function record whose qualified or plain name is the one looked for.\<close>

definition program_find_function :: "knc_program \<Rightarrow> cstr \<Rightarrow> int" where
  "program_find_function p name =
     (if name = None then -1
      else case find (\<lambda>r. kf_kind r = KNC_CALLABLE_FUNC \<and> (case kf_func r of None \<Rightarrow> False
                 | Some f \<Rightarrow> name_is (fn_qname f) name \<or> name_is (fn_name f) name)) (kp_funcs p) of
        Some r \<Rightarrow> kf_index r | None \<Rightarrow> -1)"

definition knc_attribute_is :: "attribute \<Rightarrow> string \<Rightarrow> bool" where
  "knc_attribute_is a qualified_name =
     name_is (if at_resolved a \<noteq> None then at_resolved a else at_name a) (Some qualified_name)"

fun intrinsic_loop :: "attribute list \<Rightarrow> int" where
  "intrinsic_loop [] = -1"
| "intrinsic_loop (a # as) =
     (if \<not> knc_attribute_is a ''IO.Kinal.Runtime.KncIntrinsic'' then intrinsic_loop as
      else case at_args a of
        [Some (EInt _ v)] \<Rightarrow> (if v \<ge> 0 \<and> v \<le> 65535 then v else intrinsic_loop as)
      | _ \<Rightarrow> intrinsic_loop as)"

definition record_knc_intrinsic_id :: "knc_func_record option \<Rightarrow> int" where
  "record_knc_intrinsic_id rec =
     (case rec of None \<Rightarrow> -1
      | Some r \<Rightarrow> (case kf_func r of None \<Rightarrow> -1 | Some f \<Rightarrow> intrinsic_loop (fn_attrs f)))"

definition default_unsupported :: string where
  "default_unsupported = ''This function is not supported by the bootstrap KNC emitter yet''"

fun unsupported_loop :: "attribute list \<Rightarrow> cstr" where
  "unsupported_loop [] = None"
| "unsupported_loop (a # as) =
     (if \<not> knc_attribute_is a ''IO.Kinal.Runtime.KncUnsupported'' \<or> length (at_args a) \<noteq> 1
      then unsupported_loop as
      else case at_args a of
        [Some (EString _ (Some text))] \<Rightarrow> Some text
      | _ \<Rightarrow> Some default_unsupported)"

definition record_knc_unsupported_reason :: "knc_func_record option \<Rightarrow> cstr" where
  "record_knc_unsupported_reason rec =
     (case rec of None \<Rightarrow> None
      | Some r \<Rightarrow> (case kf_func r of None \<Rightarrow> None | Some f \<Rightarrow> unsupported_loop (fn_attrs f)))"

definition program_find_method_function :: "knc_program \<Rightarrow> cstr \<Rightarrow> int \<Rightarrow> int" where
  "program_find_method_function p owner method_index =
     (let ti = program_find_type p owner
      in if ti < 0 then -1
         else if method_index < 0 then -1
         else if method_index \<ge> int (length (kt_direct_methods (kp_types p ! nat ti))) then -1
         else kt_direct_methods (kp_types p ! nat ti) ! nat method_index)"

definition program_mark_function_reachable :: "int \<Rightarrow> knc_program \<Rightarrow> knc_program" where
  "program_mark_function_reachable i p =
     (if i < 0 \<or> i \<ge> int (length (kp_funcs p)) then p
      else p\<lparr> kp_funcs := (kp_funcs p)[nat i := (kp_funcs p ! nat i)\<lparr> kf_reachable := True \<rparr>] \<rparr>)"

definition program_mark_virtual_slot_reachable :: "int \<Rightarrow> knc_program \<Rightarrow> knc_program" where
  "program_mark_virtual_slot_reachable slot p =
     (if slot < 0 then p
      else fold (\<lambda>t p. if slot < int (length (kt_vtable t))
                       then program_mark_function_reachable (kt_vtable t ! nat slot) p else p)
             (kp_types p) p)"

definition capturebuf_find_name :: "knc_capture list \<Rightarrow> cstr \<Rightarrow> int" where
  "capturebuf_find_name buf name =
     (if name = None then -1 else index_from (\<lambda>c. name_is (kc_name c) name) 0 buf)"

fun collect_captures :: "knc_local list \<Rightarrow> knc_capture list \<Rightarrow> knc_capture list" where
  "collect_captures [] out = out"
| "collect_captures (l # ls) out =
     (if kl_name l = None \<or> capturebuf_find_name out (kl_name l) \<ge> 0 then collect_captures ls out
      else collect_captures ls (out @ [\<lparr> kc_name = kl_name l, kc_type = kl_type l,
             kc_slot = int (length out) \<rparr>]))"

definition collect_visible_captures :: "knc_func_state \<Rightarrow> knc_capture list \<Rightarrow> knc_capture list" where
  "collect_visible_captures st out = collect_captures (rev (fs_locals st)) out"

definition block_record_slot :: "knc_func_state \<Rightarrow> int \<Rightarrow> int" where
  "block_record_slot st ip =
     (case fs_block_records st of None \<Rightarrow> -1
      | Some rs \<Rightarrow> index_from (\<lambda>r. br_ip r = ip) 0 rs)"

definition map_builtin_id :: "int \<Rightarrow> int" where
  "map_builtin_id builtin = kn_builtin_vm_id builtin"

text \<open>The part of a name after its last dot.\<close>

definition name_tail :: "char list \<Rightarrow> char list" where
  "name_tail name = rev (takeWhile (\<lambda>c. c \<noteq> CHR ''.'') (rev name))"

definition map_runtime_extern_symbol :: "cstr \<Rightarrow> int" where
  "map_runtime_extern_symbol name =
     (case name of None \<Rightarrow> -1
      | Some s \<Rightarrow>
        (let tail = Some (name_tail s)
         in if kn_strcmp tail (Some ''__kn_time_tick'') = 0 then map_builtin_id KN_BUILTIN_IO_TIME_GETTICK
            else if kn_strcmp tail (Some ''__kn_time_sleep'') = 0 then map_builtin_id KN_BUILTIN_IO_TIME_SLEEP
            else if kn_strcmp tail (Some ''__kn_time_nano'') = 0 then map_builtin_id KN_BUILTIN_IO_TIME_NANOTICK
            else if kn_strcmp tail (Some ''__kn_sys_file_exists'') = 0
            then map_builtin_id KN_BUILTIN_IO_SYSTEM_FILE_EXISTS
            else -1))"

subsection \<open>Constants and default values\<close>

text \<open>A load of a constant from the pool of integers.\<close>

definition load_int :: "int \<Rightarrow> int \<Rightarrow> int \<Rightarrow> knc_func_state \<Rightarrow> knc_func_state" where
  "load_int opcode reg v st = (let (i, st) = st_add_int v st in emit [U8 opcode, U8 reg, U16 i] st)"

definition package_steps :: "ty list \<Rightarrow> nat" where
  "package_steps ts = sum_list (map (\<lambda>t. Suc (ty_steps t)) ts)"

lemma package_steps_of: "ty_kind t = TY_PACKAGE \<Longrightarrow> package_steps (ty_package t) \<le> ty_steps t"
  by (cases t) (simp add: package_steps_def)

function emit_default_value :: "int \<Rightarrow> ty \<Rightarrow> knc_func_state \<Rightarrow> knc_func_state option"
  and emit_default_items :: "int \<Rightarrow> int \<Rightarrow> ty list \<Rightarrow> knc_func_state \<Rightarrow> knc_func_state option" where
  "emit_default_value reg type st =
     (if ty_kind type = TY_CHAR then Some (load_int KNC_OP_LOAD_CHAR reg 0 st)
      else if type_is_integerish type then Some (load_int KNC_OP_LOAD_INT reg 0 st)
      else if type_is_floatish type
      then (let (i, st) = st_add_float 0 st in Some (emit [U8 KNC_OP_LOAD_FLOAT, U8 reg, U16 i] st))
      else if ty_kind type = TY_BOOL then Some (emit [U8 KNC_OP_LOAD_BOOL, U8 reg, U8 0] st)
      else if ty_kind type = TY_STRING
      then (let (i, st) = st_add_string (Some []) st
            in Some (emit [U8 KNC_OP_LOAD_STRING, U8 reg, U16 i] st))
      else if ty_kind type = TY_ARRAY
      then do {
        (len_reg, st) \<leftarrow> alloc_reg st;
        let st = load_int KNC_OP_LOAD_INT len_reg
                   (if ty_array_len type \<ge> 0 then to_c_int (ty_array_len type) else 0) st;
        Some (emit [U8 KNC_OP_NEW_ARRAY, U8 reg, U8 len_reg,
                    U8 (value_kind_code (value_kind_from_type (elem_of type)))] st)
      }
      else if ty_kind type = TY_PACKAGE
      then do {
        (len_reg, st) \<leftarrow> alloc_reg st;
        let st = load_int KNC_OP_LOAD_INT len_reg (int (length (ty_package type))) st;
        emit_default_items reg 0 (ty_package type)
          (emit [U8 KNC_OP_NEW_ARRAY, U8 reg, U8 len_reg, U8 (value_kind_code KNC_VALUE_NULL)] st)
      }
      else if ty_kind type = TY_STRUCT
      then (let type_index = program_find_type (fs_program st) (ty_name type)
            in Some (if type_index < 0 then knc_diag st
                     else emit [U8 KNC_OP_NEW_OBJECT, U8 reg, U16 type_index] st))
      else Some (emit [U8 KNC_OP_MOVE, U8 reg, U8 reg] st))"
| "emit_default_items reg i [] st = Some st"
| "emit_default_items reg i (t # ts) st = do {
     (idx_reg, st) \<leftarrow> alloc_reg st;
     (item_reg, st) \<leftarrow> alloc_reg st;
     st \<leftarrow> emit_default_value item_reg t (load_int KNC_OP_LOAD_INT idx_reg i st);
     emit_default_items reg (i + 1) ts (emit [U8 KNC_OP_STORE_INDEX, U8 reg, U8 idx_reg, U8 item_reg] st)
   }"
  by pat_completeness auto

termination
proof (relation "measure (case_sum (\<lambda>(_, t, _). 2 * ty_steps t + 1)
    (\<lambda>(_, _, ts, _). 2 * package_steps ts))", goal_cases)
  case 2
  then show ?case by (auto simp: less_Suc_eq_le package_steps_of)
qed (auto simp: package_steps_def)

definition emit_int_const_reg :: "int \<Rightarrow> knc_func_state \<Rightarrow> (int \<times> knc_func_state) option" where
  "emit_int_const_reg v st = do {
     (reg, st) \<leftarrow> alloc_reg st;
     Some (reg, load_int KNC_OP_LOAD_INT reg v st)
   }"

definition move_to_fresh_reg :: "knc_value \<Rightarrow> knc_func_state \<Rightarrow> (knc_value \<times> knc_func_state) option" where
  "move_to_fresh_reg v st = do {
     (dst, st) \<leftarrow> alloc_reg st;
     Some (v\<lparr> kv_reg := dst \<rparr>, emit [U8 KNC_OP_MOVE, U8 dst, U8 (kv_reg v)] st)
   }"

definition emit_bool_const :: "bool \<Rightarrow> knc_func_state \<Rightarrow> (knc_value \<times> knc_func_state) option" where
  "emit_bool_const v st = do {
     (reg, st) \<leftarrow> alloc_reg st;
     Some (\<lparr> kv_reg = reg, kv_type = type_make TY_BOOL \<rparr>,
       emit [U8 KNC_OP_LOAD_BOOL, U8 reg, U8 (if v then 1 else 0)] st)
   }"

definition emit_make_function :: "int \<Rightarrow> int \<Rightarrow> int \<Rightarrow> int \<Rightarrow> int \<Rightarrow> knc_func_state \<Rightarrow> knc_func_state" where
  "emit_make_function dst type_index target_kind target_index env_reg st =
     emit [U8 KNC_OP_MAKE_FUNC, U8 dst, U16 type_index, U8 target_kind, U16 target_index, U8 env_reg] st"

text \<open>The register of an argument, 255 for none.\<close>

definition reg_arg :: "int list \<Rightarrow> nat \<Rightarrow> int" where
  "reg_arg regs i = (if i < length regs then regs ! i else 255)"

definition emit_builtin_call_regs ::
  "ty \<Rightarrow> int \<Rightarrow> int list \<Rightarrow> knc_func_state \<Rightarrow> (knc_value \<times> knc_func_state) option" where
  "emit_builtin_call_regs result_type mapped regs st = do {
     (reg, st) \<leftarrow> (if ty_kind result_type \<noteq> TY_VOID then alloc_reg st else Some (255, st));
     Some (\<lparr> kv_reg = reg, kv_type = result_type \<rparr>,
       emit [U8 KNC_OP_CALL_BUILTIN, U8 reg, U16 mapped, U8 (int (length regs)),
             U8 (reg_arg regs 0), U8 (reg_arg regs 1), U8 (reg_arg regs 2), U8 (reg_arg regs 3)] st)
   }"

definition emit_string_const :: "cstr \<Rightarrow> knc_func_state \<Rightarrow> (knc_value \<times> knc_func_state) option" where
  "emit_string_const text st = do {
     (reg, st) \<leftarrow> alloc_reg st;
     let (i, st) = st_add_string (if text = None then Some [] else text) st;
     Some (\<lparr> kv_reg = reg, kv_type = type_make TY_STRING \<rparr>,
       emit [U8 KNC_OP_LOAD_STRING, U8 reg, U16 i] st)
   }"

definition emit_string_concat ::
  "knc_value \<Rightarrow> knc_value \<Rightarrow> knc_func_state \<Rightarrow> (knc_value \<times> knc_func_state) option" where
  "emit_string_concat l r st =
     emit_builtin_call_regs (type_make TY_STRING) (map_builtin_id KN_BUILTIN_IO_STRING_CONCAT)
       [kv_reg l, kv_reg r] st"

text \<open>A conversion from one register into a fresh one.\<close>

definition convert_reg ::
  "int \<Rightarrow> ty \<Rightarrow> int \<Rightarrow> knc_func_state \<Rightarrow> (knc_value \<times> knc_func_state) option" where
  "convert_reg opcode type reg st = do {
     (dst, st) \<leftarrow> alloc_reg st;
     Some (\<lparr> kv_reg = dst, kv_type = type \<rparr>, emit [U8 opcode, U8 dst, U8 reg] st)
   }"

definition emit_stringify_value ::
  "knc_value \<Rightarrow> knc_func_state \<Rightarrow> (knc_value \<times> knc_func_state) option" where
  "emit_stringify_value v st =
     (let k = ty_kind (kv_type v); text = type_make TY_STRING
      in if k = TY_STRING then Some (v, st)
         else if k = TY_CHAR then convert_reg KNC_OP_CHAR_TO_STRING text (kv_reg v) st
         else if k = TY_BOOL then convert_reg KNC_OP_BOOL_TO_STRING text (kv_reg v) st
         else if type_is_integerish (kv_type v) \<or> k = TY_ENUM
         then convert_reg KNC_OP_INT_TO_STRING text (kv_reg v) st
         else emit_builtin_call_regs text (map_builtin_id KN_BUILTIN_IO_ANY_TOSTRING) [kv_reg v] st)"

subsection \<open>Type tests and checked casts\<close>

datatype is_target = KNC_IS_TARGET_ANY | KNC_IS_TARGET_BOOL | KNC_IS_TARGET_CHAR | KNC_IS_TARGET_INT
  | KNC_IS_TARGET_FLOAT | KNC_IS_TARGET_STRING | KNC_IS_TARGET_TYPE

definition is_target_code :: "is_target \<Rightarrow> int" where
  "is_target_code k = (case k of KNC_IS_TARGET_ANY \<Rightarrow> 0 | KNC_IS_TARGET_BOOL \<Rightarrow> 1
     | KNC_IS_TARGET_CHAR \<Rightarrow> 2 | KNC_IS_TARGET_INT \<Rightarrow> 3 | KNC_IS_TARGET_FLOAT \<Rightarrow> 4
     | KNC_IS_TARGET_STRING \<Rightarrow> 5 | KNC_IS_TARGET_TYPE \<Rightarrow> 6)"

text \<open>The kind and payload of a catch clause, or nothing with a diagnostic.\<close>

definition map_catch_target :: "ty \<Rightarrow> knc_func_state \<Rightarrow> (is_target \<times> int) option \<times> knc_func_state" where
  "map_catch_target t st =
     (let k = ty_kind t
      in if k = TY_ANY then (Some (KNC_IS_TARGET_ANY, 0), st)
         else if k = TY_BOOL then (Some (KNC_IS_TARGET_BOOL, 0), st)
         else if k = TY_CHAR then (Some (KNC_IS_TARGET_CHAR, 0), st)
         else if type_is_integerish t \<or> k = TY_ENUM then (Some (KNC_IS_TARGET_INT, 0), st)
         else if type_is_floatish t then (Some (KNC_IS_TARGET_FLOAT, 0), st)
         else if k = TY_STRING then (Some (KNC_IS_TARGET_STRING, 0), st)
         else if k = TY_CLASS \<and> ty_name t \<noteq> None
         then (let payload = program_find_type (fs_program st) (ty_name t)
               in if payload < 0 then (None, knc_diag st) else (Some (KNC_IS_TARGET_TYPE, payload), st))
         else (None, knc_diag st))"

definition emit_is_type :: "int \<Rightarrow> is_target \<Rightarrow> int \<Rightarrow> knc_func_state \<Rightarrow> (knc_value \<times> knc_func_state) option" where
  "emit_is_type reg kind payload st = do {
     (out, st) \<leftarrow> alloc_reg st;
     Some (\<lparr> kv_reg = out, kv_type = type_make TY_BOOL \<rparr>,
       emit [U8 KNC_OP_IS_TYPE, U8 out, U8 reg, U8 (is_target_code kind),
             U16 (if payload \<ge> 0 then payload else 0)] st)
   }"

definition compile_is_check_from_value ::
  "knc_value \<Rightarrow> ty \<Rightarrow> knc_func_state \<Rightarrow> (knc_value \<times> knc_func_state) option" where
  "compile_is_check_from_value v target st =
     (let vt = kv_type v; vk = ty_kind vt; tk = ty_kind target; reg = kv_reg v
      in if vk = TY_NULL then emit_bool_const False st
         else if vk = TY_ANY
         then (if tk = TY_BOOL then emit_is_type reg KNC_IS_TARGET_BOOL (-1) st
               else if tk = TY_CHAR then emit_is_type reg KNC_IS_TARGET_CHAR (-1) st
               else if type_is_integerish target \<or> tk = TY_ENUM
               then emit_is_type reg KNC_IS_TARGET_INT (-1) st
               else if type_is_floatish target then emit_is_type reg KNC_IS_TARGET_FLOAT (-1) st
               else if tk = TY_STRING then emit_is_type reg KNC_IS_TARGET_STRING (-1) st
               else if tk = TY_CLASS \<and> ty_name target \<noteq> None
               then (let payload = program_find_type (fs_program st) (ty_name target)
                     in if payload \<ge> 0 then emit_is_type reg KNC_IS_TARGET_TYPE payload st
                        else emit_bool_const False st)
               else emit_bool_const False st)
         else if vk = TY_STRING \<and> tk = TY_STRING then emit_is_type reg KNC_IS_TARGET_STRING (-1) st
         else if (vk = TY_CLASS \<or> vk = TY_STRUCT) \<and> tk = TY_CLASS \<and> ty_name target \<noteq> None
         then (let payload = program_find_type (fs_program st) (ty_name target)
               in if payload < 0
                  then Some (\<lparr> kv_reg = -1, kv_type = type_make TY_BOOL \<rparr>, knc_diag st)
                  else emit_is_type reg KNC_IS_TARGET_TYPE payload st)
         else if vk = TY_BOOL \<and> tk = TY_BOOL then emit_bool_const True st
         else if vk = TY_CHAR \<and> tk = TY_CHAR then emit_bool_const True st
         else if type_is_integerish vt \<and> type_is_integerish target then emit_bool_const (vk = tk) st
         else if type_is_floatish vt \<and> type_is_floatish target then emit_bool_const (vk = tk) st
         else if vk = TY_ENUM \<and> tk = TY_ENUM then emit_bool_const (knc_type_equal vt target) st
         else emit_bool_const False st)"

text \<open>
  The walk up the bases ends after 256 classes. The classes compared are pointers found by name, so
  equal declarations are the same one.
\<close>

fun derived_loop :: "nat \<Rightarrow> knc_program \<Rightarrow> class_decl \<Rightarrow> class_decl \<Rightarrow> bool" where
  "derived_loop 0 p cur base = False"
| "derived_loop (Suc n) p cur base =
     (if cur = base then True
      else if cd_base cur = None then False
      else case program_find_class p (cd_base cur) of None \<Rightarrow> False | Some c \<Rightarrow> derived_loop n p c base)"

definition knc_class_is_derived_from :: "knc_program \<Rightarrow> class_decl \<Rightarrow> class_decl \<Rightarrow> bool" where
  "knc_class_is_derived_from p c base = derived_loop 256 p c base"

text \<open>\<open>None\<close> when the bases form a cycle.\<close>

partial_function (option) knc_class_implements_interface ::
  "knc_program \<Rightarrow> class_decl \<Rightarrow> cstr \<Rightarrow> bool option" where
  "knc_class_implements_interface p c iface =
     (if list_ex (\<lambda>i. kn_strcmp i iface = 0) (cd_interfaces c) then Some True
      else if cd_base c = None then Some False
      else case program_find_class p (cd_base c) of None \<Rightarrow> Some False
        | Some b \<Rightarrow> knc_class_implements_interface p b iface)"

definition knc_object_cast_is_statically_safe :: "knc_program \<Rightarrow> ty \<Rightarrow> ty \<Rightarrow> bool option" where
  "knc_object_cast_is_statically_safe p src dst =
     (if ty_kind src \<noteq> TY_CLASS \<or> ty_kind dst \<noteq> TY_CLASS \<or> ty_name src = None \<or> ty_name dst = None
      then Some False
      else if knc_type_equal src dst then Some True
      else case program_find_class p (ty_name src) of None \<Rightarrow> Some False
        | Some s \<Rightarrow> (case program_find_class p (ty_name dst) of
              Some d \<Rightarrow> Some (knc_class_is_derived_from p s d)
            | None \<Rightarrow> (if program_find_interface p (ty_name dst) \<noteq> None
                then knc_class_implements_interface p s (ty_name dst) else Some False)))"

definition knc_invalid_cast_detail :: "ty \<Rightarrow> ty \<Rightarrow> char list" where
  "knc_invalid_cast_detail src dst =
     (let b = append_text 192 (replicate 192 NUL, 0) ''Cannot cast '';
          b = knc_append_type_text 192 b src;
          b = append_text 192 b '' to '';
          b = knc_append_type_text 192 b dst
      in take (snd b) (fst b))"

text \<open>The first component tells whether the routine returned 0.\<close>

definition emit_invalid_cast_throw :: "ty \<Rightarrow> ty \<Rightarrow> knc_func_state \<Rightarrow> (bool \<times> knc_func_state) option" where
  "emit_invalid_cast_throw src dst st =
     (let p = fs_program st;
          type_index = program_find_type p (Some ''IO.Error'');
          error_class = program_find_class p (Some ''IO.Error'')
      in if type_index < 0 \<or> error_class = None then Some (False, knc_diag st)
         else do {
           (title, _) \<leftarrow> class_find_field_index p error_class (Some ''Title'');
           (message, _) \<leftarrow> class_find_field_index p error_class (Some ''Message'');
           if title < 0 \<or> message < 0 then Some (False, knc_diag st)
           else do {
             (error_reg, st) \<leftarrow> alloc_reg st;
             (title_value, st) \<leftarrow> emit_string_const (Some ''Invalid Cast'')
                                    (emit [U8 KNC_OP_NEW_OBJECT, U8 error_reg, U16 type_index] st);
             (message_value, st) \<leftarrow> emit_string_const (Some (knc_invalid_cast_detail src dst)) st;
             Some (True, emit [U8 KNC_OP_THROW, U8 error_reg]
               (emit [U8 KNC_OP_STORE_FIELD, U8 error_reg, U8 (kv_reg message_value), U16 message]
                 (emit [U8 KNC_OP_STORE_FIELD, U8 error_reg, U8 (kv_reg title_value), U16 title] st)))
           }
         })"

text \<open>The placeholders and patches of \<open>KncCode\<close>, on the code of the state.\<close>

definition st_placeholder :: "(code \<Rightarrow> int \<times> code) \<Rightarrow> knc_func_state \<Rightarrow> int \<times> knc_func_state" where
  "st_placeholder f st = (let (pos, c) = f (fs_code st) in (pos, st\<lparr> fs_code := c \<rparr>))"

definition st_jump :: "int \<Rightarrow> knc_func_state \<Rightarrow> int \<times> knc_func_state" where
  "st_jump opcode = st_placeholder (\<lambda>c. emit_jump_placeholder c opcode)"

definition st_branch :: "int \<Rightarrow> int \<Rightarrow> knc_func_state \<Rightarrow> int \<times> knc_func_state" where
  "st_branch opcode reg = st_placeholder (\<lambda>c. emit_branch_placeholder c opcode reg)"

definition st_cmp_branch :: "int \<Rightarrow> int \<Rightarrow> int \<Rightarrow> knc_func_state \<Rightarrow> int \<times> knc_func_state" where
  "st_cmp_branch opcode lhs rhs = st_placeholder (\<lambda>c. emit_cmp_branch_placeholder c opcode lhs rhs)"

definition st_try :: "int \<Rightarrow> is_target \<Rightarrow> int \<Rightarrow> knc_func_state \<Rightarrow> int \<times> knc_func_state" where
  "st_try reg kind payload =
     st_placeholder (\<lambda>c. emit_try_placeholder c reg (is_target_code kind) payload)"

definition st_patch_all :: "int list \<Rightarrow> int \<Rightarrow> knc_func_state \<Rightarrow> knc_func_state option" where
  "st_patch_all ps target st =
     map_option (\<lambda>c. st\<lparr> fs_code := c \<rparr>) (patch_all (fs_code st) ps target)"

definition st_patch :: "int \<Rightarrow> int \<Rightarrow> knc_func_state \<Rightarrow> knc_func_state option" where
  "st_patch pos target st = st_patch_all [pos] target st"

definition st_ip :: "knc_func_state \<Rightarrow> int" where
  "st_ip st = current_ip (fs_code st)"

definition emit_checked_object_cast ::
  "knc_value \<Rightarrow> ty \<Rightarrow> knc_func_state \<Rightarrow> (knc_value \<times> knc_func_state) option" where
  "emit_checked_object_cast v dst st =
     (if ty_kind (kv_type v) = TY_NULL then Some (v\<lparr> kv_type := dst \<rparr>, st)
      else do {
        safe \<leftarrow> knc_object_cast_is_statically_safe (fs_program st) (kv_type v) dst;
        if safe then Some (v\<lparr> kv_type := dst \<rparr>, st)
        else do {
          (null_patch, st) \<leftarrow>
            (if ty_kind (kv_type v) = TY_ANY
             then do {
               (null_reg, st) \<leftarrow> alloc_reg st;
               (is_null_reg, st) \<leftarrow> alloc_reg st;
               st \<leftarrow> emit_default_value null_reg (type_make TY_NULL) st;
               let (pos, st) = st_branch KNC_OP_JUMP_IF_TRUE is_null_reg
                 (emit [U8 KNC_OP_EQ, U8 is_null_reg, U8 (kv_reg v), U8 null_reg] st);
               Some ([pos], st)
             }
             else Some ([], st));
          (matched, st) \<leftarrow> compile_is_check_from_value v dst st;
          if fs_errors st > 0 then Some (v\<lparr> kv_reg := -1, kv_type := dst \<rparr>, st)
          else do {
            let (success_patch, st) = st_branch KNC_OP_JUMP_IF_TRUE (kv_reg matched) st;
            (ok, st) \<leftarrow> emit_invalid_cast_throw (kv_type v) dst st;
            if \<not> ok then Some (v\<lparr> kv_reg := -1, kv_type := dst \<rparr>, st)
            else do {
              st \<leftarrow> st_patch success_patch (st_ip st) st;
              st \<leftarrow> st_patch_all null_patch (st_ip st) st;
              Some (v\<lparr> kv_type := dst \<rparr>, st)
            }
          }
        }
      })"

subsection \<open>Numeric operands\<close>

definition knc_unsigned_integer_source_bits :: "ty \<Rightarrow> int" where
  "knc_unsigned_integer_source_bits t = (case ty_kind t of
     TY_BYTE \<Rightarrow> 8 | TY_U8 \<Rightarrow> 8 | TY_U16 \<Rightarrow> 16 | TY_U32 \<Rightarrow> 32 | TY_U64 \<Rightarrow> 64 | TY_USIZE \<Rightarrow> 64 | _ \<Rightarrow> 0)"

definition emit_width_binary_op :: "int \<Rightarrow> int \<Rightarrow> int \<Rightarrow> int \<Rightarrow> int \<Rightarrow> knc_func_state \<Rightarrow> knc_func_state" where
  "emit_width_binary_op opcode dst lhs rhs bits st =
     emit [U8 opcode, U8 dst, U8 lhs, U8 rhs, U8 bits] st"

definition knc_normalize_unsigned_integer_operand ::
  "knc_value \<Rightarrow> knc_func_state \<Rightarrow> (knc_value \<times> knc_func_state) option" where
  "knc_normalize_unsigned_integer_operand v st =
     (let bits = knc_unsigned_integer_source_bits (kv_type v)
      in if bits = 0 \<or> kv_reg v < 0 then Some (v, st)
         else do {
           (zero_reg, st) \<leftarrow> alloc_reg st;
           (out, st) \<leftarrow> alloc_reg st;
           let st = load_int KNC_OP_LOAD_INT zero_reg 0 st;
           Some (v\<lparr> kv_reg := out \<rparr>,
             emit_width_binary_op KNC_OP_LSHR_INT out (kv_reg v) zero_reg bits st)
         })"

text \<open>The type an enumeration is stored as, for any other type the type itself.\<close>

definition enum_representation :: "knc_program \<Rightarrow> ty \<Rightarrow> ty" where
  "enum_representation p target =
     (if ty_kind target = TY_ENUM
      then case find (\<lambda>en. ty_name target \<noteq> None \<and>
               name_is (if ed_qname en \<noteq> None then ed_qname en else ed_name en) (ty_name target)) (kp_enums p) of
          Some en \<Rightarrow> ed_underlying en | None \<Rightarrow> target
      else target)"

definition knc_normalize_integer_cast ::
  "knc_value \<Rightarrow> ty \<Rightarrow> knc_func_state \<Rightarrow> (knc_value \<times> knc_func_state) option" where
  "knc_normalize_integer_cast v target st =
     (let rep = enum_representation (fs_program st) target;
          v = v\<lparr> kv_type := rep \<rparr>
      in if knc_unsigned_integer_source_bits rep \<noteq> 0
         then do {
           (v, st) \<leftarrow> knc_normalize_unsigned_integer_operand v st;
           Some (v\<lparr> kv_type := target \<rparr>, st)
         }
         else
           let bits = (if ty_kind rep = TY_I8 then 8 else if ty_kind rep = TY_I16 then 16
                       else if ty_kind rep = TY_I32 then 32 else 64)
           in if bits < (64 :: int)
              then do {
                let (shift, st) = st_add_int (64 - bits) st;
                (truncated, st) \<leftarrow> alloc_reg st;
                (extended, st) \<leftarrow> alloc_reg st;
                let st = emit [U8 KNC_OP_SHL_INT_IMM, U8 truncated, U8 (kv_reg v), U16 shift] st;
                Some (v\<lparr> kv_reg := extended, kv_type := target \<rparr>,
                  emit [U8 KNC_OP_SHR_INT_IMM, U8 extended, U8 truncated, U16 shift] st)
              }
              else Some (v\<lparr> kv_type := target \<rparr>, st))"

definition knc_coerce_binary_numeric_operand ::
  "knc_value \<Rightarrow> ty \<Rightarrow> knc_func_state \<Rightarrow> (knc_value \<times> knc_func_state) option" where
  "knc_coerce_binary_numeric_operand v target st = do {
     (v, st) \<leftarrow> knc_normalize_unsigned_integer_operand v st;
     let vt = kv_type v;
     if type_is_floatish target
     then if type_is_floatish vt then Some (v\<lparr> kv_type := target \<rparr>, st)
       else if ty_kind vt = TY_CHAR
       then do {
         (source, st) \<leftarrow> convert_reg KNC_OP_CHAR_TO_INT vt (kv_reg v) st;
         convert_reg KNC_OP_INT_TO_FLOAT target (kv_reg source) st
       }
       else if \<not> type_is_integerish vt then Some (v\<lparr> kv_reg := -1 \<rparr>, knc_diag st)
       else convert_reg KNC_OP_INT_TO_FLOAT target (kv_reg v) st
     else if \<not> type_is_integerish target then Some (v\<lparr> kv_reg := -1 \<rparr>, knc_diag st)
     else if type_is_floatish vt then convert_reg KNC_OP_FLOAT_TO_INT (type_make TY_INT) (kv_reg v) st
     else if ty_kind vt = TY_CHAR then convert_reg KNC_OP_CHAR_TO_INT (type_make TY_INT) (kv_reg v) st
     else if \<not> type_is_integerish vt then Some (v\<lparr> kv_reg := -1 \<rparr>, knc_diag st)
     else Some (v\<lparr> kv_type := type_make TY_INT \<rparr>, st)
   }"

definition knc_finish_binary_arithmetic ::
  "ty \<Rightarrow> knc_value \<Rightarrow> knc_func_state \<Rightarrow> (knc_value \<times> knc_func_state) option" where
  "knc_finish_binary_arithmetic t raw st =
     (if ty_kind t \<noteq> TY_CHAR then Some (raw\<lparr> kv_type := t \<rparr>, st)
      else convert_reg KNC_OP_INT_TO_CHAR t (kv_reg raw) st)"

definition knc_binary_integer_bits_valid :: "int \<Rightarrow> bool" where
  "knc_binary_integer_bits_valid bits \<longleftrightarrow> bits = 8 \<or> bits = 16 \<or> bits = 32 \<or> bits = 64"

text \<open>
  \<open>compile_incdec\<close> on a unary expression with the type \<open>t\<close>, the operator and the operand. The first
  step loads the variable, keeping its old value for a postfix operator; the second computes the new
  value by the type of the variable.
\<close>

definition incdec_load :: "knc_local \<Rightarrow> bool \<Rightarrow> knc_func_state \<Rightarrow> ((int \<times> int) \<times> knc_func_state) option" where
  "incdec_load loc is_postfix st = do {
     (value_reg, st) \<leftarrow> load_local_value loc st;
     if is_postfix
     then do {
       (out, st) \<leftarrow> alloc_reg st;
       Some ((value_reg, out), emit [U8 KNC_OP_MOVE, U8 out, U8 value_reg] st)
     }
     else Some ((value_reg, value_reg), st)
   }"

definition incdec_update :: "knc_local \<Rightarrow> bool \<Rightarrow> int \<Rightarrow> knc_func_state \<Rightarrow> (int option \<times> knc_func_state) option" where
  "incdec_update loc inc value_reg st =
     (let t = kl_type loc; step = U8 (if inc then KNC_OP_INC_INT else KNC_OP_DEC_INT)
      in if type_is_integerish t
         then if ty_kind t = TY_CHAR
           then do {
             (number, st) \<leftarrow> convert_reg KNC_OP_CHAR_TO_INT t value_reg st;
             (character, st) \<leftarrow> convert_reg KNC_OP_INT_TO_CHAR t (kv_reg number)
                                  (emit [step, U8 (kv_reg number)] st);
             Some (Some (kv_reg character), st)
           }
           else Some (Some value_reg, emit [step, U8 value_reg] st)
         else if type_is_floatish t
         then do {
           (one, st) \<leftarrow> alloc_reg st;
           let (i, st) = st_add_float 0x3FF0000000000000 st;
           let st = emit [U8 KNC_OP_LOAD_FLOAT, U8 one, U16 i] st;
           (updated, st) \<leftarrow> alloc_reg st;
           Some (Some updated, emit [U8 (if inc then KNC_OP_ADD_FLOAT else KNC_OP_SUB_FLOAT),
             U8 updated, U8 value_reg, U8 one] st)
         }
         else if ty_kind t = TY_PTR
         then do {
           (step_reg, st) \<leftarrow> emit_int_const_reg (if inc then 1 else -1) st;
           (updated, st) \<leftarrow> alloc_reg st;
           Some (Some updated, emit [U8 KNC_OP_ADD_PTR, U8 updated, U8 value_reg, U8 step_reg] st)
         }
         else Some (None, knc_diag st))"

definition compile_incdec ::
  "ty \<Rightarrow> bool \<Rightarrow> expr option \<Rightarrow> bool \<Rightarrow> knc_func_state \<Rightarrow> (knc_value \<times> knc_func_state) option" where
  "compile_incdec t inc operand is_postfix st =
     (case operand of Some (EVar _ name) \<Rightarrow>
        (case find_local st name of
           None \<Rightarrow> Some (\<lparr> kv_reg = -1, kv_type = t \<rparr>, knc_diag st)
         | Some loc \<Rightarrow> do {
             ((value_reg, out), st) \<leftarrow> incdec_load loc is_postfix st;
             (updated, st) \<leftarrow> incdec_update loc inc value_reg st;
             case updated of
               None \<Rightarrow> Some (\<lparr> kv_reg = out, kv_type = t \<rparr>, st)
             | Some u \<Rightarrow> Some (\<lparr> kv_reg = (if is_postfix then out else u), kv_type = t \<rparr>,
                 store_local_value loc u st)
           })
      | _ \<Rightarrow> Some (\<lparr> kv_reg = -1, kv_type = t \<rparr>, knc_diag st))"

subsection \<open>Closures and blocks\<close>

fun zero_slots :: "int \<Rightarrow> int list \<Rightarrow> knc_func_state \<Rightarrow> knc_func_state option" where
  "zero_slots env_reg [] st = Some st"
| "zero_slots env_reg (i # is) st = do {
     (zero_reg, st) \<leftarrow> emit_int_const_reg 0 st;
     (idx_reg, st) \<leftarrow> emit_int_const_reg i st;
     zero_slots env_reg is (emit [U8 KNC_OP_STORE_INDEX, U8 env_reg, U8 idx_reg, U8 zero_reg] st)
   }"

text \<open>The register of the environment, or what the routine returns on its error paths.\<close>

fun capture_slots :: "int \<Rightarrow> knc_capture list \<Rightarrow> knc_func_state \<Rightarrow> (int \<times> knc_func_state) option" where
  "capture_slots env_reg [] st = Some (env_reg, st)"
| "capture_slots env_reg (c # cs) st =
     (let loc = find_local st (kc_name c)
      in do {
        (idx_reg, st) \<leftarrow> emit_int_const_reg (kc_slot c) st;
        case loc of None \<Rightarrow> Some (255, knc_diag st)
        | Some l \<Rightarrow>
          (if kl_storage l = KNC_LOCAL_CAPTURE
           then do {
             (cell_reg, st) \<leftarrow> alloc_reg st;
             let st = emit [U8 KNC_OP_LOAD_CAPTURE_CELL, U8 cell_reg, U16 (kl_capture_slot l)] st;
             capture_slots env_reg cs
               (emit [U8 KNC_OP_STORE_INDEX, U8 env_reg, U8 idx_reg, U8 cell_reg] st)
           }
           else if kl_storage l \<noteq> KNC_LOCAL_CELL then Some (-1, knc_diag st)
           else capture_slots env_reg cs
                  (emit [U8 KNC_OP_STORE_INDEX, U8 env_reg, U8 idx_reg, U8 (kl_reg l)] st))
      })"

definition build_capture_env :: "knc_capture list \<Rightarrow> int \<Rightarrow> knc_func_state \<Rightarrow> (int \<times> knc_func_state) option" where
  "build_capture_env captures minimum_slots st =
     (let slot_count = fold (\<lambda>c n. if kc_slot c + 1 > n then kc_slot c + 1 else n) captures minimum_slots
      in if slot_count \<le> 0 then Some (255, st)
         else do {
           (len_reg, st) \<leftarrow> alloc_reg st;
           (env_reg, st) \<leftarrow> alloc_reg st;
           let st = load_int KNC_OP_LOAD_INT len_reg slot_count st;
           st \<leftarrow> zero_slots env_reg [0..minimum_slots - 1]
                  (emit [U8 KNC_OP_NEW_ARRAY, U8 env_reg, U8 len_reg, U8 (value_kind_code KNC_VALUE_INT)] st);
           capture_slots env_reg captures st
         })"

text \<open>
  The function record of a literal, found by the address of its node or added at the end. A block
  shifts its captures by one slot.
\<close>

definition find_literal_record :: "bool \<Rightarrow> expr_info \<Rightarrow> knc_program \<Rightarrow> knc_func_record option" where
  "find_literal_record is_block i p =
     find (\<lambda>r. (case kf_synthetic r of Some (_, Some _, _) \<Rightarrow> True | _ \<Rightarrow> False) \<and>
               kf_is_block r = is_block \<and> kf_synthetic_expr r = Some (ei_addr i)) (kp_funcs p)"

definition literal_record :: "knc_program \<Rightarrow> cstr \<Rightarrow> param list \<Rightarrow> stmt option \<Rightarrow> ty \<Rightarrow> expr_info \<Rightarrow>
    bool \<Rightarrow> block_record list option \<Rightarrow> knc_capture list \<Rightarrow> knc_func_record" where
  "literal_record p name params body ret i is_block records captures =
     \<lparr> kf_kind = KNC_CALLABLE_FUNC, kf_func = None, kf_method = None, kf_owner_class = None,
       kf_method_index = 0, kf_is_instance = False, kf_debug_name = name, kf_index = int (length (kp_funcs p)),
       kf_reachable = True, kf_built = False, kf_param_count = 0, kf_reg_count = 0, kf_return_kind = 0,
       kf_synthetic = Some (params, body, ret), kf_synthetic_expr = Some (ei_addr i),
       kf_is_block = is_block, kf_block_records = records, kf_captures = captures,
       kf_register_names = [], kf_code = [] \<rparr>"

definition add_record :: "knc_func_record \<Rightarrow> knc_func_state \<Rightarrow> knc_func_state" where
  "add_record r st = st\<lparr> fs_program := (fs_program st)\<lparr> kp_funcs := kp_funcs (fs_program st) @ [r] \<rparr> \<rparr>"

definition ensure_anon_function_record :: "expr \<Rightarrow> knc_func_state \<Rightarrow> int \<times> knc_func_state" where
  "ensure_anon_function_record e st =
     (case e of EAnonFunc i ret params body _ debug_name _ _ \<Rightarrow>
        (case find_literal_record False i (fs_program st) of
           Some r \<Rightarrow> (kf_index r, st)
         | None \<Rightarrow>
             (let r = literal_record (fs_program st)
                        (if debug_name \<noteq> None then debug_name else Some ''__knc_lambda'')
                        params body ret i False None (collect_visible_captures st [])
              in (kf_index r, add_record r st)))
      | _ \<Rightarrow> (-1, st))"

definition block_captures :: "knc_func_state \<Rightarrow> knc_capture list" where
  "block_captures st =
     (let cs = collect_visible_captures st []
      in map (\<lambda>i. (cs ! i)\<lparr> kc_slot := int i + 1 \<rparr>) [0..<length cs])"

text \<open>The two parameters of a block function are fresh nodes, at the addresses the state tells.\<close>

definition block_params :: "nat \<times> nat \<Rightarrow> param list" where
  "block_params a =
     [Param (fst a) (Some ''__knc_block_start'') (type_make TY_INT) None False,
      Param (snd a) (Some ''__knc_block_until'') (type_make TY_INT) None False]"

definition ensure_block_function_record :: "expr \<Rightarrow> knc_func_state \<Rightarrow> int \<times> knc_func_state" where
  "ensure_block_function_record e st =
     (case e of EBlockLit i _ body records debug_name _ \<Rightarrow>
        (case find_literal_record True i (fs_program st) of
           Some r \<Rightarrow> (kf_index r, st)
         | None \<Rightarrow>
             (let r = literal_record (fs_program st)
                        (if debug_name \<noteq> None then debug_name else Some ''__knc_block'')
                        (block_params (fs_block_nodes st (ei_addr i))) body (type_make TY_VOID) i True (Some records) (block_captures st)
              in (kf_index r, add_record r st)))
      | _ \<Rightarrow> (-1, st))"

text \<open>One comparison and jump per record of the block, then the return.\<close>

fun dispatch_records :: "int \<Rightarrow> nat \<Rightarrow> block_record list \<Rightarrow> knc_func_state \<Rightarrow> knc_func_state option" where
  "dispatch_records target_reg i [] st = Some st"
| "dispatch_records target_reg i (r # rs) st = do {
     (ip_reg, st) \<leftarrow> emit_int_const_reg (br_ip r) st;
     (cmp_reg, st) \<leftarrow> alloc_reg st;
     let (pos, st) = st_branch KNC_OP_JUMP_IF_TRUE cmp_reg
       (emit [U8 KNC_OP_EQ, U8 cmp_reg, U8 target_reg, U8 ip_reg] st);
     dispatch_records target_reg (i + 1) rs
       (st\<lparr> fs_record_patches := (fs_record_patches st)[i := fs_record_patches st ! i @ [pos]] \<rparr>)
   }"

definition emit_block_dispatch :: "int \<Rightarrow> knc_func_state \<Rightarrow> knc_func_state option" where
  "emit_block_dispatch target_reg st =
     (if \<not> fs_in_block st then Some st
      else do {
        (zero_reg, st) \<leftarrow> emit_int_const_reg 0 st;
        (cmp_reg, st) \<leftarrow> alloc_reg st;
        let (pos, st) = st_branch KNC_OP_JUMP_IF_TRUE cmp_reg
          (emit [U8 KNC_OP_EQ, U8 cmp_reg, U8 target_reg, U8 zero_reg] st);
        let st = st\<lparr> fs_start_patches := fs_start_patches st @ [pos] \<rparr>;
        st \<leftarrow> (case fs_block_records st of None \<Rightarrow> Some st
               | Some rs \<Rightarrow> dispatch_records target_reg 0 rs st);
        Some (emit [U8 KNC_OP_RET, U8 255] st)
      })"

end
