(* ===== verification/KncExpr.thy ===== *)
theory KncExpr
  imports KncEmit
begin

text \<open>
  The expression compiler of \<open>apps/kinal/src/kn_knc.c\<close>. Every routine that compiles subexpressions takes
  the compiler of expressions as its first argument; \<open>compile_expr\<close> at the end ties the knot, its
  recursion ending because every subexpression is smaller.

  A routine returns the value with the new state, or \<open>None\<close> where the compiler dies. After an error
  the C code returns early with what it has; the model returns the same value.
\<close>

type_synonym expr_compiler = "expr option \<Rightarrow> knc_func_state \<Rightarrow> (knc_value \<times> knc_func_state) option"

definition value_of :: "int \<Rightarrow> ty \<Rightarrow> knc_value" where
  "value_of reg t = \<lparr> kv_reg = reg, kv_type = t \<rparr>"

definition expr_type :: "expr option \<Rightarrow> ty" where
  "expr_type e = (case e of None \<Rightarrow> type_make TY_UNKNOWN | Some x \<Rightarrow> ei_type (e_info x))"

subsection \<open>Calls\<close>

text \<open>
  The registers of the arguments, after those given. \<open>None\<close> in the result is an early return: too many
  arguments, or an error in one of them.
\<close>

fun compile_args :: "expr_compiler \<Rightarrow> nat \<Rightarrow> int list \<Rightarrow> expr option list \<Rightarrow> knc_func_state \<Rightarrow>
    (int list option \<times> knc_func_state) option" where
  "compile_args rec limit regs [] st = Some (Some regs, st)"
| "compile_args rec limit regs (e # es) st =
     (if length regs \<ge> limit then Some (None, knc_diag st)
      else do {
        (v, st) \<leftarrow> rec e st;
        if fs_errors st > 0 then Some (None, st)
        else compile_args rec limit (regs @ [kv_reg v]) es st
      })"

definition with_args :: "knc_value \<Rightarrow> (int list \<Rightarrow> knc_func_state \<Rightarrow> (knc_value \<times> knc_func_state) option) \<Rightarrow>
    int list option \<times> knc_func_state \<Rightarrow> (knc_value \<times> knc_func_state) option" where
  "with_args out k r = (case r of (None, st) \<Rightarrow> Some (out, st) | (Some regs, st) \<Rightarrow> k regs st)"

fun print_parts :: "expr_compiler \<Rightarrow> knc_value \<Rightarrow> knc_value option \<Rightarrow> expr option list \<Rightarrow> knc_func_state \<Rightarrow>
    (knc_value option \<times> knc_func_state) option" where
  "print_parts rec sep joined [] st = Some (joined, st)"
| "print_parts rec sep joined (e # es) st = do {
     (part, st) \<leftarrow> rec e st;
     if fs_errors st > 0 then Some (None, st)
     else do {
       (part, st) \<leftarrow> emit_stringify_value part st;
       (joined, st) \<leftarrow> (case joined of None \<Rightarrow> Some (part, st)
         | Some j \<Rightarrow> do {
             (j, st) \<leftarrow> emit_string_concat j sep st;
             emit_string_concat j part st
           });
       print_parts rec sep (Some joined) es st
     }
   }"

text \<open>\<open>Print\<close> and \<open>PrintLine\<close> join their arguments to one string.\<close>

definition compile_print ::
  "expr_compiler \<Rightarrow> ty \<Rightarrow> int \<Rightarrow> expr option list \<Rightarrow> knc_func_state \<Rightarrow> (knc_value \<times> knc_func_state) option" where
  "compile_print rec result_type builtin_id args st = do {
     (joined, st) \<leftarrow>
       (if args = [] then do { (j, st) \<leftarrow> emit_string_const (Some []) st; Some (Some j, st) }
        else do { (sep, st) \<leftarrow> emit_string_const (Some '' '') st; print_parts rec sep None args st });
     case joined of None \<Rightarrow> Some (value_of 255 result_type, st)
     | Some j \<Rightarrow> emit_builtin_call_regs result_type (map_builtin_id builtin_id) [kv_reg j] st
   }"

definition compile_builtin_invoke :: "expr_compiler \<Rightarrow> ty \<Rightarrow> int \<Rightarrow> expr option \<Rightarrow> bool \<Rightarrow>
    expr option list \<Rightarrow> knc_func_state \<Rightarrow> (knc_value \<times> knc_func_state) option" where
  "compile_builtin_invoke rec result_type builtin_id recv is_instance_recv args st =
     (let mapped = map_builtin_id builtin_id; out = value_of 255 result_type
      in if builtin_id = KN_BUILTIN_IO_CONSOLE_PRINT \<or> builtin_id = KN_BUILTIN_IO_CONSOLE_PRINTLINE
         then compile_print rec result_type builtin_id args st
         else if builtin_id = KN_BUILTIN_TYPEOF
         then (let source = (if recv \<noteq> None then recv else if args \<noteq> [] then hd args else None)
               in do {
                 (reg, st) \<leftarrow> alloc_reg st;
                 let (i, st) = st_add_string (Some (knc_type_text (expr_type source))) st;
                 Some (value_of reg result_type, emit [U8 KNC_OP_LOAD_STRING, U8 reg, U16 i] st)
               })
         else if mapped < 0 then Some (out, knc_diag st)
         else do {
           (regs, st) \<leftarrow> compile_args rec 4 [] (if is_instance_recv \<and> recv \<noteq> None then [recv] else []) st;
           case regs of None \<Rightarrow> Some (out, st)
           | Some regs \<Rightarrow> do {
               r \<leftarrow> compile_args rec 4 regs args st;
               with_args out (emit_builtin_call_regs result_type mapped) r
             }
         })"

definition emit_call_func ::
  "ty \<Rightarrow> int \<Rightarrow> int list \<Rightarrow> knc_func_state \<Rightarrow> (knc_value \<times> knc_func_state) option" where
  "emit_call_func result_type func_index regs st = do {
     (reg, st) \<leftarrow> (if ty_kind result_type \<noteq> TY_VOID then alloc_reg st else Some (255, st));
     Some (value_of reg result_type,
       emit [U8 KNC_OP_CALL_FUNC, U8 reg, U16 func_index, U8 (int (length regs)), U8 (reg_arg regs 0),
             U8 (reg_arg regs 1), U8 (reg_arg regs 2), U8 (reg_arg regs 3)] st)
   }"

definition st_mark_function :: "int \<Rightarrow> knc_func_state \<Rightarrow> knc_func_state" where
  "st_mark_function i st = st\<lparr> fs_program := program_mark_function_reachable i (fs_program st) \<rparr>"

definition compile_direct_call ::
  "expr_compiler \<Rightarrow> cstr \<Rightarrow> ty \<Rightarrow> expr option list \<Rightarrow> knc_func_state \<Rightarrow> (knc_value \<times> knc_func_state) option" where
  "compile_direct_call rec name result_type args st =
     (let p = fs_program st;
          func_index = program_find_function p name;
          r = (if func_index \<ge> 0 then Some (kp_funcs p ! nat func_index) else None);
          intrinsic = (if func_index \<ge> 0 then record_knc_intrinsic_id r else map_runtime_extern_symbol name);
          out = value_of 255 result_type
      in if record_knc_unsupported_reason r \<noteq> None then Some (out, knc_diag st)
         else if intrinsic \<ge> 0
         then do {
           r \<leftarrow> compile_args rec 4 [] args st;
           with_args out (emit_builtin_call_regs result_type intrinsic) r
         }
         else if func_index < 0 then Some (out, knc_diag st)
         else do {
           r \<leftarrow> compile_args rec 4 [] args (st_mark_function func_index st);
           with_args out (emit_call_func result_type func_index) r
         })"

text \<open>A call of a known function record, after the registers of the receiver if there is one.\<close>

definition compile_indexed_call :: "expr_compiler \<Rightarrow> int \<Rightarrow> ty \<Rightarrow> int list \<Rightarrow> expr option list \<Rightarrow>
    knc_func_state \<Rightarrow> (knc_value \<times> knc_func_state) option" where
  "compile_indexed_call rec func_index result_type regs args st =
     (let out = value_of 255 result_type
      in if func_index < 0 then Some (out, knc_diag st)
         else if record_knc_unsupported_reason (Some (kp_funcs (fs_program st) ! nat func_index)) \<noteq> None
         then Some (out, knc_diag st)
         else do {
           r \<leftarrow> compile_args rec 4 regs args (st_mark_function func_index st);
           with_args out (emit_call_func result_type func_index) r
         })"

definition compile_call_func_index ::
  "expr_compiler \<Rightarrow> int \<Rightarrow> ty \<Rightarrow> expr option list \<Rightarrow> knc_func_state \<Rightarrow> (knc_value \<times> knc_func_state) option" where
  "compile_call_func_index rec func_index result_type args st =
     compile_indexed_call rec func_index result_type [] args st"

definition compile_direct_method_call :: "expr_compiler \<Rightarrow> int \<Rightarrow> ty \<Rightarrow> knc_value \<Rightarrow> expr option list \<Rightarrow>
    knc_func_state \<Rightarrow> (knc_value \<times> knc_func_state) option" where
  "compile_direct_method_call rec func_index result_type recv args st =
     compile_indexed_call rec func_index result_type [kv_reg recv] args st"

definition compile_virtual_method_call :: "expr_compiler \<Rightarrow> int \<Rightarrow> ty \<Rightarrow> knc_value \<Rightarrow> expr option list \<Rightarrow>
    knc_func_state \<Rightarrow> (knc_value \<times> knc_func_state) option" where
  "compile_virtual_method_call rec slot result_type recv args st =
     (let st = st\<lparr> fs_program := program_mark_virtual_slot_reachable slot (fs_program st) \<rparr>
      in do {
        r \<leftarrow> compile_args rec 3 [] args st;
        with_args (value_of 255 result_type) (\<lambda>regs st. do {
          (reg, st) \<leftarrow> (if ty_kind result_type \<noteq> TY_VOID then alloc_reg st else Some (255, st));
          Some (value_of reg result_type,
            emit [U8 KNC_OP_CALL_VIRT, U8 reg, U8 (kv_reg recv), U16 slot, U8 (int (length regs)),
                  U8 (reg_arg regs 0), U8 (reg_arg regs 1), U8 (reg_arg regs 2)] st)
        }) r
      })"

definition compile_block_invoke :: "expr_compiler \<Rightarrow> expr option \<Rightarrow> int \<Rightarrow> expr option list \<Rightarrow>
    knc_func_state \<Rightarrow> (knc_value \<times> knc_func_state) option" where
  "compile_block_invoke rec recv_expr builtin_id args st =
     (let out = value_of 255 (type_make TY_VOID)
      in do {
        (recv, st) \<leftarrow> rec recv_expr st;
        if fs_errors st > 0 then Some (out, st)
        else do {
          (env_reg, st) \<leftarrow> alloc_reg st;
          (idx0_reg, st) \<leftarrow> emit_int_const_reg 0
            (emit [U8 KNC_OP_LOAD_FIELD, U8 env_reg, U8 (kv_reg recv), U16 1] st);
          (start_reg, st) \<leftarrow> alloc_reg st;
          let st = emit [U8 KNC_OP_LOAD_INDEX, U8 start_reg, U8 env_reg, U8 idx0_reg] st;
          (regs, st) \<leftarrow>
            (if builtin_id = KN_BUILTIN_BLOCK_JUMP
             then if length args \<noteq> 1 then Some (None, knc_diag st)
               else do {
                 (regs, st) \<leftarrow> compile_args rec 4 [] args st;
                 case regs of None \<Rightarrow> Some (None, st)
                 | Some rs \<Rightarrow> do { (u, st) \<leftarrow> emit_int_const_reg (-1) st; Some (Some [rs ! 0, u], st) }
               }
             else if builtin_id = KN_BUILTIN_BLOCK_RUN
             then do { (u, st) \<leftarrow> emit_int_const_reg (-1) st; Some (Some [start_reg, u], st) }
             else if builtin_id = KN_BUILTIN_BLOCK_RUN_UNTIL
             then if length args \<noteq> 1 then Some (None, knc_diag st)
               else compile_args rec 4 [start_reg] args st
             else if length args \<noteq> 2 then Some (None, knc_diag st)
             else compile_args rec 4 [] args st);
          with_args out (\<lambda>rs st. Some (out,
            emit [U8 KNC_OP_CALL_CLOSURE, U8 255, U8 (kv_reg recv), U8 2, U8 (rs ! 0), U8 (rs ! 1),
                  U8 255, U8 255] st)) (regs, st)
        }
      })"

subsection \<open>Resolved calls\<close>

definition is_user_call :: "call_target \<Rightarrow> bool" where
  "is_user_call k \<longleftrightarrow> k = CALL_FUNCTION \<or> k = CALL_DELEGATE_KINAL \<or> k = CALL_DELEGATE_C"

definition compile_resolved_call ::
  "expr_compiler \<Rightarrow> expr_info \<Rightarrow> expr option list \<Rightarrow> knc_func_state \<Rightarrow> (knc_value \<times> knc_func_state) option" where
  "compile_resolved_call rec i args st =
     (let target = ei_call i
      in if rc_kind target = CALL_BUILTIN
         then compile_builtin_invoke rec (ei_type i) (rc_builtin target) None False args st
         else if is_user_call (rc_kind target)
         then compile_direct_call rec (rc_symbol target) (ei_type i) args st
         else Some (value_of 0 (ei_type i), knc_diag st))"

definition is_block_builtin :: "int \<Rightarrow> bool" where
  "is_block_builtin b \<longleftrightarrow> b = KN_BUILTIN_BLOCK_RUN \<or> b = KN_BUILTIN_BLOCK_JUMP \<or>
     b = KN_BUILTIN_BLOCK_RUN_UNTIL \<or> b = KN_BUILTIN_BLOCK_JUMP_AND_RUN_UNTIL"

definition compile_array_add ::
  "expr_compiler \<Rightarrow> ty \<Rightarrow> expr option \<Rightarrow> expr option list \<Rightarrow> knc_func_state \<Rightarrow> (knc_value \<times> knc_func_state) option" where
  "compile_array_add rec t recv args st = do {
     (r, st) \<leftarrow> rec recv st;
     if fs_errors st > 0 then Some (value_of 0 t, st)
     else case args of
       [a] \<Rightarrow> do {
         (v, st) \<leftarrow> rec a st;
         if fs_errors st > 0 then Some (value_of 0 t, st)
         else do {
           (reg, st) \<leftarrow> alloc_reg st;
           Some (value_of reg t, emit [U8 KNC_OP_ARRAY_ADD, U8 reg, U8 (kv_reg r), U8 (kv_reg v)] st)
         }
       }
     | _ \<Rightarrow> Some (value_of 0 t, knc_diag st)
   }"

definition compile_method_call :: "expr_compiler \<Rightarrow> expr_info \<Rightarrow> expr option \<Rightarrow> expr option list \<Rightarrow>
    knc_func_state \<Rightarrow> (knc_value \<times> knc_func_state) option" where
  "compile_method_call rec i recv args st =
     (let target = ei_call i; t = ei_type i
      in do {
        (r, st) \<leftarrow> rec recv st;
        if fs_errors st > 0 then Some (value_of 0 t, st)
        else if rc_kind target = CALL_DIRECT_METHOD
        then compile_direct_method_call rec
               (program_find_method_function (fs_program st) (rc_owner target) (rc_method target)) t r args st
        else compile_virtual_method_call rec (rc_method target) t r args st
      })"

definition compile_resolved_member_call :: "expr_compiler \<Rightarrow> expr_info \<Rightarrow> expr option \<Rightarrow> expr option list \<Rightarrow>
    knc_func_state \<Rightarrow> (knc_value \<times> knc_func_state) option" where
  "compile_resolved_member_call rec i recv args st =
     (let target = ei_call i; k = rc_kind target; b = rc_builtin target; t = ei_type i
      in if k = CALL_BUILTIN \<and> is_block_builtin b then compile_block_invoke rec recv b args st
         else if k = CALL_BUILTIN \<and> b = KN_BUILTIN_ARRAY_LENGTH
         then do {
           (r, st) \<leftarrow> rec recv st;
           if fs_errors st > 0 then Some (value_of 0 t, st)
           else convert_reg KNC_OP_ARRAY_LENGTH t (kv_reg r) st
         }
         else if k = CALL_BUILTIN \<and> b = KN_BUILTIN_ARRAY_ADD then compile_array_add rec t recv args st
         else if k = CALL_BUILTIN
         then compile_builtin_invoke rec t b recv (recv \<noteq> None \<and> rc_has_receiver target) args st
         else if is_user_call k then compile_direct_call rec (rc_symbol target) t args st
         else if k = CALL_STATIC_METHOD
         then compile_call_func_index rec
                (program_find_method_function (fs_program st) (rc_owner target) (rc_method target)) t args st
         else if k = CALL_DIRECT_METHOD \<or> k = CALL_VIRTUAL_METHOD \<or> k = CALL_INTERFACE_METHOD
         then compile_method_call rec i recv args st
         else Some (value_of 0 t, knc_diag st))"

subsection \<open>Assignments\<close>

text \<open>The stores return the register of the stored value, or -1.\<close>

definition compile_store_member :: "expr_compiler \<Rightarrow> expr option \<Rightarrow> knc_value \<Rightarrow> knc_func_state \<Rightarrow>
    (int \<times> knc_func_state) option" where
  "compile_store_member rec target v st =
     (case target of
        Some (EMember i (Some recv) n is_static ty field_index owner ec ev et) \<Rightarrow>
          (if is_static
           then (let slot = program_find_static_field_slot (fs_program st) owner field_index
                 in if slot < 0 then Some (-1, knc_diag st)
                    else Some (kv_reg v, emit [U8 KNC_OP_STORE_GLOBAL, U8 (kv_reg v), U16 slot] st))
           else do {
             (r, st) \<leftarrow> rec (Some recv) st;
             if fs_errors st > 0 then Some (-1, st)
             else Some (kv_reg v,
               emit [U8 KNC_OP_STORE_FIELD, U8 (kv_reg r), U8 (kv_reg v), U16 field_index] st)
           })
      | _ \<Rightarrow> Some (-1, knc_diag st))"

definition compile_store_index :: "expr_compiler \<Rightarrow> expr option \<Rightarrow> knc_value \<Rightarrow> knc_func_state \<Rightarrow>
    (int \<times> knc_func_state) option" where
  "compile_store_index rec target v st =
     (case target of
        Some (EIndex i recv index _) \<Rightarrow> do {
          (r, st) \<leftarrow> rec recv st;
          (x, st) \<leftarrow> rec index st;
          if fs_errors st > 0 then Some (-1, st)
          else Some (kv_reg v,
            emit [U8 KNC_OP_STORE_INDEX, U8 (kv_reg r), U8 (kv_reg x), U8 (kv_reg v)] st)
        }
      | _ \<Rightarrow> Some (-1, knc_diag st))"

definition compile_store_ptr :: "expr_compiler \<Rightarrow> expr option \<Rightarrow> knc_value \<Rightarrow> knc_func_state \<Rightarrow>
    (int \<times> knc_func_state) option" where
  "compile_store_ptr rec target v st =
     (case target of
        Some (EUnary i oper (Some p) postfix) \<Rightarrow>
          (if oper \<noteq> OP TOK_STAR then Some (-1, knc_diag st)
           else do {
             (ptr, st) \<leftarrow> rec (Some p) st;
             if fs_errors st > 0 then Some (-1, st)
             else Some (kv_reg v, emit [U8 KNC_OP_STORE_PTR, U8 (kv_reg ptr), U8 (kv_reg v)] st)
           })
      | _ \<Rightarrow> Some (-1, knc_diag st))"

definition compile_store_var :: "cstr \<Rightarrow> knc_value \<Rightarrow> knc_func_state \<Rightarrow> int \<times> knc_func_state" where
  "compile_store_var name v st =
     (case find_local st name of
        None \<Rightarrow>
          (let slot = program_find_global_slot (fs_program st) name
           in if slot \<ge> 0 then (kv_reg v, emit [U8 KNC_OP_STORE_GLOBAL, U8 (kv_reg v), U16 slot] st)
              else (-1, knc_diag st))
      | Some loc \<Rightarrow>
          (if kl_storage loc = KNC_LOCAL_VALUE then kl_reg loc else kv_reg v,
           store_local_value loc (kv_reg v) st))"

definition compile_assign_to_local :: "expr_compiler \<Rightarrow> expr option \<Rightarrow> expr option \<Rightarrow> knc_func_state \<Rightarrow>
    (int \<times> knc_func_state) option" where
  "compile_assign_to_local rec target value_expr st = do {
     (v, st) \<leftarrow> rec value_expr st;
     if fs_errors st > 0 then Some (-1, st)
     else case target of
       Some (EVar _ name) \<Rightarrow> Some (compile_store_var name v st)
     | Some (EMember _ _ _ _ _ _ _ _ _ _) \<Rightarrow> compile_store_member rec target v st
     | Some (EIndex _ _ _ _) \<Rightarrow> compile_store_index rec target v st
     | Some (EUnary _ oper _ _) \<Rightarrow>
         (if oper = OP TOK_STAR then compile_store_ptr rec target v st else Some (-1, knc_diag st))
     | _ \<Rightarrow> Some (-1, knc_diag st)
   }"

subsection \<open>Conditions\<close>

definition move_if_other :: "int \<Rightarrow> int \<Rightarrow> knc_func_state \<Rightarrow> knc_func_state" where
  "move_if_other dst src st = (if src \<noteq> dst then emit [U8 KNC_OP_MOVE, U8 dst, U8 src] st else st)"

definition compile_short_circuit :: "expr_compiler \<Rightarrow> bool \<Rightarrow> expr option \<Rightarrow> expr option \<Rightarrow>
    knc_func_state \<Rightarrow> (knc_value \<times> knc_func_state) option" where
  "compile_short_circuit rec is_and left right st = do {
     (reg, st) \<leftarrow> alloc_reg st;
     let out = value_of reg (type_make TY_BOOL);
     (lhs, st) \<leftarrow> rec left st;
     if fs_errors st > 0 then Some (out, st)
     else do {
       let st = emit [U8 KNC_OP_LOAD_BOOL, U8 reg, U8 (if is_and then 0 else 1)] st;
       let (branch, st) = st_branch KNC_OP_JUMP_IF_FALSE (kv_reg lhs) st;
       (to_end, st) \<leftarrow>
         (if is_and then Some (branch, st)
          else do {
            let (to_end, st) = st_jump KNC_OP_JUMP st;
            st \<leftarrow> st_patch branch (st_ip st) st;
            Some (to_end, st)
          });
       (rhs, st) \<leftarrow> rec right st;
       if fs_errors st > 0 then Some (out, st)
       else do {
         let st = emit [U8 KNC_OP_MOVE, U8 reg, U8 (kv_reg rhs)] st;
         st \<leftarrow> st_patch to_end (st_ip st) st;
         Some (out, st)
       }
     }
   }"

definition compile_if_expr :: "expr_compiler \<Rightarrow> ty \<Rightarrow> expr option \<Rightarrow> expr option \<Rightarrow> expr option \<Rightarrow>
    knc_func_state \<Rightarrow> (knc_value \<times> knc_func_state) option" where
  "compile_if_expr rec t cond then_e else_e st = do {
     (reg, st) \<leftarrow> alloc_reg st;
     let out = value_of reg t;
     (c, st) \<leftarrow> rec cond st;
     if fs_errors st > 0 then Some (out, st)
     else do {
       let (else_patch, st) = st_branch KNC_OP_JUMP_IF_FALSE (kv_reg c) st;
       (then_v, st) \<leftarrow> rec then_e st;
       if fs_errors st > 0 then Some (out, st)
       else do {
         let (end_patch, st) = st_jump KNC_OP_JUMP (move_if_other reg (kv_reg then_v) st);
         st \<leftarrow> st_patch else_patch (st_ip st) st;
         (else_v, st) \<leftarrow> rec else_e st;
         if fs_errors st > 0 then Some (out, st)
         else do {
           let st = move_if_other reg (kv_reg else_v) st;
           st \<leftarrow> st_patch end_patch (st_ip st) st;
           Some (out, st)
         }
       }
     }
   }"

definition cmp_false_opcode :: "token_type \<Rightarrow> int option" where
  "cmp_false_opcode t = (case t of
     OP TOK_LT \<Rightarrow> Some KNC_OP_JUMP_IF_INT_LT_FALSE | OP TOK_LE \<Rightarrow> Some KNC_OP_JUMP_IF_INT_LE_FALSE
   | OP TOK_GT \<Rightarrow> Some KNC_OP_JUMP_IF_INT_GT_FALSE | OP TOK_GE \<Rightarrow> Some KNC_OP_JUMP_IF_INT_GE_FALSE
   | OP TOK_EQ \<Rightarrow> Some KNC_OP_JUMP_IF_INT_EQ_FALSE | OP TOK_NE \<Rightarrow> Some KNC_OP_JUMP_IF_INT_NE_FALSE
   | _ \<Rightarrow> None)"

text \<open>The position of the jump taken when the condition is false, or -1.\<close>

definition emit_condition_false_branch ::
  "expr_compiler \<Rightarrow> expr option \<Rightarrow> knc_func_state \<Rightarrow> (int \<times> knc_func_state) option" where
  "emit_condition_false_branch rec cond st =
     (let direct = (case cond of
            Some (EBinary _ oper (Some l) (Some r)) \<Rightarrow>
              (if knc_binary_has_signed_int_comparison_plan cond
               then map_option (\<lambda>opcode. (opcode, l, r)) (cmp_false_opcode oper) else None)
          | _ \<Rightarrow> None)
      in if cond = None then Some (-1, st)
         else case direct of
           Some (opcode, l, r) \<Rightarrow> do {
             (lhs, st) \<leftarrow> rec (Some l) st;
             if fs_errors st > 0 then Some (-1, st)
             else do {
               (rhs, st) \<leftarrow> rec (Some r) st;
               if fs_errors st > 0 then Some (-1, st)
               else Some (st_cmp_branch opcode (kv_reg lhs) (kv_reg rhs) st)
             }
           }
         | None \<Rightarrow> do {
             (v, st) \<leftarrow> rec cond st;
             if fs_errors st > 0 then Some (-1, st)
             else Some (st_branch KNC_OP_JUMP_IF_FALSE (kv_reg v) st)
           })"

subsection \<open>Binary operators\<close>

definition numeric_lowering :: "binary_lowering \<Rightarrow> bool" where
  "numeric_lowering k \<longleftrightarrow> k = BIN_NUMERIC_ARITHMETIC \<or> k = BIN_BITWISE \<or> k = BIN_NUMERIC_COMPARISON"

text \<open>Whether the operator fits the plan made for it by the semantic analysis.\<close>

definition binary_plan_fits :: "resolved_binary \<Rightarrow> token_type \<Rightarrow> bool" where
  "binary_plan_fits b oper = (case rb_kind b of
     BIN_UNRESOLVED \<Rightarrow> False
   | BIN_LOGICAL_SHORT_CIRCUIT \<Rightarrow> oper \<in> {OP TOK_ANDAND, OP TOK_OROR}
   | BIN_NUMERIC_ARITHMETIC \<Rightarrow>
       oper \<in> {OP TOK_PLUS, OP TOK_MINUS, OP TOK_STAR, OP TOK_SLASH, OP TOK_PERCENT}
   | BIN_BITWISE \<Rightarrow> oper \<in> {OP TOK_AMP, OP TOK_BITOR, OP TOK_XOR, OP TOK_SHL, OP TOK_SHR}
   | BIN_NUMERIC_COMPARISON \<Rightarrow>
       oper \<in> {OP TOK_EQ, OP TOK_NE, OP TOK_LT, OP TOK_LE, OP TOK_GT, OP TOK_GE}
   | BIN_STRING_CONCAT \<Rightarrow> oper = OP TOK_PLUS
   | BIN_POINTER_ARITHMETIC \<Rightarrow>
       (oper = OP TOK_PLUS \<or> oper = OP TOK_MINUS) \<and>
       \<not> (oper = OP TOK_MINUS \<and> rb_side b \<noteq> PTR_LHS) \<and> rb_side b \<noteq> PTR_NONE
   | BIN_STRING_EQUALITY \<Rightarrow> oper \<in> {OP TOK_EQ, OP TOK_NE}
   | BIN_REFERENCE_EQUALITY \<Rightarrow> oper \<in> {OP TOK_EQ, OP TOK_NE}
   | BIN_SCALAR_EQUALITY \<Rightarrow> oper \<in> {OP TOK_EQ, OP TOK_NE})"

definition numeric_plan_fits :: "resolved_binary \<Rightarrow> token_type \<Rightarrow> bool" where
  "numeric_plan_fits b oper =
     (let lhs_float = type_is_floatish (rb_lhs b)
      in type_is_floatish (rb_rhs b) = lhs_float \<and>
         \<not> (lhs_float \<and> rb_bits b \<noteq> 0) \<and>
         \<not> (\<not> lhs_float \<and> \<not> knc_binary_integer_bits_valid (rb_bits b)) \<and>
         \<not> (oper = OP TOK_PERCENT \<and> lhs_float))"

text \<open>The index of the right operand in the integer pool when the operator takes it as an immediate.\<close>

definition immediate_allowed :: "resolved_binary \<Rightarrow> token_type \<Rightarrow> bool" where
  "immediate_allowed b oper = (case rb_kind b of
     BIN_NUMERIC_ARITHMETIC \<Rightarrow> oper = OP TOK_PLUS \<or> oper = OP TOK_MINUS \<or> oper = OP TOK_STAR \<or>
       (oper = OP TOK_SLASH \<and> \<not> rb_unsigned b)
   | BIN_BITWISE \<Rightarrow> \<not> (oper = OP TOK_SHR \<and> rb_unsigned b)
   | BIN_NUMERIC_COMPARISON \<Rightarrow> \<not> rb_unsigned b \<and>
       (oper = OP TOK_LT \<or> oper = OP TOK_LE \<or> oper = OP TOK_GT \<or> oper = OP TOK_GE)
   | _ \<Rightarrow> False)"

definition binary_immediate ::
  "resolved_binary \<Rightarrow> token_type \<Rightarrow> expr option \<Rightarrow> knc_func_state \<Rightarrow> int option \<times> knc_func_state" where
  "binary_immediate b oper right st =
     (if numeric_lowering (rb_kind b) \<and> \<not> type_is_floatish (rb_lhs b) \<and>
         value_kind_from_type (rb_rhs b) = KNC_VALUE_INT \<and> immediate_allowed b oper
      then case expr_int_immediate_index (fs_program st) right of
          None \<Rightarrow> (None, st) | Some (i, p) \<Rightarrow> (Some i, st\<lparr> fs_program := p \<rparr>)
      else (None, st))"

definition imm_opcode :: "token_type \<Rightarrow> int option" where
  "imm_opcode t = (case t of
     OP TOK_PLUS \<Rightarrow> Some KNC_OP_ADD_INT_IMM | OP TOK_MINUS \<Rightarrow> Some KNC_OP_SUB_INT_IMM
   | OP TOK_STAR \<Rightarrow> Some KNC_OP_MUL_INT_IMM | OP TOK_SLASH \<Rightarrow> Some KNC_OP_DIV_INT_IMM
   | OP TOK_LT \<Rightarrow> Some KNC_OP_LT_INT_IMM | OP TOK_LE \<Rightarrow> Some KNC_OP_LE_INT_IMM
   | OP TOK_GT \<Rightarrow> Some KNC_OP_GT_INT_IMM | OP TOK_GE \<Rightarrow> Some KNC_OP_GE_INT_IMM
   | OP TOK_AMP \<Rightarrow> Some KNC_OP_BITAND_INT_IMM | OP TOK_BITOR \<Rightarrow> Some KNC_OP_BITOR_INT_IMM
   | OP TOK_XOR \<Rightarrow> Some KNC_OP_BITXOR_INT_IMM | OP TOK_SHL \<Rightarrow> Some KNC_OP_SHL_INT_IMM
   | OP TOK_SHR \<Rightarrow> Some KNC_OP_SHR_INT_IMM | _ \<Rightarrow> None)"

definition width_opcode :: "token_type \<Rightarrow> int option" where
  "width_opcode t = (case t of
     OP TOK_SLASH \<Rightarrow> Some KNC_OP_UDIV_INT | OP TOK_PERCENT \<Rightarrow> Some KNC_OP_UREM_INT
   | OP TOK_LT \<Rightarrow> Some KNC_OP_ULT_INT | OP TOK_LE \<Rightarrow> Some KNC_OP_ULE_INT
   | OP TOK_GT \<Rightarrow> Some KNC_OP_UGT_INT | OP TOK_GE \<Rightarrow> Some KNC_OP_UGE_INT
   | OP TOK_SHR \<Rightarrow> Some KNC_OP_LSHR_INT | _ \<Rightarrow> None)"

definition plain_opcode :: "bool \<Rightarrow> token_type \<Rightarrow> int option" where
  "plain_opcode use_float t = (case t of
     OP TOK_PLUS \<Rightarrow> Some (if use_float then KNC_OP_ADD_FLOAT else KNC_OP_ADD_INT)
   | OP TOK_MINUS \<Rightarrow> Some (if use_float then KNC_OP_SUB_FLOAT else KNC_OP_SUB_INT)
   | OP TOK_STAR \<Rightarrow> Some (if use_float then KNC_OP_MUL_FLOAT else KNC_OP_MUL_INT)
   | OP TOK_SLASH \<Rightarrow> Some (if use_float then KNC_OP_DIV_FLOAT else KNC_OP_DIV_INT)
   | OP TOK_EQ \<Rightarrow> Some KNC_OP_EQ | OP TOK_NE \<Rightarrow> Some KNC_OP_NE
   | OP TOK_LT \<Rightarrow> Some (if use_float then KNC_OP_LT_FLOAT else KNC_OP_LT_INT)
   | OP TOK_LE \<Rightarrow> Some (if use_float then KNC_OP_LE_FLOAT else KNC_OP_LE_INT)
   | OP TOK_GT \<Rightarrow> Some (if use_float then KNC_OP_GT_FLOAT else KNC_OP_GT_INT)
   | OP TOK_GE \<Rightarrow> Some (if use_float then KNC_OP_GE_FLOAT else KNC_OP_GE_INT)
   | OP TOK_AMP \<Rightarrow> Some KNC_OP_BITAND_INT | OP TOK_BITOR \<Rightarrow> Some KNC_OP_BITOR_INT
   | OP TOK_XOR \<Rightarrow> Some KNC_OP_BITXOR_INT | OP TOK_SHL \<Rightarrow> Some KNC_OP_SHL_INT
   | OP TOK_SHR \<Rightarrow> Some KNC_OP_SHR_INT | _ \<Rightarrow> None)"

text \<open>Arithmetic yields the type of the expression, by way of a character when that is one, a comparison a bool.\<close>

definition binary_result ::
  "token_type \<Rightarrow> ty \<Rightarrow> int \<Rightarrow> knc_func_state \<Rightarrow> (knc_value \<times> knc_func_state) option" where
  "binary_result oper t reg st =
     (if oper \<in> {OP TOK_PLUS, OP TOK_MINUS, OP TOK_STAR, OP TOK_SLASH, OP TOK_PERCENT}
      then knc_finish_binary_arithmetic t (value_of reg t) st
      else if oper \<in> {OP TOK_EQ, OP TOK_NE, OP TOK_LT, OP TOK_LE, OP TOK_GT, OP TOK_GE}
      then Some (value_of reg (type_make TY_BOOL), st)
      else Some (value_of reg t, st))"

text \<open>The remainder by way of the quotient; signed only.\<close>

definition emit_signed_remainder :: "int \<Rightarrow> int \<Rightarrow> int \<Rightarrow> knc_func_state \<Rightarrow> knc_func_state option" where
  "emit_signed_remainder out lhs rhs st = do {
     (div_reg, st) \<leftarrow> alloc_reg st;
     (mul_reg, st) \<leftarrow> alloc_reg st;
     Some (emit [U8 KNC_OP_SUB_INT, U8 out, U8 lhs, U8 mul_reg]
       (emit [U8 KNC_OP_MUL_INT, U8 mul_reg, U8 div_reg, U8 rhs]
         (emit [U8 KNC_OP_DIV_INT, U8 div_reg, U8 lhs, U8 rhs] st)))
   }"

definition emit_pointer_op ::
  "pointer_side \<Rightarrow> token_type \<Rightarrow> ty \<Rightarrow> knc_value \<Rightarrow> knc_value \<Rightarrow> int \<Rightarrow> knc_func_state \<Rightarrow>
    (knc_value \<times> knc_func_state) option" where
  "emit_pointer_op side oper t lhs rhs out st =
     (if oper = OP TOK_PLUS
      then (let (p, off) = (if side = PTR_LHS then (lhs, rhs) else (rhs, lhs))
            in Some (value_of out t, emit [U8 KNC_OP_ADD_PTR, U8 out, U8 (kv_reg p), U8 (kv_reg off)] st))
      else do {
        (neg_reg, st) \<leftarrow> alloc_reg st;
        Some (value_of out t,
          emit [U8 KNC_OP_ADD_PTR, U8 out, U8 (kv_reg lhs), U8 neg_reg]
            (emit [U8 KNC_OP_NEG_INT, U8 neg_reg, U8 (kv_reg rhs)] st))
      })"

definition emit_binary_op :: "resolved_binary \<Rightarrow> token_type \<Rightarrow> ty \<Rightarrow> int option \<Rightarrow> knc_value \<Rightarrow> knc_value \<Rightarrow>
    int \<Rightarrow> knc_func_state \<Rightarrow> (knc_value \<times> knc_func_state) option" where
  "emit_binary_op b oper t imm lhs rhs out st =
     (let l = kv_reg lhs; r = kv_reg rhs;
          use_float = (numeric_lowering (rb_kind b) \<and> type_is_floatish (rb_lhs b))
      in if rb_kind b = BIN_POINTER_ARITHMETIC then emit_pointer_op (rb_side b) oper t lhs rhs out st
         else if imm \<noteq> None \<and> imm_opcode oper \<noteq> None
         then binary_result oper t out
                (emit [U8 (the (imm_opcode oper)), U8 out, U8 l, U16 (the imm)] st)
         else if rb_unsigned b \<and> width_opcode oper \<noteq> None
         then binary_result oper t out
                (emit_width_binary_op (the (width_opcode oper)) out l r (rb_bits b) st)
         else if oper = OP TOK_PERCENT
         then do { st \<leftarrow> emit_signed_remainder out l r st; binary_result oper t out st }
         else case plain_opcode use_float oper of
           Some opcode \<Rightarrow> binary_result oper t out (emit [U8 opcode, U8 out, U8 l, U8 r] st)
         | None \<Rightarrow> Some (value_of out t, knc_diag st))"

text \<open>The operands of pointer arithmetic: the one that is no pointer becomes an integer.\<close>

definition pointer_offset :: "resolved_binary \<Rightarrow> knc_value \<Rightarrow> knc_value \<Rightarrow> knc_func_state \<Rightarrow>
    ((knc_value \<times> knc_value) \<times> knc_func_state) option" where
  "pointer_offset b lhs rhs st =
     (if rb_kind b \<noteq> BIN_POINTER_ARITHMETIC then Some ((lhs, rhs), st)
      else if rb_side b = PTR_LHS
      then do { (rhs, st) \<leftarrow> knc_coerce_binary_numeric_operand rhs (rb_rhs b) st; Some ((lhs, rhs), st) }
      else do { (lhs, st) \<leftarrow> knc_coerce_binary_numeric_operand lhs (rb_lhs b) st; Some ((lhs, rhs), st) })"

definition coerce_operand :: "resolved_binary \<Rightarrow> ty \<Rightarrow> knc_value \<Rightarrow> knc_func_state \<Rightarrow>
    (knc_value \<times> knc_func_state) option" where
  "coerce_operand b t v st =
     (if numeric_lowering (rb_kind b) then knc_coerce_binary_numeric_operand v t st else Some (v, st))"

text \<open>From the loaded left operand on.\<close>

definition compile_binary_rest :: "expr_compiler \<Rightarrow> expr_info \<Rightarrow> token_type \<Rightarrow> knc_value \<Rightarrow> expr option \<Rightarrow>
    knc_func_state \<Rightarrow> (knc_value \<times> knc_func_state) option" where
  "compile_binary_rest rec i oper lhs right st =
     (let b = ei_binary i; t = ei_type i; out = value_of (-1) t
      in do {
        (lhs, st) \<leftarrow> coerce_operand b (rb_lhs b) lhs st;
        let (imm, st) = binary_immediate b oper right st;
        (rhs, st) \<leftarrow>
          (if imm \<noteq> None then Some (value_of (-1) (expr_type right), st)
           else do {
             (rhs, st) \<leftarrow> rec right st;
             if fs_errors st > 0 then Some (rhs, st) else coerce_operand b (rb_rhs b) rhs st
           });
        if fs_errors st > 0 then Some (out, st)
        else do {
          ((lhs, rhs), st) \<leftarrow> pointer_offset b lhs rhs st;
          if fs_errors st > 0 then Some (out, st)
          else if rb_kind b = BIN_STRING_CONCAT
          then do { (v, st) \<leftarrow> emit_string_concat lhs rhs st; Some (v\<lparr> kv_type := t \<rparr>, st) }
          else do { (reg, st) \<leftarrow> alloc_reg st; emit_binary_op b oper t imm lhs rhs reg st }
        }
      })"

text \<open>Only binary expressions carry a resolved plan; on any other node the routine reports the missing one.\<close>

definition compile_binary_expr :: "expr_compiler \<Rightarrow> expr option \<Rightarrow> knc_value option \<Rightarrow> knc_func_state \<Rightarrow>
    (knc_value \<times> knc_func_state) option" where
  "compile_binary_expr rec e loaded st =
     (case e of
        Some (EBinary i oper left right) \<Rightarrow>
          (let b = ei_binary i; out = value_of (-1) (ei_type i)
           in if \<not> binary_plan_fits b oper then Some (out, knc_diag st)
              else if rb_kind b = BIN_LOGICAL_SHORT_CIRCUIT
              then compile_short_circuit rec (oper = OP TOK_ANDAND) left right st
              else if numeric_lowering (rb_kind b) \<and> \<not> numeric_plan_fits b oper then Some (out, knc_diag st)
              else do {
                (lhs, st) \<leftarrow> (case loaded of Some v \<Rightarrow> Some (v, st) | None \<Rightarrow> rec left st);
                if fs_errors st > 0 then Some (out, st)
                else compile_binary_rest rec i oper lhs right st
              })
      | _ \<Rightarrow> Some (value_of (-1) (expr_type e), knc_diag st))"

subsection \<open>Variables and members\<close>

text \<open>The index and type of a field of the receiver's type, -1 when there is none.\<close>

definition self_field :: "cstr \<Rightarrow> knc_func_state \<Rightarrow> (int \<times> ty option) option" where
  "self_field name st =
     (let p = fs_program st; t = fs_self_type st
      in if \<not> fs_has_this st then Some (-1, None)
         else if ty_kind t = TY_CLASS
         then class_find_field_index p (program_find_class p (ty_name t)) name
         else if ty_kind t = TY_STRUCT
         then Some (struct_find_field_index (program_find_struct p (ty_name t)) name)
         else Some (-1, None))"

definition load_receiver :: "knc_func_state \<Rightarrow> (int \<times> knc_func_state) option" where
  "load_receiver st = (case find_local st (Some ''This'') of
     None \<Rightarrow> None | Some loc \<Rightarrow> load_local_value loc st)"

definition compile_var :: "ty \<Rightarrow> cstr \<Rightarrow> knc_func_state \<Rightarrow> (knc_value \<times> knc_func_state) option" where
  "compile_var t name st =
     (case find_local st name of
        Some loc \<Rightarrow> do { (reg, st) \<leftarrow> load_local_value loc st; Some (value_of reg (kl_type loc), st) }
      | None \<Rightarrow> do {
          (index, field_type) \<leftarrow> self_field name st;
          if index \<ge> 0
          then do {
            (receiver, st) \<leftarrow> load_receiver st;
            (reg, st) \<leftarrow> alloc_reg st;
            Some (value_of reg (case field_type of None \<Rightarrow> type_make TY_UNKNOWN | Some ft \<Rightarrow> ft),
              emit [U8 KNC_OP_LOAD_FIELD, U8 reg, U8 receiver, U16 index] st)
          }
          else
            let slot = program_find_global_slot (fs_program st) name
            in if slot \<ge> 0
               then do {
                 (reg, st) \<leftarrow> alloc_reg st;
                 Some (value_of reg (program_find_global_type (fs_program st) name),
                   emit [U8 KNC_OP_LOAD_GLOBAL, U8 reg, U16 slot] st)
               }
               else Some (value_of (-1) t, knc_diag st)
        })"

definition compile_this :: "ty \<Rightarrow> knc_func_state \<Rightarrow> (knc_value \<times> knc_func_state) option" where
  "compile_this t st = (case find_local st (Some ''This'') of
     None \<Rightarrow> Some (value_of (-1) t, knc_diag st)
   | Some loc \<Rightarrow> do { (reg, st) \<leftarrow> load_local_value loc st; Some (value_of reg t, st) })"

definition compile_int :: "int \<Rightarrow> ty \<Rightarrow> int \<Rightarrow> knc_func_state \<Rightarrow> (knc_value \<times> knc_func_state) option" where
  "compile_int opcode t v st = do {
     (reg, st) \<leftarrow> alloc_reg st;
     Some (value_of reg t, load_int opcode reg (to_c_int v) st)
   }"

definition compile_member :: "expr_compiler \<Rightarrow> expr \<Rightarrow> knc_func_state \<Rightarrow> (knc_value \<times> knc_func_state) option" where
  "compile_member rec e st =
     (case e of EMember i recv n is_static ty field_index owner is_enum enum_value et \<Rightarrow>
        (let t = ei_type i
         in if is_enum
            then do {
              (v, st) \<leftarrow> compile_int KNC_OP_LOAD_INT t enum_value st;
              knc_normalize_integer_cast v t st
            }
            else if is_static
            then (let slot = program_find_static_field_slot (fs_program st) owner field_index
                  in if slot < 0 then Some (value_of (-1) t, knc_diag st)
                     else do {
                       (reg, st) \<leftarrow> alloc_reg st;
                       Some (value_of reg t, emit [U8 KNC_OP_LOAD_GLOBAL, U8 reg, U16 slot] st)
                     })
            else do {
              (r, st) \<leftarrow> rec recv st;
              if fs_errors st > 0 then Some (value_of (-1) t, st)
              else do {
                (reg, st) \<leftarrow> alloc_reg st;
                Some (value_of reg t, emit [U8 KNC_OP_LOAD_FIELD, U8 reg, U8 (kv_reg r), U16 field_index] st)
              }
            })
      | _ \<Rightarrow> None)"

subsection \<open>Unary operators\<close>

definition local_address :: "knc_local \<Rightarrow> int \<Rightarrow> knc_func_state \<Rightarrow> knc_func_state option" where
  "local_address loc out st = (case kl_storage loc of
     KNC_LOCAL_CAPTURE \<Rightarrow> do {
       (cell_reg, st) \<leftarrow> alloc_reg st;
       Some (emit [U8 KNC_OP_MAKE_PTR_CELL, U8 out, U8 cell_reg]
         (emit [U8 KNC_OP_LOAD_CAPTURE_CELL, U8 cell_reg, U16 (kl_capture_slot loc)] st))
     }
   | KNC_LOCAL_CELL \<Rightarrow> Some (emit [U8 KNC_OP_MAKE_PTR_CELL, U8 out, U8 (kl_reg loc)] st)
   | KNC_LOCAL_VALUE \<Rightarrow> Some (emit [U8 KNC_OP_MAKE_PTR_LOCAL, U8 out, U8 (kl_reg loc)] st))"

definition compile_address :: "expr_compiler \<Rightarrow> ty \<Rightarrow> expr option \<Rightarrow> knc_func_state \<Rightarrow>
    (knc_value \<times> knc_func_state) option" where
  "compile_address rec t src st = do {
     (reg, st) \<leftarrow> alloc_reg st;
     let out = value_of reg t;
     (case src of
        Some (EFuncRef _ qname _ _) \<Rightarrow>
          (let func_index = (if qname \<noteq> None then program_find_function (fs_program st) qname else -1)
           in if func_index < 0 then Some (out, knc_diag st)
              else Some (out, emit [U8 KNC_OP_MAKE_PTR_FUNC, U8 reg, U16 func_index] st))
      | Some (EVar _ name) \<Rightarrow>
          (case find_local st name of
             Some loc \<Rightarrow> do { st \<leftarrow> local_address loc reg st; Some (out, st) }
           | None \<Rightarrow>
               (let slot = program_find_global_slot (fs_program st) name
                in if slot \<ge> 0 then Some (out, emit [U8 KNC_OP_MAKE_PTR_GLOBAL, U8 reg, U16 slot] st)
                   else Some (out, knc_diag st)))
      | Some (EIndex _ recv index _) \<Rightarrow> do {
          (r, st) \<leftarrow> rec recv st;
          (x, st) \<leftarrow> rec index st;
          if fs_errors st > 0 then Some (out, st)
          else Some (out, emit [U8 KNC_OP_MAKE_PTR_INDEX, U8 reg, U8 (kv_reg r), U8 (kv_reg x)] st)
        }
      | Some (EMember _ recv _ is_static _ field_index _ _ _ _) \<Rightarrow>
          (if is_static then Some (out, knc_diag st)
           else do {
             (r, st) \<leftarrow> rec recv st;
             if fs_errors st > 0 then Some (out, st)
             else Some (out, emit [U8 KNC_OP_MAKE_PTR_FIELD, U8 reg, U8 (kv_reg r), U16 field_index] st)
           })
      | _ \<Rightarrow> Some (out, knc_diag st))
   }"

definition compile_convert :: "expr_compiler \<Rightarrow> (ty \<Rightarrow> int) \<Rightarrow> ty \<Rightarrow> expr option \<Rightarrow> knc_func_state \<Rightarrow>
    (knc_value \<times> knc_func_state) option" where
  "compile_convert rec opcode t e st = do {
     (v, st) \<leftarrow> rec e st;
     if fs_errors st > 0 then Some (value_of (-1) t, st)
     else convert_reg (opcode (kv_type v)) t (kv_reg v) st
   }"

definition compile_unary :: "expr_compiler \<Rightarrow> ty \<Rightarrow> token_type \<Rightarrow> expr option \<Rightarrow> bool \<Rightarrow> knc_func_state \<Rightarrow>
    (knc_value \<times> knc_func_state) option" where
  "compile_unary rec t oper e is_postfix st =
     (if oper = OP TOK_PLUSPLUS \<or> oper = OP TOK_MINUSMINUS
      then compile_incdec t (oper = OP TOK_PLUSPLUS) e is_postfix st
      else if oper = OP TOK_STAR then compile_convert rec (\<lambda>_. KNC_OP_LOAD_PTR) t e st
      else if oper = OP TOK_AMP then compile_address rec t e st
      else if oper = OP TOK_MINUS
      then compile_convert rec (\<lambda>vt. if type_is_floatish vt then KNC_OP_NEG_FLOAT else KNC_OP_NEG_INT) t e st
      else if oper = OP TOK_NOT then compile_convert rec (\<lambda>_. KNC_OP_NOT_BOOL) t e st
      else if oper = OP TOK_TILDE then compile_convert rec (\<lambda>_. KNC_OP_BITNOT_INT) t e st
      else Some (value_of (-1) t, knc_diag st))"

text \<open>
  A compound assignment loads and stores through a pointer, so that its target is evaluated once. A
  static field goes the way of a plain assignment.
\<close>

definition is_static_member :: "expr option \<Rightarrow> bool" where
  "is_static_member e = (case e of Some (EMember _ _ _ s _ _ _ _ _ _) \<Rightarrow> s | _ \<Rightarrow> False)"

definition compile_assign :: "expr_compiler \<Rightarrow> ty \<Rightarrow> expr option \<Rightarrow> expr option \<Rightarrow> bool \<Rightarrow> knc_func_state \<Rightarrow>
    (knc_value \<times> knc_func_state) option" where
  "compile_assign rec t target value_expr is_compound st =
     (if is_compound \<and> target \<noteq> None \<and> \<not> is_static_member target
      then do {
        (pointer, st) \<leftarrow>
          (case target of
             Some (EUnary _ oper p _) \<Rightarrow>
               (if oper = OP TOK_STAR then rec p st
                else compile_address rec (type_ptr (ty_kind (expr_type target))) target st)
           | _ \<Rightarrow> compile_address rec (type_ptr (ty_kind (expr_type target))) target st);
        if fs_errors st > 0 then Some (value_of (-1) t, st)
        else do {
          (previous, st) \<leftarrow> convert_reg KNC_OP_LOAD_PTR (expr_type target) (kv_reg pointer) st;
          (v, st) \<leftarrow> compile_binary_expr rec value_expr (Some previous) st;
          if fs_errors st > 0 then Some (value_of (-1) t, st)
          else Some (value_of (kv_reg v) t,
            emit [U8 KNC_OP_STORE_PTR, U8 (kv_reg pointer), U8 (kv_reg v)] st)
        }
      }
      else do {
        (reg, st) \<leftarrow> compile_assign_to_local rec target value_expr st;
        Some (value_of reg t, st)
      })"

subsection \<open>Arrays, packages and switches\<close>

text \<open>
  The loop over the \<open>n\<close> elements from index \<open>i\<close> on: the items that are given, then default values.
\<close>

fun store_items :: "expr_compiler \<Rightarrow> (nat \<Rightarrow> ty) \<Rightarrow> int \<Rightarrow> nat \<Rightarrow> nat \<Rightarrow> expr option list \<Rightarrow> knc_func_state \<Rightarrow>
    knc_func_state option" where
  "store_items rec tys out i 0 items st = Some st"
| "store_items rec tys out i (Suc n) items st = do {
     (idx, st) \<leftarrow> emit_int_const_reg (int i) st;
     (item, st) \<leftarrow> (case items of e # _ \<Rightarrow> rec e st
       | [] \<Rightarrow> do {
           (reg, st) \<leftarrow> alloc_reg st;
           st \<leftarrow> emit_default_value reg (tys i) st;
           Some (value_of reg (tys i), st)
         });
     if fs_errors st > 0 then Some st
     else store_items rec tys out (i + 1) n (tl items)
            (emit [U8 KNC_OP_STORE_INDEX, U8 out, U8 idx, U8 (kv_reg item)] st)
   }"

definition compile_items :: "expr_compiler \<Rightarrow> ty \<Rightarrow> int \<Rightarrow> value_kind \<Rightarrow> (nat \<Rightarrow> ty) \<Rightarrow> expr option list \<Rightarrow>
    knc_func_state \<Rightarrow> (knc_value \<times> knc_func_state) option" where
  "compile_items rec t len kind tys items st = do {
     (reg, st) \<leftarrow> alloc_reg st;
     (len_reg, st) \<leftarrow> emit_int_const_reg len st;
     st \<leftarrow> store_items rec tys reg 0 (nat len) items
       (emit [U8 KNC_OP_NEW_ARRAY, U8 reg, U8 len_reg, U8 (value_kind_code kind)] st);
     Some (value_of reg t, st)
   }"

definition compile_array :: "expr_compiler \<Rightarrow> ty \<Rightarrow> expr option list \<Rightarrow> knc_func_state \<Rightarrow>
    (knc_value \<times> knc_func_state) option" where
  "compile_array rec t items st =
     (let len = (if ty_kind t = TY_ARRAY \<and> ty_array_len t \<ge> 0 then to_c_int (ty_array_len t)
                 else int (length items))
      in compile_items rec t len (value_kind_from_type (elem_of t)) (\<lambda>_. elem_of t) items st)"

definition compile_package :: "expr_compiler \<Rightarrow> ty \<Rightarrow> expr option list \<Rightarrow> knc_func_state \<Rightarrow>
    (knc_value \<times> knc_func_state) option" where
  "compile_package rec t items st =
     compile_items rec t (int (length (ty_package t))) KNC_VALUE_NULL (\<lambda>i. ty_package t ! i) items st"

text \<open>
  The positions of the jumps to the end and the body of the last default, or nothing on an early return.
\<close>

fun switch_cases :: "expr_compiler \<Rightarrow> int \<Rightarrow> int \<Rightarrow> (expr option \<times> expr option \<times> bool) list \<Rightarrow>
    int list \<Rightarrow> expr option \<Rightarrow> knc_func_state \<Rightarrow> ((int list \<times> expr option) option \<times> knc_func_state) option" where
  "switch_cases rec out sv [] ends d st = Some (Some (ends, d), st)"
| "switch_cases rec out sv ((match, body, is_default) # cs) ends d st =
     (if is_default then switch_cases rec out sv cs ends body st
      else do {
        (m, st) \<leftarrow> rec match st;
        if fs_errors st > 0 then Some (None, st)
        else do {
          (cond, st) \<leftarrow> alloc_reg st;
          let (next_patch, st) = st_branch KNC_OP_JUMP_IF_FALSE cond
            (emit [U8 KNC_OP_EQ, U8 cond, U8 sv, U8 (kv_reg m)] st);
          (b, st) \<leftarrow> rec body st;
          if fs_errors st > 0 then Some (None, st)
          else do {
            let (end_patch, st) = st_jump KNC_OP_JUMP (move_if_other out (kv_reg b) st);
            st \<leftarrow> st_patch next_patch (st_ip st) st;
            switch_cases rec out sv cs (ends @ [end_patch]) d st
          }
        }
      })"

definition compile_switch_expr :: "expr_compiler \<Rightarrow> ty \<Rightarrow> expr option \<Rightarrow>
    (expr option \<times> expr option \<times> bool) list \<Rightarrow> knc_func_state \<Rightarrow> (knc_value \<times> knc_func_state) option" where
  "compile_switch_expr rec t e cases st = do {
     (sv, st) \<leftarrow> rec e st;
     if fs_errors st > 0 then Some (value_of (-1) t, st)
     else do {
       (reg, st) \<leftarrow> alloc_reg st;
       (r, st) \<leftarrow> switch_cases rec reg (kv_reg sv) cases [] None st;
       case r of None \<Rightarrow> Some (value_of reg t, st)
       | Some (ends, d) \<Rightarrow> do {
           st \<leftarrow> (if d = None then Some st
                  else do { (dv, st) \<leftarrow> rec d st;
                            Some (if fs_errors st > 0 then st else move_if_other reg (kv_reg dv) st) });
           if d \<noteq> None \<and> fs_errors st > 0 then Some (value_of reg t, st)
           else do { st \<leftarrow> st_patch_all ends (st_ip st) st; Some (value_of reg t, st) }
         }
     }
   }"

subsection \<open>Elements, objects and closures\<close>

definition compile_index :: "expr_compiler \<Rightarrow> ty \<Rightarrow> expr option \<Rightarrow> expr option \<Rightarrow> knc_func_state \<Rightarrow>
    (knc_value \<times> knc_func_state) option" where
  "compile_index rec t recv index st = do {
     (r, st) \<leftarrow> rec recv st;
     (x, st) \<leftarrow> rec index st;
     if fs_errors st > 0 then Some (value_of (-1) t, st)
     else do {
       (reg, st) \<leftarrow> alloc_reg st;
       Some (value_of reg t, emit [U8 KNC_OP_LOAD_INDEX, U8 reg, U8 (kv_reg r), U8 (kv_reg x)] st)
     }
   }"

definition compile_new :: "expr_compiler \<Rightarrow> ty \<Rightarrow> cstr \<Rightarrow> int \<Rightarrow> expr option list \<Rightarrow> knc_func_state \<Rightarrow>
    (knc_value \<times> knc_func_state) option" where
  "compile_new rec t class_name ctor_index args st =
     (let type_index = program_find_type (fs_program st) class_name;
          ctor = program_find_method_function (fs_program st) class_name ctor_index
      in do {
        (reg, st) \<leftarrow> alloc_reg st;
        let out = value_of reg t;
        if type_index < 0 then Some (out, knc_diag st)
        else (let st = emit [U8 KNC_OP_NEW_OBJECT, U8 reg, U16 type_index] st
              in if ctor_index \<ge> 0
                 then do {
                   (_, st) \<leftarrow> compile_direct_method_call rec ctor (type_make TY_VOID) out args st;
                   Some (out, st)
                 }
                 else Some (out, st))
      })"

definition FUNCTION_CLASS :: cstr where
  "FUNCTION_CLASS = Some ''IO.Type.Object.Function''"

text \<open>The kind and index of the target: 0 for a function record, 1 for a routine of the machine.\<close>

definition func_ref_target :: "knc_program \<Rightarrow> int \<Rightarrow> cstr \<Rightarrow> int \<times> int" where
  "func_ref_target p builtin_id qname =
     (if builtin_id \<noteq> -1 then (1, map_builtin_id builtin_id)
      else if qname \<noteq> None
      then (let i = program_find_function p qname
            in if i \<ge> 0
               then (let intrinsic = record_knc_intrinsic_id (Some (kp_funcs p ! nat i))
                     in if intrinsic \<ge> 0 then (1, intrinsic) else (0, i))
               else (1, map_runtime_extern_symbol qname))
      else (0, -1))"

definition compile_func_ref :: "ty \<Rightarrow> int \<Rightarrow> cstr \<Rightarrow> knc_func_state \<Rightarrow> (knc_value \<times> knc_func_state) option" where
  "compile_func_ref t builtin_id qname st =
     (let type_index = program_find_type (fs_program st) FUNCTION_CLASS
      in do {
        (reg, st) \<leftarrow> alloc_reg st;
        let (kind, index) = func_ref_target (fs_program st) builtin_id qname;
        Some (value_of reg t,
          if type_index < 0 \<or> index < 0 then knc_diag st
          else emit_make_function reg type_index kind index 255
                 (if kind = 0 then st_mark_function index st else st))
      })"

text \<open>A closure: the function record, the register, then the environment of the captured cells.\<close>

definition compile_closure :: "ty \<Rightarrow> int \<Rightarrow> int \<Rightarrow> (knc_func_state \<Rightarrow> knc_capture list) \<Rightarrow> int \<Rightarrow>
    knc_func_state \<Rightarrow> (knc_value \<times> knc_func_state) option" where
  "compile_closure t type_index func_index captures minimum st = do {
     (reg, st) \<leftarrow> alloc_reg st;
     let out = value_of reg t;
     if type_index < 0 \<or> func_index < 0 then Some (out, knc_diag st)
     else do {
       (env_reg, st) \<leftarrow> build_capture_env (captures st) minimum st;
       Some (out, if fs_errors st > 0 then st
                  else emit_make_function reg type_index 0 func_index env_reg st)
     }
   }"

definition compile_anon_func :: "expr \<Rightarrow> knc_func_state \<Rightarrow> (knc_value \<times> knc_func_state) option" where
  "compile_anon_func e st =
     (let type_index = program_find_type (fs_program st) FUNCTION_CLASS;
          (func_index, st) = ensure_anon_function_record e st
      in compile_closure (ei_type (e_info e)) type_index func_index
           (\<lambda>st. collect_visible_captures st []) 0 st)"

definition compile_block_literal :: "expr \<Rightarrow> knc_func_state \<Rightarrow> (knc_value \<times> knc_func_state) option" where
  "compile_block_literal e st =
     (let type_index = program_find_type (fs_program st) (Some ''IO.Type.Object.Block'');
          (func_index, st) = ensure_block_function_record e st
      in compile_closure (ei_type (e_info e)) type_index func_index block_captures 1 st)"

text \<open>A known function is called directly, any other callee must be a function object.\<close>

definition compile_closure_call :: "expr_compiler \<Rightarrow> ty \<Rightarrow> expr option \<Rightarrow> expr option list \<Rightarrow>
    knc_func_state \<Rightarrow> (knc_value \<times> knc_func_state) option" where
  "compile_closure_call rec t callee args st =
     (let out = value_of (-1) t
      in do {
        (c, st) \<leftarrow> rec callee st;
        if fs_errors st > 0 then Some (out, st)
        else if \<not> (ty_kind (kv_type c) = TY_CLASS \<and> name_is (ty_name (kv_type c)) FUNCTION_CLASS)
        then Some (out, knc_diag st)
        else do {
          r \<leftarrow> compile_args rec 4 [] args st;
          with_args out (\<lambda>regs st. do {
            (reg, st) \<leftarrow> (if ty_kind t = TY_VOID then Some (255, st) else alloc_reg st);
            Some (value_of reg t,
              emit [U8 KNC_OP_CALL_CLOSURE, U8 reg, U8 (kv_reg c), U8 (int (length regs)),
                    U8 (reg_arg regs 0), U8 (reg_arg regs 1), U8 (reg_arg regs 2), U8 (reg_arg regs 3)] st)
          }) r
        }
      })"

definition compile_invoke :: "expr_compiler \<Rightarrow> ty \<Rightarrow> expr option \<Rightarrow> expr option list \<Rightarrow> knc_func_state \<Rightarrow>
    (knc_value \<times> knc_func_state) option" where
  "compile_invoke rec t callee args st =
     (case callee of
        Some (EFuncRef _ qname builtin_id _) \<Rightarrow>
          (if builtin_id \<noteq> -1 then compile_builtin_invoke rec t builtin_id None False args st
           else if qname \<noteq> None then compile_direct_call rec qname t args st
           else compile_closure_call rec t callee args st)
      | _ \<Rightarrow> compile_closure_call rec t callee args st)"

subsection \<open>Casts\<close>

text \<open>The conversions that are one instruction, in the order in which the routine tries the targets.\<close>

definition to_string_opcode :: "ty \<Rightarrow> int option" where
  "to_string_opcode s =
     (if ty_kind s \<in> {TY_INT, TY_I8, TY_I16, TY_I32, TY_I64, TY_U8, TY_U16, TY_U32, TY_U64, TY_ISIZE,
                       TY_USIZE, TY_ENUM} then Some KNC_OP_INT_TO_STRING
      else if ty_kind s = TY_BOOL then Some KNC_OP_BOOL_TO_STRING
      else if ty_kind s = TY_CHAR then Some KNC_OP_CHAR_TO_STRING
      else if type_is_floatish s then Some KNC_OP_FLOAT_TO_STRING
      else None)"

definition to_int_opcode :: "ty \<Rightarrow> int option" where
  "to_int_opcode s =
     (if ty_kind s = TY_STRING then Some KNC_OP_STRING_TO_INT
      else if ty_kind s = TY_CHAR then Some KNC_OP_CHAR_TO_INT
      else if ty_kind s = TY_BOOL then Some KNC_OP_BOOL_TO_INT
      else if type_is_floatish s then Some KNC_OP_FLOAT_TO_INT
      else None)"

text \<open>Into the register \<open>out\<close>, by way of a fresh register.\<close>

definition convert_via :: "int \<Rightarrow> int \<Rightarrow> int \<Rightarrow> int \<Rightarrow> knc_func_state \<Rightarrow> knc_func_state option" where
  "convert_via first second out reg st = do {
     (int_reg, st) \<leftarrow> alloc_reg st;
     Some (emit [U8 second, U8 out, U8 int_reg] (emit [U8 first, U8 int_reg, U8 reg] st))
   }"

definition cast_to_char :: "knc_value \<Rightarrow> int \<Rightarrow> knc_func_state \<Rightarrow> knc_func_state option" where
  "cast_to_char v out st =
     (if type_is_integerish (kv_type v) then Some (emit [U8 KNC_OP_INT_TO_CHAR, U8 out, U8 (kv_reg v)] st)
      else if ty_kind (kv_type v) = TY_STRING
      then Some (emit [U8 KNC_OP_STRING_TO_CHAR, U8 out, U8 (kv_reg v)] st)
      else if type_is_floatish (kv_type v)
      then convert_via KNC_OP_FLOAT_TO_INT KNC_OP_INT_TO_CHAR out (kv_reg v) st
      else Some (knc_diag st))"

definition cast_to_float :: "knc_value \<Rightarrow> int \<Rightarrow> knc_func_state \<Rightarrow> knc_func_state option" where
  "cast_to_float v out st =
     (if type_is_integerish (kv_type v) then Some (emit [U8 KNC_OP_INT_TO_FLOAT, U8 out, U8 (kv_reg v)] st)
      else if ty_kind (kv_type v) = TY_CHAR
      then convert_via KNC_OP_CHAR_TO_INT KNC_OP_INT_TO_FLOAT out (kv_reg v) st
      else if ty_kind (kv_type v) = TY_BOOL
      then Some (emit [U8 KNC_OP_BOOL_TO_FLOAT, U8 out, U8 (kv_reg v)] st)
      else if ty_kind (kv_type v) = TY_STRING
      then Some (emit [U8 KNC_OP_STRING_TO_FLOAT, U8 out, U8 (kv_reg v)] st)
      else Some (knc_diag st))"

definition cast_to_bool :: "knc_value \<Rightarrow> int \<Rightarrow> knc_func_state \<Rightarrow> knc_func_state option" where
  "cast_to_bool v out st =
     (if ty_kind (kv_type v) = TY_STRING
      then Some (emit [U8 KNC_OP_STRING_TO_BOOL, U8 out, U8 (kv_reg v)] st)
      else if type_is_floatish (kv_type v)
      then Some (emit [U8 KNC_OP_FLOAT_TO_BOOL, U8 out, U8 (kv_reg v)] st)
      else if ty_kind (kv_type v) = TY_CHAR
      then do {
        (int_reg, st) \<leftarrow> alloc_reg st;
        (zero_reg, st) \<leftarrow> alloc_reg st;
        let st = load_int KNC_OP_LOAD_INT zero_reg 0
          (emit [U8 KNC_OP_CHAR_TO_INT, U8 int_reg, U8 (kv_reg v)] st);
        Some (emit [U8 KNC_OP_NE, U8 out, U8 int_reg, U8 zero_reg] st)
      }
      else if type_is_integerish (kv_type v)
      then do {
        (zero_reg, st) \<leftarrow> emit_int_const_reg 0 st;
        Some (emit [U8 KNC_OP_NE, U8 out, U8 (kv_reg v), U8 zero_reg] st)
      }
      else Some (knc_diag st))"

definition cast_into :: "ty \<Rightarrow> knc_value \<Rightarrow> int \<Rightarrow> knc_func_state \<Rightarrow> (knc_value \<times> knc_func_state) option" where
  "cast_into t v out st =
     (let res = value_of out t; src = kv_type v
      in if ty_kind t = TY_STRING
         then Some (res, case to_string_opcode src of
             Some opcode \<Rightarrow> emit [U8 opcode, U8 out, U8 (kv_reg v)] st | None \<Rightarrow> knc_diag st)
         else if ty_kind t = TY_CHAR then do { st \<leftarrow> cast_to_char v out st; Some (res, st) }
         else if type_is_integerish t
         then (case to_int_opcode src of
             Some opcode \<Rightarrow> Some (res, emit [U8 opcode, U8 out, U8 (kv_reg v)] st)
           | None \<Rightarrow>
               if type_is_integerish src
               then knc_normalize_integer_cast res t (emit [U8 KNC_OP_MOVE, U8 out, U8 (kv_reg v)] st)
               else Some (res, knc_diag st))
         else if type_is_floatish t then do { st \<leftarrow> cast_to_float v out st; Some (res, st) }
         else if ty_kind t = TY_BOOL then do { st \<leftarrow> cast_to_bool v out st; Some (res, st) }
         else Some (res, knc_diag st))"

fun copy_items :: "int \<Rightarrow> int \<Rightarrow> nat \<Rightarrow> nat \<Rightarrow> knc_func_state \<Rightarrow> knc_func_state option" where
  "copy_items out src i 0 st = Some st"
| "copy_items out src i (Suc n) st = do {
     (idx, st) \<leftarrow> alloc_reg st;
     (item, st) \<leftarrow> alloc_reg st;
     let st = load_int KNC_OP_LOAD_INT idx (int i) st;
     copy_items out src (i + 1) n
       (emit [U8 KNC_OP_STORE_INDEX, U8 out, U8 idx, U8 item]
         (emit [U8 KNC_OP_LOAD_INDEX, U8 item, U8 src, U8 idx] st))
   }"

definition cast_package_to_array :: "ty \<Rightarrow> knc_value \<Rightarrow> knc_func_state \<Rightarrow>
    (knc_value \<times> knc_func_state) option" where
  "cast_package_to_array t v st =
     (let n = length (ty_package (kv_type v))
      in do {
        (len_reg, st) \<leftarrow> alloc_reg st;
        (reg, st) \<leftarrow> alloc_reg st;
        let st = load_int KNC_OP_LOAD_INT len_reg (int n) st;
        st \<leftarrow> copy_items reg (kv_reg v) 0 n
          (emit [U8 KNC_OP_NEW_ARRAY, U8 reg, U8 len_reg,
                 U8 (value_kind_code (value_kind_from_type (elem_of t)))] st);
        Some (value_of reg t, st)
      })"

definition cast_value :: "ty \<Rightarrow> knc_value \<Rightarrow> knc_func_state \<Rightarrow> (knc_value \<times> knc_func_state) option" where
  "cast_value t v st =
     (let src = kv_type v
      in if knc_type_equal src t then Some (value_of (kv_reg v) t, st)
         else if ty_kind t = TY_CLASS \<and> ty_kind src \<in> {TY_CLASS, TY_NULL, TY_ANY}
         then emit_checked_object_cast v t st
         else if ty_kind t = TY_STRING \<and> ty_kind src = TY_ANY then emit_stringify_value v st
         else if ty_kind t = TY_ARRAY \<and> ty_kind src = TY_PACKAGE then cast_package_to_array t v st
         else do { (out, st) \<leftarrow> alloc_reg st; cast_into t v out st })"

definition compile_cast :: "expr_compiler \<Rightarrow> ty \<Rightarrow> expr option \<Rightarrow> int \<Rightarrow> cstr \<Rightarrow> knc_func_state \<Rightarrow>
    (knc_value \<times> knc_func_state) option" where
  "compile_cast rec t e method_index owner st =
     (if owner \<noteq> None \<and> method_index \<ge> 0
      then compile_call_func_index rec
             (program_find_method_function (fs_program st) owner method_index) t [e] st
      else do {
        (v, st) \<leftarrow> rec e st;
        if fs_errors st > 0 then Some (value_of (-1) t, st)
        else do {
          (v, st) \<leftarrow> (if ty_kind (kv_type v) = TY_ENUM
                      then knc_normalize_integer_cast v (kv_type v) st else Some (v, st));
          cast_value t v st
        }
      })"

definition compile_is :: "expr_compiler \<Rightarrow> ty \<Rightarrow> expr option \<Rightarrow> ty \<Rightarrow> knc_func_state \<Rightarrow>
    (knc_value \<times> knc_func_state) option" where
  "compile_is rec t e target st = do {
     (v, st) \<leftarrow> rec e st;
     if fs_errors st > 0 then Some (value_of (-1) t, st)
     else compile_is_check_from_value v target st
   }"

subsection \<open>Expressions\<close>

definition compile_leaf :: "ty \<Rightarrow> (int \<Rightarrow> knc_func_state \<Rightarrow> knc_func_state option) \<Rightarrow> knc_func_state \<Rightarrow>
    (knc_value \<times> knc_func_state) option" where
  "compile_leaf t f st = do {
     (reg, st) \<leftarrow> alloc_reg st;
     st \<leftarrow> f reg st;
     Some (value_of reg t, st)
   }"

definition load_float :: "int \<Rightarrow> u64 \<Rightarrow> knc_func_state \<Rightarrow> knc_func_state" where
  "load_float reg v st = (let (i, st) = st_add_float v st in emit [U8 KNC_OP_LOAD_FLOAT, U8 reg, U16 i] st)"

definition load_string :: "int \<Rightarrow> cstr \<Rightarrow> knc_func_state \<Rightarrow> knc_func_state" where
  "load_string reg v st =
     (let (i, st) = st_add_string (if v = None then Some [] else v) st
      in emit [U8 KNC_OP_LOAD_STRING, U8 reg, U16 i] st)"

definition compile_node :: "expr_compiler \<Rightarrow> expr \<Rightarrow> knc_func_state \<Rightarrow> (knc_value \<times> knc_func_state) option" where
  "compile_node rec e st =
     (let t = ei_type (e_info e)
      in case e of
        EInt _ v \<Rightarrow> compile_int KNC_OP_LOAD_INT t v st
      | EFloat _ v \<Rightarrow> compile_leaf t (\<lambda>reg st. Some (load_float reg v st)) st
      | EBool _ v \<Rightarrow>
          compile_leaf t (\<lambda>reg st. Some (emit [U8 KNC_OP_LOAD_BOOL, U8 reg, U8 (if v \<noteq> 0 then 1 else 0)] st)) st
      | EChar _ v \<Rightarrow> compile_int KNC_OP_LOAD_CHAR t v st
      | EString _ s \<Rightarrow> compile_leaf t (\<lambda>reg st. Some (load_string reg s st)) st
      | ENull _ \<Rightarrow> compile_leaf t (\<lambda>reg. emit_default_value reg t) st
      | EDefault _ \<Rightarrow> compile_leaf t (\<lambda>reg. emit_default_value reg t) st
      | EThis _ \<Rightarrow> compile_this t st
      | EBase _ \<Rightarrow> compile_this t st
      | EArray _ items \<Rightarrow> compile_array rec t items st
      | EPackage _ items \<Rightarrow> compile_package rec t items st
      | EVar _ name \<Rightarrow> compile_var t name st
      | EMember _ _ _ _ _ _ _ _ _ _ \<Rightarrow> compile_member rec e st
      | EAssign _ target v is_compound \<Rightarrow> compile_assign rec t target v is_compound st
      | EUnary _ oper x is_postfix \<Rightarrow> compile_unary rec t oper x is_postfix st
      | EBinary _ _ _ _ \<Rightarrow> compile_binary_expr rec (Some e) None st
      | EIf _ c a b \<Rightarrow> compile_if_expr rec t c a b st
      | ESwitch _ v cases \<Rightarrow> compile_switch_expr rec t v cases st
      | EIs _ x target \<Rightarrow> compile_is rec t x target st
      | ECall i _ args _ _ _ \<Rightarrow> compile_resolved_call rec i args st
      | EMemberCall i recv _ args _ _ _ _ _ _ _ _ _ \<Rightarrow> compile_resolved_member_call rec i recv args st
      | EIndex _ recv index _ \<Rightarrow> compile_index rec t recv index st
      | ENew _ c args _ ctor \<Rightarrow> compile_new rec t c ctor args st
      | EFuncRef _ qname b _ \<Rightarrow> compile_func_ref t b qname st
      | EAnonFunc _ _ _ _ _ _ _ _ \<Rightarrow> compile_anon_func e st
      | EBlockLit _ _ _ _ _ _ \<Rightarrow> compile_block_literal e st
      | EInvoke _ callee args _ \<Rightarrow> compile_invoke rec t callee args st
      | ECast _ _ x m owner \<Rightarrow> compile_cast rec t x m owner st
      | EDict _ _ _ \<Rightarrow> Some (value_of (-1) t, knc_diag st)
      | EAwait _ _ \<Rightarrow> Some (value_of (-1) t, knc_diag st))"

definition compile_step :: "expr_compiler \<Rightarrow> expr_compiler" where
  "compile_step rec e st =
     (case e of None \<Rightarrow> Some (value_of (-1) (type_make TY_UNKNOWN), knc_diag st)
      | Some x \<Rightarrow> compile_node rec x st)"

function compile_expr :: "expr_compiler" where
  "compile_expr e st =
     compile_step (\<lambda>x s. if expr_measure x < expr_measure e then compile_expr x s else None) e st"
  by pat_completeness auto

termination
  by (relation "measure (\<lambda>(e, _). expr_measure e)") auto

declare compile_expr.simps [simp del]

end
