(* ===== verification/KncExprTerm.thy ===== *)
theory KncExprTerm
  imports KncExpr
begin

text \<open>
  The compiler of expressions is total and obeys the equation of the C code: the recursive calls are
  all on smaller expressions, so that the guard by which its recursion ends is never seen.
\<close>

definition agree :: "nat \<Rightarrow> expr_compiler \<Rightarrow> expr_compiler \<Rightarrow> bool" where
  "agree n f g \<longleftrightarrow> (\<forall>e st. expr_measure e < n \<longrightarrow> f e st = g e st)"

lemma agreeD: "agree n f g \<Longrightarrow> expr_measure e < n \<Longrightarrow> f e st = g e st"
  by (simp add: agree_def)

lemmas step_cong = Option.bind_cong prod.case_cong option.case_cong if_cong

lemma args_agree:
  assumes "agree n f g" "exprs_measure es \<le> n"
  shows "compile_args f limit regs es = compile_args g limit regs es"
proof
  show "compile_args f limit regs es st = compile_args g limit regs es st" for st
    using assms(2)
    by (induction es arbitrary: regs st) (simp_all add: agreeD [OF assms(1)] cong: step_cong)
qed

lemma print_parts_agree:
  assumes "agree n f g" "exprs_measure es \<le> n"
  shows "print_parts f sep j es = print_parts g sep j es"
proof
  show "print_parts f sep j es st = print_parts g sep j es st" for st
    using assms(2)
    by (induction es arbitrary: j st) (simp_all add: agreeD [OF assms(1)] cong: step_cong)
qed

lemma print_agree:
  assumes "agree n f g" "exprs_measure es \<le> n"
  shows "compile_print f t b es = compile_print g t b es"
  by (rule ext) (simp add: compile_print_def print_parts_agree [OF assms])

lemma builtin_invoke_agree:
  assumes "agree n f g" "exprs_measure es \<le> n" "expr_measure recv < n"
  shows "compile_builtin_invoke f t b recv is_inst es = compile_builtin_invoke g t b recv is_inst es"
proof -
  have "exprs_measure (if c then [recv] else []) \<le> n" for c using assms(3) by simp
  note * = args_agree [OF assms(1) this] args_agree [OF assms(1,2)] print_agree [OF assms(1,2)]
  show ?thesis by (rule ext) (simp only: compile_builtin_invoke_def *)
qed

lemma direct_calls_agree:
  assumes "agree n f g" "exprs_measure es \<le> n"
  shows "compile_direct_call f name t es = compile_direct_call g name t es"
    and "compile_call_func_index f i t es = compile_call_func_index g i t es"
    and "compile_direct_method_call f i t v es = compile_direct_method_call g i t v es"
    and "compile_virtual_method_call f i t v es = compile_virtual_method_call g i t v es"
  by (rule ext, simp add: compile_direct_call_def compile_call_func_index_def
        compile_direct_method_call_def compile_indexed_call_def compile_virtual_method_call_def
        args_agree [OF assms] cong: if_cong)+

lemma block_invoke_agree:
  assumes "agree n f g" "exprs_measure es \<le> n" "expr_measure recv < n"
  shows "compile_block_invoke f recv b es = compile_block_invoke g recv b es"
  by (rule ext) (simp add: compile_block_invoke_def agreeD [OF assms(1,3)] args_agree [OF assms(1,2)]
        cong: if_cong)

lemma array_add_agree:
  assumes "agree n f g" "exprs_measure es \<le> n" "expr_measure recv < n"
  shows "compile_array_add f t recv es = compile_array_add g t recv es"
proof
  show "compile_array_add f t recv es st = compile_array_add g t recv es st" for st
    using assms(2) unfolding compile_array_add_def
    by (cases es) (auto simp: agreeD [OF assms(1)] agreeD [OF assms(1,3)]
        intro!: Option.bind_cong split: list.splits)
qed

lemma method_call_agree:
  assumes "agree n f g" "exprs_measure es \<le> n" "expr_measure recv < n"
  shows "compile_method_call f i recv es = compile_method_call g i recv es"
  by (rule ext) (simp add: compile_method_call_def agreeD [OF assms(1,3)] direct_calls_agree [OF assms(1,2)]
        cong: if_cong)

lemma resolved_call_agree:
  assumes "agree n f g" "exprs_measure es \<le> n" "1 < n"
  shows "compile_resolved_call f i es = compile_resolved_call g i es"
proof -
  have "expr_measure None < n" using assms(3) by simp
  note * = builtin_invoke_agree [OF assms(1,2) this] direct_calls_agree [OF assms(1,2)]
  show ?thesis by (rule ext) (simp only: compile_resolved_call_def *)
qed

lemma resolved_member_call_agree:
  assumes "agree n f g" "exprs_measure es \<le> n" "expr_measure recv < n"
  shows "compile_resolved_member_call f i recv es = compile_resolved_member_call g i recv es"
  by (rule ext) (simp add: compile_resolved_member_call_def direct_calls_agree [OF assms(1,2)]
        builtin_invoke_agree [OF assms] method_call_agree [OF assms] array_add_agree [OF assms]
        block_invoke_agree [OF assms] agreeD [OF assms(1,3)] cong: if_cong)

lemma stores_agree:
  assumes "agree n f g" "expr_measure e < n"
  shows "compile_store_member f e v = compile_store_member g e v"
    and "compile_store_index f e v = compile_store_index g e v"
    and "compile_store_ptr f e v = compile_store_ptr g e v"
  by (rule ext, use assms in \<open>auto simp: compile_store_member_def compile_store_index_def
      compile_store_ptr_def agreeD [OF assms(1)] split: option.splits expr.splits intro!: Option.bind_cong\<close>)+

lemma assign_to_local_agree:
  assumes "agree n f g" "expr_measure e < n" "expr_measure v < n"
  shows "compile_assign_to_local f e v = compile_assign_to_local g e v"
  by (rule ext) (simp only: compile_assign_to_local_def agreeD [OF assms(1,3)] stores_agree [OF assms(1,2)])

lemma conditions_agree:
  assumes "agree n f g" "expr_measure l < n" "expr_measure r < n"
  shows "compile_short_circuit f b l r = compile_short_circuit g b l r"
    and "expr_measure c < n \<Longrightarrow> compile_if_expr f t c l r = compile_if_expr g t c l r"
  by (rule ext, simp add: compile_short_circuit_def compile_if_expr_def agreeD [OF assms(1)] assms
        cong: step_cong)+

lemma binary_rest_agree:
  assumes "agree n f g" "expr_measure r < n"
  shows "compile_binary_rest f i oper v r = compile_binary_rest g i oper v r"
  by (rule ext) (simp add: compile_binary_rest_def agreeD [OF assms] cong: step_cong)

lemma binary_agree:
  assumes "agree n f g" "expr_measure e \<le> n"
  shows "compile_binary_expr f e v = compile_binary_expr g e v"
proof
  show "compile_binary_expr f e v st = compile_binary_expr g e v st" for st
  proof (cases "\<exists>i oper l r. e = Some (EBinary i oper l r)")
    case True
    then obtain i oper l r where e: "e = Some (EBinary i oper l r)" by blast
    with assms(2) have s: "expr_measure l < n" "expr_measure r < n" by auto
    show ?thesis
      by (simp add: compile_binary_expr_def e agreeD [OF assms(1) s(1)] binary_rest_agree [OF assms(1) s(2)]
            conditions_agree [OF assms(1) s] cong: if_cong option.case_cong)
  next
    case False
    then show ?thesis by (auto simp: compile_binary_expr_def split: option.splits expr.splits)
  qed
qed


lemma address_agree:
  assumes "agree n f g" "expr_measure e \<le> n"
  shows "compile_address f t e = compile_address g t e"
  by (rule ext, use assms(2) in \<open>auto simp: compile_address_def Let_def agreeD [OF assms(1)]
      split: option.splits expr.splits intro!: Option.bind_cong\<close>)

lemma unary_agree:
  assumes "agree n f g" "expr_measure e < n"
  shows "compile_unary f t oper e b = compile_unary g t oper e b"
proof -
  have "expr_measure e \<le> n" using assms(2) by simp
  note * = address_agree [OF assms(1) this] agreeD [OF assms]
  show ?thesis by (rule ext) (simp only: compile_unary_def compile_convert_def *)
qed

lemma assign_agree:
  assumes "agree n f g" "expr_measure e < n" "expr_measure v < n"
  shows "compile_assign f t e v b = compile_assign g t e v b"
proof -
  have "expr_measure e \<le> n" "expr_measure v \<le> n" using assms(2,3) by simp_all
  note * = address_agree [OF assms(1) this(1)] binary_agree [OF assms(1) this(2)]
    assign_to_local_agree [OF assms]
  have p: "e = Some (EUnary i oper p x) \<Longrightarrow> f p st = g p st" for i oper p x st
    using assms(2) by (intro agreeD [OF assms(1)]) simp
  show ?thesis
  proof (cases "\<exists>i oper q x. e = Some (EUnary i oper q x)")
    case True
    then obtain i oper q x where e: "e = Some (EUnary i oper q x)" by blast
    from * p [OF e] show ?thesis unfolding e by (intro ext) (simp only: compile_assign_def option.case expr.case)
  next
    case False
    then have "(case e of Some (EUnary _ oper q _) \<Rightarrow> A oper q | _ \<Rightarrow> B) = B" for A :: "_ \<Rightarrow> _ \<Rightarrow> (knc_value \<times> knc_func_state) option" and B
      by (auto split: option.splits expr.splits)
    with * show ?thesis by (intro ext) (simp only: compile_assign_def)
  qed
qed

lemma store_items_agree:
  assumes "agree n f g" "exprs_measure es \<le> n"
  shows "store_items f tys out i m es st = store_items g tys out i m es st"
  using assms(2)
proof (induction m arbitrary: i es st)
  case (Suc m)
  then show ?case
    by (cases es) (auto simp: agreeD [OF assms(1)] intro!: Option.bind_cong)
qed simp

lemma items_agree:
  assumes "agree n f g" "exprs_measure es \<le> n"
  shows "compile_items f t len k tys es = compile_items g t len k tys es"
  by (rule ext) (simp add: compile_items_def store_items_agree [OF assms])

lemma cases_agree:
  assumes "agree n f g" "expr_cases_measure cs \<le> n"
  shows "switch_cases f out sv cs ends d = switch_cases g out sv cs ends d"
  using assms(2)
proof (induction cs arbitrary: ends d)
  case (Cons c cs)
  obtain match body is_default where c: "c = (match, body, is_default)" by (cases c)
  with Cons.prems have m: "expr_measure match < n" "expr_measure body < n" "expr_cases_measure cs \<le> n"
    by auto
  show ?case
    by (rule ext) (simp only: c switch_cases.simps agreeD [OF assms(1) m(1)] agreeD [OF assms(1) m(2)] Cons.IH [OF m(3)])
qed (simp add: fun_eq_iff)

lemma cases_default:
  assumes "switch_cases f out sv cs ends d st = Some (Some (ends', d'), st')"
    and "expr_cases_measure cs \<le> n" "expr_measure d < n"
  shows "expr_measure d' < n"
  using assms
proof (induction cs arbitrary: ends d st)
  case (Cons c cs)
  obtain match body is_default where c: "c = (match, body, is_default)" by (cases c)
  with Cons.prems(2) have m: "expr_measure body < n" "expr_cases_measure cs \<le> n" by auto
  show ?case using Cons.prems(1,3) Cons.IH [OF _ m(2)] m(1)
    by (cases is_default) (auto simp: c Let_def split: Option.bind_split_asm if_split_asm prod.splits)
qed simp

lemma switch_agree:
  assumes "agree n f g" "expr_cases_measure cs \<le> n" "expr_measure e < n" "1 < n"
  shows "compile_switch_expr f t e cs = compile_switch_expr g t e cs"
proof -
  have "expr_measure None < n" using assms(4) by simp
  note d = cases_default [OF _ assms(2) this]
  note * = cases_agree [OF assms(1,2)] agreeD [OF assms(1,3)]
  show ?thesis 
    by (rule ext) (auto simp: compile_switch_expr_def * agreeD [OF assms(1) d] split: option.splits intro!: Option.bind_cong)
qed


lemma is_cast_agree:
  assumes "agree n f g" "expr_measure e < n" "1 < n"
  shows "compile_is f t e tg = compile_is g t e tg"
    and "exprs_measure [e] \<le> n \<Longrightarrow> compile_cast f t e m owner = compile_cast g t e m owner"
   apply (rule ext, simp only: compile_is_def agreeD [OF assms(1,2)])
  apply (rule ext, simp only: compile_cast_def agreeD [OF assms(1,2)] direct_calls_agree [OF assms(1)])
  done

lemma invoke_agree:
  assumes "agree n f g" "exprs_measure es \<le> n" "expr_measure e < n" "1 < n"
  shows "compile_invoke f t e es = compile_invoke g t e es"
proof -
  have "expr_measure None < n" using assms(4) by simp
  note * = builtin_invoke_agree [OF assms(1,2) this] direct_calls_agree [OF assms(1,2)]
  have **: "compile_closure_call f t e es = compile_closure_call g t e es"
    by (rule ext) (simp only: compile_closure_call_def agreeD [OF assms(1,3)] args_agree [OF assms(1,2)])
  show ?thesis by (rule ext) (simp only: compile_invoke_def * **)
qed

lemma index_agree:
  assumes "agree n f g" "expr_measure a < n" "expr_measure b < n"
  shows "compile_index f t a b = compile_index g t a b"
  by (rule ext) (simp only: compile_index_def agreeD [OF assms(1,2)] agreeD [OF assms(1,3)])

lemma new_agree:
  assumes "agree n f g" "exprs_measure es \<le> n"
  shows "compile_new f t c k es = compile_new g t c k es"
  by (rule ext) (simp only: compile_new_def direct_calls_agree [OF assms])

lemma member_agree:
  assumes "agree n f g" "expr_measure (Some e) \<le> n"
  shows "compile_member f e = compile_member g e"
  by (rule ext, use assms(2) in \<open>auto simp: compile_member_def Let_def agreeD [OF assms(1)] split: expr.splits\<close>)

lemma node_agree:
  assumes "agree n f g" "expr_measure (Some e) \<le> n"
  shows "compile_node f e = compile_node g e"
proof
  note a = assms(1)
  show "compile_node f e st = compile_node g e st" for st
    using assms(2) unfolding compile_node_def Let_def
    by (cases e) (simp_all add: compile_array_def compile_package_def items_agree [OF a] 
       member_agree [OF a] assign_agree [OF a] unary_agree [OF a] binary_agree [OF a] conditions_agree [OF a]
       switch_agree [OF a] is_cast_agree [OF a] resolved_call_agree [OF a] resolved_member_call_agree [OF a]
       index_agree [OF a] new_agree [OF a] invoke_agree [OF a])
qed

text \<open>The equation of the C function.\<close>

lemma step_agree:
  assumes "agree n f g" "expr_measure e \<le> n"
  shows "compile_step f e st = compile_step g e st"
proof (cases e)
  case (Some x)
  then show ?thesis using node_agree [OF assms(1), of x] assms(2) by (simp add: compile_step_def)
qed (simp add: compile_step_def)

lemma compile_expr_unfold: "compile_expr e st = compile_step compile_expr e st"
proof -
  have "agree (expr_measure e) (\<lambda>x s. if expr_measure x < expr_measure e then compile_expr x s else None) compile_expr"
    by (simp add: agree_def)
  from step_agree [OF this order_refl] show ?thesis by (subst compile_expr.simps)
qed

lemma rounds_agree: "agree n ((compile_step ^^ n) bottom) compile_expr"
proof (induction n)
  case (Suc n)
  show ?case unfolding agree_def
  proof (intro allI impI)
    fix e st
    assume "expr_measure e < Suc n"
    then have "expr_measure e \<le> n" by simp
    from step_agree [OF Suc.IH this] show "(compile_step ^^ Suc n) bottom e st = compile_expr e st"
      by (simp add: compile_expr_unfold [of e st])
  qed
qed (simp add: agree_def)

text \<open>
  C5: the recursion of the expression compiler ends on every expression. One round of its body is
  \<open>compile_step\<close>, its recursive calls left to a parameter; after more rounds than the size of the
  expression no recursive call is left, since the result is the same whatever compiler \<open>bottom\<close>
  stands for the calls that remain. So the equation of the C function has one solution only.
\<close>

theorem compile_expr_terminates:
  "(expr_measure e < n \<longrightarrow> (compile_step ^^ n) bottom e st = compile_expr e st) \<and>
   ((\<forall>x s. other x s = compile_step other x s) \<longleftrightarrow> other = compile_expr)"
proof (intro conjI impI iffI)
  show "expr_measure e < n \<Longrightarrow> (compile_step ^^ n) bottom e st = compile_expr e st"
    using rounds_agree agreeD by blast
  assume o: "\<forall>x s. other x s = compile_step other x s"
  have "compile_step other = other" by (intro ext) (rule o [rule_format, symmetric])
  then have rounds: "(compile_step ^^ k) other = other" for k by (induction k) simp_all
  show "other = compile_expr"
  proof (intro ext)
    fix x s
    have "(compile_step ^^ Suc (expr_measure x)) other x s = compile_expr x s"
      using agreeD [OF rounds_agree] by blast
    then show "other x s = compile_expr x s" unfolding rounds .
  qed
qed (use compile_expr_unfold in blast)

text \<open>The expression \<open>-5\<close> in an empty function.\<close>

definition empty_state :: knc_func_state where
  "empty_state = \<lparr> fs_program = \<lparr> kp_funcs = [], kp_ints = [], kp_floats = [], kp_strings = [], kp_types = [],
       kp_globals = [], kp_static_fields = [], kp_entry = -1, kp_main_entry = -1, kp_superloop = False,
       kp_classes = [], kp_interfaces = [], kp_structs = [], kp_enums = [] \<rparr>,
     fs_func_index = 0, fs_code = [], fs_locals = [], fs_plan = None, fs_loops = [],
     fs_self_type = type_make TY_VOID, fs_has_this = False, fs_next_reg = 0, fs_max_reg = 0,
     fs_in_block = False, fs_start_reg = 0, fs_until_reg = 0, fs_body_ip = 0, fs_block_records = None,
     fs_start_patches = [], fs_record_patches = [], fs_record_addrs = [], fs_errors = 0,
     fs_block_nodes = (\<lambda>_. (0, 0)) \<rparr>"

definition minus_five :: "expr option" where
  "minus_five = Some (EUnary ((new_expr 1 1 1)\<lparr> ei_type := type_make TY_INT \<rparr>) (OP TOK_MINUS)
     (Some (EInt ((new_expr 2 1 2)\<lparr> ei_type := type_make TY_INT \<rparr>) 5)) False)"

theorem compile_expr_terminates_witness:
  "map_option (\<lambda>(v, s). (kv_reg v, kp_ints (fs_program s), fs_errors s)) (compile_expr minus_five empty_state) =
     Some (1, [5], 0)"
proof -
  let ?round = "(compile_step ^^ 8) (\<lambda>_ _. None) minus_five empty_state"
  have "expr_measure minus_five < 8" by (simp add: minus_five_def)
  then have "?round = compile_expr minus_five empty_state" using compile_expr_terminates by blast
  moreover have "map_option (\<lambda>(v, s). (kv_reg v, kp_ints (fs_program s), fs_errors s)) ?round = Some (1, [5], 0)"
    by code_simp
  ultimately show ?thesis by (simp only:)
qed

end
