(* ===== verification/KncLoops.thy ===== *)
theory KncLoops
  imports KncExpr
begin

text \<open>
  The recognition of counting loops in \<open>apps/kinal/src/kn_knc.c\<close>. A matcher looks at the syntax tree
  and the locals only. A loop that is an increment, a sum, an array fill or an array sum becomes one
  instruction (a superloop); the back edge of any other counting loop becomes one that increments,
  compares and jumps. A matcher gives what the C routine leaves in its output arguments, or nothing
  where it returns 0.
\<close>

definition knc_stmt_is_empty_block :: "stmt option \<Rightarrow> bool" where
  "knc_stmt_is_empty_block s = (case s of Some (SBlock _ ss) \<Rightarrow> ss = [] | _ \<Rightarrow> False)"

definition knc_reverse_cmp_op :: "token_type \<Rightarrow> token_type" where
  "knc_reverse_cmp_op oper = (case oper of
     OP TOK_LT \<Rightarrow> OP TOK_GT | OP TOK_LE \<Rightarrow> OP TOK_GE | OP TOK_GT \<Rightarrow> OP TOK_LT
   | OP TOK_GE \<Rightarrow> OP TOK_LE | _ \<Rightarrow> oper)"

text \<open>A constant, or a combination of constants and of variables other than the loop's.\<close>

function knc_expr_is_superloop_pure :: "expr option \<Rightarrow> cstr \<Rightarrow> bool" where
  "knc_expr_is_superloop_pure e loop_name =
     (case e of
        Some (EInt _ _) \<Rightarrow> True | Some (EFloat _ _) \<Rightarrow> True | Some (EBool _ _) \<Rightarrow> True
      | Some (EString _ _) \<Rightarrow> True | Some (EChar _ _) \<Rightarrow> True
      | Some (EVar _ name) \<Rightarrow> loop_name = None \<or> kn_strcmp name loop_name \<noteq> 0
      | Some (EUnary _ oper x _) \<Rightarrow>
          oper \<in> {OP TOK_PLUS, OP TOK_MINUS, OP TOK_NOT, OP TOK_TILDE} \<and>
          knc_expr_is_superloop_pure x loop_name
      | Some (EBinary _ oper l r) \<Rightarrow>
          oper \<in> {OP TOK_PLUS, OP TOK_MINUS, OP TOK_STAR, OP TOK_SLASH} \<and>
          knc_expr_is_superloop_pure l loop_name \<and> knc_expr_is_superloop_pure r loop_name
      | _ \<Rightarrow> False)"
  by pat_completeness auto

termination
  by (relation "measure (\<lambda>(e, _). expr_measure e)") auto

declare knc_expr_is_superloop_pure.simps [simp del]

definition knc_expr_is_int_const :: "expr option \<Rightarrow> int \<Rightarrow> bool" where
  "knc_expr_is_int_const e v = (case e of Some (EInt _ x) \<Rightarrow> x = v | _ \<Rightarrow> False)"

definition knc_select_loop_op :: "int \<Rightarrow> token_type \<Rightarrow> bool \<Rightarrow> int option" where
  "knc_select_loop_op delta_sign cmp_op is_backedge =
     (let pick = (\<lambda>back plain. Some (if is_backedge then back else plain))
      in if delta_sign > 0
         then (case cmp_op of
             OP TOK_EQ \<Rightarrow> pick KNC_OP_LOOP_BACK_INT_EQ_INC KNC_OP_LOOP_INT_EQ_INC
           | OP TOK_NE \<Rightarrow> pick KNC_OP_LOOP_BACK_INT_NE_INC KNC_OP_LOOP_INT_NE_INC
           | OP TOK_LT \<Rightarrow> pick KNC_OP_LOOP_BACK_INT_LT_INC KNC_OP_LOOP_INT_LT_INC
           | OP TOK_LE \<Rightarrow> pick KNC_OP_LOOP_BACK_INT_LE_INC KNC_OP_LOOP_INT_LE_INC
           | _ \<Rightarrow> None)
         else if delta_sign < 0
         then (case cmp_op of
             OP TOK_EQ \<Rightarrow> pick KNC_OP_LOOP_BACK_INT_EQ_DEC KNC_OP_LOOP_INT_EQ_DEC
           | OP TOK_NE \<Rightarrow> pick KNC_OP_LOOP_BACK_INT_NE_DEC KNC_OP_LOOP_INT_NE_DEC
           | OP TOK_GT \<Rightarrow> pick KNC_OP_LOOP_BACK_INT_GT_DEC KNC_OP_LOOP_INT_GT_DEC
           | OP TOK_GE \<Rightarrow> pick KNC_OP_LOOP_BACK_INT_GE_DEC KNC_OP_LOOP_INT_GE_DEC
           | _ \<Rightarrow> None)
         else None)"

subsection \<open>The update of the counter\<close>

definition is_var_named :: "expr option \<Rightarrow> cstr \<Rightarrow> bool" where
  "is_var_named e name = (case e of Some (EVar _ n) \<Rightarrow> kn_strcmp n name = 0 | _ \<Rightarrow> False)"

text \<open>The counter lives in a register of its own and is an integer.\<close>

definition counter_local :: "knc_func_state \<Rightarrow> cstr \<Rightarrow> knc_local option" where
  "counter_local st name = (case find_local st name of
     Some l \<Rightarrow> (if kl_storage l = KNC_LOCAL_VALUE \<and> type_is_integerish (kl_type l) then Some l else None)
   | None \<Rightarrow> None)"

definition knc_match_loop_update_name_and_value ::
  "knc_func_state \<Rightarrow> cstr \<Rightarrow> expr option \<Rightarrow> (knc_local \<times> int) option" where
  "knc_match_loop_update_name_and_value st loop_name v =
     (case v of Some (EBinary _ oper left right) \<Rightarrow>
        (if loop_name = None then None
         else case counter_local st loop_name of None \<Rightarrow> None
         | Some l \<Rightarrow>
             (if left = None \<or> right = None then None
              else if oper = OP TOK_PLUS
              then if is_var_named left loop_name \<and> knc_expr_is_int_const right 1 then Some (l, 1)
                else if is_var_named right loop_name \<and> knc_expr_is_int_const left 1 then Some (l, 1)
                else None
              else if oper = OP TOK_MINUS
              then if is_var_named left loop_name \<and> knc_expr_is_int_const right 1 then Some (l, -1) else None
              else None))
      | _ \<Rightarrow> None)"

definition knc_match_loop_update_expr :: "knc_func_state \<Rightarrow> expr option \<Rightarrow> (knc_local \<times> int) option" where
  "knc_match_loop_update_expr st post =
     (case post of
        Some (EUnary _ oper (Some (EVar _ loop_name)) _) \<Rightarrow>
          (if oper = OP TOK_PLUSPLUS then map_option (\<lambda>l. (l, 1)) (counter_local st loop_name)
           else if oper = OP TOK_MINUSMINUS then map_option (\<lambda>l. (l, -1)) (counter_local st loop_name)
           else None)
      | Some (EAssign _ (Some (EVar _ name)) v _) \<Rightarrow> knc_match_loop_update_name_and_value st name v
      | _ \<Rightarrow> None)"

definition knc_match_loop_update_stmt :: "knc_func_state \<Rightarrow> stmt option \<Rightarrow> (knc_local \<times> int) option" where
  "knc_match_loop_update_stmt st post =
     (case post of
        Some (SAssign _ name v) \<Rightarrow> knc_match_loop_update_name_and_value st name v
      | Some (SExpr _ e) \<Rightarrow> knc_match_loop_update_expr st e
      | _ \<Rightarrow> None)"

text \<open>The operand that is not the counter, and the operator as seen from the counter.\<close>

definition loop_limit :: "expr option \<Rightarrow> knc_local \<Rightarrow> (expr option \<times> token_type) option" where
  "loop_limit cond l =
     (case cond of Some (EBinary _ cmp_op left right) \<Rightarrow>
        (if left = None \<or> right = None then None
         else if \<not> knc_binary_has_signed_int_comparison_plan cond then None
         else
           let limit = (if is_var_named left (kl_name l) then Some (right, cmp_op)
                        else if is_var_named right (kl_name l)
                        then Some (left, knc_reverse_cmp_op cmp_op) else None)
           in (case limit of None \<Rightarrow> None
               | Some (e, oper) \<Rightarrow>
                   (if knc_expr_is_superloop_pure e (kl_name l) then Some (e, oper) else None)))
      | _ \<Rightarrow> None)"

definition knc_match_loop_cond ::
  "expr option \<Rightarrow> knc_local \<Rightarrow> int \<Rightarrow> bool \<Rightarrow> (expr option \<times> int) option" where
  "knc_match_loop_cond cond l delta_sign is_backedge =
     (case loop_limit cond l of None \<Rightarrow> None
      | Some (limit, cmp_op) \<Rightarrow>
          map_option (\<lambda>oper. (limit, oper)) (knc_select_loop_op delta_sign cmp_op is_backedge))"

text \<open>Whether the limit itself is counted.\<close>

definition knc_match_superloop_inc_cond :: "expr option \<Rightarrow> knc_local \<Rightarrow> (expr option \<times> bool) option" where
  "knc_match_superloop_inc_cond cond l =
     (case loop_limit cond l of None \<Rightarrow> None
      | Some (limit, cmp_op) \<Rightarrow>
          (if cmp_op = OP TOK_LT then Some (limit, False)
           else if cmp_op = OP TOK_LE then Some (limit, True) else None))"

subsection \<open>Bodies\<close>

definition knc_local_is_raw_int_array :: "knc_local \<Rightarrow> bool" where
  "knc_local_is_raw_int_array l \<longleftrightarrow>
     kl_storage l = KNC_LOCAL_VALUE \<and> ty_kind (kl_type l) = TY_ARRAY \<and>
     value_kind_from_type (elem_of (kl_type l)) = KNC_VALUE_INT"

definition knc_extract_var_assignment :: "stmt option \<Rightarrow> (cstr \<times> expr option) option" where
  "knc_extract_var_assignment s =
     (case s of
        Some (SAssign _ name v) \<Rightarrow> (if name \<noteq> None \<and> v \<noteq> None then Some (name, v) else None)
      | Some (SExpr _ (Some (EAssign _ (Some (EVar _ name)) v _))) \<Rightarrow>
          (if name \<noteq> None \<and> v \<noteq> None then Some (name, v) else None)
      | _ \<Rightarrow> None)"

definition knc_match_raw_int_array_index_expr ::
  "knc_func_state \<Rightarrow> expr option \<Rightarrow> knc_local \<Rightarrow> knc_local option" where
  "knc_match_raw_int_array_index_expr st e counter =
     (case e of Some (EIndex _ (Some (EVar _ array)) (Some (EVar _ i)) _) \<Rightarrow>
        (if kn_strcmp i (kl_name counter) \<noteq> 0 then None
         else case find_local st array of
             Some l \<Rightarrow> (if knc_local_is_raw_int_array l then Some l else None)
           | None \<Rightarrow> None)
      | _ \<Rightarrow> None)"

definition knc_match_array_fill_stmt ::
  "knc_func_state \<Rightarrow> stmt option \<Rightarrow> knc_local \<Rightarrow> knc_local option" where
  "knc_match_array_fill_stmt st s counter =
     (case s of Some (SExpr _ (Some (EAssign _ target v _))) \<Rightarrow>
        (case knc_match_raw_int_array_index_expr st target counter of
           Some l \<Rightarrow> (if is_var_named v (kl_name counter) then Some l else None)
         | None \<Rightarrow> None)
      | _ \<Rightarrow> None)"

text \<open>An assignment of the sum of a variable and a term to that variable: the variable and the term.\<close>

definition accumulation ::
  "knc_func_state \<Rightarrow> stmt option \<Rightarrow> knc_local \<Rightarrow> (knc_local \<times> expr option) option" where
  "accumulation st s counter =
     (case knc_extract_var_assignment s of None \<Rightarrow> None
      | Some (name, v) \<Rightarrow>
          (case counter_local st name of None \<Rightarrow> None
           | Some acc \<Rightarrow>
               (if acc = counter then None
                else case v of Some (EBinary _ oper left right) \<Rightarrow>
                    (if oper \<noteq> OP TOK_PLUS \<or> left = None \<or> right = None then None
                     else if is_var_named left name then Some (acc, right)
                     else if is_var_named right name then Some (acc, left)
                     else None)
                  | _ \<Rightarrow> None)))"

definition knc_match_array_sum_stmt ::
  "knc_func_state \<Rightarrow> stmt option \<Rightarrow> knc_local \<Rightarrow> (knc_local \<times> knc_local) option" where
  "knc_match_array_sum_stmt st s counter =
     (case accumulation st s counter of None \<Rightarrow> None
      | Some (acc, e) \<Rightarrow>
          map_option (\<lambda>array. (acc, array)) (knc_match_raw_int_array_index_expr st e counter))"

definition knc_match_sum_stmt :: "knc_func_state \<Rightarrow> stmt option \<Rightarrow> knc_local \<Rightarrow> knc_local option" where
  "knc_match_sum_stmt st s counter =
     (case accumulation st s counter of None \<Rightarrow> None
      | Some (acc, e) \<Rightarrow> (if is_var_named e (kl_name counter) then Some acc else None))"

subsection \<open>Loops of one instruction\<close>

text \<open>
  What a loop becomes: the locals that are the instruction's first operands, the limit, and the
  opcode. The loops that count up from the current value have their body before the update of a
  \<open>while\<close> and alone in a \<open>for\<close>.
\<close>

type_synonym loop_plan = "knc_local list \<times> expr option \<times> int"

definition inc_opcode :: "int \<Rightarrow> int \<Rightarrow> (expr option \<times> bool) \<Rightarrow> expr option \<times> int" where
  "inc_opcode lt le r = (fst r, if snd r then le else lt)"

text \<open>The body and the counter of a loop that counts up by one.\<close>

definition while_inc :: "knc_func_state \<Rightarrow> stmt option \<Rightarrow> (stmt option \<times> knc_local \<times> expr option) option" where
  "while_inc st s =
     (case s of Some (SWhile _ cond (Some (SBlock _ [body, update]))) \<Rightarrow>
        (if \<not> kp_superloop (fs_program st) \<or> cond = None then None
         else case knc_match_loop_update_stmt st update of
             Some (counter, delta) \<Rightarrow> (if delta = 1 then Some (body, counter, cond) else None)
           | None \<Rightarrow> None)
      | _ \<Rightarrow> None)"

definition for_inc :: "knc_func_state \<Rightarrow> stmt option \<Rightarrow> (stmt option \<times> knc_local \<times> expr option) option" where
  "for_inc st s =
     (case s of Some (SFor _ _ cond post (Some (SBlock _ [body]))) \<Rightarrow>
        (if \<not> kp_superloop (fs_program st) \<or> cond = None \<or> post = None then None
         else case knc_match_loop_update_expr st post of
             Some (counter, delta) \<Rightarrow> (if delta = 1 then Some (body, counter, cond) else None)
           | None \<Rightarrow> None)
      | _ \<Rightarrow> None)"

definition array_fill_plan ::
  "knc_func_state \<Rightarrow> (stmt option \<times> knc_local \<times> expr option) option \<Rightarrow> loop_plan option" where
  "array_fill_plan st parts = do {
     (body, counter, cond) \<leftarrow> parts;
     array \<leftarrow> knc_match_array_fill_stmt st body counter;
     r \<leftarrow> knc_match_superloop_inc_cond cond counter;
     Some ([array, counter],
       inc_opcode KNC_OP_LOOP_ARRAY_FILL_INT_LT_INC KNC_OP_LOOP_ARRAY_FILL_INT_LE_INC r)
   }"

definition array_sum_plan ::
  "knc_func_state \<Rightarrow> (stmt option \<times> knc_local \<times> expr option) option \<Rightarrow> loop_plan option" where
  "array_sum_plan st parts = do {
     (body, counter, cond) \<leftarrow> parts;
     (acc, array) \<leftarrow> knc_match_array_sum_stmt st body counter;
     r \<leftarrow> knc_match_superloop_inc_cond cond counter;
     Some ([acc, array, counter],
       inc_opcode KNC_OP_LOOP_ARRAY_SUM_INT_LT_INC KNC_OP_LOOP_ARRAY_SUM_INT_LE_INC r)
   }"

definition sum_plan ::
  "knc_func_state \<Rightarrow> (stmt option \<times> knc_local \<times> expr option) option \<Rightarrow> loop_plan option" where
  "sum_plan st parts = do {
     (body, counter, cond) \<leftarrow> parts;
     acc \<leftarrow> knc_match_sum_stmt st body counter;
     r \<leftarrow> knc_match_superloop_inc_cond cond counter;
     Some ([acc, counter], inc_opcode KNC_OP_LOOP_SUM_INT_LT_INC KNC_OP_LOOP_SUM_INT_LE_INC r)
   }"

definition knc_match_array_fill_superloop_while :: "knc_func_state \<Rightarrow> stmt option \<Rightarrow> loop_plan option" where
  "knc_match_array_fill_superloop_while st s = array_fill_plan st (while_inc st s)"

definition knc_match_array_sum_superloop_while :: "knc_func_state \<Rightarrow> stmt option \<Rightarrow> loop_plan option" where
  "knc_match_array_sum_superloop_while st s = array_sum_plan st (while_inc st s)"

definition knc_match_array_fill_superloop_for :: "knc_func_state \<Rightarrow> stmt option \<Rightarrow> loop_plan option" where
  "knc_match_array_fill_superloop_for st s = array_fill_plan st (for_inc st s)"

definition knc_match_array_sum_superloop_for :: "knc_func_state \<Rightarrow> stmt option \<Rightarrow> loop_plan option" where
  "knc_match_array_sum_superloop_for st s = array_sum_plan st (for_inc st s)"

definition knc_match_sum_superloop_while :: "knc_func_state \<Rightarrow> stmt option \<Rightarrow> loop_plan option" where
  "knc_match_sum_superloop_while st s = sum_plan st (while_inc st s)"

definition knc_match_sum_superloop_for :: "knc_func_state \<Rightarrow> stmt option \<Rightarrow> loop_plan option" where
  "knc_match_sum_superloop_for st s = sum_plan st (for_inc st s)"

text \<open>A plan from the update and the condition alone.\<close>

definition counting_plan ::
  "(knc_local \<times> int) option \<Rightarrow> expr option \<Rightarrow> bool \<Rightarrow> loop_plan option" where
  "counting_plan update cond is_backedge = do {
     (counter, delta) \<leftarrow> update;
     r \<leftarrow> knc_match_loop_cond cond counter delta is_backedge;
     Some ([counter], r)
   }"

definition knc_match_empty_superloop_for :: "knc_func_state \<Rightarrow> stmt option \<Rightarrow> loop_plan option" where
  "knc_match_empty_superloop_for st s =
     (case s of Some (SFor _ _ cond post body) \<Rightarrow>
        (if \<not> kp_superloop (fs_program st) \<or> \<not> knc_stmt_is_empty_block body \<or> cond = None \<or> post = None
         then None else counting_plan (knc_match_loop_update_expr st post) cond False)
      | _ \<Rightarrow> None)"

definition knc_match_empty_superloop_while :: "knc_func_state \<Rightarrow> stmt option \<Rightarrow> loop_plan option" where
  "knc_match_empty_superloop_while st s =
     (case s of Some (SWhile _ cond (Some (SBlock _ [update]))) \<Rightarrow>
        (if \<not> kp_superloop (fs_program st) \<or> cond = None then None
         else counting_plan (knc_match_loop_update_stmt st update) cond False)
      | _ \<Rightarrow> None)"

subsection \<open>Back edges\<close>

definition knc_match_fused_backedge_for :: "knc_func_state \<Rightarrow> stmt option \<Rightarrow> loop_plan option" where
  "knc_match_fused_backedge_for st s =
     (case s of Some (SFor _ _ cond post _) \<Rightarrow>
        (if cond = None \<or> post = None then None
         else counting_plan (knc_match_loop_update_expr st post) cond True)
      | _ \<Rightarrow> None)"

definition knc_match_fused_backedge_while :: "knc_func_state \<Rightarrow> stmt option \<Rightarrow> loop_plan option" where
  "knc_match_fused_backedge_while st s =
     (case s of Some (SWhile _ cond (Some (SBlock _ ss))) \<Rightarrow>
        (if cond = None \<or> ss = [] then None
         else counting_plan (knc_match_loop_update_stmt st (last ss)) cond True)
      | _ \<Rightarrow> None)"

end
