(* ===== verification/KncStmt.thy ===== *)
theory KncStmt
  imports KncLoops
begin

text \<open>
  The statement compiler of \<open>apps/kinal/src/kn_knc.c\<close>. Like the expression compiler it is one routine
  per kind of statement over the compiler of substatements, and \<open>compile_stmt\<close> at the end ties the
  knot. The first component of a result is true where the C routine returns 0.
\<close>

type_synonym stmt_compiler = "stmt option \<Rightarrow> knc_func_state \<Rightarrow> (bool \<times> knc_func_state) option"

definition restore_locals :: "knc_func_state \<Rightarrow> knc_func_state \<Rightarrow> knc_func_state" where
  "restore_locals old st = st\<lparr> fs_locals := take (length (fs_locals old)) (fs_locals st) \<rparr>"

text \<open>Continue after a substatement, or after an expression, unless there was an error.\<close>

definition and_then :: "bool \<times> knc_func_state \<Rightarrow> (knc_func_state \<Rightarrow> (bool \<times> knc_func_state) option) \<Rightarrow>
    (bool \<times> knc_func_state) option" where
  "and_then r k = (case r of (ok, st) \<Rightarrow> if ok then k st else Some (False, st))"

definition with_value :: "knc_value \<times> knc_func_state \<Rightarrow>
    (int \<Rightarrow> knc_func_state \<Rightarrow> (bool \<times> knc_func_state) option) \<Rightarrow> (bool \<times> knc_func_state) option" where
  "with_value r k = (case r of (v, st) \<Rightarrow> if fs_errors st > 0 then Some (False, st) else k (kv_reg v) st)"

fun compile_stmts :: "stmt_compiler \<Rightarrow> stmt option list \<Rightarrow> knc_func_state \<Rightarrow> (bool \<times> knc_func_state) option" where
  "compile_stmts rec [] st = Some (True, st)"
| "compile_stmts rec (s # ss) st = do { r \<leftarrow> rec s st; and_then r (compile_stmts rec ss) }"

definition compile_block :: "stmt_compiler \<Rightarrow> stmt option list \<Rightarrow> knc_func_state \<Rightarrow>
    (bool \<times> knc_func_state) option" where
  "compile_block rec ss st = do {
     r \<leftarrow> compile_stmts rec ss st;
     and_then r (\<lambda>st'. Some (True, restore_locals st st'))
   }"

subsection \<open>Variables and assignments\<close>

text \<open>An array literal takes the declared type while it is compiled.\<close>

definition with_type :: "ty \<Rightarrow> expr option \<Rightarrow> expr option" where
  "with_type t e = (case e of
     Some (EArray i items) \<Rightarrow> (if ty_kind t = TY_ARRAY then Some (EArray (i\<lparr> ei_type := t \<rparr>) items) else e)
   | _ \<Rightarrow> e)"

definition compile_var_stmt :: "nat \<Rightarrow> ty \<Rightarrow> cstr \<Rightarrow> expr option \<Rightarrow> knc_func_state \<Rightarrow>
    (bool \<times> knc_func_state) option" where
  "compile_var_stmt addr t name init st =
     (let local_type = (if ty_kind t = TY_UNKNOWN \<and> init \<noteq> None then expr_type init else t)
      in if init \<noteq> None
         then do {
           r \<leftarrow> compile_expr (with_type local_type init) st;
           with_value r (\<lambda>v st. do {
             (reg, st) \<leftarrow> alloc_reg st;
             Some (True, add_local name local_type reg (Some addr) (move_if_other reg v st))
           })
         }
         else do {
           (reg, st) \<leftarrow> alloc_reg st;
           st \<leftarrow> emit_default_value reg local_type st;
           Some (True, add_local name local_type reg (Some addr) st)
         })"

definition compile_assign_stmt :: "cstr \<Rightarrow> expr option \<Rightarrow> knc_func_state \<Rightarrow> (bool \<times> knc_func_state) option" where
  "compile_assign_stmt name v st =
     (case find_local st name of
        Some l \<Rightarrow> do {
          r \<leftarrow> compile_expr v st;
          with_value r (\<lambda>reg st. Some (True, store_local_value l reg st))
        }
      | None \<Rightarrow> do {
          (index, _) \<leftarrow> self_field name st;
          if index \<ge> 0
          then do {
            r \<leftarrow> compile_expr v st;
            with_value r (\<lambda>reg st. do {
              (receiver, st) \<leftarrow> load_receiver st;
              Some (True, emit [U8 KNC_OP_STORE_FIELD, U8 receiver, U8 reg, U16 index] st)
            })
          }
          else
            let slot = program_find_global_slot (fs_program st) name
            in if slot \<ge> 0
               then do {
                 r \<leftarrow> compile_expr v st;
                 with_value r (\<lambda>reg st. Some (True, emit [U8 KNC_OP_STORE_GLOBAL, U8 reg, U16 slot] st))
               }
               else Some (False, knc_diag st)
        })"

definition compile_return :: "expr option \<Rightarrow> knc_func_state \<Rightarrow> (bool \<times> knc_func_state) option" where
  "compile_return e st =
     (if e = None then Some (True, emit [U8 KNC_OP_RET, U8 255] st)
      else do {
        r \<leftarrow> compile_expr e st;
        with_value r (\<lambda>reg st. Some (True, emit [U8 KNC_OP_RET, U8 reg] st))
      })"

definition compile_throw :: "expr option \<Rightarrow> knc_func_state \<Rightarrow> (bool \<times> knc_func_state) option" where
  "compile_throw e st = do {
     r \<leftarrow> compile_expr e st;
     with_value r (\<lambda>reg st. Some (True, emit [U8 KNC_OP_THROW, U8 reg] st))
   }"

subsection \<open>Try\<close>

definition compile_try :: "stmt_compiler \<Rightarrow> nat \<Rightarrow> stmt option \<Rightarrow> stmt option \<Rightarrow> ty \<Rightarrow> cstr \<Rightarrow> bool \<Rightarrow>
    knc_func_state \<Rightarrow> (bool \<times> knc_func_state) option" where
  "compile_try rec addr try_block catch_block catch_type catch_name has_param st0 =
     (case map_catch_target catch_type st0 of
        (None, st) \<Rightarrow> Some (False, st)
      | (Some (kind, payload), st) \<Rightarrow> do {
          (catch_reg, st) \<leftarrow> (if has_param then alloc_reg st else Some (255, st));
          let (catch_patch, st) = st_try catch_reg kind payload st;
          r \<leftarrow> rec try_block st;
          and_then r (\<lambda>st. do {
            let (end_patch, st) = st_jump KNC_OP_JUMP (emit [U8 KNC_OP_POP_TRY] st);
            st \<leftarrow> st_patch catch_patch (st_ip st) st;
            let st = (if has_param then add_local catch_name catch_type catch_reg (Some addr) st else st);
            r \<leftarrow> rec catch_block st;
            and_then r (\<lambda>st. do {
              let st = restore_locals st0 st;
              st \<leftarrow> st_patch end_patch (st_ip st) st;
              Some (True, st)
            })
          })
        })"

subsection \<open>Branches\<close>

text \<open>The two branches after the condition, with the pattern's local in the first.\<close>

definition compile_branches :: "stmt_compiler \<Rightarrow> (knc_func_state \<Rightarrow> knc_func_state option) \<Rightarrow>
    knc_func_state \<Rightarrow> stmt option \<Rightarrow> stmt option \<Rightarrow> int \<Rightarrow> knc_func_state \<Rightarrow> (bool \<times> knc_func_state) option" where
  "compile_branches rec bind_pattern st0 then_s else_s cond st = do {
     let (else_patch, st) = st_branch KNC_OP_JUMP_IF_FALSE cond st;
     st \<leftarrow> bind_pattern st;
     r \<leftarrow> rec then_s st;
     and_then r (\<lambda>st. do {
       let st = restore_locals st0 st;
       if else_s = None
       then do { st \<leftarrow> st_patch else_patch (st_ip st) st; Some (True, st) }
       else do {
         let (end_patch, st) = st_jump KNC_OP_JUMP st;
         st \<leftarrow> st_patch else_patch (st_ip st) st;
         r \<leftarrow> rec else_s st;
         and_then r (\<lambda>st. do {
           let st = restore_locals st0 st;
           st \<leftarrow> st_patch end_patch (st_ip st) st;
           Some (True, st)
         })
       }
     })
   }"

definition compile_if :: "stmt_compiler \<Rightarrow> nat \<Rightarrow> expr option \<Rightarrow> stmt option \<Rightarrow> stmt option \<Rightarrow> cstr \<Rightarrow> bool \<Rightarrow>
    bool \<Rightarrow> knc_func_state \<Rightarrow> (bool \<times> knc_func_state) option" where
  "compile_if rec addr cond then_s else_s pattern is_const const_value st =
     (if is_const
      then (let branch = (if const_value then then_s else else_s)
            in do {
              r \<leftarrow> (if branch = None then Some (True, st) else rec branch st);
              and_then r (\<lambda>st'. Some (True, restore_locals st st'))
            })
      else case (if pattern = None then None else cond) of
        Some (EIs _ e target) \<Rightarrow> do {
          r \<leftarrow> compile_expr e st;
          if fs_errors (snd r) > 0 then Some (False, snd r)
          else do {
            c \<leftarrow> compile_is_check_from_value (fst r) target (snd r);
            with_value c (compile_branches rec (\<lambda>st. do {
                (reg, st) \<leftarrow> alloc_reg st;
                Some (add_local pattern target reg (Some addr)
                  (emit [U8 KNC_OP_MOVE, U8 reg, U8 (kv_reg (fst r))] st))
              }) st then_s else_s)
          }
        }
      | _ \<Rightarrow> do {
          c \<leftarrow> compile_expr cond st;
          with_value c (compile_branches rec Some st then_s else_s)
        })"
 
text \<open>The positions of the jumps to the end and the body of the last default.\<close>

fun stmt_cases :: "stmt_compiler \<Rightarrow> int \<Rightarrow> (expr option \<times> stmt option \<times> bool) list \<Rightarrow> int list \<Rightarrow>
    stmt option \<Rightarrow> knc_func_state \<Rightarrow> ((int list \<times> stmt option) option \<times> knc_func_state) option" where
  "stmt_cases rec sv [] ends d st = Some (Some (ends, d), st)"
| "stmt_cases rec sv ((match, body, is_default) # cs) ends d st =
     (if is_default then stmt_cases rec sv cs ends body st
      else do {
        (m, st) \<leftarrow> compile_expr match st;
        if fs_errors st > 0 then Some (None, st)
        else do {
          (cond, st) \<leftarrow> alloc_reg st;
          let (next_patch, st) = st_branch KNC_OP_JUMP_IF_FALSE cond
            (emit [U8 KNC_OP_EQ, U8 cond, U8 sv, U8 (kv_reg m)] st);
          (ok, st) \<leftarrow> rec body st;
          if \<not> ok then Some (None, st)
          else do {
            let (end_patch, st) = st_jump KNC_OP_JUMP st;
            st \<leftarrow> st_patch next_patch (st_ip st) st;
            stmt_cases rec sv cs (ends @ [end_patch]) d st
          }
        }
      })"

definition compile_switch :: "stmt_compiler \<Rightarrow> expr option \<Rightarrow> (expr option \<times> stmt option \<times> bool) list \<Rightarrow>
    knc_func_state \<Rightarrow> (bool \<times> knc_func_state) option" where
  "compile_switch rec e cases st = do {
     r \<leftarrow> compile_expr e st;
     with_value r (\<lambda>sv st. do {
       (r, st) \<leftarrow> stmt_cases rec sv cases [] None st;
       case r of None \<Rightarrow> Some (False, st)
       | Some (ends, d) \<Rightarrow> do {
           r \<leftarrow> (if d = None then Some (True, st) else rec d st);
           and_then r (\<lambda>st. do { st \<leftarrow> st_patch_all ends (st_ip st) st; Some (True, st) })
         }
     })
   }"

subsection \<open>Loops\<close>

definition current_loop :: "knc_func_state \<Rightarrow> loop_state option" where
  "current_loop st = (if fs_loops st = [] then None else Some (last (fs_loops st)))"

definition push_loop :: "int \<Rightarrow> knc_func_state \<Rightarrow> knc_func_state" where
  "push_loop continue_ip st =
     st\<lparr> fs_loops := fs_loops st @ [\<lparr> ls_break_patches = [], ls_continue_patches = [],
            ls_continue_ip = continue_ip \<rparr>] \<rparr>"

definition set_loop :: "loop_state \<Rightarrow> knc_func_state \<Rightarrow> knc_func_state" where
  "set_loop l st = st\<lparr> fs_loops := butlast (fs_loops st) @ [l] \<rparr>"

definition pop_loop :: "knc_func_state \<Rightarrow> knc_func_state" where
  "pop_loop st = st\<lparr> fs_loops := butlast (fs_loops st) \<rparr>"

text \<open>A superloop: the limit, then the instruction on the registers of the locals and of the limit.\<close>

definition emit_superloop :: "loop_plan \<Rightarrow> knc_func_state \<Rightarrow> (bool \<times> knc_func_state) option" where
  "emit_superloop plan st =
     (case plan of (locals, limit, opcode) \<Rightarrow> do {
        r \<leftarrow> compile_expr limit st;
        with_value r (\<lambda>reg st. Some (True,
          emit ([U8 opcode] @ map (\<lambda>l. U8 (kl_reg l)) locals @ [U8 reg]) st))
      })"

definition first_plan :: "(knc_func_state \<Rightarrow> stmt option \<Rightarrow> loop_plan option) list \<Rightarrow> knc_func_state \<Rightarrow>
    stmt option \<Rightarrow> loop_plan option" where
  "first_plan ms st s = fold (\<lambda>m r. if r = None then m st s else r) ms None"

definition while_superloop :: "knc_func_state \<Rightarrow> stmt option \<Rightarrow> loop_plan option" where
  "while_superloop = first_plan [knc_match_empty_superloop_while, knc_match_sum_superloop_while,
     knc_match_array_fill_superloop_while, knc_match_array_sum_superloop_while]"

definition for_superloop :: "knc_func_state \<Rightarrow> stmt option \<Rightarrow> loop_plan option" where
  "for_superloop = first_plan [knc_match_sum_superloop_for, knc_match_array_fill_superloop_for,
     knc_match_array_sum_superloop_for, knc_match_empty_superloop_for]"

text \<open>The pending continues jump to the target, which is then known.\<close>

definition patch_continues :: "int \<Rightarrow> knc_func_state \<Rightarrow> knc_func_state option" where
  "patch_continues target st =
     (case current_loop st of None \<Rightarrow> None
      | Some l \<Rightarrow> do {
          st \<leftarrow> st_patch_all (ls_continue_patches l) target st;
          Some (set_loop (l\<lparr> ls_continue_patches := [], ls_continue_ip := target \<rparr>) st)
        })"

text \<open>The jump back to the condition, fused with the update when there is a plan.\<close>

definition emit_backedge :: "loop_plan option \<Rightarrow> int \<Rightarrow> int \<Rightarrow> knc_func_state \<Rightarrow>
    (bool \<times> knc_func_state) option" where
  "emit_backedge fused body_ip cond_ip st =
     (case fused of
        Some (locals, limit, opcode) \<Rightarrow> do {
          r \<leftarrow> compile_expr limit st;
          with_value r (\<lambda>reg st. Some (True,
            emit [U8 opcode, U8 (kl_reg (hd locals)), U8 reg, U16 body_ip] st))
        }
      | None \<Rightarrow> Some (True, emit [U8 KNC_OP_JUMP, U16 cond_ip] st))"

text \<open>The exits: the false branch of the condition, if there is one, and the breaks.\<close>

definition close_loop :: "int \<Rightarrow> knc_func_state \<Rightarrow> knc_func_state option" where
  "close_loop end_patch st = do {
     st \<leftarrow> (if end_patch \<ge> 0 then st_patch end_patch (st_ip st) st else Some st);
     case current_loop st of None \<Rightarrow> None
     | Some l \<Rightarrow> do { st \<leftarrow> st_patch_all (ls_break_patches l) (st_ip st) st; Some (pop_loop st) }
   }"

definition compile_while :: "stmt_compiler \<Rightarrow> stmt option \<Rightarrow> expr option \<Rightarrow> stmt option \<Rightarrow> knc_func_state \<Rightarrow>
    (bool \<times> knc_func_state) option" where
  "compile_while rec s cond body st =
     (let cond_ip = st_ip st
      in case while_superloop st s of
        Some plan \<Rightarrow> emit_superloop plan st
      | None \<Rightarrow> do {
          (end_patch, st) \<leftarrow> emit_condition_false_branch compile_expr cond st;
          if fs_errors st > 0 \<or> end_patch < 0 then Some (False, st)
          else do {
            let body_ip = st_ip st;
            let fused = knc_match_fused_backedge_while st s;
            let st = push_loop cond_ip st;
            r \<leftarrow> (case (fused, body) of
                (Some _, Some (SBlock _ ss)) \<Rightarrow> compile_stmts rec (butlast ss) st
              | _ \<Rightarrow> rec body st);
            and_then r (\<lambda>st. do {
              st \<leftarrow> patch_continues cond_ip st;
              r \<leftarrow> emit_backedge fused body_ip cond_ip st;
              and_then r (\<lambda>st. do { st \<leftarrow> close_loop end_patch st; Some (True, st) })
            })
          }
        })"

definition compile_for_rest :: "stmt_compiler \<Rightarrow> stmt option \<Rightarrow> expr option \<Rightarrow> expr option \<Rightarrow> stmt option \<Rightarrow>
    knc_func_state \<Rightarrow> knc_func_state \<Rightarrow> (bool \<times> knc_func_state) option" where
  "compile_for_rest rec s cond post body st0 st =
     (let cond_ip = st_ip st
      in do {
        (end_patch, st) \<leftarrow> (if cond = None then Some (-1, st)
                            else emit_condition_false_branch compile_expr cond st);
        if cond \<noteq> None \<and> (fs_errors st > 0 \<or> end_patch < 0) then Some (False, st)
        else do {
          let body_ip = st_ip st;
          let fused = knc_match_fused_backedge_for st s;
          r \<leftarrow> rec body (push_loop (-1) st);
          and_then r (\<lambda>st. do {
            st \<leftarrow> patch_continues (st_ip st) st;
            r \<leftarrow> (if fused = None \<and> post \<noteq> None
                  then do { r \<leftarrow> compile_expr post st; with_value r (\<lambda>_ st. Some (True, st)) }
                  else Some (True, st));
            and_then r (\<lambda>st. do {
              r \<leftarrow> emit_backedge fused body_ip cond_ip st;
              and_then r (\<lambda>st. do {
                st \<leftarrow> close_loop end_patch st;
                Some (True, restore_locals st0 st)
              })
            })
          })
        }
      })"

definition compile_for :: "stmt_compiler \<Rightarrow> stmt option \<Rightarrow> stmt option \<Rightarrow> expr option \<Rightarrow> expr option \<Rightarrow>
    stmt option \<Rightarrow> knc_func_state \<Rightarrow> (bool \<times> knc_func_state) option" where
  "compile_for rec s init cond post body st0 = do {
     r \<leftarrow> (if init = None then Some (True, st0) else rec init st0);
     and_then r (\<lambda>st. case for_superloop st s of
         Some plan \<Rightarrow> do {
           r \<leftarrow> emit_superloop plan st;
           and_then r (\<lambda>st. Some (True, restore_locals st0 st))
         }
       | None \<Rightarrow> compile_for_rest rec s cond post body st0 st)
   }"

definition compile_break :: "knc_func_state \<Rightarrow> (bool \<times> knc_func_state) option" where
  "compile_break st =
     (case current_loop st of None \<Rightarrow> Some (False, knc_diag st)
      | Some l \<Rightarrow>
          (let (pos, st) = st_jump KNC_OP_JUMP st
           in Some (True, set_loop (l\<lparr> ls_break_patches := ls_break_patches l @ [pos] \<rparr>) st)))"

definition compile_continue :: "knc_func_state \<Rightarrow> (bool \<times> knc_func_state) option" where
  "compile_continue st =
     (case current_loop st of None \<Rightarrow> Some (False, knc_diag st)
      | Some l \<Rightarrow>
          (let (pos, st) = st_jump KNC_OP_JUMP st
           in if ls_continue_ip l \<ge> 0
              then do { st \<leftarrow> st_patch pos (ls_continue_ip l) st; Some (True, st) }
              else Some (True,
                set_loop (l\<lparr> ls_continue_patches := ls_continue_patches l @ [pos] \<rparr>) st)))"

subsection \<open>Runtime blocks\<close>

text \<open>A record returns when it is the one up to which the block is run.\<close>

definition compile_block_record :: "int \<Rightarrow> knc_func_state \<Rightarrow> (bool \<times> knc_func_state) option" where
  "compile_block_record ip st =
     (if \<not> fs_in_block st \<or> fs_block_records st = None then Some (True, st)
      else
        let idx = block_record_slot st ip;
            st = (if idx \<ge> 0 then st\<lparr> fs_record_addrs := (fs_record_addrs st)[nat idx := st_ip st] \<rparr> else st)
        in do {
          (rec_ip_reg, st) \<leftarrow> emit_int_const_reg ip st;
          (cmp_reg, st) \<leftarrow> alloc_reg st;
          let (cont_patch, st) = st_branch KNC_OP_JUMP_IF_FALSE cmp_reg
            (emit [U8 KNC_OP_EQ, U8 cmp_reg, U8 (fs_until_reg st), U8 rec_ip_reg] st);
          let st = emit [U8 KNC_OP_RET, U8 255] st;
          st \<leftarrow> st_patch cont_patch (st_ip st) st;
          Some (True, st)
        })"

definition compile_block_jump :: "expr option \<Rightarrow> knc_func_state \<Rightarrow> (bool \<times> knc_func_state) option" where
  "compile_block_jump target st =
     (if \<not> fs_in_block st then Some (True, st)
      else do {
        r \<leftarrow> compile_expr target st;
        with_value r (\<lambda>reg st. do { st \<leftarrow> emit_block_dispatch reg st; Some (True, st) })
      })"

subsection \<open>Statements\<close>

definition stmt_step :: "stmt_compiler \<Rightarrow> stmt_compiler" where
  "stmt_step rec s st =
     (case s of
        None \<Rightarrow> Some (True, st)
      | Some (SBlock _ ss) \<Rightarrow> compile_block rec ss st
      | Some (SVar addr t name _ init _ _) \<Rightarrow> compile_var_stmt addr t name init st
      | Some (SAssign _ name v) \<Rightarrow> compile_assign_stmt name v st
      | Some (SExpr _ e) \<Rightarrow> do { r \<leftarrow> compile_expr e st; with_value r (\<lambda>_ st. Some (True, st)) }
      | Some (SReturn _ e) \<Rightarrow> compile_return e st
      | Some (SThrow _ e) \<Rightarrow> compile_throw e st
      | Some (STry addr b c t name has_param) \<Rightarrow> compile_try rec addr b c t name has_param st
      | Some (SIf addr cond a b pattern is_const const_value) \<Rightarrow>
          compile_if rec addr cond a b pattern is_const const_value st
      | Some (SSwitch _ e cases) \<Rightarrow> compile_switch rec e cases st
      | Some (SWhile _ cond body) \<Rightarrow> compile_while rec s cond body st
      | Some (SFor _ init cond post body) \<Rightarrow> compile_for rec s init cond post body st
      | Some (SBreak _) \<Rightarrow> compile_break st
      | Some (SContinue _) \<Rightarrow> compile_continue st
      | Some (SBlockRecord _ _ ip _) \<Rightarrow> compile_block_record ip st
      | Some (SBlockJump _ target) \<Rightarrow> compile_block_jump target st)"

function compile_stmt :: "stmt_compiler" where
  "compile_stmt s st =
     stmt_step (\<lambda>x st. if stmt_measure x < stmt_measure s then compile_stmt x st else None) s st"
  by pat_completeness auto

termination
  by (relation "measure (\<lambda>(s, _). stmt_measure s)") auto

declare compile_stmt.simps [simp del]

end
