(* ===== verification/KncBuild.thy ===== *)
theory KncBuild
  imports KncStmt
begin

text \<open>
  From declarations to a program in \<open>apps/kinal/src/kn_knc.c\<close>: the bodies of the functions, the
  function that initialises the globals, the entry wrapper, and \<open>kn_emit_knc\<close>, which lays out the
  types and their virtual tables, collects the functions and compiles those that are reached.

  The state of these routines is the program with the count of errors. \<open>None\<close> is the end of the
  compiler. The first component of a result is true where the C routine returns 0.
\<close>

type_synonym node_map = "nat \<Rightarrow> nat \<times> nat"

subsection \<open>Function bodies\<close>

text \<open>No record ever has an owning struct.\<close>

definition record_receiver_type :: "knc_func_record \<Rightarrow> ty" where
  "record_receiver_type r = (case kf_owner_class r of
     Some c \<Rightarrow> type_class_of (class_qname_or_name c) | None \<Rightarrow> type_make TY_UNKNOWN)"

definition is_instance_method :: "knc_func_record \<Rightarrow> bool" where
  "is_instance_method r \<longleftrightarrow> kf_kind r = KNC_CALLABLE_METHOD \<and> kf_is_instance r"

text \<open>The cleared state on a program, for the function of the given index.\<close>

definition new_state :: "node_map \<Rightarrow> knc_program \<Rightarrow> nat \<Rightarrow> int \<Rightarrow> capture_plan option \<Rightarrow> knc_func_state" where
  "new_state nodes p errors func_index plan =
     \<lparr> fs_program = p, fs_func_index = func_index, fs_code = [], fs_locals = [], fs_plan = plan,
       fs_loops = [], fs_self_type = type_make TY_VOID, fs_has_this = False, fs_next_reg = 0,
       fs_max_reg = 0, fs_in_block = False, fs_start_reg = 0, fs_until_reg = 0, fs_body_ip = 0,
       fs_block_records = None, fs_start_patches = [], fs_record_patches = [], fs_record_addrs = [],
       fs_errors = errors, fs_block_nodes = nodes \<rparr>"

text \<open>A parameter takes the next register without the check of \<open>alloc_reg\<close>.\<close>

definition add_param :: "cstr \<Rightarrow> ty \<Rightarrow> nat option \<Rightarrow> knc_func_state \<Rightarrow> knc_func_state" where
  "add_param name t declaration st =
     (let st = add_local name t (fs_next_reg st) declaration st
      in st\<lparr> fs_next_reg := fs_next_reg st + 1, fs_max_reg := fs_next_reg st + 1 \<rparr>)"

fun add_params :: "param list \<Rightarrow> knc_func_state \<Rightarrow> bool \<times> knc_func_state" where
  "add_params [] st = (True, st)"
| "add_params (p # ps) st =
     (if \<not> type_is_vm_value (p_type p) then (False, knc_diag st)
      else add_params ps (add_param (p_name p) (p_type p) (Some (p_addr p)) st))"

definition enter_function :: "node_map \<Rightarrow> knc_program \<Rightarrow> nat \<Rightarrow> knc_func_record \<Rightarrow> bool \<times> knc_func_state" where
  "enter_function nodes p errors r =
     (let params = (case record_params (Some r) of None \<Rightarrow> [] | Some ps \<Rightarrow> ps);
          plan = knc_capture_plan_create (record_body (Some r)) params (is_instance_method r);
          st = (new_state nodes p errors (kf_index r) (Some plan))\<lparr> fs_code := kf_code r \<rparr>;
          st = (if is_instance_method r
                then add_param (Some ''This'') (record_receiver_type r) None
                       (st\<lparr> fs_has_this := True, fs_self_type := record_receiver_type r \<rparr>)
                else st);
          st = fold (\<lambda>c. add_capture_local (kc_name c) (kc_type c) (kc_slot c)) (kf_captures r) st
      in add_params params st)"

text \<open>A block starts with the dispatch on the record at which it is entered.\<close>

definition enter_block :: "knc_func_record \<Rightarrow> knc_func_state \<Rightarrow> (bool \<times> knc_func_state) option" where
  "enter_block r st =
     (if \<not> kf_is_block r then Some (True, st)
      else case (find_local st (Some ''__knc_block_start''), find_local st (Some ''__knc_block_until'')) of
        (Some start, Some until) \<Rightarrow> do {
          (start_reg, st) \<leftarrow> load_local_value start (st\<lparr> fs_in_block := True \<rparr>);
          (until_reg, st) \<leftarrow> load_local_value until st;
          let n = (case kf_block_records r of None \<Rightarrow> 0 | Some rs \<Rightarrow> length rs);
          st \<leftarrow> emit_block_dispatch start_reg
            (st\<lparr> fs_start_reg := start_reg, fs_until_reg := until_reg,
                fs_block_records := kf_block_records r, fs_body_ip := -1,
                fs_record_patches := replicate n [], fs_record_addrs := replicate n (-1) \<rparr>);
          Some (True, st\<lparr> fs_body_ip := st_ip st \<rparr>)
        }
      | _ \<Rightarrow> Some (False, knc_diag st))"

text \<open>The jumps of the dispatch: to the body for 0 and for a record that was not met.\<close>

fun patch_records :: "int list list \<Rightarrow> int list \<Rightarrow> int \<Rightarrow> knc_func_state \<Rightarrow> knc_func_state option" where
  "patch_records (ps # pss) (a # as) start st = do {
     st \<leftarrow> st_patch_all ps (if a \<ge> 0 then a else start) st;
     patch_records pss as start st
   }"
| "patch_records _ _ start st = Some st"

definition leave_block :: "knc_func_record \<Rightarrow> knc_func_state \<Rightarrow> knc_func_state option" where
  "leave_block r st =
     (if \<not> kf_is_block r then Some st
      else do {
        st \<leftarrow> st_patch_all (fs_start_patches st) (fs_body_ip st) st;
        patch_records (fs_record_patches st) (fs_record_addrs st) (fs_body_ip st) st
      })"

text \<open>A function ends with a return of nothing or of a default value.\<close>

definition emit_final_return :: "ty \<Rightarrow> knc_func_state \<Rightarrow> knc_func_state option" where
  "emit_final_return t st =
     (if ty_kind t = TY_VOID then Some (emit [U8 KNC_OP_RET, U8 255] st)
      else do {
        (reg, st) \<leftarrow> alloc_reg st;
        st \<leftarrow> emit_default_value reg t st;
        Some (emit [U8 KNC_OP_RET, U8 reg] st)
      })"

definition set_func :: "int \<Rightarrow> (knc_func_record \<Rightarrow> knc_func_record) \<Rightarrow> knc_program \<Rightarrow> knc_program" where
  "set_func i f p = p\<lparr> kp_funcs := (kp_funcs p)[nat i := f (kp_funcs p ! nat i)] \<rparr>"

definition finish_record :: "int \<Rightarrow> int \<Rightarrow> knc_func_state \<Rightarrow> knc_func_record \<Rightarrow> knc_func_record" where
  "finish_record param_count return_kind st r =
     r\<lparr> kf_code := fs_code st, kf_param_count := param_count, kf_reg_count := fs_max_reg st,
       kf_return_kind := return_kind, kf_built := True \<rparr>"

definition compile_function_body :: "node_map \<Rightarrow> knc_program \<Rightarrow> nat \<Rightarrow> knc_func_record \<Rightarrow>
    (bool \<times> knc_program \<times> nat) option" where
  "compile_function_body nodes p errors r =
     (let t = record_return_type (Some r);
          params = (case record_params (Some r) of None \<Rightarrow> [] | Some ps \<Rightarrow> ps);
          n = int (length params) + (if is_instance_method r then 1 else 0)
      in do {
        (ok, st) \<leftarrow> and_then (enter_function nodes p errors r) (enter_block r);
        (ok, st) \<leftarrow> and_then (ok, st) (compile_stmt (record_body (Some r)));
        if \<not> ok then Some (False, fs_program st, fs_errors st)
        else do {
          st \<leftarrow> leave_block r st;
          st \<leftarrow> emit_final_return t st;
          Some (True,
            set_func (kf_index r) (finish_record n (value_kind_code (value_kind_from_type t)) st) (fs_program st),
            fs_errors st)
        }
      })"

text \<open>
  One pass over the functions, which grow while it runs, from the index \<open>i\<close> on; \<open>progressed\<close> tells
  whether it compiled one. Passes are repeated until one finds nothing to compile.
\<close>

partial_function (option) compile_pass :: "node_map \<Rightarrow> nat \<Rightarrow> bool \<Rightarrow> knc_program \<Rightarrow> nat \<Rightarrow>
    (bool \<times> bool \<times> knc_program \<times> nat) option" where
  "compile_pass nodes i progressed p errors =
     (if i \<ge> length (kp_funcs p) then Some (True, progressed, p, errors)
      else let r = kp_funcs p ! i
           in if \<not> kf_reachable r \<or> kf_built r then compile_pass nodes (i + 1) progressed p errors
              else Option.bind (compile_function_body nodes p errors r)
                     (\<lambda>(ok, p, errors).
                        if \<not> ok then Some (False, True, p, errors)
                        else compile_pass nodes (i + 1) True p errors))"

partial_function (option) compile_reachable_functions :: "node_map \<Rightarrow> knc_program \<Rightarrow> nat \<Rightarrow>
    (bool \<times> knc_program \<times> nat) option" where
  "compile_reachable_functions nodes p errors =
     Option.bind (compile_pass nodes 0 False p errors)
       (\<lambda>(ok, progressed, p, errors).
          if \<not> ok then Some (False, p, errors)
          else if progressed then compile_reachable_functions nodes p errors
          else Some (True, p, errors))"

subsection \<open>Globals and the entry\<close>

text \<open>A record of a function made by the emitter itself.\<close>

definition own_record :: "string \<Rightarrow> knc_program \<Rightarrow> knc_func_record" where
  "own_record name p =
     \<lparr> kf_kind = KNC_CALLABLE_FUNC, kf_func = None, kf_method = None, kf_owner_class = None,
       kf_method_index = 0, kf_is_instance = False, kf_debug_name = Some name,
       kf_index = int (length (kp_funcs p)), kf_reachable = False, kf_built = False, kf_param_count = 0,
       kf_reg_count = 0, kf_return_kind = 0, kf_synthetic = None, kf_synthetic_expr = None,
       kf_is_block = False, kf_block_records = None, kf_captures = [], kf_register_names = [],
       kf_code = [] \<rparr>"

definition push_func :: "knc_func_record \<Rightarrow> knc_program \<Rightarrow> knc_program" where
  "push_func r p = p\<lparr> kp_funcs := kp_funcs p @ [r] \<rparr>"

text \<open>Stores the value of an initialiser, or a default value, in a slot of the globals.\<close>

definition init_slot :: "expr option \<Rightarrow> ty \<Rightarrow> int \<Rightarrow> knc_func_state \<Rightarrow> (bool \<times> knc_func_state) option" where
  "init_slot e t slot st = do {
     r \<leftarrow> (if e \<noteq> None then compile_expr e st
           else do {
             (reg, st) \<leftarrow> alloc_reg st;
             st \<leftarrow> emit_default_value reg t st;
             Some (value_of reg t, st)
           });
     with_value r (\<lambda>reg st. Some (True, emit [U8 KNC_OP_STORE_GLOBAL, U8 reg, U16 slot] st))
   }"

fun init_globals :: "stmt option list \<Rightarrow> knc_func_state \<Rightarrow> (bool \<times> knc_func_state) option" where
  "init_globals [] st = Some (True, st)"
| "init_globals (s # ss) st =
     (case s of Some (SVar _ t name _ init _ _) \<Rightarrow>
        (let slot = program_find_global_slot (fs_program st) name
         in if slot < 0 then Some (False, knc_diag st)
            else do {
              r \<leftarrow> init_slot (with_type t init) t slot st;
              and_then r (init_globals ss)
            })
      | _ \<Rightarrow> Some (False, knc_diag st))"

fun init_fields :: "cstr \<Rightarrow> int \<Rightarrow> field_decl list \<Rightarrow> knc_func_state \<Rightarrow> (bool \<times> knc_func_state) option" where
  "init_fields owner j [] st = Some (True, st)"
| "init_fields owner j (f # fs) st =
     (let slot = program_find_static_field_slot (fs_program st) owner j
      in if \<not> fd_is_static f \<or> slot < 0 then init_fields owner (j + 1) fs st
         else do {
           r \<leftarrow> init_slot (fd_init f) (fd_type f) slot st;
           and_then r (init_fields owner (j + 1) fs)
         })"

fun init_classes :: "class_decl list \<Rightarrow> knc_func_state \<Rightarrow> (bool \<times> knc_func_state) option" where
  "init_classes [] st = Some (True, st)"
| "init_classes (c # cs) st = do {
     r \<leftarrow> init_fields (class_qname_or_name c) 0 (cd_fields c) st;
     and_then r (init_classes cs)
   }"

text \<open>The index of the function, or -1.\<close>

definition build_global_init_function :: "node_map \<Rightarrow> stmt option list \<Rightarrow> knc_program \<Rightarrow> nat \<Rightarrow>
    (int \<times> knc_program \<times> nat) option" where
  "build_global_init_function nodes globals p errors =
     (if globals = [] \<and> kp_static_fields p = [] then Some (-1, p, errors)
      else
        let r = own_record ''__knc_init_globals'' p;
            st = new_state nodes (push_func r p) errors (kf_index r) None
        in do {
          r1 \<leftarrow> init_globals globals st;
          (ok, st) \<leftarrow> and_then r1 (init_classes (kp_classes p));
          if \<not> ok then Some (-1, fs_program st, fs_errors st)
          else
            let st = emit [U8 KNC_OP_RET, U8 255] st
            in Some (kf_index r,
                 set_func (kf_index r) (finish_record 0 (value_kind_code KNC_VALUE_NULL) st) (fs_program st),
                 fs_errors st)
        })"

text \<open>A call without arguments.\<close>

definition emit_plain_call :: "int \<Rightarrow> int \<Rightarrow> knc_func_state \<Rightarrow> knc_func_state" where
  "emit_plain_call reg func_index st =
     emit [U8 KNC_OP_CALL_FUNC, U8 reg, U16 func_index, U8 0, U8 255, U8 255, U8 255, U8 255] st"

definition build_entry_wrapper_function :: "node_map \<Rightarrow> int \<Rightarrow> int \<Rightarrow> knc_program \<Rightarrow> nat \<Rightarrow>
    (int \<times> knc_program) option" where
  "build_entry_wrapper_function nodes main_index init_index p errors =
     (let r = own_record ''__knc_entry'' p;
          st = new_state nodes (push_func r p) errors (kf_index r) None;
          st = (if init_index \<ge> 0 then emit_plain_call 255 init_index st else st);
          t = record_return_type (Some (kp_funcs (fs_program st) ! nat main_index))
      in do {
        (reg, st) \<leftarrow> (if ty_kind t \<noteq> TY_VOID then alloc_reg st else Some (255, st));
        let st = emit [U8 KNC_OP_RET, U8 reg] (emit_plain_call reg main_index st);
        Some (kf_index r,
          set_func (kf_index r) (finish_record 0 (value_kind_code (value_kind_from_type t)) st) (fs_program st))
      })"

subsection \<open>Type records\<close>

definition struct_record :: "struct_decl \<Rightarrow> knc_type_record" where
  "struct_record s =
     \<lparr> kt_qname = struct_qname_or_name s, kt_kind = KNC_TYPE_STRUCT,
       kt_field_count = struct_total_field_count (Some s), kt_base_type = -1, kt_vtable = [],
       kt_interfaces = [], kt_direct_methods = [] \<rparr>"

definition interface_record :: "interface_decl \<Rightarrow> knc_type_record" where
  "interface_record i =
     \<lparr> kt_qname = interface_qname_or_name i, kt_kind = KNC_TYPE_INTERFACE, kt_field_count = 0,
       kt_base_type = -1, kt_vtable = [], kt_interfaces = [], kt_direct_methods = [] \<rparr>"

definition class_record :: "knc_program \<Rightarrow> class_decl \<Rightarrow> knc_type_record option" where
  "class_record p c =
     map_option (\<lambda>n. \<lparr> kt_qname = class_qname_or_name c, kt_kind = KNC_TYPE_CLASS, kt_field_count = n,
       kt_base_type = -1, kt_vtable = [], kt_interfaces = [],
       kt_direct_methods = replicate (length (cd_methods c)) (-1) \<rparr>) (class_total_field_count p (Some c))"

fun class_records :: "knc_program \<Rightarrow> class_decl list \<Rightarrow> knc_type_record list option" where
  "class_records p [] = Some []"
| "class_records p (c # cs) = do {
     r \<leftarrow> class_record p c;
     rs \<leftarrow> class_records p cs;
     Some (r # rs)
   }"

definition start_program :: "bool \<Rightarrow> class_decl list \<Rightarrow> interface_decl list \<Rightarrow> struct_decl list \<Rightarrow>
    enum_decl list \<Rightarrow> knc_program" where
  "start_program superloop classes interfaces structs enums =
     \<lparr> kp_funcs = [], kp_ints = [], kp_floats = [], kp_strings = [], kp_types = [], kp_globals = [],
       kp_static_fields = [], kp_entry = -1, kp_main_entry = 0, kp_superloop = superloop,
       kp_classes = classes, kp_interfaces = interfaces, kp_structs = structs, kp_enums = enums \<rparr>"

definition set_type :: "int \<Rightarrow> (knc_type_record \<Rightarrow> knc_type_record) \<Rightarrow> knc_program \<Rightarrow> knc_program" where
  "set_type i f p = p\<lparr> kp_types := (kp_types p)[nat i := f (kp_types p ! nat i)] \<rparr>"

subsection \<open>Globals and static fields\<close>

text \<open>The first component is false where the routine gives up with a diagnostic.\<close>

fun add_globals :: "stmt option list \<Rightarrow> knc_program \<Rightarrow> bool \<times> knc_program" where
  "add_globals [] p = (True, p)"
| "add_globals (s # ss) p =
     (case s of Some (SVar _ t name _ _ _ _) \<Rightarrow>
        (if type_is_vm_value t then add_globals ss (snd (program_add_global p name t)) else (False, p))
      | _ \<Rightarrow> (False, p))"

fun add_fields :: "cstr \<Rightarrow> int \<Rightarrow> field_decl list \<Rightarrow> knc_program \<Rightarrow> bool \<times> knc_program" where
  "add_fields owner j [] p = (True, p)"
| "add_fields owner j (f # fs) p =
     (if \<not> fd_is_static f then add_fields owner (j + 1) fs p
      else if \<not> type_is_vm_value (fd_type f) then (False, p)
      else add_fields owner (j + 1) fs (snd (program_add_static_field p owner j (fd_type f))))"

fun add_static_fields :: "class_decl list \<Rightarrow> knc_program \<Rightarrow> bool \<times> knc_program" where
  "add_static_fields [] p = (True, p)"
| "add_static_fields (c # cs) p =
     (let (ok, p) = add_fields (class_qname_or_name c) 0 (cd_fields c) p
      in if ok then add_static_fields cs p else (False, p))"

subsection \<open>Functions and methods\<close>

text \<open>The plain name is the entry's, or the qualified name ends with it.\<close>

definition name_matches_entry :: "func \<Rightarrow> cstr \<Rightarrow> bool" where
  "name_matches_entry f entry_name =
     (entry_name \<noteq> None \<and>
      (name_is (fn_name f) entry_name \<or>
       (case fn_qname f of None \<Rightarrow> False
        | Some q \<Rightarrow> let qn = kn_strlen (Some q); en = kn_strlen entry_name
                    in qn \<ge> en \<and> kn_strcmp (Some (drop (qn - en) q)) entry_name = 0)))"

definition is_emitted_type :: "ty \<Rightarrow> bool" where
  "is_emitted_type t \<longleftrightarrow> type_is_vm_value t \<or> ty_kind t = TY_VOID"

fun add_functions :: "cstr \<Rightarrow> func list \<Rightarrow> knc_program \<Rightarrow> bool \<times> knc_program" where
  "add_functions entry [] p = (True, p)"
| "add_functions entry (f # fs) p =
     (if fn_is_extern f \<or> fn_is_delegate f \<or> fn_type_params f \<noteq> [] then add_functions entry fs p
      else if \<not> is_emitted_type (fn_ret_type f) then (False, p)
      else
        let r = (own_record [] p)\<lparr> kf_func := Some f,
                  kf_debug_name := (if fn_qname f \<noteq> None then fn_qname f else fn_name f) \<rparr>;
            p = push_func r p
        in add_functions entry fs
             (if kp_entry p < 0 \<and> name_matches_entry f entry then p\<lparr> kp_entry := kf_index r \<rparr> else p))"

text \<open>A method with a body gets a record, and its index goes into the table of its class.\<close>

fun add_methods :: "amem \<Rightarrow> class_decl \<Rightarrow> int \<Rightarrow> nat \<Rightarrow> method_decl list \<Rightarrow> knc_program \<Rightarrow> bool \<times> knc_program" where
  "add_methods m c ti j [] p = (True, p)"
| "add_methods m c ti j (md # mds) p =
     (if md_body md = None then add_methods m c ti (j + 1) mds p
      else if \<not> is_emitted_type (md_ret_type md) then (False, p)
      else
        let r = (own_record [] p)\<lparr> kf_kind := KNC_CALLABLE_METHOD, kf_method := Some md,
                  kf_owner_class := Some c, kf_method_index := int j, kf_is_instance := \<not> md_is_static md,
                  kf_debug_name := build_method_debug_name m c (md_name md) \<rparr>;
            p = push_func r p
        in add_methods m c ti (j + 1) mds
             (if ti \<ge> 0 \<and> j < length (kt_direct_methods (kp_types p ! nat ti))
              then set_type ti (\<lambda>t. t\<lparr> kt_direct_methods := (kt_direct_methods t)[j := kf_index r] \<rparr>) p
              else p))"

fun add_class_methods :: "amem \<Rightarrow> class_decl list \<Rightarrow> knc_program \<Rightarrow> bool \<times> knc_program" where
  "add_class_methods m [] p = (True, p)"
| "add_class_methods m (c # cs) p =
     (let (ok, p) = add_methods m c (program_find_type p (class_qname_or_name c)) 0 (cd_methods c) p
      in if ok then add_class_methods m cs p else (False, p))"

subsection \<open>Virtual tables\<close>

text \<open>\<open>None\<close> when the bases form a cycle.\<close>

definition overridable :: "method_decl \<Rightarrow> method_decl \<Rightarrow> bool" where
  "overridable md bm \<longleftrightarrow>
     md_name bm \<noteq> None \<and> md_name md \<noteq> None \<and> kn_strcmp (md_name bm) (md_name md) = 0 \<and>
     length (md_params bm) = length (md_params md) \<and>
     (md_is_virtual bm \<or> md_is_override bm \<or> md_is_abstract bm)"

partial_function (option) class_find_virtual_slot_in_hierarchy ::
  "knc_program \<Rightarrow> class_decl \<Rightarrow> method_decl \<Rightarrow> int option" where
  "class_find_virtual_slot_in_hierarchy p c md =
     (if cd_base c = None then Some (-1)
      else case program_find_class p (cd_base c) of None \<Rightarrow> Some (-1)
        | Some base \<Rightarrow>
            Option.bind (class_find_virtual_slot_in_hierarchy p base md)
              (\<lambda>slot. if slot \<ge> 0 then Some slot else Some (index_from (overridable md) 0 (cd_methods base))))"

text \<open>The table grows to the slot, its new entries -1.\<close>

definition vtable_put :: "int list \<Rightarrow> int \<Rightarrow> int \<Rightarrow> int list" where
  "vtable_put vt slot func_index =
     (vt @ replicate (nat slot + 1 - length vt) (-1))[nat slot := func_index]"

fun fill_vtable :: "knc_program \<Rightarrow> class_decl \<Rightarrow> int list \<Rightarrow> nat \<Rightarrow> method_decl list \<Rightarrow> int list \<Rightarrow>
    int list option" where
  "fill_vtable p c direct j [] vt = Some vt"
| "fill_vtable p c direct j (md # mds) vt =
     (if md_is_static md \<or> md_is_constructor md \<or>
         \<not> (md_is_virtual md \<or> md_is_override md \<or> md_is_abstract md)
      then fill_vtable p c direct (j + 1) mds vt
      else do {
        slot \<leftarrow> (if md_is_override md then class_find_virtual_slot_in_hierarchy p c md else Some (int j));
        fill_vtable p c direct (j + 1) mds
          (vtable_put vt (if slot < 0 then int j else slot) (if j < length direct then direct ! j else -1))
      })"

definition add_unique :: "int list \<Rightarrow> int \<Rightarrow> int list" where
  "add_unique xs x = (if x \<in> set xs then xs else xs @ [x])"

definition interface_indices :: "knc_program \<Rightarrow> class_decl \<Rightarrow> int list \<Rightarrow> int list" where
  "interface_indices p c xs =
     fold (\<lambda>i xs. let k = program_find_type p i in if k \<ge> 0 then add_unique xs k else xs) (cd_interfaces c) xs"

text \<open>
  The record of a class takes the table of its base as it is at that time, then its own methods.
\<close>

definition link_class :: "knc_program \<Rightarrow> class_decl \<Rightarrow> knc_program option" where
  "link_class p c =
     (let ti = program_find_type p (class_qname_or_name c)
      in if ti < 0 then Some p
         else
           let bi = (if cd_base c = None then -1 else program_find_type p (cd_base c));
               p = (if bi \<ge> 0 then set_type ti (\<lambda>t. t\<lparr> kt_base_type := bi,
                      kt_vtable := kt_vtable (kp_types p ! nat bi) \<rparr>) p else p);
               t = kp_types p ! nat ti
           in do {
             vt \<leftarrow> fill_vtable p c (kt_direct_methods t) 0 (cd_methods c) (kt_vtable t);
             Some (set_type ti (\<lambda>t. t\<lparr> kt_vtable := vt,
               kt_interfaces := interface_indices p c (kt_interfaces t) \<rparr>) p)
           })"

fun link_classes :: "class_decl list \<Rightarrow> knc_program \<Rightarrow> knc_program option" where
  "link_classes [] p = Some p"
| "link_classes (c # cs) p = do { p \<leftarrow> link_class p c; link_classes cs p }"

subsection \<open>The whole emission\<close>

text \<open>
  The tables of the program, and whether they could be made. The file is written by \<open>KncFile\<close>;
  the name of the entry is \<open>Main\<close> unless one is given.
\<close>

definition build_tables :: "amem \<Rightarrow> cstr \<Rightarrow> bool \<Rightarrow> func list \<Rightarrow> class_decl list \<Rightarrow> interface_decl list \<Rightarrow>
    struct_decl list \<Rightarrow> enum_decl list \<Rightarrow> stmt option list \<Rightarrow> (bool \<times> knc_program) option" where
  "build_tables m entry superloop funcs classes interfaces structs enums globals =
     (let p0 = start_program superloop classes interfaces structs enums
      in do {
        crs \<leftarrow> class_records p0 classes;
        let p = p0\<lparr> kp_types := map struct_record structs @ map interface_record interfaces @ crs \<rparr>;
        let (ok, p) = add_globals globals p;
        let (ok, p) = (if ok then add_static_fields classes p else (ok, p));
        let (ok, p) = (if ok then add_functions entry funcs p else (ok, p));
        let (ok, p) = (if ok then add_class_methods m classes p else (ok, p));
        if ok then do { p \<leftarrow> link_classes classes p; Some (True, p) } else Some (False, p)
      })"

definition entry_or_main :: "cstr \<Rightarrow> cstr" where
  "entry_or_main name = (if name = None \<or> name = Some [] then Some ''Main'' else name)"

text \<open>The compilation of what the entry reaches, between the initialisation and the wrapper.\<close>

definition build_code :: "node_map \<Rightarrow> stmt option list \<Rightarrow> knc_program \<Rightarrow> (knc_program option \<times> nat) option" where
  "build_code nodes globals p =
     (if kp_entry p < 0 then Some (None, 1)
      else
        let p = program_mark_function_reachable (kp_entry p) (p\<lparr> kp_main_entry := kp_entry p \<rparr>)
        in do {
          (init, p, errors) \<leftarrow>
            (if kp_globals p \<noteq> [] \<or> kp_static_fields p \<noteq> []
             then build_global_init_function nodes globals p 0 else Some (-1, p, 0));
          if init < 0 \<and> (kp_globals p \<noteq> [] \<or> kp_static_fields p \<noteq> []) then Some (None, errors)
          else do {
            (ok, p, errors) \<leftarrow> compile_reachable_functions nodes p errors;
            if \<not> ok then Some (None, errors)
            else if init \<ge> 0
            then do {
              (entry, p) \<leftarrow> build_entry_wrapper_function nodes (kp_main_entry p) init p errors;
              Some (Some (p\<lparr> kp_entry := entry \<rparr>), errors)
            }
            else Some (Some p, errors)
          }
        })"

text \<open>The program that is written, or nothing where \<open>kn_emit_knc\<close> returns -1 before it writes.\<close>

definition kn_emit_knc_program :: "amem \<Rightarrow> node_map \<Rightarrow> cstr \<Rightarrow> bool \<Rightarrow> func list \<Rightarrow> class_decl list \<Rightarrow>
    interface_decl list \<Rightarrow> struct_decl list \<Rightarrow> enum_decl list \<Rightarrow> stmt option list \<Rightarrow>
    knc_program option option" where
  "kn_emit_knc_program m nodes entry superloop funcs classes interfaces structs enums globals =
     (if funcs = [] then Some None
      else do {
        (ok, p) \<leftarrow> build_tables m (entry_or_main entry) superloop funcs classes interfaces structs enums globals;
        if \<not> ok then Some None
        else do { (r, errors) \<leftarrow> build_code nodes globals p; Some r }
      })"

end
