(* ===== verification/KncFile.thy ===== *)
theory KncFile
  imports KncBuild
begin

unbundle bit_operations_syntax

text \<open>
  The file \<open>write_program_file\<close> of \<open>apps/kinal/src/kn_knc.c\<close> writes, as its sequence of bytes. A
  write that the system refuses ends the routine with an error and is not modelled.

  The second half is a reader of the format, the inverse of the writer. It is the specification of
  what the machine that loads the file has to do, which is not C code.
\<close>

type_synonym bytes = "8 word list"

subsection \<open>The writers\<close>

definition write_u8 :: "int \<Rightarrow> bytes" where
  "write_u8 v = [word_of_int v]"

definition write_u16 :: "int \<Rightarrow> bytes" where
  "write_u16 v = (let w = word_of_int v :: 16 word in [ucast (w AND 0xFF), ucast (drop_bit 8 w AND 0xFF)])"

definition write_u32 :: "32 word \<Rightarrow> bytes" where
  "write_u32 w = [ucast (w AND 0xFF), ucast (drop_bit 8 w AND 0xFF), ucast (drop_bit 16 w AND 0xFF),
     ucast (drop_bit 24 w AND 0xFF)]"

definition write_i32 :: "int \<Rightarrow> bytes" where
  "write_i32 v = write_u32 (word_of_int v)"

definition write_f64 :: "u64 \<Rightarrow> bytes" where
  "write_f64 w = map (\<lambda>i. ucast (drop_bit (8 * i) w AND 0xFF)) [0..<8]"

definition char_byte :: "char \<Rightarrow> 8 word" where
  "char_byte c = word_of_nat (of_char c)"

text \<open>The length, then the characters up to the terminator; a null pointer is the empty string.\<close>

definition write_string :: "cstr \<Rightarrow> bytes" where
  "write_string s =
     (let len = kn_strlen s
      in write_u32 (word_of_nat len) @
         (if (word_of_nat len :: 32 word) = 0 then []
          else map char_byte (take (unat (word_of_nat len :: 32 word)) (the s))))"

definition write_type :: "knc_type_record \<Rightarrow> bytes" where
  "write_type t =
     write_u8 (knc_type_kind_code (kt_kind t)) @ write_u8 0 @ write_u16 0 @
     write_i32 (kt_field_count t) @ write_i32 (kt_base_type t) @
     write_i32 (int (length (kt_vtable t))) @ write_i32 (int (length (kt_interfaces t))) @
     write_string (kt_qname t) @ concat (map write_i32 (kt_vtable t)) @
     concat (map write_i32 (kt_interfaces t))"

definition write_function :: "knc_func_record \<Rightarrow> bytes" where
  "write_function r =
     write_i32 (kf_param_count r) @ write_i32 (kf_reg_count r) @ write_i32 (kf_return_kind r) @
     write_string (kf_debug_name r) @ write_i32 (int (length (kf_code r))) @ kf_code r"

definition write_program_file :: "knc_program \<Rightarrow> bytes" where
  "write_program_file p =
     map char_byte ''KNC2'' @ write_u16 2 @ write_u16 0 @ write_i32 (kp_entry p) @
     write_i32 (int (length (kp_globals p))) @ write_i32 (int (length (kp_ints p))) @
     write_i32 (int (length (kp_floats p))) @ write_i32 (int (length (kp_strings p))) @
     write_i32 (int (length (kp_types p))) @ write_i32 (int (length (kp_funcs p))) @
     concat (map write_i32 (kp_ints p)) @ concat (map write_f64 (kp_floats p)) @
     concat (map write_string (kp_strings p)) @ concat (map write_type (kp_types p)) @
     concat (map write_function (kp_funcs p))"

subsection \<open>The reader\<close>

type_synonym 'a reader = "bytes \<Rightarrow> ('a \<times> bytes) option"

definition read_u8 :: "8 word reader" where
  "read_u8 bs = (case bs of b # bs \<Rightarrow> Some (b, bs) | [] \<Rightarrow> None)"

fun read_many :: "'a reader \<Rightarrow> nat \<Rightarrow> 'a list reader" where
  "read_many rd 0 bs = Some ([], bs)"
| "read_many rd (Suc n) bs = do { (x, bs) \<leftarrow> rd bs; (xs, bs) \<leftarrow> read_many rd n bs; Some (x # xs, bs) }"

definition read_le :: "nat \<Rightarrow> nat reader" where
  "read_le n bs = do {
     (ds, bs) \<leftarrow> read_many read_u8 n bs;
     Some (foldr (\<lambda>b v. unat b + 256 * v) ds 0, bs)
   }"

definition read_i32 :: "int reader" where
  "read_i32 bs = do { (v, bs) \<leftarrow> read_le 4 bs; Some (sint (word_of_nat v :: 32 word), bs) }"

definition read_f64 :: "u64 reader" where
  "read_f64 bs = do { (v, bs) \<leftarrow> read_le 8 bs; Some (word_of_nat v, bs) }"

definition read_string :: "char list reader" where
  "read_string bs = do {
     (n, bs) \<leftarrow> read_le 4 bs;
     (cs, bs) \<leftarrow> read_many read_u8 n bs;
     Some (map (\<lambda>b. char_of (unat b)) cs, bs)
   }"

text \<open>What the file tells of a type and of a function.\<close>

datatype file_type = FileType (ft_kind: int) (ft_fields: int) (ft_base: int) (ft_name: "char list")
  (ft_vtable: "int list") (ft_interfaces: "int list")

datatype file_function = FileFunction (ff_params: int) (ff_registers: int) (ff_return: int)
  (ff_name: "char list") (ff_code: bytes)

datatype file_program = FileProgram (fp_entry: int) (fp_globals: int) (fp_ints: "int list")
  (fp_floats: "u64 list") (fp_strings: "char list list") (fp_types: "file_type list")
  (fp_functions: "file_function list")

definition read_type :: "file_type reader" where
  "read_type bs = do {
     (kind, bs) \<leftarrow> read_u8 bs;
     (_, bs) \<leftarrow> read_le 3 bs;
     (fields, bs) \<leftarrow> read_i32 bs;
     (base, bs) \<leftarrow> read_i32 bs;
     (nv, bs) \<leftarrow> read_i32 bs;
     (ni, bs) \<leftarrow> read_i32 bs;
     (name, bs) \<leftarrow> read_string bs;
     (vt, bs) \<leftarrow> read_many read_i32 (nat nv) bs;
     (is, bs) \<leftarrow> read_many read_i32 (nat ni) bs;
     Some (FileType (uint kind) fields base name vt is, bs)
   }"

definition read_function :: "file_function reader" where
  "read_function bs = do {
     (params, bs) \<leftarrow> read_i32 bs;
     (registers, bs) \<leftarrow> read_i32 bs;
     (ret, bs) \<leftarrow> read_i32 bs;
     (name, bs) \<leftarrow> read_string bs;
     (n, bs) \<leftarrow> read_i32 bs;
     (code, bs) \<leftarrow> read_many read_u8 (nat n) bs;
     Some (FileFunction params registers ret name code, bs)
   }"

definition read_program :: "file_program reader" where
  "read_program bs = do {
     (magic, bs) \<leftarrow> read_many read_u8 4 bs;
     (version, bs) \<leftarrow> read_le 2 bs;
     (_, bs) \<leftarrow> read_le 2 bs;
     if magic \<noteq> map char_byte ''KNC2'' \<or> version \<noteq> 2 then None
     else do {
       (entry, bs) \<leftarrow> read_i32 bs;
       (globals, bs) \<leftarrow> read_i32 bs;
       (ni, bs) \<leftarrow> read_i32 bs;
       (nf, bs) \<leftarrow> read_i32 bs;
       (ns, bs) \<leftarrow> read_i32 bs;
       (nt, bs) \<leftarrow> read_i32 bs;
       (nfn, bs) \<leftarrow> read_i32 bs;
       (ints, bs) \<leftarrow> read_many read_i32 (nat ni) bs;
       (floats, bs) \<leftarrow> read_many read_f64 (nat nf) bs;
       (strings, bs) \<leftarrow> read_many read_string (nat ns) bs;
       (types, bs) \<leftarrow> read_many read_type (nat nt) bs;
       (functions, bs) \<leftarrow> read_many read_function (nat nfn) bs;
       Some (FileProgram entry globals ints floats strings types functions, bs)
     }
   }"

text \<open>What is kept of a program, and the bounds of the fields of the format.\<close>

definition text_of :: "cstr \<Rightarrow> char list" where
  "text_of s = (case s of None \<Rightarrow> [] | Some t \<Rightarrow> t)"

definition type_image :: "knc_type_record \<Rightarrow> file_type" where
  "type_image t = FileType (knc_type_kind_code (kt_kind t)) (kt_field_count t) (kt_base_type t)
     (text_of (kt_qname t)) (kt_vtable t) (kt_interfaces t)"

definition function_image :: "knc_func_record \<Rightarrow> file_function" where
  "function_image r = FileFunction (kf_param_count r) (kf_reg_count r) (kf_return_kind r)
     (text_of (kf_debug_name r)) (kf_code r)"

definition program_image :: "knc_program \<Rightarrow> file_program" where
  "program_image p = FileProgram (kp_entry p) (int (length (kp_globals p))) (kp_ints p) (kp_floats p)
     (map text_of (kp_strings p)) (map type_image (kp_types p)) (map function_image (kp_funcs p))"

definition is_i32 :: "int \<Rightarrow> bool" where
  "is_i32 v \<longleftrightarrow> - (2 ^ 31) \<le> v \<and> v < 2 ^ 31"

definition fits :: "'a list \<Rightarrow> bool" where
  "fits xs \<longleftrightarrow> length xs < 2 ^ 31"

definition type_fits :: "knc_type_record \<Rightarrow> bool" where
  "type_fits t \<longleftrightarrow> is_i32 (kt_field_count t) \<and> is_i32 (kt_base_type t) \<and> fits (kt_vtable t) \<and>
     fits (kt_interfaces t) \<and> c_string (text_of (kt_qname t)) \<and> fits (text_of (kt_qname t)) \<and>
     list_all is_i32 (kt_vtable t) \<and> list_all is_i32 (kt_interfaces t)"

definition function_fits :: "knc_func_record \<Rightarrow> bool" where
  "function_fits r \<longleftrightarrow> is_i32 (kf_param_count r) \<and> is_i32 (kf_reg_count r) \<and> is_i32 (kf_return_kind r) \<and>
     c_string (text_of (kf_debug_name r)) \<and> fits (text_of (kf_debug_name r)) \<and> fits (kf_code r)"

definition program_fits :: "knc_program \<Rightarrow> bool" where
  "program_fits p \<longleftrightarrow> is_i32 (kp_entry p) \<and> fits (kp_globals p) \<and> fits (kp_ints p) \<and> fits (kp_floats p) \<and>
     fits (kp_strings p) \<and> fits (kp_types p) \<and> fits (kp_funcs p) \<and> list_all is_i32 (kp_ints p) \<and>
     list_all (\<lambda>s. c_string (text_of s) \<and> fits (text_of s)) (kp_strings p) \<and>
     list_all type_fits (kp_types p) \<and> list_all function_fits (kp_funcs p)"

end
