(* ===== verification/KncFileProps.thy ===== *)
theory KncFileProps
  imports KncFile
begin

text \<open>
  The file of a program determines the program: the reader gives back every field that the writer
  was given, as long as the counts and numbers fit their fields. The parts of the format are codecs;
  a list is written by its elements one after the other, which is proved once.
\<close>

locale codec =
  fixes enc :: "'a \<Rightarrow> bytes"
    and dec :: "'b reader"
    and img :: "'a \<Rightarrow> 'b"
    and ok :: "'a \<Rightarrow> bool"
  assumes dec_enc: "ok x \<Longrightarrow> dec (enc x @ rest) = Some (img x, rest)"
begin

lemma many:
  "list_all ok xs \<Longrightarrow> read_many dec (length xs) (concat (map enc xs) @ rest) = Some (map img xs, rest)"
  by (induction xs) (simp_all add: dec_enc)

lemma many_last:
  "list_all ok xs \<Longrightarrow> read_many dec (length xs) (concat (map enc xs)) = Some (map img xs, [])"
  using many [of xs "[]"] by simp

end

lemma read_bytes: "read_many read_u8 (length bs) (bs @ rest) = Some (bs, rest)"
  by (induction bs) (simp_all add: read_u8_def)

lemma read_bytes_n: "n = length bs \<Longrightarrow> read_many read_u8 n (bs @ rest) = Some (bs, rest)"
  by (simp add: read_bytes)

lemma byte_at:
  fixes w :: "'a::len word"
  shows "unat (ucast (drop_bit k w AND 0xFF) :: 8 word) = unat w div 2 ^ k mod 2 ^ 8"
proof -
  have "drop_bit k w AND 0xFF = take_bit 8 (drop_bit k w)"
    by (simp add: take_bit_eq_mask mask_eq_exp_minus_1)
  then have "unat (ucast (drop_bit k w AND 0xFF) :: 8 word) = take_bit 8 (take_bit 8 (drop_bit k (unat w)))"
    by (simp only: unsigned_ucast_eq unsigned_take_bit_eq unsigned_drop_bit_eq)
      (simp add: take_bit_nat_eq_self [OF unsigned_less])
  also have "\<dots> = take_bit 8 (drop_bit k (unat w))" by (simp only: take_bit_take_bit min.idem)
  finally show ?thesis by (simp only: drop_bit_eq_div take_bit_eq_mod)
qed

text \<open>A number is the value of its digits to the base 256, the lowest first.\<close>

definition le_digits :: "nat \<Rightarrow> nat \<Rightarrow> nat list" where
  "le_digits k n = map (\<lambda>i. n div 256 ^ i mod 256) [0..<k]"

lemma le_digits_Suc: "le_digits (Suc k) n = n mod 256 # le_digits k (n div 256)"
  by (simp add: le_digits_def upt_conv_Cons map_Suc_upt [symmetric] div_mult2_eq del: upt_Suc)

lemma le_value: "foldr (\<lambda>d v. d + 256 * v) (le_digits k n) 0 = n mod 256 ^ k"
proof (induction k arbitrary: n)
  case (Suc k)
  then show ?case by (simp add: le_digits_Suc mod_mult2_eq)
qed (simp add: le_digits_def)

lemma read_le_digits:
  assumes "map unat ws = le_digits k n" "n < 256 ^ k"
  shows "read_le k (ws @ rest) = Some (n, rest)"
proof -
  have "length ws = k" using arg_cong [OF assms(1), of length] by (simp add: le_digits_def)
  moreover have "foldr (\<lambda>b v. unat b + 256 * v) ws 0 = foldr (\<lambda>d v. d + 256 * v) (map unat ws) 0"
    by (simp add: foldr_map comp_def)
  ultimately show ?thesis using assms le_value [of k n] by (simp add: read_le_def read_bytes_n)
qed

lemma read_u32: "read_le 4 (write_u32 w @ rest) = Some (unat w, rest)"
proof (rule read_le_digits)
  show "map unat (write_u32 w) = le_digits 4 (unat w)"
    using byte_at [of 0 w] byte_at [of 8 w] byte_at [of 16 w] byte_at [of 24 w]
    by (simp add: write_u32_def le_digits_def upt_conv_Cons)
  show "unat w < 256 ^ 4" using unsigned_less [of w, where 'a = nat] by simp
qed

lemma read_u16: "read_le 2 (write_u16 v @ rest) = Some (unat (word_of_int v :: 16 word), rest)"
proof (rule read_le_digits)
  show "map unat (write_u16 v) = le_digits 2 (unat (word_of_int v :: 16 word))"
    using byte_at [of 0 "word_of_int v :: 16 word"] byte_at [of 8 "word_of_int v :: 16 word"]
    by (simp add: write_u16_def Let_def le_digits_def upt_conv_Cons)
  show "unat (word_of_int v :: 16 word) < 256 ^ 2"
    using unsigned_less [of "word_of_int v :: 16 word", where 'a = nat] by simp
qed

lemma read_u64: "read_le 8 (write_f64 w @ rest) = Some (unat w, rest)"
proof (rule read_le_digits)
  show "map unat (write_f64 w) = le_digits 8 (unat w)"
    by (simp add: write_f64_def le_digits_def byte_at power_mult del: upt_Suc)
  show "unat w < 256 ^ 8" using unsigned_less [of w, where 'a = nat] by simp
qed


interpretation i32: codec write_i32 read_i32 "\<lambda>v. v" is_i32
proof
  show "read_i32 (write_i32 v @ rest) = Some (v, rest)" if "is_i32 v" for v rest
  proof -
    have "sint (word_of_int v :: 32 word) = v"
      using that by (simp add: is_i32_def signed_of_int signed_take_bit_int_eq_self)
    then show ?thesis by (simp add: read_i32_def write_i32_def read_u32)
  qed
qed

interpretation f64: codec write_f64 read_f64 "\<lambda>v. v" "\<lambda>_. True"
  by unfold_locales (simp add: read_f64_def read_u64)

lemma char_byte_inverse: "char_of (unat (char_byte c)) = c"
proof -
  have "(of_char c :: nat) < 256" by simp
  then have "unat (char_byte c) = of_char c"
    by (simp add: char_byte_def unsigned_of_nat take_bit_nat_eq_self)
  then show ?thesis by simp
qed

definition is_text :: "cstr \<Rightarrow> bool" where
  "is_text s \<longleftrightarrow> c_string (text_of s) \<and> fits (text_of s)"

interpretation string: codec write_string read_string text_of is_text
proof
  show "read_string (write_string s @ rest) = Some (text_of s, rest)" if "is_text s" for s rest
  proof -
    have "kn_strlen s = length (text_of s)" by (cases s) (simp_all add: text_of_def)
    moreover have "length (text_of s) < 2 ^ 31" using that by (simp add: is_text_def fits_def)
    moreover from this have "unat (word_of_nat (length (text_of s)) :: 32 word) = length (text_of s)"
      by (simp add: unsigned_of_nat take_bit_nat_eq_self)
    moreover from this have "(word_of_nat (length (text_of s)) :: 32 word) = 0 \<longleftrightarrow> text_of s = []"
      by (metis length_0_conv unat_eq_zero unsigned_0)
    moreover have "text_of s \<noteq> [] \<Longrightarrow> the s = text_of s" by (cases s) (simp_all add: text_of_def)
    ultimately show ?thesis
      by (simp add: read_string_def write_string_def Let_def read_u32 read_bytes_n comp_def char_byte_inverse)
  qed
qed

lemma length_i32: "fits xs \<Longrightarrow> is_i32 (int (length xs))"
  by (simp add: fits_def is_i32_def)

lemma type_kind_byte: "uint (word_of_int (knc_type_kind_code k) :: 8 word) = knc_type_kind_code k"
  by (cases k) (simp_all add: knc_type_kind_code_def)

interpretation type_record: codec write_type read_type type_image type_fits
proof
  show "read_type (write_type t @ rest) = Some (type_image t, rest)" if "type_fits t" for t rest
  proof -
    have kind: "read_u8 (write_u8 v @ r) = Some (word_of_int v, r)" for v r
      by (simp add: read_u8_def write_u8_def)
    have pad: "read_le 3 (write_u8 0 @ write_u16 0 @ r) = Some (0, r)" for r
    proof -
      have z: "write_u8 0 @ write_u16 0 @ r = [0, 0, 0] @ r"
        by (simp add: write_u8_def write_u16_def Let_def)
      show ?thesis unfolding z by (rule read_le_digits) (simp_all add: le_digits_def upt_conv_Cons)
    qed
    from that have i: "is_i32 (kt_field_count t)" "is_i32 (kt_base_type t)"
      and l: "is_i32 (int (length (kt_vtable t)))" "is_i32 (int (length (kt_interfaces t)))"
      and s: "is_text (kt_qname t)"
      and m: "list_all is_i32 (kt_vtable t)" "list_all is_i32 (kt_interfaces t)"
      by (simp_all add: type_fits_def is_text_def length_i32)
    show ?thesis
      unfolding read_type_def write_type_def append_assoc
      by (simp only: kind pad i [THEN i32.dec_enc] l [THEN i32.dec_enc] m [THEN i32.many] nat_int
          s [THEN string.dec_enc] Option.bind.bind_lunit prod.case type_image_def type_kind_byte list.map_ident)
  qed
qed

interpretation function_record: codec write_function read_function function_image function_fits
proof
  show "read_function (write_function r @ rest) = Some (function_image r, rest)" if "function_fits r" for r rest
    using that length_i32 [of "kf_code r"]
    by (simp add: function_fits_def read_function_def write_function_def i32.dec_enc string.dec_enc
        is_text_def read_bytes function_image_def)
qed

text \<open>
  C4: a program whose counts and numbers fit their fields is read back from its file exactly.
\<close>

theorem program_file_roundtrip:
  assumes "program_fits p"
  shows "read_program (write_program_file p) = Some (program_image p, [])"
proof -
  note fits = assms [unfolded program_fits_def]
  have magic: "read_many read_u8 4 (map char_byte ''KNC2'' @ r) = Some (map char_byte ''KNC2'', r)" for r
    by (rule read_bytes_n) simp
  have version: "read_le 2 (write_u16 2 @ r) = Some (2, r)" "read_le 2 (write_u16 0 @ r) = Some (0, r)" for r
    by (simp_all add: read_u16)
  have c: "is_i32 (kp_entry p)" "is_i32 (int (length (kp_globals p)))" "is_i32 (int (length (kp_ints p)))"
    "is_i32 (int (length (kp_floats p)))" "is_i32 (int (length (kp_strings p)))"
    "is_i32 (int (length (kp_types p)))" "is_i32 (int (length (kp_funcs p)))"
    using fits by (simp_all add: length_i32)
  have lists: "list_all is_i32 (kp_ints p)" "list_all (\<lambda>_. True) (kp_floats p)"
    "list_all is_text (kp_strings p)" "list_all type_fits (kp_types p)" "list_all function_fits (kp_funcs p)"
    using fits by (simp_all add: list_all_iff is_text_def)
  show ?thesis
    unfolding read_program_def write_program_file_def append_assoc
    by (simp only: magic version c [THEN i32.dec_enc] lists(1) [THEN i32.many] lists(2) [THEN f64.many]
        lists(3) [THEN string.many] lists(4) [THEN type_record.many] lists(5) [THEN function_record.many_last]
        Option.bind.bind_lunit prod.case nat_int program_image_def list.map_ident if_False simp_thms)
qed

definition sample_program :: knc_program where
  "sample_program =
     push_func ((own_record ''Main'' (start_program True [] [] [] []))\<lparr> kf_code := [58, 255] \<rparr>)
       ((start_program True [] [] [] [])\<lparr> kp_ints := [-1, 70000], kp_floats := [0x3FF0000000000000],
          kp_strings := [Some ''hi'', None],
          kp_types := [\<lparr> kt_qname = Some ''A'', kt_kind = KNC_TYPE_CLASS, kt_field_count = 2,
            kt_base_type = -1, kt_vtable = [0, -1], kt_interfaces = [], kt_direct_methods = [0] \<rparr>] \<rparr>)"

theorem program_file_roundtrip_witness:
  "program_fits sample_program \<and>
   read_program (write_program_file sample_program) =
     Some (FileProgram (-1) 0 [-1, 70000] [0x3FF0000000000000] [''hi'', []]
       [FileType 1 2 (-1) ''A'' [0, -1] []] [FileFunction 0 0 0 ''Main'' [58, 255]], [])"
proof -
  have f: "program_fits sample_program"
    by (simp add: sample_program_def push_func_def own_record_def start_program_def program_fits_def
        type_fits_def function_fits_def fits_def is_i32_def text_of_def c_string_def NUL_def)
  have "program_image sample_program =
     FileProgram (-1) 0 [-1, 70000] [0x3FF0000000000000] [''hi'', []]
       [FileType 1 2 (-1) ''A'' [0, -1] []] [FileFunction 0 0 0 ''Main'' [58, 255]]"
    by (simp add: sample_program_def push_func_def own_record_def start_program_def program_image_def
        type_image_def function_image_def text_of_def knc_type_kind_code_def)
  with f program_file_roundtrip [OF f] show ?thesis by simp
qed

end
