(* ===== verification/KncEmitProps.thy ===== *)
theory KncEmitProps
  imports KncCodeProps KncBuild
begin

text \<open>
  What every routine of the emitter keeps of the code it is given: the code is a sequence of whole
  instructions, and every jump in it goes to the start of an instruction or to the end. A jump that
  is still to be patched goes to 0, the start of the function.

  The first part is about code alone, the second states the invariant of the state and gives the
  rules by which it is followed through a routine, the third follows it through the routines of
  \<open>KncEmit\<close>.
\<close>

subsection \<open>Positions in code\<close>

abbreviation instruction_size :: "8 word \<Rightarrow> nat" where
  "instruction_size b \<equiv> nat (knc_instruction_size (uint b))"

lemma instruction_length: "is_instruction i \<Longrightarrow> length i = instruction_size (hd i)"
  and instruction_ne: "is_instruction i \<Longrightarrow> i \<noteq> []"
  by (simp_all add: is_instruction_def)

lemma code_ok_cases:
  assumes "code_ok c" "c \<noteq> []"
  obtains i d where "c = i @ d" "is_instruction i" "code_ok d"
proof -
  obtain instrs where i: "c = concat instrs" "\<forall>i \<in> set instrs. is_instruction i"
    using assms(1) by (auto simp: code_ok_def)
  then obtain j js where "instrs = j # js" using assms(2) by (cases instrs) auto
  then show ?thesis using i that [of j "concat js"] by (auto simp: code_ok_def)
qed

text \<open>Instructions are read in one way only: what follows whole instructions in code is code.\<close>

lemma code_ok_suffix:
  assumes "code_ok a" "code_ok (a @ d)"
  shows "code_ok d"
proof -
  obtain instrs where "a = concat instrs" "\<forall>i \<in> set instrs. is_instruction i"
    using assms(1) by (auto simp: code_ok_def)
  then show ?thesis using assms(2)
  proof (induction instrs arbitrary: a)
    case (Cons i js)
    then have i: "is_instruction i" and ne: "i \<noteq> []" and ok: "code_ok (i @ concat js @ d)"
      by (auto dest: instruction_ne)
    from ne have "i @ concat js @ d \<noteq> []" by simp
    then obtain j e where j: "i @ concat js @ d = j @ e" "is_instruction j" "code_ok e"
      using code_ok_cases [OF ok] by blast
    have "hd j = hd i" using arg_cong [OF j(1), of hd] ne instruction_ne [OF j(2)] by simp
    then have "length j = length i" by (simp only: instruction_length [OF i] instruction_length [OF j(2)])
    then have "concat js @ d = e" using j(1) by simp
    then show ?case using Cons.IH [of "concat js"] Cons.prems(2) j(3) by auto
  qed simp
qed

definition boundary :: "code \<Rightarrow> nat \<Rightarrow> bool" where
  "boundary c n \<longleftrightarrow> n \<le> length c \<and> code_ok (take n c)"

text \<open>The opcodes whose last two bytes are a target.\<close>

definition is_jump :: "8 word \<Rightarrow> bool" where
  "is_jump b \<longleftrightarrow> uint b \<in> {KNC_OP_JUMP, KNC_OP_JUMP_IF_FALSE, KNC_OP_JUMP_IF_TRUE, KNC_OP_PUSH_TRY} \<or>
     KNC_OP_JUMP_IF_INT_LT_FALSE \<le> uint b \<and> uint b \<le> KNC_OP_JUMP_IF_INT_NE_FALSE \<or>
     KNC_OP_LOOP_BACK_INT_LT_INC \<le> uint b \<and> uint b \<le> KNC_OP_LOOP_BACK_INT_NE_DEC"

text \<open>The start of a jump and the position of its target.\<close>

definition jump_at :: "code \<Rightarrow> nat \<Rightarrow> bool" where
  "jump_at c n \<longleftrightarrow> n < length c \<and> boundary c n \<and> is_jump (c ! n)"

definition target_pos :: "code \<Rightarrow> nat \<Rightarrow> nat" where
  "target_pos c n = n + instruction_size (c ! n) - 2"

definition jump_operand :: "code \<Rightarrow> int \<Rightarrow> bool" where
  "jump_operand c p \<longleftrightarrow> (\<exists>n. jump_at c n \<and> p = int (target_pos c n))"

definition jumps_ok :: "code \<Rightarrow> bool" where
  "jumps_ok c \<longleftrightarrow> (\<forall>n. jump_at c n \<longrightarrow> boundary c (nat (knc_u16_at c (target_pos c n))))"

text \<open>Positions are sixteen bits wide: nothing is said of the jumps of longer code.\<close>

definition good_code :: "code \<Rightarrow> bool" where
  "good_code c \<longleftrightarrow> code_ok c \<and> (length c < 65536 \<longrightarrow> jumps_ok c)"

lemma boundary_ends: "boundary c 0" "code_ok c \<Longrightarrow> boundary c (length c)"
  by (simp_all add: boundary_def)

lemma boundary_append: "boundary c n \<Longrightarrow> boundary (c @ d) n"
  by (simp add: boundary_def)

text \<open>At a boundary before the end there is a whole instruction.\<close>

lemma boundary_instruction:
  assumes "code_ok c" "boundary c n" "n < length c"
  obtains i d where "c = take n c @ i @ d" "is_instruction i" "code_ok d" "hd i = c ! n"
    "length i = instruction_size (c ! n)"
proof -
  have ok: "code_ok (drop n c)"
    using code_ok_suffix [of "take n c" "drop n c"] assms by (simp add: boundary_def)
  have "drop n c \<noteq> []" using assms(3) by simp
  then obtain i d where i: "drop n c = i @ d" "is_instruction i" "code_ok d"
    using code_ok_cases [OF ok] by blast
  have h: "hd i = c ! n"
    using arg_cong [OF i(1), of hd] instruction_ne [OF i(2)] assms(3)
    by (simp add: hd_drop_conv_nth)
  have "c = take n c @ i @ d" using i(1) append_take_drop_id [of n c] by simp
  from that [OF this i(2,3) h] show ?thesis using instruction_length [OF i(2)] h by simp
qed

text \<open>No boundary lies inside an instruction.\<close>

lemma boundary_gap:
  assumes "code_ok c" "boundary c n" "n < length c" "boundary c k" "n < k"
  shows "n + instruction_size (c ! n) \<le> k"
proof -
  obtain i d where i: "c = take n c @ i @ d" "is_instruction i" "code_ok d" "hd i = c ! n"
    "length i = instruction_size (c ! n)"
    by (rule boundary_instruction [OF assms(1-3)])
  have "take k c = take n c @ take (k - n) (drop n c)"
    using assms(5) take_add [of n "k - n" c] by simp
  moreover have "code_ok (take n c)" "code_ok (take k c)" using assms(2,4) by (simp_all add: boundary_def)
  ultimately have ok: "code_ok (take (k - n) (drop n c))"
    using code_ok_suffix [of "take n c" "take (k - n) (drop n c)"] by simp
  have "take (k - n) (drop n c) \<noteq> []" using assms(3,5) by simp
  then obtain j e where j: "take (k - n) (drop n c) = j @ e" "is_instruction j"
    using code_ok_cases [OF ok] by blast
  have "hd j = c ! n"
    using arg_cong [OF j(1), of hd] instruction_ne [OF j(2)] assms(3,5)
    by (simp add: hd_drop_conv_nth)
  then have "instruction_size (c ! n) = length j" by (simp only: instruction_length [OF j(2)])
  moreover have "length j \<le> k - n"
    using arg_cong [OF j(1), of length] by simp
  ultimately show ?thesis using assms(5) by linarith
qed


subsection \<open>Appending and patching\<close>

lemma jump_operand_append: "jump_operand c p \<Longrightarrow> jump_operand (c @ d) p"
proof -
  assume "jump_operand c p"
  then obtain n where "jump_at c n" "p = int (target_pos c n)" by (auto simp: jump_operand_def)
  then have "jump_at (c @ d) n" "p = int (target_pos (c @ d) n)"
    by (simp_all add: jump_at_def target_pos_def nth_append boundary_append)
  then show ?thesis by (auto simp: jump_operand_def)
qed

lemma jump_size: "is_jump b \<Longrightarrow> 3 \<le> instruction_size b"
  unfolding is_jump_def knc_instruction_size_def by (elim disjE conjE insertE) auto

text \<open>The starts after appending one instruction: the old ones and the new one.\<close>

lemma jump_at_append:
  assumes "code_ok c" "is_instruction i" "jump_at (c @ i) n"
  shows "jump_at c n \<or> n = length c \<and> is_jump (hd i)"
proof (cases "n < length c")
  case True
  then show ?thesis using assms(3) by (auto simp: jump_at_def boundary_def nth_append)
next
  case False
  have "\<not> length c < n"
  proof
    assume "length c < n"
    moreover have "boundary (c @ i) (length c)" "length c < length (c @ i)"
      using assms(1) instruction_ne [OF assms(2)] by (simp_all add: boundary_def)
    moreover have "code_ok (c @ i)" using code_ok_append [OF assms(1) code_ok_instruction [OF assms(2)]] .
    ultimately have "length c + instruction_size ((c @ i) ! length c) \<le> n"
      using assms(3) by (intro boundary_gap [of "c @ i"]) (auto simp: jump_at_def)
    moreover have "(c @ i) ! length c = hd i" using instruction_ne [OF assms(2)] by (simp add: hd_conv_nth nth_append)
    ultimately show False using assms(3) instruction_length [OF assms(2)] by (simp add: jump_at_def)
  qed
  then have "n = length c" using False by simp
  then show ?thesis using assms(3) instruction_ne [OF assms(2)]
    by (simp add: jump_at_def hd_conv_nth nth_append)
qed

text \<open>An instruction that is no jump, or a jump whose target is a boundary.\<close>

lemma good_append:
  assumes g: "good_code c" and i: "is_instruction i"
    and t: "is_jump (hd i) \<Longrightarrow> length (c @ i) < 65536 \<Longrightarrow>
      boundary (c @ i) (nat (knc_u16_at i (length i - 2)))"
  shows "good_code (c @ i)"
proof -
  have ok: "code_ok c" "code_ok (c @ i)"
    using g code_ok_append [OF _ code_ok_instruction [OF i]] by (simp_all add: good_code_def)
  have "jumps_ok (c @ i)" if len: "length (c @ i) < 65536"
    unfolding jumps_ok_def
  proof (intro allI impI)
    fix n
    assume "jump_at (c @ i) n"
    then consider "jump_at c n" | "n = length c" "is_jump (hd i)" using jump_at_append [OF ok(1) i] by blast
    then show "boundary (c @ i) (nat (knc_u16_at (c @ i) (target_pos (c @ i) n)))"
    proof cases
      case 1
      then have n: "n < length c" "boundary c n" by (simp_all add: jump_at_def)
      obtain j d where j: "c = take n c @ j @ d" "is_instruction j" "code_ok d" "hd j = c ! n"
        "length j = instruction_size (c ! n)"
        by (rule boundary_instruction [OF ok(1) n(2,1)])
      have "length c = n + length j + length d" using arg_cong [OF j(1), of length] n(1) by simp
      moreover have "3 \<le> instruction_size (c ! n)" using 1 by (intro jump_size) (simp add: jump_at_def)
      ultimately have p: "target_pos c n + 1 < length c" using j(5) by (simp add: target_pos_def)
      have "target_pos (c @ i) n = target_pos c n" using n(1) by (simp add: target_pos_def nth_append)
      then have "knc_u16_at (c @ i) (target_pos (c @ i) n) = knc_u16_at c (target_pos c n)"
        using p by (simp add: knc_u16_at_def nth_append)
      then show ?thesis using g 1 len by (auto simp: good_code_def jumps_ok_def intro: boundary_append)
    next
      case 2
      then have l: "3 \<le> length i" "boundary (c @ i) (nat (knc_u16_at i (length i - 2)))"
        using t [OF 2(2) len] jump_size [OF 2(2)] instruction_length [OF i] by simp_all
      have "(c @ i) ! length c = hd i" using instruction_ne [OF i] by (simp add: hd_conv_nth nth_append)
      moreover obtain k where k: "length i = k + 2" using l(1) by (metis add.commute le_Suc_ex numeral_3_eq_3 add_2_eq_Suc' Suc_leD numeral_2_eq_2)
      ultimately have "target_pos (c @ i) n = length c + k"
        using instruction_length [OF i] 2(1) by (simp add: target_pos_def)
      then show ?thesis using l(2) k by (simp add: knc_u16_at_def nth_append)
    qed
  qed
  then show ?thesis using ok by (simp add: good_code_def)
qed


text \<open>Writing the target of a jump moves no boundary and changes no opcode.\<close>

lemma instruction_update:
  "is_instruction i \<Longrightarrow> 0 < k \<Longrightarrow> is_instruction (i[k := x, Suc k := y])"
  by (cases i; cases k) (auto simp: is_instruction_def)

lemma update_boundary:
  assumes ok: "code_ok c" and j: "jump_at c m" and n: "boundary c n" and p: "p = target_pos c m"
  shows "boundary (c[p := x, Suc p := y]) n"
proof (cases "n \<le> m")
  case True
  moreover have "m < p" using j jump_size [of "c ! m"] by (simp add: p target_pos_def jump_at_def)
  ultimately have "length (take n c) \<le> p" by simp
  then have "take n (c[p := x, Suc p := y]) = take n c"
    by (simp add: take_update_swap list_update_beyond)
  then show ?thesis using n by (simp add: boundary_def)
next
  case False
  have m: "m < length c" "boundary c m" and size: "3 \<le> instruction_size (c ! m)"
    using j jump_size by (auto simp: jump_at_def)
  have t: "code_ok (take n c)" "boundary (take n c) m" "m < length (take n c)"
    using m n False by (simp_all add: boundary_def min_absorb1)
  obtain i d where i: "take n c = take m (take n c) @ i @ d" "is_instruction i" "code_ok d"
    "hd i = take n c ! m" "length i = instruction_size (take n c ! m)"
    by (rule boundary_instruction [OF t])
  define k where "k = p - m"
  have k: "p = m + k" "0 < k" "Suc k < length i"
    using size i(5) False by (auto simp: k_def p target_pos_def)
  have split: "take n c = take m c @ i @ d" using i(1) False by (simp add: min_absorb1)
  have "take n (c[p := x, Suc p := y]) = (take n c)[p := x, Suc p := y]"
    by (simp add: take_update_swap)
  also have "\<dots> = take m c @ i[k := x, Suc k := y] @ d"
    using k m(1) by (simp add: split list_update_append min_absorb1)
  finally have "code_ok (take n (c[p := x, Suc p := y]))"
    using code_ok_append [OF _ code_ok_append [OF code_ok_instruction [OF instruction_update [OF i(2) k(2)]] i(3)]]
      m(2) by (simp add: boundary_def)
  then show ?thesis using n by (simp add: boundary_def)
qed

lemma update_opcode:
  assumes "code_ok c" "jump_at c m" "boundary c n" "p = target_pos c m"
  shows "c[p := x, Suc p := y] ! n = c ! n"
proof -
  have "m < n \<Longrightarrow> m + instruction_size (c ! m) \<le> n"
    using boundary_gap [OF assms(1) _ _ assms(3)] assms(2) by (simp add: jump_at_def)
  moreover have "3 \<le> instruction_size (c ! m)" using assms(2) jump_size by (simp add: jump_at_def)
  ultimately have "n \<noteq> p" "n \<noteq> Suc p" unfolding assms(4) target_pos_def by linarith+
  then show ?thesis by simp
qed

lemma update_jump_at:
  assumes "code_ok c" "jump_at c m" "jump_at c n" "p = target_pos c m"
  shows "jump_at (c[p := x, Suc p := y]) n \<and> target_pos (c[p := x, Suc p := y]) n = target_pos c n"
proof -
  have "boundary c n" using assms(3) by (simp add: jump_at_def)
  from update_opcode [OF assms(1,2) this assms(4)] update_boundary [OF assms(1,2) this assms(4)]
  show ?thesis using assms(3) by (simp add: jump_at_def target_pos_def)
qed

lemma target_inside:
  assumes "code_ok c" "jump_at c n"
  shows "n < target_pos c n \<and> target_pos c n + 1 < length c"
proof -
  have b: "boundary c n" "n < length c" using assms(2) by (simp_all add: jump_at_def)
  obtain i d where i: "c = take n c @ i @ d" "is_instruction i" "code_ok d" "hd i = c ! n"
    "length i = instruction_size (c ! n)"
    by (rule boundary_instruction [OF assms(1) b])
  have "length c = n + length i + length d" using arg_cong [OF i(1), of length] b(2) by simp
  moreover have "3 \<le> instruction_size (c ! n)" using assms(2) jump_size by (simp add: jump_at_def)
  ultimately show ?thesis using i(5) unfolding target_pos_def by linarith
qed

text \<open>The targets of different jumps do not overlap.\<close>

lemma targets_apart:
  assumes "code_ok c" "jump_at c n" "jump_at c m" "n < m"
  shows "target_pos c n + 2 \<le> m"
proof -
  have "n + instruction_size (c ! n) \<le> m"
    using boundary_gap [OF assms(1), of n m] assms(2-4) by (simp add: jump_at_def)
  then show ?thesis using jump_size [of "c ! n"] assms(2) by (simp add: target_pos_def jump_at_def)
qed


lemma patch_good:
  assumes g: "good_code c" and j: "jump_operand c p" and patch: "patch_u16 c p v = Some c'"
    and v: "length c < 65536 \<Longrightarrow> 0 \<le> v \<and> boundary c (nat v)"
  shows "good_code c'" "boundary c n \<Longrightarrow> boundary c' n" "jump_operand c q \<Longrightarrow> jump_operand c' q"
    "length c' = length c"
proof -
  obtain m where m: "jump_at c m" "p = int (target_pos c m)" using j by (auto simp: jump_operand_def)
  define k where "k = target_pos c m"
  have ok: "code_ok c" using g by (simp add: good_code_def)
  have np: "nat (p + 1) = Suc k" "nat p = k" using m(2) by (simp_all add: k_def)
  obtain x y where c': "c' = c[k := x, Suc k := y]"
    using patch by (auto simp: patch_u16_def np split: if_splits)
  have k2: "m < k" "Suc k < length c" using target_inside [OF ok m(1)] by (simp_all add: k_def)
  show l: "length c' = length c" by (simp add: c')
  show b: "boundary c' n" if "boundary c n" for n
    using update_boundary [OF ok m(1) that] by (simp add: c' k_def)
  have ja: "jump_at c' n \<and> target_pos c' n = target_pos c n" if "jump_at c n" for n
    using update_jump_at [OF ok m(1) that] by (simp add: c' k_def)
  show "jump_operand c' q" if "jump_operand c q"
    using that ja by (metis jump_operand_def)
  have ok': "code_ok c'" using b [of "length c"] ok l by (simp add: boundary_def)
  have undo: "c = c'[k := c ! k, Suc k := c ! Suc k]" by (rule nth_equalityI) (use k2 in \<open>auto simp: c' nth_list_update\<close>)
  have rb: "jump_at c n" if "jump_at c' n" for n
    using update_jump_at [OF ok' _ that, of m k "c ! k" "c ! Suc k"] ja [OF m(1)] undo k_def by simp
  have "jumps_ok c'" if len: "length c' < 65536"
    unfolding jumps_ok_def
  proof (intro allI impI)
    fix n
    assume "jump_at c' n"
    then have n: "jump_at c n" by (rule rb)
    show "boundary c' (nat (knc_u16_at c' (target_pos c' n)))"
    proof (cases "n = m")
      case True
      have v': "0 \<le> v" "boundary c (nat v)" "v < 65536"
        using v len l by (auto simp: boundary_def)
      obtain c2 where "patch_u16 c p v = Some c2" "0 \<le> v \<and> v < 65536 \<longrightarrow> knc_u16_at c2 (nat p) = v"
        using knc_patch_reads_back [of p c v] k2 m(2) by (auto simp: k_def)
      then have "knc_u16_at c' (target_pos c' n) = v" using patch v' ja [OF n] m(2) True by simp
      then show ?thesis using v'(2) b by simp
    next
      case False
      then have "target_pos c n \<noteq> k \<and> target_pos c n \<noteq> Suc k \<and> Suc (target_pos c n) \<noteq> k"
        using targets_apart [OF ok n m(1)] targets_apart [OF ok m(1) n] k2(1) target_inside [OF ok n]
        unfolding k_def by linarith
      then have "knc_u16_at c' (target_pos c' n) = knc_u16_at c (target_pos c n)"
        using ja [OF n] by (simp add: knc_u16_at_def c')
      then show ?thesis using g n len l b by (simp add: good_code_def jumps_ok_def)
    qed
  qed
  with ok' show "good_code c'" by (simp add: good_code_def)
qed


subsection \<open>The invariant of the state\<close>

text \<open>
  A frame is what a caller relies on while a routine runs: positions it has yet to patch,
  instruction pointers it will jump to, and the start of the body of a block. The positions and
  pointers that the state keeps itself are always good.
\<close>

datatype frame = Frame (fr_pos: "int list") (fr_ips: "int list") (fr_body: int)

definition pending :: "knc_func_state \<Rightarrow> int list" where
  "pending st = concat (map (\<lambda>l. ls_break_patches l @ ls_continue_patches l) (fs_loops st)) @
     fs_start_patches st @ concat (fs_record_patches st)"

definition known_ips :: "knc_func_state \<Rightarrow> int list" where
  "known_ips st = map ls_continue_ip (fs_loops st) @ fs_record_addrs st @ [fs_body_ip st]"

text \<open>The code of the functions that are already built.\<close>

definition codes_ok :: "knc_program \<Rightarrow> bool" where
  "codes_ok p \<longleftrightarrow> (\<forall>r \<in> set (kp_funcs p). good_code (kf_code r))"

definition inv :: "frame \<Rightarrow> knc_func_state \<Rightarrow> bool" where
  "inv F st \<longleftrightarrow> good_code (fs_code st) \<and>
     (\<forall>p \<in> set (fr_pos F) \<union> set (pending st). jump_operand (fs_code st) p) \<and>
     (\<forall>b \<in> set (fr_ips F). 0 \<le> b \<and> boundary (fs_code st) (nat b)) \<and>
     (\<forall>b \<in> set (known_ips st). 0 \<le> b \<longrightarrow> boundary (fs_code st) (nat b)) \<and>
     fs_body_ip st = fr_body F \<and> codes_ok (fs_program st)"

definition push_pos :: "int \<Rightarrow> frame \<Rightarrow> frame" where
  "push_pos p F = Frame (p # fr_pos F) (fr_ips F) (fr_body F)"

definition push_ip :: "int \<Rightarrow> frame \<Rightarrow> frame" where
  "push_ip b F = Frame (fr_pos F) (b # fr_ips F) (fr_body F)"

definition sub :: "frame \<Rightarrow> frame \<Rightarrow> bool" where
  "sub F0 F \<longleftrightarrow> set (fr_pos F0) \<subseteq> set (fr_pos F) \<and> set (fr_ips F0) \<subseteq> set (fr_ips F) \<and>
     fr_body F0 = fr_body F"

lemma sub_simps [simp]:
  "sub F F" "sub F0 F \<Longrightarrow> sub F0 (push_pos p F)" "sub F0 F \<Longrightarrow> sub F0 (push_ip b F)"
  by (auto simp: sub_def push_pos_def push_ip_def)

lemma frame_simps [simp]:
  "fr_pos (push_pos p F) = p # fr_pos F" "fr_pos (push_ip b F) = fr_pos F"
  "fr_ips (push_pos p F) = fr_ips F" "fr_ips (push_ip b F) = b # fr_ips F"
  by (simp_all add: push_pos_def push_ip_def)

lemma inv_sub: "inv F st \<Longrightarrow> sub F0 F \<Longrightarrow> inv F0 st"
  by (auto simp: inv_def sub_def)

text \<open>
  \<open>grow S T\<close>: whatever frame holds of \<open>S\<close> holds of \<open>T\<close>. \<open>keeps S get m\<close>: it holds of the state that \<open>m\<close>,
  started in \<open>S\<close>, ends in. \<open>J F S get m F0\<close>: from \<open>F\<close> in \<open>S\<close> to \<open>F0\<close> at the end.
\<close>

definition grow :: "knc_func_state \<Rightarrow> knc_func_state \<Rightarrow> bool" where
  "grow S T \<longleftrightarrow> (\<forall>F. inv F S \<longrightarrow> inv F T)"

definition J :: "frame \<Rightarrow> knc_func_state \<Rightarrow> ('a \<Rightarrow> knc_func_state) \<Rightarrow> 'a option \<Rightarrow> frame \<Rightarrow> bool" where
  "J F S get m F0 \<longleftrightarrow> inv F S \<longrightarrow> (\<forall>y. m = Some y \<longrightarrow> inv F0 (get y))"

definition keeps :: "knc_func_state \<Rightarrow> ('a \<Rightarrow> knc_func_state) \<Rightarrow> 'a option \<Rightarrow> bool" where
  "keeps S get m \<longleftrightarrow> (\<forall>F. J F S get m F)"


lemma grow_refl: "grow S S"
  by (simp add: grow_def)

lemma grow_inv: "grow S T \<Longrightarrow> inv F S \<Longrightarrow> inv F T"
  by (simp add: grow_def)

subsection \<open>The rules\<close>

text \<open>Results and control.\<close>

lemma J_Some: "grow S T \<Longrightarrow> sub F0 F \<Longrightarrow> J F S snd (Some (y, T)) F0"
  and J_Some_id: "grow S T \<Longrightarrow> sub F0 F \<Longrightarrow> J F S id (Some T) F0"
  and J_None: "J F S get None F0"
  and J_if: "(c \<Longrightarrow> J F S get a F0) \<Longrightarrow> (\<not> c \<Longrightarrow> J F S get b F0) \<Longrightarrow> J F S get (if c then a else b) F0"
  and J_option: "(x = None \<Longrightarrow> J F S get a F0) \<Longrightarrow> (\<And>v. x = Some v \<Longrightarrow> J F S get (k v) F0) \<Longrightarrow>
    J F S get (case x of None \<Rightarrow> a | Some v \<Rightarrow> k v) F0"
  and J_prod: "(\<And>a b. p = (a, b) \<Longrightarrow> J F S get (k2 a b) F0) \<Longrightarrow> J F S get (case p of (a, b) \<Rightarrow> k2 a b) F0"
  and J_Let: "J F S get (h v) F0 \<Longrightarrow> J F S get (Let v h) F0"
  and J_list: "(xs = [] \<Longrightarrow> J F S get a F0) \<Longrightarrow> (\<And>z zs. xs = z # zs \<Longrightarrow> J F S get (kl z zs) F0) \<Longrightarrow>
    J F S get (case xs of [] \<Rightarrow> a | z # zs \<Rightarrow> kl z zs) F0"
  by (auto simp: J_def grow_def inv_sub split: option.splits prod.splits list.splits)

lemma J_bind:
  assumes "keeps S snd m" "\<And>x st. J F st get (k (x, st)) F0"
  shows "J F S get (Option.bind m k) F0"
  using assms by (fastforce simp: J_def keeps_def bind_eq_Some_conv)

lemma J_bind_id:
  assumes "keeps S id m" "\<And>st. J F st get (k st) F0"
  shows "J F S get (Option.bind m k) F0"
  using assms by (auto simp: J_def keeps_def bind_eq_Some_conv)

text \<open>A computation that does not touch the state.\<close>

lemma J_bind_pure: "(\<And>x. J F S get (k x) F0) \<Longrightarrow> J F S get (Option.bind m k) F0"
  by (auto simp: J_def bind_eq_Some_conv)

lemma keeps_J: "(\<And>F. J F S get m F) \<Longrightarrow> keeps S get m"
  by (simp add: keeps_def)

lemma J_keeps: "keeps S get m \<Longrightarrow> sub F0 F \<Longrightarrow> J F S get m F0"
  by (auto simp: J_def keeps_def intro: inv_sub)

lemma keeps_grow: "keeps T get m \<Longrightarrow> grow S T \<Longrightarrow> keeps S get m"
  by (simp add: keeps_def J_def grow_def)

text \<open>Changes of the state that touch neither the code nor what is pending.\<close>

lemma kept_lists [simp]:
  "pending (T\<lparr> fs_locals := ls \<rparr>) = pending T"
  "pending (T\<lparr> fs_next_reg := i \<rparr>) = pending T"
  "pending (T\<lparr> fs_max_reg := i \<rparr>) = pending T"
  "pending (T\<lparr> fs_errors := e \<rparr>) = pending T"
  "pending (T\<lparr> fs_self_type := t \<rparr>) = pending T"
  "pending (T\<lparr> fs_has_this := b \<rparr>) = pending T"
  "pending (T\<lparr> fs_in_block := b \<rparr>) = pending T"
  "pending (T\<lparr> fs_start_reg := i \<rparr>) = pending T"
  "pending (T\<lparr> fs_until_reg := i \<rparr>) = pending T"
  "pending (T\<lparr> fs_block_records := rs \<rparr>) = pending T"
  "pending (T\<lparr> fs_program := p \<rparr>) = pending T"
  "pending (T\<lparr> fs_code := c \<rparr>) = pending T"
  "known_ips (T\<lparr> fs_locals := ls \<rparr>) = known_ips T"
  "known_ips (T\<lparr> fs_next_reg := i \<rparr>) = known_ips T"
  "known_ips (T\<lparr> fs_max_reg := i \<rparr>) = known_ips T"
  "known_ips (T\<lparr> fs_errors := e \<rparr>) = known_ips T"
  "known_ips (T\<lparr> fs_self_type := t \<rparr>) = known_ips T"
  "known_ips (T\<lparr> fs_has_this := b \<rparr>) = known_ips T"
  "known_ips (T\<lparr> fs_in_block := b \<rparr>) = known_ips T"
  "known_ips (T\<lparr> fs_start_reg := i \<rparr>) = known_ips T"
  "known_ips (T\<lparr> fs_until_reg := i \<rparr>) = known_ips T"
  "known_ips (T\<lparr> fs_block_records := rs \<rparr>) = known_ips T"
  "known_ips (T\<lparr> fs_program := p \<rparr>) = known_ips T"
  "known_ips (T\<lparr> fs_code := c \<rparr>) = known_ips T"
  by (simp_all add: pending_def known_ips_def)

lemma inv_field [simp]:
  "inv F (T\<lparr> fs_locals := ls \<rparr>) = inv F T"
  "inv F (T\<lparr> fs_next_reg := i \<rparr>) = inv F T"
  "inv F (T\<lparr> fs_max_reg := i \<rparr>) = inv F T"
  "inv F (T\<lparr> fs_errors := e \<rparr>) = inv F T"
  "inv F (T\<lparr> fs_self_type := t \<rparr>) = inv F T"
  "inv F (T\<lparr> fs_has_this := b \<rparr>) = inv F T"
  "inv F (T\<lparr> fs_in_block := b \<rparr>) = inv F T"
  "inv F (T\<lparr> fs_start_reg := i \<rparr>) = inv F T"
  "inv F (T\<lparr> fs_until_reg := i \<rparr>) = inv F T"
  "inv F (T\<lparr> fs_block_records := rs \<rparr>) = inv F T"
  by (simp_all add: inv_def)

lemma grow_field:
  "grow S T \<Longrightarrow> grow S (T\<lparr> fs_locals := ls \<rparr>)"
  "grow S T \<Longrightarrow> grow S (T\<lparr> fs_next_reg := i \<rparr>)" "grow S T \<Longrightarrow> grow S (T\<lparr> fs_max_reg := i \<rparr>)"
  "grow S T \<Longrightarrow> grow S (T\<lparr> fs_errors := e \<rparr>)" "grow S T \<Longrightarrow> grow S (T\<lparr> fs_self_type := t \<rparr>)"
  "grow S T \<Longrightarrow> grow S (T\<lparr> fs_has_this := b \<rparr>)" "grow S T \<Longrightarrow> grow S (T\<lparr> fs_in_block := b \<rparr>)"
  "grow S T \<Longrightarrow> grow S (T\<lparr> fs_start_reg := i \<rparr>)" "grow S T \<Longrightarrow> grow S (T\<lparr> fs_until_reg := i \<rparr>)"
  "grow S T \<Longrightarrow> grow S (T\<lparr> fs_block_records := rs \<rparr>)"
  by (simp_all add: grow_def)

lemma inv_program:
  "inv F T \<Longrightarrow> (codes_ok (fs_program T) \<Longrightarrow> codes_ok p) \<Longrightarrow> inv F (T\<lparr> fs_program := p \<rparr>)"
  by (simp add: inv_def)

lemma grow_program:
  "grow S T \<Longrightarrow> (codes_ok (fs_program T) \<Longrightarrow> codes_ok p) \<Longrightarrow> grow S (T\<lparr> fs_program := p \<rparr>)"
  by (simp add: grow_def inv_program)

lemma grow_control:
  "(c \<Longrightarrow> grow S A) \<Longrightarrow> (\<not> c \<Longrightarrow> grow S B) \<Longrightarrow> grow S (if c then A else B)"
  "grow S (f v) \<Longrightarrow> grow S (Let v f)"
  "(x = None \<Longrightarrow> grow S A) \<Longrightarrow> (\<And>v. x = Some v \<Longrightarrow> grow S (k v)) \<Longrightarrow>
    grow S (case x of None \<Rightarrow> A | Some v \<Rightarrow> k v)"
  "(\<And>a b. p = (a, b) \<Longrightarrow> grow S (k2 a b)) \<Longrightarrow> grow S (case p of (a, b) \<Rightarrow> k2 a b)"
  by (auto split: option.splits prod.splits)

text \<open>An instruction that is no jump, given by its opcode and the length of its operands.\<close>

fun emission_length :: "emission list \<Rightarrow> nat" where
  "emission_length [] = 0"
| "emission_length (U8 v # es) = 1 + emission_length es"
| "emission_length (U16 v # es) = 2 + emission_length es"

definition opcode_byte :: "int \<Rightarrow> 8 word" where
  "opcode_byte opcode = word_of_int (opcode AND 0xff)"

definition plain :: "int \<Rightarrow> nat \<Rightarrow> bool" where
  "plain opcode n \<longleftrightarrow> knc_instruction_size (uint (opcode_byte opcode)) = int (Suc n) \<and> \<not> is_jump (opcode_byte opcode)"

lemma emit_all_append: "emit_all c es = c @ emit_all [] es"
proof (induction es arbitrary: c)
  case (Cons e es)
  show ?case
  proof (cases e)
    case (U8 v)
    then show ?thesis
      using Cons [of "emit_u8 c v"] Cons [of "emit_u8 [] v"] by (simp add: emit_u8_def)
  next
    case (U16 v)
    then show ?thesis
      using Cons [of "emit_u16 c v"] Cons [of "emit_u16 [] v"] by (simp add: emit_u16_def)
  qed
qed simp

lemma emit_all_length: "length (emit_all [] es) = emission_length es"
proof (induction es rule: emission_length.induct)
  case (2 v es)
  then show ?case by (subst emit_all.simps, subst emit_all_append) (simp add: emit_u8_def)
next
  case (3 v es)
  then show ?case by (subst emit_all.simps, subst emit_all_append) (simp add: emit_u16_def)
qed simp

lemma emit_all_U8: "emit_all [] (U8 v # es) = opcode_byte v # emit_all [] es"
  by (subst emit_all.simps, subst emit_all_append) (simp add: emit_u8_def opcode_byte_def)

lemma inv_code:
  assumes "inv F st" "fs_code T = c" "good_code c"
    and "\<And>n. boundary (fs_code st) n \<Longrightarrow> boundary c n" "\<And>p. jump_operand (fs_code st) p \<Longrightarrow> jump_operand c p"
    and "pending T = pending st" "known_ips T = known_ips st" "fs_body_ip T = fs_body_ip st"
    and "fs_program T = fs_program st"
  shows "inv F T"
  using assms by (simp add: inv_def)

lemma grow_emit:
  assumes "grow S T" "plain opcode (emission_length es)"
  shows "grow S (emit (U8 opcode # es) T)"
  unfolding grow_def
proof (intro allI impI)
  fix F
  assume "inv F S"
  then have i: "inv F T" using assms(1) by (simp add: grow_def)
  let ?i = "opcode_byte opcode # emit_all [] es"
  have code: "fs_code (emit (U8 opcode # es) T) = fs_code T @ ?i"
    using emit_all_append [of "fs_code T" "U8 opcode # es"] emit_all_U8 [of opcode es]
    unfolding emit_def by simp
  show "inv F (emit (U8 opcode # es) T)"
  proof (rule inv_code [OF i code])
    show "good_code (fs_code T @ ?i)"
      using i assms(2) by (intro good_append) (simp_all add: inv_def plain_def is_instruction_def emit_all_length)
  qed (auto intro: boundary_append jump_operand_append simp: emit_def pending_def known_ips_def)
qed


text \<open>A jump to a place that the frame knows.\<close>

definition branch :: "int \<Rightarrow> nat \<Rightarrow> bool" where
  "branch opcode n \<longleftrightarrow>
     knc_instruction_size (uint (opcode_byte opcode)) = int n + 3 \<and> is_jump (opcode_byte opcode)"

lemma emit_all_snoc: "emit_all c (es @ [U16 v]) = emit_u16 (emit_all c es) v"
  by (induction c es rule: emit_all.induct) simp_all

lemma u16_last:
  assumes "length i = Suc n" "c = i @ [word_of_int (v AND 0xff), word_of_int (drop_bit 8 v AND 0xff)]"
  shows "knc_u16_at c (length c - 2) = v mod 65536"
proof -
  have "length c - 2 = length i" using assms by simp
  then show ?thesis
    using uint_byte [of v] uint_byte [of "drop_bit 8 v"] two_bytes [of v] unfolding assms(2)
    by (simp add: knc_u16_at_def nth_append)
qed

lemma branch_code:
  assumes g: "good_code c" and b: "branch opcode (emission_length es)"
    and v: "length c < 65536 \<Longrightarrow> 0 \<le> v \<and> boundary c (nat v)"
    and d: "d = emit_all c (U8 opcode # es @ [U16 v])"
  shows "good_code d" "boundary c n \<Longrightarrow> boundary d n" "jump_operand c p \<Longrightarrow> jump_operand d p"
    "jump_operand d (int (length d) - 2)"
proof -
  let ?i = "emit_all [] (U8 opcode # es @ [U16 v])"
  have len: "length ?i = emission_length es + 3"
    using emit_all_length [of "U8 opcode # es"] emit_all_snoc [of "[]" "U8 opcode # es" v]
    by (simp add: emit_u16_def)
  have hd: "hd ?i = opcode_byte opcode" by (simp only: emit_all_U8 list.sel)
  have first: "?i ! 0 = opcode_byte opcode" by (simp only: emit_all_U8 nth_Cons_0)
  have i: "is_instruction ?i" "is_jump (hd ?i)"
    using b len hd by (auto simp: is_instruction_def branch_def)
  have d': "d = c @ ?i" using d emit_all_append by metis
  have "?i = emit_all [] (U8 opcode # es) @
      [word_of_int (v AND 0xff), word_of_int (drop_bit 8 v AND 0xff)]"
    using emit_all_snoc [of "[]" "U8 opcode # es" v] by (simp add: emit_u16_def)
  then have t: "knc_u16_at ?i (length ?i - 2) = v mod 65536"
    using emit_all_length [of "U8 opcode # es"] by (intro u16_last) simp_all
  show mono: "boundary c n \<Longrightarrow> boundary d n" "jump_operand c p \<Longrightarrow> jump_operand d p" for n p
    by (simp_all add: d' boundary_append jump_operand_append)
  show good: "good_code d"
    unfolding d'
  proof (rule good_append [OF g i(1)])
    assume "length (c @ ?i) < 65536"
    then have l: "length c < 65536" by simp
    then have "nat v \<le> length c" "0 \<le> v" using v by (auto simp: boundary_def)
    then have "v mod 65536 = v" using l by simp
    then show "boundary (c @ ?i) (nat (knc_u16_at ?i (length ?i - 2)))"
      using t v [OF l] by (simp add: boundary_append)
  qed
  have "code_ok c" "code_ok d" using g good by (simp_all add: good_code_def)
  then have "jump_at d (length c)"
    using i instruction_ne [OF i(1)] by (simp add: d' jump_at_def boundary_def nth_append hd_conv_nth)
  moreover have "target_pos d (length c) = length d - 2"
    using b first len by (simp add: target_pos_def d' nth_append branch_def del: emit_all.simps)
  moreover have "int (length d - 2) = int (length d) - 2" using len by (simp add: d')
  ultimately show "jump_operand d (int (length d) - 2)" by (auto simp: jump_operand_def)
qed


lemma J_placeholder:
  assumes "grow S T" "branch opcode (emission_length es)"
    and f: "f = (\<lambda>c. let c = emit_all c (U8 opcode # es @ [U16 0]) in (int (length c) - 2, c))"
    and k: "\<And>pos st. J (push_pos pos F) st get (k pos st) F0"
  shows "J F S get (case st_placeholder f T of (pos, st) \<Rightarrow> k pos st) F0"
  unfolding J_def
proof (intro impI allI)
  fix y
  assume "inv F S" and y: "(case st_placeholder f T of (pos, st) \<Rightarrow> k pos st) = Some y"
  then have i: "inv F T" using assms(1) by (simp add: grow_def)
  let ?c = "emit_all (fs_code T) (U8 opcode # es @ [U16 0])"
  let ?st = "T\<lparr> fs_code := ?c \<rparr>"
  have g: "good_code (fs_code T)" using i by (simp add: inv_def)
  have z: "0 \<le> (0 :: int) \<and> boundary (fs_code T) (nat 0)" by (simp add: boundary_ends)
  note c = branch_code [OF g assms(2) z refl]
  have "inv F ?st"
    by (rule inv_code [OF i, of ?st ?c]) (use c in \<open>simp_all add: pending_def known_ips_def\<close>)
  moreover have "jump_operand (fs_code ?st) (int (length ?c) - 2)" using c(4) by simp
  ultimately have "inv (push_pos (int (length ?c) - 2) F) ?st"
    by (simp add: inv_def push_pos_def del: emit_all.simps)
  then show "inv F0 (get y)"
    using k [of "int (length ?c) - 2" ?st] y
    by (simp add: J_def st_placeholder_def f Let_def del: emit_all.simps)
qed

lemma J_branch:
  assumes "grow S T" "\<And>pos st. J (push_pos pos F) st get (k pos st) F0"
  shows "branch opcode 0 \<Longrightarrow> J F S get (case st_jump opcode T of (pos, st) \<Rightarrow> k pos st) F0"
    and "branch opcode 1 \<Longrightarrow> J F S get (case st_branch opcode reg T of (pos, st) \<Rightarrow> k pos st) F0"
    and "branch opcode 2 \<Longrightarrow> J F S get (case st_cmp_branch opcode lhs rhs T of (pos, st) \<Rightarrow> k pos st) F0"
    and "J F S get (case st_try reg kind payload T of (pos, st) \<Rightarrow> k pos st) F0"
proof -
  note p = J_placeholder [OF assms(1) _ _ assms(2)]
  show "branch opcode 0 \<Longrightarrow> J F S get (case st_jump opcode T of (pos, st) \<Rightarrow> k pos st) F0"
    unfolding st_jump_def by (rule p [of opcode "[]"]) (simp_all add: emit_jump_placeholder_def)
  show "branch opcode 1 \<Longrightarrow> J F S get (case st_branch opcode reg T of (pos, st) \<Rightarrow> k pos st) F0"
    unfolding st_branch_def by (rule p [of opcode "[U8 reg]"]) (simp_all add: emit_branch_placeholder_def)
  show "branch opcode 2 \<Longrightarrow> J F S get (case st_cmp_branch opcode lhs rhs T of (pos, st) \<Rightarrow> k pos st) F0"
    unfolding st_cmp_branch_def
    by (rule p [of opcode "[U8 lhs, U8 rhs]"]) (simp_all add: emit_cmp_branch_placeholder_def numeral_2_eq_2)
  show "J F S get (case st_try reg kind payload T of (pos, st) \<Rightarrow> k pos st) F0"
    unfolding st_try_def
    by (rule p [of KNC_OP_PUSH_TRY "[U8 reg, U8 (is_target_code kind), U16 payload]"])
      (simp_all add: emit_try_placeholder_def branch_def is_jump_def opcode_byte_def knc_instruction_size_def)
qed

text \<open>The known opcodes.\<close>

lemmas opcode_simps = plain_def branch_def is_jump_def opcode_byte_def knc_instruction_size_def

lemma branch_opcodes [simp]:
  "branch KNC_OP_JUMP 0" "branch KNC_OP_JUMP_IF_FALSE 1" "branch KNC_OP_JUMP_IF_TRUE 1"
  by (simp_all add: opcode_simps)

text \<open>Patching, with the current end of the code or a pointer that the frame knows.\<close>

lemma patch_inv:
  assumes i: "inv F T" and pos: "pos \<in> set (fr_pos F) \<union> set (pending T)"
    and t: "t = st_ip T \<or> t \<in> set (fr_ips F) \<or> 0 \<le> t \<and> t \<in> set (known_ips T)"
    and p: "patch_u16 (fs_code T) pos t = Some c"
  shows "inv F (T\<lparr> fs_code := c \<rparr>)" "length c = length (fs_code T)"
proof -
  have "0 \<le> t \<and> boundary (fs_code T) (nat t)"
    using i t by (auto simp: inv_def st_ip_def current_ip_def good_code_def boundary_ends)
  moreover have "good_code (fs_code T)" "jump_operand (fs_code T) pos"
    using i pos by (auto simp: inv_def)
  ultimately have g: "good_code c" "\<And>n. boundary (fs_code T) n \<Longrightarrow> boundary c n"
    "\<And>q. jump_operand (fs_code T) q \<Longrightarrow> jump_operand c q" "length c = length (fs_code T)"
    using patch_good [OF _ _ p] by blast+
  show "inv F (T\<lparr> fs_code := c \<rparr>)"
    by (rule inv_code [OF i, of "T\<lparr> fs_code := c \<rparr>" c]) (use g in \<open>simp_all add: pending_def known_ips_def\<close>)
  show "length c = length (fs_code T)" by (rule g(4))
qed

lemma patch_all_inv:
  assumes "inv F T" "set ps \<subseteq> set (fr_pos F) \<union> set (pending T)"
    and "t = st_ip T \<or> t \<in> set (fr_ips F) \<or> 0 \<le> t \<and> t \<in> set (known_ips T)"
    and "st_patch_all ps t T = Some T'"
  shows "inv F T' \<and> (\<exists>c. T' = T\<lparr> fs_code := c \<rparr> \<and> length c = length (fs_code T))"
  using assms
proof (induction ps arbitrary: T)
  case Nil
  then show ?case by (auto simp: st_patch_all_def intro: exI [of _ "fs_code T"])
next
  case (Cons p ps)
  then obtain c where c: "patch_u16 (fs_code T) p t = Some c"
    by (auto simp: st_patch_all_def split: option.splits)
  let ?T = "T\<lparr> fs_code := c \<rparr>"
  have i: "inv F ?T" "length c = length (fs_code T)"
    using patch_inv [OF Cons.prems(1) _ Cons.prems(3) c] Cons.prems(2) by auto
  have same: "pending ?T = pending T" "known_ips ?T = known_ips T" "st_ip ?T = st_ip T"
    using i(2) by (simp_all add: pending_def known_ips_def st_ip_def current_ip_def)
  have "st_patch_all ps t ?T = Some T'" using Cons.prems(4) c by (simp add: st_patch_all_def)
  then have "inv F T' \<and> (\<exists>d. T' = ?T\<lparr> fs_code := d \<rparr> \<and> length d = length (fs_code ?T))"
    using Cons.prems(2,3) same by (intro Cons.IH i(1)) simp_all
  then show ?case using i(2) by auto
qed

lemma J_patch:
  assumes "grow S T" "set ps \<subseteq> set (fr_pos F)" "t = st_ip T \<or> t \<in> set (fr_ips F)"
    and "\<And>st. J F st get (k st) F0"
  shows "J F S get (Option.bind (st_patch_all ps t T) k) F0"
  unfolding J_def
proof (intro impI allI)
  fix y
  assume "inv F S" "Option.bind (st_patch_all ps t T) k = Some y"
  then obtain T' where T': "st_patch_all ps t T = Some T'" "k T' = Some y" "inv F T"
    using assms(1) by (auto simp: bind_eq_Some_conv grow_def)
  have "inv F T'" using patch_all_inv [OF T'(3) _ _ T'(1)] assms(2,3) by blast
  then show "inv F0 (get y)" using assms(4) T'(2) by (simp add: J_def)
qed

lemma J_patch1:
  assumes "grow S T" "pos \<in> set (fr_pos F)" "t = st_ip T \<or> t \<in> set (fr_ips F)"
    and "\<And>st. J F st get (k st) F0"
  shows "J F S get (Option.bind (st_patch pos t T) k) F0"
  unfolding st_patch_def using assms by (intro J_patch) simp_all

text \<open>The current position, kept for a later jump.\<close>

lemma J_ip:
  assumes "grow S T" "J (push_ip (st_ip T) F) T get (k (st_ip T)) F0"
  shows "J F S get (Let (st_ip T) k) F0"
  unfolding J_def
proof (intro impI)
  assume "inv F S"
  then have "inv F T" using assms(1) by (simp add: grow_def)
  then have "inv (push_ip (st_ip T) F) T"
    by (auto simp: inv_def push_ip_def st_ip_def current_ip_def good_code_def boundary_ends)
  then show "\<forall>y. Let (st_ip T) k = Some y \<longrightarrow> inv F0 (get y)"
    using assms(2) by (simp add: J_def)
qed

text \<open>Constants.\<close>

lemma good_code_Nil [simp]: "good_code []"
  by (simp add: good_code_def jumps_ok_def jump_at_def)

lemma codes_update:
  "codes_ok p \<Longrightarrow> (i < length (kp_funcs p) \<Longrightarrow> good_code (kf_code r)) \<Longrightarrow> codes_ok (p\<lparr> kp_funcs := (kp_funcs p)[i := r] \<rparr>)"
  by (cases "i < length (kp_funcs p)")
    (auto simp: codes_ok_def list_update_beyond dest!: set_update_subset_insert [THEN subsetD])

lemma codes_nth: "codes_ok p \<Longrightarrow> i < length (kp_funcs p) \<Longrightarrow> good_code (kf_code (kp_funcs p ! i))"
  by (simp add: codes_ok_def)

lemma codes_mark [simp]:
  "codes_ok p \<Longrightarrow> codes_ok (program_mark_function_reachable i p)"
  "codes_ok p \<Longrightarrow> codes_ok (program_mark_virtual_slot_reachable i p)"
proof -
  show mark: "codes_ok p \<Longrightarrow> codes_ok (program_mark_function_reachable i p)" for i p
    by (simp add: program_mark_function_reachable_def codes_update codes_nth)
  have virtual: "codes_ok q \<Longrightarrow> codes_ok (fold (\<lambda>t p. if i < int (length (kt_vtable t))
      then program_mark_function_reachable (kt_vtable t ! nat i) p else p) ts q)" for ts q
    by (induction ts arbitrary: q) (simp_all add: mark)
  then show "codes_ok p \<Longrightarrow> codes_ok (program_mark_virtual_slot_reachable i p)"
    unfolding program_mark_virtual_slot_reachable_def using virtual by (split if_split) blast
qed

lemma add_codes [simp]:
  "codes_ok (snd (program_add_int p v)) \<longleftrightarrow> codes_ok p" "codes_ok (snd (program_add_float p w)) \<longleftrightarrow> codes_ok p"
  "codes_ok (snd (program_add_string p s)) \<longleftrightarrow> codes_ok p"
  by (simp_all add: codes_ok_def program_add_int_def program_add_float_def program_add_string_def Let_def)

lemma add_int_codes: "program_add_int p v = (i, q) \<Longrightarrow> codes_ok p \<Longrightarrow> codes_ok q"
  using add_codes(1) [of p v] by simp

lemma st_add_grow:
  "grow S T \<Longrightarrow> grow S (snd (st_add_int v T))" "grow S T \<Longrightarrow> grow S (snd (st_add_float w T))"
  "grow S T \<Longrightarrow> grow S (snd (st_add_string s T))"
  by (simp_all add: st_add_int_def st_add_float_def st_add_string_def split_beta grow_program)

lemma J_const:
  assumes "grow S T" "\<And>i st. J F st get (k i st) F0"
  shows "J F S get (case st_add_int v T of (i, st) \<Rightarrow> k i st) F0"
    and "J F S get (case st_add_float w T of (i, st) \<Rightarrow> k i st) F0"
    and "J F S get (case st_add_string s T of (i, st) \<Rightarrow> k i st) F0"
proof -
  have st: "J F S get (k i U) F0" if "grow S U" for i U
    using assms(2) [where st = U and i = i] that by (auto simp: J_def grow_def)
  show "J F S get (case st_add_int v T of (i, st) \<Rightarrow> k i st) F0"
    "J F S get (case st_add_float w T of (i, st) \<Rightarrow> k i st) F0"
    "J F S get (case st_add_string s T of (i, st) \<Rightarrow> k i st) F0"
    using st_add_grow [OF assms(1)] by (simp_all add: split_beta st)
qed

lemma grow_const:
  assumes "grow S T" "\<And>i U. grow S U \<Longrightarrow> grow S (k i U)"
  shows "grow S (case st_add_int v T of (i, st) \<Rightarrow> k i st)"
    and "grow S (case st_add_float w T of (i, st) \<Rightarrow> k i st)"
    and "grow S (case st_add_string s T of (i, st) \<Rightarrow> k i st)"
  using assms(2) st_add_grow [OF assms(1)] by (simp_all add: split_beta)

end
