(* ===== verification/KncEmitKeeps.thy ===== *)
theory KncEmitKeeps
  imports KncEmitProps
begin

named_theorems keeps_intros

lemma plain_if [simp]: "plain (if c then a else b) n \<longleftrightarrow> (if c then plain a n else plain b n)"
  by simp

lemma branch_Suc [simp]: "branch KNC_OP_JUMP_IF_FALSE (Suc 0)" "branch KNC_OP_JUMP_IF_TRUE (Suc 0)"
  by (simp_all add: opcode_simps)

lemma J_bind2:
  assumes "keeps S snd m" "\<And>x st. J F st get (k x st) F0"
  shows "J F S get (Option.bind m (\<lambda>(x, st). k x st)) F0"
  using assms by (intro J_bind) auto

lemma J_pair: "J F S get (k a b) F0 \<Longrightarrow> J F S get (case (a, b) of (x, y) \<Rightarrow> k x y) F0"
  by simp

lemma J_prod2: "(\<And>a b. p = (a, b) \<Longrightarrow> J F S get (k a b st) F0) \<Longrightarrow> J F S get (case_prod k p st) F0"
  by (cases p) simp

lemma keeps_control:
  "keeps S get None"
  "grow S T \<Longrightarrow> keeps S snd (Some (y, T))" "grow S T \<Longrightarrow> keeps S id (Some T)"
  "(\<And>F. J F S get (Option.bind m k) F) \<Longrightarrow> keeps S get (Option.bind m k)"
  "(c \<Longrightarrow> keeps S get a) \<Longrightarrow> (\<not> c \<Longrightarrow> keeps S get b) \<Longrightarrow> keeps S get (if c then a else b)"
  "(x = None \<Longrightarrow> keeps S get a) \<Longrightarrow> (\<And>v. x = Some v \<Longrightarrow> keeps S get (k3 v)) \<Longrightarrow>
    keeps S get (case x of None \<Rightarrow> a | Some v \<Rightarrow> k3 v)"
  "(\<And>F. J F S get (case_prod k2 p) F) \<Longrightarrow> keeps S get (case_prod k2 p)"
  "(\<And>F. J F S get (Let v h) F) \<Longrightarrow> keeps S get (Let v h)"
  by (simp_all add: keeps_def J_None J_Some J_Some_id split: option.splits)

lemmas J_rules = J_Some J_Some_id J_None J_branch J_ip J_const J_patch1 J_patch J_bind2 J_bind J_bind_id J_bind_pure
  J_if J_option J_Let J_prod J_prod2 J_list

lemmas keeps_rules = keeps_control J_rules grow_emit grow_field grow_program grow_const grow_control grow_refl

lemma grow_diag [keeps_intros]: "grow S T \<Longrightarrow> grow S (knc_diag T)"
  by (simp add: knc_diag_def grow_field)

lemma load_int_grow [keeps_intros]: "grow S T \<Longrightarrow> plain opcode (Suc (Suc (Suc 0))) \<Longrightarrow> grow S (load_int opcode reg v T)"
  unfolding load_int_def
  by (intro keeps_rules; simp)

lemma alloc_reg_keeps [keeps_intros]: "grow S T \<Longrightarrow> keeps S snd (alloc_reg T)"
  unfolding alloc_reg_def
  by (intro keeps_rules; simp)

lemma add_local_grow [keeps_intros]: "grow S T \<Longrightarrow> grow S (add_local name type reg d T)"
  unfolding add_local_def
  by (intro keeps_rules; simp add: opcode_simps codes_update codes_nth)

lemma store_local_value_grow [keeps_intros]: "grow S T \<Longrightarrow> grow S (store_local_value l reg T)"
  unfolding store_local_value_def
  by (cases "kl_storage l"; simp only: local_storage.case; intro keeps_rules; simp add: opcode_simps)


lemma load_local_value_keeps [keeps_intros]: "grow S T \<Longrightarrow> keeps S snd (load_local_value l T)"
  unfolding load_local_value_def
  by (intro keeps_rules keeps_intros J_keeps; simp add: opcode_simps)

lemma emit_default_items_keeps:
  assumes "\<And>t r S T. t \<in> set types \<Longrightarrow> grow S T \<Longrightarrow> keeps S id (emit_default_value r t T)"
  shows "grow S T \<Longrightarrow> keeps S id (emit_default_items reg i types T)"
  using assms
proof (induction types arbitrary: S T i)
  case (Cons t ts)
  show ?case
    by (subst emit_default_items.simps, intro keeps_rules keeps_intros Cons J_keeps)
      (simp_all add: opcode_simps del: emit_default_value.simps)
qed (simp add: keeps_rules)

lemma package_item_steps: "ty_kind t = TY_PACKAGE \<Longrightarrow> s \<in> set (ty_package t) \<Longrightarrow> ty_steps s < ty_steps t"
  using package_steps_of [of t] member_le_sum_list [of "Suc (ty_steps s)" "map (\<lambda>t. Suc (ty_steps t)) (ty_package t)"]
  by (force simp: package_steps_def)

lemma emit_default_value_keeps [keeps_intros]: "grow S T \<Longrightarrow> keeps S id (emit_default_value reg type T)"
proof (induction type arbitrary: reg S T rule: measure_induct_rule [where f = ty_steps])
  case (less type)
  show ?case
    by (subst emit_default_value.simps, intro keeps_rules keeps_intros J_keeps emit_default_items_keeps less)
      (simp_all add: package_item_steps opcode_simps del: emit_default_value.simps)
qed

lemma emit_int_const_reg_keeps [keeps_intros]: "grow S T \<Longrightarrow> keeps S snd (emit_int_const_reg v T)"
  and move_to_fresh_reg_keeps [keeps_intros]: "grow S T \<Longrightarrow> keeps S snd (move_to_fresh_reg r T)"
  and emit_bool_const_keeps [keeps_intros]: "grow S T \<Longrightarrow> keeps S snd (emit_bool_const b T)"
  and emit_builtin_call_regs_keeps [keeps_intros]: "grow S T \<Longrightarrow> keeps S snd (emit_builtin_call_regs t mapped regs T)"
  and emit_string_const_keeps [keeps_intros]: "grow S T \<Longrightarrow> keeps S snd (emit_string_const text T)"
  unfolding emit_int_const_reg_def move_to_fresh_reg_def emit_bool_const_def emit_builtin_call_regs_def
    emit_string_const_def
  by (intro keeps_rules keeps_intros J_keeps; simp add: opcode_simps)+

lemma convert_reg_keeps [keeps_intros]: "grow S T \<Longrightarrow> plain opcode (Suc (Suc 0)) \<Longrightarrow> keeps S snd (convert_reg opcode t reg T)"
  unfolding convert_reg_def
  by (intro keeps_rules keeps_intros J_keeps; simp)

lemma emit_string_concat_keeps [keeps_intros]: "grow S T \<Longrightarrow> keeps S snd (emit_string_concat l r T)"
  unfolding emit_string_concat_def by (rule emit_builtin_call_regs_keeps)

lemma emit_is_type_keeps [keeps_intros]: "grow S T \<Longrightarrow> keeps S snd (emit_is_type reg kind payload T)"
  and emit_stringify_value_keeps [keeps_intros]: "grow S T \<Longrightarrow> keeps S snd (emit_stringify_value v T)"
  unfolding emit_is_type_def emit_stringify_value_def
  by (intro keeps_rules keeps_intros J_keeps; simp add: opcode_simps)+

lemma compile_is_check_from_value_keeps [keeps_intros]: "grow S T \<Longrightarrow> keeps S snd (compile_is_check_from_value v t T)"
  unfolding compile_is_check_from_value_def
  by (intro keeps_rules keeps_intros J_keeps; simp)

lemma map_catch_target_grow: "grow S T \<Longrightarrow> grow S (snd (map_catch_target t T))"
  unfolding map_catch_target_def
  by (auto simp: Let_def intro: keeps_intros)

lemma emit_invalid_cast_throw_keeps [keeps_intros]: "grow S T \<Longrightarrow> keeps S snd (emit_invalid_cast_throw src dst T)"
  unfolding emit_invalid_cast_throw_def
  by (intro keeps_rules keeps_intros J_keeps; simp add: opcode_simps)

text \<open>A bind whose first part is followed into the rest, for results that hold positions.\<close>

lemma J_bind_through:
  "J F S get (if c then Option.bind a k else Option.bind b k) F0 \<Longrightarrow> J F S get (Option.bind (if c then a else b) k) F0"
  "J F S get (Option.bind m2 (\<lambda>(x, st). Option.bind (f2 x st) k)) F0 \<Longrightarrow>
    J F S get (Option.bind (Option.bind m2 (\<lambda>(x, st). f2 x st)) k) F0"
  "J F S get (Option.bind m (\<lambda>x. Option.bind (f x) k)) F0 \<Longrightarrow> J F S get (Option.bind (Option.bind m f) k) F0"
  "J F S get (k y) F0 \<Longrightarrow> J F S get (Option.bind (Some y) k) F0"
  "J F S get (case_prod (\<lambda>a b. Option.bind (g a b) k) p) F0 \<Longrightarrow> J F S get (Option.bind (case_prod g p) k) F0"
  "J F S get (case x of None \<Rightarrow> Option.bind a k | Some v \<Rightarrow> Option.bind (k3 v) k) F0 \<Longrightarrow>
    J F S get (Option.bind (case x of None \<Rightarrow> a | Some v \<Rightarrow> k3 v) k) F0"
  "J F S get (Let v (\<lambda>x. Option.bind (h x) k)) F0 \<Longrightarrow> J F S get (Option.bind (Let v h) k) F0"
  by (auto simp: case_prod_unfold split: option.splits)

lemma J_grow: "J F T get m F0 \<Longrightarrow> grow S T \<Longrightarrow> J F S get m F0"
  by (simp add: J_def grow_def)

text \<open>Frames are ordered by what a caller may rely on.\<close>

instantiation frame :: preorder
begin

definition less_eq_frame :: "frame \<Rightarrow> frame \<Rightarrow> bool" where
  "less_eq_frame = sub"

definition less_frame :: "frame \<Rightarrow> frame \<Rightarrow> bool" where
  "less_frame F G \<longleftrightarrow> sub F G \<and> \<not> sub G F"

instance
  by standard (auto simp: less_eq_frame_def less_frame_def sub_def)

end

lemma sub_trans: "sub F G \<Longrightarrow> sub G H \<Longrightarrow> sub F H"
  using order_trans [of F G H] by (simp add: less_eq_frame_def)

lemma sub_pos: "sub F G \<Longrightarrow> set (fr_pos F) \<subseteq> set (fr_pos G)"
  by (simp add: sub_def)

lemmas keeps_through = keeps_control J_pair J_bind_through keeps_rules

lemma emit_checked_object_cast_keeps [keeps_intros]: "grow S T \<Longrightarrow> keeps S snd (emit_checked_object_cast v dst T)"
  unfolding emit_checked_object_cast_def
  by (intro keeps_through keeps_intros J_keeps; simp add: opcode_simps)

lemma normalize_unsigned_keeps [keeps_intros]:
  "grow S T \<Longrightarrow> keeps S snd (knc_normalize_unsigned_integer_operand v T)"
  unfolding knc_normalize_unsigned_integer_operand_def emit_width_binary_op_def
  by (intro keeps_rules keeps_intros J_keeps; simp add: opcode_simps)

lemma normalize_cast_keeps [keeps_intros]:
  "grow S T \<Longrightarrow> keeps S snd (knc_normalize_integer_cast v t T)"
  unfolding knc_normalize_integer_cast_def
  by (intro keeps_rules keeps_intros J_keeps; simp add: opcode_simps)

lemma coerce_numeric_keeps [keeps_intros]:
  "grow S T \<Longrightarrow> keeps S snd (knc_coerce_binary_numeric_operand v t T)"
  unfolding knc_coerce_binary_numeric_operand_def
  by (intro keeps_rules keeps_intros J_keeps; simp add: opcode_simps)

lemma finish_arithmetic_keeps [keeps_intros]:
  "grow S T \<Longrightarrow> keeps S snd (knc_finish_binary_arithmetic t v T)"
  unfolding knc_finish_binary_arithmetic_def
  by (intro keeps_rules keeps_intros J_keeps; simp add: opcode_simps)

lemma incdec_load_keeps [keeps_intros]: "grow S T \<Longrightarrow> keeps S snd (incdec_load l b T)"
  and incdec_update_keeps [keeps_intros]: "grow S T \<Longrightarrow> keeps S snd (incdec_update l b r T)"
  unfolding incdec_load_def incdec_update_def
  by (intro keeps_rules keeps_intros J_keeps; simp add: opcode_simps)+

lemma compile_incdec_keeps [keeps_intros]: "grow S T \<Longrightarrow> keeps S snd (compile_incdec t b e p T)"
proof (cases e)
  case (Some x)
  then show "grow S T \<Longrightarrow> ?thesis"
    unfolding compile_incdec_def
    by (cases x; simp only: option.case expr.case; intro keeps_rules keeps_intros J_keeps; simp)
qed (simp add: compile_incdec_def keeps_rules keeps_intros)

lemma zero_slots_keeps [keeps_intros]: "grow S T \<Longrightarrow> keeps S id (zero_slots r is T)"
proof (induction "is" arbitrary: S T)
  case (Cons i js)
  then show ?case
    by (simp only: zero_slots.simps) (intro keeps_rules keeps_intros Cons.IH J_keeps; simp add: opcode_simps)
qed (simp add: keeps_rules)

lemma capture_slots_keeps [keeps_intros]: "grow S T \<Longrightarrow> keeps S snd (capture_slots r cs T)"
proof (induction cs arbitrary: S T)
  case (Cons c cs)
  then show ?case
    by (simp only: capture_slots.simps) (intro keeps_rules keeps_intros Cons.IH J_keeps; simp add: opcode_simps)
qed (simp add: keeps_rules)

lemma build_capture_env_keeps [keeps_intros]: "grow S T \<Longrightarrow> keeps S snd (build_capture_env cs n T)"
  unfolding build_capture_env_def
  by (intro keeps_rules keeps_intros J_keeps; simp add: opcode_simps)

lemma add_literal_grow:
  "grow S T \<Longrightarrow> grow S (add_record (literal_record p name params body ret i is_block records captures) T)"
  unfolding add_record_def by (rule grow_program) (auto simp: codes_ok_def literal_record_def)

lemma ensure_record_grow [keeps_intros]:
  "grow S T \<Longrightarrow> grow S (snd (ensure_anon_function_record e T))"
  "grow S T \<Longrightarrow> grow S (snd (ensure_block_function_record e T))"
  unfolding ensure_anon_function_record_def ensure_block_function_record_def Let_def
  by (simp_all only: expr.split option.split if_True snd_conv add_literal_grow simp_thms split: expr.split option.split)

text \<open>A position that goes from the frame to the lists that the state keeps.\<close>

lemma J_park:
  assumes "inv (push_pos pos F) st \<Longrightarrow> inv F st'" "J F st' get m F0"
  shows "J (push_pos pos F) st get m F0"
  using assms by (simp add: J_def)

lemma park_inv:
  assumes "inv (push_pos pos F) st" "fs_code st' = fs_code st" "set (pending st') \<subseteq> insert pos (set (pending st))"
    and "set (known_ips st') \<subseteq> set (known_ips st)" "fs_body_ip st' = fs_body_ip st"
    and "fs_program st' = fs_program st"
  shows "inv F st'"
  using assms by (auto simp: inv_def push_pos_def)

lemma concat_update: "set (concat (xss[i := xss ! i @ [x]])) \<subseteq> insert x (set (concat xss))"
  by (cases "i < length xss")
    (auto simp: list_update_beyond dest!: set_update_subset_insert [THEN subsetD])

lemma dispatch_records_keeps [keeps_intros]: "grow S T \<Longrightarrow> keeps S id (dispatch_records r i rs T)"
proof (induction rs arbitrary: i S T)
  case (Cons b rs)
  have park: "J (push_pos pos F) st id (dispatch_records r (i + 1) rs
       (st\<lparr> fs_record_patches := (fs_record_patches st)[i := fs_record_patches st ! i @ [pos]] \<rparr>)) F" for pos F st
    by (rule J_park [OF park_inv J_keeps [OF Cons.IH [OF grow_refl]]])
      (use concat_update [of "fs_record_patches st" i pos] in \<open>auto simp: pending_def known_ips_def\<close>)
  then show ?case using Cons.prems
    by (simp only: dispatch_records.simps) (intro keeps_control park keeps_rules keeps_intros J_keeps; simp add: opcode_simps)
qed (simp add: keeps_rules)

lemma emit_block_dispatch_keeps [keeps_intros]: "grow S T \<Longrightarrow> keeps S id (emit_block_dispatch r T)"
proof -
  have park: "J (push_pos pos F) st id (Option.bind (case fs_block_records (st\<lparr> fs_start_patches := fs_start_patches st @ [pos] \<rparr>) of
      None \<Rightarrow> Some (st\<lparr> fs_start_patches := fs_start_patches st @ [pos] \<rparr>)
    | Some rs \<Rightarrow> dispatch_records r 0 rs (st\<lparr> fs_start_patches := fs_start_patches st @ [pos] \<rparr>))
    (\<lambda>st. Some (emit [U8 KNC_OP_RET, U8 255] st))) F" for pos F st
  proof (rule J_park [where st' = "st\<lparr> fs_start_patches := fs_start_patches st @ [pos] \<rparr>"])
    show "inv (push_pos pos F) st \<Longrightarrow> inv F (st\<lparr> fs_start_patches := fs_start_patches st @ [pos] \<rparr>)"
      by (erule park_inv) (simp_all add: pending_def known_ips_def)
  qed (intro keeps_rules keeps_intros J_keeps; simp add: opcode_simps)
  then show "grow S T \<Longrightarrow> ?thesis"
    unfolding emit_block_dispatch_def
    by (intro keeps_control park keeps_rules keeps_intros J_keeps; simp add: opcode_simps)
qed

end
