(* ===== verification/KncExprKeeps.thy ===== *)
theory KncExprKeeps
  imports KncEmitKeeps KncExprTerm
begin

text \<open>
  Every routine of the expression compiler keeps the invariant of the emitter, when the compiler of
  subexpressions does; the knot is tied by the interpretation at the end.
\<close>

lemma emit_call_func_keeps [keeps_intros]: "grow S T \<Longrightarrow> keeps S snd (emit_call_func t f regs T)"
  and compile_this_keeps [keeps_intros]: "grow S T \<Longrightarrow> keeps S snd (compile_this t T)"
  and load_receiver_keeps [keeps_intros]: "grow S T \<Longrightarrow> keeps S snd (load_receiver T)"
  unfolding emit_call_func_def compile_this_def load_receiver_def
  by (intro keeps_rules keeps_intros J_keeps; simp add: opcode_simps)+

lemma compile_var_keeps [keeps_intros]: "grow S T \<Longrightarrow> keeps S snd (compile_var t name T)"
  and compile_int_keeps [keeps_intros]: "grow S T \<Longrightarrow> plain opcode (Suc (Suc (Suc 0))) \<Longrightarrow> keeps S snd (compile_int opcode t v T)"
  unfolding compile_var_def compile_int_def
  by (intro keeps_rules keeps_intros J_keeps; simp add: opcode_simps)+

lemma grow_state [keeps_intros]:
  "grow S T \<Longrightarrow> grow S (st_mark_function i T)" "grow S T \<Longrightarrow> grow S (move_if_other dst src T)"
  "grow S T \<Longrightarrow> grow S (load_string reg v T)" "grow S T \<Longrightarrow> grow S (load_float reg w T)"
  "grow S T \<Longrightarrow> grow S (emit_make_function dst ti k i env T)"
  unfolding st_mark_function_def move_if_other_def load_string_def load_float_def emit_make_function_def
  by (intro keeps_rules; simp add: opcode_simps)+

lemma compile_store_var_grow: "grow S T \<Longrightarrow> grow S (snd (compile_store_var name v T))"
  unfolding compile_store_var_def
  by (auto simp: Let_def opcode_simps split: option.splits intro!: keeps_intros grow_emit)

lemma keeps_Some: "grow S (snd p) \<Longrightarrow> keeps S snd (Some p)"
  by (cases p) (simp add: keeps_rules)

lemma with_args_rule:
  "grow S T \<Longrightarrow> sub F0 F \<Longrightarrow> (\<And>regs. J F S snd (k regs T) F0) \<Longrightarrow> J F S snd (with_args out k (x, T)) F0"
  by (cases x) (simp_all add: with_args_def J_Some)

lemma compile_closure_keeps [keeps_intros]: "grow S T \<Longrightarrow> keeps S snd (compile_closure t ti f cs n T)"
  unfolding compile_closure_def
  by (intro keeps_rules keeps_intros J_keeps; simp add: opcode_simps)

lemma compile_literal_keeps [keeps_intros]:
  "grow S T \<Longrightarrow> keeps S snd (compile_anon_func e T)" "grow S T \<Longrightarrow> keeps S snd (compile_block_literal e T)"
  unfolding compile_anon_func_def compile_block_literal_def
  using ensure_record_grow [of S T e]
  by (auto simp: Let_def split_beta intro!: compile_closure_keeps)

lemma compile_func_ref_keeps [keeps_intros]: "grow S T \<Longrightarrow> keeps S snd (compile_func_ref t b q T)"
  unfolding compile_func_ref_def
  by (intro keeps_rules keeps_intros J_keeps; simp add: opcode_simps)

lemma keeps_list:
  "(xs = [] \<Longrightarrow> keeps S get a) \<Longrightarrow> (\<And>z zs. xs = z # zs \<Longrightarrow> keeps S get (k z zs)) \<Longrightarrow>
    keeps S get (case xs of [] \<Rightarrow> a | z # zs \<Rightarrow> k z zs)"
  by (simp split: list.split)

lemma convert_via_keeps [keeps_intros]: "grow S T \<Longrightarrow> plain first (Suc (Suc 0)) \<Longrightarrow> plain second (Suc (Suc 0)) \<Longrightarrow> keeps S id (convert_via first second out reg T)"
  unfolding convert_via_def
  by (intro keeps_rules keeps_intros J_keeps; simp add: opcode_simps)

lemma cast_to_char_keeps [keeps_intros]: "grow S T \<Longrightarrow> keeps S id (cast_to_char v out T)"
  unfolding cast_to_char_def
  by (intro keeps_rules keeps_intros J_keeps; simp add: opcode_simps)

lemma cast_to_float_keeps [keeps_intros]: "grow S T \<Longrightarrow> keeps S id (cast_to_float v out T)"
  unfolding cast_to_float_def
  by (intro keeps_rules keeps_intros J_keeps; simp add: opcode_simps)

lemma cast_to_bool_keeps [keeps_intros]: "grow S T \<Longrightarrow> keeps S id (cast_to_bool v out T)"
  unfolding cast_to_bool_def
  by (intro keeps_rules keeps_intros J_keeps; simp add: opcode_simps)

lemma string_plain: "to_string_opcode t = Some opcode \<Longrightarrow> plain opcode (Suc (Suc 0))"
  and int_plain: "to_int_opcode t = Some opcode \<Longrightarrow> plain opcode (Suc (Suc 0))"
  unfolding to_string_opcode_def to_int_opcode_def
  by (simp split: if_splits; (elim disjE)?; simp add: opcode_simps)+

lemma move_plain: "plain KNC_OP_MOVE (Suc (Suc 0))"
  by (simp add: opcode_simps)

lemma cast_into_keeps [keeps_intros]: "grow S T \<Longrightarrow> keeps S snd (cast_into t v out T)"
  unfolding cast_into_def
  by (intro keeps_rules keeps_intros J_keeps; simp add: string_plain int_plain move_plain)

lemma copy_items_keeps [keeps_intros]: "grow S T \<Longrightarrow> keeps S id (copy_items out src i n T)"
proof (induction n arbitrary: S T i)
  case (Suc n)
  then show ?case
    by (simp only: copy_items.simps) (intro keeps_rules keeps_intros Suc.IH J_keeps; simp add: opcode_simps)
qed (simp add: keeps_rules)

lemma cast_package_to_array_keeps [keeps_intros]: "grow S T \<Longrightarrow> keeps S snd (cast_package_to_array t v T)"
  unfolding cast_package_to_array_def
  by (intro keeps_rules keeps_intros J_keeps; simp add: opcode_simps)

lemma cast_value_keeps [keeps_intros]: "grow S T \<Longrightarrow> keeps S snd (cast_value t v T)"
  unfolding cast_value_def
  by (intro keeps_rules keeps_intros J_keeps; simp add: opcode_simps)

lemma compile_leaf_keeps [keeps_intros]: "grow S T \<Longrightarrow> (\<And>reg S T. grow S T \<Longrightarrow> keeps S id (f reg T)) \<Longrightarrow> keeps S snd (compile_leaf t f T)"
  unfolding compile_leaf_def
  by (intro keeps_rules keeps_intros J_keeps; simp add: grow_refl)

locale expr_keeps =
  fixes rec :: expr_compiler
  assumes rec_keeps: "grow S T \<Longrightarrow> keeps S snd (rec e T)"
begin

lemmas rec_intro [keeps_intros] = rec_keeps

lemma compile_args_keeps [keeps_intros]: "grow S T \<Longrightarrow> keeps S snd (compile_args rec n regs es T)"
proof (induction es arbitrary: S T regs)
  case (Cons e es)
  show ?case
    by (simp only: compile_args.simps) (intro keeps_rules keeps_intros J_keeps Cons; simp add: Cons)
qed (simp add: keeps_rules)

lemma print_parts_keeps [keeps_intros]: "grow S T \<Longrightarrow> keeps S snd (print_parts rec sep j es T)"
proof (induction es arbitrary: S T j)
  case (Cons e es)
  show ?case
    by (simp only: print_parts.simps) (intro keeps_rules keeps_intros J_keeps Cons; simp add: Cons)
qed (simp add: keeps_rules)

lemma compile_print_keeps [keeps_intros]: "grow S T \<Longrightarrow> keeps S snd (compile_print rec t b es T)"
  unfolding compile_print_def
  by (intro keeps_rules keeps_intros J_keeps; simp)

lemma compile_builtin_invoke_keeps [keeps_intros]:
  "grow S T \<Longrightarrow> keeps S snd (compile_builtin_invoke rec t b r i es T)"
  unfolding compile_builtin_invoke_def
  by (intro keeps_rules with_args_rule keeps_intros J_keeps; simp add: opcode_simps)

lemma compile_direct_call_keeps [keeps_intros]:
  "grow S T \<Longrightarrow> keeps S snd (compile_direct_call rec name t es T)"
  unfolding compile_direct_call_def
  by (intro keeps_rules with_args_rule keeps_intros J_keeps; simp)

lemma compile_indexed_call_keeps [keeps_intros]:
  "grow S T \<Longrightarrow> keeps S snd (compile_indexed_call rec f t regs es T)"
  unfolding compile_indexed_call_def
  by (intro keeps_rules with_args_rule keeps_intros J_keeps; simp)

lemma compile_method_calls_keep [keeps_intros]:
  "grow S T \<Longrightarrow> keeps S snd (compile_call_func_index rec f t es T)"
  "grow S T \<Longrightarrow> keeps S snd (compile_direct_method_call rec f t v es T)"
  by (simp_all add: compile_call_func_index_def compile_direct_method_call_def compile_indexed_call_keeps)

lemma compile_virtual_method_call_keeps [keeps_intros]:
  "grow S T \<Longrightarrow> keeps S snd (compile_virtual_method_call rec slot t v es T)"
  unfolding compile_virtual_method_call_def
  by (intro keeps_rules with_args_rule keeps_intros J_keeps; simp add: opcode_simps)

lemma compile_block_invoke_keeps [keeps_intros]:
  "grow S T \<Longrightarrow> keeps S snd (compile_block_invoke rec e b es T)"
  unfolding compile_block_invoke_def
  by (intro keeps_rules with_args_rule keeps_intros J_keeps; simp add: opcode_simps)

lemma compile_resolved_call_keeps [keeps_intros]:
  "grow S T \<Longrightarrow> keeps S snd (compile_resolved_call rec i es T)"
  unfolding compile_resolved_call_def
  by (intro keeps_rules keeps_intros J_keeps; simp)

lemma compile_array_add_keeps [keeps_intros]:
  "grow S T \<Longrightarrow> keeps S snd (compile_array_add rec t r es T)"
  unfolding compile_array_add_def
  by (intro keeps_rules keeps_intros J_keeps; simp add: opcode_simps)

lemma compile_method_call_keeps [keeps_intros]:
  "grow S T \<Longrightarrow> keeps S snd (compile_method_call rec i r es T)"
  unfolding compile_method_call_def
  by (intro keeps_rules keeps_intros J_keeps; simp)

lemma compile_resolved_member_call_keeps [keeps_intros]:
  "grow S T \<Longrightarrow> keeps S snd (compile_resolved_member_call rec i r es T)"
  unfolding compile_resolved_member_call_def
  by (intro keeps_rules keeps_intros J_keeps; simp add: opcode_simps)

lemma compile_store_member_keeps [keeps_intros]:
  "grow S T \<Longrightarrow> keeps S snd (compile_store_member rec e v T)"
  unfolding compile_store_member_def
  by (split option.split, split expr.split) (intro conjI allI impI keeps_rules keeps_intros J_keeps; simp add: opcode_simps)

lemma compile_store_index_keeps [keeps_intros]:
  "grow S T \<Longrightarrow> keeps S snd (compile_store_index rec e v T)"
  unfolding compile_store_index_def
  by (split option.split, split expr.split) (intro conjI allI impI keeps_rules keeps_intros J_keeps; simp add: opcode_simps)

lemma compile_store_ptr_keeps [keeps_intros]:
  "grow S T \<Longrightarrow> keeps S snd (compile_store_ptr rec e v T)"
  unfolding compile_store_ptr_def
  by (split option.split, split expr.split) (intro conjI allI impI keeps_rules keeps_intros J_keeps; simp add: opcode_simps)

lemma compile_assign_to_local_keeps [keeps_intros]:
  "grow S T \<Longrightarrow> keeps S snd (compile_assign_to_local rec e v T)"
proof -
  have last: "keeps st snd (case e of Some (EVar i name) \<Rightarrow> Some (compile_store_var name w st)
     | Some (EMember _ _ _ _ _ _ _ _ _ _) \<Rightarrow> compile_store_member rec e w st
     | Some (EIndex _ _ _ _) \<Rightarrow> compile_store_index rec e w st
     | Some (EUnary _ oper _ _) \<Rightarrow>
         (if oper = OP TOK_STAR then compile_store_ptr rec e w st else Some (-1, knc_diag st))
     | _ \<Rightarrow> Some (-1, knc_diag st))" for w st
    by (split option.split, split expr.split)
      (intro conjI allI impI keeps_rules keeps_intros keeps_Some compile_store_var_grow; simp)
  then show "grow S T \<Longrightarrow> ?thesis"
    unfolding compile_assign_to_local_def
    by (intro last keeps_control J_bind2 J_if J_Some J_keeps grow_refl rec_intro; simp)
qed

lemma compile_short_circuit_keeps [keeps_intros]:
  "grow S T \<Longrightarrow> keeps S snd (compile_short_circuit rec b l r T)"
  unfolding compile_short_circuit_def
  by (intro keeps_through keeps_intros J_keeps; simp add: opcode_simps)

lemma compile_if_expr_keeps [keeps_intros]:
  "grow S T \<Longrightarrow> keeps S snd (compile_if_expr rec t c a b T)"
  unfolding compile_if_expr_def
  by (intro keeps_rules keeps_intros J_keeps; simp add: opcode_simps)

text \<open>The branch of a condition, its position or -1.\<close>

lemma cmp_false_branch: "cmp_false_opcode t = Some opcode \<Longrightarrow> branch opcode (Suc (Suc 0))"
  unfolding cmp_false_opcode_def
  by (simp split: token_type.splits op_token.splits; simp add: opcode_simps)

lemma direct_branch:
  assumes "(case c of Some (EBinary _ oper (Some l) (Some r)) \<Rightarrow>
      (if knc_binary_has_signed_int_comparison_plan c
       then map_option (\<lambda>opcode. (opcode, l, r)) (cmp_false_opcode oper) else None)
    | _ \<Rightarrow> None) = Some (a, p)"
  shows "branch a 2"
proof (cases c)
  case (Some x)
  then show ?thesis using assms
    by (cases x) (auto simp: numeral_2_eq_2 dest!: cmp_false_branch split: option.splits if_splits)
qed (use assms in simp)

lemma J_condition:
  assumes "grow S T" "\<And>pos st. J (push_pos pos F) st get (k pos st) F0" "\<And>st. J F st get (k (-1) st) F0"
  shows "J F S get (Option.bind (emit_condition_false_branch rec c T) (\<lambda>(pos, st). k pos st)) F0"
  unfolding emit_condition_false_branch_def
  by (intro J_bind_through J_Let J_pair J_if J_branch J_bind2 assms J_grow [OF assms(3)] rec_intro J_rules)
    (simp_all add: assms grow_refl branch_Suc, erule direct_branch)

lemma pointer_keeps [keeps_intros]:
  "grow S T \<Longrightarrow> keeps S snd (emit_pointer_op side oper t l r out T)"
  "grow S T \<Longrightarrow> keeps S snd (pointer_offset b l r T)"
  unfolding emit_pointer_op_def pointer_offset_def
  by (intro keeps_rules keeps_intros J_keeps; simp add: opcode_simps)+

lemma coerce_operand_keeps [keeps_intros]: "grow S T \<Longrightarrow> keeps S snd (coerce_operand b t v T)"
  and binary_result_keeps [keeps_intros]: "grow S T \<Longrightarrow> keeps S snd (binary_result oper t r T)"
  and signed_remainder_keeps [keeps_intros]: "grow S T \<Longrightarrow> keeps S id (emit_signed_remainder out l2 r2 T)"
  unfolding coerce_operand_def binary_result_def emit_signed_remainder_def
  by (intro keeps_rules keeps_intros J_keeps; simp add: opcode_simps)+

lemma immediate_grow: "binary_immediate b oper e T = (imm, U) \<Longrightarrow> grow T U"
  by (auto simp: binary_immediate_def expr_int_immediate_index_def grow_refl
      split: option.splits if_splits expr.splits intro!: grow_program dest: add_int_codes)

lemma imm_plain: "imm_opcode t = Some opcode \<Longrightarrow> plain opcode (Suc (Suc (Suc (Suc 0))))"
  unfolding imm_opcode_def
  by (simp split: token_type.splits op_token.splits if_splits; (elim disjE)?; simp add: opcode_simps)

lemma width_plain: "width_opcode t = Some opcode \<Longrightarrow> plain opcode (Suc (Suc (Suc (Suc 0))))"
  unfolding width_opcode_def
  by (simp split: token_type.splits op_token.splits if_splits; (elim disjE)?; simp add: opcode_simps)

lemma plain_plain: "plain_opcode b t = Some opcode \<Longrightarrow> plain opcode (Suc (Suc (Suc 0)))"
  unfolding plain_opcode_def
  by (simp split: token_type.splits op_token.splits if_splits; (elim disjE)?; simp add: opcode_simps)

lemma emit_binary_op_keeps [keeps_intros]:
  "grow S T \<Longrightarrow> keeps S snd (emit_binary_op b oper t imm l r out T)"
  unfolding emit_binary_op_def emit_width_binary_op_def
  by (intro keeps_rules keeps_intros J_keeps) (auto dest: imm_plain width_plain plain_plain)

lemma compile_binary_rest_keeps [keeps_intros]:
  "grow S T \<Longrightarrow> keeps S snd (compile_binary_rest rec i oper l e T)"
  unfolding compile_binary_rest_def
  by (intro keeps_rules keeps_intros J_keeps; auto dest: immediate_grow)

lemma compile_binary_expr_keeps [keeps_intros]: "grow S T \<Longrightarrow> keeps S snd (compile_binary_expr rec e l T)"
  unfolding compile_binary_expr_def
  by (split option.split, split expr.split) (intro conjI allI impI keeps_rules keeps_intros J_keeps; simp)

lemma compile_member_keeps [keeps_intros]: "grow S T \<Longrightarrow> keeps S snd (compile_member rec x T)"
  unfolding compile_member_def
  by (split expr.split) (intro conjI allI impI keeps_rules keeps_intros J_keeps; simp add: opcode_simps)

lemma local_address_keeps [keeps_intros]: "grow S T \<Longrightarrow> keeps S id (local_address l out T)"
  unfolding local_address_def
  by (cases "kl_storage l"; simp only: local_storage.case; intro keeps_rules keeps_intros J_keeps; simp add: opcode_simps)

lemma compile_address_keeps [keeps_intros]: "grow S T \<Longrightarrow> keeps S snd (compile_address rec t e T)"
  unfolding compile_address_def
  by (intro keeps_rules keeps_intros J_keeps; (split expr.split, intro conjI allI impI keeps_rules keeps_intros J_keeps)?;
    simp add: opcode_simps)

lemma compile_convert_keeps [keeps_intros]:
  "grow S T \<Longrightarrow> (\<And>vt. plain (opcode vt) (Suc (Suc 0))) \<Longrightarrow> keeps S snd (compile_convert rec opcode t e T)"
  unfolding compile_convert_def
  by (intro keeps_rules keeps_intros J_keeps; simp)

lemma compile_unary_keeps [keeps_intros]: "grow S T \<Longrightarrow> keeps S snd (compile_unary rec t oper e p T)"
  unfolding compile_unary_def
  by (intro keeps_rules keeps_intros J_keeps; simp add: opcode_simps)

lemma compile_assign_keeps [keeps_intros]: "grow S T \<Longrightarrow> keeps S snd (compile_assign rec t e v c T)"
  unfolding compile_assign_def
  by (split option.split, split expr.split) (intro conjI allI impI keeps_rules keeps_intros J_keeps; simp add: opcode_simps)

lemma store_items_keeps [keeps_intros]: "grow S T \<Longrightarrow> keeps S id (store_items rec tys out i n items T)"
proof (induction n arbitrary: S T i items)
  case (Suc n)
  then show ?case
    by (simp only: store_items.simps)
      (intro keeps_rules keeps_intros Suc.IH J_keeps keeps_list; simp add: opcode_simps)
qed (simp add: keeps_rules)

lemma compile_items_keeps [keeps_intros]: "grow S T \<Longrightarrow> keeps S snd (compile_items rec t len kind tys items T)"
  unfolding compile_items_def
  by (intro keeps_rules keeps_intros J_keeps; simp add: opcode_simps)

lemma compile_array_keeps [keeps_intros]: "grow S T \<Longrightarrow> keeps S snd (compile_array rec t items T)"
  unfolding compile_array_def
  by (intro keeps_rules keeps_intros J_keeps; simp add: opcode_simps)

lemma compile_package_keeps [keeps_intros]: "grow S T \<Longrightarrow> keeps S snd (compile_package rec t items T)"
  unfolding compile_package_def
  by (intro keeps_rules keeps_intros J_keeps; simp add: opcode_simps)

text \<open>The frame at the end of the cases holds the jumps to the end of the switch.\<close>

lemma switch_cases_rule:
  assumes "grow S T" "set ends \<subseteq> set (fr_pos F)"
    and "\<And>F' r st. sub F F' \<Longrightarrow> (\<And>es d. r = Some (es, d) \<Longrightarrow> set es \<subseteq> set (fr_pos F')) \<Longrightarrow> J F' st get (k r st) F0"
  shows "J F S get (Option.bind (switch_cases rec out sv cs ends d T) (\<lambda>(r, st). k r st)) F0"
  using assms
proof (induction cs arbitrary: S T F ends d)
  case Nil
  have "J F T get (k (Some (ends, d)) T) F0" using Nil.prems(2) by (intro Nil.prems(3)) auto
  then show ?case using Nil.prems(1) by (simp add: J_grow)
next
  case (Cons c cs)
  obtain m b is_default where c: "c = (m, b, is_default)" by (cases c)
  have IH: "J F' S' get (Option.bind (switch_cases rec out sv cs es d' T') (\<lambda>(r, st). k r st)) F0"
    if "sub F F'" "grow S' T'" "set es \<subseteq> set (fr_pos F')" for F' S' T' es d'
    using that by (intro Cons.IH Cons.prems(3)) (auto intro: sub_trans)
  have stop: "J F' st get (k None st) F0" if "sub F F'" for F' st
    using that Cons.prems(3) by auto
  show ?case
    unfolding c switch_cases.simps
    by (intro IH keeps_through J_pair stop keeps_intros J_keeps)
      (use Cons.prems(1,2) in \<open>auto simp: opcode_simps grow_refl\<close>)
qed

lemma compile_switch_expr_keeps [keeps_intros]: "grow S T \<Longrightarrow> keeps S snd (compile_switch_expr rec t e cs T)"
  unfolding compile_switch_expr_def
  by (intro keeps_control switch_cases_rule keeps_rules keeps_intros J_keeps; auto simp: grow_refl opcode_simps)

lemma compile_index_keeps [keeps_intros]: "grow S T \<Longrightarrow> keeps S snd (compile_index rec t r x T)"
  unfolding compile_index_def
  by (intro keeps_rules keeps_intros J_keeps; simp add: opcode_simps)

lemma compile_new_keeps [keeps_intros]: "grow S T \<Longrightarrow> keeps S snd (compile_new rec t c i args T)"
  unfolding compile_new_def
  by (intro keeps_rules keeps_intros J_keeps; simp add: opcode_simps)

lemma compile_closure_call_keeps [keeps_intros]: "grow S T \<Longrightarrow> keeps S snd (compile_closure_call rec t callee args T)"
  unfolding compile_closure_call_def
  by (intro keeps_rules with_args_rule keeps_intros J_keeps; simp add: opcode_simps)

lemma compile_invoke_keeps [keeps_intros]: "grow S T \<Longrightarrow> keeps S snd (compile_invoke rec t callee args T)"
  unfolding compile_invoke_def
  by (split option.split, split expr.split) (intro conjI allI impI keeps_rules keeps_intros J_keeps; simp add: opcode_simps)

lemma compile_cast_keeps [keeps_intros]: "grow S T \<Longrightarrow> keeps S snd (compile_cast rec t e m owner T)"
  unfolding compile_cast_def
  by (intro keeps_rules keeps_intros J_keeps; simp)

lemma compile_is_keeps [keeps_intros]: "grow S T \<Longrightarrow> keeps S snd (compile_is rec t e target T)"
  unfolding compile_is_def
  by (intro keeps_rules keeps_intros J_keeps; simp)

lemma compile_node_keeps [keeps_intros]: "grow S T \<Longrightarrow> keeps S snd (compile_node rec e T)"
  unfolding compile_node_def Let_def
  by (split expr.split) (intro conjI allI impI keeps_rules keeps_intros J_keeps; simp add: opcode_simps)

lemma compile_step_keeps: "grow S T \<Longrightarrow> keeps S snd (compile_step rec e T)"
  unfolding compile_step_def
  by (intro keeps_rules keeps_intros J_keeps; simp)

end

lemma compile_expr_keeps: "grow S T \<Longrightarrow> keeps S snd (compile_expr e T)"
proof (induction e arbitrary: S T rule: measure_induct_rule [where f = expr_measure])
  case (less e)
  let ?rec = "\<lambda>x s. if expr_measure x < expr_measure e then compile_expr x s else None"
  have "expr_keeps ?rec"
    by unfold_locales (simp add: less.IH keeps_rules)
  then show ?case using less.prems
    by (subst compile_expr.simps) (rule expr_keeps.compile_step_keeps)
qed

interpretation ce: expr_keeps compile_expr
  by unfold_locales (rule compile_expr_keeps)

end
