(* ===== verification/KncStmtKeeps.thy ===== *)
theory KncStmtKeeps
  imports KncExprKeeps KncStmt
begin

text \<open>
  The statement compiler keeps the invariant of the emitter. The targets of a loop are in the frame
  while its body is compiled; its breaks and continues are positions that the state keeps.
\<close>

subsection \<open>Results\<close>

lemma with_value_rule:
  "grow S T \<Longrightarrow> sub F0 F \<Longrightarrow> (\<And>reg. J F S snd (k reg T) F0) \<Longrightarrow> J F S snd (with_value (x, T) k) F0"
  by (simp add: with_value_def J_Some)

lemma and_then_rule:
  "grow S T \<Longrightarrow> sub F0 F \<Longrightarrow> J F S snd (k T) F0 \<Longrightarrow> J F S snd (and_then (x, T) k) F0"
  by (simp add: and_then_def J_Some)

lemmas stmt_rules = with_value_rule and_then_rule keeps_rules

lemma restore_locals_grow [keeps_intros]: "grow S T \<Longrightarrow> grow S (restore_locals old T)"
  by (simp add: restore_locals_def grow_field)

lemma compile_var_stmt_keeps [keeps_intros]: "grow S T \<Longrightarrow> keeps S snd (compile_var_stmt addr t name init T)"
  unfolding compile_var_stmt_def
  by (intro stmt_rules keeps_intros J_keeps; simp add: grow_refl)

lemma compile_assign_stmt_keeps [keeps_intros]: "grow S T \<Longrightarrow> keeps S snd (compile_assign_stmt name v T)"
  unfolding compile_assign_stmt_def
  by (intro stmt_rules keeps_intros J_keeps; simp add: opcode_simps grow_refl)

lemma compile_return_keeps [keeps_intros]: "grow S T \<Longrightarrow> keeps S snd (compile_return e T)"
  and compile_throw_keeps [keeps_intros]: "grow S T \<Longrightarrow> keeps S snd (compile_throw e T)"
  unfolding compile_return_def compile_throw_def
  by (intro stmt_rules keeps_intros J_keeps; simp add: opcode_simps grow_refl)+

subsection \<open>Loops\<close>

text \<open>A jump to a place that the frame knows.\<close>

lemma jump_inv:
  assumes i: "inv F T" and t: "t \<in> set (fr_ips F)" and b: "branch opcode (emission_length es)"
  shows "inv F (emit (U8 opcode # es @ [U16 t]) T)"
proof -
  let ?c = "emit_all (fs_code T) (U8 opcode # es @ [U16 t])"
  have "good_code (fs_code T)" "0 \<le> t \<and> boundary (fs_code T) (nat t)" using i t by (auto simp: inv_def)
  note c = branch_code [OF this(1) b this(2) refl]
  show ?thesis
    by (rule inv_code [OF i, of _ ?c]) (use c in \<open>simp_all add: emit_def pending_def known_ips_def\<close>)
qed

lemma J_bind_frame:
  assumes "J F S snd m F" "\<And>x st. J F st get (k (x, st)) F0"
  shows "J F S get (Option.bind m k) F0"
  using assms by (fastforce simp: J_def bind_eq_Some_conv)

lemma J_step: "grow S T \<Longrightarrow> (inv F T \<Longrightarrow> inv G T') \<Longrightarrow> J G T' get m F0 \<Longrightarrow> J F S get m F0"
  by (simp add: J_def grow_def)

lemma select_op_fits:
  "knc_select_loop_op d oper True = Some opcode \<Longrightarrow> branch opcode (Suc (Suc 0))"
  "knc_select_loop_op d oper False = Some opcode \<Longrightarrow> plain opcode (Suc (Suc 0))"
  unfolding knc_select_loop_op_def
  by (simp split: token_type.splits op_token.splits if_splits; (elim disjE)?; simp add: opcode_simps)+

text \<open>A plan's opcode takes the registers of its locals and of the limit, and jumps in a back edge.\<close>

definition plan_fits :: "bool \<Rightarrow> loop_plan \<Rightarrow> bool" where
  "plan_fits is_backedge plan \<longleftrightarrow> (case plan of (ls, _, opcode) \<Rightarrow>
     if is_backedge then branch opcode (Suc (Suc 0)) else plain opcode (Suc (length ls)))"

lemma counting_plan_fits: "counting_plan u c b = Some plan \<Longrightarrow> plan_fits b plan"
  by (cases b)
    (auto simp: counting_plan_def plan_fits_def knc_match_loop_cond_def bind_eq_Some_conv
      dest!: select_op_fits split: option.splits)

lemma superloop_plain [simp]:
  "plain KNC_OP_LOOP_ARRAY_FILL_INT_LT_INC (Suc (Suc (Suc 0)))" "plain KNC_OP_LOOP_ARRAY_FILL_INT_LE_INC (Suc (Suc (Suc 0)))"
  "plain KNC_OP_LOOP_ARRAY_SUM_INT_LT_INC (Suc (Suc (Suc (Suc 0))))" "plain KNC_OP_LOOP_ARRAY_SUM_INT_LE_INC (Suc (Suc (Suc (Suc 0))))"
  "plain KNC_OP_LOOP_SUM_INT_LT_INC (Suc (Suc (Suc 0)))" "plain KNC_OP_LOOP_SUM_INT_LE_INC (Suc (Suc (Suc 0)))"
  by (simp_all add: opcode_simps)

lemma inc_plans_fit:
  "array_fill_plan st parts = Some plan \<Longrightarrow> plan_fits False plan"
  "array_sum_plan st parts = Some plan \<Longrightarrow> plan_fits False plan"
  "sum_plan st parts = Some plan \<Longrightarrow> plan_fits False plan"
  unfolding array_fill_plan_def array_sum_plan_def sum_plan_def
  by (auto simp: plan_fits_def inc_opcode_def bind_eq_Some_conv)

lemma first_plan_Some: "first_plan ms st s = Some plan \<Longrightarrow> \<exists>m \<in> set ms. m st s = Some plan"
proof (induction ms rule: rev_induct)
  case (snoc m ms)
  then show ?case by (auto simp: first_plan_def split: if_splits)
qed (simp add: first_plan_def)

lemma superloop_matchers:
  "knc_match_empty_superloop_while st s = Some plan \<Longrightarrow> plan_fits False plan"
  "knc_match_empty_superloop_for st s = Some plan \<Longrightarrow> plan_fits False plan"
  "knc_match_sum_superloop_while st s = Some plan \<Longrightarrow> plan_fits False plan"
  "knc_match_sum_superloop_for st s = Some plan \<Longrightarrow> plan_fits False plan"
  "knc_match_array_fill_superloop_while st s = Some plan \<Longrightarrow> plan_fits False plan"
  "knc_match_array_fill_superloop_for st s = Some plan \<Longrightarrow> plan_fits False plan"
  "knc_match_array_sum_superloop_while st s = Some plan \<Longrightarrow> plan_fits False plan"
  "knc_match_array_sum_superloop_for st s = Some plan \<Longrightarrow> plan_fits False plan"
  unfolding knc_match_empty_superloop_while_def knc_match_empty_superloop_for_def
    knc_match_sum_superloop_while_def knc_match_sum_superloop_for_def
    knc_match_array_fill_superloop_while_def knc_match_array_fill_superloop_for_def
    knc_match_array_sum_superloop_while_def knc_match_array_sum_superloop_for_def
  by (erule inc_plans_fit
    | (simp split: option.splits stmt.splits list.splits if_splits, erule counting_plan_fits))+

lemma superloop_fits:
  "while_superloop st s = Some plan \<Longrightarrow> plan_fits False plan"
  "for_superloop st s = Some plan \<Longrightarrow> plan_fits False plan"
  unfolding while_superloop_def for_superloop_def
  by (auto dest!: first_plan_Some dest: superloop_matchers)

lemma fused_fits:
  "knc_match_fused_backedge_for st s = Some plan \<Longrightarrow> plan_fits True plan"
  "knc_match_fused_backedge_while st s = Some plan \<Longrightarrow> plan_fits True plan"
  unfolding knc_match_fused_backedge_for_def knc_match_fused_backedge_while_def
  by (auto dest: counting_plan_fits split: option.splits stmt.splits if_splits)

lemma emit_all_U8s: "emission_length (map (\<lambda>l. U8 (f l)) ls @ [U8 r]) = Suc (length ls)"
  by (induction ls) simp_all

lemma emit_superloop_keeps [keeps_intros]:
  "grow S T \<Longrightarrow> plan_fits False plan \<Longrightarrow> keeps S snd (emit_superloop plan T)"
  unfolding emit_superloop_def append_Cons append_Nil
  by (intro stmt_rules keeps_intros J_keeps; simp add: plan_fits_def emit_all_U8s grow_refl)

lemma J_backedge:
  assumes "grow S T" "body_ip \<in> set (fr_ips F)" "cond_ip \<in> set (fr_ips F)"
    and "\<And>plan. fused = Some plan \<Longrightarrow> plan_fits True plan"
  shows "J F S snd (emit_backedge fused body_ip cond_ip T) F"
proof (cases fused)
  case None
  have "inv F (emit (U8 KNC_OP_JUMP # [] @ [U16 cond_ip]) U)" if "inv F U" for U
    using that assms(3) by (intro jump_inv) (simp_all add: opcode_simps)
  then show ?thesis using assms(1) None by (simp add: emit_backedge_def J_def grow_def)
next
  case (Some plan)
  then obtain ls limit opcode where p: "plan = (ls, limit, opcode)" "branch opcode (Suc (Suc 0))"
    using assms(4) by (cases plan) (auto simp: plan_fits_def)
  have jump: "J F st snd (Some (True, emit [U8 opcode, U8 r, U8 reg, U16 body_ip] st)) F" for r reg st
    using jump_inv [of F st body_ip opcode "[U8 r, U8 reg]"] assms(2) p(2) by (simp add: J_def)
  then show ?thesis using assms(1)
    unfolding emit_backedge_def Some p(1)
    by (simp only: option.case prod.case)
      (intro jump stmt_rules keeps_intros J_keeps; simp add: grow_refl)
qed

lemma current_loop_pending:
  "current_loop T = Some l \<Longrightarrow> set (ls_break_patches l) \<union> set (ls_continue_patches l) \<subseteq> set (pending T)"
  by (auto simp: current_loop_def pending_def split: if_splits intro!: bexI [of _ "last (fs_loops T)"])

lemma set_butlast: "set (butlast xs) \<subseteq> set xs"
  by (auto dest: in_set_butlastD)

definition loop_patches :: "loop_state list \<Rightarrow> int list" where
  "loop_patches ls = concat (map (\<lambda>l. ls_break_patches l @ ls_continue_patches l) ls)"

lemma loop_patches_simps:
  "loop_patches [] = []" "loop_patches (ls @ ms) = loop_patches ls @ loop_patches ms"
  "set (loop_patches [l]) = set (ls_break_patches l) \<union> set (ls_continue_patches l)"
  by (simp_all add: loop_patches_def)

lemma butlast_patches: "set (loop_patches (butlast ls)) \<subseteq> set (loop_patches ls)"
  by (cases ls rule: rev_cases) (simp_all add: loop_patches_simps)

lemma pending_loops: "pending T = loop_patches (fs_loops T) @ fs_start_patches T @ concat (fs_record_patches T)"
  by (simp add: pending_def loop_patches_def)

lemma set_loop_sets:
  "set (pending (set_loop l T)) \<subseteq> set (pending T) \<union> set (ls_break_patches l) \<union> set (ls_continue_patches l)"
  "set (known_ips (set_loop l T)) \<subseteq> insert (ls_continue_ip l) (set (known_ips T))"
  using butlast_patches [of "fs_loops T"] set_butlast [of "fs_loops T"]
  by (auto simp: pending_loops loop_patches_simps known_ips_def set_loop_def simp del: set_concat)

text \<open>A change of what the state keeps, by what the frame knows.\<close>

lemma inv_change:
  assumes i: "inv F T" and code: "fs_code T' = fs_code T" "fs_body_ip T' = fs_body_ip T" "fs_program T' = fs_program T"
    and p: "set (pending T') \<subseteq> set (pending T) \<union> set (fr_pos F)"
    and b: "\<And>b. b \<in> set (known_ips T') \<Longrightarrow> b \<in> set (known_ips T) \<union> set (fr_ips F) \<or> b < 0 \<or> b = st_ip T"
  shows "inv F T'"
proof -
  have "boundary (fs_code T) (nat (st_ip T))"
    using i by (simp add: inv_def st_ip_def current_ip_def good_code_def boundary_ends)
  then have "0 \<le> x \<longrightarrow> boundary (fs_code T) (nat x)" if "x \<in> set (known_ips T')" for x
    using b [OF that] i by (auto simp: inv_def)
  then show ?thesis using i p by (auto simp: inv_def code)
qed

lemma push_loop_inv: "inv F T \<Longrightarrow> t = -1 \<or> t \<in> set (fr_ips F) \<Longrightarrow> inv F (push_loop t T)"
  by (rule inv_change) (auto simp: push_loop_def pending_loops loop_patches_simps loop_patches_def known_ips_def)

lemma pop_loop_grow [keeps_intros]:
  assumes "grow S T"
  shows "grow S (pop_loop T)"
proof -
  have "inv F (pop_loop T)" if "inv F T" for F
    by (rule inv_change [OF that])
      (use butlast_patches [of "fs_loops T"] set_butlast [of "fs_loops T"] in
        \<open>auto simp: pop_loop_def pending_loops known_ips_def simp del: set_concat\<close>)
  then show ?thesis using assms by (simp add: grow_def)
qed

lemma J_continues:
  assumes "grow S T" "t = st_ip T \<or> t \<in> set (fr_ips F)" "\<And>st. J F st get (k st) F0"
  shows "J F S get (Option.bind (patch_continues t T) k) F0"
  unfolding J_def
proof (intro impI allI)
  fix y
  assume "inv F S" "Option.bind (patch_continues t T) k = Some y"
  then obtain l U where U: "current_loop T = Some l" "st_patch_all (ls_continue_patches l) t T = Some U"
    "k (set_loop (l\<lparr> ls_continue_patches := [], ls_continue_ip := t \<rparr>) U) = Some y" "inv F T"
    using assms(1) by (auto simp: patch_continues_def bind_eq_Some_conv grow_def split: option.splits)
  have "inv F U \<and> (\<exists>c. U = T\<lparr> fs_code := c \<rparr> \<and> length c = length (fs_code T))"
    by (rule patch_all_inv [OF U(4) _ _ U(2)]) (use current_loop_pending [OF U(1)] assms(2) in auto)
  then obtain c where c: "inv F U" "U = T\<lparr> fs_code := c \<rparr>" "length c = length (fs_code T)" by blast
  let ?V = "set_loop (l\<lparr> ls_continue_patches := [], ls_continue_ip := t \<rparr>) U"
  have t: "0 \<le> t \<and> boundary (fs_code U) (nat t)"
    using assms(2) c boundary_ends(2) [of "fs_code U"]
    by (auto simp: inv_def st_ip_def current_ip_def good_code_def)
  have "set (pending ?V) \<subseteq> set (pending U)"
    using set_loop_sets(1) [of "l\<lparr> ls_continue_patches := [], ls_continue_ip := t \<rparr>" U]
      current_loop_pending [OF U(1)] c(2) by (auto simp: pending_def)
  moreover have "set (known_ips ?V) \<subseteq> insert t (set (known_ips U))"
    using set_loop_sets(2) [of "l\<lparr> ls_continue_patches := [], ls_continue_ip := t \<rparr>" U] by simp
  ultimately have "inv F ?V"
    using c(1) t by (auto simp: inv_def set_loop_def)
  then show "inv F0 (get y)" using assms(3) U(3) by (simp add: J_def)
qed

lemma J_close:
  assumes "grow S T" "0 \<le> pos \<Longrightarrow> pos \<in> set (fr_pos F)" "\<And>st. J F st get (k st) F0"
  shows "J F S get (Option.bind (close_loop pos T) k) F0"
proof -
  have 1: "J F st id (case current_loop st of None \<Rightarrow> None
     | Some l \<Rightarrow> do { st \<leftarrow> st_patch_all (ls_break_patches l) (st_ip st) st; Some (pop_loop st) }) F" for st
    unfolding J_def
  proof (intro impI allI)
    fix y
    assume "inv F st" "(case current_loop st of None \<Rightarrow> None
     | Some l \<Rightarrow> do { st \<leftarrow> st_patch_all (ls_break_patches l) (st_ip st) st; Some (pop_loop st) }) = Some y"
    then obtain l U where U: "inv F st" "current_loop st = Some l"
      "st_patch_all (ls_break_patches l) (st_ip st) st = Some U" "y = pop_loop U"
      by (auto simp: bind_eq_Some_conv split: option.splits)
    have "inv F U" using patch_all_inv [OF U(1) _ _ U(3)] current_loop_pending [OF U(2)] by blast
    then show "inv F (id y)" using pop_loop_grow [OF grow_refl, of U] U(4) by (simp add: grow_def)
  qed
  have 2: "J F T id (if pos \<ge> 0 then st_patch pos (st_ip T) T else Some T) F"
    using J_patch1 [of T T pos F "st_ip T" id Some F] assms(2)
    by (auto simp: grow_refl J_Some_id)
  show ?thesis
    unfolding J_def
  proof (intro impI allI)
    fix y
    assume "inv F S" "Option.bind (close_loop pos T) k = Some y"
    then obtain U V where U: "(if pos \<ge> 0 then st_patch pos (st_ip T) T else Some T) = Some U"
      "(case current_loop U of None \<Rightarrow> None
        | Some l \<Rightarrow> do { st \<leftarrow> st_patch_all (ls_break_patches l) (st_ip U) U; Some (pop_loop st) }) = Some V"
      "k V = Some y" "inv F T"
      using assms(1) by (auto simp: close_loop_def grow_def bind_eq_Some_conv)
    have "inv F U" using 2 U(1,4) by (simp add: J_def)
    then have "inv F V" using 1 [of U] U(2) by (simp add: J_def)
    then show "inv F0 (get y)" using assms(3) U(3) by (simp add: J_def)
  qed
qed

text \<open>A position that goes from the frame to the patches of the innermost loop.\<close>

lemma set_loop_inv:
  assumes "inv (push_pos pos F) T" "current_loop T = Some l"
  shows "inv F (set_loop (l\<lparr> ls_break_patches := ls_break_patches l @ [pos] \<rparr>) T)"
    and "inv F (set_loop (l\<lparr> ls_continue_patches := ls_continue_patches l @ [pos] \<rparr>) T)"
proof -
  have ip: "ls_continue_ip l \<in> set (known_ips T)"
    using assms(2) by (auto simp: current_loop_def known_ips_def split: if_splits)
  have m: "inv (push_pos pos F) (set_loop m T)"
    if "set (ls_break_patches m) \<union> set (ls_continue_patches m) \<subseteq> insert pos (set (pending T))"
      "ls_continue_ip m = ls_continue_ip l" for m
    using set_loop_sets [of m T] that ip
    by (intro inv_change [OF assms(1)]) (auto simp: set_loop_def)
  have l: "set (ls_break_patches l) \<union> set (ls_continue_patches l) \<subseteq> set (pending T)"
    by (rule current_loop_pending [OF assms(2)])
  show "inv F (set_loop (l\<lparr> ls_break_patches := ls_break_patches l @ [pos] \<rparr>) T)"
    by (rule inv_sub [OF m]) (use l in auto)
  show "inv F (set_loop (l\<lparr> ls_continue_patches := ls_continue_patches l @ [pos] \<rparr>) T)"
    by (rule inv_sub [OF m]) (use l in auto)
qed

text \<open>A jump only adds to the code.\<close>

lemma J_jump_code:
  assumes "grow S T" "branch opcode 0"
    and "\<And>pos c. J (push_pos pos F) (T\<lparr> fs_code := c \<rparr>) get (k pos (T\<lparr> fs_code := c \<rparr>)) F0"
  shows "J F S get (case st_jump opcode T of (pos, st) \<Rightarrow> k pos st) F0"
proof -
  let ?k = "\<lambda>pos st. if \<exists>c. st = T\<lparr> fs_code := c \<rparr> then k pos st else None"
  have "J F S get (case st_jump opcode T of (pos, st) \<Rightarrow> ?k pos st) F0"
    using assms by (intro J_branch) (auto simp: J_None)
  moreover have "(case st_jump opcode T of (pos, st) \<Rightarrow> ?k pos st) = (case st_jump opcode T of (pos, st) \<Rightarrow> k pos st)"
    by (auto simp: st_jump_def st_placeholder_def split: prod.splits)
  ultimately show ?thesis by simp
qed

lemma J_patch_known:
  assumes "grow S T" "pos \<in> set (fr_pos F)" "0 \<le> t" "t \<in> set (known_ips T)" "\<And>st. J F st get (k st) F0"
  shows "J F S get (Option.bind (st_patch pos t T) k) F0"
  unfolding J_def
proof (intro impI allI)
  fix y
  assume "inv F S" "Option.bind (st_patch pos t T) k = Some y"
  then obtain U where U: "st_patch_all [pos] t T = Some U" "k U = Some y" "inv F T"
    using assms(1) by (auto simp: st_patch_def bind_eq_Some_conv grow_def)
  have "inv F U" using patch_all_inv [OF U(3) _ _ U(1)] assms(2-4) by auto
  then show "inv F0 (get y)" using assms(5) U(2) by (simp add: J_def)
qed

lemma J_set_loop:
  assumes "current_loop T = Some l"
  shows "J (push_pos pos F) T snd (Some (y, set_loop (l\<lparr> ls_break_patches := ls_break_patches l @ [pos] \<rparr>) T)) F"
    and "J (push_pos pos F) T snd (Some (y, set_loop (l\<lparr> ls_continue_patches := ls_continue_patches l @ [pos] \<rparr>) T)) F"
  using set_loop_inv [OF _ assms] by (simp_all add: J_def)

lemma compile_break_keeps [keeps_intros]: "grow S T \<Longrightarrow> keeps S snd (compile_break T)"
  unfolding compile_break_def
  by (intro keeps_control J_Let J_jump_code J_set_loop grow_diag; simp add: current_loop_def split: if_splits)

lemma compile_continue_keeps [keeps_intros]: "grow S T \<Longrightarrow> keeps S snd (compile_continue T)"
  unfolding compile_continue_def
  by (intro keeps_control J_Let J_jump_code J_if J_set_loop J_patch_known J_Some grow_diag grow_refl)
    (auto simp: current_loop_def known_ips_def split: if_splits)

lemma catch_grow: "map_catch_target t T = (r, U) \<Longrightarrow> grow S T \<Longrightarrow> grow S U"
  using map_catch_target_grow [of S T t] by simp

lemma record_addr_grow:
  "grow S T \<Longrightarrow> grow S (T\<lparr> fs_record_addrs := (fs_record_addrs T)[i := st_ip T] \<rparr>)"
proof -
  have "inv F (T\<lparr> fs_record_addrs := (fs_record_addrs T)[i := st_ip T] \<rparr>)" if "inv F T" for F
    by (rule inv_change [OF that])
      (use set_update_subset_insert [of "fs_record_addrs T" i "st_ip T"] in \<open>auto simp: pending_def known_ips_def\<close>)
  then show "grow S T \<Longrightarrow> ?thesis" by (simp add: grow_def)
qed

lemma compile_block_record_keeps [keeps_intros]: "grow S T \<Longrightarrow> keeps S snd (compile_block_record ip T)"
  unfolding compile_block_record_def
  by (intro keeps_rules record_addr_grow keeps_intros J_keeps; simp add: opcode_simps)

lemma compile_block_jump_keeps [keeps_intros]: "grow S T \<Longrightarrow> keeps S snd (compile_block_jump e T)"
  unfolding compile_block_jump_def
  by (intro stmt_rules keeps_intros J_keeps; simp add: grow_refl)

locale stmt_keeps =
  fixes rec :: stmt_compiler
  assumes rec_keeps: "grow S T \<Longrightarrow> keeps S snd (rec s T)"
begin

lemmas rec_intro [keeps_intros] = rec_keeps

lemma compile_stmts_keeps [keeps_intros]: "grow S T \<Longrightarrow> keeps S snd (compile_stmts rec ss T)"
proof (induction ss arbitrary: S T)
  case (Cons s ss)
  then show ?case
    by (simp only: compile_stmts.simps) (intro stmt_rules keeps_intros Cons.IH J_keeps; simp add: grow_refl)
qed (simp add: keeps_rules)

lemma compile_block_keeps [keeps_intros]: "grow S T \<Longrightarrow> keeps S snd (compile_block rec ss T)"
  unfolding compile_block_def
  by (intro stmt_rules keeps_intros J_keeps; simp add: grow_refl)

lemma compile_try_keeps [keeps_intros]:
  "grow S T \<Longrightarrow> keeps S snd (compile_try rec addr b c t name has T)"
  unfolding compile_try_def
  by (intro stmt_rules keeps_intros J_keeps) (auto simp: grow_refl opcode_simps dest: catch_grow)

lemma compile_branches_keeps:
  assumes "\<And>S T. grow S T \<Longrightarrow> keeps S id (bind_pattern T)"
  shows "grow S T \<Longrightarrow> keeps S snd (compile_branches rec bind_pattern old a b c T)"
  unfolding compile_branches_def
  by (intro stmt_rules assms keeps_intros J_keeps; simp add: grow_refl opcode_simps)

lemma compile_if_keeps [keeps_intros]:
  "grow S T \<Longrightarrow> keeps S snd (compile_if rec addr c a b pattern k v T)"
  unfolding compile_if_def
  by (intro stmt_rules keeps_intros J_keeps compile_branches_keeps;
    (split expr.split, intro conjI allI impI stmt_rules keeps_intros J_keeps compile_branches_keeps)?;
    simp add: grow_refl opcode_simps)

lemma stmt_cases_rule:
  assumes "grow S T" "set ends \<subseteq> set (fr_pos F)"
    and "\<And>F' r st. sub F F' \<Longrightarrow> (\<And>es d. r = Some (es, d) \<Longrightarrow> set es \<subseteq> set (fr_pos F')) \<Longrightarrow> J F' st get (k r st) F0"
  shows "J F S get (Option.bind (stmt_cases rec sv cs ends d T) (\<lambda>(r, st). k r st)) F0"
  using assms
proof (induction cs arbitrary: S T F ends d)
  case Nil
  have "J F T get (k (Some (ends, d)) T) F0" using Nil.prems(2) by (intro Nil.prems(3)) auto
  then show ?case using Nil.prems(1) by (simp add: J_grow)
next
  case (Cons c cs)
  obtain m b is_default where c: "c = (m, b, is_default)" by (cases c)
  have IH: "J F' S' get (Option.bind (stmt_cases rec sv cs es d' T') (\<lambda>(r, st). k r st)) F0"
    if "sub F F'" "grow S' T'" "set es \<subseteq> set (fr_pos F')" for F' S' T' es d'
    using that by (intro Cons.IH Cons.prems(3)) (auto intro: sub_trans)
  have stop: "J F' st get (k None st) F0" if "sub F F'" for F' st
    using that Cons.prems(3) by auto
  show ?case
    unfolding c stmt_cases.simps
    by (intro IH keeps_through J_pair stop keeps_intros J_keeps)
      (use Cons.prems(1,2) in \<open>auto simp: opcode_simps grow_refl\<close>)
qed

lemma compile_switch_keeps [keeps_intros]: "grow S T \<Longrightarrow> keeps S snd (compile_switch rec e cs T)"
  unfolding compile_switch_def
  by (intro keeps_control stmt_cases_rule stmt_rules keeps_intros J_keeps; auto simp: grow_refl opcode_simps)

text \<open>The body of a loop, without its last statement when the back edge is fused.\<close>

lemma loop_body_keeps:
  "grow S T \<Longrightarrow> keeps S snd (case (fused, body) of
     (Some _, Some (SBlock _ ss)) \<Rightarrow> compile_stmts rec (butlast ss) T | _ \<Rightarrow> rec body T)"
  by (auto split: option.split stmt.split intro: keeps_intros)

lemma J_loop_body:
  assumes "grow S T" "t = -1 \<or> t \<in> set (fr_ips F)" "\<And>T. keeps T snd (m T)"
    "\<And>x st. J F st get (k (x, st)) F0"
  shows "J F S get (Option.bind (m (push_loop t T)) k) F0"
  using assms(1) push_loop_inv [OF _ assms(2)] J_bind [OF assms(3,4)] by (rule J_step)

lemmas J_loop_bodies =
  J_loop_body [where m = "\<lambda>T. case (fused, body) of
     (Some _, Some (SBlock _ ss)) \<Rightarrow> compile_stmts rec (butlast ss) T | _ \<Rightarrow> rec body T" for fused body]
  J_loop_body [where m = "rec body" for body]

lemma compile_while_keeps [keeps_intros]: "grow S T \<Longrightarrow> keeps S snd (compile_while rec s c b T)"
  unfolding compile_while_def
  by (intro loop_body_keeps keeps_control J_ip ce.J_condition J_loop_bodies J_continues J_close J_bind_frame [OF J_backedge]
      stmt_rules superloop_fits keeps_intros J_keeps)
    (simp_all add: grow_refl fused_fits)

lemma J_for_condition:
  assumes "grow S T" "\<And>pos st. J (push_pos pos F) st get (k pos st) F0" "\<And>st. J F st get (k (-1) st) F0"
  shows "J F S get (Option.bind (if c = None then Some (-1, T) else emit_condition_false_branch compile_expr c T)
    (\<lambda>(pos, st). k pos st)) F0"
  using ce.J_condition [of S T F get k F0 c] J_grow [OF assms(3,1)] assms by simp

lemma compile_for_rest_keeps [keeps_intros]: "grow S T \<Longrightarrow> keeps S snd (compile_for_rest rec s c p b old T)"
  unfolding compile_for_rest_def
  by (intro keeps_control J_ip J_for_condition J_loop_bodies J_continues J_close J_bind_frame [OF J_backedge]
      stmt_rules keeps_intros J_keeps)
    (simp_all add: grow_refl fused_fits)

lemma compile_for_keeps [keeps_intros]: "grow S T \<Longrightarrow> keeps S snd (compile_for rec s i c p b T)"
  unfolding compile_for_def
  by (intro stmt_rules superloop_fits keeps_intros J_keeps) (simp_all add: grow_refl)

lemma stmt_step_keeps: "grow S T \<Longrightarrow> keeps S snd (stmt_step rec s T)"
  unfolding stmt_step_def
  by (split option.split, split stmt.split)
    (intro conjI allI impI stmt_rules keeps_intros J_keeps; simp add: grow_refl)

end

lemma compile_stmt_keeps: "grow S T \<Longrightarrow> keeps S snd (compile_stmt s T)"
proof (induction s arbitrary: S T rule: measure_induct_rule [where f = stmt_measure])
  case (less s)
  let ?rec = "\<lambda>x st. if stmt_measure x < stmt_measure s then compile_stmt x st else None"
  have "stmt_keeps ?rec"
    by unfold_locales (simp add: less.IH keeps_rules)
  then show ?case using less.prems
    by (subst compile_stmt.simps) (rule stmt_keeps.stmt_step_keeps)
qed

interpretation cs: stmt_keeps compile_stmt
  by unfold_locales (rule compile_stmt_keeps)

end
