(* ===== verification/KncBuildProps.thy ===== *)
theory KncBuildProps
  imports KncStmtKeeps KncBuild
begin

text \<open>
  The code of a whole program: every function that the emitter builds consists of whole instructions
  and jumps to instructions only.
\<close>

lemma keepsD: "keeps T get m \<Longrightarrow> m = Some y \<Longrightarrow> inv F T \<Longrightarrow> inv F (get y)"
  by (simp add: keeps_def J_def)

subsection \<open>The start of a function\<close>

lemma new_state_inv:
  "codes_ok p \<Longrightarrow> good_code c \<Longrightarrow> inv (Frame [] [] 0) ((new_state nodes p errors i plan)\<lparr> fs_code := c \<rparr>)"
  by (simp add: inv_def new_state_def pending_def known_ips_def boundary_ends)

lemma new_state_code: "(new_state nodes p errors i plan)\<lparr> fs_code := [] \<rparr> = new_state nodes p errors i plan"
  by (simp add: new_state_def)

lemma add_param_grow: "grow S T \<Longrightarrow> grow S (add_param name t d T)"
  unfolding add_param_def Let_def by (intro grow_field add_local_grow)

lemma add_params_grow: "grow S T \<Longrightarrow> grow S (snd (add_params ps T))"
  by (induction ps arbitrary: T) (simp_all add: add_param_grow grow_diag)

lemma add_captures_grow:
  "grow S T \<Longrightarrow> grow S (fold (\<lambda>c. add_capture_local (kc_name c) (kc_type c) (kc_slot c)) cs T)"
  by (induction cs arbitrary: T) (simp_all add: add_capture_local_def grow_field)

lemma enter_function_inv:
  assumes "codes_ok p" "good_code (kf_code r)"
  shows "inv (Frame [] [] 0) (snd (enter_function nodes p errors r))"
proof -
  let ?st = "(new_state nodes p errors (kf_index r) (Some (knc_capture_plan_create (record_body (Some r))
    (case record_params (Some r) of None \<Rightarrow> [] | Some ps \<Rightarrow> ps) (is_instance_method r))))\<lparr> fs_code := kf_code r \<rparr>"
  have "grow ?st (snd (enter_function nodes p errors r))"
    unfolding enter_function_def Let_def
    by (intro add_params_grow add_captures_grow grow_control add_param_grow grow_field grow_refl)
  then show ?thesis by (rule grow_inv) (rule new_state_inv [OF assms])
qed

lemma enter_block_inv:
  assumes "inv F st" "enter_block r st = Some (ok, st')"
  shows "\<exists>G. inv G st' \<and> (ok \<and> kf_is_block r \<longrightarrow> 0 \<le> fr_body G)"
proof (cases "kf_is_block r")
  case False
  then show ?thesis using assms by (auto simp: enter_block_def)
next
  case True
  show ?thesis
  proof (cases "find_local st (Some ''__knc_block_start'') = None \<or> find_local st (Some ''__knc_block_until'') = None")
    case none: True
    then have "st' = knc_diag st" "\<not> ok" using assms(2) True by (auto simp: enter_block_def split: option.splits)
    then show ?thesis using assms(1) by (auto simp: knc_diag_def)
  next
    case False
    let ?G = "Frame (fr_pos F) (fr_ips F) (-1)"
    obtain start until s1 s2 s3 r1 r2 where
      s: "load_local_value start (st\<lparr> fs_in_block := True \<rparr>) = Some (r1, s1)"
        "load_local_value until s1 = Some (r2, s2)"
        "emit_block_dispatch r1 (s2\<lparr> fs_start_reg := r1, fs_until_reg := r2,
          fs_block_records := kf_block_records r, fs_body_ip := -1,
          fs_record_patches := replicate (case kf_block_records r of None \<Rightarrow> 0 | Some rs \<Rightarrow> length rs) [],
          fs_record_addrs := replicate (case kf_block_records r of None \<Rightarrow> 0 | Some rs \<Rightarrow> length rs) (-1) \<rparr>) = Some s3"
        "st' = s3\<lparr> fs_body_ip := st_ip s3 \<rparr>" "ok"
      using assms(2) True False by (auto simp: enter_block_def bind_eq_Some_conv Let_def split: option.splits)
    let ?s2 = "s2\<lparr> fs_start_reg := r1, fs_until_reg := r2,
          fs_block_records := kf_block_records r, fs_body_ip := -1,
          fs_record_patches := replicate (case kf_block_records r of None \<Rightarrow> 0 | Some rs \<Rightarrow> length rs) [],
          fs_record_addrs := replicate (case kf_block_records r of None \<Rightarrow> 0 | Some rs \<Rightarrow> length rs) (-1) \<rparr>"
    have "inv F s1" using keepsD [OF load_local_value_keeps [OF grow_refl] s(1)] assms(1) by simp
    then have i2: "inv F s2" using keepsD [OF load_local_value_keeps [OF grow_refl] s(2)] by simp
    have "set (pending ?s2) \<subseteq> set (pending s2)" "set (known_ips ?s2) \<subseteq> insert (-1) (set (known_ips s2))"
      by (auto simp: pending_def known_ips_def)
    then have "inv ?G ?s2" using i2 by (auto simp: inv_def)
    then have i3: "inv ?G s3"
      using keepsD [OF emit_block_dispatch_keeps [OF grow_refl] s(3)] by simp
    have "set (pending st') = set (pending s3)" "set (known_ips st') \<subseteq> insert (st_ip s3) (set (known_ips s3))"
      by (auto simp: s(4) pending_def known_ips_def)
    then have "inv (Frame (fr_pos F) (fr_ips F) (st_ip s3)) st'"
      using i3 s(4) by (auto simp: inv_def st_ip_def current_ip_def good_code_def boundary_ends)
    then show ?thesis by (intro exI [of _ "Frame (fr_pos F) (fr_ips F) (st_ip s3)"]) (simp add: st_ip_def current_ip_def)
  qed
qed

subsection \<open>The end of a function\<close>

fun_cases patch_records_SomeE: "patch_records (ps # pss) (a # as) start T = Some T'"

lemma patch_records_inv:
  assumes "inv F T" "set (concat pss) \<subseteq> set (pending T)" "set as \<subseteq> set (known_ips T)"
    "0 \<le> start" "start \<in> set (known_ips T)" "patch_records pss as start T = Some T'"
  shows "inv F T'"
  using assms
proof (induction pss as start T rule: patch_records.induct)
  case (1 ps pss a as start T)
  then obtain U where U: "st_patch_all ps (if a \<ge> 0 then a else start) T = Some U"
    "patch_records pss as start U = Some T'"
    by (auto simp: bind_eq_Some_conv elim: patch_records_SomeE)
  have "inv F U \<and> (\<exists>c. U = T\<lparr> fs_code := c \<rparr> \<and> length c = length (fs_code T))"
    by (rule patch_all_inv [OF 1(2) _ _ U(1)]) (use 1(3-6) in auto)
  then obtain c where "inv F U" "U = T\<lparr> fs_code := c \<rparr>" by blast
  then show ?case using 1(1) [OF U(1)] 1(3-6) U(2) by simp
qed auto

lemma leave_block_inv:
  assumes "inv F T" "kf_is_block r \<Longrightarrow> 0 \<le> fr_body F" "leave_block r T = Some T'"
  shows "inv F T'"
proof (cases "kf_is_block r")
  case False
  then show ?thesis using assms by (simp add: leave_block_def)
next
  case True
  obtain U where U: "st_patch_all (fs_start_patches T) (fs_body_ip T) T = Some U"
    "patch_records (fs_record_patches U) (fs_record_addrs U) (fs_body_ip U) U = Some T'"
    using assms(3) True by (auto simp: leave_block_def bind_eq_Some_conv)
  have b: "0 \<le> fs_body_ip T" "fs_body_ip T \<in> set (known_ips T)"
    using assms(1,2) True by (simp_all add: inv_def known_ips_def)
  have "inv F U \<and> (\<exists>c. U = T\<lparr> fs_code := c \<rparr> \<and> length c = length (fs_code T))"
    by (rule patch_all_inv [OF assms(1) _ _ U(1)]) (use b in \<open>auto simp: pending_def\<close>)
  then obtain c where "inv F U" "U = T\<lparr> fs_code := c \<rparr>" by blast
  then show ?thesis
    by (intro patch_records_inv [OF _ _ _ _ _ U(2)]) (use b in \<open>auto simp: pending_def known_ips_def\<close>)
qed

lemma emit_final_return_keeps: "grow S T \<Longrightarrow> keeps S id (emit_final_return t T)"
  unfolding emit_final_return_def
  by (intro keeps_rules keeps_intros J_keeps; simp add: opcode_simps)

lemma set_func_codes:
  "codes_ok p \<Longrightarrow> good_code (fs_code st) \<Longrightarrow> codes_ok (set_func i (finish_record n k st) p)"
  by (simp add: set_func_def finish_record_def codes_update)

lemma inv_codes: "inv F st \<Longrightarrow> codes_ok (fs_program st)" "inv F st \<Longrightarrow> good_code (fs_code st)"
  by (simp_all add: inv_def)

lemma compile_function_body_codes:
  assumes "codes_ok p" "good_code (kf_code r)" "compile_function_body nodes p errors r = Some (ok, p', errors')"
  shows "codes_ok p'"
proof -
  obtain ok0 s0 where s0: "enter_function nodes p errors r = (ok0, s0)" by fastforce
  obtain ok1 s1 ok2 s2 where s: "and_then (ok0, s0) (enter_block r) = Some (ok1, s1)"
    "and_then (ok1, s1) (compile_stmt (record_body (Some r))) = Some (ok2, s2)"
    using assms(3) s0 by (auto simp: compile_function_body_def Let_def bind_eq_Some_conv)
  have i0: "inv (Frame [] [] 0) s0" using enter_function_inv [OF assms(1,2), of nodes errors] s0 by simp
  have "\<exists>G. inv G s1 \<and> (ok1 \<and> kf_is_block r \<longrightarrow> 0 \<le> fr_body G)"
    using s(1) i0 enter_block_inv [OF i0] by (auto simp: and_then_def split: if_splits)
  then obtain G where G: "inv G s1" "ok1 \<and> kf_is_block r \<longrightarrow> 0 \<le> fr_body G" by blast
  have "inv G s2 \<and> (ok2 \<longrightarrow> ok1)"
    using s(2) G(1) keepsD [OF compile_stmt_keeps [OF grow_refl], of "record_body (Some r)" s1]
    by (auto simp: and_then_def split: if_splits)
  then have i2: "inv G s2" "ok2 \<longrightarrow> ok1" by simp_all
  show ?thesis
  proof (cases ok2)
    case False
    then show ?thesis using assms(3) s0 s i2 by (auto simp: compile_function_body_def Let_def inv_codes)
  next
    case True
    obtain s3 s4 where e: "leave_block r s2 = Some s3" "emit_final_return (record_return_type (Some r)) s3 = Some s4"
      "\<exists>n k. p' = set_func (kf_index r) (finish_record n k s4) (fs_program s4)"
      using assms(3) s0 s True by (auto simp: compile_function_body_def Let_def bind_eq_Some_conv)
    have "inv G s3" using leave_block_inv [OF i2(1) _ e(1)] G(2) i2(2) True by simp
    then have "inv G s4" using keepsD [OF emit_final_return_keeps [OF grow_refl] e(2)] by simp
    then show ?thesis using e(3) by (auto intro: set_func_codes inv_codes)
  qed
qed

end
