(* ===== verification/KncProgramProps.thy ===== *)
theory KncProgramProps
  imports KncBuildProps
begin

text \<open>
  The functions of an emitted program have good code: it consists of whole instructions, and the
  jumps of a function that is shorter than 65536 bytes go to instructions of the function.
\<close>

subsection \<open>The loop over the functions\<close>

lemma compile_pass_codes:
  "compile_pass nodes i progressed p errors = Some y \<Longrightarrow> codes_ok p \<longrightarrow> codes_ok (fst (snd (snd y)))"
proof (erule compile_pass.raw_induct
    [where P = "\<lambda>nodes i b p e y. codes_ok p \<longrightarrow> codes_ok (fst (snd (snd y)))", rotated], goal_cases)
  case (1 rec nodes i progressed p errors y)
  show ?case
  proof
    assume p: "codes_ok p"
    show "codes_ok (fst (snd (snd y)))"
    proof (cases "i < length (kp_funcs p) \<and> kf_reachable (kp_funcs p ! i) \<and> \<not> kf_built (kp_funcs p ! i)")
      case False
      then show ?thesis using 1 p by (auto simp: Let_def split: if_splits)
    next
      case True
      then obtain ok q e where b: "compile_function_body nodes p errors (kp_funcs p ! i) = Some (ok, q, e)"
        "(if \<not> ok then Some (False, True, q, e) else rec nodes (i + 1) True q e) = Some y"
        using 1(2) by (auto simp: Let_def bind_eq_Some_conv)
      have "codes_ok q"
        using compile_function_body_codes [OF p _ b(1)] codes_nth [OF p] True by blast
      then show ?thesis using b(2) 1(1) by (auto split: if_splits)
    qed
  qed
qed

lemma compile_reachable_codes:
  "compile_reachable_functions nodes p errors = Some y \<Longrightarrow> codes_ok p \<longrightarrow> codes_ok (fst (snd y))"
proof (erule compile_reachable_functions.raw_induct
    [where P = "\<lambda>nodes p e y. codes_ok p \<longrightarrow> codes_ok (fst (snd y))", rotated], goal_cases)
  case (1 rec nodes p errors y)
  then obtain ok progressed q e where b: "compile_pass nodes 0 False p errors = Some (ok, progressed, q, e)"
    "(if \<not> ok then Some (False, q, e) else if progressed then rec nodes q e else Some (True, q, e)) = Some y"
    by (auto simp: bind_eq_Some_conv)
  then show ?case using compile_pass_codes [OF b(1)] 1(1) by (auto split: if_splits)
qed

subsection \<open>Globals and the entry\<close>

lemma push_func_codes: "codes_ok p \<Longrightarrow> good_code (kf_code r) \<Longrightarrow> codes_ok (push_func r p)"
  by (auto simp: codes_ok_def push_func_def)

lemma own_record_code [simp]: "kf_code (own_record name p) = []"
  by (simp add: own_record_def)

lemma init_slot_keeps [keeps_intros]: "grow S T \<Longrightarrow> keeps S snd (init_slot e t slot T)"
  unfolding init_slot_def
  by (intro stmt_rules keeps_intros J_keeps; simp add: opcode_simps grow_refl)

lemma init_globals_keeps [keeps_intros]: "grow S T \<Longrightarrow> keeps S snd (init_globals ss T)"
proof (induction ss arbitrary: S T)
  case (Cons s ss)
  show ?case
    unfolding init_globals.simps
    by (split option.split, split stmt.split)
      (intro conjI allI impI stmt_rules keeps_intros Cons.IH J_keeps; simp add: Cons.prems grow_refl)
qed (simp add: keeps_rules)

lemma init_fields_keeps [keeps_intros]: "grow S T \<Longrightarrow> keeps S snd (init_fields owner j fs T)"
proof (induction fs arbitrary: j S T)
  case (Cons f fs)
  show ?case
    unfolding init_fields.simps
    by (intro stmt_rules keeps_intros Cons.IH J_keeps; simp add: Cons.prems grow_refl)
qed (simp add: keeps_rules)

lemma init_classes_keeps [keeps_intros]: "grow S T \<Longrightarrow> keeps S snd (init_classes cs T)"
proof (induction cs arbitrary: S T)
  case (Cons c cs)
  show ?case
    unfolding init_classes.simps
    by (intro stmt_rules keeps_intros Cons.IH J_keeps; simp add: Cons.prems grow_refl)
qed (simp add: keeps_rules)

lemma new_state_inv_Nil: "codes_ok p \<Longrightarrow> inv (Frame [] [] 0) (new_state nodes p errors i plan)"
  using new_state_inv [of p "[]"] by (simp add: new_state_code)

lemma build_global_init_codes:
  assumes "codes_ok p" "build_global_init_function nodes gs p errors = Some (i, q, e)"
  shows "codes_ok q"
proof (cases "gs = [] \<and> kp_static_fields p = []")
  case True
  then show ?thesis using assms by (simp add: build_global_init_function_def)
next
  case False
  let ?r = "own_record ''__knc_init_globals'' p"
  let ?st = "new_state nodes (push_func ?r p) errors (kf_index ?r) None"
  obtain ok1 s1 ok2 s2 where s: "init_globals gs ?st = Some (ok1, s1)"
    "and_then (ok1, s1) (init_classes (kp_classes p)) = Some (ok2, s2)"
    using assms(2) False by (auto simp: build_global_init_function_def Let_def bind_eq_Some_conv)
  have "inv (Frame [] [] 0) ?st" using assms(1) by (intro new_state_inv_Nil push_func_codes) simp_all
  then have "inv (Frame [] [] 0) s1" using keepsD [OF init_globals_keeps [OF grow_refl] s(1)] by simp
  then have i2: "inv (Frame [] [] 0) s2"
    using s(2) keepsD [OF init_classes_keeps [OF grow_refl], of "kp_classes p" s1]
    by (auto simp: and_then_def split: if_splits)
  then have "inv (Frame [] [] 0) (emit [U8 KNC_OP_RET, U8 255] s2)"
    by (intro grow_inv [OF grow_emit [OF grow_refl]]) (simp_all add: opcode_simps)
  then show ?thesis using assms(2) False s i2
    by (auto simp: build_global_init_function_def Let_def bind_eq_Some_conv split: if_splits
        intro!: set_func_codes dest: inv_codes)
qed

lemma emit_plain_call_grow: "grow S T \<Longrightarrow> grow S (emit_plain_call reg i T)"
  unfolding emit_plain_call_def
  by (rule grow_emit) (simp_all add: opcode_simps)

lemma build_entry_wrapper_codes:
  assumes "codes_ok p" "build_entry_wrapper_function nodes m i p errors = Some (k, q)"
  shows "codes_ok q"
proof -
  let ?r = "own_record ''__knc_entry'' p"
  let ?s0 = "new_state nodes (push_func ?r p) errors (kf_index ?r) None"
  let ?s1 = "if i \<ge> 0 then emit_plain_call 255 i ?s0 else ?s0"
  obtain t reg s2 where s: "(if ty_kind t \<noteq> TY_VOID then alloc_reg ?s1 else Some (255, ?s1)) = Some (reg, s2)"
    "\<exists>n. q = set_func (kf_index ?r)
      (finish_record 0 n (emit [U8 KNC_OP_RET, U8 reg] (emit_plain_call reg m s2))) (fs_program (emit [U8 KNC_OP_RET, U8 reg] (emit_plain_call reg m s2)))"
    using assms(2) by (auto simp: build_entry_wrapper_function_def Let_def bind_eq_Some_conv)
  have "inv (Frame [] [] 0) ?s0" using assms(1) by (intro new_state_inv_Nil push_func_codes) simp_all
  then have "inv (Frame [] [] 0) ?s1"
    using grow_inv [OF emit_plain_call_grow [OF grow_refl]] by simp
  then have "inv (Frame [] [] 0) s2"
    using s(1) keepsD [OF alloc_reg_keeps [OF grow_refl], of ?s1 "(reg, s2)"] by (simp split: if_splits)
  then have "inv (Frame [] [] 0) (emit [U8 KNC_OP_RET, U8 reg] (emit_plain_call reg m s2))"
    by (intro grow_inv [OF grow_emit [OF emit_plain_call_grow [OF grow_refl]]]) (simp_all add: opcode_simps)
  then show ?thesis using s(2) by (auto intro: set_func_codes inv_codes)
qed

subsection \<open>The tables\<close>

lemma add_globals_funcs: "kp_funcs (snd (add_globals ss p)) = kp_funcs p"
proof (induction ss arbitrary: p)
  case (Cons s ss)
  have "kp_funcs (snd (program_add_global p n t)) = kp_funcs p" for n t
    by (simp add: program_add_global_def Let_def)
  then show ?case by (simp add: Cons split: option.split stmt.split)
qed simp

lemma add_fields_funcs: "kp_funcs (snd (add_fields owner j fs p)) = kp_funcs p"
proof (induction fs arbitrary: j p)
  case (Cons f fs)
  have "kp_funcs (snd (program_add_static_field p owner j t)) = kp_funcs p" for t
    by (simp add: program_add_static_field_def program_add_global_def Let_def split_beta)
  then show ?case by (simp add: Cons)
qed simp

lemma add_static_fields_funcs: "kp_funcs (snd (add_static_fields cs p)) = kp_funcs p"
  by (induction cs arbitrary: p) (simp_all add: split_beta Let_def add_fields_funcs)

lemma add_functions_codes: "codes_ok p \<Longrightarrow> codes_ok (snd (add_functions entry fs p))"
proof (induction fs arbitrary: p)
  case (Cons f fs)
  have "codes_ok (push_func ((own_record [] q)\<lparr> kf_func := g, kf_debug_name := n \<rparr>) p)" for q g n
    using Cons.prems by (rule push_func_codes) simp
  moreover have "codes_ok q \<Longrightarrow> codes_ok (q\<lparr> kp_entry := e \<rparr>)" for q e by (simp add: codes_ok_def)
  ultimately show ?case using Cons by (simp add: Let_def)
qed simp

lemma add_methods_codes: "codes_ok p \<Longrightarrow> codes_ok (snd (add_methods m c ti j mds p))"
proof (induction mds arbitrary: j p)
  case (Cons md mds)
  have "codes_ok (push_func ((own_record [] q)\<lparr> kf_kind := k, kf_method := Some md, kf_owner_class := Some c,
      kf_method_index := i, kf_is_instance := b, kf_debug_name := n \<rparr>) p)" for q k i b n
    using Cons.prems by (rule push_func_codes) simp
  moreover have "codes_ok q \<Longrightarrow> codes_ok (set_type i f q)" for q i f by (simp add: codes_ok_def set_type_def)
  ultimately show ?case using Cons by (simp add: Let_def)
qed simp

lemma add_class_methods_codes: "codes_ok p \<Longrightarrow> codes_ok (snd (add_class_methods m cs p))"
  by (induction cs arbitrary: p) (auto simp: split_beta Let_def add_methods_codes)

lemma set_type_funcs [simp]: "kp_funcs (set_type i f p) = kp_funcs p"
  by (simp add: set_type_def)

lemma link_classes_funcs: "link_classes cs p = Some q \<Longrightarrow> kp_funcs q = kp_funcs p"
proof (induction cs arbitrary: p)
  case (Cons c cs)
  have "link_class p c = Some u \<Longrightarrow> kp_funcs u = kp_funcs p" for u
    by (auto simp: link_class_def Let_def bind_eq_Some_conv split: if_splits)
  then show ?case using Cons by (auto simp: bind_eq_Some_conv)
qed simp

lemma build_tables_codes:
  assumes "build_tables m entry superloop funcs classes interfaces structs enums globals = Some (ok, p)"
  shows "codes_ok p"
proof -
  let ?p = "start_program superloop classes interfaces structs enums"
  have start: "codes_ok (snd (add_class_methods m classes (snd (add_functions entry funcs
      (snd (add_static_fields classes (snd (add_globals globals (?p\<lparr> kp_types := ts \<rparr>)))))))))"
    and start1: "codes_ok (snd (add_functions entry funcs
      (snd (add_static_fields classes (snd (add_globals globals (?p\<lparr> kp_types := ts \<rparr>)))))))"
    and start2: "codes_ok (snd (add_static_fields classes (snd (add_globals globals (?p\<lparr> kp_types := ts \<rparr>)))))"
    and start3: "codes_ok (snd (add_globals globals (?p\<lparr> kp_types := ts \<rparr>)))" for ts
  proof -
    show "codes_ok (snd (add_globals globals (?p\<lparr> kp_types := ts \<rparr>)))"
      by (simp add: codes_ok_def add_globals_funcs start_program_def)
    then show 2: "codes_ok (snd (add_static_fields classes (snd (add_globals globals (?p\<lparr> kp_types := ts \<rparr>)))))"
      by (simp add: codes_ok_def add_static_fields_funcs)
    show 1: "codes_ok (snd (add_functions entry funcs
      (snd (add_static_fields classes (snd (add_globals globals (?p\<lparr> kp_types := ts \<rparr>)))))))"
      by (rule add_functions_codes [OF 2])
    show "codes_ok (snd (add_class_methods m classes (snd (add_functions entry funcs
      (snd (add_static_fields classes (snd (add_globals globals (?p\<lparr> kp_types := ts \<rparr>)))))))))"
      by (rule add_class_methods_codes [OF 1])
  qed
  show ?thesis
    using assms start start1 start2 start3
    by (auto simp: build_tables_def Let_def bind_eq_Some_conv split_beta codes_ok_def
        dest!: link_classes_funcs split: if_splits)
qed

lemma build_code_codes:
  assumes "codes_ok p" "build_code nodes globals p = Some (Some q, errors)"
  shows "codes_ok q"
proof -
  define p1 where "p1 = program_mark_function_reachable (kp_entry p) (p\<lparr> kp_main_entry := kp_entry p \<rparr>)"
  have p1: "codes_ok p1" unfolding p1_def by (rule codes_mark) (use assms(1) in \<open>simp add: codes_ok_def\<close>)
  obtain i p2 e2 where i: "(if kp_globals p1 \<noteq> [] \<or> kp_static_fields p1 \<noteq> []
      then build_global_init_function nodes globals p1 0 else Some (-1, p1, 0)) = Some (i, p2, e2)"
    using assms(2) by (auto simp: build_code_def Let_def bind_eq_Some_conv p1_def split: if_splits)
  have p2: "codes_ok p2" using i p1 build_global_init_codes [OF p1] by (auto split: if_splits)
  obtain ok p3 e3 where r: "compile_reachable_functions nodes p2 e2 = Some (ok, p3, e3)"
    using assms(2) i by (auto simp: build_code_def Let_def bind_eq_Some_conv p1_def split: if_splits)
  have p3: "codes_ok p3" using compile_reachable_codes [OF r] p2 by simp
  have "q = p3 \<or> (\<exists>k p4. build_entry_wrapper_function nodes (kp_main_entry p3) i p3 e3 = Some (k, p4) \<and>
      q = p4\<lparr> kp_entry := k \<rparr>)"
    using assms(2) i r
    by (auto simp: build_code_def Let_def bind_eq_Some_conv p1_def [symmetric] split: if_splits)
  then show ?thesis using p3 build_entry_wrapper_codes [OF p3] by (auto simp: codes_ok_def)
qed

lemma emitted_codes:
  assumes "kn_emit_knc_program m nodes entry superloop funcs classes interfaces structs enums globals = Some (Some p)"
  shows "codes_ok p"
  using assms
  by (auto simp: kn_emit_knc_program_def bind_eq_Some_conv split: if_splits
      dest!: build_tables_codes dest: build_code_codes)

subsection \<open>A program\<close>

text \<open>\<open>Main\<close> counts to five in a loop that it leaves by a break.\<close>

definition sample_info :: "type_kind \<Rightarrow> expr_info" where
  "sample_info k = (new_expr 1 1 1)\<lparr> ei_type := type_make k \<rparr>"

definition sample_less :: "expr option \<Rightarrow> expr option \<Rightarrow> expr option" where
  "sample_less a b = Some (EBinary ((sample_info TY_BOOL)\<lparr> ei_binary :=
     \<lparr> rb_kind = BIN_NUMERIC_COMPARISON, rb_lhs = type_make TY_INT, rb_rhs = type_make TY_INT,
       rb_side = PTR_NONE, rb_unsigned = False, rb_bits = 64 \<rparr> \<rparr>) (OP TOK_LT) a b)"

definition sample_var :: "expr option" where
  "sample_var = Some (EVar (sample_info TY_INT) (Some ''i''))"

definition sample_int :: "int \<Rightarrow> expr option" where
  "sample_int v = Some (EInt (sample_info TY_INT) v)"

definition sample_body :: stmt where
  "sample_body = SBlock 10 [
     Some (SVar 11 (type_make TY_INT) (Some ''i'') [] (sample_int 0) False None),
     Some (SWhile 12 (Some (EBool (sample_info TY_BOOL) 1)) (Some (SBlock 13 [
       Some (SIf 14 (sample_less (sample_int 5) sample_var) (Some (SBreak 15)) None None False False),
       Some (SExpr 16 (Some (EUnary (sample_info TY_INT) (OP TOK_PLUSPLUS) sample_var True)))]))),
     Some (SReturn 17 sample_var)]"

definition sample_main :: func where
  "sample_main = \<lparr> fn_name = Some ''Main'', fn_qname = Some ''App.Main'', fn_ret_type = type_make TY_INT,
     fn_params = [], fn_type_params = [], fn_body = Some sample_body, fn_attrs = [], fn_is_extern = False,
     fn_is_delegate = False, fn_delegate_abi_c = False, fn_is_static = True, fn_unit = None \<rparr>"

definition sample_tables :: knc_program where
  "sample_tables = snd (the (build_tables (\<lambda>_. True) (Some ''Main'') True [sample_main] [] [] [] [] []))"

definition sample_start :: knc_program where
  "sample_start = program_mark_function_reachable 0 (sample_tables\<lparr> kp_main_entry := 0 \<rparr>)"

definition sample_program :: knc_program where
  "sample_program = fst (snd (the (compile_function_body (\<lambda>_. (0, 0)) sample_start 0 (kp_funcs sample_start ! 0))))"

lemma sample_tables: "build_tables (\<lambda>_. True) (Some ''Main'') True [sample_main] [] [] [] [] [] = Some (True, sample_tables)"
  by code_simp

lemma sample_start: "kp_entry sample_tables = 0" "length (kp_funcs sample_start) = 1"
  "kf_reachable (kp_funcs sample_start ! 0)" "\<not> kf_built (kp_funcs sample_start ! 0)"
  "kp_globals sample_start = []" "kp_static_fields sample_start = []"
  by code_simp+

lemma sample_compiled:
  "compile_function_body (\<lambda>_. (0, 0)) sample_start 0 (kp_funcs sample_start ! 0) = Some (True, sample_program, 0)"
  by code_simp

lemma sample_built: "length (kp_funcs sample_program) = 1" "kf_built (kp_funcs sample_program ! 0)"
  by code_simp+

lemma sample_code: "kf_code (kp_funcs sample_program ! 0) =
    concat [[0, 0, 0, 0], [5, 1, 0], [2, 2, 1], [42, 2, 37, 0], [0, 3, 1, 0], [18, 4, 3, 1], [42, 4, 29, 0],
      [41, 37, 0], [5, 5, 1], [94, 1], [41, 7, 0], [58, 1], [0, 6, 0, 0], [58, 6]]"
  by code_simp

lemma sample_passes:
  "compile_reachable_functions (\<lambda>_. (0, 0)) sample_start 0 = Some (True, sample_program, 0)"
proof -
  have stop: "compile_pass (\<lambda>_. (0, 0)) 1 b sample_program 0 = Some (True, b, sample_program, 0)" for b
    by (subst compile_pass.simps) (simp add: sample_built)
  have skip: "compile_pass (\<lambda>_. (0, 0)) 0 b sample_program 0 = Some (True, b, sample_program, 0)" for b
    using stop [of b] by (subst compile_pass.simps) (simp add: sample_built)
  have first: "compile_pass (\<lambda>_. (0, 0)) 0 False sample_start 0 = Some (True, True, sample_program, 0)"
    using stop [of True] by (subst compile_pass.simps) (simp add: sample_start sample_compiled)
  have "compile_reachable_functions (\<lambda>_. (0, 0)) sample_program 0 = Some (True, sample_program, 0)"
    by (subst compile_reachable_functions.simps) (simp add: skip)
  then show ?thesis by (subst compile_reachable_functions.simps) (simp add: first)
qed

lemma sample_emitted:
  "kn_emit_knc_program (\<lambda>_. True) (\<lambda>_. (0, 0)) None True [sample_main] [] [] [] [] [] = Some (Some sample_program)"
proof -
  have "build_code (\<lambda>_. (0, 0)) [] sample_tables = Some (Some sample_program, 0)"
    using sample_start sample_passes by (simp add: build_code_def Let_def sample_start_def [symmetric])
  then show ?thesis by (simp add: kn_emit_knc_program_def entry_or_main_def sample_tables)
qed

lemma sample_func: "kp_funcs sample_program ! 0 \<in> set (kp_funcs sample_program)"
  by (simp add: sample_built)

subsection \<open>The code of the functions\<close>

text \<open>
  C2: every function of an emitted program is a sequence of whole instructions, so the walk that
  prints it meets each instruction at its start and never an invalid byte.
\<close>

theorem emitted_code_whole:
  assumes "kn_emit_knc_program m nodes entry superloop funcs classes interfaces structs enums globals = Some (Some p)"
    and "r \<in> set (kp_funcs p)"
  shows "\<exists>instrs. kf_code r = concat instrs \<and> (\<forall>i \<in> set instrs. is_instruction i) \<and>
    listing_walk (kf_code r) 0 = (starts 0 instrs, False)"
proof -
  have "code_ok (kf_code r)" using emitted_codes [OF assms(1)] assms(2) by (simp add: codes_ok_def good_code_def)
  then obtain instrs where i: "kf_code r = concat instrs" "\<forall>i \<in> set instrs. is_instruction i"
    by (auto simp: code_ok_def)
  then show ?thesis using listing_walk_from [OF i(2), of "[]"] by (intro exI [of _ instrs]) simp
qed

theorem emitted_code_whole_witness:
  "\<exists>instrs. kf_code (kp_funcs sample_program ! 0) = concat instrs \<and> (\<forall>i \<in> set instrs. is_instruction i) \<and>
    listing_walk (kf_code (kp_funcs sample_program ! 0)) 0 = (starts 0 instrs, False)"
  by (rule emitted_code_whole [OF sample_emitted sample_func])

text \<open>
  C1: in a function of an emitted program whose code fits the sixteen bits of a target, every jump, branch,
  fused back edge and entry of a try block goes to the start of an instruction of the function or to its end.
\<close>

theorem emitted_jumps_land:
  assumes "kn_emit_knc_program m nodes entry superloop funcs classes interfaces structs enums globals = Some (Some p)"
    and "r \<in> set (kp_funcs p)" "length (kf_code r) < 65536"
    and "jump_at (kf_code r) n"
  shows "boundary (kf_code r) (nat (knc_u16_at (kf_code r) (target_pos (kf_code r) n)))"
  using emitted_codes [OF assms(1)] assms(2-4) by (simp add: codes_ok_def good_code_def jumps_ok_def)

text \<open>The break of the sample at 26 jumps to 37, behind the loop.\<close>

theorem emitted_jumps_land_witness: "boundary (kf_code (kp_funcs sample_program ! 0)) 37"
proof -
  let ?c = "kf_code (kp_funcs sample_program ! 0)"
  have "take 26 ?c = concat [[0, 0, 0, 0], [5, 1, 0], [2, 2, 1], [42, 2, 37, 0], [0, 3, 1, 0], [18, 4, 3, 1], [42, 4, 29, 0]]"
    by (simp add: sample_code)
  moreover have "code_ok (concat [[0, 0, 0, 0], [5, 1, 0], [2, 2, 1], [42, 2, 37, 0], [0, 3, 1, 0], [18, 4, 3, 1], [42, 4, 29, 0]])"
    unfolding code_ok_def by (rule exI, rule conjI, rule refl) (simp add: is_instruction_def knc_instruction_size_def)
  ultimately have "jump_at ?c 26"
    by (simp add: jump_at_def boundary_def sample_code is_jump_def)
  from emitted_jumps_land [OF sample_emitted sample_func _ this] show ?thesis
    by (simp add: sample_code target_pos_def knc_instruction_size_def knc_u16_at_def)
qed

end
