(* ===== verification/KncDispatch.thy ===== *)
theory KncDispatch
  imports KncBuild
begin

text \<open>
  Virtual tables and the choice of the entry, \<open>apps/kinal/src/kn_knc.c\<close>: what the tables of
  \<open>KncBuild\<close> hold after the methods of a class are put into them.
\<close>

subsection \<open>Virtual tables\<close>

lemma length_vtable_put: "length (vtable_put vt slot f) = max (length vt) (nat slot + 1)"
  by (simp add: vtable_put_def)

lemma vtable_put_nth:
  "i < length (vtable_put vt slot f) \<Longrightarrow>
     vtable_put vt slot f ! i = (if i = nat slot then f else if i < length vt then vt ! i else -1)"
  by (auto simp: vtable_put_def nth_list_update nth_append)

text \<open>A class keeps every slot of its base, and what a slot holds comes from the base or the class.\<close>

lemma fill_vtable_entries:
  "fill_vtable p c direct j mds vt = Some vt' \<Longrightarrow>
     length vt \<le> length vt' \<and> set vt' \<subseteq> set vt \<union> set direct \<union> {-1}"
proof (induction mds arbitrary: j vt)
  case (Cons md mds)
  have put: "set (vtable_put vt slot f) \<subseteq> set vt \<union> {f, -1}" for slot f
    using set_update_subset_insert [of "vt @ replicate (nat slot + 1 - length vt) (-1)" "nat slot" f]
    unfolding vtable_put_def by (auto simp del: Suc_eq_plus1)
  show ?case
  proof (cases "md_is_static md \<or> md_is_constructor md \<or>
      \<not> (md_is_virtual md \<or> md_is_override md \<or> md_is_abstract md)")
    case True
    then show ?thesis using Cons by simp
  next
    case False
    let ?f = "if j < length direct then direct ! j else -1"
    obtain slot where "fill_vtable p c direct (j + 1) mds
        (vtable_put vt (if slot < 0 then int j else slot) ?f) = Some vt'"
      using Cons.prems False by (auto simp: bind_eq_Some_conv)
    note IH = Cons.IH [OF this]
    have "?f \<in> set direct \<union> {-1}" by simp
    then have "set (vtable_put vt (if slot < 0 then int j else slot) ?f) \<subseteq> set vt \<union> set direct \<union> {-1}"
      using put [of "if slot < 0 then int j else slot" ?f] by blast
    then show ?thesis using IH unfolding length_vtable_put by (meson le_sup_iff max.bounded_iff subset_trans sup_ge1 sup_ge2 Un_least)
  qed
qed auto

text \<open>
  A method that overrides one of a base class takes its slot; one that is virtual without overriding
  takes the slot of its own position in its class, also when the base class uses that slot for
  another method, which is lost from the table.
\<close>

lemma new_virtual_takes_base_slot:
  assumes "md_is_virtual md" "\<not> md_is_override md" "\<not> md_is_static md" "\<not> md_is_constructor md"
  shows "fill_vtable p c (f # fs) 0 [md] (g # vt) = Some (f # vt)"
  using assms by (simp add: vtable_put_def)

subsection \<open>The entry\<close>

text \<open>A function is taken for the entry when its qualified name only ends like the entry's name.\<close>

lemma entry_name_without_boundary:
  "name_matches_entry (f\<lparr> fn_name := Some ''DoMain'', fn_qname := Some ''App.DoMain'' \<rparr>) (Some ''Main'')"
  by (simp add: name_matches_entry_def kn_strcmp_def kn_strncmp_def Let_def NUL_def)

end
