(* ===== verification/Sema.thy ===== *)
theory Sema
  imports Ast
begin

text \<open>
  The shared helpers of semantic analysis, \<open>apps/kinal/src/kn_sema.c\<close>: the state of an analysis,
  its depth limits and messages, and the resolution of a written name to a declaration through
  the unit, the imports and the aliases around it.

  The state holds what these helpers read and write. Errors go to \<open>kn_diag_report\<close>; the log keeps
  the reports in order, and \<open>sm_emits\<close> says for which of them the printer of \<open>kn_diag.c\<close> counts
  an error. A request for memory that fails ends the process, so names are joined without failure.
\<close>

subsection \<open>State\<close>

datatype import_kind = IMPORT_OPEN | IMPORT_ALIAS | IMPORT_SYMBOL | IMPORT_LOCAL_ALIAS

record import_map =
  im_kind :: import_kind
  im_module :: cstr
  im_local :: cstr
  im_remote :: cstr
  im_unit :: cstr
  im_global :: bool

text \<open>A declaration as the checker sees it also names the type it is nested in.\<close>

record sema_class = class_decl +
  cd_owner :: cstr

record sema_interface = interface_decl +
  id_owner :: cstr

record sema_struct = struct_decl +
  sd_owner :: cstr

record sema_enum = enum_decl +
  ed_owner :: cstr

record report =
  rp_level :: nat
  rp_line :: int
  rp_col :: int
  rp_len :: int
  rp_title :: string
  rp_detail :: string

text \<open>\<open>sm_src_path\<close> is \<open>None\<close> when there is no source; level 0 is an error.\<close>

record sema =
  sm_src_path :: "cstr option"
  sm_imports :: "import_map list"
  sm_classes :: "sema_class list"
  sm_interfaces :: "sema_interface list"
  sm_structs :: "sema_struct list"
  sm_enums :: "sema_enum list"
  sm_current_unit :: cstr
  sm_expr_depth :: nat
  sm_stmt_depth :: nat
  sm_const_depth :: nat
  sm_saw_expr_limit :: bool
  sm_saw_stmt_limit :: bool
  sm_saw_const_limit :: bool
  sm_emits :: "report \<Rightarrow> bool"
  sm_error_count :: nat
  sm_log :: "report list"

text \<open>A text that is missing or empty.\<close>

definition no_text :: "cstr \<Rightarrow> bool" where
  "no_text t \<longleftrightarrow> t = None \<or> t = Some []"

definition same_text :: "cstr \<Rightarrow> cstr \<Rightarrow> bool" where
  "same_text a b \<longleftrightarrow> kn_strcmp a b = 0"

subsection \<open>Messages\<close>

definition kn_diag_report :: "sema \<Rightarrow> report \<Rightarrow> sema" where
  "kn_diag_report s r = s\<lparr> sm_log := sm_log s @ [r],
     sm_error_count := (if sm_emits s r then sm_error_count s + 1 else sm_error_count s) \<rparr>"

definition sema_error :: "sema \<Rightarrow> int \<Rightarrow> int \<Rightarrow> int \<Rightarrow> string \<Rightarrow> string \<Rightarrow> sema" where
  "sema_error s line col len title detail =
     (if (case sm_src_path s of None \<Rightarrow> True | Some p \<Rightarrow> no_text p) \<and> sm_error_count s > 0 then s
      else kn_diag_report s \<lparr> rp_level = 0, rp_line = line, rp_col = col, rp_len = len,
             rp_title = title, rp_detail = detail \<rparr>)"

definition sema_warn :: "sema \<Rightarrow> nat \<Rightarrow> int \<Rightarrow> int \<Rightarrow> int \<Rightarrow> string \<Rightarrow> string \<Rightarrow> sema" where
  "sema_warn s level line col len title detail =
     (if sm_src_path s = None then s
      else s\<lparr> sm_log := sm_log s @ [\<lparr> rp_level = level, rp_line = line, rp_col = col, rp_len = len,
             rp_title = title, rp_detail = detail \<rparr>] \<rparr>)"

text \<open>The decimal digits of a number, last digit first, at most as many as the buffer holds.\<close>

fun low_digits :: "nat \<Rightarrow> nat \<Rightarrow> string" where
  "low_digits 0 v = []"
| "low_digits (Suc room) v =
     (if v = 0 then [] else char_of (48 + v mod 10) # low_digits room (v div 10))"

definition sema_u32_to_text :: "32 word \<Rightarrow> string" where
  "sema_u32_to_text v = (if v = 0 then ''0'' else rev (low_digits 16 (unat v)))"

text \<open>The text that a sequence of \<open>kn_append\<close> calls leaves in \<open>char detail[256]\<close>.\<close>

fun append_parts :: "char list \<times> nat \<Rightarrow> string list \<Rightarrow> char list \<times> nat" where
  "append_parts (buf, off) [] = (buf, off)"
| "append_parts (buf, off) (p # ps) = append_parts (kn_append buf 256 off (Some p)) ps"

definition detail_text :: "string list \<Rightarrow> string" where
  "detail_text ps = takeWhile (\<lambda>c. c \<noteq> NUL) (fst (append_parts (replicate 256 NUL, 0) ps))"

definition or_text :: "cstr \<Rightarrow> string \<Rightarrow> string" where
  "or_text t d = (if no_text t then d else the t)"

definition sema_error_arg_count_named ::
    "sema \<Rightarrow> int \<Rightarrow> int \<Rightarrow> int \<Rightarrow> cstr \<Rightarrow> int \<Rightarrow> sema" where
  "sema_error_arg_count_named s line col len name expected =
     (let n = (if expected < 0 then 0 else expected)
      in sema_error s line col len ''Argument Count''
           (detail_text [or_text name ''Function'', ''() takes '', sema_u32_to_text (word_of_int n),
              '' arguments'']))"

definition sema_error_type_must_be_named ::
    "sema \<Rightarrow> int \<Rightarrow> int \<Rightarrow> int \<Rightarrow> cstr \<Rightarrow> cstr \<Rightarrow> cstr \<Rightarrow> sema" where
  "sema_error_type_must_be_named s line col len name subject expected =
     sema_error s line col len ''Type Mismatch''
       (detail_text [or_text name ''Value'', ''() '', or_text subject ''value'', '' must be '',
          or_text expected ''valid type''])"

definition sema_error_named_arg_unknown :: "sema \<Rightarrow> int \<Rightarrow> int \<Rightarrow> int \<Rightarrow> cstr \<Rightarrow> sema" where
  "sema_error_named_arg_unknown s line col len arg =
     sema_error s line col len ''Unknown Parameter''
       (detail_text [''Unknown named argument '' @ [CHR 0x27], or_text arg ''parameter'', [CHR 0x27]])"

definition sema_error_named_arg_duplicate :: "sema \<Rightarrow> int \<Rightarrow> int \<Rightarrow> int \<Rightarrow> cstr \<Rightarrow> sema" where
  "sema_error_named_arg_duplicate s line col len arg =
     sema_error s line col len ''Duplicate Named Argument''
       (detail_text [''Duplicate named argument '' @ [CHR 0x27], or_text arg ''parameter'', [CHR 0x27]])"

definition sema_warn_unreachable :: "sema \<Rightarrow> int \<Rightarrow> int \<Rightarrow> int \<Rightarrow> cstr \<Rightarrow> sema" where
  "sema_warn_unreachable s line col len reason =
     sema_warn s 2 line col len ''Unreachable Code''
       (detail_text ([''Unreachable code''] @ (if no_text reason then [] else ['': '', the reason])))"

text \<open>A variable of a scope, as far as its warning reads it.\<close>

record var_sym =
  vs_name :: cstr
  vs_used :: bool
  vs_is_param :: bool
  vs_line :: int
  vs_col :: int

definition sema_warn_unused_var :: "sema \<Rightarrow> var_sym \<Rightarrow> sema" where
  "sema_warn_unused_var s v =
     (if no_text (vs_name v) \<or> vs_is_param v \<or> vs_used v \<or> hd (the (vs_name v)) = CHR ''_'' then s
      else s\<lparr> sm_log := sm_log s @ [\<lparr> rp_level = 2, rp_line = vs_line v, rp_col = vs_col v,
             rp_len = int (kn_strlen (vs_name v)), rp_title = ''Unused Variable'',
             rp_detail = detail_text [''Variable '' @ [CHR 0x27], the (vs_name v),
               [CHR 0x27] @ '' is never used''] \<rparr>] \<rparr>)"

subsection \<open>Depth limits\<close>

abbreviation KN_SEMA_EXPR_DEPTH_LIMIT :: nat where "KN_SEMA_EXPR_DEPTH_LIMIT \<equiv> 128"
abbreviation KN_SEMA_STMT_DEPTH_LIMIT :: nat where "KN_SEMA_STMT_DEPTH_LIMIT \<equiv> 192"
abbreviation KN_SEMA_CONST_EVAL_DEPTH_LIMIT :: nat where "KN_SEMA_CONST_EVAL_DEPTH_LIMIT \<equiv> 32"

text \<open>Entering says whether the walk may go on; the node is given by its line and column.\<close>

definition sema_enter_expr :: "sema \<Rightarrow> (int \<times> int) option \<Rightarrow> sema \<times> bool" where
  "sema_enter_expr s e =
     (case e of None \<Rightarrow> (s, True)
      | Some (line, col) \<Rightarrow>
          if sm_expr_depth s \<ge> KN_SEMA_EXPR_DEPTH_LIMIT
          then (if sm_saw_expr_limit s then s
                else sema_error (s\<lparr> sm_saw_expr_limit := True \<rparr>) line col 1 ''Expression Too Complex''
                  ''Expression nesting exceeds compiler semantic-analysis limit'', False)
          else (s\<lparr> sm_expr_depth := sm_expr_depth s + 1 \<rparr>, True))"

definition sema_leave_expr :: "sema \<Rightarrow> sema" where
  "sema_leave_expr s =
     (if sm_expr_depth s > 0 then s\<lparr> sm_expr_depth := sm_expr_depth s - 1 \<rparr> else s)"

definition sema_enter_stmt :: "sema \<Rightarrow> (int \<times> int) option \<Rightarrow> sema \<times> bool" where
  "sema_enter_stmt s st =
     (case st of None \<Rightarrow> (s, True)
      | Some (line, col) \<Rightarrow>
          if sm_stmt_depth s \<ge> KN_SEMA_STMT_DEPTH_LIMIT
          then (if sm_saw_stmt_limit s then s
                else sema_error (s\<lparr> sm_saw_stmt_limit := True \<rparr>) line col 1 ''Statement Too Deep''
                  ''Statement nesting exceeds compiler semantic-analysis limit'', False)
          else (s\<lparr> sm_stmt_depth := sm_stmt_depth s + 1 \<rparr>, True))"

definition sema_leave_stmt :: "sema \<Rightarrow> sema" where
  "sema_leave_stmt s =
     (if sm_stmt_depth s > 0 then s\<lparr> sm_stmt_depth := sm_stmt_depth s - 1 \<rparr> else s)"

definition sema_enter_const_eval :: "sema \<Rightarrow> (int \<times> int) option \<Rightarrow> sema \<times> bool" where
  "sema_enter_const_eval s e =
     (case e of None \<Rightarrow> (s, True)
      | Some (line, col) \<Rightarrow>
          if sm_const_depth s \<ge> KN_SEMA_CONST_EVAL_DEPTH_LIMIT
          then (if sm_saw_const_limit s then s
                else sema_error (s\<lparr> sm_saw_const_limit := True \<rparr>) line col 1
                  ''Constant Expression Too Complex''
                  ''Constant-expression evaluation exceeds compiler recursion limit'', False)
          else (s\<lparr> sm_const_depth := sm_const_depth s + 1 \<rparr>, True))"

definition sema_leave_const_eval :: "sema \<Rightarrow> sema" where
  "sema_leave_const_eval s =
     (if sm_const_depth s > 0 then s\<lparr> sm_const_depth := sm_const_depth s - 1 \<rparr> else s)"

subsection \<open>Qualified names\<close>

definition qname_has_dot :: "cstr \<Rightarrow> bool" where
  "qname_has_dot name = (case name of None \<Rightarrow> False | Some n \<Rightarrow> list_ex (\<lambda>c. c = CHR ''.'') n)"

definition prepend_unit_name :: "cstr \<Rightarrow> cstr \<Rightarrow> cstr" where
  "prepend_unit_name unit name =
     (case name of None \<Rightarrow> None
      | Some n \<Rightarrow> if no_text unit then name else Some (the unit @ CHR ''.'' # n))"

definition join_qualified_name :: "cstr \<Rightarrow> cstr \<Rightarrow> cstr" where
  "join_qualified_name unit name =
     (case name of None \<Rightarrow> None
      | Some n \<Rightarrow> if no_text unit \<or> qname_has_dot name then name else Some (the unit @ CHR ''.'' # n))"

text \<open>An import made in another unit does not count.\<close>

definition import_here :: "sema \<Rightarrow> import_map \<Rightarrow> bool" where
  "import_here s m \<longleftrightarrow>
     no_text (im_unit m) \<or> no_text (sm_current_unit s) \<or> same_text (im_unit m) (sm_current_unit s)"

definition import_has_alias_for_module :: "sema \<Rightarrow> cstr \<Rightarrow> bool" where
  "import_has_alias_for_module s module_name \<longleftrightarrow>
     module_name \<noteq> None \<and>
     list_ex (\<lambda>m. import_here s m \<and> im_kind m = IMPORT_ALIAS \<and> im_module m \<noteq> None \<and>
        same_text (im_module m) module_name) (sm_imports s)"

definition import_has_open_module :: "sema \<Rightarrow> cstr \<Rightarrow> bool" where
  "import_has_open_module s module_name \<longleftrightarrow>
     module_name \<noteq> None \<and>
     list_ex (\<lambda>m. import_here s m \<and> im_kind m = IMPORT_OPEN \<and> im_module m \<noteq> None \<and>
        same_text (im_module m) module_name) (sm_imports s)"

definition module_accessible_by_namespace :: "sema \<Rightarrow> cstr \<Rightarrow> bool" where
  "module_accessible_by_namespace s module_name \<longleftrightarrow>
     (if no_text module_name then False
      else if sm_current_unit s \<noteq> None \<and> same_text (sm_current_unit s) module_name then True
      else if import_has_alias_for_module s module_name then False
      else import_has_open_module s module_name)"

definition import_has_module_symbol :: "sema \<Rightarrow> cstr \<Rightarrow> cstr \<Rightarrow> bool" where
  "import_has_module_symbol s module_name symbol \<longleftrightarrow>
     module_name \<noteq> None \<and> symbol \<noteq> None \<and>
     list_ex (\<lambda>m. import_here s m \<and> im_kind m = IMPORT_SYMBOL \<and> im_module m \<noteq> None \<and>
        im_remote m \<noteq> None \<and> same_text (im_module m) module_name \<and> same_text (im_remote m) symbol)
       (sm_imports s)"

definition qname_uses_hidden_module_alias :: "sema \<Rightarrow> cstr \<Rightarrow> bool" where
  "qname_uses_hidden_module_alias s name \<longleftrightarrow>
     name \<noteq> None \<and> qname_has_dot name \<and>
     list_ex (\<lambda>m. import_here s m \<and> im_kind m = IMPORT_ALIAS \<and> \<not> no_text (im_module m) \<and>
        kn_strncmp name (im_module m) (kn_strlen (im_module m)) = 0 \<and>
        at (the name) (kn_strlen (im_module m)) = CHR ''.'') (sm_imports s)"

definition qname_matches_decl :: "cstr \<Rightarrow> cstr \<Rightarrow> cstr \<Rightarrow> cstr \<Rightarrow> bool" where
  "qname_matches_decl name decl_name decl_unit decl_qname \<longleftrightarrow>
     (if name = None \<or> decl_name = None then False
      else if decl_qname \<noteq> None \<and> same_text name decl_qname then True
      else if same_text name decl_name then True
      else if no_text decl_unit then False
      else let ulen = kn_strlen decl_unit
           in kn_strlen name = ulen + 1 + kn_strlen decl_name \<and> kn_strncmp name decl_unit ulen = 0 \<and>
              at (the name) ulen = CHR ''.'' \<and> same_text (Some (drop (ulen + 1) (the name))) decl_name)"

subsection \<open>Aliases\<close>

definition expand_builtin_core_alias :: "cstr \<Rightarrow> cstr" where
  "expand_builtin_core_alias name =
     (if name = None then name
      else if same_text name (Some ''dict'') then Some ''IO.Collection.dict''
      else if same_text name (Some ''list'') then Some ''IO.Collection.list''
      else if same_text name (Some ''set'') then Some ''IO.Collection.set''
      else if kn_strncmp name (Some ''Object.'') 7 = 0
      then join_qualified_name (Some ''IO.Type.Object'') (Some (drop 7 (the name)))
      else name)"

text \<open>
  The loop over the aliases compares addresses to see whether a name has changed: the text it was
  given, the remote text of one of the imports, or a text joined just now, which is like no other.
  The text asked for is none of the texts stored in the imports.
\<close>

datatype name_ref = Given | Remote nat | Joined

type_synonym name_at = "name_ref \<times> string"

definition same_ref :: "name_at \<Rightarrow> name_at \<Rightarrow> bool" where
  "same_ref a b \<longleftrightarrow> fst a = fst b \<and> fst a \<noteq> Joined"

definition alias_target :: "nat \<Rightarrow> import_map \<Rightarrow> name_at option" where
  "alias_target i m =
     (if im_kind m = IMPORT_LOCAL_ALIAS then Some (Remote i, the (im_remote m))
      else if im_kind m = IMPORT_SYMBOL \<and> im_global m \<and> im_module m \<noteq> None
      then Some (if no_text (im_module m) \<or> qname_has_dot (im_remote m) then Remote i else Joined,
                 the (join_qualified_name (im_module m) (im_remote m)))
      else None)"

text \<open>\<open>None\<close> when no import changes the name, that is when \<open>next == current\<close> after the loop.\<close>

fun alias_scan :: "sema \<Rightarrow> nat \<Rightarrow> import_map list \<Rightarrow> name_at \<Rightarrow> name_at option" where
  "alias_scan s i [] current = None"
| "alias_scan s i (m # ms) current =
     (if \<not> import_here s m \<or> im_local m = None \<or> im_remote m = None \<or>
         \<not> same_text (im_local m) (Some (snd current))
      then alias_scan s (i + 1) ms current
      else case alias_target i m of
        None \<Rightarrow> alias_scan s (i + 1) ms current
      | Some n \<Rightarrow> if same_ref n current then alias_scan s (i + 1) ms current else Some n)"

fun alias_loop :: "sema \<Rightarrow> nat \<Rightarrow> name_at \<Rightarrow> name_at" where
  "alias_loop s 0 current = current"
| "alias_loop s (Suc rounds) current =
     (if qname_has_dot (Some (snd current)) then current
      else case alias_scan s 0 (sm_imports s) current of
        None \<Rightarrow> current
      | Some n \<Rightarrow> alias_loop s rounds n)"

definition expand_local_symbol_alias :: "sema \<Rightarrow> cstr \<Rightarrow> cstr" where
  "expand_local_symbol_alias s name =
     (if name = None \<or> qname_has_dot name then name
      else Some (snd (alias_loop s (length (sm_imports s) + 1) (Given, the name))))"

definition builtin_type_qname_globally_visible :: "cstr \<Rightarrow> bool" where
  "builtin_type_qname_globally_visible qname \<longleftrightarrow>
     qname \<noteq> None \<and>
     (same_text qname (Some ''IO.Error'') \<or> kn_strncmp qname (Some ''IO.Type.Object.'') 15 = 0 \<or>
      kn_strncmp qname (Some ''IO.Collection.'') 14 = 0)"

text \<open>
  The name behind a module alias; \<open>None\<close> when the name is returned as it is.
\<close>

definition alias_replacement :: "sema \<Rightarrow> string \<Rightarrow> cstr" where
  "alias_replacement s name =
     (let alias = takeWhile (\<lambda>c. c \<noteq> CHR ''.'') name; rest = drop (length alias + 1) name
      in if length alias = length name \<or> alias = [] \<or> rest = [] then None
         else case find (\<lambda>m. import_here s m \<and> im_kind m = IMPORT_ALIAS \<and> im_local m \<noteq> None \<and>
                im_module m \<noteq> None \<and> kn_strlen (im_local m) = length alias \<and>
                kn_strncmp (im_local m) (Some name) (length alias) = 0) (sm_imports s) of
              None \<Rightarrow> None
            | Some m \<Rightarrow> join_qualified_name (im_module m) (Some rest))"

definition expand_alias_qualified_name :: "sema \<Rightarrow> cstr \<Rightarrow> cstr" where
  "expand_alias_qualified_name s name =
     (case name of None \<Rightarrow> None
      | Some n \<Rightarrow> (case alias_replacement s n of None \<Rightarrow> name | Some e \<Rightarrow> Some e))"

fun last_dot_at :: "string \<Rightarrow> nat \<Rightarrow> nat option \<Rightarrow> nat option" where
  "last_dot_at [] i found = found"
| "last_dot_at (c # cs) i found = last_dot_at cs (i + 1) (if c = CHR ''.'' then Some i else found)"

definition expand_imported_symbol_qualified_name :: "sema \<Rightarrow> cstr \<Rightarrow> cstr" where
  "expand_imported_symbol_qualified_name s name =
     (case name of None \<Rightarrow> None
      | Some n \<Rightarrow>
        (case last_dot_at n 0 None of None \<Rightarrow> name
         | Some d \<Rightarrow>
             if d = 0 \<or> drop (d + 1) n = [] then name
             else case find (\<lambda>m. import_here s m \<and> im_kind m = IMPORT_SYMBOL \<and> \<not> im_global m \<and>
                    im_module m \<noteq> None \<and> im_local m \<noteq> None \<and> im_remote m \<noteq> None \<and>
                    kn_strlen (im_module m) = d \<and> kn_strncmp (im_module m) name d = 0 \<and>
                    same_text (im_local m) (Some (drop (d + 1) n))) (sm_imports s) of
                  None \<Rightarrow> name
                | Some m \<Rightarrow>
                    if same_text (im_local m) (im_remote m) then name
                    else join_qualified_name (im_module m) (im_remote m)))"

end
