(* ===== verification/SemaFind.thy ===== *)
theory SemaFind
  imports Sema
begin

text \<open>
  The search for the declaration a name denotes, \<open>apps/kinal/src/kn_sema.c\<close>: the score by which a
  declaration answers to a name, the searches that take the best score, the resolution of the
  names inside a type, and the search for a method of the same signature along a class hierarchy.
  The searches by any name, the equality of types and that of parameters are in
  \<open>sema/kn_sema_validate.inc\<close>, which the same file includes.
\<close>

subsection \<open>Scores\<close>

definition opened_match :: "sema \<Rightarrow> cstr \<Rightarrow> cstr \<Rightarrow> cstr \<Rightarrow> cstr \<Rightarrow> bool" where
  "opened_match s name decl_name decl_unit decl_qname =
     list_ex (\<lambda>m. import_here s m \<and> im_kind m = IMPORT_OPEN \<and> im_module m \<noteq> None \<and>
        qname_matches_decl (join_qualified_name (im_module m) name) decl_name decl_unit decl_qname)
       (sm_imports s)"

definition named_decl_match_score :: "sema \<Rightarrow> cstr \<Rightarrow> cstr \<Rightarrow> cstr \<Rightarrow> cstr \<Rightarrow> int" where
  "named_decl_match_score s raw0 decl_name decl_unit decl_qname =
     (if raw0 = None \<or> decl_name = None then 0
      else let raw = expand_local_symbol_alias s raw0; name = expand_builtin_core_alias raw;
               is_match = (\<lambda>n. qname_matches_decl n decl_name decl_unit decl_qname)
       in if decl_qname \<noteq> None \<and> builtin_type_qname_globally_visible name \<and> same_text name decl_qname
          then (if qname_has_dot raw then 100 else 85)
          else if decl_qname \<noteq> None \<and> same_text raw decl_qname then 100
          else if is_match name then (if qname_has_dot name then 95 else 60)
          else if qname_has_dot name then
            (if alias_replacement s (the name) \<noteq> None \<and> is_match (alias_replacement s (the name)) then 90
             else if \<not> no_text (sm_current_unit s) \<and> is_match (prepend_unit_name (sm_current_unit s) name)
             then 88 else 0)
          else if sm_current_unit s \<noteq> None \<and> is_match (join_qualified_name (sm_current_unit s) name) then 80
          else if opened_match s name decl_name decl_unit decl_qname then 70
          else 0)"

definition visible_decl_match_score :: "sema \<Rightarrow> cstr \<Rightarrow> cstr \<Rightarrow> cstr \<Rightarrow> cstr \<Rightarrow> int" where
  "visible_decl_match_score s raw0 decl_name decl_unit decl_qname =
     (if raw0 = None \<or> decl_name = None then 0
      else let raw = expand_local_symbol_alias s raw0; name = expand_builtin_core_alias raw;
               is_match = (\<lambda>n. qname_matches_decl n decl_name decl_unit decl_qname)
       in if builtin_type_qname_globally_visible name \<and> is_match name
          then (if qname_has_dot raw then 100 else 85)
          else if qname_has_dot name then
            (if import_has_open_module s name \<and> is_match name then 95
             else if alias_replacement s (the name) \<noteq> None \<and> is_match (alias_replacement s (the name))
             then (if import_has_open_module s (alias_replacement s (the name)) then 95 else 100)
             else if \<not> no_text (sm_current_unit s) \<and> is_match (prepend_unit_name (sm_current_unit s) name)
             then 98
             else if decl_unit \<noteq> None \<and> module_accessible_by_namespace s decl_unit \<and> is_match name then 95
             else 0)
          else if no_text decl_unit \<and> no_text (sm_current_unit s) \<and> same_text name decl_name then 80
          else if sm_current_unit s \<noteq> None \<and> is_match (join_qualified_name (sm_current_unit s) name) then 80
          else if opened_match s name decl_name decl_unit decl_qname then 70
          else 0)"

subsection \<open>Searches\<close>

text \<open>The first declaration of the highest score, if any score is positive.\<close>

fun best_from :: "('a \<Rightarrow> int) \<Rightarrow> 'a list \<Rightarrow> 'a option \<Rightarrow> int \<Rightarrow> 'a option" where
  "best_from f [] best best_score = best"
| "best_from f (d # ds) best best_score =
     (if f d > best_score then best_from f ds (Some d) (f d) else best_from f ds best best_score)"

definition type_decl_lookup_name :: "cstr \<Rightarrow> cstr \<Rightarrow> cstr \<Rightarrow> cstr" where
  "type_decl_lookup_name name qname owner_type_qname =
     (if \<not> no_text owner_type_qname then (if qname \<noteq> None then qname else name) else name)"

definition class_score :: "(cstr \<Rightarrow> cstr \<Rightarrow> cstr \<Rightarrow> int) \<Rightarrow> sema_class \<Rightarrow> int" where
  "class_score f d = f (type_decl_lookup_name (cd_name d) (cd_qname d) (cd_owner d)) (cd_unit d) (cd_qname d)"

definition interface_score :: "(cstr \<Rightarrow> cstr \<Rightarrow> cstr \<Rightarrow> int) \<Rightarrow> sema_interface \<Rightarrow> int" where
  "interface_score f d = f (type_decl_lookup_name (id_name d) (id_qname d) (id_owner d)) (id_unit d) (id_qname d)"

definition struct_score :: "(cstr \<Rightarrow> cstr \<Rightarrow> cstr \<Rightarrow> int) \<Rightarrow> sema_struct \<Rightarrow> int" where
  "struct_score f d = f (type_decl_lookup_name (sd_name d) (sd_qname d) (sd_owner d)) (sd_unit d) (sd_qname d)"

definition enum_score :: "(cstr \<Rightarrow> cstr \<Rightarrow> cstr \<Rightarrow> int) \<Rightarrow> sema_enum \<Rightarrow> int" where
  "enum_score f d = f (type_decl_lookup_name (ed_name d) (ed_qname d) (ed_owner d)) (ed_unit d) (ed_qname d)"

definition find_visible_class :: "sema \<Rightarrow> cstr \<Rightarrow> sema_class option" where
  "find_visible_class s name =
     (if name = None then None
      else best_from (class_score (visible_decl_match_score s name)) (sm_classes s) None 0)"

definition find_visible_interface :: "sema \<Rightarrow> cstr \<Rightarrow> sema_interface option" where
  "find_visible_interface s name =
     (if name = None then None
      else best_from (interface_score (visible_decl_match_score s name)) (sm_interfaces s) None 0)"

definition find_visible_struct :: "sema \<Rightarrow> cstr \<Rightarrow> sema_struct option" where
  "find_visible_struct s name =
     (if name = None then None
      else best_from (struct_score (visible_decl_match_score s name)) (sm_structs s) None 0)"

definition find_visible_enum :: "sema \<Rightarrow> cstr \<Rightarrow> sema_enum option" where
  "find_visible_enum s name =
     (if name = None then None
      else best_from (enum_score (visible_decl_match_score s name)) (sm_enums s) None 0)"

definition find_class :: "sema \<Rightarrow> cstr \<Rightarrow> sema_class option" where
  "find_class s name =
     (if name = None then None
      else best_from (class_score (named_decl_match_score s name)) (sm_classes s) None 0)"

definition find_struct :: "sema \<Rightarrow> cstr \<Rightarrow> sema_struct option" where
  "find_struct s name =
     (if name = None then None
      else best_from (struct_score (named_decl_match_score s name)) (sm_structs s) None 0)"

definition find_enum :: "sema \<Rightarrow> cstr \<Rightarrow> sema_enum option" where
  "find_enum s name =
     (if name = None then None
      else best_from (enum_score (named_decl_match_score s name)) (sm_enums s) None 0)"

definition class_qname :: "sema_class \<Rightarrow> cstr" where
  "class_qname d = (if cd_qname d \<noteq> None then cd_qname d else cd_name d)"

definition interface_qname :: "sema_interface \<Rightarrow> cstr" where
  "interface_qname d = (if id_qname d \<noteq> None then id_qname d else id_name d)"

definition struct_qname :: "sema_struct \<Rightarrow> cstr" where
  "struct_qname d = (if sd_qname d \<noteq> None then sd_qname d else sd_name d)"

definition enum_qname :: "sema_enum \<Rightarrow> cstr" where
  "enum_qname d = (if ed_qname d \<noteq> None then ed_qname d else ed_name d)"

subsection \<open>Names in types\<close>

definition base_type_name :: "type_kind \<Rightarrow> string" where
  "base_type_name k =
     (case k of TY_VOID \<Rightarrow> ''void'' | TY_BOOL \<Rightarrow> ''bool'' | TY_BYTE \<Rightarrow> ''byte'' | TY_CHAR \<Rightarrow> ''char''
      | TY_INT \<Rightarrow> ''int'' | TY_FLOAT \<Rightarrow> ''float'' | TY_F16 \<Rightarrow> ''f16'' | TY_F32 \<Rightarrow> ''f32'' | TY_F64 \<Rightarrow> ''f64''
      | TY_F128 \<Rightarrow> ''f128'' | TY_I8 \<Rightarrow> ''i8'' | TY_I16 \<Rightarrow> ''i16'' | TY_I32 \<Rightarrow> ''i32'' | TY_I64 \<Rightarrow> ''i64''
      | TY_U8 \<Rightarrow> ''u8'' | TY_U16 \<Rightarrow> ''u16'' | TY_U32 \<Rightarrow> ''u32'' | TY_U64 \<Rightarrow> ''u64'' | TY_ISIZE \<Rightarrow> ''isize''
      | TY_USIZE \<Rightarrow> ''usize'' | TY_STRING \<Rightarrow> ''string'' | TY_ANY \<Rightarrow> ''any'' | TY_NULL \<Rightarrow> ''null''
      | TY_PACKAGE \<Rightarrow> ''Package'' | _ \<Rightarrow> ''unknown'')"

text \<open>
  What a class name in a type denotes: a struct or an enumeration before a class or an interface,
  which both stay of kind class; a name that denotes nothing stays as it is.
\<close>

definition resolve_class_name :: "sema \<Rightarrow> cstr \<Rightarrow> type_kind \<times> cstr" where
  "resolve_class_name s name =
     (case find_visible_struct s name of Some d \<Rightarrow> (TY_STRUCT, struct_qname d)
      | None \<Rightarrow> (case find_visible_enum s name of Some d \<Rightarrow> (TY_ENUM, enum_qname d)
      | None \<Rightarrow> (case find_visible_class s name of Some d \<Rightarrow> (TY_CLASS, class_qname d)
      | None \<Rightarrow> (case find_visible_interface s name of Some d \<Rightarrow> (TY_CLASS, interface_qname d)
      | None \<Rightarrow> (TY_CLASS, name)))))"

definition resolve_own_name :: "sema \<Rightarrow> ty \<Rightarrow> ty" where
  "resolve_own_name s t =
     (case t of Ty k e al pd nm sub pack \<Rightarrow>
        if nm = None then t
        else let (k, nm) = (if k = TY_CLASS then resolve_class_name s nm else (k, nm));
                 (e, nm) = (if (k = TY_PTR \<or> k = TY_ARRAY) \<and> e = TY_CLASS then resolve_class_name s nm
                            else (e, nm));
                 nm = (if (k = TY_PTR \<or> k = TY_ARRAY) \<and> e = TY_STRUCT
                       then (case find_struct s nm of Some d \<Rightarrow> struct_qname d | None \<Rightarrow> nm) else nm);
                 nm = (if (k = TY_PTR \<or> k = TY_ARRAY) \<and> e = TY_ENUM
                       then (case find_enum s nm of Some d \<Rightarrow> enum_qname d | None \<Rightarrow> nm) else nm)
             in Ty k e al pd nm sub pack)"

lemma size_type_clone: "size (type_clone m t) \<le> size t"
proof (induction t)
  case (Ty k e al pd nm sub pack)
  have "size_list size (map (type_clone m) pack) \<le> size_list size pack"
    using Ty.IH(2) by (induction pack) (auto intro: add_mono)
  then show ?case using Ty.IH(1) by (cases sub) (auto intro: add_mono)
qed

definition array_rank :: "ty \<Rightarrow> nat" where
  "array_rank t = 2 * size t + (if ty_elem t = TY_UNKNOWN then 0 else 1)"

lemma array_rank_elem:
  assumes "ty_kind t = TY_ARRAY" "ty_kind (type_immediate_elem m t) \<noteq> TY_UNKNOWN"
  shows "array_rank (type_immediate_elem m t) < array_rank t"
proof (cases t)
  case (Ty k e al pd nm sub pack)
  show ?thesis
  proof (cases sub)
    case None
    then show ?thesis using assms Ty by (auto simp: type_immediate_elem_def array_rank_def)
  next
    case (Some a)
    then show ?thesis using assms Ty size_type_clone [of m a]
      by (auto simp: type_immediate_elem_def array_rank_def)
  qed
qed

function resolve_named_type :: "amem \<Rightarrow> sema \<Rightarrow> ty \<Rightarrow> ty" where
  "resolve_named_type m s t =
     (let elem = type_immediate_elem m t
      in resolve_own_name s
           (if ty_kind t = TY_ARRAY \<and> ty_kind elem \<noteq> TY_UNKNOWN
            then type_set_array_elem m t (resolve_named_type m s elem) else t))"
  by pat_completeness auto
termination
  by (relation "measure (\<lambda>(m, s, t). array_rank t)") (auto intro: array_rank_elem)

declare resolve_named_type.simps [simp del]

subsection \<open>Methods\<close>

text \<open>
  Two element types are compared by their kinds before the recursion, which compares the kinds
  first as well, so that the recursion visibly ends at the unknown type below the last element.
\<close>

lemma array_rank_package:
  assumes "x \<in> set (ty_package t)" shows "array_rank x < array_rank t"
proof (cases t)
  case (Ty k e al pd nm sub pack)
  then have "size x \<le> size_list size pack" using assms by (induction pack arbitrary: t) auto
  then show ?thesis using Ty by (auto simp: array_rank_def)
qed

function type_equal :: "amem \<Rightarrow> ty \<Rightarrow> ty \<Rightarrow> bool" where
  "type_equal m a b =
     (if ty_kind a \<noteq> ty_kind b then False
      else if ty_kind a = TY_ARRAY then
        ty_array_len a = ty_array_len b \<and>
        (if ty_kind (type_immediate_elem m a) = TY_UNKNOWN
         then ty_kind (type_immediate_elem m b) = TY_UNKNOWN
         else type_equal m (type_immediate_elem m a) (type_immediate_elem m b))
      else if ty_kind a = TY_PACKAGE then
        length (ty_package a) = length (ty_package b) \<and>
        list_all (\<lambda>(x, y). type_equal m x y) (zip (ty_package a) (ty_package b))
      else if ty_kind a = TY_PTR then
        ty_elem a = ty_elem b \<and> ty_ptr_depth a = ty_ptr_depth b \<and>
        ((ty_elem a = TY_CLASS \<or> ty_elem a = TY_STRUCT \<or> ty_elem a = TY_ENUM) \<and>
         ty_name a \<noteq> None \<and> ty_name b \<noteq> None \<longrightarrow> same_text (ty_name a) (ty_name b))
      else if ty_kind a = TY_CLASS \<or> ty_kind a = TY_STRUCT \<or> ty_kind a = TY_ENUM then
        ty_name a \<noteq> None \<and> ty_name b \<noteq> None \<and> same_text (ty_name a) (ty_name b)
      else True)"
  by pat_completeness auto

termination
proof (relation "measure (\<lambda>(m, a, b). array_rank a)", goal_cases)
  case (3 m a b z x y)
  then show ?case by (cases z) (auto dest!: set_zip_leftD intro: array_rank_package)
qed (auto intro: array_rank_elem)

declare type_equal.simps [simp del]

definition params_equal :: "amem \<Rightarrow> param list \<Rightarrow> param list \<Rightarrow> bool" where
  "params_equal m a b \<longleftrightarrow>
     length a = length b \<and> list_all (\<lambda>(x, y). type_equal m (p_type x) (p_type y)) (zip a b)"

definition method_is_virtual :: "method_decl \<Rightarrow> bool" where
  "method_is_virtual m \<longleftrightarrow> md_is_virtual m \<or> md_is_override m \<or> md_is_abstract m"

definition answers_sig :: "amem \<Rightarrow> method_decl \<Rightarrow> method_decl \<Rightarrow> bool" where
  "answers_sig mem sig m \<longleftrightarrow>
     \<not> md_is_constructor m \<and> md_is_static m = md_is_static sig \<and>
     same_text (md_name m) (md_name sig) \<and> type_equal mem (md_ret_type m) (md_ret_type sig) \<and>
     params_equal mem (md_params m) (md_params sig)"

fun find_sig_from :: "amem \<Rightarrow> nat \<Rightarrow> method_decl list \<Rightarrow> method_decl \<Rightarrow> (nat \<times> method_decl) option" where
  "find_sig_from mem i [] sig = None"
| "find_sig_from mem i (m # ms) sig =
     (if answers_sig mem sig m then Some (i, m) else find_sig_from mem (i + 1) ms sig)"

text \<open>The index and the method; the two \<open>None\<close> of the hierarchy searches are no end and no method.\<close>

definition find_method_sig :: "amem \<Rightarrow> sema_class \<Rightarrow> method_decl \<Rightarrow> (nat \<times> method_decl) option" where
  "find_method_sig mem d sig = find_sig_from mem 0 (cd_methods d) sig"

partial_function (option) find_method_sig_hierarchy ::
    "amem \<Rightarrow> sema \<Rightarrow> sema_class option \<Rightarrow> method_decl \<Rightarrow>
       (sema_class \<times> nat \<times> method_decl) option option" where
  "find_method_sig_hierarchy mem s cur sig =
     (case cur of None \<Rightarrow> Some None
      | Some d \<Rightarrow>
        (case find_method_sig mem d sig of Some (i, m) \<Rightarrow> Some (Some (d, i, m))
         | None \<Rightarrow> if cd_base d = None then Some None
                   else find_method_sig_hierarchy mem s (find_class s (cd_base d)) sig))"

partial_function (option) virtual_from ::
    "amem \<Rightarrow> sema \<Rightarrow> sema_class option \<Rightarrow> method_decl \<Rightarrow>
       (sema_class \<times> nat \<times> method_decl) option option" where
  "virtual_from mem s cur sig =
     (case cur of None \<Rightarrow> Some None
      | Some d \<Rightarrow>
        (case find_method_sig mem d sig of
           Some (i, m) \<Rightarrow>
             if method_is_virtual m then Some (Some (d, i, m))
             else if cd_base d = None then Some None
             else virtual_from mem s (find_class s (cd_base d)) sig
         | None \<Rightarrow> if cd_base d = None then Some None
                   else virtual_from mem s (find_class s (cd_base d)) sig))"

definition find_virtual_in_base :: "amem \<Rightarrow> sema \<Rightarrow> sema_class option \<Rightarrow> method_decl \<Rightarrow>
    (sema_class \<times> nat \<times> method_decl) option option" where
  "find_virtual_in_base mem s d sig =
     (case d of None \<Rightarrow> Some None
      | Some d \<Rightarrow> if cd_base d = None then Some None
                  else virtual_from mem s (find_class s (cd_base d)) sig)"

definition class_add_interface :: "sema_class \<Rightarrow> cstr \<Rightarrow> sema_class" where
  "class_add_interface d iface =
     (if iface = None then d else d\<lparr> cd_interfaces := cd_interfaces d @ [iface] \<rparr>)"

end
