(* ===== verification/SemaArgs.thy ===== *)
theory SemaArgs
  imports Sema
begin

text \<open>
  Named arguments, \<open>apps/kinal/src/kn_sema.c\<close>: the names of a callable's parameters, the
  assignment of the written arguments to them, and the reordering of the arguments into the
  order of the parameters.

  The mapping entry \<open>-1\<close> is \<open>None\<close>. Every caller passes the length of the name array as
  \<open>param_count\<close>. \<open>served\<close> says whether the five working arrays are allocated.
\<close>

subsection \<open>Model\<close>

definition call_has_named_args :: "cstr list \<Rightarrow> bool" where
  "call_has_named_args names = list_ex (\<lambda>n. \<not> no_text n) names"

fun param_index_from :: "nat \<Rightarrow> cstr list \<Rightarrow> cstr \<Rightarrow> nat option" where
  "param_index_from i [] name = None"
| "param_index_from i (p # ps) name =
     (if \<not> no_text p \<and> same_text p name then Some i else param_index_from (i + 1) ps name)"

definition find_param_name_index :: "cstr list \<Rightarrow> cstr \<Rightarrow> nat option" where
  "find_param_name_index ps name = (if no_text name then None else param_index_from 0 ps name)"

definition alloc_param_names_from_params :: "bool \<Rightarrow> param list \<Rightarrow> cstr list option" where
  "alloc_param_names_from_params served ps =
     (if ps = [] \<or> \<not> served then None else Some (map p_name ps))"

definition alloc_param_names_from_paramlist :: "bool \<Rightarrow> param list \<Rightarrow> cstr list option" where
  "alloc_param_names_from_paramlist served ps =
     (if ps = [] \<or> \<not> served then None else Some (map p_name ps))"

text \<open>The first parameter from \<open>n\<close> on that is not used, or the number of parameters.\<close>

fun skip_used :: "bool list \<Rightarrow> nat \<Rightarrow> nat" where
  "skip_used [] n = n"
| "skip_used (u # us) n = (if u then skip_used us (n + 1) else n)"

text \<open>
  One argument: its mapping entry, and the use of the parameters, the next position, whether a
  named argument was seen and whether all went well afterwards.
\<close>

definition place_one :: "sema \<Rightarrow> cstr list \<Rightarrow> expr \<Rightarrow> cstr \<Rightarrow> bool list \<Rightarrow> nat \<Rightarrow> bool \<Rightarrow> bool \<Rightarrow>
    sema \<times> nat option \<times> bool list \<times> nat \<times> bool \<times> bool" where
  "place_one s ps e an used next_pos saw_named ok =
     (let line = ei_line (e_info e); col = ei_col (e_info e)
      in if \<not> no_text an then
           (case find_param_name_index ps an of
              None \<Rightarrow> (sema_error_named_arg_unknown s line col 1 an, None, used, next_pos, True, False)
            | Some idx \<Rightarrow>
                if used ! idx
                then (sema_error_named_arg_duplicate s line col 1 an, None, used, next_pos, True, False)
                else (s, Some idx, used[idx := True], next_pos, True, ok))
         else
           let s = (if saw_named then sema_error s line col 1 ''Invalid Named Argument''
                      ''Positional argument cannot follow named argument'' else s);
               ok = (ok \<and> \<not> saw_named);
               n = skip_used (drop next_pos used) next_pos
           in if n < length ps then (s, Some n, used[n := True], n + 1, saw_named, ok)
              else (s, None, used, n, saw_named, ok))"

fun place_args :: "sema \<Rightarrow> cstr list \<Rightarrow> (expr \<times> cstr) list \<Rightarrow> bool list \<Rightarrow> nat \<Rightarrow> bool \<Rightarrow> bool \<Rightarrow>
    sema \<times> nat option list \<times> bool" where
  "place_args s ps [] used next_pos saw_named ok = (s, [], ok)"
| "place_args s ps ((e, an) # args) used next_pos saw_named ok =
     (let (s, m, used, next_pos, saw_named, ok) = place_one s ps e an used next_pos saw_named ok;
          (s, ms, ok) = place_args s ps args used next_pos saw_named ok
      in (s, m # ms, ok))"

text \<open>
  The positions of the arguments in their new order: parameter by parameter, then those that
  belong to none.
\<close>

definition arg_order :: "nat \<Rightarrow> nat option list \<Rightarrow> nat list" where
  "arg_order param_count mapping =
     List.map_filter (\<lambda>p. find (\<lambda>i. mapping ! i = Some p) [0..<length mapping]) [0..<param_count] @
     filter (\<lambda>i. case mapping ! i of None \<Rightarrow> True | Some p \<Rightarrow> param_count \<le> p) [0..<length mapping]"

definition remap_named_args :: "sema \<Rightarrow> int \<Rightarrow> int \<Rightarrow> expr list \<Rightarrow> cstr list \<Rightarrow> param list option \<Rightarrow>
    cstr list option \<Rightarrow> bool \<Rightarrow> sema \<times> expr list \<times> cstr list \<times> param list option \<times> bool" where
  "remap_named_args s call_line call_col args names typed param_names served =
     (if length args \<noteq> length names \<or> (case typed of None \<Rightarrow> False | Some t \<Rightarrow> length t \<noteq> length args) \<or>
         \<not> call_has_named_args names
      then (s, args, names, typed, True)
      else case param_names of
        None \<Rightarrow> (sema_error s call_line call_col 1 ''Invalid Named Argument''
                  ''Named arguments are not supported for this callable'', args, names, typed, False)
      | Some [] \<Rightarrow> (sema_error s call_line call_col 1 ''Invalid Named Argument''
                  ''Named arguments are not supported for this callable'', args, names, typed, False)
      | Some ps \<Rightarrow>
          if \<not> served then (s, args, names, typed, True)
          else let (s, mapping, ok) = place_args s ps (zip args names) (replicate (length ps) False) 0 False True;
                   ord = arg_order (length ps) mapping
               in (s, map (\<lambda>i. args ! i) ord, map (\<lambda>i. names ! i) ord,
                   map_option (\<lambda>t. map (\<lambda>i. t ! i) ord) typed, ok))"

subsection \<open>The mapping\<close>

text \<open>Every argument gets an entry, and no parameter is given to two arguments.\<close>

lemma param_index_from_bounds: "param_index_from i ps name = Some k \<Longrightarrow> i \<le> k \<and> k < i + length ps \<and>
    \<not> no_text (ps ! (k - i)) \<and> same_text (ps ! (k - i)) name"
proof (induction i ps name rule: param_index_from.induct)
  case (2 i p ps name)
  show ?case
  proof (cases "\<not> no_text p \<and> same_text p name")
    case False
    then have "Suc i \<le> k \<and> k < Suc i + length ps \<and> \<not> no_text (ps ! (k - Suc i)) \<and>
        same_text (ps ! (k - Suc i)) name"
      using 2 by (simp only: param_index_from.simps if_not_P not_False_eq_True Suc_eq_plus1)
    moreover from this have "k - i = Suc (k - Suc i)" by linarith
    ultimately show ?thesis by simp
  qed (use 2 in simp)
qed simp

lemma find_param_name_indexD: "find_param_name_index ps name = Some k \<Longrightarrow> k < length ps \<and>
    \<not> no_text (ps ! k) \<and> same_text (ps ! k) name"
  using param_index_from_bounds [of 0 ps name k] by (simp add: find_param_name_index_def split: if_splits)

lemma skip_used_takeWhile: "skip_used us n = n + length (takeWhile id us)"
  by (induction us arbitrary: n) auto

lemma skip_used_free:
  assumes "skip_used (drop n us) n < length us"
  shows "n \<le> skip_used (drop n us) n" "\<not> us ! skip_used (drop n us) n"
proof -
  have l: "length (takeWhile id (drop n us)) < length (drop n us)"
    using assms by (auto simp: skip_used_takeWhile)
  show "n \<le> skip_used (drop n us) n" by (simp add: skip_used_takeWhile)
  show "\<not> us ! skip_used (drop n us) n"
    using nth_length_takeWhile [OF l] l by (simp add: skip_used_takeWhile)
qed

definition one_to_one :: "bool list \<Rightarrow> nat option list \<Rightarrow> bool" where
  "one_to_one used ms \<longleftrightarrow>
     (\<forall>i < length ms. \<forall>p. ms ! i = Some p \<longrightarrow> p < length used \<and> \<not> used ! p \<and>
        (\<forall>j < length ms. ms ! j = Some p \<longrightarrow> j = i))"

lemma one_to_one_Nil [simp]: "one_to_one used []"
  by (simp add: one_to_one_def)

lemma one_to_one_None [simp]: "one_to_one used (None # ms) \<longleftrightarrow> one_to_one used ms"
  by (auto simp: one_to_one_def All_less_Suc2)

lemma one_to_one_Some [simp]:
  assumes "n < length used" "\<not> used ! n"
  shows "one_to_one used (Some n # ms) \<longleftrightarrow> one_to_one (used[n := True]) ms"
  using assms by (auto simp: one_to_one_def All_less_Suc2 nth_list_update)

lemma place_one_uses:
  assumes "place_one s ps e an used next_pos saw ok = (s', m, used', next_pos', saw', ok')"
    "length used = length ps"
  shows "(m = None \<and> used' = used \<or>
     (\<exists>n < length used. m = Some n \<and> \<not> used ! n \<and> used' = used[n := True])) \<and> (ok' \<longrightarrow> ok)"
proof (cases "no_text an")
  case True
  then show ?thesis using assms skip_used_free [of next_pos used]
    by (auto simp: place_one_def Let_def split: if_splits)
next
  case False
  then show ?thesis using assms find_param_name_indexD [of ps an]
    by (auto simp: place_one_def Let_def split: if_splits option.splits)
qed

lemma place_args_one_to_one:
  assumes "place_args s ps args used next_pos saw ok = (s', ms, ok')" "length used = length ps"
  shows "length ms = length args \<and> one_to_one used ms \<and> (ok' \<longrightarrow> ok)"
  using assms
proof (induction args arbitrary: s used next_pos saw ok ms)
  case (Cons a args)
  obtain e an where a: "a = (e, an)" by fastforce
  obtain s1 m used1 n1 saw1 ok1 where 1: "place_one s ps e an used next_pos saw ok = (s1, m, used1, n1, saw1, ok1)"
    by (metis prod_cases6)
  obtain ms1 where 2: "place_args s1 ps args used1 n1 saw1 ok1 = (s', ms1, ok')" and ms: "ms = m # ms1"
    using Cons.prems(1) a 1 by (auto split: prod.splits)
  note u = place_one_uses [OF 1 Cons.prems(2)]
  have "length used1 = length ps" using u Cons.prems(2) by auto
  from Cons.IH [OF 2 this] u ms show ?case by auto
qed simp

subsection \<open>The new order\<close>

definition holder :: "nat option list \<Rightarrow> nat \<Rightarrow> nat option" where
  "holder mapping p = find (\<lambda>i. mapping ! i = Some p) [0..<length mapping]"

lemma holder_Some: "holder ms p = Some i \<Longrightarrow> i < length ms \<and> ms ! i = Some p"
  by (auto simp: holder_def find_Some_iff)

lemma holder_None: "holder ms p = None \<longleftrightarrow> (\<forall>i < length ms. ms ! i \<noteq> Some p)"
  by (auto simp: holder_def find_None_iff)

lemma holder_one_to_one:
  assumes "one_to_one used ms" "i < length ms" "ms ! i = Some p"
  shows "holder ms p = Some i"
proof (cases "holder ms p")
  case None
  then show ?thesis using assms by (auto simp: holder_None)
next
  case (Some j)
  then show ?thesis using assms holder_Some [OF Some] by (auto simp: one_to_one_def)
qed

definition held :: "nat \<Rightarrow> nat option list \<Rightarrow> nat list" where
  "held n ms = List.map_filter (holder ms) [0..<n]"

lemma held_alt: "held n ms = map (\<lambda>p. the (holder ms p)) (filter (\<lambda>p. holder ms p \<noteq> None) [0..<n])"
  by (simp add: held_def List.map_filter_def comp_def)

lemma set_held:
  assumes "one_to_one used ms"
  shows "set (held n ms) = {i. i < length ms \<and> (\<exists>p < n. ms ! i = Some p)}"
proof -
  have "i \<in> set (held n ms) \<longleftrightarrow> (\<exists>p < n. holder ms p = Some i)" for i
    by (force simp: held_alt image_iff)
  moreover have "holder ms p = Some i \<longleftrightarrow> i < length ms \<and> ms ! i = Some p" for i p
    using holder_Some [of ms p i] holder_one_to_one [OF assms, of i p] by blast
  ultimately show ?thesis by blast
qed

lemma distinct_held: "distinct (held n ms)"
  unfolding held_alt distinct_map
proof (intro conjI inj_onI)
  fix p q assume a: "p \<in> set (filter (\<lambda>p. holder ms p \<noteq> None) [0..<n])"
    "q \<in> set (filter (\<lambda>p. holder ms p \<noteq> None) [0..<n])" "the (holder ms p) = the (holder ms q)"
  then obtain i where "holder ms p = Some i" "holder ms q = Some i" by auto
  then show "p = q" using holder_Some [of ms p i] holder_Some [of ms q i] by simp
qed simp

lemma arg_order_alt:
  "arg_order n ms = held n ms @
     filter (\<lambda>i. case ms ! i of None \<Rightarrow> True | Some p \<Rightarrow> n \<le> p) [0..<length ms]"
  by (simp add: arg_order_def held_def holder_def [abs_def])

lemma arg_order_permutes:
  assumes "one_to_one used ms"
  shows "mset (arg_order n ms) = mset [0..<length ms]"
proof -
  let ?P = "\<lambda>i. case ms ! i of None \<Rightarrow> True | Some p \<Rightarrow> n \<le> p"
  have free: "?P i \<longleftrightarrow> \<not> (\<exists>p < n. ms ! i = Some p)" for i
    by (cases "ms ! i") auto
  have rest: "set (filter ?P [0..<length ms]) = {i. i < length ms \<and> \<not> (\<exists>p < n. ms ! i = Some p)}"
    unfolding free by auto
  have "distinct (arg_order n ms)"
    unfolding arg_order_alt distinct_append rest set_held [OF assms]
    using distinct_held [of n ms] by auto
  moreover have "set (arg_order n ms) = {0..<length ms}"
    unfolding arg_order_alt set_append rest set_held [OF assms] by auto
  ultimately show ?thesis by (metis distinct_upt set_eq_iff_mset_eq_distinct set_upt)
qed

lemma map_nth_permutes:
  assumes "mset ord = mset [0..<length xs]"
  shows "mset (map (\<lambda>i. xs ! i) ord) = mset xs"
proof -
  have "mset (map (\<lambda>i. xs ! i) ord) = mset (map (\<lambda>i. xs ! i) [0..<length xs])"
    using assms by simp
  then show ?thesis by (simp add: map_nth)
qed

subsection \<open>Acceptance\<close>

text \<open>
  A call binds well when its named arguments come last, name different parameters, and none of
  those its positional arguments take.
\<close>

abbreviation named_part :: "cstr list \<Rightarrow> cstr list" where
  "named_part \<equiv> dropWhile no_text"

abbreviation positionals :: "cstr list \<Rightarrow> nat" where
  "positionals names \<equiv> length (takeWhile no_text names)"

definition named_indices :: "cstr list \<Rightarrow> cstr list \<Rightarrow> nat option list" where
  "named_indices ps names = map (find_param_name_index ps) (named_part names)"

definition binds_well :: "cstr list \<Rightarrow> cstr list \<Rightarrow> bool" where
  "binds_well ps names \<longleftrightarrow>
     list_all (\<lambda>n. \<not> no_text n) (named_part names) \<and> distinct (named_indices ps names) \<and>
     list_all (\<lambda>i. case i of None \<Rightarrow> False | Some p \<Rightarrow> positionals names \<le> p) (named_indices ps names)"

lemma place_one_named:
  assumes "\<not> no_text an"
  shows "place_one s ps e an used n saw ok =
     (case find_param_name_index ps an of
        None \<Rightarrow> (sema_error_named_arg_unknown s (ei_line (e_info e)) (ei_col (e_info e)) 1 an,
                  None, used, n, True, False)
      | Some idx \<Rightarrow>
          if used ! idx
          then (sema_error_named_arg_duplicate s (ei_line (e_info e)) (ei_col (e_info e)) 1 an,
                None, used, n, True, False)
          else (s, Some idx, used[idx := True], n, True, ok))"
  using assms by (simp add: place_one_def Let_def)

lemma place_one_late:
  assumes "no_text an"
  shows "\<exists>s' m used' n'. place_one s ps e an used n True ok = (s', m, used', n', True, False)"
  using assms by (simp add: place_one_def Let_def)

lemma place_args_failed:
  assumes "place_args s ps args used n saw False = (s', ms, ok')" "length used = length ps"
  shows "\<not> ok'"
  using place_args_one_to_one [OF assms] by simp

lemma place_named:
  assumes "place_args s ps args used n saw ok = (s', ms, ok')" "length used = length ps"
    "saw \<or> args = [] \<or> \<not> no_text (snd (hd args))" "ix = map (find_param_name_index ps) (map snd args)"
  shows "(ok' \<longleftrightarrow> ok \<and> list_all (\<lambda>n. \<not> no_text n) (map snd args) \<and> distinct ix \<and>
      list_all (\<lambda>i. case i of None \<Rightarrow> False | Some p \<Rightarrow> \<not> used ! p) ix) \<and> (ok' \<longrightarrow> ms = ix \<and> s' = s)"
  using assms
proof (induction args arbitrary: s used n saw ok ms ix)
  case (Cons a args)
  obtain e an where a: "a = (e, an)" by fastforce
  obtain s1 m used1 n1 saw1 ok1 where 1: "place_one s ps e an used n saw ok = (s1, m, used1, n1, saw1, ok1)"
    by (metis prod_cases6)
  obtain ms1 where 2: "place_args s1 ps args used1 n1 saw1 ok1 = (s', ms1, ok')" and ms: "ms = m # ms1"
    using Cons.prems(1) a 1 by (auto split: prod.splits)
  have l: "length used1 = length ps" using place_one_uses [OF 1 Cons.prems(2)] Cons.prems(2) by auto
  show ?case
  proof (cases "no_text an")
    case True
    with Cons.prems(3) a have "saw" by simp
    with True 1 place_one_late [of an s ps e used n ok] have "\<not> ok1" by auto
    with place_args_failed [of s1 ps args used1 n1 saw1] 2 l have "\<not> ok'" by simp
    then show ?thesis using True a Cons.prems(4) by simp
  next
    case named: False
    show ?thesis
    proof (cases "\<exists>p. find_param_name_index ps an = Some p \<and> \<not> used ! p")
      case False
      with named 1 have "\<not> ok1" by (auto simp: place_one_named split: option.splits if_splits)
      with place_args_failed [of s1 ps args used1 n1 saw1] 2 l have "\<not> ok'" by simp
      then show ?thesis using False a Cons.prems(4) by (auto split: option.splits)
    next
      case True
      then obtain p where p: "find_param_name_index ps an = Some p" "\<not> used ! p" by blast
      then have s1: "s1 = s" "m = Some p" "used1 = used[p := True]" "saw1" "ok1 = ok"
        using named 1 by (simp_all add: place_one_named)
      have lp: "p < length used" using find_param_name_indexD [OF p(1)] Cons.prems(2) by simp
      define ix1 where "ix1 = map (find_param_name_index ps) (map snd args)"
      have ix: "ix = Some p # ix1" using Cons.prems(4) a p by (simp add: ix1_def)
      have "list_all (\<lambda>i. case i of None \<Rightarrow> False | Some q \<Rightarrow> \<not> used1 ! q) ix1 \<longleftrightarrow>
          Some p \<notin> set ix1 \<and> list_all (\<lambda>i. case i of None \<Rightarrow> False | Some q \<Rightarrow> \<not> used ! q) ix1"
        using lp s1 by (induction ix1) (auto simp: nth_list_update split: option.splits if_splits)
      then show ?thesis
        using Cons.IH [OF 2 l _ ix1_def] s1 ms a named p ix by auto
    qed
  qed
qed simp

text \<open>Positional arguments take the parameters from the first on.\<close>

abbreviation taken :: "nat \<Rightarrow> nat \<Rightarrow> bool list" where
  "taken n k \<equiv> replicate k True @ replicate (n - k) False"

lemma skip_used_taken: "k \<le> n \<Longrightarrow> skip_used (drop k (taken n k)) k = (if k < n then k else n)"
  by (cases "n - k") (auto simp: skip_used_takeWhile)

lemma taken_update: "k < n \<Longrightarrow> (taken n k)[k := True] = taken n (Suc k)"
proof -
  assume "k < n"
  then obtain j where j: "n - k = Suc j" "n - Suc k = j" by (metis Suc_diff_Suc)
  have "(replicate k True @ False # replicate j False)[length (replicate k True) := True] =
      replicate k True @ True # replicate j False"
    by (rule list_update_length)
  also have "\<dots> = replicate (Suc k) True @ replicate j False"
    by (metis append_Cons append_assoc append_self_conv2 replicate_append_same replicate_Suc)
  finally show ?thesis using j by simp
qed

lemma place_positional:
  assumes "length ps = n" "k \<le> n" "list_all (\<lambda>a. no_text (snd a)) pos"
  shows "place_args s ps (pos @ rest) (taken n k) k False ok =
    (let (s', ms, ok') = place_args s ps rest (taken n (min n (k + length pos)))
           (min n (k + length pos)) False ok
     in (s', map (\<lambda>i. if i < n then Some i else None) [k..<k + length pos] @ ms, ok'))"
  using assms
proof (induction pos arbitrary: k)
  case Nil
  then show ?case by (simp add: min_absorb2 split: prod.splits)
next
  case (Cons a pos)
  obtain e an where a: "a = (e, an)" by fastforce
  have up: "[k..<Suc (k + length pos)] = k # [Suc k..<Suc (k + length pos)]"
    by (rule upt_conv_Cons) simp
  show ?case
  proof (cases "k < n")
    case True
    then have "place_one s ps e an (taken n k) k False ok = (s, Some k, taken n (Suc k), Suc k, False, ok)"
      using Cons.prems a skip_used_taken [of k n] taken_update [of k n] by (simp add: place_one_def Let_def)
    then show ?thesis using Cons.IH [of "Suc k"] Cons.prems True a up
      by (simp add: Let_def split: prod.splits)
  next
    case False
    then have k: "k = n" using Cons.prems by simp
    then have "place_one s ps e an (taken n n) n False ok = (s, None, taken n n, n, False, ok)"
      using Cons.prems a by (simp add: place_one_def Let_def)
    moreover have none: "map (\<lambda>i. if i < n then Some i else None) [n..<n + L] = replicate L None" for L
      by (rule nth_equalityI) auto
    ultimately show ?thesis using Cons.IH [of n] Cons.prems a k none [of "Suc (length pos)"]
        none [of "length pos"]
      by (simp add: Let_def del: upt_Suc split: prod.splits)
  qed
qed

lemma place_call:
  assumes "place_args s ps (zip args names) (replicate (length ps) False) 0 False True = (s', ms, ok)"
    "length args = length names"
  shows "ok = binds_well ps names \<and>
    (ok \<longrightarrow> s' = s \<and>
      ms = map (\<lambda>i. if i < length ps then Some i else None) [0..<positionals names] @ named_indices ps names)"
proof -
  let ?n = "length ps" and ?k = "positionals names"
  let ?pos = "take ?k (zip args names)" and ?rest = "drop ?k (zip args names)"
  have kl: "?k \<le> length names" by (rule length_takeWhile_le)
  have snds: "map snd (zip args names) = names" using assms(2) by (rule map_snd_zip)
  have rest: "map snd ?rest = named_part names"
    by (simp only: drop_map [symmetric] snds dropWhile_eq_drop)
  have tw: "map snd ?pos = takeWhile no_text names"
    by (simp only: take_map [symmetric] snds takeWhile_eq_take [symmetric])
  have pos: "list_all (\<lambda>a. no_text (snd a)) ?pos"
    unfolding list_all_iff
  proof
    fix a assume "a \<in> set ?pos"
    then have "snd a \<in> set (map snd ?pos)" unfolding set_map by (rule imageI)
    then show "no_text (snd a)" unfolding tw by (rule set_takeWhileD [THEN conjunct2])
  qed
  have len: "length ?pos = ?k" using kl assms(2) by simp
  have k: "k0 + ?k = length ?pos + k0" for k0 using len by simp
  obtain s1 ms1 ok1 where r: "place_args s ps ?rest (taken ?n (min ?n ?k)) (min ?n ?k) False True = (s1, ms1, ok1)"
    by (metis prod_cases3)
  have "place_args s ps (?pos @ ?rest) (taken ?n 0) 0 False True =
      (s1, map (\<lambda>i. if i < ?n then Some i else None) [0..<0 + length ?pos] @ ms1, ok1)"
    using place_positional [of ps ?n 0 ?pos s ?rest True] pos r len by simp
  then have eq: "s' = s1" "ok = ok1" "ms = map (\<lambda>i. if i < ?n then Some i else None) [0..<?k] @ ms1"
    using assms(1) len by (simp_all del: append_take_drop_id add: append_take_drop_id)
  have hd: "?rest = [] \<or> \<not> no_text (snd (hd ?rest))"
  proof (cases ?rest)
    case (Cons a as)
    then have h: "named_part names = snd a # map snd as" using rest by simp
    have "\<not> no_text (hd (named_part names))" by (rule hd_dropWhile) (simp only: h list.distinct not_False_eq_True)
    then show ?thesis unfolding h Cons by simp
  qed simp
  have used: "taken ?n (min ?n ?k) ! p = (p < ?k)" if "p < ?n" for p
    using that by (auto simp: nth_append)
  have ix: "(case i of None \<Rightarrow> False | Some p \<Rightarrow> \<not> taken ?n (min ?n ?k) ! p) =
      (case i of None \<Rightarrow> False | Some p \<Rightarrow> ?k \<le> p)" if "i \<in> set (named_indices ps names)" for i
    using that used by (auto simp: named_indices_def split: option.splits dest!: find_param_name_indexD sym [of "Some _"])
  have "list_all (\<lambda>i. case i of None \<Rightarrow> False | Some p \<Rightarrow> \<not> taken ?n (min ?n ?k) ! p) (named_indices ps names) =
      list_all (\<lambda>i. case i of None \<Rightarrow> False | Some p \<Rightarrow> ?k \<le> p) (named_indices ps names)"
    by (rule list_all_cong [OF refl ix])
  with place_named [OF r _ _ refl] hd show ?thesis
    unfolding eq binds_well_def rest by (simp add: named_indices_def)
qed

subsection \<open>Messages\<close>

text \<open>In a source with a path every error is reported.\<close>

definition reports :: "sema \<Rightarrow> bool" where
  "reports s \<longleftrightarrow> (\<exists>p. sm_src_path s = Some p \<and> \<not> no_text p)"

lemma sema_error_reports:
  assumes "reports s"
  shows "reports (sema_error s line col len title detail) \<and>
    length (sm_log (sema_error s line col len title detail)) = Suc (length (sm_log s))"
  using assms by (auto simp: reports_def sema_error_def kn_diag_report_def)

lemma place_one_reports:
  assumes "place_one s ps e an used next_pos saw ok = (s', m, used', next_pos', saw', ok')" "reports s"
  shows "reports s' \<and> length (sm_log s) \<le> length (sm_log s') \<and>
    (ok \<and> \<not> ok' \<longrightarrow> length (sm_log s) < length (sm_log s'))"
proof (cases "no_text an")
  case True
  then show ?thesis using assms sema_error_reports [OF assms(2)]
    by (auto simp: place_one_def Let_def split: if_splits)
next
  case False
  then show ?thesis using assms sema_error_reports [OF assms(2)]
    by (auto simp: place_one_named sema_error_named_arg_unknown_def sema_error_named_arg_duplicate_def
        split: if_splits option.splits)
qed

lemma place_args_reports:
  assumes "place_args s ps args used next_pos saw ok = (s', ms, ok')" "reports s"
  shows "length (sm_log s) \<le> length (sm_log s') \<and> (ok \<and> \<not> ok' \<longrightarrow> length (sm_log s) < length (sm_log s'))"
  using assms
proof (induction args arbitrary: s used next_pos saw ok ms)
  case (Cons a args)
  obtain e an where a: "a = (e, an)" by fastforce
  obtain s1 m used1 n1 saw1 ok1 where 1: "place_one s ps e an used next_pos saw ok = (s1, m, used1, n1, saw1, ok1)"
    by (metis prod_cases6)
  obtain ms1 where 2: "place_args s1 ps args used1 n1 saw1 ok1 = (s', ms1, ok')"
    using Cons.prems(1) a 1 by (auto split: prod.splits)
  from place_one_reports [OF 1 Cons.prems(2)] Cons.IH [OF 2] show ?case by auto
qed simp

subsection \<open>The reordered call\<close>

text \<open>A call whose arguments are reordered: one that names some, for a callable with parameters.\<close>

definition reordered_call :: "expr list \<Rightarrow> cstr list \<Rightarrow> param list option \<Rightarrow> cstr list \<Rightarrow> bool" where
  "reordered_call args names typed ps \<longleftrightarrow>
     length args = length names \<and> (case typed of None \<Rightarrow> True | Some t \<Rightarrow> length t = length args) \<and>
     call_has_named_args names \<and> ps \<noteq> []"

lemma remap_unfold:
  assumes "reordered_call args names typed ps"
    "remap_named_args s line col args names typed (Some ps) True = (s', args', names', typed', ok)"
  obtains ms where
    "place_args s ps (zip args names) (replicate (length ps) False) 0 False True = (s', ms, ok)"
    "args' = map (\<lambda>i. args ! i) (arg_order (length ps) ms)"
    "names' = map (\<lambda>i. names ! i) (arg_order (length ps) ms)"
    "typed' = map_option (\<lambda>t. map (\<lambda>i. t ! i) (arg_order (length ps) ms)) typed"
proof -
  obtain s1 ms ok1 where p: "place_args s ps (zip args names) (replicate (length ps) False) 0 False True = (s1, ms, ok1)"
    by (metis prod_cases3)
  have "remap_named_args s line col args names typed (Some ps) True =
      (s1, map (\<lambda>i. args ! i) (arg_order (length ps) ms), map (\<lambda>i. names ! i) (arg_order (length ps) ms),
       map_option (\<lambda>t. map (\<lambda>i. t ! i) (arg_order (length ps) ms)) typed, ok1)"
    using assms(1) p
    by (cases ps) (auto simp: remap_named_args_def reordered_call_def Let_def split: option.splits)
  with assms(2) p that show ?thesis by simp
qed

text \<open>
  C9: A call with named arguments is accepted exactly when its named arguments come after the
  positional ones, each names a parameter, no two name the same, and none names a parameter that
  a positional argument takes. An accepted call reports nothing and leaves the state alone; a
  refused call in a source with a path is always reported.
\<close>

theorem named_args_accepted:
  assumes "reordered_call args names typed ps"
    "remap_named_args s line col args names typed (Some ps) True = (s', args', names', typed', ok)"
  shows "ok = binds_well ps names \<and> (ok \<longrightarrow> s' = s) \<and>
    (\<not> ok \<and> reports s \<longrightarrow> length (sm_log s) < length (sm_log s'))"
proof -
  obtain ms where p: "place_args s ps (zip args names) (replicate (length ps) False) 0 False True = (s', ms, ok)"
    using remap_unfold [OF assms] by blast
  have l: "length args = length names" using assms(1) by (simp add: reordered_call_def)
  show ?thesis using place_call [OF p l] place_args_reports [OF p] by blast
qed

definition blank_sema :: sema where
  "blank_sema = \<lparr> sm_src_path = Some (Some ''a.kn''), sm_imports = [], sm_classes = [],
     sm_interfaces = [], sm_structs = [], sm_enums = [], sm_current_unit = Some ''App'',
     sm_expr_depth = 0, sm_stmt_depth = 0, sm_const_depth = 0, sm_saw_expr_limit = False,
     sm_saw_stmt_limit = False, sm_saw_const_limit = False, sm_emits = (\<lambda>_. True),
     sm_error_count = 0, sm_log = [] \<rparr>"

text \<open>The arguments \<open>1, end: 2\<close> and \<open>1, start: 2\<close> for the parameters \<open>start\<close> and \<open>end\<close>.\<close>

definition int_arg :: "int \<Rightarrow> expr" where
  "int_arg v = EInt (new_expr 0 1 v) v"

theorem named_args_accepted_witness:
  "(case remap_named_args blank_sema 1 1 [int_arg 1, int_arg 2] [None, Some ''end''] None
      (Some [Some ''start'', Some ''end'']) True of (s', args', names', typed', ok) \<Rightarrow>
      ok = binds_well [Some ''start'', Some ''end''] [None, Some ''end''] \<and> ok) \<and>
   (case remap_named_args blank_sema 1 1 [int_arg 1, int_arg 2] [None, Some ''start''] None
      (Some [Some ''start'', Some ''end'']) True of (s', args', names', typed', ok) \<Rightarrow>
      ok = binds_well [Some ''start'', Some ''end''] [None, Some ''start''] \<and> \<not> ok \<and> sm_log s' \<noteq> [])"
proof -
  let ?ps = "[Some ''start'', Some ''end'']"
  have b: "binds_well ?ps [None, Some ''end'']" "\<not> binds_well ?ps [None, Some ''start'']"
    "reordered_call [int_arg 1, int_arg 2] [None, Some ''end''] None ?ps"
    "reordered_call [int_arg 1, int_arg 2] [None, Some ''start''] None ?ps"
    by code_simp+
  have r: "reports blank_sema" by (simp add: reports_def blank_sema_def no_text_def)
  obtain s1 a1 n1 t1 o1 where 1: "remap_named_args blank_sema 1 1 [int_arg 1, int_arg 2] [None, Some ''end''] None
      (Some ?ps) True = (s1, a1, n1, t1, o1)" by (metis prod_cases5)
  obtain s2 a2 n2 t2 o2 where 2: "remap_named_args blank_sema 1 1 [int_arg 1, int_arg 2] [None, Some ''start''] None
      (Some ?ps) True = (s2, a2, n2, t2, o2)" by (metis prod_cases5)
  show ?thesis using named_args_accepted [OF b(3) 1] named_args_accepted [OF b(4) 2] b(1,2) r
    unfolding 1 2 by auto
qed

lemma filled_order:
  assumes "one_to_one used ms" "ms = map Some [0..<k] @ ix" "k \<le> n"
    "\<forall>i \<in> set ix. \<exists>p < n. i = Some p"
  shows "\<exists>slots. arg_order n ms = map (\<lambda>p. the (holder ms p)) ([0..<k] @ slots) \<and>
    sorted_wrt (<) ([0..<k] @ slots) \<and> (\<forall>p \<in> set slots. k \<le> p \<and> p < n \<and> holder ms p \<noteq> None) \<and>
    k + length slots = length ms"
proof -
  let ?slots = "filter (\<lambda>p. holder ms p \<noteq> None) [k..<n]"
  have pre: "holder ms p = Some p" if "p < k" for p
    by (rule holder_one_to_one [OF assms(1)]) (use that assms(2) in \<open>auto simp: nth_append\<close>)
  have "[0..<n] = [0..<k] @ [k..<n]" using assms(3) upt_add_eq_append [of 0 k "n - k"] by simp
  then have f: "filter (\<lambda>p. holder ms p \<noteq> None) [0..<n] = [0..<k] @ ?slots"
    using pre by (simp add: filter_id_conv)
  have all: "\<exists>p < n. ms ! i = Some p" if "i < length ms" for i
  proof -
    have "ms ! i \<in> set (map Some [0..<k]) \<union> set ix" using that assms(2) nth_mem [of i ms] by simp
    then show ?thesis using assms(3,4) by auto
  qed
  have "filter (\<lambda>i. case ms ! i of None \<Rightarrow> True | Some p \<Rightarrow> n \<le> p) [0..<length ms] = []"
    using all by (fastforce simp: filter_empty_conv)
  then have ord: "arg_order n ms = map (\<lambda>p. the (holder ms p)) ([0..<k] @ ?slots)"
    using f by (simp add: arg_order_alt held_alt)
  have "sorted_wrt (<) (filter (\<lambda>p. holder ms p \<noteq> None) [0..<n])"
    by (rule sorted_wrt_filter) (rule sorted_wrt_upt)
  then have "sorted_wrt (<) ([0..<k] @ ?slots)" unfolding f .
  moreover have "k + length ?slots = length ms"
    using mset_eq_length [OF arg_order_permutes [OF assms(1), of n]] ord by simp
  ultimately show ?thesis using ord by (intro exI [of _ ?slots]) auto
qed

text \<open>
  C10: An accepted call that gives no more arguments than there are parameters is reordered into the
  order of its parameters: arguments, names and argument types are permuted together, so that
  every slot of the new arrays is written; the positional arguments stay where they are; and the
  named arguments follow in increasing order of the parameters, each at the one it names.
\<close>

theorem named_args_bind:
  assumes "reordered_call args names typed ps" "length args \<le> length ps"
    "remap_named_args s line col args names typed (Some ps) True = (s', args', names', typed', True)"
  shows "\<exists>ord slots. mset ord = mset [0..<length args] \<and> args' = map (\<lambda>i. args ! i) ord \<and>
    names' = map (\<lambda>i. names ! i) ord \<and> typed' = map_option (\<lambda>t. map (\<lambda>i. t ! i) ord) typed \<and>
    length slots = length args \<and> sorted_wrt (<) slots \<and> (\<forall>p \<in> set slots. p < length ps) \<and>
    (\<forall>j < length args.
       if j < positionals names then slots ! j = j \<and> ord ! j = j
       else \<not> no_text (names' ! j) \<and> same_text (ps ! (slots ! j)) (names' ! j))"
proof -
  let ?n = "length ps" and ?k = "positionals names"
  obtain ms where p: "place_args s ps (zip args names) (replicate ?n False) 0 False True = (s', ms, True)"
    and out: "args' = map (\<lambda>i. args ! i) (arg_order ?n ms)" "names' = map (\<lambda>i. names ! i) (arg_order ?n ms)"
      "typed' = map_option (\<lambda>t. map (\<lambda>i. t ! i) (arg_order ?n ms)) typed"
    using remap_unfold [OF assms(1,3)] by metis
  have l: "length args = length names" using assms(1) by (simp add: reordered_call_def)
  have k: "?k \<le> length args" using length_takeWhile_le l by simp
  have ms: "ms = map Some [0..<?k] @ named_indices ps names" and ok: "binds_well ps names"
    using place_call [OF p l] k assms(2) by auto
  have one: "one_to_one (replicate ?n False) ms" and lm: "length ms = length args"
    using place_args_one_to_one [OF p] l by simp_all
  have ix: "\<exists>p < ?n. i = Some p" if "i \<in> set (named_indices ps names)" for i
    using that ok find_param_name_indexD [of ps]
    by (auto simp: binds_well_def list_all_iff named_indices_def split: option.splits)
  obtain slots where o: "arg_order ?n ms = map (\<lambda>p. the (holder ms p)) ([0..<?k] @ slots)"
    and sorted: "sorted_wrt (<) ([0..<?k] @ slots)"
    and slots: "\<forall>p \<in> set slots. ?k \<le> p \<and> p < ?n \<and> holder ms p \<noteq> None" "?k + length slots = length ms"
    using filled_order [OF one ms _ ballI [OF ix]] k assms(2) by auto
  have pre: "holder ms j = Some j" if "j < ?k" for j
    by (rule holder_one_to_one [OF one]) (use that ms in \<open>auto simp: nth_append\<close>)
  have named: "\<not> no_text (names' ! j) \<and> same_text (ps ! (([0..<?k] @ slots) ! j)) (names' ! j)"
    if j: "\<not> j < ?k" "j < length args" for j
  proof -
    let ?p = "slots ! (j - ?k)"
    have "j - ?k < length slots" using j slots(2) lm by simp
    then have "?p \<in> set slots" by (rule nth_mem)
    then obtain i where i: "holder ms ?p = Some i" "?k \<le> ?p" using slots(1) by blast
    have h: "i < length ms" "ms ! i = Some ?p" using holder_Some [OF i(1)] by auto
    have ik: "\<not> i < ?k"
    proof
      assume "i < ?k"
      then have "ms ! i = Some i" using ms by (simp add: nth_append)
      then show False using h i(2) \<open>i < ?k\<close> by simp
    qed
    have nm: "names' ! j = names ! i"
      using j lm slots(2) i(1) by (simp add: out(2) o nth_append)
    have drop: "named_part names = drop ?k names" by (rule dropWhile_eq_drop)
    have "find_param_name_index ps (names ! i) = Some ?p"
      using h ik ms lm l by (simp add: named_indices_def nth_append drop)
    then show ?thesis using find_param_name_indexD [of ps "names ! i" ?p] nm j
      by (auto simp: nth_append find_param_name_index_def)
  qed
  have "ord ! j = j" if "ord = arg_order ?n ms" "j < ?k" for ord j
    using that pre by (simp add: o nth_append)
  then show ?thesis
    using out arg_order_permutes [OF one, of ?n] lm sorted slots named k assms(2)
    by (intro exI [of _ "arg_order ?n ms"] exI [of _ "[0..<?k] @ slots"]) (auto simp: nth_append)
qed

text \<open>The call \<open>f(1, z: 3, y: 2)\<close> of \<open>f(x, y, z)\<close>.\<close>

theorem named_args_bind_witness:
  "\<exists>ord slots. mset ord = mset [0..<3] \<and> slots = [0, 1, 2 :: nat] \<and>
     [int_arg 1, int_arg 2, int_arg 3] = map (\<lambda>i. [int_arg 1, int_arg 3, int_arg 2] ! i) ord \<and> ord ! 0 = 0"
proof -
  let ?ps = "[Some ''x'', Some ''y'', Some ''z'']" and ?args = "[int_arg 1, int_arg 3, int_arg 2]"
  let ?names = "[None, Some ''z'', Some ''y'']"
  have c: "reordered_call ?args ?names None ?ps" by code_simp
  have "snd (remap_named_args blank_sema 1 1 ?args ?names None (Some ?ps) True) =
      ([int_arg 1, int_arg 2, int_arg 3], [None, Some ''y'', Some ''z''], None, True)"
    by code_simp
  then obtain s' where r: "remap_named_args blank_sema 1 1 ?args ?names None (Some ?ps) True =
      (s', [int_arg 1, int_arg 2, int_arg 3], [None, Some ''y'', Some ''z''], None, True)"
    by (metis prod.collapse)
  have l: "length ?args \<le> length ?ps" by simp
  have k: "positionals ?names = 1" by code_simp
  show ?thesis
    using named_args_bind [OF c l r]
  proof (elim exE conjE, goal_cases)
    case (1 ord slots)
    note o = 1
    have "ord ! 0 = 0" using o(8) k by simp
    moreover obtain a b d where s: "slots = [a, b, d]" using o(5) by (auto simp: length_Suc_conv)
    have "a < b" "b < d" "d < 3" using o(6,7) unfolding s by simp_all
    then have "slots = [0, 1, 2]" unfolding s by simp
    moreover have "mset ord = mset [0..<3]" using o(1) by (simp add: numeral_3_eq_3)
    ultimately show ?case using o(2) by (intro exI [of _ ord] exI [of _ slots]) simp
  qed
qed

end
