(* ===== verification/SemaProps.thy ===== *)
theory SemaProps
  imports SemaFind SemaArgs
begin

text \<open>
  What the helpers of semantic analysis guarantee: aliases are followed to the end, a bare name
  means a declaration of its own unit before one of an opened module, the search for an overridden
  method finds the nearest base class and ends exactly when the hierarchy does.
\<close>

subsection \<open>Aliases\<close>

text \<open>The first import that gives another text for a name, by its text alone.\<close>

definition renames :: "sema \<Rightarrow> import_map \<Rightarrow> string \<Rightarrow> bool" where
  "renames s m n \<longleftrightarrow> import_here s m \<and> im_local m \<noteq> None \<and> im_remote m \<noteq> None \<and>
     same_text (im_local m) (Some n) \<and> alias_target 0 m \<noteq> None"

definition target_text :: "import_map \<Rightarrow> string" where
  "target_text m = snd (the (alias_target 0 m))"

definition alias_of :: "sema \<Rightarrow> string \<Rightarrow> string option" where
  "alias_of s n = map_option target_text (find (\<lambda>m. renames s m n) (sm_imports s))"

text \<open>One step: a name without a dot that an import renames.\<close>

definition alias_step :: "sema \<Rightarrow> string \<Rightarrow> string \<Rightarrow> bool" where
  "alias_step s n n' \<longleftrightarrow> \<not> qname_has_dot (Some n) \<and> alias_of s n = Some n'"

lemma alias_target_text: "alias_target i m = Some t \<Longrightarrow> snd t = target_text m \<and> alias_target 0 m \<noteq> None"
  by (auto simp: alias_target_def target_text_def split: if_splits)

lemma alias_target_ref: "alias_target i m = Some (Remote j, t) \<Longrightarrow> j = i"
  by (auto simp: alias_target_def split: if_splits)

lemma alias_target_0: "alias_target i m = None \<longleftrightarrow> alias_target 0 m = None"
  by (auto simp: alias_target_def)

text \<open>
  No alias leads back to a name it came from: a rank falls along every renaming.
\<close>

definition alias_rank :: "sema \<Rightarrow> (string \<Rightarrow> nat) \<Rightarrow> bool" where
  "alias_rank s rank \<longleftrightarrow>
     (\<forall>m \<in> set (sm_imports s). \<forall>n. renames s m n \<longrightarrow> rank (target_text m) < rank n)"

text \<open>An address in the list is that of the text found there.\<close>

definition ref_ok :: "sema \<Rightarrow> name_at \<Rightarrow> bool" where
  "ref_ok s c \<longleftrightarrow> (case fst c of
     Remote i \<Rightarrow> i < length (sm_imports s) \<and> target_text (sm_imports s ! i) = snd c
   | _ \<Rightarrow> True)"

lemma alias_scan_alt:
  assumes "alias_rank s rank" "ref_ok s c" "ms = drop i (sm_imports s)"
  shows "map_option snd (alias_scan s i ms c) = map_option target_text (find (\<lambda>m. renames s m (snd c)) ms) \<and>
    (\<forall>d. alias_scan s i ms c = Some d \<longrightarrow> ref_ok s d)"
  using assms(3)
proof (induction ms arbitrary: i)
  case (Cons m ms)
  have i: "i < length (sm_imports s)" "sm_imports s ! i = m" "ms = drop (i + 1) (sm_imports s)"
    using Cons.prems by (metis drop_eq_Nil2 leI list.distinct(1)) 
      (metis Cons.prems nth_via_drop, metis Cons.prems drop_Suc list.sel(3) Suc_eq_plus1 tl_drop)
  note IH = Cons.IH [OF i(3)]
  show ?case
  proof (cases "renames s m (snd c)")
    case False
    then have "alias_scan s i (m # ms) c = alias_scan s (i + 1) ms c"
      using alias_target_0 [of i m] by (auto simp: renames_def)
    then show ?thesis using IH False by simp
  next
    case True
    then obtain t where t: "alias_target i m = Some t"
      using alias_target_0 [of i m] by (auto simp: renames_def)
    have rank: "rank (target_text m) < rank (snd c)"
      using assms(1) True i nth_mem [OF i(1)] by (auto simp: alias_rank_def)
    have ok: "ref_ok s t"
      using t i alias_target_ref [of i m] alias_target_text [OF t]
      by (cases t) (auto simp: ref_ok_def split: name_ref.splits)
    have "\<not> same_ref t c"
    proof
      assume a: "same_ref t c"
      show False
      proof (cases "fst t")
        case (Remote j)
        then have "fst c = Remote j" using a by (simp add: same_ref_def)
        then have "snd t = snd c" using Remote ok assms(2) by (simp add: ref_ok_def)
        then show False using rank alias_target_text [OF t] by simp
      qed (use a t in \<open>auto simp: same_ref_def alias_target_def split: if_splits\<close>)
    qed
    then have "alias_scan s i (m # ms) c = Some t" using True t by (auto simp: renames_def)
    then show ?thesis using True ok alias_target_text [OF t] by simp
  qed
qed simp

text \<open>The entries that can still rename something on the way from a name.\<close>

definition live_aliases :: "sema \<Rightarrow> (string \<Rightarrow> nat) \<Rightarrow> string \<Rightarrow> nat set" where
  "live_aliases s rank n =
     {i. i < length (sm_imports s) \<and> rank (target_text (sm_imports s ! i)) < rank n}"

lemma finite_live [simp]: "finite (live_aliases s rank n)"
  by (simp add: live_aliases_def)

lemma alias_step_live:
  assumes "alias_rank s rank" "alias_of s n = Some n'"
  shows "card (live_aliases s rank n') < card (live_aliases s rank n)"
proof -
  obtain m where m: "find (\<lambda>m. renames s m n) (sm_imports s) = Some m" "n' = target_text m"
    using assms(2) by (auto simp: alias_of_def)
  then obtain i where i: "i < length (sm_imports s)" "sm_imports s ! i = m" "renames s m n"
    by (auto simp: find_Some_iff)
  then have r: "rank n' < rank n"
    using assms(1) m(2) nth_mem [OF i(1)] by (auto simp: alias_rank_def)
  have "i \<in> live_aliases s rank n" "i \<notin> live_aliases s rank n'"
    using i m(2) r by (auto simp: live_aliases_def)
  moreover have "live_aliases s rank n' \<subseteq> live_aliases s rank n"
    using r by (auto simp: live_aliases_def)
  ultimately show ?thesis by (metis finite_live psubsetI psubset_card_mono)
qed

lemma alias_loop_ends:
  assumes "alias_rank s rank" "ref_ok s c" "card (live_aliases s rank (snd c)) < rounds"
  shows "(alias_step s)\<^sup>*\<^sup>* (snd c) (snd (alias_loop s rounds c)) \<and>
    (\<forall>n. \<not> alias_step s (snd (alias_loop s rounds c)) n)"
  using assms(2,3)
proof (induction rounds arbitrary: c)
  case (Suc rounds)
  note scan = alias_scan_alt [OF assms(1) Suc.prems(1), of "sm_imports s" 0]
  show ?case
  proof (cases "qname_has_dot (Some (snd c))")
    case True
    then show ?thesis by (simp add: alias_step_def)
  next
    case nodot: False
    show ?thesis
    proof (cases "alias_scan s 0 (sm_imports s) c")
      case None
      then have "alias_of s (snd c) = None" using scan by (simp add: alias_of_def)
      then show ?thesis using None nodot by (simp add: alias_step_def)
    next
      case (Some d)
      then have a: "alias_of s (snd c) = Some (snd d)" and ok: "ref_ok s d"
        using scan by (simp_all add: alias_of_def)
      have "card (live_aliases s rank (snd d)) < rounds"
        using alias_step_live [OF assms(1) a] Suc.prems(2) by simp
      from Suc.IH [OF ok this] show ?thesis
        using Some nodot a by (auto simp: alias_step_def intro: converse_rtranclp_into_rtranclp)
    qed
  qed
qed simp

text \<open>
  C12: Unless aliases lead in a circle, a name is followed to the end of its chain of aliases: the
  result is reached by renaming step by step, each time by the first import of the unit that
  renames the name, and no import renames the result. The bound on the rounds, one more than there
  are imports, is never what ends the search.
\<close>

theorem alias_chain_followed:
  assumes "alias_rank s rank"
  shows "\<exists>r. expand_local_symbol_alias s (Some n) = Some r \<and> (alias_step s)\<^sup>*\<^sup>* n r \<and>
    (\<forall>n'. \<not> alias_step s r n')"
proof (cases "qname_has_dot (Some n)")
  case True
  then show ?thesis by (auto simp: expand_local_symbol_alias_def alias_step_def)
next
  case False
  have "live_aliases s rank n \<subseteq> {..<length (sm_imports s)}" by (auto simp: live_aliases_def)
  then have "card (live_aliases s rank n) \<le> card {..<length (sm_imports s)}"
    by (rule card_mono [OF finite_lessThan])
  then have "card (live_aliases s rank n) < length (sm_imports s) + 1" by simp
  with alias_loop_ends [OF assms, of "(Given, n)" "length (sm_imports s) + 1"] False
  show ?thesis by (auto simp: expand_local_symbol_alias_def ref_ok_def)
qed

definition import_named :: "import_kind \<Rightarrow> cstr \<Rightarrow> cstr \<Rightarrow> cstr \<Rightarrow> import_map" where
  "import_named k mo lo re = \<lparr> im_kind = k, im_module = mo, im_local = lo, im_remote = re,
     im_unit = Some ''App'', im_global = True \<rparr>"

text \<open>\<open>Alias a = b\<close> after \<open>Alias b = c\<close>, and \<open>c\<close> imported from \<open>Lib\<close> as \<open>Impl\<close>.\<close>

definition aliased_sema :: sema where
  "aliased_sema = blank_sema\<lparr> sm_imports :=
     [import_named IMPORT_LOCAL_ALIAS None (Some ''b'') (Some ''c''),
      import_named IMPORT_LOCAL_ALIAS None (Some ''a'') (Some ''b''),
      import_named IMPORT_SYMBOL (Some ''Lib'') (Some ''c'') (Some ''Impl'')] \<rparr>"

lemma aliased_rank: "alias_rank aliased_sema
    (\<lambda>n. if n = ''a'' then 3 else if n = ''b'' then 2 else if n = ''c'' then 1 else 0)"
proof -
  have eq: "kn_strcmp (Some [x]) (Some n) = 0 \<longleftrightarrow> n = [x]" if "x \<noteq> NUL" for x n
  proof (cases n)
    case (Cons y ys)
    then show ?thesis using that by (cases "x = y") (simp_all add: kn_strcmp_def kn_strncmp_def Let_def)
  qed (simp add: kn_strcmp_def kn_strncmp_def)
  have "CHR ''a'' \<noteq> NUL" "CHR ''b'' \<noteq> NUL" "CHR ''c'' \<noteq> NUL" by (simp_all add: NUL_def)
  then show ?thesis
    by (auto simp: alias_rank_def aliased_sema_def renames_def same_text_def import_named_def eq
        target_text_def alias_target_def join_qualified_name_def no_text_def qname_has_dot_def)
qed

theorem alias_chain_followed_witness:
  "expand_local_symbol_alias aliased_sema (Some ''a'') = Some ''Lib.Impl'' \<and>
   (alias_step aliased_sema)\<^sup>*\<^sup>* ''a'' ''Lib.Impl''"
proof -
  have "expand_local_symbol_alias aliased_sema (Some ''a'') = Some ''Lib.Impl''" by code_simp
  then show ?thesis using alias_chain_followed [OF aliased_rank, of "''a''"] by auto
qed

subsection \<open>Bare names\<close>

abbreviation dot :: char where "dot \<equiv> CHR ''.''"

lemma same_text_eq: "c_string a \<Longrightarrow> c_string b \<Longrightarrow> same_text (Some a) (Some b) \<longleftrightarrow> a = b"
  using kn_strcmp_order [of "Some a" "Some b"] by (simp add: same_text_def)

lemma same_text_None [simp]: "\<not> same_text None (Some b)" "\<not> same_text (Some a) None"
  by (auto simp: same_text_def kn_strcmp_def kn_strncmp_def)

definition simple_name :: "string \<Rightarrow> bool" where
  "simple_name n \<longleftrightarrow> c_string n \<and> n \<noteq> [] \<and> dot \<notin> set n"

definition unit_name :: "cstr \<Rightarrow> bool" where
  "unit_name u \<longleftrightarrow> (\<exists>t. u = Some t \<and> t \<noteq> [] \<and> c_string t)"

lemma has_dot_iff [simp]: "qname_has_dot (Some n) \<longleftrightarrow> dot \<in> set n"
  by (auto simp: qname_has_dot_def list_ex_iff)

lemma prefix_with_dot:
  assumes "simple_name n" "c_string p" "dot \<in> set p" "length p = k"
  shows "kn_strncmp (Some n) (Some p) k \<noteq> 0"
proof
  assume "kn_strncmp (Some n) (Some p) k = 0"
  then have "take k n = p" using assms by (simp add: simple_name_def kn_strncmp_eq_0)
  then have "set p \<subseteq> set n" by (metis set_take_subset)
  with assms show False by (auto simp: simple_name_def)
qed

lemma simple_not_builtin: "simple_name n \<Longrightarrow> \<not> builtin_type_qname_globally_visible (Some n)"
  using prefix_with_dot [of n "''IO.Type.Object.''" 15] prefix_with_dot [of n "''IO.Collection.''" 14]
  by (auto simp: builtin_type_qname_globally_visible_def simple_name_def same_text_eq c_string_def NUL_def)

lemma simple_not_core:
  assumes "simple_name n" "n \<notin> {''dict'', ''list'', ''set''}"
  shows "expand_builtin_core_alias (Some n) = Some n"
  using assms prefix_with_dot [of n "''Object.''" 7]
  by (auto simp: expand_builtin_core_alias_def simple_name_def same_text_eq c_string_def NUL_def)

lemma last_dot_unique:
  assumes "u @ dot # n = v @ dot # k" "dot \<notin> set n" "dot \<notin> set k"
  shows "u = v \<and> n = k"
  using assms by (auto simp: append_eq_append_conv2 append_eq_Cons_conv Cons_eq_append_conv)

text \<open>A declaration with a simple name in a unit, under its qualified name.\<close>

definition top_level :: "cstr \<Rightarrow> cstr \<Rightarrow> cstr \<Rightarrow> bool" where
  "top_level dn du dq \<longleftrightarrow> unit_name du \<and>
     (\<exists>n. dn = Some n \<and> simple_name n \<and> dq = Some (the du @ dot # n))"

lemma split_at_dot:
  assumes "length x = length v + 1 + length k" "take (length v) x = v" "at x (length v) = dot"
    "drop (length v + 1) x = k"
  shows "x = v @ dot # k"
proof -
  have l: "length v < length x" using assms(1) by linarith
  have "x = take (length v) x @ x ! length v # drop (Suc (length v)) x"
    by (rule id_take_nth_drop [OF l])
  then show ?thesis using assms l by (simp add: at_def)
qed

lemma top_level_matches:
  assumes "top_level dn du dq" "c_string x"
  shows "qname_matches_decl (Some x) dn du dq \<longleftrightarrow> Some x = dq \<or> Some x = dn"
proof -
  obtain k v where k: "dn = Some k" "du = Some v" "dq = Some (v @ dot # k)"
    and s: "c_string k" "v \<noteq> []" "c_string v"
    using assms(1) by (auto simp: top_level_def unit_name_def simple_name_def)
  have cq: "c_string (v @ dot # k)" using s by (simp add: c_string_def NUL_def)
  have cd: "c_string (drop (length v + 1) x)" using assms(2) by (auto simp: c_string_def dest: in_set_dropD)
  have eqs: "same_text (Some x) dq = (Some x = dq)" "same_text (Some x) dn = (Some x = dn)"
    "same_text (Some (drop (length v + 1) x)) dn = (drop (length v + 1) x = k)"
    unfolding k using assms(2) s cq cd by (simp_all add: same_text_eq)
  have pre: "kn_strncmp (Some x) du (length v) = 0 \<longleftrightarrow> take (length v) x = v"
    unfolding k using assms(2) s by (simp add: kn_strncmp_eq_0)
  show ?thesis
  proof (cases "Some x = dq \<or> Some x = dn")
    case True
    then show ?thesis using k eqs by (auto simp: qname_matches_decl_def)
  next
    case False
    then have "qname_matches_decl (Some x) dn du dq \<longleftrightarrow>
        length x = length v + 1 + length k \<and> take (length v) x = v \<and> at x (length v) = dot \<and>
        drop (length v + 1) x = k"
      unfolding qname_matches_decl_def eqs using k s pre eqs(3) by (simp add: no_text_def Let_def)
    then show ?thesis using False split_at_dot [of x v k] k by blast
  qed
qed

lemma qualified_matches:
  assumes "top_level dn du dq" "unit_name u" "simple_name n"
  shows "qname_matches_decl (join_qualified_name u (Some n)) dn du dq \<longleftrightarrow> u = du \<and> dn = Some n"
proof -
  obtain k v t where k: "dn = Some k" "du = Some v" "dq = Some (v @ dot # k)" "u = Some t"
    and s: "dot \<notin> set k" "dot \<notin> set n" "c_string n" "t \<noteq> []" "c_string t"
    using assms by (auto simp: top_level_def unit_name_def simple_name_def)
  have j: "join_qualified_name u (Some n) = Some (t @ dot # n)"
    using k s by (simp add: join_qualified_name_def no_text_def)
  have "c_string (t @ dot # n)" using s by (simp add: c_string_def NUL_def)
  moreover have "t @ dot # n \<noteq> k" using s(1) by auto
  moreover have "t @ dot # n = v @ dot # k \<longleftrightarrow> t = v \<and> n = k"
    using last_dot_unique [of t n v k] s(1,2) by blast
  ultimately show ?thesis unfolding j using top_level_matches [OF assms(1)] k by auto
qed

text \<open>The imports opened in the current unit.\<close>

definition opened_unit :: "sema \<Rightarrow> cstr \<Rightarrow> bool" where
  "opened_unit s u \<longleftrightarrow>
     list_ex (\<lambda>m. import_here s m \<and> im_kind m = IMPORT_OPEN \<and> im_module m = u) (sm_imports s)"

definition imports_ok :: "sema \<Rightarrow> bool" where
  "imports_ok s \<longleftrightarrow> unit_name (sm_current_unit s) \<and>
     (\<forall>m \<in> set (sm_imports s). im_kind m = IMPORT_OPEN \<longrightarrow> im_module m = None \<or> unit_name (im_module m))"

text \<open>A name that is written as it is meant: no alias, no short name of a collection.\<close>

definition plain_name :: "sema \<Rightarrow> string \<Rightarrow> bool" where
  "plain_name s n \<longleftrightarrow> simple_name n \<and> n \<notin> {''dict'', ''list'', ''set''} \<and>
     expand_local_symbol_alias s (Some n) = Some n"

lemma bare_score:
  assumes "imports_ok s" "plain_name s n" "top_level dn du dq"
  shows "visible_decl_match_score s (Some n) dn du dq =
    (if dn \<noteq> Some n then 0 else if du = sm_current_unit s then 80 else if opened_unit s du then 70 else 0)"
proof -
  have n: "simple_name n" "expand_builtin_core_alias (Some n) = Some n" "dot \<notin> set n"
    "\<not> builtin_type_qname_globally_visible (Some n)" "expand_local_symbol_alias s (Some n) = Some n"
    using assms(2) simple_not_core simple_not_builtin by (auto simp: plain_name_def simple_name_def)
  have cur: "unit_name (sm_current_unit s)" "sm_current_unit s \<noteq> None" "\<not> no_text (sm_current_unit s)"
    using assms(1) by (auto simp: imports_ok_def unit_name_def no_text_def)
  have d: "dn \<noteq> None" "unit_name du" "du \<noteq> None" using assms(3) by (auto simp: top_level_def unit_name_def)
  have "(import_here s m \<and> im_kind m = IMPORT_OPEN \<and> im_module m \<noteq> None \<and>
        qname_matches_decl (join_qualified_name (im_module m) (Some n)) dn du dq) =
      (import_here s m \<and> im_kind m = IMPORT_OPEN \<and> im_module m = du \<and> dn = Some n)"
    if "m \<in> set (sm_imports s)" for m
  proof (cases "im_kind m = IMPORT_OPEN \<and> im_module m \<noteq> None")
    case True
    with that assms(1) have "unit_name (im_module m)" by (auto simp: imports_ok_def)
    from qualified_matches [OF assms(3) this n(1)] True show ?thesis by simp
  qed (use d in auto)
  then have o: "opened_match s (Some n) dn du dq \<longleftrightarrow> opened_unit s du \<and> dn = Some n"
    unfolding opened_match_def opened_unit_def list_ex_iff by blast
  have "visible_decl_match_score s (Some n) dn du dq =
      (if sm_current_unit s = du \<and> dn = Some n then 80 else if opened_unit s du \<and> dn = Some n then 70 else 0)"
    unfolding visible_decl_match_score_def Let_def n(2,5) o qualified_matches [OF assms(3) cur(1) n(1)]
    using n(3,4) cur(2,3) d(1) by simp
  then show ?thesis by auto
qed

text \<open>
  The library's own classes are declared under their dotted names; such a declaration answers to
  no bare name but its last part.
\<close>

definition dotted_other :: "string \<Rightarrow> cstr \<Rightarrow> cstr \<Rightarrow> cstr \<Rightarrow> bool" where
  "dotted_other n dn du dq \<longleftrightarrow> (\<exists>x. dn = Some x \<and> c_string x \<and> dot \<in> set x \<and> (\<forall>p. x \<noteq> p @ dot # n) \<and>
     (dq = None \<or> dq = dn)) \<and> unit_name du"

lemma dotted_no_match:
  assumes "dotted_other n dn du dq" "unit_name u" "simple_name n"
  shows "\<not> qname_matches_decl (join_qualified_name u (Some n)) dn du dq"
proof -
  obtain x v t where x: "dn = Some x" "c_string x" "dot \<in> set x" "\<forall>p. x \<noteq> p @ dot # n" "dq = None \<or> dq = Some x"
    and v: "du = Some v" "c_string v" "u = Some t" "t \<noteq> []" "c_string t" and n: "dot \<notin> set n" "c_string n"
    using assms by (auto simp: dotted_other_def unit_name_def simple_name_def)
  let ?y = "t @ dot # n"
  have j: "join_qualified_name u (Some n) = Some ?y"
    using v n by (simp add: join_qualified_name_def no_text_def)
  have cy: "c_string ?y" using v n by (simp add: c_string_def NUL_def)
  have cd: "c_string (drop (length v + 1) ?y)" using cy by (auto simp: c_string_def dest: in_set_dropD)
  have ne: "\<not> same_text (Some ?y) (Some x)" using same_text_eq [OF cy x(2)] x(4) by metis
  obtain a r where ar: "x = a @ dot # r" "dot \<notin> set r" using split_list_last [OF x(3)] by blast
  have "r \<noteq> n" using x(4) ar by auto
  then have "?y \<noteq> v @ dot # x" using last_dot_unique [of t n "v @ dot # a" r] ar n by auto
  then have "\<not> (length ?y = length v + 1 + length x \<and> take (length v) ?y = v \<and> at ?y (length v) = dot \<and>
      drop (length v + 1) ?y = x)"
    using split_at_dot [of ?y v x] by blast
  moreover have "kn_strncmp (Some ?y) (Some v) (length v) = 0 \<longleftrightarrow> take (length v) ?y = v"
    using kn_strncmp_eq_0 [OF cy v(2)] by simp
  moreover have "same_text (Some (drop (length v + 1) ?y)) (Some x) \<longleftrightarrow> drop (length v + 1) ?y = x"
    by (rule same_text_eq [OF cd x(2)])
  ultimately show ?thesis
    unfolding qname_matches_decl_def j x(1) v(1) Let_def using ne x(5) by (auto simp del: take_append drop_append length_append)
qed

lemma dotted_score:
  assumes "imports_ok s" "plain_name s n" "dotted_other n dn du dq"
  shows "visible_decl_match_score s (Some n) dn du dq = 0"
proof -
  have n: "simple_name n" "expand_builtin_core_alias (Some n) = Some n" "dot \<notin> set n"
    "\<not> builtin_type_qname_globally_visible (Some n)" "expand_local_symbol_alias s (Some n) = Some n"
    using assms(2) simple_not_core simple_not_builtin by (auto simp: plain_name_def simple_name_def)
  have cur: "unit_name (sm_current_unit s)" "\<not> no_text (sm_current_unit s)"
    using assms(1) by (auto simp: imports_ok_def unit_name_def no_text_def)
  have "\<not> opened_match s (Some n) dn du dq"
    unfolding opened_match_def list_ex_iff
    using dotted_no_match [OF assms(3) _ n(1)] assms(1) by (auto simp: imports_ok_def)
  then show ?thesis
    unfolding visible_decl_match_score_def Let_def n(2,5)
    using n(3,4) cur(2) dotted_no_match [OF assms(3) cur(1) n(1)] by simp
qed

text \<open>The search among declarations that score 80, 70 or nothing.\<close>

lemma best_from_two:
  assumes "\<forall>d \<in> set ds. f d \<in> {0, 70, 80}"
  shows "best_from f ds b 80 = b"
    "best_from f ds b 70 = (case find (\<lambda>d. f d = 80) ds of Some d \<Rightarrow> Some d | None \<Rightarrow> b)"
    "best_from f ds None 0 =
       (case find (\<lambda>d. f d = 80) ds of Some d \<Rightarrow> Some d | None \<Rightarrow> find (\<lambda>d. f d = 70) ds)"
proof -
  have a: "best_from f ds b 80 = b" if "\<forall>d \<in> set ds. f d \<in> {0, 70, 80}" for ds b
    using that by (induction ds) auto
  have c: "best_from f ds b 70 = (case find (\<lambda>d. f d = 80) ds of Some d \<Rightarrow> Some d | None \<Rightarrow> b)"
    if "\<forall>d \<in> set ds. f d \<in> {0, 70, 80}" for ds b
    using that a by (induction ds) auto
  show "best_from f ds b 80 = b"
    "best_from f ds b 70 = (case find (\<lambda>d. f d = 80) ds of Some d \<Rightarrow> Some d | None \<Rightarrow> b)"
    using a c assms by blast+
  show "best_from f ds None 0 =
       (case find (\<lambda>d. f d = 80) ds of Some d \<Rightarrow> Some d | None \<Rightarrow> find (\<lambda>d. f d = 70) ds)"
    using assms a c by (induction ds) (auto split: option.splits)
qed

lemma find_eq: "(\<And>d. d \<in> set ds \<Longrightarrow> P d = Q d) \<Longrightarrow> find P ds = find Q ds"
  by (rule find_cong) auto

text \<open>
  C8: A bare class name that is no alias means the class of that name in the current unit, and only
  when there is none the first such class of the modules opened there; classes of other units stay
  invisible. This holds under four conditions. The name has no dot, is not \<open>dict\<close>, \<open>list\<close>
  or \<open>set\<close> (the short names of library collections) and has no local symbol alias, which the
  search would follow first. The current unit and every opened module have non-empty names. No class
  of the program is nested in another (\<open>cd_owner\<close>). And every class is either declared at the top
  level of a named unit, its qualified name being the unit, a dot and its own name, or declared in a
  named unit under a dotted name that does not end in a dot and the bare name.
\<close>

theorem bare_class_resolution:
  assumes "imports_ok s" "plain_name s n"
    "\<forall>d \<in> set (sm_classes s). cd_owner d = None \<and>
       (top_level (cd_name d) (cd_unit d) (cd_qname d) \<or> dotted_other n (cd_name d) (cd_unit d) (cd_qname d))"
  shows "find_visible_class s (Some n) =
    (case find (\<lambda>d. cd_name d = Some n \<and> cd_unit d = sm_current_unit s) (sm_classes s) of
       Some d \<Rightarrow> Some d
     | None \<Rightarrow> find (\<lambda>d. cd_name d = Some n \<and> opened_unit s (cd_unit d)) (sm_classes s))"
proof -
  let ?f = "class_score (visible_decl_match_score s (Some n))"
  have dot: "dot \<notin> set n" using assms(2) by (simp add: plain_name_def simple_name_def)
  have f: "?f d = (if cd_name d \<noteq> Some n then 0 else if cd_unit d = sm_current_unit s then 80
      else if opened_unit s (cd_unit d) then 70 else 0)" if d: "d \<in> set (sm_classes s)" for d
  proof -
    have o: "type_decl_lookup_name (cd_name d) (cd_qname d) (cd_owner d) = cd_name d"
      using assms(3) d by (simp add: type_decl_lookup_name_def no_text_def)
    show ?thesis
    proof (cases "top_level (cd_name d) (cd_unit d) (cd_qname d)")
      case True
      then show ?thesis using bare_score [OF assms(1,2)] by (simp add: class_score_def o)
    next
      case False
      then have x: "dotted_other n (cd_name d) (cd_unit d) (cd_qname d)" using assms(3) d by blast
      then have "cd_name d \<noteq> Some n" using dot by (auto simp: dotted_other_def)
      then show ?thesis using dotted_score [OF assms(1,2) x] by (simp add: class_score_def o)
    qed
  qed
  have r: "\<forall>d \<in> set (sm_classes s). ?f d \<in> {0, 70, 80}" using f by simp
  have 80: "find (\<lambda>d. ?f d = 80) (sm_classes s) =
      find (\<lambda>d. cd_name d = Some n \<and> cd_unit d = sm_current_unit s) (sm_classes s)"
    by (rule find_eq) (simp add: f)
  have 70: "find (\<lambda>d. ?f d = 70) (sm_classes s) =
      find (\<lambda>d. cd_name d = Some n \<and> opened_unit s (cd_unit d)) (sm_classes s)"
    if "find (\<lambda>d. cd_name d = Some n \<and> cd_unit d = sm_current_unit s) (sm_classes s) = None"
    by (rule find_eq) (use that f in \<open>auto simp: find_None_iff\<close>)
  show ?thesis
    unfolding find_visible_class_def using best_from_two(3) [OF r] 80 70 by (auto split: option.splits)
qed

definition class_in :: "string \<Rightarrow> string \<Rightarrow> cstr \<Rightarrow> method_decl list \<Rightarrow> sema_class" where
  "class_in u n base ms = \<lparr> cd_name = Some n, cd_qname = Some (u @ dot # n), cd_base = base,
     cd_interfaces = [], cd_fields = [], cd_methods = ms, cd_unit = Some u, cd_owner = None \<rparr>"

text \<open>\<open>Lib.Point\<close>, \<open>App.Point\<close>, \<open>Lib.Line\<close> and \<open>Far.Plane\<close>, seen from \<open>App\<close> with \<open>Lib\<close> opened.\<close>

definition two_points :: sema where
  "two_points = blank_sema\<lparr> sm_imports := [import_named IMPORT_OPEN (Some ''Lib'') None None],
     sm_classes := [class_in ''Lib'' ''Point'' None [], class_in ''App'' ''Point'' None [],
       class_in ''Lib'' ''Line'' None [], class_in ''Far'' ''Plane'' None []] \<rparr>"

theorem bare_class_resolution_witness:
  "map_option cd_qname (find_visible_class two_points (Some ''Point'')) = Some (Some ''App.Point'') \<and>
   map_option cd_qname (find_visible_class two_points (Some ''Line'')) = Some (Some ''Lib.Line'') \<and>
   find_visible_class two_points (Some ''Plane'') = None"
proof -
  have i: "imports_ok two_points"
    by (simp add: imports_ok_def two_points_def blank_sema_def unit_name_def c_string_def NUL_def import_named_def)
  have x: "expand_local_symbol_alias two_points (Some ''Point'') = Some ''Point''"
    "expand_local_symbol_alias two_points (Some ''Line'') = Some ''Line''"
    "expand_local_symbol_alias two_points (Some ''Plane'') = Some ''Plane''"
    by code_simp+
  have p: "plain_name two_points ''Point''" "plain_name two_points ''Line''" "plain_name two_points ''Plane''"
    by (simp_all add: plain_name_def simple_name_def x c_string_def NUL_def)
  have t: "\<forall>d \<in> set (sm_classes two_points). cd_owner d = None \<and>
       (top_level (cd_name d) (cd_unit d) (cd_qname d) \<or> dotted_other n (cd_name d) (cd_unit d) (cd_qname d))" for n
    by (simp add: two_points_def class_in_def top_level_def unit_name_def simple_name_def c_string_def NUL_def)
  have o: "opened_unit two_points (Some ''Lib'')" "\<not> opened_unit two_points (Some ''Far'')"
    by code_simp+
  show ?thesis
    using bare_class_resolution [OF i p(1) t] bare_class_resolution [OF i p(2) t]
      bare_class_resolution [OF i p(3) t] o
    by (simp add: two_points_def class_in_def blank_sema_def)
qed

subsection \<open>Overridden methods\<close>

text \<open>The class a class inherits, and its own virtual method of a signature.\<close>

definition base_of :: "sema \<Rightarrow> sema_class \<Rightarrow> sema_class option" where
  "base_of s d = (if cd_base d = None then None else find_class s (cd_base d))"

definition own_virtual :: "amem \<Rightarrow> sema_class \<Rightarrow> method_decl \<Rightarrow> (sema_class \<times> nat \<times> method_decl) option" where
  "own_virtual mem d sig =
     (case find_method_sig mem d sig of
        Some (i, m) \<Rightarrow> if method_is_virtual m then Some (d, i, m) else None
      | None \<Rightarrow> None)"

lemma virtual_from_unfold:
  "virtual_from mem s (Some d) sig =
     (case own_virtual mem d sig of Some r \<Rightarrow> Some (Some r)
      | None \<Rightarrow> virtual_from mem s (base_of s d) sig)"
proof -
  have "virtual_from mem s None sig = Some None" by (subst virtual_from.simps) simp
  then show ?thesis
    by (subst virtual_from.simps) (auto simp: own_virtual_def base_of_def split: option.splits)
qed

lemma virtual_from_None [simp]: "virtual_from mem s None sig = Some None"
  by (subst virtual_from.simps) simp

lemma find_virtual_alt: "find_virtual_in_base mem s (Some d) sig = virtual_from mem s (base_of s d) sig"
  by (simp add: find_virtual_in_base_def base_of_def)

text \<open>The chain of the base classes of a class, nearest first, if it ends.\<close>

inductive base_chain :: "sema \<Rightarrow> sema_class \<Rightarrow> sema_class list \<Rightarrow> bool" for s where
  base_end: "base_of s d = None \<Longrightarrow> base_chain s d []"
| base_more: "base_of s d = Some b \<Longrightarrow> base_chain s b bs \<Longrightarrow> base_chain s d (b # bs)"

inductive_cases base_chainE: "base_chain s d bs"

definition nearest_virtual :: "amem \<Rightarrow> sema_class list \<Rightarrow> method_decl \<Rightarrow> (sema_class \<times> nat \<times> method_decl) option" where
  "nearest_virtual mem bs sig =
     (case List.map_filter (\<lambda>b. own_virtual mem b sig) bs of [] \<Rightarrow> None | r # _ \<Rightarrow> Some r)"

lemma virtual_from_chain:
  "base_chain s d bs \<Longrightarrow> virtual_from mem s (base_of s d) sig = Some (nearest_virtual mem bs sig)"
proof (induction rule: base_chain.induct)
  case (base_more d b bs)
  then show ?case
    by (cases "own_virtual mem b sig") (simp_all add: virtual_from_unfold nearest_virtual_def)
qed (simp add: nearest_virtual_def)

abbreviation inherits :: "sema \<Rightarrow> sema_class \<Rightarrow> sema_class \<Rightarrow> bool" where
  "inherits s x y \<equiv> base_of s x = Some y"

lemma virtual_from_meets:
  "(inherits s)\<^sup>*\<^sup>* d b \<Longrightarrow> own_virtual mem b sig \<noteq> None \<Longrightarrow> virtual_from mem s (Some d) sig \<noteq> None"
proof (induction rule: converse_rtranclp_induct)
  case (step d e)
  then show ?case by (cases "own_virtual mem d sig") (simp_all add: virtual_from_unfold)
qed (auto simp: virtual_from_unfold)

text \<open>A search that returns has found a match or come to the end of the chain.\<close>

lemma virtual_from_returns:
  "virtual_from mem s cur sig = Some r \<Longrightarrow>
     (\<forall>d. cur = Some d \<longrightarrow> (\<exists>bs. base_chain s d bs) \<or> (\<exists>b. (inherits s)\<^sup>*\<^sup>* d b \<and> own_virtual mem b sig \<noteq> None))"
proof (induction arbitrary: rule: virtual_from.raw_induct [rotated, consumes 1, case_names step])
  case (step self mem s cur sig r)
  show ?case
  proof (intro allI impI)
    fix d assume cur: "cur = Some d"
    show "(\<exists>bs. base_chain s d bs) \<or> (\<exists>b. (inherits s)\<^sup>*\<^sup>* d b \<and> own_virtual mem b sig \<noteq> None)"
    proof (cases "own_virtual mem d sig = None \<and> cd_base d \<noteq> None")
      case True
      then have "self mem s (find_class s (cd_base d)) sig = Some r"
        using step(2) cur by (auto simp: own_virtual_def split: option.splits prod.splits if_splits)
      then have IH: "\<forall>e. find_class s (cd_base d) = Some e \<longrightarrow> (\<exists>bs. base_chain s e bs) \<or>
          (\<exists>b. (inherits s)\<^sup>*\<^sup>* e b \<and> own_virtual mem b sig \<noteq> None)"
        by (rule step(1))
      have up: "base_of s d = find_class s (cd_base d)" using True by (auto simp: base_of_def)
      show ?thesis
      proof (cases "find_class s (cd_base d)")
        case None
        then show ?thesis using up base_end by auto
      next
        case (Some e)
        then show ?thesis using IH up base_more converse_rtranclp_into_rtranclp [of "inherits s" d e] by metis
      qed
    next
      case False
      then show ?thesis using base_end [of s d] by (auto simp: base_of_def)
    qed
  qed
qed

text \<open>
  C11: When the chain of base classes ends, the search for the virtual method a method overrides
  returns the match of the nearest base class, or that there is none. When the chain does not end,
  because a class inherits from itself through others, the search returns only if some class on
  the way has a match: otherwise it never returns.
\<close>

theorem virtual_search_ends:
  "(\<forall>bs. base_chain s d bs \<longrightarrow> find_virtual_in_base mem s (Some d) sig = Some (nearest_virtual mem bs sig)) \<and>
   (find_virtual_in_base mem s (Some d) sig = None \<longleftrightarrow>
      (\<nexists>bs. base_chain s d bs) \<and> (\<forall>b. (inherits s)\<^sup>+\<^sup>+ d b \<longrightarrow> own_virtual mem b sig = None))"
proof (intro conjI iffI allI impI notI)
  fix bs assume c: "base_chain s d bs"
  show "find_virtual_in_base mem s (Some d) sig = Some (nearest_virtual mem bs sig)"
    unfolding find_virtual_alt by (rule virtual_from_chain [OF c])
next
  assume n: "find_virtual_in_base mem s (Some d) sig = None"
  {
    assume "\<exists>bs. base_chain s d bs"
    then show False using n virtual_from_chain by (auto simp: find_virtual_alt)
  next
    fix b assume "(inherits s)\<^sup>+\<^sup>+ d b"
    then obtain e where "base_of s d = Some e" "(inherits s)\<^sup>*\<^sup>* e b" by (auto dest: tranclpD)
    then show "own_virtual mem b sig = None"
      using n virtual_from_meets [of s e b mem sig]
      by (cases "own_virtual mem b sig") (simp_all add: find_virtual_alt)
  }
next
  assume h: "(\<nexists>bs. base_chain s d bs) \<and> (\<forall>b. (inherits s)\<^sup>+\<^sup>+ d b \<longrightarrow> own_virtual mem b sig = None)"
  then obtain e where e: "base_of s d = Some e" using base_end by (cases "base_of s d") auto
  have "(inherits s)\<^sup>+\<^sup>+ d b" if "(inherits s)\<^sup>*\<^sup>* e b" for b
    using that e by (rule rtranclp_into_tranclp2 [rotated])
  moreover have "\<nexists>bs. base_chain s e bs" using h e base_more by blast
  ultimately show "find_virtual_in_base mem s (Some d) sig = None"
    using virtual_from_returns [of mem s "Some e" sig] h e
    by (cases "virtual_from mem s (Some e) sig") (auto simp: find_virtual_alt)
qed

definition plain_method :: "string \<Rightarrow> bool \<Rightarrow> method_decl" where
  "plain_method n virt = \<lparr> md_name = Some n, md_ret_type = type_make TY_VOID, md_params = [], md_body = None,
     md_is_static = False, md_is_virtual = virt, md_is_override = False, md_is_abstract = False,
     md_is_constructor = False \<rparr>"

text \<open>Class \<open>A\<close> inherits \<open>B\<close> and \<open>B\<close> inherits \<open>A\<close>; \<open>D\<close> inherits \<open>C\<close>, which has a virtual \<open>F\<close>.\<close>

abbreviation class_A :: sema_class where "class_A \<equiv> class_in ''App'' ''A'' (Some ''App.B'') [plain_method ''F'' False]"
abbreviation class_B :: sema_class where "class_B \<equiv> class_in ''App'' ''B'' (Some ''App.A'') []"
abbreviation class_C :: sema_class where "class_C \<equiv> class_in ''App'' ''C'' None [plain_method ''F'' True]"
abbreviation class_D :: sema_class where "class_D \<equiv> class_in ''App'' ''D'' (Some ''App.C'') [plain_method ''F'' False]"

definition knotted :: sema where
  "knotted = blank_sema\<lparr> sm_classes := [class_A, class_B, class_C, class_D] \<rparr>"

theorem virtual_search_ends_witness:
  "find_virtual_in_base big_mem knotted (Some class_A) (plain_method ''F'' False) = None \<and>
   find_virtual_in_base big_mem knotted (Some class_D) (plain_method ''F'' False) =
     Some (Some (class_C, 0, plain_method ''F'' True))"
proof -
  have b: "base_of knotted class_A = Some class_B" "base_of knotted class_B = Some class_A"
    "base_of knotted class_D = Some class_C" "base_of knotted class_C = None"
    "own_virtual big_mem class_A (plain_method ''F'' False) = None"
    "own_virtual big_mem class_B (plain_method ''F'' False) = None"
    "own_virtual big_mem class_C (plain_method ''F'' False) = Some (class_C, 0, plain_method ''F'' True)"
    by code_simp+
  have "base_chain knotted class_D [class_C]" using b base_end base_more by blast
  then have "find_virtual_in_base big_mem knotted (Some class_D) (plain_method ''F'' False) =
      Some (nearest_virtual big_mem [class_C] (plain_method ''F'' False))"
    using virtual_search_ends by blast
  moreover have "x \<noteq> class_A \<and> x \<noteq> class_B" if "base_chain knotted x bs" for x bs
    using that by (induction rule: base_chain.induct) (use b in auto)
  moreover have "x = class_A \<or> x = class_B" if "(inherits knotted)\<^sup>+\<^sup>+ class_A x" for x
    using that by (induction rule: tranclp_induct) (use b in auto)
  ultimately show ?thesis
    using virtual_search_ends [of knotted class_A big_mem "plain_method ''F'' False"] b(5-7)
    by (auto simp: nearest_virtual_def List.map_filter_def)
qed

subsection \<open>Nested names behind a module alias\<close>

text \<open>
  The name behind a module alias is joined with the module only when it has no dot of its own: of
  \<open>L.Sub.Item\<close>, with \<open>L\<close> an alias of \<open>Lib\<close>, the module is lost.
\<close>

lemma alias_keeps_module:
  "expand_alias_qualified_name (blank_sema\<lparr> sm_imports := [import_named IMPORT_ALIAS (Some ''Lib'') (Some ''L'') None] \<rparr>)
     (Some ''L.Item'') = Some ''Lib.Item''"
  by code_simp

lemma alias_loses_module:
  "expand_alias_qualified_name (blank_sema\<lparr> sm_imports := [import_named IMPORT_ALIAS (Some ''Lib'') (Some ''L'') None] \<rparr>)
     (Some ''L.Sub.Item'') = Some ''Sub.Item''"
  by code_simp

subsection \<open>Depth limits\<close>

text \<open>
  Leaving undoes entering, the depth stays within the limit, and a walk that is refused once is
  refused again without another message.
\<close>

lemma expr_depth_balanced:
  "sema_enter_expr s (Some at_node) = (s', True) \<Longrightarrow>
     sm_expr_depth s' \<le> KN_SEMA_EXPR_DEPTH_LIMIT \<and> sema_leave_expr s' = s"
  by (cases at_node) (auto simp: sema_enter_expr_def sema_leave_expr_def split: if_splits)

lemma sema_error_keeps [simp]:
  "sm_expr_depth (sema_error s line col len title detail) = sm_expr_depth s"
  "sm_saw_expr_limit (sema_error s line col len title detail) = sm_saw_expr_limit s"
  by (simp_all add: sema_error_def kn_diag_report_def)

lemma expr_depth_refused:
  assumes "sema_enter_expr s (Some (line, col)) = (s', False)"
  shows "sema_enter_expr s' (Some (line', col')) = (s', False)"
proof -
  have "sm_expr_depth s' = sm_expr_depth s" "sm_saw_expr_limit s'" "\<not> sm_expr_depth s < 128"
    using assms by (auto simp: sema_enter_expr_def split: if_splits)
  then show ?thesis by (simp add: sema_enter_expr_def)
qed

lemma stmt_depth_balanced:
  "sema_enter_stmt s (Some at_node) = (s', True) \<Longrightarrow>
     sm_stmt_depth s' \<le> KN_SEMA_STMT_DEPTH_LIMIT \<and> sema_leave_stmt s' = s"
  by (cases at_node) (auto simp: sema_enter_stmt_def sema_leave_stmt_def split: if_splits)

lemma const_depth_balanced:
  "sema_enter_const_eval s (Some at_node) = (s', True) \<Longrightarrow>
     sm_const_depth s' \<le> KN_SEMA_CONST_EVAL_DEPTH_LIMIT \<and> sema_leave_const_eval s' = s"
  by (cases at_node) (auto simp: sema_enter_const_eval_def sema_leave_const_eval_def split: if_splits)

text \<open>The digits of a number are those the shared writer of \<open>kn_util.c\<close> produces.\<close>

lemma u32_digits_low: "u32_digits v i buf = buf @ low_digits (15 - i) v"
proof (induction v i buf rule: u32_digits.induct)
  case (1 v i buf)
  show ?case
  proof (cases "v \<noteq> 0 \<and> i < 15")
    case True
    then have "15 - i = Suc (15 - (i + 1))" by linarith
    then show ?thesis using 1 True by (subst u32_digits.simps) simp
  next
    case False
    then have "low_digits (15 - i) v = []" by (cases "15 - i") auto
    then show ?thesis using False by (subst u32_digits.simps) auto
  qed
qed

lemma low_digits_room: "v < 10 ^ r \<Longrightarrow> low_digits (Suc r) v = low_digits r v"
proof (induction r arbitrary: v)
  case (Suc r)
  have "v div 10 < 10 ^ r" using Suc.prems by (simp add: less_mult_imp_div_less)
  then show ?case using Suc.IH [of "v div 10"] by (simp del: low_digits.simps add: low_digits.simps(2))
qed simp

lemma sema_u32_to_text_shared: "sema_u32_to_text v = kn_write_u32 v"
proof -
  have "unat v < 2 ^ LENGTH(32)" by (rule unsigned_less)
  then have "unat v < 10 ^ 15" by simp
  then have "low_digits 16 (unat v) = low_digits 15 (unat v)"
    using low_digits_room [of "unat v" 15] by simp
  then show ?thesis by (simp add: sema_u32_to_text_def kn_write_u32_def u32_digits_low)
qed

end
