(* ===== verification/Parse.thy ===== *)
theory Parse
  imports Ast Source
begin

text \<open>
  The token layer of the parser, \<open>apps/kinal/src/kn_parser.c\<close>: the rewriting of the tokens by
  unsafe aliases before parsing, the cursor, names and builtin types, messages and the recovery
  after a missing token, and the depth limit of statements. The grammar itself is in the included
  \<open>.inc\<close> files.

  A token carries its own text here. Loops that skip tokens stop at the end-of-file token; a
  \<open>None\<close> is a loop that does not end, which happens only when the tokens have none.
\<close>

subsection \<open>Tokens and messages\<close>

record ptoken =
  pt_type :: token_type
  pt_text :: string
  pt_line :: int
  pt_col :: int

text \<open>Level 0 is an error.\<close>

record parse_report =
  pr_level :: nat
  pr_line :: int
  pr_col :: int
  pr_len :: int
  pr_title :: string
  pr_detail :: string
  pr_got :: cstr

definition report_at :: "ptoken \<Rightarrow> string \<Rightarrow> string \<Rightarrow> cstr \<Rightarrow> parse_report" where
  "report_at t title detail got = \<lparr> pr_level = 0, pr_line = pt_line t, pr_col = pt_col t,
     pr_len = int (length (pt_text t)), pr_title = title, pr_detail = detail, pr_got = got \<rparr>"

text \<open>The report whose length is at least one.\<close>

definition site_report :: "ptoken \<Rightarrow> string \<Rightarrow> string \<Rightarrow> cstr \<Rightarrow> parse_report" where
  "site_report t title detail got = (report_at t title detail got)\<lparr> pr_len :=
     (if pt_text t \<noteq> [] then int (length (pt_text t)) else 1) \<rparr>"

definition quoted :: "string \<Rightarrow> string" where
  "quoted s = [CHR 0x27] @ s @ [CHR 0x27]"

definition token_text_eq :: "ptoken \<Rightarrow> string \<Rightarrow> bool" where
  "token_text_eq t text \<longleftrightarrow>
     length (pt_text t) = length text \<and> kn_strncmp (Some (pt_text t)) (Some text) (length text) = 0"

definition token_is_literal_type :: "token_type \<Rightarrow> bool" where
  "token_is_literal_type t \<longleftrightarrow> t = TOK_NUMBER \<or> t = TOK_STRING \<or> t = TOK_CHAR_LIT \<or> t = DK TOK_TRUE \<or>
     t = DK TOK_FALSE \<or> t = DK TOK_NULL"

text \<open>The keywords are the three groups of the enumeration from \<open>TOK_UNIT\<close> to \<open>TOK_TYPE_ANY\<close>.\<close>

definition token_is_keyword_type :: "token_type \<Rightarrow> bool" where
  "token_is_keyword_type t = (case t of SK _ \<Rightarrow> True | DK _ \<Rightarrow> True | TY _ \<Rightarrow> True | _ \<Rightarrow> False)"

definition token_is_operator_or_punct :: "token_type \<Rightarrow> bool" where
  "token_is_operator_or_punct t = (case t of PU _ \<Rightarrow> True | OP _ \<Rightarrow> True | _ \<Rightarrow> False)"

definition is_type_tok :: "token_type \<Rightarrow> bool" where
  "is_type_tok t = (case t of TY _ \<Rightarrow> True | _ \<Rightarrow> False)"

subsection \<open>Unsafe aliases\<close>

type_synonym alias_piece = "token_type \<times> string"
type_synonym unsafe_alias = "alias_piece list \<times> alias_piece list"

definition token_can_start_unsafe_alias_lhs :: "token_type \<Rightarrow> bool \<Rightarrow> bool" where
  "token_can_start_unsafe_alias_lhs t allow_tokens \<longleftrightarrow>
     t = TOK_ID \<or> token_is_literal_type t \<or> token_is_keyword_type t \<or>
     (allow_tokens \<and> token_is_operator_or_punct t)"

definition token_can_start_unsafe_alias_rhs :: "token_type \<Rightarrow> bool \<Rightarrow> bool" where
  "token_can_start_unsafe_alias_rhs t allow_tokens \<longleftrightarrow>
     token_is_literal_type t \<or> token_is_keyword_type t \<or> (allow_tokens \<and> token_is_operator_or_punct t)"

text \<open>Whether the tokens from here on begin with a semicolon that ends its line.\<close>

fun unsafe_alias_is_directive_terminator :: "ptoken list \<Rightarrow> bool" where
  "unsafe_alias_is_directive_terminator [] = False"
| "unsafe_alias_is_directive_terminator (t # ts) =
     (pt_type t = PU TOK_SEMI \<and>
      (case ts of [] \<Rightarrow> True | n # _ \<Rightarrow> pt_type n = TOK_EOF \<or> pt_line n \<noteq> pt_line t))"

definition unsafe_alias_token_matches :: "alias_piece \<Rightarrow> ptoken \<Rightarrow> bool" where
  "unsafe_alias_token_matches spec t \<longleftrightarrow>
     pt_type t = fst spec \<and> length (pt_text t) = length (snd spec) \<and>
     kn_strncmp (Some (pt_text t)) (Some (snd spec)) (length (pt_text t)) = 0"

definition unsafe_alias_sequence_matches :: "alias_piece list \<Rightarrow> ptoken list \<Rightarrow> bool" where
  "unsafe_alias_sequence_matches spec ts \<longleftrightarrow>
     spec \<noteq> [] \<and> length spec \<le> length ts \<and> list_all (\<lambda>(s, t). unsafe_alias_token_matches s t) (zip spec ts)"

definition emit_unsafe_alias_target :: "alias_piece list \<Rightarrow> ptoken \<Rightarrow> ptoken list" where
  "emit_unsafe_alias_target target site =
     map (\<lambda>(k, text). site\<lparr> pt_type := k, pt_text := text \<rparr>) target"

text \<open>
  The pieces of one side of an alias of many tokens: those up to the end, how many tokens they are,
  and whether a token that cannot be one was met.
\<close>

fun alias_pieces :: "(token_type \<Rightarrow> bool) \<Rightarrow> (ptoken list \<Rightarrow> bool) \<Rightarrow> ptoken list \<Rightarrow> alias_piece list \<times> nat \<times> bool" where
  "alias_pieces ok stop [] = ([], 0, False)"
| "alias_pieces ok stop (t # ts) =
     (if stop (t # ts) then ([], 0, False)
      else if \<not> ok (pt_type t) then ([], 0, True)
      else let (ps, n, bad) = alias_pieces ok stop ts in ((pt_type t, pt_text t) # ps, n + 1, bad))"

text \<open>What the loop over the directives finds at a position, and the position it goes on from.\<close>

datatype alias_read = No_Directive | Bad_Directive nat "parse_report option" | Directive unsafe_alias nat

definition site_at :: "ptoken list \<Rightarrow> nat \<Rightarrow> ptoken" where
  "site_at toks pos = (if pos < length toks then toks ! pos else last toks)"

definition finish_alias :: "ptoken list \<Rightarrow> unsafe_alias \<Rightarrow> nat \<Rightarrow> alias_read" where
  "finish_alias toks entry pos =
     (if pos \<ge> length toks \<or> pt_type (toks ! pos) \<noteq> PU TOK_SEMI
      then Bad_Directive pos (Some (site_report (site_at toks pos) ''Expected Semicolon''
             (''Missing '' @ quoted '';'' @ '' after Unsafe Alias'') None))
      else Directive entry (pos + 1))"

definition read_token_alias :: "ptoken list \<Rightarrow> nat \<Rightarrow> alias_read" where
  "read_token_alias toks pos =
     (let (source, n, bad) = alias_pieces (\<lambda>t. token_can_start_unsafe_alias_lhs t True)
            (\<lambda>ts. pt_type (hd ts) = SK TOK_BY) (drop pos toks);
          pos1 = pos + n
      in if bad
         then Bad_Directive pos1 (Some (site_report (toks ! pos1) ''Invalid Unsafe Alias''
                ''Unsafe Unsafe Unsafe Alias requires token/literal/keyword source pieces'' None))
         else if source = []
         then Bad_Directive pos1 (Some (site_report (site_at toks pos) ''Invalid Unsafe Alias''
                ''Unsafe Unsafe Unsafe Alias requires a token/literal/keyword source'' None))
         else if pos1 \<ge> length toks \<or> pt_type (toks ! pos1) \<noteq> SK TOK_BY
         then Bad_Directive pos1 (Some (site_report (site_at toks pos1) ''Expected By''
                (''Unsafe Alias requires '' @ quoted ''By'') None))
         else
           let (target, k, bad) = alias_pieces (\<lambda>t. token_can_start_unsafe_alias_rhs t True)
                 unsafe_alias_is_directive_terminator (drop (pos1 + 1) toks);
               pos2 = pos1 + 1 + k
           in if bad
              then Bad_Directive pos2 (Some (site_report (toks ! pos2) ''Invalid Unsafe Alias''
                     ''Unsafe Unsafe Unsafe Alias requires token/literal/keyword target pieces'' None))
              else if target = []
              then Bad_Directive pos2 (Some (site_report (site_at toks pos2) ''Invalid Unsafe Alias''
                     ''Unsafe Unsafe Unsafe Alias requires a token/literal/keyword target'' None))
              else finish_alias toks (source, target) pos2)"

definition read_word_alias :: "ptoken list \<Rightarrow> nat \<Rightarrow> alias_read" where
  "read_word_alias toks pos =
     (if pos \<ge> length toks then Bad_Directive pos None
      else let lhs = toks ! pos; pos1 = pos + 1
      in if \<not> token_can_start_unsafe_alias_lhs (pt_type lhs) False
         then Bad_Directive pos1 (Some (site_report lhs ''Invalid Unsafe Alias''
                ''Unsafe Alias only supports keyword or literal aliases'' None))
         else if pos1 \<ge> length toks \<or> pt_type (toks ! pos1) \<noteq> SK TOK_BY
         then Bad_Directive pos1 (Some (site_report (if pos1 < length toks then toks ! pos1 else lhs)
                ''Expected By'' (''Unsafe Alias requires '' @ quoted ''By'') None))
         else if pos1 + 1 \<ge> length toks then Bad_Directive (pos1 + 1) None
         else let rhs = toks ! (pos1 + 1); pos2 = pos1 + 2
         in if \<not> token_can_start_unsafe_alias_rhs (pt_type rhs) False
            then Bad_Directive pos2 (Some (site_report rhs ''Invalid Unsafe Alias''
                   ''Unsafe Alias only supports keyword or literal targets'' None))
            else finish_alias toks ([(pt_type lhs, pt_text lhs)], [(pt_type rhs, pt_text rhs)]) pos2)"

definition read_alias :: "ptoken list \<Rightarrow> nat \<Rightarrow> alias_read" where
  "read_alias toks pos =
     (let u = length (takeWhile (\<lambda>t. pt_type t = SK TOK_UNSAFE) (drop pos toks))
      in if u = 0 \<or> \<not> ((u = 1 \<or> u = 3) \<and> pos + u < length toks \<and> pt_type (toks ! (pos + u)) = SK TOK_ALIAS)
         then No_Directive
         else if u = 3 then read_token_alias toks (pos + u + 1)
         else read_word_alias toks (pos + u + 1))"

lemma finish_alias_moves: "finish_alias toks e pos = Directive e' pos' \<Longrightarrow> pos < pos' \<and> pos < length toks"
  by (auto simp: finish_alias_def split: if_splits)

lemma read_alias_moves: "read_alias toks pos = Directive e pos' \<Longrightarrow> pos < pos' \<and> pos < length toks"
  by (auto simp: read_alias_def read_token_alias_def read_word_alias_def Let_def
      split: if_splits prod.splits dest!: finish_alias_moves)

text \<open>
  The directives at the start of the file: the aliases, where the program begins, whether there
  was a directive, and the report that ended the loop, if one did.
\<close>

function read_aliases :: "ptoken list \<Rightarrow> nat \<Rightarrow> unsafe_alias list \<times> nat \<times> bool \<times> parse_report option" where
  "read_aliases toks pos =
     (if pos \<ge> length toks then ([], pos, False, None)
      else case read_alias toks pos of
        No_Directive \<Rightarrow> ([], pos, False, None)
      | Bad_Directive pos' r \<Rightarrow> ([], pos', True, r)
      | Directive e pos' \<Rightarrow> let (es, q, _, r) = read_aliases toks pos' in (e # es, q, True, r))"
  by pat_completeness auto
termination
  by (relation "measure (\<lambda>(toks, pos). length toks - pos)") (auto dest: read_alias_moves)

declare read_aliases.simps [simp del]

text \<open>The rewriting: at each place the last alias declared whose source stands there.\<close>

definition alias_here :: "unsafe_alias list \<Rightarrow> ptoken list \<Rightarrow> unsafe_alias option" where
  "alias_here aliases ts = find (\<lambda>(source, _). unsafe_alias_sequence_matches source ts) (rev aliases)"

lemma alias_here_nonempty: "alias_here aliases ts = Some (source, target) \<Longrightarrow> source \<noteq> [] \<and> ts \<noteq> []"
  by (auto simp: alias_here_def find_Some_iff unsafe_alias_sequence_matches_def)

function rewrite_aliases :: "unsafe_alias list \<Rightarrow> ptoken list \<Rightarrow> ptoken list" where
  "rewrite_aliases aliases ts =
     (case ts of [] \<Rightarrow> []
      | t # rest \<Rightarrow>
        (case alias_here aliases ts of
           Some (source, target) \<Rightarrow>
             emit_unsafe_alias_target target t @ rewrite_aliases aliases (drop (length source) ts)
         | None \<Rightarrow> t # rewrite_aliases aliases rest))"
  by pat_completeness auto
termination
  by (relation "measure (\<lambda>(aliases, ts). length ts)") (auto dest: alias_here_nonempty)

declare rewrite_aliases.simps [simp del]

definition preprocess_unsafe_aliases :: "ptoken list \<Rightarrow> ptoken list \<times> bool \<times> parse_report option" where
  "preprocess_unsafe_aliases toks =
     (if toks = [] then ([], False, None)
      else let (aliases, pos, had_unsafe, r) = read_aliases toks 0;
               out = rewrite_aliases aliases (drop pos toks)
           in (if out = [] \<or> pt_type (last out) \<noteq> TOK_EOF then out @ [last toks] else out, had_unsafe, r))"

subsection \<open>The cursor\<close>

record parser =
  ps_toks :: "ptoken list"
  ps_pos :: nat
  ps_source :: "kn_source option"
  ps_unit_name :: cstr
  ps_decl_prefix :: cstr
  ps_stmt_depth :: int
  ps_saw_stmt_limit :: bool
  ps_log :: "parse_report list"

definition peek :: "parser \<Rightarrow> int \<Rightarrow> ptoken" where
  "peek p off =
     (let i = int (ps_pos p) + off; i = (if i < 0 then 0 else i); n = int (length (ps_toks p))
      in ps_toks p ! nat (if i \<ge> n then n - 1 else i))"

definition cur :: "parser \<Rightarrow> ptoken" where
  "cur p = peek p 0"

abbreviation cur_type :: "parser \<Rightarrow> token_type" where
  "cur_type p \<equiv> pt_type (cur p)"

definition step :: "parser \<Rightarrow> parser" where
  "step p = p\<lparr> ps_pos := ps_pos p + 1 \<rparr>"

definition match_tok :: "parser \<Rightarrow> token_type \<Rightarrow> bool \<times> parser" where
  "match_tok p t = (if cur_type p = t then (True, step p) else (False, p))"

definition tok_got :: "parser \<Rightarrow> string" where
  "tok_got p =
     (let t = cur p
      in if pt_type t = TOK_EOF \<or> pt_text t = [] then ''<end-of-file>''
         else if pt_type t = TOK_BAD_STRING then ''<unterminated-string>''
         else if pt_type t = TOK_BAD_CHAR then ''<invalid-char>''
         else pt_text t)"

definition parse_error :: "parser \<Rightarrow> parse_report \<Rightarrow> parser" where
  "parse_error p r = p\<lparr> ps_log := ps_log p @ [r] \<rparr>"

partial_function (option) skip_until :: "(token_type \<Rightarrow> bool) \<Rightarrow> parser \<Rightarrow> parser option" where
  "skip_until stop p = (if cur_type p = TOK_EOF \<or> stop (cur_type p) then Some p else skip_until stop (step p))"

text \<open>The token the skip was for is taken when it was found.\<close>

definition take_if :: "token_type \<Rightarrow> parser \<Rightarrow> parser" where
  "take_if t p = (if cur_type p = t then step p else p)"

definition skip_past :: "token_type \<Rightarrow> (token_type \<Rightarrow> bool) \<Rightarrow> parser \<Rightarrow> parser option" where
  "skip_past t stop p = map_option (take_if t) (skip_until (\<lambda>u. u = t \<or> stop u) p)"

partial_function (option) unsafe_run_from :: "parser \<Rightarrow> nat \<Rightarrow> nat option" where
  "unsafe_run_from p n =
     (if pt_type (peek p (int n)) = SK TOK_UNSAFE then unsafe_run_from p (n + 1) else Some n)"

definition unsafe_alias_prefix_length :: "parser \<Rightarrow> nat option" where
  "unsafe_alias_prefix_length p =
     map_option (\<lambda>n. if (n = 1 \<or> n = 3) \<and> pt_type (peek p (int n)) = SK TOK_ALIAS then n + 1 else 0)
       (unsafe_run_from p 0)"

definition looks_like_unsafe_alias_directive :: "parser \<Rightarrow> bool option" where
  "looks_like_unsafe_alias_directive p = map_option (\<lambda>n. n > 0) (unsafe_alias_prefix_length p)"

definition skip_top_level_directive :: "parser \<Rightarrow> parser option" where
  "skip_top_level_directive p = skip_past (PU TOK_SEMI) (\<lambda>_. False) p"

subsection \<open>Recovery\<close>

text \<open>The tokens that look like the start of the next statement or declaration.\<close>

definition statement_start :: "token_type \<Rightarrow> bool" where
  "statement_start t \<longleftrightarrow>
     t \<in> {PU TOK_RBRACE, SK TOK_RETURN, SK TOK_IF, SK TOK_SWITCH, SK TOK_FOR, SK TOK_WHILE, SK TOK_BREAK,
       SK TOK_CONTINUE, SK TOK_TRY, SK TOK_THROW, SK TOK_CONST, SK TOK_VAR, DK TOK_BLOCK, DK TOK_CLASS,
       DK TOK_STRUCT, DK TOK_ENUM, DK TOK_INTERFACE, SK TOK_FUNCTION, DK TOK_EXTERN, SK TOK_GET, TOK_ID} \<or>
     is_type_tok t"

definition recover_after_expect :: "parser \<Rightarrow> token_type \<Rightarrow> parser option" where
  "recover_after_expect p expected =
     (if cur_type p = TOK_EOF then Some p
      else if expected = PU TOK_SEMI then skip_past (PU TOK_SEMI) statement_start p
      else if expected = PU TOK_RPAREN
      then skip_past (PU TOK_RPAREN) (\<lambda>t. t \<in> {PU TOK_SEMI, PU TOK_LBRACE, PU TOK_RBRACE}) p
      else if expected = PU TOK_RBRACKET
      then skip_past (PU TOK_RBRACKET) (\<lambda>t. t \<in> {PU TOK_SEMI, PU TOK_RBRACE}) p
      else if expected = PU TOK_RBRACE then skip_past (PU TOK_RBRACE) (\<lambda>_. False) p
      else Some (step p))"

definition expect :: "parser \<Rightarrow> token_type \<Rightarrow> string \<Rightarrow> string \<Rightarrow> (bool \<times> parser) option" where
  "expect p t title detail =
     (let (found, q) = match_tok p t
      in if found then Some (True, q)
         else map_option (Pair False)
           (recover_after_expect (parse_error p (report_at (cur p) title detail (Some (tok_got p)))) t))"

text \<open>The length of a line without the blanks at its end.\<close>

fun trimmed :: "string \<Rightarrow> nat \<Rightarrow> nat" where
  "trimmed line 0 = 0"
| "trimmed line (Suc i) =
     (if line ! i \<in> {CHR '' '', CHR 0x09, CHR 0x0D, CHR 0x0A} then trimmed line i else Suc i)"

text \<open>A semicolon after an expression at the given line and column; \<open>None\<close> when there is none.\<close>

definition expect_semi_after_expr :: "parser \<Rightarrow> (int \<times> int) option \<Rightarrow> parser option" where
  "expect_semi_after_expr p e =
     (let (found, q) = match_tok p (PU TOK_SEMI)
      in if found then Some q
         else let got = cur p; detail = ''Missing '' @ quoted '';'' @ '' after expression'';
                  r = (case e of
                    Some (line, ecol) \<Rightarrow>
                      if pt_line got > line then
                        (let col = (if ecol > 0 then ecol else 1);
                             col = (case kn_source_get_line (ps_source p) line of
                                None \<Rightarrow> col
                              | Some (start, len) \<Rightarrow>
                                  let text = take len (drop start (case ps_source p of None \<Rightarrow> [] | Some s \<Rightarrow> ks_text s));
                                      i = trimmed text len
                                  in if i > 0 then int i + 1 else col)
                         in \<lparr> pr_level = 0, pr_line = line, pr_col = col, pr_len = 1,
                              pr_title = ''Expected Semicolon'', pr_detail = detail, pr_got = None \<rparr>)
                      else report_at got ''Expected Semicolon'' detail (Some (tok_got p))
                  | None \<Rightarrow> report_at got ''Expected Semicolon'' detail (Some (tok_got p)))
              in recover_after_expect (parse_error p r) (PU TOK_SEMI))"

subsection \<open>Names and types\<close>

text \<open>The names of the builtin types with their kinds.\<close>

definition builtin_type_names :: "(string \<times> type_kind) list" where
  "builtin_type_names = [(''void'', TY_VOID), (''bool'', TY_BOOL), (''byte'', TY_BYTE), (''char'', TY_CHAR),
     (''int'', TY_INT), (''float'', TY_FLOAT), (''f16'', TY_F16), (''f32'', TY_F32), (''f64'', TY_F64),
     (''f128'', TY_F128), (''i8'', TY_I8), (''i16'', TY_I16), (''i32'', TY_I32), (''i64'', TY_I64),
     (''u8'', TY_U8), (''u16'', TY_U16), (''u32'', TY_U32), (''u64'', TY_U64), (''isize'', TY_ISIZE),
     (''usize'', TY_USIZE), (''string'', TY_STRING), (''any'', TY_ANY)]"

definition builtin_type_kind :: "cstr \<Rightarrow> type_kind" where
  "builtin_type_kind name =
     (if name = None then TY_UNKNOWN
      else case find (\<lambda>(n, _). kn_strcmp name (Some n) = 0) builtin_type_names of
        Some (_, k) \<Rightarrow> k | None \<Rightarrow> TY_UNKNOWN)"

definition token_is_builtin_type_name :: "ptoken \<Rightarrow> bool" where
  "token_is_builtin_type_name t \<longleftrightarrow>
     pt_type t = TOK_ID \<and>
     list_ex (token_text_eq t) (map fst builtin_type_names @ [''list'', ''dict'', ''set''])"

definition decl_name_follow_tok :: "token_type \<Rightarrow> bool" where
  "decl_name_follow_tok t \<longleftrightarrow>
     t = PU TOK_SEMI \<or> t = OP TOK_ASSIGN \<or> t = PU TOK_LBRACKET \<or> t = PU TOK_COMMA \<or> t = TOK_EOF"

definition type_token_name :: "token_type \<Rightarrow> cstr" where
  "type_token_name t =
     (case t of
        TY k \<Rightarrow> Some (case k of
          TOK_TYPE_VOID \<Rightarrow> ''void'' | TOK_TYPE_BOOL \<Rightarrow> ''bool'' | TOK_TYPE_BYTE \<Rightarrow> ''byte''
        | TOK_TYPE_CHAR \<Rightarrow> ''char'' | TOK_TYPE_INT \<Rightarrow> ''int'' | TOK_TYPE_FLOAT \<Rightarrow> ''float''
        | TOK_TYPE_F16 \<Rightarrow> ''f16'' | TOK_TYPE_F32 \<Rightarrow> ''f32'' | TOK_TYPE_F64 \<Rightarrow> ''f64''
        | TOK_TYPE_F128 \<Rightarrow> ''f128'' | TOK_TYPE_I8 \<Rightarrow> ''i8'' | TOK_TYPE_I16 \<Rightarrow> ''i16''
        | TOK_TYPE_I32 \<Rightarrow> ''i32'' | TOK_TYPE_I64 \<Rightarrow> ''i64'' | TOK_TYPE_U8 \<Rightarrow> ''u8''
        | TOK_TYPE_U16 \<Rightarrow> ''u16'' | TOK_TYPE_U32 \<Rightarrow> ''u32'' | TOK_TYPE_U64 \<Rightarrow> ''u64''
        | TOK_TYPE_ISIZE \<Rightarrow> ''isize'' | TOK_TYPE_USIZE \<Rightarrow> ''usize'' | TOK_TYPE_STRING \<Rightarrow> ''string''
        | TOK_TYPE_ANY \<Rightarrow> ''any'')
      | _ \<Rightarrow> None)"

text \<open>A name, which may be a keyword where only a name can stand; the empty text after an error.\<close>

definition parse_name_token :: "parser \<Rightarrow> string \<Rightarrow> string \<Rightarrow> (string \<times> parser) option" where
  "parse_name_token p title detail =
     (let t = cur p
      in if pt_type t = TOK_ID \<or> token_is_keyword_type (pt_type t) then Some (pt_text t, step p)
         else map_option (\<lambda>(_, q). ([], q)) (expect p TOK_ID title detail))"

text \<open>The parts of a dotted name after the first; only the first sixteen parts are kept.\<close>

partial_function (option) name_parts :: "string list \<Rightarrow> parser \<Rightarrow> (string list \<times> parser) option" where
  "name_parts parts p =
     (let (dot, q) = match_tok p (PU TOK_DOT)
      in if \<not> dot then Some (parts, p)
         else case parse_name_token q ''Expected Identifier'' ''Expected name'' of
           None \<Rightarrow> None
         | Some (name, q) \<Rightarrow> name_parts (if length parts < 16 then parts @ [name] else parts) q)"

fun dotted :: "string list \<Rightarrow> string" where
  "dotted [] = []"
| "dotted [x] = x"
| "dotted (x # xs) = x @ CHR ''.'' # dotted xs"

definition parse_qualified_type_name :: "parser \<Rightarrow> (string \<times> parser) option" where
  "parse_qualified_type_name p =
     (case parse_name_token p ''Expected Identifier'' ''Expected name'' of
        None \<Rightarrow> None
      | Some (first, q) \<Rightarrow> map_option (\<lambda>(parts, q). (dotted parts, q)) (name_parts [first] q))"

definition qualified_builtin_kind :: "cstr \<Rightarrow> type_kind" where
  "qualified_builtin_kind qname =
     (case qname of None \<Rightarrow> TY_UNKNOWN
      | Some n \<Rightarrow> if kn_strncmp qname (Some ''IO.Type.'') 8 = 0 then builtin_type_kind (Some (drop 8 n))
                  else builtin_type_kind qname)"

definition normalize_type_alias :: "cstr \<Rightarrow> cstr" where
  "normalize_type_alias qname =
     (case qname of None \<Rightarrow> None
      | Some n \<Rightarrow>
        if kn_strcmp qname (Some ''list'') = 0 then Some ''IO.Collection.list''
        else if kn_strcmp qname (Some ''dict'') = 0 then Some ''IO.Collection.dict''
        else if kn_strcmp qname (Some ''set'') = 0 then Some ''IO.Collection.set''
        else if kn_strncmp qname (Some ''Object.'') 7 = 0 then Some (''IO.Type.Object.'' @ drop 7 n)
        else qname)"

definition apply_array_type :: "amem \<Rightarrow> ty \<Rightarrow> int \<Rightarrow> ty" where
  "apply_array_type m t len =
     (if ty_kind t = TY_UNKNOWN then type_array TY_UNKNOWN len
      else if ty_kind t = TY_VOID then t
      else type_array_of m t len)"

definition qualify_name :: "cstr \<Rightarrow> cstr \<Rightarrow> cstr" where
  "qualify_name unit name =
     (case (unit, name) of (Some u, Some n) \<Rightarrow> Some (u @ CHR ''.'' # n) | _ \<Rightarrow> name)"

definition qualify_decl_name :: "parser \<Rightarrow> cstr \<Rightarrow> cstr" where
  "qualify_decl_name p name =
     (if name = None then None
      else if ps_decl_prefix p \<noteq> None \<and> ps_decl_prefix p \<noteq> Some []
      then qualify_name (ps_decl_prefix p) name
      else qualify_name (ps_unit_name p) name)"

subsection \<open>Depth of statements\<close>

abbreviation KN_PARSER_STMT_DEPTH_LIMIT :: int where "KN_PARSER_STMT_DEPTH_LIMIT \<equiv> 192"

text \<open>Skips to the brace that closes the block around the current position.\<close>

partial_function (option) skip_block :: "nat \<Rightarrow> parser \<Rightarrow> parser option" where
  "skip_block nested p =
     (if cur_type p = TOK_EOF then Some p
      else if cur_type p = PU TOK_LBRACE then skip_block (nested + 1) (step p)
      else if cur_type p = PU TOK_RBRACE
      then (if nested = 0 then Some p else skip_block (nested - 1) (step p))
      else skip_block nested (step p))"

definition parser_skip_to_enclosing_block_end :: "parser \<Rightarrow> parser option" where
  "parser_skip_to_enclosing_block_end p = skip_block 0 p"

definition parser_enter_stmt :: "parser \<Rightarrow> ptoken option \<Rightarrow> (bool \<times> parser) option" where
  "parser_enter_stmt p site =
     (let p = p\<lparr> ps_stmt_depth := ps_stmt_depth p + 1 \<rparr>
      in if ps_stmt_depth p \<le> KN_PARSER_STMT_DEPTH_LIMIT then Some (True, p)
         else let t = (case site of None \<Rightarrow> cur p | Some t \<Rightarrow> t);
                  len = (case site of None \<Rightarrow> 1
                         | Some t \<Rightarrow> if pt_text t \<noteq> [] then int (length (pt_text t)) else 1);
                  p = (if ps_saw_stmt_limit p then p
                       else parse_error (p\<lparr> ps_saw_stmt_limit := True \<rparr>)
                         \<lparr> pr_level = 0, pr_line = pt_line t, pr_col = pt_col t, pr_len = len,
                           pr_title = ''Statement Too Deep'',
                           pr_detail = ''Statement nesting exceeds parser recursion limit'',
                           pr_got = Some (tok_got p) \<rparr>)
              in map_option (\<lambda>q. (False, q\<lparr> ps_stmt_depth := ps_stmt_depth q - 1 \<rparr>))
                   (parser_skip_to_enclosing_block_end p))"

definition parser_leave_stmt :: "parser \<Rightarrow> parser" where
  "parser_leave_stmt p =
     (if ps_stmt_depth p > 0 then p\<lparr> ps_stmt_depth := ps_stmt_depth p - 1 \<rparr> else p)"

text \<open>
  The parser as \<open>parse_program\<close> starts it, on the tokens of a source after the rewriting.
\<close>

definition start_parser :: "kn_source option \<Rightarrow> ptoken list \<Rightarrow> parser" where
  "start_parser src toks = \<lparr> ps_toks = toks, ps_pos = 0, ps_source = src, ps_unit_name = None,
     ps_decl_prefix = None, ps_stmt_depth = 0, ps_saw_stmt_limit = False, ps_log = [] \<rparr>"

end
