(* ===== verification/ParseProps.thy ===== *)
theory ParseProps
  imports Parse LexerProps
begin

text \<open>
  What the token layer of the parser guarantees: the tokens it gets end with their only
  end-of-file token, whatever aliases rewrite, and on such tokens every loop that skips ends.
\<close>

subsection \<open>The end of the tokens\<close>

definition ends_once :: "ptoken list \<Rightarrow> bool" where
  "ends_once toks \<longleftrightarrow> toks \<noteq> [] \<and> pt_type (last toks) = TOK_EOF \<and>
     (\<forall>t \<in> set (butlast toks). pt_type t \<noteq> TOK_EOF)"

lemma ends_once_Nil [simp]: "\<not> ends_once []"
  by (simp add: ends_once_def)

lemma ends_once_Cons [simp]:
  "ends_once (t # ts) \<longleftrightarrow> (if ts = [] then pt_type t = TOK_EOF else pt_type t \<noteq> TOK_EOF \<and> ends_once ts)"
  by (auto simp: ends_once_def)

lemma ends_once_append:
  "\<forall>t \<in> set xs. pt_type t \<noteq> TOK_EOF \<Longrightarrow> ends_once ys \<Longrightarrow> ends_once (xs @ ys)"
  by (induction xs) auto

lemma ends_once_drop:
  assumes "ends_once ts" shows "drop n ts = [] \<or> ends_once (drop n ts)"
  using assms
proof (induction n arbitrary: ts)
  case (Suc n)
  then show ?case by (cases ts) (auto split: if_splits)
qed simp

subsection \<open>Aliases\<close>

definition piece_ok :: "alias_piece \<Rightarrow> bool" where
  "piece_ok p \<longleftrightarrow> fst p \<noteq> TOK_EOF"

definition alias_ok :: "unsafe_alias \<Rightarrow> bool" where
  "alias_ok a \<longleftrightarrow> list_all piece_ok (fst a) \<and> list_all piece_ok (snd a)"

lemma alias_pieces_ok:
  "alias_pieces ok stop ts = (ps, n, bad) \<Longrightarrow> (\<And>t. ok t \<Longrightarrow> t \<noteq> TOK_EOF) \<Longrightarrow> list_all piece_ok ps"
  by (induction ts arbitrary: ps n) (auto simp: piece_ok_def split: if_splits prod.splits)

lemma lhs_not_eof: "token_can_start_unsafe_alias_lhs t a \<Longrightarrow> t \<noteq> TOK_EOF"
  by (auto simp: token_can_start_unsafe_alias_lhs_def token_is_literal_type_def token_is_keyword_type_def
      token_is_operator_or_punct_def)

lemma rhs_not_eof: "token_can_start_unsafe_alias_rhs t a \<Longrightarrow> t \<noteq> TOK_EOF"
  by (auto simp: token_can_start_unsafe_alias_rhs_def token_is_literal_type_def token_is_keyword_type_def
      token_is_operator_or_punct_def)

lemmas lhs_pieces_ok = alias_pieces_ok [OF _ lhs_not_eof]
lemmas rhs_pieces_ok = alias_pieces_ok [OF _ rhs_not_eof]

lemma finish_alias_entry: "finish_alias toks e pos = Directive a q \<Longrightarrow> a = e"
  by (auto simp: finish_alias_def split: if_splits)

lemma read_token_alias_ok: "read_token_alias toks pos = Directive a q \<Longrightarrow> alias_ok a"
  by (auto simp: read_token_alias_def Let_def alias_ok_def split: prod.splits if_splits
      dest!: finish_alias_entry dest: lhs_pieces_ok rhs_pieces_ok)

lemma read_word_alias_ok: "read_word_alias toks pos = Directive a q \<Longrightarrow> alias_ok a"
  by (auto simp: read_word_alias_def Let_def alias_ok_def piece_ok_def split: if_splits
      dest!: finish_alias_entry lhs_not_eof rhs_not_eof)

lemma read_aliases_ok:
  "read_aliases toks pos = (es, q, had, r) \<Longrightarrow> list_all alias_ok es"
proof (induction toks pos arbitrary: es q had r rule: read_aliases.induct)
  case (1 toks pos)
  show ?case
  proof (cases "pos < length toks \<and> (\<exists>e p. read_alias toks pos = Directive e p)")
    case False
    then show ?thesis using "1.prems"
      by (subst (asm) read_aliases.simps) (auto split: if_splits alias_read.splits)
  next
    case True
    then obtain e p where e: "read_alias toks pos = Directive e p" and l: "\<not> length toks \<le> pos" by auto
    obtain es' q' had' r' where rest: "read_aliases toks p = (es', q', had', r')" by (metis prod_cases4)
    have "es = e # es'" using "1.prems" e l rest by (subst (asm) read_aliases.simps) simp
    moreover have "alias_ok e" using e read_token_alias_ok read_word_alias_ok
      by (auto simp: read_alias_def Let_def split: if_splits)
    ultimately show ?thesis using "1.IH" [OF l e rest] by simp
  qed
qed

lemma matched_not_eof:
  assumes "unsafe_alias_sequence_matches source ts" "list_all piece_ok source" "ends_once ts"
  shows "ends_once (drop (length source) ts)"
  using assms
proof (induction source arbitrary: ts)
  case (Cons p source)
  obtain t rest where ts: "ts = t # rest" using Cons.prems by (cases ts) auto
  have t: "pt_type t \<noteq> TOK_EOF"
    using Cons.prems ts by (auto simp: unsafe_alias_sequence_matches_def unsafe_alias_token_matches_def piece_ok_def)
  then have rest: "ends_once rest" using Cons.prems(3) ts by (auto split: if_splits)
  show ?case
  proof (cases "source = []")
    case True
    then show ?thesis using rest ts by simp
  next
    case False
    then have "unsafe_alias_sequence_matches source rest"
      using Cons.prems(1) ts by (simp add: unsafe_alias_sequence_matches_def)
    then show ?thesis using Cons.IH [OF _ _ rest] Cons.prems(2) ts by simp
  qed
qed (simp add: unsafe_alias_sequence_matches_def)

lemma alias_here_member:
  assumes "alias_here aliases ts = Some (source, target)"
  shows "unsafe_alias_sequence_matches source ts \<and> (source, target) \<in> set aliases"
proof -
  obtain i where "i < length (rev aliases)" "unsafe_alias_sequence_matches source ts"
    "rev aliases ! i = (source, target)"
    using assms by (auto simp del: length_rev simp: alias_here_def find_Some_iff)
  then show ?thesis using nth_mem [of i "rev aliases"] by simp
qed

lemma rewrite_ends_once:
  "list_all alias_ok aliases \<Longrightarrow> ends_once ts \<Longrightarrow> ends_once (rewrite_aliases aliases ts)"
proof (induction aliases ts rule: rewrite_aliases.induct)
  case (1 aliases ts)
  obtain t rest where ts: "ts = t # rest" using "1.prems" by (cases ts) auto
  show ?case
  proof (cases "alias_here aliases ts")
    case None
    then have eq: "rewrite_aliases aliases ts = t # rewrite_aliases aliases rest"
      using ts by (subst rewrite_aliases.simps) simp
    show ?thesis
    proof (cases "rest = []")
      case True
      then show ?thesis using "1.prems" ts eq by (simp add: rewrite_aliases.simps)
    next
      case False
      then have "ends_once rest" "pt_type t \<noteq> TOK_EOF" using "1.prems" ts by simp_all
      moreover from this(1) have "ends_once (rewrite_aliases aliases rest)"
        using "1.IH"(1) [OF ts] None "1.prems"(1) by blast
      ultimately show ?thesis unfolding eq by auto
    qed
  next
    case (Some a)
    obtain source target where a: "a = (source, target)" by fastforce
    have eq: "rewrite_aliases aliases ts =
        emit_unsafe_alias_target target t @ rewrite_aliases aliases (drop (length source) ts)"
      using ts Some a by (subst rewrite_aliases.simps) simp
    have m: "unsafe_alias_sequence_matches source ts" "(source, target) \<in> set aliases"
      using alias_here_member [of aliases ts] Some a by auto
    then have ok: "list_all piece_ok source" "list_all piece_ok target"
      using "1.prems"(1) by (auto simp: list_all_iff alias_ok_def)
    have "ends_once (drop (length source) ts)" by (rule matched_not_eof [OF m(1) ok(1) "1.prems"(2)])
    then have "ends_once (rewrite_aliases aliases (drop (length source) ts))"
      using "1.IH"(2) [OF ts Some] a "1.prems"(1) by blast
    then show ?thesis unfolding eq using ok(2)
      by (intro ends_once_append) (auto simp: emit_unsafe_alias_target_def list_all_iff piece_ok_def)
  qed
qed

lemma rewrite_nothing: "rewrite_aliases [] ts = ts"
proof (induction ts)
  case (Cons t ts)
  then show ?case by (subst rewrite_aliases.simps) (simp add: alias_here_def)
qed (simp add: rewrite_aliases.simps)

lemma preprocess_ends_once:
  assumes "ends_once toks"
  shows "ends_once (fst (preprocess_unsafe_aliases toks))"
proof -
  obtain es q had r where a: "read_aliases toks 0 = (es, q, had, r)" by (metis prod_cases4)
  let ?out = "rewrite_aliases es (drop q toks)"
  have ne: "toks \<noteq> []" using assms by auto
  have out: "fst (preprocess_unsafe_aliases toks) =
      (if ?out = [] \<or> pt_type (last ?out) \<noteq> TOK_EOF then ?out @ [last toks] else ?out)"
    using a ne by (simp add: preprocess_unsafe_aliases_def Let_def)
  from ends_once_drop [OF assms, of q] show ?thesis
  proof
    assume "drop q toks = []"
    then have "?out = []" by (simp add: rewrite_aliases.simps)
    then show ?thesis unfolding out using assms by (simp add: ends_once_def)
  next
    assume "ends_once (drop q toks)"
    then have "ends_once ?out" by (rule rewrite_ends_once [OF read_aliases_ok [OF a]])
    then show ?thesis unfolding out by (auto simp: ends_once_def)
  qed
qed

text \<open>The tokens of a source, with their texts.\<close>

definition token_text :: "string \<Rightarrow> token \<Rightarrow> ptoken" where
  "token_text src t = \<lparr> pt_type = tk_type t, pt_text = take (tk_length t) (drop (tk_start t) src),
     pt_line = int (tk_line t), pt_col = int (tk_col t) \<rparr>"

definition source_tokens :: "string \<Rightarrow> ptoken list" where
  "source_tokens src = map (token_text src) (lex_tokens (lex_init (Some src)))"

lemma lex_tokens_end_once: "ends_once (map (token_text src) (lex_tokens l))"
proof (induction l rule: lex_tokens.induct)
  case (1 l)
  obtain t l' where n: "lex_next l = (t, l')" by fastforce
  show ?case
  proof (cases "tk_type t = TOK_EOF")
    case True
    then show ?thesis using n by (subst lex_tokens.simps) (simp add: token_text_def)
  next
    case False
    then have "ends_once (map (token_text src) (lex_tokens l'))" using "1.IH" [OF n [symmetric]] by simp
    moreover from this have "lex_tokens l' \<noteq> []" by auto
    ultimately show ?thesis using n False by (subst lex_tokens.simps) (simp add: token_text_def)
  qed
qed

text \<open>
  C13: Whatever the source, the tokens that parsing starts from, after the unsafe aliases have
  rewritten them, end with an end-of-file token and have no other; and in a source that does not
  start with an alias directive they are the tokens of the lexer.
\<close>

theorem parser_tokens_end_once:
  "ends_once (fst (preprocess_unsafe_aliases (source_tokens src))) \<and>
   (read_alias (source_tokens src) 0 = No_Directive \<longrightarrow>
      preprocess_unsafe_aliases (source_tokens src) = (source_tokens src, False, None))"
proof -
  have e: "ends_once (source_tokens src)" unfolding source_tokens_def by (rule lex_tokens_end_once)
  then have "source_tokens src \<noteq> []" "pt_type (last (source_tokens src)) = TOK_EOF"
    by (auto simp: ends_once_def)
  then have "preprocess_unsafe_aliases (source_tokens src) = (source_tokens src, False, None)"
    if "read_alias (source_tokens src) 0 = No_Directive"
    using that by (simp add: preprocess_unsafe_aliases_def Let_def read_aliases.simps rewrite_nothing)
  then show ?thesis using preprocess_ends_once [OF e] by blast
qed

theorem parser_tokens_end_once_witness:
  "preprocess_unsafe_aliases (source_tokens ''x;'') = (source_tokens ''x;'', False, None) \<and>
   map pt_type (fst (preprocess_unsafe_aliases (source_tokens ''Unsafe Alias a By If; a''))) =
     [SK TOK_IF, TOK_EOF] \<and>
   ends_once (fst (preprocess_unsafe_aliases (source_tokens ''Unsafe Alias a By If; a'')))"
proof -
  have "read_alias (source_tokens ''x;'') 0 = No_Directive" by code_simp
  moreover have "map pt_type (fst (preprocess_unsafe_aliases (source_tokens ''Unsafe Alias a By If; a''))) =
      [SK TOK_IF, TOK_EOF]" by code_simp
  ultimately show ?thesis
    using parser_tokens_end_once [of "''x;''"] parser_tokens_end_once [of "''Unsafe Alias a By If; a''"]
    by blast
qed

subsection \<open>Recovery\<close>

text \<open>
  What the loops of the cursor keep: the tokens, and a position that moves forward and, once in the
  tokens, stays in them.
\<close>

definition forward :: "parser \<Rightarrow> parser \<Rightarrow> bool" where
  "forward p q \<longleftrightarrow> ps_toks q = ps_toks p \<and> ps_pos p \<le> ps_pos q \<and>
     ps_pos q \<le> max (ps_pos p) (length (ps_toks p) - 1)"

lemma forward_refl [simp, intro]: "forward p p"
  by (simp add: forward_def)


lemma forward_log [simp]: "forward (parse_error p r) q \<longleftrightarrow> forward p q" "forward p (parse_error q r) \<longleftrightarrow> forward p q"
  by (auto simp: forward_def parse_error_def)

lemma cur_log [simp]: "cur (parse_error p r) = cur p" "ps_toks (parse_error p r) = ps_toks p"
  by (simp_all add: cur_def peek_def parse_error_def)

lemma cur_alt: "cur p = (if ps_pos p < length (ps_toks p) then ps_toks p ! ps_pos p else ps_toks p ! (length (ps_toks p) - 1))"
proof -
  have "nat (int n - 1) = n - 1" for n by linarith
  then show ?thesis by (auto simp: cur_def peek_def Let_def)
qed




















subsection \<open>Long names\<close>

definition id_token :: "string \<Rightarrow> ptoken" where
  "id_token n = \<lparr> pt_type = TOK_ID, pt_text = n, pt_line = 1, pt_col = 1 \<rparr>"

definition dot_token :: ptoken where
  "dot_token = \<lparr> pt_type = PU TOK_DOT, pt_text = ''.'', pt_line = 1, pt_col = 1 \<rparr>"

fun dotted_tokens :: "string list \<Rightarrow> ptoken list" where
  "dotted_tokens [] = []"
| "dotted_tokens (n # ns) = dot_token # id_token n # dotted_tokens ns"

lemma cur_at: "ps_toks p = pre @ t # rest \<Longrightarrow> ps_pos p = length pre \<Longrightarrow> cur p = t"
  by (simp add: cur_alt)

lemma name_parts_read:
  "ps_toks p = pre @ dotted_tokens ns @ t # rest \<Longrightarrow> ps_pos p = length pre \<Longrightarrow> pt_type t \<noteq> PU TOK_DOT \<Longrightarrow>
     length parts \<le> 16 \<Longrightarrow>
     \<exists>q. name_parts parts p = Some (parts @ take (16 - length parts) ns, q) \<and>
       ps_toks q = ps_toks p \<and> ps_pos q = ps_pos p + 2 * length ns"
proof (induction ns arbitrary: p pre parts)
  case Nil
  then have "cur p = t" by (simp add: cur_at)
  then show ?case using Nil by (subst name_parts.simps) (simp add: match_tok_def)
next
  case (Cons n ns)
  have c: "cur p = dot_token" using Cons.prems by (simp add: cur_at [where pre = pre])
  have c2: "cur (step p) = id_token n"
    using Cons.prems by (intro cur_at [where pre = "pre @ [dot_token]"]) (simp_all add: step_def)
  let ?p = "step (step p)" and ?parts = "if length parts < 16 then parts @ [n] else parts"
  have "ps_toks ?p = (pre @ [dot_token, id_token n]) @ dotted_tokens ns @ t # rest"
    "ps_pos ?p = length (pre @ [dot_token, id_token n])"
    using Cons.prems by (simp_all add: step_def)
  note p = this
  have "length ?parts \<le> 16" using Cons.prems(4) by simp
  from Cons.IH [OF p Cons.prems(3) this]
  obtain q where "name_parts ?parts ?p = Some (?parts @ take (16 - length ?parts) ns, q)"
    "ps_toks q = ps_toks p" "ps_pos q = ps_pos p + 2 * length (n # ns)"
    by (auto simp: step_def)
  moreover have "?parts @ take (16 - length ?parts) ns = parts @ take (16 - length parts) (n # ns)"
    using Cons.prems(4) by (cases "length parts < 16") (auto simp: take_Cons')
  ultimately show ?case
    using c c2 by (subst name_parts.simps)
      (simp add: match_tok_def dot_token_def parse_name_token_def id_token_def Let_def)
qed

text \<open>
  A dotted type name is read whole, but only its first sixteen parts are kept: the rest is
  dropped without a message.
\<close>

lemma qualified_type_name_truncated:
  assumes "ps_toks p = pre @ id_token n # dotted_tokens ns @ t # rest" "ps_pos p = length pre"
    "pt_type t \<noteq> PU TOK_DOT"
  shows "\<exists>q. parse_qualified_type_name p = Some (dotted (take 16 (n # ns)), q) \<and>
    ps_pos q = ps_pos p + 1 + 2 * length ns"
proof -
  have c: "cur p = id_token n" using assms by (simp add: cur_at [where pre = pre])
  have s: "ps_toks (step p) = (pre @ [id_token n]) @ dotted_tokens ns @ t # rest"
    "ps_pos (step p) = length (pre @ [id_token n])" using assms by (simp_all add: step_def)
  from name_parts_read [OF s assms(3), of "[n]"] obtain q where
    "name_parts [n] (step p) = Some ([n] @ take 15 ns, q)" "ps_pos q = ps_pos (step p) + 2 * length ns"
    by auto
  then show ?thesis using c
    by (auto simp: parse_qualified_type_name_def parse_name_token_def id_token_def Let_def step_def
        take_Suc_Cons numeral_eq_Suc)
qed

text \<open>The names of the builtin types and the tokens of the type keywords agree.\<close>

lemma type_token_names_builtin: "builtin_type_kind (type_token_name (TY k)) \<noteq> TY_UNKNOWN"
  by (cases k; hypsubst; code_simp)

end
