(* ===== verification/FfiAbi.thy ===== *)
theory FfiAbi
  imports Ast
begin

text \<open>
  The classification of the types that may cross the foreign boundary,
  \<open>apps/kinal/src/kn_ffi_abi.c\<close>.
\<close>

datatype abi_kind = KN_FFI_ABI_INVALID | KN_FFI_ABI_VOID | KN_FFI_ABI_INTEGER | KN_FFI_ABI_FLOAT
  | KN_FFI_ABI_POINTER

record ffi_abi_type =
  ab_kind :: abi_kind
  ab_bits :: int
  ab_signed :: bool
  ab_bool :: bool

definition abi_type :: "abi_kind \<Rightarrow> int \<Rightarrow> bool \<Rightarrow> bool \<Rightarrow> ffi_abi_type" where
  "abi_type k bits is_signed is_bool =
     \<lparr> ab_kind = k, ab_bits = bits, ab_signed = is_signed, ab_bool = is_bool \<rparr>"

definition kn_ffi_abi_type :: "ty \<Rightarrow> int \<Rightarrow> ffi_abi_type" where
  "kn_ffi_abi_type t target_pointer_bits =
     (let pointer_bits = (if target_pointer_bits = 32 then 32 else 64)
      in case ty_kind t of
           TY_VOID \<Rightarrow> abi_type KN_FFI_ABI_VOID 0 False False
         | TY_BOOL \<Rightarrow> abi_type KN_FFI_ABI_INTEGER 32 False True
         | TY_BYTE \<Rightarrow> abi_type KN_FFI_ABI_INTEGER 8 False False
         | TY_CHAR \<Rightarrow> abi_type KN_FFI_ABI_INTEGER 8 False False
         | TY_U8 \<Rightarrow> abi_type KN_FFI_ABI_INTEGER 8 False False
         | TY_I8 \<Rightarrow> abi_type KN_FFI_ABI_INTEGER 8 True False
         | TY_U16 \<Rightarrow> abi_type KN_FFI_ABI_INTEGER 16 False False
         | TY_I16 \<Rightarrow> abi_type KN_FFI_ABI_INTEGER 16 True False
         | TY_U32 \<Rightarrow> abi_type KN_FFI_ABI_INTEGER 32 False False
         | TY_INT \<Rightarrow> abi_type KN_FFI_ABI_INTEGER 32 True False
         | TY_I32 \<Rightarrow> abi_type KN_FFI_ABI_INTEGER 32 True False
         | TY_U64 \<Rightarrow> abi_type KN_FFI_ABI_INTEGER 64 False False
         | TY_I64 \<Rightarrow> abi_type KN_FFI_ABI_INTEGER 64 True False
         | TY_ISIZE \<Rightarrow> abi_type KN_FFI_ABI_INTEGER pointer_bits True False
         | TY_USIZE \<Rightarrow> abi_type KN_FFI_ABI_INTEGER pointer_bits False False
         | TY_F32 \<Rightarrow> abi_type KN_FFI_ABI_FLOAT 32 True False
         | TY_FLOAT \<Rightarrow> abi_type KN_FFI_ABI_FLOAT 64 True False
         | TY_F64 \<Rightarrow> abi_type KN_FFI_ABI_FLOAT 64 True False
         | TY_STRING \<Rightarrow> abi_type KN_FFI_ABI_POINTER pointer_bits False False
         | TY_PTR \<Rightarrow> abi_type KN_FFI_ABI_POINTER pointer_bits False False
         | TY_ARRAY \<Rightarrow> abi_type KN_FFI_ABI_POINTER pointer_bits False False
         | _ \<Rightarrow> abi_type KN_FFI_ABI_INVALID 0 False False)"

definition kn_ffi_abi_type_supported :: "ty \<Rightarrow> int \<Rightarrow> bool" where
  "kn_ffi_abi_type_supported t target_pointer_bits \<longleftrightarrow>
     ab_kind (kn_ffi_abi_type t target_pointer_bits) \<noteq> KN_FFI_ABI_INVALID"

text \<open>
  A supported type has a width exactly when it is not void, and the width is one the targets have:
  8, 16, 32 or 64 bits, the target's own for what points.
\<close>

lemma ffi_abi_widths:
  assumes "kn_ffi_abi_type_supported t bits"
  shows "ab_kind (kn_ffi_abi_type t bits) = KN_FFI_ABI_VOID \<and> ab_bits (kn_ffi_abi_type t bits) = 0 \<or>
    ab_bits (kn_ffi_abi_type t bits) \<in> {8, 16, 32, 64} \<and>
    (ab_kind (kn_ffi_abi_type t bits) = KN_FFI_ABI_POINTER \<longrightarrow>
       ab_bits (kn_ffi_abi_type t bits) = (if bits = 32 then 32 else 64))"
  using assms
  by (cases "ty_kind t") (simp_all add: kn_ffi_abi_type_supported_def kn_ffi_abi_type_def abi_type_def Let_def)

end
