(* ===== verification/Builtins.thy ===== *)
theory Builtins
  imports StdTable
begin

text \<open>
  The classes the compiler adds to every program, \<open>apps/kinal/src/kn_builtins.c\<close>. Access levels and
  the sealed flag, which only the checker reads, are not part of the declarations of \<open>Ast\<close>.
  \<open>node\<close> gives the addresses of the nodes allocated on the way, in their order.
\<close>

subsection \<open>Model\<close>

definition dup_str :: "amem \<Rightarrow> string \<Rightarrow> cstr" where
  "dup_str m s = (if m (length s + 1) then Some s else None)"

definition class_exists :: "class_decl list \<Rightarrow> cstr \<Rightarrow> bool" where
  "class_exists classes name \<longleftrightarrow>
     name \<noteq> None \<and>
     list_ex (\<lambda>c. kn_strcmp (cd_name c) name = 0 \<or> (cd_qname c \<noteq> None \<and> kn_strcmp (cd_qname c) name = 0)) classes"

text \<open>Adds a class unless one of its name is there.\<close>

definition inject :: "string \<Rightarrow> class_decl \<Rightarrow> class_decl list \<Rightarrow> class_decl list" where
  "inject name c classes = (if class_exists classes (Some name) then classes else classes @ [c])"

definition blank_class :: "amem \<Rightarrow> string \<Rightarrow> cstr \<Rightarrow> string \<Rightarrow> class_decl" where
  "blank_class m name base unit = \<lparr> cd_name = dup_str m name, cd_qname = None, cd_base = base,
     cd_interfaces = [], cd_fields = [], cd_methods = [], cd_unit = dup_str m unit \<rparr>"

abbreviation object_base :: "amem \<Rightarrow> cstr" where
  "object_base m \<equiv> dup_str m ''IO.Type.Object.Class''"

definition plain_field :: "amem \<Rightarrow> string \<Rightarrow> ty \<Rightarrow> field_decl" where
  "plain_field m name t = \<lparr> fd_name = dup_str m name, fd_type = t, fd_init = None, fd_is_static = False \<rparr>"

definition object_root_class :: "amem \<Rightarrow> class_decl" where
  "object_root_class m =
     (blank_class m ''IO.Type.Object.Class'' None ''IO.Type.Object'')"

definition inject_builtin_object_class :: "amem \<Rightarrow> class_decl list \<Rightarrow> class_decl list" where
  "inject_builtin_object_class m = inject ''IO.Type.Object.Class'' (object_root_class m)"

definition invoke_fields :: "amem \<Rightarrow> field_decl list" where
  "invoke_fields m = [plain_field m ''Invoke'' (type_ptr TY_BYTE), plain_field m ''Env'' (type_ptr TY_BYTE)]"

definition object_function_class :: "amem \<Rightarrow> class_decl" where
  "object_function_class m =
     ((blank_class m ''IO.Type.Object.Function'' (object_base m) ''IO.Type.Object'')\<lparr> cd_fields := invoke_fields m \<rparr>)"

definition inject_builtin_object_function :: "amem \<Rightarrow> class_decl list \<Rightarrow> class_decl list" where
  "inject_builtin_object_function m = inject ''IO.Type.Object.Function'' (object_function_class m)"

definition object_block_class :: "amem \<Rightarrow> class_decl" where
  "object_block_class m =
     ((blank_class m ''IO.Type.Object.Block'' (object_base m) ''IO.Type.Object'')\<lparr> cd_fields := invoke_fields m \<rparr>)"

definition inject_builtin_object_block :: "amem \<Rightarrow> class_decl list \<Rightarrow> class_decl list" where
  "inject_builtin_object_block m = inject ''IO.Type.Object.Block'' (object_block_class m)"

text \<open>The statement \<open>This.field = value\<close> of the constructor; \<open>k\<close> numbers its first node.\<close>

definition assign_field :: "(nat \<Rightarrow> nat) \<Rightarrow> nat \<Rightarrow> string \<Rightarrow> (expr_info \<Rightarrow> expr) \<Rightarrow> stmt" where
  "assign_field node k field value =
     SExpr (node (k + 4)) (Some (EAssign (new_expr (node (k + 3)) 1 1)
       (Some (EMember (new_expr (node k) 1 1) (Some (EThis (new_expr (node (k + 1)) 1 1))) (Some field)
          False None (-1) None False 0 None))
       (Some (value (new_expr (node (k + 2)) 1 1))) False))"

definition error_constructor :: "amem \<Rightarrow> (nat \<Rightarrow> nat) \<Rightarrow> method_decl" where
  "error_constructor m node =
     \<lparr> md_name = Some ''Constructor'', md_ret_type = type_make TY_VOID,
       md_params = [Param (node 0) (dup_str m ''title'') (type_make TY_STRING) None False,
         Param (node 1) (dup_str m ''message'') (type_make TY_STRING) None False],
       md_body = Some (SBlock (node 2) [
         Some (assign_field node 3 ''Title'' (\<lambda>i. EVar i (Some ''title''))),
         Some (assign_field node 8 ''Message'' (\<lambda>i. EVar i (Some ''message''))),
         Some (assign_field node 13 ''Trace'' (\<lambda>i. EString i (Some [])))]),
       md_is_static = False, md_is_virtual = False, md_is_override = False, md_is_abstract = False,
       md_is_constructor = True \<rparr>"

definition io_error_class :: "amem \<Rightarrow> (nat \<Rightarrow> nat) \<Rightarrow> class_decl" where
  "io_error_class m node =
     ((blank_class m ''IO.Error'' (object_base m) ''IO'')\<lparr>
          cd_fields := [plain_field m ''Title'' (type_make TY_STRING), plain_field m ''Message'' (type_make TY_STRING),
            plain_field m ''Inner'' (type_class_of (Some ''IO.Error'')), plain_field m ''Trace'' (type_make TY_STRING)],
          cd_methods := [error_constructor m node] \<rparr>)"

definition inject_builtin_io_error :: "amem \<Rightarrow> (nat \<Rightarrow> nat) \<Rightarrow> class_decl list \<Rightarrow> class_decl list" where
  "inject_builtin_io_error m node = inject ''IO.Error'' (io_error_class m node)"

definition io_time_datetime_class :: "amem \<Rightarrow> class_decl" where
  "io_time_datetime_class m =
     ((blank_class m ''IO.Time.DateTime'' None ''IO.Time'')\<lparr>
          cd_fields := map (\<lambda>n. plain_field m n (type_make TY_INT))
            [''Ticks'', ''Year'', ''Month'', ''Day'', ''Hour'', ''Minute'', ''Second'', ''Millisecond''] \<rparr>)"

definition inject_builtin_io_time_datetime :: "amem \<Rightarrow> class_decl list \<Rightarrow> class_decl list" where
  "inject_builtin_io_time_datetime m = inject ''IO.Time.DateTime'' (io_time_datetime_class m)"

definition io_collection_dict_class :: "amem \<Rightarrow> class_decl" where
  "io_collection_dict_class m =
     (blank_class m ''IO.Collection.dict'' (object_base m) ''IO.Collection'')"

definition inject_builtin_io_collection_dict :: "amem \<Rightarrow> class_decl list \<Rightarrow> class_decl list" where
  "inject_builtin_io_collection_dict m = inject ''IO.Collection.dict'' (io_collection_dict_class m)"

definition io_collection_list_class :: "amem \<Rightarrow> class_decl" where
  "io_collection_list_class m =
     (blank_class m ''IO.Collection.list'' (object_base m) ''IO.Collection'')"

definition inject_builtin_io_collection_list :: "amem \<Rightarrow> class_decl list \<Rightarrow> class_decl list" where
  "inject_builtin_io_collection_list m = inject ''IO.Collection.list'' (io_collection_list_class m)"

definition io_collection_set_class :: "amem \<Rightarrow> class_decl" where
  "io_collection_set_class m =
     (blank_class m ''IO.Collection.set'' (object_base m) ''IO.Collection'')"

definition inject_builtin_io_collection_set :: "amem \<Rightarrow> class_decl list \<Rightarrow> class_decl list" where
  "inject_builtin_io_collection_set m = inject ''IO.Collection.set'' (io_collection_set_class m)"

definition io_async_task_class :: "amem \<Rightarrow> class_decl" where
  "io_async_task_class m =
     (blank_class m ''IO.Async.Task'' (object_base m) ''IO.Async'')"

definition inject_builtin_io_async_task :: "amem \<Rightarrow> class_decl list \<Rightarrow> class_decl list" where
  "inject_builtin_io_async_task m = inject ''IO.Async.Task'' (io_async_task_class m)"

text \<open>The profile says which builtins, and so which of their classes, a program can use.\<close>

definition kn_inject_builtins :: "amem \<Rightarrow> (nat \<Rightarrow> nat) \<Rightarrow> int \<Rightarrow> class_decl list \<Rightarrow> class_decl list" where
  "kn_inject_builtins m node profile classes =
     (let allow = (\<lambda>kind f cs. if kn_std_builtin_allowed profile kind then f cs else cs);
          cs = inject_builtin_object_class m classes;
          cs = inject_builtin_object_function m cs;
          cs = inject_builtin_object_block m cs;
          cs = allow KN_BUILTIN_IO_ERROR_CURRENT (inject_builtin_io_error m node) cs;
          cs = allow KN_BUILTIN_IO_TIME_NOW (inject_builtin_io_time_datetime m) cs;
          cs = allow KN_BUILTIN_IO_DICT_NEW (inject_builtin_io_collection_dict m) cs;
          cs = allow KN_BUILTIN_IO_LIST_NEW (inject_builtin_io_collection_list m) cs;
          cs = allow KN_BUILTIN_IO_SET_NEW (inject_builtin_io_collection_set m) cs
      in allow KN_BUILTIN_IO_ASYNC_RUN (inject_builtin_io_async_task m) cs)"

subsection \<open>What is added\<close>

lemma class_exists_append: "class_exists (xs @ ys) n \<longleftrightarrow> class_exists xs n \<or> class_exists ys n"
  by (auto simp: class_exists_def)

lemma strcmp_refl: "kn_strcmp a a = 0"
proof -
  have "strncmp_loop s s n = 0" for s n
    by (induction n arbitrary: s) (auto simp: Let_def)
  then show ?thesis by (cases a) (auto simp: kn_strcmp_def kn_strncmp_def Let_def)
qed

text \<open>A step of the injection: whether it applies, the name, and the class, which has that name.\<close>

definition inject_step :: "bool \<times> string \<times> class_decl \<Rightarrow> class_decl list \<Rightarrow> class_decl list" where
  "inject_step = (\<lambda>(allowed, name, c) cs. if allowed then inject name c cs else cs)"

definition named_step :: "bool \<times> string \<times> class_decl \<Rightarrow> bool" where
  "named_step = (\<lambda>(_, name, c). cd_name c = Some name)"

lemma inject_step_adds:
  assumes "named_step s"
  shows "\<exists>new. inject_step s cs = cs @ new \<and> (\<forall>c \<in> set new. \<not> class_exists cs (cd_name c))"
    "fst s \<Longrightarrow> class_exists (inject_step s cs) (Some (fst (snd s)))"
  using assms strcmp_refl
  by (auto simp: inject_step_def named_step_def inject_def class_exists_append split: prod.splits)
    (auto simp: class_exists_def)

lemma inject_steps_add:
  assumes "list_all named_step ss"
  shows "(\<exists>new. fold inject_step ss cs = cs @ new \<and> (\<forall>c \<in> set new. \<not> class_exists cs (cd_name c))) \<and>
    (\<forall>s \<in> set ss. fst s \<longrightarrow> class_exists (fold inject_step ss cs) (Some (fst (snd s))))"
  using assms
proof (induction ss arbitrary: cs)
  case (Cons s ss)
  obtain new where n: "inject_step s cs = cs @ new" "\<forall>c \<in> set new. \<not> class_exists cs (cd_name c)"
    using inject_step_adds(1) [of s cs] Cons.prems by auto
  obtain new' where n': "fold inject_step ss (inject_step s cs) = inject_step s cs @ new'"
    "\<forall>c \<in> set new'. \<not> class_exists (inject_step s cs) (cd_name c)"
    using Cons.IH [of "inject_step s cs"] Cons.prems by auto
  have "\<exists>new. fold inject_step (s # ss) cs = cs @ new \<and> (\<forall>c \<in> set new. \<not> class_exists cs (cd_name c))"
    using n n' by (intro exI [of _ "new @ new'"]) (auto simp: class_exists_append)
  moreover have "fst s \<longrightarrow> class_exists (fold inject_step (s # ss) cs) (Some (fst (snd s)))"
    using inject_step_adds(2) [of s cs] Cons.prems n' by (auto simp: class_exists_append)
  ultimately show ?case using Cons.IH [of "inject_step s cs"] Cons.prems by auto
qed simp

lemma inject_steps_present:
  "\<forall>s \<in> set ss. fst s \<longrightarrow> class_exists cs (Some (fst (snd s))) \<Longrightarrow> fold inject_step ss cs = cs"
  by (induction ss) (auto simp: inject_step_def inject_def split: prod.splits)

text \<open>The names and the builtins that bring them, in the order of the code.\<close>

definition injected_classes :: "int \<Rightarrow> (bool \<times> string) list" where
  "injected_classes profile =
     [(True, ''IO.Type.Object.Class''), (True, ''IO.Type.Object.Function''), (True, ''IO.Type.Object.Block''),
      (kn_std_builtin_allowed profile KN_BUILTIN_IO_ERROR_CURRENT, ''IO.Error''),
      (kn_std_builtin_allowed profile KN_BUILTIN_IO_TIME_NOW, ''IO.Time.DateTime''),
      (kn_std_builtin_allowed profile KN_BUILTIN_IO_DICT_NEW, ''IO.Collection.dict''),
      (kn_std_builtin_allowed profile KN_BUILTIN_IO_LIST_NEW, ''IO.Collection.list''),
      (kn_std_builtin_allowed profile KN_BUILTIN_IO_SET_NEW, ''IO.Collection.set''),
      (kn_std_builtin_allowed profile KN_BUILTIN_IO_ASYNC_RUN, ''IO.Async.Task'')]"

definition injection_steps :: "(nat \<Rightarrow> nat) \<Rightarrow> int \<Rightarrow> (bool \<times> string \<times> class_decl) list" where
  "injection_steps node profile =
     [(True, ''IO.Type.Object.Class'', object_root_class big_mem),
      (True, ''IO.Type.Object.Function'', object_function_class big_mem),
      (True, ''IO.Type.Object.Block'', object_block_class big_mem),
      (kn_std_builtin_allowed profile KN_BUILTIN_IO_ERROR_CURRENT, ''IO.Error'', io_error_class big_mem node),
      (kn_std_builtin_allowed profile KN_BUILTIN_IO_TIME_NOW, ''IO.Time.DateTime'', io_time_datetime_class big_mem),
      (kn_std_builtin_allowed profile KN_BUILTIN_IO_DICT_NEW, ''IO.Collection.dict'', io_collection_dict_class big_mem),
      (kn_std_builtin_allowed profile KN_BUILTIN_IO_LIST_NEW, ''IO.Collection.list'', io_collection_list_class big_mem),
      (kn_std_builtin_allowed profile KN_BUILTIN_IO_SET_NEW, ''IO.Collection.set'', io_collection_set_class big_mem),
      (kn_std_builtin_allowed profile KN_BUILTIN_IO_ASYNC_RUN, ''IO.Async.Task'', io_async_task_class big_mem)]"

lemma kn_inject_steps: "kn_inject_builtins big_mem node profile cs = fold inject_step (injection_steps node profile) cs"
  by (simp add: kn_inject_builtins_def injection_steps_def inject_step_def Let_def
      inject_builtin_object_class_def inject_builtin_object_function_def inject_builtin_object_block_def inject_builtin_io_error_def inject_builtin_io_time_datetime_def inject_builtin_io_collection_dict_def inject_builtin_io_collection_list_def inject_builtin_io_collection_set_def inject_builtin_io_async_task_def)

lemma injection_steps_named: "list_all named_step (injection_steps node profile)"
  by (simp add: injection_steps_def named_step_def blank_class_def dup_str_def
      object_root_class_def object_function_class_def object_block_class_def io_error_class_def io_time_datetime_class_def io_collection_dict_class_def io_collection_list_class_def io_collection_set_class_def io_async_task_class_def)

lemma injection_names:
  "(\<forall>s \<in> set (injection_steps node profile). fst s \<longrightarrow> P (Some (fst (snd s)))) \<longleftrightarrow>
   (\<forall>(allowed, name) \<in> set (injected_classes profile). allowed \<longrightarrow> P (Some name))"
proof -
  have "map (\<lambda>s. (fst s, fst (snd s))) (injection_steps node profile) = injected_classes profile"
    by (simp add: injection_steps_def injected_classes_def)
  moreover have "(\<forall>s \<in> set ss. fst s \<longrightarrow> P (Some (fst (snd s)))) \<longleftrightarrow>
      (\<forall>(allowed, name) \<in> set (map (\<lambda>s. (fst s, fst (snd s))) ss). allowed \<longrightarrow> P (Some name))"
    for ss :: "(bool \<times> string \<times> class_decl) list"
    by simp
  ultimately show ?thesis by (simp only:)
qed

text \<open>
  C15: Adding the builtin classes leaves the declarations of the program in place, in front; adds
  only classes whose names were free; leaves every class of the profile declared; and adds nothing
  the second time.
\<close>

theorem builtins_injected:
  "(\<exists>added. kn_inject_builtins big_mem node profile cs = cs @ added \<and>
      (\<forall>c \<in> set added. \<not> class_exists cs (cd_name c))) \<and>
   (\<forall>(allowed, name) \<in> set (injected_classes profile).
      allowed \<longrightarrow> class_exists (kn_inject_builtins big_mem node profile cs) (Some name)) \<and>
   kn_inject_builtins big_mem node' profile (kn_inject_builtins big_mem node profile cs) =
     kn_inject_builtins big_mem node profile cs"
proof -
  note all = inject_steps_add [OF injection_steps_named [of node profile], of cs, folded kn_inject_steps]
  note present = conjunct2 [OF all, unfolded injection_names]
  have "kn_inject_builtins big_mem node' profile (kn_inject_builtins big_mem node profile cs) =
      kn_inject_builtins big_mem node profile cs"
    unfolding kn_inject_steps [of node']
    by (rule inject_steps_present [OF injection_names [THEN iffD2, OF present]])
  with all present show ?thesis by (simp only: simp_thms)
qed

theorem builtins_injected_witness:
  "length (kn_inject_builtins big_mem id KN_STD_PROFILE_HOSTED []) = 9 \<and>
   kn_inject_builtins big_mem id KN_STD_PROFILE_HOSTED (kn_inject_builtins big_mem id KN_STD_PROFILE_HOSTED []) =
     kn_inject_builtins big_mem id KN_STD_PROFILE_HOSTED [] \<and>
   class_exists (kn_inject_builtins big_mem id KN_STD_PROFILE_HOSTED []) (Some ''IO.Error'')"
proof -
  have "length (kn_inject_builtins big_mem id KN_STD_PROFILE_HOSTED []) = 9" by code_simp
  moreover have "(True, ''IO.Error'') \<in> set (injected_classes KN_STD_PROFILE_HOSTED)"
    by (simp add: injected_classes_def allowed_hosted)
  ultimately show ?thesis
    using bspec [OF conjunct1 [OF conjunct2 [OF builtins_injected [of id KN_STD_PROFILE_HOSTED "[]" id]]],
        of "(True, ''IO.Error'')"]
      conjunct2 [OF conjunct2 [OF builtins_injected [of id KN_STD_PROFILE_HOSTED "[]" id]]]
    by (simp only: prod.case simp_thms)
qed

end
