(* ===== verification/Session.thy ===== *)
theory Session
  imports Util StdTable
begin

text \<open>
  Compile sessions, \<open>apps/kinal/src/kn_session.c\<close>: a session owns a diagnostic context and a
  temporary arena, which entering it makes the current ones of the thread together with its
  library profile, and leaving it takes back. The contexts and arenas are named by pointers; the
  arenas are those of \<open>Util\<close>.
\<close>

subsection \<open>Model\<close>

datatype pointer = Null | Default_Context | Context nat

record session =
  ss_diagnostics :: pointer
  ss_previous_diagnostics :: pointer
  ss_temp_arena :: pointer
  ss_previous_temp_arena :: pointer
  ss_target_triple :: cstr
  ss_target_pointer_bits :: int
  ss_environment_kind :: int
  ss_runtime_mode :: int
  ss_std_profile :: int
  ss_previous_std_profile :: int
  ss_enter_depth :: int

record session_config =
  sc_target_triple :: cstr
  sc_target_pointer_bits :: int
  sc_environment_kind :: int
  sc_runtime_mode :: int

text \<open>The variables of a thread, with its arenas and the sessions it knows.\<close>

record thread =
  th_current_context :: pointer
  th_current_temp_arena :: pointer
  th_std_profile :: int
  th_arenas :: "pointer \<Rightarrow> temp_arena"
  th_sessions :: "nat \<Rightarrow> session option"

abbreviation (input) "KN_ENV_HOSTED \<equiv> (0 :: int)"
abbreviation (input) "KN_RUNTIME_NONE \<equiv> (0 :: int)"
abbreviation (input) "KN_RUNTIME_ALLOC \<equiv> (1 :: int)"
abbreviation (input) "KN_RUNTIME_GC \<equiv> (2 :: int)"

definition or_default :: "pointer \<Rightarrow> pointer" where
  "or_default p = (if p = Null then Default_Context else p)"

definition diag_context :: "thread \<Rightarrow> pointer" where
  "diag_context t = or_default (th_current_context t)"

definition kn_diag_context_set_current :: "pointer \<Rightarrow> thread \<Rightarrow> pointer \<times> thread" where
  "kn_diag_context_set_current c t = (diag_context t, t\<lparr> th_current_context := or_default c \<rparr>)"

definition temp_arena_context :: "thread \<Rightarrow> pointer" where
  "temp_arena_context t = or_default (th_current_temp_arena t)"

definition kn_temp_arena_set_current :: "pointer \<Rightarrow> thread \<Rightarrow> pointer \<times> thread" where
  "kn_temp_arena_set_current a t = (temp_arena_context t, t\<lparr> th_current_temp_arena := or_default a \<rparr>)"

definition on_arena :: "(temp_arena \<Rightarrow> temp_arena) \<Rightarrow> thread \<Rightarrow> thread" where
  "on_arena f t = t\<lparr> th_arenas := (th_arenas t)(temp_arena_context t := f (th_arenas t (temp_arena_context t))) \<rparr>"

definition set_profile :: "int \<Rightarrow> thread \<Rightarrow> thread" where
  "set_profile p t = t\<lparr> th_std_profile := kn_std_set_profile p \<rparr>"

definition session_copy_string :: "amem \<Rightarrow> cstr \<Rightarrow> cstr" where
  "session_copy_string m s =
     (case s of None \<Rightarrow> None | Some v \<Rightarrow> if v = [] then None else if m (length v + 1) then Some v else None)"

definition config_profile :: "session_config \<Rightarrow> int \<Rightarrow> int" where
  "config_profile c profile =
     (if sc_environment_kind c = KN_ENV_HOSTED then KN_STD_PROFILE_HOSTED
      else if sc_runtime_mode c = KN_RUNTIME_NONE then KN_STD_PROFILE_FREESTANDING_CORE
      else if sc_runtime_mode c = KN_RUNTIME_ALLOC then KN_STD_PROFILE_FREESTANDING_ALLOC
      else if sc_runtime_mode c = KN_RUNTIME_GC then KN_STD_PROFILE_FREESTANDING_GC
      else profile)"

text \<open>
  The results of creating the diagnostic context and the arena, null when there is no memory, are
  arguments, as is the profile of the thread; a session takes 64 bytes.
\<close>

definition kn_compile_session_create ::
  "amem \<Rightarrow> pointer \<Rightarrow> pointer \<Rightarrow> int \<Rightarrow> session_config option \<Rightarrow> session option" where
  "kn_compile_session_create m diagnostics arena profile config =
     (if \<not> m 64 \<or> diagnostics = Null \<or> arena = Null then None
      else let s = \<lparr> ss_diagnostics = diagnostics, ss_previous_diagnostics = Null, ss_temp_arena = arena,
             ss_previous_temp_arena = Null, ss_target_triple = None, ss_target_pointer_bits = 0,
             ss_environment_kind = -1, ss_runtime_mode = -1, ss_std_profile = profile,
             ss_previous_std_profile = 0, ss_enter_depth = 0 \<rparr>
      in case config of None \<Rightarrow> Some s
         | Some c \<Rightarrow>
           let triple = session_copy_string m (sc_target_triple c)
           in if sc_target_triple c \<noteq> None \<and> sc_target_triple c \<noteq> Some [] \<and> triple = None then None
              else Some (s\<lparr> ss_target_pointer_bits := sc_target_pointer_bits c,
                ss_environment_kind := sc_environment_kind c, ss_runtime_mode := sc_runtime_mode c,
                ss_std_profile := config_profile c profile, ss_target_triple := triple \<rparr>))"

definition put_session :: "nat \<Rightarrow> session \<Rightarrow> thread \<Rightarrow> thread" where
  "put_session i s t = t\<lparr> th_sessions := (th_sessions t)(i \<mapsto> s) \<rparr>"

definition kn_compile_session_enter :: "nat \<Rightarrow> thread \<Rightarrow> thread" where
  "kn_compile_session_enter i t =
     (case th_sessions t i of None \<Rightarrow> t
      | Some s \<Rightarrow>
        let (s, t) =
          (if ss_enter_depth s = 0
           then let (diag, t) = kn_diag_context_set_current (ss_diagnostics s) t;
                    (arena, t) = kn_temp_arena_set_current (ss_temp_arena s) t;
                    t = on_arena temp_arena_begin t;
                    s = s\<lparr> ss_previous_diagnostics := diag, ss_previous_temp_arena := arena,
                      ss_previous_std_profile := th_std_profile t \<rparr>
                in (s, set_profile (ss_std_profile s) t)
           else (s, t))
        in put_session i (s\<lparr> ss_enter_depth := ss_enter_depth s + 1 \<rparr>) t)"

definition kn_compile_session_leave :: "nat \<Rightarrow> thread \<Rightarrow> thread" where
  "kn_compile_session_leave i t =
     (case th_sessions t i of None \<Rightarrow> t
      | Some s \<Rightarrow>
        if ss_enter_depth s \<le> 0 then t
        else let s = s\<lparr> ss_enter_depth := ss_enter_depth s - 1 \<rparr>
        in if ss_enter_depth s = 0
           then let s = s\<lparr> ss_std_profile := th_std_profile t \<rparr>;
                    t = set_profile (ss_previous_std_profile s) t;
                    t = on_arena temp_arena_end t;
                    (_, t) = kn_temp_arena_set_current (ss_previous_temp_arena s) t;
                    (_, t) = kn_diag_context_set_current (ss_previous_diagnostics s) t
                in put_session i (s\<lparr> ss_previous_temp_arena := Null, ss_previous_diagnostics := Null \<rparr>) t
           else put_session i s t)"

definition kn_temp_arena_destroy :: "pointer \<Rightarrow> thread \<Rightarrow> thread" where
  "kn_temp_arena_destroy a t =
     (if a = Null \<or> a = Default_Context then t
      else (if temp_arena_context t = a then t\<lparr> th_current_temp_arena := Default_Context \<rparr> else t)
        \<lparr> th_arenas := (th_arenas t)(a := \<lparr> ta_active = False, ta_blocks = [], ta_cur = None \<rparr>) \<rparr>)"

definition kn_diag_context_destroy :: "pointer \<Rightarrow> thread \<Rightarrow> thread" where
  "kn_diag_context_destroy c t =
     (if c = Null \<or> c = Default_Context then t
      else if diag_context t = c then t\<lparr> th_current_context := Default_Context \<rparr> else t)"

definition kn_compile_session_destroy :: "nat \<Rightarrow> thread \<Rightarrow> thread" where
  "kn_compile_session_destroy i t =
     (case th_sessions t i of None \<Rightarrow> t
      | Some s \<Rightarrow>
        let t = (kn_compile_session_leave i ^^ nat (ss_enter_depth s)) t;
            t = kn_temp_arena_destroy (ss_temp_arena s) (kn_diag_context_destroy (ss_diagnostics s) t)
        in t\<lparr> th_sessions := (th_sessions t)(i := None) \<rparr>)"

definition kn_compile_session_target_triple :: "session option \<Rightarrow> string" where
  "kn_compile_session_target_triple s = (case s of None \<Rightarrow> [] | Some s \<Rightarrow> (case ss_target_triple s of None \<Rightarrow> [] | Some v \<Rightarrow> v))"

definition kn_compile_session_diagnostics :: "session option \<Rightarrow> pointer" where
  "kn_compile_session_diagnostics s = (case s of None \<Rightarrow> Null | Some s \<Rightarrow> ss_diagnostics s)"

definition kn_compile_session_target_pointer_bits :: "session option \<Rightarrow> int" where
  "kn_compile_session_target_pointer_bits s = (case s of None \<Rightarrow> 0 | Some s \<Rightarrow> ss_target_pointer_bits s)"

definition kn_compile_session_environment_kind :: "session option \<Rightarrow> int" where
  "kn_compile_session_environment_kind s = (case s of None \<Rightarrow> -1 | Some s \<Rightarrow> ss_environment_kind s)"

definition kn_compile_session_runtime_mode :: "session option \<Rightarrow> int" where
  "kn_compile_session_runtime_mode s = (case s of None \<Rightarrow> -1 | Some s \<Rightarrow> ss_runtime_mode s)"

text \<open>What the code between the calls does to a thread: it changes the profile and allocates.\<close>

definition kn_malloc :: "amem \<Rightarrow> nat \<Rightarrow> thread \<Rightarrow> thread" where
  "kn_malloc m n t =
     (if ta_active (th_arenas t (temp_arena_context t)) then on_arena (\<lambda>a. fst (temp_arena_alloc m a n)) t else t)"

datatype call = Enter nat | Leave nat | Profile int | Malloc nat

primrec perform :: "amem \<Rightarrow> call \<Rightarrow> thread \<Rightarrow> thread" where
  "perform m (Enter i) = kn_compile_session_enter i"
| "perform m (Leave i) = kn_compile_session_leave i"
| "perform m (Profile p) = set_profile p"
| "perform m (Malloc n) = kn_malloc m n"

subsection \<open>Nesting\<close>

inductive balanced :: "call list \<Rightarrow> bool" where
  nothing: "balanced []"
| profile: "balanced [Profile p]"
| malloc: "balanced [Malloc n]"
| both: "balanced xs \<Longrightarrow> balanced ys \<Longrightarrow> balanced (xs @ ys)"
| within: "balanced xs \<Longrightarrow> balanced (Enter i # xs @ [Leave i])"

definition valid_profile :: "int \<Rightarrow> bool" where
  "valid_profile p \<longleftrightarrow> KN_STD_PROFILE_HOSTED \<le> p \<and> p \<le> KN_STD_PROFILE_FREESTANDING_GC"

lemma set_valid [simp]: "valid_profile p \<Longrightarrow> kn_std_set_profile p = p" "valid_profile (kn_std_set_profile q)"
  by (auto simp: valid_profile_def kn_std_set_profile_def)

definition session_ok :: "session \<Rightarrow> bool" where
  "session_ok s \<longleftrightarrow> 0 \<le> ss_enter_depth s \<and> valid_profile (ss_std_profile s) \<and>
     ss_diagnostics s \<noteq> Null \<and> ss_temp_arena s \<noteq> Null"

definition thread_ok :: "thread \<Rightarrow> bool" where
  "thread_ok t \<longleftrightarrow> valid_profile (th_std_profile t) \<and> (\<forall>i s. th_sessions t i = Some s \<longrightarrow> session_ok s)"

lemma created_session_ok:
  "kn_compile_session_create m d a p c = Some s \<Longrightarrow> valid_profile p \<Longrightarrow> session_ok s \<and> ss_enter_depth s = 0"
  by (auto simp: kn_compile_session_create_def session_ok_def config_profile_def valid_profile_def Let_def
      split: if_splits option.splits)

lemma or_default_simps [simp]: "or_default p \<noteq> Null" "or_default (or_default p) = or_default p"
  "p \<noteq> Null \<Longrightarrow> or_default p = p"
  by (auto simp: or_default_def)

text \<open>The parts of a thread after an entry and after an exit.\<close>

lemmas switch_defs = kn_diag_context_set_current_def kn_temp_arena_set_current_def on_arena_def set_profile_def
  put_session_def diag_context_def temp_arena_context_def Let_def

lemma enter_first:
  assumes "th_sessions t i = Some s" "ss_enter_depth s = 0" "session_ok s" "kn_compile_session_enter i t = t'"
  shows "diag_context t' = ss_diagnostics s" "temp_arena_context t' = ss_temp_arena s"
    "th_std_profile t' = ss_std_profile s"
    "th_arenas t' (ss_temp_arena s) = temp_arena_begin (th_arenas t (ss_temp_arena s))"
    "th_sessions t' = (th_sessions t)(i \<mapsto> s\<lparr> ss_previous_diagnostics := diag_context t,
       ss_previous_temp_arena := temp_arena_context t, ss_previous_std_profile := th_std_profile t,
       ss_enter_depth := 1 \<rparr>)"
  using assms by (auto simp: kn_compile_session_enter_def session_ok_def switch_defs)

lemma enter_again:
  assumes "th_sessions t i = Some s" "ss_enter_depth s \<noteq> 0"
  shows "kn_compile_session_enter i t = put_session i (s\<lparr> ss_enter_depth := ss_enter_depth s + 1 \<rparr>) t"
  using assms by (simp add: kn_compile_session_enter_def)

lemma leave_last:
  assumes "th_sessions t i = Some s" "ss_enter_depth s = 1" "kn_compile_session_leave i t = t'"
  shows "diag_context t' = or_default (ss_previous_diagnostics s)"
    "temp_arena_context t' = or_default (ss_previous_temp_arena s)"
    "th_std_profile t' = kn_std_set_profile (ss_previous_std_profile s)"
    "th_sessions t' = (th_sessions t)(i \<mapsto> s\<lparr> ss_previous_diagnostics := Null,
       ss_previous_temp_arena := Null, ss_std_profile := th_std_profile t, ss_enter_depth := 0 \<rparr>)"
  using assms by (auto simp: kn_compile_session_leave_def switch_defs)

lemma leave_inner:
  assumes "th_sessions t i = Some s" "ss_enter_depth s > 1"
  shows "kn_compile_session_leave i t = put_session i (s\<lparr> ss_enter_depth := ss_enter_depth s - 1 \<rparr>) t"
  using assms by (simp add: kn_compile_session_leave_def)

text \<open>
  What balanced calls keep: the current context and arena, and of every session what it owns, its
  depth, and while it is entered what it will restore.
\<close>

definition same_session :: "session \<Rightarrow> session \<Rightarrow> bool" where
  "same_session a b \<longleftrightarrow> ss_diagnostics b = ss_diagnostics a \<and> ss_temp_arena b = ss_temp_arena a \<and>
     ss_enter_depth b = ss_enter_depth a \<and>
     (ss_enter_depth a > 0 \<longrightarrow> ss_previous_diagnostics b = ss_previous_diagnostics a \<and>
        ss_previous_temp_arena b = ss_previous_temp_arena a \<and>
        ss_previous_std_profile b = ss_previous_std_profile a)"

definition kept :: "thread \<Rightarrow> thread \<Rightarrow> bool" where
  "kept t u \<longleftrightarrow> thread_ok u \<and> diag_context u = diag_context t \<and> temp_arena_context u = temp_arena_context t \<and>
     (\<forall>i. rel_option same_session (th_sessions t i) (th_sessions u i))"

lemma same_refl [simp]: "same_session s s"
  by (simp add: same_session_def)

lemma kept_refl: "thread_ok t \<Longrightarrow> kept t t"
  by (auto simp: kept_def option.rel_refl)

lemma kept_trans: "kept t u \<Longrightarrow> kept u v \<Longrightarrow> kept t v"
proof -
  assume a: "kept t u" "kept u v"
  have "rel_option same_session (th_sessions t i) (th_sessions v i)" for i
  proof -
    have "rel_option same_session (th_sessions t i) (th_sessions u i)"
      "rel_option same_session (th_sessions u i) (th_sessions v i)" using a by (auto simp: kept_def)
    then show ?thesis
      by (cases "th_sessions t i"; cases "th_sessions u i"; cases "th_sessions v i") (auto simp: same_session_def)
  qed
  then show ?thesis using a by (simp add: kept_def)
qed

lemma kept_session:
  "kept t u \<Longrightarrow> th_sessions t i = Some s \<Longrightarrow> \<exists>s'. th_sessions u i = Some s' \<and> same_session s s' \<and> session_ok s'"
  by (auto simp: kept_def thread_ok_def option_rel_Some1 dest!: spec [of _ i])

text \<open>A session entered for the first time, with balanced calls inside.\<close>

lemma within_first:
  assumes ok: "thread_ok t" and s: "th_sessions t i = Some s" "ss_enter_depth s = 0"
    and inside: "kept (kn_compile_session_enter i t) u"
  shows "kept t (kn_compile_session_leave i u) \<and>
    th_std_profile (kn_compile_session_leave i u) = th_std_profile t \<and>
    (\<exists>s'. th_sessions (kn_compile_session_leave i u) i = Some s' \<and> ss_std_profile s' = th_std_profile u)"
proof -
  have sok: "session_ok s" using ok s by (auto simp: thread_ok_def)
  note e = enter_first [OF s sok refl]
  obtain s' where s': "th_sessions u i = Some s'" "session_ok s'"
    and same: "same_session (s\<lparr> ss_previous_diagnostics := diag_context t,
       ss_previous_temp_arena := temp_arena_context t, ss_previous_std_profile := th_std_profile t,
       ss_enter_depth := 1 \<rparr>) s'"
    using kept_session [OF inside, of i] e(5) by auto
  then have d: "ss_enter_depth s' = 1" by (simp add: same_session_def)
  note l = leave_last [OF s'(1) d refl]
  have prev: "ss_previous_diagnostics s' = diag_context t" "ss_previous_temp_arena s' = temp_arena_context t"
      "ss_previous_std_profile s' = th_std_profile t" using same by (auto simp: same_session_def)
  have uok: "thread_ok u" using inside by (simp add: kept_def)
  have others: "rel_option same_session (th_sessions t j) (th_sessions u j)" if "j \<noteq> i" for j
    using inside that e(5) by (auto simp: kept_def dest: spec [of _ j])
  have "same_session s (s'\<lparr> ss_previous_diagnostics := Null, ss_previous_temp_arena := Null,
      ss_std_profile := th_std_profile u, ss_enter_depth := 0 \<rparr>)"
    using same s by (simp add: same_session_def)
  then have "rel_option same_session (th_sessions t j) (th_sessions (kn_compile_session_leave i u) j)" for j
    using others [of j] s l(4) by (cases "j = i") auto
  moreover have "thread_ok (kn_compile_session_leave i u)"
    using uok s' l(3,4) by (auto simp: thread_ok_def session_ok_def)
  moreover have "diag_context (kn_compile_session_leave i u) = diag_context t"
    "temp_arena_context (kn_compile_session_leave i u) = temp_arena_context t"
    using l(1,2) prev by (simp_all add: diag_context_def temp_arena_context_def)
  ultimately show ?thesis using l(3,4) prev ok by (auto simp: kept_def thread_ok_def)
qed

lemma within_again:
  assumes ok: "thread_ok t" and s: "th_sessions t i = Some s" "ss_enter_depth s \<noteq> 0"
    and inside: "kept (kn_compile_session_enter i t) u"
  shows "kept t (kn_compile_session_leave i u)"
proof -
  let ?s = "s\<lparr> ss_enter_depth := ss_enter_depth s + 1 \<rparr>"
  have sok: "session_ok s" using ok s by (auto simp: thread_ok_def)
  then have deep: "ss_enter_depth s > 0" using s by (simp add: session_ok_def)
  note e = enter_again [OF s]
  obtain s' where s': "th_sessions u i = Some s'" "session_ok s'" and same: "same_session ?s s'"
    using kept_session [OF inside, of i] unfolding e by (auto simp: put_session_def)
  then have d: "ss_enter_depth s' > 1" using deep by (simp add: same_session_def)
  let ?s' = "s'\<lparr> ss_enter_depth := ss_enter_depth s' - 1 \<rparr>"
  have new: "same_session s ?s'" "session_ok ?s'"
    using same s' deep d by (auto simp: same_session_def session_ok_def)
  have "rel_option same_session (th_sessions t j) (th_sessions u j)" if "j \<noteq> i" for j
    using inside that unfolding e by (auto simp: kept_def put_session_def dest: spec [of _ j])
  then show ?thesis
    using inside new s s' unfolding e leave_inner [OF s'(1) d]
    by (auto simp: kept_def thread_ok_def put_session_def diag_context_def temp_arena_context_def)
qed

lemma balanced_keeps:
  "balanced xs \<Longrightarrow> thread_ok t \<Longrightarrow> kept t (fold (perform m) xs t)"
proof (induction xs arbitrary: t rule: balanced.induct)
  case nothing
  then show ?case by (simp add: kept_refl)
next
  case (profile p)
  then show ?case
    using option.rel_refl [of same_session]
    by (simp add: kept_def thread_ok_def set_profile_def diag_context_def temp_arena_context_def)
next
  case (malloc n)
  then show ?case
    using option.rel_refl [of same_session]
    by (simp add: kept_def thread_ok_def kn_malloc_def on_arena_def diag_context_def temp_arena_context_def)
next
  case (both xs ys)
  have "kept t (fold (perform m) xs t)" using both by simp
  moreover from this have "kept (fold (perform m) xs t) (fold (perform m) ys (fold (perform m) xs t))"
    using both by (simp add: kept_def)
  ultimately show ?case by (simp add: kept_trans)
next
  case (within xs i)
  show ?case
  proof (cases "th_sessions t i")
    case None
    then have e: "kn_compile_session_enter i t = t" by (simp add: kn_compile_session_enter_def)
    have k: "kept t (fold (perform m) xs t)" using within by simp
    then have "th_sessions (fold (perform m) xs t) i = None"
      using None by (auto simp: kept_def dest: spec [of _ i])
    then have "kn_compile_session_leave i (fold (perform m) xs t) = fold (perform m) xs t"
      by (simp add: kn_compile_session_leave_def)
    then show ?thesis using e k by simp
  next
    case (Some s)
    have sok: "session_ok s" using within.prems Some by (auto simp: thread_ok_def)
    have "thread_ok (kn_compile_session_enter i t)"
      using within.prems Some sok
      by (auto simp: kn_compile_session_enter_def thread_ok_def session_ok_def switch_defs)
    then have "kept (kn_compile_session_enter i t) (fold (perform m) xs (kn_compile_session_enter i t))"
      by (rule within.IH)
    then show ?thesis
      using within_first [OF within.prems Some] within_again [OF within.prems Some]
      by (cases "ss_enter_depth s = 0") simp_all
  qed
qed

text \<open>
  C16: Balanced calls, however sessions are nested in them, restore the diagnostic context and the
  arena that were current, and the depth of every session. A session entered from outside makes
  its own context, its emptied arena and its profile the current ones, and leaving it restores the
  profile of before and keeps for the session the one its work ended with.
\<close>

theorem session_nesting_restores:
  assumes "balanced xs" "thread_ok t" "th_sessions t i = Some s" "ss_enter_depth s = 0"
    "t1 = kn_compile_session_enter i t" "u = fold (perform m) xs t1" "v = kn_compile_session_leave i u"
  shows "diag_context t1 = ss_diagnostics s \<and> temp_arena_context t1 = ss_temp_arena s \<and>
    th_std_profile t1 = ss_std_profile s \<and>
    th_arenas t1 (ss_temp_arena s) = temp_arena_begin (th_arenas t (ss_temp_arena s)) \<and>
    diag_context u = ss_diagnostics s \<and> temp_arena_context u = ss_temp_arena s \<and>
    diag_context v = diag_context t \<and> temp_arena_context v = temp_arena_context t \<and>
    th_std_profile v = th_std_profile t \<and>
    (\<forall>j. map_option ss_enter_depth (th_sessions v j) = map_option ss_enter_depth (th_sessions t j)) \<and>
    map_option ss_std_profile (th_sessions v i) = Some (th_std_profile u)"
proof -
  have sok: "session_ok s" using assms(2,3) by (auto simp: thread_ok_def)
  note e = enter_first [OF assms(3,4) sok assms(5) [symmetric]]
  have "thread_ok t1" using assms(2,3) sok unfolding assms(5)
    by (auto simp: kn_compile_session_enter_def thread_ok_def session_ok_def switch_defs)
  then have k: "kept t1 u" unfolding assms(6) by (rule balanced_keeps [OF assms(1)])
  note w = within_first [OF assms(2,3,4) k [unfolded assms(5)], folded assms(7)]
  have "map_option ss_enter_depth (th_sessions v j) = map_option ss_enter_depth (th_sessions t j)" for j
  proof -
    have "rel_option same_session (th_sessions t j) (th_sessions v j)" using w by (simp add: kept_def)
    then show ?thesis by (cases "th_sessions t j"; cases "th_sessions v j") (auto simp: same_session_def)
  qed
  then show ?thesis using e k w by (auto simp: kept_def)
qed

definition sample_session :: "nat \<Rightarrow> int \<Rightarrow> session" where
  "sample_session i p = the (kn_compile_session_create big_mem (Context i) (Context i) p None)"

definition sample_thread :: thread where
  "sample_thread = \<lparr> th_current_context = Null, th_current_temp_arena = Null, th_std_profile = 0,
     th_arenas = (\<lambda>_. \<lparr> ta_active = False, ta_blocks = [], ta_cur = None \<rparr>),
     th_sessions = (\<lambda>i. if i = 1 then Some (sample_session 1 0) else if i = 2 then Some (sample_session 2 3) else None) \<rparr>"

lemma sample_thread_ok: "thread_ok sample_thread"
  by (auto simp: thread_ok_def sample_thread_def sample_session_def kn_compile_session_create_def session_ok_def
      valid_profile_def split: if_splits)

theorem session_nesting_restores_witness:
  "diag_context (fold (perform big_mem) [Enter 1, Enter 2, Profile 2, Malloc 5, Leave 2, Leave 1] sample_thread) =
     diag_context sample_thread \<and>
   th_std_profile (fold (perform big_mem) [Enter 1, Enter 2, Profile 2, Malloc 5, Leave 2, Leave 1] sample_thread) = 0"
proof -
  have "balanced (Enter 2 # ([Profile 2] @ [Malloc 5]) @ [Leave 2])"
    by (intro balanced.within balanced.both balanced.profile balanced.malloc)
  then have b: "balanced [Enter 2, Profile 2, Malloc 5, Leave 2]" by simp
  have s: "th_sessions sample_thread 1 = Some (sample_session 1 0)" "ss_enter_depth (sample_session 1 0) = 0"
    by (simp_all add: sample_thread_def sample_session_def kn_compile_session_create_def)
  have "th_std_profile sample_thread = 0" by (simp add: sample_thread_def)
  then show ?thesis
    using session_nesting_restores [OF b sample_thread_ok s refl refl refl, of big_mem] by simp
qed

text \<open>
  A session entered again inside another one stays behind it: the context of the inner session
  remains current, where the header says that entering makes the context of the session active.
\<close>

lemma entered_again_inactive:
  "diag_context (fold (perform m) [Enter 1, Enter 2, Enter 1] sample_thread) = Context 2"
  by (simp add: sample_thread_def sample_session_def kn_compile_session_create_def
      kn_compile_session_enter_def switch_defs or_default_def)

end
