(* ===== verification/Spec2Isabelle.thy ===== *)
theory Spec2Isabelle
  imports RtSet RtText RtGcProps RtDir RtTask RtMeta RtTime Source FormatProps
    KncCaptureProps HirProps KncTablesProps KncCodeProps KncExprTerm KncFileProps KncProgramProps KncDispatch SemaProps ParseProps
    FfiAbi Builtins Session
begin

text \<open>
  This development models the C part of Kinal: the compiler under \<open>src/apps/kinal/src\<close>, from
  the bytes of a source file to the bytes of a bytecode file, and the runtime library that compiled
  programs are linked with, \<open>src/libs/runtime/src/kn_runtime.c\<close>. Paths below are relative to
  \<open>src/apps/kinal/src\<close> unless they start with \<open>libs\<close>.

  \<^bold>\<open>The program.\<close> The driver reads a file and splits it into lines (\<open>kn_source.c\<close>). The lexer
  (\<open>kn_lexer.c\<close>) turns it into tokens; the formatter (\<open>kn_format.c\<close>) prints these tokens back, the
  parser (\<open>kn_parser.c\<close>) first rewrites them by unsafe aliases and then builds the tree of \<open>ast.h\<close>.
  The builtin classes are added (\<open>kn_builtins.c\<close>), the checker (\<open>kn_sema.c\<close>) resolves names and
  types against the declarations and the tables of builtin functions (\<open>kn_std.c\<close>), and
  \<open>kn_hir.c\<close> records for every call what it calls. From the resolved tree the bytecode emitter
  (\<open>kn_knc.c\<close>) decides which variables closures capture (\<open>kn_knc_capture.c\<close>), compiles the
  functions, builds the tables of types and virtual methods and writes the file. A run of all this
  happens inside a session (\<open>kn_session.c\<close>), on the support code of \<open>kn_util.c\<close>. The native back
  end goes through LLVM instead; its programs use the collections, texts, paths, exceptions, tasks
  and the garbage collector of the runtime.

  \<^bold>\<open>How code is modelled.\<close> A struct is a record, an enumeration or tagged union a datatype (the
  kinds of builtin functions, of which there are hundreds, are integers), a C string a \<open>cstr\<close>:
  the null pointer or the bytes before the terminator. Integers have the width of the code where
  wrap-around can be seen: hashes and digits are words, and sizes, operands and offsets are numbers
  with the \<open>mod\<close> written out. Allocation can fail where the code handles
  it: \<open>amem\<close> says which sizes succeed. Errors are values: \<open>None\<close>, a boolean or a logged report. A
  loop is a structural recursion or a function with a measure. Loops that may run forever are
  partial functions into \<open>option\<close>, where \<open>None\<close> means that the loop does not return, and the
  theorems say when it does.

  \<^bold>\<open>Shared theories.\<close>
  \<^item> \<open>Prelude\<close>: C strings, memory, bytes, list and word lemmas.
  \<^item> \<open>HeapSort\<close>: the locale \<open>heap_sort\<close> over a locale of strict weak orders: from the one-step
    equations of an array heap sort it derives that the result is the sorted permutation. It is
    interpreted for the block index of the collector and for the path list of directory scans.
  \<^item> \<open>RtProbe\<close>: the locale \<open>probe_table\<close> of open addressing with linear probing, interpreted for the
    tables of the dictionary and of the set.

  \<^bold>\<open>The runtime\<close> (\<open>libs/runtime/src/kn_runtime.c\<close>).
  \<^item> \<open>RtString\<close>, \<open>RtText\<close>: byte strings, search, replacement, split and join. Splitting and
    joining are inverse, replacing is splitting and joining, and every output buffer is sized exactly.
  \<^item> \<open>RtList\<close>, \<open>RtDict\<close>, \<open>RtSet\<close>: the collections. Each has an abstract value (a list, a map, a set),
    an invariant every operation keeps, and a lemma per operation; the locales \<open>value_sink\<close> and
    \<open>string_map\<close> are their interfaces to clients. What happens when memory runs out is part of
    the statements: a full dictionary that cannot grow gives its first slot to the
    new key.
  \<^item> \<open>RtGc\<close>, \<open>RtGcProps\<close>: blocks, frames, roots, the sorted index, marking and sweeping on a memory
    of words. A collection ends and keeps exactly the reachable blocks; the mark stack, as long as the
    number of blocks, never overflows; an allocation loses nothing and returns cleared memory.
  \<^item> \<open>RtPath\<close>, \<open>RtPathProps\<close>: path operations for both targets, refined to a stack of segments.
  \<^item> \<open>RtDir\<close>: directory listings over a given tree: every file, sorted. \<open>RtTime\<close>: time formats,
    every field of every pattern. \<open>RtMeta\<close>: the registry of metadata, which answers for exactly what
    is exported.
  \<^item> \<open>RtTask\<close>: exceptions, and the finishing of asynchronous tasks as an inductive step relation over
    interleaved threads, with its invariant by rule induction and the reachability of the end.

  \<^bold>\<open>Front end.\<close>
  \<^item> \<open>Util\<close> (\<open>kn_util.c\<close>): bounded appending, decimal output, the command line and the arena, whose
    payloads are aligned and disjoint. \<open>Source\<close> (\<open>kn_source.c\<close>): the line table. \<open>Session\<close>
    (\<open>kn_session.c\<close>): nested sessions restore the state of the thread, by induction on balanced
    sequences of entries and exits.
  \<^item> \<open>Lexer\<close>, \<open>LexerProps\<close> (\<open>kn_lexer.c\<close>): tokens cover the source up to the end token, in order,
    with true positions, and the end token stands at the end or at a byte no token starts with;
    the locale \<open>token_stream\<close> derives the covering of the source from the laws of one step.
  \<^item> \<open>Format\<close>, \<open>FormatProps\<close> (\<open>kn_format.c\<close>): formatting changes blanks only when the tokens reach
    the end of the source and no carriage return stands alone; for every other source the text that
    is kept and the text that is dropped.
  \<^item> \<open>Parse\<close>, \<open>ParseProps\<close> (\<open>kn_parser.c\<close>): unsafe aliases, the cursor, dotted names, messages and
    recovery. The tokens after rewriting end with their only end-of-file token, and therefore
    every loop that skips tokens ends.
  \<^item> \<open>Ast\<close> (\<open>ast.h\<close>, \<open>kn_ast.c\<close>): the tree. The address of a node, which the code compares, is a
    number in the node. \<open>Builtins\<close> (\<open>kn_builtins.c\<close>): the classes added to every program.
  \<^item> \<open>StdTable\<close> (\<open>kn_std.c\<close>): the tables of builtin functions in full, and their lookups, which are
    unambiguous in every profile. \<open>FfiAbi\<close> (\<open>kn_ffi_abi.c\<close>): types at the foreign boundary.
  \<^item> \<open>Sema\<close>, \<open>SemaFind\<close>, \<open>SemaArgs\<close>, \<open>SemaProps\<close> (\<open>kn_sema.c\<close> and the lookups it uses from
    \<open>sema/kn_sema_validate.inc\<close>): messages, depth limits, imports, aliases, the scored search for
    declarations, overridden methods and named arguments. Alias chains have the bound of the code,
    one round more than there are imports. Walks over base classes have no bound in the code; the
    theorem says exactly when they end.
  \<^item> \<open>Hir\<close>, \<open>HirProps\<close> (\<open>kn_hir.c\<close>): call records and statistics. After the pass every call
    anywhere in the program has the record its declarations call for, and nothing else is changed.

  \<^bold>\<open>Bytecode\<close> (\<open>kn_knc.c\<close>, \<open>kn_knc_capture.c\<close>).
  \<^item> \<open>KncCapture\<close>, \<open>KncCaptureProps\<close>: the capture plan is equivalent to a specification by the
    binding structure of the body.
  \<^item> \<open>KncTables\<close>, \<open>KncTablesProps\<close>: constant pools, types, globals and the layout of fields. The
    locale \<open>const_pool\<close>, interpreted for integers, floats and strings, gives the stability of the
    pools under any mixture of additions. The walks over base classes have no bound in the code; the statements assume an acyclic hierarchy.
  \<^item> \<open>KncCode\<close>, \<open>KncCodeProps\<close>: instructions as bytes, their sizes, patching and the listing.
  \<^item> \<open>KncEmit\<close>, \<open>KncExpr\<close>, \<open>KncLoops\<close>, \<open>KncStmt\<close>, \<open>KncBuild\<close>: the compiler of expressions, the
    recognition of counting loops, statements, function bodies and whole programs, one definition
    per C function or per branch of the two large switches. The mutual recursion of the code is one
    recursion whose step takes the compiler of subexpressions as an argument and whose recursive
    calls are guarded by the size of the tree; \<open>KncExprTerm\<close> proves that the guard is never
    seen: rounds of the step, more than the size of the expression, leave no recursive call.
    The test whether a class derives from another gives up after 256 classes, as the code does.
    Loops over the functions still to be compiled are partial functions.
  \<^item> \<open>KncEmitProps\<close>, \<open>KncEmitKeeps\<close>, \<open>KncExprKeeps\<close>, \<open>KncStmtKeeps\<close>, \<open>KncBuildProps\<close>,
    \<open>KncProgramProps\<close>: the invariant of emitted code, whole instructions whose jumps go to
    instructions or are still to be patched, followed through every routine. The locales
    \<open>expr_keeps\<close> and \<open>stmt_keeps\<close> state it of a compiler of subtrees; their interpretations for
    \<open>compile_expr\<close> and \<open>compile_stmt\<close> close the recursion.
  \<^item> \<open>KncFile\<close>, \<open>KncFileProps\<close>: the bytes of the file; the locale \<open>codec\<close>, interpreted for each part
    of the format, gives the round trip. \<open>KncDispatch\<close>: virtual tables and the choice of the entry.

  \<^bold>\<open>Not modelled.\<close> The recursive descent of the parser, the checking of declarations, expressions
  and statements and the option handling of driver and linker are in \<open>.inc\<close> files under \<open>parser\<close>,
  \<open>sema\<close>, \<open>driver\<close> and \<open>link\<close>; the routines that the modelled files use from there are included.
  Native code generation (\<open>kn_codegen.c\<close>, \<open>codegen\<close>) and the bridge of the self-hosted compiler
  consist of calls of LLVM, the JSON, HTTP and mathematics parts of the runtime of calls of
  other libraries, and the platform layer of system calls: none of these is under \<open>src\<close>. The
  language server is a C++ program of its own. The printing of messages is output only. Access
  levels and other flags that only the checker reads are not fields of the modelled declarations.
\<close>

end
